(* ===== verification/Prelude.thy ===== *)
theory Prelude
  imports Main "HOL-Library.Word"
begin

unbundle bit_operations_syntax

text \<open>
  Shared vocabulary of the development: the machine integers of the Rust sources, the
  standard-library operations on them that the sources call (saturating arithmetic, shifts,
  \<^verbatim>\<open>trailing_zeros\<close>, \<^verbatim>\<open>leading_zeros\<close>, \<^verbatim>\<open>div_ceil\<close>), generic lemmas on lists and words, and
  the collections of simplification facts the component proofs share.

  Registers, addresses and bit patterns are words at their width. Counts and indices whose
  arithmetic the sources keep in range with saturating or checked operations are natural
  numbers with the saturation written out.
\<close>

section \<open>Machine integers\<close>

type_synonym u8 = "8 word"
type_synonym u16 = "16 word"
type_synonym u32 = "32 word"
type_synonym u64 = "64 word"

type_synonym xvalue = u64
type_synonym address = u64

named_theorems spec_simps "characterisations of model operations by their specification"
named_theorems range_simps "facts on page ranges and list segments"

text \<open>Rust's \<^verbatim>\<open><<\<close> and \<^verbatim>\<open>>>\<close>: in a release build the shift amount is taken modulo the width.\<close>

definition rust_shl :: "'a::len word \<Rightarrow> nat \<Rightarrow> 'a word" where
  "rust_shl w n = push_bit (n mod LENGTH('a)) w"

definition rust_shr :: "'a::len word \<Rightarrow> nat \<Rightarrow> 'a word" where
  "rust_shr w n = drop_bit (n mod LENGTH('a)) w"

text \<open>\<^verbatim>\<open>u64::saturating_add\<close> on values below \<open>2 ^ 64\<close>; \<^verbatim>\<open>saturating_sub\<close> is subtraction on \<open>nat\<close>.\<close>

definition u64_max :: nat where
  "u64_max = 2 ^ 64 - 1"

definition saturating_add :: "nat \<Rightarrow> nat \<Rightarrow> nat" where
  "saturating_add a b = min (a + b) u64_max"

definition saturating_mul :: "nat \<Rightarrow> nat \<Rightarrow> nat" where
  "saturating_mul a b = min (a * b) u64_max"

definition checked_sub :: "nat \<Rightarrow> nat \<Rightarrow> nat option" where
  "checked_sub a b = (if b \<le> a then Some (a - b) else None)"

definition div_ceil :: "nat \<Rightarrow> nat \<Rightarrow> nat" where
  "div_ceil a b = (a + b - 1) div b"

text \<open>\<^verbatim>\<open>u64::trailing_zeros\<close> and \<^verbatim>\<open>u64::leading_zeros\<close>; both are the width on 0.\<close>

definition trailing_zeros :: "'a::len word \<Rightarrow> nat" where
  "trailing_zeros w = length (takeWhile Not (map (bit w) [0..<LENGTH('a)]))"

definition leading_zeros :: "'a::len word \<Rightarrow> nat" where
  "leading_zeros w = length (takeWhile Not (map (bit w) (rev [0..<LENGTH('a)])))"

section \<open>Shifts, saturation, rounding\<close>

lemma rust_shl_eq [simp]: "n < LENGTH('a) \<Longrightarrow> rust_shl (w :: 'a::len word) n = push_bit n w"
  by (simp add: rust_shl_def)

lemma rust_shr_eq [simp]: "n < LENGTH('a) \<Longrightarrow> rust_shr (w :: 'a::len word) n = drop_bit n w"
  by (simp add: rust_shr_def)

lemma saturating_add_eq [simp]: "a + b \<le> u64_max \<Longrightarrow> saturating_add a b = a + b"
  by (simp add: saturating_add_def)

lemma saturating_add_pos_iff [simp]: "0 < saturating_add a b \<longleftrightarrow> 0 < a + b"
  by (auto simp: saturating_add_def u64_max_def)

lemma div_ceil_le_iff: "0 < b \<Longrightarrow> div_ceil a b \<le> n \<longleftrightarrow> a \<le> n * b"
proof -
  assume b: "0 < b"
  have "div_ceil a b \<le> n \<longleftrightarrow> (a + b - 1) div b < Suc n"
    by (simp add: div_ceil_def less_Suc_eq_le)
  also have "\<dots> \<longleftrightarrow> a + b - 1 < Suc n * b"
    using b by (simp only: div_less_iff_less_mult)
  also have "\<dots> \<longleftrightarrow> a \<le> n * b"
    using b by auto
  finally show ?thesis .
qed

lemma div_ceil_pos_iff: "0 < b \<Longrightarrow> 0 < div_ceil a b \<longleftrightarrow> 0 < a"
  using div_ceil_le_iff [of b a 0] by auto

lemma div_ceil_mult_ge: "0 < b \<Longrightarrow> a \<le> div_ceil a b * b"
  using div_ceil_le_iff [of b a "div_ceil a b"] by simp

text \<open>
  A byte range that starts in unit \<open>a div b\<close> and is \<open>l\<close> bytes long needs no unit beyond the
  one its last byte lies in, whatever the alignment of \<open>a\<close>.
\<close>

lemma div_add_div_ceil_le:
  fixes a b l n :: nat
  assumes "0 < b" and "a + l \<le> n * b"
  shows "a div b + div_ceil l b \<le> n"
proof -
  have "a div b * b \<le> a" by simp
  with assms(2) have "l \<le> n * b - a div b * b" by linarith
  then have "l \<le> (n - a div b) * b" by (simp add: diff_mult_distrib)
  with assms(1) have "div_ceil l b \<le> n - a div b" by (simp add: div_ceil_le_iff)
  moreover have "a div b \<le> n"
    using assms by (metis add_leD1 div_le_mono nonzero_mult_div_cancel_right not_gr_zero)
  ultimately show ?thesis by simp
qed

section \<open>List segments\<close>

text \<open>Overwrite the \<open>n\<close> elements of \<open>xs\<close> that start at index \<open>i\<close>.\<close>

definition fill :: "'a list \<Rightarrow> nat \<Rightarrow> nat \<Rightarrow> 'a \<Rightarrow> 'a list" where
  "fill xs i n v = map (\<lambda>k. if i \<le> k \<and> k < i + n then v else xs ! k) [0..<length xs]"

lemma length_fill [simp]: "length (fill xs i n v) = length xs"
  by (simp add: fill_def)

lemma nth_fill [simp]:
  "k < length xs \<Longrightarrow> fill xs i n v ! k = (if i \<le> k \<and> k < i + n then v else xs ! k)"
  by (simp add: fill_def)

lemma fill_0 [simp]: "fill xs i 0 v = xs"
  by (rule nth_equalityI) auto

lemma fill_beyond: "length xs \<le> i \<Longrightarrow> fill xs i n v = xs"
  by (rule nth_equalityI) auto

lemma fill_fill_same [simp]: "fill (fill xs i n v) i n w = fill xs i n w"
  by (rule nth_equalityI) auto

lemma fill_all: "length xs \<le> n \<Longrightarrow> fill xs 0 n v = replicate (length xs) v"
  by (rule nth_equalityI) auto

lemma fill_append:
  "fill (xs @ ys) i n v =
     fill xs i n v @ fill ys (i - length xs) (n - (length xs - i)) v"
  by (rule nth_equalityI) (auto simp: nth_append)

lemma fill_commute:
  "i + n \<le> j \<or> j + m \<le> i \<Longrightarrow> fill (fill xs i n v) j m w = fill (fill xs j m w) i n v"
  by (rule nth_equalityI) auto

lemma fill_idem: "(\<And>k. i \<le> k \<Longrightarrow> k < i + n \<Longrightarrow> k < length xs \<Longrightarrow> xs ! k = v) \<Longrightarrow> fill xs i n v = xs"
  by (rule nth_equalityI) auto

section \<open>Bits of words\<close>

lemma takeWhile_map_shift:
  "map (\<lambda>i. f (k + i)) [0..<n] = map f [k..<k + n]"
  by (rule nth_equalityI) auto

lemma length_takeWhile_min:
  "length (takeWhile P (take n xs)) = min n (length (takeWhile P xs))"
proof (induction xs arbitrary: n)
  case Nil
  show ?case by simp
next
  case (Cons x xs)
  then show ?case by (cases n) auto
qed

lemma mask_shift_disjoint_iff:
  fixes w :: "'a::len word"
  shows "w AND push_bit s (mask n) = 0 \<longleftrightarrow> (\<forall>k < LENGTH('a). s \<le> k \<and> k < s + n \<longrightarrow> \<not> bit w k)"
  by (auto simp: bit_eq_iff bit_simps)

end
