(* ===== verification/Page_Permissions.thy ===== *)
theory Page_Permissions
  imports Prelude
begin

unbundle bit_operations_syntax

text \<open>
  Model of \<^verbatim>\<open>machine_state/memory/protection.rs\<close> and of the page constants and
  \<^verbatim>\<open>Permissions\<close> of \<^verbatim>\<open>machine_state/memory.rs\<close>. The permission cells of a component are a list
  of booleans, one per page. The checks index that list with \<^verbatim>\<open>get_unchecked\<close>, which is
  undefined behaviour out of range: the model returns \<open>None\<close> there, so that the absence of
  undefined behaviour is a theorem.
\<close>

definition OFFSET_BITS :: nat where
  "OFFSET_BITS = 12"

definition PAGE_SIZE :: nat where
  "PAGE_SIZE = 2 ^ OFFSET_BITS"

record permissions =
  perm_read :: bool
  perm_write :: bool
  perm_exec :: bool

definition permissions_none :: permissions where
  "permissions_none = \<lparr>perm_read = False, perm_write = False, perm_exec = False\<rparr>"

type_synonym page_permissions = "bool list"

definition start_page :: "address \<Rightarrow> nat" where
  "start_page address = unat (drop_bit OFFSET_BITS address)"

definition end_page :: "address \<Rightarrow> nat \<Rightarrow> nat" where
  "end_page address len = unat (drop_bit OFFSET_BITS (address + of_nat len - 1))"

text \<open>The loop of \<^verbatim>\<open>can_access\<close>: stops at the first page without access.\<close>

fun check_pages :: "page_permissions \<Rightarrow> nat list \<Rightarrow> bool option" where
  "check_pages pages [] = Some True"
| "check_pages pages (page # rest) =
     (if length pages \<le> page then None
      else if \<not> pages ! page then Some False
      else check_pages pages rest)"

definition can_access :: "page_permissions \<Rightarrow> address \<Rightarrow> nat \<Rightarrow> bool option" where
  "can_access pages address len =
     (if len < 1 then Some True
      else check_pages pages [start_page address..<Suc (end_page address len)])"

definition can_access_narrow :: "page_permissions \<Rightarrow> address \<Rightarrow> nat \<Rightarrow> bool option" where
  "can_access_narrow pages address width =
     (if length pages \<le> start_page address then None
      else if \<not> pages ! start_page address then Some False
      else if length pages \<le> end_page address width then None
      else Some (pages ! end_page address width))"

definition modify_access :: "page_permissions \<Rightarrow> address \<Rightarrow> nat \<Rightarrow> bool \<Rightarrow> page_permissions" where
  "modify_access pages address len accessible =
     (if len < 1 then pages
      else foldl (\<lambda>ps page. ps[page := accessible]) pages
             (filter (\<lambda>page. page < length pages) [start_page address..<Suc (end_page address len)]))"

section \<open>Page arithmetic\<close>

lemma PAGE_SIZE_pos [simp]: "0 < PAGE_SIZE"
  by (simp add: PAGE_SIZE_def)

lemma start_page_eq: "start_page address = unat address div PAGE_SIZE"
  by (simp add: start_page_def PAGE_SIZE_def unat_drop_bit_eq flip: drop_bit_eq_div)

lemma unat_last_byte:
  assumes "0 < len" and "unat (address :: u64) + len \<le> u64_max"
  shows "unat (address + of_nat len - 1) = unat address + len - 1"
proof -
  from assms have "unat (of_nat len :: u64) = len"
    by (simp add: unat_of_nat u64_max_def)
  moreover from assms have "unat (address + of_nat len) = unat address + len"
    by (subst unat_add_lem [THEN iffD1]) (simp_all add: calculation u64_max_def)
  moreover from this assms have "address + of_nat len \<noteq> 0" by (metis add_is_0 not_less0 unat_0)
  ultimately show ?thesis
    by (simp add: unat_minus_one)
qed

lemma end_page_eq:
  assumes "0 < len" and "unat address + len \<le> u64_max"
  shows "end_page address len = (unat address + len - 1) div PAGE_SIZE"
  using unat_last_byte [OF assms]
  by (simp add: end_page_def PAGE_SIZE_def unat_drop_bit_eq flip: drop_bit_eq_div)

lemma page_bounds:
  assumes "0 < len" and "unat address + len \<le> n * PAGE_SIZE" and "n * PAGE_SIZE \<le> u64_max"
  shows "start_page address \<le> end_page address len" and "end_page address len < n"
proof -
  have e: "end_page address len = (unat address + len - 1) div PAGE_SIZE"
    using assms by (intro end_page_eq) auto
  show "start_page address \<le> end_page address len"
    unfolding e start_page_eq using assms(1) by (intro div_le_mono) simp
  show "end_page address len < n"
    unfolding e using assms by (subst div_less_iff_less_mult) auto
qed

text \<open>The pages between the first and the last are those of the bytes of the access.\<close>

lemma touched_page_iff:
  assumes "0 < len" and "unat address + len \<le> u64_max"
  shows "(\<exists>b < len. (unat address + b) div PAGE_SIZE = p) \<longleftrightarrow> start_page address \<le> p \<and> p \<le> end_page address len"
proof
  note end_eq = end_page_eq [OF assms]
  show "start_page address \<le> p \<and> p \<le> end_page address len"
    if "\<exists>b < len. (unat address + b) div PAGE_SIZE = p"
    using that by (auto simp: start_page_eq end_eq intro!: div_le_mono)
  show "\<exists>b < len. (unat address + b) div PAGE_SIZE = p"
    if p: "start_page address \<le> p \<and> p \<le> end_page address len"
  proof (cases "p = start_page address")
    case True
    with assms(1) show ?thesis by (intro exI [of _ 0]) (simp add: start_page_eq)
  next
    case False
    with p have "unat address div PAGE_SIZE < p" by (auto simp: start_page_eq)
    then have lo: "unat address < p * PAGE_SIZE" by (simp add: div_less_iff_less_mult)
    from p have "p * PAGE_SIZE \<le> unat address + len - 1"
      by (auto simp: end_eq less_eq_div_iff_mult_less_eq)
    with lo assms(1) show ?thesis by (intro exI [of _ "p * PAGE_SIZE - unat address"]) auto
  qed
qed

section \<open>Checks and updates\<close>

lemma check_pages_eq:
  "\<forall>p \<in> set ps. p < length pages \<Longrightarrow> check_pages pages ps = Some (\<forall>p \<in> set ps. pages ! p)"
  by (induction ps) auto

lemma can_access_eq:
  assumes "unat address + len \<le> length pages * PAGE_SIZE" and "length pages * PAGE_SIZE \<le> u64_max"
  shows "can_access pages address len =
     Some (\<forall>b < len. pages ! ((unat address + b) div PAGE_SIZE))"
proof (cases "len = 0")
  case False
  then have len: "0 < len" by simp
  note e = page_bounds [OF len assms]
  have "check_pages pages [start_page address..<Suc (end_page address len)] =
      Some (\<forall>p. start_page address \<le> p \<and> p \<le> end_page address len \<longrightarrow> pages ! p)"
    using e by (subst check_pages_eq) (auto simp del: upt_Suc)
  also have "\<dots> = Some (\<forall>b < len. pages ! ((unat address + b) div PAGE_SIZE))"
    unfolding touched_page_iff [OF len order_trans [OF assms], symmetric] by blast
  finally show ?thesis
    using len by (simp add: can_access_def del: upt_Suc)
qed (simp add: can_access_def)

text \<open>An access narrower than a page touches at most two pages, so the fast check is exact.\<close>

lemma can_access_narrow_eq:
  assumes "unat address + w \<le> length pages * PAGE_SIZE" and "length pages * PAGE_SIZE \<le> u64_max"
    and "0 < w" "w < PAGE_SIZE"
  shows "can_access_narrow pages address w = can_access pages address w"
proof -
  note e = page_bounds [OF assms(3) assms(1,2)]
  have "unat address + w - 1 \<le> unat address + PAGE_SIZE" using assms by simp
  then have "end_page address w \<le> Suc (start_page address)"
    using assms end_page_eq [of w address]
    by (metis PAGE_SIZE_pos Suc_eq_plus1 add_leE add_self_div_2 div_add_self2 div_le_mono le_trans not_gr_zero start_page_eq)
  with e(1) consider "end_page address w = start_page address" | "end_page address w = Suc (start_page address)"
    by linarith
  then show ?thesis
    using e assms(3) by cases (auto simp: can_access_narrow_def can_access_def)
qed

lemma foldl_list_update_filter:
  "foldl (\<lambda>ps p. ps[p := v]) xs (filter (\<lambda>p. p < length xs) [i..<i + n]) = fill xs i n v"
proof (induction n)
  case (Suc n)
  show ?case
  proof (cases "i + n < length xs")
    case True
    with Suc have "foldl (\<lambda>ps p. ps[p := v]) xs (filter (\<lambda>p. p < length xs) [i..<i + Suc n]) =
        (fill xs i n v)[i + n := v]" by simp
    also have "\<dots> = fill xs i (Suc n) v"
      using True by (intro nth_equalityI) (auto simp: nth_list_update)
    finally show ?thesis .
  next
    case False
    then have "fill xs i (Suc n) v = fill xs i n v"
      by (intro nth_equalityI) auto
    with False Suc show ?thesis by simp
  qed
qed simp

lemma modify_access_fill:
  assumes "0 < len" and "start_page address \<le> end_page address len"
  shows "modify_access pages address len v =
     fill pages (start_page address) (Suc (end_page address len) - start_page address) v"
proof -
  have "start_page address + (Suc (end_page address len) - start_page address) = Suc (end_page address len)"
    using assms(2) by simp
  then show ?thesis
    using assms(1) foldl_list_update_filter [of v pages "start_page address" "Suc (end_page address len) - start_page address"]
    by (simp add: modify_access_def del: upt_Suc)
qed

lemma length_modify_access [simp]: "length (modify_access pages address len v) = length pages"
proof -
  have "length (foldl (\<lambda>ps p. ps[p := v]) xs ys) = length xs" for xs :: "bool list" and ys
    by (induction ys arbitrary: xs) auto
  then show ?thesis by (simp add: modify_access_def del: upt_Suc)
qed

lemma nth_modify_access:
  assumes "unat address + len \<le> length pages * PAGE_SIZE" and "length pages * PAGE_SIZE \<le> u64_max"
    and "p < length pages"
  shows "modify_access pages address len v ! p =
    (if \<exists>b < len. (unat address + b) div PAGE_SIZE = p then v else pages ! p)"
proof (cases "len = 0")
  case True
  then show ?thesis by (simp add: modify_access_def)
next
  case False
  then have len: "0 < len" by simp
  note e = page_bounds [OF len assms(1,2)]
  have "(\<exists>b < len. (unat address + b) div PAGE_SIZE = p) \<longleftrightarrow> start_page address \<le> p \<and> p \<le> end_page address len"
    using len assms by (intro touched_page_iff) auto
  then show ?thesis
    using len e assms(3) by (simp add: modify_access_fill less_Suc_eq_le)
qed

end
