(* ===== verification/Bits.thy ===== *)
theory Bits
  imports Prelude
begin

unbundle bit_operations_syntax

text \<open>
  Model of \<^verbatim>\<open>src/riscv/lib/src/bits.rs\<close>: the bit-field helpers that the macro
  \<^verbatim>\<open>bits_builtin!\<close> generates for \<^verbatim>\<open>u16\<close> and \<^verbatim>\<open>u64\<close>, and \<^verbatim>\<open>ones\<close>. The helpers are modelled once for
  every word length \<open>LENGTH('a)\<close>, the macro's \<^verbatim>\<open>$size\<close>. The \<^verbatim>\<open>debug_assert!\<close>s of
  \<^verbatim>\<open>mask_subset\<close> are the predicate \<open>mask_subset_asserts\<close>; a release build runs the same
  arithmetic without them.
\<close>

definition mask_subset_asserts :: "'a::len itself \<Rightarrow> nat \<Rightarrow> nat \<Rightarrow> bool" where
  "mask_subset_asserts _ start end_bit \<longleftrightarrow>
     start < LENGTH('a) \<and> end_bit \<le> start \<and> \<not> (start = LENGTH('a) - 1 \<and> end_bit = 0)"

definition mask_subset :: "nat \<Rightarrow> nat \<Rightarrow> 'a::len word" where
  "mask_subset start end_bit =
     (let top = rust_shl 1 (1 + start - end_bit) in rust_shl (top - 1) end_bit)"

definition mask_range :: "nat \<Rightarrow> nat \<Rightarrow> 'a::len word" where
  "mask_range start end_bit =
     (if start = LENGTH('a) - 1 \<and> end_bit = 0 then - 1 else mask_subset start end_bit)"

definition bit_at :: "'a::len word \<Rightarrow> nat \<Rightarrow> bool" where
  "bit_at v n \<longleftrightarrow> rust_shr v n AND 1 \<noteq> 0"

definition bits_subset :: "'a::len word \<Rightarrow> nat \<Rightarrow> nat \<Rightarrow> 'a word" where
  "bits_subset v start end_bit = rust_shr (v AND mask_subset start end_bit) end_bit"

definition set_bit_at :: "'a::len word \<Rightarrow> nat \<Rightarrow> bool \<Rightarrow> 'a word" where
  "set_bit_at v n value =
     (v AND NOT (rust_shl 1 n)) OR rust_shl (if value then 1 else 0) n"

definition replace_subset :: "'a::len word \<Rightarrow> nat \<Rightarrow> nat \<Rightarrow> 'a word \<Rightarrow> 'a word" where
  "replace_subset v start end_bit bits =
     (let m = mask_subset start end_bit in (v AND NOT m) OR (rust_shl bits end_bit AND m))"

definition ones :: "nat \<Rightarrow> u64" where
  "ones n = (if n = 0 then 0 else rust_shr (- 1) (64 - n))"

section \<open>Bit-level characterisations\<close>

lemma mask_subset_eq:
  assumes "mask_subset_asserts TYPE('a::len) start end_bit"
  shows "(mask_subset start end_bit :: 'a word) = push_bit end_bit (mask (1 + start - end_bit))"
proof -
  from assms have "1 + start - end_bit < LENGTH('a)"
    by (auto simp: mask_subset_asserts_def)
  with assms show ?thesis
    by (simp add: mask_subset_def mask_subset_asserts_def Let_def mask_eq_exp_minus_1 push_bit_eq_mult)
qed

lemma bit_mask_subset:
  assumes "mask_subset_asserts TYPE('a::len) start end_bit"
  shows "bit (mask_subset start end_bit :: 'a word) k \<longleftrightarrow> end_bit \<le> k \<and> k \<le> start"
  using assms by (auto simp: mask_subset_eq bit_simps mask_subset_asserts_def)

lemma bit_mask_range:
  assumes "start < LENGTH('a::len)" and "end_bit \<le> start"
  shows "bit (mask_range start end_bit :: 'a word) k \<longleftrightarrow> end_bit \<le> k \<and> k \<le> start"
proof (cases "start = LENGTH('a) - 1 \<and> end_bit = 0")
  case True
  then show ?thesis using assms by (auto simp: mask_range_def bit_simps)
next
  case False
  with assms have "mask_subset_asserts TYPE('a) start end_bit"
    by (simp add: mask_subset_asserts_def)
  with False show ?thesis by (auto simp: mask_range_def bit_mask_subset)
qed

lemma bit_at_eq [simp]: "n < LENGTH('a::len) \<Longrightarrow> bit_at (v :: 'a word) n = bit v n"
  by (simp add: bit_at_def bit_iff_and_drop_bit_eq_1 and_one_eq odd_iff_mod_2_eq_one even_drop_bit_iff_not_bit)

lemma bit_bits_subset:
  assumes "mask_subset_asserts TYPE('a::len) start end_bit"
  shows "bit (bits_subset v start end_bit :: 'a word) k \<longleftrightarrow>
           k \<le> start - end_bit \<and> bit v (end_bit + k)"
proof -
  from assms have "end_bit < LENGTH('a)" "end_bit \<le> start" by (auto simp: mask_subset_asserts_def)
  then show ?thesis
    using assms by (auto simp: bits_subset_def bit_simps bit_mask_subset)
qed

lemma bit_replace_subset:
  assumes "mask_subset_asserts TYPE('a::len) start end_bit"
  shows "bit (replace_subset v start end_bit b :: 'a word) k \<longleftrightarrow>
           (if end_bit \<le> k \<and> k \<le> start then bit b (k - end_bit) else bit v k)"
proof -
  from assms have "end_bit < LENGTH('a)" "start < LENGTH('a)" by (auto simp: mask_subset_asserts_def)
  then show ?thesis
    using assms by (auto simp: replace_subset_def Let_def bit_simps bit_mask_subset dest: bit_imp_le_length)
qed

lemma bit_set_bit_at:
  assumes "n < LENGTH('a::len)"
  shows "bit (set_bit_at v n b :: 'a word) k \<longleftrightarrow> (if k = n then b else bit v k)"
  using assms by (auto simp: set_bit_at_def bit_simps dest: bit_imp_le_length)

text \<open>\<^verbatim>\<open>ones(n)\<close> is the mask of the \<open>n\<close> lowest bits, saturating at 64.\<close>

lemma ones_eq_mask [simp]: "ones n = mask n"
proof (cases "n = 0")
  case False
  have "drop_bit (64 - n) (- 1 :: u64) = mask n"
    by (rule bit_eqI) (auto simp: bit_simps)
  with False show ?thesis by (simp add: ones_def)
qed (simp add: ones_def)

text \<open>
  Reading back a field that was just replaced gives the new field truncated to its
  width, and every field that does not overlap it reads as before.
\<close>

theorem bits_replace_subset_roundtrip:
  fixes v b :: "'a::len word"
  assumes "mask_subset_asserts TYPE('a) s e" and "mask_subset_asserts TYPE('a) s' e'"
  shows "bits_subset (replace_subset v s e b) s e = b AND mask (1 + s - e) \<and>
         (s < e' \<or> s' < e \<longrightarrow>
            bits_subset (replace_subset v s e b) s' e' = bits_subset v s' e')"
proof (intro conjI impI)
  show "bits_subset (replace_subset v s e b) s e = b AND mask (1 + s - e)"
    using assms(1)
    by (intro bit_eqI)
       (auto simp: bit_bits_subset bit_replace_subset bit_simps mask_subset_asserts_def)
  show "bits_subset (replace_subset v s e b) s' e' = bits_subset v s' e'" if "s < e' \<or> s' < e"
    using assms that
    by (intro bit_eqI)
       (auto simp: bit_bits_subset bit_replace_subset mask_subset_asserts_def)
qed

theorem bits_replace_subset_roundtrip_witness:
  "bits_subset (replace_subset (0xABCD :: 16 word) 7 4 0x12) 7 4 = 0x2 \<and>
   bits_subset (replace_subset (0xABCD :: 16 word) 7 4 0x12) 15 8 = 0xAB"
proof -
  have "mask_subset_asserts TYPE(16) 7 4" "mask_subset_asserts TYPE(16) 15 8"
    by (simp_all add: mask_subset_asserts_def)
  then have "bits_subset (replace_subset (0xABCD :: 16 word) 7 4 0x12) 7 4 = 0x12 AND mask (1 + 7 - 4) \<and>
      (7 < (8::nat) \<or> 15 < (4::nat) \<longrightarrow>
        bits_subset (replace_subset (0xABCD :: 16 word) 7 4 0x12) 15 8 = bits_subset 0xABCD 15 8)"
    by (rule bits_replace_subset_roundtrip)
  moreover have "(bits_subset 0xABCD 15 8 :: 16 word) = 0xAB"
    by (simp add: bits_subset_def mask_subset_def Let_def)
  ultimately show ?thesis
    by (simp add: mask_eq_exp_minus_1)
qed

end
