(* ===== verification/Page_Spec.thy ===== *)
theory Page_Spec
  imports Prelude
begin

text \<open>
  The abstract page allocator that the Buddy memory manager implements. Its state is the
  occupancy list: element \<open>i\<close> says whether page \<open>i\<close> is allocated. The file gives the
  specification functions on such lists (runs of free pages, the first fit of a request),
  how they distribute over the concatenation of two halves, and the interface of a page
  allocator as a locale, with the facts its clients use.
\<close>

section \<open>Specification functions\<close>

definition free_start :: "bool list \<Rightarrow> nat" where
  "free_start occ = length (takeWhile Not occ)"

definition free_end :: "bool list \<Rightarrow> nat" where
  "free_end occ = free_start (rev occ)"

fun longest_free :: "bool list \<Rightarrow> nat" where
  "longest_free [] = 0"
| "longest_free (x # xs) = max (free_start (x # xs)) (longest_free xs)"

definition free_at :: "bool list \<Rightarrow> nat \<Rightarrow> nat \<Rightarrow> bool" where
  "free_at occ i n \<longleftrightarrow> i + n \<le> length occ \<and> list_all Not (take n (drop i occ))"

definition first_fit :: "bool list \<Rightarrow> nat \<Rightarrow> nat option" where
  "first_fit occ n =
     (if n = 0 \<or> length occ < n then None
      else find (\<lambda>i. free_at occ i n) [0..<Suc (length occ - n)])"

definition in_range :: "bool list \<Rightarrow> nat \<Rightarrow> nat \<Rightarrow> bool" where
  "in_range occ i n \<longleftrightarrow> 0 < n \<and> i + n \<le> length occ"

section \<open>Runs of free pages\<close>

lemma free_at_iff:
  "free_at occ i n \<longleftrightarrow> i + n \<le> length occ \<and> (\<forall>k. i \<le> k \<and> k < i + n \<longrightarrow> \<not> occ ! k)"
proof -
  have "(\<forall>j < n. \<not> occ ! (i + j)) \<longleftrightarrow> (\<forall>k. i \<le> k \<and> k < i + n \<longrightarrow> \<not> occ ! k)"
    by (metis add_less_cancel_left le_Suc_ex le_add1)
  then show ?thesis
    by (auto simp: free_at_def list_all_length min_def)
qed

lemma free_at_0 [simp]: "free_at occ i 0 \<longleftrightarrow> i \<le> length occ"
  by (simp add: free_at_def)

lemma free_at_mono: "free_at occ i n \<Longrightarrow> m \<le> n \<Longrightarrow> free_at occ i m"
  by (auto simp: free_at_iff)

lemma free_start_le: "free_start occ \<le> length occ"
  by (simp add: free_start_def length_takeWhile_le)

lemma free_end_le: "free_end occ \<le> length occ"
  using free_start_le [of "rev occ"] by (simp add: free_end_def)

lemma free_start_Nil [simp]: "free_start [] = 0"
  by (simp add: free_start_def)

lemma free_start_Cons [simp]: "free_start (x # xs) = (if x then 0 else Suc (free_start xs))"
  by (simp add: free_start_def)

lemma le_free_start_iff: "n \<le> free_start occ \<longleftrightarrow> free_at occ 0 n"
proof (induction occ arbitrary: n)
  case (Cons x xs)
  then show ?case by (cases n) (auto simp: free_at_def)
qed (auto simp: free_at_def)

lemma le_free_end_iff: "n \<le> free_end occ \<longleftrightarrow> n \<le> length occ \<and> free_at occ (length occ - n) n"
  unfolding free_end_def le_free_start_iff
  by (auto simp: free_at_def take_rev list_all_iff)

lemma free_at_Cons_0: "free_at (x # xs) 0 n \<longleftrightarrow> n = 0 \<or> (\<not> x \<and> free_at xs 0 (n - 1))"
  by (cases n) (auto simp: free_at_def)

lemma free_at_Cons_Suc [simp]: "free_at (x # xs) (Suc i) n \<longleftrightarrow> free_at xs i n"
  by (simp add: free_at_def)

lemma le_longest_free_iff: "n \<le> longest_free occ \<longleftrightarrow> (\<exists>i. free_at occ i n)"
proof (induction occ arbitrary: n)
  case Nil
  then show ?case by (auto simp: free_at_def)
next
  case (Cons x xs)
  have "(\<exists>i. free_at (x # xs) i n) \<longleftrightarrow> free_at (x # xs) 0 n \<or> (\<exists>i. free_at xs i n)"
    by (metis free_at_Cons_Suc not0_implies_Suc)
  also have "\<dots> \<longleftrightarrow> n \<le> free_start (x # xs) \<or> n \<le> longest_free xs"
    by (simp only: le_free_start_iff Cons.IH)
  finally show ?case by (simp only: longest_free.simps le_max_iff_disj)
qed

lemma longest_free_le: "longest_free occ \<le> length occ"
  using le_longest_free_iff [of "longest_free occ" occ] by (auto simp: free_at_def)

lemma free_end_le_longest_free: "free_end occ \<le> longest_free occ"
  using le_free_end_iff [of "free_end occ" occ] le_longest_free_iff by auto

lemma find_upt_Some_iff:
  "find P [0..<m] = Some i \<longleftrightarrow> i < m \<and> P i \<and> (\<forall>j < i. \<not> P j)" for m i :: nat
  by (auto simp: find_Some_iff)

lemma first_fit_Some_iff:
  "first_fit occ n = Some i \<longleftrightarrow> 0 < n \<and> free_at occ i n \<and> (\<forall>j < i. \<not> free_at occ j n)"
proof -
  have "first_fit occ n = Some i \<longleftrightarrow>
      0 < n \<and> n \<le> length occ \<and> i < Suc (length occ - n) \<and> free_at occ i n \<and> (\<forall>j < i. \<not> free_at occ j n)"
    by (simp only: first_fit_def find_upt_Some_iff split: if_split) auto
  also have "\<dots> \<longleftrightarrow> 0 < n \<and> free_at occ i n \<and> (\<forall>j < i. \<not> free_at occ j n)"
    by (auto simp: free_at_def)
  finally show ?thesis .
qed

lemma first_fit_None_iff: "first_fit occ n = None \<longleftrightarrow> n = 0 \<or> longest_free occ < n"
proof -
  have "(\<exists>i. free_at occ i n) \<longleftrightarrow> (\<exists>i. free_at occ i n \<and> (\<forall>j < i. \<not> free_at occ j n))"
    by (rule exists_least_iff)
  then have "(\<exists>i. first_fit occ n = Some i) \<longleftrightarrow> 0 < n \<and> n \<le> longest_free occ"
    unfolding first_fit_Some_iff le_longest_free_iff by auto
  then show ?thesis
    by (cases "first_fit occ n") auto
qed

section \<open>Two halves\<close>

lemma free_at_append:
  "free_at (xs @ ys) i n \<longleftrightarrow>
     (if i + n \<le> length xs then free_at xs i n
      else if length xs \<le> i then free_at ys (i - length xs) n
      else length xs - i \<le> free_end xs \<and> n - (length xs - i) \<le> free_start ys)"
proof -
  have "list_all Not (take n (drop i (xs @ ys))) \<longleftrightarrow>
      list_all Not (drop i xs) \<and> list_all Not (take (n - (length xs - i)) ys)"
    if "i \<le> length xs" "length xs \<le> i + n" using that by simp
  then show ?thesis
    by (auto simp: le_free_end_iff le_free_start_iff free_at_def)
qed

lemma free_start_append:
  "free_start (xs @ ys) = (if free_start xs < length xs then free_start xs else length xs + free_start ys)"
proof (induction xs)
  case (Cons x xs)
  then show ?case using free_start_le [of xs] by auto
qed simp

lemma free_end_append:
  "free_end (xs @ ys) = (if free_end ys < length ys then free_end ys else length ys + free_end xs)"
  unfolding free_end_def rev_append free_start_append by simp

lemma longest_free_append:
  "longest_free (xs @ ys) =
     max (max (free_end xs + free_start ys) (longest_free xs)) (longest_free ys)"
proof -
  have "(\<exists>i. free_at (xs @ ys) i n) \<longleftrightarrow>
      n \<le> free_end xs + free_start ys \<or> (\<exists>i. free_at xs i n) \<or> (\<exists>i. free_at ys i n)"
    (is "?L \<longleftrightarrow> ?R") for n
  proof
    assume ?L
    then show ?R by (auto simp: free_at_append split: if_splits)
  next
    assume ?R
    then consider (mid) "n \<le> free_end xs + free_start ys" | (left) i where "free_at xs i n"
      | (right) i where "free_at ys i n" by blast
    then show ?L
    proof cases
      case mid
      show ?thesis
      proof (cases "n \<le> free_end xs")
        case True
        then have "free_at (xs @ ys) (length xs - n) n"
          by (auto simp: free_at_append le_free_end_iff)
        then show ?thesis ..
      next
        case False
        with mid free_end_le [of xs] have "free_at (xs @ ys) (length xs - free_end xs) n"
          by (auto simp: free_at_append le_free_start_iff [symmetric])
        then show ?thesis ..
      qed
    next
      case left
      then have "free_at (xs @ ys) i n" by (auto simp: free_at_append free_at_def)
      then show ?thesis ..
    next
      case right
      then have "free_at (xs @ ys) (length xs + i) n"
        by (auto simp: free_at_append free_at_def)
      then show ?thesis ..
    qed
  qed
  then have "n \<le> longest_free (xs @ ys) \<longleftrightarrow>
      n \<le> max (max (free_end xs + free_start ys) (longest_free xs)) (longest_free ys)" for n
    unfolding le_max_iff_disj le_longest_free_iff by blast
  then show ?thesis by (meson dual_order.refl le_antisym)
qed

text \<open>The three places a first fit can start: the left half, the seam, the right half.\<close>

lemma first_fit_append_left:
  assumes "0 < n" and "n \<le> longest_free xs"
  shows "first_fit (xs @ ys) n = first_fit xs n"
proof -
  from assms obtain i where i: "first_fit xs n = Some i"
    using first_fit_None_iff [of xs n] by (cases "first_fit xs n") auto
  then have "first_fit (xs @ ys) n = Some i"
    by (fastforce simp: first_fit_Some_iff free_at_append free_at_def)
  with i show ?thesis by simp
qed

lemma first_fit_append_seam:
  assumes "longest_free xs < n" and "n \<le> free_end xs + free_start ys" and "0 < free_end xs"
  shows "first_fit (xs @ ys) n = Some (length xs - free_end xs)"
proof -
  have no: "\<not> free_at xs j n" for j
    using assms(1) le_longest_free_iff [of n xs] by auto
  moreover have "free_end xs < n"
    using assms(1) free_end_le_longest_free [of xs] by linarith
  ultimately show ?thesis
    using assms free_end_le [of xs] unfolding first_fit_Some_iff free_at_append by auto
qed

lemma first_fit_append_right:
  assumes "longest_free xs < n" and "free_end xs + free_start ys < n \<or> free_end xs = 0"
  shows "first_fit (xs @ ys) n = map_option (\<lambda>i. i + length xs) (first_fit ys n)"
proof (cases "first_fit ys n")
  case None
  have "0 < n" using assms by linarith
  with None have "longest_free ys < n" by (simp add: first_fit_None_iff)
  moreover have "free_start ys \<le> longest_free ys" by (cases ys) auto
  ultimately have "first_fit (xs @ ys) n = None"
    using assms by (auto simp: first_fit_None_iff longest_free_append)
  with None show ?thesis by simp
next
  case (Some i)
  have no: "\<not> free_at xs j n" for j
    using assms(1) le_longest_free_iff [of n xs] by auto
  have "free_at (xs @ ys) (length xs + i) n"
    using Some by (auto simp: first_fit_Some_iff free_at_append free_at_def)
  moreover have "\<not> free_at (xs @ ys) j n" if "j < length xs + i" for j
    using Some that assms(2) no by (auto simp: first_fit_Some_iff free_at_append)
  moreover have "0 < n" using Some by (simp add: first_fit_Some_iff)
  ultimately have "first_fit (xs @ ys) n = Some (length xs + i)"
    by (simp add: first_fit_Some_iff)
  with Some show ?thesis by simp
qed

section \<open>The interface of a page allocator\<close>

text \<open>
  What the memory component relies on: \<open>alloc\<close> places a request at the first fit,
  \<open>alloc_fixed\<close> takes a range if it lies inside the managed area and is free (or may be
  replaced), \<open>dealloc\<close> frees a range of the managed area, and a refused request changes no
  page.
\<close>

locale page_allocator =
  fixes occ :: "'b \<Rightarrow> bool list"
    and inv :: "'b \<Rightarrow> bool"
    and alloc :: "'b \<Rightarrow> nat \<Rightarrow> nat option \<times> 'b"
    and alloc_fixed :: "'b \<Rightarrow> nat \<Rightarrow> nat \<Rightarrow> bool \<Rightarrow> unit option \<times> 'b"
    and dealloc :: "'b \<Rightarrow> nat \<Rightarrow> nat \<Rightarrow> 'b"
  assumes inv_alloc: "inv b \<Longrightarrow> inv (snd (alloc b n))"
    and inv_alloc_fixed: "inv b \<Longrightarrow> inv (snd (alloc_fixed b i n r))"
    and inv_dealloc: "inv b \<Longrightarrow> inv (dealloc b i n)"
    and alloc_result: "inv b \<Longrightarrow> fst (alloc b n) = first_fit (occ b) n"
    and alloc_occ: "inv b \<Longrightarrow> occ (snd (alloc b n)) =
          (case first_fit (occ b) n of None \<Rightarrow> occ b | Some i \<Rightarrow> fill (occ b) i n True)"
    and alloc_fixed_result: "inv b \<Longrightarrow> fst (alloc_fixed b i n r) =
          (if in_range (occ b) i n \<and> (r \<or> free_at (occ b) i n) then Some () else None)"
    and alloc_fixed_occ: "inv b \<Longrightarrow> occ (snd (alloc_fixed b i n r)) =
          (if in_range (occ b) i n \<and> (r \<or> free_at (occ b) i n) then fill (occ b) i n True else occ b)"
    and dealloc_occ: "inv b \<Longrightarrow> i + n \<le> length (occ b) \<Longrightarrow> occ (dealloc b i n) = fill (occ b) i n False"
begin

lemma alloc_Some_free:
  assumes "inv b" and "alloc b n = (Some i, b')"
  shows "in_range (occ b) i n" "free_at (occ b) i n" "occ b' = fill (occ b) i n True"
proof -
  from assms have fit: "first_fit (occ b) n = Some i"
    using alloc_result [of b n] by simp
  then show free: "free_at (occ b) i n" by (simp add: first_fit_Some_iff)
  with fit show "in_range (occ b) i n"
    by (simp add: first_fit_Some_iff in_range_def free_at_def)
  show "occ b' = fill (occ b) i n True"
    using alloc_occ [OF assms(1), of n] assms(2) fit by simp
qed

lemma alloc_dealloc_restores:
  assumes "inv b" and "alloc b n = (Some i, b')"
  shows "occ (dealloc b' i n) = occ b"
proof -
  note a = alloc_Some_free [OF assms]
  have "inv b'" using inv_alloc [OF assms(1), of n] assms(2) by simp
  moreover have "i + n \<le> length (occ b')" using a by (simp add: in_range_def)
  ultimately have "occ (dealloc b' i n) = fill (occ b') i n False" by (rule dealloc_occ)
  also have "\<dots> = fill (occ b) i n False" by (simp add: a(3))
  also have "\<dots> = occ b" using a(2) by (intro fill_idem) (auto simp: free_at_iff)
  finally show ?thesis .
qed

text \<open>Two live allocations never share a page.\<close>

lemma alloc_alloc_disjoint:
  assumes "inv b" and "alloc b n = (Some i, b')" and "alloc b' m = (Some j, b'')"
  shows "i + n \<le> j \<or> j + m \<le> i"
proof (rule ccontr)
  assume "\<not> ?thesis"
  moreover note a = alloc_Some_free [OF assms(1,2)]
  moreover have inv': "inv b'" using inv_alloc [OF assms(1), of n] assms(2) by simp
  moreover note c = alloc_Some_free [OF inv' assms(3)]
  ultimately have k: "max i j < j + m" "max i j < i + n" "max i j < length (occ b)"
    by (auto simp: in_range_def)
  from c(2) k have "\<not> occ b' ! max i j" by (auto simp: free_at_iff)
  with k a(3) show False by simp
qed

text \<open>Freed pages can be allocated again.\<close>

lemma alloc_after_dealloc:
  assumes "inv b" and "0 < n" and "i + n \<le> length (occ b)"
  shows "\<exists>j b'. alloc (dealloc b i n) n = (Some j, b') \<and> j \<le> i"
proof -
  have occ: "occ (dealloc b i n) = fill (occ b) i n False"
    using assms(1,3) by (rule dealloc_occ)
  have free: "free_at (occ (dealloc b i n)) i n"
    using assms(3) by (auto simp: occ free_at_iff)
  then have "first_fit (occ (dealloc b i n)) n \<noteq> None"
    using assms(2) by (auto simp: first_fit_None_iff not_less le_longest_free_iff)
  then obtain j where j: "first_fit (occ (dealloc b i n)) n = Some j" by blast
  with free have "j \<le> i" by (meson first_fit_Some_iff linorder_not_less)
  with j alloc_result [OF inv_dealloc [OF assms(1)], of i n n] show ?thesis
    by (metis prod.collapse)
qed

end

end
