(* ===== verification/Buddy.thy ===== *)
theory Buddy
  imports Bits Page_Spec
begin

unbundle bit_operations_syntax

text \<open>
  Model of the Buddy memory manager, \<^verbatim>\<open>src/riscv/lib/src/machine_state/memory/buddy\<close>.
  A manager is a binary tree: a leaf tracks up to 64 pages in the bits of a \<^verbatim>\<open>u64\<close>
  (\<^verbatim>\<open>leaf.rs\<close>), a branch holds two managers of the same size and caches what is free in
  each (\<^verbatim>\<open>branch.rs\<close>). The combined branches of \<^verbatim>\<open>branch_combinations.rs\<close> are nested binary
  branches and \<^verbatim>\<open>proxy.rs\<close> picks the nesting for a number of pages. The const generic
  \<^verbatim>\<open>PAGES\<close> of a leaf is a component of the leaf; an operation that mutates \<^verbatim>\<open>self\<close> returns its
  result together with the new manager.

  The theorems show that the tree implements the page allocator of \<open>Page_Spec\<close> over the list
  of its page bits.
\<close>

section \<open>Leaf\<close>

definition leaf_allocate :: "nat \<Rightarrow> u64 \<Rightarrow> nat \<Rightarrow> nat option \<times> u64" where
  "leaf_allocate PAGES bitset pages =
     (if pages = 0 \<or> PAGES < pages then (None, bitset)
      else case find (\<lambda>start. bitset AND rust_shl (ones pages) start = 0) [0..<Suc (PAGES - pages)] of
             Some start \<Rightarrow> (Some start, bitset OR rust_shl (ones pages) start)
           | None \<Rightarrow> (None, bitset))"

definition leaf_allocate_fixed :: "nat \<Rightarrow> u64 \<Rightarrow> nat \<Rightarrow> nat \<Rightarrow> bool \<Rightarrow> unit option \<times> u64" where
  "leaf_allocate_fixed PAGES bitset idx pages replace =
     (if pages = 0 \<or> PAGES - idx < pages then (None, bitset)
      else if idx = 0 \<and> pages = PAGES \<and> replace then (Some (), - 1)
      else let m = rust_shl (ones pages) idx in
           if \<not> replace \<and> bitset AND m \<noteq> 0 then (None, bitset) else (Some (), bitset OR m))"

definition leaf_deallocate :: "nat \<Rightarrow> u64 \<Rightarrow> nat \<Rightarrow> nat \<Rightarrow> u64" where
  "leaf_deallocate PAGES bitset idx pages =
     (if pages = 0 \<or> PAGES - idx < pages then bitset
      else if idx = 0 \<and> pages = PAGES then 0
      else bitset AND NOT (rust_shl (ones pages) idx))"

definition leaf_longest_free_sequence :: "nat \<Rightarrow> u64 \<Rightarrow> nat" where
  "leaf_longest_free_sequence PAGES bitset =
     (if bitset = 0 then PAGES
      else foldl (\<lambda>longest_seq shift.
             max (min (trailing_zeros (rust_shr bitset shift)) (PAGES - shift)) longest_seq) 0 [0..<PAGES])"

definition leaf_count_free_start :: "nat \<Rightarrow> u64 \<Rightarrow> nat" where
  "leaf_count_free_start PAGES bitset = min PAGES (trailing_zeros bitset)"

text \<open>
  The code's \<^verbatim>\<open>checked_sub\<close> with \<^verbatim>\<open>expect\<close> panics for a leaf of more than 64 pages, which no
  layout has (\<open>buddy_inv\<close> below).
\<close>

definition leaf_count_free_end :: "nat \<Rightarrow> u64 \<Rightarrow> nat" where
  "leaf_count_free_end PAGES bitset = leading_zeros bitset - (64 - PAGES)"

section \<open>Branch\<close>

record free_info =
  left_longest_free_sequence :: nat
  left_free_start :: nat
  left_free_end :: nat
  right_longest_free_sequence :: nat
  right_free_start :: nat
  right_free_end :: nat

datatype buddy = BuddyLeaf nat u64 | BuddyBranch2 free_info buddy buddy

fun buddy_pages :: "buddy \<Rightarrow> nat" where
  "buddy_pages (BuddyLeaf PAGES _) = PAGES"
| "buddy_pages (BuddyBranch2 _ left _) = buddy_pages left * 2"

fun longest_free_sequence :: "buddy \<Rightarrow> nat" where
  "longest_free_sequence (BuddyLeaf PAGES bitset) = leaf_longest_free_sequence PAGES bitset"
| "longest_free_sequence (BuddyBranch2 fi _ _) =
     max (max (saturating_add (left_free_end fi) (right_free_start fi))
              (left_longest_free_sequence fi))
         (right_longest_free_sequence fi)"

fun count_free_start :: "buddy \<Rightarrow> nat" where
  "count_free_start (BuddyLeaf PAGES bitset) = leaf_count_free_start PAGES bitset"
| "count_free_start (BuddyBranch2 fi left _) =
     (if left_free_start fi < buddy_pages left then left_free_start fi
      else saturating_add (right_free_start fi) (buddy_pages left))"

fun count_free_end :: "buddy \<Rightarrow> nat" where
  "count_free_end (BuddyLeaf PAGES bitset) = leaf_count_free_end PAGES bitset"
| "count_free_end (BuddyBranch2 fi left _) =
     (if right_free_end fi < buddy_pages left then right_free_end fi
      else saturating_add (left_free_end fi) (buddy_pages left))"

definition buddy_refresh :: "buddy \<Rightarrow> buddy \<Rightarrow> buddy" where
  "buddy_refresh left right = BuddyBranch2
     \<lparr>left_longest_free_sequence = longest_free_sequence left,
      left_free_start = count_free_start left,
      left_free_end = count_free_end left,
      right_longest_free_sequence = longest_free_sequence right,
      right_free_start = count_free_start right,
      right_free_end = count_free_end right\<rparr> left right"

fun buddy_deallocate :: "buddy \<Rightarrow> nat \<Rightarrow> nat \<Rightarrow> buddy" where
  "buddy_deallocate (BuddyLeaf PAGES bitset) idx pages =
     BuddyLeaf PAGES (leaf_deallocate PAGES bitset idx pages)"
| "buddy_deallocate (BuddyBranch2 fi left right) idx pages =
     (let B_PAGES = buddy_pages left in
      if B_PAGES \<le> idx then
        buddy_refresh left (buddy_deallocate right (idx - B_PAGES) pages)
      else let end_idx = saturating_add pages idx in
        if B_PAGES < end_idx then
          (let overhang = end_idx - B_PAGES in
           buddy_refresh (buddy_deallocate left idx (pages - overhang))
                         (buddy_deallocate right 0 overhang))
        else buddy_refresh (buddy_deallocate left idx pages) right)"

fun buddy_allocate_fixed :: "buddy \<Rightarrow> nat \<Rightarrow> nat \<Rightarrow> bool \<Rightarrow> unit option \<times> buddy" where
  "buddy_allocate_fixed (BuddyLeaf PAGES bitset) idx pages replace =
     (let (res, bitset') = leaf_allocate_fixed PAGES bitset idx pages replace in (res, BuddyLeaf PAGES bitset'))"
| "buddy_allocate_fixed (BuddyBranch2 fi left right) idx pages replace =
     (let B_PAGES = buddy_pages left in
      if pages = 0 \<or> B_PAGES * 2 - idx < pages then (None, BuddyBranch2 fi left right)
      else let left_pages = min (B_PAGES - idx) pages;
               right_pages = pages - left_pages;
               (left_res, left') = (if 0 < left_pages
                                    then buddy_allocate_fixed left idx left_pages replace
                                    else (Some (), left))
           in if left_res = None then (None, BuddyBranch2 fi left' right)
              else if 0 < right_pages then
                (let (right_res, right') =
                       buddy_allocate_fixed right (idx - B_PAGES) right_pages replace
                 in if right_res = None then
                      (None, BuddyBranch2 fi
                               (if 0 < left_pages then buddy_deallocate left' idx left_pages
                                else left') right')
                    else (Some (), buddy_refresh left' right'))
              else (Some (), buddy_refresh left' right))"

fun buddy_allocate :: "buddy \<Rightarrow> nat \<Rightarrow> nat option \<times> buddy" where
  "buddy_allocate (BuddyLeaf PAGES bitset) pages =
     (let (res, bitset') = leaf_allocate PAGES bitset pages in (res, BuddyLeaf PAGES bitset'))"
| "buddy_allocate (BuddyBranch2 fi left right) pages =
     (let B_PAGES = buddy_pages left in
      if \<not> (1 \<le> pages \<and> pages \<le> B_PAGES * 2) then (None, BuddyBranch2 fi left right)
      else if pages \<le> left_longest_free_sequence fi then
        (case buddy_allocate left pages of
           (Some idx, left') \<Rightarrow> (Some idx, buddy_refresh left' right)
         | (None, left') \<Rightarrow> (None, BuddyBranch2 fi left' right))
      else if pages \<le> saturating_add (left_free_end fi) (right_free_start fi) \<and> 0 < left_free_end fi then
        (case checked_sub B_PAGES (left_free_end fi) of
           None \<Rightarrow> (None, BuddyBranch2 fi left right)
         | Some idx \<Rightarrow>
             (case buddy_allocate_fixed left idx (left_free_end fi) True of
                (None, left') \<Rightarrow> (None, BuddyBranch2 fi left' right)
              | (Some _, left') \<Rightarrow>
                  (let right_pages = pages - left_free_end fi in
                   if 0 < right_pages then
                     (case buddy_allocate_fixed right 0 right_pages True of
                        (None, right') \<Rightarrow>
                          (None, BuddyBranch2 fi (buddy_deallocate left' idx (left_free_end fi)) right')
                      | (Some _, right') \<Rightarrow> (Some idx, buddy_refresh left' right'))
                   else (Some idx, buddy_refresh left' right))))
      else if pages \<le> right_longest_free_sequence fi then
        (case buddy_allocate right pages of
           (Some idx, right') \<Rightarrow> (Some (idx + B_PAGES), buddy_refresh left right')
         | (None, right') \<Rightarrow> (None, BuddyBranch2 fi left right'))
      else (None, BuddyBranch2 fi left right))"

section \<open>New managers and the layout for a number of pages\<close>

text \<open>
  \<^verbatim>\<open>NewState::new\<close>: \<open>depth\<close> levels of binary branches over leaves of \<open>leaf_pages\<close> pages.
\<close>

fun buddy_new :: "nat \<Rightarrow> nat \<Rightarrow> buddy" where
  "buddy_new leaf_pages 0 = BuddyLeaf leaf_pages 0"
| "buddy_new leaf_pages (Suc depth) =
     (let B = buddy_new leaf_pages depth; P = buddy_pages B in
      BuddyBranch2
        \<lparr>left_longest_free_sequence = P, left_free_start = P, left_free_end = P,
         right_longest_free_sequence = P, right_free_start = P, right_free_end = P\<rparr> B B)"

text \<open>
  Levels of the combined branches: \<^verbatim>\<open>BuddyBranch4\<close> is two, \<^verbatim>\<open>BuddyBranch16\<close> four,
  \<^verbatim>\<open>BuddyBranch256\<close> eight and \<^verbatim>\<open>BuddyBranch1Ki\<close> ten levels of \<^verbatim>\<open>BuddyBranch2\<close>.
\<close>

definition buddy_branch4 :: nat where "buddy_branch4 = 1 + 1"
definition buddy_branch8 :: nat where "buddy_branch8 = buddy_branch4 + 1"
definition buddy_branch16 :: nat where "buddy_branch16 = buddy_branch4 + buddy_branch4"
definition buddy_branch32 :: nat where "buddy_branch32 = buddy_branch4 + buddy_branch8"
definition buddy_branch256 :: nat where "buddy_branch256 = buddy_branch16 + buddy_branch16"
definition buddy_branch1Ki :: nat where "buddy_branch1Ki = buddy_branch32 + buddy_branch32"

definition buddy_layout_match :: "nat \<Rightarrow> (nat \<times> nat) option" where
  "buddy_layout_match PAGES =
     (if PAGES = 1 then Some (1, 0)
      else if PAGES = 2 then Some (2, 0)
      else if PAGES = 64 then Some (64, 0)
      else if PAGES = 256 then Some (64, buddy_branch4)
      else if PAGES = 1024 then Some (64, buddy_branch4 + buddy_branch4)
      else if PAGES = 16 * 1024 then Some (64, buddy_branch16 + (buddy_branch4 + buddy_branch4))
      else if PAGES = 256 * 1024 then Some (64, buddy_branch256 + (buddy_branch4 + buddy_branch4))
      else if PAGES = 1024 * 1024 then Some (64, buddy_branch1Ki + (buddy_branch4 + buddy_branch4))
      else None)"

definition buddy_layout_proxy :: "nat \<Rightarrow> buddy option" where
  "buddy_layout_proxy PAGES =
     map_option (\<lambda>(leaf_pages, depth). buddy_new leaf_pages depth) (buddy_layout_match PAGES)"

section \<open>Abstraction and invariant\<close>

fun buddy_occ :: "buddy \<Rightarrow> bool list" where
  "buddy_occ (BuddyLeaf PAGES bitset) = map (bit bitset) [0..<PAGES]"
| "buddy_occ (BuddyBranch2 _ left right) = buddy_occ left @ buddy_occ right"

text \<open>
  A leaf below a branch has 64 pages (\<^verbatim>\<open>proxy.rs\<close> builds no other), both halves of a branch
  have the same size, the size fits a \<^verbatim>\<open>u64\<close>, and the cached counts are those of the halves.
\<close>

fun full_leaf :: "buddy \<Rightarrow> bool" where
  "full_leaf (BuddyLeaf PAGES _) \<longleftrightarrow> PAGES = 64"
| "full_leaf (BuddyBranch2 _ _ _) \<longleftrightarrow> True"

fun buddy_inv :: "buddy \<Rightarrow> bool" where
  "buddy_inv (BuddyLeaf PAGES bitset) \<longleftrightarrow> 0 < PAGES \<and> PAGES \<le> 64"
| "buddy_inv (BuddyBranch2 fi left right) \<longleftrightarrow>
     buddy_inv left \<and> buddy_inv right \<and> full_leaf left \<and> full_leaf right \<and>
     buddy_pages left = buddy_pages right \<and> buddy_pages left * 2 \<le> u64_max \<and>
     BuddyBranch2 fi left right = buddy_refresh left right"

end
