(* ===== verification/Buddy_Refine.thy ===== *)
theory Buddy_Refine
  imports Buddy
begin

unbundle bit_operations_syntax

text \<open>
  The Buddy memory manager implements the page allocator of \<open>Page_Spec\<close>: every operation
  keeps \<open>buddy_inv\<close>, the cached counts are the lengths of the free runs of the page list, and
  each operation acts on the page list as its specification says. The proof goes by
  induction on the tree, the leaf case by reasoning on bits and the branch case by the
  append lemmas of \<open>Page_Spec\<close>.
\<close>

section \<open>Leaf\<close>

lemma leaf_free_at_iff:
  assumes "st + n \<le> P" "P \<le> 64" "0 < n"
  shows "bitset AND rust_shl (ones n) st = 0 \<longleftrightarrow> free_at (map (bit bitset) [0..<P]) st n"
  using assms by (auto simp: mask_shift_disjoint_iff free_at_iff)

lemma leaf_or_fill:
  assumes "i + n \<le> P" "P \<le> 64" "0 < n"
  shows "map (bit (bitset OR rust_shl (ones n) i)) [0..<P] = fill (map (bit bitset) [0..<P]) i n True"
  using assms by (intro nth_equalityI) (auto simp: bit_simps)

lemma leaf_and_not_fill:
  assumes "i + n \<le> P" "P \<le> 64" "0 < n"
  shows "map (bit (bitset AND NOT (rust_shl (ones n) i))) [0..<P] = fill (map (bit bitset) [0..<P]) i n False"
  using assms by (intro nth_equalityI) (auto simp: bit_simps)

lemma leaf_allocate_result:
  assumes "P \<le> 64"
  shows "fst (leaf_allocate P s n) = first_fit (map (bit s) [0..<P]) n"
proof -
  have "find (\<lambda>st. s AND rust_shl (ones n) st = 0) [0..<Suc (P - n)] =
        find (\<lambda>i. free_at (map (bit s) [0..<P]) i n) [0..<Suc (P - n)]" if "0 < n" "n \<le> P"
    using assms that by (intro find_cong) (auto simp: leaf_free_at_iff simp del: ones_eq_mask rust_shl_eq upt_Suc)
  then show ?thesis
    by (auto simp: leaf_allocate_def first_fit_def not_less split: option.split simp del: upt_Suc)
qed

lemma leaf_allocate_occ:
  assumes "P \<le> 64"
  shows "map (bit (snd (leaf_allocate P s n))) [0..<P] =
    (case first_fit (map (bit s) [0..<P]) n of None \<Rightarrow> map (bit s) [0..<P]
     | Some i \<Rightarrow> fill (map (bit s) [0..<P]) i n True)"
proof (cases "fst (leaf_allocate P s n)")
  case None
  then show ?thesis
    using leaf_allocate_result [OF assms, of s n]
    by (auto simp: leaf_allocate_def split: option.splits if_splits)
next
  case (Some i)
  with leaf_allocate_result [OF assms, of s n] have fit: "first_fit (map (bit s) [0..<P]) n = Some i"
    by simp
  moreover from Some have "snd (leaf_allocate P s n) = s OR rust_shl (ones n) i"
    by (auto simp: leaf_allocate_def split: option.splits if_splits)
  moreover from fit have "i + n \<le> P" "0 < n" by (auto simp: first_fit_Some_iff free_at_def)
  ultimately show ?thesis
    using assms by (simp add: leaf_or_fill del: ones_eq_mask rust_shl_eq)
qed

lemma leaf_allocate_fixed_result:
  assumes "P \<le> 64"
  shows "fst (leaf_allocate_fixed P s i n r) =
    (if in_range (map (bit s) [0..<P]) i n \<and> (r \<or> free_at (map (bit s) [0..<P]) i n) then Some () else None)"
proof (cases "in_range (map (bit s) [0..<P]) i n")
  case True
  then have "i + n \<le> P" "0 < n" by (auto simp: in_range_def)
  with assms True show ?thesis
    by (auto simp: leaf_allocate_fixed_def Let_def leaf_free_at_iff simp del: ones_eq_mask rust_shl_eq bit_0_eq)
next
  case False
  then show ?thesis by (auto simp: leaf_allocate_fixed_def in_range_def)
qed

lemma leaf_allocate_fixed_occ:
  assumes "P \<le> 64"
  shows "map (bit (snd (leaf_allocate_fixed P s i n r))) [0..<P] =
    (if in_range (map (bit s) [0..<P]) i n \<and> (r \<or> free_at (map (bit s) [0..<P]) i n)
     then fill (map (bit s) [0..<P]) i n True else map (bit s) [0..<P])"
proof (cases "in_range (map (bit s) [0..<P]) i n")
  case True
  then have range: "i + n \<le> P" "0 < n" by (auto simp: in_range_def)
  have all: "map (bit (- 1 :: u64)) [0..<P] = fill (map (bit s) [0..<P]) 0 P True"
    using assms by (intro nth_equalityI) auto
  from assms True range show ?thesis
    by (auto simp: leaf_allocate_fixed_def Let_def leaf_free_at_iff leaf_or_fill all simp del: ones_eq_mask rust_shl_eq bit_0_eq)
next
  case False
  then show ?thesis by (auto simp: leaf_allocate_fixed_def in_range_def)
qed

lemma leaf_deallocate_occ:
  assumes "P \<le> 64" "i + n \<le> P"
  shows "map (bit (leaf_deallocate P s i n)) [0..<P] = fill (map (bit s) [0..<P]) i n False"
proof -
  have all: "map (bit (0 :: u64)) [0..<P] = fill (map (bit s) [0..<P]) 0 P False"
    by (intro nth_equalityI) auto
  show ?thesis
    using assms by (auto simp: leaf_deallocate_def leaf_and_not_fill all simp del: ones_eq_mask rust_shl_eq bit_0_eq)
qed

lemma trailing_zeros_min:
  fixes s :: u64
  assumes "k \<le> P" "P \<le> 64"
  shows "min (trailing_zeros (drop_bit k s)) (P - k) = free_start (drop k (map (bit s) [0..<P]))"
proof -
  have "take (P - k) (map (bit (drop_bit k s)) [0..<64]) = drop k (map (bit s) [0..<P])"
    using assms by (intro nth_equalityI) (auto simp: bit_simps)
  then show ?thesis
    using length_takeWhile_min [of Not "P - k" "map (bit (drop_bit k s)) [0..<64]"]
    by (simp add: trailing_zeros_def free_start_def min.commute)
qed

lemma foldl_max_free_start:
  "foldl (\<lambda>m k. max (free_start (drop k xs)) m) a [0..<length xs] = max a (longest_free xs)"
proof (induction xs arbitrary: a)
  case (Cons x xs)
  have "[0..<length (x # xs)] = 0 # map Suc [0..<length xs]"
    by (simp add: map_Suc_upt upt_conv_Cons del: upt_Suc)
  then show ?case by (simp add: foldl_map Cons.IH del: upt_Suc free_start_Cons)
qed simp

lemma longest_free_all: "longest_free (replicate n False) = n"
  by (induction n) (auto simp: free_start_def)

lemma leaf_longest_free_sequence_eq:
  assumes "P \<le> 64"
  shows "leaf_longest_free_sequence P s = longest_free (map (bit s) [0..<P])"
proof (cases "s = 0")
  case True
  then have "map (bit s) [0..<P] = replicate P False" by (intro nth_equalityI) auto
  with True show ?thesis by (simp add: leaf_longest_free_sequence_def longest_free_all)
next
  case False
  have "foldl (\<lambda>m k. max (min (trailing_zeros (rust_shr s k)) (P - k)) m) 0 [0..<P] =
        foldl (\<lambda>m k. max (free_start (drop k (map (bit s) [0..<P]))) m) 0 [0..<P]"
    using assms by (intro foldl_cong) (auto simp: trailing_zeros_min simp del: drop_map)
  with False show ?thesis
    using foldl_max_free_start [of "map (bit s) [0..<P]" 0]
    by (simp add: leaf_longest_free_sequence_def)
qed

lemma leaf_count_free_start_eq:
  assumes "P \<le> 64"
  shows "leaf_count_free_start P s = free_start (map (bit s) [0..<P])"
  using trailing_zeros_min [of 0 P s] assms by (simp add: leaf_count_free_start_def min.commute)

lemma leaf_count_free_end_eq:
  "leaf_count_free_end 64 s = free_end (map (bit s) [0..<64])"
  by (simp add: leaf_count_free_end_def leading_zeros_def free_end_def free_start_def rev_map
      del: upt_rec_numeral)

section \<open>Counts and shape\<close>

lemma buddy_pages_refresh [simp]: "buddy_pages (buddy_refresh l r) = buddy_pages l * 2"
  by (simp add: buddy_refresh_def)

lemma full_leaf_refresh [simp]: "full_leaf (buddy_refresh l r)"
  by (simp add: buddy_refresh_def)

lemma buddy_occ_refresh [simp]: "buddy_occ (buddy_refresh l r) = buddy_occ l @ buddy_occ r"
  by (simp add: buddy_refresh_def)

lemma buddy_inv_refresh [simp]:
  "buddy_inv (buddy_refresh l r) \<longleftrightarrow>
     buddy_inv l \<and> buddy_inv r \<and> full_leaf l \<and> full_leaf r \<and>
     buddy_pages l = buddy_pages r \<and> buddy_pages l * 2 \<le> u64_max"
  by (auto simp: buddy_refresh_def)

lemma length_buddy_occ: "buddy_inv b \<Longrightarrow> length (buddy_occ b) = buddy_pages b"
  by (induction b) auto

lemma buddy_counts:
  "buddy_inv b \<Longrightarrow>
     longest_free_sequence b = longest_free (buddy_occ b) \<and>
     count_free_start b = free_start (buddy_occ b) \<and>
     (full_leaf b \<longrightarrow> count_free_end b = free_end (buddy_occ b))"
proof (induction b)
  case (BuddyLeaf P s)
  then show ?case
    by (auto simp: leaf_longest_free_sequence_eq leaf_count_free_start_eq leaf_count_free_end_eq
        simp del: upt_rec_numeral)
next
  case (BuddyBranch2 fi l r)
  let ?L = "buddy_occ l" and ?R = "buddy_occ r"
  from BuddyBranch2.prems have inv: "buddy_inv l" "buddy_inv r" and full: "full_leaf l" "full_leaf r"
    and P: "buddy_pages l = buddy_pages r" "buddy_pages l * 2 \<le> u64_max"
    and fi: "BuddyBranch2 fi l r = buddy_refresh l r" by auto
  have len: "length ?L = buddy_pages l" "length ?R = buddy_pages l"
    using inv P by (simp_all add: length_buddy_occ)
  have "free_end ?L + free_start ?R \<le> u64_max" "free_start ?R + buddy_pages l \<le> u64_max"
    "free_end ?L + buddy_pages l \<le> u64_max"
    using free_end_le [of ?L] free_start_le [of ?R] len P by linarith+
  then show ?case
    using BuddyBranch2.IH inv full fi len
    by (auto simp: buddy_refresh_def longest_free_append free_start_append free_end_append add.commute)
qed

lemmas buddy_count_simps =
  buddy_counts [THEN conjunct1]
  buddy_counts [THEN conjunct2, THEN conjunct1]
  buddy_counts [THEN conjunct2, THEN conjunct2, rule_format]


text \<open>Replacing the halves of a branch by managers of the same pages keeps its cached counts right.\<close>

lemma buddy_inv_replace:
  assumes "buddy_inv (BuddyBranch2 fi l r)" "buddy_inv l'" "buddy_inv r'"
    and "buddy_occ l' = buddy_occ l" "buddy_occ r' = buddy_occ r" "full_leaf l'" "full_leaf r'"
  shows "buddy_inv (BuddyBranch2 fi l' r')"
proof -
  from assms have "buddy_pages l' = buddy_pages l" "buddy_pages r' = buddy_pages r"
    by (metis buddy_inv.simps(2) length_buddy_occ)+
  with assms show ?thesis
    by (auto simp: buddy_refresh_def buddy_count_simps)
qed

section \<open>Deallocation\<close>

lemma buddy_deallocate_shape [simp]:
  "buddy_pages (buddy_deallocate b i n) = buddy_pages b"
  "full_leaf (buddy_deallocate b i n) = full_leaf b"
proof -
  show "buddy_pages (buddy_deallocate b i n) = buddy_pages b"
    by (induction b arbitrary: i n) (auto simp: Let_def)
  show "full_leaf (buddy_deallocate b i n) = full_leaf b"
    by (cases b) (auto simp: Let_def)
qed

lemma buddy_deallocate_inv: "buddy_inv b \<Longrightarrow> buddy_inv (buddy_deallocate b i n)"
proof (induction b arbitrary: i n)
  case (BuddyBranch2 fi l r)
  from BuddyBranch2.prems have "buddy_inv l" "buddy_inv r" "full_leaf l" "full_leaf r"
    "buddy_pages l = buddy_pages r" "buddy_pages r * 2 \<le> u64_max" by auto
  with BuddyBranch2.IH show ?case by (simp add: Let_def)
qed simp

lemma buddy_deallocate_occ:
  "buddy_inv b \<Longrightarrow> i + n \<le> buddy_pages b \<Longrightarrow>
     buddy_occ (buddy_deallocate b i n) = fill (buddy_occ b) i n False"
proof (induction b arbitrary: i n)
  case (BuddyLeaf P s)
  then show ?case by (simp add: leaf_deallocate_occ)
next
  case (BuddyBranch2 fi l r)
  from BuddyBranch2.prems have inv: "buddy_inv l" "buddy_inv r"
    and P: "buddy_pages l = buddy_pages r" "n + i \<le> u64_max" "i + n \<le> buddy_pages l * 2" by auto
  have len: "length (buddy_occ l) = buddy_pages l" "length (buddy_occ r) = buddy_pages l"
    using inv P by (simp_all add: length_buddy_occ)
  consider "buddy_pages l \<le> i" | "i < buddy_pages l" "buddy_pages l < n + i"
    | "i < buddy_pages l" "n + i \<le> buddy_pages l"
    by linarith
  then show ?case
  proof cases
    case 1
    then show ?thesis
      using BuddyBranch2.IH(2) [OF inv(2), of "i - buddy_pages l" n] P len
      by (simp add: Let_def fill_append fill_beyond)
  next
    case 2
    moreover have "fill (buddy_occ l) i (buddy_pages l - i) False = fill (buddy_occ l) i n False"
      using 2 len by (intro nth_equalityI) auto
    ultimately show ?thesis
      using BuddyBranch2.IH(1) [OF inv(1), of i "buddy_pages l - i"]
        BuddyBranch2.IH(2) [OF inv(2), of 0 "n + i - buddy_pages l"] P len
      by (auto simp: Let_def fill_append)
  next
    case 3
    then show ?thesis
      using BuddyBranch2.IH(1) [OF inv(1), of i n] P len
      by (auto simp: Let_def fill_append fill_beyond)
  qed
qed

section \<open>Fixed allocation\<close>

definition may_take :: "bool list \<Rightarrow> nat \<Rightarrow> nat \<Rightarrow> bool \<Rightarrow> bool" where
  "may_take occ i n r \<longleftrightarrow> in_range occ i n \<and> (r \<or> free_at occ i n)"

lemma free_at_split:
  "i + n \<le> length (xs @ ys) \<Longrightarrow>
     free_at (xs @ ys) i n \<longleftrightarrow>
     (0 < min (length xs - i) n \<longrightarrow> free_at xs i (min (length xs - i) n)) \<and>
     (0 < n - min (length xs - i) n \<longrightarrow> free_at ys (i - length xs) (n - min (length xs - i) n))"
  by (auto simp: free_at_def min_def)

lemma fill_split:
  "fill (xs @ ys) i n v =
     fill xs i (min (length xs - i) n) v @ fill ys (i - length xs) (n - min (length xs - i) n) v"
  by (rule nth_equalityI) (auto simp: nth_append min_def)

lemma may_take_split:
  assumes "in_range (xs @ ys) i n"
  shows "may_take (xs @ ys) i n r \<longleftrightarrow>
     (0 < min (length xs - i) n \<longrightarrow> may_take xs i (min (length xs - i) n) r) \<and>
     (0 < n - min (length xs - i) n \<longrightarrow> may_take ys (i - length xs) (n - min (length xs - i) n) r)"
  using assms by (auto simp: may_take_def in_range_def free_at_split)

lemma may_take_fill_back:
  "may_take occ i n False \<Longrightarrow> fill occ i n False = occ"
  by (auto simp: may_take_def free_at_iff intro: fill_idem)

definition fixed_spec :: "buddy \<Rightarrow> nat \<Rightarrow> nat \<Rightarrow> bool \<Rightarrow> unit option \<times> buddy \<Rightarrow> bool" where
  "fixed_spec b i n r p \<longleftrightarrow>
     fst p = (if may_take (buddy_occ b) i n r then Some () else None) \<and>
     buddy_occ (snd p) = (if may_take (buddy_occ b) i n r then fill (buddy_occ b) i n True else buddy_occ b) \<and>
     buddy_inv (snd p) \<and> full_leaf (snd p) = full_leaf b \<and> buddy_pages (snd p) = buddy_pages b"

lemma fixed_specD:
  assumes "fixed_spec b i n r (res, b')"
  shows "res = (if may_take (buddy_occ b) i n r then Some () else None)"
    and "buddy_occ b' = (if may_take (buddy_occ b) i n r then fill (buddy_occ b) i n True else buddy_occ b)"
    and "buddy_inv b'" "full_leaf b' = full_leaf b" "buddy_pages b' = buddy_pages b"
  using assms by (simp_all add: fixed_spec_def)

lemma buddy_allocate_fixed_spec:
  "buddy_inv b \<Longrightarrow> fixed_spec b i n r (buddy_allocate_fixed b i n r)"
proof (induction b arbitrary: i n r)
  case (BuddyLeaf P s)
  then show ?case
    by (auto simp: fixed_spec_def may_take_def leaf_allocate_fixed_result leaf_allocate_fixed_occ
        case_prod_beta simp del: map_eq_conv)
next
  case (BuddyBranch2 fi l rt)
  let ?L = "buddy_occ l" and ?R = "buddy_occ rt" and ?B = "buddy_pages l"
  define lp where "lp = min (?B - i) n"
  define rp where "rp = n - lp"
  from BuddyBranch2.prems have inv: "buddy_inv l" "buddy_inv rt" and full: "full_leaf l" "full_leaf rt"
    and P: "buddy_pages rt = ?B" "?B * 2 \<le> u64_max" by auto
  have len: "length ?L = ?B" "length ?R = ?B"
    using inv P by (simp_all add: length_buddy_occ)
  show ?case
  proof (cases "in_range (?L @ ?R) i n")
    case False
    then have "n = 0 \<or> ?B * 2 - i < n" by (auto simp: in_range_def len)
    with False BuddyBranch2.prems show ?thesis
      by (simp add: fixed_spec_def may_take_def del: buddy_inv.simps)
  next
    case True
    then have rng: "\<not> (n = 0 \<or> ?B * 2 - i < n)" by (auto simp: in_range_def len)
    have split: "may_take (?L @ ?R) i n r \<longleftrightarrow>
        (0 < lp \<longrightarrow> may_take ?L i lp r) \<and> (0 < rp \<longrightarrow> may_take ?R (i - ?B) rp r)"
      using may_take_split [OF True, of r] by (simp add: lp_def rp_def len)
    have fsplit: "fill (?L @ ?R) i n v = fill ?L i lp v @ fill ?R (i - ?B) rp v" for v
      using fill_split [of ?L ?R i n v] by (simp add: lp_def rp_def len)
    obtain lres l' where l': "(if 0 < lp then buddy_allocate_fixed l i lp r else (Some (), l)) = (lres, l')"
      by fastforce
    have L: "lres = (if 0 < lp \<longrightarrow> may_take ?L i lp r then Some () else None)"
      "buddy_occ l' = (if 0 < lp \<longrightarrow> may_take ?L i lp r then fill ?L i lp True else ?L)"
      "buddy_inv l'" "full_leaf l'" "buddy_pages l' = ?B"
      using BuddyBranch2.IH(1) [OF inv(1), of i lp r] l' inv(1) full(1)
      by (auto simp: fixed_spec_def split: if_splits)
    obtain rres r' where r': "buddy_allocate_fixed rt (i - ?B) rp r = (rres, r')" by fastforce
    have R: "rres = (if may_take ?R (i - ?B) rp r then Some () else None)"
      "buddy_occ r' = (if may_take ?R (i - ?B) rp r then fill ?R (i - ?B) rp True else ?R)"
      "buddy_inv r'" "full_leaf r'" "buddy_pages r' = ?B"
      using fixed_specD [OF BuddyBranch2.IH(2) [OF inv(2), of "i - ?B" rp r, unfolded r']] full P by simp_all
    have step: "buddy_allocate_fixed (BuddyBranch2 fi l rt) i n r =
        (if lres = None then (None, BuddyBranch2 fi l' rt)
         else if 0 < rp then
           (if rres = None
            then (None, BuddyBranch2 fi (if 0 < lp then buddy_deallocate l' i lp else l') r')
            else (Some (), buddy_refresh l' r'))
         else (Some (), buddy_refresh l' rt))"
      using rng by (simp only: buddy_allocate_fixed.simps Let_def lp_def [symmetric] rp_def [symmetric]
          l' r' if_False prod.case)
    have inv_rep: "buddy_inv (BuddyBranch2 fi x y)"
      if "buddy_inv x" "buddy_inv y" "buddy_occ x = ?L" "buddy_occ y = ?R" "full_leaf x" "full_leaf y" for x y
      using buddy_inv_replace [OF BuddyBranch2.prems that] .
    consider (left) "0 < lp" "\<not> may_take ?L i lp r"
      | (right) "0 < lp \<longrightarrow> may_take ?L i lp r" "0 < rp" "\<not> may_take ?R (i - ?B) rp r"
      | (both) "0 < lp \<longrightarrow> may_take ?L i lp r" "0 < rp" "may_take ?R (i - ?B) rp r"
      | (only) "0 < lp \<longrightarrow> may_take ?L i lp r" "rp = 0"
      by blast
    then show ?thesis
    proof cases
      case left
      then show ?thesis
        unfolding step using L inv(2) full split inv_rep [of l' rt] by (simp add: fixed_spec_def)
    next
      case right
      then have r: "\<not> r"
        using True by (auto simp: may_take_def in_range_def len lp_def rp_def)
      let ?l = "if 0 < lp then buddy_deallocate l' i lp else l'"
      have "buddy_occ ?l = ?L"
        using right L r by (auto simp: buddy_deallocate_occ lp_def may_take_fill_back)
      moreover have "buddy_inv ?l" "full_leaf ?l"
        using L by (auto simp: buddy_deallocate_inv)
      ultimately show ?thesis
        unfolding step using right L R full split inv_rep [of ?l r'] by (simp add: fixed_spec_def)
    next
      case both
      then show ?thesis
        unfolding step using L R split P by (simp add: fixed_spec_def fsplit)
    next
      case only
      then show ?thesis
        unfolding step using L split P inv full by (simp add: fixed_spec_def fsplit)
    qed
  qed
qed

section \<open>Allocation at the first fit\<close>

definition alloc_spec :: "buddy \<Rightarrow> nat \<Rightarrow> nat option \<times> buddy \<Rightarrow> bool" where
  "alloc_spec b n p \<longleftrightarrow>
     fst p = first_fit (buddy_occ b) n \<and>
     buddy_occ (snd p) = (case first_fit (buddy_occ b) n of None \<Rightarrow> buddy_occ b
                          | Some i \<Rightarrow> fill (buddy_occ b) i n True) \<and>
     buddy_inv (snd p) \<and> full_leaf (snd p) = full_leaf b \<and> buddy_pages (snd p) = buddy_pages b"

lemma alloc_specD:
  assumes "alloc_spec b n p" and "0 < n" and "n \<le> longest_free (buddy_occ b)"
  obtains i b' where "p = (Some i, b')" "first_fit (buddy_occ b) n = Some i"
    "i + n \<le> length (buddy_occ b)" "buddy_occ b' = fill (buddy_occ b) i n True"
    "buddy_inv b'" "full_leaf b' = full_leaf b" "buddy_pages b' = buddy_pages b"
proof -
  from assms obtain i where i: "first_fit (buddy_occ b) n = Some i"
    using first_fit_None_iff [of "buddy_occ b" n] by fastforce
  then have "i + n \<le> length (buddy_occ b)" by (simp add: first_fit_Some_iff free_at_def)
  with assms i show thesis by (cases p) (auto simp: alloc_spec_def intro!: that)
qed

lemma fill_append_left: "i + n \<le> length xs \<Longrightarrow> fill (xs @ ys) i n v = fill xs i n v @ ys"
  by (simp add: fill_append)

lemma fill_append_right: "fill (xs @ ys) (i + length xs) n v = xs @ fill ys i n v"
  by (simp add: fill_append fill_beyond)

lemma buddy_allocate_spec: "buddy_inv b \<Longrightarrow> alloc_spec b n (buddy_allocate b n)"
proof (induction b arbitrary: n)
  case (BuddyLeaf P s)
  then show ?case
    by (auto simp: alloc_spec_def leaf_allocate_result leaf_allocate_occ case_prod_beta simp del: map_eq_conv
        split: option.split)
next
  case (BuddyBranch2 fi l rt)
  let ?L = "buddy_occ l" and ?R = "buddy_occ rt" and ?B = "buddy_pages l"
  let ?b = "BuddyBranch2 fi l rt"
  from BuddyBranch2.prems have inv: "buddy_inv l" "buddy_inv rt" and full: "full_leaf l" "full_leaf rt"
    and P: "buddy_pages rt = ?B" "?B * 2 \<le> u64_max" by auto
  have len: "length ?L = ?B" "length ?R = ?B"
    using inv P by (simp_all add: length_buddy_occ)
  have fi: "left_longest_free_sequence fi = longest_free ?L" "left_free_end fi = free_end ?L"
    "right_free_start fi = free_start ?R" "right_longest_free_sequence fi = longest_free ?R"
    using BuddyBranch2.prems inv full by (simp_all add: buddy_refresh_def buddy_count_simps)
  have sum: "saturating_add (free_end ?L) (free_start ?R) = free_end ?L + free_start ?R"
    using free_end_le [of ?L] free_start_le [of ?R] len P by simp
  note simps = fi sum Let_def
  consider (range) "n = 0 \<or> ?B * 2 < n"
    | (left) "0 < n" "n \<le> ?B * 2" "n \<le> longest_free ?L"
    | (seam) "n \<le> ?B * 2" "longest_free ?L < n" "n \<le> free_end ?L + free_start ?R" "0 < free_end ?L"
    | (right) "n \<le> ?B * 2" "longest_free ?L < n" "free_end ?L + free_start ?R < n \<or> free_end ?L = 0"
        "n \<le> longest_free ?R"
    | (none) "n \<le> ?B * 2" "longest_free ?L < n" "free_end ?L + free_start ?R < n \<or> free_end ?L = 0"
        "longest_free ?R < n"
    by linarith
  then show ?case
  proof cases
    case range
    then have "first_fit (?L @ ?R) n = None"
      using longest_free_le [of "?L @ ?R"] by (auto simp: first_fit_None_iff len)
    with range BuddyBranch2.prems show ?thesis by (auto simp: alloc_spec_def simp del: buddy_inv.simps)
  next
    case left
    obtain i l' where "buddy_allocate l n = (Some i, l')" "first_fit ?L n = Some i" "i + n \<le> length ?L"
      "buddy_occ l' = fill ?L i n True" "buddy_inv l'" "full_leaf l' = full_leaf l" "buddy_pages l' = ?B"
      using alloc_specD [OF BuddyBranch2.IH(1) [OF inv(1), of n] left(1,3)] by metis
    with left inv full P len show ?thesis
      by (simp add: alloc_spec_def simps first_fit_append_left fill_append_left)
  next
    case seam
    let ?f = "free_end ?L" and ?i = "?B - free_end ?L"
    have f: "?f \<le> ?B" "?f < n" "n - ?f \<le> ?B"
      using seam free_end_le [of ?L] free_start_le [of ?R] free_end_le_longest_free [of ?L] len by auto
    obtain lres l' where l': "buddy_allocate_fixed l ?i ?f True = (lres, l')" by fastforce
    obtain rres r' where r': "buddy_allocate_fixed rt 0 (n - ?f) True = (rres, r')" by fastforce
    have "may_take ?L ?i ?f True" "may_take ?R 0 (n - ?f) True"
      using seam f by (auto simp: may_take_def in_range_def len)
    then have L: "lres = Some ()" "buddy_occ l' = fill ?L ?i ?f True" "buddy_inv l'" "full_leaf l'"
        "buddy_pages l' = ?B"
      and R: "rres = Some ()" "buddy_occ r' = fill ?R 0 (n - ?f) True" "buddy_inv r'" "full_leaf r'"
        "buddy_pages r' = ?B"
      using fixed_specD [OF buddy_allocate_fixed_spec [OF inv(1), of ?i ?f True, unfolded l']]
        fixed_specD [OF buddy_allocate_fixed_spec [OF inv(2), of 0 "n - ?f" True, unfolded r']] full P by simp_all
    have "fill (?L @ ?R) ?i n True = fill ?L ?i ?f True @ fill ?R 0 (n - ?f) True"
      using fill_split [of ?L ?R ?i n True] f by (simp add: len)
    with L R l' r' f seam P show ?thesis
      by (simp add: alloc_spec_def simps checked_sub_def first_fit_append_seam len)
  next
    case right
    then have n: "0 < n" by simp
    obtain i r' where "buddy_allocate rt n = (Some i, r')" "first_fit ?R n = Some i" "i + n \<le> length ?R"
      "buddy_occ r' = fill ?R i n True" "buddy_inv r'" "full_leaf r' = full_leaf rt" "buddy_pages r' = ?B"
      using alloc_specD [OF BuddyBranch2.IH(2) [OF inv(2), of n] n right(4)] P by metis
    with right inv full P len fill_append_right [of ?L ?R i n True] show ?thesis
      by (auto simp: alloc_spec_def simps first_fit_append_right)
  next
    case none
    moreover have "first_fit (?L @ ?R) n = None"
      using none first_fit_append_right [of ?L n ?R] by (simp add: first_fit_None_iff)
    ultimately show ?thesis
      using BuddyBranch2.prems by (auto simp: alloc_spec_def simps simp del: buddy_inv.simps)
  qed
qed

section \<open>The interface\<close>

interpretation buddy: page_allocator buddy_occ buddy_inv buddy_allocate buddy_allocate_fixed buddy_deallocate
proof unfold_locales
  show "buddy_inv (snd (buddy_allocate b n))" if "buddy_inv b" for b n
    using buddy_allocate_spec [OF that] by (simp add: alloc_spec_def)
  show "buddy_inv (snd (buddy_allocate_fixed b i n r))" if "buddy_inv b" for b i n r
    using buddy_allocate_fixed_spec [OF that] by (simp add: fixed_spec_def)
  show "buddy_inv (buddy_deallocate b i n)" if "buddy_inv b" for b i n
    using that by (rule buddy_deallocate_inv)
  show "fst (buddy_allocate b n) = first_fit (buddy_occ b) n" if "buddy_inv b" for b n
    using buddy_allocate_spec [OF that] by (simp add: alloc_spec_def)
  show "buddy_occ (snd (buddy_allocate b n)) = (case first_fit (buddy_occ b) n of None \<Rightarrow> buddy_occ b
      | Some i \<Rightarrow> fill (buddy_occ b) i n True)" if "buddy_inv b" for b n
    using buddy_allocate_spec [OF that] by (simp add: alloc_spec_def)
  show "fst (buddy_allocate_fixed b i n r) =
      (if in_range (buddy_occ b) i n \<and> (r \<or> free_at (buddy_occ b) i n) then Some () else None)"
    if "buddy_inv b" for b i n r
    using buddy_allocate_fixed_spec [OF that] by (simp add: fixed_spec_def may_take_def)
  show "buddy_occ (snd (buddy_allocate_fixed b i n r)) =
      (if in_range (buddy_occ b) i n \<and> (r \<or> free_at (buddy_occ b) i n)
       then fill (buddy_occ b) i n True else buddy_occ b)"
    if "buddy_inv b" for b i n r
    using buddy_allocate_fixed_spec [OF that] by (simp add: fixed_spec_def may_take_def)
  show "buddy_occ (buddy_deallocate b i n) = fill (buddy_occ b) i n False"
    if "buddy_inv b" "i + n \<le> length (buddy_occ b)" for b i n
    using that by (simp add: buddy_deallocate_occ length_buddy_occ)
qed

lemma buddy_shape [simp]:
  assumes "buddy_inv b"
  shows "buddy_pages (snd (buddy_allocate b n)) = buddy_pages b"
    and "buddy_pages (snd (buddy_allocate_fixed b i n r)) = buddy_pages b"
  using buddy_allocate_spec [OF assms] buddy_allocate_fixed_spec [OF assms]
  by (simp_all add: alloc_spec_def fixed_spec_def)

section \<open>New managers\<close>

lemma buddy_new_pages [simp]: "buddy_pages (buddy_new leaf_pages depth) = leaf_pages * 2 ^ depth"
  by (induction depth) (auto simp: Let_def)

lemma buddy_new_occ: "buddy_occ (buddy_new leaf_pages depth) = replicate (leaf_pages * 2 ^ depth) False"
proof (induction depth)
  case 0
  show ?case by (intro nth_equalityI) auto
next
  case (Suc depth)
  have "leaf_pages * 2 ^ Suc depth = leaf_pages * 2 ^ depth + leaf_pages * 2 ^ depth" by simp
  with Suc show ?case by (simp add: Let_def replicate_add del: power_Suc)
qed

lemma free_runs_replicate [simp]:
  "free_start (replicate n False) = n" "free_end (replicate n False) = n"
proof -
  show "free_start (replicate n False) = n" by (induction n) auto
  then show "free_end (replicate n False) = n" by (simp add: free_end_def)
qed

lemma buddy_new_inv:
  "0 < leaf_pages \<Longrightarrow> leaf_pages \<le> 64 \<Longrightarrow> depth = 0 \<or> leaf_pages = 64 \<and> leaf_pages * 2 ^ depth \<le> u64_max \<Longrightarrow>
     buddy_inv (buddy_new leaf_pages depth)"
proof (induction depth)
  case (Suc depth)
  let ?B = "buddy_new leaf_pages depth"
  from Suc have leaf: "leaf_pages = 64" "leaf_pages * 2 ^ depth \<le> u64_max" by auto
  with Suc have inv: "buddy_inv ?B" by simp
  have full: "full_leaf ?B" using leaf by (cases depth) (auto simp: Let_def)
  show ?case
    using inv full Suc.prems leaf
    by (simp add: Let_def buddy_refresh_def buddy_count_simps buddy_new_occ longest_free_all)
qed simp

section \<open>Properties\<close>

text \<open>
  C16: allocating in a well-formed Buddy manager returns the first fit of the request over the
  whole page list, marks exactly the returned range, changes nothing when there is no fit,
  and keeps the manager well-formed.
\<close>

theorem buddy_allocate_first_fit:
  assumes "buddy_inv b" and "buddy_allocate b n = (res, b')"
  shows "res = first_fit (buddy_occ b) n \<and>
         buddy_occ b' = (case res of None \<Rightarrow> buddy_occ b | Some i \<Rightarrow> fill (buddy_occ b) i n True) \<and>
         buddy_inv b'"
  using buddy.alloc_result [OF assms(1), of n] buddy.alloc_occ [OF assms(1), of n]
    buddy.inv_alloc [OF assms(1), of n] assms(2) by auto

theorem buddy_allocate_first_fit_witness:
  "\<exists>b b'. buddy_inv b \<and> buddy_allocate b 100 = (Some 0, b') \<and>
     buddy_occ b' = fill (replicate 256 False) 0 100 True"
proof -
  let ?b = "buddy_new 64 2"
  have inv: "buddy_inv ?b" by (rule buddy_new_inv) (auto simp: u64_max_def)
  have occ: "buddy_occ ?b = replicate 256 False" by (simp add: buddy_new_occ)
  obtain res b' where r: "buddy_allocate ?b 100 = (res, b')" by fastforce
  have fit: "first_fit (replicate 256 False) 100 = Some 0"
    unfolding first_fit_Some_iff by (simp add: free_at_def list_all_iff)
  from buddy_allocate_first_fit [OF inv r] fit occ r inv show ?thesis by fastforce
qed

text \<open>
  The first fit fails exactly when the request is empty or longer than every free run, so
  the manager never refuses a request that some run of free pages could hold.
\<close>

theorem buddy_allocate_complete:
  assumes "buddy_inv b"
  shows "fst (buddy_allocate b n) = None \<longleftrightarrow> n = 0 \<or> \<not> (\<exists>i. free_at (buddy_occ b) i n)"
  using buddy.alloc_result [OF assms, of n]
  by (simp add: first_fit_None_iff le_longest_free_iff [symmetric] not_le)

theorem buddy_allocate_complete_witness:
  "fst (buddy_allocate (BuddyLeaf 2 1) 2) = None \<longleftrightarrow>
     (2::nat) = 0 \<or> \<not> (\<exists>i. free_at (buddy_occ (BuddyLeaf 2 1)) i 2)"
  by (rule buddy_allocate_complete) simp

text \<open>
  C29: allocating a fixed range succeeds exactly when the range lies inside the managed pages
  and is free, or may be replaced; it then marks exactly that range. A refused request leaves
  every page as it was, including the case where the left half was taken and had to be
  given back because the right half refused.
\<close>

theorem buddy_allocate_fixed_exact:
  assumes "buddy_inv b" and "buddy_allocate_fixed b i n r = (res, b')"
  shows "(res = Some () \<longleftrightarrow> 0 < n \<and> i + n \<le> buddy_pages b \<and> (r \<or> free_at (buddy_occ b) i n)) \<and>
         buddy_occ b' = (if res = Some () then fill (buddy_occ b) i n True else buddy_occ b) \<and>
         buddy_inv b'"
  using buddy.alloc_fixed_result [OF assms(1), of i n r] buddy.alloc_fixed_occ [OF assms(1), of i n r]
    buddy.inv_alloc_fixed [OF assms(1), of i n r] assms
  by (auto simp: in_range_def length_buddy_occ)

theorem buddy_allocate_fixed_exact_witness:
  "\<exists>res b'. buddy_allocate_fixed (BuddyLeaf 64 1) 3 2 False = (res, b') \<and> res = Some () \<and>
     buddy_occ b' = fill (buddy_occ (BuddyLeaf 64 1)) 3 2 True"
proof -
  obtain res b' where r: "buddy_allocate_fixed (BuddyLeaf 64 1) 3 2 False = (res, b')" by fastforce
  have inv: "buddy_inv (BuddyLeaf 64 1)" by simp
  have "free_at (buddy_occ (BuddyLeaf 64 1)) 3 2"
    by (auto simp: free_at_iff bit_simps simp del: upt_rec_numeral)
  with buddy_allocate_fixed_exact [OF inv r] have "res = Some ()"
    "buddy_occ b' = fill (buddy_occ (BuddyLeaf 64 1)) 3 2 True"
    by (auto simp del: buddy_occ.simps)
  with r show ?thesis by blast
qed

text \<open>
  Deallocating a range of the managed pages frees exactly that range and keeps the
  manager well-formed; an allocation followed by its deallocation restores every page.
\<close>

theorem buddy_deallocate_exact:
  assumes "buddy_inv b" and "i + n \<le> buddy_pages b"
  shows "buddy_occ (buddy_deallocate b i n) = fill (buddy_occ b) i n False \<and>
         buddy_inv (buddy_deallocate b i n) \<and>
         (\<forall>k b'. buddy_allocate b n = (Some k, b') \<longrightarrow> buddy_occ (buddy_deallocate b' k n) = buddy_occ b)"
  using assms buddy.alloc_dealloc_restores [OF assms(1)] buddy_deallocate_occ buddy_deallocate_inv by blast

theorem buddy_deallocate_exact_witness:
  "buddy_occ (buddy_deallocate (BuddyLeaf 2 3) 1 1) = [True, False]"
proof -
  have "buddy_inv (BuddyLeaf 2 3)" "1 + 1 \<le> buddy_pages (BuddyLeaf 2 3)" by simp_all
  from buddy_deallocate_exact [OF this]
  have "buddy_occ (buddy_deallocate (BuddyLeaf 2 3) 1 1) = fill (buddy_occ (BuddyLeaf 2 3)) 1 1 False"
    by blast
  then show ?thesis by (simp add: fill_def upt_rec bit_numeral_rec)
qed

text \<open>
  The counts cached in every branch are exact: the longest free run, the free pages at the
  start and, for managers whose leaves are full, at the end of the page list.
\<close>

theorem buddy_counts_exact:
  assumes "buddy_inv b"
  shows "longest_free_sequence b = longest_free (buddy_occ b) \<and>
         count_free_start b = free_start (buddy_occ b) \<and>
         (full_leaf b \<longrightarrow> count_free_end b = free_end (buddy_occ b))"
  using assms by (rule buddy_counts)

theorem buddy_counts_exact_witness:
  "longest_free_sequence (buddy_new 64 2) = 256 \<and> count_free_end (buddy_new 64 2) = 256"
proof -
  have "buddy_inv (buddy_new 64 2)" by (rule buddy_new_inv) (auto simp: u64_max_def)
  moreover have "full_leaf (buddy_new 64 2)" by (simp add: eval_nat_numeral Let_def)
  ultimately show ?thesis
    using buddy_counts_exact [of "buddy_new 64 2"] by (simp add: buddy_new_occ longest_free_all)
qed

text \<open>
  Every number of pages that \<^verbatim>\<open>proxy.rs\<close> supports is laid out as a well-formed manager of
  exactly that many pages, all of them free.
\<close>

theorem buddy_layout_proxy_wf:
  assumes "buddy_layout_proxy PAGES = Some b"
  shows "buddy_inv b \<and> buddy_pages b = PAGES \<and> buddy_occ b = replicate PAGES False"
proof -
  obtain lp d where m: "buddy_layout_match PAGES = Some (lp, d)" and b: "b = buddy_new lp d"
    using assms by (auto simp: buddy_layout_proxy_def)
  from m have "lp * 2 ^ d = PAGES" "0 < lp" "lp \<le> 64"
    "d = 0 \<or> lp = 64 \<and> lp * 2 ^ d \<le> u64_max"
    by (auto simp: buddy_layout_match_def buddy_branch4_def buddy_branch8_def buddy_branch16_def
        buddy_branch32_def buddy_branch256_def buddy_branch1Ki_def u64_max_def split: if_splits)
  with b show ?thesis by (simp add: buddy_new_inv buddy_new_occ)
qed

theorem buddy_layout_proxy_wf_witness:
  "\<exists>b. buddy_layout_proxy 1024 = Some b \<and> buddy_inv b \<and> buddy_pages b = 1024"
proof -
  obtain b where b: "buddy_layout_proxy 1024 = Some b"
    by (simp add: buddy_layout_proxy_def buddy_layout_match_def)
  with buddy_layout_proxy_wf [OF b] show ?thesis by blast
qed

text \<open>
  A leaf of fewer than 64 pages can lose track of its trailing free pages: replacing all its
  pages at once sets the unused bits too, and after the last page is freed again
  \<^verbatim>\<open>count_free_end\<close> still reports none.
\<close>

theorem leaf_count_free_end_small_leaf:
  "\<exists>b. buddy_inv b \<and> buddy_occ b = [True, False] \<and>
     b = buddy_deallocate (snd (buddy_allocate_fixed (BuddyLeaf 2 0) 0 2 True)) 1 1 \<and>
     count_free_end b = 0 \<and> free_end (buddy_occ b) = 1"
proof -
  let ?s = "leaf_deallocate 2 (- 1) 1 1"
  let ?b = "BuddyLeaf 2 ?s"
  have "?b = buddy_deallocate (snd (buddy_allocate_fixed (BuddyLeaf 2 0) 0 2 True)) 1 1"
    by (simp add: leaf_allocate_fixed_def)
  moreover have occ: "buddy_occ ?b = [True, False]"
    using leaf_deallocate_occ [of 2 1 1 "- 1"] by (simp add: fill_def upt_rec)
  moreover have b63: "bit ?s 63" by (simp add: leaf_deallocate_def bit_simps)
  have top: "rev [0..<64] = (63::nat) # rev [0..<63]"
    using upt_Suc [of 0 63] by (simp del: upt_Suc upt_rec_numeral)
  have "leading_zeros ?s = 0" using b63 by (simp add: leading_zeros_def top del: upt_rec_numeral)
  then have "count_free_end ?b = 0" by (simp add: leaf_count_free_end_def)
  moreover have "free_end [True, False] = 1" by (simp add: free_end_def)
  moreover have "buddy_inv ?b" by simp
  ultimately show ?thesis by metis
qed

end
