(* ===== verification/Memory.thy ===== *)
theory Memory
  imports Page_Permissions Buddy_Refine
begin

unbundle bit_operations_syntax

text \<open>
  Model of the machine's memory, \<^verbatim>\<open>machine_state/memory/state.rs\<close> (\<^verbatim>\<open>MemoryImpl\<close>), with the
  parts of \<^verbatim>\<open>machine_state/memory.rs\<close>, \<^verbatim>\<open>memory/config.rs\<close>, \<^verbatim>\<open>state_backend/elems.rs\<close> and of the
  owned backend's byte regions that it is built on.

  The record \<open>memory\<close> has the fields of \<^verbatim>\<open>MemoryImpl\<close> and its const generics \<^verbatim>\<open>PAGES\<close> and
  \<^verbatim>\<open>TOTAL_BYTES\<close>. Elements are words stored little endian (\<^verbatim>\<open>Elem\<close>); the generic element type of an
  access is the word type of its value. The \<^verbatim>\<open>assert!\<close>s of the byte region and the unchecked
  page accesses are the errors \<open>Panic\<close> and \<open>UndefinedBehaviour\<close>, which the theorems exclude.
\<close>

section \<open>Little-endian elements\<close>

definition to_le_bytes :: "'a::len word \<Rightarrow> u8 list" where
  "to_le_bytes w = map (\<lambda>i. ucast (drop_bit (8 * i) w)) [0..<LENGTH('a) div 8]"

fun from_le_bytes :: "u8 list \<Rightarrow> 'a::len word" where
  "from_le_bytes [] = 0"
| "from_le_bytes (b # bs) = ucast b OR push_bit 8 (from_le_bytes bs)"

section \<open>State\<close>

datatype memory_error = BadMemoryAccess | MemoryGovernanceError | Panic | UndefinedBehaviour

record memory =
  PAGES :: nat
  TOTAL_BYTES :: nat
  data :: "nat \<Rightarrow> u8"
  readable_pages :: page_permissions
  writable_pages :: page_permissions
  executable_pages :: page_permissions
  allocated_pages :: buddy

text \<open>\<^verbatim>\<open>MemoryImpl::new\<close>, for the numbers of pages that have a Buddy layout.\<close>

definition memory_new :: "nat \<Rightarrow> memory option" where
  "memory_new pages =
     map_option (\<lambda>b. \<lparr>PAGES = pages, TOTAL_BYTES = pages * PAGE_SIZE, data = (\<lambda>_. 0),
                      readable_pages = replicate pages False, writable_pages = replicate pages False,
                      executable_pages = replicate pages False, allocated_pages = b\<rparr>)
       (buddy_layout_proxy pages)"

section \<open>Byte region\<close>

definition dyn_region_read :: "memory \<Rightarrow> nat \<Rightarrow> nat \<Rightarrow> u8 list option" where
  "dyn_region_read m address len =
     (if address + len \<le> TOTAL_BYTES m then Some (map (\<lambda>i. data m (address + i)) [0..<len]) else None)"

definition dyn_region_write :: "memory \<Rightarrow> nat \<Rightarrow> u8 list \<Rightarrow> memory option" where
  "dyn_region_write m address bs =
     (if address + length bs \<le> TOTAL_BYTES m
      then Some (m\<lparr>data := (\<lambda>k. if address \<le> k \<and> k < address + length bs
                                then bs ! (k - address) else data m k)\<rparr>)
      else None)"

definition panic_or :: "'a option \<Rightarrow> memory_error + 'a" where
  "panic_or r = (case r of None \<Rightarrow> Inl Panic | Some x \<Rightarrow> Inr x)"

text \<open>The outcome of a page check: undefined behaviour, refused or granted.\<close>

definition guard_access :: "bool option \<Rightarrow> (memory_error + 'a) \<Rightarrow> memory_error + 'a" where
  "guard_access check k =
     (case check of None \<Rightarrow> Inl UndefinedBehaviour
      | Some ok \<Rightarrow> if ok then k else Inl BadMemoryAccess)"

section \<open>Accesses\<close>

definition check_bounds :: "memory \<Rightarrow> address \<Rightarrow> nat \<Rightarrow> bool" where
  "check_bounds m address len \<longleftrightarrow> len \<le> TOTAL_BYTES m - unat address"

definition mem_read :: "memory \<Rightarrow> address \<Rightarrow> memory_error + 'a::len word" where
  "mem_read m address =
     (let w = LENGTH('a) div 8 in
      if \<not> check_bounds m address w then Inl BadMemoryAccess
      else guard_access (can_access_narrow (readable_pages m) address w)
             (map_sum id from_le_bytes (panic_or (dyn_region_read m (unat address) w))))"

record 'e instruction_data =
  instr_data :: 'e
  writable :: bool

definition combine_with_upper :: "u16 instruction_data \<Rightarrow> u16 instruction_data \<Rightarrow> u32 instruction_data" where
  "combine_with_upper lower upper =
     \<lparr>instr_data = ucast (instr_data lower) OR rust_shl (ucast (instr_data upper)) 16,
      writable = (writable lower \<or> writable upper)\<rparr>"

definition mem_read_exec :: "memory \<Rightarrow> address \<Rightarrow> memory_error + 'a::len word instruction_data" where
  "mem_read_exec m address =
     (let w = LENGTH('a) div 8 in
      if \<not> check_bounds m address w then Inl BadMemoryAccess
      else guard_access (can_access_narrow (executable_pages m) address w)
        (case panic_or (dyn_region_read m (unat address) w) of
           Inl e \<Rightarrow> Inl e
         | Inr bs \<Rightarrow>
             (case can_access_narrow (writable_pages m) address w of
                None \<Rightarrow> Inl UndefinedBehaviour
              | Some wr \<Rightarrow> Inr \<lparr>instr_data = from_le_bytes bs, writable = wr\<rparr>)))"

fun chunks :: "nat \<Rightarrow> nat \<Rightarrow> 'b list \<Rightarrow> 'b list list" where
  "chunks w 0 bs = []"
| "chunks w (Suc n) bs = take w bs # chunks w n (drop w bs)"

text \<open>\<^verbatim>\<open>read_all\<close> fills a slice of \<open>n\<close> elements.\<close>

definition mem_read_all :: "memory \<Rightarrow> address \<Rightarrow> nat \<Rightarrow> memory_error + 'a::len word list" where
  "mem_read_all m address n =
     (let w = LENGTH('a) div 8 in
      if \<not> check_bounds m address (n * w) then Inl BadMemoryAccess
      else guard_access (can_access (readable_pages m) address (n * w))
             (map_sum id (\<lambda>bs. map from_le_bytes (chunks w n bs))
                (panic_or (dyn_region_read m (unat address) (n * w)))))"

definition mem_write :: "memory \<Rightarrow> address \<Rightarrow> 'a::len word \<Rightarrow> memory_error + memory" where
  "mem_write m address value =
     (let w = LENGTH('a) div 8 in
      if \<not> check_bounds m address w then Inl BadMemoryAccess
      else guard_access (can_access_narrow (writable_pages m) address w)
             (panic_or (dyn_region_write m (unat address) (to_le_bytes value))))"

definition mem_write_all :: "memory \<Rightarrow> address \<Rightarrow> 'a::len word list \<Rightarrow> memory_error + memory" where
  "mem_write_all m address values =
     (let w = LENGTH('a) div 8 in
      if \<not> check_bounds m address (length values * w) then Inl BadMemoryAccess
      else guard_access (can_access (writable_pages m) address (length values * w))
             (panic_or (dyn_region_write m (unat address) (concat (map to_le_bytes values)))))"

text \<open>\<^verbatim>\<open>reset\<close>: 64-bit chunks upwards, then the remaining bytes one by one.\<close>

fun zero_bytes :: "memory \<Rightarrow> nat \<Rightarrow> nat \<Rightarrow> nat \<Rightarrow> memory option" where
  "zero_bytes m address i 0 = Some m"
| "zero_bytes m address i (Suc n) =
     (case dyn_region_write m (saturating_add address i) [0] of
        None \<Rightarrow> None | Some m' \<Rightarrow> zero_bytes m' address (Suc i) n)"

function reset_chunks :: "memory \<Rightarrow> nat \<Rightarrow> nat \<Rightarrow> memory option" where
  "reset_chunks m address outstanding =
     (if 8 \<le> outstanding then
        (case dyn_region_write m address (to_le_bytes (0 :: u64)) of
           None \<Rightarrow> None | Some m' \<Rightarrow> reset_chunks m' (address + 8) (outstanding - 8))
      else zero_bytes m address 0 outstanding)"
  by pat_completeness auto
termination
  by (relation "measure (\<lambda>(m, address, outstanding). outstanding)") auto

definition mem_reset :: "memory \<Rightarrow> memory option" where
  "mem_reset m = reset_chunks m 0 (TOTAL_BYTES m)"

section \<open>Governance\<close>

definition protect_pages :: "memory \<Rightarrow> address \<Rightarrow> nat \<Rightarrow> permissions \<Rightarrow> memory_error + memory" where
  "protect_pages m address len perms =
     (if \<not> check_bounds m address len then Inl MemoryGovernanceError
      else Inr (m\<lparr>readable_pages := modify_access (readable_pages m) address len (perm_read perms),
                  writable_pages := modify_access (writable_pages m) address len (perm_write perms),
                  executable_pages := modify_access (executable_pages m) address len (perm_exec perms)\<rparr>))"

definition deallocate_pages :: "memory \<Rightarrow> address \<Rightarrow> nat \<Rightarrow> memory_error + memory" where
  "deallocate_pages m address len =
     (if \<not> check_bounds m address len then Inl MemoryGovernanceError
      else let pages = div_ceil len PAGE_SIZE; idx = start_page address in
           Inr (m\<lparr>allocated_pages := buddy_deallocate (allocated_pages m) idx pages\<rparr>))"

text \<open>
  Also on an error the Buddy manager may have been written, so the memory is returned beside
  the result.
\<close>

definition allocate_pages :: "memory \<Rightarrow> address option \<Rightarrow> nat \<Rightarrow> bool \<Rightarrow> (memory_error + address) \<times> memory" where
  "allocate_pages m address_hint len allow_replace =
     (let pages = div_ceil len PAGE_SIZE in
      case address_hint of
        Some address \<Rightarrow>
          if \<not> check_bounds m address len then (Inl MemoryGovernanceError, m)
          else let idx = start_page address;
                   (res, b) = buddy_allocate_fixed (allocated_pages m) idx pages allow_replace;
                   m' = m\<lparr>allocated_pages := b\<rparr>
               in (case res of None \<Rightarrow> (Inl MemoryGovernanceError, m') | Some _ \<Rightarrow> (Inr address, m'))
      | None \<Rightarrow>
          let (res, b) = buddy_allocate (allocated_pages m) pages; m' = m\<lparr>allocated_pages := b\<rparr>
          in (case res of None \<Rightarrow> (Inl MemoryGovernanceError, m')
              | Some idx \<Rightarrow> (Inr (rust_shl (of_nat idx) OFFSET_BITS), m')))"

text \<open>The zeroing loop of \<^verbatim>\<open>allocate_and_protect_pages\<close>: 8-byte chunks downwards, then the tail.\<close>

function zero_chunks :: "memory \<Rightarrow> nat \<Rightarrow> nat \<Rightarrow> memory option" where
  "zero_chunks m address remaining =
     (if 8 \<le> remaining then
        (case dyn_region_write m (saturating_add address (remaining - 8)) (to_le_bytes (0 :: u64)) of
           None \<Rightarrow> None | Some m' \<Rightarrow> zero_chunks m' address (remaining - 8))
      else zero_bytes m address 0 remaining)"
  by pat_completeness auto
termination
  by (relation "measure (\<lambda>(m, address, remaining). remaining)") auto

definition allocate_and_protect_pages ::
    "memory \<Rightarrow> address option \<Rightarrow> nat \<Rightarrow> permissions \<Rightarrow> bool \<Rightarrow> (memory_error + address) \<times> memory" where
  "allocate_and_protect_pages m address_hint len perms allow_replace =
     (case allocate_pages m address_hint len allow_replace of
        (Inl e, m1) \<Rightarrow> (Inl e, m1)
      | (Inr address, m1) \<Rightarrow>
          (case (case protect_pages m1 address len perms of
                   Inr m2 \<Rightarrow> Inr m2 | Inl _ \<Rightarrow> deallocate_pages m1 address len) of
             Inl e \<Rightarrow> (Inl e, m1)
           | Inr m2 \<Rightarrow>
               (case zero_chunks m2 (unat address) (saturating_mul (div_ceil len PAGE_SIZE) PAGE_SIZE) of
                  None \<Rightarrow> (Inl Panic, m2)
                | Some m3 \<Rightarrow> (Inr address, m3))))"

definition deallocate_and_protect_pages :: "memory \<Rightarrow> address \<Rightarrow> nat \<Rightarrow> memory_error + memory" where
  "deallocate_and_protect_pages m address len =
     (case deallocate_pages m address len of
        Inl e \<Rightarrow> Inl e
      | Inr m' \<Rightarrow> protect_pages m' address len permissions_none)"

section \<open>Invariant\<close>

definition memory_inv :: "memory \<Rightarrow> bool" where
  "memory_inv m \<longleftrightarrow>
     TOTAL_BYTES m = PAGES m * PAGE_SIZE \<and> TOTAL_BYTES m \<le> u64_max \<and>
     length (readable_pages m) = PAGES m \<and> length (writable_pages m) = PAGES m \<and>
     length (executable_pages m) = PAGES m \<and>
     buddy_inv (allocated_pages m) \<and> buddy_pages (allocated_pages m) = PAGES m"

text \<open>Every byte of a range lies on a page with the permission.\<close>

definition range_allowed :: "page_permissions \<Rightarrow> address \<Rightarrow> nat \<Rightarrow> bool" where
  "range_allowed pages address len \<longleftrightarrow> (\<forall>b < len. pages ! ((unat address + b) div PAGE_SIZE))"

definition in_memory :: "memory \<Rightarrow> address \<Rightarrow> nat \<Rightarrow> bool" where
  "in_memory m address len \<longleftrightarrow> len = 0 \<or> unat address + len \<le> TOTAL_BYTES m"

definition bytes_of :: "memory \<Rightarrow> address \<Rightarrow> nat \<Rightarrow> u8 list" where
  "bytes_of m address len = map (\<lambda>i. data m (unat address + i)) [0..<len]"

definition overwrite :: "memory \<Rightarrow> nat \<Rightarrow> u8 list \<Rightarrow> memory" where
  "overwrite m address bs = m\<lparr>data := (\<lambda>k. if address \<le> k \<and> k < address + length bs
                                then bs ! (k - address) else data m k)\<rparr>"

declare reset_chunks.simps [simp del] zero_chunks.simps [simp del]

end
