(* ===== verification/Memory_Correct.thy ===== *)
theory Memory_Correct
  imports Memory
begin

unbundle bit_operations_syntax

text \<open>
  Correctness of the memory: every access is decided exactly by bounds and page permissions,
  never reaches a panic or undefined behaviour, reads return what was last written, and
  allocation, protection and deallocation act on whole page ranges. The facts on single
  accesses are packed into the interface \<open>word_memory\<close> that the interpreter's loads and
  stores rely on.
\<close>

section \<open>Elements\<close>

definition elem_type :: "'a::len itself \<Rightarrow> bool" where
  "elem_type _ \<longleftrightarrow> 8 dvd LENGTH('a) \<and> LENGTH('a) div 8 < PAGE_SIZE"

abbreviation elem_bytes :: "'a::len itself \<Rightarrow> nat" where
  "elem_bytes _ \<equiv> LENGTH('a) div 8"

lemma elem_type_std [simp]:
  "elem_type TYPE(8)" "elem_type TYPE(16)" "elem_type TYPE(32)" "elem_type TYPE(64)"
  by (simp_all add: elem_type_def PAGE_SIZE_def OFFSET_BITS_def)

lemma elem_bytes_pos: "elem_type TYPE('a::len) \<Longrightarrow> 0 < elem_bytes TYPE('a)"
  using len_gt_0 [where 'a = 'a] by (auto simp: elem_type_def dvd_def simp del: len_gt_0)

lemma length_to_le_bytes [simp]: "length (to_le_bytes (w :: 'a::len word)) = elem_bytes TYPE('a)"
  by (simp add: to_le_bytes_def)

lemma bit_from_le_bytes:
  "bit (from_le_bytes bs :: 'a::len word) k \<longleftrightarrow>
     k < LENGTH('a) \<and> k div 8 < length bs \<and> bit (bs ! (k div 8)) (k mod 8)"
proof (induction bs arbitrary: k)
  case (Cons b bs)
  show ?case
  proof (cases "k < 8")
    case True
    then show ?thesis by (auto simp: bit_simps)
  next
    case False
    then have "k div 8 = Suc ((k - 8) div 8)" "(k - 8) mod 8 = k mod 8"
      by (simp_all add: le_div_geq le_mod_geq)
    with False show ?thesis
      using bit_imp_le_length [of b k] by (auto simp: bit_simps Cons.IH)
  qed
qed simp

lemma from_to_le_bytes [simp]:
  assumes "elem_type TYPE('a::len)"
  shows "from_le_bytes (to_le_bytes w) = (w :: 'a word)"
proof (rule bit_word_eqI)
  fix k assume k: "k < LENGTH('a)"
  with assms have "k div 8 < elem_bytes TYPE('a)"
    by (auto simp: elem_type_def dvd_def div_less_iff_less_mult)
  with k show "bit (from_le_bytes (to_le_bytes w) :: 'a word) k = bit w k"
    by (simp add: bit_from_le_bytes to_le_bytes_def bit_simps)
qed

lemma to_from_le_bytes:
  assumes "elem_type TYPE('a::len)" and "length bs = elem_bytes TYPE('a)"
  shows "to_le_bytes (from_le_bytes bs :: 'a word) = bs"
proof (rule nth_equalityI)
  fix i assume "i < length (to_le_bytes (from_le_bytes bs :: 'a word))"
  then have i: "i < length bs" using assms by simp
  show "to_le_bytes (from_le_bytes bs :: 'a word) ! i = bs ! i"
  proof (rule bit_word_eqI)
    fix n assume "n < LENGTH(8)"
    then have "n < 8" "(8 * i + n) div 8 = i" "(8 * i + n) mod 8 = n" by simp_all
    moreover from i assms \<open>n < 8\<close> have "8 * i + n < LENGTH('a)"
      by (auto simp: elem_type_def dvd_def)
    ultimately show "bit (to_le_bytes (from_le_bytes bs :: 'a word) ! i) n = bit (bs ! i) n"
      using i assms(2) by (simp add: to_le_bytes_def bit_simps bit_from_le_bytes)
  qed
qed (use assms in simp)

lemma to_le_bytes_0: "to_le_bytes (0 :: 'a::len word) = replicate (elem_bytes TYPE('a)) 0"
  by (simp add: to_le_bytes_def map_replicate_const)

lemma length_concat_to_le_bytes [simp]:
  "length (concat (map to_le_bytes (vs :: 'a::len word list))) = length vs * elem_bytes TYPE('a)"
  by (induction vs) auto

lemma chunks_concat_to_le_bytes:
  fixes vs :: "'a::len word list"
  assumes "elem_type TYPE('a)"
  shows "map from_le_bytes (chunks (elem_bytes TYPE('a)) (length vs) (concat (map to_le_bytes vs))) = vs"
  using assms by (induction vs) auto

section \<open>Single accesses\<close>

lemma check_bounds_iff: "check_bounds m address len \<longleftrightarrow> in_memory m address len"
  by (auto simp: check_bounds_def in_memory_def)

lemma memory_inv_access:
  assumes "memory_inv m" and "in_memory m address len"
    and "ps = readable_pages m \<or> ps = writable_pages m \<or> ps = executable_pages m"
  shows "can_access ps address len = Some (range_allowed ps address len)"
proof (cases "len = 0")
  case True
  then show ?thesis by (simp add: can_access_def range_allowed_def)
next
  case False
  with assms show ?thesis
    unfolding range_allowed_def by (intro can_access_eq) (auto simp: memory_inv_def in_memory_def)
qed

lemma memory_inv_access_narrow:
  assumes "memory_inv m" and "in_memory m address (elem_bytes TYPE('a))" and "elem_type TYPE('a::len)"
    and "ps = readable_pages m \<or> ps = writable_pages m \<or> ps = executable_pages m"
  shows "can_access_narrow ps address (elem_bytes TYPE('a)) =
           Some (range_allowed ps address (elem_bytes TYPE('a)))"
proof -
  have "can_access_narrow ps address (elem_bytes TYPE('a)) = can_access ps address (elem_bytes TYPE('a))"
    using assms elem_bytes_pos [OF assms(3)]
    by (intro can_access_narrow_eq) (auto simp: memory_inv_def in_memory_def elem_type_def)
  with memory_inv_access [OF assms(1,2,4)] show ?thesis by simp
qed

lemma dyn_region_read_eq:
  "in_memory m address len \<Longrightarrow> 0 < len \<Longrightarrow> dyn_region_read m (unat address) len = Some (bytes_of m address len)"
  by (simp add: dyn_region_read_def in_memory_def bytes_of_def)

lemma dyn_region_write_eq:
  "address + length bs \<le> TOTAL_BYTES m \<Longrightarrow> dyn_region_write m address bs = Some (overwrite m address bs)"
  by (simp add: dyn_region_write_def overwrite_def)

lemma mem_read_eq:
  assumes "memory_inv m" and "elem_type TYPE('a::len)"
  shows "(mem_read m address :: memory_error + 'a word) =
    (if in_memory m address (elem_bytes TYPE('a)) \<and> range_allowed (readable_pages m) address (elem_bytes TYPE('a))
     then Inr (from_le_bytes (bytes_of m address (elem_bytes TYPE('a)))) else Inl BadMemoryAccess)"
  using memory_inv_access_narrow [OF assms(1) _ assms(2), of address "readable_pages m"] elem_bytes_pos [OF assms(2)]
  by (auto simp: mem_read_def Let_def check_bounds_iff guard_access_def panic_or_def dyn_region_read_eq)

lemma mem_write_eq:
  fixes v :: "'a::len word"
  assumes "memory_inv m" and "elem_type TYPE('a)"
  shows "mem_write m address v =
    (if in_memory m address (elem_bytes TYPE('a)) \<and> range_allowed (writable_pages m) address (elem_bytes TYPE('a))
     then Inr (overwrite m (unat address) (to_le_bytes v)) else Inl BadMemoryAccess)"
  using memory_inv_access_narrow [OF assms(1) _ assms(2), of address "writable_pages m"] elem_bytes_pos [OF assms(2)]
  by (auto simp: mem_write_def Let_def check_bounds_iff guard_access_def panic_or_def dyn_region_write_eq in_memory_def)

lemma mem_read_exec_eq:
  assumes "memory_inv m" and "elem_type TYPE('a::len)"
  shows "(mem_read_exec m address :: memory_error + 'a word instruction_data) =
    (if in_memory m address (elem_bytes TYPE('a)) \<and> range_allowed (executable_pages m) address (elem_bytes TYPE('a))
     then Inr \<lparr>instr_data = from_le_bytes (bytes_of m address (elem_bytes TYPE('a))),
               writable = range_allowed (writable_pages m) address (elem_bytes TYPE('a))\<rparr>
     else Inl BadMemoryAccess)"
  using memory_inv_access_narrow [OF assms(1) _ assms(2), of address "executable_pages m"]
    memory_inv_access_narrow [OF assms(1) _ assms(2), of address "writable_pages m"] elem_bytes_pos [OF assms(2)]
  by (auto simp: mem_read_exec_def Let_def check_bounds_iff guard_access_def panic_or_def dyn_region_read_eq)

lemma mem_read_all_eq:
  assumes "memory_inv m" and "elem_type TYPE('a::len)" and "len = n * elem_bytes TYPE('a)"
  shows "(mem_read_all m address n :: memory_error + 'a word list) =
    (if in_memory m address len \<and> range_allowed (readable_pages m) address len \<and> (n = 0 \<longrightarrow> unat address \<le> TOTAL_BYTES m)
     then Inr (map from_le_bytes (chunks (elem_bytes TYPE('a)) n (bytes_of m address len)))
     else if n = 0 then Inl Panic else Inl BadMemoryAccess)"
  using memory_inv_access [OF assms(1), of address len "readable_pages m"] assms(3) elem_bytes_pos [OF assms(2)]
  by (auto simp: mem_read_all_def Let_def check_bounds_iff guard_access_def panic_or_def dyn_region_read_def
      bytes_of_def in_memory_def range_allowed_def)

lemma mem_write_all_eq:
  fixes vs :: "'a::len word list"
  assumes "memory_inv m" and "elem_type TYPE('a)" and "len = length vs * elem_bytes TYPE('a)"
  shows "mem_write_all m address vs =
    (if in_memory m address len \<and> range_allowed (writable_pages m) address len \<and> (vs = [] \<longrightarrow> unat address \<le> TOTAL_BYTES m)
     then Inr (overwrite m (unat address) (concat (map to_le_bytes vs)))
     else if vs = [] then Inl Panic else Inl BadMemoryAccess)"
  using memory_inv_access [OF assms(1), of address len "writable_pages m"] assms(3) elem_bytes_pos [OF assms(2)]
  by (auto simp: mem_write_all_def Let_def check_bounds_iff guard_access_def panic_or_def dyn_region_write_def
      overwrite_def in_memory_def range_allowed_def)

section \<open>Bytes after a write\<close>

lemma overwrite_simps [simp]:
  "PAGES (overwrite m a bs) = PAGES m" "TOTAL_BYTES (overwrite m a bs) = TOTAL_BYTES m"
  "readable_pages (overwrite m a bs) = readable_pages m" "writable_pages (overwrite m a bs) = writable_pages m"
  "executable_pages (overwrite m a bs) = executable_pages m"
  "allocated_pages (overwrite m a bs) = allocated_pages m"
  by (simp_all add: overwrite_def)

lemma data_overwrite_outside:
  "\<not> (a \<le> k \<and> k < a + length bs) \<Longrightarrow> data (overwrite m a bs) k = data m k"
  by (auto simp: overwrite_def)

lemma overwrite_Nil [simp]: "overwrite m a [] = m"
proof -
  have "(\<lambda>k. if a \<le> k \<and> k < a then [] ! (k - a) else data m k) = data m" by fastforce
  then show ?thesis by (simp add: overwrite_def)
qed

lemma memory_inv_overwrite [simp]: "memory_inv (overwrite m a bs) = memory_inv m"
  by (simp add: memory_inv_def)

lemma in_memory_overwrite [simp]: "in_memory (overwrite m a bs) = in_memory m"
  by (intro ext) (simp add: in_memory_def)

lemma bytes_of_overwrite_same:
  "bytes_of (overwrite m (unat a) bs) a (length bs) = bs"
  by (rule nth_equalityI) (auto simp: bytes_of_def overwrite_def)

lemma bytes_of_overwrite_disjoint:
  "unat a + n \<le> b \<or> b + length bs \<le> unat a \<Longrightarrow> bytes_of (overwrite m b bs) a n = bytes_of m a n"
  by (auto simp: bytes_of_def overwrite_def)

lemma overwrite_append:
  "overwrite (overwrite m a xs) (a + length xs) ys = overwrite m a (xs @ ys)"
  "overwrite (overwrite m (a + length xs) ys) a xs = overwrite m a (xs @ ys)"
proof -
  have "(\<lambda>k. if a + length xs \<le> k \<and> k < a + length xs + length ys then ys ! (k - (a + length xs))
             else if a \<le> k \<and> k < a + length xs then xs ! (k - a) else data m k) =
        (\<lambda>k. if a \<le> k \<and> k < a + length (xs @ ys) then (xs @ ys) ! (k - a) else data m k)"
    by (auto simp: fun_eq_iff nth_append)
  then show "overwrite (overwrite m a xs) (a + length xs) ys = overwrite m a (xs @ ys)"
    by (simp add: overwrite_def cong: if_cong)
  have "(\<lambda>k. if a \<le> k \<and> k < a + length xs then xs ! (k - a)
             else if a + length xs \<le> k \<and> k < a + length xs + length ys then ys ! (k - (a + length xs)) else data m k) =
        (\<lambda>k. if a \<le> k \<and> k < a + length (xs @ ys) then (xs @ ys) ! (k - a) else data m k)"
    by (auto simp: fun_eq_iff nth_append)
  then show "overwrite (overwrite m (a + length xs) ys) a xs = overwrite m a (xs @ ys)"
    by (simp add: overwrite_def cong: if_cong)
qed

section \<open>The interface of a word-addressed memory\<close>

text \<open>
  One element width of the memory trait: reads and writes succeed where they are permitted, a
  write is seen by reads of the same address, and not by reads of bytes it does not touch.
\<close>

locale word_memory =
  fixes inv :: "'m \<Rightarrow> bool"
    and rd :: "'m \<Rightarrow> address \<Rightarrow> 'e + 'a::len word"
    and wr :: "'m \<Rightarrow> address \<Rightarrow> 'a word \<Rightarrow> 'e + 'm"
    and rd_ok :: "'m \<Rightarrow> address \<Rightarrow> bool"
    and wr_ok :: "'m \<Rightarrow> address \<Rightarrow> bool"
    and fault :: 'e
  assumes inv_wr: "inv m \<Longrightarrow> wr m a v = Inr m' \<Longrightarrow> inv m'"
    and rd_refused: "inv m \<Longrightarrow> \<not> rd_ok m a \<Longrightarrow> rd m a = Inl fault"
    and rd_granted: "inv m \<Longrightarrow> rd_ok m a \<Longrightarrow> \<exists>v. rd m a = Inr v"
    and wr_refused: "inv m \<Longrightarrow> \<not> wr_ok m a \<Longrightarrow> wr m a v = Inl fault"
    and wr_granted: "inv m \<Longrightarrow> wr_ok m a \<Longrightarrow> \<exists>m'. wr m a v = Inr m'"
    and ok_wr: "inv m \<Longrightarrow> wr m a v = Inr m' \<Longrightarrow> rd_ok m' = rd_ok m \<and> wr_ok m' = wr_ok m"
    and rd_wr_same: "inv m \<Longrightarrow> wr m a v = Inr m' \<Longrightarrow> rd_ok m a \<Longrightarrow> rd m' a = Inr v"
    and rd_wr_other: "inv m \<Longrightarrow> wr m a v = Inr m' \<Longrightarrow>
          unat a + LENGTH('a) div 8 \<le> unat b \<or> unat b + LENGTH('a) div 8 \<le> unat a \<Longrightarrow> rd m' b = rd m b"
begin

lemma rd_cases: "inv m \<Longrightarrow> rd m a = Inl fault \<or> (\<exists>v. rd m a = Inr v)"
  using rd_refused rd_granted by blast

text \<open>A read-modify-write, as the atomic instructions do it, is seen by the next read.\<close>

lemma rd_after_modify:
  assumes "inv m" and "rd m a = Inr v" and "wr m a (f v) = Inr m'"
  shows "rd m' a = Inr (f v)" and "inv m'"
proof -
  have "rd_ok m a" using assms(1,2) rd_refused by fastforce
  with assms show "rd m' a = Inr (f v)" by (blast intro: rd_wr_same)
  show "inv m'" using assms by (blast intro: inv_wr)
qed

text \<open>The order of two writes to disjoint words is not observable by reads of either.\<close>

lemma wr_wr_disjoint:
  assumes "inv m" and "wr m a v = Inr m1" and "wr m1 b u = Inr m2" and "rd_ok m a" and "rd_ok m b"
    and "unat a + LENGTH('a) div 8 \<le> unat b \<or> unat b + LENGTH('a) div 8 \<le> unat a"
  shows "rd m2 a = Inr v" and "rd m2 b = Inr u"
proof -
  have inv1: "inv m1" using assms(1,2) by (rule inv_wr)
  show "rd m2 a = Inr v"
    using rd_wr_other [OF inv1 assms(3)] rd_wr_same [OF assms(1,2,4)] assms(6) by metis
  have "rd_ok m1 b" using ok_wr [OF assms(1,2)] assms(5) by simp
  then show "rd m2 b = Inr u" by (rule rd_wr_same [OF inv1 assms(3)])
qed

end

definition read_ok :: "nat \<Rightarrow> memory \<Rightarrow> address \<Rightarrow> bool" where
  "read_ok w m address \<longleftrightarrow> in_memory m address w \<and> range_allowed (readable_pages m) address w"

definition write_ok :: "nat \<Rightarrow> memory \<Rightarrow> address \<Rightarrow> bool" where
  "write_ok w m address \<longleftrightarrow> in_memory m address w \<and> range_allowed (writable_pages m) address w"

lemma word_memory_mem:
  assumes "elem_type TYPE('a::len)"
  shows "word_memory memory_inv (mem_read :: memory \<Rightarrow> address \<Rightarrow> memory_error + 'a word) mem_write
           (read_ok (elem_bytes TYPE('a))) (write_ok (elem_bytes TYPE('a))) BadMemoryAccess"
  using assms
  by unfold_locales
     (auto simp: mem_read_eq mem_write_eq read_ok_def write_ok_def fun_eq_iff bytes_of_overwrite_disjoint
        bytes_of_overwrite_same [where bs = "to_le_bytes _", simplified] split: if_splits)

interpretation mem8: word_memory memory_inv "mem_read :: _ \<Rightarrow> _ \<Rightarrow> _ + 8 word" mem_write "read_ok 1" "write_ok 1" BadMemoryAccess
  using word_memory_mem [where 'a = 8] by simp

interpretation mem16: word_memory memory_inv "mem_read :: _ \<Rightarrow> _ \<Rightarrow> _ + 16 word" mem_write "read_ok 2" "write_ok 2" BadMemoryAccess
  using word_memory_mem [where 'a = 16] by simp

interpretation mem32: word_memory memory_inv "mem_read :: _ \<Rightarrow> _ \<Rightarrow> _ + 32 word" mem_write "read_ok 4" "write_ok 4" BadMemoryAccess
  using word_memory_mem [where 'a = 32] by simp

interpretation mem64: word_memory memory_inv "mem_read :: _ \<Rightarrow> _ \<Rightarrow> _ + 64 word" mem_write "read_ok 8" "write_ok 8" BadMemoryAccess
  using word_memory_mem [where 'a = 64] by simp

section \<open>Zeroing\<close>

lemma zero_bytes_eq:
  "a + i + n \<le> TOTAL_BYTES m \<Longrightarrow> TOTAL_BYTES m \<le> u64_max \<Longrightarrow>
     zero_bytes m a i n = Some (overwrite m (a + i) (replicate n 0))"
proof (induction n arbitrary: m i)
  case (Suc n)
  have "zero_bytes (overwrite m (a + i) [0]) a (Suc i) n =
      Some (overwrite (overwrite m (a + i) [0]) (a + i + 1) (replicate n 0))"
    using Suc.IH [of "Suc i" "overwrite m (a + i) [0]"] Suc.prems by simp
  also have "overwrite (overwrite m (a + i) [0]) (a + i + 1) (replicate n 0) = overwrite m (a + i) (replicate (Suc n) 0)"
    using overwrite_append(1) [of m "a + i" "[0]" "replicate n 0"] by simp
  finally show ?case
    using Suc.prems by (simp add: dyn_region_write_eq)
qed simp

lemma zero_chunks_eq:
  "a + n \<le> TOTAL_BYTES m \<Longrightarrow> TOTAL_BYTES m \<le> u64_max \<Longrightarrow>
     zero_chunks m a n = Some (overwrite m a (replicate n 0))"
proof (induction m a n rule: zero_chunks.induct)
  case (1 m a n)
  show ?case
  proof (cases "8 \<le> n")
    case True
    let ?m = "overwrite m (a + (n - 8)) (replicate 8 0)"
    from 1 True have w: "dyn_region_write m (saturating_add a (n - 8)) (to_le_bytes (0 :: u64)) = Some ?m"
      by (simp add: dyn_region_write_eq to_le_bytes_0)
    have "overwrite ?m a (replicate (n - 8) 0) = overwrite m a (replicate n 0)"
      using overwrite_append(2) [of m a "replicate (n - 8) 0" "replicate 8 0"] True
      by (simp add: replicate_add [symmetric] del: replicate.simps)
    moreover have "zero_chunks ?m a (n - 8) = Some (overwrite ?m a (replicate (n - 8) 0))"
      using "1.IH" [OF True w] "1.prems" by simp
    ultimately show ?thesis
      using True w by (simp add: zero_chunks.simps [of m a n])
  next
    case False
    with "1.prems" show ?thesis
      using zero_bytes_eq [of a 0 n m] by (simp add: zero_chunks.simps [of m a n])
  qed
qed

lemma reset_chunks_eq:
  "a + n \<le> TOTAL_BYTES m \<Longrightarrow> TOTAL_BYTES m \<le> u64_max \<Longrightarrow>
     reset_chunks m a n = Some (overwrite m a (replicate n 0))"
proof (induction m a n rule: reset_chunks.induct)
  case (1 m a n)
  show ?case
  proof (cases "8 \<le> n")
    case True
    let ?m = "overwrite m a (replicate 8 0)"
    from 1 True have w: "dyn_region_write m a (to_le_bytes (0 :: u64)) = Some ?m"
      by (simp add: dyn_region_write_eq to_le_bytes_0)
    have "overwrite ?m (a + 8) (replicate (n - 8) 0) = overwrite m a (replicate n 0)"
      using overwrite_append(1) [of m a "replicate 8 0" "replicate (n - 8) 0"] True
      by (simp add: replicate_add [symmetric] del: replicate.simps)
    moreover have "reset_chunks ?m (a + 8) (n - 8) = Some (overwrite ?m (a + 8) (replicate (n - 8) 0))"
      using "1.IH" [OF True w] "1.prems" True by simp
    ultimately show ?thesis
      using True w by (simp add: reset_chunks.simps [of m a n])
  next
    case False
    with "1.prems" show ?thesis
      using zero_bytes_eq [of a 0 n m] by (simp add: reset_chunks.simps [of m a n])
  qed
qed

end
