(* ===== verification/Memory_Governance.thy ===== *)
theory Memory_Governance
  imports Memory_Correct
begin

unbundle bit_operations_syntax

text \<open>
  Allocation, protection and deallocation of page ranges, and the properties of the memory
  component. The page allocator enters through the interface of \<open>Page_Spec\<close>, interpreted for
  the Buddy manager; word accesses through \<open>word_memory\<close>.
\<close>

section \<open>Page ranges of aligned requests\<close>

lemma div_ceil_page: "0 < len \<Longrightarrow> div_ceil len PAGE_SIZE = Suc ((len - 1) div PAGE_SIZE)"
proof -
  assume "0 < len"
  then have "len + PAGE_SIZE - 1 = (len - 1) + PAGE_SIZE" by simp
  then show ?thesis by (simp add: div_ceil_def div_add_self2 del: One_nat_def)
qed

lemma modify_access_aligned:
  assumes "PAGE_SIZE dvd unat address" and "len = 0 \<or> unat address + len \<le> u64_max"
  shows "modify_access ps address len v = fill ps (unat address div PAGE_SIZE) (div_ceil len PAGE_SIZE) v"
proof (cases "len = 0")
  case True
  moreover have "div_ceil 0 PAGE_SIZE = 0" by (simp add: div_ceil_def)
  ultimately show ?thesis by (simp add: modify_access_def)
next
  case False
  with assms have len: "0 < len" "unat address + len \<le> u64_max" by auto
  obtain q where q: "unat address = PAGE_SIZE * q" using assms(1) by blast
  have "unat address + len - 1 = (len - 1) + q * PAGE_SIZE" using len q by (simp add: mult.commute)
  then have "(unat address + len - 1) div PAGE_SIZE = q + (len - 1) div PAGE_SIZE"
    by (metis PAGE_SIZE_pos add.commute div_mult_self3 not_gr_zero)
  then have e: "end_page address len = q + (len - 1) div PAGE_SIZE"
    using end_page_eq [OF len] by simp
  have "start_page address = q" by (simp add: start_page_eq q)
  with e len q show ?thesis by (simp add: modify_access_fill div_ceil_page)
qed

lemma in_memory_pages:
  assumes "memory_inv m" and "in_memory m address len" and "0 < len"
  shows "start_page address + div_ceil len PAGE_SIZE \<le> PAGES m"
  using assms by (auto simp: start_page_eq memory_inv_def in_memory_def intro: div_add_div_ceil_le)

lemma unat_page_address:
  assumes "memory_inv m" and "i < PAGES m"
  shows "unat (rust_shl (of_nat i) OFFSET_BITS :: u64) = i * PAGE_SIZE"
proof -
  have "i * PAGE_SIZE < 2 ^ 64"
  proof -
    have "i * PAGE_SIZE < PAGES m * PAGE_SIZE" using assms(2) by simp
    also have "\<dots> \<le> 2 ^ 64 - 1" using assms(1) by (simp add: memory_inv_def u64_max_def)
    finally show ?thesis by simp
  qed
  moreover have "rust_shl (of_nat i) OFFSET_BITS = (of_nat (i * PAGE_SIZE) :: u64)"
    by (simp add: OFFSET_BITS_def PAGE_SIZE_def push_bit_eq_mult)
  ultimately show ?thesis by (simp add: unat_of_nat del: of_nat_mult)
qed

section \<open>Invariant\<close>

lemma memory_inv_protect:
  "memory_inv m \<Longrightarrow> protect_pages m a len perms = Inr m' \<Longrightarrow> memory_inv m'"
  by (auto simp: protect_pages_def memory_inv_def split: if_splits)

lemma memory_inv_deallocate:
  "memory_inv m \<Longrightarrow> deallocate_pages m a len = Inr m' \<Longrightarrow> memory_inv m'"
  by (auto simp: deallocate_pages_def memory_inv_def Let_def buddy_deallocate_inv split: if_splits)

lemma memory_inv_buddy:
  assumes "memory_inv m" and "buddy_inv b" and "buddy_pages b = PAGES m"
  shows "memory_inv (m\<lparr>allocated_pages := b\<rparr>)"
  using assms by (simp add: memory_inv_def)

lemma length_occ: "memory_inv m \<Longrightarrow> length (buddy_occ (allocated_pages m)) = PAGES m"
  by (simp add: memory_inv_def length_buddy_occ)

section \<open>Allocation\<close>

text \<open>Whether a request can be served, and where.\<close>

definition placement :: "memory \<Rightarrow> address option \<Rightarrow> nat \<Rightarrow> bool \<Rightarrow> nat option" where
  "placement m hint len replace =
     (let occ = buddy_occ (allocated_pages m); n = div_ceil len PAGE_SIZE in
      case hint of
        None \<Rightarrow> first_fit occ n
      | Some a \<Rightarrow> if 0 < len \<and> in_memory m a len \<and> (replace \<or> free_at occ (start_page a) n)
                  then Some (start_page a) else None)"

lemma allocate_pages_spec:
  assumes inv: "memory_inv m"
    and aligned: "\<And>a. hint = Some a \<Longrightarrow> PAGE_SIZE dvd unat a"
    and alloc: "allocate_pages m hint len replace = (res, m')"
  shows "case placement m hint len replace of
      None \<Rightarrow> res = Inl MemoryGovernanceError \<and> (\<exists>b. m' = m\<lparr>allocated_pages := b\<rparr> \<and>
                buddy_inv b \<and> buddy_pages b = PAGES m \<and> buddy_occ b = buddy_occ (allocated_pages m))
    | Some i \<Rightarrow> \<exists>a b. res = Inr a \<and> unat a = i * PAGE_SIZE \<and> i + div_ceil len PAGE_SIZE \<le> PAGES m \<and>
                0 < len \<and> m' = m\<lparr>allocated_pages := b\<rparr> \<and> buddy_inv b \<and> buddy_pages b = PAGES m \<and>
                buddy_occ b = fill (buddy_occ (allocated_pages m)) i (div_ceil len PAGE_SIZE) True"
proof -
  let ?B = "allocated_pages m" and ?n = "div_ceil len PAGE_SIZE"
  from inv have B: "buddy_inv ?B" "buddy_pages ?B = PAGES m" by (auto simp: memory_inv_def)
  show ?thesis
  proof (cases hint)
    case None
    obtain r b where r: "buddy_allocate ?B ?n = (r, b)" by fastforce
    have b: "buddy_inv b" "buddy_pages b = PAGES m"
      using B buddy.inv_alloc [OF B(1), of ?n] buddy_shape(1) [OF B(1), of ?n] by (simp_all add: r)
    have res: "r = first_fit (buddy_occ ?B) ?n" and occ: "buddy_occ b = (case first_fit (buddy_occ ?B) ?n of
        None \<Rightarrow> buddy_occ ?B | Some i \<Rightarrow> fill (buddy_occ ?B) i ?n True)"
      using buddy.alloc_result [OF B(1), of ?n] buddy.alloc_occ [OF B(1), of ?n] by (simp_all add: r)
    have place: "placement m hint len replace = first_fit (buddy_occ ?B) ?n"
      by (simp add: placement_def None Let_def)
    show ?thesis
    proof (cases "first_fit (buddy_occ ?B) ?n")
      case fit: None
      with alloc r res b occ None place show ?thesis
        by (auto simp: allocate_pages_def Let_def)
    next
      case (Some i)
      then have n: "0 < ?n" "i + ?n \<le> PAGES m"
        using length_occ [OF inv] by (auto simp: first_fit_Some_iff free_at_def)
      from n(1) have len: "0 < len" by (simp add: div_ceil_pos_iff)
      from n have "i < PAGES m" by linarith
      with n len show ?thesis
        using alloc r res b occ None place Some unat_page_address [OF inv, of i]
        by (auto simp: allocate_pages_def Let_def)
    qed
  next
    case (Some a)
    obtain r b where r: "buddy_allocate_fixed ?B (start_page a) ?n replace = (r, b)" by fastforce
    have b: "buddy_inv b" "buddy_pages b = PAGES m"
      using B buddy.inv_alloc_fixed [OF B(1), of "start_page a" ?n replace]
        buddy_shape(2) [OF B(1), of "start_page a" ?n replace] by (simp_all add: r)
    note fixed = buddy.alloc_fixed_result [OF B(1), of "start_page a" ?n replace, unfolded r]
      buddy.alloc_fixed_occ [OF B(1), of "start_page a" ?n replace, unfolded r]
    have a: "unat a = start_page a * PAGE_SIZE"
      using aligned [OF Some] by (simp add: start_page_eq)
    have rng: "in_range (buddy_occ ?B) (start_page a) ?n \<longleftrightarrow> 0 < len" if "in_memory m a len"
      using in_memory_pages [OF inv that] length_occ [OF inv] by (auto simp: in_range_def div_ceil_pos_iff)
    show ?thesis
      using alloc r fixed b a rng in_memory_pages [OF inv, of a len]
      by (auto simp: allocate_pages_def placement_def Let_def check_bounds_iff Some memory.defs
          intro: exI [of _ ?B] split: if_splits)
         (use B in \<open>auto intro!: exI [of _ ?B]\<close>)
  qed
qed

text \<open>The memory after a served request: pages taken, permissions set, contents zeroed.\<close>

definition served :: "memory \<Rightarrow> nat \<Rightarrow> nat \<Rightarrow> permissions \<Rightarrow> memory \<Rightarrow> bool" where
  "served m i n perms m' \<longleftrightarrow>
     PAGES m' = PAGES m \<and> TOTAL_BYTES m' = TOTAL_BYTES m \<and>
     buddy_occ (allocated_pages m') = fill (buddy_occ (allocated_pages m)) i n True \<and>
     readable_pages m' = fill (readable_pages m) i n (perm_read perms) \<and>
     writable_pages m' = fill (writable_pages m) i n (perm_write perms) \<and>
     executable_pages m' = fill (executable_pages m) i n (perm_exec perms) \<and>
     (\<forall>k. data m' k = (if i * PAGE_SIZE \<le> k \<and> k < (i + n) * PAGE_SIZE then 0 else data m k))"

lemma allocate_and_protect_served:
  assumes inv: "memory_inv m" and a: "unat a = i * PAGE_SIZE" and len: "0 < len"
    and fits: "i + div_ceil len PAGE_SIZE \<le> PAGES m"
    and alloc: "allocate_pages m hint len replace = (Inr a, m\<lparr>allocated_pages := b\<rparr>)"
    and b: "buddy_inv b" "buddy_pages b = PAGES m"
      "buddy_occ b = fill (buddy_occ (allocated_pages m)) i (div_ceil len PAGE_SIZE) True"
  shows "\<exists>m'. allocate_and_protect_pages m hint len perms replace = (Inr a, m') \<and>
           memory_inv m' \<and> served m i (div_ceil len PAGE_SIZE) perms m'"
proof -
  let ?n = "div_ceil len PAGE_SIZE" and ?m1 = "m\<lparr>allocated_pages := b\<rparr>"
  have T: "TOTAL_BYTES m = PAGES m * PAGE_SIZE" "PAGES m * PAGE_SIZE \<le> u64_max"
    using inv by (auto simp: memory_inv_def)
  have bytes: "i * PAGE_SIZE + ?n * PAGE_SIZE \<le> PAGES m * PAGE_SIZE"
    using mult_le_mono1 [OF fits, of PAGE_SIZE] by (simp add: add_mult_distrib)
  have "unat a + len \<le> TOTAL_BYTES m"
    using bytes div_ceil_mult_ge [of PAGE_SIZE len] a T by simp
  then have in_mem: "in_memory ?m1 a len" by (simp add: in_memory_def)
  define m2 where "m2 = ?m1\<lparr>readable_pages := modify_access (readable_pages m) a len (perm_read perms),
      writable_pages := modify_access (writable_pages m) a len (perm_write perms),
      executable_pages := modify_access (executable_pages m) a len (perm_exec perms)\<rparr>"
  have prot: "protect_pages ?m1 a len perms = Inr m2"
    using in_mem by (simp add: protect_pages_def check_bounds_iff m2_def)
  have inv2: "memory_inv m2"
    using memory_inv_protect [OF memory_inv_buddy [OF inv b(1,2)] prot] .
  have "saturating_mul ?n PAGE_SIZE = ?n * PAGE_SIZE"
    using bytes T by (simp add: saturating_mul_def)
  then have zero: "zero_chunks m2 (unat a) (saturating_mul ?n PAGE_SIZE) =
      Some (overwrite m2 (unat a) (replicate (?n * PAGE_SIZE) 0))"
    using zero_chunks_eq [of "unat a" "?n * PAGE_SIZE" m2] inv2 bytes T a by (simp add: m2_def)
  have "modify_access ps a len v = fill ps i ?n v" for ps v
    using a \<open>unat a + len \<le> TOTAL_BYTES m\<close> T modify_access_aligned [of a len ps v] by simp
  then have "served m i ?n perms (overwrite m2 (unat a) (replicate (?n * PAGE_SIZE) 0))"
    using b(3) a by (auto simp: served_def m2_def overwrite_def add_mult_distrib)
  with prot zero alloc inv2 show ?thesis
    by (simp add: allocate_and_protect_pages_def)
qed

text \<open>
  Allocating with permissions, at a page-aligned address or anywhere, succeeds exactly when the
  request has a placement. It then takes the pages, sets their permissions and zeroes them up to the
  page boundary, touching no other page; otherwise it reports an error and changes no page,
  permission or byte. It never panics.
\<close>

lemma allocate_and_protect_exact:
  assumes "memory_inv m" and "\<And>a. hint = Some a \<Longrightarrow> PAGE_SIZE dvd unat a"
    and "allocate_and_protect_pages m hint len perms replace = (res, m')"
  shows "memory_inv m' \<and>
    (case placement m hint len replace of
       None \<Rightarrow> res = Inl MemoryGovernanceError \<and> data m' = data m \<and>
               buddy_occ (allocated_pages m') = buddy_occ (allocated_pages m) \<and>
               readable_pages m' = readable_pages m \<and> writable_pages m' = writable_pages m \<and>
               executable_pages m' = executable_pages m
     | Some i \<Rightarrow> (\<exists>a. res = Inr a \<and> unat a = i * PAGE_SIZE \<and> (\<forall>h. hint = Some h \<longrightarrow> a = h)) \<and>
                 served m i (div_ceil len PAGE_SIZE) perms m')"
proof -
  obtain r m1 where r: "allocate_pages m hint len replace = (r, m1)" by fastforce
  note spec = allocate_pages_spec [OF assms(1,2) r]
  show ?thesis
  proof (cases "placement m hint len replace")
    case None
    with spec obtain b where "r = Inl MemoryGovernanceError" "m1 = m\<lparr>allocated_pages := b\<rparr>" "buddy_inv b"
      "buddy_pages b = PAGES m" "buddy_occ b = buddy_occ (allocated_pages m)" by auto
    with None assms r show ?thesis
      by (auto simp: allocate_and_protect_pages_def memory_inv_buddy)
  next
    case (Some i)
    with spec obtain a b where a: "r = Inr a" "unat a = i * PAGE_SIZE"
      "i + div_ceil len PAGE_SIZE \<le> PAGES m" "0 < len" "m1 = m\<lparr>allocated_pages := b\<rparr>" "buddy_inv b"
      "buddy_pages b = PAGES m" "buddy_occ b = fill (buddy_occ (allocated_pages m)) i (div_ceil len PAGE_SIZE) True"
      by auto
    obtain m2 where "allocate_and_protect_pages m hint len perms replace = (Inr a, m2)" "memory_inv m2"
      "served m i (div_ceil len PAGE_SIZE) perms m2"
      using allocate_and_protect_served [OF assms(1) a(2,4,3) r [unfolded a(1,5)] a(6-8)] by blast
    moreover have "a = h" if "hint = Some h" for h
      using that a(2) Some assms(2) [OF that]
      by (auto simp: placement_def Let_def start_page_eq word_unat_eq_iff split: if_splits)
    ultimately show ?thesis using Some a(2) assms(3) by simp
  qed
qed

text \<open>
  Unmapping a page-aligned range of the memory frees exactly its pages and removes every permission
  on them.
\<close>

lemma deallocate_and_protect_exact:
  assumes "memory_inv m" and "PAGE_SIZE dvd unat a" and "unat a + len \<le> TOTAL_BYTES m"
  shows "\<exists>m'. deallocate_and_protect_pages m a len = Inr m' \<and> memory_inv m' \<and> data m' = data m \<and>
     (let i = unat a div PAGE_SIZE; n = div_ceil len PAGE_SIZE in
      buddy_occ (allocated_pages m') = fill (buddy_occ (allocated_pages m)) i n False \<and>
      readable_pages m' = fill (readable_pages m) i n False \<and>
      writable_pages m' = fill (writable_pages m) i n False \<and>
      executable_pages m' = fill (executable_pages m) i n False)"
proof -
  let ?i = "unat a div PAGE_SIZE" and ?n = "div_ceil len PAGE_SIZE"
  let ?m1 = "m\<lparr>allocated_pages := buddy_deallocate (allocated_pages m) ?i ?n\<rparr>"
  have inm: "in_memory m a len" "in_memory ?m1 a len" using assms(3) by (auto simp: in_memory_def)
  have B: "buddy_inv (allocated_pages m)" "buddy_pages (allocated_pages m) = PAGES m"
    "TOTAL_BYTES m = PAGES m * PAGE_SIZE" "TOTAL_BYTES m \<le> u64_max"
    using assms(1) by (auto simp: memory_inv_def)
  have rng: "?i + ?n \<le> PAGES m" using assms(3) B by (auto intro: div_add_div_ceil_le)
  have dealloc: "deallocate_pages m a len = Inr ?m1"
    using inm by (simp add: deallocate_pages_def check_bounds_iff start_page_eq Let_def)
  have occ: "buddy_occ (buddy_deallocate (allocated_pages m) ?i ?n) = fill (buddy_occ (allocated_pages m)) ?i ?n False"
    using B rng by (simp add: buddy_deallocate_occ)
  obtain m2 where prot: "protect_pages ?m1 a len permissions_none = Inr m2"
    using inm by (simp add: protect_pages_def check_bounds_iff)
  have inv2: "memory_inv m2"
    using memory_inv_protect [OF memory_inv_deallocate [OF assms(1) dealloc] prot] .
  from prot inm have "m2 = ?m1\<lparr>readable_pages := modify_access (readable_pages m) a len False,
      writable_pages := modify_access (writable_pages m) a len False,
      executable_pages := modify_access (executable_pages m) a len False\<rparr>"
    by (auto simp: protect_pages_def check_bounds_iff permissions_none_def split: if_splits)
  moreover have "modify_access ps a len v = fill ps ?i ?n v" for ps v
    using assms B by (intro modify_access_aligned) auto
  ultimately show ?thesis
    using dealloc prot inv2 occ by (auto simp: deallocate_and_protect_pages_def Let_def)
qed

section \<open>Properties\<close>

text \<open>
  The memory built for a supported number of pages is well-formed: its size is that many
  pages, nothing is accessible and no page is allocated.
\<close>

theorem memory_new_wf:
  assumes "memory_new n = Some m"
  shows "memory_inv m \<and> TOTAL_BYTES m = n * PAGE_SIZE \<and> \<not> read_ok 1 m a \<and> \<not> write_ok 1 m a \<and>
         buddy_occ (allocated_pages m) = replicate n False"
proof -
  obtain b where b: "buddy_layout_proxy n = Some b"
    and m: "m = \<lparr>PAGES = n, TOTAL_BYTES = n * PAGE_SIZE, data = (\<lambda>_. 0),
              readable_pages = replicate n False, writable_pages = replicate n False,
              executable_pages = replicate n False, allocated_pages = b\<rparr>"
    using assms by (auto simp: memory_new_def)
  obtain lp d where mt: "buddy_layout_match n = Some (lp, d)" and bn: "b = buddy_new lp d"
    using b by (auto simp: buddy_layout_proxy_def)
  from mt have n: "lp * 2 ^ d = n" "0 < lp" "lp \<le> 64" "d = 0 \<or> lp = 64 \<and> lp * 2 ^ d \<le> u64_max"
    "n * PAGE_SIZE \<le> u64_max"
    by (auto simp: buddy_layout_match_def buddy_branch4_def buddy_branch8_def buddy_branch16_def
        buddy_branch32_def buddy_branch256_def buddy_branch1Ki_def u64_max_def PAGE_SIZE_def OFFSET_BITS_def
        split: if_splits)
  have "unat a div PAGE_SIZE < n" if "Suc (unat a) \<le> n * PAGE_SIZE"
    using that by (simp add: div_less_iff_less_mult)
  with n bn show ?thesis
    by (auto simp: m memory_inv_def buddy_new_inv buddy_new_occ read_ok_def write_ok_def in_memory_def
        range_allowed_def)
qed

theorem memory_new_wf_witness:
  "\<exists>m. memory_new 256 = Some m \<and> memory_inv m \<and> \<not> read_ok 1 m 0"
proof -
  obtain m where m: "memory_new 256 = Some m"
    by (auto simp: memory_new_def buddy_layout_proxy_def buddy_layout_match_def)
  with memory_new_wf [OF m, of 0] show ?thesis by blast
qed

text \<open>
  C17: on a well-formed memory every element access of the four integer widths is decided exactly by
  the bounds and the permissions of the pages its bytes lie on: a read by the readable pages, a write by the
  writable ones, an instruction fetch by the executable ones. A granted read or fetch gives the bytes in
  little-endian order, a fetch also whether all its pages are writable, and a granted write changes exactly the
  bytes of the element; everything else is refused with \<^verbatim>\<open>BadMemoryAccess\<close>. So no access panics and none
  reads a permission cell out of range: the unchecked accesses are safe.
\<close>

theorem mem_access_decided:
  assumes "memory_inv m" and "elem_type TYPE('a::len)"
  shows "(mem_read m a :: memory_error + 'a word) =
           (if read_ok (LENGTH('a) div 8) m a then Inr (from_le_bytes (bytes_of m a (LENGTH('a) div 8)))
            else Inl BadMemoryAccess) \<and>
         mem_write m a (v :: 'a word) =
           (if write_ok (LENGTH('a) div 8) m a then Inr (overwrite m (unat a) (to_le_bytes v))
            else Inl BadMemoryAccess) \<and>
         (mem_read_exec m a :: memory_error + 'a word instruction_data) =
           (if in_memory m a (LENGTH('a) div 8) \<and> range_allowed (executable_pages m) a (LENGTH('a) div 8)
            then Inr \<lparr>instr_data = from_le_bytes (bytes_of m a (LENGTH('a) div 8)),
                      writable = range_allowed (writable_pages m) a (LENGTH('a) div 8)\<rparr>
            else Inl BadMemoryAccess)"
  using assms
  by (simp add: mem_read_eq mem_write_eq mem_read_exec_eq read_ok_def write_ok_def)

theorem mem_access_decided_witness:
  "\<exists>m. memory_new 1 = Some m \<and> (mem_read m 0 :: memory_error + u64) = Inl BadMemoryAccess"
proof -
  obtain m where m: "memory_new 1 = Some m"
    by (auto simp: memory_new_def buddy_layout_proxy_def buddy_layout_match_def)
  then have inv: "memory_inv m" and r: "readable_pages m = [False]"
    by (auto simp: memory_new_def buddy_layout_proxy_def buddy_layout_match_def memory_inv_def
        PAGE_SIZE_def OFFSET_BITS_def u64_max_def)
  have "\<not> read_ok 8 m 0"
    by (auto simp: read_ok_def range_allowed_def r PAGE_SIZE_def OFFSET_BITS_def intro!: exI [of _ 0])
  with mem_access_decided [OF inv elem_type_std(4), of 0] m show ?thesis by auto
qed

text \<open>
  A successful write is seen by every later read of the same address, leaves every byte
  outside the written element as it was, and keeps the memory well-formed.
\<close>

theorem mem_write_read:
  fixes v :: "'a::len word"
  assumes "memory_inv m" and "elem_type TYPE('a)" and "mem_write m a v = Inr m'"
    and "read_ok (LENGTH('a) div 8) m a"
  shows "mem_read m' a = Inr v \<and> memory_inv m' \<and>
         (\<forall>k. \<not> (unat a \<le> k \<and> k < unat a + LENGTH('a) div 8) \<longrightarrow> data m' k = data m k)"
  using assms bytes_of_overwrite_same [where bs = "to_le_bytes v"]
  by (auto simp: mem_read_eq mem_write_eq read_ok_def data_overwrite_outside split: if_splits)

theorem mem_write_read_witness:
  "\<exists>m m' :: memory. mem_write m 4094 (0x1234 :: u16) = Inr m' \<and> mem_read m' 4094 = Inr (0x1234 :: u16)"
proof -
  let ?m = "\<lparr>PAGES = 1, TOTAL_BYTES = 4096, data = (\<lambda>_. 0), readable_pages = [True], writable_pages = [True],
    executable_pages = [True], allocated_pages = BuddyLeaf 1 1\<rparr>"
  have inv: "memory_inv ?m"
    by (simp add: memory_inv_def PAGE_SIZE_def OFFSET_BITS_def u64_max_def)
  have ok: "write_ok (LENGTH(16) div 8) ?m 4094" "read_ok (LENGTH(16) div 8) ?m 4094"
    by (auto simp: write_ok_def read_ok_def in_memory_def range_allowed_def PAGE_SIZE_def OFFSET_BITS_def)
  then obtain m' where "mem_write ?m 4094 (0x1234 :: u16) = Inr m'"
    using mem16.wr_granted [OF inv, of 4094] by auto
  with mem_write_read [OF inv elem_type_std(2) this ok(2)] show ?thesis by blast
qed

text \<open>
  A slice written with \<^verbatim>\<open>write_all\<close> is read back by \<^verbatim>\<open>read_all\<close>, for every element type.
\<close>

theorem mem_write_all_read_all:
  fixes vs :: "'a::len word list"
  assumes "memory_inv m" and "elem_type TYPE('a)" and "mem_write_all m a vs = Inr m'"
    and "read_ok (length vs * (LENGTH('a) div 8)) m a"
  shows "mem_read_all m' a (length vs) = Inr vs \<and> memory_inv m'"
  using assms bytes_of_overwrite_same [where bs = "concat (map to_le_bytes vs)"]
    chunks_concat_to_le_bytes [OF assms(2), of vs]
  by (auto simp: mem_write_all_eq [OF assms(1,2) refl] mem_read_all_eq [OF _ assms(2) refl] read_ok_def
      split: if_splits)

theorem mem_write_all_read_all_witness:
  "\<exists>m m' :: memory. mem_write_all m 16 [1, 2, 3 :: u32] = Inr m' \<and> mem_read_all m' 16 3 = Inr [1, 2, 3 :: u32]"
proof -
  let ?m = "\<lparr>PAGES = 1, TOTAL_BYTES = 4096, data = (\<lambda>_. 0), readable_pages = [True], writable_pages = [True],
    executable_pages = [True], allocated_pages = BuddyLeaf 1 1\<rparr>"
  have inv: "memory_inv ?m"
    by (simp add: memory_inv_def PAGE_SIZE_def OFFSET_BITS_def u64_max_def)
  have ok: "in_memory ?m 16 12" "range_allowed (writable_pages ?m) 16 12"
    "read_ok (length [1, 2, 3 :: u32] * (LENGTH(32) div 8)) ?m 16"
    by (auto simp: read_ok_def in_memory_def range_allowed_def PAGE_SIZE_def OFFSET_BITS_def)
  then obtain m' where "mem_write_all ?m 16 [1, 2, 3 :: u32] = Inr m'"
    using mem_write_all_eq [OF inv elem_type_std(3), of _ "[1, 2, 3]" 16] by auto
  with mem_write_all_read_all [OF inv elem_type_std(3) this ok(3)] show ?thesis
    by (auto simp: numeral_3_eq_3)
qed

text \<open>
  An empty slice at an address above the end of memory passes the bounds check and the
  permission check and then fails the assertion of the byte region: the access panics instead of
  returning an error.
\<close>

theorem mem_empty_slice_panics:
  assumes "memory_inv m" and "TOTAL_BYTES m < unat a"
  shows "check_bounds m a 0 \<and> (mem_read_all m a 0 :: memory_error + u8 list) = Inl Panic \<and>
         mem_write_all m a ([] :: u8 list) = Inl Panic"
  using assms by (simp add: check_bounds_iff in_memory_def mem_read_all_eq [OF assms(1) elem_type_std(1) refl]
      mem_write_all_eq [OF assms(1) elem_type_std(1) refl])

theorem mem_empty_slice_panics_witness:
  "\<exists>m. memory_new 1 = Some m \<and> (mem_read_all m 0xFFFF 0 :: memory_error + u8 list) = Inl Panic"
proof -
  obtain m where m: "memory_new 1 = Some m"
    by (auto simp: memory_new_def buddy_layout_proxy_def buddy_layout_match_def)
  then have "memory_inv m" "TOTAL_BYTES m < unat (0xFFFF :: address)"
    by (auto simp: memory_new_def buddy_layout_proxy_def buddy_layout_match_def memory_inv_def
        PAGE_SIZE_def OFFSET_BITS_def u64_max_def)
  from mem_empty_slice_panics [OF this] m show ?thesis by blast
qed

text \<open>Resetting a well-formed memory never panics and zeroes every byte, nothing else.\<close>

theorem mem_reset_zero:
  assumes "memory_inv m"
  shows "\<exists>m'. mem_reset m = Some m' \<and> memory_inv m' \<and> m' = m\<lparr>data := data m'\<rparr> \<and>
              (\<forall>k < TOTAL_BYTES m. data m' k = 0)"
  using assms reset_chunks_eq [of 0 "TOTAL_BYTES m" m]
  by (auto simp: mem_reset_def memory_inv_def overwrite_def)

theorem mem_reset_zero_witness:
  "\<exists>m m'. memory_new 2 = Some m \<and> mem_reset m = Some m' \<and> data m' 8191 = 0"
proof -
  obtain m where m: "memory_new 2 = Some m"
    by (auto simp: memory_new_def buddy_layout_proxy_def buddy_layout_match_def)
  then have "memory_inv m" and T: "8191 < TOTAL_BYTES m"
    by (auto simp: memory_new_def buddy_layout_proxy_def buddy_layout_match_def memory_inv_def
        PAGE_SIZE_def OFFSET_BITS_def u64_max_def)
  from mem_reset_zero [OF this(1)] T m show ?thesis by blast
qed

end
