(* ===== verification/Registers.thy ===== *)
theory Registers
  imports Prelude
begin

text \<open>
  Model of \<^verbatim>\<open>src/riscv/lib/src/machine_state/registers.rs\<close>: the register enumerations with their
  discriminants, the parsing of five-bit register fields, and the integer and float register
  files. A \<^verbatim>\<open>transmute\<close> from a byte is a lookup of the constructor with that discriminant; it
  gives \<open>None\<close> on a byte that is no discriminant, where the Rust operation is undefined, and
  \<open>parse_xregister_defined\<close>, \<open>parse_fregister_defined\<close> and \<open>assert_from_defined\<close> show that this
  value is never produced. The panic of \<^verbatim>\<open>assert_from\<close> is \<open>None\<close> as well.
\<close>

section \<open>Register names\<close>

datatype xregister =
    x0 | x1 | x2 | x3 | x4 | x5 | x6 | x7 | x8 | x9 | x10 | x11 | x12 | x13 | x14 | x15 |
    x16 | x17 | x18 | x19 | x20 | x21 | x22 | x23 | x24 | x25 | x26 | x27 | x28 | x29 | x30 |
    x31

datatype nz_xregister =
    nz_x1 | nz_x2 | nz_x3 | nz_x4 | nz_x5 | nz_x6 | nz_x7 | nz_x8 | nz_x9 | nz_x10 | nz_x11 |
    nz_x12 | nz_x13 | nz_x14 | nz_x15 | nz_x16 | nz_x17 | nz_x18 | nz_x19 | nz_x20 | nz_x21 |
    nz_x22 | nz_x23 | nz_x24 | nz_x25 | nz_x26 | nz_x27 | nz_x28 | nz_x29 | nz_x30 | nz_x31

datatype fregister =
    f0 | f1 | f2 | f3 | f4 | f5 | f6 | f7 | f8 | f9 | f10 | f11 | f12 | f13 | f14 | f15 |
    f16 | f17 | f18 | f19 | f20 | f21 | f22 | f23 | f24 | f25 | f26 | f27 | f28 | f29 | f30 |
    f31

primrec xregister_repr :: "xregister \<Rightarrow> u8" where
  "xregister_repr x0 = 255" | "xregister_repr x1 = 0" | "xregister_repr x2 = 1" |
  "xregister_repr x3 = 2" | "xregister_repr x4 = 3" | "xregister_repr x5 = 4" |
  "xregister_repr x6 = 5" | "xregister_repr x7 = 6" | "xregister_repr x8 = 7" |
  "xregister_repr x9 = 8" | "xregister_repr x10 = 9" | "xregister_repr x11 = 10" |
  "xregister_repr x12 = 11" | "xregister_repr x13 = 12" | "xregister_repr x14 = 13" |
  "xregister_repr x15 = 14" | "xregister_repr x16 = 15" | "xregister_repr x17 = 16" |
  "xregister_repr x18 = 17" | "xregister_repr x19 = 18" | "xregister_repr x20 = 19" |
  "xregister_repr x21 = 20" | "xregister_repr x22 = 21" | "xregister_repr x23 = 22" |
  "xregister_repr x24 = 23" | "xregister_repr x25 = 24" | "xregister_repr x26 = 25" |
  "xregister_repr x27 = 26" | "xregister_repr x28 = 27" | "xregister_repr x29 = 28" |
  "xregister_repr x30 = 29" | "xregister_repr x31 = 30"

primrec nz_xregister_repr :: "nz_xregister \<Rightarrow> u8" where
  "nz_xregister_repr nz_x1 = 0" | "nz_xregister_repr nz_x2 = 1" |
  "nz_xregister_repr nz_x3 = 2" | "nz_xregister_repr nz_x4 = 3" |
  "nz_xregister_repr nz_x5 = 4" | "nz_xregister_repr nz_x6 = 5" |
  "nz_xregister_repr nz_x7 = 6" | "nz_xregister_repr nz_x8 = 7" |
  "nz_xregister_repr nz_x9 = 8" | "nz_xregister_repr nz_x10 = 9" |
  "nz_xregister_repr nz_x11 = 10" | "nz_xregister_repr nz_x12 = 11" |
  "nz_xregister_repr nz_x13 = 12" | "nz_xregister_repr nz_x14 = 13" |
  "nz_xregister_repr nz_x15 = 14" | "nz_xregister_repr nz_x16 = 15" |
  "nz_xregister_repr nz_x17 = 16" | "nz_xregister_repr nz_x18 = 17" |
  "nz_xregister_repr nz_x19 = 18" | "nz_xregister_repr nz_x20 = 19" |
  "nz_xregister_repr nz_x21 = 20" | "nz_xregister_repr nz_x22 = 21" |
  "nz_xregister_repr nz_x23 = 22" | "nz_xregister_repr nz_x24 = 23" |
  "nz_xregister_repr nz_x25 = 24" | "nz_xregister_repr nz_x26 = 25" |
  "nz_xregister_repr nz_x27 = 26" | "nz_xregister_repr nz_x28 = 27" |
  "nz_xregister_repr nz_x29 = 28" | "nz_xregister_repr nz_x30 = 29" |
  "nz_xregister_repr nz_x31 = 30"

primrec fregister_repr :: "fregister \<Rightarrow> u8" where
  "fregister_repr f0 = 0" | "fregister_repr f1 = 1" | "fregister_repr f2 = 2" |
  "fregister_repr f3 = 3" | "fregister_repr f4 = 4" | "fregister_repr f5 = 5" |
  "fregister_repr f6 = 6" | "fregister_repr f7 = 7" | "fregister_repr f8 = 8" |
  "fregister_repr f9 = 9" | "fregister_repr f10 = 10" | "fregister_repr f11 = 11" |
  "fregister_repr f12 = 12" | "fregister_repr f13 = 13" | "fregister_repr f14 = 14" |
  "fregister_repr f15 = 15" | "fregister_repr f16 = 16" | "fregister_repr f17 = 17" |
  "fregister_repr f18 = 18" | "fregister_repr f19 = 19" | "fregister_repr f20 = 20" |
  "fregister_repr f21 = 21" | "fregister_repr f22 = 22" | "fregister_repr f23 = 23" |
  "fregister_repr f24 = 24" | "fregister_repr f25 = 25" | "fregister_repr f26 = 26" |
  "fregister_repr f27 = 27" | "fregister_repr f28 = 28" | "fregister_repr f29 = 29" |
  "fregister_repr f30 = 30" | "fregister_repr f31 = 31"

definition all_xregisters :: "xregister list" where
  "all_xregisters =
   [x0, x1, x2, x3, x4, x5, x6, x7, x8, x9, x10, x11, x12, x13, x14, x15, x16, x17, x18, x19,
    x20, x21, x22, x23, x24, x25, x26, x27, x28, x29, x30, x31]"

definition all_nz_xregisters :: "nz_xregister list" where
  "all_nz_xregisters =
   [nz_x1, nz_x2, nz_x3, nz_x4, nz_x5, nz_x6, nz_x7, nz_x8, nz_x9, nz_x10, nz_x11, nz_x12,
    nz_x13, nz_x14, nz_x15, nz_x16, nz_x17, nz_x18, nz_x19, nz_x20, nz_x21, nz_x22, nz_x23,
    nz_x24, nz_x25, nz_x26, nz_x27, nz_x28, nz_x29, nz_x30, nz_x31]"

definition all_fregisters :: "fregister list" where
  "all_fregisters =
   [f0, f1, f2, f3, f4, f5, f6, f7, f8, f9, f10, f11, f12, f13, f14, f15, f16, f17, f18, f19,
    f20, f21, f22, f23, f24, f25, f26, f27, f28, f29, f30, f31]"

definition transmute_xregister :: "u8 \<Rightarrow> xregister option" where
  "transmute_xregister b = find (\<lambda>r. xregister_repr r = b) all_xregisters"

definition transmute_nz_xregister :: "u8 \<Rightarrow> nz_xregister option" where
  "transmute_nz_xregister b = find (\<lambda>r. nz_xregister_repr r = b) all_nz_xregisters"

definition transmute_fregister :: "u8 \<Rightarrow> fregister option" where
  "transmute_fregister b = find (\<lambda>r. fregister_repr r = b) all_fregisters"

definition parse_xregister :: "5 word \<Rightarrow> xregister" where
  "parse_xregister r =
     (let r = (ucast r :: u8) - 1 in
      case transmute_xregister r of Some x \<Rightarrow> x | None \<Rightarrow> x0)"

definition parse_fregister :: "5 word \<Rightarrow> fregister" where
  "parse_fregister r = (case transmute_fregister (ucast r) of Some f \<Rightarrow> f | None \<Rightarrow> f0)"

definition xregister_from :: "nz_xregister \<Rightarrow> xregister" where
  "xregister_from r = (case transmute_xregister (nz_xregister_repr r) of Some x \<Rightarrow> x | None \<Rightarrow> x0)"

definition assert_from :: "xregister \<Rightarrow> nz_xregister option" where
  "assert_from r = (if r = x0 then None else transmute_nz_xregister (xregister_repr r))"

definition is_zero :: "xregister \<Rightarrow> bool" where
  "is_zero r \<longleftrightarrow> r = x0"

text \<open>\<^verbatim>\<open>XRegisterParsed\<close> and \<^verbatim>\<open>split_x0\<close> of \<^verbatim>\<open>parser.rs\<close>.\<close>

datatype xregister_parsed = X0 | NonZero nz_xregister

definition split_x0 :: "xregister \<Rightarrow> xregister_parsed" where
  "split_x0 r =
     (if r = x0 then X0 else case assert_from r of Some nz \<Rightarrow> NonZero nz | None \<Rightarrow> X0)"

primrec xregister_name :: "xregister \<Rightarrow> string" where
  "xregister_name x0 = ''zero''" | "xregister_name x1 = ''ra''" |
  "xregister_name x2 = ''sp''" | "xregister_name x3 = ''gp''" | "xregister_name x4 = ''tp''" |
  "xregister_name x5 = ''t0''" | "xregister_name x6 = ''t1''" | "xregister_name x7 = ''t2''" |
  "xregister_name x8 = ''s0''" | "xregister_name x9 = ''s1''" |
  "xregister_name x10 = ''a0''" | "xregister_name x11 = ''a1''" |
  "xregister_name x12 = ''a2''" | "xregister_name x13 = ''a3''" |
  "xregister_name x14 = ''a4''" | "xregister_name x15 = ''a5''" |
  "xregister_name x16 = ''a6''" | "xregister_name x17 = ''a7''" |
  "xregister_name x18 = ''s2''" | "xregister_name x19 = ''s3''" |
  "xregister_name x20 = ''s4''" | "xregister_name x21 = ''s5''" |
  "xregister_name x22 = ''s6''" | "xregister_name x23 = ''s7''" |
  "xregister_name x24 = ''s8''" | "xregister_name x25 = ''s9''" |
  "xregister_name x26 = ''s10''" | "xregister_name x27 = ''s11''" |
  "xregister_name x28 = ''t3''" | "xregister_name x29 = ''t4''" |
  "xregister_name x30 = ''t5''" | "xregister_name x31 = ''t6''"

primrec fregister_name :: "fregister \<Rightarrow> string" where
  "fregister_name f0 = ''ft0''" | "fregister_name f1 = ''ft1''" |
  "fregister_name f2 = ''ft2''" | "fregister_name f3 = ''ft3''" |
  "fregister_name f4 = ''ft4''" | "fregister_name f5 = ''ft5''" |
  "fregister_name f6 = ''ft6''" | "fregister_name f7 = ''ft7''" |
  "fregister_name f8 = ''fs0''" | "fregister_name f9 = ''fs1''" |
  "fregister_name f10 = ''fa0''" | "fregister_name f11 = ''fa1''" |
  "fregister_name f12 = ''fa2''" | "fregister_name f13 = ''fa3''" |
  "fregister_name f14 = ''fa4''" | "fregister_name f15 = ''fa5''" |
  "fregister_name f16 = ''fa6''" | "fregister_name f17 = ''fa7''" |
  "fregister_name f18 = ''fs2''" | "fregister_name f19 = ''fs3''" |
  "fregister_name f20 = ''fs4''" | "fregister_name f21 = ''fs5''" |
  "fregister_name f22 = ''fs6''" | "fregister_name f23 = ''fs7''" |
  "fregister_name f24 = ''fs8''" | "fregister_name f25 = ''fs9''" |
  "fregister_name f26 = ''fs10''" | "fregister_name f27 = ''fs11''" |
  "fregister_name f28 = ''ft8''" | "fregister_name f29 = ''ft9''" |
  "fregister_name f30 = ''ft10''" | "fregister_name f31 = ''ft11''"
section \<open>Register files\<close>

text \<open>\<^verbatim>\<open>XRegisters\<close> is an array of 31 cells, one per register other than \<^verbatim>\<open>x0\<close>.\<close>

type_synonym xregisters = "u64 list"
type_synonym fregisters = "u64 list"

definition xregisters_new :: xregisters where
  "xregisters_new = replicate 31 0"

definition xregisters_read :: "xregisters \<Rightarrow> xregister \<Rightarrow> xvalue" where
  "xregisters_read regs reg = (if is_zero reg then 0 else regs ! unat (xregister_repr reg))"

definition xregisters_write :: "xregisters \<Rightarrow> xregister \<Rightarrow> xvalue \<Rightarrow> xregisters" where
  "xregisters_write regs reg val =
     (if is_zero reg then regs else regs[unat (xregister_repr reg) := val])"

definition xregisters_read_nz :: "xregisters \<Rightarrow> nz_xregister \<Rightarrow> xvalue" where
  "xregisters_read_nz regs reg = regs ! unat (nz_xregister_repr reg)"

definition xregisters_write_nz :: "xregisters \<Rightarrow> nz_xregister \<Rightarrow> xvalue \<Rightarrow> xregisters" where
  "xregisters_write_nz regs reg val = regs[unat (nz_xregister_repr reg) := val]"

definition xregisters_reset :: "xregisters \<Rightarrow> xregisters" where
  "xregisters_reset regs = foldl (\<lambda>regs i. regs[i := 0]) regs [0..<31]"

definition fregisters_new :: fregisters where
  "fregisters_new = replicate 32 0"

definition fregisters_read :: "fregisters \<Rightarrow> fregister \<Rightarrow> u64" where
  "fregisters_read regs reg = regs ! unat (fregister_repr reg)"

definition fregisters_write :: "fregisters \<Rightarrow> fregister \<Rightarrow> u64 \<Rightarrow> fregisters" where
  "fregisters_write regs reg val = regs[unat (fregister_repr reg) := val]"

definition fregisters_reset :: "fregisters \<Rightarrow> fregisters" where
  "fregisters_reset regs = foldl (\<lambda>regs i. regs[i := 0]) regs [0..<32]"

text \<open>The shape of the two register files, which every operation keeps.\<close>

definition xregisters_inv :: "xregisters \<Rightarrow> bool" where
  "xregisters_inv regs \<longleftrightarrow> length regs = 31"

definition fregisters_inv :: "fregisters \<Rightarrow> bool" where
  "fregisters_inv regs \<longleftrightarrow> length regs = 32"

section \<open>Discriminants\<close>

lemma word5_forall:
  assumes "\<And>n. n < 32 \<Longrightarrow> P (of_nat n)"
  shows "P (w :: 5 word)"
  using assms [of "unat w"] unsigned_less [of w] by simp

lemma upt_0_32: "[0..<32] = [0, 1, 2, 3, 4, 5, 6, 7, 8, 9, 10, 11, 12, 13, 14, 15,
     16, 17, 18, 19, 20, 21, 22, 23, 24, 25, 26, 27, 28, 29, 30, 31]"
  by (simp add: eval_nat_numeral)

lemma upt_0_31: "[0..<31] = [0, 1, 2, 3, 4, 5, 6, 7, 8, 9, 10, 11, 12, 13, 14, 15,
     16, 17, 18, 19, 20, 21, 22, 23, 24, 25, 26, 27, 28, 29, 30]"
  by (simp add: eval_nat_numeral)

lemma less_32_cases:
  assumes "list_all P [0..<32]" and "n < 32"
  shows "P (n :: nat)"
  using assms by (auto simp: list_all_iff)

lemma all_xregisters_UNIV: "r \<in> set all_xregisters"
  by (cases r) (simp_all add: all_xregisters_def)

lemma transmute_xregister_repr [simp]: "transmute_xregister (xregister_repr r) = Some r"
  by (cases r) (simp_all add: transmute_xregister_def all_xregisters_def)

lemma transmute_nz_xregister_repr [simp]: "transmute_nz_xregister (nz_xregister_repr r) = Some r"
  by (cases r) (simp_all add: transmute_nz_xregister_def all_nz_xregisters_def)

lemma transmute_fregister_repr [simp]: "transmute_fregister (fregister_repr r) = Some r"
  by (cases r) (simp_all add: transmute_fregister_def all_fregisters_def)

lemma xregister_repr_inj [simp]: "xregister_repr r = xregister_repr r' \<longleftrightarrow> r = r'"
  by (metis option.inject transmute_xregister_repr)

lemma nz_xregister_repr_inj [simp]: "nz_xregister_repr r = nz_xregister_repr r' \<longleftrightarrow> r = r'"
  by (metis option.inject transmute_nz_xregister_repr)

lemma fregister_repr_inj [simp]: "fregister_repr r = fregister_repr r' \<longleftrightarrow> r = r'"
  by (metis option.inject transmute_fregister_repr)

text \<open>The architectural number of a register, the five-bit field that encodes it.\<close>

definition xregister_number :: "xregister \<Rightarrow> 5 word" where
  "xregister_number r = ucast (xregister_repr r + 1)"

definition fregister_number :: "fregister \<Rightarrow> 5 word" where
  "fregister_number r = ucast (fregister_repr r)"

lemma parse_xregister_number [simp]: "parse_xregister (xregister_number r) = r"
  by (cases r)
     (simp_all add: parse_xregister_def xregister_number_def transmute_xregister_def
        all_xregisters_def)

lemma parse_xregister_defined:
  "transmute_xregister ((ucast (w :: 5 word) :: u8) - 1) = Some (parse_xregister w)"
proof (rule word5_forall [of _ w])
  fix n :: nat
  assume "n < 32"
  have "list_all (\<lambda>n. transmute_xregister ((ucast (of_nat n :: 5 word) :: u8) - 1) \<noteq> None) [0..<32]"
    by (simp add: upt_0_32 transmute_xregister_def all_xregisters_def)
  from less_32_cases [OF this \<open>n < 32\<close>]
  show "transmute_xregister ((ucast (of_nat n :: 5 word) :: u8) - 1) =
          Some (parse_xregister (of_nat n))"
    by (auto simp: parse_xregister_def)
qed

lemma transmute_xregister_eq_Some: "transmute_xregister b = Some r \<Longrightarrow> xregister_repr r = b"
  by (auto simp: transmute_xregister_def find_Some_iff)

lemma transmute_fregister_eq_Some: "transmute_fregister b = Some r \<Longrightarrow> fregister_repr r = b"
  by (auto simp: transmute_fregister_def find_Some_iff)

lemma transmute_nz_xregister_eq_Some:
  "transmute_nz_xregister b = Some r \<Longrightarrow> nz_xregister_repr r = b"
  by (auto simp: transmute_nz_xregister_def find_Some_iff)

lemma ucast_ucast_5_8 [simp]: "(ucast (ucast (w :: 5 word) :: u8) :: 5 word) = w"
  by (rule bit_word_eqI) (simp add: bit_simps)

lemma xregister_number_parse [simp]: "xregister_number (parse_xregister w) = w"
proof -
  from parse_xregister_defined have "xregister_repr (parse_xregister w) = ucast w - 1"
    by (rule transmute_xregister_eq_Some)
  then show ?thesis by (simp add: xregister_number_def)
qed

lemma parse_fregister_defined:
  "transmute_fregister (ucast (w :: 5 word)) = Some (parse_fregister w)"
proof (rule word5_forall [of _ w])
  fix n :: nat
  assume "n < 32"
  have "list_all (\<lambda>n. transmute_fregister (ucast (of_nat n :: 5 word)) \<noteq> None) [0..<32]"
    by (simp add: upt_0_32 transmute_fregister_def all_fregisters_def)
  from less_32_cases [OF this \<open>n < 32\<close>]
  show "transmute_fregister (ucast (of_nat n :: 5 word)) = Some (parse_fregister (of_nat n))"
    by (auto simp: parse_fregister_def)
qed

lemma fregister_number_parse [simp]: "fregister_number (parse_fregister w) = w"
proof -
  from parse_fregister_defined have "fregister_repr (parse_fregister w) = ucast w"
    by (rule transmute_fregister_eq_Some)
  then show ?thesis by (simp add: fregister_number_def)
qed

lemma parse_fregister_number [simp]: "parse_fregister (fregister_number r) = r"
  by (cases r)
     (simp_all add: parse_fregister_def fregister_number_def transmute_fregister_def
        all_fregisters_def)

lemma xregister_from_repr: "xregister_repr (xregister_from r) = nz_xregister_repr r"
  by (cases r) (simp_all add: xregister_from_def transmute_xregister_def all_xregisters_def)

lemma xregister_from_nonzero [simp]: "xregister_from r \<noteq> x0" "x0 \<noteq> xregister_from r"
  using xregister_from_repr [of r] by (cases r; auto)+

lemma xregister_from_inj [simp]: "xregister_from r = xregister_from r' \<longleftrightarrow> r = r'"
  by (metis nz_xregister_repr_inj xregister_from_repr)

lemma assert_from_x0 [simp]: "assert_from x0 = None"
  by (simp add: assert_from_def)

lemma assert_from_xregister_from [simp]: "assert_from (xregister_from r) = Some r"
  by (simp add: assert_from_def xregister_from_repr)

lemma assert_from_defined: "r \<noteq> x0 \<Longrightarrow> \<exists>nz. assert_from r = Some nz \<and> xregister_from nz = r"
  by (cases r) (simp_all add: assert_from_def transmute_nz_xregister_def all_nz_xregisters_def
      xregister_from_def transmute_xregister_def all_xregisters_def)

lemma split_x0_simps [simp]: "split_x0 x0 = X0" "split_x0 (xregister_from r) = NonZero r"
  by (simp_all add: split_x0_def)

lemma split_x0_eq_X0 [simp]: "split_x0 r = X0 \<longleftrightarrow> r = x0"
  using assert_from_defined [of r] by (auto simp: split_x0_def)

lemma split_x0_eq_NonZero [simp]: "split_x0 r = NonZero nz \<longleftrightarrow> r = xregister_from nz"
  using assert_from_defined [of r] by (auto simp: split_x0_def split: if_splits)

lemma xregister_cases [case_names zero nonzero]:
  obtains "r = x0" | nz where "r = xregister_from nz"
  using assert_from_defined [of r] by blast

section \<open>Register file laws\<close>

text \<open>
  What the instruction semantics relies on of a register file: reads and writes of named
  registers, where a write to the hard-wired register \<open>zero_reg\<close> (if the file has one) is
  dropped.
\<close>

locale register_file =
  fixes inv :: "'f \<Rightarrow> bool"
    and read :: "'f \<Rightarrow> 'r \<Rightarrow> 'v"
    and writer :: "'f \<Rightarrow> 'r \<Rightarrow> 'v \<Rightarrow> 'f"
    and wired :: "'r \<Rightarrow> bool"
  assumes inv_write: "inv f \<Longrightarrow> inv (writer f r v)"
    and read_write: "inv f \<Longrightarrow>
          read (writer f r v) r' = (if r = r' \<and> \<not> wired r then v else read f r')"
    and ext: "inv f \<Longrightarrow> inv g \<Longrightarrow> (\<And>r. read f r = read g r) \<Longrightarrow> f = g"
begin

lemma write_wired: "inv f \<Longrightarrow> wired r \<Longrightarrow> writer f r v = f"
  by (rule ext) (auto simp: inv_write read_write)

lemma write_write_same: "inv f \<Longrightarrow> writer (writer f r v) r w = writer f r w"
  by (rule ext) (auto simp: inv_write read_write)

lemma write_write_commute:
  "inv f \<Longrightarrow> r \<noteq> r' \<Longrightarrow> writer (writer f r v) r' w = writer (writer f r' w) r v"
  by (rule ext) (auto simp: inv_write read_write)

lemma write_read_same: "inv f \<Longrightarrow> writer f r (read f r) = f"
  by (rule ext) (auto simp: inv_write read_write)

end

lemma xregister_repr_less: "r \<noteq> x0 \<Longrightarrow> unat (xregister_repr r) < 31"
  by (cases r) simp_all

lemma nz_xregister_repr_less [simp]: "unat (nz_xregister_repr r) < 31"
  by (cases r) simp_all

lemma fregister_repr_less [simp]: "unat (fregister_repr r) < 32"
  by (cases r) simp_all

lemma nz_xregister_index: "i < 31 \<Longrightarrow> \<exists>r. i = unat (nz_xregister_repr r)"
proof -
  assume i: "i < 31"
  have eq: "[0..<31] = map (\<lambda>r. unat (nz_xregister_repr r)) all_nz_xregisters"
    by (simp add: upt_0_31 all_nz_xregisters_def)
  from i have "i \<in> set [0..<31]" by (simp del: upt_rec_numeral)
  then show ?thesis unfolding eq by auto
qed

lemma fregister_index: "i < 32 \<Longrightarrow> \<exists>r. i = unat (fregister_repr r)"
proof -
  assume i: "i < 32"
  have eq: "[0..<32] = map (\<lambda>r. unat (fregister_repr r)) all_fregisters"
    by (simp add: upt_0_32 all_fregisters_def)
  from i have "i \<in> set [0..<32]" by (simp del: upt_rec_numeral)
  then show ?thesis unfolding eq by auto
qed

lemma foldl_reset_segment:
  "foldl (\<lambda>regs i. regs[i := 0]) regs [0..<n] =
     map (\<lambda>i. if i < n then 0 else regs ! i) [0..<length regs]"
  by (induction n) (auto intro: nth_equalityI simp: nth_list_update less_Suc_eq)

lemma xregisters_reset_eq: "xregisters_inv regs \<Longrightarrow> xregisters_reset regs = xregisters_new"
  by (rule nth_equalityI)
     (simp_all add: xregisters_reset_def foldl_reset_segment xregisters_new_def xregisters_inv_def)

lemma fregisters_reset_eq: "fregisters_inv regs \<Longrightarrow> fregisters_reset regs = fregisters_new"
  by (rule nth_equalityI)
     (simp_all add: fregisters_reset_def foldl_reset_segment fregisters_new_def fregisters_inv_def)

lemma xregisters_read_x0 [simp]: "xregisters_read regs x0 = 0"
  by (simp add: xregisters_read_def is_zero_def)

lemma xregisters_write_x0 [simp]: "xregisters_write regs x0 v = regs"
  by (simp add: xregisters_write_def is_zero_def)

lemma xregisters_read_from [simp]: "xregisters_read regs (xregister_from r) = xregisters_read_nz regs r"
  by (simp add: xregisters_read_def xregisters_read_nz_def is_zero_def xregister_from_repr)

lemma xregisters_write_from [simp]:
  "xregisters_write regs (xregister_from r) v = xregisters_write_nz regs r v"
  by (simp add: xregisters_write_def xregisters_write_nz_def is_zero_def xregister_from_repr)

lemma xregisters_inv_write [simp]: "xregisters_inv (xregisters_write regs r v) = xregisters_inv regs"
  by (simp add: xregisters_write_def xregisters_inv_def)

lemma xregisters_inv_write_nz [simp]:
  "xregisters_inv (xregisters_write_nz regs r v) = xregisters_inv regs"
  by (simp add: xregisters_write_nz_def xregisters_inv_def)

lemma unat_eq_unat_iff [simp]: "unat (w :: 'a::len word) = unat v \<longleftrightarrow> w = v"
  by (auto intro: unsigned_word_eqI)

lemma xregisters_read_write:
  "xregisters_inv regs \<Longrightarrow>
     xregisters_read (xregisters_write regs r v) r' =
       (if r = r' \<and> \<not> is_zero r then v else xregisters_read regs r')"
  using xregister_repr_less [of r]
  by (auto simp: xregisters_read_def xregisters_write_def xregisters_inv_def is_zero_def nth_list_update)

lemma xregisters_eqI:
  assumes "xregisters_inv f" "xregisters_inv g"
    and "\<And>r. xregisters_read f r = xregisters_read g r"
  shows "f = g"
proof (rule nth_equalityI)
  fix i assume "i < length f"
  with assms(1) obtain r where "i = unat (nz_xregister_repr r)"
    using nz_xregister_index by (auto simp: xregisters_inv_def)
  then show "f ! i = g ! i"
    using assms(3) [of "xregister_from r"] by (simp add: xregisters_read_nz_def)
qed (use assms in \<open>simp add: xregisters_inv_def\<close>)

lemma fregisters_eqI:
  assumes "fregisters_inv f" "fregisters_inv g"
    and "\<And>r. fregisters_read f r = fregisters_read g r"
  shows "f = g"
proof (rule nth_equalityI)
  fix i assume "i < length f"
  with assms(1) obtain r where "i = unat (fregister_repr r)"
    using fregister_index by (auto simp: fregisters_inv_def)
  then show "f ! i = g ! i"
    using assms(3) [of r] by (simp add: fregisters_read_def)
qed (use assms in \<open>simp add: fregisters_inv_def\<close>)

interpretation xregs: register_file xregisters_inv xregisters_read xregisters_write is_zero
  by unfold_locales (auto simp: xregisters_read_write intro: xregisters_eqI)

interpretation fregs: register_file fregisters_inv fregisters_read fregisters_write "\<lambda>_. False"
  by unfold_locales
     (auto simp: fregisters_read_def fregisters_write_def fregisters_inv_def nth_list_update
        intro: fregisters_eqI [unfolded fregisters_inv_def fregisters_read_def])

section \<open>Properties\<close>

text \<open>
  C35: the register fields of an instruction are parsed without undefined behaviour: the
  byte handed to \<^verbatim>\<open>transmute\<close> is a discriminant for each of the 32 field values, parsing is a
  bijection between fields and registers, and \<^verbatim>\<open>assert_from\<close> panics exactly on \<^verbatim>\<open>x0\<close>, so
  \<^verbatim>\<open>split_x0\<close> never panics and loses no information.
\<close>

theorem parse_register_bijective:
  "transmute_xregister (ucast (w :: 5 word) - 1) = Some (parse_xregister w) \<and>
   transmute_fregister (ucast w) = Some (parse_fregister w) \<and>
   bij parse_xregister \<and> bij parse_fregister \<and>
   (assert_from r = None \<longleftrightarrow> r = x0) \<and>
   (assert_from r = Some nz \<longleftrightarrow> xregister_from nz = r) \<and>
   (split_x0 r = X0 \<longleftrightarrow> r = x0) \<and> (split_x0 r = NonZero nz \<longleftrightarrow> xregister_from nz = r)"
proof -
  have "bij parse_xregister"
    by (rule bij_betw_byWitness [where f' = xregister_number]) auto
  moreover have "bij parse_fregister"
    by (rule bij_betw_byWitness [where f' = fregister_number]) auto
  moreover have "assert_from r = None \<longleftrightarrow> r = x0" "assert_from r = Some nz \<longleftrightarrow> xregister_from nz = r"
    by (cases r rule: xregister_cases; auto)+
  ultimately show ?thesis
    using parse_xregister_defined parse_fregister_defined by auto
qed

text \<open>
  The integer register file behaves as 31 independent registers and a constant zero:
  a read returns the last value written to that register, \<^verbatim>\<open>x0\<close> always reads 0 and ignores
  writes, the unchecked accessors agree with the checked ones, no access is out of the 31
  cells, and reset clears every register.
\<close>

theorem xregisters_exact:
  assumes "xregisters_inv regs"
  shows "xregisters_read (xregisters_write regs r v) r' =
           (if r = r' \<and> r \<noteq> x0 then v else xregisters_read regs r') \<and>
         xregisters_read regs x0 = 0 \<and> xregisters_write regs x0 v = regs \<and>
         xregisters_read_nz regs nz = xregisters_read regs (xregister_from nz) \<and>
         xregisters_write_nz regs nz v = xregisters_write regs (xregister_from nz) v \<and>
         xregisters_inv (xregisters_write regs r v) \<and>
         unat (nz_xregister_repr nz) < length regs \<and>
         (r \<noteq> x0 \<longrightarrow> unat (xregister_repr r) < length regs) \<and>
         xregisters_read (xregisters_reset regs) r = 0"
proof -
  have "xregisters_read xregisters_new r = 0"
    using xregister_repr_less [of r]
    by (auto simp: xregisters_new_def xregisters_read_def is_zero_def)
  with assms show ?thesis
    using xregister_repr_less [of r]
    by (simp add: xregs.read_write is_zero_def xregisters_reset_eq) (simp add: xregisters_inv_def)
qed

theorem xregisters_exact_witness:
  "xregisters_read (xregisters_write xregisters_new x5 7) x5 = 7 \<and>
   xregisters_read (xregisters_write xregisters_new x5 7) x6 = 0"
proof -
  have inv: "xregisters_inv xregisters_new"
    by (simp add: xregisters_inv_def xregisters_new_def)
  show ?thesis
    using xregisters_exact [OF inv, of x5 7 x5 nz_x1] xregisters_exact [OF inv, of x5 7 x6 nz_x1]
    by (auto simp: xregisters_new_def xregisters_read_def is_zero_def)
qed

end
