(* ===== verification/CSRegisters.thy ===== *)
theory CSRegisters
  imports Prelude
begin

unbundle bit_operations_syntax

text \<open>
  Model of \<^verbatim>\<open>src/riscv/lib/src/machine_state/csregisters.rs\<close>, \<^verbatim>\<open>csregisters/root.rs\<close> and
  \<^verbatim>\<open>csregisters/values.rs\<close>: the control and status registers, of which \<^verbatim>\<open>fflags\<close> and \<^verbatim>\<open>frm\<close> are
  shadows of \<^verbatim>\<open>fcsr\<close>. The structure \<^verbatim>\<open>CSRValuesF\<close> has one cell per root register and is modelled
  as a function from root registers to values, so that \<^verbatim>\<open>select_ref\<close> is application and
  \<^verbatim>\<open>select_mut\<close> is function update. Constructors carry the prefixes \<open>csr_\<close> and \<open>root_\<close>.
\<close>

section \<open>Register names\<close>

datatype csregister =
    csr_fflags | csr_frm | csr_fcsr | csr_cycle | csr_time | csr_instret | csr_hpmcounter3 |
    csr_hpmcounter4 | csr_hpmcounter5 | csr_hpmcounter6 | csr_hpmcounter7 | csr_hpmcounter8 |
    csr_hpmcounter9 | csr_hpmcounter10 | csr_hpmcounter11 | csr_hpmcounter12 |
    csr_hpmcounter13 | csr_hpmcounter14 | csr_hpmcounter15 | csr_hpmcounter16 |
    csr_hpmcounter17 | csr_hpmcounter18 | csr_hpmcounter19 | csr_hpmcounter20 |
    csr_hpmcounter21 | csr_hpmcounter22 | csr_hpmcounter23 | csr_hpmcounter24 |
    csr_hpmcounter25 | csr_hpmcounter26 | csr_hpmcounter27 | csr_hpmcounter28 |
    csr_hpmcounter29 | csr_hpmcounter30 | csr_hpmcounter31

datatype root_csregister =
    root_fcsr | root_cycle | root_time | root_instret | root_hpmcounter3 | root_hpmcounter4 |
    root_hpmcounter5 | root_hpmcounter6 | root_hpmcounter7 | root_hpmcounter8 |
    root_hpmcounter9 | root_hpmcounter10 | root_hpmcounter11 | root_hpmcounter12 |
    root_hpmcounter13 | root_hpmcounter14 | root_hpmcounter15 | root_hpmcounter16 |
    root_hpmcounter17 | root_hpmcounter18 | root_hpmcounter19 | root_hpmcounter20 |
    root_hpmcounter21 | root_hpmcounter22 | root_hpmcounter23 | root_hpmcounter24 |
    root_hpmcounter25 | root_hpmcounter26 | root_hpmcounter27 | root_hpmcounter28 |
    root_hpmcounter29 | root_hpmcounter30 | root_hpmcounter31

primrec csregister_repr :: "csregister \<Rightarrow> nat" where
  "csregister_repr csr_fflags = 0x1" | "csregister_repr csr_frm = 0x2" |
  "csregister_repr csr_fcsr = 0x3" | "csregister_repr csr_cycle = 0xC00" |
  "csregister_repr csr_time = 0xC01" | "csregister_repr csr_instret = 0xC02" |
  "csregister_repr csr_hpmcounter3 = 0xC03" | "csregister_repr csr_hpmcounter4 = 0xC04" |
  "csregister_repr csr_hpmcounter5 = 0xC05" | "csregister_repr csr_hpmcounter6 = 0xC06" |
  "csregister_repr csr_hpmcounter7 = 0xC07" | "csregister_repr csr_hpmcounter8 = 0xC08" |
  "csregister_repr csr_hpmcounter9 = 0xC09" | "csregister_repr csr_hpmcounter10 = 0xC0A" |
  "csregister_repr csr_hpmcounter11 = 0xC0B" | "csregister_repr csr_hpmcounter12 = 0xC0C" |
  "csregister_repr csr_hpmcounter13 = 0xC0D" | "csregister_repr csr_hpmcounter14 = 0xC0E" |
  "csregister_repr csr_hpmcounter15 = 0xC0F" | "csregister_repr csr_hpmcounter16 = 0xC10" |
  "csregister_repr csr_hpmcounter17 = 0xC11" | "csregister_repr csr_hpmcounter18 = 0xC12" |
  "csregister_repr csr_hpmcounter19 = 0xC13" | "csregister_repr csr_hpmcounter20 = 0xC14" |
  "csregister_repr csr_hpmcounter21 = 0xC15" | "csregister_repr csr_hpmcounter22 = 0xC16" |
  "csregister_repr csr_hpmcounter23 = 0xC17" | "csregister_repr csr_hpmcounter24 = 0xC18" |
  "csregister_repr csr_hpmcounter25 = 0xC19" | "csregister_repr csr_hpmcounter26 = 0xC1A" |
  "csregister_repr csr_hpmcounter27 = 0xC1B" | "csregister_repr csr_hpmcounter28 = 0xC1C" |
  "csregister_repr csr_hpmcounter29 = 0xC1D" | "csregister_repr csr_hpmcounter30 = 0xC1E" |
  "csregister_repr csr_hpmcounter31 = 0xC1F"

definition all_csregisters :: "csregister list" where
  "all_csregisters =
   [csr_fflags, csr_frm, csr_fcsr, csr_cycle, csr_time, csr_instret, csr_hpmcounter3,
    csr_hpmcounter4, csr_hpmcounter5, csr_hpmcounter6, csr_hpmcounter7, csr_hpmcounter8,
    csr_hpmcounter9, csr_hpmcounter10, csr_hpmcounter11, csr_hpmcounter12, csr_hpmcounter13,
    csr_hpmcounter14, csr_hpmcounter15, csr_hpmcounter16, csr_hpmcounter17, csr_hpmcounter18,
    csr_hpmcounter19, csr_hpmcounter20, csr_hpmcounter21, csr_hpmcounter22, csr_hpmcounter23,
    csr_hpmcounter24, csr_hpmcounter25, csr_hpmcounter26, csr_hpmcounter27, csr_hpmcounter28,
    csr_hpmcounter29, csr_hpmcounter30, csr_hpmcounter31]"

definition try_parse :: "u32 \<Rightarrow> csregister option" where
  "try_parse r =
     (if r = 0x1 then Some csr_fflags else
     (if r = 0x2 then Some csr_frm else
     (if r = 0x3 then Some csr_fcsr else
     (if r = 0xC00 then Some csr_cycle else
     (if r = 0xC01 then Some csr_time else
     (if r = 0xC02 then Some csr_instret else
     (if r = 0xC03 then Some csr_hpmcounter3 else
     (if r = 0xC04 then Some csr_hpmcounter4 else
     (if r = 0xC05 then Some csr_hpmcounter5 else
     (if r = 0xC06 then Some csr_hpmcounter6 else
     (if r = 0xC07 then Some csr_hpmcounter7 else
     (if r = 0xC08 then Some csr_hpmcounter8 else
     (if r = 0xC09 then Some csr_hpmcounter9 else
     (if r = 0xC0A then Some csr_hpmcounter10 else
     (if r = 0xC0B then Some csr_hpmcounter11 else
     (if r = 0xC0C then Some csr_hpmcounter12 else
     (if r = 0xC0D then Some csr_hpmcounter13 else
     (if r = 0xC0E then Some csr_hpmcounter14 else
     (if r = 0xC0F then Some csr_hpmcounter15 else
     (if r = 0xC10 then Some csr_hpmcounter16 else
     (if r = 0xC11 then Some csr_hpmcounter17 else
     (if r = 0xC12 then Some csr_hpmcounter18 else
     (if r = 0xC13 then Some csr_hpmcounter19 else
     (if r = 0xC14 then Some csr_hpmcounter20 else
     (if r = 0xC15 then Some csr_hpmcounter21 else
     (if r = 0xC16 then Some csr_hpmcounter22 else
     (if r = 0xC17 then Some csr_hpmcounter23 else
     (if r = 0xC18 then Some csr_hpmcounter24 else
     (if r = 0xC19 then Some csr_hpmcounter25 else
     (if r = 0xC1A then Some csr_hpmcounter26 else
     (if r = 0xC1B then Some csr_hpmcounter27 else
     (if r = 0xC1C then Some csr_hpmcounter28 else
     (if r = 0xC1D then Some csr_hpmcounter29 else
     (if r = 0xC1E then Some csr_hpmcounter30 else
     (if r = 0xC1F then Some csr_hpmcounter31 else
      None)))))))))))))))))))))))))))))))))))"

primrec root_of :: "csregister \<Rightarrow> root_csregister" where
  "root_of csr_fflags = root_fcsr" | "root_of csr_frm = root_fcsr" |
  "root_of csr_fcsr = root_fcsr" | "root_of csr_cycle = root_cycle" |
  "root_of csr_time = root_time" | "root_of csr_instret = root_instret" |
  "root_of csr_hpmcounter3 = root_hpmcounter3" |
  "root_of csr_hpmcounter4 = root_hpmcounter4" |
  "root_of csr_hpmcounter5 = root_hpmcounter5" |
  "root_of csr_hpmcounter6 = root_hpmcounter6" |
  "root_of csr_hpmcounter7 = root_hpmcounter7" |
  "root_of csr_hpmcounter8 = root_hpmcounter8" |
  "root_of csr_hpmcounter9 = root_hpmcounter9" |
  "root_of csr_hpmcounter10 = root_hpmcounter10" |
  "root_of csr_hpmcounter11 = root_hpmcounter11" |
  "root_of csr_hpmcounter12 = root_hpmcounter12" |
  "root_of csr_hpmcounter13 = root_hpmcounter13" |
  "root_of csr_hpmcounter14 = root_hpmcounter14" |
  "root_of csr_hpmcounter15 = root_hpmcounter15" |
  "root_of csr_hpmcounter16 = root_hpmcounter16" |
  "root_of csr_hpmcounter17 = root_hpmcounter17" |
  "root_of csr_hpmcounter18 = root_hpmcounter18" |
  "root_of csr_hpmcounter19 = root_hpmcounter19" |
  "root_of csr_hpmcounter20 = root_hpmcounter20" |
  "root_of csr_hpmcounter21 = root_hpmcounter21" |
  "root_of csr_hpmcounter22 = root_hpmcounter22" |
  "root_of csr_hpmcounter23 = root_hpmcounter23" |
  "root_of csr_hpmcounter24 = root_hpmcounter24" |
  "root_of csr_hpmcounter25 = root_hpmcounter25" |
  "root_of csr_hpmcounter26 = root_hpmcounter26" |
  "root_of csr_hpmcounter27 = root_hpmcounter27" |
  "root_of csr_hpmcounter28 = root_hpmcounter28" |
  "root_of csr_hpmcounter29 = root_hpmcounter29" |
  "root_of csr_hpmcounter30 = root_hpmcounter30" |
  "root_of csr_hpmcounter31 = root_hpmcounter31"

datatype privilege = Unprivileged | Supervisor | Hypervisor | Machine

text \<open>\<^verbatim>\<open>privilege\<close>; \<open>None\<close> is the \<^verbatim>\<open>unreachable!\<close> arm.\<close>

definition csr_privilege :: "csregister \<Rightarrow> privilege option" where
  "csr_privilege csr =
     (let r = csregister_repr csr;
          within = (\<lambda>a b. a \<le> r \<and> r \<le> b)
      in if within 0x000 0x0FF \<or> within 0x400 0x4FF \<or> within 0x800 0x8FF \<or> within 0xC00 0xC7F \<or>
            within 0xC80 0xCBF \<or> within 0xCC0 0xCFF
         then Some Unprivileged
         else if within 0x100 0x1FF \<or> within 0x500 0x57F \<or> within 0x580 0x5BF \<or>
            within 0x5C0 0x5FF \<or> within 0x900 0x97F \<or> within 0x980 0x9BF \<or> within 0x9C0 0x9FF \<or>
            within 0xD00 0xD7F \<or> within 0xD80 0xDBF \<or> within 0xDC0 0xDFF
         then Some Supervisor
         else if within 0x200 0x2FF \<or> within 0x600 0x67F \<or> within 0x680 0x6BF \<or>
            within 0x6C0 0x6FF \<or> within 0xA00 0xA7F \<or> within 0xA80 0xABF \<or> within 0xAC0 0xAFF \<or>
            within 0xE00 0xE7F \<or> within 0xE80 0xEBF \<or> within 0xEC0 0xEFF
         then Some Hypervisor
         else if within 0x300 0x3FF \<or> within 0x700 0x77F \<or> within 0x780 0x79F \<or>
            within 0x7A0 0x7AF \<or> within 0x7B0 0x7BF \<or> within 0x7C0 0x7FF \<or> within 0xB00 0xB7F \<or>
            within 0xB80 0xBBF \<or> within 0xBC0 0xBFF \<or> within 0xF00 0xF7F \<or> within 0xF80 0xFBF \<or>
            within 0xFC0 0xFFF
         then Some Machine
         else None)"

definition is_read_only :: "csregister \<Rightarrow> bool" where
  "is_read_only csr \<longleftrightarrow> drop_bit 10 (csregister_repr csr) AND 3 = 3"

section \<open>Writable values\<close>

definition wpri_mask :: "csregister \<Rightarrow> u64" where
  "wpri_mask csr = - 1"

definition clear_wpri_fields :: "csregister \<Rightarrow> u64 \<Rightarrow> u64" where
  "clear_wpri_fields csr new_value = new_value AND wpri_mask csr"

definition is_legal :: "csregister \<Rightarrow> u64 \<Rightarrow> bool" where
  "is_legal csr new_value \<longleftrightarrow> True"

definition transform_warl_fields :: "csregister \<Rightarrow> u64 \<Rightarrow> u64 option" where
  "transform_warl_fields csr new_value = Some new_value"

definition make_value_writable :: "csregister \<Rightarrow> u64 \<Rightarrow> u64 option" where
  "make_value_writable csr v =
     (case transform_warl_fields csr (clear_wpri_fields csr v) of
        None \<Rightarrow> None
      | Some v \<Rightarrow> if is_legal csr v then Some v else None)"

definition FRM_SHIFT :: nat where "FRM_SHIFT = 5"

definition FRM_MASK :: u64 where "FRM_MASK = rust_shl 0b111 FRM_SHIFT"

definition FFLAGS_MASK :: u64 where "FFLAGS_MASK = 0b11111"

definition FCSR_MASK :: u64 where "FCSR_MASK = FRM_MASK OR FFLAGS_MASK"

definition csr_default_value :: "csregister \<Rightarrow> u64" where
  "csr_default_value csr =
     (let fflags_default = 0b00000; frm_default = 0b000
      in case csr of
           csr_fflags \<Rightarrow> fflags_default
         | csr_frm \<Rightarrow> frm_default
         | csr_fcsr \<Rightarrow> fflags_default AND rust_shl frm_default 5
         | _ \<Rightarrow> 0)"

text \<open>\<^verbatim>\<open>check_write\<close>: \<open>False\<close> is the error \<^verbatim>\<open>IllegalInstruction\<close>.\<close>

definition csr_check_write :: "csregister \<Rightarrow> bool" where
  "csr_check_write reg \<longleftrightarrow> \<not> is_read_only reg"

section \<open>Values\<close>

type_synonym csregisters = "root_csregister \<Rightarrow> u64"

definition csregisters_new :: csregisters where
  "csregisters_new = (\<lambda>_. 0)"

definition general_raw_read :: "csregisters \<Rightarrow> root_csregister \<Rightarrow> u64" where
  "general_raw_read regs csr = regs csr"

definition general_raw_write :: "csregisters \<Rightarrow> root_csregister \<Rightarrow> u64 \<Rightarrow> csregisters" where
  "general_raw_write regs csr v = regs(csr := v)"

definition general_raw_replace :: "csregisters \<Rightarrow> root_csregister \<Rightarrow> u64 \<Rightarrow> u64 \<times> csregisters" where
  "general_raw_replace regs csr v = (regs csr, regs(csr := v))"

definition transform_write :: "csregisters \<Rightarrow> csregister \<Rightarrow> u64 \<Rightarrow> u64" where
  "transform_write regs reg v =
     (case reg of
        csr_fcsr \<Rightarrow> v AND FCSR_MASK
      | csr_frm \<Rightarrow>
          (let fcsr = regs root_fcsr AND NOT FRM_MASK
           in (rust_shl v FRM_SHIFT AND FRM_MASK) OR fcsr)
      | csr_fflags \<Rightarrow>
          (let fcsr = regs root_fcsr AND NOT FFLAGS_MASK
           in (v AND FFLAGS_MASK) OR fcsr)
      | _ \<Rightarrow> v)"

definition transform_read :: "csregisters \<Rightarrow> csregister \<Rightarrow> u64 option \<Rightarrow> u64" where
  "transform_read regs reg source_reg_value =
     (let source = (case source_reg_value of
                      Some v \<Rightarrow> v
                    | None \<Rightarrow> general_raw_read regs (root_of reg))
      in case reg of
           csr_fcsr \<Rightarrow> source AND FCSR_MASK
         | csr_frm \<Rightarrow> rust_shr (source AND FRM_MASK) FRM_SHIFT
         | csr_fflags \<Rightarrow> source AND FFLAGS_MASK
         | _ \<Rightarrow> source)"

definition csr_write :: "csregisters \<Rightarrow> csregister \<Rightarrow> u64 \<Rightarrow> csregisters" where
  "csr_write regs reg v =
     (case make_value_writable reg v of
        Some v \<Rightarrow> general_raw_write regs (root_of reg) (transform_write regs reg v)
      | None \<Rightarrow> regs)"

definition csr_read :: "csregisters \<Rightarrow> csregister \<Rightarrow> u64" where
  "csr_read regs reg = transform_read regs reg None"

definition csr_replace_value :: "csregisters \<Rightarrow> csregister \<Rightarrow> u64 \<Rightarrow> u64 \<times> csregisters" where
  "csr_replace_value regs reg v =
     (case make_value_writable reg v of
        Some v \<Rightarrow>
          (let v = transform_write regs reg v;
               (old_value, regs') = general_raw_replace regs (root_of reg) v
           in (transform_read regs' reg (Some old_value), regs'))
      | None \<Rightarrow> (csr_read regs reg, regs))"

definition csr_set_bits :: "csregisters \<Rightarrow> csregister \<Rightarrow> u64 \<Rightarrow> u64 \<times> csregisters" where
  "csr_set_bits regs reg bits =
     (let old_value = csr_read regs reg
      in (old_value, csr_write regs reg (old_value OR bits)))"

definition csr_clear_bits :: "csregisters \<Rightarrow> csregister \<Rightarrow> u64 \<Rightarrow> u64 \<times> csregisters" where
  "csr_clear_bits regs reg bits =
     (let old_value = csr_read regs reg
      in (old_value, csr_write regs reg (old_value AND NOT bits)))"

definition csregisters_reset :: "csregisters \<Rightarrow> csregisters" where
  "csregisters_reset regs =
     foldl (\<lambda>regs reg. general_raw_write regs (root_of reg) (csr_default_value reg)) regs
       all_csregisters"

text \<open>The invariant of the stored values: \<^verbatim>\<open>fcsr\<close> holds only its two fields.\<close>

definition csregisters_inv :: "csregisters \<Rightarrow> bool" where
  "csregisters_inv regs \<longleftrightarrow> regs root_fcsr AND NOT FCSR_MASK = 0"

section \<open>Lemmas\<close>

lemma try_parse_repr: "try_parse (of_nat (csregister_repr r)) = Some r"
  by (cases r) (simp_all add: try_parse_def)

lemma try_parse_Some: "try_parse w = Some r \<Longrightarrow> w = of_nat (csregister_repr r)"
  by (auto simp: try_parse_def split: if_splits)

lemma make_value_writable_eq [simp]: "make_value_writable r v = Some v"
  by (simp add: make_value_writable_def transform_warl_fields_def clear_wpri_fields_def
      wpri_mask_def is_legal_def)

lemma FRM_MASK_eq: "FRM_MASK = push_bit 5 (mask 3)"
  by (simp add: FRM_MASK_def FRM_SHIFT_def mask_numeral)

lemma FFLAGS_MASK_eq: "FFLAGS_MASK = mask 5"
  by (simp add: FFLAGS_MASK_def mask_numeral)

lemma bit_FRM_MASK [simp]: "bit FRM_MASK n \<longleftrightarrow> 5 \<le> n \<and> n < 8"
  by (auto simp: FRM_MASK_eq bit_simps)

lemma bit_FFLAGS_MASK [simp]: "bit FFLAGS_MASK n \<longleftrightarrow> n < 5"
  by (auto simp: FFLAGS_MASK_eq bit_simps)

lemma bit_FCSR_MASK [simp]: "bit FCSR_MASK n \<longleftrightarrow> n < 8"
  by (auto simp: FCSR_MASK_def bit_simps)

lemma bit_csr_read_shadow:
  "bit (csr_read regs csr_fcsr) n \<longleftrightarrow> n < 8 \<and> bit (regs root_fcsr) n"
  "bit (csr_read regs csr_frm) n \<longleftrightarrow> n < 3 \<and> bit (regs root_fcsr) (5 + n)"
  "bit (csr_read regs csr_fflags) n \<longleftrightarrow> n < 5 \<and> bit (regs root_fcsr) n"
  by (auto simp: csr_read_def transform_read_def general_raw_read_def FRM_SHIFT_def bit_simps)

lemma bit_csr_write_shadow:
  "bit (csr_write regs csr_fcsr v root_fcsr) n \<longleftrightarrow> n < 8 \<and> bit v n"
  "bit (csr_write regs csr_frm v root_fcsr) n \<longleftrightarrow>
     (if 5 \<le> n \<and> n < 8 then bit v (n - 5) else bit (regs root_fcsr) n)"
  "bit (csr_write regs csr_fflags v root_fcsr) n \<longleftrightarrow> (if n < 5 then bit v n else bit (regs root_fcsr) n)"
  by (auto simp: csr_write_def transform_write_def general_raw_write_def FRM_SHIFT_def bit_simps
      dest: bit_imp_le_length)

lemma csr_read_plain: "root_of r \<noteq> root_fcsr \<Longrightarrow> csr_read regs r = regs (root_of r)"
  by (cases r) (simp_all add: csr_read_def transform_read_def general_raw_read_def)

lemma csr_write_plain: "root_of r \<noteq> root_fcsr \<Longrightarrow> csr_write regs r v = regs(root_of r := v)"
  by (cases r) (simp_all add: csr_write_def transform_write_def general_raw_write_def)

lemma csr_write_other_root: "q \<noteq> root_of r \<Longrightarrow> csr_write regs r v q = regs q"
  by (simp add: csr_write_def general_raw_write_def)

lemma root_of_eq_fcsr: "root_of r = root_fcsr \<longleftrightarrow> r \<in> {csr_fflags, csr_frm, csr_fcsr}"
  by (cases r) simp_all

lemma root_of_eq_iff: "root_of r \<noteq> root_fcsr \<Longrightarrow> root_of r = root_of q \<longleftrightarrow> r = q"
  by (cases r; simp; cases q; simp)

lemma csr_replace_value_eq: "csr_replace_value regs r v = (csr_read regs r, csr_write regs r v)"
  by (cases r) (simp_all add: csr_replace_value_def csr_read_def csr_write_def transform_read_def
      general_raw_replace_def general_raw_read_def general_raw_write_def Let_def)

text \<open>The bits of a value that a register keeps.\<close>

definition csr_width :: "csregister \<Rightarrow> nat" where
  "csr_width r = (case r of csr_fflags \<Rightarrow> 5 | csr_frm \<Rightarrow> 3 | csr_fcsr \<Rightarrow> 8 | _ \<Rightarrow> 64)"

lemma csr_width_plain: "root_of r \<noteq> root_fcsr \<Longrightarrow> csr_width r = 64"
  by (cases r) (simp_all add: csr_width_def)

lemma csr_read_write_same: "csr_read (csr_write regs r v) r = v AND mask (csr_width r)"
proof (cases "root_of r = root_fcsr")
  case True
  then show ?thesis
    by (intro bit_word_eqI)
       (auto simp: root_of_eq_fcsr bit_csr_read_shadow bit_csr_write_shadow bit_simps csr_width_def)
next
  case False
  have "v = v AND mask 64" by (rule bit_word_eqI) (simp add: bit_simps)
  with False show ?thesis by (simp add: csr_read_plain csr_write_plain csr_width_plain)
qed

lemma csr_inv_bit: "csregisters_inv regs \<longleftrightarrow> (\<forall>n \<ge> 8. \<not> bit (regs root_fcsr) n)"
proof
  show "\<forall>n \<ge> 8. \<not> bit (regs root_fcsr) n" if "csregisters_inv regs"
  proof (intro allI impI notI)
    fix n :: nat
    assume "8 \<le> n" "bit (regs root_fcsr) n"
    then have "bit (regs root_fcsr AND NOT FCSR_MASK) n"
      using bit_imp_le_length [of "regs root_fcsr" n] by (simp add: bit_simps)
    with that show False by (simp add: csregisters_inv_def)
  qed
  show "csregisters_inv regs" if "\<forall>n \<ge> 8. \<not> bit (regs root_fcsr) n"
    using that by (auto simp: csregisters_inv_def bit_eq_iff bit_simps not_less)
qed

lemma csregisters_inv_write:
  assumes "csregisters_inv regs"
  shows "csregisters_inv (csr_write regs r v)"
proof (cases "root_of r = root_fcsr")
  case True
  with assms show ?thesis
    by (auto simp: csr_inv_bit root_of_eq_fcsr bit_csr_write_shadow)
next
  case False
  with assms show ?thesis by (simp add: csregisters_inv_def csr_write_other_root)
qed

section \<open>Properties\<close>

text \<open>
  The control and status registers behave as one register file with \<^verbatim>\<open>fcsr\<close> split into
  its fields. A read returns the last value written, cut to the width of the register;
  \<^verbatim>\<open>fcsr\<close> always reads as \<^verbatim>\<open>frm\<close> above \<^verbatim>\<open>fflags\<close>, and a write to one of the two leaves the
  other; registers with different roots do not interfere; replace, set and clear return the
  old value and store the new one.
\<close>

theorem csr_shadow_exact:
  assumes "csregisters_inv regs"
  shows "csregisters_inv (csr_write regs r v) \<and>
         csr_read (csr_write regs r v) r = v AND mask (csr_width r) \<and>
         (root_of q \<noteq> root_of r \<longrightarrow> csr_read (csr_write regs r v) q = csr_read regs q) \<and>
         csr_read (csr_write regs csr_frm v) csr_fflags = csr_read regs csr_fflags \<and>
         csr_read (csr_write regs csr_fflags v) csr_frm = csr_read regs csr_frm \<and>
         csr_read regs csr_fcsr =
           push_bit 5 (csr_read regs csr_frm) OR csr_read regs csr_fflags \<and>
         regs root_fcsr = csr_read regs csr_fcsr \<and>
         csr_replace_value regs r v = (csr_read regs r, csr_write regs r v)"
proof -
  have "csregisters_inv (csr_write regs r v)"
    using assms by (rule csregisters_inv_write)
  moreover have "csr_read (csr_write regs r v) q = csr_read regs q" if "root_of q \<noteq> root_of r"
    using that
    by (cases q) (simp_all add: csr_read_def transform_read_def general_raw_read_def csr_write_other_root)
  moreover have "csr_read (csr_write regs csr_frm v) csr_fflags = csr_read regs csr_fflags"
    "csr_read (csr_write regs csr_fflags v) csr_frm = csr_read regs csr_frm"
    by (intro bit_word_eqI; auto simp: bit_csr_read_shadow bit_csr_write_shadow)+
  moreover have "csr_read regs csr_fcsr =
      push_bit 5 (csr_read regs csr_frm) OR csr_read regs csr_fflags"
    by (intro bit_word_eqI) (auto simp: bit_csr_read_shadow bit_simps)
  moreover have "regs root_fcsr = csr_read regs csr_fcsr"
    using assms by (intro bit_word_eqI) (auto simp: bit_csr_read_shadow csr_inv_bit intro: leI)
  ultimately show ?thesis
    by (simp add: csr_read_write_same csr_replace_value_eq)
qed

theorem csr_shadow_exact_witness:
  "csr_read (csr_write csregisters_new csr_frm 10) csr_frm = 2 \<and>
   csr_read (csr_write csregisters_new csr_frm 10) csr_cycle = 0"
proof -
  have inv: "csregisters_inv csregisters_new"
    by (simp add: csregisters_inv_def csregisters_new_def)
  show ?thesis
    using csr_shadow_exact [OF inv, of csr_frm 10 csr_cycle]
    by (simp add: csr_width_def mask_numeral csr_read_def transform_read_def general_raw_read_def
        csregisters_new_def)
qed

text \<open>
  Identifiers of control and status registers are decoded exactly: \<^verbatim>\<open>try_parse\<close> accepts
  a number if and only if it is the number of a register, every known register is accessible
  without privilege, and \<^verbatim>\<open>check_write\<close> refuses exactly the counters.
\<close>

theorem csr_try_parse_exact:
  "(try_parse w = Some r \<longleftrightarrow> w = of_nat (csregister_repr r)) \<and>
   csr_privilege r = Some Unprivileged \<and>
   (csr_check_write r \<longleftrightarrow> r \<in> {csr_fflags, csr_frm, csr_fcsr})"
proof -
  have "csr_privilege r = Some Unprivileged"
    by (cases r) (simp_all add: csr_privilege_def)
  moreover have "csr_check_write r \<longleftrightarrow> r \<in> {csr_fflags, csr_frm, csr_fcsr}"
    by (cases r) (simp_all add: csr_check_write_def is_read_only_def drop_bit_eq_div)
  ultimately show ?thesis
    using try_parse_repr try_parse_Some by auto
qed

end
