(* ===== verification/Instr.thy ===== *)
theory Instr
  imports Registers CSRegisters
begin

text \<open>
  Model of \<^verbatim>\<open>src/riscv/lib/src/parser/instruction.rs\<close>: parsed instructions. The variants of
  \<^verbatim>\<open>InstrCacheable\<close> are grouped by their argument structure: the constructor of
  \<open>instr_cacheable\<close> is named after the structure and carries its fields in the order of the
  structure, and an enumeration lists the variants that carry it. Immediates (\<^verbatim>\<open>i64\<close>) are 64-bit
  words.
\<close>

section \<open>Rounding modes\<close>

datatype rounding_mode = RNE | RTZ | RDN | RUP | RMM

definition from_csrrepr :: "u64 \<Rightarrow> rounding_mode option" where
  "from_csrrepr v =
     (if v = 0b000 then Some RNE
      else if v = 0b001 then Some RTZ
      else if v = 0b010 then Some RDN
      else if v = 0b011 then Some RUP
      else if v = 0b100 then Some RMM
      else None)"

datatype instr_rounding_mode = Dynamic | Static rounding_mode

definition from_rm :: "u32 \<Rightarrow> instr_rounding_mode option" where
  "from_rm rm =
     (if rm = 0b111 then Some Dynamic
      else case from_csrrepr (ucast rm) of Some rm \<Rightarrow> Some (Static rm) | None \<Rightarrow> None)"

section \<open>Variants by argument structure\<close>

datatype nz_rd_r_op =
    Add | Sub | Xor | Or | And | Sll | Srl | Sra | Slt | Sltu
  | Addw | Subw | Sllw | Srlw | Sraw

datatype nz_rd_i_op =
    Addiw | Xori | Ori | Andi | Slli | Srli | Srai | Slliw | Srliw | Sraiw | Slti | Sltiu

datatype i_op = Lb | Lh | Lw | Lbu | Lhu | Lwu | Ld | Jalr

datatype sb_op = Sb | Sh | Sw | Sd | Beq | Bne | Blt | Bge | Bltu | Bgeu

datatype nz_rd_uj_op = Lui | Auipc

datatype amo_op =
    Lrw | Scw | Amoswapw | Amoaddw | Amoxorw | Amoandw | Amoorw | Amominw | Amomaxw
  | Amominuw | Amomaxuw
  | Lrd | Scd | Amoswapd | Amoaddd | Amoxord | Amoandd | Amoord | Amomind | Amomaxd
  | Amominud | Amomaxud

datatype r_op =
    Rem | Remu | Remw | Remuw | Div | Divu | Divw | Divuw | Mul | Mulh | Mulhsu | Mulhu | Mulw

datatype f_to_x_op = FclassS | FmvXW | FclassD | FmvXD

datatype x_to_f_op = FmvWX | FmvDX

datatype f_cmp_op = Feqs | Fles | Flts | Feqd | Fled | Fltd

datatype f_r2_rm_op = Fadds | Fsubs | Fmuls | Fdivs | Faddd | Fsubd | Fmuld | Fdivd

datatype f_r1_rm_op = Fsqrts | Fsqrtd | Fcvtds | Fcvtsd

datatype f_r_op =
    Fmins | Fmaxs | Fsgnjs | Fsgnjns | Fsgnjxs | Fmind | Fmaxd | Fsgnjd | Fsgnjnd | Fsgnjxd

datatype f_r3_rm_op =
    Fmadds | Fmsubs | Fnmsubs | Fnmadds | Fmaddd | Fmsubd | Fnmsubd | Fnmaddd

datatype f_load_op = Flw | Fld | CFld

datatype f_store_op = Fsw | Fsd | CFsd

datatype x_to_f_rm_op =
    Fcvtsw | Fcvtswu | Fcvtsl | Fcvtslu | Fcvtdw | Fcvtdwu | Fcvtdl | Fcvtdlu

datatype f_to_x_rm_op =
    Fcvtws | Fcvtwus | Fcvtls | Fcvtlus | Fcvtwd | Fcvtwud | Fcvtld | Fcvtlud

datatype csr_op = Csrrw | Csrrs | Csrrc

datatype csri_op = Csrrwi | Csrrsi | Csrrci

datatype nz_i_op = CLw | CLd

datatype nz_sb_op = CSw | CSd

datatype cib_nz_op = CLwsp | CLi | CLui | CAddi | CSlli | CLdsp | CAddiw

datatype css_op = CSwsp | CSdsp

datatype cj_op = CJ | CAddi16sp

datatype crj_op = CJr | CJalr

datatype cib_op = CBeqz | CBnez | CAddi4spn | CSrli | CSrai | CAndi

datatype cnzr_op = CMv | CAdd

datatype cr_op = CAnd | COr | CXor | CSub | CAddw | CSubw

section \<open>Instructions\<close>

datatype (plugins only: code size) instr_cacheable =
    NonZeroRdRTypeArgs nz_rd_r_op nz_xregister xregister xregister
  | RTypeArgs r_op xregister xregister xregister
  | SplitITypeArgs xregister_parsed xregister_parsed u64 \<comment> \<open>\<^verbatim>\<open>Addi\<close>\<close>
  | NonZeroRdITypeArgs nz_rd_i_op nz_xregister xregister u64
  | ITypeArgs i_op xregister xregister u64
  | SBTypeArgs sb_op xregister xregister u64
  | NonZeroRdUJTypeArgs nz_rd_uj_op nz_xregister u64
  | UJTypeArgs xregister u64 \<comment> \<open>\<^verbatim>\<open>Jal\<close>\<close>
  | AmoArgs amo_op xregister xregister xregister bool bool
  | FRegToXRegArgs f_to_x_op xregister fregister
  | XRegToFRegArgs x_to_f_op fregister xregister
  | XRegToFRegArgsWithRounding x_to_f_rm_op fregister xregister instr_rounding_mode
  | FRegToXRegArgsWithRounding f_to_x_rm_op xregister fregister instr_rounding_mode
  | FCmpArgs f_cmp_op fregister fregister xregister
  | FRArgs f_r_op fregister fregister fregister
  | FR1ArgWithRounding f_r1_rm_op fregister instr_rounding_mode fregister
  | FR2ArgsWithRounding f_r2_rm_op fregister fregister instr_rounding_mode fregister
  | FR3ArgsWithRounding f_r3_rm_op fregister fregister fregister instr_rounding_mode fregister
  | FStoreArgs f_store_op xregister fregister u64
  | FLoadArgs f_load_op xregister fregister u64
  | CsrArgs csr_op xregister xregister csregister
  | CsriArgs csri_op xregister u64 csregister
  | NonZeroITypeArgs nz_i_op nz_xregister nz_xregister u64
  | NonZeroSBTypeArgs nz_sb_op nz_xregister nz_xregister u64
  | CRTypeArgs cr_op xregister xregister
  | CNZRTypeArgs cnzr_op nz_xregister nz_xregister
  | CRJTypeArgs crj_op nz_xregister
  | CJTypeArgs cj_op u64
  | CIBTypeArgs cib_op xregister u64
  | CIBNZTypeArgs cib_nz_op nz_xregister u64
  | CIBDTypeArgs fregister u64 \<comment> \<open>\<^verbatim>\<open>CFldsp\<close>\<close>
  | CSSTypeArgs css_op xregister u64
  | CSSDTypeArgs fregister u64 \<comment> \<open>\<^verbatim>\<open>CFsdsp\<close>\<close>
  | CNop
  | Unknown u32
  | UnknownCompressed u16
  | Hint u32
  | HintCompressed u16
  | Wfi
  | Ecall

record fence_set =
  fence_i :: bool
  fence_o :: bool
  fence_r :: bool
  fence_w :: bool

datatype instr_uncacheable =
    Fence fence_set fence_set
  | FenceTso fence_set fence_set
  | Ebreak
  | CEbreak
  | FenceI

datatype instr = Cacheable instr_cacheable | Uncacheable instr_uncacheable

section \<open>Width\<close>

datatype instr_width = Compressed | Uncompressed

fun width_bytes :: "instr_width \<Rightarrow> u64" where
  "width_bytes Compressed = 2"
| "width_bytes Uncompressed = 4"

definition instr_cacheable_width :: "instr_cacheable \<Rightarrow> instr_width" where
  "instr_cacheable_width i =
     (case i of
        NonZeroITypeArgs _ _ _ _ \<Rightarrow> Compressed
      | NonZeroSBTypeArgs _ _ _ _ \<Rightarrow> Compressed
      | CRTypeArgs _ _ _ \<Rightarrow> Compressed
      | CNZRTypeArgs _ _ _ \<Rightarrow> Compressed
      | CRJTypeArgs _ _ \<Rightarrow> Compressed
      | CJTypeArgs _ _ \<Rightarrow> Compressed
      | CIBTypeArgs _ _ _ \<Rightarrow> Compressed
      | CIBNZTypeArgs _ _ _ \<Rightarrow> Compressed
      | CIBDTypeArgs _ _ \<Rightarrow> Compressed
      | CSSTypeArgs _ _ _ \<Rightarrow> Compressed
      | CSSDTypeArgs _ _ \<Rightarrow> Compressed
      | CNop \<Rightarrow> Compressed
      | UnknownCompressed _ \<Rightarrow> Compressed
      | HintCompressed _ \<Rightarrow> Compressed
      | FLoadArgs op _ _ _ \<Rightarrow> (if op = CFld then Compressed else Uncompressed)
      | FStoreArgs op _ _ _ \<Rightarrow> (if op = CFsd then Compressed else Uncompressed)
      | _ \<Rightarrow> Uncompressed)"

fun instr_uncacheable_width :: "instr_uncacheable \<Rightarrow> instr_width" where
  "instr_uncacheable_width CEbreak = Compressed"
| "instr_uncacheable_width _ = Uncompressed"

fun instr_width_of :: "instr \<Rightarrow> instr_width" where
  "instr_width_of (Cacheable c) = instr_cacheable_width c"
| "instr_width_of (Uncacheable u) = instr_uncacheable_width u"

end
