(* ===== verification/Machine_Core.thy ===== *)
theory Machine_Core
  imports Memory_Correct Registers CSRegisters Instr "HOL-Library.Signed_Division"
begin

unbundle bit_operations_syntax

text \<open>
  Model of the hart and of the interpreted instance of the instruction context:
  \<^verbatim>\<open>machine_state/hart_state.rs\<close>, \<^verbatim>\<open>machine_state/reservation_set.rs\<close>, \<^verbatim>\<open>traps.rs\<close>,
  \<^verbatim>\<open>instruction_context.rs\<close> (the implementation of \<^verbatim>\<open>ICB\<close> for \<^verbatim>\<open>MachineCoreState\<close>),
  \<^verbatim>\<open>instruction_context/arithmetic.rs\<close>, \<^verbatim>\<open>instruction_context/comparable.rs\<close> and
  \<^verbatim>\<open>interpreter/common_memory.rs\<close>. A fallible operation returns an outcome together with the
  state it leaves, since an operation may change the state before it raises an exception;
  \<open>Stuck\<close> stands for a panic or undefined behaviour of the operations it calls. Integer
  division, which panics on a zero divisor and on overflow, is partial (\<open>None\<close>).
\<close>

section \<open>Exceptions\<close>

datatype exception =
    InstructionAccessFault address
  | IllegalInstruction
  | Breakpoint
  | LoadAccessFault address
  | StoreAMOAccessFault address
  | EnvCall
  | InstructionPageFault address
  | LoadPageFault address
  | StoreAMOPageFault address

datatype 'a outcome = Ok 'a | Err exception | Stuck

section \<open>Hart state\<close>

record hart_state =
  xregisters :: xregisters
  fregisters :: fregisters
  csregisters :: csregisters
  pc :: address
  reservation_set :: u64

definition RES_SET_BITMASK :: u64 where
  "RES_SET_BITMASK = NOT 0b111"

definition UNSET_VALUE :: u64 where
  "UNSET_VALUE = - 1"

definition reservation_set_new :: u64 where
  "reservation_set_new = 0"

definition reservation_set_reset :: "u64 \<Rightarrow> u64" where
  "reservation_set_reset s = UNSET_VALUE"

definition reservation_set_set :: "u64 \<Rightarrow> u64 \<Rightarrow> u64" where
  "reservation_set_set s addr = addr AND RES_SET_BITMASK"

definition test_and_unset :: "u64 \<Rightarrow> u64 \<Rightarrow> bool \<times> u64" where
  "test_and_unset s addr =
     (let start_addr = s; s = reservation_set_reset s
      in (start_addr \<noteq> UNSET_VALUE \<and> start_addr = addr AND RES_SET_BITMASK, s))"

definition hart_new :: hart_state where
  "hart_new =
     \<lparr>xregisters = xregisters_new, fregisters = fregisters_new, csregisters = csregisters_new,
      pc = 0, reservation_set = reservation_set_new\<rparr>"

definition hart_reset :: "hart_state \<Rightarrow> address \<Rightarrow> hart_state" where
  "hart_reset h start =
     h\<lparr>xregisters := xregisters_reset (xregisters h), fregisters := fregisters_reset (fregisters h),
       csregisters := csregisters_reset (csregisters h), pc := start,
       reservation_set := reservation_set_reset (reservation_set h)\<rparr>"

record machine_core =
  hart :: hart_state
  main_memory :: memory

text \<open>\<^verbatim>\<open>ProgramCounterUpdate\<close> of \<^verbatim>\<open>machine_state.rs\<close>.\<close>

datatype pc_update = Next instr_width | Set address

section \<open>Integer values\<close>

datatype predicate =
    Equal | NotEqual | LessThanSigned | LessThanUnsigned | LessThanOrEqualSigned
  | GreaterThanSigned | GreaterThanOrEqualSigned | GreaterThanOrEqualUnsigned

datatype shift = Left | RightUnsigned | RightSigned

datatype mul_high_type = Signed | Unsigned | SignedUnsigned

fun compare :: "'a::len word \<Rightarrow> 'a word \<Rightarrow> predicate \<Rightarrow> bool" where
  "compare lhs rhs Equal \<longleftrightarrow> lhs = rhs"
| "compare lhs rhs NotEqual \<longleftrightarrow> lhs \<noteq> rhs"
| "compare lhs rhs LessThanSigned \<longleftrightarrow> sint lhs < sint rhs"
| "compare lhs rhs LessThanUnsigned \<longleftrightarrow> lhs < rhs"
| "compare lhs rhs LessThanOrEqualSigned \<longleftrightarrow> sint lhs \<le> sint rhs"
| "compare lhs rhs GreaterThanSigned \<longleftrightarrow> sint lhs > sint rhs"
| "compare lhs rhs GreaterThanOrEqualSigned \<longleftrightarrow> sint lhs \<ge> sint rhs"
| "compare lhs rhs GreaterThanOrEqualUnsigned \<longleftrightarrow> lhs \<ge> rhs"

definition div_unsigned :: "'a::len word \<Rightarrow> 'a word \<Rightarrow> 'a word option" where
  "div_unsigned lhs rhs = (if rhs = 0 then None else Some (lhs div rhs))"

text \<open>\<^verbatim>\<open>i64::MIN\<close> and \<^verbatim>\<open>i32::MIN\<close>.\<close>

definition signed_min :: "'a::len word" where
  "signed_min = push_bit (LENGTH('a) - 1) 1"

definition div_signed :: "'a::len word \<Rightarrow> 'a word \<Rightarrow> 'a word option" where
  "div_signed lhs rhs =
     (if rhs = 0 \<or> lhs = signed_min \<and> rhs = - 1 then None
      else Some (word_of_int (sint lhs sdiv sint rhs)))"

definition modulus_unsigned :: "'a::len word \<Rightarrow> 'a word \<Rightarrow> 'a word option" where
  "modulus_unsigned lhs rhs = (if rhs = 0 then None else Some (lhs mod rhs))"

text \<open>\<^verbatim>\<open>wrapping_rem\<close> gives 0 on the overflowing pair and panics on 0 only.\<close>

definition modulus_signed :: "'a::len word \<Rightarrow> 'a word \<Rightarrow> 'a word option" where
  "modulus_signed lhs rhs =
     (if rhs = 0 then None else Some (word_of_int (sint lhs smod sint rhs)))"

definition negate :: "'a::len word \<Rightarrow> 'a word" where
  "negate w = 0 - w"

definition min_signed :: "'a::len word \<Rightarrow> 'a word \<Rightarrow> 'a word" where
  "min_signed lhs rhs = (if sint rhs < sint lhs then rhs else lhs)"

definition max_signed :: "'a::len word \<Rightarrow> 'a word \<Rightarrow> 'a word" where
  "max_signed lhs rhs = (if sint rhs < sint lhs then lhs else rhs)"

fun shift_by :: "'a::len word \<Rightarrow> shift \<Rightarrow> 'a word \<Rightarrow> 'a word" where
  "shift_by lhs Left amount = rust_shl lhs (unat amount)"
| "shift_by lhs RightUnsigned amount = rust_shr lhs (unat amount)"
| "shift_by lhs RightSigned amount = signed_drop_bit (unat amount mod LENGTH('a)) lhs"
  for lhs :: "'a::len word"

section \<open>The instruction context of the interpreter\<close>

definition xregister_read_nz :: "machine_core \<Rightarrow> nz_xregister \<Rightarrow> xvalue" where
  "xregister_read_nz core reg = xregisters_read_nz (xregisters (hart core)) reg"

definition xregister_read :: "machine_core \<Rightarrow> xregister \<Rightarrow> xvalue" where
  "xregister_read core reg = xregisters_read (xregisters (hart core)) reg"

definition xregister_write_nz :: "machine_core \<Rightarrow> nz_xregister \<Rightarrow> xvalue \<Rightarrow> machine_core" where
  "xregister_write_nz core reg v =
     core\<lparr>hart := (hart core)\<lparr>xregisters := xregisters_write_nz (xregisters (hart core)) reg v\<rparr>\<rparr>"

definition xregister_write :: "machine_core \<Rightarrow> xregister \<Rightarrow> xvalue \<Rightarrow> machine_core" where
  "xregister_write core reg v =
     core\<lparr>hart := (hart core)\<lparr>xregisters := xregisters_write (xregisters (hart core)) reg v\<rparr>\<rparr>"

definition pc_read :: "machine_core \<Rightarrow> xvalue" where
  "pc_read core = pc (hart core)"

definition narrow :: "u64 \<Rightarrow> u32" where
  "narrow v = ucast v"

definition extend_signed :: "u32 \<Rightarrow> u64" where
  "extend_signed v = scast v"

definition mul_high :: "xvalue \<Rightarrow> xvalue \<Rightarrow> mul_high_type \<Rightarrow> xvalue" where
  "mul_high lhs rhs ty =
     (let (lhs, rhs) = (case ty of
            Signed \<Rightarrow> (scast lhs, scast rhs)
          | Unsigned \<Rightarrow> (ucast lhs, ucast rhs)
          | SignedUnsigned \<Rightarrow> (scast lhs, ucast rhs));
          result = (lhs :: 128 word) * rhs
      in ucast (drop_bit 64 result))"

definition xvalue_from_bool :: "bool \<Rightarrow> xvalue" where
  "xvalue_from_bool b = (if b then 1 else 0)"

definition branch :: "machine_core \<Rightarrow> bool \<Rightarrow> u64 \<Rightarrow> instr_width \<Rightarrow> pc_update" where
  "branch core predicate offset instr_width =
     (if predicate then Set (pc_read core + offset) else Next instr_width)"

definition reservation_set_write :: "machine_core \<Rightarrow> address \<Rightarrow> machine_core" where
  "reservation_set_write core addr = core\<lparr>hart := (hart core)\<lparr>reservation_set := addr\<rparr>\<rparr>"

definition reservation_set_read :: "machine_core \<Rightarrow> xvalue" where
  "reservation_set_read core = reservation_set (hart core)"

text \<open>Composition of fallible operations; \<^verbatim>\<open>map\<close> is composition with a pure function.\<close>

definition and_then :: "'a outcome \<times> machine_core \<Rightarrow>
    ('a \<Rightarrow> machine_core \<Rightarrow> 'b outcome \<times> machine_core) \<Rightarrow> 'b outcome \<times> machine_core" where
  "and_then res f =
     (case res of
        (Ok v, core) \<Rightarrow> f v core
      | (Err e, core) \<Rightarrow> (Err e, core)
      | (Stuck, core) \<Rightarrow> (Stuck, core))"

definition icb_map :: "'a outcome \<times> machine_core \<Rightarrow> ('a \<Rightarrow> 'b) \<Rightarrow> 'b outcome \<times> machine_core" where
  "icb_map res f = and_then res (\<lambda>v core. (Ok (f v), core))"

text \<open>
  \<^verbatim>\<open>StoreLoadInt\<close>: the type of the access is the word type, \<^verbatim>\<open>from_xvalue\<close> truncates and
  \<^verbatim>\<open>to_xvalue\<close>, an argument of the load, extends by sign or by zero.
\<close>

definition main_memory_store :: "'v::len itself \<Rightarrow> machine_core \<Rightarrow> address \<Rightarrow> xvalue \<Rightarrow>
    unit outcome \<times> machine_core" where
  "main_memory_store ty core addr v =
     (case mem_write (main_memory core) addr (ucast v :: 'v word) of
        Inr m \<Rightarrow> (Ok (), core\<lparr>main_memory := m\<rparr>)
      | Inl BadMemoryAccess \<Rightarrow> (Err (StoreAMOAccessFault addr), core)
      | Inl _ \<Rightarrow> (Stuck, core))"

definition main_memory_load :: "('v::len word \<Rightarrow> xvalue) \<Rightarrow> machine_core \<Rightarrow> address \<Rightarrow>
    xvalue outcome \<times> machine_core" where
  "main_memory_load to_xvalue core addr =
     (case mem_read (main_memory core) addr of
        Inr v \<Rightarrow> (Ok (to_xvalue v), core)
      | Inl BadMemoryAccess \<Rightarrow> (Err (LoadAccessFault addr), core)
      | Inl _ \<Rightarrow> (Stuck, core))"

datatype reservation_set_option = NoReset | Reset

definition reset_reservation_set :: "machine_core \<Rightarrow> machine_core" where
  "reset_reservation_set core = reservation_set_write core UNSET_VALUE"

definition atomic_access_fault_guard :: "'v::len itself \<Rightarrow> machine_core \<Rightarrow> address \<Rightarrow>
    reservation_set_option \<Rightarrow> unit outcome \<times> machine_core" where
  "atomic_access_fault_guard ty core address reservation_set_option =
     (let width = (of_nat (LENGTH('v) div 8) :: xvalue)
      in case modulus_unsigned address width of
           None \<Rightarrow> (Stuck, core)
         | Some remainder \<Rightarrow>
             if compare remainder 0 NotEqual
             then (Err (StoreAMOAccessFault address),
                   case reservation_set_option of
                     Reset \<Rightarrow> reset_reservation_set core
                   | NoReset \<Rightarrow> core)
             else (Ok (), core))"

section \<open>Accesses of the other interpreter functions\<close>

definition read_from_address :: "machine_core \<Rightarrow> address \<Rightarrow> 'v::len word outcome" where
  "read_from_address core address =
     (case mem_read (main_memory core) address of
        Inr v \<Rightarrow> Ok v
      | Inl BadMemoryAccess \<Rightarrow> Err (LoadAccessFault address)
      | Inl _ \<Rightarrow> Stuck)"

definition read_from_bus :: "machine_core \<Rightarrow> u64 \<Rightarrow> xregister \<Rightarrow> 'v::len word outcome" where
  "read_from_bus core imm rs1 =
     (let address = xregister_read core rs1 + imm in read_from_address core address)"

definition write_to_address :: "machine_core \<Rightarrow> address \<Rightarrow> 'v::len word \<Rightarrow> unit outcome \<times> machine_core" where
  "write_to_address core address v =
     (case mem_write (main_memory core) address v of
        Inr m \<Rightarrow> (Ok (), core\<lparr>main_memory := m\<rparr>)
      | Inl BadMemoryAccess \<Rightarrow> (Err (StoreAMOAccessFault address), core)
      | Inl _ \<Rightarrow> (Stuck, core))"

definition write_to_bus :: "machine_core \<Rightarrow> u64 \<Rightarrow> xregister \<Rightarrow> 'v::len word \<Rightarrow> unit outcome \<times> machine_core" where
  "write_to_bus core imm rs1 v =
     (let address = xregister_read core rs1 + imm in write_to_address core address v)"

section \<open>Invariant\<close>

definition core_inv :: "machine_core \<Rightarrow> bool" where
  "core_inv core \<longleftrightarrow>
     xregisters_inv (xregisters (hart core)) \<and> fregisters_inv (fregisters (hart core)) \<and>
     csregisters_inv (csregisters (hart core)) \<and> memory_inv (main_memory core)"

end
