(* ===== verification/Parser.thy ===== *)
theory Parser
  imports Instr Bits
begin

unbundle bit_operations_syntax

text \<open>
  Model of \<^verbatim>\<open>src/riscv/lib/src/parser.rs\<close>: the decoder of 32-bit and 16-bit instructions. Each
  match arm on an opcode is a definition of its own, and the two decoders select the arm as the
  source does. Signed casts reinterpret a word, \<^verbatim>\<open>>>\<close> on a signed integer is
  \<open>signed_drop_bit\<close> and a widening signed cast is \<open>scast\<close>. The integer types \<^verbatim>\<open>u5\<close> and \<^verbatim>\<open>u3\<close> are
  words of that width, and their \<^verbatim>\<open>extract\<close> operations take the field that starts at a bit.
\<close>

section \<open>Fields of 32-bit instructions\<close>

definition instr_bits :: "u32 \<Rightarrow> nat \<Rightarrow> nat \<Rightarrow> u32" where
  "instr_bits bytes pos n = rust_shr bytes pos AND rust_shr (NOT 0) (32 - n)"

definition instr_bit :: "u32 \<Rightarrow> nat \<Rightarrow> bool" where
  "instr_bit bytes pos \<longleftrightarrow> bytes AND rust_shl 1 pos \<noteq> 0"

definition extract_u5 :: "'a::len word \<Rightarrow> nat \<Rightarrow> 5 word" where
  "extract_u5 w pos = ucast (drop_bit pos w)"

definition extract_u3 :: "'a::len word \<Rightarrow> nat \<Rightarrow> 3 word" where
  "extract_u3 w pos = ucast (drop_bit pos w)"

definition instr_opcode :: "u32 \<Rightarrow> u32" where "instr_opcode instr = instr_bits instr 0 7"
definition funct3 :: "u32 \<Rightarrow> u32" where "funct3 instr = instr_bits instr 12 3"
definition funct5 :: "u32 \<Rightarrow> u32" where "funct5 instr = instr_bits instr 27 5"
definition funct7 :: "u32 \<Rightarrow> u32" where "funct7 instr = instr_bits instr 25 7"

definition instr_rd :: "u32 \<Rightarrow> xregister" where
  "instr_rd instr = parse_xregister (extract_u5 instr 7)"

definition instr_rd_f :: "u32 \<Rightarrow> fregister" where
  "instr_rd_f instr = parse_fregister (extract_u5 instr 7)"

definition rs1_bits :: "u32 \<Rightarrow> u32" where "rs1_bits instr = instr_bits instr 15 5"

definition rs1_bits_u5 :: "u32 \<Rightarrow> 5 word" where "rs1_bits_u5 instr = extract_u5 instr 15"

definition instr_rs1 :: "u32 \<Rightarrow> xregister" where
  "instr_rs1 instr = parse_xregister (rs1_bits_u5 instr)"

definition instr_rs1_f :: "u32 \<Rightarrow> fregister" where
  "instr_rs1_f instr = parse_fregister (rs1_bits_u5 instr)"

definition rs2_bits :: "u32 \<Rightarrow> u32" where "rs2_bits instr = instr_bits instr 20 5"

definition rs2_bits_u5 :: "u32 \<Rightarrow> 5 word" where "rs2_bits_u5 instr = extract_u5 instr 20"

definition instr_rs2 :: "u32 \<Rightarrow> xregister" where
  "instr_rs2 instr = parse_xregister (rs2_bits_u5 instr)"

definition instr_rs2_f :: "u32 \<Rightarrow> fregister" where
  "instr_rs2_f instr = parse_fregister (rs2_bits_u5 instr)"

definition instr_rs3_f :: "u32 \<Rightarrow> fregister" where
  "instr_rs3_f instr = parse_fregister (extract_u5 instr 27)"

definition imm_11_6 :: "u32 \<Rightarrow> u32" where "imm_11_6 instr = rust_shl (instr_bits instr 26 6) 1"

definition instr_fm :: "u32 \<Rightarrow> u32" where "instr_fm instr = instr_bits instr 28 4"
definition instr_fmt :: "u32 \<Rightarrow> u32" where "instr_fmt instr = instr_bits instr 25 2"
definition fp_width :: "u32 \<Rightarrow> u32" where "fp_width instr = instr_bits instr 12 3"

definition instr_csr :: "u32 \<Rightarrow> csregister option" where
  "instr_csr instr = try_parse (instr_bits instr 20 12)"

section \<open>Immediates of 32-bit instructions\<close>

definition i_imm :: "u32 \<Rightarrow> u64" where
  "i_imm instr = scast (signed_drop_bit 20 (instr AND 0b11111111111100000000000000000000))"

definition SHIFT_BITMASK :: u64 where "SHIFT_BITMASK = 0b111111"

definition shift_imm :: "u32 \<Rightarrow> u64" where
  "shift_imm instr = i_imm instr AND SHIFT_BITMASK"

definition s_imm :: "u32 \<Rightarrow> u64" where
  "s_imm instr =
     (let instr_31_25 = instr AND 0b11111110000000000000000000000000;
          instr_11_7  = instr AND 0b00000000000000000000111110000000
      in scast (signed_drop_bit 20 instr_31_25 OR signed_drop_bit 7 instr_11_7))"

definition b_imm :: "u32 \<Rightarrow> u64" where
  "b_imm instr =
     (let instr_31    = instr AND 0b10000000000000000000000000000000;
          instr_7     = instr AND 0b00000000000000000000000010000000;
          instr_30_25 = instr AND 0b01111110000000000000000000000000;
          instr_11_8  = instr AND 0b00000000000000000000111100000000
      in scast (signed_drop_bit 19 instr_31 OR rust_shl instr_7 4 OR
                signed_drop_bit 20 instr_30_25 OR signed_drop_bit 7 instr_11_8))"

definition u_imm :: "u32 \<Rightarrow> u64" where
  "u_imm instr = scast (instr AND 0b11111111111111111111000000000000)"

definition j_imm :: "u32 \<Rightarrow> u64" where
  "j_imm instr =
     (let instr_31    = instr AND 0b10000000000000000000000000000000;
          instr_19_12 = instr AND 0b00000000000011111111000000000000;
          instr_20    = instr AND 0b00000000000100000000000000000000;
          instr_30_21 = instr AND 0b01111111111000000000000000000000
      in scast (signed_drop_bit 11 instr_31 OR instr_19_12 OR
                signed_drop_bit 9 instr_20 OR signed_drop_bit 20 instr_30_21))"

section \<open>Instruction formats\<close>

definition r_instr :: "r_op \<Rightarrow> u32 \<Rightarrow> instr_cacheable" where
  "r_instr op instr = RTypeArgs op (instr_rd instr) (instr_rs1 instr) (instr_rs2 instr)"

definition r_instr_nz :: "nz_rd_r_op \<Rightarrow> u32 \<Rightarrow> nz_xregister \<Rightarrow> instr_cacheable" where
  "r_instr_nz op instr rd = NonZeroRdRTypeArgs op rd (instr_rs1 instr) (instr_rs2 instr)"

definition i_instr :: "i_op \<Rightarrow> u32 \<Rightarrow> instr_cacheable" where
  "i_instr op instr = ITypeArgs op (instr_rd instr) (instr_rs1 instr) (i_imm instr)"

definition i_instr_nz :: "nz_rd_i_op \<Rightarrow> u32 \<Rightarrow> nz_xregister \<Rightarrow> instr_cacheable" where
  "i_instr_nz op instr rd = NonZeroRdITypeArgs op rd (instr_rs1 instr) (i_imm instr)"

definition s_instr :: "sb_op \<Rightarrow> u32 \<Rightarrow> instr_cacheable" where
  "s_instr op instr = SBTypeArgs op (instr_rs1 instr) (instr_rs2 instr) (s_imm instr)"

definition b_instr :: "sb_op \<Rightarrow> u32 \<Rightarrow> instr_cacheable" where
  "b_instr op instr = SBTypeArgs op (instr_rs1 instr) (instr_rs2 instr) (b_imm instr)"

definition u_instr :: "nz_rd_uj_op \<Rightarrow> u32 \<Rightarrow> nz_xregister \<Rightarrow> instr_cacheable" where
  "u_instr op instr rd = NonZeroRdUJTypeArgs op rd (u_imm instr)"

definition j_instr :: "u32 \<Rightarrow> instr_cacheable" where
  "j_instr instr = UJTypeArgs (instr_rd instr) (j_imm instr)"

definition fl_instr :: "f_load_op \<Rightarrow> u32 \<Rightarrow> instr_cacheable" where
  "fl_instr op instr = FLoadArgs op (instr_rs1 instr) (instr_rd_f instr) (i_imm instr)"

definition fs_instr :: "f_store_op \<Rightarrow> u32 \<Rightarrow> instr_cacheable" where
  "fs_instr op instr = FStoreArgs op (instr_rs1 instr) (instr_rs2_f instr) (s_imm instr)"

definition f_cmp_instr :: "f_cmp_op \<Rightarrow> u32 \<Rightarrow> 5 word \<Rightarrow> instr_cacheable" where
  "f_cmp_instr op instr rs2 =
     FCmpArgs op (instr_rs1_f instr) (parse_fregister rs2) (instr_rd instr)"

definition f_r_instr :: "f_r_op \<Rightarrow> u32 \<Rightarrow> 5 word \<Rightarrow> instr_cacheable" where
  "f_r_instr op instr rs2 =
     FRArgs op (instr_rs1_f instr) (parse_fregister rs2) (instr_rd_f instr)"

definition f_r_rm_1_instr :: "f_r1_rm_op \<Rightarrow> u32 \<Rightarrow> u32 \<Rightarrow> instr_cacheable" where
  "f_r_rm_1_instr op instr rm =
     (case from_rm rm of
        Some rounding \<Rightarrow> FR1ArgWithRounding op (instr_rs1_f instr) rounding (instr_rd_f instr)
      | None \<Rightarrow> Unknown instr)"

definition f_r_fmt_int_instr :: "x_to_f_rm_op \<Rightarrow> u32 \<Rightarrow> u32 \<Rightarrow> instr_cacheable" where
  "f_r_fmt_int_instr op instr rm =
     (case from_rm rm of
        Some rounding \<Rightarrow>
          XRegToFRegArgsWithRounding op (instr_rd_f instr) (instr_rs1 instr) rounding
      | None \<Rightarrow> Unknown instr)"

definition f_r_int_fmt_instr :: "f_to_x_rm_op \<Rightarrow> u32 \<Rightarrow> u32 \<Rightarrow> instr_cacheable" where
  "f_r_int_fmt_instr op instr rm =
     (case from_rm rm of
        Some rounding \<Rightarrow>
          FRegToXRegArgsWithRounding op (instr_rd instr) (instr_rs1_f instr) rounding
      | None \<Rightarrow> Unknown instr)"

definition f_r_rm_2_instr :: "f_r2_rm_op \<Rightarrow> u32 \<Rightarrow> 5 word \<Rightarrow> u32 \<Rightarrow> instr_cacheable" where
  "f_r_rm_2_instr op instr rs2 rm =
     (case from_rm rm of
        Some rounding \<Rightarrow>
          FR2ArgsWithRounding op (instr_rs1_f instr) (parse_fregister rs2) rounding
            (instr_rd_f instr)
      | None \<Rightarrow> Unknown instr)"

definition f_r_rm_3_instr :: "f_r3_rm_op \<Rightarrow> u32 \<Rightarrow> instr_cacheable" where
  "f_r_rm_3_instr op instr =
     (case from_rm (funct3 instr) of
        Some rounding \<Rightarrow>
          FR3ArgsWithRounding op (instr_rs1_f instr) (instr_rs2_f instr) (instr_rs3_f instr)
            rounding (instr_rd_f instr)
      | None \<Rightarrow> Unknown instr)"

definition fence_pred :: "u32 \<Rightarrow> fence_set" where
  "fence_pred instr =
     \<lparr>fence_i = instr_bit instr 27, fence_o = instr_bit instr 26,
      fence_r = instr_bit instr 25, fence_w = instr_bit instr 24\<rparr>"

definition fence_succ :: "u32 \<Rightarrow> fence_set" where
  "fence_succ instr =
     \<lparr>fence_i = instr_bit instr 23, fence_o = instr_bit instr 22,
      fence_r = instr_bit instr 21, fence_w = instr_bit instr 20\<rparr>"

definition amo_instr :: "amo_op \<Rightarrow> u32 \<Rightarrow> instr_cacheable" where
  "amo_instr op instr =
     AmoArgs op (instr_rd instr) (instr_rs1 instr) (instr_rs2 instr)
       (instr_bit instr 26) (instr_bit instr 25)"

definition csr_instr :: "csr_op \<Rightarrow> u32 \<Rightarrow> instr_cacheable" where
  "csr_instr op instr =
     (case instr_csr instr of
        Some csr \<Rightarrow> CsrArgs op (instr_rd instr) (instr_rs1 instr) csr
      | None \<Rightarrow> Unknown instr)"

definition csri_instr :: "csri_op \<Rightarrow> u32 \<Rightarrow> instr_cacheable" where
  "csri_instr op instr =
     (case instr_csr instr of
        Some csr \<Rightarrow> CsriArgs op (instr_rd instr) (ucast (instr_bits instr 15 5)) csr
      | None \<Rightarrow> Unknown instr)"

section \<open>Decoder of 32-bit instructions\<close>

abbreviation OP_ARITH :: u32 where "OP_ARITH \<equiv> 0b0110011"
abbreviation OP_ARITH_W :: u32 where "OP_ARITH_W \<equiv> 0b0111011"
abbreviation OP_ARITH_I :: u32 where "OP_ARITH_I \<equiv> 0b0010011"
abbreviation OP_LOAD :: u32 where "OP_LOAD \<equiv> 0b0000011"
abbreviation OP_ARITH_IW :: u32 where "OP_ARITH_IW \<equiv> 0b0011011"
abbreviation OP_SYNCH :: u32 where "OP_SYNCH \<equiv> 0b0001111"
abbreviation OP_SYS :: u32 where "OP_SYS \<equiv> 0b1110011"
abbreviation OP_STORE :: u32 where "OP_STORE \<equiv> 0b0100011"
abbreviation OP_BRANCH :: u32 where "OP_BRANCH \<equiv> 0b1100011"
abbreviation OP_LUI :: u32 where "OP_LUI \<equiv> 0b0110111"
abbreviation OP_AUIPC :: u32 where "OP_AUIPC \<equiv> 0b0010111"
abbreviation OP_JAL :: u32 where "OP_JAL \<equiv> 0b1101111"
abbreviation OP_JALR :: u32 where "OP_JALR \<equiv> 0b1100111"
abbreviation OP_FP :: u32 where "OP_FP \<equiv> 0b1010011"
abbreviation OP_FP_LOAD :: u32 where "OP_FP_LOAD \<equiv> 0b0000111"
abbreviation OP_FMADD :: u32 where "OP_FMADD \<equiv> 0b1000011"
abbreviation OP_FMSUB :: u32 where "OP_FMSUB \<equiv> 0b1000111"
abbreviation OP_FNMSUB :: u32 where "OP_FNMSUB \<equiv> 0b1001011"
abbreviation OP_FNMADD :: u32 where "OP_FNMADD \<equiv> 0b1001111"
abbreviation OP_FP_STORE :: u32 where "OP_FP_STORE \<equiv> 0b0100111"
abbreviation OP_AMO :: u32 where "OP_AMO \<equiv> 0b0101111"

abbreviation F7_0 :: u32 where "F7_0 \<equiv> 0b0"
abbreviation F7_1 :: u32 where "F7_1 \<equiv> 0b1"
abbreviation F7_8 :: u32 where "F7_8 \<equiv> 0b0001000"
abbreviation F7_20 :: u32 where "F7_20 \<equiv> 0b100000"

text \<open>The rows of the arithmetic tables: \<open>r_row\<close> for an operation of funct7 0 whose code
  points with \<^verbatim>\<open>rd = x0\<close> are hints and a multiplication operation of funct7 1, and \<open>r_row2\<close>
  for rows that have a second operation of funct7 \<open>0b100000\<close>.\<close>

definition r_row :: "nz_rd_r_op \<Rightarrow> r_op \<Rightarrow> u32 \<Rightarrow> instr_cacheable" where
  "r_row op mop instr =
     (if funct7 instr = F7_0 then
        (case split_x0 (instr_rd instr) of
           X0 \<Rightarrow> Hint instr
         | NonZero rd \<Rightarrow> r_instr_nz op instr rd)
      else if funct7 instr = F7_1 then r_instr mop instr
      else Unknown instr)"

definition r_row2 :: "nz_rd_r_op \<Rightarrow> r_op \<Rightarrow> nz_rd_r_op \<Rightarrow> u32 \<Rightarrow> instr_cacheable" where
  "r_row2 op mop op20 instr =
     (if funct7 instr = F7_20 then
        (case split_x0 (instr_rd instr) of
           X0 \<Rightarrow> Hint instr
         | NonZero rd \<Rightarrow> r_instr_nz op20 instr rd)
      else r_row op mop instr)"

definition parse_arith :: "u32 \<Rightarrow> instr_cacheable" where
  "parse_arith instr =
     (if funct3 instr = 0 then r_row2 Add Mul Sub instr
      else if funct3 instr = 4 then r_row Xor Div instr
      else if funct3 instr = 6 then r_row Or Rem instr
      else if funct3 instr = 7 then r_row And Remu instr
      else if funct3 instr = 1 then r_row Sll Mulh instr
      else if funct3 instr = 5 then r_row2 Srl Divu Sra instr
      else if funct3 instr = 2 then r_row Slt Mulhsu instr
      else if funct3 instr = 3 then r_row Sltu Mulhu instr
      else Unknown instr)"

definition parse_arith_w :: "u32 \<Rightarrow> instr_cacheable" where
  "parse_arith_w instr =
     (if funct3 instr = 0 then r_row2 Addw Mulw Subw instr
      else if funct3 instr = 1 then
        (case split_x0 (instr_rd instr) of
           X0 \<Rightarrow> Hint instr
         | NonZero rd \<Rightarrow> r_instr_nz Sllw instr rd)
      else if funct3 instr = 4 then
        (if funct7 instr = F7_1 then r_instr Divw instr else Unknown instr)
      else if funct3 instr = 5 then
        (case split_x0 (instr_rd instr) of
           X0 \<Rightarrow>
             if funct7 instr = F7_0 then Hint instr
             else if funct7 instr = F7_20 then Hint instr
             else Unknown instr
         | NonZero rd \<Rightarrow>
             if funct7 instr = F7_0 then r_instr_nz Srlw instr rd
             else if funct7 instr = F7_1 then r_instr Divuw instr
             else if funct7 instr = F7_20 then r_instr_nz Sraw instr rd
             else Unknown instr)
      else if funct3 instr = 6 then
        (if funct7 instr = F7_1 then r_instr Remw instr else Unknown instr)
      else if funct3 instr = 7 then
        (if funct7 instr = F7_1 then r_instr Remuw instr else Unknown instr)
      else Unknown instr)"

definition parse_arith_i :: "u32 \<Rightarrow> instr_cacheable" where
  "parse_arith_i instr =
     (let nz = (\<lambda>op. case split_x0 (instr_rd instr) of
                       X0 \<Rightarrow> Hint instr
                     | NonZero rd \<Rightarrow> i_instr_nz op instr rd)
      in if funct3 instr = 0 then
           (case split_x0 (instr_rd instr) of
              X0 \<Rightarrow>
                (case split_x0 (instr_rs1 instr) of
                   X0 \<Rightarrow> Hint instr
                 | rs1 \<Rightarrow> if i_imm instr = 0 then Hint instr
                         else SplitITypeArgs X0 rs1 (i_imm instr))
            | rd \<Rightarrow> SplitITypeArgs rd (split_x0 (instr_rs1 instr)) (i_imm instr))
         else if funct3 instr = 4 then nz Xori
         else if funct3 instr = 6 then nz Ori
         else if funct3 instr = 7 then nz Andi
         else if funct3 instr = 1 then
           (if imm_11_6 instr = F7_0 then nz Slli else Unknown instr)
         else if funct3 instr = 5 then
           (if imm_11_6 instr = F7_0 then nz Srli
            else if imm_11_6 instr = F7_20 then
              (case split_x0 (instr_rd instr) of
                 X0 \<Rightarrow> Hint instr
               | NonZero rd \<Rightarrow>
                   NonZeroRdITypeArgs Srai rd (instr_rs1 instr) (shift_imm instr))
            else Unknown instr)
         else if funct3 instr = 2 then nz Slti
         else if funct3 instr = 3 then nz Sltiu
         else Unknown instr)"

definition parse_load :: "u32 \<Rightarrow> instr_cacheable" where
  "parse_load instr =
     (if funct3 instr = 0 then i_instr Lb instr
      else if funct3 instr = 1 then i_instr Lh instr
      else if funct3 instr = 2 then i_instr Lw instr
      else if funct3 instr = 3 then i_instr Ld instr
      else if funct3 instr = 4 then i_instr Lbu instr
      else if funct3 instr = 5 then i_instr Lhu instr
      else if funct3 instr = 6 then i_instr Lwu instr
      else Unknown instr)"

definition parse_arith_iw :: "u32 \<Rightarrow> instr_cacheable" where
  "parse_arith_iw instr =
     (let nz = (\<lambda>op. case split_x0 (instr_rd instr) of
                       X0 \<Rightarrow> Hint instr
                     | NonZero rd \<Rightarrow> i_instr_nz op instr rd)
      in if funct3 instr = 0 then nz Addiw
         else if funct3 instr = 1 then
           (if imm_11_6 instr = F7_0 then nz Slliw else Unknown instr)
         else if funct3 instr = 5 then
           (if imm_11_6 instr = F7_0 then nz Srliw
            else if imm_11_6 instr = F7_20 then nz Sraiw
            else Unknown instr)
         else Unknown instr)"

definition parse_synch :: "u32 \<Rightarrow> instr" where
  "parse_synch instr =
     (if funct3 instr = 0 then
        (if instr_fm instr = 0b0 then
           (if instr_bits instr 20 4 = 0 then Cacheable (Hint instr)
            else if instr_bits instr 24 4 = 0 then Cacheable (Hint instr)
            else Uncacheable (Fence (fence_pred instr) (fence_succ instr)))
         else if instr_fm instr = 0b1000 then
           Uncacheable (FenceTso (fence_pred instr) (fence_succ instr))
         else Cacheable (Unknown instr))
      else if funct3 instr = 1 then Uncacheable FenceI
      else Cacheable (Unknown instr))"

definition parse_sys :: "u32 \<Rightarrow> instr" where
  "parse_sys instr =
     (if funct3 instr = 0 then
        (if funct7 instr = F7_0 then
           (if rs1_bits instr = 0 \<and> rs2_bits instr = 0 then Cacheable Ecall
            else if rs1_bits instr = 0 \<and> rs2_bits instr = 1 then Uncacheable Ebreak
            else Cacheable (Unknown instr))
         else if funct7 instr = F7_8 then
           (if rs1_bits instr = 0 \<and> rs2_bits instr = 0b101 then Cacheable Wfi
            else Cacheable (Unknown instr))
         else Cacheable (Unknown instr))
      else if funct3 instr = 1 then Cacheable (csr_instr Csrrw instr)
      else if funct3 instr = 2 then Cacheable (csr_instr Csrrs instr)
      else if funct3 instr = 3 then Cacheable (csr_instr Csrrc instr)
      else if funct3 instr = 5 then Cacheable (csri_instr Csrrwi instr)
      else if funct3 instr = 6 then Cacheable (csri_instr Csrrsi instr)
      else if funct3 instr = 7 then Cacheable (csri_instr Csrrci instr)
      else Cacheable (Unknown instr))"

definition parse_amo :: "u32 \<Rightarrow> instr_cacheable" where
  "parse_amo instr =
     (if funct3 instr = 2 then
        (if funct5 instr = 2 then
           (if rs2_bits instr = 0 then amo_instr Lrw instr else Unknown instr)
         else if funct5 instr = 3 then amo_instr Scw instr
         else if funct5 instr = 1 then amo_instr Amoswapw instr
         else if funct5 instr = 0 then amo_instr Amoaddw instr
         else if funct5 instr = 4 then amo_instr Amoxorw instr
         else if funct5 instr = 12 then amo_instr Amoandw instr
         else if funct5 instr = 8 then amo_instr Amoorw instr
         else if funct5 instr = 16 then amo_instr Amominw instr
         else if funct5 instr = 20 then amo_instr Amomaxw instr
         else if funct5 instr = 24 then amo_instr Amominuw instr
         else if funct5 instr = 28 then amo_instr Amomaxuw instr
         else Unknown instr)
      else if funct3 instr = 3 then
        (if funct5 instr = 2 then
           (if rs2_bits instr = 0 then amo_instr Lrd instr else Unknown instr)
         else if funct5 instr = 3 then amo_instr Scd instr
         else if funct5 instr = 1 then amo_instr Amoswapd instr
         else if funct5 instr = 0 then amo_instr Amoaddd instr
         else if funct5 instr = 4 then amo_instr Amoxord instr
         else if funct5 instr = 12 then amo_instr Amoandd instr
         else if funct5 instr = 8 then amo_instr Amoord instr
         else if funct5 instr = 16 then amo_instr Amomind instr
         else if funct5 instr = 20 then amo_instr Amomaxd instr
         else if funct5 instr = 24 then amo_instr Amominud instr
         else if funct5 instr = 28 then amo_instr Amomaxud instr
         else Unknown instr)
      else Unknown instr)"

definition parse_store :: "u32 \<Rightarrow> instr_cacheable" where
  "parse_store instr =
     (if funct3 instr = 0 then s_instr Sb instr
      else if funct3 instr = 1 then s_instr Sh instr
      else if funct3 instr = 2 then s_instr Sw instr
      else if funct3 instr = 3 then s_instr Sd instr
      else Unknown instr)"

definition parse_branch :: "u32 \<Rightarrow> instr_cacheable" where
  "parse_branch instr =
     (if funct3 instr = 0 then b_instr Beq instr
      else if funct3 instr = 1 then b_instr Bne instr
      else if funct3 instr = 4 then b_instr Blt instr
      else if funct3 instr = 5 then b_instr Bge instr
      else if funct3 instr = 6 then b_instr Bltu instr
      else if funct3 instr = 7 then b_instr Bgeu instr
      else Unknown instr)"

definition parse_upper :: "nz_rd_uj_op \<Rightarrow> u32 \<Rightarrow> instr_cacheable" where
  "parse_upper op instr =
     (case split_x0 (instr_rd instr) of
        X0 \<Rightarrow> Hint instr
      | NonZero rd \<Rightarrow> u_instr op instr rd)"

definition parse_fp_s :: "u32 \<Rightarrow> instr_cacheable" where
  "parse_fp_s instr =
     (let fn5 = funct5 instr; rm = funct3 instr; rs2 = rs2_bits_u5 instr
      in if fn5 = 0 then f_r_rm_2_instr Fadds instr rs2 rm
         else if fn5 = 1 then f_r_rm_2_instr Fsubs instr rs2 rm
         else if fn5 = 2 then f_r_rm_2_instr Fmuls instr rs2 rm
         else if fn5 = 3 then f_r_rm_2_instr Fdivs instr rs2 rm
         else if fn5 = 4 \<and> rm = 0 then f_r_instr Fsgnjs instr rs2
         else if fn5 = 4 \<and> rm = 1 then f_r_instr Fsgnjns instr rs2
         else if fn5 = 4 \<and> rm = 2 then f_r_instr Fsgnjxs instr rs2
         else if fn5 = 5 \<and> rm = 0 then f_r_instr Fmins instr rs2
         else if fn5 = 5 \<and> rm = 1 then f_r_instr Fmaxs instr rs2
         else if fn5 = 8 \<and> rs2 = 1 then f_r_rm_1_instr Fcvtsd instr rm
         else if fn5 = 11 \<and> rs2 = 0 then f_r_rm_1_instr Fsqrts instr rm
         else if fn5 = 20 \<and> rm = 2 then f_cmp_instr Feqs instr rs2
         else if fn5 = 20 \<and> rm = 0 then f_cmp_instr Fles instr rs2
         else if fn5 = 20 \<and> rm = 1 then f_cmp_instr Flts instr rs2
         else if fn5 = 24 \<and> rs2 = 0 then f_r_int_fmt_instr Fcvtws instr rm
         else if fn5 = 24 \<and> rs2 = 1 then f_r_int_fmt_instr Fcvtwus instr rm
         else if fn5 = 24 \<and> rs2 = 2 then f_r_int_fmt_instr Fcvtls instr rm
         else if fn5 = 24 \<and> rs2 = 3 then f_r_int_fmt_instr Fcvtlus instr rm
         else if fn5 = 26 \<and> rs2 = 0 then f_r_fmt_int_instr Fcvtsw instr rm
         else if fn5 = 26 \<and> rs2 = 1 then f_r_fmt_int_instr Fcvtswu instr rm
         else if fn5 = 26 \<and> rs2 = 2 then f_r_fmt_int_instr Fcvtsl instr rm
         else if fn5 = 26 \<and> rs2 = 3 then f_r_fmt_int_instr Fcvtslu instr rm
         else if fn5 = 28 \<and> rm = 0 \<and> rs2 = 0 then
           FRegToXRegArgs FmvXW (instr_rd instr) (instr_rs1_f instr)
         else if fn5 = 28 \<and> rm = 1 \<and> rs2 = 0 then
           FRegToXRegArgs FclassS (instr_rd instr) (instr_rs1_f instr)
         else if fn5 = 30 \<and> rm = 0 \<and> rs2 = 0 then
           XRegToFRegArgs FmvWX (instr_rd_f instr) (instr_rs1 instr)
         else Unknown instr)"

definition parse_fp_d :: "u32 \<Rightarrow> instr_cacheable" where
  "parse_fp_d instr =
     (let fn5 = funct5 instr; rm = funct3 instr; rs2 = rs2_bits_u5 instr
      in if fn5 = 0 then f_r_rm_2_instr Faddd instr rs2 rm
         else if fn5 = 1 then f_r_rm_2_instr Fsubd instr rs2 rm
         else if fn5 = 2 then f_r_rm_2_instr Fmuld instr rs2 rm
         else if fn5 = 3 then f_r_rm_2_instr Fdivd instr rs2 rm
         else if fn5 = 4 \<and> rm = 0 then f_r_instr Fsgnjd instr rs2
         else if fn5 = 4 \<and> rm = 1 then f_r_instr Fsgnjnd instr rs2
         else if fn5 = 4 \<and> rm = 2 then f_r_instr Fsgnjxd instr rs2
         else if fn5 = 5 \<and> rm = 0 then f_r_instr Fmind instr rs2
         else if fn5 = 5 \<and> rm = 1 then f_r_instr Fmaxd instr rs2
         else if fn5 = 8 \<and> rs2 = 0 then f_r_rm_1_instr Fcvtds instr rm
         else if fn5 = 11 \<and> rs2 = 0 then f_r_rm_1_instr Fsqrtd instr rm
         else if fn5 = 20 \<and> rm = 2 then f_cmp_instr Feqd instr rs2
         else if fn5 = 20 \<and> rm = 0 then f_cmp_instr Fled instr rs2
         else if fn5 = 20 \<and> rm = 1 then f_cmp_instr Fltd instr rs2
         else if fn5 = 24 \<and> rs2 = 0 then f_r_int_fmt_instr Fcvtwd instr rm
         else if fn5 = 24 \<and> rs2 = 1 then f_r_int_fmt_instr Fcvtwud instr rm
         else if fn5 = 24 \<and> rs2 = 2 then f_r_int_fmt_instr Fcvtld instr rm
         else if fn5 = 24 \<and> rs2 = 3 then f_r_int_fmt_instr Fcvtlud instr rm
         else if fn5 = 26 \<and> rs2 = 0 then f_r_fmt_int_instr Fcvtdw instr rm
         else if fn5 = 26 \<and> rs2 = 1 then f_r_fmt_int_instr Fcvtdwu instr rm
         else if fn5 = 26 \<and> rs2 = 2 then f_r_fmt_int_instr Fcvtdl instr rm
         else if fn5 = 26 \<and> rs2 = 3 then f_r_fmt_int_instr Fcvtdlu instr rm
         else if fn5 = 28 \<and> rm = 0 \<and> rs2 = 0 then
           FRegToXRegArgs FmvXD (instr_rd instr) (instr_rs1_f instr)
         else if fn5 = 28 \<and> rm = 1 \<and> rs2 = 0 then
           FRegToXRegArgs FclassD (instr_rd instr) (instr_rs1_f instr)
         else if fn5 = 30 \<and> rm = 0 \<and> rs2 = 0 then
           XRegToFRegArgs FmvDX (instr_rd_f instr) (instr_rs1 instr)
         else Unknown instr)"

definition parse_fp :: "u32 \<Rightarrow> instr_cacheable" where
  "parse_fp instr =
     (if instr_fmt instr = 0b0 then parse_fp_s instr
      else if instr_fmt instr = 0b01 then parse_fp_d instr
      else Unknown instr)"

definition parse_fused :: "f_r3_rm_op \<Rightarrow> f_r3_rm_op \<Rightarrow> u32 \<Rightarrow> instr_cacheable" where
  "parse_fused op_s op_d instr =
     (if instr_fmt instr = 0b0 then f_r_rm_3_instr op_s instr
      else if instr_fmt instr = 0b01 then f_r_rm_3_instr op_d instr
      else Unknown instr)"

definition parse_fp_load :: "u32 \<Rightarrow> instr_cacheable" where
  "parse_fp_load instr =
     (if fp_width instr = 0b010 then fl_instr Flw instr
      else if fp_width instr = 0b011 then fl_instr Fld instr
      else Unknown instr)"

definition parse_fp_store :: "u32 \<Rightarrow> instr_cacheable" where
  "parse_fp_store instr =
     (if fp_width instr = 0b010 then fs_instr Fsw instr
      else if fp_width instr = 0b011 then fs_instr Fsd instr
      else Unknown instr)"

definition parse_jalr :: "u32 \<Rightarrow> instr_cacheable" where
  "parse_jalr instr = (if funct3 instr = 0 then i_instr Jalr instr else Unknown instr)"

definition parse_uncompressed_instruction :: "u32 \<Rightarrow> instr" where
  "parse_uncompressed_instruction instr =
     (let op = instr_opcode instr
      in if op = OP_ARITH then Cacheable (parse_arith instr)
         else if op = OP_ARITH_W then Cacheable (parse_arith_w instr)
         else if op = OP_ARITH_I then Cacheable (parse_arith_i instr)
         else if op = OP_LOAD then Cacheable (parse_load instr)
         else if op = OP_ARITH_IW then Cacheable (parse_arith_iw instr)
         else if op = OP_SYNCH then parse_synch instr
         else if op = OP_SYS then parse_sys instr
         else if op = OP_AMO then Cacheable (parse_amo instr)
         else if op = OP_STORE then Cacheable (parse_store instr)
         else if op = OP_BRANCH then Cacheable (parse_branch instr)
         else if op = OP_LUI then Cacheable (parse_upper Lui instr)
         else if op = OP_AUIPC then Cacheable (parse_upper Auipc instr)
         else if op = OP_FP then Cacheable (parse_fp instr)
         else if op = OP_FMADD then Cacheable (parse_fused Fmadds Fmaddd instr)
         else if op = OP_FMSUB then Cacheable (parse_fused Fmsubs Fmsubd instr)
         else if op = OP_FNMSUB then Cacheable (parse_fused Fnmsubs Fnmsubd instr)
         else if op = OP_FNMADD then Cacheable (parse_fused Fnmadds Fnmaddd instr)
         else if op = OP_FP_LOAD then Cacheable (parse_fp_load instr)
         else if op = OP_FP_STORE then Cacheable (parse_fp_store instr)
         else if op = OP_JAL then Cacheable (j_instr instr)
         else if op = OP_JALR then Cacheable (parse_jalr instr)
         else Cacheable (Unknown instr))"

section \<open>Fields and immediates of 16-bit instructions\<close>

definition c_bits :: "u16 \<Rightarrow> nat \<Rightarrow> nat \<Rightarrow> u16" where
  "c_bits bytes pos n = rust_shr bytes pos AND rust_shr (NOT 0) (16 - n)"

definition c_rd_rs1 :: "u16 \<Rightarrow> xregister" where
  "c_rd_rs1 instr = parse_xregister (extract_u5 instr 7)"

definition c_f_rd_rs1 :: "u16 \<Rightarrow> fregister" where
  "c_f_rd_rs1 instr = parse_fregister (extract_u5 instr 7)"

definition c_rs2 :: "u16 \<Rightarrow> xregister" where
  "c_rs2 instr = parse_xregister (extract_u5 instr 2)"

definition c_f_rs2 :: "u16 \<Rightarrow> fregister" where
  "c_f_rs2 instr = parse_fregister (extract_u5 instr 2)"

definition c_reg_prime :: "u16 \<Rightarrow> nat \<Rightarrow> 5 word" where
  "c_reg_prime instr pos = ucast (extract_u3 instr pos) + 8"

definition c_rs1p :: "u16 \<Rightarrow> xregister" where
  "c_rs1p instr = parse_xregister (c_reg_prime instr 7)"

definition c_rdp_rs2p :: "u16 \<Rightarrow> xregister" where
  "c_rdp_rs2p instr = parse_xregister (c_reg_prime instr 2)"

definition c_f_rdp_rs2p :: "u16 \<Rightarrow> fregister" where
  "c_f_rdp_rs2p instr = parse_fregister (c_reg_prime instr 2)"

text \<open>The two conversions that may panic: \<open>None\<close> is the panic.\<close>

definition c_rs1p_nz :: "u16 \<Rightarrow> nz_xregister option" where
  "c_rs1p_nz instr = assert_from (parse_xregister (c_reg_prime instr 7))"

definition c_rdp_rs2p_nz :: "u16 \<Rightarrow> nz_xregister option" where
  "c_rdp_rs2p_nz instr = assert_from (parse_xregister (c_reg_prime instr 2))"

definition c_opcode :: "u16 \<Rightarrow> u16" where "c_opcode instr = c_bits instr 0 2"
definition c_funct3 :: "u16 \<Rightarrow> u16" where "c_funct3 instr = c_bits instr 13 3"
definition c_q1_10 :: "u16 \<Rightarrow> u16" where "c_q1_10 instr = c_bits instr 10 2"
definition c_q1_5 :: "u16 \<Rightarrow> u16" where "c_q1_5 instr = c_bits instr 5 2"

text \<open>The assertion \<^verbatim>\<open>size < 16\<close> of \<^verbatim>\<open>sign_extend_u16\<close> is left out: every caller passes a smaller constant.\<close>

definition sign_extend_u16 :: "u16 \<Rightarrow> nat \<Rightarrow> u64" where
  "sign_extend_u16 v sz =
     (let shift = 16 - sz in scast (signed_drop_bit shift (rust_shl v shift)))"

definition clw_imm :: "u16 \<Rightarrow> u64" where
  "clw_imm instr =
     ucast (rust_shl (bits_subset instr 5 5) 6 OR rust_shl (bits_subset instr 12 10) 3 OR
            rust_shl (bits_subset instr 6 6) 2)"

definition cld_imm :: "u16 \<Rightarrow> u64" where
  "cld_imm instr =
     ucast (rust_shl (bits_subset instr 6 5) 6 OR rust_shl (bits_subset instr 12 10) 3)"

definition ci_imm :: "u16 \<Rightarrow> u64" where
  "ci_imm instr = sign_extend_u16 (rust_shl (bits_subset instr 12 12) 5 OR bits_subset instr 6 2) 6"

definition cslli_imm :: "u16 \<Rightarrow> u64" where
  "cslli_imm instr = ucast (rust_shl (bits_subset instr 12 12) 5 OR bits_subset instr 6 2)"

definition ci_addi16sp_imm :: "u16 \<Rightarrow> u64" where
  "ci_addi16sp_imm instr =
     sign_extend_u16
       (rust_shl (bits_subset instr 12 12) 9 OR rust_shl (bits_subset instr 4 3) 7 OR
        rust_shl (bits_subset instr 5 5) 6 OR rust_shl (bits_subset instr 2 2) 5 OR
        rust_shl (bits_subset instr 6 6) 4) 10"

definition ci_lwsp_imm :: "u16 \<Rightarrow> u64" where
  "ci_lwsp_imm instr =
     ucast (rust_shl (bits_subset instr 3 2) 6 OR rust_shl (bits_subset instr 12 12) 5 OR
            rust_shl (bits_subset instr 6 4) 2)"

definition ci_ldsp_imm :: "u16 \<Rightarrow> u64" where
  "ci_ldsp_imm instr =
     ucast (rust_shl (bits_subset instr 4 2) 6 OR rust_shl (bits_subset instr 12 12) 5 OR
            rust_shl (bits_subset instr 6 5) 3)"

definition css_swsp_imm :: "u16 \<Rightarrow> u64" where
  "css_swsp_imm instr =
     ucast (rust_shl (bits_subset instr 8 7) 6 OR rust_shl (bits_subset instr 12 9) 2)"

definition css_sdsp_imm :: "u16 \<Rightarrow> u64" where
  "css_sdsp_imm instr =
     ucast (rust_shl (bits_subset instr 9 7) 6 OR rust_shl (bits_subset instr 12 10) 3)"

definition ciw_imm :: "u16 \<Rightarrow> u64" where
  "ciw_imm instr =
     ucast (rust_shl (bits_subset instr 10 7) 6 OR rust_shl (bits_subset instr 12 11) 4 OR
            rust_shl (bits_subset instr 5 5) 3 OR rust_shl (bits_subset instr 6 6) 2)"

definition cb_imm :: "u16 \<Rightarrow> u64" where
  "cb_imm instr =
     sign_extend_u16
       (rust_shl (bits_subset instr 12 12) 8 OR rust_shl (bits_subset instr 6 5) 6 OR
        rust_shl (bits_subset instr 2 2) 5 OR rust_shl (bits_subset instr 11 10) 3 OR
        rust_shl (bits_subset instr 4 3) 1) 9"

definition cb_shamt_imm :: "u16 \<Rightarrow> u64" where
  "cb_shamt_imm instr = ucast (rust_shl (bits_subset instr 12 12) 5 OR bits_subset instr 6 2)"

definition cb_andi_imm :: "u16 \<Rightarrow> u64" where
  "cb_andi_imm instr =
     sign_extend_u16 (rust_shl (bits_subset instr 12 12) 5 OR bits_subset instr 6 2) 6"

definition cj_imm :: "u16 \<Rightarrow> u64" where
  "cj_imm instr =
     sign_extend_u16
       (rust_shl (bits_subset instr 12 12) 11 OR rust_shl (bits_subset instr 8 8) 10 OR
        rust_shl (bits_subset instr 10 9) 8 OR rust_shl (bits_subset instr 6 6) 7 OR
        rust_shl (bits_subset instr 7 7) 6 OR rust_shl (bits_subset instr 2 2) 5 OR
        rust_shl (bits_subset instr 11 11) 4 OR rust_shl (bits_subset instr 5 3) 1) 12"

section \<open>Decoder of 16-bit instructions\<close>

definition cr_instr :: "cr_op \<Rightarrow> u16 \<Rightarrow> instr_cacheable" where
  "cr_instr op instr = CRTypeArgs op (c_rs1p instr) (c_rdp_rs2p instr)"

definition cc_instr :: "cib_op \<Rightarrow> u64 \<Rightarrow> u16 \<Rightarrow> instr_cacheable" where
  "cc_instr op imm instr = CIBTypeArgs op (c_rs1p instr) imm"

definition parse_c0 :: "u16 \<Rightarrow> instr_cacheable option" where
  "parse_c0 instr =
     (if c_funct3 instr = 1 then
        Some (FLoadArgs CFld (c_rs1p instr) (c_f_rdp_rs2p instr) (cld_imm instr))
      else if c_funct3 instr = 0 then
        Some (if ciw_imm instr = 0 then UnknownCompressed instr
              else CIBTypeArgs CAddi4spn (c_rdp_rs2p instr) (ciw_imm instr))
      else if c_funct3 instr = 2 then
        (case (c_rdp_rs2p_nz instr, c_rs1p_nz instr) of
           (Some rd, Some rs1) \<Rightarrow> Some (NonZeroITypeArgs CLw rd rs1 (clw_imm instr))
         | _ \<Rightarrow> None)
      else if c_funct3 instr = 3 then
        (case (c_rdp_rs2p_nz instr, c_rs1p_nz instr) of
           (Some rd, Some rs1) \<Rightarrow> Some (NonZeroITypeArgs CLd rd rs1 (cld_imm instr))
         | _ \<Rightarrow> None)
      else if c_funct3 instr = 5 then
        Some (FStoreArgs CFsd (c_rs1p instr) (c_f_rdp_rs2p instr) (cld_imm instr))
      else if c_funct3 instr = 6 then
        (case (c_rs1p_nz instr, c_rdp_rs2p_nz instr) of
           (Some rs1, Some rs2) \<Rightarrow> Some (NonZeroSBTypeArgs CSw rs1 rs2 (clw_imm instr))
         | _ \<Rightarrow> None)
      else if c_funct3 instr = 7 then
        (case (c_rs1p_nz instr, c_rdp_rs2p_nz instr) of
           (Some rs1, Some rs2) \<Rightarrow> Some (NonZeroSBTypeArgs CSd rs1 rs2 (cld_imm instr))
         | _ \<Rightarrow> None)
      else Some (UnknownCompressed instr))"

definition parse_c1 :: "u16 \<Rightarrow> instr_cacheable" where
  "parse_c1 instr =
     (if c_funct3 instr = 0 then
        (case split_x0 (c_rd_rs1 instr) of
           X0 \<Rightarrow> if ci_imm instr = 0 then CNop else HintCompressed instr
         | NonZero rd_rs1 \<Rightarrow>
             if ci_imm instr = 0 then HintCompressed instr
             else CIBNZTypeArgs CAddi rd_rs1 (ci_imm instr))
      else if c_funct3 instr = 1 then
        (case split_x0 (c_rd_rs1 instr) of
           X0 \<Rightarrow> UnknownCompressed instr
         | NonZero rd_rs1 \<Rightarrow> CIBNZTypeArgs CAddiw rd_rs1 (ci_imm instr))
      else if c_funct3 instr = 2 then
        (case split_x0 (c_rd_rs1 instr) of
           X0 \<Rightarrow> HintCompressed instr
         | NonZero rd_rs1 \<Rightarrow> CIBNZTypeArgs CLi rd_rs1 (ci_imm instr))
      else if c_funct3 instr = 3 then
        (if bits_subset instr 6 2 = 0 \<and> \<not> bit_at instr 12 then UnknownCompressed instr
         else if split_x0 (c_rd_rs1 instr) = NonZero nz_x2 then
           CJTypeArgs CAddi16sp (ci_addi16sp_imm instr)
         else if ci_imm instr = 0 then UnknownCompressed instr
         else (case split_x0 (c_rd_rs1 instr) of
                 X0 \<Rightarrow> HintCompressed instr
               | NonZero rd_rs1 \<Rightarrow> CIBNZTypeArgs CLui rd_rs1 (rust_shl (ci_imm instr) 12)))
      else if c_funct3 instr = 4 then
        (if c_q1_10 instr = 0 then
           (if cb_shamt_imm instr = 0 then HintCompressed instr
            else cc_instr CSrli (cb_shamt_imm instr) instr)
         else if c_q1_10 instr = 1 then
           (if cb_shamt_imm instr = 0 then HintCompressed instr
            else cc_instr CSrai (cb_shamt_imm instr) instr)
         else if c_q1_10 instr = 2 then cc_instr CAndi (cb_andi_imm instr) instr
         else if c_q1_10 instr = 3 then
           (if \<not> bit_at instr 12 \<and> c_q1_5 instr = 0 then cr_instr CSub instr
            else if \<not> bit_at instr 12 \<and> c_q1_5 instr = 1 then cr_instr CXor instr
            else if \<not> bit_at instr 12 \<and> c_q1_5 instr = 2 then cr_instr COr instr
            else if \<not> bit_at instr 12 \<and> c_q1_5 instr = 3 then cr_instr CAnd instr
            else if bit_at instr 12 \<and> c_q1_5 instr = 0 then cr_instr CSubw instr
            else if bit_at instr 12 \<and> c_q1_5 instr = 1 then cr_instr CAddw instr
            else UnknownCompressed instr)
         else UnknownCompressed instr)
      else if c_funct3 instr = 5 then CJTypeArgs CJ (cj_imm instr)
      else if c_funct3 instr = 6 then cc_instr CBeqz (cb_imm instr) instr
      else if c_funct3 instr = 7 then cc_instr CBnez (cb_imm instr) instr
      else UnknownCompressed instr)"

definition parse_c2 :: "u16 \<Rightarrow> instr" where
  "parse_c2 instr =
     (if c_funct3 instr = 0 then
        (case split_x0 (c_rd_rs1 instr) of
           X0 \<Rightarrow> Cacheable (HintCompressed instr)
         | NonZero rd_rs1 \<Rightarrow>
             if cslli_imm instr = 0 then Cacheable (HintCompressed instr)
             else Cacheable (CIBNZTypeArgs CSlli rd_rs1 (cslli_imm instr)))
      else if c_funct3 instr = 1 then
        Cacheable (CIBDTypeArgs (c_f_rd_rs1 instr) (ci_ldsp_imm instr))
      else if c_funct3 instr = 2 then
        (case split_x0 (c_rd_rs1 instr) of
           X0 \<Rightarrow> Cacheable (UnknownCompressed instr)
         | NonZero rd_rs1 \<Rightarrow> Cacheable (CIBNZTypeArgs CLwsp rd_rs1 (ci_lwsp_imm instr)))
      else if c_funct3 instr = 3 then
        (case split_x0 (c_rd_rs1 instr) of
           X0 \<Rightarrow> Cacheable (UnknownCompressed instr)
         | NonZero rd_rs1 \<Rightarrow> Cacheable (CIBNZTypeArgs CLdsp rd_rs1 (ci_ldsp_imm instr)))
      else if c_funct3 instr = 4 then
        (case (split_x0 (c_rd_rs1 instr), split_x0 (c_rs2 instr)) of
           (X0, X0) \<Rightarrow>
             if bit_at instr 12 then Uncacheable CEbreak else Cacheable (UnknownCompressed instr)
         | (X0, NonZero _) \<Rightarrow> Cacheable (HintCompressed instr)
         | (NonZero rs1, X0) \<Rightarrow>
             if bit_at instr 12 then Cacheable (CRJTypeArgs CJalr rs1)
             else Cacheable (CRJTypeArgs CJr rs1)
         | (NonZero rd_rs1, NonZero rs2) \<Rightarrow>
             if bit_at instr 12 then Cacheable (CNZRTypeArgs CAdd rd_rs1 rs2)
             else Cacheable (CNZRTypeArgs CMv rd_rs1 rs2))
      else if c_funct3 instr = 5 then
        Cacheable (CSSDTypeArgs (c_f_rs2 instr) (css_sdsp_imm instr))
      else if c_funct3 instr = 6 then
        Cacheable (CSSTypeArgs CSwsp (c_rs2 instr) (css_swsp_imm instr))
      else if c_funct3 instr = 7 then
        Cacheable (CSSTypeArgs CSdsp (c_rs2 instr) (css_sdsp_imm instr))
      else Cacheable (UnknownCompressed instr))"

definition parse_compressed_instruction_inner :: "u16 \<Rightarrow> instr option" where
  "parse_compressed_instruction_inner instr =
     (if c_opcode instr = 0b00 then map_option Cacheable (parse_c0 instr)
      else if c_opcode instr = 0b01 then Some (Cacheable (parse_c1 instr))
      else if c_opcode instr = 0b10 then Some (parse_c2 instr)
      else Some (Cacheable (UnknownCompressed instr)))"

section \<open>Jump table and entry points\<close>

text \<open>\<^verbatim>\<open>COMPRESSED_JUMP_TABLE\<close>: the loop runs up to \<^verbatim>\<open>u16::MAX\<close> and the last entry is written after
  it; a panic of the decoder aborts the construction.\<close>

function jump_table_loop :: "instr list \<Rightarrow> u16 \<Rightarrow> instr list option" where
  "jump_table_loop table i =
     (if i < 0xFFFF then
        (case parse_compressed_instruction_inner i of
           None \<Rightarrow> None
         | Some x \<Rightarrow> jump_table_loop (table[unat i := x]) (i + 1))
      else
        (case parse_compressed_instruction_inner i of
           None \<Rightarrow> None
         | Some x \<Rightarrow> Some (table[unat i := x])))"
  by pat_completeness auto

termination jump_table_loop
proof (relation "measure (\<lambda>(_, i). 0xFFFF - unat i)")
  fix table :: "instr list" and i :: u16 and x
  assume "i < 0xFFFF"
  then have "unat i < 0xFFFF" by (simp add: word_less_nat_alt)
  moreover have "unat (i + 1) = unat i + 1"
    using \<open>unat i < 0xFFFF\<close> by (simp add: unat_word_ariths)
  ultimately show "((table[unat i := x], i + 1), table, i) \<in> measure (\<lambda>(_, i). 0xFFFF - unat i)"
    by simp
qed simp

definition COMPRESSED_JUMP_TABLE :: "instr list option" where
  "COMPRESSED_JUMP_TABLE =
     jump_table_loop (replicate 0x10000 (Cacheable (Unknown 0))) 0"

definition parse_compressed_instruction :: "u16 \<Rightarrow> instr option" where
  "parse_compressed_instruction bytes =
     (case COMPRESSED_JUMP_TABLE of
        None \<Rightarrow> None
      | Some table \<Rightarrow>
          if unat bytes < length table then Some (table ! unat bytes) else None)"

definition is_compressed :: "u16 \<Rightarrow> bool" where
  "is_compressed bytes \<longleftrightarrow> bytes AND 0b11 \<noteq> 0b11"

text \<open>\<^verbatim>\<open>parse\<close>: the inner \<open>option\<close> is \<open>None\<close> for a panic of the decoder of 16-bit instructions.\<close>

definition parse :: "u16 \<Rightarrow> 'e + u16 \<Rightarrow> 'e + instr option" where
  "parse bytes next_half =
     (if bytes AND 0b11 \<noteq> 0b11 then Inr (parse_compressed_instruction bytes)
      else (case next_half of
              Inl e \<Rightarrow> Inl e
            | Inr upper \<Rightarrow>
                let combined = rust_shl (ucast upper) 16 OR (ucast bytes :: u32)
                in Inr (Some (parse_uncompressed_instruction combined))))"

fun u16_iter_from_u8_iter :: "u8 list \<Rightarrow> u16 list" where
  "u16_iter_from_u8_iter (lower # upper # bs) =
     (push_bit 8 (ucast upper) OR ucast lower) # u16_iter_from_u8_iter bs"
| "u16_iter_from_u8_iter _ = []"

text \<open>\<^verbatim>\<open>instr_iter_from_u16_iter\<close>: the iterator ends when \<^verbatim>\<open>parse\<close> asks for bytes that are not there.\<close>

fun instr_iter_from_u16_iter :: "u16 list \<Rightarrow> instr option list" where
  "instr_iter_from_u16_iter [] = []"
| "instr_iter_from_u16_iter [b] =
     (case parse b (Inl ()) of Inl _ \<Rightarrow> [] | Inr i \<Rightarrow> [i])"
| "instr_iter_from_u16_iter (b # c # bs) =
     (if is_compressed b then
        (case parse b (Inr c :: unit + u16) of
           Inl _ \<Rightarrow> [] | Inr i \<Rightarrow> i # instr_iter_from_u16_iter (c # bs))
      else
        (case parse b (Inr c :: unit + u16) of
           Inl _ \<Rightarrow> [] | Inr i \<Rightarrow> i # instr_iter_from_u16_iter bs))"

definition parse_block :: "u8 list \<Rightarrow> instr option list" where
  "parse_block bytes = instr_iter_from_u16_iter (u16_iter_from_u8_iter bytes)"

text \<open>\<^verbatim>\<open>parse_segment\<close>: slicing with a range outside the contents panics.\<close>

definition parse_segment :: "u8 list \<Rightarrow> nat \<Rightarrow> nat \<Rightarrow> instr option list option" where
  "parse_segment contents start stop =
     (if start \<le> stop \<and> stop \<le> length contents
      then Some (parse_block (take (stop - start) (drop start contents))) else None)"

end
