(* ===== verification/Interpreter.thy ===== *)
theory Interpreter
  imports Machine_Core Parser
begin

unbundle bit_operations_syntax

text \<open>
  Model of the instruction bodies under \<^verbatim>\<open>src/riscv/lib/src/interpreter\<close>: \<^verbatim>\<open>integer.rs\<close>,
  \<^verbatim>\<open>branching.rs\<close>, \<^verbatim>\<open>load_store.rs\<close>, \<^verbatim>\<open>atomics.rs\<close>, \<^verbatim>\<open>rv32a.rs\<close>, \<^verbatim>\<open>rv64a.rs\<close>,
  \<^verbatim>\<open>rv64zicsr.rs\<close> and the float moves, loads and stores. One definition per function, with the machine state threaded explicitly.
\<close>

section \<open>Integer operations\<close>

definition run_neg :: "machine_core \<Rightarrow> nz_xregister \<Rightarrow> nz_xregister \<Rightarrow> machine_core" where
  "run_neg core rd rs1 =
     (let rs1_val = xregister_read_nz core rs1; result = negate rs1_val
      in xregister_write_nz core rd result)"

definition run_mv :: "machine_core \<Rightarrow> nz_xregister \<Rightarrow> nz_xregister \<Rightarrow> machine_core" where
  "run_mv core rd_rs1 rs2 =
     (let rs2_val = xregister_read_nz core rs2 in xregister_write_nz core rd_rs1 rs2_val)"

definition run_nop :: "machine_core \<Rightarrow> machine_core" where
  "run_nop core = core"

definition run_add :: "machine_core \<Rightarrow> nz_xregister \<Rightarrow> nz_xregister \<Rightarrow> nz_xregister \<Rightarrow> machine_core" where
  "run_add core rs1 rs2 rd =
     (let lhs = xregister_read_nz core rs1; rhs = xregister_read_nz core rs2; result = lhs + rhs
      in xregister_write_nz core rd result)"

definition run_add_word :: "machine_core \<Rightarrow> xregister \<Rightarrow> xregister \<Rightarrow> nz_xregister \<Rightarrow> machine_core" where
  "run_add_word core rs1 rs2 rd =
     (let lhs = xregister_read core rs1; rhs = xregister_read core rs2; sum = lhs + rhs;
          res = narrow sum; res = extend_signed res
      in xregister_write_nz core rd res)"

definition run_sub :: "machine_core \<Rightarrow> nz_xregister \<Rightarrow> nz_xregister \<Rightarrow> nz_xregister \<Rightarrow> machine_core" where
  "run_sub core rs1 rs2 rd =
     (let lhs = xregister_read_nz core rs1; rhs = xregister_read_nz core rs2; result = lhs - rhs
      in xregister_write_nz core rd result)"

definition run_sub_word :: "machine_core \<Rightarrow> xregister \<Rightarrow> xregister \<Rightarrow> nz_xregister \<Rightarrow> machine_core" where
  "run_sub_word core rs1 rs2 rd =
     (let lhs = xregister_read core rs1; rhs = xregister_read core rs2; subtraction = lhs - rhs;
          res = narrow subtraction; res = extend_signed res
      in xregister_write_nz core rd res)"

definition run_and :: "machine_core \<Rightarrow> nz_xregister \<Rightarrow> nz_xregister \<Rightarrow> nz_xregister \<Rightarrow> machine_core" where
  "run_and core rs1 rs2 rd =
     (let lhs = xregister_read_nz core rs1; rhs = xregister_read_nz core rs2; res = lhs AND rhs
      in xregister_write_nz core rd res)"

definition run_or :: "machine_core \<Rightarrow> nz_xregister \<Rightarrow> nz_xregister \<Rightarrow> nz_xregister \<Rightarrow> machine_core" where
  "run_or core rs1 rs2 rd =
     (let lhs = xregister_read_nz core rs1; rhs = xregister_read_nz core rs2; res = lhs OR rhs
      in xregister_write_nz core rd res)"

definition run_x64_or_immediate :: "machine_core \<Rightarrow> u64 \<Rightarrow> nz_xregister \<Rightarrow> nz_xregister \<Rightarrow> machine_core" where
  "run_x64_or_immediate core imm rs1 rd =
     (let lhs = xregister_read_nz core rs1; rhs = imm; res = lhs OR rhs
      in xregister_write_nz core rd res)"

definition run_x64_xor :: "machine_core \<Rightarrow> nz_xregister \<Rightarrow> nz_xregister \<Rightarrow> nz_xregister \<Rightarrow> machine_core" where
  "run_x64_xor core rs1 rs2 rd =
     (let lhs = xregister_read_nz core rs1; rhs = xregister_read_nz core rs2; res = lhs XOR rhs
      in xregister_write_nz core rd res)"

definition run_x64_xor_immediate :: "machine_core \<Rightarrow> u64 \<Rightarrow> nz_xregister \<Rightarrow> nz_xregister \<Rightarrow> machine_core" where
  "run_x64_xor_immediate core imm rs1 rd =
     (let lhs = xregister_read_nz core rs1; rhs = imm; res = lhs XOR rhs
      in xregister_write_nz core rd res)"

definition run_addi :: "machine_core \<Rightarrow> u64 \<Rightarrow> nz_xregister \<Rightarrow> nz_xregister \<Rightarrow> machine_core" where
  "run_addi core imm rs1 rd =
     (let lhs = xregister_read_nz core rs1; rhs = imm; result = lhs + rhs
      in xregister_write_nz core rd result)"

definition run_add_word_immediate :: "machine_core \<Rightarrow> u64 \<Rightarrow> xregister \<Rightarrow> nz_xregister \<Rightarrow> machine_core" where
  "run_add_word_immediate core imm rs1 rd =
     (let lhs = xregister_read core rs1; rhs = imm; sum = lhs + rhs;
          res = narrow sum; res = extend_signed res
      in xregister_write_nz core rd res)"

definition run_andi :: "machine_core \<Rightarrow> u64 \<Rightarrow> nz_xregister \<Rightarrow> nz_xregister \<Rightarrow> machine_core" where
  "run_andi core imm rs1 rd =
     (let lhs = xregister_read_nz core rs1; rhs = imm; res = lhs AND rhs
      in xregister_write_nz core rd res)"

definition run_set_less_than_immediate_signed ::
    "machine_core \<Rightarrow> u64 \<Rightarrow> xregister \<Rightarrow> nz_xregister \<Rightarrow> machine_core" where
  "run_set_less_than_immediate_signed core imm rs1 rd =
     (let lhs = xregister_read core rs1; rhs = imm; cmp = compare lhs rhs LessThanSigned;
          res = xvalue_from_bool cmp
      in xregister_write_nz core rd res)"

definition run_set_less_than_immediate_unsigned ::
    "machine_core \<Rightarrow> u64 \<Rightarrow> xregister \<Rightarrow> nz_xregister \<Rightarrow> machine_core" where
  "run_set_less_than_immediate_unsigned core imm rs1 rd =
     (let lhs = xregister_read core rs1; rhs = imm; cmp = compare lhs rhs LessThanUnsigned;
          res = xvalue_from_bool cmp
      in xregister_write_nz core rd res)"

definition run_set_less_than_signed ::
    "machine_core \<Rightarrow> xregister \<Rightarrow> xregister \<Rightarrow> nz_xregister \<Rightarrow> machine_core" where
  "run_set_less_than_signed core rs1 rs2 rd =
     (let lhs = xregister_read core rs1; rhs = xregister_read core rs2;
          cmp = compare lhs rhs LessThanSigned; res = xvalue_from_bool cmp
      in xregister_write_nz core rd res)"

definition run_set_less_than_unsigned ::
    "machine_core \<Rightarrow> xregister \<Rightarrow> xregister \<Rightarrow> nz_xregister \<Rightarrow> machine_core" where
  "run_set_less_than_unsigned core rs1 rs2 rd =
     (let lhs = xregister_read core rs1; rhs = xregister_read core rs2;
          cmp = compare lhs rhs LessThanUnsigned; res = xvalue_from_bool cmp
      in xregister_write_nz core rd res)"

definition run_mul :: "machine_core \<Rightarrow> nz_xregister \<Rightarrow> nz_xregister \<Rightarrow> nz_xregister \<Rightarrow> machine_core" where
  "run_mul core rs1 rs2 rd =
     (let lhs = xregister_read_nz core rs1; rhs = xregister_read_nz core rs2; result = lhs * rhs
      in xregister_write_nz core rd result)"

definition run_x32_mul :: "machine_core \<Rightarrow> xregister \<Rightarrow> xregister \<Rightarrow> nz_xregister \<Rightarrow> machine_core" where
  "run_x32_mul core rs1 rs2 rd =
     (let lhs = narrow (xregister_read core rs1); rhs = narrow (xregister_read core rs2);
          result = lhs * rhs; result = extend_signed result
      in xregister_write_nz core rd result)"

definition run_x64_mul_high :: "machine_core \<Rightarrow> nz_xregister \<Rightarrow> nz_xregister \<Rightarrow> nz_xregister \<Rightarrow>
    mul_high_type \<Rightarrow> machine_core" where
  "run_x64_mul_high core rs1 rs2 rd mul_high_type =
     (let lhs = xregister_read_nz core rs1; rhs = xregister_read_nz core rs2;
          result = mul_high lhs rhs mul_high_type
      in xregister_write_nz core rd result)"

subsection \<open>Division and remainder\<close>

text \<open>The result is \<open>None\<close> if a division panics.\<close>

definition run_x64_div_signed :: "machine_core \<Rightarrow> xregister \<Rightarrow> xregister \<Rightarrow> nz_xregister \<Rightarrow> machine_core option" where
  "run_x64_div_signed core rs1 rs2 rd =
     (let rval1 = xregister_read core rs1; rval2 = xregister_read core rs2;
          cond = compare rval2 0 Equal;
          result =
            (if cond then Some (- 1)
             else let minimum = signed_min; minus_one = - 1;
                      cond1 = compare rval2 minus_one Equal; cond2 = compare rval1 minimum Equal
                  in if cond1 \<and> cond2 then Some signed_min else div_signed rval1 rval2)
      in map_option (xregister_write_nz core rd) result)"

definition run_x64_div_unsigned :: "machine_core \<Rightarrow> xregister \<Rightarrow> xregister \<Rightarrow> nz_xregister \<Rightarrow> machine_core option" where
  "run_x64_div_unsigned core rs1 rs2 rd =
     (let rval1 = xregister_read core rs1; rval2 = xregister_read core rs2;
          cond = compare rval2 0 Equal;
          result = (if cond then Some (NOT 0) else div_unsigned rval1 rval2)
      in map_option (xregister_write_nz core rd) result)"

definition run_x32_div_signed :: "machine_core \<Rightarrow> xregister \<Rightarrow> xregister \<Rightarrow> nz_xregister \<Rightarrow> machine_core option" where
  "run_x32_div_signed core rs1 rs2 rd =
     (let rval1 = narrow (xregister_read core rs1); rval2 = narrow (xregister_read core rs2);
          cond = compare rval2 0 Equal;
          result =
            (if cond then Some (- 1)
             else let minimum = signed_min; minus_one = - 1;
                      cond1 = compare rval2 minus_one Equal; cond2 = compare rval1 minimum Equal
                  in if cond1 \<and> cond2 then Some signed_min else div_signed rval1 rval2)
      in map_option (\<lambda>result. xregister_write_nz core rd (extend_signed result)) result)"

definition run_x32_div_unsigned :: "machine_core \<Rightarrow> xregister \<Rightarrow> xregister \<Rightarrow> nz_xregister \<Rightarrow> machine_core option" where
  "run_x32_div_unsigned core rs1 rs2 rd =
     (let rval1 = narrow (xregister_read core rs1); rval2 = narrow (xregister_read core rs2);
          cond = compare rval2 0 Equal;
          result = (if cond then Some (NOT 0) else div_unsigned rval1 rval2)
      in map_option (\<lambda>result. xregister_write_nz core rd (extend_signed result)) result)"

definition run_x64_rem_signed :: "machine_core \<Rightarrow> xregister \<Rightarrow> xregister \<Rightarrow> nz_xregister \<Rightarrow> machine_core option" where
  "run_x64_rem_signed core rs1 rs2 rd =
     (let rval1 = xregister_read core rs1; rval2 = xregister_read core rs2;
          cond = compare rval2 0 Equal;
          result =
            (if cond then Some rval1
             else let minimum = signed_min; minus_one = - 1;
                      cond1 = compare rval2 minus_one Equal; cond2 = compare rval1 minimum Equal
                  in if cond1 \<and> cond2 then Some 0 else modulus_signed rval1 rval2)
      in map_option (xregister_write_nz core rd) result)"

definition run_x64_rem_unsigned :: "machine_core \<Rightarrow> xregister \<Rightarrow> xregister \<Rightarrow> nz_xregister \<Rightarrow> machine_core option" where
  "run_x64_rem_unsigned core rs1 rs2 rd =
     (let rval1 = xregister_read core rs1; rval2 = xregister_read core rs2;
          cond = compare rval2 0 Equal;
          result = (if cond then Some rval1 else modulus_unsigned rval1 rval2)
      in map_option (xregister_write_nz core rd) result)"

definition run_x32_rem_signed :: "machine_core \<Rightarrow> xregister \<Rightarrow> xregister \<Rightarrow> nz_xregister \<Rightarrow> machine_core option" where
  "run_x32_rem_signed core rs1 rs2 rd =
     (let rval1 = narrow (xregister_read core rs1); rval2 = narrow (xregister_read core rs2);
          cond = compare rval2 0 Equal;
          result =
            (if cond then Some rval1
             else let minimum = signed_min; minus_one = - 1;
                      cond1 = compare rval2 minus_one Equal; cond2 = compare rval1 minimum Equal
                  in if cond1 \<and> cond2 then Some 0 else modulus_signed rval1 rval2)
      in map_option (\<lambda>result. xregister_write_nz core rd (extend_signed result)) result)"

definition run_x32_rem_unsigned :: "machine_core \<Rightarrow> xregister \<Rightarrow> xregister \<Rightarrow> nz_xregister \<Rightarrow> machine_core option" where
  "run_x32_rem_unsigned core rs1 rs2 rd =
     (let rval1 = narrow (xregister_read core rs1); rval2 = narrow (xregister_read core rs2);
          cond = compare rval2 0 Equal;
          result = (if cond then Some rval1 else modulus_unsigned rval1 rval2)
      in map_option (\<lambda>result. xregister_write_nz core rd (extend_signed result)) result)"

subsection \<open>Shifts\<close>

definition run_shift :: "machine_core \<Rightarrow> shift \<Rightarrow> nz_xregister \<Rightarrow> nz_xregister \<Rightarrow> nz_xregister \<Rightarrow> machine_core" where
  "run_shift core shift rs1 rs2 rd =
     (let shift_amount = xregister_read_nz core rs2 AND SHIFT_BITMASK;
          lhs = xregister_read_nz core rs1; result = shift_by lhs shift shift_amount
      in xregister_write_nz core rd result)"

definition run_shift_immediate :: "machine_core \<Rightarrow> shift \<Rightarrow> u64 \<Rightarrow> nz_xregister \<Rightarrow> nz_xregister \<Rightarrow> machine_core" where
  "run_shift_immediate core shift imm rs1 rd =
     (let shift_amount = imm; lhs = xregister_read_nz core rs1;
          result = shift_by lhs shift shift_amount
      in xregister_write_nz core rd result)"

definition run_x32_shift :: "machine_core \<Rightarrow> shift \<Rightarrow> xregister \<Rightarrow> xregister \<Rightarrow> nz_xregister \<Rightarrow> machine_core" where
  "run_x32_shift core shift rs1 rs2 rd =
     (let lhs = xregister_read core rs1; shift_amount = xregister_read core rs2 AND 0b11111;
          shift_amount = narrow shift_amount; lhs = narrow lhs;
          result = extend_signed (shift_by lhs shift shift_amount)
      in xregister_write_nz core rd result)"

definition run_x32_shift_immediate :: "machine_core \<Rightarrow> shift \<Rightarrow> nz_xregister \<Rightarrow> u64 \<Rightarrow> nz_xregister \<Rightarrow> machine_core" where
  "run_x32_shift_immediate core shift rs1 imm rd =
     (let lhs = xregister_read_nz core rs1; shift_amount = imm AND 0b11111;
          shift_amount = narrow shift_amount; lhs = narrow lhs;
          result = extend_signed (shift_by lhs shift shift_amount)
      in xregister_write_nz core rd result)"

section \<open>Jumps and branches\<close>

definition run_j :: "machine_core \<Rightarrow> u64 \<Rightarrow> xvalue" where
  "run_j core imm = (let current_pc = pc_read core in current_pc + imm)"

definition run_jr :: "machine_core \<Rightarrow> nz_xregister \<Rightarrow> xvalue" where
  "run_jr core rs1 = xregister_read_nz core rs1 AND NOT 1"

definition run_jr_imm :: "machine_core \<Rightarrow> u64 \<Rightarrow> nz_xregister \<Rightarrow> xvalue" where
  "run_jr_imm core imm rs1 = (xregister_read_nz core rs1 + imm) AND NOT 1"

definition run_j_absolute :: "machine_core \<Rightarrow> u64 \<Rightarrow> xvalue" where
  "run_j_absolute core imm = imm AND NOT 1"

definition run_jal :: "machine_core \<Rightarrow> u64 \<Rightarrow> nz_xregister \<Rightarrow> instr_width \<Rightarrow> xvalue \<times> machine_core" where
  "run_jal core imm rd width =
     (let current_pc = pc_read core; return_address = current_pc + width_bytes width;
          target_address = current_pc + imm
      in (target_address, xregister_write_nz core rd return_address))"

definition run_jalr :: "machine_core \<Rightarrow> nz_xregister \<Rightarrow> nz_xregister \<Rightarrow> instr_width \<Rightarrow> xvalue \<times> machine_core" where
  "run_jalr core rd rs1 width =
     (let current_pc = pc_read core; return_address = current_pc + width_bytes width;
          target_address = xregister_read_nz core rs1; target_address = target_address AND NOT 1
      in (target_address, xregister_write_nz core rd return_address))"

definition run_jalr_imm :: "machine_core \<Rightarrow> u64 \<Rightarrow> nz_xregister \<Rightarrow> nz_xregister \<Rightarrow> instr_width \<Rightarrow>
    xvalue \<times> machine_core" where
  "run_jalr_imm core imm rs1 rd width =
     (let current_pc = pc_read core; return_address = current_pc + width_bytes width;
          target_address = xregister_read_nz core rs1; target_address = target_address + imm;
          target_address = target_address AND NOT 1
      in (target_address, xregister_write_nz core rd return_address))"

definition run_jalr_absolute :: "machine_core \<Rightarrow> u64 \<Rightarrow> nz_xregister \<Rightarrow> instr_width \<Rightarrow> xvalue \<times> machine_core" where
  "run_jalr_absolute core imm rd width =
     (let current_pc = pc_read core; return_address = current_pc + width_bytes width;
          target_address = imm AND NOT 1
      in (target_address, xregister_write_nz core rd return_address))"

definition run_add_immediate_to_pc :: "machine_core \<Rightarrow> u64 \<Rightarrow> nz_xregister \<Rightarrow> machine_core" where
  "run_add_immediate_to_pc core imm rd =
     (let lhs = pc_read core; rhs = imm; lhs = lhs + rhs in xregister_write_nz core rd lhs)"

definition run_branch :: "machine_core \<Rightarrow> predicate \<Rightarrow> u64 \<Rightarrow> nz_xregister \<Rightarrow> nz_xregister \<Rightarrow> instr_width \<Rightarrow> pc_update" where
  "run_branch core predicate imm rs1 rs2 width =
     (let lhs = xregister_read_nz core rs1; rhs = xregister_read_nz core rs2;
          cond = compare lhs rhs predicate
      in branch core cond imm width)"

definition run_branch_compare_zero :: "machine_core \<Rightarrow> predicate \<Rightarrow> u64 \<Rightarrow> nz_xregister \<Rightarrow> instr_width \<Rightarrow> pc_update" where
  "run_branch_compare_zero core predicate imm rs1 width =
     (let lhs = xregister_read_nz core rs1; rhs = 0; cond = compare lhs rhs predicate
      in branch core cond imm width)"

section \<open>Loads and stores\<close>

definition run_li :: "machine_core \<Rightarrow> u64 \<Rightarrow> nz_xregister \<Rightarrow> machine_core" where
  "run_li core imm rd_rs1 = xregister_write_nz core rd_rs1 imm"

definition run_store :: "'v::len itself \<Rightarrow> machine_core \<Rightarrow> u64 \<Rightarrow> xregister \<Rightarrow> xregister \<Rightarrow> unit outcome \<times> machine_core" where
  "run_store ty core imm rs1 rs2 =
     (let base_address = xregister_read core rs1; offset = imm; address = base_address + offset;
          v = xregister_read core rs2
      in main_memory_store ty core address v)"

definition run_load :: "('v::len word \<Rightarrow> xvalue) \<Rightarrow> machine_core \<Rightarrow> u64 \<Rightarrow> xregister \<Rightarrow> xregister \<Rightarrow> unit outcome \<times> machine_core" where
  "run_load to_xvalue core imm rs1 rd =
     (let base_address = xregister_read core rs1; offset = imm; address = base_address + offset
      in and_then (main_memory_load to_xvalue core address)
           (\<lambda>v core. (Ok (), xregister_write core rd v)))"

section \<open>Atomic operations\<close>

definition SC_SUCCESS :: u64 where "SC_SUCCESS = 0"

definition SC_FAILURE :: u64 where "SC_FAILURE = 1"

definition run_amo :: "machine_core \<Rightarrow> xregister \<Rightarrow> xregister \<Rightarrow> xregister \<Rightarrow>
    ('t::len word \<Rightarrow> 't word \<Rightarrow> 't word) \<Rightarrow> (u64 \<Rightarrow> 't word) \<Rightarrow> ('t word \<Rightarrow> u64) \<Rightarrow>
    unit outcome \<times> machine_core" where
  "run_amo core rs1 rs2 rd f to from =
     (let address_rs1 = xregister_read core rs1
      in if address_rs1 mod of_nat (LENGTH('t) div 8) \<noteq> 0
         then (Err (StoreAMOAccessFault address_rs1), core)
         else case read_from_address core address_rs1 of
                Err e \<Rightarrow> (Err e, core)
              | Stuck \<Rightarrow> (Stuck, core)
              | Ok value_rs1 \<Rightarrow>
                  (let value_rs2 = to (xregister_read core rs2);
                       v = f value_rs1 value_rs2;
                       core = xregister_write core rd (from value_rs1)
                   in write_to_address core address_rs1 v))"

definition run_amo_w :: "machine_core \<Rightarrow> xregister \<Rightarrow> xregister \<Rightarrow> xregister \<Rightarrow> (u32 \<Rightarrow> u32 \<Rightarrow> u32) \<Rightarrow>
    unit outcome \<times> machine_core" where
  "run_amo_w core rs1 rs2 rd f = run_amo core rs1 rs2 rd f ucast scast"

definition run_amo_d :: "machine_core \<Rightarrow> xregister \<Rightarrow> xregister \<Rightarrow> xregister \<Rightarrow> (u64 \<Rightarrow> u64 \<Rightarrow> u64) \<Rightarrow>
    unit outcome \<times> machine_core" where
  "run_amo_d core rs1 rs2 rd f = run_amo core rs1 rs2 rd f (\<lambda>x. x) (\<lambda>x. x)"

definition run_x64_atomic :: "machine_core \<Rightarrow> xregister \<Rightarrow> xregister \<Rightarrow> xregister \<Rightarrow>
    (xvalue \<Rightarrow> xvalue \<Rightarrow> xvalue) \<Rightarrow> unit outcome \<times> machine_core" where
  "run_x64_atomic core rs1 rs2 rd f =
     (let address_rs1 = xregister_read core rs1;
          result = atomic_access_fault_guard TYPE(64) core address_rs1 NoReset;
          val_rs1_result = and_then result
            (\<lambda>_ core. main_memory_load (\<lambda>v :: u64. v) core address_rs1)
      in and_then val_rs1_result (\<lambda>val_rs1 core.
           let val_rs2 = xregister_read core rs2; res = f val_rs1 val_rs2;
               core = xregister_write core rd val_rs1
           in main_memory_store TYPE(64) core address_rs1 res))"

definition run_x64_atomic_add :: "machine_core \<Rightarrow> xregister \<Rightarrow> xregister \<Rightarrow> xregister \<Rightarrow> unit outcome \<times> machine_core" where
  "run_x64_atomic_add core rs1 rs2 rd = run_x64_atomic core rs1 rs2 rd (\<lambda>x y. x + y)"

definition run_x64_atomic_min_signed :: "machine_core \<Rightarrow> xregister \<Rightarrow> xregister \<Rightarrow> xregister \<Rightarrow> unit outcome \<times> machine_core" where
  "run_x64_atomic_min_signed core rs1 rs2 rd = run_x64_atomic core rs1 rs2 rd (\<lambda>x y. min_signed x y)"

definition reservation_set_align_address :: "address \<Rightarrow> address" where
  "reservation_set_align_address address = address AND RES_SET_BITMASK"

definition test_and_unset_reservation_set :: "machine_core \<Rightarrow> address \<Rightarrow> bool \<times> machine_core" where
  "test_and_unset_reservation_set core address =
     (let start_addr = reservation_set_read core;
          core = reset_reservation_set core;
          is_set = compare start_addr UNSET_VALUE NotEqual;
          aligned_address = reservation_set_align_address address;
          in_reservation_set = compare aligned_address start_addr Equal
      in (is_set \<and> in_reservation_set, core))"

definition run_atomic_load :: "('v::len word \<Rightarrow> xvalue) \<Rightarrow> machine_core \<Rightarrow> xregister \<Rightarrow> xregister \<Rightarrow>
    unit outcome \<times> machine_core" where
  "run_atomic_load to_xvalue core rs1 rd =
     (let address_rs1 = xregister_read core rs1;
          result = atomic_access_fault_guard TYPE('v) core address_rs1 NoReset;
          val_rs1_result = and_then result (\<lambda>_ core. main_memory_load to_xvalue core address_rs1)
      in and_then val_rs1_result (\<lambda>val_rs1 core.
           let aligned_address_rs1 = reservation_set_align_address address_rs1;
               core = reservation_set_write core aligned_address_rs1;
               core = xregister_write core rd val_rs1
           in (Ok (), core)))"

definition run_atomic_store :: "'v::len itself \<Rightarrow> machine_core \<Rightarrow> xregister \<Rightarrow> xregister \<Rightarrow> xregister \<Rightarrow>
    unit outcome \<times> machine_core" where
  "run_atomic_store ty core rs1 rs2 rd =
     (let address_rs1 = xregister_read core rs1;
          result = atomic_access_fault_guard ty core address_rs1 Reset
      in and_then result (\<lambda>_ core.
           let (cond, core) = test_and_unset_reservation_set core address_rs1
           in if cond
              then let value_rs2 = xregister_read core rs2;
                       core = xregister_write core rd SC_SUCCESS
                   in main_memory_store ty core address_rs1 value_rs2
              else (Ok (), xregister_write core rd SC_FAILURE)))"

definition run_atomic_swap :: "('v::len word \<Rightarrow> xvalue) \<Rightarrow> machine_core \<Rightarrow> xregister \<Rightarrow> xregister \<Rightarrow>
    xregister \<Rightarrow> unit outcome \<times> machine_core" where
  "run_atomic_swap to_xvalue core rs1 rs2 rd =
     (let address_rs1 = xregister_read core rs1;
          result = atomic_access_fault_guard TYPE('v) core address_rs1 NoReset;
          val_rs1_result = and_then result (\<lambda>_ core. main_memory_load to_xvalue core address_rs1)
      in and_then val_rs1_result (\<lambda>val_rs1 core.
           let val_rs2 = xregister_read core rs2;
               core = xregister_write core rd val_rs1
           in main_memory_store TYPE('v) core address_rs1 val_rs2))"

section \<open>Float moves, loads and stores\<close>

text \<open>
  The operations of \<^verbatim>\<open>rv64f.rs\<close>, \<^verbatim>\<open>rv64d.rs\<close> and \<^verbatim>\<open>rv64dc.rs\<close> that move bits without computing
  with them. A float register value is its 64 bits.
\<close>

definition f32_to_fvalue :: "u32 \<Rightarrow> u64" where
  "f32_to_fvalue v = ucast v OR 0xffffffff00000000"

definition fregister_write :: "machine_core \<Rightarrow> fregister \<Rightarrow> u64 \<Rightarrow> machine_core" where
  "fregister_write core reg v =
     core\<lparr>hart := (hart core)\<lparr>fregisters := fregisters_write (fregisters (hart core)) reg v\<rparr>\<rparr>"

definition fregister_read :: "machine_core \<Rightarrow> fregister \<Rightarrow> u64" where
  "fregister_read core reg = fregisters_read (fregisters (hart core)) reg"

definition run_flw :: "machine_core \<Rightarrow> u64 \<Rightarrow> xregister \<Rightarrow> fregister \<Rightarrow> unit outcome \<times> machine_core" where
  "run_flw core imm rs1 rd =
     (case read_from_bus core imm rs1 of
        Ok v \<Rightarrow> (Ok (), fregister_write core rd (f32_to_fvalue v))
      | Err e \<Rightarrow> (Err e, core)
      | Stuck \<Rightarrow> (Stuck, core))"

definition run_fsw :: "machine_core \<Rightarrow> u64 \<Rightarrow> xregister \<Rightarrow> fregister \<Rightarrow> unit outcome \<times> machine_core" where
  "run_fsw core imm rs1 rs2 = write_to_bus core imm rs1 (ucast (fregister_read core rs2) :: u32)"

definition run_fld :: "machine_core \<Rightarrow> u64 \<Rightarrow> xregister \<Rightarrow> fregister \<Rightarrow> unit outcome \<times> machine_core" where
  "run_fld core imm rs1 rd =
     (case read_from_bus core imm rs1 of
        Ok v \<Rightarrow> (Ok (), fregister_write core rd v)
      | Err e \<Rightarrow> (Err e, core)
      | Stuck \<Rightarrow> (Stuck, core))"

definition run_fsd :: "machine_core \<Rightarrow> u64 \<Rightarrow> xregister \<Rightarrow> fregister \<Rightarrow> unit outcome \<times> machine_core" where
  "run_fsd core imm rs1 rs2 = write_to_bus core imm rs1 (fregister_read core rs2)"

definition run_cfldsp :: "machine_core \<Rightarrow> u64 \<Rightarrow> fregister \<Rightarrow> unit outcome \<times> machine_core" where
  "run_cfldsp core imm rd_rs1 = run_fld core imm x2 rd_rs1"

definition run_cfsdsp :: "machine_core \<Rightarrow> u64 \<Rightarrow> fregister \<Rightarrow> unit outcome \<times> machine_core" where
  "run_cfsdsp core imm rs2 = run_fsd core imm x2 rs2"

definition run_fmv_x_w :: "machine_core \<Rightarrow> fregister \<Rightarrow> xregister \<Rightarrow> machine_core" where
  "run_fmv_x_w core rs1 rd =
     (let rval = fregister_read core rs1; rval = (scast (ucast rval :: u32) :: u64)
      in xregister_write core rd rval)"

definition run_fmv_w_x :: "machine_core \<Rightarrow> xregister \<Rightarrow> fregister \<Rightarrow> machine_core" where
  "run_fmv_w_x core rs1 rd =
     (let rval = (ucast (xregister_read core rs1) :: u32) in fregister_write core rd (f32_to_fvalue rval))"

definition run_fmv_x_d :: "machine_core \<Rightarrow> fregister \<Rightarrow> xregister \<Rightarrow> machine_core" where
  "run_fmv_x_d core rs1 rd = xregister_write core rd (fregister_read core rs1)"

definition run_fmv_d_x :: "machine_core \<Rightarrow> xregister \<Rightarrow> fregister \<Rightarrow> machine_core" where
  "run_fmv_d_x core rs1 rd = fregister_write core rd (xregister_read core rs1)"

section \<open>Control and status registers\<close>

definition update_csregisters :: "hart_state \<Rightarrow> csregisters \<Rightarrow> hart_state" where
  "update_csregisters h regs = h\<lparr>csregisters := regs\<rparr>"

definition update_xregisters :: "hart_state \<Rightarrow> xregister \<Rightarrow> xvalue \<Rightarrow> hart_state" where
  "update_xregisters h rd v = h\<lparr>xregisters := xregisters_write (xregisters h) rd v\<rparr>"

definition csr_replace :: "hart_state \<Rightarrow> csregister \<Rightarrow> xvalue \<Rightarrow> xregister \<Rightarrow> unit outcome \<times> hart_state" where
  "csr_replace h csr v rd =
     (if \<not> csr_check_write csr then (Err IllegalInstruction, h)
      else if is_zero rd
           then (Ok (), update_csregisters h (csr_write (csregisters h) csr v))
           else let (old, regs) = csr_replace_value (csregisters h) csr v;
                    h = update_csregisters h regs
                in (Ok (), update_xregisters h rd old))"

definition run_csrrw :: "hart_state \<Rightarrow> csregister \<Rightarrow> xregister \<Rightarrow> xregister \<Rightarrow> unit outcome \<times> hart_state" where
  "run_csrrw h csr rs1 rd =
     (let v = xregisters_read (xregisters h) rs1 in csr_replace h csr v rd)"

definition run_csrrwi :: "hart_state \<Rightarrow> csregister \<Rightarrow> xvalue \<Rightarrow> xregister \<Rightarrow> unit outcome \<times> hart_state" where
  "run_csrrwi h csr imm rd = csr_replace h csr (imm AND 0b11111) rd"

definition run_csrrs :: "hart_state \<Rightarrow> csregister \<Rightarrow> xregister \<Rightarrow> xregister \<Rightarrow> unit outcome \<times> hart_state" where
  "run_csrrs h csr rs1 rd =
     (if is_zero rs1
      then let old = csr_read (csregisters h) csr in (Ok (), update_xregisters h rd old)
      else if \<not> csr_check_write csr then (Err IllegalInstruction, h)
      else let v = xregisters_read (xregisters h) rs1;
               (old, regs) = csr_set_bits (csregisters h) csr v
           in (Ok (), update_xregisters (update_csregisters h regs) rd old))"

definition run_csrrsi :: "hart_state \<Rightarrow> csregister \<Rightarrow> xvalue \<Rightarrow> xregister \<Rightarrow> unit outcome \<times> hart_state" where
  "run_csrrsi h csr imm rd =
     (let imm = imm AND 0b11111
      in if imm = 0
         then let old = csr_read (csregisters h) csr in (Ok (), update_xregisters h rd old)
         else if \<not> csr_check_write csr then (Err IllegalInstruction, h)
         else let (old, regs) = csr_set_bits (csregisters h) csr imm
              in (Ok (), update_xregisters (update_csregisters h regs) rd old))"

definition run_csrrc :: "hart_state \<Rightarrow> csregister \<Rightarrow> xregister \<Rightarrow> xregister \<Rightarrow> unit outcome \<times> hart_state" where
  "run_csrrc h csr rs1 rd =
     (if is_zero rs1
      then let old = csr_read (csregisters h) csr in (Ok (), update_xregisters h rd old)
      else if \<not> csr_check_write csr then (Err IllegalInstruction, h)
      else let v = xregisters_read (xregisters h) rs1;
               (old, regs) = csr_clear_bits (csregisters h) csr v
           in (Ok (), update_xregisters (update_csregisters h regs) rd old))"

definition run_csrrci :: "hart_state \<Rightarrow> csregister \<Rightarrow> xvalue \<Rightarrow> xregister \<Rightarrow> unit outcome \<times> hart_state" where
  "run_csrrci h csr imm rd =
     (let imm = imm AND 0b11111
      in if imm = 0
         then let old = csr_read (csregisters h) csr in (Ok (), update_xregisters h rd old)
         else if \<not> csr_check_write csr then (Err IllegalInstruction, h)
         else let (old, regs) = csr_clear_bits (csregisters h) csr imm
              in (Ok (), update_xregisters (update_csregisters h regs) rd old))"

end
