(* ===== verification/Instruction.thy ===== *)
theory Instruction
  imports Interpreter
begin

unbundle bit_operations_syntax

text \<open>
  Model of \<^verbatim>\<open>src/riscv/lib/src/machine_state/instruction.rs\<close>: the decoded form of an instruction,
  an opcode with flat arguments, and the dispatch of an opcode to the function that runs it.
  \<^verbatim>\<open>OpCode\<close> is grouped by the macro that implements its variants (\<^verbatim>\<open>impl_r_type\<close> and so on); the
  variants carry the prefix \<open>OP_\<close>. \<^verbatim>\<open>Register\<close> is a union of three enumerations over one byte: it
  is modelled as that byte, and reading a variant of the union is a lookup of the byte among
  the discriminants of the enumeration, \<open>None\<close> if it is not one, where Rust has undefined
  behaviour. The float operations that compute with \<^verbatim>\<open>rustc_apfloat\<close>, a third-party crate, are a
  parameter \<open>apf\<close> of the dispatch.
\<close>

section \<open>Opcodes\<close>

datatype op_r_nz =
    OP_Add | OP_Sub | OP_X64Xor | OP_Or | OP_And | OP_ShiftLeft | OP_ShiftRightUnsigned
    | OP_ShiftRightSigned | OP_Mul | OP_X64MulHighSigned | OP_X64MulHighSignedUnsigned
    | OP_X64MulHighUnsigned

datatype op_r_nz_rd =
    OP_SetLessThanSigned | OP_SetLessThanUnsigned | OP_AddWord | OP_SubWord
    | OP_X32ShiftLeft | OP_X32ShiftRightSigned | OP_X32ShiftRightUnsigned
    | OP_X64RemSigned | OP_X64RemUnsigned | OP_X32RemSigned | OP_X32RemUnsigned
    | OP_X64DivSigned | OP_X64DivUnsigned | OP_X32DivSigned | OP_X32DivUnsigned
    | OP_X32Mul

datatype op_i_nz =
    OP_Addi | OP_X64XorImm | OP_X64OrImm | OP_Andi | OP_ShiftLeftImmediate
    | OP_ShiftRightImmediateUnsigned | OP_ShiftRightImmediateSigned | OP_X32ShiftLeftImm
    | OP_X32ShiftRightImmSigned | OP_X32ShiftRightImmUnsigned

datatype op_i_nz_rd =
    OP_AddWordImmediate | OP_SetLessThanImmediateSigned | OP_SetLessThanImmediateUnsigned

datatype op_load =
    OP_X8LoadSigned | OP_X16LoadSigned | OP_X32LoadSigned | OP_X8LoadUnsigned
    | OP_X16LoadUnsigned | OP_X32LoadUnsigned | OP_X64LoadSigned

datatype op_store =
    OP_X8Store | OP_X16Store | OP_X32Store | OP_X64Store

datatype op_branch =
    OP_BranchEqual | OP_BranchNotEqual | OP_BranchLessThanSigned
    | OP_BranchGreaterThanOrEqualSigned | OP_BranchLessThanUnsigned
    | OP_BranchGreaterThanOrEqualUnsigned

datatype op_branch_zero =
    OP_BranchEqualZero | OP_BranchNotEqualZero | OP_BranchLessThanZero
    | OP_BranchGreaterThanOrEqualZero | OP_BranchLessThanOrEqualZero
    | OP_BranchGreaterThanZero

datatype op_amo =
    OP_X32AtomicLoad | OP_X32AtomicStore | OP_X32AtomicSwap | OP_Amoaddw | OP_Amoxorw
    | OP_Amoandw | OP_Amoorw | OP_Amominw | OP_Amomaxw | OP_Amominuw | OP_Amomaxuw
    | OP_X64AtomicLoad | OP_X64AtomicStore | OP_X64AtomicSwap | OP_X64AtomicAdd
    | OP_Amoxord | OP_Amoandd | OP_Amoord | OP_X64AtomicMinSigned | OP_Amomaxd
    | OP_Amominud | OP_Amomaxud

datatype op_csr =
    OP_Csrrw | OP_Csrrs | OP_Csrrc

datatype op_csr_imm =
    OP_Csrrwi | OP_Csrrsi | OP_Csrrci

datatype op_cr_nz =
    OP_Mv | OP_Neg

datatype op_jump =
    OP_J | OP_JAbsolute | OP_Jr | OP_JrImm | OP_Jal | OP_Jalr | OP_JalrImm
    | OP_JalrAbsolute

text \<open>
  The float opcodes carry the name of the parsed instruction; they are grouped by the shape of
  the arguments as the parsed instructions are.
\<close>

datatype op_float =
    OP_f_to_x f_to_x_op | OP_x_to_f x_to_f_op | OP_f_cmp f_cmp_op | OP_f_r2_rm f_r2_rm_op
  | OP_f_r1_rm f_r1_rm_op | OP_f_r f_r_op | OP_f_r3_rm f_r3_rm_op | OP_f_load f_load_op
  | OP_f_store f_store_op | OP_x_to_f_rm x_to_f_rm_op | OP_f_to_x_rm f_to_x_rm_op
  | OP_CFldsp | OP_CFsdsp

datatype opcode =
    RTypeNonZero op_r_nz
  | RTypeNonZeroRd op_r_nz_rd
  | ITypeNonZero op_i_nz
  | ITypeNonZeroRd op_i_nz_rd
  | LoadType op_load
  | StoreType op_store
  | BranchType op_branch
  | BranchCompareZero op_branch_zero
  | AmoType op_amo
  | CsrType op_csr
  | CsrImmType op_csr_imm
  | CRNonZeroType op_cr_nz
  | JumpType op_jump
  | OP_Li
  | OP_AddImmediateToPC
  | OP_Nop
  | OP_ECall
  | OP_Unknown
  | FloatType op_float

section \<open>Arguments\<close>

type_synonym register = u8

definition register_x :: "xregister \<Rightarrow> register" where
  "register_x r = xregister_repr r"

definition register_f :: "fregister \<Rightarrow> register" where
  "register_f r = fregister_repr r"

definition register_nzx :: "nz_xregister \<Rightarrow> register" where
  "register_nzx r = nz_xregister_repr r"

definition REGISTER_DEFAULT :: register where
  "REGISTER_DEFAULT = register_nzx nz_x1"

record instr_args =
  arg_rd :: register
  arg_rs1 :: register
  arg_rs2 :: register
  arg_imm :: u64
  arg_csr :: csregister
  arg_rs3f :: fregister
  arg_rm :: instr_rounding_mode
  arg_aq :: bool
  arg_rl :: bool
  arg_width :: instr_width

definition ARGS_DEFAULT :: instr_args where
  "ARGS_DEFAULT =
     \<lparr>arg_rd = REGISTER_DEFAULT, arg_rs1 = REGISTER_DEFAULT, arg_rs2 = REGISTER_DEFAULT, arg_imm = 0,
      arg_csr = csr_fflags, arg_rs3f = f0, arg_rm = Dynamic, arg_aq = False, arg_rl = False,
      arg_width = Uncompressed\<rparr>"

record instruction =
  opcode :: opcode
  args :: instr_args

definition instruction_width :: "instruction \<Rightarrow> instr_width" where
  "instruction_width i = arg_width (args i)"

section \<open>Shapes of opcode functions\<close>

type_synonym run_result = "pc_update outcome \<times> machine_core"

definition impl_r_type_non_zero ::
    "(machine_core \<Rightarrow> nz_xregister \<Rightarrow> nz_xregister \<Rightarrow> nz_xregister \<Rightarrow> machine_core) \<Rightarrow>
     instr_args \<Rightarrow> machine_core \<Rightarrow> run_result" where
  "impl_r_type_non_zero f a core =
     (case (transmute_nz_xregister (arg_rs1 a), transmute_nz_xregister (arg_rs2 a),
            transmute_nz_xregister (arg_rd a)) of
        (Some rs1, Some rs2, Some rd) \<Rightarrow> (Ok (Next (arg_width a)), f core rs1 rs2 rd)
      | _ \<Rightarrow> (Stuck, core))"

definition impl_r_type_non_zero_rd ::
    "(machine_core \<Rightarrow> xregister \<Rightarrow> xregister \<Rightarrow> nz_xregister \<Rightarrow> machine_core option) \<Rightarrow>
     instr_args \<Rightarrow> machine_core \<Rightarrow> run_result" where
  "impl_r_type_non_zero_rd f a core =
     (case (transmute_xregister (arg_rs1 a), transmute_xregister (arg_rs2 a),
            transmute_nz_xregister (arg_rd a)) of
        (Some rs1, Some rs2, Some rd) \<Rightarrow>
          (case f core rs1 rs2 rd of
             Some core' \<Rightarrow> (Ok (Next (arg_width a)), core')
           | None \<Rightarrow> (Stuck, core))
      | _ \<Rightarrow> (Stuck, core))"

definition impl_i_type_non_zero ::
    "(machine_core \<Rightarrow> u64 \<Rightarrow> nz_xregister \<Rightarrow> nz_xregister \<Rightarrow> machine_core) \<Rightarrow>
     instr_args \<Rightarrow> machine_core \<Rightarrow> run_result" where
  "impl_i_type_non_zero f a core =
     (case (transmute_nz_xregister (arg_rs1 a), transmute_nz_xregister (arg_rd a)) of
        (Some rs1, Some rd) \<Rightarrow> (Ok (Next (arg_width a)), f core (arg_imm a) rs1 rd)
      | _ \<Rightarrow> (Stuck, core))"

definition impl_i_type_non_zero_rd ::
    "(machine_core \<Rightarrow> u64 \<Rightarrow> xregister \<Rightarrow> nz_xregister \<Rightarrow> machine_core) \<Rightarrow>
     instr_args \<Rightarrow> machine_core \<Rightarrow> run_result" where
  "impl_i_type_non_zero_rd f a core =
     (case (transmute_xregister (arg_rs1 a), transmute_nz_xregister (arg_rd a)) of
        (Some rs1, Some rd) \<Rightarrow> (Ok (Next (arg_width a)), f core (arg_imm a) rs1 rd)
      | _ \<Rightarrow> (Stuck, core))"

definition impl_load_type ::
    "(machine_core \<Rightarrow> u64 \<Rightarrow> xregister \<Rightarrow> xregister \<Rightarrow> unit outcome \<times> machine_core) \<Rightarrow>
     instr_args \<Rightarrow> machine_core \<Rightarrow> run_result" where
  "impl_load_type f a core =
     (case (transmute_xregister (arg_rs1 a), transmute_xregister (arg_rd a)) of
        (Some rs1, Some rd) \<Rightarrow> icb_map (f core (arg_imm a) rs1 rd) (\<lambda>_. Next (arg_width a))
      | _ \<Rightarrow> (Stuck, core))"

definition impl_store_type ::
    "(machine_core \<Rightarrow> u64 \<Rightarrow> xregister \<Rightarrow> xregister \<Rightarrow> unit outcome \<times> machine_core) \<Rightarrow>
     instr_args \<Rightarrow> machine_core \<Rightarrow> run_result" where
  "impl_store_type f a core =
     (case (transmute_xregister (arg_rs1 a), transmute_xregister (arg_rs2 a)) of
        (Some rs1, Some rs2) \<Rightarrow> icb_map (f core (arg_imm a) rs1 rs2) (\<lambda>_. Next (arg_width a))
      | _ \<Rightarrow> (Stuck, core))"

definition impl_branch :: "predicate \<Rightarrow> instr_args \<Rightarrow> machine_core \<Rightarrow> run_result" where
  "impl_branch predicate a core =
     (case (transmute_nz_xregister (arg_rs1 a), transmute_nz_xregister (arg_rs2 a)) of
        (Some rs1, Some rs2) \<Rightarrow> (Ok (run_branch core predicate (arg_imm a) rs1 rs2 (arg_width a)), core)
      | _ \<Rightarrow> (Stuck, core))"

definition impl_branch_compare_zero :: "predicate \<Rightarrow> instr_args \<Rightarrow> machine_core \<Rightarrow> run_result" where
  "impl_branch_compare_zero predicate a core =
     (case transmute_nz_xregister (arg_rs1 a) of
        Some rs1 \<Rightarrow> (Ok (run_branch_compare_zero core predicate (arg_imm a) rs1 (arg_width a)), core)
      | None \<Rightarrow> (Stuck, core))"

definition impl_amo_type ::
    "(machine_core \<Rightarrow> xregister \<Rightarrow> xregister \<Rightarrow> xregister \<Rightarrow> unit outcome \<times> machine_core) \<Rightarrow>
     instr_args \<Rightarrow> machine_core \<Rightarrow> run_result" where
  "impl_amo_type f a core =
     (case (transmute_xregister (arg_rs1 a), transmute_xregister (arg_rs2 a),
            transmute_xregister (arg_rd a)) of
        (Some rs1, Some rs2, Some rd) \<Rightarrow> icb_map (f core rs1 rs2 rd) (\<lambda>_. Next (arg_width a))
      | _ \<Rightarrow> (Stuck, core))"

definition impl_cr_nz_type ::
    "(machine_core \<Rightarrow> nz_xregister \<Rightarrow> nz_xregister \<Rightarrow> machine_core) \<Rightarrow> instr_args \<Rightarrow> machine_core \<Rightarrow> run_result" where
  "impl_cr_nz_type f a core =
     (case (transmute_nz_xregister (arg_rd a), transmute_nz_xregister (arg_rs2 a)) of
        (Some rd, Some rs2) \<Rightarrow> (Ok (Next (arg_width a)), f core rd rs2)
      | _ \<Rightarrow> (Stuck, core))"

definition impl_ci_type ::
    "(machine_core \<Rightarrow> u64 \<Rightarrow> nz_xregister \<Rightarrow> machine_core) \<Rightarrow> instr_args \<Rightarrow> machine_core \<Rightarrow> run_result" where
  "impl_ci_type f a core =
     (case transmute_nz_xregister (arg_rd a) of
        Some rd \<Rightarrow> (Ok (Next (arg_width a)), f core (arg_imm a) rd)
      | None \<Rightarrow> (Stuck, core))"

text \<open>Lifting of an operation on the hart to the machine core.\<close>

definition on_hart :: "'a outcome \<times> hart_state \<Rightarrow> machine_core \<Rightarrow> 'a outcome \<times> machine_core" where
  "on_hart r core = (case r of (res, h) \<Rightarrow> (res, core\<lparr>hart := h\<rparr>))"

definition impl_csr_type ::
    "(hart_state \<Rightarrow> csregister \<Rightarrow> xregister \<Rightarrow> xregister \<Rightarrow> unit outcome \<times> hart_state) \<Rightarrow>
     instr_args \<Rightarrow> machine_core \<Rightarrow> run_result" where
  "impl_csr_type f a core =
     (case (transmute_xregister (arg_rs1 a), transmute_xregister (arg_rd a)) of
        (Some rs1, Some rd) \<Rightarrow>
          icb_map (on_hart (f (hart core) (arg_csr a) rs1 rd) core) (\<lambda>_. Next (arg_width a))
      | _ \<Rightarrow> (Stuck, core))"

definition impl_csr_imm_type ::
    "(hart_state \<Rightarrow> csregister \<Rightarrow> xvalue \<Rightarrow> xregister \<Rightarrow> unit outcome \<times> hart_state) \<Rightarrow>
     instr_args \<Rightarrow> machine_core \<Rightarrow> run_result" where
  "impl_csr_imm_type f a core =
     (case transmute_xregister (arg_rd a) of
        Some rd \<Rightarrow>
          icb_map (on_hart (f (hart core) (arg_csr a) (arg_imm a) rd) core) (\<lambda>_. Next (arg_width a))
      | None \<Rightarrow> (Stuck, core))"

definition impl_fload_type ::
    "(machine_core \<Rightarrow> u64 \<Rightarrow> xregister \<Rightarrow> fregister \<Rightarrow> unit outcome \<times> machine_core) \<Rightarrow>
     instr_args \<Rightarrow> machine_core \<Rightarrow> run_result" where
  "impl_fload_type f a core =
     (case (transmute_xregister (arg_rs1 a), transmute_fregister (arg_rd a)) of
        (Some rs1, Some rd) \<Rightarrow> icb_map (f core (arg_imm a) rs1 rd) (\<lambda>_. Next (arg_width a))
      | _ \<Rightarrow> (Stuck, core))"

definition impl_fstore_type ::
    "(machine_core \<Rightarrow> u64 \<Rightarrow> xregister \<Rightarrow> fregister \<Rightarrow> unit outcome \<times> machine_core) \<Rightarrow>
     instr_args \<Rightarrow> machine_core \<Rightarrow> run_result" where
  "impl_fstore_type f a core =
     (case (transmute_xregister (arg_rs1 a), transmute_fregister (arg_rs2 a)) of
        (Some rs1, Some rs2) \<Rightarrow> icb_map (f core (arg_imm a) rs1 rs2) (\<lambda>_. Next (arg_width a))
      | _ \<Rightarrow> (Stuck, core))"

definition impl_cfload_sp_type ::
    "(machine_core \<Rightarrow> u64 \<Rightarrow> fregister \<Rightarrow> unit outcome \<times> machine_core) \<Rightarrow> instr_args \<Rightarrow> machine_core \<Rightarrow> run_result" where
  "impl_cfload_sp_type f a core =
     (case transmute_fregister (arg_rd a) of
        Some rd \<Rightarrow> icb_map (f core (arg_imm a) rd) (\<lambda>_. Next (arg_width a))
      | None \<Rightarrow> (Stuck, core))"

definition impl_fcss_type ::
    "(machine_core \<Rightarrow> u64 \<Rightarrow> fregister \<Rightarrow> unit outcome \<times> machine_core) \<Rightarrow> instr_args \<Rightarrow> machine_core \<Rightarrow> run_result" where
  "impl_fcss_type f a core =
     (case transmute_fregister (arg_rs2 a) of
        Some rs2 \<Rightarrow> icb_map (f core (arg_imm a) rs2) (\<lambda>_. Next (arg_width a))
      | None \<Rightarrow> (Stuck, core))"

definition impl_f_x_type ::
    "(machine_core \<Rightarrow> xregister \<Rightarrow> fregister \<Rightarrow> machine_core) \<Rightarrow> instr_args \<Rightarrow> machine_core \<Rightarrow> run_result" where
  "impl_f_x_type f a core =
     (case (transmute_xregister (arg_rs1 a), transmute_fregister (arg_rd a)) of
        (Some rs1, Some rd) \<Rightarrow> (Ok (Next (arg_width a)), f core rs1 rd)
      | _ \<Rightarrow> (Stuck, core))"

definition impl_x_f_type ::
    "(machine_core \<Rightarrow> fregister \<Rightarrow> xregister \<Rightarrow> machine_core) \<Rightarrow> instr_args \<Rightarrow> machine_core \<Rightarrow> run_result" where
  "impl_x_f_type f a core =
     (case (transmute_fregister (arg_rs1 a), transmute_xregister (arg_rd a)) of
        (Some rs1, Some rd) \<Rightarrow> (Ok (Next (arg_width a)), f core rs1 rd)
      | _ \<Rightarrow> (Stuck, core))"

section \<open>Dispatch\<close>

primrec run_op_r_nz :: "op_r_nz \<Rightarrow> machine_core \<Rightarrow> nz_xregister \<Rightarrow> nz_xregister \<Rightarrow> nz_xregister \<Rightarrow> machine_core" where
  "run_op_r_nz OP_Add = run_add"
| "run_op_r_nz OP_Sub = run_sub"
| "run_op_r_nz OP_X64Xor = run_x64_xor"
| "run_op_r_nz OP_Or = run_or"
| "run_op_r_nz OP_And = run_and"
| "run_op_r_nz OP_ShiftLeft = (\<lambda>core. run_shift core Left)"
| "run_op_r_nz OP_ShiftRightUnsigned = (\<lambda>core. run_shift core RightUnsigned)"
| "run_op_r_nz OP_ShiftRightSigned = (\<lambda>core. run_shift core RightSigned)"
| "run_op_r_nz OP_Mul = run_mul"
| "run_op_r_nz OP_X64MulHighSigned = (\<lambda>core rs1 rs2 rd. run_x64_mul_high core rs1 rs2 rd Signed)"
| "run_op_r_nz OP_X64MulHighSignedUnsigned = (\<lambda>core rs1 rs2 rd. run_x64_mul_high core rs1 rs2 rd SignedUnsigned)"
| "run_op_r_nz OP_X64MulHighUnsigned = (\<lambda>core rs1 rs2 rd. run_x64_mul_high core rs1 rs2 rd Unsigned)"

text \<open>Wrapper for the operations that cannot panic.\<close>

definition total3 :: "(machine_core \<Rightarrow> xregister \<Rightarrow> xregister \<Rightarrow> nz_xregister \<Rightarrow> machine_core) \<Rightarrow>
    machine_core \<Rightarrow> xregister \<Rightarrow> xregister \<Rightarrow> nz_xregister \<Rightarrow> machine_core option" where
  "total3 f core rs1 rs2 rd = Some (f core rs1 rs2 rd)"

primrec run_op_r_nz_rd :: "op_r_nz_rd \<Rightarrow> machine_core \<Rightarrow> xregister \<Rightarrow> xregister \<Rightarrow> nz_xregister \<Rightarrow> machine_core option" where
  "run_op_r_nz_rd OP_SetLessThanSigned = total3 run_set_less_than_signed"
| "run_op_r_nz_rd OP_SetLessThanUnsigned = total3 run_set_less_than_unsigned"
| "run_op_r_nz_rd OP_AddWord = total3 run_add_word"
| "run_op_r_nz_rd OP_SubWord = total3 run_sub_word"
| "run_op_r_nz_rd OP_X32ShiftLeft = total3 (\<lambda>core. run_x32_shift core Left)"
| "run_op_r_nz_rd OP_X32ShiftRightSigned = total3 (\<lambda>core. run_x32_shift core RightSigned)"
| "run_op_r_nz_rd OP_X32ShiftRightUnsigned = total3 (\<lambda>core. run_x32_shift core RightUnsigned)"
| "run_op_r_nz_rd OP_X64RemSigned = run_x64_rem_signed"
| "run_op_r_nz_rd OP_X64RemUnsigned = run_x64_rem_unsigned"
| "run_op_r_nz_rd OP_X32RemSigned = run_x32_rem_signed"
| "run_op_r_nz_rd OP_X32RemUnsigned = run_x32_rem_unsigned"
| "run_op_r_nz_rd OP_X64DivSigned = run_x64_div_signed"
| "run_op_r_nz_rd OP_X64DivUnsigned = run_x64_div_unsigned"
| "run_op_r_nz_rd OP_X32DivSigned = run_x32_div_signed"
| "run_op_r_nz_rd OP_X32DivUnsigned = run_x32_div_unsigned"
| "run_op_r_nz_rd OP_X32Mul = total3 run_x32_mul"

primrec run_op_i_nz :: "op_i_nz \<Rightarrow> machine_core \<Rightarrow> u64 \<Rightarrow> nz_xregister \<Rightarrow> nz_xregister \<Rightarrow> machine_core" where
  "run_op_i_nz OP_Addi = run_addi"
| "run_op_i_nz OP_X64XorImm = run_x64_xor_immediate"
| "run_op_i_nz OP_X64OrImm = run_x64_or_immediate"
| "run_op_i_nz OP_Andi = run_andi"
| "run_op_i_nz OP_ShiftLeftImmediate = (\<lambda>core. run_shift_immediate core Left)"
| "run_op_i_nz OP_ShiftRightImmediateUnsigned = (\<lambda>core. run_shift_immediate core RightUnsigned)"
| "run_op_i_nz OP_ShiftRightImmediateSigned = (\<lambda>core. run_shift_immediate core RightSigned)"
| "run_op_i_nz OP_X32ShiftLeftImm = (\<lambda>core imm rs1 rd. run_x32_shift_immediate core Left rs1 imm rd)"
| "run_op_i_nz OP_X32ShiftRightImmSigned = (\<lambda>core imm rs1 rd. run_x32_shift_immediate core RightSigned rs1 imm rd)"
| "run_op_i_nz OP_X32ShiftRightImmUnsigned = (\<lambda>core imm rs1 rd. run_x32_shift_immediate core RightUnsigned rs1 imm rd)"

primrec run_op_i_nz_rd :: "op_i_nz_rd \<Rightarrow> machine_core \<Rightarrow> u64 \<Rightarrow> xregister \<Rightarrow> nz_xregister \<Rightarrow> machine_core" where
  "run_op_i_nz_rd OP_AddWordImmediate = run_add_word_immediate"
| "run_op_i_nz_rd OP_SetLessThanImmediateSigned = run_set_less_than_immediate_signed"
| "run_op_i_nz_rd OP_SetLessThanImmediateUnsigned = run_set_less_than_immediate_unsigned"

primrec run_op_load :: "op_load \<Rightarrow> machine_core \<Rightarrow> u64 \<Rightarrow> xregister \<Rightarrow> xregister \<Rightarrow> unit outcome \<times> machine_core" where
  "run_op_load OP_X8LoadSigned = run_load (scast :: u8 \<Rightarrow> u64)"
| "run_op_load OP_X16LoadSigned = run_load (scast :: u16 \<Rightarrow> u64)"
| "run_op_load OP_X32LoadSigned = run_load (scast :: u32 \<Rightarrow> u64)"
| "run_op_load OP_X8LoadUnsigned = run_load (ucast :: u8 \<Rightarrow> u64)"
| "run_op_load OP_X16LoadUnsigned = run_load (ucast :: u16 \<Rightarrow> u64)"
| "run_op_load OP_X32LoadUnsigned = run_load (ucast :: u32 \<Rightarrow> u64)"
| "run_op_load OP_X64LoadSigned = run_load (scast :: u64 \<Rightarrow> u64)"

primrec run_op_store :: "op_store \<Rightarrow> machine_core \<Rightarrow> u64 \<Rightarrow> xregister \<Rightarrow> xregister \<Rightarrow> unit outcome \<times> machine_core" where
  "run_op_store OP_X8Store = run_store TYPE(8)"
| "run_op_store OP_X16Store = run_store TYPE(16)"
| "run_op_store OP_X32Store = run_store TYPE(32)"
| "run_op_store OP_X64Store = run_store TYPE(64)"

primrec op_branch_predicate :: "op_branch \<Rightarrow> predicate" where
  "op_branch_predicate OP_BranchEqual = Equal"
| "op_branch_predicate OP_BranchNotEqual = NotEqual"
| "op_branch_predicate OP_BranchLessThanSigned = LessThanSigned"
| "op_branch_predicate OP_BranchGreaterThanOrEqualSigned = GreaterThanOrEqualSigned"
| "op_branch_predicate OP_BranchLessThanUnsigned = LessThanUnsigned"
| "op_branch_predicate OP_BranchGreaterThanOrEqualUnsigned = GreaterThanOrEqualUnsigned"

primrec op_branch_zero_predicate :: "op_branch_zero \<Rightarrow> predicate" where
  "op_branch_zero_predicate OP_BranchEqualZero = Equal"
| "op_branch_zero_predicate OP_BranchNotEqualZero = NotEqual"
| "op_branch_zero_predicate OP_BranchLessThanZero = LessThanSigned"
| "op_branch_zero_predicate OP_BranchGreaterThanOrEqualZero = GreaterThanOrEqualSigned"
| "op_branch_zero_predicate OP_BranchLessThanOrEqualZero = LessThanOrEqualSigned"
| "op_branch_zero_predicate OP_BranchGreaterThanZero = GreaterThanSigned"

text \<open>The functions of \<^verbatim>\<open>rv32a.rs\<close> and \<^verbatim>\<open>rv64a.rs\<close> are \<^verbatim>\<open>run_amo_w\<close> and \<^verbatim>\<open>run_amo_d\<close> at an operation.\<close>

primrec run_op_amo :: "op_amo \<Rightarrow> machine_core \<Rightarrow> xregister \<Rightarrow> xregister \<Rightarrow> xregister \<Rightarrow> unit outcome \<times> machine_core" where
  "run_op_amo OP_X32AtomicLoad = (\<lambda>core rs1 rs2 rd. run_atomic_load (scast :: u32 \<Rightarrow> u64) core rs1 rd)"
| "run_op_amo OP_X32AtomicStore = run_atomic_store TYPE(32)"
| "run_op_amo OP_X32AtomicSwap = run_atomic_swap (scast :: u32 \<Rightarrow> u64)"
| "run_op_amo OP_Amoaddw = (\<lambda>core rs1 rs2 rd. run_amo_w core rs1 rs2 rd (+))"
| "run_op_amo OP_Amoxorw = (\<lambda>core rs1 rs2 rd. run_amo_w core rs1 rs2 rd (\<lambda>x y. x XOR y))"
| "run_op_amo OP_Amoandw = (\<lambda>core rs1 rs2 rd. run_amo_w core rs1 rs2 rd (\<lambda>x y. x AND y))"
| "run_op_amo OP_Amoorw = (\<lambda>core rs1 rs2 rd. run_amo_w core rs1 rs2 rd (\<lambda>x y. x OR y))"
| "run_op_amo OP_Amominw = (\<lambda>core rs1 rs2 rd. run_amo_w core rs1 rs2 rd min_signed)"
| "run_op_amo OP_Amomaxw = (\<lambda>core rs1 rs2 rd. run_amo_w core rs1 rs2 rd max_signed)"
| "run_op_amo OP_Amominuw = (\<lambda>core rs1 rs2 rd. run_amo_w core rs1 rs2 rd min)"
| "run_op_amo OP_Amomaxuw = (\<lambda>core rs1 rs2 rd. run_amo_w core rs1 rs2 rd max)"
| "run_op_amo OP_X64AtomicLoad = (\<lambda>core rs1 rs2 rd. run_atomic_load (scast :: u64 \<Rightarrow> u64) core rs1 rd)"
| "run_op_amo OP_X64AtomicStore = run_atomic_store TYPE(64)"
| "run_op_amo OP_X64AtomicSwap = run_atomic_swap (scast :: u64 \<Rightarrow> u64)"
| "run_op_amo OP_X64AtomicAdd = run_x64_atomic_add"
| "run_op_amo OP_Amoxord = (\<lambda>core rs1 rs2 rd. run_amo_d core rs1 rs2 rd (\<lambda>x y. x XOR y))"
| "run_op_amo OP_Amoandd = (\<lambda>core rs1 rs2 rd. run_amo_d core rs1 rs2 rd (\<lambda>x y. x AND y))"
| "run_op_amo OP_Amoord = (\<lambda>core rs1 rs2 rd. run_amo_d core rs1 rs2 rd (\<lambda>x y. x OR y))"
| "run_op_amo OP_X64AtomicMinSigned = run_x64_atomic_min_signed"
| "run_op_amo OP_Amomaxd = (\<lambda>core rs1 rs2 rd. run_amo_d core rs1 rs2 rd max_signed)"
| "run_op_amo OP_Amominud = (\<lambda>core rs1 rs2 rd. run_amo_d core rs1 rs2 rd min)"
| "run_op_amo OP_Amomaxud = (\<lambda>core rs1 rs2 rd. run_amo_d core rs1 rs2 rd max)"

primrec run_op_csr :: "op_csr \<Rightarrow> hart_state \<Rightarrow> csregister \<Rightarrow> xregister \<Rightarrow> xregister \<Rightarrow> unit outcome \<times> hart_state" where
  "run_op_csr OP_Csrrw = run_csrrw"
| "run_op_csr OP_Csrrs = run_csrrs"
| "run_op_csr OP_Csrrc = run_csrrc"

primrec run_op_csr_imm :: "op_csr_imm \<Rightarrow> hart_state \<Rightarrow> csregister \<Rightarrow> xvalue \<Rightarrow> xregister \<Rightarrow> unit outcome \<times> hart_state" where
  "run_op_csr_imm OP_Csrrwi = run_csrrwi"
| "run_op_csr_imm OP_Csrrsi = run_csrrsi"
| "run_op_csr_imm OP_Csrrci = run_csrrci"

primrec run_op_cr_nz :: "op_cr_nz \<Rightarrow> machine_core \<Rightarrow> nz_xregister \<Rightarrow> nz_xregister \<Rightarrow> machine_core" where
  "run_op_cr_nz OP_Mv = run_mv"
| "run_op_cr_nz OP_Neg = run_neg"

text \<open>\<^verbatim>\<open>Args::run_j\<close> to \<^verbatim>\<open>Args::run_jalr_absolute\<close>.\<close>

definition jump_to :: "xvalue \<times> machine_core \<Rightarrow> run_result" where
  "jump_to r = (case r of (addr, core) \<Rightarrow> (Ok (Set addr), core))"

definition run_op_jump :: "op_jump \<Rightarrow> instr_args \<Rightarrow> machine_core \<Rightarrow> run_result" where
  "run_op_jump op a core =
     (case op of
        OP_J \<Rightarrow> jump_to (run_j core (arg_imm a), core)
      | OP_JAbsolute \<Rightarrow> jump_to (run_j_absolute core (arg_imm a), core)
      | OP_Jr \<Rightarrow>
          (case transmute_nz_xregister (arg_rs1 a) of
             Some rs1 \<Rightarrow> jump_to (run_jr core rs1, core)
           | None \<Rightarrow> (Stuck, core))
      | OP_JrImm \<Rightarrow>
          (case transmute_nz_xregister (arg_rs1 a) of
             Some rs1 \<Rightarrow> jump_to (run_jr_imm core (arg_imm a) rs1, core)
           | None \<Rightarrow> (Stuck, core))
      | OP_Jal \<Rightarrow>
          (case transmute_nz_xregister (arg_rd a) of
             Some rd \<Rightarrow> jump_to (run_jal core (arg_imm a) rd (arg_width a))
           | None \<Rightarrow> (Stuck, core))
      | OP_Jalr \<Rightarrow>
          (case (transmute_nz_xregister (arg_rd a), transmute_nz_xregister (arg_rs1 a)) of
             (Some rd, Some rs1) \<Rightarrow> jump_to (run_jalr core rd rs1 (arg_width a))
           | _ \<Rightarrow> (Stuck, core))
      | OP_JalrImm \<Rightarrow>
          (case (transmute_nz_xregister (arg_rs1 a), transmute_nz_xregister (arg_rd a)) of
             (Some rs1, Some rd) \<Rightarrow> jump_to (run_jalr_imm core (arg_imm a) rs1 rd (arg_width a))
           | _ \<Rightarrow> (Stuck, core))
      | OP_JalrAbsolute \<Rightarrow>
          (case transmute_nz_xregister (arg_rd a) of
             Some rd \<Rightarrow> jump_to (run_jalr_absolute core (arg_imm a) rd (arg_width a))
           | None \<Rightarrow> (Stuck, core)))"

type_synonym apfloat_ops = "op_float \<Rightarrow> instr_args \<Rightarrow> hart_state \<Rightarrow> unit outcome \<times> hart_state"

definition run_op_float :: "apfloat_ops \<Rightarrow> op_float \<Rightarrow> instr_args \<Rightarrow> machine_core \<Rightarrow> run_result" where
  "run_op_float apf op =
     (case op of
        OP_f_load Flw \<Rightarrow> impl_fload_type run_flw
      | OP_f_load Fld \<Rightarrow> impl_fload_type run_fld
      | OP_f_load CFld \<Rightarrow> impl_fload_type run_fld
      | OP_f_store Fsw \<Rightarrow> impl_fstore_type run_fsw
      | OP_f_store Fsd \<Rightarrow> impl_fstore_type run_fsd
      | OP_f_store CFsd \<Rightarrow> impl_fstore_type run_fsd
      | OP_CFldsp \<Rightarrow> impl_cfload_sp_type run_cfldsp
      | OP_CFsdsp \<Rightarrow> impl_fcss_type run_cfsdsp
      | OP_f_to_x FmvXW \<Rightarrow> impl_x_f_type run_fmv_x_w
      | OP_f_to_x FmvXD \<Rightarrow> impl_x_f_type run_fmv_x_d
      | OP_x_to_f FmvWX \<Rightarrow> impl_f_x_type run_fmv_w_x
      | OP_x_to_f FmvDX \<Rightarrow> impl_f_x_type run_fmv_d_x
      | _ \<Rightarrow> (\<lambda>a core. icb_map (on_hart (apf op a (hart core)) core) (\<lambda>_. Next (arg_width a))))"

definition to_run :: "apfloat_ops \<Rightarrow> opcode \<Rightarrow> instr_args \<Rightarrow> machine_core \<Rightarrow> run_result" where
  "to_run apf op =
     (case op of
        RTypeNonZero op \<Rightarrow> impl_r_type_non_zero (run_op_r_nz op)
      | RTypeNonZeroRd op \<Rightarrow> impl_r_type_non_zero_rd (run_op_r_nz_rd op)
      | ITypeNonZero op \<Rightarrow> impl_i_type_non_zero (run_op_i_nz op)
      | ITypeNonZeroRd op \<Rightarrow> impl_i_type_non_zero_rd (run_op_i_nz_rd op)
      | LoadType op \<Rightarrow> impl_load_type (run_op_load op)
      | StoreType op \<Rightarrow> impl_store_type (run_op_store op)
      | BranchType op \<Rightarrow> impl_branch (op_branch_predicate op)
      | BranchCompareZero op \<Rightarrow> impl_branch_compare_zero (op_branch_zero_predicate op)
      | AmoType op \<Rightarrow> impl_amo_type (run_op_amo op)
      | CsrType op \<Rightarrow> impl_csr_type (run_op_csr op)
      | CsrImmType op \<Rightarrow> impl_csr_imm_type (run_op_csr_imm op)
      | CRNonZeroType op \<Rightarrow> impl_cr_nz_type (run_op_cr_nz op)
      | JumpType op \<Rightarrow> run_op_jump op
      | OP_Li \<Rightarrow> impl_ci_type run_li
      | OP_AddImmediateToPC \<Rightarrow> impl_ci_type run_add_immediate_to_pc
      | OP_Nop \<Rightarrow> (\<lambda>a core. (Ok (Next (arg_width a)), run_nop core))
      | OP_ECall \<Rightarrow> (\<lambda>a core. (Err EnvCall, core))
      | OP_Unknown \<Rightarrow> (\<lambda>a core. (Err IllegalInstruction, core))
      | FloatType op \<Rightarrow> run_op_float apf op)"

definition run_instruction :: "apfloat_ops \<Rightarrow> instruction \<Rightarrow> machine_core \<Rightarrow> run_result" where
  "run_instruction apf i core = to_run apf (opcode i) (args i) core"

end
