(* ===== verification/Constructors.thy ===== *)
theory Constructors
  imports Instruction
begin

text \<open>
  Model of \<^verbatim>\<open>src/riscv/lib/src/machine_state/instruction/constructors.rs\<close> and of
  \<^verbatim>\<open>From<&InstrCacheable> for Instruction\<close> in \<^verbatim>\<open>machine_state/instruction.rs\<close>: the constructors
  \<^verbatim>\<open>new_*\<close> of decoded instructions, the functions \<^verbatim>\<open>from_ic_*\<close> that specialise a parsed instruction
  by which of its registers are \<^verbatim>\<open>x0\<close>, and the translation of every parsed instruction.
\<close>

section \<open>Constructors\<close>

definition new_add ::
    "nz_xregister \<Rightarrow> nz_xregister \<Rightarrow> nz_xregister \<Rightarrow> instr_width \<Rightarrow> instruction" where
  "new_add rd rs1 rs2 width =
     \<lparr>opcode = RTypeNonZero OP_Add,
      args = ARGS_DEFAULT\<lparr>arg_rd := register_nzx rd, arg_rs1 := register_nzx rs1,
                             arg_rs2 := register_nzx rs2, arg_width := width\<rparr>\<rparr>"

definition new_add_word ::
    "nz_xregister \<Rightarrow> xregister \<Rightarrow> xregister \<Rightarrow> instr_width \<Rightarrow> instruction" where
  "new_add_word rd rs1 rs2 width =
     \<lparr>opcode = RTypeNonZeroRd OP_AddWord,
      args = ARGS_DEFAULT\<lparr>arg_rd := register_nzx rd, arg_rs1 := register_x rs1,
                             arg_rs2 := register_x rs2, arg_width := width\<rparr>\<rparr>"

definition new_add_word_immediate ::
    "nz_xregister \<Rightarrow> xregister \<Rightarrow> u64 \<Rightarrow> instr_width \<Rightarrow> instruction" where
  "new_add_word_immediate rd rs1 imm width =
     \<lparr>opcode = ITypeNonZeroRd OP_AddWordImmediate,
      args = ARGS_DEFAULT\<lparr>arg_rd := register_nzx rd, arg_rs1 := register_x rs1, arg_imm := imm,
                             arg_width := width\<rparr>\<rparr>"

definition new_sub ::
    "nz_xregister \<Rightarrow> nz_xregister \<Rightarrow> nz_xregister \<Rightarrow> instr_width \<Rightarrow> instruction" where
  "new_sub rd rs1 rs2 width =
     \<lparr>opcode = RTypeNonZero OP_Sub,
      args = ARGS_DEFAULT\<lparr>arg_rd := register_nzx rd, arg_rs1 := register_nzx rs1,
                             arg_rs2 := register_nzx rs2, arg_width := width\<rparr>\<rparr>"

definition new_sub_word ::
    "nz_xregister \<Rightarrow> xregister \<Rightarrow> xregister \<Rightarrow> instr_width \<Rightarrow> instruction" where
  "new_sub_word rd rs1 rs2 width =
     \<lparr>opcode = RTypeNonZeroRd OP_SubWord,
      args = ARGS_DEFAULT\<lparr>arg_rd := register_nzx rd, arg_rs1 := register_x rs1,
                             arg_rs2 := register_x rs2, arg_width := width\<rparr>\<rparr>"

definition new_neg ::
    "nz_xregister \<Rightarrow> nz_xregister \<Rightarrow> instr_width \<Rightarrow> instruction" where
  "new_neg rd rs2 width =
     \<lparr>opcode = CRNonZeroType OP_Neg,
      args = ARGS_DEFAULT\<lparr>arg_rd := register_nzx rd, arg_rs2 := register_nzx rs2,
                             arg_width := width\<rparr>\<rparr>"

definition new_mv ::
    "nz_xregister \<Rightarrow> nz_xregister \<Rightarrow> instr_width \<Rightarrow> instruction" where
  "new_mv rd rs2 width =
     \<lparr>opcode = CRNonZeroType OP_Mv,
      args = ARGS_DEFAULT\<lparr>arg_rd := register_nzx rd, arg_rs2 := register_nzx rs2,
                             arg_width := width\<rparr>\<rparr>"

definition new_li ::
    "nz_xregister \<Rightarrow> u64 \<Rightarrow> instr_width \<Rightarrow> instruction" where
  "new_li rd imm width =
     \<lparr>opcode = OP_Li,
      args = ARGS_DEFAULT\<lparr>arg_rd := register_nzx rd, arg_imm := imm,
                             arg_width := width\<rparr>\<rparr>"

definition new_nop :: "instr_width \<Rightarrow> instruction" where
  "new_nop width =
     \<lparr>opcode = OP_Nop,
      args = ARGS_DEFAULT\<lparr>arg_width := width\<rparr>\<rparr>"

definition new_unknown :: "instr_width \<Rightarrow> instruction" where
  "new_unknown width =
     \<lparr>opcode = OP_Unknown,
      args = ARGS_DEFAULT\<lparr>arg_width := width\<rparr>\<rparr>"

definition new_addi ::
    "nz_xregister \<Rightarrow> nz_xregister \<Rightarrow> u64 \<Rightarrow> instr_width \<Rightarrow> instruction" where
  "new_addi rd rs1 imm width =
     \<lparr>opcode = ITypeNonZero OP_Addi,
      args = ARGS_DEFAULT\<lparr>arg_rd := register_nzx rd, arg_rs1 := register_nzx rs1,
                             arg_imm := imm, arg_width := width\<rparr>\<rparr>"

definition new_andi ::
    "nz_xregister \<Rightarrow> nz_xregister \<Rightarrow> u64 \<Rightarrow> instr_width \<Rightarrow> instruction" where
  "new_andi rd rs1 imm width =
     \<lparr>opcode = ITypeNonZero OP_Andi,
      args = ARGS_DEFAULT\<lparr>arg_rd := register_nzx rd, arg_rs1 := register_nzx rs1,
                             arg_imm := imm, arg_width := width\<rparr>\<rparr>"

definition new_x64_or_immediate ::
    "nz_xregister \<Rightarrow> nz_xregister \<Rightarrow> u64 \<Rightarrow> instr_width \<Rightarrow> instruction" where
  "new_x64_or_immediate rd rs1 imm width =
     \<lparr>opcode = ITypeNonZero OP_X64OrImm,
      args = ARGS_DEFAULT\<lparr>arg_rd := register_nzx rd, arg_rs1 := register_nzx rs1,
                             arg_imm := imm, arg_width := width\<rparr>\<rparr>"

definition new_x64_xor_immediate ::
    "nz_xregister \<Rightarrow> nz_xregister \<Rightarrow> u64 \<Rightarrow> instr_width \<Rightarrow> instruction" where
  "new_x64_xor_immediate rd rs1 imm width =
     \<lparr>opcode = ITypeNonZero OP_X64XorImm,
      args = ARGS_DEFAULT\<lparr>arg_rd := register_nzx rd, arg_rs1 := register_nzx rs1,
                             arg_imm := imm, arg_width := width\<rparr>\<rparr>"

definition new_shift_left_immediate ::
    "nz_xregister \<Rightarrow> nz_xregister \<Rightarrow> u64 \<Rightarrow> instr_width \<Rightarrow> instruction" where
  "new_shift_left_immediate rd rs1 imm width =
     \<lparr>opcode = ITypeNonZero OP_ShiftLeftImmediate,
      args = ARGS_DEFAULT\<lparr>arg_rd := register_nzx rd, arg_rs1 := register_nzx rs1,
                             arg_imm := imm, arg_width := width\<rparr>\<rparr>"

definition new_shift_right_immediate_unsigned ::
    "nz_xregister \<Rightarrow> nz_xregister \<Rightarrow> u64 \<Rightarrow> instr_width \<Rightarrow> instruction" where
  "new_shift_right_immediate_unsigned rd rs1 imm width =
     \<lparr>opcode = ITypeNonZero OP_ShiftRightImmediateUnsigned,
      args = ARGS_DEFAULT\<lparr>arg_rd := register_nzx rd, arg_rs1 := register_nzx rs1,
                             arg_imm := imm, arg_width := width\<rparr>\<rparr>"

definition new_shift_right_immediate_signed ::
    "nz_xregister \<Rightarrow> nz_xregister \<Rightarrow> u64 \<Rightarrow> instr_width \<Rightarrow> instruction" where
  "new_shift_right_immediate_signed rd rs1 imm width =
     \<lparr>opcode = ITypeNonZero OP_ShiftRightImmediateSigned,
      args = ARGS_DEFAULT\<lparr>arg_rd := register_nzx rd, arg_rs1 := register_nzx rs1,
                             arg_imm := imm, arg_width := width\<rparr>\<rparr>"

definition new_x32_shift_left ::
    "nz_xregister \<Rightarrow> xregister \<Rightarrow> xregister \<Rightarrow> instr_width \<Rightarrow> instruction" where
  "new_x32_shift_left rd rs1 rs2 width =
     \<lparr>opcode = RTypeNonZeroRd OP_X32ShiftLeft,
      args = ARGS_DEFAULT\<lparr>arg_rd := register_nzx rd, arg_rs1 := register_x rs1,
                             arg_rs2 := register_x rs2, arg_width := width\<rparr>\<rparr>"

definition new_x32_shift_right_unsigned ::
    "nz_xregister \<Rightarrow> xregister \<Rightarrow> xregister \<Rightarrow> instr_width \<Rightarrow> instruction" where
  "new_x32_shift_right_unsigned rd rs1 rs2 width =
     \<lparr>opcode = RTypeNonZeroRd OP_X32ShiftRightUnsigned,
      args = ARGS_DEFAULT\<lparr>arg_rd := register_nzx rd, arg_rs1 := register_x rs1,
                             arg_rs2 := register_x rs2, arg_width := width\<rparr>\<rparr>"

definition new_x32_shift_right_signed ::
    "nz_xregister \<Rightarrow> xregister \<Rightarrow> xregister \<Rightarrow> instr_width \<Rightarrow> instruction" where
  "new_x32_shift_right_signed rd rs1 rs2 width =
     \<lparr>opcode = RTypeNonZeroRd OP_X32ShiftRightSigned,
      args = ARGS_DEFAULT\<lparr>arg_rd := register_nzx rd, arg_rs1 := register_x rs1,
                             arg_rs2 := register_x rs2, arg_width := width\<rparr>\<rparr>"

definition new_x32_shift_left_immediate ::
    "nz_xregister \<Rightarrow> nz_xregister \<Rightarrow> u64 \<Rightarrow> instr_width \<Rightarrow> instruction" where
  "new_x32_shift_left_immediate rd rs1 imm width =
     \<lparr>opcode = ITypeNonZero OP_X32ShiftLeftImm,
      args = ARGS_DEFAULT\<lparr>arg_rd := register_nzx rd, arg_rs1 := register_nzx rs1,
                             arg_imm := imm, arg_width := width\<rparr>\<rparr>"

definition new_x32_shift_right_immediate_unsigned ::
    "nz_xregister \<Rightarrow> nz_xregister \<Rightarrow> u64 \<Rightarrow> instr_width \<Rightarrow> instruction" where
  "new_x32_shift_right_immediate_unsigned rd rs1 imm width =
     \<lparr>opcode = ITypeNonZero OP_X32ShiftRightImmUnsigned,
      args = ARGS_DEFAULT\<lparr>arg_rd := register_nzx rd, arg_rs1 := register_nzx rs1,
                             arg_imm := imm, arg_width := width\<rparr>\<rparr>"

definition new_x32_shift_right_immediate_signed ::
    "nz_xregister \<Rightarrow> nz_xregister \<Rightarrow> u64 \<Rightarrow> instr_width \<Rightarrow> instruction" where
  "new_x32_shift_right_immediate_signed rd rs1 imm width =
     \<lparr>opcode = ITypeNonZero OP_X32ShiftRightImmSigned,
      args = ARGS_DEFAULT\<lparr>arg_rd := register_nzx rd, arg_rs1 := register_nzx rs1,
                             arg_imm := imm, arg_width := width\<rparr>\<rparr>"

definition new_set_less_than_signed ::
    "nz_xregister \<Rightarrow> xregister \<Rightarrow> xregister \<Rightarrow> instruction" where
  "new_set_less_than_signed rd rs1 rs2 =
     \<lparr>opcode = RTypeNonZeroRd OP_SetLessThanSigned,
      args = ARGS_DEFAULT\<lparr>arg_rd := register_nzx rd, arg_rs1 := register_x rs1,
                             arg_rs2 := register_x rs2, arg_width := Uncompressed\<rparr>\<rparr>"

definition new_set_less_than_unsigned ::
    "nz_xregister \<Rightarrow> xregister \<Rightarrow> xregister \<Rightarrow> instruction" where
  "new_set_less_than_unsigned rd rs1 rs2 =
     \<lparr>opcode = RTypeNonZeroRd OP_SetLessThanUnsigned,
      args = ARGS_DEFAULT\<lparr>arg_rd := register_nzx rd, arg_rs1 := register_x rs1,
                             arg_rs2 := register_x rs2, arg_width := Uncompressed\<rparr>\<rparr>"

definition new_set_less_than_immediate_signed ::
    "nz_xregister \<Rightarrow> xregister \<Rightarrow> u64 \<Rightarrow> instruction" where
  "new_set_less_than_immediate_signed rd rs1 imm =
     \<lparr>opcode = ITypeNonZeroRd OP_SetLessThanImmediateSigned,
      args = ARGS_DEFAULT\<lparr>arg_rd := register_nzx rd, arg_rs1 := register_x rs1, arg_imm := imm,
                             arg_width := Uncompressed\<rparr>\<rparr>"

definition new_set_less_than_immediate_unsigned ::
    "nz_xregister \<Rightarrow> xregister \<Rightarrow> u64 \<Rightarrow> instruction" where
  "new_set_less_than_immediate_unsigned rd rs1 imm =
     \<lparr>opcode = ITypeNonZeroRd OP_SetLessThanImmediateUnsigned,
      args = ARGS_DEFAULT\<lparr>arg_rd := register_nzx rd, arg_rs1 := register_x rs1, arg_imm := imm,
                             arg_width := Uncompressed\<rparr>\<rparr>"

definition new_and ::
    "nz_xregister \<Rightarrow> nz_xregister \<Rightarrow> nz_xregister \<Rightarrow> instr_width \<Rightarrow> instruction" where
  "new_and rd rs1 rs2 width =
     \<lparr>opcode = RTypeNonZero OP_And,
      args = ARGS_DEFAULT\<lparr>arg_rd := register_nzx rd, arg_rs1 := register_nzx rs1,
                             arg_rs2 := register_nzx rs2, arg_width := width\<rparr>\<rparr>"

definition new_or ::
    "nz_xregister \<Rightarrow> nz_xregister \<Rightarrow> nz_xregister \<Rightarrow> instr_width \<Rightarrow> instruction" where
  "new_or rd rs1 rs2 width =
     \<lparr>opcode = RTypeNonZero OP_Or,
      args = ARGS_DEFAULT\<lparr>arg_rd := register_nzx rd, arg_rs1 := register_nzx rs1,
                             arg_rs2 := register_nzx rs2, arg_width := width\<rparr>\<rparr>"

definition new_x64_xor ::
    "nz_xregister \<Rightarrow> nz_xregister \<Rightarrow> nz_xregister \<Rightarrow> instr_width \<Rightarrow> instruction" where
  "new_x64_xor rd rs1 rs2 width =
     \<lparr>opcode = RTypeNonZero OP_X64Xor,
      args = ARGS_DEFAULT\<lparr>arg_rd := register_nzx rd, arg_rs1 := register_nzx rs1,
                             arg_rs2 := register_nzx rs2, arg_width := width\<rparr>\<rparr>"

definition new_shift_left ::
    "nz_xregister \<Rightarrow> nz_xregister \<Rightarrow> nz_xregister \<Rightarrow> instr_width \<Rightarrow> instruction" where
  "new_shift_left rd rs1 rs2 width =
     \<lparr>opcode = RTypeNonZero OP_ShiftLeft,
      args = ARGS_DEFAULT\<lparr>arg_rd := register_nzx rd, arg_rs1 := register_nzx rs1,
                             arg_rs2 := register_nzx rs2, arg_width := width\<rparr>\<rparr>"

definition new_shift_right_unsigned ::
    "nz_xregister \<Rightarrow> nz_xregister \<Rightarrow> nz_xregister \<Rightarrow> instr_width \<Rightarrow> instruction" where
  "new_shift_right_unsigned rd rs1 rs2 width =
     \<lparr>opcode = RTypeNonZero OP_ShiftRightUnsigned,
      args = ARGS_DEFAULT\<lparr>arg_rd := register_nzx rd, arg_rs1 := register_nzx rs1,
                             arg_rs2 := register_nzx rs2, arg_width := width\<rparr>\<rparr>"

definition new_shift_right_signed ::
    "nz_xregister \<Rightarrow> nz_xregister \<Rightarrow> nz_xregister \<Rightarrow> instr_width \<Rightarrow> instruction" where
  "new_shift_right_signed rd rs1 rs2 width =
     \<lparr>opcode = RTypeNonZero OP_ShiftRightSigned,
      args = ARGS_DEFAULT\<lparr>arg_rd := register_nzx rd, arg_rs1 := register_nzx rs1,
                             arg_rs2 := register_nzx rs2, arg_width := width\<rparr>\<rparr>"

definition new_j :: "u64 \<Rightarrow> instr_width \<Rightarrow> instruction" where
  "new_j imm width =
     \<lparr>opcode = JumpType OP_J,
      args = ARGS_DEFAULT\<lparr>arg_imm := imm, arg_width := width\<rparr>\<rparr>"

definition new_jal ::
    "nz_xregister \<Rightarrow> u64 \<Rightarrow> instr_width \<Rightarrow> instruction" where
  "new_jal rd imm width =
     \<lparr>opcode = JumpType OP_Jal,
      args = ARGS_DEFAULT\<lparr>arg_rd := register_nzx rd, arg_imm := imm,
                             arg_width := width\<rparr>\<rparr>"

definition new_branch_equal ::
    "nz_xregister \<Rightarrow> nz_xregister \<Rightarrow> u64 \<Rightarrow> instr_width \<Rightarrow> instruction" where
  "new_branch_equal rs1 rs2 imm width =
     \<lparr>opcode = BranchType OP_BranchEqual,
      args = ARGS_DEFAULT\<lparr>arg_rs1 := register_nzx rs1, arg_rs2 := register_nzx rs2,
                             arg_imm := imm, arg_width := width\<rparr>\<rparr>"

definition new_branch_equal_zero ::
    "nz_xregister \<Rightarrow> u64 \<Rightarrow> instr_width \<Rightarrow> instruction" where
  "new_branch_equal_zero rs1 imm width =
     \<lparr>opcode = BranchCompareZero OP_BranchEqualZero,
      args = ARGS_DEFAULT\<lparr>arg_rs1 := register_nzx rs1, arg_imm := imm,
                             arg_width := width\<rparr>\<rparr>"

definition new_branch_not_equal ::
    "nz_xregister \<Rightarrow> nz_xregister \<Rightarrow> u64 \<Rightarrow> instr_width \<Rightarrow> instruction" where
  "new_branch_not_equal rs1 rs2 imm width =
     \<lparr>opcode = BranchType OP_BranchNotEqual,
      args = ARGS_DEFAULT\<lparr>arg_rs1 := register_nzx rs1, arg_rs2 := register_nzx rs2,
                             arg_imm := imm, arg_width := width\<rparr>\<rparr>"

definition new_branch_not_equal_zero ::
    "nz_xregister \<Rightarrow> u64 \<Rightarrow> instr_width \<Rightarrow> instruction" where
  "new_branch_not_equal_zero rs1 imm width =
     \<lparr>opcode = BranchCompareZero OP_BranchNotEqualZero,
      args = ARGS_DEFAULT\<lparr>arg_rs1 := register_nzx rs1, arg_imm := imm,
                             arg_width := width\<rparr>\<rparr>"

definition new_j_absolute :: "u64 \<Rightarrow> instr_width \<Rightarrow> instruction" where
  "new_j_absolute imm width =
     \<lparr>opcode = JumpType OP_JAbsolute,
      args = ARGS_DEFAULT\<lparr>arg_imm := imm, arg_width := width\<rparr>\<rparr>"

definition new_jalr_imm ::
    "nz_xregister \<Rightarrow> nz_xregister \<Rightarrow> u64 \<Rightarrow> instr_width \<Rightarrow> instruction" where
  "new_jalr_imm rd rs1 imm width =
     \<lparr>opcode = JumpType OP_JalrImm,
      args = ARGS_DEFAULT\<lparr>arg_rd := register_nzx rd, arg_rs1 := register_nzx rs1,
                             arg_imm := imm, arg_width := width\<rparr>\<rparr>"

definition new_jalr_absolute ::
    "nz_xregister \<Rightarrow> u64 \<Rightarrow> instr_width \<Rightarrow> instruction" where
  "new_jalr_absolute rd imm width =
     \<lparr>opcode = JumpType OP_JalrAbsolute,
      args = ARGS_DEFAULT\<lparr>arg_rd := register_nzx rd, arg_imm := imm,
                             arg_width := width\<rparr>\<rparr>"

definition new_jr_imm ::
    "nz_xregister \<Rightarrow> u64 \<Rightarrow> instr_width \<Rightarrow> instruction" where
  "new_jr_imm rs1 imm width =
     \<lparr>opcode = JumpType OP_JrImm,
      args = ARGS_DEFAULT\<lparr>arg_rs1 := register_nzx rs1, arg_imm := imm,
                             arg_width := width\<rparr>\<rparr>"

definition new_jr :: "nz_xregister \<Rightarrow> instr_width \<Rightarrow> instruction" where
  "new_jr rs1 width =
     \<lparr>opcode = JumpType OP_Jr,
      args = ARGS_DEFAULT\<lparr>arg_rs1 := register_nzx rs1, arg_width := width\<rparr>\<rparr>"

definition new_jalr ::
    "nz_xregister \<Rightarrow> nz_xregister \<Rightarrow> instr_width \<Rightarrow> instruction" where
  "new_jalr rd rs1 width =
     \<lparr>opcode = JumpType OP_Jalr,
      args = ARGS_DEFAULT\<lparr>arg_rd := register_nzx rd, arg_rs1 := register_nzx rs1,
                             arg_width := width\<rparr>\<rparr>"

definition new_x64_load_signed ::
    "xregister \<Rightarrow> xregister \<Rightarrow> u64 \<Rightarrow> instr_width \<Rightarrow> instruction" where
  "new_x64_load_signed rd rs1 imm width =
     \<lparr>opcode = LoadType OP_X64LoadSigned,
      args = ARGS_DEFAULT\<lparr>arg_rd := register_x rd, arg_rs1 := register_x rs1, arg_imm := imm,
                             arg_width := width\<rparr>\<rparr>"

definition new_x64_store ::
    "xregister \<Rightarrow> xregister \<Rightarrow> u64 \<Rightarrow> instr_width \<Rightarrow> instruction" where
  "new_x64_store rs1 rs2 imm width =
     \<lparr>opcode = StoreType OP_X64Store,
      args = ARGS_DEFAULT\<lparr>arg_rs1 := register_x rs1, arg_rs2 := register_x rs2, arg_imm := imm,
                             arg_width := width\<rparr>\<rparr>"

definition new_x32_load_signed ::
    "xregister \<Rightarrow> xregister \<Rightarrow> u64 \<Rightarrow> instr_width \<Rightarrow> instruction" where
  "new_x32_load_signed rd rs1 imm width =
     \<lparr>opcode = LoadType OP_X32LoadSigned,
      args = ARGS_DEFAULT\<lparr>arg_rd := register_x rd, arg_rs1 := register_x rs1, arg_imm := imm,
                             arg_width := width\<rparr>\<rparr>"

definition new_x32_load_unsigned ::
    "xregister \<Rightarrow> xregister \<Rightarrow> u64 \<Rightarrow> instr_width \<Rightarrow> instruction" where
  "new_x32_load_unsigned rd rs1 imm width =
     \<lparr>opcode = LoadType OP_X32LoadUnsigned,
      args = ARGS_DEFAULT\<lparr>arg_rd := register_x rd, arg_rs1 := register_x rs1, arg_imm := imm,
                             arg_width := width\<rparr>\<rparr>"

definition new_x32_store ::
    "xregister \<Rightarrow> xregister \<Rightarrow> u64 \<Rightarrow> instr_width \<Rightarrow> instruction" where
  "new_x32_store rs1 rs2 imm width =
     \<lparr>opcode = StoreType OP_X32Store,
      args = ARGS_DEFAULT\<lparr>arg_rs1 := register_x rs1, arg_rs2 := register_x rs2, arg_imm := imm,
                             arg_width := width\<rparr>\<rparr>"

definition new_x16_load_signed ::
    "xregister \<Rightarrow> xregister \<Rightarrow> u64 \<Rightarrow> instr_width \<Rightarrow> instruction" where
  "new_x16_load_signed rd rs1 imm width =
     \<lparr>opcode = LoadType OP_X16LoadSigned,
      args = ARGS_DEFAULT\<lparr>arg_rd := register_x rd, arg_rs1 := register_x rs1, arg_imm := imm,
                             arg_width := width\<rparr>\<rparr>"

definition new_x16_load_unsigned ::
    "xregister \<Rightarrow> xregister \<Rightarrow> u64 \<Rightarrow> instr_width \<Rightarrow> instruction" where
  "new_x16_load_unsigned rd rs1 imm width =
     \<lparr>opcode = LoadType OP_X16LoadUnsigned,
      args = ARGS_DEFAULT\<lparr>arg_rd := register_x rd, arg_rs1 := register_x rs1, arg_imm := imm,
                             arg_width := width\<rparr>\<rparr>"

definition new_x16_store ::
    "xregister \<Rightarrow> xregister \<Rightarrow> u64 \<Rightarrow> instr_width \<Rightarrow> instruction" where
  "new_x16_store rs1 rs2 imm width =
     \<lparr>opcode = StoreType OP_X16Store,
      args = ARGS_DEFAULT\<lparr>arg_rs1 := register_x rs1, arg_rs2 := register_x rs2, arg_imm := imm,
                             arg_width := width\<rparr>\<rparr>"

definition new_x8_load_signed ::
    "xregister \<Rightarrow> xregister \<Rightarrow> u64 \<Rightarrow> instr_width \<Rightarrow> instruction" where
  "new_x8_load_signed rd rs1 imm width =
     \<lparr>opcode = LoadType OP_X8LoadSigned,
      args = ARGS_DEFAULT\<lparr>arg_rd := register_x rd, arg_rs1 := register_x rs1, arg_imm := imm,
                             arg_width := width\<rparr>\<rparr>"

definition new_x8_load_unsigned ::
    "xregister \<Rightarrow> xregister \<Rightarrow> u64 \<Rightarrow> instr_width \<Rightarrow> instruction" where
  "new_x8_load_unsigned rd rs1 imm width =
     \<lparr>opcode = LoadType OP_X8LoadUnsigned,
      args = ARGS_DEFAULT\<lparr>arg_rd := register_x rd, arg_rs1 := register_x rs1, arg_imm := imm,
                             arg_width := width\<rparr>\<rparr>"

definition new_x8_store ::
    "xregister \<Rightarrow> xregister \<Rightarrow> u64 \<Rightarrow> instr_width \<Rightarrow> instruction" where
  "new_x8_store rs1 rs2 imm width =
     \<lparr>opcode = StoreType OP_X8Store,
      args = ARGS_DEFAULT\<lparr>arg_rs1 := register_x rs1, arg_rs2 := register_x rs2, arg_imm := imm,
                             arg_width := width\<rparr>\<rparr>"

definition new_branch_less_than_signed ::
    "nz_xregister \<Rightarrow> nz_xregister \<Rightarrow> u64 \<Rightarrow> instr_width \<Rightarrow> instruction" where
  "new_branch_less_than_signed rs1 rs2 imm width =
     \<lparr>opcode = BranchType OP_BranchLessThanSigned,
      args = ARGS_DEFAULT\<lparr>arg_rs1 := register_nzx rs1, arg_rs2 := register_nzx rs2,
                             arg_imm := imm, arg_width := width\<rparr>\<rparr>"

definition new_branch_less_than_zero ::
    "nz_xregister \<Rightarrow> u64 \<Rightarrow> instr_width \<Rightarrow> instruction" where
  "new_branch_less_than_zero rs1 imm width =
     \<lparr>opcode = BranchCompareZero OP_BranchLessThanZero,
      args = ARGS_DEFAULT\<lparr>arg_rs1 := register_nzx rs1, arg_imm := imm,
                             arg_width := width\<rparr>\<rparr>"

definition new_branch_less_than_or_equal_zero ::
    "nz_xregister \<Rightarrow> u64 \<Rightarrow> instr_width \<Rightarrow> instruction" where
  "new_branch_less_than_or_equal_zero rs1 imm width =
     \<lparr>opcode = BranchCompareZero OP_BranchLessThanOrEqualZero,
      args = ARGS_DEFAULT\<lparr>arg_rs1 := register_nzx rs1, arg_imm := imm,
                             arg_width := width\<rparr>\<rparr>"

definition new_branch_greater_than_or_equal_signed ::
    "nz_xregister \<Rightarrow> nz_xregister \<Rightarrow> u64 \<Rightarrow> instr_width \<Rightarrow> instruction" where
  "new_branch_greater_than_or_equal_signed rs1 rs2 imm width =
     \<lparr>opcode = BranchType OP_BranchGreaterThanOrEqualSigned,
      args = ARGS_DEFAULT\<lparr>arg_rs1 := register_nzx rs1, arg_rs2 := register_nzx rs2,
                             arg_imm := imm, arg_width := width\<rparr>\<rparr>"

definition new_branch_greater_than_or_equal_zero ::
    "nz_xregister \<Rightarrow> u64 \<Rightarrow> instr_width \<Rightarrow> instruction" where
  "new_branch_greater_than_or_equal_zero rs1 imm width =
     \<lparr>opcode = BranchCompareZero OP_BranchGreaterThanOrEqualZero,
      args = ARGS_DEFAULT\<lparr>arg_rs1 := register_nzx rs1, arg_imm := imm,
                             arg_width := width\<rparr>\<rparr>"

definition new_branch_greater_than_zero ::
    "nz_xregister \<Rightarrow> u64 \<Rightarrow> instr_width \<Rightarrow> instruction" where
  "new_branch_greater_than_zero rs1 imm width =
     \<lparr>opcode = BranchCompareZero OP_BranchGreaterThanZero,
      args = ARGS_DEFAULT\<lparr>arg_rs1 := register_nzx rs1, arg_imm := imm,
                             arg_width := width\<rparr>\<rparr>"

definition new_branch_less_than_unsigned ::
    "nz_xregister \<Rightarrow> nz_xregister \<Rightarrow> u64 \<Rightarrow> instr_width \<Rightarrow> instruction" where
  "new_branch_less_than_unsigned rs1 rs2 imm width =
     \<lparr>opcode = BranchType OP_BranchLessThanUnsigned,
      args = ARGS_DEFAULT\<lparr>arg_rs1 := register_nzx rs1, arg_rs2 := register_nzx rs2,
                             arg_imm := imm, arg_width := width\<rparr>\<rparr>"

definition new_branch_greater_than_or_equal_unsigned ::
    "nz_xregister \<Rightarrow> nz_xregister \<Rightarrow> u64 \<Rightarrow> instr_width \<Rightarrow> instruction" where
  "new_branch_greater_than_or_equal_unsigned rs1 rs2 imm width =
     \<lparr>opcode = BranchType OP_BranchGreaterThanOrEqualUnsigned,
      args = ARGS_DEFAULT\<lparr>arg_rs1 := register_nzx rs1, arg_rs2 := register_nzx rs2,
                             arg_imm := imm, arg_width := width\<rparr>\<rparr>"

definition new_add_immediate_to_pc ::
    "nz_xregister \<Rightarrow> u64 \<Rightarrow> instr_width \<Rightarrow> instruction" where
  "new_add_immediate_to_pc rd imm width =
     \<lparr>opcode = OP_AddImmediateToPC,
      args = ARGS_DEFAULT\<lparr>arg_rd := register_nzx rd, arg_imm := imm,
                             arg_width := width\<rparr>\<rparr>"

definition new_mul ::
    "nz_xregister \<Rightarrow> nz_xregister \<Rightarrow> nz_xregister \<Rightarrow> instr_width \<Rightarrow> instruction" where
  "new_mul rd rs1 rs2 width =
     \<lparr>opcode = RTypeNonZero OP_Mul,
      args = ARGS_DEFAULT\<lparr>arg_rd := register_nzx rd, arg_rs1 := register_nzx rs1,
                             arg_rs2 := register_nzx rs2, arg_width := width\<rparr>\<rparr>"

definition new_x32_mul ::
    "xregister \<Rightarrow> xregister \<Rightarrow> xregister \<Rightarrow> instr_width \<Rightarrow> instruction" where
  "new_x32_mul rd rs1 rs2 width =
     \<lparr>opcode = RTypeNonZeroRd OP_X32Mul,
      args = ARGS_DEFAULT\<lparr>arg_rd := register_x rd, arg_rs1 := register_x rs1,
                             arg_rs2 := register_x rs2, arg_width := width\<rparr>\<rparr>"

definition new_x64_mul_high_signed ::
    "nz_xregister \<Rightarrow> nz_xregister \<Rightarrow> nz_xregister \<Rightarrow> instr_width \<Rightarrow> instruction" where
  "new_x64_mul_high_signed rd rs1 rs2 width =
     \<lparr>opcode = RTypeNonZero OP_X64MulHighSigned,
      args = ARGS_DEFAULT\<lparr>arg_rd := register_nzx rd, arg_rs1 := register_nzx rs1,
                             arg_rs2 := register_nzx rs2, arg_width := width\<rparr>\<rparr>"

definition new_x64_mul_high_signed_unsigned ::
    "nz_xregister \<Rightarrow> nz_xregister \<Rightarrow> nz_xregister \<Rightarrow> instr_width \<Rightarrow> instruction" where
  "new_x64_mul_high_signed_unsigned rd rs1 rs2 width =
     \<lparr>opcode = RTypeNonZero OP_X64MulHighSignedUnsigned,
      args = ARGS_DEFAULT\<lparr>arg_rd := register_nzx rd, arg_rs1 := register_nzx rs1,
                             arg_rs2 := register_nzx rs2, arg_width := width\<rparr>\<rparr>"

definition new_x64_mul_high_unsigned ::
    "nz_xregister \<Rightarrow> nz_xregister \<Rightarrow> nz_xregister \<Rightarrow> instr_width \<Rightarrow> instruction" where
  "new_x64_mul_high_unsigned rd rs1 rs2 width =
     \<lparr>opcode = RTypeNonZero OP_X64MulHighUnsigned,
      args = ARGS_DEFAULT\<lparr>arg_rd := register_nzx rd, arg_rs1 := register_nzx rs1,
                             arg_rs2 := register_nzx rs2, arg_width := width\<rparr>\<rparr>"

definition new_x64_div_signed ::
    "nz_xregister \<Rightarrow> xregister \<Rightarrow> xregister \<Rightarrow> instr_width \<Rightarrow> instruction" where
  "new_x64_div_signed rd rs1 rs2 width =
     \<lparr>opcode = RTypeNonZeroRd OP_X64DivSigned,
      args = ARGS_DEFAULT\<lparr>arg_rd := register_nzx rd, arg_rs1 := register_x rs1,
                             arg_rs2 := register_x rs2, arg_width := width\<rparr>\<rparr>"

definition new_x64_div_unsigned ::
    "nz_xregister \<Rightarrow> xregister \<Rightarrow> xregister \<Rightarrow> instr_width \<Rightarrow> instruction" where
  "new_x64_div_unsigned rd rs1 rs2 width =
     \<lparr>opcode = RTypeNonZeroRd OP_X64DivUnsigned,
      args = ARGS_DEFAULT\<lparr>arg_rd := register_nzx rd, arg_rs1 := register_x rs1,
                             arg_rs2 := register_x rs2, arg_width := width\<rparr>\<rparr>"

definition new_x32_div_signed ::
    "nz_xregister \<Rightarrow> xregister \<Rightarrow> xregister \<Rightarrow> instr_width \<Rightarrow> instruction" where
  "new_x32_div_signed rd rs1 rs2 width =
     \<lparr>opcode = RTypeNonZeroRd OP_X32DivSigned,
      args = ARGS_DEFAULT\<lparr>arg_rd := register_nzx rd, arg_rs1 := register_x rs1,
                             arg_rs2 := register_x rs2, arg_width := width\<rparr>\<rparr>"

definition new_x32_div_unsigned ::
    "nz_xregister \<Rightarrow> xregister \<Rightarrow> xregister \<Rightarrow> instr_width \<Rightarrow> instruction" where
  "new_x32_div_unsigned rd rs1 rs2 width =
     \<lparr>opcode = RTypeNonZeroRd OP_X32DivUnsigned,
      args = ARGS_DEFAULT\<lparr>arg_rd := register_nzx rd, arg_rs1 := register_x rs1,
                             arg_rs2 := register_x rs2, arg_width := width\<rparr>\<rparr>"

definition new_ecall :: "instruction" where
  "new_ecall =
     \<lparr>opcode = OP_ECall,
      args = ARGS_DEFAULT\<lparr>arg_width := Uncompressed\<rparr>\<rparr>"

definition new_x64_atomic_add ::
    "xregister \<Rightarrow> xregister \<Rightarrow> xregister \<Rightarrow> bool \<Rightarrow> bool \<Rightarrow> instr_width \<Rightarrow> instruction" where
  "new_x64_atomic_add rd rs1 rs2 aq rl width =
     \<lparr>opcode = AmoType OP_X64AtomicAdd,
      args = ARGS_DEFAULT\<lparr>arg_rd := register_x rd, arg_rs1 := register_x rs1,
                             arg_rs2 := register_x rs2, arg_aq := aq, arg_rl := rl,
                             arg_width := width\<rparr>\<rparr>"

definition new_x64_atomic_min_signed ::
    "xregister \<Rightarrow> xregister \<Rightarrow> xregister \<Rightarrow> bool \<Rightarrow> bool \<Rightarrow> instr_width \<Rightarrow> instruction" where
  "new_x64_atomic_min_signed rd rs1 rs2 aq rl width =
     \<lparr>opcode = AmoType OP_X64AtomicMinSigned,
      args = ARGS_DEFAULT\<lparr>arg_rd := register_x rd, arg_rs1 := register_x rs1,
                             arg_rs2 := register_x rs2, arg_aq := aq, arg_rl := rl,
                             arg_width := width\<rparr>\<rparr>"

definition new_x32_atomic_load ::
    "xregister \<Rightarrow> xregister \<Rightarrow> bool \<Rightarrow> bool \<Rightarrow> instr_width \<Rightarrow> instruction" where
  "new_x32_atomic_load rd rs1 aq rl width =
     \<lparr>opcode = AmoType OP_X32AtomicLoad,
      args = ARGS_DEFAULT\<lparr>arg_rd := register_x rd, arg_rs1 := register_x rs1, arg_aq := aq,
                             arg_rl := rl, arg_width := width\<rparr>\<rparr>"

definition new_x32_atomic_store ::
    "xregister \<Rightarrow> xregister \<Rightarrow> xregister \<Rightarrow> bool \<Rightarrow> bool \<Rightarrow> instr_width \<Rightarrow> instruction" where
  "new_x32_atomic_store rd rs1 rs2 aq rl width =
     \<lparr>opcode = AmoType OP_X32AtomicStore,
      args = ARGS_DEFAULT\<lparr>arg_rd := register_x rd, arg_rs1 := register_x rs1,
                             arg_rs2 := register_x rs2, arg_aq := aq, arg_rl := rl,
                             arg_width := width\<rparr>\<rparr>"

definition new_x64_atomic_load ::
    "xregister \<Rightarrow> xregister \<Rightarrow> bool \<Rightarrow> bool \<Rightarrow> instr_width \<Rightarrow> instruction" where
  "new_x64_atomic_load rd rs1 aq rl width =
     \<lparr>opcode = AmoType OP_X64AtomicLoad,
      args = ARGS_DEFAULT\<lparr>arg_rd := register_x rd, arg_rs1 := register_x rs1, arg_aq := aq,
                             arg_rl := rl, arg_width := width\<rparr>\<rparr>"

definition new_x64_atomic_store ::
    "xregister \<Rightarrow> xregister \<Rightarrow> xregister \<Rightarrow> bool \<Rightarrow> bool \<Rightarrow> instr_width \<Rightarrow> instruction" where
  "new_x64_atomic_store rd rs1 rs2 aq rl width =
     \<lparr>opcode = AmoType OP_X64AtomicStore,
      args = ARGS_DEFAULT\<lparr>arg_rd := register_x rd, arg_rs1 := register_x rs1,
                             arg_rs2 := register_x rs2, arg_aq := aq, arg_rl := rl,
                             arg_width := width\<rparr>\<rparr>"

definition new_x64_rem_signed ::
    "nz_xregister \<Rightarrow> xregister \<Rightarrow> xregister \<Rightarrow> instr_width \<Rightarrow> instruction" where
  "new_x64_rem_signed rd rs1 rs2 width =
     \<lparr>opcode = RTypeNonZeroRd OP_X64RemSigned,
      args = ARGS_DEFAULT\<lparr>arg_rd := register_nzx rd, arg_rs1 := register_x rs1,
                             arg_rs2 := register_x rs2, arg_width := width\<rparr>\<rparr>"

definition new_x64_rem_unsigned ::
    "nz_xregister \<Rightarrow> xregister \<Rightarrow> xregister \<Rightarrow> instr_width \<Rightarrow> instruction" where
  "new_x64_rem_unsigned rd rs1 rs2 width =
     \<lparr>opcode = RTypeNonZeroRd OP_X64RemUnsigned,
      args = ARGS_DEFAULT\<lparr>arg_rd := register_nzx rd, arg_rs1 := register_x rs1,
                             arg_rs2 := register_x rs2, arg_width := width\<rparr>\<rparr>"

definition new_x32_rem_signed ::
    "nz_xregister \<Rightarrow> xregister \<Rightarrow> xregister \<Rightarrow> instr_width \<Rightarrow> instruction" where
  "new_x32_rem_signed rd rs1 rs2 width =
     \<lparr>opcode = RTypeNonZeroRd OP_X32RemSigned,
      args = ARGS_DEFAULT\<lparr>arg_rd := register_nzx rd, arg_rs1 := register_x rs1,
                             arg_rs2 := register_x rs2, arg_width := width\<rparr>\<rparr>"

definition new_x32_rem_unsigned ::
    "nz_xregister \<Rightarrow> xregister \<Rightarrow> xregister \<Rightarrow> instr_width \<Rightarrow> instruction" where
  "new_x32_rem_unsigned rd rs1 rs2 width =
     \<lparr>opcode = RTypeNonZeroRd OP_X32RemUnsigned,
      args = ARGS_DEFAULT\<lparr>arg_rd := register_nzx rd, arg_rs1 := register_x rs1,
                             arg_rs2 := register_x rs2, arg_width := width\<rparr>\<rparr>"

definition new_x32_atomic_swap ::
    "xregister \<Rightarrow> xregister \<Rightarrow> xregister \<Rightarrow> bool \<Rightarrow> bool \<Rightarrow> instr_width \<Rightarrow> instruction" where
  "new_x32_atomic_swap rd rs1 rs2 aq rl width =
     \<lparr>opcode = AmoType OP_X32AtomicSwap,
      args = ARGS_DEFAULT\<lparr>arg_rd := register_x rd, arg_rs1 := register_x rs1,
                             arg_rs2 := register_x rs2, arg_aq := aq, arg_rl := rl,
                             arg_width := width\<rparr>\<rparr>"

definition new_x64_atomic_swap ::
    "xregister \<Rightarrow> xregister \<Rightarrow> xregister \<Rightarrow> bool \<Rightarrow> bool \<Rightarrow> instr_width \<Rightarrow> instruction" where
  "new_x64_atomic_swap rd rs1 rs2 aq rl width =
     \<lparr>opcode = AmoType OP_X64AtomicSwap,
      args = ARGS_DEFAULT\<lparr>arg_rd := register_x rd, arg_rs1 := register_x rs1,
                             arg_rs2 := register_x rs2, arg_aq := aq, arg_rl := rl,
                             arg_width := width\<rparr>\<rparr>"

section \<open>Specialisation\<close>

definition from_ic_add :: "nz_xregister \<Rightarrow> xregister \<Rightarrow> xregister \<Rightarrow> instruction" where
  "from_ic_add rd rs1 rs2 =
     (case (split_x0 rs1, split_x0 rs2) of
        (X0, X0) \<Rightarrow> new_li rd 0 Uncompressed
      | (NonZero rs1, X0) \<Rightarrow> new_mv rd rs1 Uncompressed
      | (X0, NonZero rs1) \<Rightarrow> new_mv rd rs1 Uncompressed
      | (NonZero rs1, NonZero rs2) \<Rightarrow> new_add rd rs1 rs2 Uncompressed)"

definition from_ic_caddw :: "xregister \<Rightarrow> xregister \<Rightarrow> instruction" where
  "from_ic_caddw rd_rs1 rs2 =
     (case split_x0 rd_rs1 of
        X0 \<Rightarrow> new_nop Compressed
      | NonZero nz \<Rightarrow> new_add_word nz rd_rs1 rs2 Compressed)"

definition from_ic_sub :: "nz_xregister \<Rightarrow> xregister \<Rightarrow> xregister \<Rightarrow> instruction" where
  "from_ic_sub rd rs1 rs2 =
     (case (split_x0 rs1, split_x0 rs2) of
        (X0, X0) \<Rightarrow> new_li rd 0 Uncompressed
      | (NonZero rs2, X0) \<Rightarrow> new_mv rd rs2 Uncompressed
      | (X0, NonZero rs2) \<Rightarrow> new_neg rd rs2 Uncompressed
      | (NonZero rs1, NonZero rs2) \<Rightarrow> new_sub rd rs1 rs2 Uncompressed)"

definition from_ic_csub :: "xregister \<Rightarrow> xregister \<Rightarrow> instruction" where
  "from_ic_csub rd_rs1 rs2 =
     (case (split_x0 rd_rs1, split_x0 rs2) of
        (X0, _) \<Rightarrow> new_nop Compressed
      | (_, X0) \<Rightarrow> new_nop Compressed
      | (NonZero rd_rs1, NonZero rs2) \<Rightarrow> new_sub rd_rs1 rd_rs1 rs2 Compressed)"

definition from_ic_csubw :: "xregister \<Rightarrow> xregister \<Rightarrow> instruction" where
  "from_ic_csubw rd_rs1 rs2 =
     (case split_x0 rd_rs1 of
        X0 \<Rightarrow> new_nop Compressed
      | NonZero nz \<Rightarrow> new_sub_word nz rd_rs1 rs2 Compressed)"

definition from_ic_addi :: "xregister_parsed \<Rightarrow> xregister_parsed \<Rightarrow> u64 \<Rightarrow> instruction" where
  "from_ic_addi rd rs1 imm =
     (case (rd, rs1) of
        (X0, _) \<Rightarrow> new_nop Uncompressed
      | (NonZero rd, X0) \<Rightarrow> new_li rd imm Uncompressed
      | (NonZero rd, NonZero rs1) \<Rightarrow> new_addi rd rs1 imm Uncompressed)"

definition from_ic_caddi4spn :: "xregister \<Rightarrow> u64 \<Rightarrow> instruction" where
  "from_ic_caddi4spn rd_rs1 imm =
     (case split_x0 rd_rs1 of
        X0 \<Rightarrow> new_nop Compressed
      | NonZero rd_rs1 \<Rightarrow> new_addi rd_rs1 nz_x2 imm Compressed)"

definition from_ic_andi :: "nz_xregister \<Rightarrow> xregister \<Rightarrow> u64 \<Rightarrow> instruction" where
  "from_ic_andi rd rs1 imm =
     (case split_x0 rs1 of
        X0 \<Rightarrow> new_li rd 0 Uncompressed
      | NonZero rs1 \<Rightarrow> new_andi rd rs1 imm Uncompressed)"

definition from_ic_candi :: "xregister \<Rightarrow> u64 \<Rightarrow> instruction" where
  "from_ic_candi rd_rs1 imm =
     (case split_x0 rd_rs1 of
        X0 \<Rightarrow> new_nop Compressed
      | NonZero rd_rs1 \<Rightarrow> new_andi rd_rs1 rd_rs1 imm Compressed)"

definition from_ic_ori :: "nz_xregister \<Rightarrow> xregister \<Rightarrow> u64 \<Rightarrow> instruction" where
  "from_ic_ori rd rs1 imm =
     (case split_x0 rs1 of
        X0 \<Rightarrow> new_li rd imm Uncompressed
      | NonZero rs1 \<Rightarrow> new_x64_or_immediate rd rs1 imm Uncompressed)"

definition from_ic_xori :: "nz_xregister \<Rightarrow> xregister \<Rightarrow> u64 \<Rightarrow> instruction" where
  "from_ic_xori rd rs1 imm =
     (case split_x0 rs1 of
        X0 \<Rightarrow> new_li rd imm Uncompressed
      | NonZero rs1 \<Rightarrow> new_x64_xor_immediate rd rs1 imm Uncompressed)"

definition from_ic_slli :: "nz_xregister \<Rightarrow> xregister \<Rightarrow> u64 \<Rightarrow> instruction" where
  "from_ic_slli rd rs1 imm =
     (case split_x0 rs1 of
        X0 \<Rightarrow> new_li rd 0 Uncompressed
      | NonZero rs1 \<Rightarrow> new_shift_left_immediate rd rs1 imm Uncompressed)"

definition from_ic_srli :: "nz_xregister \<Rightarrow> xregister \<Rightarrow> u64 \<Rightarrow> instruction" where
  "from_ic_srli rd rs1 imm =
     (case split_x0 rs1 of
        X0 \<Rightarrow> new_li rd 0 Uncompressed
      | NonZero rs1 \<Rightarrow> new_shift_right_immediate_unsigned rd rs1 imm Uncompressed)"

definition from_ic_csrli :: "xregister \<Rightarrow> u64 \<Rightarrow> instruction" where
  "from_ic_csrli rd_rs1 imm =
     (case split_x0 rd_rs1 of
        X0 \<Rightarrow> new_nop Compressed
      | NonZero rd_rs1 \<Rightarrow> new_shift_right_immediate_unsigned rd_rs1 rd_rs1 imm Compressed)"

definition from_ic_srai :: "nz_xregister \<Rightarrow> xregister \<Rightarrow> u64 \<Rightarrow> instruction" where
  "from_ic_srai rd rs1 imm =
     (case split_x0 rs1 of
        X0 \<Rightarrow> new_li rd 0 Uncompressed
      | NonZero rs1 \<Rightarrow> new_shift_right_immediate_signed rd rs1 imm Uncompressed)"

definition from_ic_csrai :: "xregister \<Rightarrow> u64 \<Rightarrow> instruction" where
  "from_ic_csrai rd_rs1 imm =
     (case split_x0 rd_rs1 of
        X0 \<Rightarrow> new_nop Compressed
      | NonZero rd_rs1 \<Rightarrow> new_shift_right_immediate_signed rd_rs1 rd_rs1 imm Compressed)"

definition from_ic_x32_shift_left_immediate :: "nz_xregister \<Rightarrow> xregister \<Rightarrow> u64 \<Rightarrow> instruction" where
  "from_ic_x32_shift_left_immediate rd rs1 imm =
     (case split_x0 rs1 of
        X0 \<Rightarrow> new_li rd 0 Uncompressed
      | NonZero rs1 \<Rightarrow> new_x32_shift_left_immediate rd rs1 imm Uncompressed)"

definition from_ic_x32_shift_right_immediate_unsigned :: "nz_xregister \<Rightarrow> xregister \<Rightarrow> u64 \<Rightarrow> instruction" where
  "from_ic_x32_shift_right_immediate_unsigned rd rs1 imm =
     (case split_x0 rs1 of
        X0 \<Rightarrow> new_li rd 0 Uncompressed
      | NonZero rs1 \<Rightarrow> new_x32_shift_right_immediate_unsigned rd rs1 imm Uncompressed)"

definition from_ic_x32_shift_right_immediate_signed :: "nz_xregister \<Rightarrow> xregister \<Rightarrow> u64 \<Rightarrow> instruction" where
  "from_ic_x32_shift_right_immediate_signed rd rs1 imm =
     (case split_x0 rs1 of
        X0 \<Rightarrow> new_li rd 0 Uncompressed
      | NonZero rs1 \<Rightarrow> new_x32_shift_right_immediate_signed rd rs1 imm Uncompressed)"

definition from_ic_and :: "nz_xregister \<Rightarrow> xregister \<Rightarrow> xregister \<Rightarrow> instruction" where
  "from_ic_and rd rs1 rs2 =
     (case (split_x0 rs1, split_x0 rs2) of
        (X0, _) \<Rightarrow> new_li rd 0 Uncompressed
      | (_, X0) \<Rightarrow> new_li rd 0 Uncompressed
      | (NonZero rs1, NonZero rs2) \<Rightarrow> new_and rd rs1 rs2 Uncompressed)"

definition from_ic_cand :: "xregister \<Rightarrow> xregister \<Rightarrow> instruction" where
  "from_ic_cand rd_rs1 rs2 =
     (case (split_x0 rd_rs1, split_x0 rs2) of
        (X0, _) \<Rightarrow> new_nop Compressed
      | (NonZero rd_rs1, X0) \<Rightarrow> new_li rd_rs1 0 Compressed
      | (NonZero rd_rs1, NonZero rs2) \<Rightarrow> new_and rd_rs1 rd_rs1 rs2 Compressed)"

definition from_ic_or :: "nz_xregister \<Rightarrow> xregister \<Rightarrow> xregister \<Rightarrow> instruction" where
  "from_ic_or rd rs1 rs2 =
     (case (split_x0 rs1, split_x0 rs2) of
        (X0, X0) \<Rightarrow> new_li rd 0 Uncompressed
      | (NonZero rs1, X0) \<Rightarrow> new_mv rd rs1 Uncompressed
      | (X0, NonZero rs1) \<Rightarrow> new_mv rd rs1 Uncompressed
      | (NonZero rs1, NonZero rs2) \<Rightarrow> new_or rd rs1 rs2 Uncompressed)"

definition from_ic_cor :: "xregister \<Rightarrow> xregister \<Rightarrow> instruction" where
  "from_ic_cor rd_rs1 rs2 =
     (case (split_x0 rd_rs1, split_x0 rs2) of
        (X0, _) \<Rightarrow> new_nop Compressed
      | (_, X0) \<Rightarrow> new_nop Compressed
      | (NonZero rd_rs1, NonZero rs2) \<Rightarrow> new_or rd_rs1 rd_rs1 rs2 Compressed)"

definition from_ic_xor :: "nz_xregister \<Rightarrow> xregister \<Rightarrow> xregister \<Rightarrow> instruction" where
  "from_ic_xor rd rs1 rs2 =
     (case (split_x0 rs1, split_x0 rs2) of
        (X0, X0) \<Rightarrow> new_li rd 0 Uncompressed
      | (NonZero rs1, X0) \<Rightarrow> new_mv rd rs1 Uncompressed
      | (X0, NonZero rs1) \<Rightarrow> new_mv rd rs1 Uncompressed
      | (NonZero rs1, NonZero rs2) \<Rightarrow> new_x64_xor rd rs1 rs2 Uncompressed)"

definition from_ic_cxor :: "xregister \<Rightarrow> xregister \<Rightarrow> instruction" where
  "from_ic_cxor rd_rs1 rs2 =
     (case (split_x0 rd_rs1, split_x0 rs2) of
        (X0, _) \<Rightarrow> new_nop Compressed
      | (_, X0) \<Rightarrow> new_nop Compressed
      | (NonZero rd_rs1, NonZero rs2) \<Rightarrow> new_x64_xor rd_rs1 rd_rs1 rs2 Compressed)"

definition from_ic_sll :: "nz_xregister \<Rightarrow> xregister \<Rightarrow> xregister \<Rightarrow> instruction" where
  "from_ic_sll rd rs1 rs2 =
     (case (split_x0 rs1, split_x0 rs2) of
        (X0, _) \<Rightarrow> new_li rd 0 Uncompressed
      | (NonZero rs1, X0) \<Rightarrow> new_mv rd rs1 Uncompressed
      | (NonZero rs1, NonZero rs2) \<Rightarrow> new_shift_left rd rs1 rs2 Uncompressed)"

definition from_ic_srl :: "nz_xregister \<Rightarrow> xregister \<Rightarrow> xregister \<Rightarrow> instruction" where
  "from_ic_srl rd rs1 rs2 =
     (case (split_x0 rs1, split_x0 rs2) of
        (X0, _) \<Rightarrow> new_li rd 0 Uncompressed
      | (NonZero rs1, X0) \<Rightarrow> new_mv rd rs1 Uncompressed
      | (NonZero rs1, NonZero rs2) \<Rightarrow> new_shift_right_unsigned rd rs1 rs2 Uncompressed)"

definition from_ic_sra :: "nz_xregister \<Rightarrow> xregister \<Rightarrow> xregister \<Rightarrow> instruction" where
  "from_ic_sra rd rs1 rs2 =
     (case (split_x0 rs1, split_x0 rs2) of
        (X0, _) \<Rightarrow> new_li rd 0 Uncompressed
      | (NonZero rs1, X0) \<Rightarrow> new_mv rd rs1 Uncompressed
      | (NonZero rs1, NonZero rs2) \<Rightarrow> new_shift_right_signed rd rs1 rs2 Uncompressed)"

definition from_ic_jal :: "xregister \<Rightarrow> u64 \<Rightarrow> instruction" where
  "from_ic_jal rd imm =
     (case split_x0 rd of
        X0 \<Rightarrow> new_j imm Uncompressed
      | NonZero rd \<Rightarrow> new_jal rd imm Uncompressed)"

definition from_ic_beq :: "xregister \<Rightarrow> xregister \<Rightarrow> u64 \<Rightarrow> instruction" where
  "from_ic_beq rs1 rs2 imm =
     (case (split_x0 rs1, split_x0 rs2) of
        (X0, X0) \<Rightarrow> new_j imm Uncompressed
      | (NonZero rs1, X0) \<Rightarrow> new_branch_equal_zero rs1 imm Uncompressed
      | (X0, NonZero rs1) \<Rightarrow> new_branch_equal_zero rs1 imm Uncompressed
      | (NonZero rs1, NonZero rs2) \<Rightarrow> if rs1 = rs2 then new_j imm Uncompressed else new_branch_equal rs1 rs2 imm Uncompressed)"

definition from_ic_cbeqz :: "xregister \<Rightarrow> u64 \<Rightarrow> instruction" where
  "from_ic_cbeqz rd_rs1 imm =
     (case split_x0 rd_rs1 of
        X0 \<Rightarrow> new_j imm Compressed
      | NonZero rd_rs1 \<Rightarrow> new_branch_equal_zero rd_rs1 imm Compressed)"

definition from_ic_bne :: "xregister \<Rightarrow> xregister \<Rightarrow> u64 \<Rightarrow> instruction" where
  "from_ic_bne rs1 rs2 imm =
     (case (split_x0 rs1, split_x0 rs2) of
        (X0, X0) \<Rightarrow> new_nop Uncompressed
      | (NonZero rs1, X0) \<Rightarrow> new_branch_not_equal_zero rs1 imm Uncompressed
      | (X0, NonZero rs1) \<Rightarrow> new_branch_not_equal_zero rs1 imm Uncompressed
      | (NonZero rs1, NonZero rs2) \<Rightarrow> if rs1 = rs2 then new_nop Uncompressed else new_branch_not_equal rs1 rs2 imm Uncompressed)"

definition from_ic_cbnez :: "xregister \<Rightarrow> u64 \<Rightarrow> instruction" where
  "from_ic_cbnez rd_rs1 imm =
     (case split_x0 rd_rs1 of
        X0 \<Rightarrow> new_nop Compressed
      | NonZero rd_rs1 \<Rightarrow> new_branch_not_equal_zero rd_rs1 imm Compressed)"

definition from_ic_jalr :: "xregister \<Rightarrow> xregister \<Rightarrow> u64 \<Rightarrow> instruction" where
  "from_ic_jalr rd rs1 imm =
     (case (split_x0 rd, split_x0 rs1) of
        (X0, X0) \<Rightarrow> new_j_absolute imm Uncompressed
      | (X0, NonZero rs1) \<Rightarrow>
          if imm = 0 then new_jr rs1 Uncompressed else new_jr_imm rs1 imm Uncompressed
      | (NonZero rd, X0) \<Rightarrow> new_jalr_absolute rd imm Uncompressed
      | (NonZero rd, NonZero rs1) \<Rightarrow>
          if imm = 0 then new_jalr rd rs1 Uncompressed else new_jalr_imm rd rs1 imm Uncompressed)"

definition from_ic_blt :: "xregister \<Rightarrow> xregister \<Rightarrow> u64 \<Rightarrow> instruction" where
  "from_ic_blt rs1 rs2 imm =
     (case (split_x0 rs1, split_x0 rs2) of
        (X0, X0) \<Rightarrow> new_nop Uncompressed
      | (NonZero rs1, X0) \<Rightarrow> new_branch_less_than_zero rs1 imm Uncompressed
      | (X0, NonZero rs1) \<Rightarrow> new_branch_greater_than_zero rs1 imm Uncompressed
      | (NonZero rs1, NonZero rs2) \<Rightarrow> if rs1 = rs2 then new_nop Uncompressed else new_branch_less_than_signed rs1 rs2 imm Uncompressed)"

definition from_ic_bge :: "xregister \<Rightarrow> xregister \<Rightarrow> u64 \<Rightarrow> instruction" where
  "from_ic_bge rs1 rs2 imm =
     (case (split_x0 rs1, split_x0 rs2) of
        (X0, X0) \<Rightarrow> new_j imm Uncompressed
      | (NonZero rs1, X0) \<Rightarrow> new_branch_greater_than_or_equal_zero rs1 imm Uncompressed
      | (X0, NonZero rs1) \<Rightarrow> new_branch_less_than_or_equal_zero rs1 imm Uncompressed
      | (NonZero rs1, NonZero rs2) \<Rightarrow> if rs1 = rs2 then new_j imm Uncompressed else new_branch_greater_than_or_equal_signed rs1 rs2 imm Uncompressed)"

definition from_ic_bltu :: "xregister \<Rightarrow> xregister \<Rightarrow> u64 \<Rightarrow> instruction" where
  "from_ic_bltu rs1 rs2 imm =
     (case (split_x0 rs1, split_x0 rs2) of
        (_, X0) \<Rightarrow> new_nop Uncompressed
      | (X0, NonZero rs1) \<Rightarrow> new_branch_not_equal_zero rs1 imm Uncompressed
      | (NonZero rs1, NonZero rs2) \<Rightarrow> if rs1 = rs2 then new_nop Uncompressed else new_branch_less_than_unsigned rs1 rs2 imm Uncompressed)"

definition from_ic_bgeu :: "xregister \<Rightarrow> xregister \<Rightarrow> u64 \<Rightarrow> instruction" where
  "from_ic_bgeu rs1 rs2 imm =
     (case (split_x0 rs1, split_x0 rs2) of
        (_, X0) \<Rightarrow> new_j imm Uncompressed
      | (X0, NonZero rs1) \<Rightarrow> new_branch_equal_zero rs1 imm Uncompressed
      | (NonZero rs1, NonZero rs2) \<Rightarrow> if rs1 = rs2 then new_j imm Uncompressed else new_branch_greater_than_or_equal_unsigned rs1 rs2 imm Uncompressed)"

definition from_ic_mul :: "xregister \<Rightarrow> xregister \<Rightarrow> xregister \<Rightarrow> instruction" where
  "from_ic_mul rd rs1 rs2 =
     (case (split_x0 rd, split_x0 rs1, split_x0 rs2) of
        (X0, _, _) \<Rightarrow> new_nop Uncompressed
      | (NonZero rd, X0, _) \<Rightarrow> new_li rd 0 Uncompressed
      | (NonZero rd, _, X0) \<Rightarrow> new_li rd 0 Uncompressed
      | (NonZero rd, NonZero rs1, NonZero rs2) \<Rightarrow> new_mul rd rs1 rs2 Uncompressed)"

definition from_ic_mulh :: "xregister \<Rightarrow> xregister \<Rightarrow> xregister \<Rightarrow> instruction" where
  "from_ic_mulh rd rs1 rs2 =
     (case (split_x0 rd, split_x0 rs1, split_x0 rs2) of
        (X0, _, _) \<Rightarrow> new_nop Uncompressed
      | (NonZero rd, X0, _) \<Rightarrow> new_li rd 0 Uncompressed
      | (NonZero rd, _, X0) \<Rightarrow> new_li rd 0 Uncompressed
      | (NonZero rd, NonZero rs1, NonZero rs2) \<Rightarrow> new_x64_mul_high_signed rd rs1 rs2 Uncompressed)"

definition from_ic_mulhsu :: "xregister \<Rightarrow> xregister \<Rightarrow> xregister \<Rightarrow> instruction" where
  "from_ic_mulhsu rd rs1 rs2 =
     (case (split_x0 rd, split_x0 rs1, split_x0 rs2) of
        (X0, _, _) \<Rightarrow> new_nop Uncompressed
      | (NonZero rd, X0, _) \<Rightarrow> new_li rd 0 Uncompressed
      | (NonZero rd, _, X0) \<Rightarrow> new_li rd 0 Uncompressed
      | (NonZero rd, NonZero rs1, NonZero rs2) \<Rightarrow> new_x64_mul_high_signed_unsigned rd rs1 rs2 Uncompressed)"

definition from_ic_mulhu :: "xregister \<Rightarrow> xregister \<Rightarrow> xregister \<Rightarrow> instruction" where
  "from_ic_mulhu rd rs1 rs2 =
     (case (split_x0 rd, split_x0 rs1, split_x0 rs2) of
        (X0, _, _) \<Rightarrow> new_nop Uncompressed
      | (NonZero rd, X0, _) \<Rightarrow> new_li rd 0 Uncompressed
      | (NonZero rd, _, X0) \<Rightarrow> new_li rd 0 Uncompressed
      | (NonZero rd, NonZero rs1, NonZero rs2) \<Rightarrow> new_x64_mul_high_unsigned rd rs1 rs2 Uncompressed)"

definition from_ic_div :: "xregister \<Rightarrow> xregister \<Rightarrow> xregister \<Rightarrow> instruction" where
  "from_ic_div rd rs1 rs2 =
     (case split_x0 rd of
        X0 \<Rightarrow> new_nop Uncompressed
      | NonZero rd \<Rightarrow> new_x64_div_signed rd rs1 rs2 Uncompressed)"

definition from_ic_divu :: "xregister \<Rightarrow> xregister \<Rightarrow> xregister \<Rightarrow> instruction" where
  "from_ic_divu rd rs1 rs2 =
     (case split_x0 rd of
        X0 \<Rightarrow> new_nop Uncompressed
      | NonZero rd \<Rightarrow> new_x64_div_unsigned rd rs1 rs2 Uncompressed)"

definition from_ic_divw :: "xregister \<Rightarrow> xregister \<Rightarrow> xregister \<Rightarrow> instruction" where
  "from_ic_divw rd rs1 rs2 =
     (case split_x0 rd of
        X0 \<Rightarrow> new_nop Uncompressed
      | NonZero rd \<Rightarrow> new_x32_div_signed rd rs1 rs2 Uncompressed)"

definition from_ic_divuw :: "xregister \<Rightarrow> xregister \<Rightarrow> xregister \<Rightarrow> instruction" where
  "from_ic_divuw rd rs1 rs2 =
     (case split_x0 rd of
        X0 \<Rightarrow> new_nop Uncompressed
      | NonZero rd \<Rightarrow> new_x32_div_unsigned rd rs1 rs2 Uncompressed)"

definition from_ic_rem :: "xregister \<Rightarrow> xregister \<Rightarrow> xregister \<Rightarrow> instruction" where
  "from_ic_rem rd rs1 rs2 =
     (case split_x0 rd of
        X0 \<Rightarrow> new_nop Uncompressed
      | NonZero rd \<Rightarrow> new_x64_rem_signed rd rs1 rs2 Uncompressed)"

definition from_ic_remu :: "xregister \<Rightarrow> xregister \<Rightarrow> xregister \<Rightarrow> instruction" where
  "from_ic_remu rd rs1 rs2 =
     (case split_x0 rd of
        X0 \<Rightarrow> new_nop Uncompressed
      | NonZero rd \<Rightarrow> new_x64_rem_unsigned rd rs1 rs2 Uncompressed)"

definition from_ic_remw :: "xregister \<Rightarrow> xregister \<Rightarrow> xregister \<Rightarrow> instruction" where
  "from_ic_remw rd rs1 rs2 =
     (case split_x0 rd of
        X0 \<Rightarrow> new_nop Uncompressed
      | NonZero rd \<Rightarrow> new_x32_rem_signed rd rs1 rs2 Uncompressed)"

definition from_ic_remuw :: "xregister \<Rightarrow> xregister \<Rightarrow> xregister \<Rightarrow> instruction" where
  "from_ic_remuw rd rs1 rs2 =
     (case split_x0 rd of
        X0 \<Rightarrow> new_nop Uncompressed
      | NonZero rd \<Rightarrow> new_x32_rem_unsigned rd rs1 rs2 Uncompressed)"

section \<open>Arguments of the variants without a constructor function\<close>

definition args_from_amo :: "xregister \<Rightarrow> xregister \<Rightarrow> xregister \<Rightarrow> bool \<Rightarrow> bool \<Rightarrow> instr_args" where
  "args_from_amo rd rs1 rs2 aq rl =
     ARGS_DEFAULT\<lparr>arg_rd := register_x rd, arg_rs1 := register_x rs1, arg_rs2 := register_x rs2,
                  arg_aq := aq, arg_rl := rl, arg_width := Uncompressed\<rparr>"

definition args_from_csr :: "xregister \<Rightarrow> xregister \<Rightarrow> csregister \<Rightarrow> instr_args" where
  "args_from_csr rd rs1 csr =
     ARGS_DEFAULT\<lparr>arg_rd := register_x rd, arg_rs1 := register_x rs1, arg_csr := csr,
                  arg_width := Uncompressed\<rparr>"

definition args_from_csri :: "xregister \<Rightarrow> u64 \<Rightarrow> csregister \<Rightarrow> instr_args" where
  "args_from_csri rd imm csr =
     ARGS_DEFAULT\<lparr>arg_rd := register_x rd, arg_imm := imm, arg_csr := csr, arg_width := Uncompressed\<rparr>"

definition args_from_fload :: "xregister \<Rightarrow> fregister \<Rightarrow> u64 \<Rightarrow> instr_width \<Rightarrow> instr_args" where
  "args_from_fload rs1 rd imm width =
     ARGS_DEFAULT\<lparr>arg_rd := register_f rd, arg_rs1 := register_x rs1, arg_imm := imm, arg_width := width\<rparr>"

definition args_from_fstore :: "xregister \<Rightarrow> fregister \<Rightarrow> u64 \<Rightarrow> instr_width \<Rightarrow> instr_args" where
  "args_from_fstore rs1 rs2 imm width =
     ARGS_DEFAULT\<lparr>arg_rs1 := register_x rs1, arg_rs2 := register_f rs2, arg_imm := imm, arg_width := width\<rparr>"

definition args_from_cssd :: "fregister \<Rightarrow> u64 \<Rightarrow> instr_args" where
  "args_from_cssd rs2 imm =
     ARGS_DEFAULT\<lparr>arg_imm := imm, arg_rs2 := register_f rs2, arg_width := Compressed\<rparr>"

definition args_from_cibd :: "fregister \<Rightarrow> u64 \<Rightarrow> instr_args" where
  "args_from_cibd rd_rs1 imm =
     ARGS_DEFAULT\<lparr>arg_imm := imm, arg_rd := register_f rd_rs1, arg_width := Compressed\<rparr>"

definition args_from_x_to_f :: "fregister \<Rightarrow> xregister \<Rightarrow> instr_args" where
  "args_from_x_to_f rd rs1 =
     ARGS_DEFAULT\<lparr>arg_rd := register_f rd, arg_rs1 := register_x rs1, arg_width := Uncompressed\<rparr>"

definition args_from_x_to_f_rm :: "fregister \<Rightarrow> xregister \<Rightarrow> instr_rounding_mode \<Rightarrow> instr_args" where
  "args_from_x_to_f_rm rd rs1 rm =
     ARGS_DEFAULT\<lparr>arg_rd := register_f rd, arg_rs1 := register_x rs1, arg_rm := rm, arg_width := Uncompressed\<rparr>"

definition args_from_f_to_x :: "xregister \<Rightarrow> fregister \<Rightarrow> instr_args" where
  "args_from_f_to_x rd rs1 =
     ARGS_DEFAULT\<lparr>arg_rd := register_x rd, arg_rs1 := register_f rs1, arg_width := Uncompressed\<rparr>"

definition args_from_f_to_x_rm :: "xregister \<Rightarrow> fregister \<Rightarrow> instr_rounding_mode \<Rightarrow> instr_args" where
  "args_from_f_to_x_rm rd rs1 rm =
     ARGS_DEFAULT\<lparr>arg_rd := register_x rd, arg_rs1 := register_f rs1, arg_rm := rm, arg_width := Uncompressed\<rparr>"

definition args_from_fr3 :: "fregister \<Rightarrow> fregister \<Rightarrow> fregister \<Rightarrow> instr_rounding_mode \<Rightarrow> fregister \<Rightarrow> instr_args" where
  "args_from_fr3 rs1 rs2 rs3 rm rd =
     ARGS_DEFAULT\<lparr>arg_rd := register_f rd, arg_rs1 := register_f rs1, arg_rs2 := register_f rs2,
                  arg_rs3f := rs3, arg_rm := rm, arg_width := Uncompressed\<rparr>"

definition args_from_fr :: "fregister \<Rightarrow> fregister \<Rightarrow> fregister \<Rightarrow> instr_args" where
  "args_from_fr rs1 rs2 rd =
     ARGS_DEFAULT\<lparr>arg_rd := register_f rd, arg_rs1 := register_f rs1, arg_rs2 := register_f rs2,
                  arg_width := Uncompressed\<rparr>"

definition args_from_fr1 :: "fregister \<Rightarrow> instr_rounding_mode \<Rightarrow> fregister \<Rightarrow> instr_args" where
  "args_from_fr1 rs1 rm rd =
     ARGS_DEFAULT\<lparr>arg_rd := register_f rd, arg_rs1 := register_f rs1, arg_rm := rm, arg_width := Uncompressed\<rparr>"

definition args_from_fr2 :: "fregister \<Rightarrow> fregister \<Rightarrow> instr_rounding_mode \<Rightarrow> fregister \<Rightarrow> instr_args" where
  "args_from_fr2 rs1 rs2 rm rd =
     ARGS_DEFAULT\<lparr>arg_rd := register_f rd, arg_rs1 := register_f rs1, arg_rs2 := register_f rs2,
                  arg_rm := rm, arg_width := Uncompressed\<rparr>"

definition args_from_fcmp :: "fregister \<Rightarrow> fregister \<Rightarrow> xregister \<Rightarrow> instr_args" where
  "args_from_fcmp rs1 rs2 rd =
     ARGS_DEFAULT\<lparr>arg_rd := register_x rd, arg_rs1 := register_f rs1, arg_rs2 := register_f rs2,
                  arg_width := Uncompressed\<rparr>"

section \<open>Translation of parsed instructions\<close>

text \<open>\<^verbatim>\<open>From<&InstrCacheable> for Instruction\<close>, one function per argument structure.\<close>

primrec from_nz_rd_r :: "nz_rd_r_op \<Rightarrow> nz_xregister \<Rightarrow> xregister \<Rightarrow> xregister \<Rightarrow> instruction" where
  "from_nz_rd_r Add = from_ic_add"
| "from_nz_rd_r Sub = from_ic_sub"
| "from_nz_rd_r Xor = from_ic_xor"
| "from_nz_rd_r Or = from_ic_or"
| "from_nz_rd_r And = from_ic_and"
| "from_nz_rd_r Sll = from_ic_sll"
| "from_nz_rd_r Srl = from_ic_srl"
| "from_nz_rd_r Sra = from_ic_sra"
| "from_nz_rd_r Slt = new_set_less_than_signed"
| "from_nz_rd_r Sltu = new_set_less_than_unsigned"
| "from_nz_rd_r Addw = (\<lambda>rd rs1 rs2. new_add_word rd rs1 rs2 Uncompressed)"
| "from_nz_rd_r Subw = (\<lambda>rd rs1 rs2. new_sub_word rd rs1 rs2 Uncompressed)"
| "from_nz_rd_r Sllw = (\<lambda>rd rs1 rs2. new_x32_shift_left rd rs1 rs2 Uncompressed)"
| "from_nz_rd_r Srlw = (\<lambda>rd rs1 rs2. new_x32_shift_right_unsigned rd rs1 rs2 Uncompressed)"
| "from_nz_rd_r Sraw = (\<lambda>rd rs1 rs2. new_x32_shift_right_signed rd rs1 rs2 Uncompressed)"

primrec from_nz_rd_i :: "nz_rd_i_op \<Rightarrow> nz_xregister \<Rightarrow> xregister \<Rightarrow> u64 \<Rightarrow> instruction" where
  "from_nz_rd_i Addiw = (\<lambda>rd rs1 imm. new_add_word_immediate rd rs1 imm Uncompressed)"
| "from_nz_rd_i Xori = from_ic_xori"
| "from_nz_rd_i Ori = from_ic_ori"
| "from_nz_rd_i Andi = from_ic_andi"
| "from_nz_rd_i Slli = from_ic_slli"
| "from_nz_rd_i Srli = from_ic_srli"
| "from_nz_rd_i Srai = from_ic_srai"
| "from_nz_rd_i Slliw = from_ic_x32_shift_left_immediate"
| "from_nz_rd_i Srliw = from_ic_x32_shift_right_immediate_unsigned"
| "from_nz_rd_i Sraiw = from_ic_x32_shift_right_immediate_signed"
| "from_nz_rd_i Slti = new_set_less_than_immediate_signed"
| "from_nz_rd_i Sltiu = new_set_less_than_immediate_unsigned"

primrec from_i :: "i_op \<Rightarrow> xregister \<Rightarrow> xregister \<Rightarrow> u64 \<Rightarrow> instruction" where
  "from_i Lb = (\<lambda>rd rs1 imm. new_x8_load_signed rd rs1 imm Uncompressed)"
| "from_i Lh = (\<lambda>rd rs1 imm. new_x16_load_signed rd rs1 imm Uncompressed)"
| "from_i Lw = (\<lambda>rd rs1 imm. new_x32_load_signed rd rs1 imm Uncompressed)"
| "from_i Lbu = (\<lambda>rd rs1 imm. new_x8_load_unsigned rd rs1 imm Uncompressed)"
| "from_i Lhu = (\<lambda>rd rs1 imm. new_x16_load_unsigned rd rs1 imm Uncompressed)"
| "from_i Lwu = (\<lambda>rd rs1 imm. new_x32_load_unsigned rd rs1 imm Uncompressed)"
| "from_i Ld = (\<lambda>rd rs1 imm. new_x64_load_signed rd rs1 imm Uncompressed)"
| "from_i Jalr = from_ic_jalr"

primrec from_sb :: "sb_op \<Rightarrow> xregister \<Rightarrow> xregister \<Rightarrow> u64 \<Rightarrow> instruction" where
  "from_sb Sb = (\<lambda>rs1 rs2 imm. new_x8_store rs1 rs2 imm Uncompressed)"
| "from_sb Sh = (\<lambda>rs1 rs2 imm. new_x16_store rs1 rs2 imm Uncompressed)"
| "from_sb Sw = (\<lambda>rs1 rs2 imm. new_x32_store rs1 rs2 imm Uncompressed)"
| "from_sb Sd = (\<lambda>rs1 rs2 imm. new_x64_store rs1 rs2 imm Uncompressed)"
| "from_sb Beq = from_ic_beq"
| "from_sb Bne = from_ic_bne"
| "from_sb Blt = from_ic_blt"
| "from_sb Bge = from_ic_bge"
| "from_sb Bltu = from_ic_bltu"
| "from_sb Bgeu = from_ic_bgeu"

definition amo_instruction :: "op_amo \<Rightarrow> xregister \<Rightarrow> xregister \<Rightarrow> xregister \<Rightarrow> bool \<Rightarrow> bool \<Rightarrow> instruction" where
  "amo_instruction op rd rs1 rs2 aq rl = \<lparr>opcode = AmoType op, args = args_from_amo rd rs1 rs2 aq rl\<rparr>"

primrec from_amo :: "amo_op \<Rightarrow> xregister \<Rightarrow> xregister \<Rightarrow> xregister \<Rightarrow> bool \<Rightarrow> bool \<Rightarrow> instruction" where
  "from_amo Lrw = (\<lambda>rd rs1 rs2 aq rl. new_x32_atomic_load rd rs1 aq rl Uncompressed)"
| "from_amo Scw = (\<lambda>rd rs1 rs2 aq rl. new_x32_atomic_store rd rs1 rs2 aq rl Uncompressed)"
| "from_amo Amoswapw = (\<lambda>rd rs1 rs2 aq rl. new_x32_atomic_swap rd rs1 rs2 aq rl Uncompressed)"
| "from_amo Amoaddw = amo_instruction OP_Amoaddw"
| "from_amo Amoxorw = amo_instruction OP_Amoxorw"
| "from_amo Amoandw = amo_instruction OP_Amoandw"
| "from_amo Amoorw = amo_instruction OP_Amoorw"
| "from_amo Amominw = amo_instruction OP_Amominw"
| "from_amo Amomaxw = amo_instruction OP_Amomaxw"
| "from_amo Amominuw = amo_instruction OP_Amominuw"
| "from_amo Amomaxuw = amo_instruction OP_Amomaxuw"
| "from_amo Lrd = (\<lambda>rd rs1 rs2 aq rl. new_x64_atomic_load rd rs1 aq rl Uncompressed)"
| "from_amo Scd = (\<lambda>rd rs1 rs2 aq rl. new_x64_atomic_store rd rs1 rs2 aq rl Uncompressed)"
| "from_amo Amoswapd = (\<lambda>rd rs1 rs2 aq rl. new_x64_atomic_swap rd rs1 rs2 aq rl Uncompressed)"
| "from_amo Amoaddd = (\<lambda>rd rs1 rs2 aq rl. new_x64_atomic_add rd rs1 rs2 aq rl Uncompressed)"
| "from_amo Amoxord = amo_instruction OP_Amoxord"
| "from_amo Amoandd = amo_instruction OP_Amoandd"
| "from_amo Amoord = amo_instruction OP_Amoord"
| "from_amo Amomind = (\<lambda>rd rs1 rs2 aq rl. new_x64_atomic_min_signed rd rs1 rs2 aq rl Uncompressed)"
| "from_amo Amomaxd = amo_instruction OP_Amomaxd"
| "from_amo Amominud = amo_instruction OP_Amominud"
| "from_amo Amomaxud = amo_instruction OP_Amomaxud"

primrec from_r :: "r_op \<Rightarrow> xregister \<Rightarrow> xregister \<Rightarrow> xregister \<Rightarrow> instruction" where
  "from_r Rem = from_ic_rem"
| "from_r Remu = from_ic_remu"
| "from_r Remw = from_ic_remw"
| "from_r Remuw = from_ic_remuw"
| "from_r Div = from_ic_div"
| "from_r Divu = from_ic_divu"
| "from_r Divw = from_ic_divw"
| "from_r Divuw = from_ic_divuw"
| "from_r Mul = from_ic_mul"
| "from_r Mulh = from_ic_mulh"
| "from_r Mulhsu = from_ic_mulhsu"
| "from_r Mulhu = from_ic_mulhu"
| "from_r Mulw = (\<lambda>rd rs1 rs2. new_x32_mul rd rs1 rs2 Uncompressed)"

primrec from_csr_op :: "csr_op \<Rightarrow> op_csr" where
  "from_csr_op Csrrw = OP_Csrrw"
| "from_csr_op Csrrs = OP_Csrrs"
| "from_csr_op Csrrc = OP_Csrrc"

primrec from_csri_op :: "csri_op \<Rightarrow> op_csr_imm" where
  "from_csri_op Csrrwi = OP_Csrrwi"
| "from_csri_op Csrrsi = OP_Csrrsi"
| "from_csri_op Csrrci = OP_Csrrci"

primrec from_cib_nz :: "cib_nz_op \<Rightarrow> nz_xregister \<Rightarrow> u64 \<Rightarrow> instruction" where
  "from_cib_nz CLwsp = (\<lambda>rd_rs1 imm. new_x32_load_signed (xregister_from rd_rs1) x2 imm Compressed)"
| "from_cib_nz CLi = (\<lambda>rd_rs1 imm. new_li rd_rs1 imm Compressed)"
| "from_cib_nz CLui = (\<lambda>rd_rs1 imm. new_li rd_rs1 imm Compressed)"
| "from_cib_nz CAddi = (\<lambda>rd_rs1 imm. new_addi rd_rs1 rd_rs1 imm Compressed)"
| "from_cib_nz CSlli = (\<lambda>rd_rs1 imm. new_shift_left_immediate rd_rs1 rd_rs1 imm Compressed)"
| "from_cib_nz CLdsp = (\<lambda>rd_rs1 imm. new_x64_load_signed (xregister_from rd_rs1) x2 imm Compressed)"
| "from_cib_nz CAddiw = (\<lambda>rd_rs1 imm. new_add_word_immediate rd_rs1 (xregister_from rd_rs1) imm Compressed)"

primrec from_cib :: "cib_op \<Rightarrow> xregister \<Rightarrow> u64 \<Rightarrow> instruction" where
  "from_cib CBeqz = from_ic_cbeqz"
| "from_cib CBnez = from_ic_cbnez"
| "from_cib CAddi4spn = from_ic_caddi4spn"
| "from_cib CSrli = from_ic_csrli"
| "from_cib CSrai = from_ic_csrai"
| "from_cib CAndi = from_ic_candi"

primrec from_cr :: "cr_op \<Rightarrow> xregister \<Rightarrow> xregister \<Rightarrow> instruction" where
  "from_cr CAnd = from_ic_cand"
| "from_cr COr = from_ic_cor"
| "from_cr CXor = from_ic_cxor"
| "from_cr CSub = from_ic_csub"
| "from_cr CAddw = from_ic_caddw"
| "from_cr CSubw = from_ic_csubw"

definition float_instruction :: "op_float \<Rightarrow> instr_args \<Rightarrow> instruction" where
  "float_instruction op a = \<lparr>opcode = FloatType op, args = a\<rparr>"

definition instruction_from :: "instr_cacheable \<Rightarrow> instruction" where
  "instruction_from i =
     (case i of
        NonZeroRdRTypeArgs op rd rs1 rs2 \<Rightarrow> from_nz_rd_r op rd rs1 rs2
      | RTypeArgs op rd rs1 rs2 \<Rightarrow> from_r op rd rs1 rs2
      | SplitITypeArgs rd rs1 imm \<Rightarrow> from_ic_addi rd rs1 imm
      | NonZeroRdITypeArgs op rd rs1 imm \<Rightarrow> from_nz_rd_i op rd rs1 imm
      | ITypeArgs op rd rs1 imm \<Rightarrow> from_i op rd rs1 imm
      | SBTypeArgs op rs1 rs2 imm \<Rightarrow> from_sb op rs1 rs2 imm
      | NonZeroRdUJTypeArgs op rd imm \<Rightarrow>
          (case op of Lui \<Rightarrow> new_li rd imm Uncompressed
           | Auipc \<Rightarrow> new_add_immediate_to_pc rd imm Uncompressed)
      | UJTypeArgs rd imm \<Rightarrow> from_ic_jal rd imm
      | AmoArgs op rd rs1 rs2 aq rl \<Rightarrow> from_amo op rd rs1 rs2 aq rl
      | FRegToXRegArgs op rd rs1 \<Rightarrow> float_instruction (OP_f_to_x op) (args_from_f_to_x rd rs1)
      | XRegToFRegArgs op rd rs1 \<Rightarrow> float_instruction (OP_x_to_f op) (args_from_x_to_f rd rs1)
      | XRegToFRegArgsWithRounding op rd rs1 rm \<Rightarrow>
          float_instruction (OP_x_to_f_rm op) (args_from_x_to_f_rm rd rs1 rm)
      | FRegToXRegArgsWithRounding op rd rs1 rm \<Rightarrow>
          float_instruction (OP_f_to_x_rm op) (args_from_f_to_x_rm rd rs1 rm)
      | FCmpArgs op rs1 rs2 rd \<Rightarrow> float_instruction (OP_f_cmp op) (args_from_fcmp rs1 rs2 rd)
      | FRArgs op rs1 rs2 rd \<Rightarrow> float_instruction (OP_f_r op) (args_from_fr rs1 rs2 rd)
      | FR1ArgWithRounding op rs1 rm rd \<Rightarrow> float_instruction (OP_f_r1_rm op) (args_from_fr1 rs1 rm rd)
      | FR2ArgsWithRounding op rs1 rs2 rm rd \<Rightarrow>
          float_instruction (OP_f_r2_rm op) (args_from_fr2 rs1 rs2 rm rd)
      | FR3ArgsWithRounding op rs1 rs2 rs3 rm rd \<Rightarrow>
          float_instruction (OP_f_r3_rm op) (args_from_fr3 rs1 rs2 rs3 rm rd)
      | FStoreArgs op rs1 rs2 imm \<Rightarrow>
          float_instruction (OP_f_store op)
            (args_from_fstore rs1 rs2 imm (if op = CFsd then Compressed else Uncompressed))
      | FLoadArgs op rs1 rd imm \<Rightarrow>
          float_instruction (OP_f_load op)
            (args_from_fload rs1 rd imm (if op = CFld then Compressed else Uncompressed))
      | CsrArgs op rd rs1 csr \<Rightarrow> \<lparr>opcode = CsrType (from_csr_op op), args = args_from_csr rd rs1 csr\<rparr>
      | CsriArgs op rd imm csr \<Rightarrow> \<lparr>opcode = CsrImmType (from_csri_op op), args = args_from_csri rd imm csr\<rparr>
      | NonZeroITypeArgs op rd rs1 imm \<Rightarrow>
          (case op of
             CLw \<Rightarrow> new_x32_load_signed (xregister_from rd) (xregister_from rs1) imm Compressed
           | CLd \<Rightarrow> new_x64_load_signed (xregister_from rd) (xregister_from rs1) imm Compressed)
      | NonZeroSBTypeArgs op rs1 rs2 imm \<Rightarrow>
          (case op of
             CSw \<Rightarrow> new_x32_store (xregister_from rs1) (xregister_from rs2) imm Compressed
           | CSd \<Rightarrow> new_x64_store (xregister_from rs1) (xregister_from rs2) imm Compressed)
      | CRTypeArgs op rd_rs1 rs2 \<Rightarrow> from_cr op rd_rs1 rs2
      | CNZRTypeArgs op rd_rs1 rs2 \<Rightarrow>
          (case op of
             CMv \<Rightarrow> new_mv rd_rs1 rs2 Compressed
           | CAdd \<Rightarrow> new_add rd_rs1 rd_rs1 rs2 Compressed)
      | CRJTypeArgs op rs1 \<Rightarrow>
          (case op of
             CJr \<Rightarrow> new_jr rs1 Compressed
           | CJalr \<Rightarrow> new_jalr nz_x1 rs1 Compressed)
      | CJTypeArgs op imm \<Rightarrow>
          (case op of
             CJ \<Rightarrow> new_j imm Compressed
           | CAddi16sp \<Rightarrow> new_addi nz_x2 nz_x2 imm Compressed)
      | CIBTypeArgs op rd_rs1 imm \<Rightarrow> from_cib op rd_rs1 imm
      | CIBNZTypeArgs op rd_rs1 imm \<Rightarrow> from_cib_nz op rd_rs1 imm
      | CIBDTypeArgs rd_rs1 imm \<Rightarrow> float_instruction OP_CFldsp (args_from_cibd rd_rs1 imm)
      | CSSTypeArgs op rs2 imm \<Rightarrow>
          (case op of
             CSwsp \<Rightarrow> new_x32_store x2 rs2 imm Compressed
           | CSdsp \<Rightarrow> new_x64_store x2 rs2 imm Compressed)
      | CSSDTypeArgs rs2 imm \<Rightarrow> float_instruction OP_CFsdsp (args_from_cssd rs2 imm)
      | CNop \<Rightarrow> new_nop Compressed
      | Unknown _ \<Rightarrow> new_unknown Uncompressed
      | UnknownCompressed _ \<Rightarrow> new_unknown Compressed
      | Hint _ \<Rightarrow> new_nop Uncompressed
      | HintCompressed _ \<Rightarrow> new_nop Compressed
      | Wfi \<Rightarrow> new_nop Uncompressed
      | Ecall \<Rightarrow> new_ecall)"

end
