(* ===== verification/ISA.thy ===== *)
theory ISA
  imports Constructors
begin

unbundle bit_operations_syntax

text \<open>
  Reference semantics of the parsed integer, memory, atomic, jump and control register
  instructions, after the RISC-V unprivileged specification: each instruction is a function of
  the register values, with arithmetic on mathematical integers where the specification is
  phrased so, and without the special cases for \<^verbatim>\<open>x0\<close> of the implementation.
\<close>

section \<open>Arithmetic\<close>

primrec alu_r :: "nz_rd_r_op \<Rightarrow> u64 \<Rightarrow> u64 \<Rightarrow> u64" where
  "alu_r Add a b = a + b"
| "alu_r Sub a b = a - b"
| "alu_r Xor a b = a XOR b"
| "alu_r Or a b = a OR b"
| "alu_r And a b = a AND b"
| "alu_r Sll a b = push_bit (unat b mod 64) a"
| "alu_r Srl a b = drop_bit (unat b mod 64) a"
| "alu_r Sra a b = word_of_int (sint a div 2 ^ (unat b mod 64))"
| "alu_r Slt a b = of_bool (sint a < sint b)"
| "alu_r Sltu a b = of_bool (unat a < unat b)"
| "alu_r Addw a b = scast (ucast a + ucast b :: u32)"
| "alu_r Subw a b = scast (ucast a - ucast b :: u32)"
| "alu_r Sllw a b = scast (push_bit (unat b mod 32) (ucast a :: u32))"
| "alu_r Srlw a b = scast (drop_bit (unat b mod 32) (ucast a :: u32))"
| "alu_r Sraw a b = word_of_int (sint (ucast a :: u32) div 2 ^ (unat b mod 32))"

primrec alu_i :: "nz_rd_i_op \<Rightarrow> u64 \<Rightarrow> u64 \<Rightarrow> u64" where
  "alu_i Addiw a imm = alu_r Addw a imm"
| "alu_i Xori a imm = alu_r Xor a imm"
| "alu_i Ori a imm = alu_r Or a imm"
| "alu_i Andi a imm = alu_r And a imm"
| "alu_i Slli a imm = alu_r Sll a imm"
| "alu_i Srli a imm = alu_r Srl a imm"
| "alu_i Srai a imm = alu_r Sra a imm"
| "alu_i Slliw a imm = alu_r Sllw a imm"
| "alu_i Srliw a imm = alu_r Srlw a imm"
| "alu_i Sraiw a imm = alu_r Sraw a imm"
| "alu_i Slti a imm = alu_r Slt a imm"
| "alu_i Sltiu a imm = alu_r Sltu a imm"

text \<open>
  Division rounds towards zero; a zero divisor gives the all-ones quotient and the dividend as
  remainder; the overflowing signed division wraps.
\<close>

definition quot_s :: "'a::len word \<Rightarrow> 'a word \<Rightarrow> 'a word" where
  "quot_s a b = (if b = 0 then - 1 else word_of_int (sint a sdiv sint b))"

definition rem_s :: "'a::len word \<Rightarrow> 'a word \<Rightarrow> 'a word" where
  "rem_s a b = (if b = 0 then a else word_of_int (sint a smod sint b))"

definition quot_u :: "'a::len word \<Rightarrow> 'a word \<Rightarrow> 'a word" where
  "quot_u a b = (if b = 0 then - 1 else a div b)"

definition rem_u :: "'a::len word \<Rightarrow> 'a word \<Rightarrow> 'a word" where
  "rem_u a b = (if b = 0 then a else a mod b)"

primrec alu_m :: "r_op \<Rightarrow> u64 \<Rightarrow> u64 \<Rightarrow> u64" where
  "alu_m Mul a b = a * b"
| "alu_m Mulh a b = word_of_int (sint a * sint b div 2 ^ 64)"
| "alu_m Mulhsu a b = word_of_int (sint a * uint b div 2 ^ 64)"
| "alu_m Mulhu a b = word_of_int (uint a * uint b div 2 ^ 64)"
| "alu_m Mulw a b = scast (ucast a * ucast b :: u32)"
| "alu_m Div a b = quot_s a b"
| "alu_m Divu a b = quot_u a b"
| "alu_m Rem a b = rem_s a b"
| "alu_m Remu a b = rem_u a b"
| "alu_m Divw a b = scast (quot_s (ucast a) (ucast b) :: u32)"
| "alu_m Divuw a b = scast (quot_u (ucast a) (ucast b) :: u32)"
| "alu_m Remw a b = scast (rem_s (ucast a) (ucast b) :: u32)"
| "alu_m Remuw a b = scast (rem_u (ucast a) (ucast b) :: u32)"

section \<open>Memory\<close>

definition isa_load :: "('v::len word \<Rightarrow> u64) \<Rightarrow> machine_core \<Rightarrow> address \<Rightarrow> xregister \<Rightarrow> unit outcome \<times> machine_core" where
  "isa_load ext core a rd =
     (if read_ok (LENGTH('v) div 8) (main_memory core) a
      then (Ok (), xregister_write core rd (ext (from_le_bytes (bytes_of (main_memory core) a (LENGTH('v) div 8)))))
      else (Err (LoadAccessFault a), core))"

definition isa_store :: "'v::len itself \<Rightarrow> machine_core \<Rightarrow> address \<Rightarrow> u64 \<Rightarrow> unit outcome \<times> machine_core" where
  "isa_store ty core a v =
     (if write_ok (LENGTH('v) div 8) (main_memory core) a
      then (Ok (), core\<lparr>main_memory := overwrite (main_memory core) (unat a) (to_le_bytes (ucast v :: 'v word))\<rparr>)
      else (Err (StoreAMOAccessFault a), core))"

primrec isa_i_load :: "i_op \<Rightarrow> machine_core \<Rightarrow> address \<Rightarrow> xregister \<Rightarrow> unit outcome \<times> machine_core" where
  "isa_i_load Lb = isa_load (scast :: u8 \<Rightarrow> u64)"
| "isa_i_load Lh = isa_load (scast :: u16 \<Rightarrow> u64)"
| "isa_i_load Lw = isa_load (scast :: u32 \<Rightarrow> u64)"
| "isa_i_load Lbu = isa_load (ucast :: u8 \<Rightarrow> u64)"
| "isa_i_load Lhu = isa_load (ucast :: u16 \<Rightarrow> u64)"
| "isa_i_load Lwu = isa_load (ucast :: u32 \<Rightarrow> u64)"
| "isa_i_load Ld = isa_load (id :: u64 \<Rightarrow> u64)"
| "isa_i_load Jalr = (\<lambda>core a rd. (Stuck, core))"

section \<open>Control flow\<close>

primrec taken :: "sb_op \<Rightarrow> u64 \<Rightarrow> u64 \<Rightarrow> bool" where
  "taken Beq a b \<longleftrightarrow> a = b"
| "taken Bne a b \<longleftrightarrow> a \<noteq> b"
| "taken Blt a b \<longleftrightarrow> sint a < sint b"
| "taken Bge a b \<longleftrightarrow> sint a \<ge> sint b"
| "taken Bltu a b \<longleftrightarrow> unat a < unat b"
| "taken Bgeu a b \<longleftrightarrow> unat a \<ge> unat b"
| "taken Sb a b \<longleftrightarrow> False"
| "taken Sh a b \<longleftrightarrow> False"
| "taken Sw a b \<longleftrightarrow> False"
| "taken Sd a b \<longleftrightarrow> False"

definition isa_branch :: "bool \<Rightarrow> machine_core \<Rightarrow> u64 \<Rightarrow> instr_width \<Rightarrow> run_result" where
  "isa_branch cond core imm w = (Ok (if cond then Set (pc (hart core) + imm) else Next w), core)"

definition isa_sb :: "sb_op \<Rightarrow> machine_core \<Rightarrow> u64 \<Rightarrow> u64 \<Rightarrow> u64 \<Rightarrow> instr_width \<Rightarrow> run_result" where
  "isa_sb op core a b imm w =
     (let next = \<lambda>r. icb_map r (\<lambda>_. Next w)
      in case op of
           Sb \<Rightarrow> next (isa_store TYPE(8) core (a + imm) b)
         | Sh \<Rightarrow> next (isa_store TYPE(16) core (a + imm) b)
         | Sw \<Rightarrow> next (isa_store TYPE(32) core (a + imm) b)
         | Sd \<Rightarrow> next (isa_store TYPE(64) core (a + imm) b)
         | _ \<Rightarrow> isa_branch (taken op a b) core imm w)"

text \<open>Jumps: the target is computed before the link register is written.\<close>

definition isa_jump :: "machine_core \<Rightarrow> xregister \<Rightarrow> address \<Rightarrow> instr_width \<Rightarrow> run_result" where
  "isa_jump core rd target w = (Ok (Set target), xregister_write core rd (pc (hart core) + width_bytes w))"

section \<open>Control registers\<close>

datatype csr_action = CsrSwap | CsrSet | CsrClear

definition isa_csr :: "csr_action \<Rightarrow> bool \<Rightarrow> machine_core \<Rightarrow> csregister \<Rightarrow> u64 \<Rightarrow> xregister \<Rightarrow> run_result" where
  "isa_csr act writes core csr v rd =
     (if writes \<and> is_read_only csr then (Err IllegalInstruction, core)
      else let regs = csregisters (hart core); old = csr_read regs csr;
               new = (case act of CsrSwap \<Rightarrow> v | CsrSet \<Rightarrow> old OR v | CsrClear \<Rightarrow> old AND NOT v);
               regs' = (if writes then csr_write regs csr new else regs)
           in (Ok (Next Uncompressed),
               xregister_write (core\<lparr>hart := (hart core)\<lparr>csregisters := regs'\<rparr>\<rparr>) rd old))"

primrec csr_op_action :: "csr_op \<Rightarrow> csr_action" where
  "csr_op_action Csrrw = CsrSwap"
| "csr_op_action Csrrs = CsrSet"
| "csr_op_action Csrrc = CsrClear"

primrec csri_op_action :: "csri_op \<Rightarrow> csr_action" where
  "csri_op_action Csrrwi = CsrSwap"
| "csri_op_action Csrrsi = CsrSet"
| "csri_op_action Csrrci = CsrClear"

section \<open>Instructions\<close>

definition write_next :: "machine_core \<Rightarrow> xregister \<Rightarrow> u64 \<Rightarrow> instr_width \<Rightarrow> run_result" where
  "write_next core rd v w = (Ok (Next w), xregister_write core rd v)"

primrec parsed_register :: "xregister_parsed \<Rightarrow> xregister" where
  "parsed_register X0 = x0"
| "parsed_register (NonZero r) = xregister_from r"

definition isa_exec :: "instr_cacheable \<Rightarrow> machine_core \<Rightarrow> run_result option" where
  "isa_exec i core =
     (let x = xregister_read core; nz = xregister_from; U = Uncompressed; C = Compressed;
          load = (\<lambda>r w. icb_map r (\<lambda>_. Next w))
      in case i of
        NonZeroRdRTypeArgs op rd rs1 rs2 \<Rightarrow> Some (write_next core (nz rd) (alu_r op (x rs1) (x rs2)) U)
      | RTypeArgs op rd rs1 rs2 \<Rightarrow> Some (write_next core rd (alu_m op (x rs1) (x rs2)) U)
      | SplitITypeArgs rd rs1 imm \<Rightarrow>
          Some (write_next core (parsed_register rd) (alu_r Add (x (parsed_register rs1)) imm) U)
      | NonZeroRdITypeArgs op rd rs1 imm \<Rightarrow> Some (write_next core (nz rd) (alu_i op (x rs1) imm) U)
      | ITypeArgs op rd rs1 imm \<Rightarrow>
          Some (if op = Jalr then isa_jump core rd ((x rs1 + imm) AND NOT 1) U
                else load (isa_i_load op core (x rs1 + imm) rd) U)
      | SBTypeArgs op rs1 rs2 imm \<Rightarrow> Some (isa_sb op core (x rs1) (x rs2) imm U)
      | NonZeroRdUJTypeArgs op rd imm \<Rightarrow>
          Some (write_next core (nz rd) (case op of Lui \<Rightarrow> imm | Auipc \<Rightarrow> pc (hart core) + imm) U)
      | UJTypeArgs rd imm \<Rightarrow> Some (isa_jump core rd (pc (hart core) + imm) U)
      | CsrArgs op rd rs1 csr \<Rightarrow>
          Some (isa_csr (csr_op_action op) (op = Csrrw \<or> rs1 \<noteq> x0) core csr (x rs1) rd)
      | CsriArgs op rd imm csr \<Rightarrow>
          (let uimm = imm AND 0b11111
           in Some (isa_csr (csri_op_action op) (op = Csrrwi \<or> uimm \<noteq> 0) core csr uimm rd))
      | NonZeroITypeArgs op rd rs1 imm \<Rightarrow>
          Some (load (isa_i_load (case op of CLw \<Rightarrow> Lw | CLd \<Rightarrow> Ld) core (x (nz rs1) + imm) (nz rd)) C)
      | NonZeroSBTypeArgs op rs1 rs2 imm \<Rightarrow>
          Some (isa_sb (case op of CSw \<Rightarrow> Sw | CSd \<Rightarrow> Sd) core (x (nz rs1)) (x (nz rs2)) imm C)
      | CRTypeArgs op rd_rs1 rs2 \<Rightarrow>
          Some (write_next core rd_rs1
                  (alu_r (case op of CAnd \<Rightarrow> And | COr \<Rightarrow> Or | CXor \<Rightarrow> Xor | CSub \<Rightarrow> Sub | CAddw \<Rightarrow> Addw | CSubw \<Rightarrow> Subw)
                     (x rd_rs1) (x rs2)) C)
      | CNZRTypeArgs op rd_rs1 rs2 \<Rightarrow>
          Some (write_next core (nz rd_rs1)
                  (case op of CMv \<Rightarrow> x (nz rs2) | CAdd \<Rightarrow> x (nz rd_rs1) + x (nz rs2)) C)
      | CRJTypeArgs op rs1 \<Rightarrow>
          Some (isa_jump core (case op of CJr \<Rightarrow> x0 | CJalr \<Rightarrow> x1) (x (nz rs1) AND NOT 1) C)
      | CJTypeArgs op imm \<Rightarrow>
          Some (case op of CJ \<Rightarrow> isa_jump core x0 (pc (hart core) + imm) C
                | CAddi16sp \<Rightarrow> write_next core x2 (x x2 + imm) C)
      | CIBTypeArgs op rd_rs1 imm \<Rightarrow>
          Some (case op of
                  CBeqz \<Rightarrow> isa_branch (x rd_rs1 = 0) core imm C
                | CBnez \<Rightarrow> isa_branch (x rd_rs1 \<noteq> 0) core imm C
                | CAddi4spn \<Rightarrow> write_next core rd_rs1 (x x2 + imm) C
                | CSrli \<Rightarrow> write_next core rd_rs1 (alu_i Srli (x rd_rs1) imm) C
                | CSrai \<Rightarrow> write_next core rd_rs1 (alu_i Srai (x rd_rs1) imm) C
                | CAndi \<Rightarrow> write_next core rd_rs1 (alu_i Andi (x rd_rs1) imm) C)
      | CIBNZTypeArgs op rd_rs1 imm \<Rightarrow>
          Some (case op of
                  CLwsp \<Rightarrow> load (isa_i_load Lw core (x x2 + imm) (nz rd_rs1)) C
                | CLdsp \<Rightarrow> load (isa_i_load Ld core (x x2 + imm) (nz rd_rs1)) C
                | CLi \<Rightarrow> write_next core (nz rd_rs1) imm C
                | CLui \<Rightarrow> write_next core (nz rd_rs1) imm C
                | CAddi \<Rightarrow> write_next core (nz rd_rs1) (x (nz rd_rs1) + imm) C
                | CSlli \<Rightarrow> write_next core (nz rd_rs1) (alu_i Slli (x (nz rd_rs1)) imm) C
                | CAddiw \<Rightarrow> write_next core (nz rd_rs1) (alu_i Addiw (x (nz rd_rs1)) imm) C)
      | CSSTypeArgs op rs2 imm \<Rightarrow>
          Some (isa_sb (case op of CSwsp \<Rightarrow> Sw | CSdsp \<Rightarrow> Sd) core (x x2) (x rs2) imm C)
      | CNop \<Rightarrow> Some (Ok (Next C), core)
      | Unknown _ \<Rightarrow> Some (Err IllegalInstruction, core)
      | UnknownCompressed _ \<Rightarrow> Some (Err IllegalInstruction, core)
      | Hint _ \<Rightarrow> Some (Ok (Next U), core)
      | HintCompressed _ \<Rightarrow> Some (Ok (Next C), core)
      | Wfi \<Rightarrow> Some (Ok (Next U), core)
      | Ecall \<Rightarrow> Some (Err EnvCall, core)
      | _ \<Rightarrow> None)"

end
