(* ===== verification/Instruction_Correct.thy ===== *)
theory Instruction_Correct
  imports ISA
begin

unbundle bit_operations_syntax

text \<open>
  The decoded instructions implement the reference semantics: for every parsed instruction, the
  translation \<open>instruction_from\<close>, which rewrites the instruction according to which of its
  registers are \<^verbatim>\<open>x0\<close>, followed by the dispatch \<open>run_instruction\<close>, has the effect that \<open>isa_exec\<close>
  gives to the parsed instruction.
\<close>

section \<open>Arithmetic\<close>

lemma signed_drop_bit_div: "signed_drop_bit n w = word_of_int (sint w div 2 ^ n)"
proof -
  have "sint (signed_drop_bit n w) = sint w div 2 ^ n"
    by (simp add: sint_signed_drop_bit_eq drop_bit_eq_div)
  then have "word_of_int (sint (signed_drop_bit n w)) = (word_of_int (sint w div 2 ^ n) :: 'a word)"
    by simp
  then show ?thesis by simp
qed

lemma unat_and_63: "unat (b AND SHIFT_BITMASK) = unat b mod 64"
proof -
  have "SHIFT_BITMASK = mask 6" by (simp add: SHIFT_BITMASK_def mask_eq_exp_minus_1)
  then have "b AND SHIFT_BITMASK = take_bit 6 b" by (simp add: take_bit_eq_mask)
  then show ?thesis by (simp add: take_bit_eq_mod unat_mod)
qed

lemma unat_narrow_and_31: "unat (narrow (b AND 0b11111)) = unat b mod 32"
proof -
  have "(0b11111 :: u64) = mask 5" by (simp add: mask_eq_exp_minus_1)
  then have "b AND 0b11111 = take_bit 5 b" by (simp only: take_bit_eq_mask)
  then show ?thesis
    by (simp add: narrow_def unsigned_ucast_eq take_bit_eq_mod unat_mod)
qed

lemma take_bit_32_64:
  "take_bit 32 (take_bit 64 a + take_bit 64 b) = take_bit 32 (a + b :: int)"
  "take_bit 32 (take_bit 64 a - take_bit 64 b) = take_bit 32 (a - b :: int)"
proof -
  have t: "take_bit 32 (take_bit 64 a) = take_bit 32 a" for a :: int by simp
  show "take_bit 32 (take_bit 64 a + take_bit 64 b) = take_bit 32 (a + b :: int)"
    using take_bit_add [of 32 "take_bit 64 a" "take_bit 64 b"] take_bit_add [of 32 a b] by (simp only: t)
  show "take_bit 32 (take_bit 64 a - take_bit 64 b) = take_bit 32 (a - b :: int)"
    using take_bit_diff [of 32 "take_bit 64 a" "take_bit 64 b"] take_bit_diff [of 32 a b] by (simp only: t)
qed

lemma narrow_arith:
  "narrow (a + b) = ucast a + ucast b"
  "narrow (a - b) = ucast a - ucast b"
  unfolding narrow_def by (transfer; simp add: take_bit_32_64)+

lemma mul_high_eq:
  "mul_high a b Signed = word_of_int (sint a * sint b div 2 ^ 64)"
  "mul_high a b SignedUnsigned = word_of_int (sint a * uint b div 2 ^ 64)"
  "mul_high a b Unsigned = word_of_int (uint a * uint b div 2 ^ 64)"
proof -
  have *: "(ucast (drop_bit 64 (word_of_int k :: 128 word)) :: u64) = word_of_int (k div 2 ^ 64)" for k
  proof (rule bit_word_eqI)
    fix n assume n: "n < LENGTH(64)"
    have "bit (k div 2 ^ 64) n = bit k (64 + n)" for k :: int
      by (simp only: drop_bit_eq_div [symmetric] bit_drop_bit_eq comp_apply)
    with n show "bit (ucast (drop_bit 64 (word_of_int k :: 128 word)) :: u64) n = bit (word_of_int (k div 2 ^ 64) :: u64) n"
      by (simp add: bit_simps)
  qed
  have m: "(ucast (drop_bit 64 ((word_of_int x :: 128 word) * word_of_int y)) :: u64) = word_of_int (x * y div 2 ^ 64)" for x y
    using * [of "x * y"] by simp
  have s: "(scast a :: 128 word) = word_of_int (sint a)" "(ucast a :: 128 word) = word_of_int (uint a)" for a :: u64
    by simp_all
  show "mul_high a b Signed = word_of_int (sint a * sint b div 2 ^ 64)"
    by (simp only: mul_high_def mul_high_type.case Let_def prod.case s m)
  show "mul_high a b SignedUnsigned = word_of_int (sint a * uint b div 2 ^ 64)"
    by (simp only: mul_high_def mul_high_type.case Let_def prod.case s m)
  show "mul_high a b Unsigned = word_of_int (uint a * uint b div 2 ^ 64)"
    by (simp only: mul_high_def mul_high_type.case Let_def prod.case s m)
qed


lemma minus_signed_min [simp]: "- signed_min = (signed_min :: u64)" "- signed_min = (signed_min :: u32)"
  by (simp_all add: signed_min_def push_bit_eq_mult)

lemma sdiv_minus_one: "word_of_int (sint a sdiv sint (- 1 :: 'a::len word)) = - (a :: 'a word)"
proof -
  have "sint a sdiv sint (- 1 :: 'a word) = - sint a"
    by (simp add: signed_divide_int_def sgn_mult_abs)
  then show ?thesis by simp
qed

lemma smod_one: "k smod 1 = (0 :: int)"
  by (simp add: signed_modulo_int_def)

lemma div_signed_quot:
  "(if b = 0 then Some (- 1) else if b = - 1 \<and> a = signed_min then Some signed_min else div_signed a b)
     = Some (quot_s a b)" if "- signed_min = (signed_min :: 'a word)" for a b :: "'a::len word"
  using that by (auto simp: div_signed_def quot_s_def sdiv_minus_one)

lemma modulus_signed_rem:
  "(if b = 0 then Some a else if b = - 1 \<and> a = signed_min then Some 0 else modulus_signed a b)
     = Some (rem_s a b)" for a b :: "'a::len word"
  by (auto simp: modulus_signed_def rem_s_def smod_one)

lemma div_unsigned_quot: "(if b = 0 then Some (- 1) else div_unsigned a b) = Some (quot_u a b)"
  by (simp add: div_unsigned_def quot_u_def)

lemma modulus_unsigned_rem: "(if b = 0 then Some a else modulus_unsigned a b) = Some (rem_u a b)"
  by (simp add: modulus_unsigned_def rem_u_def)


lemma shift_by_64:
  "shift_by a Left (b AND SHIFT_BITMASK) = alu_r Sll a b" "shift_by a Left b = alu_r Sll a b"
  "shift_by a RightUnsigned (b AND SHIFT_BITMASK) = alu_r Srl a b" "shift_by a RightUnsigned b = alu_r Srl a b"
  "shift_by a RightSigned (b AND SHIFT_BITMASK) = alu_r Sra a b" "shift_by a RightSigned b = alu_r Sra a b"
  by (simp_all add: rust_shl_def rust_shr_def unat_and_63 signed_drop_bit_div)

lemma shift_by_32:
  "extend_signed (shift_by (narrow a) Left (narrow (b AND 0b11111))) = alu_r Sllw a b"
  "extend_signed (shift_by (narrow a) RightUnsigned (narrow (b AND 0b11111))) = alu_r Srlw a b"
  "extend_signed (shift_by (narrow a) RightSigned (narrow (b AND 0b11111))) = alu_r Sraw a b"
proof -
  have *: "(scast (word_of_int (sint v div 2 ^ n) :: u32) :: u64) = word_of_int (sint v div 2 ^ n)"
    for v :: u32 and n
  proof -
    have "sint (signed_drop_bit n v) = sint v div 2 ^ n"
      by (simp add: sint_signed_drop_bit_eq drop_bit_eq_div)
    then have "(word_of_int (sint (signed_drop_bit n v)) :: u64) = word_of_int (sint v div 2 ^ n)" by simp
    then show ?thesis by (simp flip: signed_drop_bit_div)
  qed
  show "extend_signed (shift_by (narrow a) RightSigned (narrow (b AND 0b11111))) = alu_r Sraw a b"
    unfolding shift_by.simps unat_narrow_and_31
    by (simp add: signed_drop_bit_div extend_signed_def narrow_def *)
qed (unfold shift_by.simps unat_narrow_and_31,
     simp_all add: rust_shl_def rust_shr_def extend_signed_def narrow_def)

section \<open>Registers\<close>

lemma transmute_register [simp]:
  "transmute_xregister (register_x r) = Some r"
  "transmute_nz_xregister (register_nzx nz) = Some nz"
  "transmute_fregister (register_f fr) = Some fr"
  "transmute_nz_xregister (register_x (xregister_from nz)) = Some nz"
  by (simp_all add: register_x_def register_nzx_def register_f_def xregister_from_repr)

lemma transmute_register_x0: "transmute_nz_xregister (register_x x0) = None"
  by (simp add: register_x_def transmute_nz_xregister_def all_nz_xregisters_def)

lemma xregister_access [simp]:
  "xregister_read core x0 = 0"
  "xregister_read core (xregister_from r) = xregister_read_nz core r"
  "xregister_write core x0 v = core"
  "xregister_write core (xregister_from r) v = xregister_write_nz core r v"
  by (simp_all add: xregister_read_def xregister_read_nz_def xregister_write_def xregister_write_nz_def)

lemma xregister_write_read_same [simp]: "xregister_write_nz core r (xregister_read_nz core r) = core"
  by (simp add: xregister_write_nz_def xregister_read_nz_def xregisters_write_nz_def xregisters_read_nz_def)

lemma pc_xregister_write [simp]:
  "pc (hart (xregister_write_nz core r v)) = pc (hart core)"
  "pc (hart (xregister_write core rd v)) = pc (hart core)"
  by (simp_all add: xregister_write_nz_def xregister_write_def)

lemma x2_from: "x2 = xregister_from nz_x2" and x1_from: "x1 = xregister_from nz_x1"
  by (simp_all add: xregister_from_def transmute_xregister_def all_xregisters_def)

section \<open>Definitions by group\<close>

lemmas constructor_defs =
  new_add_def new_add_word_def new_add_word_immediate_def new_sub_def new_sub_word_def
  new_neg_def new_mv_def new_li_def new_nop_def new_unknown_def new_addi_def new_andi_def
  new_x64_or_immediate_def new_x64_xor_immediate_def new_shift_left_immediate_def
  new_shift_right_immediate_unsigned_def new_shift_right_immediate_signed_def
  new_x32_shift_left_def new_x32_shift_right_unsigned_def new_x32_shift_right_signed_def
  new_x32_shift_left_immediate_def new_x32_shift_right_immediate_unsigned_def
  new_x32_shift_right_immediate_signed_def new_set_less_than_signed_def
  new_set_less_than_unsigned_def new_set_less_than_immediate_signed_def
  new_set_less_than_immediate_unsigned_def new_and_def new_or_def new_x64_xor_def
  new_shift_left_def new_shift_right_unsigned_def new_shift_right_signed_def new_j_def
  new_jal_def new_branch_equal_def new_branch_equal_zero_def new_branch_not_equal_def
  new_branch_not_equal_zero_def new_j_absolute_def new_jalr_imm_def new_jalr_absolute_def
  new_jr_imm_def new_jr_def new_jalr_def new_x64_load_signed_def new_x64_store_def
  new_x32_load_signed_def new_x32_load_unsigned_def new_x32_store_def new_x16_load_signed_def
  new_x16_load_unsigned_def new_x16_store_def new_x8_load_signed_def new_x8_load_unsigned_def
  new_x8_store_def new_branch_less_than_signed_def new_branch_less_than_zero_def
  new_branch_less_than_or_equal_zero_def new_branch_greater_than_or_equal_signed_def
  new_branch_greater_than_or_equal_zero_def new_branch_greater_than_zero_def
  new_branch_less_than_unsigned_def new_branch_greater_than_or_equal_unsigned_def
  new_add_immediate_to_pc_def new_mul_def new_x32_mul_def new_x64_mul_high_signed_def
  new_x64_mul_high_signed_unsigned_def new_x64_mul_high_unsigned_def new_x64_div_signed_def
  new_x64_div_unsigned_def new_x32_div_signed_def new_x32_div_unsigned_def new_ecall_def
  new_x64_atomic_add_def new_x64_atomic_min_signed_def new_x32_atomic_load_def
  new_x32_atomic_store_def new_x64_atomic_load_def new_x64_atomic_store_def
  new_x64_rem_signed_def new_x64_rem_unsigned_def new_x32_rem_signed_def new_x32_rem_unsigned_def
  new_x32_atomic_swap_def new_x64_atomic_swap_def

lemmas from_ic_defs =
  from_ic_add_def from_ic_caddw_def from_ic_sub_def from_ic_csub_def from_ic_csubw_def
  from_ic_addi_def from_ic_caddi4spn_def from_ic_andi_def from_ic_candi_def from_ic_ori_def
  from_ic_xori_def from_ic_slli_def from_ic_srli_def from_ic_csrli_def from_ic_srai_def
  from_ic_csrai_def from_ic_x32_shift_left_immediate_def
  from_ic_x32_shift_right_immediate_unsigned_def from_ic_x32_shift_right_immediate_signed_def
  from_ic_and_def from_ic_cand_def from_ic_or_def from_ic_cor_def from_ic_xor_def
  from_ic_cxor_def from_ic_sll_def from_ic_srl_def from_ic_sra_def from_ic_jal_def
  from_ic_beq_def from_ic_cbeqz_def from_ic_bne_def from_ic_cbnez_def from_ic_jalr_def
  from_ic_blt_def from_ic_bge_def from_ic_bltu_def from_ic_bgeu_def from_ic_mul_def
  from_ic_mulh_def from_ic_mulhsu_def from_ic_mulhu_def from_ic_div_def from_ic_divu_def
  from_ic_divw_def from_ic_divuw_def from_ic_rem_def from_ic_remu_def from_ic_remw_def
  from_ic_remuw_def

lemmas integer_defs =
  run_neg_def run_mv_def run_nop_def run_add_def run_add_word_def run_sub_def run_sub_word_def
  run_and_def run_or_def run_x64_or_immediate_def run_x64_xor_def run_x64_xor_immediate_def
  run_addi_def run_add_word_immediate_def run_andi_def run_set_less_than_immediate_signed_def
  run_set_less_than_immediate_unsigned_def run_set_less_than_signed_def
  run_set_less_than_unsigned_def run_mul_def run_x32_mul_def run_x64_mul_high_def
  run_x64_div_signed_def run_x64_div_unsigned_def run_x32_div_signed_def run_x32_div_unsigned_def
  run_x64_rem_signed_def run_x64_rem_unsigned_def run_x32_rem_signed_def run_x32_rem_unsigned_def
  run_shift_def run_shift_immediate_def run_x32_shift_def run_x32_shift_immediate_def run_li_def
  run_add_immediate_to_pc_def total3_def

lemmas jump_defs =
  run_j_def run_jr_def run_jr_imm_def run_j_absolute_def run_jal_def run_jalr_def
  run_jalr_imm_def run_jalr_absolute_def run_branch_def run_branch_compare_zero_def branch_def
  jump_to_def run_op_jump_def pc_read_def

lemmas impl_defs =
  impl_r_type_non_zero_def impl_r_type_non_zero_rd_def impl_i_type_non_zero_def
  impl_i_type_non_zero_rd_def impl_load_type_def impl_store_type_def impl_branch_def
  impl_branch_compare_zero_def impl_amo_type_def impl_cr_nz_type_def impl_ci_type_def
  impl_csr_type_def impl_csr_imm_type_def impl_fload_type_def impl_fstore_type_def
  impl_cfload_sp_type_def impl_fcss_type_def impl_f_x_type_def impl_x_f_type_def


lemmas dispatch_defs =
  run_instruction_def to_run_def impl_defs constructor_defs from_ic_defs

section \<open>Integer operations compute the reference functions\<close>

lemma integer_r_eqs:
  "run_neg core rd rs2 = xregister_write_nz core rd (alu_r Sub 0 (xregister_read_nz core rs2))"
  "run_mv core rd rs2 = xregister_write_nz core rd (xregister_read_nz core rs2)"
  "run_add core rs1 rs2 rd = xregister_write_nz core rd (alu_r Add (xregister_read_nz core rs1) (xregister_read_nz core rs2))"
  "run_sub core rs1 rs2 rd = xregister_write_nz core rd (alu_r Sub (xregister_read_nz core rs1) (xregister_read_nz core rs2))"
  "run_and core rs1 rs2 rd = xregister_write_nz core rd (alu_r And (xregister_read_nz core rs1) (xregister_read_nz core rs2))"
  "run_or core rs1 rs2 rd = xregister_write_nz core rd (alu_r Or (xregister_read_nz core rs1) (xregister_read_nz core rs2))"
  "run_x64_xor core rs1 rs2 rd = xregister_write_nz core rd (alu_r Xor (xregister_read_nz core rs1) (xregister_read_nz core rs2))"
  "run_shift core Left rs1 rs2 rd = xregister_write_nz core rd (alu_r Sll (xregister_read_nz core rs1) (xregister_read_nz core rs2))"
  "run_shift core RightUnsigned rs1 rs2 rd = xregister_write_nz core rd (alu_r Srl (xregister_read_nz core rs1) (xregister_read_nz core rs2))"
  "run_shift core RightSigned rs1 rs2 rd = xregister_write_nz core rd (alu_r Sra (xregister_read_nz core rs1) (xregister_read_nz core rs2))"
  "run_add_word core q1 q2 rd = xregister_write_nz core rd (alu_r Addw (xregister_read core q1) (xregister_read core q2))"
  "run_sub_word core q1 q2 rd = xregister_write_nz core rd (alu_r Subw (xregister_read core q1) (xregister_read core q2))"
  "run_set_less_than_signed core q1 q2 rd = xregister_write_nz core rd (alu_r Slt (xregister_read core q1) (xregister_read core q2))"
  "run_set_less_than_unsigned core q1 q2 rd = xregister_write_nz core rd (alu_r Sltu (xregister_read core q1) (xregister_read core q2))"
  "run_x32_shift core Left q1 q2 rd = xregister_write_nz core rd (alu_r Sllw (xregister_read core q1) (xregister_read core q2))"
  "run_x32_shift core RightUnsigned q1 q2 rd = xregister_write_nz core rd (alu_r Srlw (xregister_read core q1) (xregister_read core q2))"
  "run_x32_shift core RightSigned q1 q2 rd = xregister_write_nz core rd (alu_r Sraw (xregister_read core q1) (xregister_read core q2))"
  unfolding run_shift_def run_x32_shift_def Let_def shift_by_64 shift_by_32
  by (simp_all add: integer_defs Let_def narrow_arith negate_def extend_signed_def xvalue_from_bool_def
        word_less_nat_alt unat_and_63)

lemma integer_i_eqs:
  "run_addi core imm rs1 rd = xregister_write_nz core rd (alu_r Add (xregister_read_nz core rs1) imm)"
  "run_andi core imm rs1 rd = xregister_write_nz core rd (alu_i Andi (xregister_read_nz core rs1) imm)"
  "run_x64_or_immediate core imm rs1 rd = xregister_write_nz core rd (alu_i Ori (xregister_read_nz core rs1) imm)"
  "run_x64_xor_immediate core imm rs1 rd = xregister_write_nz core rd (alu_i Xori (xregister_read_nz core rs1) imm)"
  "run_shift_immediate core Left imm rs1 rd = xregister_write_nz core rd (alu_i Slli (xregister_read_nz core rs1) imm)"
  "run_shift_immediate core RightUnsigned imm rs1 rd = xregister_write_nz core rd (alu_i Srli (xregister_read_nz core rs1) imm)"
  "run_shift_immediate core RightSigned imm rs1 rd = xregister_write_nz core rd (alu_i Srai (xregister_read_nz core rs1) imm)"
  "run_x32_shift_immediate core Left rs1 imm rd = xregister_write_nz core rd (alu_i Slliw (xregister_read_nz core rs1) imm)"
  "run_x32_shift_immediate core RightUnsigned rs1 imm rd = xregister_write_nz core rd (alu_i Srliw (xregister_read_nz core rs1) imm)"
  "run_x32_shift_immediate core RightSigned rs1 imm rd = xregister_write_nz core rd (alu_i Sraiw (xregister_read_nz core rs1) imm)"
  "run_add_word_immediate core imm q1 rd = xregister_write_nz core rd (alu_i Addiw (xregister_read core q1) imm)"
  "run_set_less_than_immediate_signed core imm q1 rd = xregister_write_nz core rd (alu_i Slti (xregister_read core q1) imm)"
  "run_set_less_than_immediate_unsigned core imm q1 rd = xregister_write_nz core rd (alu_i Sltiu (xregister_read core q1) imm)"
  unfolding run_shift_immediate_def run_x32_shift_immediate_def Let_def shift_by_64 shift_by_32
  by (simp_all add: integer_defs Let_def narrow_arith extend_signed_def xvalue_from_bool_def
        word_less_nat_alt)

lemma integer_m_eqs:
  "run_mul core rs1 rs2 rd = xregister_write_nz core rd (alu_m Mul (xregister_read_nz core rs1) (xregister_read_nz core rs2))"
  "run_x64_mul_high core rs1 rs2 rd Signed = xregister_write_nz core rd (alu_m Mulh (xregister_read_nz core rs1) (xregister_read_nz core rs2))"
  "run_x64_mul_high core rs1 rs2 rd SignedUnsigned = xregister_write_nz core rd (alu_m Mulhsu (xregister_read_nz core rs1) (xregister_read_nz core rs2))"
  "run_x64_mul_high core rs1 rs2 rd Unsigned = xregister_write_nz core rd (alu_m Mulhu (xregister_read_nz core rs1) (xregister_read_nz core rs2))"
  "run_x32_mul core q1 q2 rd = xregister_write_nz core rd (alu_m Mulw (xregister_read core q1) (xregister_read core q2))"
  by (simp_all add: integer_defs Let_def mul_high_eq extend_signed_def narrow_def)

text \<open>No division panics.\<close>

lemma integer_div_eqs:
  "run_x64_div_signed core q1 q2 rd = Some (xregister_write_nz core rd (alu_m Div (xregister_read core q1) (xregister_read core q2)))"
  "run_x64_div_unsigned core q1 q2 rd = Some (xregister_write_nz core rd (alu_m Divu (xregister_read core q1) (xregister_read core q2)))"
  "run_x32_div_signed core q1 q2 rd = Some (xregister_write_nz core rd (alu_m Divw (xregister_read core q1) (xregister_read core q2)))"
  "run_x32_div_unsigned core q1 q2 rd = Some (xregister_write_nz core rd (alu_m Divuw (xregister_read core q1) (xregister_read core q2)))"
  "run_x64_rem_signed core q1 q2 rd = Some (xregister_write_nz core rd (alu_m Rem (xregister_read core q1) (xregister_read core q2)))"
  "run_x64_rem_unsigned core q1 q2 rd = Some (xregister_write_nz core rd (alu_m Remu (xregister_read core q1) (xregister_read core q2)))"
  "run_x32_rem_signed core q1 q2 rd = Some (xregister_write_nz core rd (alu_m Remw (xregister_read core q1) (xregister_read core q2)))"
  "run_x32_rem_unsigned core q1 q2 rd = Some (xregister_write_nz core rd (alu_m Remuw (xregister_read core q1) (xregister_read core q2)))"
  by (simp_all only: integer_defs Let_def compare.simps div_signed_quot [OF minus_signed_min(1)]
        div_signed_quot [OF minus_signed_min(2)] modulus_signed_rem div_unsigned_quot modulus_unsigned_rem
        bit.compl_zero option.map narrow_def extend_signed_def alu_m.simps)

section \<open>Register-register and register-immediate instructions\<close>

lemmas integer_eqs = integer_r_eqs integer_i_eqs integer_m_eqs integer_div_eqs

lemma run_nz_rd_r:
  "run_instruction apf (from_nz_rd_r op rd rs1 rs2) core =
     write_next core (xregister_from rd) (alu_r op (xregister_read core rs1) (xregister_read core rs2)) Uncompressed"
  by (cases rs1 rule: xregister_cases; cases rs2 rule: xregister_cases; cases op)
     (simp_all add: dispatch_defs integer_eqs total3_def run_li_def write_next_def)

lemma run_nz_rd_i:
  "run_instruction apf (from_nz_rd_i op rd rs1 imm) core =
     write_next core (xregister_from rd) (alu_i op (xregister_read core rs1) imm) Uncompressed"
  by (cases rs1 rule: xregister_cases; cases op)
     (simp_all add: dispatch_defs integer_eqs run_li_def write_next_def)

lemma run_addi_parsed:
  "run_instruction apf (from_ic_addi rd rs1 imm) core =
     write_next core (parsed_register rd) (alu_r Add (xregister_read core (parsed_register rs1)) imm) Uncompressed"
  by (cases rd; cases rs1)
     (simp_all add: dispatch_defs integer_eqs run_li_def run_nop_def write_next_def)

lemma run_r:
  assumes "op \<noteq> Mulw \<or> rd \<noteq> x0"
  shows "run_instruction apf (from_r op rd rs1 rs2) core =
           write_next core rd (alu_m op (xregister_read core rs1) (xregister_read core rs2)) Uncompressed"
  using assms
  by (cases rd rule: xregister_cases; cases rs1 rule: xregister_cases; cases rs2 rule: xregister_cases; cases op)
     (simp_all add: dispatch_defs integer_eqs total3_def run_li_def run_nop_def write_next_def)

lemma run_cr:
  "run_instruction apf (from_cr op rd rs2) core =
     write_next core rd
       (alu_r (case op of CAnd \<Rightarrow> And | COr \<Rightarrow> Or | CXor \<Rightarrow> Xor | CSub \<Rightarrow> Sub | CAddw \<Rightarrow> Addw | CSubw \<Rightarrow> Subw)
          (xregister_read core rd) (xregister_read core rs2)) Compressed"
  by (cases rd rule: xregister_cases; cases rs2 rule: xregister_cases; cases op)
     (simp_all add: dispatch_defs integer_eqs total3_def run_li_def run_nop_def write_next_def)


section \<open>Loads and stores\<close>

lemma main_memory_load_eq:
  fixes ext :: "'v::len word \<Rightarrow> u64"
  assumes "memory_inv (main_memory core)" and "elem_type TYPE('v)"
  shows "main_memory_load ext core a =
    (if read_ok (elem_bytes TYPE('v)) (main_memory core) a
     then (Ok (ext (from_le_bytes (bytes_of (main_memory core) a (elem_bytes TYPE('v))))), core)
     else (Err (LoadAccessFault a), core))"
  using mem_read_eq [OF assms, of a] by (simp add: main_memory_load_def read_ok_def)

lemma main_memory_store_eq:
  assumes "memory_inv (main_memory core)" and "elem_type TYPE('v::len)"
  shows "main_memory_store TYPE('v) core a v = isa_store TYPE('v) core a v"
  using mem_write_eq [OF assms, of a "ucast v"]
  by (simp add: main_memory_store_def isa_store_def write_ok_def)

lemma run_load_eq:
  fixes ext :: "'v::len word \<Rightarrow> u64"
  assumes "memory_inv (main_memory core)" and "elem_type TYPE('v)"
  shows "run_load ext core imm rs1 rd = isa_load ext core (xregister_read core rs1 + imm) rd"
  using assms by (simp add: run_load_def Let_def main_memory_load_eq isa_load_def and_then_def)

lemma run_store_eq:
  assumes "memory_inv (main_memory core)" and "elem_type TYPE('v::len)"
  shows "run_store TYPE('v) core imm rs1 rs2 =
           isa_store TYPE('v) core (xregister_read core rs1 + imm) (xregister_read core rs2)"
  using assms by (simp add: run_store_def Let_def main_memory_store_eq)

lemma scast_64_id [simp]: "(scast :: u64 \<Rightarrow> u64) = id"
  by (rule ext) simp

lemma run_load_type:
  assumes "memory_inv (main_memory core)"
  shows
    "run_instruction apf (new_x8_load_signed rd rs1 imm w) core = icb_map (isa_i_load Lb core (xregister_read core rs1 + imm) rd) (\<lambda>_. Next w)"
    "run_instruction apf (new_x16_load_signed rd rs1 imm w) core = icb_map (isa_i_load Lh core (xregister_read core rs1 + imm) rd) (\<lambda>_. Next w)"
    "run_instruction apf (new_x32_load_signed rd rs1 imm w) core = icb_map (isa_i_load Lw core (xregister_read core rs1 + imm) rd) (\<lambda>_. Next w)"
    "run_instruction apf (new_x8_load_unsigned rd rs1 imm w) core = icb_map (isa_i_load Lbu core (xregister_read core rs1 + imm) rd) (\<lambda>_. Next w)"
    "run_instruction apf (new_x16_load_unsigned rd rs1 imm w) core = icb_map (isa_i_load Lhu core (xregister_read core rs1 + imm) rd) (\<lambda>_. Next w)"
    "run_instruction apf (new_x32_load_unsigned rd rs1 imm w) core = icb_map (isa_i_load Lwu core (xregister_read core rs1 + imm) rd) (\<lambda>_. Next w)"
    "run_instruction apf (new_x64_load_signed rd rs1 imm w) core = icb_map (isa_i_load Ld core (xregister_read core rs1 + imm) rd) (\<lambda>_. Next w)"
  using assms by (simp_all add: dispatch_defs run_load_eq)

lemma run_store_type:
  assumes "memory_inv (main_memory core)"
  shows
    "run_instruction apf (new_x8_store rs1 rs2 imm w) core = isa_sb Sb core (xregister_read core rs1) (xregister_read core rs2) imm w"
    "run_instruction apf (new_x16_store rs1 rs2 imm w) core = isa_sb Sh core (xregister_read core rs1) (xregister_read core rs2) imm w"
    "run_instruction apf (new_x32_store rs1 rs2 imm w) core = isa_sb Sw core (xregister_read core rs1) (xregister_read core rs2) imm w"
    "run_instruction apf (new_x64_store rs1 rs2 imm w) core = isa_sb Sd core (xregister_read core rs1) (xregister_read core rs2) imm w"
  using assms by (simp_all add: dispatch_defs run_store_eq isa_sb_def)

section \<open>Jumps and branches\<close>

lemma run_sb:
  assumes "memory_inv (main_memory core)"
  shows "run_instruction apf (from_sb op rs1 rs2 imm) core =
           isa_sb op core (xregister_read core rs1) (xregister_read core rs2) imm Uncompressed"
proof (cases "op \<in> {Sb, Sh, Sw, Sd}")
  case True
  then show ?thesis using assms by (auto simp: run_store_type)
next
  case False
  then show ?thesis
    by (cases rs1 rule: xregister_cases; cases rs2 rule: xregister_cases; cases op)
       (auto simp: dispatch_defs jump_defs run_nop_def isa_sb_def isa_branch_def Let_def
          word_less_nat_alt word_le_nat_alt unat_gt_0)
qed

lemma run_jal_parsed:
  "run_instruction apf (from_ic_jal rd imm) core = isa_jump core rd (pc (hart core) + imm) Uncompressed"
  by (cases rd rule: xregister_cases)
     (simp_all add: dispatch_defs jump_defs isa_jump_def Let_def)

lemma run_jalr_parsed:
  "run_instruction apf (from_ic_jalr rd rs1 imm) core =
     isa_jump core rd ((xregister_read core rs1 + imm) AND NOT 1) Uncompressed"
  by (cases rd rule: xregister_cases; cases rs1 rule: xregister_cases)
     (simp_all add: dispatch_defs jump_defs isa_jump_def Let_def)

lemma run_i:
  assumes "memory_inv (main_memory core)"
  shows "run_instruction apf (from_i op rd rs1 imm) core =
           (if op = Jalr then isa_jump core rd ((xregister_read core rs1 + imm) AND NOT 1) Uncompressed
            else icb_map (isa_i_load op core (xregister_read core rs1 + imm) rd) (\<lambda>_. Next Uncompressed))"
  using assms by (cases op) (simp_all add: run_load_type run_jalr_parsed)

section \<open>Compressed instructions\<close>

lemma run_cib:
  "run_instruction apf (from_cib op rd imm) core =
     (case op of
        CBeqz \<Rightarrow> isa_branch (xregister_read core rd = 0) core imm Compressed
      | CBnez \<Rightarrow> isa_branch (xregister_read core rd \<noteq> 0) core imm Compressed
      | CAddi4spn \<Rightarrow> write_next core rd (xregister_read core x2 + imm) Compressed
      | CSrli \<Rightarrow> write_next core rd (alu_i Srli (xregister_read core rd) imm) Compressed
      | CSrai \<Rightarrow> write_next core rd (alu_i Srai (xregister_read core rd) imm) Compressed
      | CAndi \<Rightarrow> write_next core rd (alu_i Andi (xregister_read core rd) imm) Compressed)"
  by (cases rd rule: xregister_cases; cases op)
     (simp_all add: dispatch_defs jump_defs integer_eqs run_nop_def isa_branch_def write_next_def Let_def x2_from)

lemma run_cib_nz:
  assumes "memory_inv (main_memory core)"
  shows "run_instruction apf (from_cib_nz op rd imm) core =
     (case op of
        CLwsp \<Rightarrow> icb_map (isa_i_load Lw core (xregister_read core x2 + imm) (xregister_from rd)) (\<lambda>_. Next Compressed)
      | CLdsp \<Rightarrow> icb_map (isa_i_load Ld core (xregister_read core x2 + imm) (xregister_from rd)) (\<lambda>_. Next Compressed)
      | CLi \<Rightarrow> write_next core (xregister_from rd) imm Compressed
      | CLui \<Rightarrow> write_next core (xregister_from rd) imm Compressed
      | CAddi \<Rightarrow> write_next core (xregister_from rd) (xregister_read core (xregister_from rd) + imm) Compressed
      | CSlli \<Rightarrow> write_next core (xregister_from rd) (alu_i Slli (xregister_read core (xregister_from rd)) imm) Compressed
      | CAddiw \<Rightarrow> write_next core (xregister_from rd) (alu_i Addiw (xregister_read core (xregister_from rd)) imm) Compressed)"
  using run_load_type [OF assms]
  by (cases op) (simp_all add: dispatch_defs integer_eqs run_li_def write_next_def)

section \<open>Control register instructions\<close>

lemma run_csr:
  "run_instruction apf \<lparr>opcode = CsrType (from_csr_op op), args = args_from_csr rd rs1 csr\<rparr> core =
     isa_csr (csr_op_action op) (op = Csrrw \<or> rs1 \<noteq> x0) core csr (xregister_read core rs1) rd"
  by (cases op)
     (auto simp: dispatch_defs args_from_csr_def run_csrrw_def run_csrrs_def run_csrrc_def csr_replace_def
        isa_csr_def csr_check_write_def Let_def on_hart_def icb_map_def and_then_def is_zero_def
        csr_replace_value_eq csr_set_bits_def csr_clear_bits_def update_csregisters_def
        update_xregisters_def xregister_write_def xregister_read_def)

lemma run_csri:
  "run_instruction apf \<lparr>opcode = CsrImmType (from_csri_op op), args = args_from_csri rd imm csr\<rparr> core =
     isa_csr (csri_op_action op) (op = Csrrwi \<or> imm AND 0b11111 \<noteq> 0) core csr (imm AND 0b11111) rd"
  by (cases op)
     (auto simp: dispatch_defs args_from_csri_def run_csrrwi_def run_csrrsi_def run_csrrci_def csr_replace_def
        isa_csr_def csr_check_write_def Let_def on_hart_def icb_map_def and_then_def is_zero_def
        csr_replace_value_eq csr_set_bits_def csr_clear_bits_def update_csregisters_def
        update_xregisters_def xregister_write_def xregister_read_def)


section \<open>Remaining argument structures\<close>

lemma run_uj:
  "run_instruction apf (instruction_from (NonZeroRdUJTypeArgs op rd imm)) core =
     write_next core (xregister_from rd) (case op of Lui \<Rightarrow> imm | Auipc \<Rightarrow> pc (hart core) + imm) Uncompressed"
  by (cases op) (simp_all add: instruction_from_def write_next_def dispatch_defs integer_defs pc_read_def Let_def)

lemma run_nz_i:
  assumes "memory_inv (main_memory core)"
  shows "run_instruction apf (instruction_from (NonZeroITypeArgs op rd rs1 imm)) core =
     icb_map (isa_i_load (case op of CLw \<Rightarrow> Lw | CLd \<Rightarrow> Ld) core
                (xregister_read core (xregister_from rs1) + imm) (xregister_from rd)) (\<lambda>_. Next Compressed)"
  using assms by (cases op) (simp_all add: instruction_from_def run_load_type)

lemma run_nz_sb:
  assumes "memory_inv (main_memory core)"
  shows "run_instruction apf (instruction_from (NonZeroSBTypeArgs op rs1 rs2 imm)) core =
     isa_sb (case op of CSw \<Rightarrow> Sw | CSd \<Rightarrow> Sd) core (xregister_read core (xregister_from rs1))
       (xregister_read core (xregister_from rs2)) imm Compressed"
  using assms by (cases op) (simp_all add: instruction_from_def run_store_type)

lemma run_css:
  assumes "memory_inv (main_memory core)"
  shows "run_instruction apf (instruction_from (CSSTypeArgs op rs2 imm)) core =
     isa_sb (case op of CSwsp \<Rightarrow> Sw | CSdsp \<Rightarrow> Sd) core (xregister_read core x2) (xregister_read core rs2) imm Compressed"
  using assms by (cases op) (simp_all add: instruction_from_def run_store_type)

lemma run_cnzr:
  "run_instruction apf (instruction_from (CNZRTypeArgs op rd rs2)) core =
     write_next core (xregister_from rd)
       (case op of CMv \<Rightarrow> xregister_read core (xregister_from rs2)
        | CAdd \<Rightarrow> xregister_read core (xregister_from rd) + xregister_read core (xregister_from rs2)) Compressed"
  by (cases op) (simp_all add: instruction_from_def write_next_def dispatch_defs integer_eqs)

lemma run_crj:
  "run_instruction apf (instruction_from (CRJTypeArgs op rs1)) core =
     isa_jump core (case op of CJr \<Rightarrow> x0 | CJalr \<Rightarrow> x1) (xregister_read core (xregister_from rs1) AND NOT 1) Compressed"
  by (cases op) (simp_all add: instruction_from_def isa_jump_def dispatch_defs jump_defs x1_from Let_def)

lemma run_cj:
  "run_instruction apf (instruction_from (CJTypeArgs op imm)) core =
     (case op of CJ \<Rightarrow> isa_jump core x0 (pc (hart core) + imm) Compressed
      | CAddi16sp \<Rightarrow> write_next core x2 (xregister_read core x2 + imm) Compressed)"
  by (cases op)
     (simp_all add: instruction_from_def isa_jump_def write_next_def dispatch_defs jump_defs integer_eqs x2_from)

lemma run_simple:
  "run_instruction apf (new_nop w) core = (Ok (Next w), core)"
  "run_instruction apf (new_unknown w) core = (Err IllegalInstruction, core)"
  "run_instruction apf new_ecall core = (Err EnvCall, core)"
  by (simp_all add: dispatch_defs run_nop_def)

lemmas run_parsed = run_simple run_nz_rd_r run_addi_parsed run_nz_rd_i run_i run_sb run_jal_parsed run_csr run_csri run_cr
  run_cib run_cib_nz

text \<open>The effect of a parsed instruction that has a reference semantics.\<close>

lemma run_instruction_isa:
  assumes "memory_inv (main_memory core)"
    and "isa_exec i core = Some r"
    and "\<nexists>rs1 rs2. i = RTypeArgs Mulw x0 rs1 rs2"
  shows "run_instruction apf (instruction_from i) core = r"
proof (cases i)
  case (RTypeArgs op rd rs1 rs2)
  then have "op \<noteq> Mulw \<or> rd \<noteq> x0" using assms(3) by blast
  then show ?thesis using assms RTypeArgs by (simp add: instruction_from_def isa_exec_def run_r Let_def)
qed (use assms in \<open>simp_all add: isa_exec_def Let_def run_uj run_nz_i run_nz_sb run_css run_cnzr run_crj run_cj\<close>,
     use assms in \<open>simp_all add: instruction_from_def run_parsed\<close>)

section \<open>A concrete state\<close>

text \<open>
  One page of memory with the permissions \<open>rp\<close> to read and \<open>wp\<close> to write, \<^verbatim>\<open>x10\<close> and \<^verbatim>\<open>x11\<close> set, and
  a float library that does nothing.
\<close>

definition sample_memory :: "bool \<Rightarrow> bool \<Rightarrow> memory" where
  "sample_memory rp wp = \<lparr>PAGES = 1, TOTAL_BYTES = 4096, data = (\<lambda>_. 0), readable_pages = [rp], writable_pages = [wp],
    executable_pages = [False], allocated_pages = BuddyLeaf 1 1\<rparr>"

definition sample_core :: "bool \<Rightarrow> bool \<Rightarrow> u64 \<Rightarrow> u64 \<Rightarrow> machine_core" where
  "sample_core rp wp a b =
     \<lparr>hart = hart_new\<lparr>xregisters := xregisters_write_nz (xregisters_write_nz xregisters_new nz_x10 a) nz_x11 b\<rparr>,
      main_memory = sample_memory rp wp\<rparr>"

definition sample_apf :: apfloat_ops where
  "sample_apf = (\<lambda>op a h. (Ok (), h))"

lemma sample_memory_inv [simp]: "memory_inv (main_memory (sample_core rp wp a b))"
  by (simp add: sample_core_def sample_memory_def memory_inv_def PAGE_SIZE_def OFFSET_BITS_def u64_max_def)

lemma sample_core_inv: "core_inv (sample_core rp wp a b)"
  by (simp add: core_inv_def) (simp add: sample_core_def hart_new_def xregisters_inv_def xregisters_new_def
      xregisters_write_nz_def fregisters_inv_def fregisters_new_def csregisters_inv_def csregisters_new_def)

lemma sample_core_read [simp]:
  "xregister_read (sample_core rp wp a b) x10 = a" "xregister_read (sample_core rp wp a b) x11 = b"
  by (simp_all add: sample_core_def xregister_read_def xregisters_read_def is_zero_def xregisters_write_nz_def
        xregisters_new_def hart_new_def)

lemma sample_core_ok:
  "n \<le> 4096 \<Longrightarrow> unat a + n \<le> 4096 \<Longrightarrow> 0 < n \<Longrightarrow> read_ok n (main_memory (sample_core rp wp c d)) a = rp"
  "n \<le> 4096 \<Longrightarrow> unat a + n \<le> 4096 \<Longrightarrow> 0 < n \<Longrightarrow> write_ok n (main_memory (sample_core rp wp c d)) a = wp"
  by (auto simp: read_ok_def write_ok_def in_memory_def range_allowed_def sample_core_def sample_memory_def
        PAGE_SIZE_def OFFSET_BITS_def)

section \<open>Properties\<close>

text \<open>
  C1: a decoded instruction does what the RISC-V specification says of the parsed
  instruction: for every integer, memory, jump, branch and control register instruction, on every
  machine state, specialising it by its \<^verbatim>\<open>x0\<close> operands, dispatching on the opcode and running the
  opcode function gives the program counter update, the exception and the registers and memory
  of the reference semantics, and no undefined behaviour or panic occurs. \<^verbatim>\<open>x0\<close> may be any operand, with
  the one exception of \<^verbatim>\<open>MULW\<close> with destination \<^verbatim>\<open>x0\<close>, which the theorem excludes.
\<close>

theorem run_instruction_refines_isa:
  assumes "memory_inv (main_memory core)"
    and "isa_exec i core = Some r"
    and "\<nexists>rs1 rs2. i = RTypeArgs Mulw x0 rs1 rs2"
  shows "run_instruction apf (instruction_from i) core = r"
  using assms by (rule run_instruction_isa)

theorem run_instruction_refines_isa_witness:
  "run_instruction sample_apf (instruction_from (NonZeroRdRTypeArgs Sub nz_x12 x10 x11)) (sample_core True True 7 5) =
     (Ok (Next Uncompressed), xregister_write (sample_core True True 7 5) (xregister_from nz_x12) 2)"
  by (rule run_instruction_refines_isa) (simp_all add: isa_exec_def write_next_def Let_def)

text \<open>
  C36: \<^verbatim>\<open>MULW\<close> with destination \<^verbatim>\<open>x0\<close>, a legal instruction without effect, is undefined behaviour in
  the interpreter: the translation stores \<^verbatim>\<open>x0\<close> in the union of register names, and the opcode
  function reads the union as a non-zero register.
\<close>

theorem mulw_x0_undefined:
  "run_instruction apf (instruction_from (RTypeArgs Mulw x0 rs1 rs2)) core = (Stuck, core) \<and>
   isa_exec (RTypeArgs Mulw x0 rs1 rs2) core = Some (Ok (Next Uncompressed), core)"
  by (simp add: instruction_from_def isa_exec_def write_next_def dispatch_defs transmute_register_x0 Let_def)

end
