(* ===== verification/Atomics_Correct.thy ===== *)
theory Atomics_Correct
  imports Instruction_Correct
begin

unbundle bit_operations_syntax

text \<open>
  The atomic instructions: load-reserved, store-conditional and the read-modify-write
  instructions of \<^verbatim>\<open>interpreter/atomics.rs\<close>, \<^verbatim>\<open>rv32a.rs\<close> and \<^verbatim>\<open>rv64a.rs\<close>, against a reference in which
  an instruction that raises an exception leaves the registers and the memory as they were.
\<close>

section \<open>Reference semantics\<close>

text \<open>
  An access is naturally aligned, readable and writable, or raises; the memory receives \<open>f\<close> of
  the old contents and the operand, the destination the extended old contents. As the manual has it, a read-modify-write
  or a store-conditional raises a store/AMO fault and never a load fault, a load-reserved a load fault; misaligned
  accesses raise the access fault, one of the two exceptions the manual allows for them.
\<close>

definition old_value :: "machine_core \<Rightarrow> address \<Rightarrow> 'v::len word" where
  "old_value core a = from_le_bytes (bytes_of (main_memory core) a (LENGTH('v) div 8))"

definition isa_rmw :: "('v::len word \<Rightarrow> u64) \<Rightarrow> ('v word \<Rightarrow> 'v word \<Rightarrow> 'v word) \<Rightarrow>
    machine_core \<Rightarrow> address \<Rightarrow> u64 \<Rightarrow> xregister \<Rightarrow> unit outcome \<times> machine_core" where
  "isa_rmw ext f core a v rd =
     (let n = LENGTH('v) div 8; old = old_value core a
      in if unat a mod n \<noteq> 0 then (Err (StoreAMOAccessFault a), core)
         else if \<not> read_ok n (main_memory core) a \<or> \<not> write_ok n (main_memory core) a then (Err (StoreAMOAccessFault a), core)
         else (Ok (), (xregister_write core rd (ext old))
                 \<lparr>main_memory := overwrite (main_memory core) (unat a) (to_le_bytes (f old (ucast v)))\<rparr>))"

definition isa_lr :: "('v::len word \<Rightarrow> u64) \<Rightarrow> machine_core \<Rightarrow> address \<Rightarrow> xregister \<Rightarrow> unit outcome \<times> machine_core" where
  "isa_lr ext core a rd =
     (let n = LENGTH('v) div 8
      in if unat a mod n \<noteq> 0 \<or> \<not> read_ok n (main_memory core) a then (Err (LoadAccessFault a), core)
         else (Ok (), xregister_write (reservation_set_write core (a AND NOT 7)) rd (ext (old_value core a))))"

text \<open>A store-conditional succeeds on the reserved doubleword; every one of them ends the reservation.\<close>

definition reserved :: "machine_core \<Rightarrow> address \<Rightarrow> bool" where
  "reserved core a \<longleftrightarrow> reservation_set (hart core) \<noteq> - 1 \<and> reservation_set (hart core) = a AND NOT 7"

definition isa_sc :: "'v::len itself \<Rightarrow> machine_core \<Rightarrow> address \<Rightarrow> u64 \<Rightarrow> xregister \<Rightarrow> unit outcome \<times> machine_core" where
  "isa_sc ty core a v rd =
     (let n = LENGTH('v) div 8; core' = reservation_set_write core (- 1)
      in if unat a mod n \<noteq> 0 then (Err (StoreAMOAccessFault a), core')
         else if \<not> reserved core a then (Ok (), xregister_write core' rd 1)
         else if \<not> write_ok n (main_memory core) a then (Err (StoreAMOAccessFault a), core')
         else (Ok (), (xregister_write core' rd 0)
                 \<lparr>main_memory := overwrite (main_memory core) (unat a) (to_le_bytes (ucast v :: 'v word))\<rparr>))"

primrec isa_amo :: "amo_op \<Rightarrow> machine_core \<Rightarrow> address \<Rightarrow> u64 \<Rightarrow> xregister \<Rightarrow> unit outcome \<times> machine_core" where
  "isa_amo Lrw = (\<lambda>core a v. isa_lr (scast :: u32 \<Rightarrow> u64) core a)"
| "isa_amo Scw = isa_sc TYPE(32)"
| "isa_amo Amoswapw = isa_rmw (scast :: u32 \<Rightarrow> u64) (\<lambda>x y. y)"
| "isa_amo Amoaddw = isa_rmw (scast :: u32 \<Rightarrow> u64) (+)"
| "isa_amo Amoxorw = isa_rmw (scast :: u32 \<Rightarrow> u64) (\<lambda>x y. x XOR y)"
| "isa_amo Amoandw = isa_rmw (scast :: u32 \<Rightarrow> u64) (\<lambda>x y. x AND y)"
| "isa_amo Amoorw = isa_rmw (scast :: u32 \<Rightarrow> u64) (\<lambda>x y. x OR y)"
| "isa_amo Amominw = isa_rmw (scast :: u32 \<Rightarrow> u64) (\<lambda>x y. if sint y < sint x then y else x)"
| "isa_amo Amomaxw = isa_rmw (scast :: u32 \<Rightarrow> u64) (\<lambda>x y. if sint y < sint x then x else y)"
| "isa_amo Amominuw = isa_rmw (scast :: u32 \<Rightarrow> u64) (\<lambda>x y. if unat y < unat x then y else x)"
| "isa_amo Amomaxuw = isa_rmw (scast :: u32 \<Rightarrow> u64) (\<lambda>x y. if unat y < unat x then x else y)"
| "isa_amo Lrd = (\<lambda>core a v. isa_lr (id :: u64 \<Rightarrow> u64) core a)"
| "isa_amo Scd = isa_sc TYPE(64)"
| "isa_amo Amoswapd = isa_rmw (id :: u64 \<Rightarrow> u64) (\<lambda>x y. y)"
| "isa_amo Amoaddd = isa_rmw (id :: u64 \<Rightarrow> u64) (+)"
| "isa_amo Amoxord = isa_rmw (id :: u64 \<Rightarrow> u64) (\<lambda>x y. x XOR y)"
| "isa_amo Amoandd = isa_rmw (id :: u64 \<Rightarrow> u64) (\<lambda>x y. x AND y)"
| "isa_amo Amoord = isa_rmw (id :: u64 \<Rightarrow> u64) (\<lambda>x y. x OR y)"
| "isa_amo Amomind = isa_rmw (id :: u64 \<Rightarrow> u64) (\<lambda>x y. if sint y < sint x then y else x)"
| "isa_amo Amomaxd = isa_rmw (id :: u64 \<Rightarrow> u64) (\<lambda>x y. if sint y < sint x then x else y)"
| "isa_amo Amominud = isa_rmw (id :: u64 \<Rightarrow> u64) (\<lambda>x y. if unat y < unat x then y else x)"
| "isa_amo Amomaxud = isa_rmw (id :: u64 \<Rightarrow> u64) (\<lambda>x y. if unat y < unat x then x else y)"

text \<open>
  The value the implementation leaves in the destination when the store of an atomic faults
  after its load: the instruction has already written its result register.
\<close>

definition amo_width :: "amo_op \<Rightarrow> nat" where
  "amo_width op = (if op \<in> {Lrw, Scw, Amoswapw, Amoaddw, Amoxorw, Amoandw, Amoorw, Amominw, Amomaxw, Amominuw, Amomaxuw}
                   then 4 else 8)"

definition store_faults :: "amo_op \<Rightarrow> machine_core \<Rightarrow> address \<Rightarrow> bool" where
  "store_faults op core a \<longleftrightarrow>
     unat a mod amo_width op = 0 \<and> \<not> write_ok (amo_width op) (main_memory core) a \<and>
     (if op \<in> {Scw, Scd} then reserved core a
      else op \<notin> {Lrw, Lrd} \<and> read_ok (amo_width op) (main_memory core) a)"

text \<open>
  Where the implementation raises another cause than the reference: it reports a misaligned load-reserved as a
  store/AMO fault, and a read-modify-write that may not load as a load fault.
\<close>

definition cause_differs :: "amo_op \<Rightarrow> machine_core \<Rightarrow> address \<Rightarrow> bool" where
  "cause_differs op core a \<longleftrightarrow>
     (if op \<in> {Lrw, Lrd} then unat a mod amo_width op \<noteq> 0
      else op \<notin> {Scw, Scd} \<and> unat a mod amo_width op = 0 \<and> \<not> read_ok (amo_width op) (main_memory core) a)"

definition raised_cause :: "amo_op \<Rightarrow> address \<Rightarrow> exception" where
  "raised_cause op a = (if op \<in> {Lrw, Lrd} then StoreAMOAccessFault a else LoadAccessFault a)"

definition isa_cause :: "amo_op \<Rightarrow> address \<Rightarrow> exception" where
  "isa_cause op a = (if op \<in> {Lrw, Lrd} then LoadAccessFault a else StoreAMOAccessFault a)"

lemma cause_differs_simps [simp]:
  "\<not> cause_differs Scw core a" "\<not> cause_differs Scd core a" "store_faults op core a \<Longrightarrow> \<not> cause_differs op core a"
  by (auto simp: cause_differs_def store_faults_def split: if_splits)

definition amo_result :: "amo_op \<Rightarrow> machine_core \<Rightarrow> address \<Rightarrow> u64" where
  "amo_result op core a =
     (if op \<in> {Scw, Scd} then 0 else if amo_width op = 4 then scast (old_value core a :: u32) else old_value core a)"

section \<open>The implementation\<close>

lemma mod_width_eq_0:
  "a mod 4 = (0 :: u64) \<longleftrightarrow> unat a mod 4 = 0" "a mod 8 = (0 :: u64) \<longleftrightarrow> unat a mod 8 = 0"
  by (simp_all add: unat_mod flip: unat_eq_0)

lemma guard_eq:
  "atomic_access_fault_guard TYPE(32) core a opt =
     (if unat a mod 4 \<noteq> 0 then (Err (StoreAMOAccessFault a), case opt of Reset \<Rightarrow> reset_reservation_set core | NoReset \<Rightarrow> core)
      else (Ok (), core))"
  "atomic_access_fault_guard TYPE(64) core a opt =
     (if unat a mod 8 \<noteq> 0 then (Err (StoreAMOAccessFault a), case opt of Reset \<Rightarrow> reset_reservation_set core | NoReset \<Rightarrow> core)
      else (Ok (), core))"
  by (simp_all add: atomic_access_fault_guard_def modulus_unsigned_def mod_width_eq_0)

lemma memory_xregister_write [simp]:
  "main_memory (xregister_write core rd v) = main_memory core"
  "main_memory (reservation_set_write core a) = main_memory core"
  "xregister_read (reservation_set_write core a) r = xregister_read core r"
  "reservation_set (hart (xregister_write core rd v)) = reservation_set (hart core)"
  by (simp_all add: xregister_write_def reservation_set_write_def xregister_read_def)

text \<open>The two implementations of read-modify-write agree.\<close>

definition rmw_impl :: "('v::len word \<Rightarrow> u64) \<Rightarrow> ('v word \<Rightarrow> 'v word \<Rightarrow> 'v word) \<Rightarrow>
    machine_core \<Rightarrow> address \<Rightarrow> u64 \<Rightarrow> xregister \<Rightarrow> unit outcome \<times> machine_core" where
  "rmw_impl ext f core a v rd =
     (let n = LENGTH('v) div 8
      in if unat a mod n = 0 \<and> \<not> read_ok n (main_memory core) a then (Err (LoadAccessFault a), core)
         else if unat a mod n = 0 \<and> \<not> write_ok n (main_memory core) a
         then (Err (StoreAMOAccessFault a), xregister_write core rd (ext (old_value core a)))
         else isa_rmw ext f core a v rd)"

lemma read_from_address_eq:
  assumes "memory_inv (main_memory core)" and "elem_type TYPE('v::len)"
  shows "(read_from_address core a :: 'v word outcome) =
           (if read_ok (elem_bytes TYPE('v)) (main_memory core) a then Ok (old_value core a) else Err (LoadAccessFault a))"
  using mem_read_eq [OF assms, of a] by (simp add: read_from_address_def read_ok_def old_value_def)

lemma write_to_address_eq:
  fixes v :: "'v::len word"
  assumes "memory_inv (main_memory core)" and "elem_type TYPE('v)"
  shows "write_to_address core a v =
           (if write_ok (elem_bytes TYPE('v)) (main_memory core) a
            then (Ok (), core\<lparr>main_memory := overwrite (main_memory core) (unat a) (to_le_bytes v)\<rparr>)
            else (Err (StoreAMOAccessFault a), core))"
  using mem_write_eq [OF assms, of a v] by (simp add: write_to_address_def write_ok_def)

lemma run_amo_eq:
  assumes "memory_inv (main_memory core)"
  shows "run_amo_w core rs1 rs2 rd f = rmw_impl scast f core (xregister_read core rs1) (xregister_read core rs2) rd"
    and "run_amo_d core rs1 rs2 rd g = rmw_impl id g core (xregister_read core rs1) (xregister_read core rs2) rd"
  using assms
  by (simp_all add: run_amo_w_def run_amo_d_def run_amo_def Let_def mod_width_eq_0 read_from_address_eq
        write_to_address_eq rmw_impl_def isa_rmw_def)

lemma run_x64_atomic_eq:
  assumes "memory_inv (main_memory core)"
  shows "run_x64_atomic core rs1 rs2 rd f = rmw_impl id f core (xregister_read core rs1) (xregister_read core rs2) rd"
  using assms
  by (simp add: run_x64_atomic_def guard_eq Let_def and_then_def main_memory_load_eq main_memory_store_eq
        isa_store_def rmw_impl_def isa_rmw_def old_value_def)

lemma run_atomic_swap_eq:
  assumes "memory_inv (main_memory core)"
  shows "run_atomic_swap (scast :: u32 \<Rightarrow> u64) core rs1 rs2 rd =
           rmw_impl (scast :: u32 \<Rightarrow> u64) (\<lambda>x y. y) core (xregister_read core rs1) (xregister_read core rs2) rd"
    and "run_atomic_swap (id :: u64 \<Rightarrow> u64) core rs1 rs2 rd =
           rmw_impl (id :: u64 \<Rightarrow> u64) (\<lambda>x y. y) core (xregister_read core rs1) (xregister_read core rs2) rd"
  using assms
  by (simp_all add: run_atomic_swap_def guard_eq Let_def and_then_def main_memory_load_eq main_memory_store_eq
        isa_store_def rmw_impl_def isa_rmw_def old_value_def)

definition lr_impl :: "('v::len word \<Rightarrow> u64) \<Rightarrow> machine_core \<Rightarrow> address \<Rightarrow> xregister \<Rightarrow> unit outcome \<times> machine_core" where
  "lr_impl ext core a rd =
     (if unat a mod (LENGTH('v) div 8) \<noteq> 0 then (Err (StoreAMOAccessFault a), core) else isa_lr ext core a rd)"

lemma run_atomic_load_eq:
  assumes "memory_inv (main_memory core)"
  shows "run_atomic_load (scast :: u32 \<Rightarrow> u64) core rs1 rd = lr_impl (scast :: u32 \<Rightarrow> u64) core (xregister_read core rs1) rd"
    and "run_atomic_load (id :: u64 \<Rightarrow> u64) core rs1 rd = lr_impl (id :: u64 \<Rightarrow> u64) core (xregister_read core rs1) rd"
  using assms
  by (simp_all add: run_atomic_load_def guard_eq Let_def and_then_def main_memory_load_eq lr_impl_def isa_lr_def old_value_def
        reservation_set_align_address_def RES_SET_BITMASK_def)

definition sc_impl :: "'v::len itself \<Rightarrow> machine_core \<Rightarrow> address \<Rightarrow> u64 \<Rightarrow> xregister \<Rightarrow> unit outcome \<times> machine_core" where
  "sc_impl ty core a v rd =
     (if unat a mod (LENGTH('v) div 8) = 0 \<and> reserved core a \<and> \<not> write_ok (LENGTH('v) div 8) (main_memory core) a
      then (Err (StoreAMOAccessFault a), xregister_write (reservation_set_write core (- 1)) rd 0)
      else isa_sc ty core a v rd)"

lemma run_atomic_store_eq:
  assumes "memory_inv (main_memory core)"
  shows "run_atomic_store TYPE(32) core rs1 rs2 rd = sc_impl TYPE(32) core (xregister_read core rs1) (xregister_read core rs2) rd"
    and "run_atomic_store TYPE(64) core rs1 rs2 rd = sc_impl TYPE(64) core (xregister_read core rs1) (xregister_read core rs2) rd"
  using assms
  by (auto simp: run_atomic_store_def guard_eq Let_def and_then_def main_memory_store_eq isa_store_def sc_impl_def
        isa_sc_def reserved_def test_and_unset_reservation_set_def reset_reservation_set_def
        reservation_set_align_address_def reservation_set_read_def RES_SET_BITMASK_def UNSET_VALUE_def
        SC_SUCCESS_def SC_FAILURE_def)


lemma default_rs2 [simp]: "transmute_xregister (arg_rs2 ARGS_DEFAULT) = Some x1"
  by (simp add: ARGS_DEFAULT_def REGISTER_DEFAULT_def register_nzx_def transmute_xregister_def all_xregisters_def)

lemma min_max_unat:
  "(min :: 'a::len word \<Rightarrow> _) = (\<lambda>x y. if unat y < unat x then y else x)"
  "(max :: 'a::len word \<Rightarrow> _) = (\<lambda>x y. if unat y < unat x then x else y)"
  by (auto simp: fun_eq_iff min_def max_def word_le_nat_alt)

lemma min_max_sint:
  "(min_signed :: 'a::len word \<Rightarrow> _) = (\<lambda>x y. if sint y < sint x then y else x)"
  "(max_signed :: 'a::len word \<Rightarrow> _) = (\<lambda>x y. if sint y < sint x then x else y)"
  by (auto simp: fun_eq_iff min_signed_def max_signed_def)

lemma run_amo_instruction:
  fixes core rs1
  defines "a \<equiv> xregister_read core rs1"
  assumes inv: "memory_inv (main_memory core)"
  shows "run_instruction apf (instruction_from (AmoArgs op rd rs1 rs2 aq rl)) core =
    (if cause_differs op core a then (Err (raised_cause op a), core)
     else if store_faults op core a
     then (Err (StoreAMOAccessFault a),
           xregister_write (if op \<in> {Scw, Scd} then reservation_set_write core (- 1) else core) rd (amo_result op core a))
     else icb_map (isa_amo op core a (xregister_read core rs2) rd) (\<lambda>_. Next Uncompressed))"
proof -
  note impls = run_atomic_load_eq [OF inv] run_atomic_store_eq [OF inv] run_atomic_swap_eq [OF inv]
    run_amo_eq [OF inv] run_x64_atomic_eq [OF inv] run_x64_atomic_add_def run_x64_atomic_min_signed_def
  show ?thesis
    by (cases op)
       (simp_all add: a_def instruction_from_def dispatch_defs amo_instruction_def args_from_amo_def impls
          store_faults_def cause_differs_def raised_cause_def amo_width_def amo_result_def rmw_impl_def lr_impl_def sc_impl_def min_max_unat min_max_sint
          icb_map_def and_then_def)
qed

section \<open>Frame\<close>

text \<open>
  What no instruction changes: the program counter, which the machine updates from the result of
  the instruction, and the invariant. Only load-reserved and store-conditional touch the
  reservation.
\<close>

definition frame :: "machine_core \<Rightarrow> machine_core \<Rightarrow> bool" where
  "frame core core' \<longleftrightarrow>
     pc (hart core') = pc (hart core) \<and> reservation_set (hart core') = reservation_set (hart core) \<and>
     (core_inv core \<longrightarrow> core_inv core')"

lemma frame_refl [simp]: "frame core core"
  by (simp add: frame_def)

lemma frame_xregister_write [simp]: "frame core (xregister_write core rd v)"
  by (simp add: frame_def core_inv_def xregister_write_def)

lemma frame_write_memory [simp]:
  "frame core (core\<lparr>main_memory := overwrite (main_memory core) a bs\<rparr>)"
  by (simp add: frame_def core_inv_def)

lemma frame_write_next: "frame core (snd (write_next core rd v w))"
  and frame_branch: "frame core (snd (isa_branch c core imm w))"
  and frame_jump: "frame core (snd (isa_jump core rd t w))"
  by (simp_all add: write_next_def isa_branch_def isa_jump_def)

lemma frame_icb_map: "frame core (snd r) \<Longrightarrow> frame core (snd (icb_map r f))"
  by (cases r; cases "fst r") (auto simp: icb_map_def and_then_def)

lemma frame_load: "frame core (snd (isa_load ext core a rd))"
  by (simp add: isa_load_def)

lemma frame_store: "frame core (snd (isa_store ty core a v))"
  by (simp add: isa_store_def)

lemma frame_i_load: "frame core (snd (isa_i_load op core a rd))"
  by (cases op) (simp_all add: frame_load)

lemma frame_sb: "frame core (snd (isa_sb op core a b imm w))"
  by (cases op) (auto simp: isa_sb_def Let_def frame_branch intro!: frame_icb_map frame_store)

lemma frame_csr: "frame core (snd (isa_csr act w core csr v rd))"
  by (auto simp: isa_csr_def Let_def frame_def core_inv_def xregister_write_def csregisters_inv_write)

lemmas frame_intros = frame_write_next frame_branch frame_jump frame_icb_map frame_load frame_i_load
  frame_sb frame_csr

lemma frame_isa_exec: "isa_exec i core = Some r \<Longrightarrow> frame core (snd r)"
  by (cases i) (auto simp: isa_exec_def Let_def intro!: frame_intros split: if_splits nz_rd_uj_op.splits
      cj_op.splits cib_op.splits cib_nz_op.splits)


lemma rmw_effect:
  "pc (hart (snd (isa_rmw ext f core a v rd))) = pc (hart core)"
  "reservation_set (hart (snd (isa_rmw ext f core a v rd))) = reservation_set (hart core)"
  "core_inv core \<Longrightarrow> core_inv (snd (isa_rmw ext f core a v rd))"
  by (simp_all add: isa_rmw_def Let_def core_inv_def xregister_write_def)

lemma lr_effect:
  "pc (hart (snd (isa_lr ext core a rd))) = pc (hart core)"
  "core_inv core \<Longrightarrow> core_inv (snd (isa_lr ext core a rd))"
  by (simp_all add: isa_lr_def Let_def core_inv_def xregister_write_def reservation_set_write_def)

lemma sc_effect:
  "pc (hart (snd (isa_sc ty core a v rd))) = pc (hart core)"
  "core_inv core \<Longrightarrow> core_inv (snd (isa_sc ty core a v rd))"
  "reservation_set (hart (snd (isa_sc ty core a v rd))) = - 1"
  by (simp_all add: isa_sc_def Let_def core_inv_def xregister_write_def reservation_set_write_def)

lemma amo_effect:
  "pc (hart (snd (isa_amo op core a v rd))) = pc (hart core)"
  "core_inv core \<Longrightarrow> core_inv (snd (isa_amo op core a v rd))"
  "op \<notin> {Lrw, Lrd, Scw, Scd} \<Longrightarrow> reservation_set (hart (snd (isa_amo op core a v rd))) = reservation_set (hart core)"
  by (cases op; simp add: rmw_effect lr_effect sc_effect)+

lemma snd_icb_map [simp]: "snd (icb_map r f) = snd r"
  by (cases r; cases "fst r") (auto simp: icb_map_def and_then_def)

text \<open>The instructions whose result is computed by the float library.\<close>

definition needs_apfloat :: "instr_cacheable \<Rightarrow> bool" where
  "needs_apfloat i =
     (case i of
        FRegToXRegArgs op _ _ \<Rightarrow> op \<in> {FclassS, FclassD}
      | XRegToFRegArgsWithRounding _ _ _ _ \<Rightarrow> True
      | FRegToXRegArgsWithRounding _ _ _ _ \<Rightarrow> True
      | FCmpArgs _ _ _ _ \<Rightarrow> True
      | FRArgs _ _ _ _ \<Rightarrow> True
      | FR1ArgWithRounding _ _ _ _ \<Rightarrow> True
      | FR2ArgsWithRounding _ _ _ _ _ \<Rightarrow> True
      | FR3ArgsWithRounding _ _ _ _ _ _ \<Rightarrow> True
      | _ \<Rightarrow> False)"

lemma frame_fregister_write [simp]: "frame core (fregister_write core rd v)"
  by (simp add: frame_def core_inv_def fregister_write_def fregisters_inv_def fregisters_write_def)

lemma frame_write_to_bus:
  "memory_inv (main_memory core) \<Longrightarrow> elem_type TYPE('v::len) \<Longrightarrow> frame core (snd (write_to_bus core imm rs1 (v :: 'v word)))"
  by (simp add: write_to_bus_def Let_def write_to_address_eq)

lemma frame_fload: "frame core (snd (run_flw core imm rs1 rd))" "frame core (snd (run_fld core imm rs1 rd))"
  by (auto simp: run_flw_def run_fld_def split: outcome.splits)

lemma frame_float:
  assumes "memory_inv (main_memory core)" and "isa_exec i core = None" and "\<not> needs_apfloat i"
    and "\<nexists>op rd rs1 rs2 aq rl. i = AmoArgs op rd rs1 rs2 aq rl"
  shows "frame core (snd (run_instruction apf (instruction_from i) core))"
proof (cases i)
  case (FLoadArgs op rs1 rd imm)
  then show ?thesis
    by (cases op) (simp_all add: instruction_from_def dispatch_defs float_instruction_def args_from_fload_def
        run_op_float_def frame_fload)
next
  case (FStoreArgs op rs1 rs2 imm)
  with assms(1) show ?thesis
    by (cases op) (simp_all add: instruction_from_def dispatch_defs float_instruction_def args_from_fstore_def
        run_op_float_def run_fsw_def run_fsd_def frame_write_to_bus)
next
  case (FRegToXRegArgs op rd rs1)
  with assms(3) show ?thesis
    by (cases op) (simp_all add: needs_apfloat_def instruction_from_def dispatch_defs float_instruction_def
        args_from_f_to_x_def run_op_float_def run_fmv_x_w_def run_fmv_x_d_def Let_def)
next
  case (XRegToFRegArgs op rd rs1)
  then show ?thesis
    by (cases op) (simp_all add: instruction_from_def dispatch_defs float_instruction_def
        args_from_x_to_f_def run_op_float_def run_fmv_w_x_def run_fmv_d_x_def Let_def)
qed (use assms in \<open>auto simp: isa_exec_def needs_apfloat_def Let_def instruction_from_def dispatch_defs
       float_instruction_def args_from_cibd_def args_from_cssd_def run_op_float_def run_cfldsp_def
       run_cfsdsp_def run_fsd_def frame_fload frame_write_to_bus split: if_splits\<close>)

definition is_lr_sc :: "instr_cacheable \<Rightarrow> bool" where
  "is_lr_sc i \<longleftrightarrow> (\<exists>op rd rs1 rs2 aq rl. i = AmoArgs op rd rs1 rs2 aq rl \<and> op \<in> {Lrw, Lrd, Scw, Scd})"

lemma run_amo_effect:
  assumes "memory_inv (main_memory core)"
  shows "let core' = snd (run_instruction apf (instruction_from (AmoArgs op rd rs1 rs2 aq rl)) core)
         in pc (hart core') = pc (hart core) \<and> (core_inv core \<longrightarrow> core_inv core') \<and>
            (op \<notin> {Lrw, Lrd, Scw, Scd} \<longrightarrow> reservation_set (hart core') = reservation_set (hart core)) \<and>
            (op \<in> {Scw, Scd} \<longrightarrow> reservation_set (hart core') = - 1)"
  using assms
  by (auto simp: run_amo_instruction Let_def amo_effect sc_effect)
     (auto simp: core_inv_def xregister_write_def reservation_set_write_def)

lemma frame_instruction:
  assumes inv: "memory_inv (main_memory core)" and "\<not> needs_apfloat i" and "\<not> is_lr_sc i"
  shows "frame core (snd (run_instruction apf (instruction_from i) core))"
proof -
  consider (amo) op rd rs1 rs2 aq rl where "i = AmoArgs op rd rs1 rs2 aq rl"
    | (mulw) rs1 rs2 where "i = RTypeArgs Mulw x0 rs1 rs2"
    | (isa) r where "isa_exec i core = Some r" "\<nexists>rs1 rs2. i = RTypeArgs Mulw x0 rs1 rs2"
    | (float) "isa_exec i core = None" "\<nexists>op rd rs1 rs2 aq rl. i = AmoArgs op rd rs1 rs2 aq rl"
    by blast
  then show ?thesis
  proof cases
    case amo
    with assms(3) run_amo_effect [OF inv, of apf op rd rs1 rs2 aq rl] show ?thesis
      by (auto simp: frame_def Let_def is_lr_sc_def)
  next
    case mulw
    then show ?thesis by (simp add: instruction_from_def dispatch_defs transmute_register_x0)
  next
    case isa
    then show ?thesis using run_instruction_isa [OF inv isa] frame_isa_exec by simp
  next
    case float
    then show ?thesis using assms by (intro frame_float)
  qed
qed

text \<open>Straight-line execution of the bodies of a sequence of instructions.\<close>

definition run_all :: "apfloat_ops \<Rightarrow> instr_cacheable list \<Rightarrow> machine_core \<Rightarrow> machine_core" where
  "run_all apf is core = foldl (\<lambda>core i. snd (run_instruction apf (instruction_from i) core)) core is"

lemma frame_trans: "frame core core' \<Longrightarrow> frame core' core'' \<Longrightarrow> frame core core''"
  by (auto simp: frame_def)

lemma frame_run_all:
  assumes "core_inv core" and "\<forall>i \<in> set is. \<not> needs_apfloat i \<and> \<not> is_lr_sc i"
  shows "frame core (run_all apf is core)"
  using assms
proof (induction "is" arbitrary: core)
  case (Cons i "is")
  then have f: "frame core (snd (run_instruction apf (instruction_from i) core))"
    by (intro frame_instruction) (auto simp: core_inv_def)
  with Cons.prems have "core_inv (snd (run_instruction apf (instruction_from i) core))"
    by (auto simp: frame_def)
  with Cons f show ?case by (auto simp: run_all_def intro: frame_trans)
qed (simp add: run_all_def)

lemma not_all_ones: "a AND NOT 7 \<noteq> (- 1 :: u64)"
proof
  assume "a AND NOT 7 = (- 1 :: u64)"
  then have "bit (a AND NOT 7) 0 = bit (- 1 :: u64) 0" by simp
  then show False by (simp add: bit_simps)
qed

lemma lr_reserves:
  assumes "memory_inv (main_memory core)" and "op \<in> {Lrw, Lrd}"
    and "run_instruction apf (instruction_from (AmoArgs op rd rs1 rs2 aq rl)) core = (Ok u, core')"
  shows "reservation_set (hart core') = xregister_read core rs1 AND NOT 7"
  using assms
  by (auto simp: run_amo_instruction store_faults_def isa_lr_def Let_def icb_map_def and_then_def
      xregister_write_def reservation_set_write_def split: if_splits)

lemma sample_old: "old_value (sample_core rp wp c d) a = (0 :: u64)"
  unfolding old_value_def
  by (rule bit_word_eqI) (simp add: bit_from_le_bytes bytes_of_def sample_core_def sample_memory_def)

section \<open>No instruction is stuck\<close>

lemma not_stuck_icb_map [simp]: "fst (icb_map r f) = Stuck \<longleftrightarrow> fst r = Stuck"
  by (cases r; cases "fst r") (auto simp: icb_map_def and_then_def)

lemma isa_blocks_not_stuck [simp]:
  "fst (write_next core rd v w) \<noteq> Stuck" "fst (isa_branch c core imm w) \<noteq> Stuck" "fst (isa_jump core rd t w) \<noteq> Stuck"
  "fst (isa_load ext core a rd) \<noteq> Stuck" "fst (isa_store ty core a v) \<noteq> Stuck" "fst (isa_csr act wr core csr v rd) \<noteq> Stuck"
  "fst (isa_rmw ext f core a v rd) \<noteq> Stuck" "fst (isa_lr ext core a rd) \<noteq> Stuck" "fst (isa_sc ty core a v rd) \<noteq> Stuck"
  by (simp_all add: write_next_def isa_branch_def isa_jump_def isa_load_def isa_store_def isa_csr_def isa_rmw_def
        isa_lr_def isa_sc_def Let_def)

lemma isa_i_load_not_stuck: "op \<noteq> Jalr \<Longrightarrow> fst (isa_i_load op core a rd) \<noteq> Stuck"
  by (cases op) simp_all

lemma isa_sb_not_stuck [simp]: "fst (isa_sb op core a b imm w) \<noteq> Stuck"
  by (cases op) (simp_all add: isa_sb_def Let_def)

lemma isa_amo_not_stuck: "fst (isa_amo op core a v rd) \<noteq> Stuck"
  by (cases op) simp_all

lemma isa_exec_not_stuck: "isa_exec i core = Some r \<Longrightarrow> fst r \<noteq> Stuck"
  by (cases i) (auto simp: isa_exec_def Let_def isa_i_load_not_stuck
      split: if_splits nz_rd_uj_op.splits nz_i_op.splits cj_op.splits cib_op.splits cib_nz_op.splits)

lemma run_float_not_stuck:
  assumes inv: "memory_inv (main_memory core)"
  shows "fst (run_flw core imm rs1 rd) \<noteq> Stuck" "fst (run_fld core imm rs1 rd) \<noteq> Stuck"
    "fst (run_fsw core imm rs1 rd) \<noteq> Stuck" "fst (run_fsd core imm rs1 rd) \<noteq> Stuck"
    "fst (run_cfldsp core imm rd) \<noteq> Stuck" "fst (run_cfsdsp core imm rd) \<noteq> Stuck"
  using inv
  by (simp_all add: run_flw_def run_fld_def run_fsw_def run_fsd_def run_cfldsp_def run_cfsdsp_def read_from_bus_def
        write_to_bus_def Let_def read_from_address_eq write_to_address_eq)

lemma float_instruction_not_stuck:
  assumes "memory_inv (main_memory core)" and "isa_exec i core = None" and "\<not> needs_apfloat i"
    and "\<nexists>op rd rs1 rs2 aq rl. i = AmoArgs op rd rs1 rs2 aq rl"
  shows "fst (run_instruction apf (instruction_from i) core) \<noteq> Stuck"
proof (cases i)
  case (FLoadArgs op rs1 rd imm)
  with assms(1) show ?thesis
    by (cases op) (simp_all add: instruction_from_def dispatch_defs float_instruction_def args_from_fload_def
        run_op_float_def run_float_not_stuck)
next
  case (FStoreArgs op rs1 rs2 imm)
  with assms(1) show ?thesis
    by (cases op) (simp_all add: instruction_from_def dispatch_defs float_instruction_def args_from_fstore_def
        run_op_float_def run_float_not_stuck)
next
  case (FRegToXRegArgs op rd rs1)
  with assms(3) show ?thesis
    by (cases op) (simp_all add: needs_apfloat_def instruction_from_def dispatch_defs float_instruction_def
        args_from_f_to_x_def run_op_float_def)
next
  case (XRegToFRegArgs op rd rs1)
  then show ?thesis
    by (cases op) (simp_all add: instruction_from_def dispatch_defs float_instruction_def
        args_from_x_to_f_def run_op_float_def)
qed (use assms in \<open>auto simp: isa_exec_def needs_apfloat_def Let_def instruction_from_def dispatch_defs
       float_instruction_def args_from_cibd_def args_from_cssd_def run_op_float_def run_float_not_stuck split: if_splits\<close>)

lemma run_instruction_not_stuck:
  assumes inv: "memory_inv (main_memory core)" and "\<not> needs_apfloat i"
    and "\<nexists>rs1 rs2. i = RTypeArgs Mulw x0 rs1 rs2"
  shows "fst (run_instruction apf (instruction_from i) core) \<noteq> Stuck"
proof -
  consider (amo) op rd rs1 rs2 aq rl where "i = AmoArgs op rd rs1 rs2 aq rl"
    | (isa) r where "isa_exec i core = Some r"
    | (float) "isa_exec i core = None" "\<nexists>op rd rs1 rs2 aq rl. i = AmoArgs op rd rs1 rs2 aq rl"
    by blast
  then show ?thesis
  proof cases
    case amo
    with inv show ?thesis by (simp add: run_amo_instruction isa_amo_not_stuck)
  next
    case isa
    then show ?thesis using run_instruction_isa [OF inv isa assms(3)] isa_exec_not_stuck by simp
  next
    case float
    then show ?thesis using assms by (intro float_instruction_not_stuck)
  qed
qed

lemma isa_cause_differs: "cause_differs op core a \<Longrightarrow> isa_amo op core a v rd = (Err (isa_cause op a), core)"
  by (cases op) (simp_all add: cause_differs_def isa_cause_def amo_width_def isa_lr_def isa_rmw_def)

text \<open>A store-conditional with and without the reservation.\<close>

definition stored_bytes :: "amo_op \<Rightarrow> u64 \<Rightarrow> u8 list" where
  "stored_bytes op v = (if amo_width op = 4 then to_le_bytes (ucast v :: u32) else to_le_bytes v)"

lemma sc_reserved:
  assumes "memory_inv (main_memory core)" and "op \<in> {Scw, Scd}" and "a = xregister_read core rs1" and "reserved core a"
    and "unat a mod amo_width op = 0" "write_ok (amo_width op) (main_memory core) a"
  shows "run_instruction apf (instruction_from (AmoArgs op rd rs1 rs2 aq rl)) core =
    (Ok (Next Uncompressed), (xregister_write (reservation_set_write core (- 1)) rd 0)
       \<lparr>main_memory := overwrite (main_memory core) (unat a) (stored_bytes op (xregister_read core rs2))\<rparr>)"
  using assms
  by (auto simp: run_amo_instruction store_faults_def amo_width_def stored_bytes_def isa_sc_def icb_map_def and_then_def)

lemma sc_unreserved:
  assumes "memory_inv (main_memory core)" and "reservation_set (hart core) = - 1" and "op \<in> {Scw, Scd}"
    and "unat (xregister_read core rs1) mod amo_width op = 0"
  shows "run_instruction apf (instruction_from (AmoArgs op rd rs1 rs2 aq rl)) core =
    (Ok (Next Uncompressed), xregister_write core rd 1)"
proof -
  have "reservation_set_write core (- 1) = core" using assms(2) by (simp add: reservation_set_write_def)
  with assms show ?thesis
    by (auto simp: run_amo_instruction store_faults_def reserved_def amo_width_def isa_sc_def icb_map_def and_then_def)
qed

section \<open>Properties\<close>

text \<open>
  C21: the atomic instructions against the reference. For each of the 22 instructions, in a well-formed memory, unless the
  store is refused after the load was granted, the exception or success, the destination register, the memory, the
  reservation and the program counter update are those of the reference, but for the cause of two faults: a misaligned
  load-reserved raises a store/AMO fault where the reference raises a load fault, and a read-modify-write whose page may
  not be read raises a load fault where the reference raises a store/AMO fault; in both nothing else changes. In particular the
  generic code of \<^verbatim>\<open>run_x64_atomic\<close> and \<^verbatim>\<open>run_atomic_swap\<close> and the code of \<^verbatim>\<open>run_amo\<close> agree.
\<close>

theorem amo_refines_isa:
  fixes core rs1
  defines "a \<equiv> xregister_read core rs1"
  assumes "memory_inv (main_memory core)" and "\<not> store_faults op core a"
  shows "if cause_differs op core a
         then run_instruction apf (instruction_from (AmoArgs op rd rs1 rs2 aq rl)) core = (Err (raised_cause op a), core) \<and>
              isa_amo op core a (xregister_read core rs2) rd = (Err (isa_cause op a), core)
         else run_instruction apf (instruction_from (AmoArgs op rd rs1 rs2 aq rl)) core =
                icb_map (isa_amo op core a (xregister_read core rs2) rd) (\<lambda>_. Next Uncompressed)"
  using assms isa_cause_differs by (simp add: run_amo_instruction)

theorem amo_refines_isa_witness:
  "\<exists>core'. run_instruction sample_apf (instruction_from (AmoArgs Amoaddd x12 x10 x11 False False)) (sample_core True True 8 5) =
     (Ok (Next Uncompressed), core') \<and>
   main_memory core' = overwrite (sample_memory True True) 8 (to_le_bytes (5 :: u64))"
proof -
  have nf: "\<not> store_faults Amoaddd (sample_core True True 8 5) (xregister_read (sample_core True True 8 5) x10)"
    by (simp add: store_faults_def amo_width_def sample_core_ok)
  show ?thesis
    using amo_refines_isa [OF sample_memory_inv nf, of sample_apf x12 x11 False False]
    by (simp add: cause_differs_def amo_width_def isa_rmw_def icb_map_def and_then_def Let_def sample_old sample_core_ok)
       (simp add: sample_core_def)
qed

text \<open>
  If the store of an atomic instruction is refused after its load was granted, as on a
  read-only page, the instruction raises the access fault but has already overwritten its
  destination register, where the reference leaves the registers as they were.
\<close>

theorem amo_store_fault_clobbers_rd:
  assumes "memory_inv (main_memory core)"
    and "store_faults op core (xregister_read core rs1)"
  shows "\<exists>core'. run_instruction apf (instruction_from (AmoArgs op rd rs1 rs2 aq rl)) core =
             (Err (StoreAMOAccessFault (xregister_read core rs1)),
              xregister_write core' rd (amo_result op core (xregister_read core rs1))) \<and>
           isa_amo op core (xregister_read core rs1) (xregister_read core rs2) rd =
             (Err (StoreAMOAccessFault (xregister_read core rs1)), core') \<and>
           xregisters (hart core') = xregisters (hart core)"
  using assms
  by (cases op)
     (simp_all add: run_amo_instruction store_faults_def amo_width_def isa_rmw_def isa_sc_def Let_def
        reservation_set_write_def)

theorem amo_store_fault_clobbers_rd_witness:
  "\<exists>core'. run_instruction sample_apf (instruction_from (AmoArgs Amoaddd x10 x10 x11 False False)) (sample_core True False 8 5) =
     (Err (StoreAMOAccessFault 8), core') \<and> xregister_read core' x10 = 0 \<and>
     xregister_read (sample_core True False 8 5) x10 = 8"
proof -
  let ?core = "sample_core True False 8 5"
  have f: "store_faults Amoaddd ?core (xregister_read ?core x10)"
    by (simp add: store_faults_def amo_width_def sample_core_ok)
  obtain core' where c: "run_instruction sample_apf (instruction_from (AmoArgs Amoaddd x10 x10 x11 False False)) ?core =
      (Err (StoreAMOAccessFault 8), xregister_write core' x10 0)" "xregisters (hart core') = xregisters (hart ?core)"
    using amo_store_fault_clobbers_rd [OF sample_memory_inv f, of sample_apf x10 x11 False False]
    by (auto simp: amo_result_def amo_width_def sample_old)
  have "xregisters_inv (xregisters (hart core'))" using c(2) sample_core_inv by (simp add: core_inv_def)
  then have "xregister_read (xregister_write core' x10 0) x10 = 0"
    by (simp add: xregister_read_def xregister_write_def xregs.read_write is_zero_def)
  with c(1) show ?thesis by auto
qed

text \<open>
  C22: a load-reserved and store-conditional pair works, at both widths: if a load-reserved succeeded, then after
  any sequence of instructions that are not load-reserved, store-conditional or computed by the float library, a
  store-conditional to an address of the same doubleword that is aligned for its width and lies on a writable page
  stores and reports success; it ends the reservation, so a store-conditional that follows, to an aligned address,
  fails, reports 1 and stores nothing.
\<close>

theorem lr_sc_pair:
  fixes core
  assumes "core_inv core" and "op \<in> {Lrw, Lrd}"
    and "run_instruction apf (instruction_from (AmoArgs op rd rs1 rs2 aq rl)) core = (Ok u, core1)"
    and "\<forall>i \<in> set is. \<not> needs_apfloat i \<and> \<not> is_lr_sc i"
    and "core2 = run_all apf is core1" and "b = xregister_read core2 rs3"
    and "b AND NOT 7 = xregister_read core rs1 AND NOT 7"
    and "sc \<in> {Scw, Scd}" "unat b mod amo_width sc = 0" "write_ok (amo_width sc) (main_memory core2) b"
    and "run_instruction apf (instruction_from (AmoArgs sc rd' rs3 rs4 aq' rl')) core2 = (res, core3)"
    and "sc' \<in> {Scw, Scd}"
  shows "res = Ok (Next Uncompressed) \<and>
         main_memory core3 = overwrite (main_memory core2) (unat b) (stored_bytes sc (xregister_read core2 rs4)) \<and>
         xregisters (hart core3) = xregisters_write (xregisters (hart core2)) rd' 0 \<and>
         (unat (xregister_read core3 rs5) mod amo_width sc' = 0 \<longrightarrow>
            run_instruction apf (instruction_from (AmoArgs sc' rd'' rs5 rs6 aq'' rl'')) core3 =
              (Ok (Next Uncompressed), xregister_write core3 rd'' 1))"
proof -
  have inv: "memory_inv (main_memory core)" using assms(1) by (simp add: core_inv_def)
  have inv1: "core_inv core1"
    using run_amo_effect [OF inv, of apf op rd rs1 rs2 aq rl] assms(1,3) by (simp add: Let_def)
  have res1: "reservation_set (hart core1) = b AND NOT 7"
    using lr_reserves [OF inv assms(2,3)] assms(7) by simp
  have f: "frame core1 core2" using frame_run_all [OF inv1 assms(4)] assms(5) by simp
  then have inv2: "core_inv core2" and "reserved core2 b"
    using inv1 res1 not_all_ones [of b] by (simp_all add: frame_def reserved_def)
  then have eq: "run_instruction apf (instruction_from (AmoArgs sc rd' rs3 rs4 aq' rl')) core2 =
      (Ok (Next Uncompressed), (xregister_write (reservation_set_write core2 (- 1)) rd' 0)
         \<lparr>main_memory := overwrite (main_memory core2) (unat b) (stored_bytes sc (xregister_read core2 rs4))\<rparr>)"
    using assms(6,8-10) by (intro sc_reserved) (auto simp: core_inv_def)
  then have res3: "reservation_set (hart core3) = - 1"
    and core3: "core3 = (xregister_write (reservation_set_write core2 (- 1)) rd' 0)
         \<lparr>main_memory := overwrite (main_memory core2) (unat b) (stored_bytes sc (xregister_read core2 rs4))\<rparr>"
    using assms(11) by (simp_all add: reservation_set_write_def xregister_write_def)
  have inv3: "memory_inv (main_memory core3)" using inv2 by (simp add: core3 core_inv_def)
  from sc_unreserved [OF inv3 res3 assms(12)] eq assms(11) show ?thesis
    by (auto simp: xregister_write_def reservation_set_write_def)
qed

theorem lr_sc_pair_witness:
  "\<exists>core1 core3. run_instruction sample_apf (instruction_from (AmoArgs Lrd x12 x10 x0 False False)) (sample_core True True 8 5) =
       (Ok (Next Uncompressed), core1) \<and>
     run_instruction sample_apf (instruction_from (AmoArgs Scw x12 x10 x11 False False)) core1 = (Ok (Next Uncompressed), core3) \<and>
     main_memory core3 = overwrite (sample_memory True True) 8 (to_le_bytes (5 :: u32))"
proof -
  let ?core = "sample_core True True 8 5"
  let ?core1 = "xregister_write (reservation_set_write ?core (8 AND NOT 7)) x12 (old_value ?core 8)"
  have lr: "run_instruction sample_apf (instruction_from (AmoArgs Lrd x12 x10 x0 False False)) ?core = (Ok (Next Uncompressed), ?core1)"
    by (simp add: run_amo_instruction store_faults_def cause_differs_def amo_width_def isa_lr_def Let_def icb_map_def and_then_def sample_core_ok)
  have inv: "xregisters_inv (xregisters (hart ?core))" using sample_core_inv by (simp add: core_inv_def)
  have r: "xregister_read ?core1 x10 = 8" "xregister_read ?core1 x11 = 5"
    using inv sample_core_read [of True True 8 5]
    by (simp_all add: xregister_read_def xregister_write_def reservation_set_write_def xregs.read_write is_zero_def)
  have mem: "main_memory ?core1 = sample_memory True True" by simp (simp add: sample_core_def)
  then have w: "write_ok 4 (main_memory ?core1) 8"
    by (auto simp: write_ok_def in_memory_def range_allowed_def sample_memory_def PAGE_SIZE_def OFFSET_BITS_def)
  obtain res core3 where sc: "run_instruction sample_apf (instruction_from (AmoArgs Scw x12 x10 x11 False False)) ?core1 = (res, core3)"
    by fastforce
  have "res = Ok (Next Uncompressed) \<and> main_memory core3 = overwrite (sample_memory True True) 8 (stored_bytes Scw 5)"
    using lr_sc_pair [OF sample_core_inv _ lr, of "[]" ?core1 8 x10 Scw x12 x11 False False res core3 Scw x0 x0 x0 False False] r w mem sc
    by (simp add: run_all_def amo_width_def)
  with lr sc show ?thesis by (auto simp: stored_bytes_def amo_width_def)
qed

text \<open>
  C6: executing an instruction keeps the machine well-formed and is never undefined: from a
  state whose register files, control registers and memory are well-formed, every instruction
  other than the ones computed by the float library leaves such a state and leaves the program
  counter to the machine, and it neither panics nor has undefined behaviour, with the only
  exception of \<^verbatim>\<open>MULW\<close> with destination \<^verbatim>\<open>x0\<close>.
\<close>

theorem run_instruction_safe:
  assumes "core_inv core" and "\<not> needs_apfloat i"
    and "run_instruction apf (instruction_from i) core = (res, core')"
  shows "core_inv core' \<and> pc (hart core') = pc (hart core) \<and>
         (res = Stuck \<longleftrightarrow> (\<exists>rs1 rs2. i = RTypeArgs Mulw x0 rs1 rs2))"
proof -
  have inv: "memory_inv (main_memory core)" using assms(1) by (simp add: core_inv_def)
  have "core_inv core' \<and> pc (hart core') = pc (hart core)"
  proof (cases "is_lr_sc i")
    case True
    then obtain op rd rs1 rs2 aq rl where "i = AmoArgs op rd rs1 rs2 aq rl" by (auto simp: is_lr_sc_def)
    then show ?thesis using run_amo_effect [OF inv, of apf op rd rs1 rs2 aq rl] assms(1,3) by (simp add: Let_def)
  next
    case False
    then show ?thesis using frame_instruction [OF inv assms(2), of apf] assms(1,3) by (simp add: frame_def)
  qed
  moreover have "res = Stuck" if "i = RTypeArgs Mulw x0 rs1 rs2" for rs1 rs2
    using that assms(3) by (auto simp: instruction_from_def dispatch_defs transmute_register_x0)
  ultimately show ?thesis using run_instruction_not_stuck [OF inv assms(2)] assms(3) by (metis fst_conv)
qed

theorem run_instruction_safe_witness:
  "core_inv (sample_core True False 8 5) \<and>
   (\<exists>res core'. run_instruction sample_apf (instruction_from (SBTypeArgs Sd x10 x11 0)) (sample_core True False 8 5) = (res, core') \<and>
      core_inv core' \<and> res \<noteq> Stuck)"
proof -
  obtain res core' where r: "run_instruction sample_apf (instruction_from (SBTypeArgs Sd x10 x11 0)) (sample_core True False 8 5) = (res, core')"
    by fastforce
  have "\<not> needs_apfloat (SBTypeArgs Sd x10 x11 0)" by (simp add: needs_apfloat_def)
  from run_instruction_safe [OF sample_core_inv this r] r show ?thesis
    by (auto intro: sample_core_inv)
qed

end
