(* ===== verification/Block_Cache.thy ===== *)
theory Block_Cache
  imports Atomics_Correct
begin

unbundle bit_operations_syntax

text \<open>
  Model of the block cache, \<^verbatim>\<open>machine_state/block_cache\<close>, with interpreted blocks
  (\<^verbatim>\<open>block/interpreted.rs\<close>), and of the parts of \<^verbatim>\<open>machine_state.rs\<close>, \<^verbatim>\<open>traps.rs\<close> and
  \<^verbatim>\<open>cache_utils.rs\<close> that running a block needs.

  A block cell holds an instruction and the function derived from its opcode; running a cell is
  running the instruction. \<open>None\<close> is a panic (an index or a slice out of range) or undefined
  behaviour of an instruction. Lengths and progress, which the source keeps in a \<^verbatim>\<open>u8\<close>, are
  natural numbers: a block of more than 20 instructions panics before they could wrap. The JIT's
  blocks (\<^verbatim>\<open>block/jitted.rs\<close>) and the metrics are not modelled.
\<close>

section \<open>Exceptions and results\<close>

datatype environ_exception = EnvironEnvCall

fun environ_exception_try_from :: "exception \<Rightarrow> environ_exception option" where
  "environ_exception_try_from EnvCall = Some EnvironEnvCall"
| "environ_exception_try_from _ = None"

record 'e step_many_result =
  steps :: nat
  error :: "'e option"

definition result_zero :: "'e step_many_result" where
  "result_zero = \<lparr>steps = 0, error = None\<rparr>"

text \<open>\<^verbatim>\<open>merge_and_return\<close>: the merged result and whether it carries an error.\<close>

definition merge_and_return :: "'e step_many_result \<Rightarrow> 'e step_many_result \<Rightarrow> bool \<times> 'e step_many_result" where
  "merge_and_return self other =
     (error other \<noteq> None, \<lparr>steps = steps self + steps other, error = error other\<rparr>)"

definition write_pc :: "machine_core \<Rightarrow> address \<Rightarrow> machine_core" where
  "write_pc core a = core\<lparr>hart := (hart core)\<lparr>pc := a\<rparr>\<rparr>"

definition address_on_exception ::
    "machine_core \<Rightarrow> exception \<Rightarrow> address \<Rightarrow> (environ_exception + address) \<times> machine_core" where
  "address_on_exception core exc current_pc =
     (case environ_exception_try_from exc of
        Some e \<Rightarrow> (Inl e, write_pc core current_pc)
      | None \<Rightarrow> let trap_pc = 0 in (Inr trap_pc, core))"

definition handle_step_result ::
    "machine_core \<Rightarrow> address \<Rightarrow> pc_update outcome \<Rightarrow> ((environ_exception + address) \<times> machine_core) option" where
  "handle_step_result core instr_pc result =
     (case result of
        Stuck \<Rightarrow> None
      | Err exc \<Rightarrow>
          (case address_on_exception core exc instr_pc of
             (Inl e, core) \<Rightarrow> Some (Inl e, core)
           | (Inr a, core) \<Rightarrow> Some (Inr a, write_pc core a))
      | Ok update \<Rightarrow>
          (let a = (case update of Set address \<Rightarrow> address | Next width \<Rightarrow> instr_pc + width_bytes width)
           in Some (Inr a, write_pc core a)))"

section \<open>Blocks\<close>

definition CACHE_INSTR :: nat where "CACHE_INSTR = 20"

definition INSTRUCTION_DEFAULT :: instruction where
  "INSTRUCTION_DEFAULT = \<lparr>opcode = OP_Unknown, args = ARGS_DEFAULT\<rparr>"

record block =
  block_cells :: "instruction list"
  len_instr :: nat

definition block_new :: block where
  "block_new = \<lparr>block_cells = replicate CACHE_INSTR INSTRUCTION_DEFAULT, len_instr = 0\<rparr>"

definition block_num_instr :: "block \<Rightarrow> nat" where
  "block_num_instr b = len_instr b"

definition block_instr :: "block \<Rightarrow> instruction list option" where
  "block_instr b =
     (if block_num_instr b \<le> length (block_cells b) then Some (take (block_num_instr b) (block_cells b)) else None)"

definition block_invalidate :: "block \<Rightarrow> block" where
  "block_invalidate b = b\<lparr>len_instr := 0\<rparr>"

definition block_push_instr :: "block \<Rightarrow> instruction \<Rightarrow> block option" where
  "block_push_instr b instr =
     (let len = len_instr b
      in if len < length (block_cells b)
         then Some (b\<lparr>block_cells := (block_cells b)[len := instr], len_instr := len + 1\<rparr>) else None)"

definition block_reset :: "block \<Rightarrow> block" where
  "block_reset b = b\<lparr>len_instr := 0, block_cells := map (\<lambda>_. INSTRUCTION_DEFAULT) (block_cells b)\<rparr>"

definition block_start :: "block \<Rightarrow> block" where
  "block_start b = b\<lparr>len_instr := 0\<rparr>"

text \<open>The loop of \<^verbatim>\<open>run_block_inner\<close>; \<open>n\<close> is \<^verbatim>\<open>result.steps\<close> so far.\<close>

fun run_block_inner ::
    "apfloat_ops \<Rightarrow> instruction list \<Rightarrow> machine_core \<Rightarrow> address \<Rightarrow> nat \<Rightarrow>
     (exception step_many_result \<times> machine_core \<times> address) option" where
  "run_block_inner apf [] core instr_pc n = Some (\<lparr>steps = n, error = None\<rparr>, core, instr_pc)"
| "run_block_inner apf (i # is) core instr_pc n =
     (case run_instruction apf i core of
        (Ok (Next width), core) \<Rightarrow>
          (let instr_pc = instr_pc + width_bytes width
           in run_block_inner apf is (write_pc core instr_pc) instr_pc (n + 1))
      | (Ok (Set a), core) \<Rightarrow> Some (\<lparr>steps = n + 1, error = None\<rparr>, write_pc core a, instr_pc)
      | (Err e, core) \<Rightarrow> Some (\<lparr>steps = n, error = Some e\<rparr>, core, instr_pc)
      | (Stuck, core) \<Rightarrow> None)"

definition block_run ::
    "apfloat_ops \<Rightarrow> block \<Rightarrow> machine_core \<Rightarrow> address \<Rightarrow> (environ_exception step_many_result \<times> machine_core) option" where
  "block_run apf b core instr_pc =
     (case block_instr b of
        None \<Rightarrow> None
      | Some is \<Rightarrow>
          (case run_block_inner apf is core instr_pc 0 of
             None \<Rightarrow> None
           | Some (result, core, instr_pc) \<Rightarrow>
               (case error result of
                  Some exc \<Rightarrow>
                    (case handle_step_result core instr_pc (Err exc) of
                       None \<Rightarrow> None
                     | Some (Inl err, core) \<Rightarrow> Some (\<lparr>steps = steps result, error = Some err\<rparr>, core)
                     | Some (Inr _, core) \<Rightarrow> Some (\<lparr>steps = steps result + 1, error = None\<rparr>, core))
                | None \<Rightarrow> Some (\<lparr>steps = steps result, error = None\<rparr>, core))))"

section \<open>Partial blocks\<close>

record partial_block =
  partial_addr :: address
  in_progress :: bool
  progress :: nat

definition partial_new :: partial_block where
  "partial_new = \<lparr>partial_addr = 0, in_progress = False, progress = 0\<rparr>"

definition partial_reset :: "partial_block \<Rightarrow> partial_block" where
  "partial_reset p = p\<lparr>in_progress := False, partial_addr := 0, progress := 0\<rparr>"

section \<open>Entries\<close>

record cached =
  cached_block :: block
  cached_address :: address
  cached_fence :: u32

definition FENCE_INITIAL :: u32 where "FENCE_INITIAL = 0"

definition fence_next :: "u32 \<Rightarrow> u32" where "fence_next c = c + 1"

definition cached_new :: cached where
  "cached_new = \<lparr>cached_block = block_new, cached_address = NOT 0, cached_fence = FENCE_INITIAL\<rparr>"

definition cached_invalidate :: "cached \<Rightarrow> cached" where
  "cached_invalidate e = e\<lparr>cached_address := NOT 0, cached_block := block_invalidate (cached_block e)\<rparr>"

definition cached_reset :: "cached \<Rightarrow> cached" where
  "cached_reset e =
     e\<lparr>cached_address := NOT 0, cached_fence := FENCE_INITIAL, cached_block := block_reset (cached_block e)\<rparr>"

definition cached_start_block :: "cached \<Rightarrow> address \<Rightarrow> u32 \<Rightarrow> cached" where
  "cached_start_block e block_addr fence_counter =
     e\<lparr>cached_address := block_addr, cached_block := block_start (cached_block e), cached_fence := fence_counter\<rparr>"

section \<open>Running a partial block\<close>

text \<open>
  The loop of \<^verbatim>\<open>run_partial_inner\<close>. Its last component is \<open>None\<close> where the source resets the
  partial block and returns, and the progress where the loop ends.
\<close>

fun run_partial_loop ::
    "apfloat_ops \<Rightarrow> nat \<Rightarrow> instruction list \<Rightarrow> machine_core \<Rightarrow> address \<Rightarrow> nat \<Rightarrow> nat \<Rightarrow>
     (environ_exception step_many_result \<times> machine_core \<times> nat option) option" where
  "run_partial_loop apf max_steps [] core instr_pc n prog = Some (\<lparr>steps = n, error = None\<rparr>, core, Some prog)"
| "run_partial_loop apf max_steps (i # is) core instr_pc n prog =
     (case run_instruction apf i core of
        (Ok (Next width), core) \<Rightarrow>
          (let instr_pc = instr_pc + width_bytes width; core = write_pc core instr_pc
           in if max_steps \<le> n + 1 then Some (\<lparr>steps = n + 1, error = None\<rparr>, core, Some (prog + 1))
              else run_partial_loop apf max_steps is core instr_pc (n + 1) (prog + 1))
      | (Ok (Set a), core) \<Rightarrow> Some (\<lparr>steps = n + 1, error = None\<rparr>, write_pc core a, None)
      | (Err e, core) \<Rightarrow>
          (case handle_step_result core instr_pc (Err e) of
             None \<Rightarrow> None
           | Some (Inl err, core) \<Rightarrow> Some (\<lparr>steps = n, error = Some err\<rparr>, core, None)
           | Some (Inr _, core) \<Rightarrow> Some (\<lparr>steps = n + 1, error = None\<rparr>, core, None))
      | (Stuck, core) \<Rightarrow> None)"

definition run_partial_inner ::
    "apfloat_ops \<Rightarrow> partial_block \<Rightarrow> machine_core \<Rightarrow> nat \<Rightarrow> cached \<Rightarrow>
     (environ_exception step_many_result \<times> machine_core \<times> partial_block) option" where
  "run_partial_inner apf p core max_steps entry =
     (if max_steps = 0 then Some (result_zero, core, p)
      else case block_instr (cached_block entry) of
             None \<Rightarrow> None
           | Some is \<Rightarrow>
               if length is < progress p then None
               else case run_partial_loop apf max_steps (drop (progress p) is) core (pc (hart core)) 0 (progress p) of
                      None \<Rightarrow> None
                    | Some (result, core, None) \<Rightarrow> Some (result, core, partial_reset p)
                    | Some (result, core, Some prog) \<Rightarrow>
                        Some (result, core,
                              if prog = block_num_instr (cached_block entry) then partial_reset p
                              else p\<lparr>progress := prog\<rparr>))"

definition run_block_partial ::
    "apfloat_ops \<Rightarrow> partial_block \<Rightarrow> machine_core \<Rightarrow> nat \<Rightarrow> cached \<Rightarrow>
     (environ_exception step_many_result \<times> machine_core \<times> partial_block) option" where
  "run_block_partial apf p core max_steps entry =
     run_partial_inner apf (p\<lparr>in_progress := True, progress := 0, partial_addr := cached_address entry\<rparr>)
       core max_steps entry"

section \<open>The cache\<close>

record block_cache =
  current_block_addr :: address
  next_instr_addr :: address
  fence_counter :: u32
  partial_block :: partial_block
  entries :: "cached list"

text \<open>\<^verbatim>\<open>BlockCacheConfig::<SIZE>::cache_index\<close>; \<open>SIZE\<close> is the number of entries.\<close>

definition cache_index :: "nat \<Rightarrow> address \<Rightarrow> nat" where
  "cache_index SIZE addr = unat (rust_shr addr 1 AND of_nat (SIZE - 1))"

definition block_cache_new :: "nat \<Rightarrow> block_cache" where
  "block_cache_new SIZE =
     \<lparr>current_block_addr = NOT 0, next_instr_addr = NOT 0, fence_counter = FENCE_INITIAL,
      partial_block = partial_new, entries = replicate SIZE cached_new\<rparr>"

definition entry_at :: "block_cache \<Rightarrow> address \<Rightarrow> cached" where
  "entry_at c addr = entries c ! cache_index (length (entries c)) addr"

definition update_entry :: "block_cache \<Rightarrow> address \<Rightarrow> cached \<Rightarrow> block_cache" where
  "update_entry c addr e = c\<lparr>entries := (entries c)[cache_index (length (entries c)) addr := e]\<rparr>"

definition reset_to :: "block_cache \<Rightarrow> address \<Rightarrow> block_cache" where
  "reset_to c addr = c\<lparr>current_block_addr := addr, next_instr_addr := 0\<rparr>"

definition entry_push :: "block_cache \<Rightarrow> address \<Rightarrow> instruction \<Rightarrow> block_cache option" where
  "entry_push c addr instr =
     map_option (\<lambda>b. update_entry c addr ((entry_at c addr)\<lparr>cached_block := b\<rparr>))
       (block_push_instr (cached_block (entry_at c addr)) instr)"

text \<open>The loop that appends the block at \<open>next_addr\<close> to the one at \<open>block_addr\<close>.\<close>

fun merge_blocks :: "block_cache \<Rightarrow> address \<Rightarrow> address \<Rightarrow> nat list \<Rightarrow> block_cache option" where
  "merge_blocks c block_addr next_addr [] = Some c"
| "merge_blocks c block_addr next_addr (i # is) =
     (case block_instr (cached_block (entry_at c next_addr)) of
        None \<Rightarrow> None
      | Some instrs \<Rightarrow>
          if i < length instrs
          then Option.bind (entry_push c block_addr (instrs ! i)) (\<lambda>c. merge_blocks c block_addr next_addr is)
          else None)"

definition OFFSET_MASK :: u64 where
  "OFFSET_MASK = rust_shl 1 OFFSET_BITS - 1"

definition cache_inner :: "u64 \<Rightarrow> block_cache \<Rightarrow> address \<Rightarrow> instruction \<Rightarrow> block_cache option" where
  "cache_inner WIDTH c addr instr =
     (let block_addr = current_block_addr c; fence = fence_counter c;
          entry = entry_at c block_addr; start = cached_address entry;
          len = block_num_instr (cached_block entry);
          (c, block_addr, len) =
            (if start \<noteq> block_addr \<or> start = addr
             then (update_entry c block_addr (cached_start_block entry block_addr fence), block_addr, 0)
             else if len = CACHE_INSTR
             then let c = reset_to c addr; block_addr = addr
                  in (update_entry c block_addr (cached_start_block (entry_at c block_addr) block_addr fence), block_addr, 0)
             else (c, block_addr, len))
      in Option.bind (entry_push c block_addr instr) (\<lambda>c.
           let new_len = len + 1; next_addr = addr + WIDTH;
               c = c\<lparr>next_instr_addr := next_addr\<rparr>;
               possible_block = entry_at c next_addr;
               adjacent_block_found =
                 (cached_address possible_block = next_addr \<and> cached_fence possible_block = fence \<and>
                  next_addr AND OFFSET_MASK \<noteq> 0 \<and>
                  block_num_instr (cached_block possible_block) + new_len \<le> CACHE_INSTR)
           in if adjacent_block_found
              then map_option (\<lambda>c. c\<lparr>next_instr_addr := NOT 0, current_block_addr := NOT 0\<rparr>)
                     (merge_blocks c block_addr next_addr [0..<block_num_instr (cached_block possible_block)])
              else Some c))"

definition block_cache_reset :: "block_cache \<Rightarrow> block_cache" where
  "block_cache_reset c =
     (let c = reset_to (c\<lparr>fence_counter := FENCE_INITIAL\<rparr>) (NOT 0)
      in c\<lparr>entries := map cached_reset (entries c), partial_block := partial_reset (partial_block c)\<rparr>)"

definition block_cache_invalidate :: "block_cache \<Rightarrow> block_cache" where
  "block_cache_invalidate c =
     (let counter = fence_counter c;
          c = reset_to (c\<lparr>fence_counter := fence_next counter\<rparr>) (NOT 0)
      in update_entry c (ucast counter) (cached_invalidate (entry_at c (ucast counter))))"

definition get_block :: "block_cache \<Rightarrow> address \<Rightarrow> cached option" where
  "get_block c addr =
     (let entry = entry_at c addr
      in if cached_address entry = addr \<and> fence_counter c = cached_fence entry \<and>
            0 < block_num_instr (cached_block entry)
         then Some entry else None)"

definition push_instr_compressed :: "block_cache \<Rightarrow> address \<Rightarrow> instruction \<Rightarrow> block_cache option" where
  "push_instr_compressed c addr instr =
     (let next_addr = next_instr_addr c;
          c = (if addr AND OFFSET_MASK = 0 \<or> addr \<noteq> next_addr then reset_to c addr else c)
      in cache_inner (width_bytes Compressed) c addr instr)"

definition END_OF_PAGE :: u64 where
  "END_OF_PAGE = of_nat (PAGE_SIZE - 2)"

definition push_instr_uncompressed :: "block_cache \<Rightarrow> address \<Rightarrow> instruction \<Rightarrow> block_cache option" where
  "push_instr_uncompressed c addr instr =
     (if addr mod of_nat PAGE_SIZE = END_OF_PAGE then Some c
      else let next_addr = next_instr_addr c;
               c = (if addr AND OFFSET_MASK = 0 \<or> addr \<noteq> next_addr then reset_to c addr else c)
           in cache_inner (width_bytes Uncompressed) c addr instr)"

definition complete_current_block ::
    "apfloat_ops \<Rightarrow> block_cache \<Rightarrow> machine_core \<Rightarrow> nat \<Rightarrow>
     (environ_exception step_many_result \<times> machine_core \<times> block_cache) option" where
  "complete_current_block apf c core max_steps =
     (if \<not> in_progress (partial_block c) then Some (result_zero, core, c)
      else map_option (\<lambda>(result, core, p). (result, core, c\<lparr>partial_block := p\<rparr>))
             (run_partial_inner apf (partial_block c) core max_steps (entry_at c (partial_addr (partial_block c)))))"

text \<open>\<^verbatim>\<open>BlockCall::run_block\<close> on the entry that \<open>get_block\<close> returned.\<close>

definition run_block ::
    "apfloat_ops \<Rightarrow> block_cache \<Rightarrow> cached \<Rightarrow> machine_core \<Rightarrow> address \<Rightarrow> nat \<Rightarrow>
     (environ_exception step_many_result \<times> machine_core \<times> block_cache) option" where
  "run_block apf c entry core instr_pc max_steps =
     (if block_num_instr (cached_block entry) \<le> max_steps
      then map_option (\<lambda>(result, core). (result, core, c)) (block_run apf (cached_block entry) core instr_pc)
      else map_option (\<lambda>(result, core, p). (result, core, c\<lparr>partial_block := p\<rparr>))
             (run_block_partial apf (partial_block c) core max_steps entry))"

end
