(* ===== verification/Machine_State.thy ===== *)
theory Machine_State
  imports Block_Cache
begin

unbundle bit_operations_syntax

text \<open>
  Model of the machine, \<^verbatim>\<open>machine_state.rs\<close>: fetching and decoding an instruction, filling the
  block cache, running one instruction or a cached block, and the loops that run many steps.

  \<open>None\<close> is a panic or undefined behaviour, and, for \<open>step_max\<close> and \<open>step_max_handle\<close>, also a run
  that does not end. Step counts are natural numbers; the source's \<^verbatim>\<open>usize\<close> counter would wrap after
  \<open>2 ^ 64\<close> steps of an unbounded run.
\<close>

section \<open>Progress of a block\<close>

lemma run_block_inner_steps:
  "run_block_inner apf is core a n = Some (r, core', a') \<Longrightarrow>
     n \<le> steps r \<and> steps r \<le> n + length is \<and> (error r = None \<longrightarrow> is \<noteq> [] \<longrightarrow> n < steps r) \<and>
     (error r \<noteq> None \<longrightarrow> steps r < n + length is)"
  by (induction apf "is" core a n rule: run_block_inner.induct)
     (fastforce split: prod.splits outcome.splits pc_update.splits simp: Let_def)+

lemma run_partial_loop_steps:
  "run_partial_loop apf m is core a n p = Some (r, core', q) \<Longrightarrow> n < m \<Longrightarrow>
     n \<le> steps r \<and> steps r \<le> n + length is \<and> steps r \<le> m \<and> (error r = None \<longrightarrow> is \<noteq> [] \<longrightarrow> n < steps r) \<and>
     (error r \<noteq> None \<longrightarrow> steps r < m)"
  by (induction apf m "is" core a n p rule: run_partial_loop.induct)
     (fastforce split: prod.splits outcome.splits pc_update.splits if_splits option.splits sum.splits simp: Let_def)+

lemma handle_step_result_Err:
  "\<exists>r core'. handle_step_result core a (Err e) = Some (r, core')"
  by (auto simp: handle_step_result_def address_on_exception_def Let_def split: option.splits)

lemma run_block_progress:
  assumes "get_block c a = Some e" and "run_block apf c e core b m = Some (r, core', c')" and "0 < m"
  shows "steps r \<le> m \<and> (error r = None \<longrightarrow> 0 < steps r) \<and> (error r \<noteq> None \<longrightarrow> steps r < m)"
proof (cases "block_num_instr (cached_block e) \<le> m")
  case True
  from assms(1) have n: "0 < block_num_instr (cached_block e)"
    by (auto simp: get_block_def Let_def split: if_splits)
  from assms(2) True obtain "is" where "is": "block_instr (cached_block e) = Some is"
    and l: "length is = block_num_instr (cached_block e)"
    by (auto simp: run_block_def block_run_def block_instr_def split: if_splits option.splits)
  with assms(2) True obtain r' core1 a1 where
    r': "run_block_inner apf is core b 0 = Some (r', core1, a1)"
    by (auto simp: run_block_def block_run_def split: option.splits)
  from run_block_inner_steps [OF r'] l n True assms(2) r' "is" show ?thesis
    by (auto simp: run_block_def block_run_def split: option.splits sum.splits)
next
  case False
  then obtain "is" where "is": "block_instr (cached_block e) = Some is" "length is = block_num_instr (cached_block e)"
    using assms(2,3) by (auto simp: run_block_def run_block_partial_def run_partial_inner_def block_instr_def
        split: option.splits if_splits)
  with False assms(2,3) obtain q where
    "run_partial_loop apf m is core (pc (hart core)) 0 0 = Some (r, core', q)"
    by (auto simp: run_block_def run_block_partial_def run_partial_inner_def split: option.splits if_splits)
  from run_partial_loop_steps [OF this] assms(3) "is"(2) False show ?thesis by auto
qed

section \<open>State\<close>

record machine_state =
  core :: machine_core
  block_cache :: block_cache

definition machine_core_reset :: "machine_core \<Rightarrow> machine_core option" where
  "machine_core_reset c =
     map_option (\<lambda>m. c\<lparr>hart := hart_reset (hart c) 0, main_memory := m\<rparr>) (mem_reset (main_memory c))"

definition machine_new :: "nat \<Rightarrow> memory \<Rightarrow> machine_state" where
  "machine_new SIZE m = \<lparr>core = \<lparr>hart = hart_new, main_memory = m\<rparr>, block_cache = block_cache_new SIZE\<rparr>"

definition machine_reset :: "machine_state \<Rightarrow> machine_state option" where
  "machine_reset s =
     map_option (\<lambda>c. s\<lparr>core := c, block_cache := block_cache_reset (block_cache s)\<rparr>) (machine_core_reset (core s))"

section \<open>Fetching\<close>

definition fetch_instr_halfword :: "machine_state \<Rightarrow> address \<Rightarrow> u16 instruction_data outcome" where
  "fetch_instr_halfword s phys_addr =
     (case mem_read_exec (main_memory (core s)) phys_addr of
        Inr d \<Rightarrow> Ok d
      | Inl BadMemoryAccess \<Rightarrow> Err (InstructionAccessFault phys_addr)
      | Inl _ \<Rightarrow> Stuck)"

definition fetch_instr :: "machine_state \<Rightarrow> address \<Rightarrow> instr outcome \<times> machine_state" where
  "fetch_instr s addr =
     (case fetch_instr_halfword s addr of
        Stuck \<Rightarrow> (Stuck, s)
      | Err e \<Rightarrow> (Err e, s)
      | Ok lower \<Rightarrow>
          if is_compressed (instr_data lower) then
            (case parse_compressed_instruction (instr_data lower) of
               None \<Rightarrow> (Stuck, s)
             | Some instr \<Rightarrow>
                 (if \<not> writable lower then
                    (case instr of
                       Cacheable i \<Rightarrow>
                         (case push_instr_compressed (block_cache s) addr (instruction_from i) of
                            None \<Rightarrow> (Stuck, s)
                          | Some c \<Rightarrow> (Ok instr, s\<lparr>block_cache := c\<rparr>))
                     | _ \<Rightarrow> (Ok instr, s))
                  else (Ok instr, s)))
          else
            (let next_addr = addr + 2 in
             case fetch_instr_halfword s next_addr of
               Stuck \<Rightarrow> (Stuck, s)
             | Err e \<Rightarrow> (Err e, s)
             | Ok upper \<Rightarrow>
                 (let combined = combine_with_upper lower upper;
                      instr = parse_uncompressed_instruction (instr_data combined)
                  in if \<not> writable combined then
                       (case instr of
                          Cacheable i \<Rightarrow>
                            (case push_instr_uncompressed (block_cache s) addr (instruction_from i) of
                               None \<Rightarrow> (Stuck, s)
                             | Some c \<Rightarrow> (Ok instr, s\<lparr>block_cache := c\<rparr>))
                        | _ \<Rightarrow> (Ok instr, s))
                     else (Ok instr, s))))"

section \<open>Running an instruction\<close>

text \<open>\<^verbatim>\<open>run_fencei\<close> of \<^verbatim>\<open>interpreter/rv64zifencei.rs\<close>.\<close>

definition run_fencei :: "machine_state \<Rightarrow> machine_state" where
  "run_fencei s = s\<lparr>block_cache := block_cache_invalidate (block_cache s)\<rparr>"

text \<open>\<^verbatim>\<open>run_fence\<close>, \<^verbatim>\<open>run_ebreak\<close> and \<^verbatim>\<open>run_cebreak\<close> of \<^verbatim>\<open>rv32i.rs\<close> and \<^verbatim>\<open>rv32c.rs\<close>.\<close>

definition run_fence :: "machine_core \<Rightarrow> fence_set \<Rightarrow> fence_set \<Rightarrow> machine_core" where
  "run_fence c pred succ = c"

definition run_ebreak :: "hart_state \<Rightarrow> exception" where "run_ebreak h = Breakpoint"

definition run_cebreak :: "hart_state \<Rightarrow> exception" where "run_cebreak h = Breakpoint"

definition run_instr_uncacheable :: "machine_state \<Rightarrow> instr_uncacheable \<Rightarrow> pc_update outcome \<times> machine_state" where
  "run_instr_uncacheable s instr =
     (case instr of
        Fence pred succ \<Rightarrow> (Ok (Next (instr_uncacheable_width instr)), s\<lparr>core := run_fence (core s) pred succ\<rparr>)
      | FenceTso _ _ \<Rightarrow> (Err IllegalInstruction, s)
      | Ebreak \<Rightarrow> (Err (run_ebreak (hart (core s))), s)
      | CEbreak \<Rightarrow> (Err (run_cebreak (hart (core s))), s)
      | FenceI \<Rightarrow> (Ok (Next (instr_uncacheable_width instr)), run_fencei s))"

definition run_instr_cacheable :: "apfloat_ops \<Rightarrow> machine_core \<Rightarrow> instr_cacheable \<Rightarrow> run_result" where
  "run_instr_cacheable apf c instr = run_instruction apf (instruction_from instr) c"

definition run_instr :: "apfloat_ops \<Rightarrow> machine_state \<Rightarrow> instr \<Rightarrow> pc_update outcome \<times> machine_state" where
  "run_instr apf s instr =
     (case instr of
        Cacheable i \<Rightarrow> (case run_instr_cacheable apf (core s) i of (r, c) \<Rightarrow> (r, s\<lparr>core := c\<rparr>))
      | Uncacheable i \<Rightarrow> run_instr_uncacheable s i)"

definition run_instr_at :: "apfloat_ops \<Rightarrow> machine_state \<Rightarrow> address \<Rightarrow> pc_update outcome \<times> machine_state" where
  "run_instr_at apf s addr =
     (case fetch_instr s addr of
        (Ok instr, s) \<Rightarrow> run_instr apf s instr
      | (Err e, s) \<Rightarrow> (Err e, s)
      | (Stuck, s) \<Rightarrow> (Stuck, s))"

section \<open>Many steps\<close>

type_synonym run_many = "(environ_exception step_many_result \<times> machine_state) option"

text \<open>The loop of \<^verbatim>\<open>step_max_inner\<close>.\<close>

function step_loop :: "apfloat_ops \<Rightarrow> nat \<Rightarrow> environ_exception step_many_result \<Rightarrow> machine_state \<Rightarrow> run_many" where
  "step_loop apf max_steps result s =
     (if steps result < max_steps then
        (let instr_pc = pc (hart (core s)) in
         case get_block (block_cache s) instr_pc of
           Some block \<Rightarrow>
             (case run_block apf (block_cache s) block (core s) instr_pc (max_steps - steps result) of
                None \<Rightarrow> None
              | Some (block_result, c, bc) \<Rightarrow>
                  (let s' = s\<lparr>core := c, block_cache := bc\<rparr>;
                       (errored, result') = merge_and_return result block_result
                   in if errored then Some (result', s') else step_loop apf max_steps result' s'))
         | None \<Rightarrow>
             (case run_instr_at apf s instr_pc of
                (res, s') \<Rightarrow>
                  (case handle_step_result (core s') instr_pc res of
                     None \<Rightarrow> None
                   | Some (Inl e, c) \<Rightarrow> Some (result\<lparr>error := Some e\<rparr>, s'\<lparr>core := c\<rparr>)
                   | Some (Inr _, c) \<Rightarrow>
                       step_loop apf max_steps (result\<lparr>steps := steps result + 1\<rparr>) (s'\<lparr>core := c\<rparr>))))
      else Some (result, s))"
  by pat_completeness auto
termination
  by (relation "measure (\<lambda>(apf, m, r, s). m - steps r)")
     (auto simp: merge_and_return_def dest!: run_block_progress)

declare step_loop.simps [simp del]

definition step_max_inner :: "apfloat_ops \<Rightarrow> nat \<Rightarrow> machine_state \<Rightarrow> run_many" where
  "step_max_inner apf max_steps s =
     (case complete_current_block apf (block_cache s) (core s) max_steps of
        None \<Rightarrow> None
      | Some (current_block_result, c, bc) \<Rightarrow>
          (let s' = s\<lparr>core := c, block_cache := bc\<rparr>;
               (errored, result) = merge_and_return result_zero current_block_result
           in if errored then Some (result, s') else step_loop apf max_steps result s'))"

definition step :: "apfloat_ops \<Rightarrow> machine_state \<Rightarrow> ((environ_exception + unit) \<times> machine_state) option" where
  "step apf s =
     (case step_max_inner apf 1 s of
        None \<Rightarrow> None
      | Some (r, s') \<Rightarrow> Some (case error r of Some e \<Rightarrow> Inl e | None \<Rightarrow> Inr (), s'))"

datatype bound = Included nat | Excluded nat | Unbounded

definition USIZE_MAX :: nat where "USIZE_MAX = 2 ^ 64 - 1"

fun bound_saturating_sub :: "bound \<Rightarrow> nat \<Rightarrow> bound" where
  "bound_saturating_sub (Included x) shift = Included (x - shift)"
| "bound_saturating_sub (Excluded x) shift = Excluded (x - shift)"
| "bound_saturating_sub Unbounded shift = Unbounded"

fun less_than_bound :: "nat \<Rightarrow> bound \<Rightarrow> bool" where
  "less_than_bound num (Included x) \<longleftrightarrow> num < x"
| "less_than_bound num (Excluded x) \<longleftrightarrow> num < x - 1"
| "less_than_bound num Unbounded \<longleftrightarrow> True"

fun unwrap_bound :: "bound \<Rightarrow> nat" where
  "unwrap_bound (Included x) = x"
| "unwrap_bound (Excluded x) = x - 1"
| "unwrap_bound Unbounded = USIZE_MAX"

text \<open>The loop of \<^verbatim>\<open>step_max\<close>, which an unbounded run leaves only with an error.\<close>

partial_function (option) step_max_loop ::
    "apfloat_ops \<Rightarrow> bound \<Rightarrow> environ_exception step_many_result \<Rightarrow> machine_state \<Rightarrow> run_many" where
  "step_max_loop apf max_steps result s =
     Option.bind (step_max_inner apf (unwrap_bound max_steps) s) (\<lambda>(iter_result, s').
       let (errored, result') = merge_and_return result iter_result;
           out_of_steps = (\<not> less_than_bound (steps result') max_steps)
       in if errored \<or> out_of_steps then Some (result', s') else step_max_loop apf max_steps result' s')"

definition step_max :: "apfloat_ops \<Rightarrow> bound \<Rightarrow> machine_state \<Rightarrow> run_many" where
  "step_max apf max_steps s = step_max_loop apf max_steps result_zero s"

text \<open>
  \<^verbatim>\<open>step_max_handle\<close>: the handler may change its own state \<open>'h\<close> beside the machine, as the closure
  of the source does; \<open>Inr True\<close> lets the run continue.
\<close>

definition saturating_step_add :: "nat \<Rightarrow> nat \<Rightarrow> nat" where
  "saturating_step_add a b = min (a + b) USIZE_MAX"

partial_function (option) step_max_handle_loop ::
    "apfloat_ops \<Rightarrow> ('h \<Rightarrow> machine_state \<Rightarrow> environ_exception \<Rightarrow> (('e + bool) \<times> 'h \<times> machine_state) option) \<Rightarrow>
     bound \<Rightarrow> nat \<Rightarrow> 'h \<Rightarrow> machine_state \<Rightarrow> ('e step_many_result \<times> 'h \<times> machine_state) option" where
  "step_max_handle_loop apf handle step_bounds n h s =
     Option.bind (step_max apf step_bounds s) (\<lambda>(result, s').
       let n = saturating_step_add n (steps result); step_bounds = bound_saturating_sub step_bounds (steps result)
       in case error result of
            None \<Rightarrow> Some (\<lparr>steps = n, error = None\<rparr>, h, s')
          | Some cause \<Rightarrow>
              (let n = saturating_step_add n 1; step_bounds = bound_saturating_sub step_bounds 1
               in Option.bind (handle h s' cause) (\<lambda>(res, h', s'').
                    case res of
                      Inl e \<Rightarrow> Some (\<lparr>steps = n, error = Some e\<rparr>, h', s'')
                    | Inr may_continue \<Rightarrow>
                        if may_continue then step_max_handle_loop apf handle step_bounds n h' s''
                        else Some (\<lparr>steps = n, error = None\<rparr>, h', s''))))"

definition step_max_handle ::
    "apfloat_ops \<Rightarrow> bound \<Rightarrow> ('h \<Rightarrow> machine_state \<Rightarrow> environ_exception \<Rightarrow> (('e + bool) \<times> 'h \<times> machine_state) option) \<Rightarrow>
     'h \<Rightarrow> machine_state \<Rightarrow> ('e step_many_result \<times> 'h \<times> machine_state) option" where
  "step_max_handle apf step_bounds handle h s = step_max_handle_loop apf handle step_bounds 0 h s"

end
