(* ===== verification/Machine_Steps.thy ===== *)
theory Machine_Steps
  imports Machine_State
begin

unbundle bit_operations_syntax

text \<open>
  Determinism of stepping: running many steps at once, whether blocks are run whole or in part, is
  running single steps one after the other. With it, the bounds on step counts and the termination
  of bounded runs.
\<close>

section \<open>Results with an offset\<close>

definition add_steps :: "nat \<Rightarrow> 'e step_many_result \<Rightarrow> 'e step_many_result" where
  "add_steps k r = r\<lparr>steps := k + steps r\<rparr>"

lemma add_steps_simps [simp]:
  "steps (add_steps k r) = k + steps r" "error (add_steps k r) = error r"
  "add_steps 0 r = r" "add_steps j (add_steps k r) = add_steps (j + k) r"
  by (simp_all add: add_steps_def)

lemma add_steps_make [simp]: "add_steps k \<lparr>steps = n, error = e\<rparr> = \<lparr>steps = k + n, error = e\<rparr>"
  by (simp add: add_steps_def)

lemma add_steps_eq: "add_steps k r = \<lparr>steps = k + steps r, error = error r\<rparr>"
  by (cases r) (simp add: add_steps_def)

lemma add_steps_error [simp]: "(add_steps k r)\<lparr>error := e\<rparr> = add_steps k (r\<lparr>error := e\<rparr>)"
  by (cases r) (simp add: add_steps_def)

lemma result_zero_simps [simp]: "steps result_zero = 0" "error result_zero = None"
  by (simp_all add: result_zero_def)

lemma merge_and_return_zero [simp]: "merge_and_return result_zero r = (error r \<noteq> None, r)"
  by (cases r) (simp add: merge_and_return_def)

lemma step_loop_done [simp]: "m \<le> steps r \<Longrightarrow> step_loop apf m r s = Some (r, s)"
  by (simp add: step_loop.simps)

text \<open>One round of the loop, on a state where steps remain.\<close>

definition loop_body :: "apfloat_ops \<Rightarrow> nat \<Rightarrow> machine_state \<Rightarrow> run_many" where
  "loop_body apf remaining s =
     (let instr_pc = pc (hart (core s)) in
      case get_block (block_cache s) instr_pc of
        Some block \<Rightarrow>
          map_option (\<lambda>(r, c, bc). (r, s\<lparr>core := c, block_cache := bc\<rparr>))
            (run_block apf (block_cache s) block (core s) instr_pc remaining)
      | None \<Rightarrow>
          (case run_instr_at apf s instr_pc of
             (res, s') \<Rightarrow>
               (case handle_step_result (core s') instr_pc res of
                  None \<Rightarrow> None
                | Some (Inl e, c) \<Rightarrow> Some (\<lparr>steps = 0, error = Some e\<rparr>, s'\<lparr>core := c\<rparr>)
                | Some (Inr _, c) \<Rightarrow> Some (\<lparr>steps = 1, error = None\<rparr>, s'\<lparr>core := c\<rparr>))))"

lemma step_loop_body:
  assumes "error r = None"
  shows "step_loop apf m r s =
     (if steps r < m then
        (case loop_body apf (m - steps r) s of
           None \<Rightarrow> None
         | Some (r', s') \<Rightarrow>
             if error r' \<noteq> None then Some (add_steps (steps r) r', s')
             else step_loop apf m (add_steps (steps r) r') s')
      else Some (r, s))"
proof (cases "steps r < m")
  case True
  have upd: "r\<lparr>error := Some e\<rparr> = \<lparr>steps = steps r, error = Some e\<rparr>" "r\<lparr>steps := n\<rparr> = \<lparr>steps = n, error = None\<rparr>" for e n
    using assms by (cases r, simp)+
  show ?thesis
    by (auto simp: step_loop.simps [of apf m r s] loop_body_def Let_def True merge_and_return_def add_steps_eq upd
        split: option.split prod.split sum.split)
qed simp

lemma loop_body_progress:
  assumes "loop_body apf m s = Some (r, s')" and "0 < m"
  shows "steps r \<le> m" "error r = None \<Longrightarrow> 0 < steps r" "error r \<noteq> None \<Longrightarrow> steps r < m"
  using assms by (auto simp: loop_body_def Let_def split: option.splits prod.splits sum.splits dest: run_block_progress)

lemma step_loop_offset:
  "error r = None \<Longrightarrow>
     step_loop apf (k + m) (add_steps k r) s = map_option (apfst (add_steps k)) (step_loop apf m r s)"
proof (induction "m - steps r" arbitrary: r s rule: less_induct)
  case less
  show ?case
  proof (cases "steps r < m")
    case True
    show ?thesis
    proof (cases "loop_body apf (m - steps r) s")
      case (Some p)
      obtain r' s' where p: "p = (r', s')" by fastforce
      have "error r' = None \<Longrightarrow> m - (steps r + steps r') < m - steps r"
        using loop_body_progress(2) [of apf "m - steps r" s r' s'] Some p True by simp
      with less.hyps [of "add_steps (steps r) r'" s'] True Some p less.prems show ?thesis
        by (simp add: step_loop_body [where r = r] step_loop_body [where r = "add_steps k r"])
    qed (simp add: step_loop_body less.prems)
  qed simp
qed

lemma step_loop_from:
  "error r = None \<Longrightarrow> steps r \<le> m \<Longrightarrow>
     step_loop apf m r s = map_option (apfst (add_steps (steps r))) (step_loop apf (m - steps r) result_zero s)"
  using step_loop_offset [where k = "steps r" and m = "m - steps r" and r = result_zero and s = s and apf = apf]
  by (cases r) (simp add: add_steps_def result_zero_def)

lemma step_loop_one:
  "error r = None \<Longrightarrow> steps r = Suc 0 \<Longrightarrow>
     step_loop apf (Suc n) r s = map_option (apfst (add_steps (Suc 0))) (step_loop apf n result_zero s)"
  using step_loop_from [of r "Suc n" apf s] by simp

section \<open>Whole blocks as partial blocks\<close>

lemma run_partial_loop_offset:
  "run_partial_loop apf (k + m) is mc a (k + n) p =
     map_option (apfst (add_steps k)) (run_partial_loop apf m is mc a n p)"
  by (induction apf m "is" mc a n p rule: run_partial_loop.induct)
     (auto simp: Let_def split: prod.splits outcome.splits pc_update.splits option.splits sum.splits)

definition finish_block ::
    "exception step_many_result \<times> machine_core \<times> address \<Rightarrow> (environ_exception step_many_result \<times> machine_core) option" where
  "finish_block x =
     (case x of (result, mc, instr_pc) \<Rightarrow>
        (case error result of
           Some exc \<Rightarrow>
             (case handle_step_result mc instr_pc (Err exc) of
                None \<Rightarrow> None
              | Some (Inl err, mc) \<Rightarrow> Some (\<lparr>steps = steps result, error = Some err\<rparr>, mc)
              | Some (Inr _, mc) \<Rightarrow> Some (\<lparr>steps = steps result + 1, error = None\<rparr>, mc))
         | None \<Rightarrow> Some (\<lparr>steps = steps result, error = None\<rparr>, mc)))"

lemma run_block_inner_partial:
  assumes "n + length is \<le> m"
  shows "Option.bind (run_block_inner apf is mc a n) finish_block =
           map_option (\<lambda>(r, c, q). (r, c)) (run_partial_loop apf m is mc a n p)"
  using assms
proof (induction "is" arbitrary: mc a n p)
  case (Cons i "is")
  obtain res mc' where r: "run_instruction apf i mc = (res, mc')" by fastforce
  show ?case
  proof (cases "\<exists>w. res = Ok (Next w)")
    case True
    then obtain w where w: "res = Ok (Next w)" by blast
    show ?thesis
    proof (cases "is")
      case Nil
      with r w show ?thesis by (simp add: finish_block_def Let_def)
    next
      case (Cons j js)
      with Cons.prems have "\<not> m \<le> n + 1" by simp
      with r w Cons.IH [of "n + 1"] Cons.prems show ?thesis by (simp add: Let_def)
    qed
  next
    case False
    with r show ?thesis
      by (auto simp: finish_block_def split: outcome.splits pc_update.splits option.splits sum.splits)
  qed
qed (simp add: finish_block_def)

lemma run_partial_loop_rest:
  "run_partial_loop apf m is mc a n p = Some (r, mc', Some q) \<Longrightarrow> n < m \<Longrightarrow>
     error r = None \<and> q \<le> p + length is \<and> (q < p + length is \<longrightarrow> steps r = m)"
  by (induction apf m "is" mc a n p rule: run_partial_loop.induct)
     (fastforce simp: Let_def split: prod.splits outcome.splits pc_update.splits option.splits sum.splits if_splits)+

lemma run_partial_loop_whole:
  "run_partial_loop apf m is mc a n p = Some (r, mc', Some q) \<Longrightarrow> n + length is \<le> m \<Longrightarrow> q = p + length is"
  by (induction apf m "is" mc a n p rule: run_partial_loop.induct)
     (fastforce simp: Let_def split: prod.splits outcome.splits pc_update.splits option.splits sum.splits if_splits)+

lemma block_run_eq:
  "block_run apf b mc a = Option.bind (block_instr b) (\<lambda>is. Option.bind (run_block_inner apf is mc a 0) finish_block)"
  by (auto simp: block_run_def finish_block_def split: option.split prod.split sum.split)

text \<open>The first instruction of a partial block alone, then the others.\<close>

lemma run_partial_loop_split:
  "run_partial_loop apf (Suc n) (i # is) mc a 0 p =
     (case run_partial_loop apf 1 (i # is) mc a 0 p of
        None \<Rightarrow> None
      | Some (r, mc', None) \<Rightarrow> Some (r, mc', None)
      | Some (r, mc', Some q) \<Rightarrow>
          if n = 0 then Some (r, mc', Some q)
          else map_option (apfst (add_steps 1)) (run_partial_loop apf n is mc' (pc (hart mc')) 0 q))"
  using run_partial_loop_offset [of apf 1 n "is" _ _ 0]
  by (auto simp: Let_def write_pc_def split: prod.splits outcome.splits pc_update.splits option.splits sum.splits)


section \<open>Single steps\<close>

text \<open>
  What the machine keeps of a partial block between calls: there is none, or it stands before an
  instruction of its block.
\<close>

definition partial_wf :: "block_cache \<Rightarrow> bool" where
  "partial_wf c \<longleftrightarrow>
     (let p = partial_block c in
      if in_progress p then progress p < block_num_instr (cached_block (entry_at c (partial_addr p)))
      else p = partial_new)"

definition then_run :: "run_many \<Rightarrow> (machine_state \<Rightarrow> run_many) \<Rightarrow> run_many" where
  "then_run r k =
     (case r of
        None \<Rightarrow> None
      | Some (r, s) \<Rightarrow> if error r \<noteq> None then Some (r, s) else map_option (apfst (add_steps (steps r))) (k s))"

lemma step_max_inner_idle:
  "\<not> in_progress (partial_block (block_cache s)) \<Longrightarrow> step_max_inner apf m s = step_loop apf m result_zero s"
  by (simp add: step_max_inner_def complete_current_block_def)

lemma step_max_inner_zero: "step_max_inner apf 0 s = Some (result_zero, s)"
  by (simp add: step_max_inner_def complete_current_block_def run_partial_inner_def)

definition start_partial :: "machine_state \<Rightarrow> cached \<Rightarrow> machine_state" where
  "start_partial s e =
     s\<lparr>block_cache := (block_cache s)\<lparr>partial_block := \<lparr>partial_addr = cached_address e, in_progress = True, progress = 0\<rparr>\<rparr>\<rparr>"

definition after_partial :: "machine_state \<Rightarrow> cached \<Rightarrow> machine_core \<Rightarrow> nat option \<Rightarrow> machine_state" where
  "after_partial s e mc q =
     s\<lparr>core := mc,
       block_cache := (block_cache s)\<lparr>partial_block :=
         (case q of None \<Rightarrow> partial_new
          | Some prog \<Rightarrow> if prog = block_num_instr (cached_block e) then partial_new
                         else (partial_block (block_cache s))\<lparr>progress := prog\<rparr>)\<rparr>\<rparr>"

lemma partial_new_simps [simp]: "in_progress partial_new = False" "progress partial_new = 0" "partial_addr partial_new = 0"
  by (simp_all add: partial_new_def)

lemma partial_reset_eq [simp]: "partial_reset p = partial_new"
  by (simp add: partial_reset_def partial_new_def)

lemma step_max_inner_partial:
  assumes "in_progress (partial_block (block_cache s))" and "0 < m"
    and "e = entry_at (block_cache s) (partial_addr (partial_block (block_cache s)))"
    and "block_instr (cached_block e) = Some is" and "progress (partial_block (block_cache s)) \<le> length is"
  shows "step_max_inner apf m s =
     (case run_partial_loop apf m (drop (progress (partial_block (block_cache s))) is) (core s) (pc (hart (core s))) 0
             (progress (partial_block (block_cache s))) of
        None \<Rightarrow> None
      | Some (r, mc, q) \<Rightarrow>
          if error r \<noteq> None then Some (r, after_partial s e mc q) else step_loop apf m r (after_partial s e mc q))"
  using assms
  by (auto simp: step_max_inner_def complete_current_block_def run_partial_inner_def after_partial_def
      split: option.split prod.split)

lemma block_instr_length: "block_instr b = Some is \<Longrightarrow> length is = block_num_instr b"
  by (auto simp: block_instr_def split: if_splits)

text \<open>Running a cached block, in full or in part, is starting a partial block and completing it.\<close>

lemma step_max_inner_block:
  assumes "partial_block (block_cache s) = partial_new" and "0 < m"
    and get: "get_block (block_cache s) (pc (hart (core s))) = Some e"
  shows "step_max_inner apf m s = step_max_inner apf m (start_partial s e)"
proof -
  let ?c = "block_cache s" and ?t = "start_partial s e" and ?a = "pc (hart (core s))"
  have e: "entry_at ?c (cached_address e) = e" "cached_address e = ?a"
    using get by (auto simp: get_block_def Let_def split: if_splits)
  have e': "entry_at (block_cache ?t) (partial_addr (partial_block (block_cache ?t))) = e"
    using e by (simp add: start_partial_def entry_at_def)
  have idle: "step_max_inner apf m s = step_loop apf m result_zero s"
    using assms(1) by (intro step_max_inner_idle) (simp add: partial_new_def)
  show ?thesis
  proof (cases "block_instr (cached_block e)")
    case None
    with assms e' show ?thesis
      by (simp add: idle step_loop_body loop_body_def run_block_def block_run_def run_block_partial_def
          run_partial_inner_def step_max_inner_def complete_current_block_def)
         (simp add: start_partial_def)
  next
    case (Some "is")
    note len = block_instr_length [OF Some]
    define L where "L = run_partial_loop apf m is (core s) ?a 0 0"
    have t: "step_max_inner apf m ?t =
        (case L of None \<Rightarrow> None
         | Some (r, mc, q) \<Rightarrow>
             if error r \<noteq> None then Some (r, after_partial ?t e mc q) else step_loop apf m r (after_partial ?t e mc q))"
      using step_max_inner_partial [of ?t m e "is" apf] assms(2) e' Some
      by (simp add: start_partial_def L_def)
    have body: "loop_body apf m s = map_option (\<lambda>(r, mc, q). (r, after_partial ?t e mc q)) L"
    proof (cases "block_num_instr (cached_block e) \<le> m")
      case True
      then have "Option.bind (run_block_inner apf is (core s) ?a 0) finish_block = map_option (\<lambda>(r, c, q). (r, c)) L"
        unfolding L_def using len by (intro run_block_inner_partial) simp
      then have run: "run_block apf (block_cache s) e (core s) ?a m = map_option (\<lambda>(r, mc, q). (r, mc, ?c)) L"
        using True Some by (cases L) (auto simp: run_block_def block_run_eq)
      have "after_partial ?t e mc q = s\<lparr>core := mc, block_cache := ?c\<rparr>" if "L = Some (r, mc, q)" for r mc q
        using that run_partial_loop_whole [of apf m "is" "core s" ?a 0 0 r mc] len True assms(1)
        by (cases q) (auto simp: L_def after_partial_def start_partial_def)
      then show ?thesis using run get by (cases L) (auto simp: loop_body_def)
    next
      case False
      then show ?thesis using Some assms(2) get
        by (auto simp: loop_body_def run_block_def run_block_partial_def run_partial_inner_def L_def
            after_partial_def start_partial_def assms(1) split: option.splits prod.splits)
    qed
    show ?thesis unfolding idle t step_loop_body [OF result_zero_simps(2)]
      using assms(2) by (auto simp: body add_steps_def split: option.split)
  qed
qed


lemma step_max_inner_partial_None:
  assumes "in_progress (partial_block (block_cache s))" and "0 < m"
    and "block_instr (cached_block (entry_at (block_cache s) (partial_addr (partial_block (block_cache s))))) = None"
  shows "step_max_inner apf m s = None"
  using assms by (simp add: step_max_inner_def complete_current_block_def run_partial_inner_def)

lemma after_partial_simps [simp]:
  "core (after_partial s e mc q) = mc" "entries (block_cache (after_partial s e mc q)) = entries (block_cache s)"
  by (simp_all add: after_partial_def)

lemma entry_at_after_partial [simp]:
  "entry_at (block_cache (after_partial s e mc q)) = entry_at (block_cache s)"
  by (simp add: entry_at_def fun_eq_iff)

lemma after_partial_idle:
  "q = None \<or> q = Some (block_num_instr (cached_block e)) \<Longrightarrow> partial_block (block_cache (after_partial s e mc q)) = partial_new"
  by (auto simp: after_partial_def)

lemma after_partial_progress:
  "q \<noteq> block_num_instr (cached_block e) \<Longrightarrow>
     partial_block (block_cache (after_partial s e mc (Some q))) = (partial_block (block_cache s))\<lparr>progress := q\<rparr>"
  by (auto simp: after_partial_def)

lemma after_partial_twice:
  "q \<noteq> block_num_instr (cached_block e) \<Longrightarrow> after_partial (after_partial s e mc (Some q)) e mc' q' = after_partial s e mc' q'"
  by (auto simp: after_partial_def split: option.split)

lemma step_max_inner_split_partial:
  assumes prog: "in_progress (partial_block (block_cache s))" and wf: "partial_wf (block_cache s)"
  shows "step_max_inner apf (Suc n) s = then_run (step_max_inner apf 1 s) (step_max_inner apf n)"
proof -
  let ?c = "block_cache s" and ?p = "partial_block (block_cache s)"
  define e where "e = entry_at ?c (partial_addr ?p)"
  show ?thesis
  proof (cases "block_instr (cached_block e)")
    case None
    then show ?thesis using prog by (simp add: step_max_inner_partial_None e_def then_run_def)
  next
    case (Some "is")
    note len = block_instr_length [OF Some]
    have lt: "progress ?p < length is" using wf prog len by (simp add: partial_wf_def Let_def e_def)
    obtain i js where d: "drop (progress ?p) is = i # js"
      using lt by (metis Cons_nth_drop_Suc)
    have js: "js = drop (Suc (progress ?p)) is" using d by (metis drop_Suc list.sel(3) tl_drop)
    define L where "L m = run_partial_loop apf m (i # js) (core s) (pc (hart (core s))) 0 (progress ?p)" for m
    have go: "step_max_inner apf m s =
        (case L m of None \<Rightarrow> None
         | Some (r, mc, q) \<Rightarrow>
             if error r \<noteq> None then Some (r, after_partial s e mc q) else step_loop apf m r (after_partial s e mc q))"
      if "0 < m" for m
      using step_max_inner_partial [OF prog that e_def Some, of apf] lt d by (simp add: L_def)
    note split = run_partial_loop_split [of apf n i js "core s" "pc (hart (core s))" "progress ?p"]
    show ?thesis
    proof (cases "L 1")
      case None
      then show ?thesis using split by (simp add: go L_def then_run_def)
    next
      case L1: (Some x)
      obtain r mc q where x: "x = (r, mc, q)" by (cases x) auto
      have r: "steps r \<le> 1" "error r = None \<Longrightarrow> steps r = 1" "error r \<noteq> None \<Longrightarrow> steps r = 0"
        using run_partial_loop_steps [OF L1 [unfolded x L_def]] by auto
      have one: "step_max_inner apf (Suc 0) s = Some (r, after_partial s e mc q)"
        using go [of 1] L1 x r(2) by simp
      show ?thesis
      proof (cases q)
        case None
        have "L (Suc n) = Some (r, mc, None)" using split L1 x None by (simp add: L_def)
        with None r go [of "Suc n"] show ?thesis
          by (auto simp: one then_run_def step_max_inner_idle after_partial_idle step_loop_one)
      next
        case (Some q')
        have rest: "error r = None" "q' = Suc (progress ?p)"
          using L1 x Some by (auto simp: L_def Let_def split: prod.splits outcome.splits pc_update.splits option.splits sum.splits)
        note r2 = r(2) [OF rest(1)]
        show ?thesis
        proof (cases "n = 0")
          case True
          then show ?thesis using one rest r2
            by (simp add: then_run_def step_max_inner_zero add_steps_eq)
        next
          case n: False
          have LS: "L (Suc n) = map_option (apfst (add_steps 1)) (run_partial_loop apf n js mc (pc (hart mc)) 0 q')"
            using split L1 x Some n by (simp add: L_def)
          show ?thesis
          proof (cases js)
            case Nil
            then have "q' = block_num_instr (cached_block e)"
              using js lt rest(2) len by simp
            moreover from Nil LS have "L (Suc n) = Some (\<lparr>steps = 1, error = None\<rparr>, mc, Some q')" by simp
            moreover have "r = \<lparr>steps = 1, error = None\<rparr>" using rest r2 by (cases r) simp
            ultimately show ?thesis using go [of "Suc n"] Some one
              by (simp add: then_run_def step_max_inner_idle after_partial_idle step_loop_one)
          next
            case (Cons j ks)
            then have q': "q' \<noteq> block_num_instr (cached_block e)" "q' \<le> length is"
              using js rest(2) len by (metis drop_all less_irrefl list.distinct(1) nat_le_linear, metis rest(2) Suc_leI lt)
            let ?t = "after_partial s e mc (Some q')"
            have t: "step_max_inner apf n ?t =
                (case run_partial_loop apf n js mc (pc (hart mc)) 0 q' of None \<Rightarrow> None
                 | Some (r, mc', q) \<Rightarrow>
                     if error r \<noteq> None then Some (r, after_partial ?t e mc' q) else step_loop apf n r (after_partial ?t e mc' q))"
              using step_max_inner_partial [of ?t n e "is" apf] n prog q' \<open>block_instr (cached_block e) = Some is\<close>
              by (simp add: after_partial_progress e_def js rest(2))
            show ?thesis
              using go [of "Suc n"] LS one t rest r2 Some q'
              by (auto simp: then_run_def after_partial_twice step_loop_offset [where k = 1, simplified]
                  split: option.split)
          qed
        qed
      qed
    qed
  qed
qed

text \<open>Filling the cache leaves the partial block alone.\<close>

lemma update_entry_partial [simp]: "partial_block (update_entry c a e) = partial_block c"
  by (simp add: update_entry_def)

lemma reset_to_partial [simp]: "partial_block (reset_to c a) = partial_block c"
  by (simp add: reset_to_def)

lemma entry_push_partial: "entry_push c a i = Some c' \<Longrightarrow> partial_block c' = partial_block c"
  by (auto simp: entry_push_def)

lemma merge_blocks_partial: "merge_blocks c a b ks = Some c' \<Longrightarrow> partial_block c' = partial_block c"
  by (induction c a b ks rule: merge_blocks.induct)
     (auto split: option.splits if_splits bind_splits dest: entry_push_partial)

lemma cache_inner_partial: "cache_inner w c a i = Some c' \<Longrightarrow> partial_block c' = partial_block c"
  by (auto simp: cache_inner_def Let_def split: if_splits bind_splits dest!: merge_blocks_partial entry_push_partial)

lemma push_partial:
  "push_instr_compressed c a i = Some c' \<Longrightarrow> partial_block c' = partial_block c"
  "push_instr_uncompressed c a i = Some c' \<Longrightarrow> partial_block c' = partial_block c"
  by (auto simp: push_instr_compressed_def push_instr_uncompressed_def Let_def split: if_splits dest: cache_inner_partial)

lemma fetch_instr_partial:
  "fetch_instr s a = (r, s') \<Longrightarrow> partial_block (block_cache s') = partial_block (block_cache s)"
  by (auto simp: fetch_instr_def Let_def split: outcome.splits if_splits option.splits instr.splits dest: push_partial)

lemma run_instr_partial:
  "run_instr apf s i = (r, s') \<Longrightarrow> partial_block (block_cache s') = partial_block (block_cache s)"
  by (auto simp: run_instr_def run_instr_uncacheable_def run_fencei_def block_cache_invalidate_def Let_def
      split: instr.splits prod.splits instr_uncacheable.splits)

lemma run_instr_at_partial:
  "run_instr_at apf s a = (r, s') \<Longrightarrow> partial_block (block_cache s') = partial_block (block_cache s)"
  by (auto simp: run_instr_at_def split: prod.splits outcome.splits dest!: fetch_instr_partial run_instr_partial)

lemma loop_body_uncached:
  assumes "get_block (block_cache s) (pc (hart (core s))) = None"
  shows "loop_body apf m s = loop_body apf 1 s"
    and "loop_body apf m s = Some (r, s') \<Longrightarrow> steps r = (if error r = None then 1 else 0) \<and>
           partial_block (block_cache s') = partial_block (block_cache s)"
  using assms by (auto simp: loop_body_def Let_def split: prod.splits option.splits sum.splits dest: run_instr_at_partial)

lemma step_max_inner_split:
  assumes wf: "partial_wf (block_cache s)"
  shows "step_max_inner apf (Suc n) s = then_run (step_max_inner apf 1 s) (step_max_inner apf n)"
proof (cases "in_progress (partial_block (block_cache s))")
  case True
  then show ?thesis using wf by (rule step_max_inner_split_partial)
next
  case idle: False
  then have new: "partial_block (block_cache s) = partial_new" using wf by (simp add: partial_wf_def Let_def)
  show ?thesis
  proof (cases "get_block (block_cache s) (pc (hart (core s)))")
    case (Some e)
    then have "entry_at (block_cache s) (cached_address e) = e" "0 < block_num_instr (cached_block e)"
      by (auto simp: get_block_def Let_def split: if_splits)
    then have "partial_wf (block_cache (start_partial s e))"
      by (simp add: partial_wf_def start_partial_def entry_at_def)
    then show ?thesis
      using step_max_inner_split_partial [of "start_partial s e" apf n] step_max_inner_block [OF new _ Some, of _ apf]
      by (simp add: start_partial_def)
  next
    case None
    note body = loop_body_uncached [OF None, of apf]
    show ?thesis
    proof (cases "loop_body apf 1 s")
      case None
      then show ?thesis using body(1) [of "Suc n"] idle
        by (simp add: step_max_inner_idle step_loop_body then_run_def)
    next
      case (Some x)
      obtain r s' where x: "x = (r, s')" by fastforce
      from body(2) [of 1 r s'] Some x new have s': "partial_block (block_cache s') = partial_new"
        and r: "steps r = (if error r = None then 1 else 0)" by simp_all
      have "step_max_inner apf m s = (if error r \<noteq> None then Some (r, s') else step_loop apf m r s')" if "0 < m" for m
        using body(1) [of m] Some x that idle by (simp add: step_max_inner_idle step_loop_body)
      then show ?thesis using r s'
        by (auto simp: then_run_def step_max_inner_idle step_loop_one)
    qed
  qed
qed

lemma partial_wf_step_partial:
  assumes prog: "in_progress (partial_block (block_cache s))" and wf: "partial_wf (block_cache s)"
    and run: "step_max_inner apf 1 s = Some (r, s')"
  shows "partial_wf (block_cache s')"
proof -
  let ?p = "partial_block (block_cache s)"
  define e where "e = entry_at (block_cache s) (partial_addr ?p)"
  obtain "is" where "is": "block_instr (cached_block e) = Some is"
    using run prog step_max_inner_partial_None [OF prog, of 1 apf] by (cases "block_instr (cached_block e)") (auto simp: e_def)
  note len = block_instr_length [OF this]
  have lt: "progress ?p < length is" using wf prog len by (simp add: partial_wf_def Let_def e_def)
  with step_max_inner_partial [OF prog _ e_def "is", of 1 apf] run obtain r1 mc q where
    L: "run_partial_loop apf 1 (drop (progress ?p) is) (core s) (pc (hart (core s))) 0 (progress ?p) = Some (r1, mc, q)"
    and s1: "if error r1 \<noteq> None then s' = after_partial s e mc q \<and> r = r1 else step_loop apf 1 r1 (after_partial s e mc q) = Some (r, s')"
    by (auto split: option.splits if_splits)
  have "error r1 = None \<Longrightarrow> 0 < steps r1"
    using run_partial_loop_steps [OF L] lt by simp
  with s1 have s': "s' = after_partial s e mc q" by (auto split: if_splits)
  show ?thesis
  proof (cases "q = None \<or> q = Some (block_num_instr (cached_block e))")
    case True
    then show ?thesis by (simp add: s' partial_wf_def after_partial_idle)
  next
    case False
    then obtain q' where q: "q = Some q'" "q' \<noteq> block_num_instr (cached_block e)" by auto
    with run_partial_loop_rest [OF L [unfolded q(1)]] len lt have "q' < block_num_instr (cached_block e)" by auto
    with q prog show ?thesis
      by (simp add: s' partial_wf_def after_partial_progress e_def)
  qed
qed

lemma partial_wf_step:
  assumes wf: "partial_wf (block_cache s)" and run: "step_max_inner apf 1 s = Some (r, s')"
  shows "partial_wf (block_cache s')"
proof (cases "in_progress (partial_block (block_cache s))")
  case True
  then show ?thesis using wf run by (rule partial_wf_step_partial)
next
  case idle: False
  then have new: "partial_block (block_cache s) = partial_new" using wf by (simp add: partial_wf_def Let_def)
  show ?thesis
  proof (cases "get_block (block_cache s) (pc (hart (core s)))")
    case (Some e)
    then have "entry_at (block_cache s) (cached_address e) = e" "0 < block_num_instr (cached_block e)"
      by (auto simp: get_block_def Let_def split: if_splits)
    then have "partial_wf (block_cache (start_partial s e))"
      by (simp add: partial_wf_def start_partial_def entry_at_def)
    then show ?thesis
      using partial_wf_step_partial [of "start_partial s e" apf r s'] step_max_inner_block [OF new _ Some, of _ apf] run
      by (simp add: start_partial_def)
  next
    case None
    have loop: "step_loop apf 1 result_zero s = Some (r, s')" using run idle by (simp add: step_max_inner_idle)
    then obtain r1 s1 where b: "loop_body apf 1 s = Some (r1, s1)"
      by (auto simp: step_loop_body [OF result_zero_simps(2)] split: option.splits)
    note keep = loop_body_uncached(2) [OF None b]
    have "s' = s1" using loop b keep
      by (auto simp: step_loop_body [OF result_zero_simps(2)] split: if_splits)
    then show ?thesis using keep new by (simp add: partial_wf_def)
  qed
qed

text \<open>Single steps one after the other, until an environment exception.\<close>

fun single_steps :: "apfloat_ops \<Rightarrow> nat \<Rightarrow> machine_state \<Rightarrow> run_many" where
  "single_steps apf 0 s = Some (result_zero, s)"
| "single_steps apf (Suc n) s = then_run (step_max_inner apf 1 s) (single_steps apf n)"

lemma step_max_inner_single_steps:
  "partial_wf (block_cache s) \<Longrightarrow> step_max_inner apf n s = single_steps apf n s"
proof (induction n arbitrary: s)
  case (Suc n)
  have "then_run (step_max_inner apf 1 s) (step_max_inner apf n) = then_run (step_max_inner apf 1 s) (single_steps apf n)"
  proof (cases "step_max_inner apf 1 s")
    case (Some x)
    then show ?thesis using Suc.IH partial_wf_step [OF Suc.prems] by (cases x) (simp add: then_run_def)
  qed (simp add: then_run_def)
  then show ?case by (simp only: step_max_inner_split [OF Suc.prems, of apf n] single_steps.simps)
qed (simp add: step_max_inner_zero)

end
