(* ===== verification/Block_Cache_Correct.thy ===== *)
theory Block_Cache_Correct
  imports Block_Cache
begin

unbundle bit_operations_syntax

text \<open>
  Correctness of the block cache: it never panics, its blocks stay within a page, a block is made
  of instructions that were pushed at exactly the addresses the block gives them, and invalidation
  empties the cache although it clears a single entry, also across the wrap-around of the fence
  counter. The machine relies on these facts through the interface \<open>code_cache\<close>.
\<close>

section \<open>Instructions at their addresses\<close>

abbreviation iwidth :: "instruction \<Rightarrow> u64" where
  "iwidth i \<equiv> width_bytes (instruction_width i)"

fun placed :: "address \<Rightarrow> instruction list \<Rightarrow> (address \<times> instruction) list" where
  "placed a [] = []"
| "placed a (i # is) = (a, i) # placed (a + iwidth i) is"

fun end_addr :: "address \<Rightarrow> instruction list \<Rightarrow> address" where
  "end_addr a [] = a"
| "end_addr a (i # is) = end_addr (a + iwidth i) is"

definition block_bytes :: "instruction list \<Rightarrow> nat" where
  "block_bytes is = sum_list (map (\<lambda>i. unat (iwidth i)) is)"

lemma placed_append: "placed a (xs @ ys) = placed a xs @ placed (end_addr a xs) ys"
  by (induction a xs rule: placed.induct) auto

lemma end_addr_append: "end_addr a (xs @ ys) = end_addr (end_addr a xs) ys"
  by (induction a xs rule: end_addr.induct) auto

lemma end_addr_eq: "end_addr a is = a + of_nat (block_bytes is)"
  by (induction a "is" rule: end_addr.induct) (auto simp: block_bytes_def)

lemma block_bytes_append [simp]: "block_bytes (xs @ ys) = block_bytes xs + block_bytes ys"
  by (simp add: block_bytes_def)

lemma block_bytes_Nil [simp]: "block_bytes [] = 0"
  by (simp add: block_bytes_def)

lemma iwidth_cases: "iwidth i = 2 \<or> iwidth i = 4"
  by (cases "instruction_width i") auto

lemma unat_iwidth: "unat (iwidth i) = (case instruction_width i of Compressed \<Rightarrow> 2 | Uncompressed \<Rightarrow> 4)"
  by (cases "instruction_width i") auto

lemma block_bytes_Cons [simp]: "block_bytes (i # is) = unat (iwidth i) + block_bytes is"
  by (simp add: block_bytes_def)

lemma block_bytes_bounds: "2 * length is \<le> block_bytes is" "block_bytes is \<le> 4 * length is" "even (block_bytes is)"
proof -
  show "2 * length is \<le> block_bytes is" "block_bytes is \<le> 4 * length is"
    by (induction "is") (auto simp: unat_iwidth split: instr_width.split)
  show "even (block_bytes is)"
    by (induction "is") (auto simp: unat_iwidth split: instr_width.split)
qed

section \<open>Appending to a block\<close>

definition instrs :: "cached \<Rightarrow> instruction list" where
  "instrs e = take (len_instr (cached_block e)) (block_cells (cached_block e))"

definition cells_ok :: "cached \<Rightarrow> bool" where
  "cells_ok e \<longleftrightarrow> length (block_cells (cached_block e)) = CACHE_INSTR \<and> len_instr (cached_block e) \<le> CACHE_INSTR"

definition entry_append :: "cached \<Rightarrow> instruction list \<Rightarrow> cached" where
  "entry_append e is =
     (let b = cached_block e; n = len_instr b in
      e\<lparr>cached_block := b\<lparr>block_cells := take n (block_cells b) @ is @ drop (n + length is) (block_cells b),
                         len_instr := n + length is\<rparr>\<rparr>)"

lemma length_instrs: "cells_ok e \<Longrightarrow> length (instrs e) = len_instr (cached_block e)"
  by (simp add: instrs_def cells_ok_def)

lemma block_instr_instrs: "cells_ok e \<Longrightarrow> block_instr (cached_block e) = Some (instrs e)"
  by (simp add: block_instr_def instrs_def cells_ok_def block_num_instr_def)

lemma entry_append_simps [simp]:
  "cached_address (entry_append e is) = cached_address e" "cached_fence (entry_append e is) = cached_fence e"
  "len_instr (cached_block (entry_append e is)) = len_instr (cached_block e) + length is"
  by (simp_all add: entry_append_def Let_def)

lemma entry_append_ok:
  "cells_ok e \<Longrightarrow> len_instr (cached_block e) + length is \<le> CACHE_INSTR \<Longrightarrow>
     cells_ok (entry_append e is) \<and> instrs (entry_append e is) = instrs e @ is"
  by (simp add: cells_ok_def entry_append_def Let_def instrs_def)

lemma entry_append_append:
  "cells_ok e \<Longrightarrow> len_instr (cached_block e) + length xs + length ys \<le> CACHE_INSTR \<Longrightarrow>
     entry_append (entry_append e xs) ys = entry_append e (xs @ ys)"
  by (simp add: cells_ok_def entry_append_def Let_def ac_simps)

lemma entry_append_Nil: "cells_ok e \<Longrightarrow> entry_append e [] = e"
  by (simp add: cells_ok_def entry_append_def Let_def)

lemma push_cell:
  "cells_ok e \<Longrightarrow> len_instr (cached_block e) < CACHE_INSTR \<Longrightarrow>
     map_option (\<lambda>b. e\<lparr>cached_block := b\<rparr>) (block_push_instr (cached_block e) i) = Some (entry_append e [i])"
  by (simp add: cells_ok_def block_push_instr_def Let_def entry_append_def upd_conv_take_nth_drop)

section \<open>Indexing\<close>

lemma cache_index_eq:
  assumes "k \<le> 31"
  shows "cache_index (2 ^ k) a = (unat a div 2) mod 2 ^ k"
proof -
  have "(of_nat (2 ^ k - 1) :: u64) = mask k"
    by (simp add: mask_eq_exp_minus_1 of_nat_diff)
  then have "rust_shr a 1 AND of_nat (2 ^ k - 1) = take_bit k (drop_bit 1 a)"
    by (simp add: take_bit_eq_mask)
  moreover have "unat (take_bit k (drop_bit 1 a)) = take_bit k (drop_bit 1 (unat a))"
    by (simp only: unsigned_take_bit_eq unat_drop_bit_eq)
  moreover have "drop_bit 1 (unat a) = unat a div 2" by (simp add: drop_bit_eq_div)
  ultimately show ?thesis
    by (simp add: cache_index_def take_bit_eq_mod [of k "_ :: nat"])
qed


section \<open>Invariant\<close>

text \<open>
  Invalidations since the entry at index \<open>i\<close> was last cleared, from the value of the fence
  counter: the entry is cleared when the counter is \<open>2 i\<close> or \<open>2 i + 1\<close> modulo \<open>2 SIZE\<close>.
\<close>

definition since_cleared :: "nat \<Rightarrow> nat \<Rightarrow> u32 \<Rightarrow> nat" where
  "since_cleared SIZE i counter = (unat counter + (2 * SIZE - (2 * i + 2))) mod (2 * SIZE)"

definition within_page :: "address \<Rightarrow> instruction list \<Rightarrow> bool" where
  "within_page a is \<longleftrightarrow> unat a mod PAGE_SIZE + block_bytes is \<le> PAGE_SIZE"

definition entry_ok :: "cached \<Rightarrow> bool" where
  "entry_ok e \<longleftrightarrow> cells_ok e \<and> (0 < len_instr (cached_block e) \<longrightarrow> within_page (cached_address e) (instrs e))"

text \<open>A block that the next instruction may be appended to ends where that instruction is expected.\<close>

definition building :: "block_cache \<Rightarrow> bool" where
  "building c \<longleftrightarrow>
     (next_instr_addr c AND OFFSET_MASK \<noteq> 0 \<and> next_instr_addr c \<noteq> NOT 0 \<longrightarrow>
        (let e = entry_at c (current_block_addr c) in
         get_block c (current_block_addr c) = Some e \<and>
         end_addr (current_block_addr c) (instrs e) = next_instr_addr c))"

definition store_inv :: "block_cache \<Rightarrow> bool" where
  "store_inv c \<longleftrightarrow>
     (\<exists>k \<le> 31. length (entries c) = 2 ^ k) \<and>
     (\<forall>e \<in> set (entries c). entry_ok e) \<and>
     (\<forall>i < length (entries c). 0 < len_instr (cached_block (entries c ! i)) \<longrightarrow>
        unat (fence_counter c - cached_fence (entries c ! i)) \<le> since_cleared (length (entries c)) i (fence_counter c))"

definition cache_inv :: "block_cache \<Rightarrow> bool" where
  "cache_inv c \<longleftrightarrow> store_inv c \<and> building c"

lemma store_inv_index: "store_inv c \<Longrightarrow> cache_index (length (entries c)) a < length (entries c)"
  by (auto simp: store_inv_def cache_index_eq)

lemma store_inv_entry: "store_inv c \<Longrightarrow> entry_ok (entry_at c a)"
  using store_inv_index [of c a] by (auto simp: store_inv_def entry_at_def)

lemma entry_at_update:
  "store_inv c \<Longrightarrow> entries c' = (entries c)[cache_index (length (entries c)) a := e] \<Longrightarrow>
     entry_at c' b = (if cache_index (length (entries c)) a = cache_index (length (entries c)) b then e else entry_at c b)"
  using store_inv_index [of c] by (simp add: entry_at_def)

lemma OFFSET_MASK_mod: "a AND OFFSET_MASK = 0 \<longleftrightarrow> unat a mod PAGE_SIZE = 0"
proof -
  have "OFFSET_MASK = mask 12" by (simp add: OFFSET_MASK_def OFFSET_BITS_def mask_eq_exp_minus_1)
  then have "a AND OFFSET_MASK = take_bit 12 a" by (simp add: take_bit_eq_mask)
  moreover have "unat (take_bit 12 a) = unat a mod PAGE_SIZE"
    by (simp only: unsigned_take_bit_eq) (simp add: take_bit_eq_mod PAGE_SIZE_def OFFSET_BITS_def)
  ultimately show ?thesis by (metis unat_eq_zero)
qed

lemma get_block_iff:
  "cells_ok (entry_at c a) \<Longrightarrow> get_block c a = Some e \<longleftrightarrow>
     e = entry_at c a \<and> cached_address e = a \<and> cached_fence e = fence_counter c \<and> 0 < len_instr (cached_block e)"
  by (auto simp: get_block_def Let_def block_num_instr_def)

section \<open>Pushing an instruction\<close>

lemma entry_push_eq:
  "cells_ok (entry_at c a) \<Longrightarrow> len_instr (cached_block (entry_at c a)) < CACHE_INSTR \<Longrightarrow>
     entry_push c a i = Some (update_entry c a (entry_append (entry_at c a) [i]))"
  using push_cell [of "entry_at c a" i] by (auto simp: entry_push_def map_option_case split: option.splits)

lemma update_entry_update [simp]: "update_entry (update_entry c a e) a e' = update_entry c a e'"
  by (simp add: update_entry_def)

lemma merge_blocks_eq:
  assumes "cache_index (length (entries c)) a < length (entries c)"
    and "cache_index (length (entries c)) a \<noteq> cache_index (length (entries c)) b"
    and "cells_ok e" and "e = entry_at c a" and "cells_ok e'" and "e' = entry_at c b"
    and "len_instr (cached_block e) + length (instrs e') \<le> CACHE_INSTR"
    and "j \<le> length (instrs e')"
  shows "merge_blocks (update_entry c a (entry_append e (take j (instrs e')))) a b [j..<length (instrs e')] =
           Some (update_entry c a (entry_append e (instrs e')))"
  using assms(8)
proof (induction "length (instrs e') - j" arbitrary: j)
  case (Suc n)
  then have j: "j < length (instrs e')" by simp
  let ?c = "update_entry c a (entry_append e (take j (instrs e')))"
  have b: "entry_at ?c b = e'" and a: "entry_at ?c a = entry_append e (take j (instrs e'))"
    using assms(1,2,6) by (simp_all add: entry_at_def update_entry_def)
  have "cells_ok (entry_at ?c a)" "len_instr (cached_block (entry_at ?c a)) < CACHE_INSTR"
    using entry_append_ok [OF assms(3), of "take j (instrs e')"] assms(7) j by (simp_all add: a)
  then have "entry_push ?c a (instrs e' ! j) = Some (update_entry c a (entry_append e (take (Suc j) (instrs e'))))"
    using j assms(3,7) by (simp add: entry_push_eq a entry_append_append take_Suc_conv_app_nth)
  with Suc.hyps(1) [of "Suc j"] Suc.hyps(2) j show ?case
    by (simp add: upt_conv_Cons b block_instr_instrs [OF assms(5)])
qed simp


text \<open>
  What a push does: it appends the instruction, and possibly the block that follows it, to the
  block at \<open>base\<close>, which either starts with the instruction or ends just before it.
\<close>

definition pushed :: "instr_width \<Rightarrow> block_cache \<Rightarrow> address \<Rightarrow> instruction \<Rightarrow> block_cache \<Rightarrow> bool" where
  "pushed w c a i c' \<longleftrightarrow>
     (\<exists>base e0 js.
        entries c' = (entries c)[cache_index (length (entries c)) base := entry_append e0 (i # js)] \<and>
        fence_counter c' = fence_counter c \<and> partial_block c' = partial_block c \<and>
        cells_ok e0 \<and> cached_address e0 = base \<and> cached_fence e0 = fence_counter c \<and>
        (base = a \<and> instrs e0 = [] \<or>
         get_block c base = Some e0 \<and> end_addr base (instrs e0) = a \<and> a AND OFFSET_MASK \<noteq> 0) \<and>
        length (instrs e0) + 1 + length js \<le> CACHE_INSTR \<and>
        (js = [] \<or> (a + width_bytes w) AND OFFSET_MASK \<noteq> 0 \<and>
           (\<exists>e'. get_block c (a + width_bytes w) = Some e' \<and> js = instrs e')) \<and>
        (next_instr_addr c' = NOT 0 \<or> next_instr_addr c' = a + width_bytes w \<and> current_block_addr c' = base \<and> js = []))"

lemma update_entry_simps [simp]:
  "fence_counter (update_entry c a e) = fence_counter c" "partial_block (update_entry c a e) = partial_block c"
  "next_instr_addr (update_entry c a e) = next_instr_addr c" "current_block_addr (update_entry c a e) = current_block_addr c"
  "entries (update_entry c a e) = (entries c)[cache_index (length (entries c)) a := e]"
  by (simp_all add: update_entry_def)

lemma reset_to_simps [simp]:
  "fence_counter (reset_to c a) = fence_counter c" "partial_block (reset_to c a) = partial_block c"
  "next_instr_addr (reset_to c a) = 0" "current_block_addr (reset_to c a) = a" "entries (reset_to c a) = entries c"
  "entry_at (reset_to c a) = entry_at c" "get_block (reset_to c a) = get_block c"
  by (simp_all add: reset_to_def entry_at_def get_block_def fun_eq_iff)

lemma cells_ok_start: "cells_ok e \<Longrightarrow> cells_ok (cached_start_block e a f) \<and> instrs (cached_start_block e a f) = []"
  by (simp add: cells_ok_def cached_start_block_def block_start_def instrs_def)

text \<open>The second half of \<^verbatim>\<open>cache_inner\<close>, once the block to append to is known.\<close>

definition append_and_merge :: "u32 \<Rightarrow> u64 \<Rightarrow> block_cache \<Rightarrow> address \<Rightarrow> nat \<Rightarrow> address \<Rightarrow> instruction \<Rightarrow> block_cache option" where
  "append_and_merge fence WIDTH c block_addr len addr instr =
     Option.bind (entry_push c block_addr instr) (\<lambda>c.
           let new_len = len + 1; next_addr = addr + WIDTH;
               c = c\<lparr>next_instr_addr := next_addr\<rparr>;
               possible_block = entry_at c next_addr;
               adjacent_block_found =
                 (cached_address possible_block = next_addr \<and> cached_fence possible_block = fence \<and>
                  next_addr AND OFFSET_MASK \<noteq> 0 \<and>
                  block_num_instr (cached_block possible_block) + new_len \<le> CACHE_INSTR)
           in if adjacent_block_found
              then map_option (\<lambda>c. c\<lparr>next_instr_addr := NOT 0, current_block_addr := NOT 0\<rparr>)
                     (merge_blocks c block_addr next_addr [0..<block_num_instr (cached_block possible_block)])
              else Some c)"

lemma append_and_merge_spec:
  assumes inv: "store_inv c" and e0: "cells_ok e0" "cached_address e0 = base" "cached_fence e0 = fence_counter c"
    and at: "base = a \<and> instrs e0 = [] \<or>
       get_block c base = Some e0 \<and> end_addr base (instrs e0) = a \<and> a AND OFFSET_MASK \<noteq> 0"
    and len: "len_instr (cached_block e0) < CACHE_INSTR" and ne: "base \<noteq> a + width_bytes w"
    and c1: "c1 = update_entry c base e0" "current_block_addr c1 = base"
  shows "\<exists>c'. append_and_merge (fence_counter c) (width_bytes w) c1 base (len_instr (cached_block e0)) a i = Some c' \<and> pushed w c a i c'"
proof -
  let ?n = "length (entries c)" and ?next = "a + width_bytes w"
  have idx: "cache_index ?n b < ?n" for b using store_inv_index [OF inv] .
  have at1: "entry_at c1 base = e0" using idx by (simp add: c1 entry_at_def)
  let ?c2 = "update_entry c base (entry_append e0 [i])"
  have push: "entry_push c1 base i = Some ?c2"
    using entry_push_eq [of c1 base i] at1 e0 len by (simp add: c1)
  let ?c3 = "?c2\<lparr>next_instr_addr := ?next\<rparr>" and ?e' = "entry_at (?c2\<lparr>next_instr_addr := ?next\<rparr>) ?next"
  have l0: "length (instrs e0) = len_instr (cached_block e0)" using e0(1) by (rule length_instrs)
  show ?thesis
  proof (cases "cached_address ?e' = ?next \<and> cached_fence ?e' = fence_counter ?c3 \<and> ?next AND OFFSET_MASK \<noteq> 0 \<and>
                block_num_instr (cached_block ?e') + (len_instr (cached_block e0) + 1) \<le> CACHE_INSTR")
    case False
    then have "append_and_merge (fence_counter c) (width_bytes w) c1 base (len_instr (cached_block e0)) a i = Some ?c3"
      by (auto simp: append_and_merge_def push Let_def)
    moreover have "pushed w c a i ?c3"
      unfolding pushed_def by (rule exI [of _ base], rule exI [of _ e0], rule exI [of _ "[]"])
        (use assms l0 in simp)
    ultimately show ?thesis by blast
  next
    case True
    have ix: "cache_index ?n base \<noteq> cache_index ?n ?next"
    proof
      assume "cache_index ?n base = cache_index ?n ?next"
      then have "?e' = entry_append e0 [i]" using idx by (simp add: entry_at_def)
      with True e0(2) ne show False by simp
    qed
    then have e': "?e' = entry_at c ?next" "entry_at ?c3 base = entry_append e0 [i]" using idx by (simp_all add: entry_at_def)
    have ok': "cells_ok ?e'" using store_inv_entry [OF inv, of ?next] e' by (simp add: entry_ok_def)
    note l' = length_instrs [OF ok']
    have ok1: "cells_ok (entry_append e0 [i])" using entry_append_ok [OF e0(1), of "[i]"] len by simp
    let ?c4 = "update_entry ?c3 base (entry_append e0 (i # instrs ?e'))"
    have u: "update_entry ?c3 base (entry_append e0 [i]) = ?c3" by (simp add: update_entry_def)
    have "merge_blocks ?c3 base ?next [0..<length (instrs ?e')] = Some (update_entry ?c3 base (entry_append (entry_append e0 [i]) (instrs ?e')))"
      using merge_blocks_eq [of ?c3 base ?next "entry_append e0 [i]" ?e' 0] idx ix ok1 ok' e' l' True u
      by (simp add: block_num_instr_def entry_append_Nil)
    then have "merge_blocks ?c3 base ?next [0..<block_num_instr (cached_block ?e')] = Some ?c4"
      using entry_append_append [OF e0(1), of "[i]" "instrs ?e'"] True l' by (simp add: block_num_instr_def)
    then have "append_and_merge (fence_counter c) (width_bytes w) c1 base (len_instr (cached_block e0)) a i =
        Some (?c4\<lparr>next_instr_addr := NOT 0, current_block_addr := NOT 0\<rparr>)"
      using True by (simp add: append_and_merge_def push Let_def)
    moreover have "pushed w c a i (?c4\<lparr>next_instr_addr := NOT 0, current_block_addr := NOT 0\<rparr>)"
      unfolding pushed_def
    proof (rule exI [of _ base], rule exI [of _ e0], rule exI [of _ "instrs ?e'"], intro conjI)
      show "instrs ?e' = [] \<or> (?next AND OFFSET_MASK \<noteq> 0 \<and> (\<exists>e'. get_block c ?next = Some e' \<and> instrs ?e' = instrs e'))"
        using True l' ok' e'(1) by (auto simp: get_block_iff)
      show "length (instrs e0) + 1 + length (instrs ?e') \<le> CACHE_INSTR"
        using True l0 l' by (simp add: block_num_instr_def)
    qed (use assms in simp_all)
    ultimately show ?thesis by blast
  qed
qed


text \<open>The invariant lets a push start a block at the instruction or continue the current one.\<close>

lemma width_bytes_neq_0: "width_bytes w \<noteq> 0"
  by (cases w) auto

lemma end_addr_neq:
  assumes "instrs e \<noteq> []" and "cells_ok e"
  shows "end_addr b (instrs e) + width_bytes w \<noteq> b" and "end_addr b (instrs e) \<noteq> b"
proof -
  have l: "block_bytes (instrs e) \<le> 80" "0 < block_bytes (instrs e)"
    using block_bytes_bounds(1,2) [of "instrs e"] assms by (auto simp: cells_ok_def instrs_def CACHE_INSTR_def Suc_le_eq)
  have nz: "of_nat n \<noteq> (0 :: u64)" if "0 < n" "n < 100" for n
  proof
    assume "of_nat n = (0 :: u64)"
    then have "unat (of_nat n :: u64) = 0" by simp
    with that show False by (simp add: unsigned_of_nat take_bit_nat_eq_self)
  qed
  show "end_addr b (instrs e) \<noteq> b"
    using nz [of "block_bytes (instrs e)"] l by (simp add: end_addr_eq)
  have "unat (width_bytes w) \<le> 4" by (cases w) auto
  with nz [of "block_bytes (instrs e) + unat (width_bytes w)"] l
  have "of_nat (block_bytes (instrs e)) + width_bytes w \<noteq> 0" by simp
  moreover have "end_addr b (instrs e) + width_bytes w = b + (of_nat (block_bytes (instrs e)) + width_bytes w)"
    by (simp add: end_addr_eq)
  ultimately show "end_addr b (instrs e) + width_bytes w \<noteq> b"
    by (metis add_cancel_left_right)
qed

lemma cache_inner_spec:
  assumes inv: "store_inv c"
    and base: "current_block_addr c = a \<or>
       (\<exists>e. get_block c (current_block_addr c) = Some e \<and> end_addr (current_block_addr c) (instrs e) = a \<and>
            a AND OFFSET_MASK \<noteq> 0)"
  shows "\<exists>c'. cache_inner (width_bytes w) c a i = Some c' \<and> pushed w c a i c'"
proof -
  let ?cur = "current_block_addr c"
  let ?e = "entry_at c ?cur"
  have ok: "cells_ok (entry_at c b)" for b using store_inv_entry [OF inv, of b] by (simp add: entry_ok_def)
  consider (start) "?cur = a" "cached_address ?e \<noteq> ?cur \<or> cached_address ?e = a"
    | (full) "cached_address ?e = ?cur" "cached_address ?e \<noteq> a" "block_num_instr (cached_block ?e) = CACHE_INSTR"
    | (continue) "cached_address ?e = ?cur" "cached_address ?e \<noteq> a" "block_num_instr (cached_block ?e) \<noteq> CACHE_INSTR"
        "get_block c ?cur = Some ?e" "end_addr ?cur (instrs ?e) = a" "a AND OFFSET_MASK \<noteq> 0"
    using base ok by (auto simp: get_block_iff)
  then show ?thesis
  proof cases
    case start
    let ?e0 = "cached_start_block ?e a (fence_counter c)"
    have e0: "cells_ok ?e0" "instrs ?e0 = []" using cells_ok_start [OF ok] by auto
    have "cache_inner (width_bytes w) c a i = append_and_merge (fence_counter c) (width_bytes w) (update_entry c a ?e0) a 0 a i"
      using start by (simp add: cache_inner_def append_and_merge_def Let_def)
    with append_and_merge_spec [OF inv, of ?e0 a a w "update_entry c a ?e0" i] e0 start show ?thesis
      by (simp add: cached_start_block_def block_start_def CACHE_INSTR_def width_bytes_neq_0)
  next
    case full
    let ?c = "reset_to c a" and ?e0 = "cached_start_block (entry_at c a) a (fence_counter c)"
    have e0: "cells_ok ?e0" "instrs ?e0 = []" using cells_ok_start [OF ok] by auto
    have inv': "store_inv ?c" using inv by (simp add: store_inv_def)
    have "cache_inner (width_bytes w) c a i = append_and_merge (fence_counter c) (width_bytes w) (update_entry ?c a ?e0) a 0 a i"
      using full by (simp add: cache_inner_def append_and_merge_def Let_def)
    moreover have "pushed w ?c a i c' \<longleftrightarrow> pushed w c a i c'" for c' by (simp add: pushed_def)
    ultimately show ?thesis
      using append_and_merge_spec [OF inv', of ?e0 a a w "update_entry ?c a ?e0" i] e0
      by (simp add: cached_start_block_def block_start_def CACHE_INSTR_def width_bytes_neq_0)
  next
    case continue
    have u: "update_entry c ?cur ?e = c" by (simp add: update_entry_def entry_at_def)
    have ne: "instrs ?e \<noteq> []" and g: "cached_fence ?e = fence_counter c"
      using continue(4) ok length_instrs [OF ok, of ?cur] by (auto simp: get_block_iff)
    have "cache_inner (width_bytes w) c a i = append_and_merge (fence_counter c) (width_bytes w) c ?cur (len_instr (cached_block ?e)) a i"
      using continue(1-3) by (simp add: cache_inner_def append_and_merge_def Let_def block_num_instr_def)
    moreover have "len_instr (cached_block ?e) < CACHE_INSTR"
      using continue(3) ok [of ?cur] by (simp add: cells_ok_def block_num_instr_def)
    moreover have "?cur \<noteq> a + width_bytes w"
      using end_addr_neq(1) [OF ne ok, of ?cur w] continue(5) by auto
    ultimately show ?thesis
      using append_and_merge_spec [OF inv ok, of ?cur ?cur a w c i] continue g u by simp
  qed
qed

text \<open>The two entry points. At the end of a page a 32-bit instruction is not cached.\<close>

definition push_instr :: "instr_width \<Rightarrow> block_cache \<Rightarrow> address \<Rightarrow> instruction \<Rightarrow> block_cache option" where
  "push_instr w = (case w of Compressed \<Rightarrow> push_instr_compressed | Uncompressed \<Rightarrow> push_instr_uncompressed)"

lemma push_instr_spec:
  assumes inv: "cache_inv c" and a: "a \<noteq> NOT 0"
  shows "\<exists>c'. push_instr w c a i = Some c' \<and>
           (w = Uncompressed \<and> a mod of_nat PAGE_SIZE = END_OF_PAGE \<and> c' = c \<or>
            \<not> (w = Uncompressed \<and> a mod of_nat PAGE_SIZE = END_OF_PAGE) \<and> pushed w c a i c')"
proof (cases "w = Uncompressed \<and> a mod of_nat PAGE_SIZE = END_OF_PAGE")
  case True
  then show ?thesis by (simp add: push_instr_def push_instr_uncompressed_def)
next
  case False
  let ?c = "if a AND OFFSET_MASK = 0 \<or> a \<noteq> next_instr_addr c then reset_to c a else c"
  have "push_instr w c a i = cache_inner (width_bytes w) ?c a i"
    using False by (cases w) (simp_all add: push_instr_def push_instr_compressed_def push_instr_uncompressed_def Let_def)
  moreover have "store_inv ?c" using inv by (simp add: cache_inv_def store_inv_def)
  moreover have "current_block_addr ?c = a \<or>
       (\<exists>e. get_block ?c (current_block_addr ?c) = Some e \<and> end_addr (current_block_addr ?c) (instrs e) = a \<and>
            a AND OFFSET_MASK \<noteq> 0)"
    using inv a by (auto simp: cache_inv_def building_def Let_def)
  moreover have "pushed w ?c a i c' \<longleftrightarrow> pushed w c a i c'" for c' by (simp add: pushed_def)
  ultimately show ?thesis using cache_inner_spec [of ?c a w i] False by auto
qed


section \<open>Preservation\<close>

lemma unat_add_mod_page: "unat (a + of_nat n :: u64) mod PAGE_SIZE = (unat a + n) mod PAGE_SIZE"
proof -
  have "unat (a + of_nat n :: u64) = (unat a + n) mod 2 ^ 64"
    by (simp add: unat_word_ariths unsigned_of_nat take_bit_eq_mod mod_add_right_eq)
  moreover have "PAGE_SIZE dvd 2 ^ 64" by (simp add: PAGE_SIZE_def OFFSET_BITS_def)
  ultimately show ?thesis by (simp add: mod_mod_cancel)
qed

lemma page_step:
  assumes "unat a mod PAGE_SIZE + n \<le> PAGE_SIZE" and "unat (a + of_nat n :: u64) mod PAGE_SIZE \<noteq> 0"
  shows "unat (a + of_nat n :: u64) mod PAGE_SIZE = unat a mod PAGE_SIZE + n"
proof -
  have "(unat a + n) mod PAGE_SIZE = (unat a mod PAGE_SIZE + n) mod PAGE_SIZE" by (simp add: mod_add_left_eq)
  moreover have "unat a mod PAGE_SIZE + n \<noteq> PAGE_SIZE" using assms(2) calculation by (auto simp: unat_add_mod_page)
  ultimately show ?thesis using assms(1) by (simp add: unat_add_mod_page)
qed

lemma page_fits:
  assumes "even (unat a)" and "\<not> (w = Uncompressed \<and> a mod of_nat PAGE_SIZE = END_OF_PAGE)"
  shows "unat a mod PAGE_SIZE + unat (width_bytes w) \<le> PAGE_SIZE"
proof -
  have P: "PAGE_SIZE = 4096" by (simp add: PAGE_SIZE_def OFFSET_BITS_def)
  have e: "even (unat a mod PAGE_SIZE)" using assms(1) by (simp add: P dvd_mod_iff)
  have "unat (a mod of_nat PAGE_SIZE) = unat a mod PAGE_SIZE" by (simp add: P unat_mod)
  moreover have "unat END_OF_PAGE = 4094" by (simp add: END_OF_PAGE_def P)
  ultimately have "w = Uncompressed \<Longrightarrow> unat a mod PAGE_SIZE \<noteq> 4094" using assms(2) by (metis word_unat_eq_iff)
  moreover have "unat a mod PAGE_SIZE < 4096" by (simp add: P)
  ultimately show ?thesis using e by (cases w) (auto simp: P elim!: evenE)
qed

lemma get_block_entry_ok: "store_inv c \<Longrightarrow> get_block c b = Some e \<Longrightarrow> entry_ok e \<and> cached_address e = b \<and> instrs e \<noteq> [] \<and> within_page b (instrs e)"
  using store_inv_entry [of c b] length_instrs [of e]
  by (auto simp: get_block_def Let_def block_num_instr_def entry_ok_def split: if_splits)

lemma pushed_within_page:
  assumes inv: "store_inv c" and i: "instruction_width i = w" and fits: "unat a mod PAGE_SIZE + unat (width_bytes w) \<le> PAGE_SIZE"
    and base: "base = a \<and> is = [] \<or> get_block c base = Some e0 \<and> is = instrs e0 \<and> end_addr base is = a \<and> a AND OFFSET_MASK \<noteq> 0"
    and js: "js = [] \<or> (a + width_bytes w) AND OFFSET_MASK \<noteq> 0 \<and> (\<exists>e'. get_block c (a + width_bytes w) = Some e' \<and> js = instrs e')"
  shows "within_page base (is @ i # js)"
proof -
  have a: "unat a mod PAGE_SIZE = unat base mod PAGE_SIZE + block_bytes is"
    using base get_block_entry_ok [OF inv, of base e0] page_step [of base "block_bytes is"]
    by (auto simp: OFFSET_MASK_mod within_page_def end_addr_eq)
  show ?thesis
  proof (cases "js = []")
    case True
    then show ?thesis using a fits i by (simp add: within_page_def)
  next
    case False
    then have "unat (a + width_bytes w) mod PAGE_SIZE = unat a mod PAGE_SIZE + unat (width_bytes w)"
      using js fits page_step [of a "unat (width_bytes w)"] by (simp add: OFFSET_MASK_mod)
    with False js get_block_entry_ok [OF inv, of "a + width_bytes w"] a i show ?thesis
      by (auto simp: within_page_def)
  qed
qed

lemma pushed_inv:
  assumes inv: "cache_inv c" and p: "pushed w c a i c'" and i: "instruction_width i = w"
    and fits: "unat a mod PAGE_SIZE + unat (width_bytes w) \<le> PAGE_SIZE"
  shows "cache_inv c'"
proof -
  let ?n = "length (entries c)"
  have st: "store_inv c" using inv by (simp add: cache_inv_def)
  from p obtain base e0 js where ent: "entries c' = (entries c)[cache_index ?n base := entry_append e0 (i # js)]"
    and keep: "fence_counter c' = fence_counter c"
    and e0: "cells_ok e0" "cached_address e0 = base" "cached_fence e0 = fence_counter c"
    and base: "base = a \<and> instrs e0 = [] \<or> get_block c base = Some e0 \<and> end_addr base (instrs e0) = a \<and> a AND OFFSET_MASK \<noteq> 0"
    and len: "length (instrs e0) + 1 + length js \<le> CACHE_INSTR"
    and js: "js = [] \<or> (a + width_bytes w) AND OFFSET_MASK \<noteq> 0 \<and> (\<exists>e'. get_block c (a + width_bytes w) = Some e' \<and> js = instrs e')"
    and nxt: "next_instr_addr c' = NOT 0 \<or> next_instr_addr c' = a + width_bytes w \<and> current_block_addr c' = base \<and> js = []"
    unfolding pushed_def by blast
  let ?e = "entry_append e0 (i # js)"
  have e: "cells_ok ?e" "instrs ?e = instrs e0 @ i # js"
    using entry_append_ok [OF e0(1), of "i # js"] len length_instrs [OF e0(1)] by simp_all
  have "within_page base (instrs ?e)"
    using pushed_within_page [OF st i fits _ js, of base "instrs e0" e0] base e(2) by auto
  then have ok: "entry_ok ?e" using e e0(2) by (simp add: entry_ok_def)
  have new: "store_inv c'"
    using st ok e0(3) store_inv_index [OF st]
    by (auto simp: store_inv_def ent keep nth_list_update dest!: set_update_subset_insert [THEN subsetD])
  moreover have "building c'"
  proof -
    have "entry_at c' base = ?e" using entry_at_update [OF st ent, of base] by simp
    then have "get_block c' base = Some ?e \<and> end_addr base (instrs ?e) = a + width_bytes w" if "js = []"
      using that e e0 base i by (auto simp: get_block_iff keep end_addr_append)
    with nxt \<open>entry_at c' base = ?e\<close> show ?thesis by (auto simp: building_def Let_def)
  qed
  ultimately show ?thesis by (simp add: cache_inv_def)
qed

text \<open>Every block after a push is made of old blocks and the new instruction.\<close>

lemma pushed_lookup:
  assumes inv: "cache_inv c" and p: "pushed w c a i c'" and i: "instruction_width i = w"
  shows "get_block c' b = Some e \<Longrightarrow> (x, j) \<in> set (placed b (instrs e)) \<Longrightarrow>
           (x, j) = (a, i) \<or> (\<exists>b' e'. get_block c b' = Some e' \<and> (x, j) \<in> set (placed b' (instrs e')))"
    and "\<exists>b e. get_block c' b = Some e \<and> (a, i) \<in> set (placed b (instrs e))"
proof -
  let ?n = "length (entries c)"
  have st: "store_inv c" using inv by (simp add: cache_inv_def)
  from p obtain base e0 js where ent: "entries c' = (entries c)[cache_index ?n base := entry_append e0 (i # js)]"
    and keep: "fence_counter c' = fence_counter c"
    and e0: "cells_ok e0" "cached_address e0 = base" "cached_fence e0 = fence_counter c"
    and base: "base = a \<and> instrs e0 = [] \<or> get_block c base = Some e0 \<and> end_addr base (instrs e0) = a"
    and len: "length (instrs e0) + 1 + length js \<le> CACHE_INSTR"
    and js: "js = [] \<or> (\<exists>e'. get_block c (a + width_bytes w) = Some e' \<and> js = instrs e')"
    unfolding pushed_def by blast
  let ?e = "entry_append e0 (i # js)"
  have e: "cells_ok ?e" "instrs ?e = instrs e0 @ i # js"
    using entry_append_ok [OF e0(1), of "i # js"] len length_instrs [OF e0(1)] by simp_all
  have a: "end_addr base (instrs e0) = a" using base by auto
  have pl: "placed base (instrs ?e) = placed base (instrs e0) @ (a, i) # placed (a + width_bytes w) js"
    using i by (simp add: e(2) placed_append a)
  have at: "entry_at c' b = (if cache_index ?n base = cache_index ?n b then ?e else entry_at c b)" for b
    by (rule entry_at_update [OF st ent])
  have "get_block c' base = Some ?e" using at [of base] e e0 keep by (simp add: get_block_iff)
  with pl show "\<exists>b e. get_block c' b = Some e \<and> (a, i) \<in> set (placed b (instrs e))" by force
  assume g: "get_block c' b = Some e" and x: "(x, j) \<in> set (placed b (instrs e))"
  show "(x, j) = (a, i) \<or> (\<exists>b' e'. get_block c b' = Some e' \<and> (x, j) \<in> set (placed b' (instrs e')))"
  proof (cases "cache_index ?n base = cache_index ?n b")
    case True
    then have "e = ?e" "b = base" using g at [of b] e0(2) by (auto simp: get_block_def Let_def split: if_splits)
    with x pl base js show ?thesis by (auto simp del: placed.simps) (auto)
  next
    case False
    then have "get_block c b = Some e" using g at [of b] keep by (simp add: get_block_def)
    with x show ?thesis by blast
  qed
qed


section \<open>Invalidation\<close>

lemma since_cleared_less: "0 < SIZE \<Longrightarrow> since_cleared SIZE i C < 2 * SIZE"
  by (simp add: since_cleared_def)

lemma since_cleared_next:
  assumes "k \<le> 31" and "i < 2 ^ k"
  shows "since_cleared (2 ^ k) i (C + 1) =
           (if since_cleared (2 ^ k) i C + 1 = 2 * 2 ^ k then 0 else since_cleared (2 ^ k) i C + 1)"
    and "since_cleared (2 ^ k) i C + 1 = 2 * 2 ^ k \<Longrightarrow> (unat C div 2) mod 2 ^ k = i"
proof -
  let ?M = "2 * 2 ^ k :: nat" and ?d = "2 * 2 ^ k - (2 * i + 2) :: nat"
  have "(2 :: nat) ^ Suc k dvd 2 ^ 32" using assms(1) by (intro le_imp_power_dvd) simp
  then have M: "?M dvd 2 ^ 32" by (simp only: power_Suc)
  have "unat (C + 1) = (unat C + 1) mod 2 ^ 32" by (simp add: unat_word_ariths)
  then have c: "unat (C + 1) mod ?M = (unat C + 1) mod ?M" using M by (simp add: mod_mod_cancel)
  have "since_cleared (2 ^ k) i (C + 1) = (unat (C + 1) mod ?M + ?d) mod ?M"
    by (simp add: since_cleared_def mod_add_left_eq)
  also have "\<dots> = (since_cleared (2 ^ k) i C + 1) mod ?M"
    unfolding c since_cleared_def by (simp add: mod_add_left_eq mod_Suc_eq ac_simps)
  finally have n: "since_cleared (2 ^ k) i (C + 1) = (since_cleared (2 ^ k) i C + 1) mod ?M" .
  have lt: "since_cleared (2 ^ k) i C < ?M" by (simp add: since_cleared_def)
  with n show "since_cleared (2 ^ k) i (C + 1) =
      (if since_cleared (2 ^ k) i C + 1 = 2 * 2 ^ k then 0 else since_cleared (2 ^ k) i C + 1)"
    by (auto simp: mod_Suc)
  assume "since_cleared (2 ^ k) i C + 1 = 2 * 2 ^ k"
  then have z: "(unat C + ?d + 1) mod ?M = 0"
    using mod_Suc_eq [of "unat C + ?d" ?M] by (simp add: since_cleared_def)
  have "unat C mod ?M = (unat C + ?M) mod ?M" by simp
  also have "unat C + ?M = (unat C + ?d + 1) + (2 * i + 1)" using assms(2) by simp
  also have "\<dots> mod ?M = ((unat C + ?d + 1) mod ?M + (2 * i + 1)) mod ?M"
    by (rule mod_add_left_eq [symmetric])
  finally have "unat C mod ?M = (2 * i + 1) mod ?M" by (simp only: z add_0)
  then have "unat C mod ?M = 2 * i + 1" using assms(2) by simp
  moreover have "unat C mod ?M div 2 = unat C div 2 mod 2 ^ k"
    by (simp add: mod_mult2_eq)
  ultimately show "(unat C div 2) mod 2 ^ k = i" by simp
qed

lemma cached_invalidate_simps [simp]:
  "cells_ok (cached_invalidate e) = (length (block_cells (cached_block e)) = CACHE_INSTR)"
  "len_instr (cached_block (cached_invalidate e)) = 0"
  by (auto simp: cached_invalidate_def block_invalidate_def cells_ok_def)

lemma ucast_index:
  assumes "k \<le> 31"
  shows "cache_index (2 ^ k) (ucast (C :: u32)) = (unat C div 2) mod 2 ^ k"
proof -
  have "unat (ucast C :: u64) = unat C"
    using unsigned_less [of C, where 'a = nat] by (simp add: unsigned_ucast_eq take_bit_nat_eq_self)
  with assms show ?thesis by (simp add: cache_index_eq)
qed

lemma block_cache_invalidate_inv:
  assumes inv: "cache_inv c"
  shows "cache_inv (block_cache_invalidate c)" and "get_block (block_cache_invalidate c) a = None"
proof -
  let ?c' = "block_cache_invalidate c" and ?C = "fence_counter c"
  have st: "store_inv c" using inv by (simp add: cache_inv_def)
  then obtain k where k: "k \<le> 31" and n: "length (entries c) = 2 ^ k" by (auto simp: store_inv_def)
  define h where "h = (unat ?C div 2) mod 2 ^ k"
  have h: "h < 2 ^ k" by (simp add: h_def)
  have ent: "entries ?c' = (entries c)[h := cached_invalidate (entries c ! h)]" "fence_counter ?c' = ?C + 1"
    "next_instr_addr ?c' = 0"
    using ucast_index [OF k, of ?C]
    by (simp_all add: block_cache_invalidate_def Let_def fence_next_def h_def n update_entry_def reset_to_def entry_at_def)
  have age: "unat (?C + 1 - cached_fence (entries c ! i)) \<le> since_cleared (2 ^ k) i (?C + 1) \<and>
             ?C + 1 \<noteq> cached_fence (entries c ! i)"
    if "i < 2 ^ k" "i \<noteq> h" "0 < len_instr (cached_block (entries c ! i))" for i
  proof -
    let ?f = "cached_fence (entries c ! i)"
    have old: "unat (?C - ?f) \<le> since_cleared (2 ^ k) i ?C" using st that n by (simp add: store_inv_def)
    have "since_cleared (2 ^ k) i ?C + 1 \<noteq> 2 * 2 ^ k"
      using since_cleared_next(2) [OF k that(1)] that(2) by (auto simp: h_def)
    with since_cleared_next(1) [OF k that(1)] have next': "since_cleared (2 ^ k) i (?C + 1) = since_cleared (2 ^ k) i ?C + 1"
      and "since_cleared (2 ^ k) i ?C + 1 < 2 * 2 ^ k"
      using since_cleared_less [of "2 ^ k" i ?C] by auto
    moreover have "(2 :: nat) * 2 ^ k \<le> 2 ^ 32" using power_increasing [of "Suc k" 32 "2 :: nat"] k by simp
    ultimately have lt: "unat (?C - ?f) + 1 < 2 ^ 32" using old by linarith
    have "unat (?C - ?f + 1) = unat (?C - ?f) + 1"
      using lt by (simp add: unat_word_ariths)
    then have u: "unat (?C + 1 - ?f) = unat (?C - ?f) + 1" by (simp add: algebra_simps)
    then have "?C + 1 - ?f \<noteq> 0" by (metis Suc_eq_plus1 nat.distinct(1) unat_0)
    with u old next' show ?thesis by auto
  qed
  have nth: "entries ?c' ! i = (if i = h then cached_invalidate (entries c ! h) else entries c ! i)" if "i < 2 ^ k" for i
    using that n by (simp add: ent nth_list_update)
  have "\<forall>e \<in> set (entries ?c'). entry_ok e"
  proof
    fix e assume "e \<in> set (entries ?c')"
    then consider "e = cached_invalidate (entries c ! h)" | "e \<in> set (entries c)"
      by (auto simp: ent dest!: set_update_subset_insert [THEN subsetD])
    then show "entry_ok e"
      using st h n by cases (auto simp: entry_ok_def store_inv_def, auto simp: cells_ok_def)
  qed
  moreover have n': "length (entries ?c') = 2 ^ k" by (simp add: ent n)
  moreover have "\<forall>i < 2 ^ k. 0 < len_instr (cached_block (entries ?c' ! i)) \<longrightarrow>
      unat (?C + 1 - cached_fence (entries ?c' ! i)) \<le> since_cleared (2 ^ k) i (?C + 1)"
    using age nth by auto
  ultimately have "store_inv ?c'" using k by (auto simp: store_inv_def ent(2))
  then show "cache_inv ?c'" by (simp add: cache_inv_def building_def ent)
  show "get_block ?c' a = None"
  proof -
    let ?i = "cache_index (2 ^ k) a"
    have "?i < 2 ^ k" using store_inv_index [OF st, of a] n by simp
    then show ?thesis
      using age [of ?i] nth [of ?i] n'
      by (auto simp: get_block_def Let_def entry_at_def ent(2) block_num_instr_def)
  qed
qed


lemma cells_ok_empty: "length (block_cells (cached_block e)) = CACHE_INSTR \<Longrightarrow> len_instr (cached_block e) = 0 \<Longrightarrow> entry_ok e"
  by (simp add: entry_ok_def cells_ok_def)

lemma empty_cache:
  assumes "k \<le> 31" and "length (entries c) = 2 ^ k" and "next_instr_addr c = 0 \<or> next_instr_addr c = NOT 0"
    and "\<forall>e \<in> set (entries c). length (block_cells (cached_block e)) = CACHE_INSTR \<and> len_instr (cached_block e) = 0"
  shows "cache_inv c" and "get_block c a = None"
proof -
  have "\<forall>e \<in> set (entries c). entry_ok e" using assms(4) cells_ok_empty by blast
  moreover have "\<forall>i < length (entries c). len_instr (cached_block (entries c ! i)) = 0" using assms(4) by simp
  ultimately have st: "store_inv c" using assms(1,2) by (auto simp: store_inv_def)
  then show "cache_inv c" using assms(3) by (auto simp: cache_inv_def building_def)
  have "len_instr (cached_block (entry_at c a)) = 0" using assms(4) store_inv_index [OF st, of a] by (simp add: entry_at_def)
  then show "get_block c a = None" by (simp add: get_block_def Let_def block_num_instr_def)
qed

lemma block_cache_new_inv: "k \<le> 31 \<Longrightarrow> cache_inv (block_cache_new (2 ^ k))" "k \<le> 31 \<Longrightarrow> get_block (block_cache_new (2 ^ k)) a = None"
  by (auto intro!: empty_cache simp: block_cache_new_def cached_new_def block_new_def)

lemma block_cache_reset_inv:
  assumes "cache_inv c"
  shows "cache_inv (block_cache_reset c)" and "get_block (block_cache_reset c) a = None"
proof -
  from assms obtain k where k: "k \<le> 31" "length (entries c) = 2 ^ k"
    and ok: "\<forall>e \<in> set (entries c). length (block_cells (cached_block e)) = CACHE_INSTR"
    by (auto simp: cache_inv_def store_inv_def entry_ok_def cells_ok_def)
  have "length (entries (block_cache_reset c)) = 2 ^ k" "next_instr_addr (block_cache_reset c) = 0"
    "\<forall>e \<in> set (entries (block_cache_reset c)). length (block_cells (cached_block e)) = CACHE_INSTR \<and> len_instr (cached_block e) = 0"
    using k ok by (auto simp: block_cache_reset_def Let_def cached_reset_def block_reset_def)
  with empty_cache [OF k(1), of "block_cache_reset c"]
  show "cache_inv (block_cache_reset c)" "get_block (block_cache_reset c) a = None" by auto
qed

section \<open>The interface of a code cache\<close>

text \<open>A cache is coherent with a predicate on code when all it would run satisfies it.\<close>

definition coherent ::
    "('c \<Rightarrow> address \<Rightarrow> instruction list option) \<Rightarrow> (address \<Rightarrow> instruction \<Rightarrow> bool) \<Rightarrow> 'c \<Rightarrow> bool" where
  "coherent lookup P c \<longleftrightarrow> (\<forall>b is. lookup c b = Some is \<longrightarrow> (\<forall>(x, j) \<in> set (placed b is). P x j))"

lemma coherent_mono: "coherent lookup P c \<Longrightarrow> (\<And>x j. P x j \<Longrightarrow> Q x j) \<Longrightarrow> coherent lookup Q c"
  unfolding coherent_def by fast

text \<open>
  What the machine relies on. \<open>lookup\<close> gives the instructions of the block at an address.
\<close>

locale code_cache =
  fixes inv :: "'c \<Rightarrow> bool"
    and lookup :: "'c \<Rightarrow> address \<Rightarrow> instruction list option"
    and push :: "instr_width \<Rightarrow> 'c \<Rightarrow> address \<Rightarrow> instruction \<Rightarrow> 'c option"
    and clear :: "'c \<Rightarrow> 'c"
    and pushable :: "address \<Rightarrow> bool"
  assumes push_total: "inv c \<Longrightarrow> pushable a \<Longrightarrow> instruction_width i = w \<Longrightarrow> \<exists>c'. push w c a i = Some c' \<and> inv c'"
    and push_lookup: "inv c \<Longrightarrow> pushable a \<Longrightarrow> instruction_width i = w \<Longrightarrow> push w c a i = Some c' \<Longrightarrow>
          lookup c' b = Some is \<Longrightarrow> (x, j) \<in> set (placed b is) \<Longrightarrow>
          (x, j) = (a, i) \<or> (\<exists>b' is'. lookup c b' = Some is' \<and> (x, j) \<in> set (placed b' is'))"
    and clear_inv: "inv c \<Longrightarrow> inv (clear c)"
    and clear_lookup: "inv c \<Longrightarrow> lookup (clear c) a = None"
    and lookup_nonempty: "inv c \<Longrightarrow> lookup c a \<noteq> Some []"
begin

lemma coherent_push:
  assumes "inv c" "pushable a" "instruction_width i = w" "push w c a i = Some c'" and "coherent lookup P c" and "P a i"
  shows "coherent lookup P c'"
  using push_lookup [OF assms(1-4)] assms(5,6) unfolding coherent_def by fast

lemma coherent_clear: "inv c \<Longrightarrow> coherent lookup P (clear c)"
  by (simp add: coherent_def clear_lookup)

text \<open>The first instruction of a block is the one at the block's address.\<close>

lemma coherent_head: "inv c \<Longrightarrow> coherent lookup P c \<Longrightarrow> lookup c a = Some is \<Longrightarrow> is \<noteq> [] \<and> P a (hd is)"
  using lookup_nonempty [of c a] by (cases "is") (force simp: coherent_def)+

end

definition lookup_block :: "block_cache \<Rightarrow> address \<Rightarrow> instruction list option" where
  "lookup_block c a = map_option instrs (get_block c a)"

definition pushable :: "address \<Rightarrow> bool" where
  "pushable a \<longleftrightarrow> even (unat a)"

lemma even_neq_max: "even (unat a) \<Longrightarrow> a \<noteq> (NOT 0 :: u64)"
proof
  assume "even (unat a)" and "a = NOT 0"
  moreover have "unat (NOT 0 :: u64) = 2 ^ 64 - 1" by (simp add: unsigned_minus_1_eq_mask mask_eq_exp_minus_1)
  ultimately show False by simp
qed

lemma push_instr_inv:
  assumes "cache_inv c" and "pushable a" and "instruction_width i = w"
  shows "\<exists>c'. push_instr w c a i = Some c' \<and> cache_inv c'"
  using push_instr_spec [OF assms(1), of a w i] assms even_neq_max [of a] pushed_inv [OF assms(1) _ assms(3)] page_fits [of a w]
  by (auto simp: pushable_def)

interpretation bc: code_cache cache_inv lookup_block push_instr block_cache_invalidate pushable
proof
  fix c a i w
  assume "cache_inv c" "pushable a" "instruction_width i = w"
  then show "\<exists>c'. push_instr w c a i = Some c' \<and> cache_inv c'" by (rule push_instr_inv)
next
  fix c a i w c' b "is" x j
  assume inv: "cache_inv c" and a: "pushable a" and w: "instruction_width i = w" and p: "push_instr w c a i = Some c'"
    and l: "lookup_block c' b = Some is" and x: "(x, j) \<in> set (placed b is)"
  from l obtain e where e: "get_block c' b = Some e" "is = instrs e" by (auto simp: lookup_block_def)
  from push_instr_spec [OF inv even_neq_max, of a w i] p a have "c' = c \<or> pushed w c a i c'" by (auto simp: pushable_def)
  then show "(x, j) = (a, i) \<or> (\<exists>b' is'. lookup_block c b' = Some is' \<and> (x, j) \<in> set (placed b' is'))"
  proof
    assume "c' = c"
    with l x show ?thesis by blast
  next
    assume "pushed w c a i c'"
    from pushed_lookup(1) [OF inv this w e(1)] x e show ?thesis by (fastforce simp: lookup_block_def)
  qed
next
  fix c a assume inv: "cache_inv c"
  show "cache_inv (block_cache_invalidate c)" using inv by (rule block_cache_invalidate_inv)
  show "lookup_block (block_cache_invalidate c) a = None"
    using block_cache_invalidate_inv(2) [OF inv] by (simp add: lookup_block_def)
  show "lookup_block c a \<noteq> Some []"
    using get_block_entry_ok [of c a] inv by (auto simp: lookup_block_def cache_inv_def)
qed

section \<open>Any sequence of operations\<close>

datatype cache_op = Push address instruction | Invalidate | ResetCache

fun cache_exec :: "cache_op \<Rightarrow> block_cache \<Rightarrow> block_cache option" where
  "cache_exec (Push a i) c = push_instr (instruction_width i) c a i"
| "cache_exec Invalidate c = Some (block_cache_invalidate c)"
| "cache_exec ResetCache c = Some (block_cache_reset c)"

fun cache_run :: "cache_op list \<Rightarrow> block_cache \<Rightarrow> block_cache option" where
  "cache_run [] c = Some c"
| "cache_run (op # ops) c = Option.bind (cache_exec op c) (cache_run ops)"

fun even_push :: "cache_op \<Rightarrow> bool" where
  "even_push (Push a i) \<longleftrightarrow> pushable a"
| "even_push _ \<longleftrightarrow> True"

text \<open>The instructions pushed since the cache was last invalidated or reset.\<close>

fun live :: "(address \<times> instruction) set \<Rightarrow> cache_op list \<Rightarrow> (address \<times> instruction) set" where
  "live S [] = S"
| "live S (Push a i # ops) = live (insert (a, i) S) ops"
| "live S (_ # ops) = live {} ops"

lemma cache_run_live:
  assumes "cache_inv c" and "coherent lookup_block (\<lambda>x j. (x, j) \<in> S) c" and "list_all even_push ops"
  shows "\<exists>c'. cache_run ops c = Some c' \<and> cache_inv c' \<and> coherent lookup_block (\<lambda>x j. (x, j) \<in> live S ops) c'"
  using assms
proof (induction ops arbitrary: c S)
  case (Cons op ops)
  show ?case
  proof (cases op)
    case (Push a i)
    with Cons.prems have a: "pushable a" by simp
    obtain c1 where c1: "push_instr (instruction_width i) c a i = Some c1" "cache_inv c1"
      using bc.push_total [OF Cons.prems(1) a refl] by blast
    have "coherent lookup_block (\<lambda>x j. (x, j) \<in> insert (a, i) S) c"
      using Cons.prems(2) by (rule coherent_mono) simp
    from bc.coherent_push [OF Cons.prems(1) a refl c1(1) this] Cons.IH [OF c1(2)] Cons.prems(3) show ?thesis
      by (simp add: Push c1(1))
  next
    case Invalidate
    then show ?thesis
      using Cons.IH [OF bc.clear_inv [OF Cons.prems(1)] bc.coherent_clear [OF Cons.prems(1)]] Cons.prems(3) by simp
  next
    case ResetCache
    have "coherent lookup_block P (block_cache_reset c)" for P
      using block_cache_reset_inv(2) [OF Cons.prems(1)] by (simp add: coherent_def lookup_block_def)
    then show ?thesis
      using Cons.IH [OF block_cache_reset_inv(1) [OF Cons.prems(1)]] Cons.prems(3) by (simp add: ResetCache)
  qed
qed simp

section \<open>Properties\<close>

text \<open>
  C19: the block cache never fails and never serves stale or foreign code. After any sequence of
  pushes at even addresses, invalidations and resets, from an empty cache of any supported size,
  no operation has panicked, and every block the cache returns for an address has 1 to 20
  instructions, does not cross a page boundary, and consists of instructions that were pushed at
  exactly the addresses it runs them at since the last invalidation, however often the fence
  counter has wrapped around.
\<close>

theorem block_cache_sound:
  assumes "k \<le> 31" and "list_all even_push ops"
  shows "\<exists>c. cache_run ops (block_cache_new (2 ^ k)) = Some c \<and>
           (\<forall>a e. get_block c a = Some e \<longrightarrow>
              instrs e \<noteq> [] \<and> length (instrs e) \<le> CACHE_INSTR \<and> within_page a (instrs e) \<and>
              set (placed a (instrs e)) \<subseteq> live {} ops)"
proof -
  have "coherent lookup_block (\<lambda>x j. (x, j) \<in> {}) (block_cache_new (2 ^ k))"
    using block_cache_new_inv(2) [OF assms(1)] by (simp add: coherent_def lookup_block_def)
  from cache_run_live [OF block_cache_new_inv(1) [OF assms(1)] this assms(2)] obtain c where
    c: "cache_run ops (block_cache_new (2 ^ k)) = Some c" "cache_inv c"
      and coh: "coherent lookup_block (\<lambda>x j. (x, j) \<in> live {} ops) c" by blast
  have "instrs e \<noteq> [] \<and> length (instrs e) \<le> CACHE_INSTR \<and> within_page a (instrs e) \<and> set (placed a (instrs e)) \<subseteq> live {} ops"
    if e: "get_block c a = Some e" for a e
  proof -
    have ok: "entry_ok e" "0 < len_instr (cached_block e)" "cached_address e = a"
      using e store_inv_entry [of c a] c(2)
      by (auto simp: cache_inv_def get_block_def Let_def block_num_instr_def split: if_splits)
    then have "cells_ok e" by (simp add: entry_ok_def)
    moreover have "set (placed a (instrs e)) \<subseteq> live {} ops"
      using coh e unfolding coherent_def lookup_block_def by fastforce
    ultimately show ?thesis using ok length_instrs [of e] by (auto simp: entry_ok_def cells_ok_def)
  qed
  with c(1) show ?thesis by blast
qed

theorem block_cache_sound_witness:
  "\<exists>c. cache_run [Push 0 INSTRUCTION_DEFAULT, Invalidate, Push 8 INSTRUCTION_DEFAULT] (block_cache_new 4) = Some c \<and>
     (\<forall>a e. get_block c a = Some e \<longrightarrow> set (placed a (instrs e)) \<subseteq> {(8, INSTRUCTION_DEFAULT)})"
  using block_cache_sound [of 2 "[Push 0 INSTRUCTION_DEFAULT, Invalidate, Push 8 INSTRUCTION_DEFAULT]"]
  by (fastforce simp: pushable_def)

end
