(* ===== verification/Parser_Correct.thy ===== *)
theory Parser_Correct
  imports Parser
begin

unbundle bit_operations_syntax

text \<open>
  Correctness of the instruction decoder. The reference is the encoding side of the RISC-V
  manual: one encoder per instruction format, and tables that give opcode and function fields
  of each mnemonic. The decoder is shown to invert the encoders.
\<close>

section \<open>Reference encoders\<close>

definition enc_r :: "7 word \<Rightarrow> 5 word \<Rightarrow> 5 word \<Rightarrow> 3 word \<Rightarrow> 5 word \<Rightarrow> 7 word \<Rightarrow> u32" where
  "enc_r fn7 rs2 rs1 fn3 rd op =
     push_bit 25 (ucast fn7) OR push_bit 20 (ucast rs2) OR push_bit 15 (ucast rs1) OR
     push_bit 12 (ucast fn3) OR push_bit 7 (ucast rd) OR ucast op"

definition enc_i :: "12 word \<Rightarrow> 5 word \<Rightarrow> 3 word \<Rightarrow> 5 word \<Rightarrow> 7 word \<Rightarrow> u32" where
  "enc_i imm rs1 fn3 rd op = enc_r (ucast (drop_bit 5 imm)) (ucast imm) rs1 fn3 rd op"

definition enc_s :: "12 word \<Rightarrow> 5 word \<Rightarrow> 5 word \<Rightarrow> 3 word \<Rightarrow> 7 word \<Rightarrow> u32" where
  "enc_s imm rs2 rs1 fn3 op = enc_r (ucast (drop_bit 5 imm)) rs2 rs1 fn3 (ucast imm) op"

text \<open>Branch and jump offsets are even: their lowest bit is not encoded.\<close>

definition enc_b :: "13 word \<Rightarrow> 5 word \<Rightarrow> 5 word \<Rightarrow> 3 word \<Rightarrow> 7 word \<Rightarrow> u32" where
  "enc_b imm rs2 rs1 fn3 op =
     enc_r (push_bit 6 (ucast (drop_bit 12 imm)) OR take_bit 6 (ucast (drop_bit 5 imm)))
       rs2 rs1 fn3
       (push_bit 1 (take_bit 4 (ucast (drop_bit 1 imm))) OR take_bit 1 (ucast (drop_bit 11 imm)))
       op"

definition enc_u :: "20 word \<Rightarrow> 5 word \<Rightarrow> 7 word \<Rightarrow> u32" where
  "enc_u imm rd op = push_bit 12 (ucast imm) OR push_bit 7 (ucast rd) OR ucast op"

definition enc_j :: "21 word \<Rightarrow> 5 word \<Rightarrow> 7 word \<Rightarrow> u32" where
  "enc_j imm rd op =
     enc_u (push_bit 19 (ucast (drop_bit 20 imm)) OR push_bit 9 (take_bit 10 (ucast (drop_bit 1 imm)))
            OR push_bit 8 (take_bit 1 (ucast (drop_bit 11 imm))) OR take_bit 8 (ucast (drop_bit 12 imm)))
       rd op"

section \<open>Fields\<close>

lemma bit_instr_bits:
  "0 < n \<Longrightarrow> n \<le> 32 \<Longrightarrow> p < 32 \<Longrightarrow> bit (instr_bits w p n) k \<longleftrightarrow> k < n \<and> bit w (p + k)"
  by (auto simp: instr_bits_def bit_simps dest: bit_imp_le_length)

lemma bit_extract_u5 [bit_simps]: "bit (extract_u5 w p) k \<longleftrightarrow> k < 5 \<and> bit w (p + k)"
  by (auto simp: extract_u5_def bit_simps)

lemma bit_extract_u3 [bit_simps]: "bit (extract_u3 w p) k \<longleftrightarrow> k < 3 \<and> bit w (p + k)"
  by (auto simp: extract_u3_def bit_simps)

lemma bit_small:
  "bit (w5 :: 5 word) n \<Longrightarrow> n < 5" "bit (w7 :: 7 word) n \<Longrightarrow> n < 7" "bit (w3 :: 3 word) n \<Longrightarrow> n < 3"
  by (auto dest: bit_imp_le_length)

lemma bit_enc_r:
  "bit (enc_r fn7 rs2 rs1 fn3 rd op) k \<longleftrightarrow>
     (if k < 7 then bit op k
      else if k < 12 then bit rd (k - 7)
      else if k < 15 then bit fn3 (k - 12)
      else if k < 20 then bit rs1 (k - 15)
      else if k < 25 then bit rs2 (k - 20)
      else k < 32 \<and> bit fn7 (k - 25))"
  by (auto simp: enc_r_def bit_simps dest: bit_small)

lemma fields_enc_r [simp]:
  "instr_opcode (enc_r fn7 rs2 rs1 fn3 rd op) = ucast op"
  "funct3 (enc_r fn7 rs2 rs1 fn3 rd op) = ucast fn3"
  "funct7 (enc_r fn7 rs2 rs1 fn3 rd op) = ucast fn7"
  "funct5 (enc_r fn7 rs2 rs1 fn3 rd op) = ucast (drop_bit 2 fn7)"
  "instr_fmt (enc_r fn7 rs2 rs1 fn3 rd op) = ucast (take_bit 2 fn7)"
  "extract_u5 (enc_r fn7 rs2 rs1 fn3 rd op) 7 = rd"
  "extract_u5 (enc_r fn7 rs2 rs1 fn3 rd op) 15 = rs1"
  "extract_u5 (enc_r fn7 rs2 rs1 fn3 rd op) 20 = rs2"
  "extract_u5 (enc_r fn7 rs2 rs1 fn3 rd op) 27 = ucast (drop_bit 2 fn7)"
  "rs2_bits (enc_r fn7 rs2 rs1 fn3 rd op) = ucast rs2"
  by (rule bit_word_eqI; auto simp: instr_opcode_def funct3_def funct7_def funct5_def instr_fmt_def
        rs2_bits_def bit_instr_bits bit_enc_r bit_simps dest: bit_small)+

lemma fields_enc_i:
  "instr_opcode (enc_i imm rs1 fn3 rd op) = ucast op"
  "funct3 (enc_i imm rs1 fn3 rd op) = ucast fn3"
  "extract_u5 (enc_i imm rs1 fn3 rd op) 7 = rd"
  "extract_u5 (enc_i imm rs1 fn3 rd op) 15 = rs1"
  by (simp_all add: enc_i_def)

lemma fields_enc_s:
  "instr_opcode (enc_s imm rs2 rs1 fn3 op) = ucast op"
  "funct3 (enc_s imm rs2 rs1 fn3 op) = ucast fn3"
  "extract_u5 (enc_s imm rs2 rs1 fn3 op) 15 = rs1"
  "extract_u5 (enc_s imm rs2 rs1 fn3 op) 20 = rs2"
  by (simp_all add: enc_s_def)

lemma fields_enc_b:
  "instr_opcode (enc_b imm13 rs2 rs1 fn3 op) = ucast op"
  "funct3 (enc_b imm13 rs2 rs1 fn3 op) = ucast fn3"
  "extract_u5 (enc_b imm13 rs2 rs1 fn3 op) 15 = rs1"
  "extract_u5 (enc_b imm13 rs2 rs1 fn3 op) 20 = rs2"
  by (simp_all add: enc_b_def)

lemma fields_enc_u:
  "instr_opcode (enc_u imm20 rd op) = ucast op"
  "extract_u5 (enc_u imm20 rd op) 7 = rd"
  by (rule bit_word_eqI; auto simp: instr_opcode_def enc_u_def bit_instr_bits bit_simps
      dest: bit_small)+

lemma fields_enc_j:
  "instr_opcode (enc_j imm21 rd op) = ucast op"
  "extract_u5 (enc_j imm21 rd op) 7 = rd"
  by (simp_all add: enc_j_def fields_enc_u)

lemma instr_bit_iff: "p < 32 \<Longrightarrow> instr_bit w p \<longleftrightarrow> bit w p"
  by (simp add: instr_bit_def bit_iff_and_push_bit_not_eq_0)

lemma xregister_number_x0 [simp]: "xregister_number x0 = 0"
  by (simp add: xregister_number_def)

section \<open>Immediates\<close>

text \<open>The constants that select fields, as shifted masks.\<close>

lemma imm_masks:
  "(0b11111111111100000000000000000000 :: u32) = push_bit 20 (mask 12)"
  "(0b11111110000000000000000000000000 :: u32) = push_bit 25 (mask 7)"
  "(0b00000000000000000000111110000000 :: u32) = push_bit 7 (mask 5)"
  "(0b01111110000000000000000000000000 :: u32) = push_bit 25 (mask 6)"
  "(0b00000000000000000000111100000000 :: u32) = push_bit 8 (mask 4)"
  "(0b11111111111111111111000000000000 :: u32) = push_bit 12 (mask 20)"
  "(0b00000000000011111111000000000000 :: u32) = push_bit 12 (mask 8)"
  "(0b01111111111000000000000000000000 :: u32) = push_bit 21 (mask 10)"
  by (simp_all add: mask_numeral)

lemma bit_field_shr:
  fixes w :: u32
  assumes "p + m < 32"
  shows "bit (signed_drop_bit s (w AND push_bit p (mask m))) k \<longleftrightarrow>
           p \<le> s + k \<and> s + k < p + m \<and> bit w (s + k)"
  using assms by (auto simp: bit_simps min_def)

lemma bit_single [simp]:
  "bit (0b10000000000000000000000000000000 :: u32) k \<longleftrightarrow> k = 31"
  "bit (0b00000000000000000000000010000000 :: u32) k \<longleftrightarrow> k = 7"
  "bit (0b00000000000100000000000000000000 :: u32) k \<longleftrightarrow> k = 20"
  using bit_exp_iff [of 31 k, where 'a = u32] bit_exp_iff [of 7 k, where 'a = u32]
    bit_exp_iff [of 20 k, where 'a = u32]
  by auto

lemma bit_sign_shr:
  fixes w :: u32
  shows "bit (signed_drop_bit s (w AND 0b10000000000000000000000000000000)) k \<longleftrightarrow>
           k < 32 \<and> 31 \<le> s + k \<and> bit w 31"
  by (cases "s + k = 31")
     (auto simp: bit_signed_drop_bit_iff bit_and_iff simp del: bit_numeral_word_iff)

lemma bit_single_shift:
  fixes w :: u32
  shows "bit (signed_drop_bit 9 (w AND 0b00000000000100000000000000000000)) k \<longleftrightarrow> k = 11 \<and> bit w 20"
    "bit (push_bit 4 (w AND 0b00000000000000000000000010000000)) k \<longleftrightarrow> k = 11 \<and> bit w 7"
  by (auto simp: bit_signed_drop_bit_iff bit_and_iff bit_push_bit_iff
      simp del: push_bit_and bit_numeral_word_iff dest: bit_imp_le_length)

lemma bit_scast_u32: "bit (scast (w :: u32) :: u64) n \<longleftrightarrow> n < 64 \<and> bit w (min n 31)"
  by (auto simp: bit_simps min_def)

lemma bit_i_imm:
  "bit (i_imm w) n \<longleftrightarrow> n < 64 \<and> bit w (20 + min n 11)"
  by (cases n "11::nat" rule: linorder_cases)
     (auto simp: i_imm_def imm_masks bit_simps min_def)

lemma bit_s_imm:
  "bit (s_imm w) n \<longleftrightarrow> n < 64 \<and> (if n < 5 then bit w (7 + n) else bit w (20 + min n 11))"
  by (cases n "11::nat" rule: linorder_cases)
     (auto simp: s_imm_def Let_def imm_masks bit_simps min_def)

lemma bit_b_imm:
  "bit (b_imm w) n \<longleftrightarrow> n < 64 \<and>
     (if n = 0 then False else if n < 5 then bit w (7 + n) else if n < 11 then bit w (20 + n)
      else if n = 11 then bit w 7 else bit w 31)"
  by (auto simp del: push_bit_and bit_numeral_word_iff simp: b_imm_def Let_def imm_masks bit_scast_u32 bit_or_iff bit_field_shr bit_sign_shr bit_single_shift
      bit_and_iff bit_push_bit_iff bit_mask_iff min_def)

lemma bit_u_imm: "bit (u_imm w) n \<longleftrightarrow> n < 64 \<and> 12 \<le> n \<and> bit w (min n 31)"
  by (cases n "31::nat" rule: linorder_cases)
     (auto simp: u_imm_def Let_def imm_masks bit_simps min_def)

lemma bit_j_imm:
  "bit (j_imm w) n \<longleftrightarrow> n < 64 \<and>
     (if n = 0 then False else if n < 11 then bit w (20 + n) else if n = 11 then bit w 20
      else if n < 20 then bit w n else bit w 31)"
  by (auto simp: j_imm_def Let_def imm_masks bit_scast_u32 bit_or_iff bit_field_shr bit_sign_shr bit_single_shift
      bit_and_iff bit_push_bit_iff bit_mask_iff min_def)


lemma imm_enc:
  "i_imm (enc_i imm rs1 fn3 rd op) = scast imm"
  "s_imm (enc_s imm rs2 rs1 fn3 op) = scast imm"
  by (rule bit_word_eqI; auto simp: bit_i_imm bit_s_imm enc_i_def enc_s_def bit_enc_r bit_simps
      min_def)+

lemma b_imm_enc: "b_imm (enc_b imm rs2 rs1 fn3 op) = scast (imm AND NOT 1)"
  by (rule bit_word_eqI) (auto simp: bit_b_imm enc_b_def bit_enc_r bit_simps min_def simp del: One_nat_def bit_0)

lemma u_imm_enc: "u_imm (enc_u imm rd op) = scast (push_bit 12 (ucast imm) :: u32)"
  by (rule bit_word_eqI) (auto simp: bit_u_imm enc_u_def bit_simps min_def dest: bit_small)

lemma j_imm_enc: "j_imm (enc_j imm rd op) = scast (imm AND NOT 1)"
  by (rule bit_word_eqI) (auto simp: bit_j_imm enc_j_def enc_u_def bit_simps min_def simp del: One_nat_def bit_0 dest: bit_small)

section \<open>Immediates of 16-bit instructions\<close>

text \<open>
  The manual draws a 16-bit format as instruction bits from high to low, each labelled with
  the immediate bit it holds. \<open>gather srcs dsts w\<close> is the immediate drawn that way.
\<close>

definition gather :: "nat list \<Rightarrow> nat list \<Rightarrow> u16 \<Rightarrow> u64" where
  "gather srcs dsts w =
     foldr (\<lambda>(src, dst) acc. (if bit w src then push_bit dst 1 else 0) OR acc) (zip srcs dsts) 0"

lemma bit_if_push_bit:
  "bit (if c then push_bit d 1 else (0 :: u64)) j \<longleftrightarrow> c \<and> d = j \<and> j < 64"
  using bit_exp_iff [of d j, where 'a = u64] by auto

lemma bit_gather:
  "bit (gather srcs dsts w) j \<longleftrightarrow> j < 64 \<and> (\<exists>(src, dst) \<in> set (zip srcs dsts). dst = j \<and> bit w src)"
proof -
  have "bit (foldr (\<lambda>(src, dst) acc. (if bit w src then push_bit dst 1 else 0) OR acc) ps (0 :: u64)) j
      \<longleftrightarrow> j < 64 \<and> (\<exists>(src, dst) \<in> set ps. dst = j \<and> bit w src)" for ps
    by (induction ps)
       (simp, clarsimp simp: bit_or_iff bit_if_push_bit simp del: push_bit_of_1 split del: if_split, blast)
  then show ?thesis by (simp add: gather_def)
qed

lemma bit_sign_extend_u16:
  "0 < sz \<Longrightarrow> sz < 16 \<Longrightarrow> bit (sign_extend_u16 v sz) n \<longleftrightarrow> n < 64 \<and> bit v (min n (sz - 1))"
  by (auto simp: sign_extend_u16_def Let_def bit_simps min_def)

text \<open>Two words are equal when they agree on each of the 64 bits, one by one.\<close>

lemma u64_eqI:
  assumes "list_all (\<lambda>n. bit v n = bit w n)
      [0, 1, 2, 3, 4, 5, 6, 7, 8, 9, 10, 11, 12, 13, 14, 15, 16, 17, 18, 19, 20, 21, 22, 23,
       24, 25, 26, 27, 28, 29, 30, 31, 32, 33, 34, 35, 36, 37, 38, 39, 40, 41, 42, 43, 44,
       45, 46, 47, 48, 49, 50, 51, 52, 53, 54, 55, 56, 57, 58, 59, 60, 61, 62, 63]"
  shows "(v :: u64) = w"
proof (rule bit_word_eqI)
  fix n
  assume "n < LENGTH(64)"
  then have "n \<in> set [0..<64]" by simp
  also have "[0..<64] =
      [0, 1, 2, 3, 4, 5, 6, 7, 8, 9, 10, 11, 12, 13, 14, 15, 16, 17, 18, 19, 20, 21, 22, 23,
       24, 25, 26, 27, 28, 29, 30, 31, 32, 33, 34, 35, 36, 37, 38, 39, 40, 41, 42, 43, 44,
       45, 46, 47, 48, 49, 50, 51, 52, 53, 54, 55, 56, 57, 58, 59, 60, 61, 62, 63]"
    by (simp add: eval_nat_numeral)
  finally show "bit v n = bit w n"
    using assms unfolding list_all_iff by blast
qed

lemmas c_imm_simps = bit_sign_extend_u16 bit_gather bit_bits_subset mask_subset_asserts_def
  bit_or_iff bit_push_bit_iff bit_unsigned_iff bit_signed_take_bit_iff
  numeral_2_eq_2 [symmetric] numeral_3_eq_3 [symmetric]

lemma clw_imm_layout:
  "clw_imm w = gather [12, 11, 10, 6, 5] [5, 4, 3, 2, 6] w"
  by (rule u64_eqI) (simp add: clw_imm_def c_imm_simps del: One_nat_def)

lemma cld_imm_layout:
  "cld_imm w = gather [12, 11, 10, 6, 5] [5, 4, 3, 7, 6] w"
  by (rule u64_eqI) (simp add: cld_imm_def c_imm_simps del: One_nat_def)

lemma ci_imm_layout:
  "ci_imm w = signed_take_bit 5 (gather [12, 6, 5, 4, 3, 2] [5, 4, 3, 2, 1, 0] w)"
  by (rule u64_eqI) (simp add: ci_imm_def c_imm_simps del: One_nat_def)

lemma cslli_imm_layout:
  "cslli_imm w = gather [12, 6, 5, 4, 3, 2] [5, 4, 3, 2, 1, 0] w"
  by (rule u64_eqI) (simp add: cslli_imm_def c_imm_simps del: One_nat_def)

lemma ci_addi16sp_imm_layout:
  "ci_addi16sp_imm w = signed_take_bit 9 (gather [12, 6, 5, 4, 3, 2] [9, 4, 6, 8, 7, 5] w)"
  by (rule u64_eqI) (simp add: ci_addi16sp_imm_def c_imm_simps del: One_nat_def)

lemma ci_lwsp_imm_layout:
  "ci_lwsp_imm w = gather [12, 6, 5, 4, 3, 2] [5, 4, 3, 2, 7, 6] w"
  by (rule u64_eqI) (simp add: ci_lwsp_imm_def c_imm_simps del: One_nat_def)

lemma ci_ldsp_imm_layout:
  "ci_ldsp_imm w = gather [12, 6, 5, 4, 3, 2] [5, 4, 3, 8, 7, 6] w"
  by (rule u64_eqI) (simp add: ci_ldsp_imm_def c_imm_simps del: One_nat_def)

lemma css_swsp_imm_layout:
  "css_swsp_imm w = gather [12, 11, 10, 9, 8, 7] [5, 4, 3, 2, 7, 6] w"
  by (rule u64_eqI) (simp add: css_swsp_imm_def c_imm_simps del: One_nat_def)

lemma css_sdsp_imm_layout:
  "css_sdsp_imm w = gather [12, 11, 10, 9, 8, 7] [5, 4, 3, 8, 7, 6] w"
  by (rule u64_eqI) (simp add: css_sdsp_imm_def c_imm_simps del: One_nat_def)

lemma ciw_imm_layout:
  "ciw_imm w = gather [12, 11, 10, 9, 8, 7, 6, 5] [5, 4, 9, 8, 7, 6, 2, 3] w"
  by (rule u64_eqI) (simp add: ciw_imm_def c_imm_simps del: One_nat_def)

lemma cb_imm_layout:
  "cb_imm w = signed_take_bit 8 (gather [12, 11, 10, 6, 5, 4, 3, 2] [8, 4, 3, 7, 6, 2, 1, 5] w)"
  by (rule u64_eqI) (simp add: cb_imm_def c_imm_simps del: One_nat_def)

lemma cb_shamt_imm_layout:
  "cb_shamt_imm w = gather [12, 6, 5, 4, 3, 2] [5, 4, 3, 2, 1, 0] w"
  by (rule u64_eqI) (simp add: cb_shamt_imm_def c_imm_simps del: One_nat_def)

lemma cb_andi_imm_layout:
  "cb_andi_imm w = signed_take_bit 5 (gather [12, 6, 5, 4, 3, 2] [5, 4, 3, 2, 1, 0] w)"
  by (rule u64_eqI) (simp add: cb_andi_imm_def c_imm_simps del: One_nat_def)

lemma cj_imm_layout:
  "cj_imm w = signed_take_bit 11 (gather [12, 11, 10, 9, 8, 7, 6, 5, 4, 3, 2] [11, 4, 9, 8, 10, 6, 7, 3, 2, 1, 5] w)"
  by (rule u64_eqI) (simp add: cj_imm_def c_imm_simps del: One_nat_def)

section \<open>Reference tables\<close>

definition r_table :: "(nz_rd_r_op \<times> 7 word \<times> 3 word \<times> 7 word) list" where
  "r_table =
    [(Add, 0x33, 0, 0), (Sub, 0x33, 0, 0x20), (Sll, 0x33, 1, 0), (Slt, 0x33, 2, 0),
     (Sltu, 0x33, 3, 0), (Xor, 0x33, 4, 0), (Srl, 0x33, 5, 0), (Sra, 0x33, 5, 0x20),
     (Or, 0x33, 6, 0), (And, 0x33, 7, 0),
     (Addw, 0x3B, 0, 0), (Subw, 0x3B, 0, 0x20), (Sllw, 0x3B, 1, 0), (Srlw, 0x3B, 5, 0),
     (Sraw, 0x3B, 5, 0x20)]"

definition m_table :: "(r_op \<times> 7 word \<times> 3 word) list" where
  "m_table =
    [(Mul, 0x33, 0), (Mulh, 0x33, 1), (Mulhsu, 0x33, 2), (Mulhu, 0x33, 3), (Div, 0x33, 4),
     (Divu, 0x33, 5), (Rem, 0x33, 6), (Remu, 0x33, 7), (Mulw, 0x3B, 0), (Divw, 0x3B, 4),
     (Divuw, 0x3B, 5), (Remw, 0x3B, 6), (Remuw, 0x3B, 7)]"

definition amo_table :: "(amo_op \<times> 3 word \<times> 5 word) list" where
  "amo_table =
    [(Lrw, 2, 2), (Scw, 2, 3), (Amoswapw, 2, 1), (Amoaddw, 2, 0), (Amoxorw, 2, 4),
     (Amoandw, 2, 12), (Amoorw, 2, 8), (Amominw, 2, 16), (Amomaxw, 2, 20), (Amominuw, 2, 24),
     (Amomaxuw, 2, 28),
     (Lrd, 3, 2), (Scd, 3, 3), (Amoswapd, 3, 1), (Amoaddd, 3, 0), (Amoxord, 3, 4),
     (Amoandd, 3, 12), (Amoord, 3, 8), (Amomind, 3, 16), (Amomaxd, 3, 20), (Amominud, 3, 24),
     (Amomaxud, 3, 28)]"

definition i_nz_table :: "(nz_rd_i_op \<times> 7 word \<times> 3 word) list" where
  "i_nz_table =
    [(Xori, 0x13, 4), (Ori, 0x13, 6), (Andi, 0x13, 7), (Slti, 0x13, 2), (Sltiu, 0x13, 3),
     (Addiw, 0x1B, 0)]"

definition i_table :: "(i_op \<times> 7 word \<times> 3 word) list" where
  "i_table =
    [(Lb, 0x03, 0), (Lh, 0x03, 1), (Lw, 0x03, 2), (Ld, 0x03, 3), (Lbu, 0x03, 4), (Lhu, 0x03, 5),
     (Lwu, 0x03, 6), (Jalr, 0x67, 0)]"

definition s_table :: "(sb_op \<times> 3 word) list" where
  "s_table = [(Sb, 0), (Sh, 1), (Sw, 2), (Sd, 3)]"

definition b_table :: "(sb_op \<times> 3 word) list" where
  "b_table = [(Beq, 0), (Bne, 1), (Blt, 4), (Bge, 5), (Bltu, 6), (Bgeu, 7)]"

text \<open>Instructions without effect on a register are hints when the target is \<^verbatim>\<open>x0\<close>.\<close>

definition unless_x0 :: "u32 \<Rightarrow> 5 word \<Rightarrow> (nz_xregister \<Rightarrow> instr_cacheable) \<Rightarrow> instr" where
  "unless_x0 w rd f =
     Cacheable (case split_x0 (parse_xregister rd) of X0 \<Rightarrow> Hint w | NonZero nz \<Rightarrow> f nz)"

text \<open>Selection of the arm by the opcode.\<close>

lemma parse_select:
  "instr_opcode w = 0x33 \<Longrightarrow> parse_uncompressed_instruction w = Cacheable (parse_arith w)"
  "instr_opcode w = 0x3B \<Longrightarrow> parse_uncompressed_instruction w = Cacheable (parse_arith_w w)"
  "instr_opcode w = 0x13 \<Longrightarrow> parse_uncompressed_instruction w = Cacheable (parse_arith_i w)"
  "instr_opcode w = 0x03 \<Longrightarrow> parse_uncompressed_instruction w = Cacheable (parse_load w)"
  "instr_opcode w = 0x1B \<Longrightarrow> parse_uncompressed_instruction w = Cacheable (parse_arith_iw w)"
  "instr_opcode w = 0x2F \<Longrightarrow> parse_uncompressed_instruction w = Cacheable (parse_amo w)"
  "instr_opcode w = 0x23 \<Longrightarrow> parse_uncompressed_instruction w = Cacheable (parse_store w)"
  "instr_opcode w = 0x63 \<Longrightarrow> parse_uncompressed_instruction w = Cacheable (parse_branch w)"
  "instr_opcode w = 0x37 \<Longrightarrow> parse_uncompressed_instruction w = Cacheable (parse_upper Lui w)"
  "instr_opcode w = 0x17 \<Longrightarrow> parse_uncompressed_instruction w = Cacheable (parse_upper Auipc w)"
  "instr_opcode w = 0x6F \<Longrightarrow> parse_uncompressed_instruction w = Cacheable (j_instr w)"
  "instr_opcode w = 0x67 \<Longrightarrow> parse_uncompressed_instruction w = Cacheable (parse_jalr w)"
  by (simp_all add: parse_uncompressed_instruction_def)

lemmas field_defs = instr_rd_def instr_rs1_def instr_rs2_def rs1_bits_u5_def rs2_bits_u5_def

lemma decode_r_table:
  assumes "(op, opc, fn3, fn7) \<in> set r_table"
  shows "parse_uncompressed_instruction (enc_r fn7 rs2 rs1 fn3 rd opc) =
    unless_x0 (enc_r fn7 rs2 rs1 fn3 rd opc) rd
      (\<lambda>rd. NonZeroRdRTypeArgs op rd (parse_xregister rs1) (parse_xregister rs2))"
  using assms unfolding r_table_def list.set insert_iff empty_iff prod.inject
  by (elim disjE conjE)
     (simp_all add: parse_select parse_arith_def parse_arith_w_def r_row_def r_row2_def
        r_instr_nz_def field_defs unless_x0_def split: xregister_parsed.split)

lemma decode_m_table:
  assumes "(op, opc, fn3) \<in> set m_table" and "op = Divuw \<longrightarrow> rd \<noteq> 0"
  shows "parse_uncompressed_instruction (enc_r 1 rs2 rs1 fn3 rd opc) =
    Cacheable (RTypeArgs op (parse_xregister rd) (parse_xregister rs1) (parse_xregister rs2))"
proof -
  have nz: "parse_xregister rd = x0 \<longleftrightarrow> rd = 0"
    by (metis parse_xregister_number xregister_number_parse xregister_number_x0)
  show ?thesis
    using assms unfolding m_table_def list.set insert_iff empty_iff prod.inject
    by (elim disjE conjE)
       (simp_all add: parse_select parse_arith_def parse_arith_w_def r_row_def r_row2_def
          r_instr_def field_defs nz split: xregister_parsed.split)
qed

lemma decode_amo_table:
  assumes "(op, fn3, fn5) \<in> set amo_table" and "op \<in> {Lrw, Lrd} \<longrightarrow> rs2 = 0"
  shows "parse_uncompressed_instruction
      (enc_r (push_bit 2 (ucast fn5) OR push_bit 1 (of_bool aq) OR of_bool rl) rs2 rs1 fn3 rd 0x2F) =
    Cacheable (AmoArgs op (parse_xregister rd) (parse_xregister rs1) (parse_xregister rs2) aq rl)"
proof -
  let ?w = "enc_r (push_bit 2 (ucast fn5) OR push_bit 1 (of_bool aq) OR of_bool rl) rs2 rs1 fn3 rd 0x2F"
  have "funct5 ?w = ucast fn5"
    by (rule bit_word_eqI)
       (auto simp: funct5_def bit_instr_bits bit_enc_r bit_simps simp del: One_nat_def bit_0
          dest: bit_small)
  moreover have "instr_bit ?w 26 = aq" "instr_bit ?w 25 = rl"
    by (auto simp: instr_bit_iff bit_enc_r bit_simps simp del: One_nat_def)
  ultimately show ?thesis
    using assms unfolding amo_table_def list.set insert_iff empty_iff prod.inject
    by (elim disjE conjE) (simp_all add: parse_select parse_amo_def amo_instr_def field_defs)
qed

lemma decode_i_table:
  assumes "(op, opc, fn3) \<in> set i_table"
  shows "parse_uncompressed_instruction (enc_i imm rs1 fn3 rd opc) =
    Cacheable (ITypeArgs op (parse_xregister rd) (parse_xregister rs1) (scast imm))"
  using assms unfolding i_table_def list.set insert_iff empty_iff prod.inject
  by (elim disjE conjE)
     (simp_all add: parse_select parse_load_def parse_jalr_def i_instr_def field_defs imm_enc
        fields_enc_i)

lemma decode_i_nz_table:
  assumes "(op, opc, fn3) \<in> set i_nz_table"
  shows "parse_uncompressed_instruction (enc_i imm rs1 fn3 rd opc) =
    unless_x0 (enc_i imm rs1 fn3 rd opc) rd
      (\<lambda>rd. NonZeroRdITypeArgs op rd (parse_xregister rs1) (scast imm))"
  using assms unfolding i_nz_table_def list.set insert_iff empty_iff prod.inject
  by (elim disjE conjE)
     (simp_all add: parse_select parse_arith_i_def parse_arith_iw_def i_instr_nz_def field_defs
        imm_enc fields_enc_i unless_x0_def split: xregister_parsed.split)

lemma decode_s_table:
  assumes "(op, fn3) \<in> set s_table"
  shows "parse_uncompressed_instruction (enc_s imm rs2 rs1 fn3 0x23) =
    Cacheable (SBTypeArgs op (parse_xregister rs1) (parse_xregister rs2) (scast imm))"
  using assms unfolding s_table_def list.set insert_iff empty_iff prod.inject
  by (elim disjE conjE)
     (simp_all add: parse_select parse_store_def s_instr_def field_defs imm_enc fields_enc_s)

lemma decode_b_table:
  assumes "(op, fn3) \<in> set b_table"
  shows "parse_uncompressed_instruction (enc_b imm13 rs2 rs1 fn3 0x63) =
    Cacheable (SBTypeArgs op (parse_xregister rs1) (parse_xregister rs2) (scast (imm13 AND NOT 1)))"
  using assms unfolding b_table_def list.set insert_iff empty_iff prod.inject
  by (elim disjE conjE)
     (simp_all add: parse_select parse_branch_def b_instr_def field_defs b_imm_enc fields_enc_b)

lemma decode_u_j:
  "parse_uncompressed_instruction (enc_u imm20 rd 0x37) =
     unless_x0 (enc_u imm20 rd 0x37) rd
       (\<lambda>rd. NonZeroRdUJTypeArgs Lui rd (scast (push_bit 12 (ucast imm20) :: u32)))"
  "parse_uncompressed_instruction (enc_u imm20 rd 0x17) =
     unless_x0 (enc_u imm20 rd 0x17) rd
       (\<lambda>rd. NonZeroRdUJTypeArgs Auipc rd (scast (push_bit 12 (ucast imm20) :: u32)))"
  "parse_uncompressed_instruction (enc_j imm21 rd 0x6F) =
     Cacheable (UJTypeArgs (parse_xregister rd) (scast (imm21 AND NOT 1)))"
  by (simp_all add: parse_select parse_upper_def u_instr_def j_instr_def field_defs u_imm_enc
      j_imm_enc fields_enc_u fields_enc_j unless_x0_def split: xregister_parsed.split)

text \<open>Shifts by an immediate: the upper six immediate bits select the operation.\<close>

definition shift_field :: "6 word \<Rightarrow> 6 word \<Rightarrow> 12 word" where
  "shift_field fn6 shamt = push_bit 6 (ucast fn6) OR ucast shamt"

lemma bit_small6: "bit (w :: 6 word) n \<Longrightarrow> n < 6"
  by (auto dest: bit_imp_le_length)

lemma imm_11_6_shift:
  "imm_11_6 (enc_i (shift_field fn6 shamt) rs1 fn3 rd op) = push_bit 1 (ucast fn6)"
proof -
  have "instr_bits (enc_i (shift_field fn6 shamt) rs1 fn3 rd op) 26 6 = ucast fn6"
    by (rule bit_word_eqI)
       (auto simp: shift_field_def enc_i_def bit_instr_bits bit_enc_r bit_simps dest: bit_small6)
  then show ?thesis by (simp add: imm_11_6_def)
qed

lemma scast_shift_field:
  "(scast (shift_field 0 shamt) :: u64) = ucast shamt"
  "(scast (shift_field fn6 shamt) :: u64) AND SHIFT_BITMASK = ucast shamt"
proof -
  have S: "SHIFT_BITMASK = mask 6"
    by (simp add: SHIFT_BITMASK_def mask_numeral)
  show "(scast (shift_field 0 shamt) :: u64) = ucast shamt"
    by (rule bit_word_eqI) (auto simp: shift_field_def bit_simps min_def dest: bit_small6)
  show "(scast (shift_field fn6 shamt) :: u64) AND SHIFT_BITMASK = ucast shamt"
    unfolding S
    by (rule bit_word_eqI) (auto simp: shift_field_def bit_simps min_def dest: bit_small6)
qed

lemma decode_shifts:
  "parse_uncompressed_instruction (enc_i (shift_field 0 shamt) rs1 1 rd 0x13) =
     unless_x0 (enc_i (shift_field 0 shamt) rs1 1 rd 0x13) rd
       (\<lambda>rd. NonZeroRdITypeArgs Slli rd (parse_xregister rs1) (ucast shamt))"
  "parse_uncompressed_instruction (enc_i (shift_field 0 shamt) rs1 5 rd 0x13) =
     unless_x0 (enc_i (shift_field 0 shamt) rs1 5 rd 0x13) rd
       (\<lambda>rd. NonZeroRdITypeArgs Srli rd (parse_xregister rs1) (ucast shamt))"
  "parse_uncompressed_instruction (enc_i (shift_field 0x10 shamt) rs1 5 rd 0x13) =
     unless_x0 (enc_i (shift_field 0x10 shamt) rs1 5 rd 0x13) rd
       (\<lambda>rd. NonZeroRdITypeArgs Srai rd (parse_xregister rs1) (ucast shamt))"
  by (simp_all add: parse_select parse_arith_i_def i_instr_nz_def field_defs imm_enc
      fields_enc_i imm_11_6_shift shift_imm_def scast_shift_field unless_x0_def
      split: xregister_parsed.split)

lemma decode_w_shifts:
  "parse_uncompressed_instruction (enc_i (shift_field 0 shamt) rs1 1 rd 0x1B) =
     unless_x0 (enc_i (shift_field 0 shamt) rs1 1 rd 0x1B) rd
       (\<lambda>rd. NonZeroRdITypeArgs Slliw rd (parse_xregister rs1) (ucast shamt))"
  "parse_uncompressed_instruction (enc_i (shift_field 0 shamt) rs1 5 rd 0x1B) =
     unless_x0 (enc_i (shift_field 0 shamt) rs1 5 rd 0x1B) rd
       (\<lambda>rd. NonZeroRdITypeArgs Srliw rd (parse_xregister rs1) (ucast shamt))"
  "parse_uncompressed_instruction (enc_i (shift_field 0x10 shamt) rs1 5 rd 0x1B) =
     unless_x0 (enc_i (shift_field 0x10 shamt) rs1 5 rd 0x1B) rd
       (\<lambda>rd. NonZeroRdITypeArgs Sraiw rd (parse_xregister rs1) (scast (shift_field 0x10 shamt)))"
  by (simp_all add: parse_select parse_arith_iw_def i_instr_nz_def field_defs imm_enc
      fields_enc_i imm_11_6_shift scast_shift_field unless_x0_def split: xregister_parsed.split)

lemma decode_word_shift:
  assumes "(op, fn3, fn6) \<in> {(Slliw, 1, 0), (Srliw, 5, 0), (Sraiw, 5, 0x10)}"
  shows "parse_uncompressed_instruction (enc_i (shift_field fn6 shamt) rs1 fn3 rd 0x1B) =
    unless_x0 (enc_i (shift_field fn6 shamt) rs1 fn3 rd 0x1B) rd
      (\<lambda>rd. NonZeroRdITypeArgs op rd (parse_xregister rs1) (push_bit 6 (ucast fn6) OR ucast shamt))"
proof -
  have "(scast (shift_field f shamt) :: u64) = push_bit 6 (ucast f) OR ucast shamt" if "\<not> bit f 5" for f
  proof -
    have "k < 5" if "bit f k" for k using that \<open>\<not> bit f 5\<close> bit_small6 [of f k] by (cases "k = 5") auto
    note small = this
    show ?thesis
      by (rule bit_word_eqI) (auto simp: shift_field_def bit_simps min_def dest: bit_small6 small)
  qed
  from this [of "0x10"] assms show ?thesis by (auto simp: decode_w_shifts)
qed

text \<open>\<^verbatim>\<open>ADDI\<close> has operands of its own, in which \<^verbatim>\<open>x0\<close> is told apart.\<close>

lemma decode_addi:
  "parse_uncompressed_instruction (enc_i imm rs1 0 rd 0x13) =
     Cacheable (if rd = 0 \<and> (rs1 = 0 \<or> imm = 0) then Hint (enc_i imm rs1 0 rd 0x13)
                else SplitITypeArgs (split_x0 (parse_xregister rd)) (split_x0 (parse_xregister rs1)) (scast imm))"
proof -
  have nz: "split_x0 (parse_xregister r) = X0 \<longleftrightarrow> r = 0" for r
    by (metis split_x0_eq_X0 parse_xregister_number xregister_number_parse xregister_number_x0)
  have "(scast imm :: u64) = 0 \<longleftrightarrow> imm = 0"
  proof
    assume *: "(scast imm :: u64) = 0"
    have "imm = ucast (scast imm :: u64)" by (rule bit_word_eqI) (simp add: bit_simps min_absorb1)
    with * show "imm = 0" by simp
  qed simp
  then show ?thesis
    using nz [of rd] nz [of rs1]
    by (auto simp: parse_select parse_arith_i_def Let_def field_defs imm_enc fields_enc_i split: xregister_parsed.split)
qed

section \<open>The decoder of 16-bit instructions is total\<close>

lemma c_reg_prime_nonzero: "c_reg_prime w p \<noteq> 0"
proof
  assume "c_reg_prime w p = 0"
  then have "unat (ucast (extract_u3 w p) + 8 :: 5 word) = 0"
    by (simp add: c_reg_prime_def)
  moreover have "unat (extract_u3 w p) < 2 ^ LENGTH(3)"
    by (rule unsigned_less)
  then have "unat (ucast (extract_u3 w p) :: 5 word) < 8"
    by (simp add: unsigned_ucast_eq le_less_trans [OF take_bit_nat_less_eq_self])
  ultimately show False
    by (simp add: unat_word_ariths)
qed

lemma c_reg_nz_defined:
  "\<exists>r. c_rs1p_nz w = Some r \<and> xregister_from r = c_rs1p w"
  "\<exists>r. c_rdp_rs2p_nz w = Some r \<and> xregister_from r = c_rdp_rs2p w"
proof -
  have "parse_xregister (c_reg_prime w p) \<noteq> x0" for p
    using c_reg_prime_nonzero [of w p] by (metis xregister_number_parse xregister_number_x0)
  then show "\<exists>r. c_rs1p_nz w = Some r \<and> xregister_from r = c_rs1p w"
    "\<exists>r. c_rdp_rs2p_nz w = Some r \<and> xregister_from r = c_rdp_rs2p w"
    using assert_from_defined by (auto simp: c_rs1p_nz_def c_rdp_rs2p_nz_def c_rs1p_def c_rdp_rs2p_def)
qed

lemma parse_c0_defined: "\<exists>i. parse_c0 w = Some i"
  using c_reg_nz_defined [of w] by (auto simp: parse_c0_def)

lemma parse_inner_defined: "\<exists>i. parse_compressed_instruction_inner w = Some i"
  using parse_c0_defined [of w] by (auto simp: parse_compressed_instruction_inner_def)

lemma jump_table_loop_eq:
  "length table = 0x10000 \<Longrightarrow>
     jump_table_loop table i = Some (map (\<lambda>k. if unat i \<le> k
        then the (parse_compressed_instruction_inner (of_nat k)) else table ! k) [0..<0x10000])"
proof (induction table i rule: jump_table_loop.induct)
  case (1 table i)
  obtain x where x: "parse_compressed_instruction_inner i = Some x"
    using parse_inner_defined by blast
  show ?case
  proof (cases "i < 0xFFFF")
    case True
    then have less: "unat i < 0xFFFF" by (simp add: word_less_nat_alt)
    then have suc: "unat (i + 1) = Suc (unat i)" by (simp add: unat_word_ariths)
    have "jump_table_loop table i = jump_table_loop (table[unat i := x]) (i + 1)"
      using True x by (simp add: jump_table_loop.simps [of table i])
    also have "\<dots> = Some (map (\<lambda>k. if unat (i + 1) \<le> k
        then the (parse_compressed_instruction_inner (of_nat k))
        else table[unat i := x] ! k) [0..<0x10000])"
      using 1 True x by simp
    also have "map (\<lambda>k. if unat (i + 1) \<le> k
        then the (parse_compressed_instruction_inner (of_nat k))
        else table[unat i := x] ! k) [0..<0x10000] =
      map (\<lambda>k. if unat i \<le> k then the (parse_compressed_instruction_inner (of_nat k))
        else table ! k) [0..<0x10000]"
      using x less 1(2) suc by (intro map_cong refl) (auto simp: nth_list_update Suc_le_eq)
    finally show ?thesis .
  next
    case False
    then have "unat (0xFFFF :: u16) \<le> unat i" by (simp only: word_le_nat_alt not_less)
    moreover have "unat i < 2 ^ LENGTH(16)" by (rule unsigned_less)
    ultimately have "unat i = unat (0xFFFF :: u16)" by simp
    then have "i = 0xFFFF" by (simp only: unat_eq_unat_iff)
    then have "jump_table_loop table i = Some (table[0xFFFF := x])"
      using x by (simp add: jump_table_loop.simps [of table i])
    also have "table[0xFFFF := x] = map (\<lambda>k. if unat i \<le> k
        then the (parse_compressed_instruction_inner (of_nat k)) else table ! k) [0..<0x10000]"
    proof (rule nth_equalityI)
      fix k
      assume "k < length (table[0xFFFF := x])"
      then show "table[0xFFFF := x] ! k = map (\<lambda>k. if unat i \<le> k
        then the (parse_compressed_instruction_inner (of_nat k)) else table ! k) [0..<0x10000] ! k"
        using x 1(2) \<open>i = 0xFFFF\<close> by (cases "k = 0xFFFF") (auto simp: nth_list_update)
    qed (use 1(2) in simp)
    finally show ?thesis .
  qed
qed

lemma parse_compressed_instruction_eq:
  "parse_compressed_instruction w = parse_compressed_instruction_inner w"
proof -
  obtain x where x: "parse_compressed_instruction_inner w = Some x"
    using parse_inner_defined by blast
  have "unat w < 0x10000" using unsigned_less [of w] by simp
  moreover have eq: "COMPRESSED_JUMP_TABLE =
      Some (map (\<lambda>k. the (parse_compressed_instruction_inner (of_nat k))) [0..<0x10000])"
    by (simp add: COMPRESSED_JUMP_TABLE_def jump_table_loop_eq del: jump_table_loop.simps)
  ultimately show ?thesis
    unfolding parse_compressed_instruction_def eq option.case by (simp add: x)
qed

section \<open>Width of decoded instructions\<close>

lemmas width_simps = instr_cacheable_width_def r_row_def r_row2_def r_instr_def r_instr_nz_def
  i_instr_def i_instr_nz_def s_instr_def b_instr_def u_instr_def j_instr_def fl_instr_def
  fs_instr_def f_cmp_instr_def f_r_instr_def f_r_rm_1_instr_def f_r_fmt_int_instr_def
  f_r_int_fmt_instr_def f_r_rm_2_instr_def f_r_rm_3_instr_def amo_instr_def csr_instr_def
  csri_instr_def cr_instr_def cc_instr_def

lemma width_arms:
  "instr_cacheable_width (parse_arith w) = Uncompressed"
  "instr_cacheable_width (parse_arith_w w) = Uncompressed"
  "instr_cacheable_width (parse_arith_i w) = Uncompressed"
  "instr_cacheable_width (parse_load w) = Uncompressed"
  "instr_cacheable_width (parse_arith_iw w) = Uncompressed"
  "instr_width_of (parse_synch w) = Uncompressed"
  "instr_width_of (parse_sys w) = Uncompressed"
  "instr_cacheable_width (parse_amo w) = Uncompressed"
  "instr_cacheable_width (parse_store w) = Uncompressed"
  "instr_cacheable_width (parse_branch w) = Uncompressed"
  "instr_cacheable_width (parse_upper uj w) = Uncompressed"
  "instr_cacheable_width (parse_fused fs fd w) = Uncompressed"
  "instr_cacheable_width (parse_fp_load w) = Uncompressed"
  "instr_cacheable_width (parse_fp_store w) = Uncompressed"
  "instr_cacheable_width (j_instr w) = Uncompressed"
  "instr_cacheable_width (parse_jalr w) = Uncompressed"
  by (simp_all add: parse_arith_def parse_arith_w_def parse_arith_i_def parse_load_def
      parse_arith_iw_def parse_synch_def parse_sys_def parse_amo_def parse_store_def
      parse_branch_def parse_upper_def parse_fused_def parse_fp_load_def parse_fp_store_def
      parse_jalr_def Let_def width_simps split: xregister_parsed.split option.split)

lemma width_fp: "instr_cacheable_width (parse_fp w) = Uncompressed"
  by (simp add: parse_fp_def parse_fp_s_def parse_fp_d_def Let_def width_simps
      split: option.split)

lemma width_parse_uncompressed: "instr_width_of (parse_uncompressed_instruction w) = Uncompressed"
proof -
  have "instr_cacheable_width (Unknown w) = Uncompressed"
    by (simp add: instr_cacheable_width_def)
  then show ?thesis
    by (simp add: parse_uncompressed_instruction_def Let_def width_arms width_fp)
qed

lemma width_parse_compressed:
  assumes "parse_compressed_instruction w = Some i"
  shows "instr_width_of i = Compressed"
proof -
  have "instr_cacheable_width c = Compressed" if "parse_c0 w = Some c" for c
    using that by (auto simp: parse_c0_def width_simps split: if_splits option.splits)
  moreover have "instr_cacheable_width (parse_c1 w) = Compressed"
    by (simp add: parse_c1_def width_simps split: xregister_parsed.split)
  moreover have "instr_width_of (parse_c2 w) = Compressed"
    by (simp add: parse_c2_def width_simps split: xregister_parsed.split)
  moreover have "instr_cacheable_width (UnknownCompressed w) = Compressed"
    by (simp add: instr_cacheable_width_def)
  ultimately show ?thesis
    using assms unfolding parse_compressed_instruction_eq parse_compressed_instruction_inner_def
    by (auto split: if_splits)
qed

section \<open>Instruction streams\<close>

text \<open>A well-formed instruction of a stream: 16 bits, or 32 bits that end in \<open>11\<close>.\<close>

datatype code = Half u16 | Word32 u32

fun code_wf :: "code \<Rightarrow> bool" where
  "code_wf (Half h) = is_compressed h"
| "code_wf (Word32 w) = (\<not> is_compressed (ucast w))"

fun code_halves :: "code \<Rightarrow> u16 list" where
  "code_halves (Half h) = [h]"
| "code_halves (Word32 w) = [ucast w, ucast (drop_bit 16 w)]"

definition half_bytes :: "u16 \<Rightarrow> u8 list" where
  "half_bytes h = [ucast h, ucast (drop_bit 8 h)]"

definition code_bytes :: "code \<Rightarrow> u8 list" where
  "code_bytes c = concat (map half_bytes (code_halves c))"

fun code_decode :: "code \<Rightarrow> instr option" where
  "code_decode (Half h) = parse_compressed_instruction h"
| "code_decode (Word32 w) = Some (parse_uncompressed_instruction w)"

lemma u16_iter_half_bytes [simp]:
  "u16_iter_from_u8_iter (half_bytes h @ bs) = h # u16_iter_from_u8_iter bs"
proof -
  have "push_bit 8 (ucast (ucast (drop_bit 8 h) :: u8)) OR ucast (ucast h :: u8) = h"
    by (rule bit_word_eqI) (auto simp: bit_simps)
  then show ?thesis by (simp add: half_bytes_def)
qed

lemma u16_iter_halves: "u16_iter_from_u8_iter (concat (map half_bytes hs)) = hs"
  by (induction hs) simp_all

lemma concat_code_bytes:
  "concat (map code_bytes cs) = concat (map half_bytes (concat (map code_halves cs)))"
  by (induction cs) (simp_all add: code_bytes_def)

lemma word_halves: "push_bit 16 (ucast (ucast (drop_bit 16 w) :: u16)) OR ucast (ucast w :: u16) = (w :: u32)"
  by (rule bit_word_eqI) (auto simp: bit_simps)

lemma instr_iter_halves:
  "list_all code_wf cs \<Longrightarrow>
     instr_iter_from_u16_iter (concat (map code_halves cs)) = map code_decode cs"
proof (induction cs)
  case Nil
  then show ?case by simp
next
  case (Cons c cs)
  show ?case
  proof (cases c)
    case (Half h)
    with Cons show ?thesis
      by (cases "concat (map code_halves cs)") (simp_all add: parse_def is_compressed_def)
  next
    case (Word32 w)
    with Cons show ?thesis
      by (simp add: parse_def is_compressed_def word_halves)
  qed
qed

section \<open>Properties\<close>

text \<open>
  C30: the decoder inverts the register formats of the manual. For every mnemonic of the R,
  M and A tables and every choice of registers and ordering bits, the encoded word decodes to
  that instruction with those operands, but for three cases: operations of the R table that target \<^verbatim>\<open>x0\<close>
  become hints, \<^verbatim>\<open>DIVUW\<close> is covered only with a target other than \<^verbatim>\<open>x0\<close>, and \<^verbatim>\<open>LR.W\<close> and \<^verbatim>\<open>LR.D\<close> only with the
  second source field zero, as the manual demands.
\<close>

theorem decode_register_formats:
  "((op, opc, fn3, fn7) \<in> set r_table \<longrightarrow>
     parse_uncompressed_instruction (enc_r fn7 rs2 rs1 fn3 rd opc) =
       unless_x0 (enc_r fn7 rs2 rs1 fn3 rd opc) rd
         (\<lambda>rd. NonZeroRdRTypeArgs op rd (parse_xregister rs1) (parse_xregister rs2))) \<and>
   ((mop, opc, fn3) \<in> set m_table \<and> (mop = Divuw \<longrightarrow> rd \<noteq> 0) \<longrightarrow>
     parse_uncompressed_instruction (enc_r 1 rs2 rs1 fn3 rd opc) =
       Cacheable (RTypeArgs mop (parse_xregister rd) (parse_xregister rs1) (parse_xregister rs2))) \<and>
   ((aop, fn3, fn5) \<in> set amo_table \<and> (aop \<in> {Lrw, Lrd} \<longrightarrow> rs2 = 0) \<longrightarrow>
     parse_uncompressed_instruction
       (enc_r (push_bit 2 (ucast fn5) OR push_bit 1 (of_bool aq) OR of_bool rl) rs2 rs1 fn3 rd 0x2F) =
       Cacheable (AmoArgs aop (parse_xregister rd) (parse_xregister rs1) (parse_xregister rs2) aq rl))"
  by (intro conjI impI; (elim conjE)?; rule decode_r_table decode_m_table decode_amo_table; assumption)

theorem decode_register_formats_witness:
  "parse_uncompressed_instruction (enc_r 0x20 2 1 0 3 0x33) =
     Cacheable (NonZeroRdRTypeArgs Sub nz_x3 x1 x2)"
proof -
  have "(Sub, 0x33, 0, 0x20) \<in> set r_table" by (simp add: r_table_def)
  then have "parse_uncompressed_instruction (enc_r 0x20 2 1 0 3 0x33) =
      unless_x0 (enc_r 0x20 2 1 0 3 0x33) 3
        (\<lambda>rd. NonZeroRdRTypeArgs Sub rd (parse_xregister 1) (parse_xregister 2))"
    using decode_register_formats [of Sub "0x33" 0 "0x20"] by blast
  moreover have "parse_xregister 1 = x1" "parse_xregister 2 = x2" "parse_xregister 3 = x3"
    by (simp_all add: parse_xregister_def transmute_xregister_def all_xregisters_def)
  moreover have "split_x0 x3 = NonZero nz_x3"
    by (simp add: split_x0_def assert_from_def transmute_nz_xregister_def all_nz_xregisters_def)
  ultimately show ?thesis by (simp only: unless_x0_def xregister_parsed.case)
qed

text \<open>
  C31: the decoder inverts the formats with immediates. Loads, \<^verbatim>\<open>JALR\<close>, immediate arithmetic with \<^verbatim>\<open>ADDI\<close>,
  stores, branches, \<^verbatim>\<open>LUI\<close>, \<^verbatim>\<open>AUIPC\<close>, \<^verbatim>\<open>JAL\<close> and shifts by an immediate decode to their operands
  with the sign-extended immediate, in branches and \<^verbatim>\<open>JAL\<close> with bit 0 cleared. Shifts of doublewords have the 6-bit shift
  amount as immediate; shifts of words have the shift amount below the six bits that select the operation. Instructions of the
  immediate arithmetic, the shifts, \<^verbatim>\<open>LUI\<close> and \<^verbatim>\<open>AUIPC\<close> that target \<^verbatim>\<open>x0\<close> become hints, \<^verbatim>\<open>ADDI\<close> only when its source is \<^verbatim>\<open>x0\<close> or its
  immediate zero.
\<close>

theorem decode_immediate_formats:
  "((op, opc, fn3) \<in> set i_table \<longrightarrow>
     parse_uncompressed_instruction (enc_i imm rs1 fn3 rd opc) =
       Cacheable (ITypeArgs op (parse_xregister rd) (parse_xregister rs1) (scast imm))) \<and>
   ((iop, opc, fn3) \<in> set i_nz_table \<longrightarrow>
     parse_uncompressed_instruction (enc_i imm rs1 fn3 rd opc) =
       unless_x0 (enc_i imm rs1 fn3 rd opc) rd
         (\<lambda>rd. NonZeroRdITypeArgs iop rd (parse_xregister rs1) (scast imm))) \<and>
   parse_uncompressed_instruction (enc_i imm rs1 0 rd 0x13) =
     Cacheable (if rd = 0 \<and> (rs1 = 0 \<or> imm = 0) then Hint (enc_i imm rs1 0 rd 0x13)
                else SplitITypeArgs (split_x0 (parse_xregister rd)) (split_x0 (parse_xregister rs1)) (scast imm)) \<and>
   ((sop, fn3) \<in> set s_table \<longrightarrow>
     parse_uncompressed_instruction (enc_s imm rs2 rs1 fn3 0x23) =
       Cacheable (SBTypeArgs sop (parse_xregister rs1) (parse_xregister rs2) (scast imm))) \<and>
   ((bop, fn3) \<in> set b_table \<longrightarrow>
     parse_uncompressed_instruction (enc_b imm13 rs2 rs1 fn3 0x63) =
       Cacheable (SBTypeArgs bop (parse_xregister rs1) (parse_xregister rs2) (scast (imm13 AND NOT 1)))) \<and>
   (opc = 0x37 \<and> uop = Lui \<or> opc = 0x17 \<and> uop = Auipc \<longrightarrow>
     parse_uncompressed_instruction (enc_u imm20 rd opc) =
       unless_x0 (enc_u imm20 rd opc) rd
         (\<lambda>rd. NonZeroRdUJTypeArgs uop rd (scast (push_bit 12 (ucast imm20) :: u32)))) \<and>
   parse_uncompressed_instruction (enc_j imm21 rd 0x6F) =
     Cacheable (UJTypeArgs (parse_xregister rd) (scast (imm21 AND NOT 1))) \<and>
   ((shop, fn3, fn6) \<in> {(Slli, 1, 0), (Srli, 5, 0), (Srai, 5, 0x10)} \<longrightarrow>
     parse_uncompressed_instruction (enc_i (shift_field fn6 shamt) rs1 fn3 rd 0x13) =
       unless_x0 (enc_i (shift_field fn6 shamt) rs1 fn3 rd 0x13) rd
         (\<lambda>rd. NonZeroRdITypeArgs shop rd (parse_xregister rs1) (ucast shamt))) \<and>
   ((wop, fn3, fn6) \<in> {(Slliw, 1, 0), (Srliw, 5, 0), (Sraiw, 5, 0x10)} \<longrightarrow>
     parse_uncompressed_instruction (enc_i (shift_field fn6 shamt) rs1 fn3 rd 0x1B) =
       unless_x0 (enc_i (shift_field fn6 shamt) rs1 fn3 rd 0x1B) rd
         (\<lambda>rd. NonZeroRdITypeArgs wop rd (parse_xregister rs1) (push_bit 6 (ucast fn6) OR ucast shamt)))"
proof (intro conjI impI)
  show "parse_uncompressed_instruction (enc_i (shift_field fn6 shamt) rs1 fn3 rd 0x13) =
       unless_x0 (enc_i (shift_field fn6 shamt) rs1 fn3 rd 0x13) rd
         (\<lambda>rd. NonZeroRdITypeArgs shop rd (parse_xregister rs1) (ucast shamt))"
    if "(shop, fn3, fn6) \<in> {(Slli, 1, 0), (Srli, 5, 0), (Srai, 5, 0x10)}"
    using that by (auto simp: decode_shifts)
  show "parse_uncompressed_instruction (enc_u imm20 rd opc) =
       unless_x0 (enc_u imm20 rd opc) rd
         (\<lambda>rd. NonZeroRdUJTypeArgs uop rd (scast (push_bit 12 (ucast imm20) :: u32)))"
    if "opc = 0x37 \<and> uop = Lui \<or> opc = 0x17 \<and> uop = Auipc"
    using that by (auto simp: decode_u_j)
qed (rule decode_i_table decode_i_nz_table decode_addi decode_s_table decode_b_table decode_u_j decode_word_shift; assumption?)+

theorem decode_immediate_formats_witness:
  "parse_uncompressed_instruction (enc_b (- 4) 2 1 1 0x63) = Cacheable (SBTypeArgs Bne x1 x2 (- 4))"
proof -
  have "(Bne, 1) \<in> set b_table" by (simp add: b_table_def)
  then have "parse_uncompressed_instruction (enc_b (- 4) 2 1 1 0x63) =
      Cacheable (SBTypeArgs Bne (parse_xregister 1) (parse_xregister 2) (scast ((- 4 :: 13 word) AND NOT 1)))"
    using decode_immediate_formats [where bop = Bne and ?fn3.0 = 1] by blast
  moreover have "parse_xregister 1 = x1" "parse_xregister 2 = x2"
    by (simp_all add: parse_xregister_def transmute_xregister_def all_xregisters_def)
  moreover have "(scast ((- 4 :: 13 word) AND NOT 1) :: u64) = - 4"
    by code_simp
  ultimately show ?thesis by simp
qed

text \<open>
  The immediates of the 16-bit formats are assembled exactly as the manual draws them:
  for each format, the instruction bits from high to low hold the immediate bits listed, and
  the signed formats are sign-extended from their top bit.
\<close>

theorem compressed_immediates_layout:
  "clw_imm w = gather [12, 11, 10, 6, 5] [5, 4, 3, 2, 6] w \<and>
   cld_imm w = gather [12, 11, 10, 6, 5] [5, 4, 3, 7, 6] w \<and>
   ci_imm w = signed_take_bit 5 (gather [12, 6, 5, 4, 3, 2] [5, 4, 3, 2, 1, 0] w) \<and>
   cslli_imm w = gather [12, 6, 5, 4, 3, 2] [5, 4, 3, 2, 1, 0] w \<and>
   ci_addi16sp_imm w = signed_take_bit 9 (gather [12, 6, 5, 4, 3, 2] [9, 4, 6, 8, 7, 5] w) \<and>
   ci_lwsp_imm w = gather [12, 6, 5, 4, 3, 2] [5, 4, 3, 2, 7, 6] w \<and>
   ci_ldsp_imm w = gather [12, 6, 5, 4, 3, 2] [5, 4, 3, 8, 7, 6] w \<and>
   css_swsp_imm w = gather [12, 11, 10, 9, 8, 7] [5, 4, 3, 2, 7, 6] w \<and>
   css_sdsp_imm w = gather [12, 11, 10, 9, 8, 7] [5, 4, 3, 8, 7, 6] w \<and>
   ciw_imm w = gather [12, 11, 10, 9, 8, 7, 6, 5] [5, 4, 9, 8, 7, 6, 2, 3] w \<and>
   cb_imm w = signed_take_bit 8 (gather [12, 11, 10, 6, 5, 4, 3, 2] [8, 4, 3, 7, 6, 2, 1, 5] w) \<and>
   cb_shamt_imm w = gather [12, 6, 5, 4, 3, 2] [5, 4, 3, 2, 1, 0] w \<and>
   cb_andi_imm w = signed_take_bit 5 (gather [12, 6, 5, 4, 3, 2] [5, 4, 3, 2, 1, 0] w) \<and>
   cj_imm w = signed_take_bit 11
     (gather [12, 11, 10, 9, 8, 7, 6, 5, 4, 3, 2] [11, 4, 9, 8, 10, 6, 7, 3, 2, 1, 5] w)"
  by (intro conjI clw_imm_layout cld_imm_layout ci_imm_layout cslli_imm_layout
      ci_addi16sp_imm_layout ci_lwsp_imm_layout ci_ldsp_imm_layout css_swsp_imm_layout
      css_sdsp_imm_layout ciw_imm_layout cb_imm_layout cb_shamt_imm_layout cb_andi_imm_layout
      cj_imm_layout)

text \<open>
  C32: decoding is total and consistent with the instruction width. The table of 16-bit
  instructions is built without a panic and holds the result of the decoder for each of the
  65536 entries; an instruction is 2 bytes wide if and only if its first half does not end in
  \<open>11\<close>, and only then are no further bytes requested.
\<close>

theorem parse_total_and_width:
  fixes next_half :: "'e + u16"
  shows "(\<exists>i. parse_compressed_instruction h = Some i \<and>
            parse_compressed_instruction_inner h = Some i) \<and>
         (is_compressed h \<longrightarrow> (\<exists>i. parse h next_half = Inr (Some i) \<and> instr_width_of i = Compressed)) \<and>
         (\<not> is_compressed h \<longrightarrow> parse h (Inl e :: 'e + u16) = Inl e) \<and>
         (\<not> is_compressed h \<longrightarrow>
            (\<exists>i. parse h (Inr u :: 'e + u16) = Inr (Some i) \<and> instr_width_of i = Uncompressed))"
proof -
  obtain i where i: "parse_compressed_instruction h = Some i"
    using parse_inner_defined by (auto simp: parse_compressed_instruction_eq)
  then show ?thesis
    using width_parse_compressed [OF i] width_parse_uncompressed
    by (auto simp: parse_def is_compressed_def Let_def parse_compressed_instruction_eq)
qed

theorem parse_total_and_width_witness:
  "\<exists>i. parse 0x0001 (Inl () :: unit + u16) = Inr (Some i) \<and> instr_width_of i = Compressed"
proof -
  have "is_compressed 0x0001" by (simp add: is_compressed_def)
  then show ?thesis
    using parse_total_and_width [of "0x0001" "Inl ()"] by blast
qed

text \<open>
  C33: a stream of well-formed instructions is recovered from its little-endian bytes: \<^verbatim>\<open>parse_block\<close>
  finds the boundaries of mixed 16-bit and 32-bit instructions and decodes each of them.
\<close>

theorem parse_block_roundtrip:
  assumes "list_all code_wf cs"
  shows "parse_block (concat (map code_bytes cs)) = map code_decode cs"
  using assms by (simp add: parse_block_def concat_code_bytes u16_iter_halves instr_iter_halves)

theorem parse_block_roundtrip_witness:
  "parse_block (concat (map code_bytes [Half 0x0001, Word32 0x00000033, Half 0x8082])) =
     [parse_compressed_instruction 0x0001, Some (parse_uncompressed_instruction 0x33),
      parse_compressed_instruction 0x8082]"
  using parse_block_roundtrip [of "[Half 0x0001, Word32 0x00000033, Half 0x8082]"]
  by (simp add: is_compressed_def)

text \<open>
  Three deviations of the decoder of 32-bit arithmetic from the manual. \<^verbatim>\<open>DIVUW\<close> with target
  \<^verbatim>\<open>x0\<close> is decoded as unknown although \<^verbatim>\<open>DIVW\<close> is not; \<^verbatim>\<open>SLLW\<close> is accepted with every \<^verbatim>\<open>funct7\<close>; and
  \<^verbatim>\<open>SLLIW\<close> is accepted with the reserved sixth bit of the shift amount set.
\<close>

theorem decode_word_arith_deviations:
  "parse_uncompressed_instruction (enc_r 1 rs2 rs1 5 0 0x3B) =
     Cacheable (Unknown (enc_r 1 rs2 rs1 5 0 0x3B)) \<and>
   parse_uncompressed_instruction (enc_r 1 rs2 rs1 4 0 0x3B) =
     Cacheable (RTypeArgs Divw x0 (parse_xregister rs1) (parse_xregister rs2)) \<and>
   parse_uncompressed_instruction (enc_r fn7 rs2 rs1 1 1 0x3B) =
     Cacheable (NonZeroRdRTypeArgs Sllw nz_x1 (parse_xregister rs1) (parse_xregister rs2)) \<and>
   parse_uncompressed_instruction (enc_i (shift_field 0 0x20) rs1 1 1 0x1B) =
     Cacheable (NonZeroRdITypeArgs Slliw nz_x1 (parse_xregister rs1) 0x20)"
proof -
  have "parse_xregister 0 = x0" "parse_xregister 1 = xregister_from nz_x1"
    by (simp_all add: parse_xregister_def xregister_from_def transmute_xregister_def all_xregisters_def)
  then show ?thesis
    by (simp add: parse_select parse_arith_w_def r_instr_def r_instr_nz_def field_defs
        decode_w_shifts unless_x0_def)
qed

end
