(* ===== verification/Instruction_Effects.thy ===== *)
theory Instruction_Effects
  imports Atomics_Correct Parser_Correct
begin

unbundle bit_operations_syntax

text \<open>
  Facts about every instruction that the machine's run loops rely on: the width of the executable
  instruction is the width of the parsed one, the program counter stays even, and memory changes
  only in the range of a store to writable pages.
\<close>

section \<open>Branch and jump offsets are even\<close>

fun even_targets :: "instr_cacheable \<Rightarrow> bool" where
  "even_targets (SBTypeArgs op rs1 rs2 imm) \<longleftrightarrow> op \<in> {Sb, Sh, Sw, Sd} \<or> even imm"
| "even_targets (UJTypeArgs rd imm) \<longleftrightarrow> even imm"
| "even_targets (CJTypeArgs op imm) \<longleftrightarrow> op = CAddi16sp \<or> even imm"
| "even_targets (CIBTypeArgs op rs1 imm) \<longleftrightarrow> op \<notin> {CBeqz, CBnez} \<or> even imm"
| "even_targets _ \<longleftrightarrow> True"

fun even_targets_instr :: "instr \<Rightarrow> bool" where
  "even_targets_instr (Cacheable c) \<longleftrightarrow> even_targets c"
| "even_targets_instr (Uncacheable u) \<longleftrightarrow> True"

lemma even_word_bit: "even (w :: 'a::len word) \<longleftrightarrow> \<not> bit w 0"
  by (simp add: bit_0)

lemma even_b_imm [simp]: "even (b_imm w)"
  by (simp add: even_word_bit b_imm_def Let_def bit_simps)

lemma even_j_imm [simp]: "even (j_imm w)"
  by (simp add: even_word_bit j_imm_def Let_def bit_simps)

lemma even_gather: "0 \<notin> set js \<Longrightarrow> \<not> bit (gather is js w) 0"
  by (auto simp: bit_gather dest: set_zip_rightD)

lemma even_cb_imm [simp]: "even (cb_imm w)" "even (cj_imm w)"
  by (simp_all add: even_word_bit cb_imm_layout cj_imm_layout bit_signed_take_bit_iff even_gather)

lemma even_targets_arms:
  "even_targets (parse_arith w)" "even_targets (parse_arith_w w)" "even_targets (parse_arith_i w)"
  "even_targets (parse_load w)" "even_targets (parse_arith_iw w)" "even_targets_instr (parse_synch w)"
  "even_targets_instr (parse_sys w)" "even_targets (parse_amo w)" "even_targets (parse_store w)"
  "even_targets (parse_branch w)" "even_targets (parse_upper uj w)" "even_targets (parse_fused fs fd w)"
  "even_targets (parse_fp_load w)" "even_targets (parse_fp_store w)" "even_targets (j_instr w)"
  "even_targets (parse_jalr w)"
  by (simp_all add: parse_arith_def parse_arith_w_def parse_arith_i_def parse_load_def
      parse_arith_iw_def parse_synch_def parse_sys_def parse_amo_def parse_store_def
      parse_branch_def parse_upper_def parse_fused_def parse_fp_load_def parse_fp_store_def
      parse_jalr_def Let_def width_simps split: xregister_parsed.split option.split)

lemma even_targets_fp: "even_targets (parse_fp w)"
  by (simp add: parse_fp_def parse_fp_s_def parse_fp_d_def Let_def width_simps split: option.split)

lemma even_targets_uncompressed: "even_targets_instr (parse_uncompressed_instruction w)"
  by (simp add: parse_uncompressed_instruction_def Let_def even_targets_arms even_targets_fp)

lemma even_targets_compressed:
  assumes "parse_compressed_instruction w = Some i"
  shows "even_targets_instr i"
proof -
  have "even_targets c" if "parse_c0 w = Some c" for c
    using that by (auto simp: parse_c0_def width_simps split: if_splits option.splits)
  moreover have "even_targets (parse_c1 w)"
    by (simp add: parse_c1_def width_simps split: xregister_parsed.split)
  moreover have "even_targets_instr (parse_c2 w)"
    by (simp add: parse_c2_def width_simps split: xregister_parsed.split)
  ultimately show ?thesis
    using assms unfolding parse_compressed_instruction_eq parse_compressed_instruction_inner_def
    by (auto split: if_splits)
qed

section \<open>Width and targets of executable instructions\<close>

text \<open>A relative jump or branch to an even offset.\<close>

definition even_offset :: "instruction \<Rightarrow> bool" where
  "even_offset i \<longleftrightarrow>
     (case opcode i of
        BranchType _ \<Rightarrow> even (arg_imm (args i))
      | BranchCompareZero _ \<Rightarrow> even (arg_imm (args i))
      | JumpType op \<Rightarrow> op \<in> {OP_J, OP_Jal} \<longrightarrow> even (arg_imm (args i))
      | _ \<Rightarrow> True)"

definition translated :: "instr_cacheable \<Rightarrow> instruction \<Rightarrow> bool" where
  "translated c i \<longleftrightarrow> instruction_width i = instr_cacheable_width c \<and> (even_targets c \<longrightarrow> even_offset i)"

lemma instruction_simps: "opcode \<lparr>opcode = op, args = a\<rparr> = op" "args \<lparr>opcode = op, args = a\<rparr> = a"
  by simp_all

lemmas translated_defs = translated_def instruction_width_def instr_cacheable_width_def even_offset_def

lemma translated_nz_rd_r: "translated (NonZeroRdRTypeArgs op rd rs1 rs2) (from_nz_rd_r op rd rs1 rs2)"
  by (cases op) (simp_all add: constructor_defs from_ic_defs translated_defs split: xregister_parsed.split)

lemma translated_r: "translated (RTypeArgs op rd rs1 rs2) (from_r op rd rs1 rs2)"
  by (cases op) (simp_all add: constructor_defs from_ic_defs translated_defs split: xregister_parsed.split)

lemma translated_addi: "translated (SplitITypeArgs rd rs1 imm) (from_ic_addi rd rs1 imm)"
  by (simp add: constructor_defs from_ic_defs translated_defs split: xregister_parsed.split)

lemma translated_nz_rd_i: "translated (NonZeroRdITypeArgs op rd rs1 imm) (from_nz_rd_i op rd rs1 imm)"
  by (cases op) (simp_all add: constructor_defs from_ic_defs translated_defs split: xregister_parsed.split)

lemma translated_i: "translated (ITypeArgs op rd rs1 imm) (from_i op rd rs1 imm)"
  by (cases op) (simp_all add: constructor_defs from_ic_defs translated_defs split: xregister_parsed.split)

lemma translated_sb: "translated (SBTypeArgs op rs1 rs2 imm) (from_sb op rs1 rs2 imm)"
  by (cases op) (simp_all add: constructor_defs from_ic_defs translated_defs split: xregister_parsed.split)

lemma translated_jal: "translated (UJTypeArgs rd imm) (from_ic_jal rd imm)"
  by (simp add: constructor_defs from_ic_defs translated_defs split: xregister_parsed.split)

lemma translated_amo: "translated (AmoArgs op rd rs1 rs2 aq rl) (from_amo op rd rs1 rs2 aq rl)"
  by (cases op) (simp_all add: constructor_defs translated_defs amo_instruction_def args_from_amo_def)

lemma translated_cr: "translated (CRTypeArgs op rd rs2) (from_cr op rd rs2)"
  by (cases op) (simp_all add: constructor_defs from_ic_defs translated_defs split: xregister_parsed.split)

lemma translated_cib: "translated (CIBTypeArgs op rd imm) (from_cib op rd imm)"
  by (cases op) (simp_all add: constructor_defs from_ic_defs translated_defs from_cib_def split: xregister_parsed.split)

lemma translated_cib_nz: "translated (CIBNZTypeArgs op rd imm) (from_cib_nz op rd imm)"
  by (cases op) (simp_all add: constructor_defs from_ic_defs translated_defs split: xregister_parsed.split)

lemmas args_from_defs = args_from_f_to_x_def args_from_x_to_f_def args_from_x_to_f_rm_def args_from_f_to_x_rm_def
  args_from_fcmp_def args_from_fr_def args_from_fr1_def args_from_fr2_def args_from_fr3_def args_from_fstore_def
  args_from_fload_def args_from_csr_def args_from_csri_def args_from_cibd_def args_from_cssd_def ARGS_DEFAULT_def

lemma translated_instruction_from: "translated c (instruction_from c)"
  by (cases c)
     (simp_all only: instruction_from_def instr_cacheable.case translated_nz_rd_r translated_r translated_addi
       translated_nz_rd_i translated_i translated_sb translated_jal translated_amo translated_cr translated_cib translated_cib_nz,
      simp_all add: constructor_defs translated_defs float_instruction_def args_from_defs
       split: nz_rd_uj_op.split nz_i_op.split nz_sb_op.split cnzr_op.split crj_op.split cj_op.split css_op.split)

section \<open>The next program counter\<close>

definition update_ok :: "instruction \<Rightarrow> machine_core \<Rightarrow> run_result \<Rightarrow> bool" where
  "update_ok i mc r \<longleftrightarrow>
     (case fst r of
        Ok (Next w) \<Rightarrow> w = instruction_width i
      | Ok (Set t) \<Rightarrow> even_offset i \<and> even (pc (hart mc)) \<longrightarrow> even t
      | _ \<Rightarrow> True)"

lemma fst_icb_map: "fst (icb_map r f) = (case fst r of Ok v \<Rightarrow> Ok (f v) | Err e \<Rightarrow> Err e | Stuck \<Rightarrow> Stuck)"
  by (cases r; cases "fst r") (auto simp: icb_map_def and_then_def)

lemma even_and_not_1: "even (w AND - 2 :: u64)"
proof -
  have "(- 2 :: u64) = NOT 1" by simp
  then show ?thesis by (simp only: even_word_bit bit_simps) simp
qed

lemma update_ok_jump:
  "opcode i = JumpType op \<Longrightarrow> update_ok i mc (run_op_jump op (args i) mc)"
  by (cases op) (auto simp: update_ok_def even_offset_def jump_defs Let_def even_and_not_1 split: option.split)

lemma update_ok_branch:
  "opcode i = BranchType op \<Longrightarrow> update_ok i mc (impl_branch p (args i) mc)"
  "opcode i = BranchCompareZero oz \<Longrightarrow> update_ok i mc (impl_branch_compare_zero p (args i) mc)"
  by (auto simp: update_ok_def even_offset_def instruction_width_def impl_branch_def impl_branch_compare_zero_def jump_defs Let_def split: option.split)

lemma update_ok_next:
  "update_ok i mc (impl_r_type_non_zero op1 (args i) mc)" "update_ok i mc (impl_r_type_non_zero_rd op2 (args i) mc)"
  "update_ok i mc (impl_i_type_non_zero op3 (args i) mc)" "update_ok i mc (impl_i_type_non_zero_rd op4 (args i) mc)"
  "update_ok i mc (impl_load_type op5 (args i) mc)" "update_ok i mc (impl_store_type op6 (args i) mc)"
  "update_ok i mc (impl_amo_type op7 (args i) mc)" "update_ok i mc (impl_cr_nz_type op8 (args i) mc)"
  "update_ok i mc (impl_ci_type op9 (args i) mc)" "update_ok i mc (impl_csr_type op10 (args i) mc)"
  "update_ok i mc (impl_csr_imm_type op11 (args i) mc)" "update_ok i mc (impl_fload_type op12 (args i) mc)"
  "update_ok i mc (impl_fstore_type op13 (args i) mc)" "update_ok i mc (impl_cfload_sp_type op14 (args i) mc)"
  "update_ok i mc (impl_fcss_type op15 (args i) mc)" "update_ok i mc (impl_f_x_type op16 (args i) mc)"
  "update_ok i mc (impl_x_f_type op17 (args i) mc)" "update_ok i mc (icb_map r (\<lambda>_. Next (arg_width (args i))))"
  by (simp_all add: update_ok_def instruction_width_def impl_defs fst_icb_map split: option.split outcome.split)

lemma update_ok_float: "update_ok i mc (run_op_float apf op (args i) mc)"
  by (simp add: run_op_float_def update_ok_next split: op_float.split f_load_op.split f_store_op.split f_to_x_op.split x_to_f_op.split)

lemma run_instruction_update: "update_ok i mc (run_instruction apf i mc)"
proof (cases "opcode i")
  case (JumpType op)
  then show ?thesis using update_ok_jump by (simp add: run_instruction_def to_run_def)
next
  case (BranchType op)
  then show ?thesis using update_ok_branch(1) by (simp add: run_instruction_def to_run_def)
next
  case (BranchCompareZero op)
  then show ?thesis using update_ok_branch(2) by (simp add: run_instruction_def to_run_def)
next
  case OP_Nop
  then show ?thesis by (simp add: run_instruction_def to_run_def update_ok_def instruction_width_def)
next
  case OP_ECall
  then show ?thesis by (simp add: run_instruction_def to_run_def update_ok_def)
next
  case OP_Unknown
  then show ?thesis by (simp add: run_instruction_def to_run_def update_ok_def)
qed (simp_all add: run_instruction_def to_run_def update_ok_next update_ok_float)

section \<open>What an instruction does to memory\<close>

definition stored :: "memory \<Rightarrow> memory \<Rightarrow> bool" where
  "stored m m' \<longleftrightarrow>
     m' = m \<or> (\<exists>a bs. m' = overwrite m (unat a) bs \<and> write_ok (length bs) m a)"

lemma stored_refl [simp]: "stored m m"
  by (simp add: stored_def)

lemma stored_write:
  assumes "memory_inv m" and "main_memory mc = m" and "elem_type TYPE('v::len)"
  shows "stored m (main_memory (snd (write_to_address mc a (v :: 'v word))))"
    and "stored m (main_memory (snd (main_memory_store TYPE('v) mc a x)))"
proof -
  have "mem_write m a u = Inr m' \<Longrightarrow> stored m m'" for u :: "'v word" and m'
    using mem_write_eq [OF assms(1,3), of a u]
    by (auto simp: stored_def write_ok_def split: if_splits intro!: exI [of _ a] exI [of _ "to_le_bytes u"])
  with assms(2) show "stored m (main_memory (snd (write_to_address mc a v)))"
      "stored m (main_memory (snd (main_memory_store TYPE('v) mc a x)))"
    by (auto simp: write_to_address_def main_memory_store_def split: sum.split memory_error.split)
qed

lemma stored_and_then:
  assumes "main_memory (snd r) = m" and "\<And>v mc. main_memory mc = m \<Longrightarrow> stored m (main_memory (snd (f v mc)))"
  shows "stored m (main_memory (snd (and_then r f)))"
  using assms by (cases r; cases "fst r") (auto simp: and_then_def)

lemma main_memory_writes [simp]:
  "main_memory (xregister_write_nz mc rd v) = main_memory mc" "main_memory (fregister_write mc fd w) = main_memory mc"
  "main_memory (reset_reservation_set mc) = main_memory mc"
  by (simp_all add: xregister_write_nz_def fregister_write_def reset_reservation_set_def)

lemma main_memory_load_memory [simp]: "main_memory (snd (main_memory_load ext mc a)) = main_memory mc"
  by (auto simp: main_memory_load_def split: sum.split memory_error.split)

lemma guard_memory [simp]: "main_memory (snd (atomic_access_fault_guard ty mc a opt)) = main_memory mc"
  by (simp add: atomic_access_fault_guard_def Let_def split: option.split reservation_set_option.split)

lemma main_memory_and_then:
  assumes "main_memory (snd r) = m" and "\<And>v mc. main_memory mc = m \<Longrightarrow> main_memory (snd (f v mc)) = m"
  shows "main_memory (snd (and_then r f)) = m"
  using assms by (cases r; cases "fst r") (auto simp: and_then_def)

lemma main_memory_ops:
  "main_memory (run_op_r_nz op1 mc s1 s2 d) = main_memory mc"
  "run_op_r_nz_rd op2 mc t1 t2 d = Some mc' \<Longrightarrow> main_memory mc' = main_memory mc"
  "main_memory (run_op_i_nz op3 mc imm s1 d) = main_memory mc"
  "main_memory (run_op_i_nz_rd op4 mc imm t1 d) = main_memory mc"
  "main_memory (run_op_cr_nz op5 mc d s1) = main_memory mc"
  "main_memory (run_li mc imm d) = main_memory mc"
  "main_memory (run_add_immediate_to_pc mc imm d) = main_memory mc"
  subgoal by (cases op1) (simp_all add: integer_defs Let_def)
  subgoal by (cases op2) (auto simp: integer_defs total3_def Let_def split: if_splits option.splits)
  subgoal by (cases op3) (simp_all add: integer_defs Let_def)
  subgoal by (cases op4) (simp_all add: integer_defs Let_def)
  subgoal by (cases op5) (simp_all add: integer_defs Let_def)
  by (simp_all add: run_li_def run_add_immediate_to_pc_def Let_def)

lemma main_memory_load_op: "main_memory (snd (run_op_load op mc imm s d)) = main_memory mc"
  by (cases op) (auto simp: run_load_def Let_def intro!: main_memory_and_then)

lemma stored_store_op: "memory_inv (main_memory mc) \<Longrightarrow> stored (main_memory mc) (main_memory (snd (run_op_store op mc imm s d)))"
  by (cases op) (auto simp: run_store_def Let_def intro!: stored_write)

lemma stored_amo:
  assumes "memory_inv (main_memory mc)"
  shows "stored (main_memory mc) (main_memory (snd (run_op_amo op mc s1 s2 d)))"
proof -
  let ?m = "main_memory mc"
  have w: "elem_type TYPE('t::len) \<Longrightarrow> stored ?m (main_memory (snd (run_amo mc s1 s2 d (f :: 't word \<Rightarrow> _) to from)))" for f to "from"
    using assms by (auto simp: run_amo_def Let_def intro!: stored_write split: outcome.split)
  have x: "stored ?m (main_memory (snd (run_x64_atomic mc s1 s2 d f)))" for f
    using assms by (auto simp: run_x64_atomic_def Let_def intro!: stored_and_then main_memory_and_then stored_write)
  have l: "main_memory (snd (run_atomic_load (ext :: 't::len word \<Rightarrow> _) mc s1 d)) = ?m" for ext
    by (auto simp: run_atomic_load_def Let_def intro!: main_memory_and_then)
  have s: "elem_type TYPE('t::len) \<Longrightarrow> stored ?m (main_memory (snd (run_atomic_store TYPE('t) mc s1 s2 d)))"
    using assms by (auto simp: run_atomic_store_def Let_def test_and_unset_reservation_set_def intro!: stored_and_then stored_write)
  have p: "elem_type TYPE('t::len) \<Longrightarrow> stored ?m (main_memory (snd (run_atomic_swap (ext :: 't word \<Rightarrow> _) mc s1 s2 d)))" for ext
    using assms by (auto simp: run_atomic_swap_def Let_def intro!: stored_and_then main_memory_and_then stored_write)
  show ?thesis
    by (cases op) (simp_all add: run_amo_w_def run_amo_d_def run_x64_atomic_add_def run_x64_atomic_min_signed_def w x l s p)
qed

lemma stored_bus:
  assumes "memory_inv (main_memory mc)" and "elem_type TYPE('v::len)"
  shows "stored (main_memory mc) (main_memory (snd (write_to_bus mc imm rs1 (v :: 'v word))))"
  using assms by (simp add: write_to_bus_def Let_def stored_write)

lemma main_memory_fload:
  "main_memory (snd (run_flw mc imm rs1 rd)) = main_memory mc" "main_memory (snd (run_fld mc imm rs1 rd)) = main_memory mc"
  by (auto simp: run_flw_def run_fld_def split: outcome.splits)

lemma main_memory_fmv:
  "main_memory (run_fmv_x_w mc fs rd) = main_memory mc" "main_memory (run_fmv_x_d mc fs rd) = main_memory mc"
  "main_memory (run_fmv_w_x mc rs fd) = main_memory mc" "main_memory (run_fmv_d_x mc rs fd) = main_memory mc"
  by (simp_all add: run_fmv_x_w_def run_fmv_x_d_def run_fmv_w_x_def run_fmv_d_x_def)

lemma stored_float:
  assumes "memory_inv (main_memory mc)"
  shows "stored (main_memory mc) (main_memory (snd (run_op_float apf op a mc)))"
  using assms
  by (auto simp: run_op_float_def impl_defs on_hart_def main_memory_fload main_memory_fmv run_fsw_def run_fsd_def
      run_cfldsp_def run_cfsdsp_def stored_bus
      split: op_float.split f_load_op.split f_store_op.split f_to_x_op.split x_to_f_op.split option.split prod.split)

lemma run_instruction_stored:
  assumes "memory_inv (main_memory mc)"
  shows "stored (main_memory mc) (main_memory (snd (run_instruction apf i mc)))"
proof -
  have j: "main_memory (snd (run_op_jump op a mc)) = main_memory mc" for op a
    by (cases op) (auto simp: jump_defs Let_def split: option.split)
  show ?thesis
    using assms main_memory_ops(2)
    by (cases "opcode i")
       (auto simp: run_instruction_def to_run_def impl_defs main_memory_ops main_memory_load_op stored_store_op stored_amo
         stored_float j on_hart_def run_nop_def split: option.split prod.split)
qed

end
