(* ===== verification/Machine_Refine.thy ===== *)
theory Machine_Refine
  imports Machine_Steps Block_Cache_Correct Instruction_Effects
begin

unbundle bit_operations_syntax

text \<open>
  The machine with its block cache refines a machine that fetches, decodes and runs one
  instruction at a time and has no cache. Blocks are coherent with memory because only
  instructions on pages that cannot be written are cached and the program counter stays even.
\<close>

section \<open>The machine without a cache\<close>

definition fetch_half :: "memory \<Rightarrow> address \<Rightarrow> u16 instruction_data outcome" where
  "fetch_half m a =
     (case mem_read_exec m a of
        Inr d \<Rightarrow> Ok d
      | Inl BadMemoryAccess \<Rightarrow> Err (InstructionAccessFault a)
      | Inl _ \<Rightarrow> Stuck)"

text \<open>The instruction at an address, and whether it may be overwritten.\<close>

definition decode_at :: "memory \<Rightarrow> address \<Rightarrow> (instr \<times> bool) outcome" where
  "decode_at m a =
     (case fetch_half m a of
        Stuck \<Rightarrow> Stuck
      | Err e \<Rightarrow> Err e
      | Ok lower \<Rightarrow>
          if is_compressed (instr_data lower)
          then (case parse_compressed_instruction (instr_data lower) of
                  None \<Rightarrow> Stuck | Some i \<Rightarrow> Ok (i, writable lower))
          else (case fetch_half m (a + 2) of
                  Stuck \<Rightarrow> Stuck
                | Err e \<Rightarrow> Err e
                | Ok upper \<Rightarrow>
                    Ok (parse_uncompressed_instruction (instr_data (combine_with_upper lower upper)),
                        writable (combine_with_upper lower upper))))"

fun plain_instr :: "apfloat_ops \<Rightarrow> instr \<Rightarrow> machine_core \<Rightarrow> run_result" where
  "plain_instr apf (Cacheable c) mc = run_instruction apf (instruction_from c) mc"
| "plain_instr apf (Uncacheable (Fence pred succ)) mc = (Ok (Next Uncompressed), mc)"
| "plain_instr apf (Uncacheable FenceI) mc = (Ok (Next Uncompressed), mc)"
| "plain_instr apf (Uncacheable (FenceTso pred succ)) mc = (Err IllegalInstruction, mc)"
| "plain_instr apf (Uncacheable Ebreak) mc = (Err Breakpoint, mc)"
| "plain_instr apf (Uncacheable CEbreak) mc = (Err Breakpoint, mc)"

definition plain_step :: "apfloat_ops \<Rightarrow> machine_core \<Rightarrow> (environ_exception step_many_result \<times> machine_core) option" where
  "plain_step apf mc =
     (let a = pc (hart mc);
          (res, mc') = (case decode_at (main_memory mc) a of
                          Ok (i, _) \<Rightarrow> plain_instr apf i mc
                        | Err e \<Rightarrow> (Err e, mc)
                        | Stuck \<Rightarrow> (Stuck, mc))
      in case handle_step_result mc' a res of
           None \<Rightarrow> None
         | Some (Inl e, mc'') \<Rightarrow> Some (\<lparr>steps = 0, error = Some e\<rparr>, mc'')
         | Some (Inr _, mc'') \<Rightarrow> Some (\<lparr>steps = 1, error = None\<rparr>, mc''))"

fun plain_steps :: "apfloat_ops \<Rightarrow> nat \<Rightarrow> machine_core \<Rightarrow> (environ_exception step_many_result \<times> machine_core) option" where
  "plain_steps apf 0 mc = Some (result_zero, mc)"
| "plain_steps apf (Suc n) mc =
     (case plain_step apf mc of
        None \<Rightarrow> None
      | Some (r, mc') \<Rightarrow>
          if error r \<noteq> None then Some (r, mc')
          else map_option (apfst (add_steps (steps r))) (plain_steps apf n mc'))"

section \<open>Code that cannot be overwritten\<close>

lemma even_unat [simp]: "even (unat (a :: u64)) \<longleftrightarrow> even a"
proof -
  have "bit (unat a) 0 \<longleftrightarrow> bit a 0" by (simp only: bit_unsigned_iff) simp
  then show ?thesis by (simp only: bit_0) simp
qed

lemma same_page: "even (a :: nat) \<Longrightarrow> k < 2 \<Longrightarrow> (a + k) div PAGE_SIZE = a div PAGE_SIZE"
  by (auto simp: PAGE_SIZE_def OFFSET_BITS_def elim!: evenE)

lemma fetch_half_eq:
  assumes "memory_inv m"
  shows "fetch_half m a =
    (if in_memory m a 2 \<and> range_allowed (executable_pages m) a 2
     then Ok \<lparr>instr_data = from_le_bytes (bytes_of m a 2), writable = range_allowed (writable_pages m) a 2\<rparr>
     else Err (InstructionAccessFault a))"
  using mem_read_exec_eq [OF assms, where 'a = 16, of a] by (simp add: fetch_half_def)

lemma fetch_half_stored:
  assumes inv: "memory_inv m" and ev: "even a" and st: "stored m m'"
    and d: "fetch_half m a = Ok d" and w: "\<not> writable d"
  shows "fetch_half m' a = Ok d"
  using st unfolding stored_def
proof
  assume "\<exists>b bs. m' = overwrite m (unat b) bs \<and> write_ok (length bs) m b"
  then obtain b bs where m': "m' = overwrite m (unat b) bs" and ok: "write_ok (length bs) m b" by blast
  from d w inv have "\<not> range_allowed (writable_pages m) a 2" and rng: "in_memory m a 2 \<and> range_allowed (executable_pages m) a 2"
    by (auto simp: fetch_half_eq split: if_splits)
  with same_page [of "unat a"] ev have nw: "\<not> writable_pages m ! ((unat a + k) div PAGE_SIZE)" if "k < 2" for k
    using that by (auto simp: range_allowed_def)
  have "\<not> (unat b \<le> unat a + k \<and> unat a + k < unat b + length bs)" if "k < 2" for k
  proof
    assume k: "unat b \<le> unat a + k \<and> unat a + k < unat b + length bs"
    then have "unat a + k - unat b < length bs" "unat b + (unat a + k - unat b) = unat a + k" by auto
    with ok have "writable_pages m ! ((unat a + k) div PAGE_SIZE)" unfolding write_ok_def range_allowed_def by metis
    with nw that show False by blast
  qed
  then have "bytes_of m' a 2 = bytes_of m a 2" by (simp add: m' bytes_of_def data_overwrite_outside)
  with d inv rng show ?thesis by (simp add: fetch_half_eq m')
qed (use d in simp)

lemma decode_at_stored:
  assumes "memory_inv m" and "even a" and "stored m m'" and "decode_at m a = Ok (i, False)"
  shows "decode_at m' a = Ok (i, False)"
proof -
  have half: "fetch_half m b = Ok d \<Longrightarrow> \<not> writable d \<Longrightarrow> even b \<Longrightarrow> fetch_half m' b = Ok d" for b d
    using fetch_half_stored [OF assms(1) _ assms(3)] by blast
  show ?thesis using assms(2,4) half [of a] half [of "a + 2"]
    by (auto simp: decode_at_def combine_with_upper_def split: outcome.splits if_splits option.splits)
qed

lemma stored_inv: "stored m m' \<Longrightarrow> memory_inv m \<Longrightarrow> memory_inv m'"
  by (auto simp: stored_def)

lemma decode_at_targets: "decode_at m a = Ok (i, w) \<Longrightarrow> even_targets_instr i"
  by (auto simp: decode_at_def even_targets_uncompressed even_targets_compressed split: outcome.splits if_splits option.splits)

definition code_at :: "memory \<Rightarrow> address \<Rightarrow> instruction \<Rightarrow> bool" where
  "code_at m a i \<longleftrightarrow> even a \<and> (\<exists>c. decode_at m a = Ok (Cacheable c, False) \<and> i = instruction_from c)"

lemma code_at_stored: "memory_inv m \<Longrightarrow> stored m m' \<Longrightarrow> code_at m a i \<Longrightarrow> code_at m' a i"
  by (auto simp: code_at_def dest: decode_at_stored)

lemma decoded_even_offset: "decode_at m a = Ok (Cacheable c, w) \<Longrightarrow> even_offset (instruction_from c)"
  using translated_instruction_from [of c] decode_at_targets [of m a "Cacheable c" w] by (simp add: translated_def)

section \<open>One instruction\<close>

text \<open>What an instruction and the update of the program counter after it keep.\<close>

lemma handle_step_result_effect:
  assumes "handle_step_result mc a res = Some (r, mc')"
  shows "main_memory mc' = main_memory mc" and "pc (hart mc') = (case res of Ok (Next w) \<Rightarrow> a + width_bytes w
      | Ok (Set t) \<Rightarrow> t | Err e \<Rightarrow> if e = EnvCall then a else 0 | Stuck \<Rightarrow> a)"
  using assms
  by (auto simp: handle_step_result_def address_on_exception_def write_pc_def Let_def
      split: outcome.splits option.splits pc_update.splits elim: environ_exception_try_from.elims)

lemma handle_step_result_Stuck [simp]: "handle_step_result mc a Stuck = None"
  by (simp add: handle_step_result_def)

lemma even_width [simp]: "even (width_bytes w)"
  by (cases w) simp_all

lemma plain_instr_effect:
  assumes "memory_inv (main_memory mc)" and "even (pc (hart mc))" and "even_targets_instr i"
    and "plain_instr apf i mc = (res, mc')"
  shows "stored (main_memory mc) (main_memory mc')" and "\<And>t. res = Ok (Set t) \<Longrightarrow> even t"
proof -
  show "stored (main_memory mc) (main_memory mc')"
    using assms(1,4) run_instruction_stored [OF assms(1), of apf]
    by (cases "(apf, i, mc)" rule: plain_instr.cases) (auto, metis snd_conv)
  show "even t" if "res = Ok (Set t)" for t
  proof (cases i)
    case (Cacheable c)
    with assms(3) translated_instruction_from [of c] have "even_offset (instruction_from c)" by (simp add: translated_def)
    with run_instruction_update [of "instruction_from c" mc apf] assms(2,4) that Cacheable show ?thesis
      by (simp add: update_ok_def)
  next
    case (Uncacheable u)
    with assms(4) that show ?thesis by (cases u) auto
  qed
qed

definition step_result ::
    "((environ_exception + address) \<times> machine_core) option \<Rightarrow> (environ_exception step_many_result \<times> machine_core) option" where
  "step_result x =
     (case x of
        None \<Rightarrow> None
      | Some (Inl e, mc) \<Rightarrow> Some (\<lparr>steps = 0, error = Some e\<rparr>, mc)
      | Some (Inr _, mc) \<Rightarrow> Some (\<lparr>steps = 1, error = None\<rparr>, mc))"

lemma plain_step_decoded:
  assumes "decode_at (main_memory mc) (pc (hart mc)) = Ok (i, w)" and "plain_instr apf i mc = (res, mc')"
  shows "plain_step apf mc = step_result (handle_step_result mc' (pc (hart mc)) res)"
  using assms by (simp add: plain_step_def step_result_def)

lemma plain_step_keeps:
  assumes inv: "memory_inv (main_memory mc)" and ev: "even (pc (hart mc))" and run: "plain_step apf mc = Some (r, mc')"
  shows "stored (main_memory mc) (main_memory mc')" and "even (pc (hart mc'))"
proof -
  obtain res mc1 where d: "(case decode_at (main_memory mc) (pc (hart mc)) of
      Ok (i, _) \<Rightarrow> plain_instr apf i mc | Err e \<Rightarrow> (Err e, mc) | Stuck \<Rightarrow> (Stuck, mc)) = (res, mc1)" by fastforce
  with run obtain x where h: "handle_step_result mc1 (pc (hart mc)) res = Some (x, mc')"
    by (auto simp: plain_step_def split: option.splits sum.splits)
  have src: "mc1 = mc \<and> (\<exists>e. res = Err e) \<or>
      (\<exists>i w. decode_at (main_memory mc) (pc (hart mc)) = Ok (i, w) \<and> plain_instr apf i mc = (res, mc1))"
    using d h by (auto split: outcome.splits)
  have "stored (main_memory mc) (main_memory mc1)" and t: "\<And>t. res = Ok (Set t) \<Longrightarrow> even t"
    using src plain_instr_effect [OF inv ev decode_at_targets] by auto
  with handle_step_result_effect [OF h] show "stored (main_memory mc) (main_memory mc')" by simp
  show "even (pc (hart mc'))"
    using handle_step_result_effect(2) [OF h] ev t by (auto split: outcome.splits pc_update.splits if_splits)
qed

section \<open>Invariant of the machine\<close>

text \<open>The rest of a partial block lies at the program counter.\<close>

definition pending :: "machine_state \<Rightarrow> bool" where
  "pending s \<longleftrightarrow>
     (let p = partial_block (block_cache s) in
      in_progress p \<longrightarrow>
        (\<forall>(x, j) \<in> set (placed (pc (hart (core s))) (drop (progress p) (instrs (entry_at (block_cache s) (partial_addr p))))).
           code_at (main_memory (core s)) x j))"

definition machine_inv :: "machine_state \<Rightarrow> bool" where
  "machine_inv s \<longleftrightarrow>
     cache_inv (block_cache s) \<and> partial_wf (block_cache s) \<and> memory_inv (main_memory (core s)) \<and>
     even (pc (hart (core s))) \<and> coherent lookup_block (code_at (main_memory (core s))) (block_cache s) \<and> pending s"

lemma cache_partial [simp]:
  "entry_at (c\<lparr>partial_block := p\<rparr>) = entry_at c" "get_block (c\<lparr>partial_block := p\<rparr>) = get_block c"
  "cache_inv (c\<lparr>partial_block := p\<rparr>) = cache_inv c" "lookup_block (c\<lparr>partial_block := p\<rparr>) = lookup_block c"
  by (simp_all add: entry_at_def get_block_def cache_inv_def store_inv_def building_def lookup_block_def fun_eq_iff)

lemma coherent_partial [simp]: "coherent lookup_block P (c\<lparr>partial_block := p\<rparr>) = coherent lookup_block P c"
  by (simp add: coherent_def)

lemma coherent_stored:
  "memory_inv m \<Longrightarrow> stored m m' \<Longrightarrow> coherent lookup_block (code_at m) c \<Longrightarrow> coherent lookup_block (code_at m') c"
  by (erule coherent_mono) (rule code_at_stored)

lemma partial_one:
  "run_partial_loop apf 1 (i # is) mc a 0 p =
     (case run_instruction apf i mc of (res, mc') \<Rightarrow>
        map_option (\<lambda>(r, mc''). (r, mc'', case res of Ok (Next w) \<Rightarrow> Some (p + 1) | _ \<Rightarrow> None))
          (step_result (handle_step_result mc' a res)))"
  by (auto simp: step_result_def handle_step_result_def Let_def split: prod.splits outcome.splits pc_update.splits option.splits sum.splits)

text \<open>One step of a partial block runs the next instruction of the block.\<close>

lemma partial_step_eq:
  assumes prog: "in_progress (partial_block (block_cache s))"
    and e: "e = entry_at (block_cache s) (partial_addr (partial_block (block_cache s)))" and ok: "cells_ok e"
    and d: "drop (progress (partial_block (block_cache s))) (instrs e) = i # is"
    and run: "run_instruction apf i (core s) = (res, mc1)"
  shows "step_max_inner apf 1 s =
     map_option (\<lambda>(r, mc). (r, after_partial s e mc
         (case res of Ok (Next w) \<Rightarrow> Some (progress (partial_block (block_cache s)) + 1) | _ \<Rightarrow> None)))
       (step_result (handle_step_result mc1 (pc (hart (core s))) res))"
proof -
  let ?p = "progress (partial_block (block_cache s))" and ?h = "step_result (handle_step_result mc1 (pc (hart (core s))) res)"
  define q where "q = (case res of Ok (Next w) \<Rightarrow> Some (?p + 1) | _ \<Rightarrow> None)"
  have "?p \<le> length (instrs e)" using d by (metis drop_all list.distinct(1) nat_le_linear)
  moreover have "run_partial_loop apf 1 (drop ?p (instrs e)) (core s) (pc (hart (core s))) 0 ?p =
      map_option (\<lambda>(r, mc). (r, mc, q)) ?h"
    unfolding d partial_one run by (simp add: q_def)
  moreover have "steps r1 = 1" if "?h = Some (r1, mc)" "error r1 = None" for r1 mc
    using that by (auto simp: step_result_def split: option.splits sum.splits)
  ultimately show ?thesis
    using step_max_inner_partial [OF prog zero_less_one e block_instr_instrs [OF ok], of apf]
    by (cases ?h) (auto simp: q_def)
qed

lemma partial_step:
  assumes inv: "machine_inv s" and prog: "in_progress (partial_block (block_cache s))"
  shows "map_option (apsnd core) (step_max_inner apf 1 s) = plain_step apf (core s)"
    and "step_max_inner apf 1 s = Some (r, s') \<Longrightarrow> machine_inv s'"
proof -
  let ?c = "block_cache s" and ?m = "main_memory (core s)" and ?a = "pc (hart (core s))"
  let ?p = "partial_block ?c" and ?e = "entry_at ?c (partial_addr (partial_block ?c))"
  have ok: "cells_ok ?e" using inv store_inv_entry by (auto simp: machine_inv_def cache_inv_def entry_ok_def)
  have "progress ?p < length (instrs ?e)"
    using inv prog by (simp add: machine_inv_def partial_wf_def Let_def length_instrs [OF ok] block_num_instr_def)
  then obtain i "is" where d: "drop (progress ?p) (instrs ?e) = i # is" by (metis Cons_nth_drop_Suc)
  then have rest: "drop (Suc (progress ?p)) (instrs ?e) = is" by (metis drop_Suc drop_tl list.sel(3) tl_drop)
  have pend: "code_at ?m ?a i" "\<And>x j. (x, j) \<in> set (placed (?a + iwidth i) is) \<Longrightarrow> code_at ?m x j"
    using inv prog d by (auto simp: machine_inv_def pending_def Let_def)
  then obtain ci where ci: "decode_at ?m ?a = Ok (Cacheable ci, False)" "i = instruction_from ci" by (auto simp: code_at_def)
  obtain res mc1 where run: "run_instruction apf i (core s) = (res, mc1)" by fastforce
  define q where "q = (case res of Ok (Next w) \<Rightarrow> Some (progress ?p + 1) | _ \<Rightarrow> None)"
  have plain: "plain_step apf (core s) = step_result (handle_step_result mc1 ?a res)"
    using plain_step_decoded [OF ci(1), of apf res mc1] run ci(2) by simp
  have eq: "step_max_inner apf 1 s = map_option (\<lambda>(r, mc). (r, after_partial s ?e mc q)) (plain_step apf (core s))"
    unfolding plain q_def using prog refl ok d run by (rule partial_step_eq)
  show "map_option (apsnd core) (step_max_inner apf 1 s) = plain_step apf (core s)"
    unfolding eq by (cases "plain_step apf (core s)") auto
  assume step: "step_max_inner apf 1 s = Some (r, s')"
  with eq obtain mc where mc: "plain_step apf (core s) = Some (r, mc)" and s': "s' = after_partial s ?e mc q" by auto
  note keeps = plain_step_keeps [OF _ _ mc]
  have "pending s'"
  proof (cases "in_progress (partial_block (block_cache s'))")
    case True
    then obtain w where w: "res = Ok (Next w)" and p': "partial_block (block_cache s') = ?p\<lparr>progress := progress ?p + 1\<rparr>"
      by (auto simp: s' after_partial_def q_def split: outcome.splits pc_update.splits if_splits)
    have "w = instruction_width i" using run_instruction_update [of i "core s" apf] run w by (simp add: update_ok_def)
    then have "pc (hart mc) = ?a + iwidth i"
      using mc plain w by (auto simp: handle_step_result_def step_result_def write_pc_def Let_def)
    then have "code_at (main_memory mc) x j" if "(x, j) \<in> set (placed (pc (hart mc)) is)" for x j
      using that pend(2) keeps(1) code_at_stored inv by (auto simp: machine_inv_def)
    then show ?thesis
      using rest by (auto simp: pending_def p') (auto simp: s')
  qed (simp add: pending_def)
  moreover have "partial_wf (block_cache s')" using inv step partial_wf_step by (auto simp: machine_inv_def)
  ultimately show "machine_inv s'"
    using inv keeps coherent_stored stored_inv by (auto simp: machine_inv_def s' after_partial_def)
qed

section \<open>An instruction that is not cached\<close>

lemma fetch_instr_decode:
  assumes inv: "cache_inv (block_cache s)" and ev: "even a"
    and coh: "coherent lookup_block (code_at (main_memory (core s))) (block_cache s)"
  shows "case decode_at (main_memory (core s)) a of
      Ok (i, w) \<Rightarrow> \<exists>c. fetch_instr s a = (Ok i, s\<lparr>block_cache := c\<rparr>) \<and> cache_inv c \<and>
        coherent lookup_block (code_at (main_memory (core s))) c \<and> partial_block c = partial_block (block_cache s)
    | Err e \<Rightarrow> fetch_instr s a = (Err e, s)
    | Stuck \<Rightarrow> fetch_instr s a = (Stuck, s)"
proof -
  let ?m = "main_memory (core s)" and ?c = "block_cache s"
  have push: "\<exists>c. push_instr (instr_cacheable_width ci) ?c a (instruction_from ci) = Some c \<and> cache_inv c \<and>
      coherent lookup_block (code_at ?m) c \<and> partial_block c = partial_block ?c"
    if "decode_at ?m a = Ok (Cacheable ci, False)" for ci
  proof -
    have a: "pushable a" and w: "instruction_width (instruction_from ci) = instr_cacheable_width ci"
      using ev translated_instruction_from [of ci] by (simp_all add: pushable_def translated_def)
    from bc.push_total [OF inv a w] obtain c where c: "push_instr (instr_cacheable_width ci) ?c a (instruction_from ci) = Some c" "cache_inv c"
      by blast
    have "code_at ?m a (instruction_from ci)" using that ev by (auto simp: code_at_def)
    with bc.coherent_push [OF inv a w c(1) coh] c push_partial show ?thesis
      by (auto simp: push_instr_def split: instr_width.splits)
  qed
  have half: "fetch_instr_halfword s b = fetch_half ?m b" for b
    by (simp add: fetch_instr_halfword_def fetch_half_def)
  show ?thesis
  proof (cases "fetch_half ?m a")
    case (Ok lower)
    show ?thesis
    proof (cases "is_compressed (instr_data lower)")
      case True
      obtain i where i: "parse_compressed_instruction (instr_data lower) = Some i"
        using parse_inner_defined by (auto simp: parse_compressed_instruction_eq)
      have d: "decode_at ?m a = Ok (i, writable lower)" by (simp add: decode_at_def Ok True i)
      show ?thesis
        using push d width_parse_compressed [OF i]
        by (cases i) (auto simp: d fetch_instr_def half Ok True i push_instr_def inv coh intro: exI [of _ ?c], blast)
    next
      case unc: False
      show ?thesis
      proof (cases "fetch_half ?m (a + 2)")
        case up: (Ok upper)
        define w where "w = combine_with_upper lower upper"
        have d: "decode_at ?m a = Ok (parse_uncompressed_instruction (instr_data w), writable w)"
          by (simp add: decode_at_def Ok unc up w_def)
        show ?thesis
          using push d width_parse_uncompressed [of "instr_data w"]
          by (cases "parse_uncompressed_instruction (instr_data w)")
             (auto simp: d fetch_instr_def half Ok unc up push_instr_def inv coh Let_def w_def [symmetric]
               intro: exI [of _ ?c], blast)
      qed (simp_all add: decode_at_def fetch_instr_def half Ok unc)
    qed
  qed (simp_all add: decode_at_def fetch_instr_def half)
qed

lemma run_instr_plain:
  assumes "cache_inv (block_cache s)" and "coherent lookup_block P (block_cache s)" and "plain_instr apf i (core s) = (res, mc)"
  shows "\<exists>c. run_instr apf s i = (res, s\<lparr>core := mc, block_cache := c\<rparr>) \<and> cache_inv c \<and> coherent lookup_block P c \<and>
           partial_block c = partial_block (block_cache s)"
proof -
  have inv: "partial_block (block_cache_invalidate c) = partial_block c" for c
    by (simp add: block_cache_invalidate_def Let_def)
  show ?thesis
    using assms bc.clear_inv [OF assms(1)] bc.coherent_clear [OF assms(1), of P]
    by (cases "(apf, i, core s)" rule: plain_instr.cases)
       (auto simp: run_instr_def run_instr_cacheable_def run_instr_uncacheable_def run_fence_def run_ebreak_def run_cebreak_def
          run_fencei_def inv intro: exI [of _ "block_cache s"] exI [of _ "block_cache_invalidate (block_cache s)"])
qed

lemma uncached_step:
  assumes inv: "machine_inv s" and idle: "\<not> in_progress (partial_block (block_cache s))"
    and none: "get_block (block_cache s) (pc (hart (core s))) = None"
  shows "map_option (apsnd core) (step_max_inner apf 1 s) = plain_step apf (core s)"
    and "step_max_inner apf 1 s = Some (r, s') \<Longrightarrow> machine_inv s'"
proof -
  let ?m = "main_memory (core s)" and ?a = "pc (hart (core s))"
  have one: "step_max_inner apf 1 s = loop_body apf 1 s"
    using loop_body_uncached(2) [OF none, of apf 1] idle
    by (cases "loop_body apf 1 s") (auto simp: step_max_inner_idle step_loop_body)
  have ev: "even ?a" and c: "cache_inv (block_cache s)" and coh: "coherent lookup_block (code_at ?m) (block_cache s)"
    and m: "memory_inv ?m" using inv by (auto simp: machine_inv_def)
  note f = fetch_instr_decode [OF c ev coh]
  obtain res mc where d: "(case decode_at ?m ?a of
      Ok (i, _) \<Rightarrow> plain_instr apf i (core s) | Err e \<Rightarrow> (Err e, core s) | Stuck \<Rightarrow> (Stuck, core s)) = (res, mc)" by fastforce
  have "\<exists>c. run_instr_at apf s ?a = (res, s\<lparr>core := mc, block_cache := c\<rparr>) \<and> cache_inv c \<and>
      coherent lookup_block (code_at ?m) c \<and> partial_block c = partial_block (block_cache s)"
  proof (cases "decode_at ?m ?a")
    case (Ok x)
    obtain i w where x: "x = (i, w)" by fastforce
    with f Ok obtain c1 where c1: "fetch_instr s ?a = (Ok i, s\<lparr>block_cache := c1\<rparr>)" "cache_inv c1"
        "coherent lookup_block (code_at ?m) c1" "partial_block c1 = partial_block (block_cache s)" by auto
    show ?thesis using run_instr_plain [of "s\<lparr>block_cache := c1\<rparr>" "code_at ?m" apf i res mc] c1 d Ok x
      by (auto simp: run_instr_at_def)
  qed (use f d c coh in \<open>auto simp: run_instr_at_def intro: exI [of _ "block_cache s"]\<close>)
  then obtain c1 where r: "run_instr_at apf s ?a = (res, s\<lparr>core := mc, block_cache := c1\<rparr>)" and c1: "cache_inv c1"
      "coherent lookup_block (code_at ?m) c1" "partial_block c1 = partial_block (block_cache s)" by blast
  have eq: "step_max_inner apf 1 s = map_option (apsnd (\<lambda>mc. s\<lparr>core := mc, block_cache := c1\<rparr>)) (plain_step apf (core s))"
    unfolding one by (auto simp: loop_body_def Let_def none r plain_step_def d split: option.split sum.split)
  show "map_option (apsnd core) (step_max_inner apf 1 s) = plain_step apf (core s)"
    unfolding eq by (cases "plain_step apf (core s)") auto
  assume step: "step_max_inner apf 1 s = Some (r, s')"
  with eq obtain mc' where mc': "plain_step apf (core s) = Some (r, mc')" "s' = s\<lparr>core := mc', block_cache := c1\<rparr>"
    by auto
  have "partial_wf (block_cache s')" using inv step partial_wf_step by (auto simp: machine_inv_def)
  with plain_step_keeps [OF m ev mc'(1)] mc'(2) c1 coherent_stored [OF m] stored_inv m idle show "machine_inv s'"
    by (auto simp: machine_inv_def pending_def Let_def)
qed

section \<open>Refinement\<close>

lemma machine_step:
  assumes inv: "machine_inv s"
  shows "map_option (apsnd core) (step_max_inner apf 1 s) = plain_step apf (core s)"
    and "step_max_inner apf 1 s = Some (r, s') \<Longrightarrow> machine_inv s'"
proof -
  have "map_option (apsnd core) (step_max_inner apf 1 s) = plain_step apf (core s) \<and>
      (step_max_inner apf 1 s = Some (r, s') \<longrightarrow> machine_inv s')"
  proof (cases "in_progress (partial_block (block_cache s))")
    case True
    then show ?thesis using partial_step [OF inv] by blast
  next
    case idle: False
    show ?thesis
    proof (cases "get_block (block_cache s) (pc (hart (core s)))")
      case None
      then show ?thesis using uncached_step [OF inv idle] by blast
    next
      case (Some e)
      have new: "partial_block (block_cache s) = partial_new"
        using inv idle by (simp add: machine_inv_def partial_wf_def Let_def)
      have e: "entry_at (block_cache s) (cached_address e) = e" "0 < block_num_instr (cached_block e)"
        "cached_address e = pc (hart (core s))"
        using Some by (auto simp: get_block_def Let_def split: if_splits)
      have "coherent lookup_block (code_at (main_memory (core s))) (block_cache s)" using inv by (simp add: machine_inv_def)
      then have "\<forall>(x, j) \<in> set (placed (pc (hart (core s))) (instrs e)). code_at (main_memory (core s)) x j"
        unfolding coherent_def lookup_block_def using Some by (metis option.map(2))
      then have "pending (start_partial s e)" using e by (simp add: pending_def start_partial_def)
      then have "machine_inv (start_partial s e)"
        using inv e by (simp add: machine_inv_def start_partial_def partial_wf_def)
      with partial_step(1) [of "start_partial s e" apf] partial_step(2) [of "start_partial s e" apf r s'] step_max_inner_block [OF new zero_less_one Some, of apf]
      show ?thesis by (simp add: start_partial_def)
    qed
  qed
  then show "map_option (apsnd core) (step_max_inner apf 1 s) = plain_step apf (core s)"
    "step_max_inner apf 1 s = Some (r, s') \<Longrightarrow> machine_inv s'" by blast+
qed

end
