(* ===== verification/Machine_Run.thy ===== *)
theory Machine_Run
  imports Machine_Refine
begin

unbundle bit_operations_syntax

text \<open>
  Properties of running the machine: refinement of the machine without a cache over any number of
  steps, independence of how a run is split into calls, exact step counts, freedom from panics for
  code that cannot overwrite itself, termination of runs with a handler, and what the cache does
  when permissions change behind it.
\<close>

section \<open>Many steps\<close>

lemma machine_steps:
  "machine_inv s \<Longrightarrow>
     map_option (apsnd core) (step_max_inner apf n s) = plain_steps apf n (core s) \<and>
     (\<forall>r s'. step_max_inner apf n s = Some (r, s') \<longrightarrow> machine_inv s')"
proof (induction n arbitrary: s)
  case (Suc n)
  have wf: "partial_wf (block_cache s)" using Suc.prems by (simp add: machine_inv_def)
  note split = step_max_inner_split [OF wf, of apf n] and one = machine_step [OF Suc.prems, of apf]
  show ?case
  proof (cases "step_max_inner apf 1 s")
    case None
    with one(1) split show ?thesis by (simp add: then_run_def)
  next
    case (Some x)
    obtain r1 s1 where x: "x = (r1, s1)" by fastforce
    with one Some have p: "plain_step apf (core s) = Some (r1, core s1)" and inv1: "machine_inv s1" by auto
    have "plain_steps apf n (core s1) = map_option (apsnd core) (step_max_inner apf n s1)"
      and "\<forall>r s'. step_max_inner apf n s1 = Some (r, s') \<longrightarrow> machine_inv s'" using Suc.IH [OF inv1] by auto
    then show ?thesis
      using inv1 split Some x p by (cases "step_max_inner apf n s1") (auto simp: then_run_def)
  qed
qed (simp add: step_max_inner_zero)

fun run_chunks :: "apfloat_ops \<Rightarrow> nat list \<Rightarrow> machine_state \<Rightarrow> run_many" where
  "run_chunks apf [] s = Some (result_zero, s)"
| "run_chunks apf (n # ns) s = then_run (step_max_inner apf n s) (run_chunks apf ns)"

lemma add_steps_apfst: "apfst (add_steps 0) = id"
  by (auto simp: fun_eq_iff)

lemma then_run_assoc:
  "then_run (then_run r f) g = then_run r (\<lambda>s. then_run (f s) g)"
  by (auto simp: then_run_def option.map_comp split: option.splits prod.splits intro!: option.map_cong0)

lemma then_run_zero: "error r = None \<Longrightarrow> steps r = 0 \<Longrightarrow> then_run (Some (r, s)) f = f s"
  by (simp add: then_run_def add_steps_apfst option.map_id)

lemma single_steps_wf:
  "partial_wf (block_cache s) \<Longrightarrow> single_steps apf n s = Some (r, s') \<Longrightarrow> partial_wf (block_cache s')"
proof (induction n arbitrary: s r)
  case (Suc n)
  then show ?case using partial_wf_step [OF Suc.prems(1)]
    by (fastforce simp: then_run_def split: option.splits if_splits)
qed simp

lemma then_run_cong: "(\<And>r' s'. r = Some (r', s') \<Longrightarrow> f s' = g s') \<Longrightarrow> then_run r f = then_run r g"
  by (cases r) (auto simp: then_run_def)

lemma single_steps_add:
  "single_steps apf (m + n) s = then_run (single_steps apf m s) (single_steps apf n)"
  by (induction m arbitrary: s) (auto simp: then_run_zero then_run_assoc intro!: then_run_cong)

lemma run_chunks_single:
  "partial_wf (block_cache s) \<Longrightarrow> run_chunks apf ns s = single_steps apf (sum_list ns) s"
proof (induction ns arbitrary: s)
  case (Cons n ns)
  then show ?case
    using single_steps_wf [OF Cons.prems]
    by (auto simp: step_max_inner_single_steps single_steps_add intro!: then_run_cong)
qed simp

section \<open>Step counts\<close>

definition counted :: "nat \<Rightarrow> 'e step_many_result \<Rightarrow> bool" where
  "counted n r \<longleftrightarrow> (if error r = None then steps r = n else steps r < n)"

lemma step_loop_counted:
  "step_loop apf m r s = Some (r', s') \<Longrightarrow> error r = None \<Longrightarrow> steps r \<le> m \<Longrightarrow> counted m r'"
proof (induction "m - steps r" arbitrary: r s rule: less_induct)
  case less
  show ?case
  proof (cases "steps r < m")
    case True
    with less.prems obtain r1 s1 where b: "loop_body apf (m - steps r) s = Some (r1, s1)"
      by (auto simp: step_loop_body split: option.splits)
    note p = loop_body_progress [OF b]
    show ?thesis
    proof (cases "error r1 = None")
      case None: True
      with less.prems b True have "step_loop apf m (add_steps (steps r) r1) s1 = Some (r', s')"
        by (simp add: step_loop_body [OF less.prems(2)])
      with less.hyps [of "add_steps (steps r) r1" s1] p True None show ?thesis by simp
    next
      case False
      with less.prems b True have "r' = add_steps (steps r) r1"
        by (simp add: step_loop_body [OF less.prems(2)])
      with p(3) True False show ?thesis by (auto simp: counted_def)
    qed
  qed (use less.prems in \<open>simp add: counted_def\<close>)
qed

lemma run_partial_inner_steps:
  assumes run: "run_partial_inner apf p mc n e = Some (r, mc', p')"
  shows "steps r \<le> n \<and> (error r \<noteq> None \<longrightarrow> steps r < n)"
proof (cases "n = 0")
  case False
  obtain "is" where "is": "block_instr (cached_block e) = Some is" and l: "\<not> length is < progress p"
    using run False by (cases "block_instr (cached_block e)") (simp_all add: run_partial_inner_def split: if_splits)
  let ?L = "run_partial_loop apf n (drop (progress p) is) mc (pc (hart mc)) 0 (progress p)"
  obtain q where "?L = Some (r, mc', q)"
    using run False "is" l by (cases ?L) (auto simp: run_partial_inner_def split: option.splits)
  from run_partial_loop_steps [OF this] False show ?thesis by simp
qed (use run in \<open>simp add: run_partial_inner_def\<close>)

lemma step_max_inner_counted:
  assumes "step_max_inner apf n s = Some (r, s')"
  shows "counted n r"
proof -
  obtain r1 mc c where c: "complete_current_block apf (block_cache s) (core s) n = Some (r1, mc, c)"
    and k: "if error r1 \<noteq> None then r = r1 else step_loop apf n r1 (s\<lparr>core := mc, block_cache := c\<rparr>) = Some (r, s')"
    using assms by (auto simp: step_max_inner_def Let_def split: option.splits if_splits)
  have "steps r1 \<le> n \<and> (error r1 \<noteq> None \<longrightarrow> steps r1 < n)"
  proof (cases "n = 0 \<or> \<not> in_progress (partial_block (block_cache s))")
    case True
    with c show ?thesis by (auto simp: complete_current_block_def run_partial_inner_def split: if_splits)
  next
    case False
    let ?p = "partial_block (block_cache s)"
    obtain p where "run_partial_inner apf ?p (core s) n (entry_at (block_cache s) (partial_addr ?p)) = Some (r1, mc, p)"
      using c False by (auto simp: complete_current_block_def)
    then show ?thesis by (rule run_partial_inner_steps)
  qed
  with k step_loop_counted [of apf n r1 _ r s'] show ?thesis
    by (cases "error r1 = None") (simp_all add: counted_def)
qed

lemma step_max_bounded:
  assumes "b \<noteq> Unbounded"
  shows "step_max apf b s = step_max_inner apf (unwrap_bound b) s"
proof -
  have "\<not> less_than_bound n b" if "n = unwrap_bound b" for n using that assms by (cases b) auto
  then show ?thesis
    using step_max_inner_counted [of apf "unwrap_bound b" s]
    by (cases "step_max_inner apf (unwrap_bound b) s")
       (auto simp: step_max_def step_max_loop.simps [of apf b result_zero s] counted_def split: if_splits)
qed

section \<open>Code that the program cannot change\<close>

text \<open>No page is executable and writable, and no instruction is the \<^verbatim>\<open>MULW\<close> that is undefined.\<close>

definition wx_exclusive :: "memory \<Rightarrow> bool" where
  "wx_exclusive m \<longleftrightarrow> (\<forall>p < PAGES m. \<not> (executable_pages m ! p \<and> writable_pages m ! p))"

definition no_mulw_x0 :: "memory \<Rightarrow> bool" where
  "no_mulw_x0 m \<longleftrightarrow>
     (\<forall>a rs1 rs2 w. even a \<longrightarrow> decode_at m a \<noteq> Ok (Cacheable (RTypeArgs Mulw x0 rs1 rs2), w))"

definition fixed_code :: "memory \<Rightarrow> bool" where
  "fixed_code m \<longleftrightarrow> wx_exclusive m \<and> no_mulw_x0 m"

text \<open>The float library neither panics nor has undefined behaviour.\<close>

definition apf_total :: "apfloat_ops \<Rightarrow> bool" where
  "apf_total apf \<longleftrightarrow> (\<forall>op a h. fst (apf op a h) \<noteq> Stuck)"

lemma stored_pages:
  assumes "stored m m'"
  shows "executable_pages m' = executable_pages m" "writable_pages m' = writable_pages m" "PAGES m' = PAGES m"
    "in_memory m' = in_memory m"
  using assms by (auto simp: stored_def)

lemma range_allowed_first: "range_allowed ps a 2 \<Longrightarrow> ps ! (unat a div PAGE_SIZE)"
  unfolding range_allowed_def by (drule spec [of _ 0]) simp

lemma fetch_half_not_writable:
  assumes "memory_inv m" and "wx_exclusive m" and "fetch_half m a = Ok d"
  shows "\<not> writable d"
proof -
  have "in_memory m a 2" and x: "executable_pages m ! (unat a div PAGE_SIZE)" and w: "writable d \<longrightarrow> writable_pages m ! (unat a div PAGE_SIZE)"
    using assms(1,3) range_allowed_first by (auto simp: fetch_half_eq split: if_splits)
  then have "unat a div PAGE_SIZE < PAGES m"
    using assms(1) by (auto simp: in_memory_def memory_inv_def div_less_iff_less_mult)
  with assms(2) x w show ?thesis by (auto simp: wx_exclusive_def)
qed

lemma fetch_half_fixed:
  assumes "memory_inv m" and "wx_exclusive m" and "stored m m'" and "even a"
  shows "fetch_half m' a = fetch_half m a"
proof (cases "fetch_half m a")
  case (Ok d)
  then show ?thesis using fetch_half_stored [OF assms(1,4,3)] fetch_half_not_writable [OF assms(1,2)] by simp
qed (use assms(1) stored_inv [OF assms(3,1)] stored_pages [OF assms(3)] in \<open>simp_all add: fetch_half_eq split: if_splits\<close>)

lemma fixed_code_stored:
  assumes "memory_inv m" and "fixed_code m" and "stored m m'"
  shows "fixed_code m'"
proof -
  have "decode_at m' a = decode_at m a" if "even a" for a
    using fetch_half_fixed [OF assms(1) _ assms(3), of a] fetch_half_fixed [OF assms(1) _ assms(3), of "a + 2"] assms(2) that
    by (simp add: fixed_code_def decode_at_def split: outcome.split)
  with assms(2) stored_pages [OF assms(3)] show ?thesis
    by (simp add: fixed_code_def no_mulw_x0_def wx_exclusive_def)
qed

lemma decode_at_not_stuck: "memory_inv m \<Longrightarrow> decode_at m a \<noteq> Stuck"
  using parse_inner_defined [of "from_le_bytes (bytes_of m a 2)"]
  by (auto simp: decode_at_def fetch_half_eq parse_compressed_instruction_eq split: option.split)

lemma needs_apfloat_not_stuck:
  assumes "needs_apfloat i" and "apf_total apf"
  shows "fst (run_instruction apf (instruction_from i) mc) \<noteq> Stuck"
proof -
  have "fst (on_hart r mc) = fst r" for r :: "unit outcome \<times> hart_state"
    by (simp add: on_hart_def split: prod.split)
  with assms show ?thesis
    by (cases i)
       (auto simp: needs_apfloat_def instruction_from_def run_instruction_def to_run_def float_instruction_def
         run_op_float_def apf_total_def split: f_to_x_op.splits)
qed

lemma plain_instr_not_stuck:
  assumes "memory_inv (main_memory mc)" and "apf_total apf" and "\<nexists>rs1 rs2. i = Cacheable (RTypeArgs Mulw x0 rs1 rs2)"
  shows "fst (plain_instr apf i mc) \<noteq> Stuck"
proof (cases "(apf, i, mc)" rule: plain_instr.cases)
  case (1 apf' c mc')
  then show ?thesis
    using assms run_instruction_not_stuck [OF assms(1), of c apf] needs_apfloat_not_stuck [OF _ assms(2), of c mc]
    by (cases "needs_apfloat c") auto
qed auto

lemma handle_step_result_total: "res \<noteq> Stuck \<Longrightarrow> \<exists>x. handle_step_result mc a res = Some x"
  using handle_step_result_Err [of mc a] by (cases res) (auto simp: handle_step_result_def Let_def)

lemma plain_step_total:
  assumes inv: "memory_inv (main_memory mc)" and "even (pc (hart mc))" and "fixed_code (main_memory mc)" and "apf_total apf"
  shows "\<exists>r mc'. plain_step apf mc = Some (r, mc')"
proof -
  obtain res mc1 where d: "(case decode_at (main_memory mc) (pc (hart mc)) of
      Ok (i, _) \<Rightarrow> plain_instr apf i mc | Err e \<Rightarrow> (Err e, mc) | Stuck \<Rightarrow> (Stuck, mc)) = (res, mc1)" by fastforce
  have "res \<noteq> Stuck"
  proof (cases "decode_at (main_memory mc) (pc (hart mc))")
    case (Ok x)
    obtain i w where x: "x = (i, w)" by fastforce
    have "\<nexists>rs1 rs2. i = Cacheable (RTypeArgs Mulw x0 rs1 rs2)"
      using Ok x assms(2,3) by (auto simp: fixed_code_def no_mulw_x0_def)
    from plain_instr_not_stuck [OF inv assms(4) this] d Ok x show ?thesis by simp
  qed (use d decode_at_not_stuck [OF inv] in auto)
  then obtain x where "handle_step_result mc1 (pc (hart mc)) res = Some x" using handle_step_result_total by blast
  with d show ?thesis by (cases x; cases "fst x") (auto simp: plain_step_def)
qed

definition safe_machine :: "apfloat_ops \<Rightarrow> machine_state \<Rightarrow> bool" where
  "safe_machine apf s \<longleftrightarrow> machine_inv s \<and> fixed_code (main_memory (core s)) \<and> apf_total apf"

lemma plain_steps_total:
  assumes "memory_inv (main_memory mc)" and "even (pc (hart mc))" and "fixed_code (main_memory mc)" and "apf_total apf"
  shows "\<exists>r mc'. plain_steps apf n mc = Some (r, mc') \<and> fixed_code (main_memory mc')"
  using assms
proof (induction n arbitrary: mc)
  case (Suc n)
  from plain_step_total [OF Suc.prems] obtain r mc' where r: "plain_step apf mc = Some (r, mc')" by blast
  note keeps = plain_step_keeps [OF Suc.prems(1,2) r]
  from Suc.IH [OF stored_inv [OF keeps(1) Suc.prems(1)] keeps(2) fixed_code_stored [OF Suc.prems(1,3) keeps(1)] Suc.prems(4)]
  show ?case using r fixed_code_stored [OF Suc.prems(1,3) keeps(1)] by auto
qed simp

lemma safe_steps:
  assumes "safe_machine apf s"
  shows "\<exists>r s'. step_max_inner apf n s = Some (r, s') \<and> safe_machine apf s' \<and> counted n r"
proof -
  have inv: "machine_inv s" and f: "fixed_code (main_memory (core s))" "apf_total apf" using assms by (auto simp: safe_machine_def)
  then obtain r mc' where p: "plain_steps apf n (core s) = Some (r, mc')" and f': "fixed_code (main_memory mc')"
    using plain_steps_total [of "core s" apf n] by (auto simp: machine_inv_def)
  from machine_steps [OF inv, of apf n] p obtain s' where s': "step_max_inner apf n s = Some (r, s')" "core s' = mc'"
    by (cases "step_max_inner apf n s") auto
  with machine_steps [OF inv, of apf n] f f' step_max_inner_counted [OF s'(1)] show ?thesis
    by (auto simp: safe_machine_def)
qed

section \<open>Runs with a handler\<close>

text \<open>What a handler of environment exceptions has to keep, and one that never ends a run.\<close>

definition handler_ok ::
    "apfloat_ops \<Rightarrow> ('h \<Rightarrow> machine_state \<Rightarrow> environ_exception \<Rightarrow> (('e + bool) \<times> 'h \<times> machine_state) option) \<Rightarrow> bool" where
  "handler_ok apf handle \<longleftrightarrow>
     (\<forall>h s e. safe_machine apf s \<longrightarrow> (\<exists>res h' s'. handle h s e = Some (res, h', s') \<and> safe_machine apf s'))"

definition always_continues ::
    "('h \<Rightarrow> machine_state \<Rightarrow> environ_exception \<Rightarrow> (('e + bool) \<times> 'h \<times> machine_state) option) \<Rightarrow> bool" where
  "always_continues handle \<longleftrightarrow> (\<forall>h s e res h' s'. handle h s e = Some (res, h', s') \<longrightarrow> res = Inr True)"

lemma bound_after_exception:
  "b \<noteq> Unbounded \<Longrightarrow> k < unwrap_bound b \<Longrightarrow>
     bound_saturating_sub (bound_saturating_sub b k) 1 \<noteq> Unbounded \<and>
     unwrap_bound (bound_saturating_sub (bound_saturating_sub b k) 1) + k + 1 = unwrap_bound b"
  by (cases b) auto

lemma step_max_handle_loop_result:
  assumes "safe_machine apf s" and "handler_ok apf handle" and "b \<noteq> Unbounded" and "n + unwrap_bound b \<le> USIZE_MAX"
  shows "\<exists>r h' s'. step_max_handle_loop apf handle b n h s = Some (r, h', s') \<and> safe_machine apf s' \<and>
           steps r \<le> n + unwrap_bound b \<and> (always_continues handle \<longrightarrow> error r = None \<and> steps r = n + unwrap_bound b)"
  using assms(1,3,4)
proof (induction "unwrap_bound b" arbitrary: b n h s rule: less_induct)
  case less
  let ?k = "unwrap_bound b"
  from safe_steps [OF less.prems(1), of ?k] obtain r s1 where run: "step_max apf b s = Some (r, s1)"
    and s1: "safe_machine apf s1" and cnt: "counted ?k r"
    using step_max_bounded [OF less.prems(2)] by metis
  note unfold = step_max_handle_loop.simps [of apf handle b n h s]
  show ?case
  proof (cases "error r")
    case None
    with cnt less.prems(3) show ?thesis
      by (auto simp: unfold run s1 counted_def saturating_step_add_def)
  next
    case (Some e)
    define b' where "b' = bound_saturating_sub (bound_saturating_sub b (steps r)) 1"
    have lt: "steps r < ?k" using cnt Some by (simp add: counted_def)
    note b' = bound_after_exception [OF less.prems(2) lt, folded b'_def]
    from assms(2) s1 obtain res h2 s2 where h: "handle h s1 e = Some (res, h2, s2)" and s2: "safe_machine apf s2"
      unfolding handler_ok_def by blast
    have n: "saturating_step_add (saturating_step_add n (steps r)) 1 = n + steps r + 1"
      using less.prems(3) lt by (simp add: saturating_step_add_def)
    show ?thesis
    proof (cases "res = Inr True")
      case True
      have eq: "step_max_handle_loop apf handle b n h s = step_max_handle_loop apf handle b' (n + steps r + 1) h2 s2"
        by (simp add: unfold run Some h True n b'_def del: One_nat_def)
      from less.hyps [of b' s2 "n + steps r + 1" h2] b' s2 less.prems(3) show ?thesis
        by (auto simp: eq)
    next
      case False
      then have "\<not> always_continues handle" using h unfolding always_continues_def by blast
      with False lt s2 show ?thesis
        by (cases res) (auto simp: unfold run Some h n [unfolded One_nat_def])
    qed
  qed
qed

section \<open>Initial states\<close>

lemma machine_new_inv:
  assumes "k \<le> 31" and "memory_inv m"
  shows "machine_inv (machine_new (2 ^ k) m)"
  using block_cache_new_inv [OF assms(1)] assms(2)
  by (simp add: machine_inv_def machine_new_def partial_wf_def pending_def coherent_def lookup_block_def hart_new_def)
     (simp add: block_cache_new_def)

lemma machine_reset_inv:
  assumes "machine_inv s"
  shows "\<exists>s'. machine_reset s = Some s' \<and> machine_inv s'"
proof -
  have m: "memory_inv (main_memory (core s))" using assms by (simp add: machine_inv_def)
  then have "mem_reset (main_memory (core s)) = Some (overwrite (main_memory (core s)) 0 (replicate (TOTAL_BYTES (main_memory (core s))) 0))"
    by (simp add: mem_reset_def reset_chunks_eq memory_inv_def)
  moreover have "partial_block (block_cache_reset c) = partial_new" for c
    by (simp add: block_cache_reset_def Let_def)
  ultimately show ?thesis
    using assms m block_cache_reset_inv [of "block_cache s"]
    by (simp add: machine_reset_def machine_core_reset_def machine_inv_def partial_wf_def pending_def coherent_def
        lookup_block_def hart_reset_def)
qed

text \<open>A page of \<^verbatim>\<open>C.NOP\<close> that may be executed and not written.\<close>

definition demo_memory :: memory where
  "demo_memory = \<lparr>PAGES = 1, TOTAL_BYTES = 4096, data = (\<lambda>k. if even k then 1 else 0), readable_pages = [True],
    writable_pages = [False], executable_pages = [True], allocated_pages = BuddyLeaf 1 1\<rparr>"

definition demo_state :: machine_state where
  "demo_state = machine_new 2 demo_memory"

lemma demo_memory_inv [simp]: "memory_inv demo_memory"
  by (simp add: demo_memory_def memory_inv_def PAGE_SIZE_def OFFSET_BITS_def u64_max_def)

lemma demo_state_inv: "machine_inv demo_state"
  using machine_new_inv [of 1 demo_memory] by (simp add: demo_state_def)

lemma parse_nop: "parse_compressed_instruction 1 = Some (Cacheable CNop)"
  unfolding parse_compressed_instruction_eq by code_simp

lemma demo_decode:
  assumes "even a"
  shows "decode_at demo_memory a = (if unat a < 4096 then Ok (Cacheable CNop, False) else Err (InstructionAccessFault a))"
proof -
  have "even (unat a)" using assms by simp
  then have b: "bytes_of demo_memory a 2 = [1, 0]"
    by (simp add: bytes_of_def demo_memory_def upt_conv_Cons)
  have "unat a < 4096 \<longleftrightarrow> in_memory demo_memory a 2"
  proof -
    obtain b where "unat a = 2 * b" using \<open>even (unat a)\<close> by (rule evenE)
    then show ?thesis by (auto simp: in_memory_def demo_memory_def)
  qed
  moreover have "range_allowed (executable_pages demo_memory) a 2" "\<not> range_allowed (writable_pages demo_memory) a 2"
    if "in_memory demo_memory a 2"
    using that by (auto simp: range_allowed_def in_memory_def demo_memory_def PAGE_SIZE_def OFFSET_BITS_def intro: exI [of _ 0])
  ultimately show ?thesis
    by (simp add: decode_at_def fetch_half_eq b is_compressed_def parse_nop)
qed

lemma demo_fixed: "fixed_code demo_memory"
  by (simp add: fixed_code_def no_mulw_x0_def demo_decode) (simp add: wx_exclusive_def demo_memory_def)

lemma demo_safe: "safe_machine sample_apf demo_state"
  using demo_state_inv demo_fixed
  by (simp add: safe_machine_def apf_total_def sample_apf_def demo_state_def machine_new_def)

lemma demo_step:
  assumes "main_memory mc = demo_memory" and "even (pc (hart mc))" and "unat (pc (hart mc)) < 4096"
  shows "plain_step apf mc = Some (\<lparr>steps = 1, error = None\<rparr>, write_pc mc (pc (hart mc) + 2))"
  using assms
  by (simp add: plain_step_def demo_decode instruction_from_def dispatch_defs run_nop_def handle_step_result_def Let_def)

lemma demo_two_steps:
  "plain_steps sample_apf 2 (core demo_state) =
     Some (\<lparr>steps = 2, error = None\<rparr>, write_pc (write_pc (core demo_state) 2) 4)"
proof -
  have d: "main_memory (core demo_state) = demo_memory" "pc (hart (core demo_state)) = 0"
    by (simp_all add: demo_state_def machine_new_def hart_new_def)
  have "plain_step sample_apf (core demo_state) = Some (\<lparr>steps = 1, error = None\<rparr>, write_pc (core demo_state) 2)"
    using demo_step [of "core demo_state" sample_apf] d by simp
  moreover have "plain_step sample_apf (write_pc (core demo_state) 2) =
      Some (\<lparr>steps = 1, error = None\<rparr>, write_pc (write_pc (core demo_state) 2) 4)"
    using demo_step [of "write_pc (core demo_state) 2" sample_apf] d by (simp add: write_pc_def)
  ultimately show ?thesis by (simp add: numeral_2_eq_2 result_zero_def)
qed

text \<open>The same machine with a cached block at address 0.\<close>

lemma demo_block:
  "map_option instrs (Option.bind (push_instr_compressed (block_cache_new 2) 0 (instruction_from CNop)) (\<lambda>c. get_block c 0)) =
     Some [instruction_from CNop]"
  by code_simp

lemma demo_cached:
  obtains s e where "machine_inv s" and "\<not> in_progress (partial_block (block_cache s))" and "core s = core demo_state"
    and "get_block (block_cache s) 0 = Some e" and "hd (instrs e) = instruction_from CNop"
proof -
  have w: "instruction_width (instruction_from CNop) = Compressed"
    by (simp add: instruction_from_def new_nop_def instruction_width_def)
  have new: "cache_inv (block_cache_new 2)" "get_block (block_cache_new 2) a = None" for a
    using block_cache_new_inv [of 1] by simp_all
  have z: "pushable 0" by (simp add: pushable_def)
  from bc.push_total [OF new(1) z w] obtain c where
    c: "push_instr Compressed (block_cache_new 2) 0 (instruction_from CNop) = Some c" "cache_inv c" by blast
  have "coherent lookup_block (code_at demo_memory) (block_cache_new 2)" using new(2) by (simp add: coherent_def lookup_block_def)
  moreover have "code_at demo_memory 0 (instruction_from CNop)" by (auto simp: code_at_def demo_decode)
  ultimately have coh: "coherent lookup_block (code_at demo_memory) c" using bc.coherent_push [OF new(1) z w c(1)] by blast
  have p: "partial_block c = partial_new"
    using push_partial(1) [of "block_cache_new 2" 0 "instruction_from CNop" c] c(1)
    by (simp add: push_instr_def) (simp add: block_cache_new_def)
  obtain e where e: "get_block c 0 = Some e" "hd (instrs e) = instruction_from CNop"
    using demo_block c(1) by (auto simp: push_instr_def)
  have "machine_inv (demo_state\<lparr>block_cache := c\<rparr>)"
    using c(2) coh p by (simp add: machine_inv_def partial_wf_def pending_def demo_state_def machine_new_def hart_new_def)
  from that [OF this _ _ _ e(2)] e(1) p show ?thesis by simp
qed

section \<open>Properties\<close>

text \<open>
  C4: the block cache is transparent. From a state that satisfies the invariant of the machine,
  running up to \<open>n\<close> steps with the block cache, partial blocks and fence counter gives exactly the
  result, registers and memory of the machine that fetches, decodes and runs one instruction at a
  time, including when it panics; it keeps the invariant, which a reset establishes again.
\<close>

theorem run_refines_plain_machine:
  assumes "machine_inv s"
  shows "map_option (apsnd core) (step_max_inner apf n s) = plain_steps apf n (core s) \<and>
         (\<forall>r s'. step_max_inner apf n s = Some (r, s') \<longrightarrow> machine_inv s') \<and>
         (\<exists>s'. machine_reset s = Some s' \<and> machine_inv s')"
  using machine_steps [OF assms] machine_reset_inv [OF assms] by simp

theorem run_refines_plain_machine_witness:
  "\<exists>s'. step_max_inner sample_apf 2 demo_state = Some (\<lparr>steps = 2, error = None\<rparr>, s') \<and> pc (hart (core s')) = 4"
proof -
  from run_refines_plain_machine [OF demo_state_inv, of sample_apf 2] demo_two_steps show ?thesis
    by (cases "step_max_inner sample_apf 2 demo_state") (auto simp: write_pc_def)
qed

text \<open>
  C18: execution does not depend on how a run is split into calls: running chunks of any sizes one
  after the other, until an environment exception, is running their sum at once, because a block
  that is cut short is completed from the partial block by the next call.
\<close>

theorem run_split_irrelevant:
  assumes "partial_wf (block_cache s)"
  shows "run_chunks apf ns s = step_max_inner apf (sum_list ns) s"
  using assms by (simp add: run_chunks_single step_max_inner_single_steps)

theorem run_split_irrelevant_witness:
  "run_chunks sample_apf [1, 0, 3] demo_state = step_max_inner sample_apf 4 demo_state"
  using run_split_irrelevant [of demo_state sample_apf "[1, 0, 3]"] demo_state_inv by (simp add: machine_inv_def)

text \<open>
  Step counts are exact. A bounded run is a single round of the inner loop, with the bound or
  one less when the bound is excluded; it takes exactly that many steps when no environment
  exception occurs and fewer when one does.
\<close>

theorem step_max_counts:
  "step_max apf (Included n) s = step_max_inner apf n s \<and>
   step_max apf (Excluded n) s = step_max_inner apf (n - 1) s \<and>
   (step_max_inner apf n s = Some (r, s') \<longrightarrow> (if error r = None then steps r = n else steps r < n))"
  using step_max_bounded [of "Included n" apf s] step_max_bounded [of "Excluded n" apf s]
    step_max_inner_counted [of apf n s r s'] by (simp add: counted_def)

theorem step_max_counts_witness:
  "\<exists>r s'. step_max sample_apf (Excluded 3) demo_state = Some (r, s') \<and> steps r = 2"
proof -
  from safe_steps [OF demo_safe, of 2] obtain r s' where r: "step_max_inner sample_apf 2 demo_state = Some (r, s')" by blast
  then have "error r = None" using machine_steps [OF demo_state_inv, of sample_apf 2] demo_two_steps by simp
  with r show ?thesis using step_max_counts [of sample_apf 3 demo_state] step_max_counts [of sample_apf 2 demo_state r s'] by auto
qed

text \<open>
  C20: the machine never panics and every bounded run returns, if no page is both executable and
  writable, no decodable instruction is the undefined \<^verbatim>\<open>MULW\<close>, and the float library returns; these
  conditions keep holding.
\<close>

theorem bounded_run_returns:
  assumes "safe_machine apf s"
  shows "\<exists>r s'. step_max apf (Included n) s = Some (r, s') \<and> safe_machine apf s' \<and> steps r \<le> n"
proof -
  from safe_steps [OF assms, of n] obtain r s' where "step_max_inner apf n s = Some (r, s')" "safe_machine apf s'" "counted n r"
    by blast
  then show ?thesis using step_max_bounded [of "Included n" apf s] by (auto simp: counted_def split: if_splits)
qed

theorem bounded_run_returns_witness:
  "\<exists>r s'. step_max sample_apf (Included 5000) demo_state = Some (r, s') \<and> safe_machine sample_apf s' \<and> steps r \<le> 5000"
  using bounded_run_returns [OF demo_safe, of 5000] by simp

text \<open>
  C28: a bounded run with a handler for environment exceptions terminates. If the handler returns
  and keeps the machine safe, \<^verbatim>\<open>step_max_handle\<close> returns after at most the bounded number of steps,
  where a handled exception counts as one step, and a handler that always lets the run continue
  makes it use up the bound exactly.
\<close>

theorem step_max_handle_terminates:
  assumes "safe_machine apf s" and "handler_ok apf handle" and "b \<noteq> Unbounded" and "unwrap_bound b \<le> USIZE_MAX"
  shows "\<exists>r h' s'. step_max_handle apf b handle h s = Some (r, h', s') \<and> safe_machine apf s' \<and>
           steps r \<le> unwrap_bound b \<and> (always_continues handle \<longrightarrow> error r = None \<and> steps r = unwrap_bound b)"
  using step_max_handle_loop_result [OF assms(1-3), of 0 h] assms(4) by (simp add: step_max_handle_def)

theorem step_max_handle_terminates_witness:
  "\<exists>r h' s'. step_max_handle sample_apf (Included 7) (\<lambda>h s e. Some (Inr True :: unit + bool, h + 1, s)) (0 :: nat) demo_state =
     Some (r, h', s') \<and> error r = None \<and> steps r = 7"
proof -
  have "handler_ok sample_apf (\<lambda>(h :: nat) s e. Some (Inr True :: unit + bool, h + 1, s))"
    "always_continues (\<lambda>(h :: nat) s e. Some (Inr True :: unit + bool, h + 1, s))"
    by (simp_all add: handler_ok_def always_continues_def)
  with step_max_handle_terminates [OF demo_safe this(1), of "Included 7" 0] show ?thesis
    by (auto simp: USIZE_MAX_def)
qed

text \<open>
  The block cache does not see changes of permissions. After \<^verbatim>\<open>protect_pages\<close>, which the system
  calls \<^verbatim>\<open>mprotect\<close>, \<^verbatim>\<open>mmap\<close> and \<^verbatim>\<open>munmap\<close> use without invalidating the cache, has removed the
  permission to execute the page at the program counter, a fetch raises an access fault, but a
  machine that holds a block for that address runs the block's instruction.
\<close>

theorem cached_block_ignores_permissions:
  assumes inv: "machine_inv s" and idle: "\<not> in_progress (partial_block (block_cache s))"
    and get: "get_block (block_cache s) (pc (hart (core s))) = Some e"
    and prot: "protect_pages (main_memory (core s)) a len perms = Inr m'" and "\<not> perm_exec perms"
    and page: "\<exists>b < len. (unat a + b) div PAGE_SIZE = unat (pc (hart (core s))) div PAGE_SIZE"
    and s': "s' = s\<lparr>core := (core s)\<lparr>main_memory := m'\<rparr>\<rparr>"
    and run: "run_instruction apf (hd (instrs e)) (core s') = (res, mc)"
  shows "decode_at m' (pc (hart (core s'))) = Err (InstructionAccessFault (pc (hart (core s')))) \<and>
         map_option (apsnd core) (step_max_inner apf 1 s') = step_result (handle_step_result mc (pc (hart (core s'))) res)"
proof
  let ?m = "main_memory (core s)" and ?a = "pc (hart (core s))"
  have m: "memory_inv ?m" using inv by (simp add: machine_inv_def)
  have m': "executable_pages m' = modify_access (executable_pages ?m) a len False" "PAGES m' = PAGES ?m" "TOTAL_BYTES m' = TOTAL_BYTES ?m"
    and rng: "unat a + len \<le> TOTAL_BYTES ?m \<or> len = 0" and inv': "memory_inv m'"
    using prot m assms(5) by (auto simp: protect_pages_def check_bounds_iff in_memory_def memory_inv_def split: if_splits)
  have "\<not> executable_pages m' ! (unat ?a div PAGE_SIZE)" if "in_memory m' ?a 2"
  proof -
    have "unat ?a div PAGE_SIZE < PAGES ?m"
      using that m m'(3) by (auto simp: in_memory_def memory_inv_def div_less_iff_less_mult)
    then show ?thesis using nth_modify_access [of a len "executable_pages ?m" "unat ?a div PAGE_SIZE" False] page rng m
      by (auto simp: m'(1) memory_inv_def)
  qed
  then show "decode_at m' (pc (hart (core s'))) = Err (InstructionAccessFault (pc (hart (core s'))))"
    using range_allowed_first [of "executable_pages m'" ?a] by (auto simp: s' decode_at_def fetch_half_eq inv')
  have new: "partial_block (block_cache s') = partial_new" using inv idle by (simp add: s' machine_inv_def partial_wf_def Let_def)
  have e: "entry_at (block_cache s) ?a = e" "cached_address e = ?a" "0 < len_instr (cached_block e)"
    using get by (auto simp: get_block_def Let_def block_num_instr_def split: if_splits)
  have ok: "cells_ok e" using inv store_inv_entry [of "block_cache s" ?a] by (simp add: machine_inv_def cache_inv_def entry_ok_def e)
  then have ne: "instrs e \<noteq> []" using e(3) length_instrs [OF ok] by auto
  let ?t = "start_partial s' e"
  have t: "in_progress (partial_block (block_cache ?t))" "e = entry_at (block_cache ?t) (partial_addr (partial_block (block_cache ?t)))"
    "drop (progress (partial_block (block_cache ?t))) (instrs e) = hd (instrs e) # tl (instrs e)"
    "run_instruction apf (hd (instrs e)) (core ?t) = (res, mc)" "core ?t = core s'"
    using e ne run by (simp_all add: start_partial_def s')
  have "step_max_inner apf 1 s' = step_max_inner apf 1 ?t"
    using get by (intro step_max_inner_block [OF new]) (simp_all add: s')
  then show "map_option (apsnd core) (step_max_inner apf 1 s') = step_result (handle_step_result mc (pc (hart (core s'))) res)"
    using partial_step_eq [OF t(1,2) ok t(3,4)] t(5)
    by (cases "step_result (handle_step_result mc (pc (hart (core s'))) res)") auto
qed

theorem cached_block_ignores_permissions_witness:
  "\<exists>s m' s'. machine_inv s \<and> protect_pages (main_memory (core s)) 0 4096 permissions_none = Inr m' \<and>
     decode_at m' 0 = Err (InstructionAccessFault 0) \<and>
     step_max_inner sample_apf 1 (s\<lparr>core := (core s)\<lparr>main_memory := m'\<rparr>\<rparr>) = Some (\<lparr>steps = 1, error = None\<rparr>, s') \<and>
     pc (hart (core s')) = 2"
proof -
  obtain s e where s: "machine_inv s" "\<not> in_progress (partial_block (block_cache s))" "core s = core demo_state"
    "get_block (block_cache s) 0 = Some e" "hd (instrs e) = instruction_from CNop" by (rule demo_cached)
  have pc: "pc (hart (core s)) = 0" "main_memory (core s) = demo_memory"
    using s(3) by (simp_all add: demo_state_def machine_new_def hart_new_def)
  obtain m' where m': "protect_pages demo_memory 0 4096 permissions_none = Inr m'"
    by (simp add: protect_pages_def check_bounds_def demo_memory_def)
  let ?s = "s\<lparr>core := (core s)\<lparr>main_memory := m'\<rparr>\<rparr>"
  have run: "run_instruction sample_apf (hd (instrs e)) (core ?s) = (Ok (Next Compressed), core ?s)"
    using s(5) by (simp add: instruction_from_def dispatch_defs run_nop_def)
  have step: "step_result (handle_step_result (core ?s) 0 (Ok (Next Compressed))) = Some (\<lparr>steps = 1, error = None\<rparr>, write_pc (core ?s) 2)"
    by (simp add: step_result_def handle_step_result_def Let_def)
  have "\<exists>b < 4096. (b :: nat) div PAGE_SIZE = 0" by (rule exI [of _ 0]) simp
  then have "decode_at m' 0 = Err (InstructionAccessFault 0) \<and>
      map_option (apsnd core) (step_max_inner sample_apf 1 ?s) = Some (\<lparr>steps = 1, error = None\<rparr>, write_pc (core ?s) 2)"
    using cached_block_ignores_permissions [OF s(1,2) _ _ _ _ refl run, of 0 4096 permissions_none] s(4) m' pc step
    by (simp add: permissions_none_def)
  then show ?thesis using s(1) m' pc
    by (cases "step_max_inner sample_apf 1 ?s") (auto simp: write_pc_def)
qed

end
