(* ===== verification/Linux_Params.thy ===== *)
theory Linux_Params
  imports Machine_Core
begin

unbundle bit_operations_syntax

text \<open>
  Model of the values a supervised Linux process passes to system calls: error codes
  (\<^verbatim>\<open>pvm/linux/error.rs\<close>), virtual addresses (\<^verbatim>\<open>pvm/linux/addr.rs\<close>), the parsed arguments of
  \<^verbatim>\<open>pvm/linux/parameters.rs\<close> and the page permissions of \<^verbatim>\<open>machine_state/memory.rs\<close>. A conversion by
  \<^verbatim>\<open>TryFrom\<close> is a function into a sum whose left side is the error.
\<close>

section \<open>Error codes\<close>

datatype linux_error =
    Search | BadFileDescriptor | Access | NoMemory | Fault | InvalidArgument | OutOfRange | NoSystemCall

primrec error_code :: "linux_error \<Rightarrow> int" where
  "error_code Search = 3"
| "error_code BadFileDescriptor = 9"
| "error_code Access = 13"
| "error_code NoMemory = 12"
| "error_code Fault = 14"
| "error_code InvalidArgument = 22"
| "error_code OutOfRange = 34"
| "error_code NoSystemCall = 38"

definition into_xvalue :: "linux_error \<Rightarrow> xvalue" where
  "into_xvalue e = word_of_int (- error_code e)"

section \<open>Virtual addresses\<close>

type_synonym virt_addr = u64

definition VIRT_ADDR_DEFAULT :: virt_addr where "VIRT_ADDR_DEFAULT = - 1"

definition rem_euclid :: "u64 \<Rightarrow> u64 \<Rightarrow> u64" where
  "rem_euclid a b = a mod b"

definition u64_saturating_sub :: "u64 \<Rightarrow> u64 \<Rightarrow> u64" where
  "u64_saturating_sub a b = (if a < b then 0 else a - b)"

definition u64_saturating_add :: "u64 \<Rightarrow> u64 \<Rightarrow> u64" where
  "u64_saturating_add a b = (if unat a + unat b \<le> u64_max then a + b else - 1)"

definition u64_checked_add :: "u64 \<Rightarrow> u64 \<Rightarrow> u64 option" where
  "u64_checked_add a b = (if unat a + unat b \<le> u64_max then Some (a + b) else None)"

definition align_down :: "virt_addr \<Rightarrow> u64 \<Rightarrow> virt_addr" where
  "align_down a align = (let overhang = rem_euclid a align in u64_saturating_sub a overhang)"

definition align_up :: "virt_addr \<Rightarrow> u64 \<Rightarrow> virt_addr option" where
  "align_up a align =
     (let overhang = rem_euclid a align in
      if overhang = 0 then Some a
      else let underhang = u64_saturating_sub align overhang in u64_checked_add a underhang)"

definition is_aligned :: "virt_addr \<Rightarrow> u64 \<Rightarrow> bool" where
  "is_aligned a align \<longleftrightarrow> rem_euclid a align = 0"

text \<open>The difference of two addresses is an \<^verbatim>\<open>i64\<close>.\<close>

definition virt_sub :: "virt_addr \<Rightarrow> virt_addr \<Rightarrow> int" where
  "virt_sub a b = sint (a - b)"

definition PAGE_BYTES :: u64 where "PAGE_BYTES = of_nat PAGE_SIZE"

definition page_aligned_try_from :: "u64 \<Rightarrow> linux_error + virt_addr" where
  "page_aligned_try_from v = (if \<not> is_aligned v PAGE_BYTES then Inl InvalidArgument else Inr v)"

section \<open>Permissions\<close>

definition permissions_write :: permissions where
  "permissions_write = \<lparr>perm_read = False, perm_write = True, perm_exec = False\<rparr>"

definition permissions_read_write :: permissions where
  "permissions_read_write = \<lparr>perm_read = True, perm_write = True, perm_exec = False\<rparr>"

definition permissions_try_from :: "xvalue \<Rightarrow> linux_error + permissions" where
  "permissions_try_from v =
     (if v AND NOT 0b111 \<noteq> 0 then Inl InvalidArgument
      else Inr \<lparr>perm_read = v AND 0b001 \<noteq> 0, perm_write = v AND 0b010 \<noteq> 0, perm_exec = v AND 0b100 \<noteq> 0\<rparr>)"

section \<open>Parameters\<close>

definition SIGSET_SIZE :: u64 where "SIGSET_SIZE = 8"

definition MAIN_THREAD_ID :: u64 where "MAIN_THREAD_ID = 1"

record system_call_result =
  sc_result :: u64
  sc_control_flow :: bool

definition system_call_result_from :: "u64 \<Rightarrow> system_call_result" where
  "system_call_result_from v = \<lparr>sc_result = v, sc_control_flow = True\<rparr>"

definition main_thread_id_try_from :: "u64 \<Rightarrow> linux_error + unit" where
  "main_thread_id_try_from v = (if v \<noteq> MAIN_THREAD_ID then Inl Search else Inr ())"

definition process_id_try_from :: "u64 \<Rightarrow> linux_error + unit" where
  "process_id_try_from v = (if v = 0 \<or> v = 1 then Inr () else Inl Search)"

definition MAX_CPU_SET_SIZE :: u64 where "MAX_CPU_SET_SIZE = 1024 div 8"

definition non_zero_try_from :: "u64 \<Rightarrow> linux_error + u64" where
  "non_zero_try_from v = (if v = 0 then Inl InvalidArgument else Inr v)"

definition cpu_set_size_try_from :: "u64 \<Rightarrow> linux_error + u64" where
  "cpu_set_size_try_from v =
     (if MAX_CPU_SET_SIZE < v then Inl InvalidArgument else non_zero_try_from v)"

definition ROBUST_LIST_HEAD_SIZE :: u64 where "ROBUST_LIST_HEAD_SIZE = 8"

definition robust_list_head_size_try_from :: "u64 \<Rightarrow> linux_error + unit" where
  "robust_list_head_size_try_from v = (if v \<noteq> ROBUST_LIST_HEAD_SIZE then Inl InvalidArgument else Inr ())"

text \<open>A signal is a 7-bit number: the conversions to \<^verbatim>\<open>u8\<close> and to \<^verbatim>\<open>u7\<close> both may fail.\<close>

definition signal_try_from :: "u64 \<Rightarrow> linux_error + u8" where
  "signal_try_from v =
     (if 0xFF < v then Inl InvalidArgument else if 0x7F < v then Inl InvalidArgument else Inr (ucast v))"

definition signal_exit_code :: "u8 \<Rightarrow> u64" where
  "signal_exit_code s = (let EXIT_BY_SIGNAL = rust_shl 1 7 in ucast (EXIT_BY_SIGNAL OR s))"

definition signal_action_from :: "u64 \<Rightarrow> u64 option" where
  "signal_action_from v = (if v = 0 then None else Some v)"

definition sigset_size_try_from :: "u64 \<Rightarrow> linux_error + unit" where
  "sigset_size_try_from v = (if v = SIGSET_SIZE then Inr () else Inl InvalidArgument)"

datatype fd_writeable = StandardOutput | StandardError

definition fd_writeable_try_from :: "u64 \<Rightarrow> linux_error + fd_writeable" where
  "fd_writeable_try_from v =
     (if v = 1 then Inr StandardOutput else if v = 2 then Inr StandardError else Inl BadFileDescriptor)"

definition RLIMIT_NOFILE :: u64 where "RLIMIT_NOFILE = 512"

definition fd_count_try_from :: "u64 \<Rightarrow> linux_error + u64" where
  "fd_count_try_from v = (if RLIMIT_NOFILE < v then Inl InvalidArgument else Inr v)"

definition zero_try_from :: "u64 \<Rightarrow> linux_error + unit" where
  "zero_try_from v = (if v \<noteq> 0 then Inl InvalidArgument else Inr ())"

definition no_fd_try_from :: "u64 \<Rightarrow> linux_error + unit" where
  "no_fd_try_from v = (if v \<noteq> - 1 then Inl BadFileDescriptor else Inr ())"

datatype visibility = Private | Shared

datatype backend = NoBackend | FileBackend

datatype address_hint = Hint | Fixed (allow_replace: bool)

record mmap_flags =
  flag_visibility :: visibility
  flag_backend :: backend
  flag_addr_hint :: address_hint

definition probe_and_clear :: "u64 \<Rightarrow> u64 \<Rightarrow> bool \<times> u64" where
  "probe_and_clear flags msk = (flags AND msk = msk, flags AND NOT msk)"

definition MAP_SHARED :: u64 where "MAP_SHARED = 0x1"
definition MAP_PRIVATE :: u64 where "MAP_PRIVATE = 0x2"
definition MAP_ANON :: u64 where "MAP_ANON = 0x20"
definition MAP_FIXED :: u64 where "MAP_FIXED = 0x10"
definition MAP_FIXED_NOREPLACE :: u64 where "MAP_FIXED_NOREPLACE = 0x100000"
definition MAP_NORESERVE :: u64 where "MAP_NORESERVE = 0x4000"

definition flags_try_from :: "u64 \<Rightarrow> linux_error + mmap_flags" where
  "flags_try_from flags =
     (let (shared, flags) = probe_and_clear flags MAP_SHARED;
          (priv, flags) = probe_and_clear flags MAP_PRIVATE;
          private = (priv \<and> \<not> shared)
      in if \<not> private \<and> \<not> shared then Inl InvalidArgument
         else
           let visibility = (if private then Private else Shared);
               (anon, flags) = probe_and_clear flags MAP_ANON;
               backend = (if anon then NoBackend else FileBackend);
               (fixed, flags) = probe_and_clear flags MAP_FIXED;
               (addr_hint, flags) =
                 (if fixed then let (noreplace, flags) = probe_and_clear flags MAP_FIXED_NOREPLACE
                                in (Fixed (\<not> noreplace), flags)
                  else let (noreplace, flags) = probe_and_clear flags MAP_FIXED_NOREPLACE
                       in (if noreplace then Fixed False else Hint, flags));
               (noreserve, flags) = probe_and_clear flags MAP_NORESERVE
           in if flags \<noteq> 0 then Inl InvalidArgument
              else Inr \<lparr>flag_visibility = visibility, flag_backend = backend, flag_addr_hint = addr_hint\<rparr>)"

section \<open>Facts\<close>

lemma into_xvalue_negative: "sint (into_xvalue e) = - error_code e"
  by (cases e) (simp_all add: into_xvalue_def signed_take_bit_int_eq_self)

lemma into_xvalue_inj: "into_xvalue e = into_xvalue e' \<Longrightarrow> e = e'"
  using into_xvalue_negative [of e] into_xvalue_negative [of e'] by (cases e; cases e') simp_all

lemma PAGE_BYTES_eq: "PAGE_BYTES = 4096" "unat PAGE_BYTES = PAGE_SIZE"
  by (simp_all add: PAGE_BYTES_def PAGE_SIZE_def OFFSET_BITS_def)

lemma align_down_eq: "0 < align \<Longrightarrow> unat (align_down a align) = unat a - unat a mod unat align"
  by (auto simp: align_down_def rem_euclid_def u64_saturating_sub_def Let_def unat_mod word_less_nat_alt unat_sub word_le_nat_alt)

text \<open>Rounding up to a multiple of \<^verbatim>\<open>k\<close> by remainders, as the code does, and by division.\<close>

lemma round_up_eq:
  assumes "0 < (k :: nat)"
  shows "(n + (k - Suc 0)) div k * k = (if n mod k = 0 then n else n + (k - n mod k))"
proof -
  define q r where "q = n div k" and "r = n mod k"
  have n: "n = r + q * k" and r: "r < k" using assms by (simp_all add: q_def r_def)
  have "n + (k - Suc 0) = (r + (k - Suc 0)) + q * k" by (simp only: n ac_simps)
  then have "(n + (k - Suc 0)) div k = (r + (k - Suc 0)) div k + q"
    using div_mult_self1 [of k "r + (k - Suc 0)" q] assms by (simp only: add.commute)
  also have "(r + (k - Suc 0)) div k = (if r = 0 then 0 else 1)"
    using r assms by (cases r) (simp_all add: div_nat_eqI)
  finally have "(n + (k - Suc 0)) div k * k = (if r = 0 then q * k else q * k + k)" by simp
  then show ?thesis using n r by (simp add: r_def [symmetric])
qed

lemma align_up_eq:
  assumes "0 < align"
  shows "align_up a align =
    (let b = (unat a + (unat align - Suc 0)) div unat align * unat align
     in if b \<le> u64_max then Some (of_nat b) else None)"
proof -
  have k: "0 < unat align" using assms by (simp add: word_less_nat_alt)
  let ?r = "unat a mod unat align"
  have r: "unat (a mod align) = ?r" "a mod align = 0 \<longleftrightarrow> ?r = 0" by (simp_all add: unat_mod flip: unat_eq_0)
  have "?r < unat align" using k by simp
  then have u: "unat (u64_saturating_sub align (a mod align)) = unat align - ?r"
    by (simp add: u64_saturating_sub_def word_less_nat_alt r unat_sub word_le_nat_alt)
  then have w: "u64_saturating_sub align (a mod align) = of_nat (unat align - ?r)"
    by (simp flip: u)
  have "unat a < 2 ^ LENGTH(64)" by (rule unsigned_less)
  then have a: "unat a \<le> u64_max" by (simp add: u64_max_def)
  show ?thesis
  proof (cases "?r = 0")
    case True
    then show ?thesis using a by (simp add: align_up_def rem_euclid_def r round_up_eq [OF k] del: of_nat_mult)
  next
    case False
    then show ?thesis
      by (simp add: align_up_def rem_euclid_def Let_def r u64_checked_add_def round_up_eq [OF k] u del: of_nat_mult)
         (simp add: w)
  qed
qed

end
