(* ===== verification/Linux.thy ===== *)
theory Linux
  imports Linux_Params Linux_Random
begin

unbundle bit_operations_syntax

text \<open>
  Model of the Linux supervisor, \<^verbatim>\<open>pvm/linux.rs\<close> with \<^verbatim>\<open>linux/fds.rs\<close>, \<^verbatim>\<open>linux/fs.rs\<close>,
  \<^verbatim>\<open>linux/memory.rs\<close> and \<^verbatim>\<open>linux/rng.rs\<close>: the supervisor's state, one definition per system call
  handler, and the dispatcher \<^verbatim>\<open>handle_system_call\<close>.

  A handler acts on a \<open>linux_state\<close>: the supervisor's state, the machine core and the bytes passed to
  the \<^verbatim>\<open>putchar\<close> hook so far. Its result is a value, a Linux error or \<open>Crash\<close>, a panic or undefined
  behaviour of the implementation; what a handler has written before an error stays written.
\<close>

section \<open>State\<close>

record supervisor_state =
  tid_address :: virt_addr
  exited :: bool
  exit_code :: u64
  program :: "virt_addr \<times> virt_addr"
  heap :: "virt_addr \<times> virt_addr"
  stack_guard :: "virt_addr \<times> virt_addr"

definition supervisor_new :: supervisor_state where
  "supervisor_new =
     \<lparr>tid_address = VIRT_ADDR_DEFAULT, exited = False, exit_code = 0,
      program = (VIRT_ADDR_DEFAULT, VIRT_ADDR_DEFAULT), heap = (VIRT_ADDR_DEFAULT, VIRT_ADDR_DEFAULT),
      stack_guard = (VIRT_ADDR_DEFAULT, VIRT_ADDR_DEFAULT)\<rparr>"

record linux_state =
  supervisor :: supervisor_state
  mcore :: machine_core
  console :: "u8 list"

datatype 'a sys = Ret 'a | Fail linux_error | Crash

type_synonym 'a syscall = "linux_state \<Rightarrow> 'a sys \<times> linux_state"

text \<open>The \<^verbatim>\<open>?\<close> operator.\<close>

definition sys_bind :: "'a syscall \<Rightarrow> ('a \<Rightarrow> 'b syscall) \<Rightarrow> 'b syscall" where
  "sys_bind f k st =
     (case f st of (Ret x, st') \<Rightarrow> k x st' | (Fail e, st') \<Rightarrow> (Fail e, st') | (Crash, st') \<Rightarrow> (Crash, st'))"

definition sys_return :: "'a \<Rightarrow> 'a syscall" where
  "sys_return x st = (Ret x, st)"

definition sys_fail :: "linux_error \<Rightarrow> 'a syscall" where
  "sys_fail e st = (Fail e, st)"

text \<open>The conversions \<^verbatim>\<open>From<BadMemoryAccess>\<close> and \<^verbatim>\<open>From<MemoryGovernanceError>\<close>.\<close>

fun error_from :: "memory_error \<Rightarrow> 'a sys" where
  "error_from BadMemoryAccess = Fail Fault"
| "error_from MemoryGovernanceError = Fail NoMemory"
| "error_from Panic = Crash"
| "error_from UndefinedBehaviour = Crash"

definition sys_main_memory :: "linux_state \<Rightarrow> memory" where
  "sys_main_memory st = main_memory (mcore st)"

definition sys_set_memory :: "memory \<Rightarrow> linux_state \<Rightarrow> linux_state" where
  "sys_set_memory m st = st\<lparr>mcore := (mcore st)\<lparr>main_memory := m\<rparr>\<rparr>"

definition mem_query :: "(memory \<Rightarrow> memory_error + 'a) \<Rightarrow> 'a syscall" where
  "mem_query f st = (case f (sys_main_memory st) of Inl e \<Rightarrow> (error_from e, st) | Inr x \<Rightarrow> (Ret x, st))"

definition mem_update :: "(memory \<Rightarrow> memory_error + memory) \<Rightarrow> unit syscall" where
  "mem_update f st =
     (case f (sys_main_memory st) of Inl e \<Rightarrow> (error_from e, st) | Inr m \<Rightarrow> (Ret (), sys_set_memory m st))"

definition sys_write_x :: "xregister \<Rightarrow> xvalue \<Rightarrow> linux_state \<Rightarrow> linux_state" where
  "sys_write_x r v st = st\<lparr>mcore := xregister_write (mcore st) r v\<rparr>"

text \<open>\<^verbatim>\<open>Memory::write\<close> at an array of bytes.\<close>

definition mem_write_bytes :: "memory \<Rightarrow> address \<Rightarrow> u8 list \<Rightarrow> memory_error + memory" where
  "mem_write_bytes m address bs =
     (let w = length bs in
      if \<not> check_bounds m address w then Inl BadMemoryAccess
      else guard_access (can_access_narrow (writable_pages m) address w)
             (panic_or (dyn_region_write m (unat address) bs)))"

section \<open>File system\<close>

definition handle_faccessat :: "u64 syscall" where "handle_faccessat = sys_fail Access"

definition handle_openat :: "u64 syscall" where "handle_openat = sys_fail Access"

definition handle_close :: "u64 syscall" where "handle_close = sys_fail Access"

definition handle_read :: "u64 \<Rightarrow> u64 syscall" where
  "handle_read len = (if len = 0 then sys_return 0 else sys_fail Access)"

definition handle_readlinkat :: "u64 syscall" where "handle_readlinkat = sys_fail Access"

definition CWD :: "u8 list" where "CWD = [47, 0]"

definition handle_getcwd :: "u64 \<Rightarrow> u64 \<Rightarrow> u64 syscall" where
  "handle_getcwd buffer len =
     (if len = 0 \<and> buffer \<noteq> 0 then sys_fail InvalidArgument
      else if unat len < length CWD then sys_fail OutOfRange
      else sys_bind (mem_update (\<lambda>m. mem_write_all m buffer CWD)) (\<lambda>_. sys_return buffer))"

section \<open>File descriptors\<close>

definition putchar_all :: "u8 list \<Rightarrow> unit syscall" where
  "putchar_all bs st = (Ret (), st\<lparr>console := console st @ bs\<rparr>)"

definition write_to_fd :: "fd_writeable \<Rightarrow> virt_addr \<Rightarrow> u64 \<Rightarrow> u64 syscall" where
  "write_to_fd fd addr len =
     (let len = min len PAGE_BYTES in
      sys_bind (mem_query (\<lambda>m. mem_read_all m addr (unat len))) (\<lambda>bytes.
      sys_bind (case fd of StandardOutput \<Rightarrow> putchar_all bytes | StandardError \<Rightarrow> putchar_all bytes) (\<lambda>_.
      sys_return len)))"

definition handle_write :: "fd_writeable \<Rightarrow> virt_addr \<Rightarrow> u64 \<Rightarrow> u64 syscall" where
  "handle_write fd addr len = write_to_fd fd addr len"

definition SIZE_IOVEC :: u64 where "SIZE_IOVEC = 16"
definition OFFSET_BASE :: u64 where "OFFSET_BASE = 0"
definition OFFSET_LEN :: u64 where "OFFSET_LEN = 8"

text \<open>The loop \<^verbatim>\<open>'search\<close>: the next \<open>n\<close> entries from \<open>item\<close> on.\<close>

fun search_iovec :: "virt_addr \<Rightarrow> u64 \<Rightarrow> nat \<Rightarrow> (virt_addr \<times> u64) option syscall" where
  "search_iovec iovec item 0 = sys_return None"
| "search_iovec iovec item (Suc n) =
     (let struct_addr = iovec + SIZE_IOVEC * item;
          struct_addr_base = struct_addr + OFFSET_BASE;
          struct_addr_len = struct_addr + OFFSET_LEN
      in sys_bind (mem_query (\<lambda>m. mem_read m struct_addr_base)) (\<lambda>addr :: u64.
         sys_bind (mem_query (\<lambda>m. mem_read m struct_addr_len)) (\<lambda>len :: u64.
         if 0 < len then sys_return (Some (addr, len)) else search_iovec iovec (item + 1) n)))"

definition handle_writev :: "fd_writeable \<Rightarrow> virt_addr \<Rightarrow> u64 \<Rightarrow> u64 syscall" where
  "handle_writev fd iovec len =
     (if len < 1 then sys_return 0
      else let max_entries = min len (PAGE_BYTES div SIZE_IOVEC) in
           sys_bind (search_iovec iovec 0 (unat max_entries)) (\<lambda>found.
             case found of None \<Rightarrow> sys_return 0 | Some (addr, length') \<Rightarrow> write_to_fd fd addr length'))"

definition SIZE_POLLFD :: u64 where "SIZE_POLLFD = 8"
definition OFFSET_FD :: u64 where "OFFSET_FD = 0"
definition OFFSET_REVENTS :: u64 where "OFFSET_REVENTS = 6"

fun read_pollfds :: "u64 \<Rightarrow> u64 \<Rightarrow> nat \<Rightarrow> u32 list syscall" where
  "read_pollfds fd_ptrs i 0 = sys_return []"
| "read_pollfds fd_ptrs i (Suc n) =
     sys_bind (mem_query (\<lambda>m. mem_read m (i * SIZE_POLLFD + OFFSET_FD + fd_ptrs))) (\<lambda>fd.
     sys_bind (read_pollfds fd_ptrs (i + 1) n) (\<lambda>fds. sys_return (fd # fds)))"

fun clear_revents :: "u64 \<Rightarrow> u64 \<Rightarrow> nat \<Rightarrow> unit syscall" where
  "clear_revents fd_ptrs i 0 = sys_return ()"
| "clear_revents fd_ptrs i (Suc n) =
     (let revents_ptr = i * SIZE_POLLFD + OFFSET_REVENTS + fd_ptrs in
      sys_bind (mem_update (\<lambda>m. mem_write_all m revents_ptr (to_le_bytes (0 :: u16)))) (\<lambda>_.
      clear_revents fd_ptrs (i + 1) n))"

definition handle_ppoll :: "u64 \<Rightarrow> u64 \<Rightarrow> u64 syscall" where
  "handle_ppoll fd_ptrs num_fds =
     sys_bind (read_pollfds fd_ptrs 0 (unat num_fds)) (\<lambda>fds.
     if \<not> list_all (\<lambda>fd. fd \<in> {0, 1, 2}) fds then sys_fail NoSystemCall
     else sys_bind (clear_revents fd_ptrs 0 (unat num_fds)) (\<lambda>_. sys_return 0))"

section \<open>Memory\<close>

definition STACK_PAGES :: u64 where "STACK_PAGES = 0x2000"

definition STACK_SIZE :: u64 where "STACK_SIZE = PAGE_BYTES * STACK_PAGES"

definition handle_brk :: "u64 syscall" where
  "handle_brk st = sys_return (snd (program (supervisor st))) st"

definition handle_madvise :: "u64 syscall" where "handle_madvise = sys_return 0"

definition handle_mprotect :: "virt_addr \<Rightarrow> u64 \<Rightarrow> permissions \<Rightarrow> u64 syscall" where
  "handle_mprotect addr len perms =
     sys_bind (mem_update (\<lambda>m. protect_pages m addr (unat len) perms)) (\<lambda>_. sys_return 0)"

text \<open>The call of \<^verbatim>\<open>allocate_and_protect_pages\<close>, which may have written to the memory when it fails.\<close>

definition mem_allocate :: "address option \<Rightarrow> nat \<Rightarrow> permissions \<Rightarrow> bool \<Rightarrow> u64 syscall" where
  "mem_allocate hint len perms replace st =
     (case allocate_and_protect_pages (sys_main_memory st) hint len perms replace of
        (Inl e, m) \<Rightarrow> (error_from e, sys_set_memory m st)
      | (Inr a, m) \<Rightarrow> (Ret a, sys_set_memory m st))"

definition handle_mmap :: "virt_addr \<Rightarrow> u64 \<Rightarrow> permissions \<Rightarrow> mmap_flags \<Rightarrow> u64 syscall" where
  "handle_mmap addr len perms flags =
     (case flag_visibility flags of
        Shared \<Rightarrow> sys_fail NoSystemCall
      | Private \<Rightarrow>
         (case flag_backend flags of
            FileBackend \<Rightarrow> sys_fail NoSystemCall
          | NoBackend \<Rightarrow>
             sys_bind
               (case flag_addr_hint flags of
                  Hint \<Rightarrow> mem_allocate None (unat len) perms False
                | Fixed replace \<Rightarrow>
                    if \<not> is_aligned addr PAGE_BYTES then sys_fail InvalidArgument
                    else mem_allocate (Some addr) (unat len) perms replace)
               (\<lambda>res_addr. sys_return res_addr)))"

text \<open>\<^verbatim>\<open>munmap\<close> replaces every memory error.\<close>

definition handle_munmap :: "u64 \<Rightarrow> u64 \<Rightarrow> u64 syscall" where
  "handle_munmap addr len st =
     (case deallocate_and_protect_pages (sys_main_memory st) addr (unat len) of
        Inr m \<Rightarrow> (Ret 0, sys_set_memory m st)
      | Inl Panic \<Rightarrow> (Crash, st)
      | Inl UndefinedBehaviour \<Rightarrow> (Crash, st)
      | Inl _ \<Rightarrow> (Fail InvalidArgument, st))"

section \<open>Random bytes\<close>

definition handle_getrandom :: "u64 \<Rightarrow> u64 \<Rightarrow> u64 syscall" where
  "handle_getrandom buffer len =
     (let actual_length = min len (of_nat (length RANDOM)); bytes = take (unat actual_length) RANDOM in
      sys_bind (mem_update (\<lambda>m. mem_write_all m buffer bytes)) (\<lambda>_. sys_return actual_length))"

section \<open>Process and signals\<close>

definition handle_set_tid_address :: "virt_addr \<Rightarrow> u64 syscall" where
  "handle_set_tid_address a st =
     sys_return MAIN_THREAD_ID (st\<lparr>supervisor := (supervisor st)\<lparr>tid_address := a\<rparr>\<rparr>)"

definition handle_set_robust_list :: "virt_addr \<Rightarrow> u64 syscall" where
  "handle_set_robust_list head = sys_return 0"

definition handle_exit :: "u64 \<Rightarrow> system_call_result syscall" where
  "handle_exit status st =
     sys_return \<lparr>sc_result = status, sc_control_flow = False\<rparr>
       (st\<lparr>supervisor := (supervisor st)\<lparr>exit_code := status, exited := True\<rparr>\<rparr>)"

definition zero_old :: "u64 option \<Rightarrow> nat \<Rightarrow> u64 syscall" where
  "zero_old old n =
     sys_bind (case old of None \<Rightarrow> sys_return () | Some a \<Rightarrow> mem_update (\<lambda>m. mem_write_bytes m a (replicate n 0)))
       (\<lambda>_. sys_return 0)"

definition SIZE_SIGALTSTACK :: nat where "SIZE_SIGALTSTACK = 24"
definition SIZE_SIGACTION :: nat where "SIZE_SIGACTION = 32"

definition handle_sigaltstack :: "u64 \<Rightarrow> u64 option \<Rightarrow> u64 syscall" where
  "handle_sigaltstack new old = zero_old old SIZE_SIGALTSTACK"

definition handle_rt_sigaction :: "u64 \<Rightarrow> u64 \<Rightarrow> u64 option \<Rightarrow> u64 syscall" where
  "handle_rt_sigaction sig act old = zero_old old SIZE_SIGACTION"

definition handle_rt_sigprocmask :: "u64 \<Rightarrow> u64 \<Rightarrow> u64 option \<Rightarrow> u64 syscall" where
  "handle_rt_sigprocmask how new old = zero_old old (unat SIGSET_SIZE)"

definition handle_tkill :: "u8 \<Rightarrow> system_call_result syscall" where
  "handle_tkill signal st =
     sys_return \<lparr>sc_result = 0, sc_control_flow = False\<rparr>
       (st\<lparr>supervisor := (supervisor st)\<lparr>exited := True, exit_code := signal_exit_code signal\<rparr>\<rparr>)"

definition handle_getpid :: "u64 syscall" where "handle_getpid = sys_return 1"

section \<open>Time and scheduling\<close>

definition TIMESPEC_SIZE :: nat where "TIMESPEC_SIZE = 16"

definition handle_clock_gettime :: "u64 \<Rightarrow> u64 \<Rightarrow> u64 syscall" where
  "handle_clock_gettime clockid tp =
     (if tp \<noteq> 0 then sys_bind (mem_update (\<lambda>m. mem_write_bytes m tp (replicate TIMESPEC_SIZE 0))) (\<lambda>_. sys_return 0)
      else sys_fail InvalidArgument)"

fun zero_mask :: "virt_addr \<Rightarrow> u64 \<Rightarrow> nat \<Rightarrow> unit syscall" where
  "zero_mask msk i 0 = sys_return ()"
| "zero_mask msk i (Suc n) =
     sys_bind (mem_update (\<lambda>m. mem_write m (msk + i) (0 :: u8))) (\<lambda>_. zero_mask msk (i + 1) n)"

definition SINGLE_PROCESS_PID_AFFINITY :: u8 where "SINGLE_PROCESS_PID_AFFINITY = 0b1"

definition handle_sched_getaffinity :: "u64 \<Rightarrow> virt_addr \<Rightarrow> u64 syscall" where
  "handle_sched_getaffinity cpusetsize msk =
     (let other_bytes_size = cpusetsize - 1 in
      sys_bind (zero_mask msk 0 (unat other_bytes_size)) (\<lambda>_.
      sys_bind (mem_update (\<lambda>m. mem_write m (msk + other_bytes_size) SINGLE_PROCESS_PID_AFFINITY)) (\<lambda>_.
      sys_return cpusetsize)))"

definition TIMEVAL_SIZE :: nat where "TIMEVAL_SIZE = 16"
definition TIMEZONE_SIZE :: nat where "TIMEZONE_SIZE = 8"

definition zero_unless_null :: "u64 \<Rightarrow> nat \<Rightarrow> unit syscall" where
  "zero_unless_null a n =
     (if a \<noteq> 0 then mem_update (\<lambda>m. mem_write_bytes m a (replicate n 0)) else sys_return ())"

definition handle_gettimeofday :: "u64 \<Rightarrow> u64 \<Rightarrow> u64 syscall" where
  "handle_gettimeofday tv tz =
     sys_bind (zero_unless_null tv TIMEVAL_SIZE) (\<lambda>_.
     sys_bind (zero_unless_null tz TIMEZONE_SIZE) (\<lambda>_. sys_return 0))"

section \<open>Dispatch\<close>

definition GETCWD :: u64 where "GETCWD = 17"
definition FACCESSAT :: u64 where "FACCESSAT = 48"
definition OPENAT :: u64 where "OPENAT = 56"
definition CLOSE :: u64 where "CLOSE = 57"
definition READ :: u64 where "READ = 63"
definition WRITE :: u64 where "WRITE = 64"
definition WRITEV :: u64 where "WRITEV = 66"
definition PPOLL :: u64 where "PPOLL = 73"
definition READLINKAT :: u64 where "READLINKAT = 78"
definition EXIT :: u64 where "EXIT = 93"
definition EXITGROUP :: u64 where "EXITGROUP = 94"
definition SET_TID_ADDRESS :: u64 where "SET_TID_ADDRESS = 96"
definition SET_ROBUST_LIST :: u64 where "SET_ROBUST_LIST = 99"
definition TKILL :: u64 where "TKILL = 130"
definition SIGALTSTACK :: u64 where "SIGALTSTACK = 132"
definition RT_SIGACTION :: u64 where "RT_SIGACTION = 134"
definition RT_SIGPROCMASK :: u64 where "RT_SIGPROCMASK = 135"
definition GETPID :: u64 where "GETPID = 172"
definition BRK :: u64 where "BRK = 214"
definition MUNMAP :: u64 where "MUNMAP = 215"
definition MMAP :: u64 where "MMAP = 222"
definition MPROTECT :: u64 where "MPROTECT = 226"
definition MADVISE :: u64 where "MADVISE = 233"
definition GETRANDOM :: u64 where "GETRANDOM = 278"
definition CLOCK_GETTIME :: u64 where "CLOCK_GETTIME = 113"
definition SCHED_GETAFFINITY :: u64 where "SCHED_GETAFFINITY = 123"
definition GETTIMEOFDAY :: u64 where "GETTIMEOFDAY = 169"

text \<open>\<^verbatim>\<open>read_arg!\<close> and \<^verbatim>\<open>check_result!\<close>. The registers \<^verbatim>\<open>a0\<close> to \<^verbatim>\<open>a7\<close> are \<open>x10\<close> to \<open>x17\<close>.\<close>

definition read_arg :: "(u64 \<Rightarrow> linux_error + 'a) \<Rightarrow> xregister \<Rightarrow> 'a syscall" where
  "read_arg try_from r st =
     (case try_from (xregister_read (mcore st) r) of Inl e \<Rightarrow> (Fail e, st) | Inr v \<Rightarrow> (Ret v, st))"

definition check_result :: "system_call_result syscall \<Rightarrow> bool syscall" where
  "check_result handler =
     sys_bind handler (\<lambda>res st. (Ret (sc_control_flow res), sys_write_x x10 (sc_result res) st))"

definition check_value :: "u64 syscall \<Rightarrow> bool syscall" where
  "check_value handler = check_result (sys_bind handler (\<lambda>v. sys_return (system_call_result_from v)))"

definition system_call :: "u64 \<Rightarrow> bool syscall" where
  "system_call no =
     (if no = GETCWD then
        sys_bind (read_arg Inr x10) (\<lambda>arg1. sys_bind (read_arg Inr x11) (\<lambda>arg2. check_value (handle_getcwd arg1 arg2)))
      else if no = FACCESSAT then check_value handle_faccessat
      else if no = OPENAT then check_value handle_openat
      else if no = CLOSE then check_value handle_close
      else if no = READ then sys_bind (read_arg Inr x10) (\<lambda>arg1. check_value (handle_read arg1))
      else if no = WRITE then
        sys_bind (read_arg fd_writeable_try_from x10) (\<lambda>arg1. sys_bind (read_arg Inr x11) (\<lambda>arg2.
        sys_bind (read_arg Inr x12) (\<lambda>arg3. check_value (handle_write arg1 arg2 arg3))))
      else if no = WRITEV then
        sys_bind (read_arg fd_writeable_try_from x10) (\<lambda>arg1. sys_bind (read_arg Inr x11) (\<lambda>arg2.
        sys_bind (read_arg Inr x12) (\<lambda>arg3. check_value (handle_writev arg1 arg2 arg3))))
      else if no = PPOLL then
        sys_bind (read_arg Inr x10) (\<lambda>arg1. sys_bind (read_arg fd_count_try_from x11) (\<lambda>arg2.
        check_value (handle_ppoll arg1 arg2)))
      else if no = READLINKAT then check_value handle_readlinkat
      else if no = EXIT \<or> no = EXITGROUP then sys_bind (read_arg Inr x10) (\<lambda>arg1. check_result (handle_exit arg1))
      else if no = SET_TID_ADDRESS then
        sys_bind (read_arg Inr x10) (\<lambda>arg1. check_value (handle_set_tid_address arg1))
      else if no = GETPID then check_value handle_getpid
      else if no = SET_ROBUST_LIST then
        sys_bind (read_arg Inr x10) (\<lambda>arg1. sys_bind (read_arg robust_list_head_size_try_from x11) (\<lambda>_.
        check_value (handle_set_robust_list arg1)))
      else if no = TKILL then
        sys_bind (read_arg main_thread_id_try_from x10) (\<lambda>_. sys_bind (read_arg signal_try_from x11) (\<lambda>arg2.
        check_result (handle_tkill arg2)))
      else if no = SIGALTSTACK then
        sys_bind (read_arg Inr x10) (\<lambda>arg1. sys_bind (read_arg (Inr \<circ> signal_action_from) x11) (\<lambda>arg2.
        check_value (handle_sigaltstack arg1 arg2)))
      else if no = RT_SIGACTION then
        sys_bind (read_arg Inr x10) (\<lambda>arg1. sys_bind (read_arg Inr x11) (\<lambda>arg2.
        sys_bind (read_arg (Inr \<circ> signal_action_from) x12) (\<lambda>arg3. sys_bind (read_arg sigset_size_try_from x13) (\<lambda>_.
        check_value (handle_rt_sigaction arg1 arg2 arg3)))))
      else if no = RT_SIGPROCMASK then
        sys_bind (read_arg Inr x10) (\<lambda>arg1. sys_bind (read_arg Inr x11) (\<lambda>arg2.
        sys_bind (read_arg (Inr \<circ> signal_action_from) x12) (\<lambda>arg3. sys_bind (read_arg sigset_size_try_from x13) (\<lambda>_.
        check_value (handle_rt_sigprocmask arg1 arg2 arg3)))))
      else if no = BRK then check_value handle_brk
      else if no = MMAP then
        sys_bind (read_arg Inr x10) (\<lambda>arg1. sys_bind (read_arg non_zero_try_from x11) (\<lambda>arg2.
        sys_bind (read_arg permissions_try_from x12) (\<lambda>arg3. sys_bind (read_arg flags_try_from x13) (\<lambda>arg4.
        sys_bind (read_arg no_fd_try_from x14) (\<lambda>_. sys_bind (read_arg zero_try_from x15) (\<lambda>_.
        check_value (handle_mmap arg1 arg2 arg3 arg4)))))))
      else if no = MPROTECT then
        sys_bind (read_arg page_aligned_try_from x10) (\<lambda>arg1. sys_bind (read_arg Inr x11) (\<lambda>arg2.
        sys_bind (read_arg permissions_try_from x12) (\<lambda>arg3. check_value (handle_mprotect arg1 arg2 arg3))))
      else if no = MUNMAP then
        sys_bind (read_arg Inr x10) (\<lambda>arg1. sys_bind (read_arg Inr x11) (\<lambda>arg2. check_value (handle_munmap arg1 arg2)))
      else if no = MADVISE then check_value handle_madvise
      else if no = GETRANDOM then
        sys_bind (read_arg Inr x10) (\<lambda>arg1. sys_bind (read_arg Inr x11) (\<lambda>arg2. check_value (handle_getrandom arg1 arg2)))
      else if no = CLOCK_GETTIME then
        sys_bind (read_arg Inr x10) (\<lambda>arg1. sys_bind (read_arg Inr x11) (\<lambda>arg2. check_value (handle_clock_gettime arg1 arg2)))
      else if no = SCHED_GETAFFINITY then
        sys_bind (read_arg process_id_try_from x10) (\<lambda>_. sys_bind (read_arg cpu_set_size_try_from x11) (\<lambda>arg2.
        sys_bind (read_arg Inr x12) (\<lambda>arg3. check_value (handle_sched_getaffinity arg2 arg3))))
      else if no = GETTIMEOFDAY then
        sys_bind (read_arg Inr x10) (\<lambda>arg1. sys_bind (read_arg Inr x11) (\<lambda>arg2. check_value (handle_gettimeofday arg1 arg2)))
      else sys_fail NoSystemCall)"

definition write_system_call_error :: "linux_error \<Rightarrow> linux_state \<Rightarrow> linux_state" where
  "write_system_call_error e st = sys_write_x x10 (into_xvalue e) st"

text \<open>The numbers the dispatcher's \<^verbatim>\<open>match\<close> lists before the one of the Tezos host functions.\<close>

definition linux_numbers :: "u64 list" where
  "linux_numbers =
     [GETCWD, FACCESSAT, OPENAT, CLOSE, READ, WRITE, WRITEV, PPOLL, READLINKAT, EXIT, EXITGROUP, SET_TID_ADDRESS,
      GETPID, SET_ROBUST_LIST, TKILL, SIGALTSTACK, RT_SIGACTION, RT_SIGPROCMASK, BRK, MMAP, MPROTECT, MUNMAP,
      MADVISE, GETRANDOM, CLOCK_GETTIME, SCHED_GETAFFINITY, GETTIMEOFDAY]"

text \<open>
  \<^verbatim>\<open>handle_system_call\<close>: the system call number of the Tezos host functions is a constant of another
  crate, and the closure for them works on a state \<open>'h\<close> of its caller. \<open>None\<close> is a crash.
\<close>

definition linux_handle_system_call ::
    "u64 \<Rightarrow> ('h \<Rightarrow> machine_core \<Rightarrow> (bool \<times> 'h \<times> machine_core) option) \<Rightarrow> 'h \<Rightarrow> linux_state \<Rightarrow>
     (bool \<times> 'h \<times> linux_state) option" where
  "linux_handle_system_call SBI_FIRMWARE_TEZOS on_tezos h st =
     (let h0 = hart (mcore st);
          st = st\<lparr>mcore := (mcore st)\<lparr>hart := h0\<lparr>pc := u64_saturating_add (pc h0) 4\<rparr>\<rparr>\<rparr>;
          system_call_no = xregister_read (mcore st) x17
      in if system_call_no = SBI_FIRMWARE_TEZOS \<and> system_call_no \<notin> set linux_numbers then
           map_option (\<lambda>(continue_eval, h, c). (continue_eval, h, st\<lparr>mcore := c\<rparr>)) (on_tezos h (mcore st))
         else (case system_call system_call_no st of
                 (Crash, _) \<Rightarrow> None
               | (Fail e, st) \<Rightarrow> Some (e \<noteq> NoSystemCall, h, write_system_call_error e st)
               | (Ret continue_eval, st) \<Rightarrow> Some (continue_eval, h, st)))"

end
