(* ===== verification/Linux_Correct.thy ===== *)
theory Linux_Correct
  imports Linux Machine_Refine Memory_Governance
begin

unbundle bit_operations_syntax

text \<open>
  What system calls do to the machine. The calls outside memory management reach the memory only
  through stores that the pages permit, so they keep the memory's invariant, its permissions and the
  code that cached blocks hold; only \<^verbatim>\<open>a0\<close> changes among the registers.
\<close>

section \<open>Sequences of stores\<close>

abbreviation stores :: "memory \<Rightarrow> memory \<Rightarrow> bool" where
  "stores \<equiv> stored\<^sup>*\<^sup>*"

lemma stores_induct_inv:
  assumes "stores m m'" and "memory_inv m"
    and "\<And>m1 m2. memory_inv m1 \<Longrightarrow> stored m1 m2 \<Longrightarrow> P m1 \<Longrightarrow> P m2" and "P m"
  shows "memory_inv m' \<and> P m'"
  using assms(1)
proof (induction rule: rtranclp_induct)
  case (step y z)
  then show ?case using assms(3) stored_inv by blast
qed (use assms(2,4) in simp)

lemma stores_inv: "stores m m' \<Longrightarrow> memory_inv m \<Longrightarrow> memory_inv m'"
  using stores_induct_inv [of m m' "\<lambda>_. True"] by simp

lemma stores_code_at: "stores m m' \<Longrightarrow> memory_inv m \<Longrightarrow> code_at m a i \<Longrightarrow> code_at m' a i"
  using stores_induct_inv [of m m' "\<lambda>m. code_at m a i"] code_at_stored by blast

lemma stored_pages_eq:
  "stored m m' \<Longrightarrow> PAGES m' = PAGES m \<and> TOTAL_BYTES m' = TOTAL_BYTES m \<and> readable_pages m' = readable_pages m \<and>
     writable_pages m' = writable_pages m \<and> executable_pages m' = executable_pages m \<and> allocated_pages m' = allocated_pages m"
  by (auto simp: stored_def)

lemma stores_pages_eq:
  "stores m m' \<Longrightarrow> PAGES m' = PAGES m \<and> TOTAL_BYTES m' = TOTAL_BYTES m \<and> readable_pages m' = readable_pages m \<and>
     writable_pages m' = writable_pages m \<and> executable_pages m' = executable_pages m \<and> allocated_pages m' = allocated_pages m"
  by (induction rule: rtranclp_induct) (auto dest: stored_pages_eq)

lemma stored_data:
  assumes "stored m m'" and "data m' k \<noteq> data m k"
  shows "k < TOTAL_BYTES m \<and> writable_pages m ! (k div PAGE_SIZE)"
proof -
  from assms obtain a bs where "m' = overwrite m (unat a) bs" and ok: "write_ok (length bs) m a"
    by (auto simp: stored_def)
  then have k: "unat a \<le> k" "k < unat a + length bs" using assms(2) data_overwrite_outside [of "unat a" k bs m] by auto
  then have "range_allowed (writable_pages m) a (length bs)" "in_memory m a (length bs)" using ok by (auto simp: write_ok_def)
  moreover have "k = unat a + (k - unat a)" "k - unat a < length bs" using k by auto
  ultimately show ?thesis using k unfolding range_allowed_def in_memory_def by fastforce
qed

text \<open>Stores change bytes of writable pages only.\<close>

lemma stores_data:
  "stores m m' \<Longrightarrow> data m' k \<noteq> data m k \<Longrightarrow> k < TOTAL_BYTES m \<and> writable_pages m ! (k div PAGE_SIZE)"
proof (induction rule: rtranclp_induct)
  case (step y z)
  then show ?case using stored_data [OF step.hyps(2), of k] stores_pages_eq [OF step.hyps(1)] by (cases "data y k = data m k") auto
qed simp

section \<open>Memory operations of the handlers\<close>

lemma mem_write_all_bytes:
  fixes bs :: "u8 list"
  assumes "memory_inv m"
  shows "mem_write_all m a bs =
    (if write_ok (length bs) m a \<and> (bs = [] \<longrightarrow> unat a \<le> TOTAL_BYTES m) then Inr (overwrite m (unat a) bs)
     else if bs = [] then Inl Panic else Inl BadMemoryAccess)"
proof -
  have "concat (map to_le_bytes bs) = bs" by (induction bs) (simp_all add: to_le_bytes_def)
  then show ?thesis using mem_write_all_eq [OF assms, of "length bs" bs a] by (simp add: write_ok_def)
qed

lemma mem_write_bytes_eq:
  assumes "memory_inv m" and "bs \<noteq> []" and "length bs < PAGE_SIZE"
  shows "mem_write_bytes m a bs = (if write_ok (length bs) m a then Inr (overwrite m (unat a) bs) else Inl BadMemoryAccess)"
proof (cases "in_memory m a (length bs)")
  case True
  have "can_access_narrow (writable_pages m) a (length bs) = can_access (writable_pages m) a (length bs)"
    using assms True by (intro can_access_narrow_eq) (auto simp: memory_inv_def in_memory_def)
  with memory_inv_access [OF assms(1) True] True assms(2) show ?thesis
    by (auto simp: mem_write_bytes_def Let_def check_bounds_iff write_ok_def guard_access_def panic_or_def
        dyn_region_write_eq in_memory_def)
qed (simp add: mem_write_bytes_def Let_def check_bounds_iff write_ok_def)

lemma mem_read_all_bytes:
  assumes "memory_inv m"
  shows "(mem_read_all m a n :: memory_error + u8 list) =
    (if in_memory m a n \<and> range_allowed (readable_pages m) a n \<and> (n = 0 \<longrightarrow> unat a \<le> TOTAL_BYTES m)
     then Inr (bytes_of m a n) else if n = 0 then Inl Panic else Inl BadMemoryAccess)"
proof -
  have "map (from_le_bytes :: u8 list \<Rightarrow> u8) (chunks (Suc 0) (length bs) bs) = bs" for bs :: "u8 list"
    by (induction bs) simp_all
  from this [of "bytes_of m a n"] mem_read_all_eq [OF assms, where 'a = 8, of n n a] show ?thesis
    by (simp add: bytes_of_def)
qed

section \<open>Contracts of handlers\<close>

text \<open>
  A handler is safe for an effect when it never crashes and every state it leaves, also after an
  error, is related to the one it started in.
\<close>

definition sys_safe :: "(linux_state \<Rightarrow> linux_state \<Rightarrow> bool) \<Rightarrow> 'a syscall \<Rightarrow> bool" where
  "sys_safe R f \<longleftrightarrow>
     (\<forall>st r st'. memory_inv (sys_main_memory st) \<longrightarrow> f st = (r, st') \<longrightarrow>
        r \<noteq> Crash \<and> R st st' \<and> memory_inv (sys_main_memory st'))"

lemma sys_safeI:
  "(\<And>st r st'. memory_inv (sys_main_memory st) \<Longrightarrow> f st = (r, st') \<Longrightarrow> r \<noteq> Crash \<and> R st st' \<and> memory_inv (sys_main_memory st')) \<Longrightarrow>
   sys_safe R f"
  by (simp add: sys_safe_def)

lemma sys_safeD:
  "sys_safe R f \<Longrightarrow> memory_inv (sys_main_memory st) \<Longrightarrow> f st = (r, st') \<Longrightarrow>
     r \<noteq> Crash \<and> R st st' \<and> memory_inv (sys_main_memory st')"
  by (simp add: sys_safe_def)

lemma sys_memory_simps [simp]:
  "sys_main_memory (sys_set_memory m st) = m" "sys_main_memory (sys_write_x r v st) = sys_main_memory st"
  "sys_main_memory (st\<lparr>supervisor := sv\<rparr>) = sys_main_memory st" "sys_main_memory (st\<lparr>console := out\<rparr>) = sys_main_memory st"
  by (simp_all add: sys_main_memory_def sys_set_memory_def sys_write_x_def xregister_write_def)

lemma RANDOM_prefix: "n \<noteq> 0 \<Longrightarrow> unat (min n 4096 :: u64) \<noteq> 0" "RANDOM \<noteq> []"
  using length_RANDOM by (auto simp: min_def unat_eq_0 simp del: length_RANDOM)

lemma search_iovec_found: "search_iovec iovec item n st = (Ret (Some (addr, len)), st') \<Longrightarrow> len \<noteq> 0"
  by (induction n arbitrary: item st)
     (auto simp: sys_bind_def sys_return_def Let_def mem_query_def split: sys.splits prod.splits sum.splits if_splits)

text \<open>
  An effect that contains every permitted store, every output, the write of the result register and
  the supervisor's own state is the effect of the system calls.
\<close>

locale call_effect =
  fixes R :: "linux_state \<Rightarrow> linux_state \<Rightarrow> bool"
  assumes refl: "R st st"
    and trans: "R st st' \<Longrightarrow> R st' st'' \<Longrightarrow> R st st''"
    and store: "memory_inv (sys_main_memory st) \<Longrightarrow> stored (sys_main_memory st) m \<Longrightarrow> R st (sys_set_memory m st)"
    and print: "R st (st\<lparr>console := console st @ bs\<rparr>)"
    and answer: "R st (sys_write_x x10 v st)"
    and supervise: "R st (st\<lparr>supervisor := sv\<rparr>)"
begin

lemma safe_return: "sys_safe R (sys_return x)" and safe_fail: "sys_safe R (sys_fail e)"
  by (auto simp: sys_safe_def sys_return_def sys_fail_def refl)

lemma safe_bind_post:
  assumes f: "sys_safe R f" and P: "\<And>st x st'. f st = (Ret x, st') \<Longrightarrow> P x" and k: "\<And>x. P x \<Longrightarrow> sys_safe R (k x)"
  shows "sys_safe R (sys_bind f k)"
proof (rule sys_safeI)
  fix st r st'
  assume inv: "memory_inv (sys_main_memory st)" and run: "sys_bind f k st = (r, st')"
  obtain r1 st1 where 1: "f st = (r1, st1)" by fastforce
  note first = sys_safeD [OF f inv 1]
  show "r \<noteq> Crash \<and> R st st' \<and> memory_inv (sys_main_memory st')"
  proof (cases r1)
    case (Ret x)
    with run 1 have "k x st1 = (r, st')" by (simp add: sys_bind_def)
    from sys_safeD [OF k _ this] P [of st x st1] Ret 1 first show ?thesis by (blast intro: trans)
  qed (use run 1 first in \<open>auto simp: sys_bind_def\<close>)
qed

lemma safe_bind: "sys_safe R f \<Longrightarrow> (\<And>x. sys_safe R (k x)) \<Longrightarrow> sys_safe R (sys_bind f k)"
  by (rule safe_bind_post [where P = "\<lambda>_. True"]) auto

lemma safe_read_arg: "sys_safe R (read_arg conv r)"
  by (auto simp: sys_safe_def read_arg_def refl split: sum.splits)

lemma safe_update:
  "(\<And>m. memory_inv m \<Longrightarrow> f m = Inl BadMemoryAccess \<or> (\<exists>m'. f m = Inr m' \<and> stored m m')) \<Longrightarrow> sys_safe R (mem_update f)"
  by (rule sys_safeI) (fastforce simp: mem_update_def refl store stored_inv split: sum.splits)

lemma safe_query:
  "(\<And>m. memory_inv m \<Longrightarrow> f m = Inl BadMemoryAccess \<or> (\<exists>x. f m = Inr x)) \<Longrightarrow> sys_safe R (mem_query f)"
  by (rule sys_safeI) (fastforce simp: mem_query_def refl split: sum.splits)

lemma safe_write_all: "bs \<noteq> [] \<Longrightarrow> sys_safe R (mem_update (\<lambda>m. mem_write_all m a (bs :: u8 list)))"
  by (rule safe_update) (auto simp: mem_write_all_bytes stored_def)

lemma safe_write_bytes:
  "bs \<noteq> [] \<Longrightarrow> length bs < PAGE_SIZE \<Longrightarrow> sys_safe R (mem_update (\<lambda>m. mem_write_bytes m a bs))"
  by (rule safe_update) (auto simp: mem_write_bytes_eq stored_def)

lemma safe_write: "elem_type TYPE('a::len) \<Longrightarrow> sys_safe R (mem_update (\<lambda>m. mem_write m a (v :: 'a word)))"
  by (rule safe_update) (auto simp: mem_write_eq stored_def write_ok_def intro!: exI [of _ a] exI [of _ "to_le_bytes v"])

lemma safe_read: "elem_type TYPE('a::len) \<Longrightarrow> sys_safe R (mem_query (\<lambda>m. mem_read m a :: memory_error + 'a word))"
  by (rule safe_query) (auto simp: mem_read_eq)

lemma safe_read_all: "0 < n \<Longrightarrow> sys_safe R (mem_query (\<lambda>m. mem_read_all m a n :: memory_error + u8 list))"
  by (rule safe_query) (auto simp: mem_read_all_bytes)

lemma safe_putchar: "sys_safe R (putchar_all bs)"
  by (rule sys_safeI) (auto simp: putchar_all_def print)

lemmas safe_basic = safe_return safe_fail safe_bind safe_read_arg safe_write_all safe_write_bytes safe_write safe_read
  safe_read_all safe_putchar

lemma safe_if: "(P \<Longrightarrow> sys_safe R f) \<Longrightarrow> (\<not> P \<Longrightarrow> sys_safe R g) \<Longrightarrow> sys_safe R (if P then f else g)"
  by simp

lemma safe_search: "sys_safe R (search_iovec iovec item n)"
  by (induction n arbitrary: item) (auto simp: Let_def intro!: safe_basic)

lemma safe_pollfds: "sys_safe R (read_pollfds p i n)"
  by (induction n arbitrary: i) (auto intro!: safe_basic)

lemma safe_revents: "sys_safe R (clear_revents p i n)"
  by (induction n arbitrary: i) (auto simp: Let_def to_le_bytes_def intro!: safe_basic)

lemma safe_zero_mask: "sys_safe R (zero_mask msk i n)"
  by (induction n arbitrary: i) (auto intro!: safe_basic)

lemma safe_write_to_fd: "len \<noteq> 0 \<Longrightarrow> sys_safe R (write_to_fd fd a len)"
  by (auto simp: write_to_fd_def Let_def PAGE_BYTES_eq min_def unat_gt_0 intro!: safe_basic split: fd_writeable.split)

lemma safe_supervise: "sys_safe R (\<lambda>st. sys_return x (st\<lparr>supervisor := g st\<rparr>))"
  by (rule sys_safeI) (auto simp: sys_return_def supervise)

lemma safe_check_result: "sys_safe R f \<Longrightarrow> sys_safe R (check_result f)"
  unfolding check_result_def by (erule safe_bind) (auto simp: sys_safe_def answer)

lemma safe_check_value: "sys_safe R f \<Longrightarrow> sys_safe R (check_value f)"
  unfolding check_value_def by (auto intro: safe_check_result safe_basic)

lemma safe_zero_old: "0 < n \<Longrightarrow> n < PAGE_SIZE \<Longrightarrow> sys_safe R (zero_old old n)"
  by (auto simp: zero_old_def intro!: safe_basic split: option.split)

lemma safe_zero_unless_null: "0 < n \<Longrightarrow> n < PAGE_SIZE \<Longrightarrow> sys_safe R (zero_unless_null a n)"
  by (auto simp: zero_unless_null_def intro!: safe_basic)

lemma safe_files:
  "sys_safe R handle_faccessat" "sys_safe R handle_openat" "sys_safe R handle_close" "sys_safe R (handle_read n)"
  "sys_safe R handle_readlinkat" "sys_safe R (handle_getcwd b n)"
  by (auto simp: handle_faccessat_def handle_openat_def handle_close_def handle_read_def handle_readlinkat_def
      handle_getcwd_def CWD_def intro!: safe_basic)

lemma safe_descriptors:
  "n \<noteq> 0 \<Longrightarrow> sys_safe R (handle_write fd a n)" "sys_safe R (handle_writev fd a k)" "sys_safe R (handle_ppoll p j)"
proof -
  show "n \<noteq> 0 \<Longrightarrow> sys_safe R (handle_write fd a n)" by (simp add: handle_write_def safe_write_to_fd)
  have "sys_safe R (sys_bind (search_iovec a 0 i) (\<lambda>found. case found of None \<Rightarrow> sys_return 0 | Some (addr, l) \<Rightarrow> write_to_fd fd addr l))" for i
    by (rule safe_bind_post [where P = "\<lambda>found. \<forall>addr l. found = Some (addr, l) \<longrightarrow> l \<noteq> 0"])
       (auto intro: safe_search safe_return safe_write_to_fd dest: search_iovec_found split: option.split)
  then show "sys_safe R (handle_writev fd a k)"
    by (simp add: handle_writev_def Let_def safe_return)
  show "sys_safe R (handle_ppoll p j)"
    by (auto simp: handle_ppoll_def intro!: safe_basic safe_pollfds safe_revents)
qed

lemma safe_process:
  "sys_safe R (handle_set_tid_address a)" "sys_safe R (handle_set_robust_list h)" "sys_safe R (handle_exit status)"
  "sys_safe R (handle_sigaltstack x old)" "sys_safe R (handle_rt_sigaction x y old)"
  "sys_safe R (handle_rt_sigprocmask x y old)" "sys_safe R (handle_tkill sig)" "sys_safe R handle_getpid"
  using safe_supervise [where x = MAIN_THREAD_ID and g = "\<lambda>st. (supervisor st)\<lparr>tid_address := a\<rparr>"]
    safe_supervise [where x = "\<lparr>sc_result = status, sc_control_flow = False\<rparr>"
      and g = "\<lambda>st. (supervisor st)\<lparr>exit_code := status, exited := True\<rparr>"]
    safe_supervise [where x = "\<lparr>sc_result = 0, sc_control_flow = False\<rparr>"
      and g = "\<lambda>st. (supervisor st)\<lparr>exited := True, exit_code := signal_exit_code sig\<rparr>"]
  by (auto simp: handle_set_tid_address_def [abs_def] handle_set_robust_list_def handle_exit_def [abs_def] handle_sigaltstack_def
      handle_rt_sigaction_def handle_rt_sigprocmask_def handle_tkill_def [abs_def] handle_getpid_def SIZE_SIGALTSTACK_def
      SIZE_SIGACTION_def SIGSET_SIZE_def PAGE_SIZE_def OFFSET_BITS_def intro!: safe_basic safe_zero_old)

lemma safe_time:
  "sys_safe R (handle_clock_gettime x a)" "sys_safe R (handle_sched_getaffinity n a)" "sys_safe R (handle_gettimeofday a b)"
  "n \<noteq> 0 \<Longrightarrow> sys_safe R (handle_getrandom a n)" "sys_safe R handle_madvise" "sys_safe R handle_brk"
  using safe_return
  by (auto simp: sys_safe_def [of R handle_brk] sys_return_def refl RANDOM_prefix handle_clock_gettime_def handle_sched_getaffinity_def handle_gettimeofday_def handle_getrandom_def
      handle_madvise_def handle_brk_def Let_def TIMESPEC_SIZE_def TIMEVAL_SIZE_def TIMEZONE_SIZE_def
      PAGE_SIZE_def OFFSET_BITS_def intro!: safe_basic safe_zero_mask safe_zero_unless_null)

text \<open>
  Every call except for memory management, and except for the two that move a slice of the requested
  length when that is zero.
\<close>

lemma safe_system_call:
  assumes "no \<notin> {MMAP, MPROTECT, MUNMAP, WRITE, GETRANDOM}"
  shows "sys_safe R (system_call no)"
proof -
  note safe_handlers = safe_check_value safe_check_result safe_files safe_descriptors safe_process safe_time
  show ?thesis
    unfolding system_call_def using assms
    by (intro safe_if safe_bind safe_read_arg safe_handlers safe_fail; simp)
qed

lemma safe_call_write: "n \<noteq> 0 \<Longrightarrow> sys_safe R (check_value (handle_write fd a n))"
  and safe_call_getrandom: "n \<noteq> 0 \<Longrightarrow> sys_safe R (check_value (handle_getrandom a n))"
  by (simp_all add: safe_check_value safe_descriptors safe_time)

end

section \<open>The effect of system calls\<close>

text \<open>
  Bytes change by permitted stores, output is only appended, and of the hart only register \<^verbatim>\<open>a0\<close>
  changes.
\<close>

definition system_effect :: "linux_state \<Rightarrow> linux_state \<Rightarrow> bool" where
  "system_effect st st' \<longleftrightarrow>
     stores (sys_main_memory st) (sys_main_memory st') \<and> (\<exists>out. console st' = console st @ out) \<and>
     (\<forall>r. r \<noteq> x10 \<longrightarrow> xregister_read (mcore st') r = xregister_read (mcore st) r) \<and>
     (hart (mcore st'))\<lparr>xregisters := xregisters (hart (mcore st))\<rparr> = hart (mcore st) \<and>
     length (xregisters (hart (mcore st'))) = length (xregisters (hart (mcore st)))"

lemma xregister_read_other: "r \<noteq> x10 \<Longrightarrow> xregister_read (xregister_write c x10 v) r = xregister_read c r"
  by (cases r) (simp_all add: xregister_read_def xregister_write_def xregisters_read_def xregisters_write_def is_zero_def
      xregister_repr_def)

lemma system_effect_hart:
  assumes "system_effect st st'"
  shows "pc (hart (mcore st')) = pc (hart (mcore st))" "fregisters (hart (mcore st')) = fregisters (hart (mcore st))"
    "csregisters (hart (mcore st')) = csregisters (hart (mcore st))"
proof -
  have h: "(hart (mcore st'))\<lparr>xregisters := xregisters (hart (mcore st))\<rparr> = hart (mcore st)"
    using assms by (simp add: system_effect_def)
  from arg_cong [OF h, of pc] arg_cong [OF h, of fregisters] arg_cong [OF h, of csregisters]
  show "pc (hart (mcore st')) = pc (hart (mcore st))" "fregisters (hart (mcore st')) = fregisters (hart (mcore st))"
    "csregisters (hart (mcore st')) = csregisters (hart (mcore st))" by simp_all
qed

interpretation sc: call_effect system_effect
proof unfold_locales
  fix st st' st'' :: linux_state and m bs v sv
  show "system_effect st st" by (simp add: system_effect_def)
  show "system_effect st st''" if "system_effect st st'" "system_effect st' st''"
    using that unfolding system_effect_def by (metis (no_types, lifting) append_assoc rtranclp_trans hart_state.surjective hart_state.update_convs(1))
  show "system_effect st (sys_set_memory m st)" if "stored (sys_main_memory st) m"
    using that by (auto simp: system_effect_def) (simp_all add: sys_set_memory_def xregister_read_def)
  show "system_effect st (st\<lparr>console := console st @ bs\<rparr>)" by (simp add: system_effect_def)
  show "system_effect st (sys_write_x x10 v st)"
    by (auto simp: system_effect_def) (simp_all add: sys_write_x_def xregister_read_other, simp_all add: xregister_write_def xregisters_write_def)
  show "system_effect st (st\<lparr>supervisor := sv\<rparr>)" by (simp add: system_effect_def)
qed

section \<open>Memory management\<close>

text \<open>Calls that never crash and keep the memory's invariant; the hart is left to the dispatcher.\<close>

abbreviation keeps_memory :: "'a syscall \<Rightarrow> bool" where
  "keeps_memory \<equiv> sys_safe (\<lambda>_ _. True)"

interpretation any: call_effect "\<lambda>_ _. True"
  by unfold_locales simp_all

lemma aligned_dvd: "is_aligned a PAGE_BYTES \<longleftrightarrow> PAGE_SIZE dvd unat a"
  by (simp add: is_aligned_def rem_euclid_def unat_mod PAGE_BYTES_eq(2) flip: unat_eq_0 mod_eq_0_iff_dvd)

lemma keeps_update:
  assumes "\<And>m. memory_inv m \<Longrightarrow> f m = Inl BadMemoryAccess \<or> f m = Inl MemoryGovernanceError \<or> (\<exists>m'. f m = Inr m' \<and> memory_inv m')"
  shows "keeps_memory (mem_update f)"
proof (rule sys_safeI)
  fix st r st'
  assume "memory_inv (sys_main_memory st)" and "mem_update f st = (r, st')"
  with assms [of "sys_main_memory st"] show "r \<noteq> Crash \<and> True \<and> memory_inv (sys_main_memory st')"
    by (auto simp: mem_update_def)
qed

lemma keeps_mprotect: "keeps_memory (handle_mprotect a len perms)"
  unfolding handle_mprotect_def
  by (intro any.safe_bind any.safe_return keeps_update) (auto simp: protect_pages_def memory_inv_def)

lemma keeps_munmap: "keeps_memory (handle_munmap a len)"
proof -
  have "deallocate_and_protect_pages m a (unat len) = Inl MemoryGovernanceError \<or>
      (\<exists>m'. deallocate_and_protect_pages m a (unat len) = Inr m' \<and> memory_inv m')" if "memory_inv m" for m
    using memory_inv_deallocate [OF that, of a "unat len"] memory_inv_protect [of _ a "unat len" permissions_none]
    by (auto simp: deallocate_and_protect_pages_def deallocate_pages_def protect_pages_def Let_def split: sum.splits if_splits)
  note step = this
  show ?thesis
  proof (rule sys_safeI)
    fix st r st'
    assume "memory_inv (sys_main_memory st)" and "handle_munmap a len st = (r, st')"
    with step [of "sys_main_memory st"] show "r \<noteq> Crash \<and> True \<and> memory_inv (sys_main_memory st')"
      by (auto simp: handle_munmap_def)
  qed
qed

lemma keeps_allocate:
  assumes "\<And>a. hint = Some a \<Longrightarrow> PAGE_SIZE dvd unat a"
  shows "keeps_memory (mem_allocate hint len perms replace)"
proof (rule sys_safeI)
  fix st r st'
  assume inv: "memory_inv (sys_main_memory st)" and run: "mem_allocate hint len perms replace st = (r, st')"
  obtain res m where a: "allocate_and_protect_pages (sys_main_memory st) hint len perms replace = (res, m)" by fastforce
  from allocate_and_protect_exact [OF inv assms a] run a
  show "r \<noteq> Crash \<and> True \<and> memory_inv (sys_main_memory st')"
    by (auto simp: mem_allocate_def split: option.splits)
qed

lemma keeps_mmap: "keeps_memory (handle_mmap a len perms flags)"
  unfolding handle_mmap_def
  by (auto simp: aligned_dvd intro!: any.safe_fail any.safe_bind any.safe_return keeps_allocate
      split: visibility.split backend.split address_hint.split)

lemmas system_call_numbers = GETCWD_def FACCESSAT_def OPENAT_def CLOSE_def READ_def WRITE_def WRITEV_def PPOLL_def
  READLINKAT_def EXIT_def EXITGROUP_def SET_TID_ADDRESS_def SET_ROBUST_LIST_def TKILL_def SIGALTSTACK_def RT_SIGACTION_def
  RT_SIGPROCMASK_def GETPID_def BRK_def MUNMAP_def MMAP_def MPROTECT_def MADVISE_def GETRANDOM_def CLOCK_GETTIME_def
  SCHED_GETAFFINITY_def GETTIMEOFDAY_def

lemma keeps_management: "no \<in> {MMAP, MPROTECT, MUNMAP} \<Longrightarrow> keeps_memory (system_call no)"
  by (auto simp: system_call_def system_call_numbers
      intro!: any.safe_bind any.safe_read_arg any.safe_check_value keeps_mmap keeps_mprotect keeps_munmap)

section \<open>Crashes\<close>

text \<open>
  The two calls that move a slice of the requested length: of length zero the slice is not checked
  against the memory, and an address beyond the end of the memory is a panic of the byte region.
\<close>

definition empty_slice_beyond :: "u64 \<Rightarrow> linux_state \<Rightarrow> bool" where
  "empty_slice_beyond no st \<longleftrightarrow>
     (let x = xregister_read (mcore st); outside = (\<lambda>a. TOTAL_BYTES (sys_main_memory st) < unat a) in
      no = WRITE \<and> (x x10 = 1 \<or> x x10 = 2) \<and> x x12 = 0 \<and> outside (x x11) \<or>
      no = GETRANDOM \<and> x x11 = 0 \<and> outside (x x10))"

lemma range_allowed_0 [simp]: "range_allowed ps a 0"
  and in_memory_0 [simp]: "in_memory m a 0"
  by (simp_all add: range_allowed_def in_memory_def)

lemma sys_set_memory_same [simp]: "sys_set_memory (sys_main_memory st) st = st"
  by (simp add: sys_set_memory_def sys_main_memory_def)

lemma WRITE_GETRANDOM [simp]: "WRITE \<noteq> GETRANDOM" "GETRANDOM \<noteq> WRITE"
  by (simp_all add: WRITE_def GETRANDOM_def)

lemma handle_write_zero:
  assumes "memory_inv (sys_main_memory st)"
  shows "handle_write fd a 0 st = (if TOTAL_BYTES (sys_main_memory st) < unat a then (Crash, st) else (Ret 0, st))"
  by (cases fd) (simp_all add: handle_write_def write_to_fd_def PAGE_BYTES_eq sys_bind_def mem_query_def mem_read_all_bytes [OF assms]
      sys_return_def putchar_all_def bytes_of_def)

lemma handle_getrandom_zero:
  assumes "memory_inv (sys_main_memory st)"
  shows "handle_getrandom a 0 st = (if TOTAL_BYTES (sys_main_memory st) < unat a then (Crash, st) else (Ret 0, st))"
  by (simp add: handle_getrandom_def sys_bind_def mem_update_def mem_write_all_bytes [OF assms] write_ok_def sys_return_def)

lemma system_call_write:
  "system_call WRITE st =
     (case fd_writeable_try_from (xregister_read (mcore st) x10) of
        Inl e \<Rightarrow> (Fail e, st)
      | Inr fd \<Rightarrow> check_value (handle_write fd (xregister_read (mcore st) x11) (xregister_read (mcore st) x12)) st)"
  by (simp add: system_call_def system_call_numbers sys_bind_def [of "read_arg _ _"] read_arg_def split: sum.split)

lemma system_call_getrandom:
  "system_call GETRANDOM st = check_value (handle_getrandom (xregister_read (mcore st) x10) (xregister_read (mcore st) x11)) st"
  by (simp add: system_call_def system_call_numbers sys_bind_def [of "read_arg _ _"] read_arg_def)

lemma check_value_result:
  "f st = (Crash, st1) \<Longrightarrow> check_value f st = (Crash, st1)"
  "f st = (Ret v, st1) \<Longrightarrow> check_value f st = (Ret True, sys_write_x x10 v st1)"
  by (simp_all add: check_value_def check_result_def sys_bind_def sys_return_def system_call_result_from_def)

lemma system_call_zero_slice:
  assumes inv: "memory_inv (sys_main_memory st)"
    and "no = WRITE \<and> fd_writeable_try_from (xregister_read (mcore st) x10) = Inr fd \<and> xregister_read (mcore st) x12 = 0 \<or>
         no = GETRANDOM \<and> xregister_read (mcore st) x11 = 0"
  shows "system_call no st = (if empty_slice_beyond no st then (Crash, st) else (Ret True, sys_write_x x10 0 st))"
proof -
  have f: "fd_writeable_try_from v = Inr fd \<Longrightarrow> v = 1 \<or> v = 2" for v by (auto simp: fd_writeable_try_from_def split: if_splits)
  from assms(2) show ?thesis
  proof (elim disjE conjE)
    assume "no = WRITE" and fd: "fd_writeable_try_from (xregister_read (mcore st) x10) = Inr fd" and "xregister_read (mcore st) x12 = 0"
    then show ?thesis
      using handle_write_zero [OF inv, of fd "xregister_read (mcore st) x11"] f [OF fd]
      by (auto simp: system_call_write empty_slice_beyond_def Let_def check_value_result)
  next
    assume "no = GETRANDOM" and "xregister_read (mcore st) x11 = 0"
    then show ?thesis
      using handle_getrandom_zero [OF inv, of "xregister_read (mcore st) x10"]
      by (auto simp: system_call_getrandom empty_slice_beyond_def Let_def check_value_result)
  qed
qed

text \<open>All calls: what they leave, and when they crash.\<close>

context call_effect
begin

lemma system_call_outcome:
  assumes inv: "memory_inv (sys_main_memory st)" and no: "no \<notin> {MMAP, MPROTECT, MUNMAP}" and run: "system_call no st = (r, st')"
  shows "(r = Crash \<longleftrightarrow> empty_slice_beyond no st) \<and> R st st' \<and> memory_inv (sys_main_memory st')"
proof -
  let ?x = "xregister_read (mcore st)"
  have plain: "?thesis" if "r \<noteq> Crash \<and> R st st' \<and> memory_inv (sys_main_memory st')" "\<not> empty_slice_beyond no st"
    using that by blast
  consider "no \<notin> {MMAP, MPROTECT, MUNMAP, WRITE, GETRANDOM}"
    | e where "no = WRITE" "fd_writeable_try_from (?x x10) = Inl e"
    | fd where "no = WRITE" "fd_writeable_try_from (?x x10) = Inr fd" "?x x12 \<noteq> 0"
    | "no = GETRANDOM" "?x x11 \<noteq> 0"
    | fd where "no = WRITE \<and> fd_writeable_try_from (?x x10) = Inr fd \<and> ?x x12 = 0 \<or> no = GETRANDOM \<and> ?x x11 = 0"
    using no by (cases "fd_writeable_try_from (?x x10)") auto
  then show ?thesis
  proof cases
    case 1
    then show ?thesis using sys_safeD [OF safe_system_call [OF 1] inv run] by (intro plain) (auto simp: empty_slice_beyond_def Let_def)
  next
    case 2
    then show ?thesis
      using run inv by (intro plain) (auto simp: system_call_write refl empty_slice_beyond_def Let_def fd_writeable_try_from_def
          split: if_splits)
  next
    case (3 fd)
    then show ?thesis
      using run sys_safeD [OF safe_call_write inv, of "?x x12" fd "?x x11" r st']
      by (intro plain) (auto simp: system_call_write empty_slice_beyond_def Let_def)
  next
    case 4
    then show ?thesis
      using run sys_safeD [OF safe_call_getrandom inv, of "?x x11" "?x x10" r st']
      by (intro plain) (auto simp: system_call_getrandom empty_slice_beyond_def Let_def)
  next
    case (5 fd)
    from system_call_zero_slice [OF inv this] run inv show ?thesis by (auto simp: refl answer split: if_splits)
  qed
qed

end

end
