(* ===== verification/Linux_Calls.thy ===== *)
theory Linux_Calls
  imports Linux_Correct Machine_Run
begin

unbundle bit_operations_syntax

text \<open>
  Properties of the Linux supervisor's system calls: how far they reach, when the implementation
  crashes, and what \<^verbatim>\<open>mmap\<close>, \<^verbatim>\<open>munmap\<close> and \<^verbatim>\<open>write\<close> do.
\<close>

section \<open>Handlers on well-formed memories\<close>

lemma sys_set_memory_hart [simp]: "hart (mcore (sys_set_memory m st)) = hart (mcore st)"
  by (simp add: sys_set_memory_def)

lemma handle_mmap_allocates:
  assumes "flag_visibility flags = Private" and "flag_backend flags = NoBackend"
    and "\<And>b. flag_addr_hint flags = Fixed b \<Longrightarrow> is_aligned addr PAGE_BYTES"
  shows "handle_mmap addr len perms flags =
     (case flag_addr_hint flags of Hint \<Rightarrow> mem_allocate None (unat len) perms False
      | Fixed replace \<Rightarrow> mem_allocate (Some addr) (unat len) perms replace)"
  using assms
  by (auto simp: handle_mmap_def sys_bind_def sys_return_def fun_eq_iff split: address_hint.split prod.split sys.split)

lemma error_from_exact [simp]: "error_from MemoryGovernanceError = Fail NoMemory" by simp

definition hint_of :: "virt_addr \<Rightarrow> mmap_flags \<Rightarrow> address option" where
  "hint_of addr flags = (case flag_addr_hint flags of Hint \<Rightarrow> None | Fixed _ \<Rightarrow> Some addr)"

definition replaces :: "mmap_flags \<Rightarrow> bool" where
  "replaces flags = (case flag_addr_hint flags of Hint \<Rightarrow> False | Fixed b \<Rightarrow> b)"

definition sample_linux :: "bool \<Rightarrow> bool \<Rightarrow> u64 \<Rightarrow> u64 \<Rightarrow> linux_state" where
  "sample_linux rp wp a b = \<lparr>supervisor = supervisor_new, mcore = sample_core rp wp a b, console = []\<rparr>"

lemma sample_linux_simps [simp]:
  "sys_main_memory (sample_linux rp wp a b) = sample_memory rp wp" "mcore (sample_linux rp wp a b) = sample_core rp wp a b"
  "console (sample_linux rp wp a b) = []"
  by (simp_all add: sample_linux_def sys_main_memory_def sample_core_def)

lemma sample_memory_total [simp]: "TOTAL_BYTES (sample_memory rp wp) = 4096" "PAGES (sample_memory rp wp) = 1"
  by (simp_all add: sample_memory_def)

lemma sample_write_ok: "unat a + n \<le> 4096 \<Longrightarrow> write_ok n (sample_memory rp True) a"
  by (auto simp: write_ok_def in_memory_def range_allowed_def PAGE_SIZE_def OFFSET_BITS_def) (simp add: sample_memory_def)

lemma sample_memory_inv' [simp]: "memory_inv (sample_memory rp wp)"
  using sample_memory_inv [of rp wp 0 0] by (simp add: sample_core_def)

lemma sample_core_regs [simp]:
  "xregister_read (sample_core rp wp a b) x10 = a" "xregister_read (sample_core rp wp a b) x11 = b"
  "xregister_read (sample_core rp wp a b) x12 = 0" "xregister_read (sample_core rp wp a b) x17 = 0"
  by (simp_all add: sample_core_def xregister_read_def xregisters_read_def xregisters_write_nz_def xregisters_new_def
      is_zero_def xregister_repr_def nz_xregister_repr_def hart_new_def)

section \<open>Properties\<close>

text \<open>
  C8: system calls are confined. A system call other than \<^verbatim>\<open>mmap\<close>, \<^verbatim>\<open>mprotect\<close> and \<^verbatim>\<open>munmap\<close>, whatever
  its number and arguments and also when it fails, leaves a well-formed memory with the same
  permissions and allocations; every byte it changes lies on a writable page; it only appends to the
  output; and of the hart it changes no register but \<^verbatim>\<open>a0\<close>.
\<close>

theorem system_call_confined:
  assumes "memory_inv (sys_main_memory st)" and "no \<notin> {MMAP, MPROTECT, MUNMAP}" and "system_call no st = (r, st')"
  shows "memory_inv (sys_main_memory st') \<and>
    readable_pages (sys_main_memory st') = readable_pages (sys_main_memory st) \<and>
    writable_pages (sys_main_memory st') = writable_pages (sys_main_memory st) \<and>
    executable_pages (sys_main_memory st') = executable_pages (sys_main_memory st) \<and>
    allocated_pages (sys_main_memory st') = allocated_pages (sys_main_memory st) \<and>
    (\<forall>k. data (sys_main_memory st') k \<noteq> data (sys_main_memory st) k \<longrightarrow>
       k < TOTAL_BYTES (sys_main_memory st) \<and> writable_pages (sys_main_memory st) ! (k div PAGE_SIZE)) \<and>
    (\<exists>out. console st' = console st @ out) \<and>
    (\<forall>r. r \<noteq> x10 \<longrightarrow> xregister_read (mcore st') r = xregister_read (mcore st) r) \<and>
    pc (hart (mcore st')) = pc (hart (mcore st)) \<and> fregisters (hart (mcore st')) = fregisters (hart (mcore st)) \<and>
    csregisters (hart (mcore st')) = csregisters (hart (mcore st))"
proof -
  from sc.system_call_outcome [OF assms] have e: "system_effect st st'" and inv: "memory_inv (sys_main_memory st')" by auto
  have s: "stores (sys_main_memory st) (sys_main_memory st')" using e by (simp add: system_effect_def)
  show ?thesis using e inv stores_pages_eq [OF s] stores_data [OF s] system_effect_hart [OF e] by (simp add: system_effect_def)
qed

theorem system_call_confined_witness:
  "\<exists>st'. system_call GETCWD (sample_linux True True 16 2) = (Ret True, st') \<and> memory_inv (sys_main_memory st') \<and>
     data (sys_main_memory st') 16 = 47 \<and> xregister_read (mcore st') x11 = 2"
proof -
  let ?st = "sample_linux True True 16 2"
  have "write_ok (Suc (Suc 0)) (sample_memory True True) 16" by (simp add: sample_write_ok)
  then obtain st' where run: "system_call GETCWD ?st = (Ret True, st')"
    and d: "data (sys_main_memory st') 16 = 47"
    by (simp add: system_call_def sys_bind_def read_arg_def check_value_def check_result_def handle_getcwd_def CWD_def
        mem_update_def mem_write_all_bytes sys_return_def system_call_result_from_def overwrite_def)
  from system_call_confined [OF _ _ run] run d show ?thesis
    by (auto simp: system_call_numbers)
qed

text \<open>
  C15: when the implementation crashes. On a well-formed memory a system call panics exactly when it
  is \<^verbatim>\<open>write\<close>, to one of the two open descriptors, or \<^verbatim>\<open>getrandom\<close> with length zero and an address beyond
  the end of the memory; no other call and no other argument makes it panic or run into undefined
  behaviour, memory management included.
\<close>

theorem system_call_crash_exact:
  assumes "memory_inv (sys_main_memory st)"
  shows "fst (system_call no st) = Crash \<longleftrightarrow> empty_slice_beyond no st"
proof (cases "no \<in> {MMAP, MPROTECT, MUNMAP}")
  case True
  then have "\<not> empty_slice_beyond no st" by (auto simp: empty_slice_beyond_def Let_def system_call_numbers)
  moreover have "fst (system_call no st) \<noteq> Crash"
    using sys_safeD [OF keeps_management [OF True] assms, of "fst (system_call no st)" "snd (system_call no st)"] by simp
  ultimately show ?thesis by simp
next
  case False
  then show ?thesis
    using sc.system_call_outcome [OF assms False, of "fst (system_call no st)" "snd (system_call no st)"] by simp
qed

theorem system_call_crash_exact_witness:
  "fst (system_call GETRANDOM (sample_linux True True 4097 0)) = Crash \<and>
   fst (system_call WRITE (sample_linux True True 1 5000)) = Crash \<and>
   fst (system_call GETRANDOM (sample_linux True True 4096 0)) \<noteq> Crash"
  using system_call_crash_exact [of "sample_linux True True 4097 0" GETRANDOM]
    system_call_crash_exact [of "sample_linux True True 1 5000" WRITE]
    system_call_crash_exact [of "sample_linux True True 4096 0" GETRANDOM]
  by (simp add: empty_slice_beyond_def Let_def)

text \<open>
  C23: \<^verbatim>\<open>mmap\<close> of private anonymous memory. A fixed address that is not page-aligned is refused with \<^verbatim>\<open>EINVAL\<close> and
  nothing changes. Otherwise, at a fixed address or anywhere, the call succeeds exactly
  when the request has a placement among the free pages (or may replace what is there). It then
  returns the address, takes exactly those pages, gives them the requested permissions and zeroes
  them; without a placement it fails with \<^verbatim>\<open>ENOMEM\<close> and changes no page, permission or byte.
\<close>

theorem mmap_exact:
  assumes "memory_inv (sys_main_memory st)" and "flag_visibility flags = Private" and "flag_backend flags = NoBackend"
    and "handle_mmap addr len perms flags st = (r, st')"
  shows "hart (mcore st') = hart (mcore st) \<and> memory_inv (sys_main_memory st') \<and>
    (if hint_of addr flags \<noteq> None \<and> \<not> is_aligned addr PAGE_BYTES then r = Fail InvalidArgument \<and> st' = st
     else case placement (sys_main_memory st) (hint_of addr flags) (unat len) (replaces flags) of
       None \<Rightarrow> r = Fail NoMemory \<and> data (sys_main_memory st') = data (sys_main_memory st) \<and>
         buddy_occ (allocated_pages (sys_main_memory st')) = buddy_occ (allocated_pages (sys_main_memory st)) \<and>
         readable_pages (sys_main_memory st') = readable_pages (sys_main_memory st) \<and>
         writable_pages (sys_main_memory st') = writable_pages (sys_main_memory st) \<and>
         executable_pages (sys_main_memory st') = executable_pages (sys_main_memory st)
     | Some i \<Rightarrow> (\<exists>a. r = Ret a \<and> unat a = i * PAGE_SIZE \<and> (\<forall>h. hint_of addr flags = Some h \<longrightarrow> a = h)) \<and>
         served (sys_main_memory st) i (div_ceil (unat len) PAGE_SIZE) perms (sys_main_memory st'))"
proof (cases "hint_of addr flags \<noteq> None \<and> \<not> is_aligned addr PAGE_BYTES")
  case True
  then have "r = Fail InvalidArgument \<and> st' = st"
    using assms(2-4) by (auto simp: handle_mmap_def hint_of_def sys_bind_def sys_fail_def split: address_hint.splits)
  with True assms(1) show ?thesis by simp
next
  case False
  let ?m = "sys_main_memory st" and ?h = "hint_of addr flags"
  have page: "\<And>b. flag_addr_hint flags = Fixed b \<Longrightarrow> is_aligned addr PAGE_BYTES"
    using False by (auto simp: hint_of_def)
  then have aligned: "\<And>a. ?h = Some a \<Longrightarrow> PAGE_SIZE dvd unat a"
    by (auto simp: hint_of_def aligned_dvd split: address_hint.splits)
  obtain res m' where a: "allocate_and_protect_pages ?m ?h (unat len) perms (replaces flags) = (res, m')" by fastforce
  have run: "mem_allocate ?h (unat len) perms (replaces flags) st = (r, st')"
    using assms(4) handle_mmap_allocates [OF assms(2,3) page]
    by (simp add: hint_of_def replaces_def split: address_hint.splits)
  from allocate_and_protect_exact [OF assms(1) aligned a] run a False show ?thesis
    by (cases "placement ?m ?h (unat len) (replaces flags)") (auto simp: mem_allocate_def)
qed

definition free_linux :: linux_state where
  "free_linux = sys_set_memory ((sample_memory True True)\<lparr>allocated_pages := BuddyLeaf 1 0\<rparr>) (sample_linux True True 0 0)"

lemma free_linux_simps [simp]:
  "memory_inv (sys_main_memory free_linux)" "buddy_occ (allocated_pages (sys_main_memory free_linux)) = [False]"
  by (simp_all add: free_linux_def sample_memory_def memory_inv_def PAGE_SIZE_def OFFSET_BITS_def u64_max_def upt_rec)

theorem mmap_exact_witness:
  "\<exists>st' a. handle_mmap 0 100 permissions_read_write \<lparr>flag_visibility = Private, flag_backend = NoBackend, flag_addr_hint = Hint\<rparr> free_linux =
     (Ret a, st') \<and> unat a = 0 \<and> memory_inv (sys_main_memory st') \<and> buddy_occ (allocated_pages (sys_main_memory st')) = [True]"
proof -
  let ?f = "\<lparr>flag_visibility = Private, flag_backend = NoBackend, flag_addr_hint = Hint\<rparr>"
  have n: "div_ceil 100 PAGE_SIZE = Suc 0" by (simp add: div_ceil_def PAGE_SIZE_def OFFSET_BITS_def)
  have "first_fit [False] (Suc 0) = Some 0" by (simp add: first_fit_Some_iff free_at_def)
  then have "placement (sys_main_memory free_linux) (hint_of 0 ?f) 100 (replaces ?f) = Some 0"
    by (simp add: placement_def hint_of_def n)
  moreover obtain r st' where run: "handle_mmap 0 100 permissions_read_write ?f free_linux = (r, st')" by fastforce
  moreover have "fill [False] 0 (Suc 0) True = [True]" by (simp add: fill_def upt_rec)
  ultimately show ?thesis using mmap_exact [OF free_linux_simps(1) _ _ run] by (auto simp: served_def n hint_of_def)
qed

text \<open>
  C24: \<^verbatim>\<open>munmap\<close> of a page-aligned range inside the memory frees exactly its pages, removes every
  permission on them and keeps all bytes; a range that leaves the memory is refused with \<^verbatim>\<open>EINVAL\<close> and
  changes nothing.
\<close>

theorem munmap_exact:
  assumes "memory_inv (sys_main_memory st)" and "PAGE_SIZE dvd unat addr" and "handle_munmap addr len st = (r, st')"
  shows "let m = sys_main_memory st; m' = sys_main_memory st'; i = unat addr div PAGE_SIZE; n = div_ceil (unat len) PAGE_SIZE in
    hart (mcore st') = hart (mcore st) \<and> memory_inv m' \<and>
    (if unat addr + unat len \<le> TOTAL_BYTES m then
       r = Ret 0 \<and> data m' = data m \<and> buddy_occ (allocated_pages m') = fill (buddy_occ (allocated_pages m)) i n False \<and>
       readable_pages m' = fill (readable_pages m) i n False \<and> writable_pages m' = fill (writable_pages m) i n False \<and>
       executable_pages m' = fill (executable_pages m) i n False
     else len \<noteq> 0 \<longrightarrow> r = Fail InvalidArgument \<and> st' = st)"
proof (cases "unat addr + unat len \<le> TOTAL_BYTES (sys_main_memory st)")
  case True
  from deallocate_and_protect_exact [OF assms(1,2) True] assms(3) True show ?thesis
    by (auto simp: handle_munmap_def Let_def)
next
  case False
  have "memory_inv (sys_main_memory st')" using sys_safeD [OF keeps_munmap assms(1,3)] by simp
  moreover have "hart (mcore st') = hart (mcore st)"
    using assms(3) by (auto simp: handle_munmap_def split: sum.splits memory_error.splits)
  moreover have "deallocate_and_protect_pages (sys_main_memory st) addr (unat len) = Inl MemoryGovernanceError" if "len \<noteq> 0"
  proof -
    have "0 < unat len" using that by (simp add: unat_gt_0)
    with False have "\<not> unat len \<le> TOTAL_BYTES (sys_main_memory st) - unat addr" by linarith
    then show ?thesis by (simp add: deallocate_and_protect_pages_def deallocate_pages_def check_bounds_def)
  qed
  ultimately show ?thesis using assms(3) False by (auto simp: handle_munmap_def Let_def)
qed

theorem munmap_exact_witness:
  "\<exists>st'. handle_munmap 0 4096 (sample_linux True True 0 0) = (Ret 0, st') \<and> writable_pages (sys_main_memory st') = [False]"
proof -
  obtain r st' where run: "handle_munmap 0 4096 (sample_linux True True 0 0) = (r, st')" by fastforce
  have "div_ceil 4096 PAGE_SIZE = Suc 0" by (simp add: div_ceil_def PAGE_SIZE_def OFFSET_BITS_def)
  moreover have "fill [True] 0 (Suc 0) False = [False]" by (simp add: fill_def upt_rec)
  moreover have "writable_pages (sample_memory True True) = [True]" by (simp add: sample_memory_def)
  ultimately show ?thesis using munmap_exact [OF _ _ run] run by (simp add: Let_def)
qed

text \<open>
  \<^verbatim>\<open>write\<close> sends the bytes of the process's memory to the output unchanged and in order, at most one
  page of them, and returns how many; if some of them may not be read, it fails with \<^verbatim>\<open>EFAULT\<close> and
  prints nothing.
\<close>

theorem write_exact:
  assumes "memory_inv (sys_main_memory st)" and "len \<noteq> 0"
  shows "handle_write fd addr len st =
    (let m = sys_main_memory st; n = min (unat len) PAGE_SIZE in
     if in_memory m addr n \<and> range_allowed (readable_pages m) addr n
     then (Ret (of_nat n), st\<lparr>console := console st @ bytes_of m addr n\<rparr>) else (Fail Fault, st))"
proof -
  define n where "n = min (unat len) PAGE_SIZE"
  have n: "unat (min len PAGE_BYTES) = n"
    by (simp add: n_def min_def PAGE_BYTES_eq(2) word_le_nat_alt)
  have "n \<noteq> 0" using assms(2) by (simp add: n_def unat_gt_0 min_def)
  moreover have "of_nat n = min len PAGE_BYTES" by (simp flip: n)
  ultimately show ?thesis
    by (cases fd) (simp_all add: handle_write_def write_to_fd_def Let_def n n_def [symmetric] sys_bind_def mem_query_def
        mem_read_all_bytes [OF assms(1)] sys_return_def putchar_all_def)
qed

theorem write_exact_witness:
  "handle_write StandardOutput 4000 64 (sample_linux True False 0 0) =
     (Ret 64, (sample_linux True False 0 0)\<lparr>console := replicate 64 0\<rparr>)"
proof -
  have "in_memory (sample_memory True False) 4000 64" "range_allowed (readable_pages (sample_memory True False)) 4000 64"
    "bytes_of (sample_memory True False) 4000 64 = replicate 64 0" "min 64 PAGE_SIZE = 64"
    by (auto simp: in_memory_def range_allowed_def PAGE_SIZE_def OFFSET_BITS_def bytes_of_def sample_memory_def
        map_replicate_const)
  then show ?thesis using write_exact [of "sample_linux True False 0 0" 64 StandardOutput 4000] by simp
qed

end
