(* ===== verification/Tezos.thy ===== *)
theory Tezos
  imports Linux
begin

unbundle bit_operations_syntax

text \<open>
  Model of the Tezos host functions, \<^verbatim>\<open>pvm/tezos.rs\<close>, and of the reveal request, \<^verbatim>\<open>pvm/reveals.rs\<close>.

  The function numbers, size limits and SBI error codes are constants of the crate
  \<^verbatim>\<open>tezos_smart_rollup_constants\<close>, the signature scheme and the hash are those of other crates: they
  are the fields of the parameter \<open>tezos_env\<close>. \<open>None\<close> is a panic or undefined behaviour. The host is
  assumed to have the memory for a buffer of up to \<^verbatim>\<open>isize::MAX\<close> bytes; a longer one is a panic.
\<close>

section \<open>Parameters\<close>

datatype sbi_error = SbiFailed | SbiNotSupported | SbiInvalidParam | SbiInvalidAddress

record tezos_env =
  SBI_FIRMWARE_TEZOS :: u64
  SBI_TEZOS_INBOX_NEXT :: u64
  SBI_TEZOS_ED25519_SIGN :: u64
  SBI_TEZOS_ED25519_VERIFY :: u64
  SBI_TEZOS_BLAKE2B_HASH256 :: u64
  SBI_TEZOS_REVEAL :: u64
  MAX_INPUT_MESSAGE_SIZE :: nat
  REVEAL_DATA_MAX_SIZE :: nat
  REVEAL_REQUEST_MAX_SIZE :: nat
  sbi_code :: "sbi_error \<Rightarrow> u64"
  signing_key_ok :: "u8 list \<Rightarrow> bool"
  ed25519_sign :: "u8 list \<Rightarrow> u8 list \<Rightarrow> u8 list"
  verifying_key_ok :: "u8 list \<Rightarrow> bool"
  signature_ok :: "u8 list \<Rightarrow> bool"
  ed25519_verify_strict :: "u8 list \<Rightarrow> u8 list \<Rightarrow> u8 list \<Rightarrow> bool"
  blake2b_digest_256 :: "u8 list \<Rightarrow> u8 list"

definition ISIZE_MAX :: nat where "ISIZE_MAX = 2 ^ 63 - 1"

section \<open>Status and reveal request\<close>

datatype pvm_status = Evaluating | WaitingForInput | WaitingForReveal

definition PVM_STATUS_DEFAULT :: pvm_status where "PVM_STATUS_DEFAULT = Evaluating"

record reveal_request =
  request_bytes :: "u8 list"
  request_size :: u64

definition reveal_request_new :: "tezos_env \<Rightarrow> reveal_request" where
  "reveal_request_new tz = \<lparr>request_bytes = replicate (REVEAL_REQUEST_MAX_SIZE tz) 0, request_size = 0\<rparr>"

text \<open>\<^verbatim>\<open>DynCells::write_all\<close> at offset 0 and \<^verbatim>\<open>RevealRequest::to_vec\<close>.\<close>

definition request_write :: "reveal_request \<Rightarrow> u8 list \<Rightarrow> reveal_request option" where
  "request_write rr buffer =
     (if length buffer \<le> length (request_bytes rr)
      then Some (rr\<lparr>request_bytes := buffer @ drop (length buffer) (request_bytes rr)\<rparr>) else None)"

definition to_vec :: "tezos_env \<Rightarrow> reveal_request \<Rightarrow> u8 list" where
  "to_vec tz rr = take (min (unat (request_size rr)) (REVEAL_REQUEST_MAX_SIZE tz)) (request_bytes rr)"

section \<open>Calls\<close>

type_synonym 'a sbi_call = "memory \<Rightarrow> ((sbi_error + 'a) \<times> memory) option"

definition sbi_return :: "'a \<Rightarrow> 'a sbi_call" where "sbi_return x m = Some (Inr x, m)"

definition sbi_fail :: "sbi_error \<Rightarrow> 'a sbi_call" where "sbi_fail e m = Some (Inl e, m)"

definition sbi_bind :: "'a sbi_call \<Rightarrow> ('a \<Rightarrow> 'b sbi_call) \<Rightarrow> 'b sbi_call" where
  "sbi_bind f k m =
     (case f m of None \<Rightarrow> None | Some (Inl e, m') \<Rightarrow> Some (Inl e, m') | Some (Inr x, m') \<Rightarrow> k x m')"

text \<open>The conversion \<^verbatim>\<open>From<BadMemoryAccess>\<close>; the other memory errors are panics or undefined.\<close>

definition sbi_error_from :: "memory_error \<Rightarrow> sbi_error option" where
  "sbi_error_from e = (if e = BadMemoryAccess then Some SbiInvalidAddress else None)"

definition sbi_read_all :: "address \<Rightarrow> nat \<Rightarrow> u8 list sbi_call" where
  "sbi_read_all a n m =
     (case mem_read_all m a n of Inr bs \<Rightarrow> Some (Inr bs, m) | Inl e \<Rightarrow> map_option (\<lambda>e. (Inl e, m)) (sbi_error_from e))"

definition sbi_update :: "(memory \<Rightarrow> memory_error + memory) \<Rightarrow> unit sbi_call" where
  "sbi_update f m =
     (case f m of Inr m' \<Rightarrow> Some (Inr (), m') | Inl e \<Rightarrow> map_option (\<lambda>e. (Inl e, m)) (sbi_error_from e))"

text \<open>\<^verbatim>\<open>vec![0; len]\<close>.\<close>

definition sbi_vec :: "u64 \<Rightarrow> unit sbi_call" where
  "sbi_vec len m = (if ISIZE_MAX < unat len then None else Some (Inr (), m))"

section \<open>Results\<close>

definition sbi_return_error :: "tezos_env \<Rightarrow> machine_core \<Rightarrow> sbi_error \<Rightarrow> machine_core" where
  "sbi_return_error tz c code = xregister_write c x10 (sbi_code tz code)"

definition sbi_return1 :: "tezos_env \<Rightarrow> machine_core \<Rightarrow> xvalue \<Rightarrow> machine_core" where
  "sbi_return1 tz c v = (if sint v < 0 then sbi_return_error tz c SbiFailed else xregister_write c x10 v)"

definition sbi_wrap :: "tezos_env \<Rightarrow> machine_core \<Rightarrow> xvalue sbi_call \<Rightarrow> machine_core option" where
  "sbi_wrap tz c inner =
     (case inner (main_memory c) of
        None \<Rightarrow> None
      | Some (Inr v, m) \<Rightarrow> Some (sbi_return1 tz (c\<lparr>main_memory := m\<rparr>) v)
      | Some (Inl e, m) \<Rightarrow> Some (sbi_return_error tz (c\<lparr>main_memory := m\<rparr>) e))"

section \<open>Responses of the rollup node\<close>

definition input_write :: "tezos_env \<Rightarrow> machine_core \<Rightarrow> u32 \<Rightarrow> u32 \<Rightarrow> u8 list \<Rightarrow> xvalue sbi_call" where
  "input_write tz c level counter payload =
     (let arg_buffer_addr = xregister_read c x10;
          arg_buffer_size = xregister_read c x11;
          arg_level_addr = xregister_read c x12;
          arg_counter_addr = xregister_read c x13;
          max_buffer_size = min (min (length payload) (unat arg_buffer_size)) (MAX_INPUT_MESSAGE_SIZE tz)
      in sbi_bind (sbi_update (\<lambda>m. mem_write_all m arg_buffer_addr (take max_buffer_size payload))) (\<lambda>_.
         sbi_bind (sbi_update (\<lambda>m. mem_write m arg_level_addr level)) (\<lambda>_.
         sbi_bind (sbi_update (\<lambda>m. mem_write m arg_counter_addr counter)) (\<lambda>_.
         sbi_return (of_nat max_buffer_size)))))"

text \<open>The boolean tells whether the machine was waiting for the response.\<close>

definition tezos_provide_input ::
    "tezos_env \<Rightarrow> pvm_status \<Rightarrow> machine_core \<Rightarrow> u32 \<Rightarrow> u32 \<Rightarrow> u8 list \<Rightarrow> (bool \<times> pvm_status \<times> machine_core) option" where
  "tezos_provide_input tz status c level counter payload =
     (if status \<noteq> WaitingForInput then Some (False, status, c)
      else map_option (\<lambda>c. (True, Evaluating, c)) (sbi_wrap tz c (input_write tz c level counter payload)))"

definition reveal_write :: "tezos_env \<Rightarrow> machine_core \<Rightarrow> u8 list \<Rightarrow> xvalue sbi_call" where
  "reveal_write tz c reveal_data =
     (let arg_buffer_addr = xregister_read c x12;
          arg_buffer_size = xregister_read c x13;
          memory_write_size = min (REVEAL_DATA_MAX_SIZE tz) (min (unat arg_buffer_size) (length reveal_data))
      in sbi_bind (sbi_update (\<lambda>m. mem_write_all m arg_buffer_addr (take memory_write_size reveal_data))) (\<lambda>_.
         sbi_return (of_nat memory_write_size)))"

definition tezos_provide_reveal_response ::
    "tezos_env \<Rightarrow> pvm_status \<Rightarrow> machine_core \<Rightarrow> u8 list \<Rightarrow> (bool \<times> pvm_status \<times> machine_core) option" where
  "tezos_provide_reveal_response tz status c reveal_data =
     (if status \<noteq> WaitingForReveal then Some (False, status, c)
      else map_option (\<lambda>c. (True, Evaluating, c)) (sbi_wrap tz c (reveal_write tz c reveal_data)))"

section \<open>Host functions\<close>

definition handle_tezos_inbox_next :: "pvm_status \<Rightarrow> pvm_status" where
  "handle_tezos_inbox_next status = WaitingForInput"

definition handle_tezos_ed25519_sign :: "tezos_env \<Rightarrow> machine_core \<Rightarrow> xvalue sbi_call" where
  "handle_tezos_ed25519_sign tz c =
     (let arg_sk_addr = xregister_read c x10;
          arg_msg_addr = xregister_read c x11;
          arg_msg_len = xregister_read c x12;
          arg_sig_addr = xregister_read c x13
      in sbi_bind (sbi_read_all arg_sk_addr 32) (\<lambda>sk_bytes.
         if \<not> signing_key_ok tz sk_bytes then sbi_fail SbiFailed
         else sbi_bind (sbi_vec arg_msg_len) (\<lambda>_.
              sbi_bind (sbi_read_all arg_msg_addr (unat arg_msg_len)) (\<lambda>msg_bytes.
              let sig_bytes = ed25519_sign tz sk_bytes msg_bytes in
              sbi_bind (sbi_update (\<lambda>m. mem_write_all m arg_sig_addr sig_bytes)) (\<lambda>_.
              sbi_return (of_nat (length sig_bytes)))))))"

definition handle_tezos_ed25519_verify :: "tezos_env \<Rightarrow> machine_core \<Rightarrow> xvalue sbi_call" where
  "handle_tezos_ed25519_verify tz c =
     (let arg_pk_addr = xregister_read c x10;
          arg_sig_addr = xregister_read c x11;
          arg_msg_addr = xregister_read c x12;
          arg_msg_len = xregister_read c x13
      in sbi_bind (sbi_read_all arg_pk_addr 32) (\<lambda>pk_bytes.
         sbi_bind (sbi_read_all arg_sig_addr 64) (\<lambda>sig_bytes.
         sbi_bind (sbi_vec arg_msg_len) (\<lambda>_.
         sbi_bind (sbi_read_all arg_msg_addr (unat arg_msg_len)) (\<lambda>msg_bytes.
         if \<not> verifying_key_ok tz pk_bytes then sbi_fail SbiFailed
         else if \<not> signature_ok tz sig_bytes then sbi_fail SbiFailed
         else sbi_return (xvalue_from_bool (ed25519_verify_strict tz pk_bytes msg_bytes sig_bytes)))))))"

definition handle_tezos_blake2b_hash256 :: "tezos_env \<Rightarrow> machine_core \<Rightarrow> xvalue sbi_call" where
  "handle_tezos_blake2b_hash256 tz c =
     (let arg_out_addr = xregister_read c x10;
          arg_msg_addr = xregister_read c x11;
          arg_msg_len = xregister_read c x12
      in sbi_bind (sbi_vec arg_msg_len) (\<lambda>_.
         sbi_bind (sbi_read_all arg_msg_addr (unat arg_msg_len)) (\<lambda>msg_bytes.
         let digest = blake2b_digest_256 tz msg_bytes in
         sbi_bind (sbi_update (\<lambda>m. mem_write_all m arg_out_addr digest)) (\<lambda>_.
         sbi_return (of_nat (length digest))))))"

type_synonym tezos_state = "pvm_status \<times> reveal_request"

definition handle_tezos_reveal ::
    "tezos_env \<Rightarrow> machine_core \<Rightarrow> tezos_state \<Rightarrow> (tezos_state \<times> machine_core) option" where
  "handle_tezos_reveal tz c h =
     (let (status, rr) = h;
          request_address = xregister_read c x10;
          size_arg = xregister_read c x11
      in case mem_read_all (main_memory c) request_address (min (unat size_arg) (REVEAL_REQUEST_MAX_SIZE tz)) of
           Inl e \<Rightarrow> (if e = BadMemoryAccess then Some (h, sbi_return_error tz c SbiInvalidAddress) else None)
         | Inr buffer \<Rightarrow>
             map_option (\<lambda>rr. ((WaitingForReveal, rr\<lparr>request_size := size_arg\<rparr>), c)) (request_write rr buffer))"

definition handle_not_supported :: "tezos_env \<Rightarrow> machine_core \<Rightarrow> machine_core" where
  "handle_not_supported tz c = sbi_return_error tz c SbiNotSupported"

definition handle_tezos :: "tezos_env \<Rightarrow> tezos_state \<Rightarrow> machine_core \<Rightarrow> (tezos_state \<times> machine_core) option" where
  "handle_tezos tz h c =
     (let sbi_function = xregister_read c x16; (status, rr) = h in
      if sbi_function = SBI_TEZOS_INBOX_NEXT tz then Some ((handle_tezos_inbox_next status, rr), c)
      else if sbi_function = SBI_TEZOS_ED25519_SIGN tz then map_option (Pair h) (sbi_wrap tz c (handle_tezos_ed25519_sign tz c))
      else if sbi_function = SBI_TEZOS_ED25519_VERIFY tz then map_option (Pair h) (sbi_wrap tz c (handle_tezos_ed25519_verify tz c))
      else if sbi_function = SBI_TEZOS_BLAKE2B_HASH256 tz then map_option (Pair h) (sbi_wrap tz c (handle_tezos_blake2b_hash256 tz c))
      else if sbi_function = SBI_TEZOS_REVEAL tz then handle_tezos_reveal tz c h
      else Some (h, handle_not_supported tz c))"

end
