(* ===== verification/Pvm.thy ===== *)
theory Pvm
  imports Tezos Machine_Run
begin

text \<open>
  Model of the proof-generating virtual machine, \<^verbatim>\<open>pvm/common.rs\<close>, and of its wrapper for the rollup
  node, \<^verbatim>\<open>pvm/node_pvm.rs\<close>: the state, evaluation of one or of many steps with the system calls of the
  supervised process, and the responses of the rollup node. The bytes given to the \<^verbatim>\<open>putchar\<close> hook are
  kept beside the state. \<open>None\<close> is a panic, undefined behaviour or a run that does not end.
\<close>

section \<open>State\<close>

record pvm =
  machine :: machine_state
  reveal :: reveal_request
  system_state :: supervisor_state
  version :: u64
  tick :: u64
  message_counter :: u64
  level :: u32
  level_is_set :: bool
  pvm_state :: pvm_status
  putchars :: "u8 list"

definition INITIAL_VERSION :: u64 where "INITIAL_VERSION = 0"

definition pvm_new :: "tezos_env \<Rightarrow> nat \<Rightarrow> memory \<Rightarrow> pvm" where
  "pvm_new tz SIZE m =
     \<lparr>machine = machine_new SIZE m, reveal = reveal_request_new tz, system_state = supervisor_new,
      version = INITIAL_VERSION, tick = 0, message_counter = 0, level = 0, level_is_set = False,
      pvm_state = PVM_STATUS_DEFAULT, putchars = []\<rparr>"

definition pvm_reset :: "pvm \<Rightarrow> pvm option" where
  "pvm_reset p =
     map_option (\<lambda>s. p\<lparr>machine := s, version := INITIAL_VERSION, tick := 0, message_counter := 0, level := 0,
                       level_is_set := False, pvm_state := PVM_STATUS_DEFAULT\<rparr>)
       (machine_reset (machine p))"

text \<open>\<^verbatim>\<open>insert_failure\<close> counts one more retired instruction, to make later proofs wrong in tests.\<close>

definition insert_failure :: "pvm \<Rightarrow> pvm" where
  "insert_failure p =
     (let c = core (machine p); csregs = csregisters (hart c); instrs_retired = csr_read csregs csr_instret in
      p\<lparr>machine := (machine p)\<lparr>core := c\<lparr>hart := (hart c)\<lparr>csregisters := csr_write csregs csr_instret (instrs_retired + 1)\<rparr>\<rparr>\<rparr>\<rparr>)"

definition has_exited :: "pvm \<Rightarrow> u64 option" where
  "has_exited p = (if exited (system_state p) then Some (exit_code (system_state p)) else None)"

section \<open>System calls\<close>

text \<open>
  The parts of the state a system call works on beside the machine: the supervisor, the status, the
  reveal request and the putchars.
\<close>

type_synonym call_state = "supervisor_state \<times> tezos_state \<times> u8 list"

definition pvm_handle_system_call ::
    "tezos_env \<Rightarrow> call_state \<Rightarrow> machine_core \<Rightarrow> (bool \<times> call_state \<times> machine_core) option" where
  "pvm_handle_system_call tz cs c =
     (case cs of (sv, h, out) \<Rightarrow>
        map_option (\<lambda>(go, h, st). (go, (supervisor st, h, console st), mcore st))
          (linux_handle_system_call (SBI_FIRMWARE_TEZOS tz)
             (\<lambda>h c. map_option (\<lambda>(h, c). (fst h = Evaluating, h, c)) (handle_tezos tz h c))
             h \<lparr>supervisor = sv, mcore = c, console = out\<rparr>))"

definition call_state_of :: "pvm \<Rightarrow> call_state" where
  "call_state_of p = (system_state p, (pvm_state p, reveal p), putchars p)"

definition set_call_state :: "call_state \<Rightarrow> machine_state \<Rightarrow> pvm \<Rightarrow> pvm" where
  "set_call_state cs s p =
     (case cs of (sv, (status, rr), out) \<Rightarrow>
        p\<lparr>machine := s, system_state := sv, pvm_state := status, reveal := rr, putchars := out\<rparr>)"

definition handle_exception :: "tezos_env \<Rightarrow> pvm \<Rightarrow> environ_exception \<Rightarrow> (bool \<times> pvm) option" where
  "handle_exception tz p exc =
     map_option (\<lambda>(go, cs, c). (go, set_call_state cs ((machine p)\<lparr>core := c\<rparr>) p))
       (pvm_handle_system_call tz (call_state_of p) (core (machine p)))"

section \<open>Evaluation\<close>

definition pvm_tick :: "u64 \<Rightarrow> pvm \<Rightarrow> pvm" where
  "pvm_tick n p = p\<lparr>tick := tick p + n\<rparr>"

definition provide_reveal_error_response :: "tezos_env \<Rightarrow> pvm \<Rightarrow> pvm" where
  "provide_reveal_error_response tz p =
     (let p = p\<lparr>machine := (machine p)\<lparr>core := xregister_write (core (machine p)) x10 (sbi_code tz SbiInvalidParam)\<rparr>\<rparr>;
          p = pvm_tick 1 p
      in p\<lparr>pvm_state := Evaluating\<rparr>)"

definition eval_one :: "apfloat_ops \<Rightarrow> tezos_env \<Rightarrow> pvm \<Rightarrow> pvm option" where
  "eval_one apf tz p =
     (if pvm_state p = WaitingForReveal then Some (provide_reveal_error_response tz p)
      else case step apf (machine p) of
             None \<Rightarrow> None
           | Some (Inr _, s) \<Rightarrow> Some (pvm_tick 1 (p\<lparr>machine := s\<rparr>))
           | Some (Inl exc, s) \<Rightarrow> map_option (\<lambda>(_, p). pvm_tick 1 p) (handle_exception tz (p\<lparr>machine := s\<rparr>) exc))"

definition pvm_handler ::
    "tezos_env \<Rightarrow> call_state \<Rightarrow> machine_state \<Rightarrow> environ_exception \<Rightarrow> ((unit + bool) \<times> call_state \<times> machine_state) option" where
  "pvm_handler tz cs s exc =
     map_option (\<lambda>(go, cs, c). (Inr go, cs, s\<lparr>core := c\<rparr>)) (pvm_handle_system_call tz cs (core s))"

definition eval_max :: "apfloat_ops \<Rightarrow> tezos_env \<Rightarrow> bound \<Rightarrow> pvm \<Rightarrow> (nat \<times> pvm) option" where
  "eval_max apf tz step_bounds p =
     (if \<not> less_than_bound 0 step_bounds then Some (0, p)
      else if pvm_state p = WaitingForReveal then Some (1, provide_reveal_error_response tz p)
      else map_option (\<lambda>(r, cs, s). (steps r, pvm_tick (of_nat (steps r)) (set_call_state cs s p)))
             (step_max_handle apf step_bounds (pvm_handler tz) (call_state_of p) (machine p)))"

section \<open>Input\<close>

datatype pvm_input =
    InboxMessage (inbox_level: u32) (inbox_counter: u64) (inbox_payload: "u8 list")
  | Reveal "u8 list"

definition provide_inbox_message :: "tezos_env \<Rightarrow> pvm \<Rightarrow> u32 \<Rightarrow> u32 \<Rightarrow> u8 list \<Rightarrow> (bool \<times> pvm) option" where
  "provide_inbox_message tz p lvl counter payload =
     (case tezos_provide_input tz (pvm_state p) (core (machine p)) lvl counter payload of
        None \<Rightarrow> None
      | Some (False, status, c) \<Rightarrow> Some (False, p\<lparr>pvm_state := status, machine := (machine p)\<lparr>core := c\<rparr>\<rparr>)
      | Some (True, status, c) \<Rightarrow>
          Some (True, (pvm_tick 1 (p\<lparr>pvm_state := status, machine := (machine p)\<lparr>core := c\<rparr>\<rparr>))
                        \<lparr>message_counter := ucast counter, level_is_set := True, level := lvl\<rparr>))"

definition provide_reveal_response :: "tezos_env \<Rightarrow> pvm \<Rightarrow> u8 list \<Rightarrow> (bool \<times> pvm) option" where
  "provide_reveal_response tz p reveal_data =
     (case tezos_provide_reveal_response tz (pvm_state p) (core (machine p)) reveal_data of
        None \<Rightarrow> None
      | Some (False, status, c) \<Rightarrow> Some (False, p\<lparr>pvm_state := status, machine := (machine p)\<lparr>core := c\<rparr>\<rparr>)
      | Some (True, status, c) \<Rightarrow>
          Some (True, pvm_tick 1 (p\<lparr>pvm_state := status, machine := (machine p)\<lparr>core := c\<rparr>\<rparr>)))"

definition provide_input :: "tezos_env \<Rightarrow> pvm \<Rightarrow> pvm_input \<Rightarrow> (bool \<times> pvm) option" where
  "provide_input tz p inp =
     (case inp of
        InboxMessage lvl counter payload \<Rightarrow> provide_inbox_message tz p lvl (ucast counter) payload
      | Reveal reveal_data \<Rightarrow> provide_reveal_response tz p reveal_data)"

definition pvm_reveal_request :: "tezos_env \<Rightarrow> pvm \<Rightarrow> u8 list" where
  "pvm_reveal_request tz p = to_vec tz (reveal p)"

section \<open>The node's interface\<close>

definition get_current_level :: "pvm \<Rightarrow> u32 option" where
  "get_current_level p = (if level_is_set p then Some (level p) else None)"

definition compute_step :: "apfloat_ops \<Rightarrow> tezos_env \<Rightarrow> pvm \<Rightarrow> pvm option" where
  "compute_step apf tz p = eval_one apf tz p"

definition compute_step_many :: "apfloat_ops \<Rightarrow> tezos_env \<Rightarrow> pvm \<Rightarrow> nat \<Rightarrow> (int \<times> pvm) option" where
  "compute_step_many apf tz p max_steps =
     map_option (\<lambda>(n, p). (sint (word_of_nat n :: u64), p)) (eval_max apf tz (Included max_steps) p)"

end
