(* ===== verification/Pvm_Eval.thy ===== *)
theory Pvm_Eval
  imports Pvm
begin

text \<open>
  Evaluating many steps at once, \<^verbatim>\<open>eval_max\<close>, is evaluating single steps one after the other,
  \<^verbatim>\<open>eval_one\<close>. The argument has two halves: \<^verbatim>\<open>step_max_handle\<close> is a sequence of single machine steps
  with the handler called at every environment exception, and such a step is \<^verbatim>\<open>eval_one\<close>.
\<close>

section \<open>Runs with a handler as single steps\<close>

type_synonym ('h, 'e) handler =
  "'h \<Rightarrow> machine_state \<Rightarrow> environ_exception \<Rightarrow> (('e + bool) \<times> 'h \<times> machine_state) option"

text \<open>
  What happens after \<open>n\<close> steps when the next one raises an exception: the handler's error or its
  refusal ends the run, otherwise it goes on by \<open>k\<close>.
\<close>

definition after_handler ::
    "nat \<Rightarrow> ((('e + bool) \<times> 'h \<times> machine_state) option) \<Rightarrow> ('h \<Rightarrow> machine_state \<Rightarrow> ('e step_many_result \<times> 'h \<times> machine_state) option) \<Rightarrow>
     ('e step_many_result \<times> 'h \<times> machine_state) option" where
  "after_handler n x k =
     (case x of
        None \<Rightarrow> None
      | Some (Inl e, h, s) \<Rightarrow> Some (\<lparr>steps = n + 1, error = Some e\<rparr>, h, s)
      | Some (Inr go, h, s) \<Rightarrow>
          if go then map_option (apfst (add_steps (n + 1))) (k h s) else Some (\<lparr>steps = n + 1, error = None\<rparr>, h, s))"

fun handled_steps ::
    "apfloat_ops \<Rightarrow> ('h, 'e) handler \<Rightarrow> nat \<Rightarrow> 'h \<Rightarrow> machine_state \<Rightarrow> ('e step_many_result \<times> 'h \<times> machine_state) option" where
  "handled_steps apf handle 0 h s = Some (\<lparr>steps = 0, error = None\<rparr>, h, s)"
| "handled_steps apf handle (Suc n) h s =
     (case step apf s of
        None \<Rightarrow> None
      | Some (Inr _, s') \<Rightarrow> map_option (apfst (add_steps 1)) (handled_steps apf handle n h s')
      | Some (Inl e, s') \<Rightarrow> after_handler 0 (handle h s' e) (handled_steps apf handle n))"

lemma step_cases:
  assumes "step_max_inner apf (Suc 0) s = Some (r, s')"
  shows "step apf s = Some (case error r of None \<Rightarrow> Inr () | Some e \<Rightarrow> Inl e, s')"
    and "error r = None \<Longrightarrow> steps r = 1" and "error r \<noteq> None \<Longrightarrow> steps r = 0"
  using assms step_max_inner_counted [OF assms] by (auto simp: step_def counted_def split: option.split)

lemma add_steps_add [simp]: "add_steps m (add_steps n r) = add_steps (m + n) r"
  by (simp add: add_steps_eq)

lemma add_steps_0 [simp]: "add_steps 0 = id"
  by (auto simp: add_steps_def)

lemma map_add_steps [simp]:
  "map_option (apfst (add_steps m)) (map_option (apfst (add_steps n)) x) = map_option (apfst (add_steps (m + n))) x"
  by (cases x) auto

lemma after_handler_add:
  "map_option (apfst (add_steps m)) (after_handler n x k) = after_handler (m + n) x k"
  by (auto simp: after_handler_def split: option.split sum.split)

lemma handled_steps_single:
  "handled_steps apf handle n h s =
     (case single_steps apf n s of
        None \<Rightarrow> None
      | Some (r, s') \<Rightarrow>
          (case error r of
             None \<Rightarrow> Some (\<lparr>steps = steps r, error = None\<rparr>, h, s')
           | Some e \<Rightarrow> after_handler (steps r) (handle h s' e) (handled_steps apf handle (n - steps r - 1))))"
proof (induction n arbitrary: s)
  case (Suc n)
  show ?case
  proof (cases "step_max_inner apf (Suc 0) s")
    case None
    then show ?thesis by (simp add: step_def then_run_def)
  next
    case (Some x)
    then obtain r s' where x: "step_max_inner apf (Suc 0) s = Some (r, s')" by (cases x) auto
    note c = step_cases [OF x]
    show ?thesis
    proof (cases "error r")
      case None
      with c x show ?thesis
        by (auto simp: Suc.IH then_run_def after_handler_add split: option.split)
    next
      case e: (Some e)
      with c x show ?thesis by (simp add: then_run_def)
    qed
  qed
qed simp

text \<open>A handler that leaves the block being run untouched.\<close>

definition keeps_partial :: "('h, 'e) handler \<Rightarrow> bool" where
  "keeps_partial handle \<longleftrightarrow>
     (\<forall>h s e res h' s'. handle h s e = Some (res, h', s') \<longrightarrow> partial_wf (block_cache s) \<longrightarrow> partial_wf (block_cache s'))"

lemma step_max_handle_loop_single:
  assumes "keeps_partial handle" and "partial_wf (block_cache s)" and "b \<noteq> Unbounded" and "k + unwrap_bound b \<le> USIZE_MAX"
  shows "step_max_handle_loop apf handle b k h s =
           map_option (apfst (add_steps k)) (handled_steps apf handle (unwrap_bound b) h s)"
  using assms(2-4)
proof (induction "unwrap_bound b" arbitrary: b k h s rule: less_induct)
  case less
  let ?n = "unwrap_bound b"
  have run: "step_max apf b s = single_steps apf ?n s"
    using step_max_bounded [OF less.prems(2)] step_max_inner_single_steps [OF less.prems(1)] by simp
  note unfold = step_max_handle_loop.simps [of apf handle b k h s] run handled_steps_single [of apf handle ?n h s]
  show ?case
  proof (cases "single_steps apf ?n s")
    case None
    then show ?thesis by (simp add: unfold)
  next
    case (Some x)
    then obtain r s1 where r: "single_steps apf ?n s = Some (r, s1)" by (cases x) auto
    have cnt: "counted ?n r" using step_max_inner_counted step_max_inner_single_steps [OF less.prems(1)] r by metis
    show ?thesis
    proof (cases "error r")
      case None
      with cnt less.prems(3) show ?thesis
        by (simp add: unfold r counted_def saturating_step_add_def)
    next
      case e: (Some e)
      define b' where "b' = bound_saturating_sub (bound_saturating_sub b (steps r)) 1"
      have lt: "steps r < ?n" using cnt e by (simp add: counted_def)
      note b' = bound_after_exception [OF less.prems(2) lt, folded b'_def]
      have n: "saturating_step_add (saturating_step_add k (steps r)) 1 = k + steps r + 1"
        using less.prems(3) lt by (simp add: saturating_step_add_def)
      have IH: "step_max_handle_loop apf handle b' (Suc (k + steps r)) h' s' =
          map_option (apfst (add_steps (Suc (k + steps r)))) (handled_steps apf handle (?n - Suc (steps r)) h' s')"
        if "handle h s1 e = Some (Inr True, h', s')" for h' s'
      proof -
        have "partial_wf (block_cache s')"
          using assms(1) that single_steps_wf [OF less.prems(1) r] unfolding keeps_partial_def by blast
        moreover have "unwrap_bound b' = ?n - Suc (steps r)" using conjunct2 [OF b'] by linarith
        ultimately show ?thesis
          using less.hyps [of b' s' "Suc (k + steps r)" h'] b' less.prems(3) lt by simp
      qed
      show ?thesis
        by (simp add: unfold r e after_handler_add n [unfolded One_nat_def])
           (auto simp: after_handler_def IH b'_def [symmetric, unfolded One_nat_def] split: option.split sum.split)
    qed
  qed
qed

lemma step_max_handle_single:
  assumes "keeps_partial handle" and "partial_wf (block_cache s)" and "b \<noteq> Unbounded" and "unwrap_bound b \<le> USIZE_MAX"
  shows "step_max_handle apf b handle h s = handled_steps apf handle (unwrap_bound b) h s"
  using step_max_handle_loop_single [OF assms(1-3), of 0 apf h] assms(4)
  by (simp add: step_max_handle_def option.map_id apfst_def map_prod.id)

section \<open>The handler of the virtual machine\<close>

lemma keeps_partial_pvm_handler: "keeps_partial (pvm_handler tz)"
  by (auto simp: keeps_partial_def pvm_handler_def)

text \<open>Single steps, with the boolean that tells whether a longer run would go on.\<close>

definition eval_step :: "apfloat_ops \<Rightarrow> tezos_env \<Rightarrow> pvm \<Rightarrow> (bool \<times> pvm) option" where
  "eval_step apf tz p =
     (case step apf (machine p) of
        None \<Rightarrow> None
      | Some (Inr _, s) \<Rightarrow> Some (True, pvm_tick 1 (p\<lparr>machine := s\<rparr>))
      | Some (Inl exc, s) \<Rightarrow> map_option (apsnd (pvm_tick 1)) (handle_exception tz (p\<lparr>machine := s\<rparr>) exc))"

lemma eval_one_step: "pvm_state p \<noteq> WaitingForReveal \<Longrightarrow> eval_one apf tz p = map_option snd (eval_step apf tz p)"
  by (auto simp: eval_one_def eval_step_def option.map_comp comp_def case_prod_beta split: option.split sum.split
      intro!: option.map_cong)

fun eval_many :: "apfloat_ops \<Rightarrow> tezos_env \<Rightarrow> nat \<Rightarrow> pvm \<Rightarrow> pvm option" where
  "eval_many apf tz 0 p = Some p"
| "eval_many apf tz (Suc n) p = Option.bind (eval_one apf tz p) (eval_many apf tz n)"

lemma pvm_tick_simps [simp]:
  "pvm_tick m (set_call_state cs s p) = set_call_state cs s (pvm_tick m p)"
  "pvm_tick m (pvm_tick n p) = pvm_tick (n + m) p" "pvm_state (pvm_tick m p) = pvm_state p"
  by (auto simp: pvm_tick_def set_call_state_def split: prod.split)

lemma set_call_state_simps [simp]:
  "set_call_state cs s (set_call_state cs' s' p) = set_call_state cs s p" "set_call_state (call_state_of p) (machine p) p = p"
  "machine (set_call_state cs s p) = s" "call_state_of (set_call_state cs s p) = cs"
  "(set_call_state cs s p)\<lparr>machine := s'\<rparr> = set_call_state cs s' p" "pvm_state (set_call_state cs s p) = fst (fst (snd cs))"
  by (auto simp: set_call_state_def call_state_of_def split: prod.split)

lemma eval_step_call:
  "eval_step apf tz (set_call_state cs s p) =
     (case step apf s of
        None \<Rightarrow> None
      | Some (Inr _, s') \<Rightarrow> Some (True, set_call_state cs s' (pvm_tick 1 p))
      | Some (Inl exc, s') \<Rightarrow>
          map_option (\<lambda>(go, cs', c). (go, set_call_state cs' (s'\<lparr>core := c\<rparr>) (pvm_tick 1 p))) (pvm_handle_system_call tz cs (core s')))"
  by (auto simp: eval_step_def handle_exception_def option.map_comp comp_def split: option.split sum.split
      intro!: option.map_cong)

lemma not_waiting_after_call:
  assumes "pvm_handle_system_call tz cs c = Some (True, cs', c')" and "fst (fst (snd cs)) \<noteq> WaitingForReveal"
  shows "fst (fst (snd cs')) \<noteq> WaitingForReveal"
  using assms
  by (auto simp: pvm_handle_system_call_def linux_handle_system_call_def Let_def split: prod.splits sys.splits if_splits)

text \<open>The steps of a run from \<open>p\<close> that leads to the states of \<open>q\<close>, or its crash.\<close>

definition replays ::
    "apfloat_ops \<Rightarrow> tezos_env \<Rightarrow> nat \<Rightarrow> (unit step_many_result \<times> call_state \<times> machine_state) option \<Rightarrow> pvm \<Rightarrow> pvm \<Rightarrow> bool" where
  "replays apf tz n run p q \<longleftrightarrow>
     (case run of
        None \<Rightarrow> eval_many apf tz n p = None
      | Some (r, cs, s) \<Rightarrow> steps r \<le> n \<and>
          eval_many apf tz (steps r) p = Some (set_call_state cs s (pvm_tick (of_nat (steps r)) q)))"

lemma replays_Suc:
  assumes "eval_one apf tz p = Some p'" and "replays apf tz n run p' (pvm_tick 1 q)"
  shows "replays apf tz (Suc n) (map_option (apfst (add_steps 1)) run) p q"
  using assms by (auto simp: replays_def split: option.splits)

lemma eval_many_handled:
  assumes "fst (fst (snd cs)) \<noteq> WaitingForReveal"
  shows "replays apf tz n (handled_steps apf (pvm_handler tz) n cs s) (set_call_state cs s p) p"
  using assms
proof (induction n arbitrary: cs s p)
  case 0
  then show ?case by (simp add: replays_def pvm_tick_def)
next
  case (Suc n)
  let ?p = "set_call_state cs s p"
  have one: "eval_one apf tz ?p = map_option snd (eval_step apf tz ?p)" using Suc.prems by (simp add: eval_one_step)
  note st = eval_step_call [of apf tz cs s p]
  show ?case
  proof (cases "step apf s")
    case None
    then show ?thesis using one st by (simp add: replays_def)
  next
    case (Some x)
    then obtain res s' where x: "step apf s = Some (res, s')" by (cases x) auto
    show ?thesis
    proof (cases res)
      case (Inr u)
      then have "eval_one apf tz ?p = Some (set_call_state cs s' (pvm_tick 1 p))" using one st x by simp
      from replays_Suc [OF this Suc.IH [OF Suc.prems]] show ?thesis using x Inr by simp
    next
      case (Inl e)
      show ?thesis
      proof (cases "pvm_handle_system_call tz cs (core s')")
        case None
        then show ?thesis using one st x Inl by (simp add: replays_def pvm_handler_def after_handler_def)
      next
        case (Some y)
        then obtain go cs' c where y: "pvm_handle_system_call tz cs (core s') = Some (go, cs', c)" by (cases y) auto
        have e1: "eval_one apf tz ?p = Some (set_call_state cs' (s'\<lparr>core := c\<rparr>) (pvm_tick 1 p))"
          using one st x Inl y by simp
        show ?thesis
        proof (cases go)
          case True
          then have "fst (fst (snd cs')) \<noteq> WaitingForReveal"
            using not_waiting_after_call [of tz cs "core s'" cs' c] y Suc.prems by simp
          from replays_Suc [OF e1 Suc.IH [OF this]] show ?thesis
            using x Inl y True by (simp add: pvm_handler_def after_handler_def)
        next
          case False
          then show ?thesis using x Inl y e1 by (simp add: replays_def pvm_handler_def after_handler_def)
        qed
      qed
    qed
  qed
qed

lemma handled_steps_progress: "handled_steps apf handle (Suc n) h s = Some (r, h', s') \<Longrightarrow> 0 < steps r"
  by (auto simp: after_handler_def split: option.splits sum.splits if_splits)

lemma eval_max_replay:
  assumes "partial_wf (block_cache (machine p))" and "b \<noteq> Unbounded" and "unwrap_bound b \<le> USIZE_MAX"
  shows "case eval_max apf tz b p of
      None \<Rightarrow> eval_many apf tz (unwrap_bound b) p = None
    | Some (n, p') \<Rightarrow> n \<le> unwrap_bound b \<and> (0 < unwrap_bound b \<longrightarrow> 0 < n) \<and> eval_many apf tz n p = Some p'"
proof -
  have bound: "less_than_bound 0 b \<longleftrightarrow> 0 < unwrap_bound b" using assms(2) by (cases b) auto
  consider "\<not> less_than_bound 0 b" | "less_than_bound 0 b" "pvm_state p = WaitingForReveal"
    | "less_than_bound 0 b" "pvm_state p \<noteq> WaitingForReveal" by blast
  then show ?thesis
  proof cases
    case 1
    then show ?thesis using bound by (simp add: eval_max_def)
  next
    case 2
    then show ?thesis using bound by (simp add: eval_max_def eval_one_def)
  next
    case 3
    let ?H = "handled_steps apf (pvm_handler tz) (unwrap_bound b) (call_state_of p) (machine p)"
    have "replays apf tz (unwrap_bound b) ?H p p"
      using eval_many_handled [of "call_state_of p" apf tz "unwrap_bound b" "machine p" p] 3
      by (simp add: call_state_of_def) (simp add: call_state_of_def [symmetric])
    moreover have "0 < steps r" if "?H = Some (r, cs, s)" for r cs s
      using that 3 bound handled_steps_progress by (cases "unwrap_bound b") auto
    ultimately show ?thesis
      using 3 step_max_handle_single [OF keeps_partial_pvm_handler assms, of apf tz "call_state_of p"]
      by (auto simp: eval_max_def replays_def split: option.splits)
  qed
qed

end
