(* ===== verification/Pvm_Refine.thy ===== *)
theory Pvm_Refine
  imports Pvm_Eval Linux_Correct
begin

text \<open>
  The virtual machine refines one without a block cache: system calls and host functions keep the
  machine's invariant, unless they manage memory, so evaluation with cached blocks is evaluation that
  fetches and decodes every instruction from memory.
\<close>

section \<open>Environment exceptions\<close>

lemma run_partial_loop_error:
  "run_partial_loop apf m is mc a n k = Some (r, mc', q) \<Longrightarrow> error r \<noteq> None \<Longrightarrow> q = None"
  by (induction apf m "is" mc a n k rule: run_partial_loop.induct)
     (fastforce split: prod.splits outcome.splits pc_update.splits if_splits option.splits sum.splits simp: Let_def)+

lemma exception_idle_partial:
  assumes prog: "in_progress (partial_block (block_cache s))" and wf: "partial_wf (block_cache s)"
    and run: "step_max_inner apf 1 s = Some (r, s')" and err: "error r \<noteq> None"
  shows "\<not> in_progress (partial_block (block_cache s'))"
proof -
  let ?p = "partial_block (block_cache s)"
  define e where "e = entry_at (block_cache s) (partial_addr ?p)"
  obtain "is" where "is": "block_instr (cached_block e) = Some is"
    using run step_max_inner_partial_None [OF prog, of 1 apf] by (fastforce simp: e_def)
  have len: "progress ?p \<le> length is"
    using wf prog block_instr_length [OF "is"] by (simp add: partial_wf_def Let_def e_def)
  obtain r1 mc q where l: "run_partial_loop apf (Suc 0) (drop (progress ?p) is) (core s) (pc (hart (core s))) 0 (progress ?p) = Some (r1, mc, q)"
    and k: "(if error r1 \<noteq> None then Some (r1, after_partial s e mc q) else step_loop apf (Suc 0) r1 (after_partial s e mc q)) = Some (r, s')"
    using run by (auto simp: step_max_inner_partial [OF prog _ e_def "is" len] split: option.splits)
  have "error r1 \<noteq> None"
  proof
    assume "error r1 = None"
    moreover have "drop (progress ?p) is \<noteq> []"
      using wf prog block_instr_length [OF "is"] by (simp add: partial_wf_def Let_def e_def)
    ultimately have "Suc 0 \<le> steps r1" using run_partial_loop_steps [OF l] by simp
    then show False using k err \<open>error r1 = None\<close> by simp
  qed
  with k run_partial_loop_error [OF l] show ?thesis by (auto simp: after_partial_def)
qed

lemma exception_idle:
  assumes wf: "partial_wf (block_cache s)" and run: "step_max_inner apf 1 s = Some (r, s')" and err: "error r \<noteq> None"
  shows "\<not> in_progress (partial_block (block_cache s'))"
proof (cases "in_progress (partial_block (block_cache s))")
  case True
  then show ?thesis using wf run err by (rule exception_idle_partial)
next
  case idle: False
  then have new: "partial_block (block_cache s) = partial_new" using wf by (simp add: partial_wf_def Let_def)
  show ?thesis
  proof (cases "get_block (block_cache s) (pc (hart (core s)))")
    case (Some e)
    then have "entry_at (block_cache s) (cached_address e) = e" "0 < block_num_instr (cached_block e)"
      by (auto simp: get_block_def Let_def split: if_splits)
    then have "partial_wf (block_cache (start_partial s e))"
      by (simp add: partial_wf_def start_partial_def entry_at_def)
    then show ?thesis
      using exception_idle_partial [of "start_partial s e" apf r s'] step_max_inner_block [OF new _ Some, of _ apf] run err
      by (simp add: start_partial_def)
  next
    case None
    have loop: "step_loop apf 1 result_zero s = Some (r, s')" using run idle by (simp add: step_max_inner_idle)
    then obtain r1 s1 where b: "loop_body apf 1 s = Some (r1, s1)"
      by (auto simp: step_loop_body [OF result_zero_simps(2)] split: option.splits)
    note keep = loop_body_uncached(2) [OF None b]
    have "s' = s1" using loop b keep
      by (auto simp: step_loop_body [OF result_zero_simps(2)] split: if_splits)
    then show ?thesis using keep new by simp
  qed
qed

lemma decode_at_Err: "decode_at m a = Err e \<Longrightarrow> e \<noteq> EnvCall"
  by (auto simp: decode_at_def fetch_half_def Let_def split: outcome.splits sum.splits memory_error.splits if_splits option.splits)

lemma decode_at_in_memory: "memory_inv m \<Longrightarrow> even a \<Longrightarrow> decode_at m a = Ok x \<Longrightarrow> in_memory m a 2"
  by (auto simp: decode_at_def fetch_half_eq Let_def split: outcome.splits if_splits option.splits)

lemma environ_exception_Some: "environ_exception_try_from e = Some y \<longleftrightarrow> e = EnvCall \<and> y = EnvironEnvCall"
  by (cases e; cases y) auto

lemma env_call_pc:
  assumes inv: "memory_inv (main_memory mc)" and ev: "even (pc (hart mc))" and run: "plain_step apf mc = Some (r, mc')"
    and err: "error r \<noteq> None"
  shows "pc (hart mc') = pc (hart mc)" and "unat (pc (hart mc)) + 4 \<le> u64_max"
proof -
  let ?a = "pc (hart mc)"
  obtain res mc1 where d: "(case decode_at (main_memory mc) ?a of
      Ok (i, _) \<Rightarrow> plain_instr apf i mc | Err e \<Rightarrow> (Err e, mc) | Stuck \<Rightarrow> (Stuck, mc)) = (res, mc1)" by fastforce
  with run err have h: "res = Err EnvCall" and m: "mc' = write_pc mc1 ?a"
    by (auto simp: plain_step_def handle_step_result_def address_on_exception_def Let_def environ_exception_Some
        split: option.splits sum.splits outcome.splits)
  show "pc (hart mc') = ?a" by (simp add: m write_pc_def)
  obtain x where "decode_at (main_memory mc) ?a = Ok x"
    using d h decode_at_Err by (auto split: outcome.splits)
  then have "unat ?a < TOTAL_BYTES (main_memory mc)"
    using decode_at_in_memory [OF inv ev] by (auto simp: in_memory_def)
  moreover have "TOTAL_BYTES (main_memory mc) = PAGES (main_memory mc) * 4096" "TOTAL_BYTES (main_memory mc) \<le> 2 ^ 64 - 1"
    using inv by (auto simp: memory_inv_def PAGE_SIZE_def OFFSET_BITS_def u64_max_def)
  ultimately have a: "unat ?a < PAGES (main_memory mc) * 4096" "PAGES (main_memory mc) * 4096 \<le> 2 ^ 64 - 1" by auto
  from div_le_mono [OF a(2), of 4096] have "PAGES (main_memory mc) \<le> 2 ^ 52 - 1" by simp
  with a(1) show "unat ?a + 4 \<le> u64_max" by (simp add: u64_max_def)
qed

section \<open>Host functions\<close>

text \<open>Host functions reach the memory through permitted stores only.\<close>

definition sbi_stores :: "'a sbi_call \<Rightarrow> bool" where
  "sbi_stores f \<longleftrightarrow> (\<forall>m r m'. memory_inv m \<longrightarrow> f m = Some (r, m') \<longrightarrow> stores m m')"

lemma sbi_stores_return: "sbi_stores (sbi_return x)" and sbi_stores_fail: "sbi_stores (sbi_fail e)"
  and sbi_stores_vec: "sbi_stores (sbi_vec n)"
  by (auto simp: sbi_stores_def sbi_return_def sbi_fail_def sbi_vec_def split: if_splits)

lemma sbi_stores_bind: "sbi_stores f \<Longrightarrow> (\<And>x. sbi_stores (k x)) \<Longrightarrow> sbi_stores (sbi_bind f k)"
  unfolding sbi_stores_def sbi_bind_def
  by (auto split: option.splits sum.splits prod.splits) (metis stores_inv rtranclp_trans)

lemma sbi_stores_read: "sbi_stores (sbi_read_all a n)"
  by (auto simp: sbi_stores_def sbi_read_all_def split: sum.splits)

lemma sbi_stores_update: "(\<And>m m'. memory_inv m \<Longrightarrow> f m = Inr m' \<Longrightarrow> stored m m') \<Longrightarrow> sbi_stores (sbi_update f)"
  by (auto simp: sbi_stores_def sbi_update_def split: sum.splits)

lemma sbi_stores_write_all: "sbi_stores (sbi_update (\<lambda>m. mem_write_all m a (bs :: u8 list)))"
  by (rule sbi_stores_update) (auto simp: mem_write_all_bytes stored_def split: if_splits)

lemma sbi_stores_write: "elem_type TYPE('a::len) \<Longrightarrow> sbi_stores (sbi_update (\<lambda>m. mem_write m a (v :: 'a word)))"
  by (rule sbi_stores_update)
     (auto simp: mem_write_eq stored_def write_ok_def split: if_splits intro!: exI [of _ a] exI [of _ "to_le_bytes v"])

lemmas sbi_stores_basic = sbi_stores_return sbi_stores_fail sbi_stores_vec sbi_stores_bind sbi_stores_read
  sbi_stores_write_all sbi_stores_write

lemma sbi_stores_calls:
  "sbi_stores (handle_tezos_ed25519_sign tz c)" "sbi_stores (handle_tezos_ed25519_verify tz c)"
  "sbi_stores (handle_tezos_blake2b_hash256 tz c)" "sbi_stores (input_write tz c lvl cnt payload)"
  "sbi_stores (reveal_write tz c bs)"
  by (auto simp: handle_tezos_ed25519_sign_def handle_tezos_ed25519_verify_def handle_tezos_blake2b_hash256_def
      input_write_def reveal_write_def Let_def intro!: sbi_stores_basic)

text \<open>What a call keeps of the machine core.\<close>

definition core_kept :: "machine_core \<Rightarrow> machine_core \<Rightarrow> bool" where
  "core_kept c c' \<longleftrightarrow> pc (hart c') = pc (hart c) \<and> stores (main_memory c) (main_memory c')"

lemma core_kept_write [simp]: "core_kept c (xregister_write c r v)" "core_kept c (sbi_return_error tz c e)"
  by (simp_all add: core_kept_def xregister_write_def sbi_return_error_def)

lemma core_kept_refl [simp]: "core_kept c c"
  by (simp add: core_kept_def)

lemma sbi_wrap_kept:
  assumes "sbi_stores f" and "memory_inv (main_memory c)" and "sbi_wrap tz c f = Some c'"
  shows "core_kept c c'"
  using assms
  by (auto simp: sbi_wrap_def sbi_stores_def core_kept_def sbi_return1_def sbi_return_error_def xregister_write_def
      split: option.splits sum.splits prod.splits if_splits)

lemma handle_tezos_kept:
  assumes "memory_inv (main_memory c)" and "handle_tezos tz h c = Some (h', c')"
  shows "core_kept c c'"
  using assms
  by (auto simp: handle_tezos_def Let_def handle_tezos_reveal_def handle_not_supported_def
      split: prod.splits if_splits sum.splits dest: sbi_wrap_kept [OF sbi_stores_calls(1)] sbi_wrap_kept [OF sbi_stores_calls(2)]
        sbi_wrap_kept [OF sbi_stores_calls(3)])

section \<open>System calls keep the machine's invariant\<close>

text \<open>The numbers of the calls that change permissions, which the block cache does not notice.\<close>

definition management_calls :: "u64 set" where
  "management_calls = {MMAP, MPROTECT, MUNMAP}"

lemma system_call_kept:
  assumes "memory_inv (main_memory c)" and "unat (pc (hart c)) + 4 \<le> u64_max"
    and "xregister_read c x17 \<notin> management_calls" and "pvm_handle_system_call tz cs c = Some (go, cs', c')"
  shows "pc (hart c') = pc (hart c) + 4 \<and> stores (main_memory c) (main_memory c')"
proof -
  obtain sv h out where cs: "cs = (sv, h, out)" by (cases cs) auto
  define c1 where "c1 = c\<lparr>hart := (hart c)\<lparr>pc := u64_saturating_add (pc (hart c)) 4\<rparr>\<rparr>"
  define st where "st = \<lparr>supervisor = sv, mcore = c1, console = out\<rparr>"
  have c1: "pc (hart c1) = pc (hart c) + 4" "main_memory c1 = main_memory c" "xregister_read c1 = xregister_read c"
    using assms(2) by (auto simp: c1_def u64_saturating_add_def xregister_read_def fun_eq_iff)
  have inv: "memory_inv (sys_main_memory st)" using assms(1) c1 by (simp add: st_def sys_main_memory_def)
  from assms(4) consider
      h' where "handle_tezos tz h c1 = Some (h', c')"
    | r st' where "system_call (xregister_read c x17) st = (r, st')"
        "(\<exists>e. c' = mcore (write_system_call_error e st')) \<or> c' = mcore st'"
    by (auto simp: pvm_handle_system_call_def cs linux_handle_system_call_def Let_def st_def c1_def [symmetric] c1
        split: if_splits sys.splits prod.splits)
  then show ?thesis
  proof cases
    case 1
    from handle_tezos_kept [OF _ this] assms(1) c1 show ?thesis by (simp add: core_kept_def)
  next
    case 2
    have "system_effect st st'"
      using sc.system_call_outcome [OF inv _ 2(1)] assms(3) by (simp add: management_calls_def)
    then have "stores (main_memory c) (main_memory (mcore st'))" "pc (hart (mcore st')) = pc (hart c) + 4"
      using c1 system_effect_hart(1) [of st st'] by (simp_all add: system_effect_def st_def sys_main_memory_def)
    with 2(2) show ?thesis by (auto simp: write_system_call_error_def sys_write_x_def xregister_write_def)
  qed
qed

lemma machine_inv_kept:
  assumes "machine_inv s" and "\<not> in_progress (partial_block (block_cache s))"
    and "stores (main_memory (core s)) (main_memory c)" and "even (pc (hart c))"
  shows "machine_inv (s\<lparr>core := c\<rparr>)"
proof -
  have "coherent lookup_block (code_at (main_memory c)) (block_cache s)"
    using assms(1,3) stores_code_at [OF assms(3)] unfolding machine_inv_def
    by (auto elim!: coherent_mono)
  then show ?thesis using assms stores_inv [OF assms(3)] by (auto simp: machine_inv_def pending_def Let_def)
qed

section \<open>The machine without a block cache\<close>

definition plain_eval_one :: "apfloat_ops \<Rightarrow> tezos_env \<Rightarrow> pvm \<Rightarrow> pvm option" where
  "plain_eval_one apf tz p =
     (if pvm_state p = WaitingForReveal then Some (provide_reveal_error_response tz p)
      else case plain_step apf (core (machine p)) of
             None \<Rightarrow> None
           | Some (r, c) \<Rightarrow>
               (let p = p\<lparr>machine := (machine p)\<lparr>core := c\<rparr>\<rparr> in
                case error r of
                  None \<Rightarrow> Some (pvm_tick 1 p)
                | Some exc \<Rightarrow> map_option (\<lambda>(_, p). pvm_tick 1 p) (handle_exception tz p exc)))"

text \<open>Two states that may differ in the block cache.\<close>

definition same_but_cache :: "pvm \<Rightarrow> pvm \<Rightarrow> bool" where
  "same_but_cache p q \<longleftrightarrow> core (machine p) = core (machine q) \<and> p\<lparr>machine := machine q\<rparr> = q"

lemma same_but_cache_iff:
  "same_but_cache p q \<longleftrightarrow> core (machine p) = core (machine q) \<and> call_state_of p = call_state_of q \<and> version p = version q \<and>
     tick p = tick q \<and> message_counter p = message_counter q \<and> level p = level q \<and> level_is_set p = level_is_set q"
  by (cases p; cases q) (auto simp: same_but_cache_def call_state_of_def)

lemma same_but_cache_refl [simp]: "same_but_cache p p"
  by (simp add: same_but_cache_def)

lemma same_but_cache_intros:
  "same_but_cache p q \<Longrightarrow> same_but_cache (pvm_tick n p) (pvm_tick n q)"
  "same_but_cache p q \<Longrightarrow> core s = core s' \<Longrightarrow> same_but_cache (p\<lparr>machine := s\<rparr>) (q\<lparr>machine := s'\<rparr>)"
  "same_but_cache p q \<Longrightarrow> core s = core s' \<Longrightarrow> same_but_cache (set_call_state cs s p) (set_call_state cs s' q)"
  "same_but_cache p q \<Longrightarrow> same_but_cache (provide_reveal_error_response tz p) (provide_reveal_error_response tz q)"
  by (cases p; cases q; auto simp: same_but_cache_def pvm_tick_def set_call_state_def provide_reveal_error_response_def Let_def
      split: prod.split)+

lemma handle_exception_same:
  assumes "same_but_cache p q"
  shows "rel_option (\<lambda>(_, p) (_, q). same_but_cache (pvm_tick 1 p) (pvm_tick 1 q)) (handle_exception tz p exc) (handle_exception tz q exc)"
proof -
  have "call_state_of p = call_state_of q" "core (machine p) = core (machine q)" using assms by (simp_all add: same_but_cache_iff)
  then show ?thesis
    by (cases "pvm_handle_system_call tz (call_state_of q) (core (machine q))")
       (auto simp: handle_exception_def intro!: same_but_cache_intros assms)
qed

text \<open>From states that agree up to the cache, both machines make the same step.\<close>

lemma eval_one_plain:
  assumes inv: "machine_inv (machine p)" and same: "same_but_cache p q"
  shows "rel_option same_but_cache (eval_one apf tz p) (plain_eval_one apf tz q)"
proof (cases "pvm_state p = WaitingForReveal")
  case True
  moreover have "pvm_state q = pvm_state p" using same by (simp add: same_but_cache_iff call_state_of_def)
  ultimately show ?thesis using same by (simp add: eval_one_def plain_eval_one_def same_but_cache_intros)
next
  case False
  have st: "pvm_state q = pvm_state p" and co: "core (machine q) = core (machine p)"
    using same by (simp_all add: same_but_cache_iff call_state_of_def)
  have m: "map_option (apsnd core) (step_max_inner apf (Suc 0) (machine p)) = plain_step apf (core (machine p))"
    using machine_step(1) [OF inv, of apf] by simp
  show ?thesis
  proof (cases "step_max_inner apf (Suc 0) (machine p)")
    case None
    then show ?thesis using False st co m by (simp add: eval_one_def plain_eval_one_def step_def)
  next
    case (Some x)
    then obtain r s where x: "step_max_inner apf (Suc 0) (machine p) = Some (r, s)" by (cases x) auto
    have pl: "plain_step apf (core (machine p)) = Some (r, core s)" using m x by simp
    have s: "same_but_cache (p\<lparr>machine := s\<rparr>) (q\<lparr>machine := (machine q)\<lparr>core := core s\<rparr>\<rparr>)"
      using same by (intro same_but_cache_intros) simp_all
    show ?thesis
    proof (cases "error r")
      case e: None
      then show ?thesis
        using False st co pl step_cases(1) [OF x] same_but_cache_intros(1) [OF s]
        by (simp add: eval_one_def plain_eval_one_def Let_def)
    next
      case e: (Some exc)
      with handle_exception_same [OF s, of tz exc] show ?thesis
        using False st co pl step_cases(1) [OF x]
        by (cases "handle_exception tz (p\<lparr>machine := s\<rparr>) exc";
            cases "handle_exception tz (q\<lparr>machine := (machine q)\<lparr>core := core s\<rparr>\<rparr>) exc")
           (auto simp: eval_one_def plain_eval_one_def Let_def)
    qed
  qed
qed

section \<open>Runs\<close>

text \<open>The next step is a call that manages memory.\<close>

definition calls_management :: "apfloat_ops \<Rightarrow> pvm \<Rightarrow> bool" where
  "calls_management apf p \<longleftrightarrow>
     pvm_state p \<noteq> WaitingForReveal \<and>
     (case plain_step apf (core (machine p)) of
        None \<Rightarrow> False
      | Some (r, c) \<Rightarrow> error r \<noteq> None \<and> xregister_read c x17 \<in> management_calls)"

lemma machine_inv_register: "machine_inv (s\<lparr>core := xregister_write (core s) r v\<rparr>) = machine_inv s"
  by (simp add: machine_inv_def pending_def xregister_write_def Let_def)

lemma handle_exception_inv:
  assumes inv: "machine_inv s" and idle: "\<not> in_progress (partial_block (block_cache s))"
    and pc4: "unat (pc (hart (core s))) + 4 \<le> u64_max" and call: "xregister_read (core s) x17 \<notin> management_calls"
    and run: "handle_exception tz (p\<lparr>machine := s\<rparr>) exc = Some (go, p')"
  shows "machine_inv (machine p')"
proof -
  obtain cs' c where h: "pvm_handle_system_call tz (call_state_of (p\<lparr>machine := s\<rparr>)) (core s) = Some (go, cs', c)"
    and p': "machine p' = s\<lparr>core := c\<rparr>"
    using run by (auto simp: handle_exception_def)
  have "even (pc (hart (core s)))" "memory_inv (main_memory (core s))" using inv by (auto simp: machine_inv_def)
  with system_call_kept [OF this(2) pc4 call h] machine_inv_kept [OF inv idle, of c] show ?thesis by (simp add: p')
qed

lemma eval_one_inv:
  assumes inv: "machine_inv (machine p)" and quiet: "\<not> calls_management apf p" and run: "eval_one apf tz p = Some p'"
  shows "machine_inv (machine p')"
proof (cases "pvm_state p = WaitingForReveal")
  case True
  then have "machine p' = (machine p)\<lparr>core := xregister_write (core (machine p)) x10 (sbi_code tz SbiInvalidParam)\<rparr>"
    using run by (auto simp: eval_one_def provide_reveal_error_response_def pvm_tick_def Let_def)
  then show ?thesis using inv by (simp add: machine_inv_register)
next
  case False
  then obtain r s where x: "step_max_inner apf (Suc 0) (machine p) = Some (r, s)"
    using run by (cases "step_max_inner apf (Suc 0) (machine p)") (auto simp: eval_one_def step_def)
  have s: "machine_inv s" using machine_step(2) [OF inv, of apf r s] x by simp
  have pl: "plain_step apf (core (machine p)) = Some (r, core s)" using machine_step(1) [OF inv, of apf] x by simp
  show ?thesis
  proof (cases "error r")
    case None
    then show ?thesis using run False step_cases(1) [OF x] s by (auto simp: eval_one_def pvm_tick_def)
  next
    case (Some exc)
    then obtain go p1 where h: "handle_exception tz (p\<lparr>machine := s\<rparr>) exc = Some (go, p1)" and p': "p' = pvm_tick 1 p1"
      using run False step_cases(1) [OF x] by (auto simp: eval_one_def)
    have "\<not> in_progress (partial_block (block_cache s))"
      using exception_idle [of "machine p" apf r s] inv x Some by (simp add: machine_inv_def)
    moreover have "unat (pc (hart (core s))) + 4 \<le> u64_max"
      using env_call_pc [OF _ _ pl] inv Some by (simp add: machine_inv_def)
    moreover have "xregister_read (core s) x17 \<notin> management_calls"
      using quiet False pl Some by (simp add: calls_management_def)
    ultimately show ?thesis using handle_exception_inv [OF s _ _ _ h] by (simp add: p' pvm_tick_def)
  qed
qed

fun plain_eval_many :: "apfloat_ops \<Rightarrow> tezos_env \<Rightarrow> nat \<Rightarrow> pvm \<Rightarrow> pvm option" where
  "plain_eval_many apf tz 0 p = Some p"
| "plain_eval_many apf tz (Suc n) p = Option.bind (plain_eval_one apf tz p) (plain_eval_many apf tz n)"

text \<open>None of the next \<open>n\<close> steps manages memory.\<close>

fun undisturbed :: "apfloat_ops \<Rightarrow> tezos_env \<Rightarrow> nat \<Rightarrow> pvm \<Rightarrow> bool" where
  "undisturbed apf tz 0 p = True"
| "undisturbed apf tz (Suc n) p \<longleftrightarrow>
     \<not> calls_management apf p \<and> (case plain_eval_one apf tz p of None \<Rightarrow> True | Some p' \<Rightarrow> undisturbed apf tz n p')"

lemma undisturbed_mono: "undisturbed apf tz n p \<Longrightarrow> k \<le> n \<Longrightarrow> undisturbed apf tz k p"
proof (induction k arbitrary: n p)
  case (Suc k)
  then obtain n' where "n = Suc n'" by (cases n) auto
  with Suc show ?case by (auto split: option.splits)
qed simp

lemma eval_many_plain:
  assumes "machine_inv (machine p)" and "same_but_cache p q" and "undisturbed apf tz n q"
  shows "rel_option same_but_cache (eval_many apf tz n p) (plain_eval_many apf tz n q) \<and>
         (\<forall>p'. eval_many apf tz n p = Some p' \<longrightarrow> machine_inv (machine p'))"
  using assms
proof (induction n arbitrary: p q)
  case (Suc n)
  note one = eval_one_plain [OF Suc.prems(1,2), of apf tz]
  have quiet: "\<not> calls_management apf p"
    using Suc.prems(2,3) by (simp add: calls_management_def same_but_cache_iff call_state_of_def)
  show ?case
  proof (cases "eval_one apf tz p")
    case None
    then show ?thesis using one by (cases "plain_eval_one apf tz q") auto
  next
    case (Some p1)
    then obtain q1 where q1: "plain_eval_one apf tz q = Some q1" and s: "same_but_cache p1 q1"
      using one by (cases "plain_eval_one apf tz q") auto
    have "undisturbed apf tz n q1" using Suc.prems(3) q1 by simp
    from Suc.IH [OF eval_one_inv [OF Suc.prems(1) quiet Some] s this] Some q1 show ?thesis by simp
  qed
qed simp

end
