(* ===== verification/Pvm_Correct.thy ===== *)
theory Pvm_Correct
  imports Pvm_Refine Linux_Calls
begin

text \<open>
  Properties of the proof-generating virtual machine: evaluation in bulk is single-step evaluation,
  both are evaluation without a block cache, and the exchange with the rollup node delivers inputs and
  reveal requests, cut to the sizes the interface allows.
\<close>

section \<open>Example states\<close>

text \<open>A rollup environment with the codes of the SBI standard, and a machine with a page of \<^verbatim>\<open>C.NOP\<close>.\<close>

definition demo_tezos :: tezos_env where
  "demo_tezos = \<lparr>SBI_FIRMWARE_TEZOS = 0x0A000000, SBI_TEZOS_INBOX_NEXT = 2, SBI_TEZOS_ED25519_SIGN = 3,
     SBI_TEZOS_ED25519_VERIFY = 4, SBI_TEZOS_BLAKE2B_HASH256 = 5, SBI_TEZOS_REVEAL = 6, MAX_INPUT_MESSAGE_SIZE = 4096,
     REVEAL_DATA_MAX_SIZE = 4096, REVEAL_REQUEST_MAX_SIZE = 64,
     sbi_code = (\<lambda>e. case e of SbiFailed \<Rightarrow> - 1 | SbiNotSupported \<Rightarrow> - 2 | SbiInvalidParam \<Rightarrow> - 3 | SbiInvalidAddress \<Rightarrow> - 5),
     signing_key_ok = (\<lambda>_. True), ed25519_sign = (\<lambda>_ _. replicate 64 0), verifying_key_ok = (\<lambda>_. True),
     signature_ok = (\<lambda>_. True), ed25519_verify_strict = (\<lambda>_ _ _. True), blake2b_digest_256 = (\<lambda>_. replicate 32 0)\<rparr>"

lemma demo_tezos_sizes [simp]: "MAX_INPUT_MESSAGE_SIZE demo_tezos = 4096" "REVEAL_REQUEST_MAX_SIZE demo_tezos = 64"
  by (simp_all add: demo_tezos_def)

definition demo_pvm :: pvm where
  "demo_pvm = pvm_new demo_tezos 2 demo_memory"

lemma demo_pvm_simps [simp]: "machine demo_pvm = demo_state" "pvm_state demo_pvm = Evaluating"
  by (simp_all add: demo_pvm_def pvm_new_def demo_state_def PVM_STATUS_DEFAULT_def)

lemma demo_pvm_inv: "machine_inv (machine demo_pvm)" "partial_wf (block_cache (machine demo_pvm))"
  using demo_state_inv by (simp_all add: machine_inv_def)

lemma demo_plain_step:
  "plain_step apf (core demo_state) = Some (\<lparr>steps = 1, error = None\<rparr>, write_pc (core demo_state) 2)"
  using demo_step [of "core demo_state" apf] by (simp add: demo_state_def machine_new_def hart_new_def)

lemma demo_undisturbed: "undisturbed apf demo_tezos 1 demo_pvm"
  by (simp add: calls_management_def demo_plain_step split: option.split)

lemma demo_eval_one: "\<exists>p'. eval_many apf demo_tezos 1 demo_pvm = Some p'"
proof -
  have "plain_eval_one apf demo_tezos demo_pvm \<noteq> None"
    by (simp add: plain_eval_one_def demo_plain_step Let_def)
  with eval_one_plain [OF demo_pvm_inv(1) same_but_cache_refl, of apf demo_tezos] show ?thesis
    by (cases "eval_one apf demo_tezos demo_pvm") auto
qed

section \<open>Evaluation\<close>

text \<open>
  C5: evaluating many steps at once is evaluating single steps. A bounded \<^verbatim>\<open>eval_max\<close> that returns has
  taken at least one step if it may take any, no more than the bound, and has led to exactly the
  state, with machine, block cache, status, ticks, supervisor and output, that as many calls of
  \<^verbatim>\<open>eval_one\<close> lead to; and when it crashes, so does a run of single steps.
\<close>

theorem eval_max_is_eval_one_iterated:
  assumes "partial_wf (block_cache (machine p))" and "b \<noteq> Unbounded" and "unwrap_bound b \<le> USIZE_MAX"
  shows "case eval_max apf tz b p of
      None \<Rightarrow> eval_many apf tz (unwrap_bound b) p = None
    | Some (n, p') \<Rightarrow> n \<le> unwrap_bound b \<and> (0 < unwrap_bound b \<longrightarrow> 0 < n) \<and> eval_many apf tz n p = Some p'"
  using assms by (rule eval_max_replay)

theorem eval_max_is_eval_one_iterated_witness:
  "\<exists>p'. eval_max sample_apf demo_tezos (Included 1) demo_pvm = Some (1, p') \<and> eval_many sample_apf demo_tezos 1 demo_pvm = Some p'"
  using eval_max_is_eval_one_iterated [OF demo_pvm_inv(2), of "Included 1" sample_apf demo_tezos] demo_eval_one [of sample_apf]
  by (auto simp: USIZE_MAX_def le_Suc_eq split: option.splits)

text \<open>
  C7: the virtual machine refines one without a block cache. As long as no step is a system call that
  manages memory, whatever a bounded \<^verbatim>\<open>eval_max\<close> computes is computed, step by step, by the machine that
  fetches, decodes and runs every instruction from memory and handles every environment call; the two
  states differ in nothing but the block cache, and the invariant of the machine is kept.
\<close>

theorem eval_max_refines_plain:
  assumes "machine_inv (machine p)" and "b \<noteq> Unbounded" and "unwrap_bound b \<le> USIZE_MAX"
    and "undisturbed apf tz (unwrap_bound b) p" and "eval_max apf tz b p = Some (n, p')"
  shows "machine_inv (machine p') \<and> (\<exists>q. plain_eval_many apf tz n p = Some q \<and> same_but_cache p' q)"
proof -
  have "partial_wf (block_cache (machine p))" using assms(1) by (simp add: machine_inv_def)
  from eval_max_replay [OF this assms(2,3), of apf tz] assms(5)
  have n: "n \<le> unwrap_bound b" and run: "eval_many apf tz n p = Some p'" by simp_all
  from eval_many_plain [OF assms(1) same_but_cache_refl undisturbed_mono [OF assms(4) n]] run show ?thesis
    by (cases "plain_eval_many apf tz n p") auto
qed

theorem eval_max_refines_plain_witness:
  "\<exists>n p' q. eval_max sample_apf demo_tezos (Included 1) demo_pvm = Some (n, p') \<and> machine_inv (machine p') \<and>
     plain_eval_many sample_apf demo_tezos n demo_pvm = Some q \<and> same_but_cache p' q"
proof -
  obtain n p' where r: "eval_max sample_apf demo_tezos (Included 1) demo_pvm = Some (n, p')"
    using eval_max_replay [OF demo_pvm_inv(2), of "Included 1" sample_apf demo_tezos] demo_eval_one [of sample_apf]
    by (auto simp: USIZE_MAX_def split: option.splits)
  from eval_max_refines_plain [OF demo_pvm_inv(1) _ _ _ r] r demo_undisturbed show ?thesis
    by (auto simp: USIZE_MAX_def)
qed

section \<open>Exchange with the rollup node\<close>

lemma provide_inbox_message_eq:
  "provide_inbox_message tz p lvl counter payload =
     (if pvm_state p \<noteq> WaitingForInput then Some (False, p)
      else map_option (\<lambda>c. (True, p\<lparr>machine := (machine p)\<lparr>core := c\<rparr>, tick := tick p + 1, pvm_state := Evaluating,
                                   message_counter := ucast counter, level_is_set := True, level := lvl\<rparr>))
             (sbi_wrap tz (core (machine p)) (input_write tz (core (machine p)) lvl counter payload)))"
  by (auto simp: provide_inbox_message_def tezos_provide_input_def pvm_tick_def map_option_case split: option.split)

lemma provide_reveal_response_eq:
  "provide_reveal_response tz p bs =
     (if pvm_state p \<noteq> WaitingForReveal then Some (False, p)
      else map_option (\<lambda>c. (True, p\<lparr>machine := (machine p)\<lparr>core := c\<rparr>, tick := tick p + 1, pvm_state := Evaluating\<rparr>))
             (sbi_wrap tz (core (machine p)) (reveal_write tz (core (machine p)) bs)))"
  by (auto simp: provide_reveal_response_def tezos_provide_reveal_response_def pvm_tick_def map_option_case split: option.split)

text \<open>The status in which an input is awaited.\<close>

fun awaited :: "pvm_input \<Rightarrow> pvm_status" where
  "awaited (InboxMessage lvl counter payload) = WaitingForInput"
| "awaited (Reveal bs) = WaitingForReveal"

text \<open>
  C26: inputs are taken only when they are awaited. An input of the other kind, or any input while the
  machine evaluates, is refused and changes nothing; an awaited one is accepted, counts as one tick,
  lets evaluation go on, and touches neither the supervisor, the reveal request, the block cache nor
  the program counter.
\<close>

theorem provide_input_awaited:
  assumes "memory_inv (main_memory (core (machine p)))" and "provide_input tz p inp = Some (ok, p')"
  shows "if pvm_state p \<noteq> awaited inp then \<not> ok \<and> p' = p
    else ok \<and> pvm_state p' = Evaluating \<and> tick p' = tick p + 1 \<and> system_state p' = system_state p \<and> reveal p' = reveal p \<and>
      block_cache (machine p') = block_cache (machine p) \<and> pc (hart (core (machine p'))) = pc (hart (core (machine p))) \<and>
      get_current_level p' = (case inp of InboxMessage lvl _ _ \<Rightarrow> Some lvl | Reveal _ \<Rightarrow> get_current_level p)"
proof (cases inp)
  case (InboxMessage lvl counter payload)
  then show ?thesis
    using assms sbi_wrap_kept [OF sbi_stores_calls(4) assms(1)]
    by (auto simp: provide_input_def provide_inbox_message_eq core_kept_def get_current_level_def split: if_splits)
next
  case (Reveal bs)
  then show ?thesis
    using assms sbi_wrap_kept [OF sbi_stores_calls(5) assms(1)]
    by (auto simp: provide_input_def provide_reveal_response_eq core_kept_def get_current_level_def split: if_splits)
qed

theorem provide_input_awaited_witness:
  "provide_input demo_tezos demo_pvm (Reveal [1, 2]) = Some (False, demo_pvm)"
proof -
  have "provide_input demo_tezos demo_pvm (Reveal [1, 2]) \<noteq> None"
    by (simp add: provide_input_def provide_reveal_response_eq)
  then obtain ok p' where r: "provide_input demo_tezos demo_pvm (Reveal [1, 2]) = Some (ok, p')" by fastforce
  from provide_input_awaited [OF _ r] r show ?thesis
    by (auto simp: demo_state_def machine_new_def)
qed

lemma sint_of_small: "n < 2 ^ 63 \<Longrightarrow> sint (of_nat n :: u64) = int n"
  by (simp add: signed_of_nat signed_take_bit_int_eq_self)

text \<open>Two ranges of memory that do not overlap.\<close>

definition apart :: "address \<Rightarrow> nat \<Rightarrow> address \<Rightarrow> nat \<Rightarrow> bool" where
  "apart a m b n \<longleftrightarrow> unat a + m \<le> unat b \<or> unat b + n \<le> unat a"

lemma mem_write_ok:
  fixes v :: "'a::len word"
  assumes "memory_inv m" and "elem_type TYPE('a)" and "write_ok (elem_bytes TYPE('a)) m a"
  shows "mem_write m a v = Inr (overwrite m (unat a) (to_le_bytes v))"
  using assms by (simp add: mem_write_eq write_ok_def)

lemma write_ok_overwrite [simp]: "write_ok n (overwrite m a bs) = write_ok n m"
  by (simp add: write_ok_def fun_eq_iff)

text \<open>
  C25: delivery of an inbox message. If the machine waits for input with a writable buffer and
  writable places for level and counter, and these three do not overlap, the message is accepted; the buffer then
  holds the payload, cut to the size of the buffer and to the largest message, the two places hold
  level and counter, \<^verbatim>\<open>a0\<close> is the number of bytes delivered, and level and counter are recorded.
\<close>

theorem inbox_message_delivered:
  assumes "memory_inv m" and "m = main_memory (core (machine p))" and "xregisters_inv (xregisters (hart (core (machine p))))"
    and "pvm_state p = WaitingForInput"
    and "buf = xregister_read (core (machine p)) x10" and "la = xregister_read (core (machine p)) x12"
    and "ca = xregister_read (core (machine p)) x13"
    and "n = min (min (length payload) (unat (xregister_read (core (machine p)) x11))) (MAX_INPUT_MESSAGE_SIZE tz)"
    and "MAX_INPUT_MESSAGE_SIZE tz < 2 ^ 63"
    and "write_ok n m buf" and "unat buf \<le> TOTAL_BYTES m" and "write_ok 4 m la" and "write_ok 4 m ca"
    and "apart buf n la 4" and "apart buf n ca 4" and "apart la 4 ca 4"
  shows "\<exists>p'. provide_inbox_message tz p lvl counter payload = Some (True, p') \<and>
    bytes_of (main_memory (core (machine p'))) buf n = take n payload \<and>
    bytes_of (main_memory (core (machine p'))) la 4 = to_le_bytes lvl \<and>
    bytes_of (main_memory (core (machine p'))) ca 4 = to_le_bytes counter \<and>
    xregister_read (core (machine p')) x10 = of_nat n \<and> pvm_state p' = Evaluating \<and>
    get_current_level p' = Some lvl \<and> message_counter p' = ucast counter"
proof -
  let ?c = "core (machine p)" and ?bs = "take n payload"
  have len: "length ?bs = n" using assms(8) by simp
  define m1 where "m1 = overwrite m (unat buf) ?bs"
  define m2 where "m2 = overwrite m1 (unat la) (to_le_bytes lvl)"
  define m3 where "m3 = overwrite m2 (unat ca) (to_le_bytes counter)"
  have w1: "mem_write_all m buf ?bs = Inr m1"
    using assms(1,10,11) len by (simp add: mem_write_all_bytes m1_def)
  have w2: "mem_write m1 la lvl = Inr m2"
    using mem_write_ok [of m1 la lvl] assms(1,12) by (simp add: m1_def m2_def)
  have w3: "mem_write m2 ca counter = Inr m3"
    using mem_write_ok [of m2 ca counter] assms(1,13) by (simp add: m1_def m2_def m3_def)
  have i: "input_write tz ?c lvl counter payload m = Some (Inr (of_nat n), m3)"
    using w1 w2 w3 by (simp add: input_write_def Let_def assms(5-8) [symmetric] sbi_bind_def sbi_update_def sbi_return_def)
  have "n < 2 ^ 63" using assms(8,9) by simp
  then have v: "\<not> sint (of_nat n :: u64) < 0" by (simp add: sint_of_small)
  define c' where "c' = xregister_write (?c\<lparr>main_memory := m3\<rparr>) x10 (of_nat n)"
  have "sbi_wrap tz ?c (input_write tz ?c lvl counter payload) = Some c'"
    using i v assms(2) by (simp add: sbi_wrap_def sbi_return1_def c'_def)
  moreover have "main_memory c' = m3" "xregister_read c' x10 = of_nat n"
    using assms(3) xregisters_read_write [of "xregisters (hart ?c)" x10 "of_nat n" x10]
    by (simp_all add: c'_def xregister_write_def xregister_read_def is_zero_def)
  moreover have "bytes_of m3 buf n = ?bs" "bytes_of m3 la 4 = to_le_bytes lvl" "bytes_of m3 ca 4 = to_le_bytes counter"
    using assms(14-16) bytes_of_overwrite_same [of m buf ?bs] bytes_of_overwrite_same [of m1 la "to_le_bytes lvl"]
      bytes_of_overwrite_same [of m2 ca "to_le_bytes counter"] len
    by (simp_all add: apart_def m1_def m2_def m3_def bytes_of_overwrite_disjoint)
  ultimately show ?thesis
    using assms(4) by (simp add: provide_inbox_message_eq get_current_level_def)
qed

definition waiting_pvm :: pvm where
  "waiting_pvm =
     (pvm_new demo_tezos 2 (sample_memory True True))
       \<lparr>machine := \<lparr>core = xregister_write (xregister_write (sample_core True True 0 8) x12 64) x13 72, block_cache = block_cache_new 2\<rparr>,
        pvm_state := WaitingForInput\<rparr>"

theorem inbox_message_delivered_witness:
  "\<exists>p'. provide_inbox_message demo_tezos waiting_pvm 7 9 [1, 2, 3] = Some (True, p') \<and>
     bytes_of (main_memory (core (machine p'))) 0 3 = [1, 2, 3] \<and> get_current_level p' = Some 7"
proof -
  have inv: "xregisters_inv (xregisters (hart (sample_core True True 0 8)))"
    using sample_core_inv [of True True 0 8] by (simp add: core_inv_def)
  then have regs: "xregister_read (core (machine waiting_pvm)) x10 = 0" "xregister_read (core (machine waiting_pvm)) x11 = 8"
    "xregister_read (core (machine waiting_pvm)) x12 = 64" "xregister_read (core (machine waiting_pvm)) x13 = 72"
    using sample_core_regs [of True True 0 8]
    by (simp_all add: waiting_pvm_def xregister_read_def xregister_write_def xregisters_read_write is_zero_def)
  have m: "main_memory (core (machine waiting_pvm)) = sample_memory True True"
    "xregisters_inv (xregisters (hart (core (machine waiting_pvm))))" "pvm_state waiting_pvm = WaitingForInput"
    using inv by (simp_all add: waiting_pvm_def xregister_write_def sample_core_def)
  show ?thesis
    using inbox_message_delivered [OF sample_memory_inv' m(1) [symmetric] m(2,3) regs(1,3,4) [symmetric], of 3 "[1, 2, 3]" demo_tezos 7 9]
    by (auto simp: regs sample_write_ok apart_def)
qed

text \<open>
  C34: a reveal request reaches the rollup node. The request is cut to the largest one. If it may be read, the machine waits for
  the response and the request that the node reads back is the one in memory, so cut; if it may not be read, the call
  fails with an error code and the status stays. An empty request at an address beyond the memory is a panic.
\<close>

theorem reveal_request_read_back:
  assumes "memory_inv (main_memory c)" and "length (request_bytes rr) = REVEAL_REQUEST_MAX_SIZE tz"
    and "a = xregister_read c x10" and "n = min (unat (xregister_read c x11)) (REVEAL_REQUEST_MAX_SIZE tz)"
  shows "if n = 0 \<and> TOTAL_BYTES (main_memory c) < unat a then handle_tezos_reveal tz c (status, rr) = None
    else if in_memory (main_memory c) a n \<and> range_allowed (readable_pages (main_memory c)) a n
    then \<exists>rr'. handle_tezos_reveal tz c (status, rr) = Some ((WaitingForReveal, rr'), c) \<and>
           to_vec tz rr' = bytes_of (main_memory c) a n \<and> length (request_bytes rr') = REVEAL_REQUEST_MAX_SIZE tz
    else handle_tezos_reveal tz c (status, rr) = Some ((status, rr), sbi_return_error tz c SbiInvalidAddress)"
proof (cases "n = 0")
  case True
  then have "in_memory (main_memory c) a n" "range_allowed (readable_pages (main_memory c)) a n"
    by (simp_all add: in_memory_def range_allowed_def)
  with True show ?thesis
    using assms(2-4) mem_read_all_bytes [OF assms(1), of a n]
    by (auto simp: handle_tezos_reveal_def Let_def request_write_def to_vec_def bytes_of_def not_less)
next
  case False
  then show ?thesis
    using assms mem_read_all_bytes [OF assms(1), of a n]
    by (auto simp: handle_tezos_reveal_def Let_def request_write_def to_vec_def bytes_of_def)
qed

theorem reveal_request_read_back_witness:
  "\<exists>rr'. handle_tezos_reveal demo_tezos (sample_core True True 0 16) (Evaluating, reveal_request_new demo_tezos) =
     Some ((WaitingForReveal, rr'), sample_core True True 0 16) \<and> to_vec demo_tezos rr' = replicate 16 0"
proof -
  let ?m = "main_memory (sample_core True True 0 16)"
  have m: "?m = sample_memory True True" by (simp add: sample_core_def)
  have "in_memory ?m 0 16" "range_allowed (readable_pages ?m) 0 16" "bytes_of ?m 0 16 = replicate 16 0"
    by (auto simp: m in_memory_def range_allowed_def bytes_of_def sample_memory_def PAGE_SIZE_def OFFSET_BITS_def map_replicate_const)
  then show ?thesis
    using reveal_request_read_back [of "sample_core True True 0 16" "reveal_request_new demo_tezos" demo_tezos 0 16 Evaluating]
    by (auto simp: reveal_request_new_def)
qed

text \<open>
  The host functions that take a message allocate a buffer of the length the process asks for
  before they look at the memory. A length above \<^verbatim>\<open>isize::MAX\<close> is a panic of the implementation: the
  environment call that asks for the digest of such a message ends the evaluation, whatever the
  memory holds.
\<close>

theorem message_length_panics:
  assumes "xregister_read c x16 = SBI_TEZOS_BLAKE2B_HASH256 tz"
    and "SBI_TEZOS_BLAKE2B_HASH256 tz \<notin> {SBI_TEZOS_INBOX_NEXT tz, SBI_TEZOS_ED25519_SIGN tz, SBI_TEZOS_ED25519_VERIFY tz}"
    and "xregister_read c x17 = SBI_FIRMWARE_TEZOS tz" and "SBI_FIRMWARE_TEZOS tz \<notin> set linux_numbers"
    and "ISIZE_MAX < unat (xregister_read c x12)"
  shows "pvm_handle_system_call tz cs c = None"
proof -
  let ?c = "c\<lparr>hart := (hart c)\<lparr>pc := u64_saturating_add (pc (hart c)) 4\<rparr>\<rparr>"
  have r: "xregister_read ?c = xregister_read c" by (simp add: xregister_read_def fun_eq_iff)
  have "handle_tezos tz h ?c = None" for h
    using assms by (cases h) (simp add: handle_tezos_def r sbi_wrap_def handle_tezos_blake2b_hash256_def sbi_bind_def sbi_vec_def Let_def)
  then show ?thesis
    using assms(3,4) by (cases cs) (simp add: pvm_handle_system_call_def linux_handle_system_call_def Let_def r)
qed

theorem message_length_panics_witness:
  "pvm_handle_system_call demo_tezos (call_state_of demo_pvm)
     (xregister_write (xregister_write (xregister_write (sample_core True True 0 0) x12 0x8000000000000000) x16 5) x17 0x0A000000) = None"
proof -
  let ?c = "xregister_write (xregister_write (xregister_write (sample_core True True 0 0) x12 0x8000000000000000) x16 5) x17 0x0A000000"
  have inv: "xregisters_inv (xregisters (hart (sample_core True True 0 0)))"
    using sample_core_inv [of True True 0 0] by (simp add: core_inv_def)
  then have regs: "xregister_read ?c x12 = 0x8000000000000000" "xregister_read ?c x16 = 5" "xregister_read ?c x17 = 0x0A000000"
    by (simp_all add: xregister_read_def xregister_write_def xregisters_read_write is_zero_def)
  show ?thesis
    using message_length_panics [of ?c demo_tezos "call_state_of demo_pvm"] regs
    by (simp add: demo_tezos_def ISIZE_MAX_def linux_numbers_def system_call_numbers)
qed

end
