(* ===== verification/Proof_Tree.thy ===== *)
theory Proof_Tree
  imports Prelude
begin

text \<open>
  Model of \<^verbatim>\<open>state_backend/proof_backend/tree.rs\<close>: the trees that Merkle proofs and their shapes are
  made of, the pre-order iterator over subtrees and the generic traversal
  \<^verbatim>\<open>impl_modify_map_collect\<close>, a loop over an explicit stack of events. Closures that mutate what
  they capture are functions that pass a state along. The lemmas show that the loop visits a tree as
  structural recursion does, whatever the closures are; the clients of the traversal use only these.
\<close>

section \<open>Results\<close>

text \<open>
  What a call ends with: a value, the error of a \<^verbatim>\<open>Result\<close>, or a panic. Closures and helpers that
  cannot panic return a sum, the error on the left.
\<close>

datatype ('e, 'a) fallible = Okay 'a | Failed 'e | Panicked

definition try_bind :: "'e + 'a \<Rightarrow> ('a \<Rightarrow> 'e + 'b) \<Rightarrow> 'e + 'b" where
  "try_bind r f = (case r of Inl e \<Rightarrow> Inl e | Inr x \<Rightarrow> f x)"

lemma try_bind_simps [simp]:
  "try_bind (Inl e) f = Inl e"
  "try_bind (Inr x) f = f x"
  by (simp_all add: try_bind_def)

lemma try_bind_assoc [simp]: "try_bind (try_bind r f) g = try_bind r (\<lambda>x. try_bind (f x) g)"
  by (cases r) auto

lemma try_bind_eq_Inr: "try_bind r f = Inr y \<longleftrightarrow> (\<exists>x. r = Inr x \<and> f x = Inr y)"
  by (cases r) auto

text \<open>A closure applied to the elements of a list from left to right, stopping at the first error.\<close>

fun try_map :: "('a \<Rightarrow> 's \<Rightarrow> 'e + 'b \<times> 's) \<Rightarrow> 'a list \<Rightarrow> 's \<Rightarrow> 'e + 'b list \<times> 's" where
  "try_map f [] s = Inr ([], s)"
| "try_map f (x # xs) s =
     try_bind (f x s) (\<lambda>(y, s1). try_bind (try_map f xs s1) (\<lambda>(ys, s2). Inr (y # ys, s2)))"

lemma try_map_cong [fundef_cong]:
  "xs = ys \<Longrightarrow> (\<And>x s. x \<in> set ys \<Longrightarrow> f x s = g x s) \<Longrightarrow> try_map f xs = try_map g ys"
proof (rule ext)
  fix s assume "xs = ys" and "\<And>x s. x \<in> set ys \<Longrightarrow> f x s = g x s"
  then show "try_map f xs s = try_map g ys s"
    by (induction ys arbitrary: s xs) (auto simp: try_bind_def split: sum.splits)
qed

lemma try_map_pure: "(\<And>x. x \<in> set xs \<Longrightarrow> f x s = Inr (g x, s)) \<Longrightarrow> try_map f xs s = Inr (map g xs, s)"
  by (induction xs) auto

lemma try_map_Inr [simp]: "try_map (\<lambda>x s. Inr (f x, s)) xs s = Inr (map f xs, s)"
  by (rule try_map_pure) simp

text \<open>\<^verbatim>\<open>collect::<Result<Vec<_>, _>>\<close> of closures without a state.\<close>

fun try_collect :: "('e + 'a) list \<Rightarrow> 'e + 'a list" where
  "try_collect [] = Inr []"
| "try_collect (r # rs) = try_bind r (\<lambda>x. try_bind (try_collect rs) (\<lambda>xs. Inr (x # xs)))"

lemma try_collect_Inr [simp]: "try_collect (map (\<lambda>x. Inr (f x)) xs) = Inr (map f xs)"
  by (induction xs) auto

lemma try_collect_map: "(\<And>x. x \<in> set xs \<Longrightarrow> f x = Inr (g x)) \<Longrightarrow> try_collect (map f xs) = Inr (map g xs)"
  by (induction xs) auto

lemma try_collect_eq_Inr: "try_collect rs = Inr xs \<longleftrightarrow> rs = map Inr xs"
proof (induction rs arbitrary: xs)
  case Nil
  show ?case by auto
next
  case (Cons r rs)
  then show ?case by (cases r; cases xs) (auto simp: try_bind_eq_Inr)
qed

lemma try_collect_append:
  "try_collect (rs @ qs) = try_bind (try_collect rs) (\<lambda>xs. try_bind (try_collect qs) (\<lambda>ys. Inr (xs @ ys)))"
  by (induction rs) (auto simp: try_bind_def split: sum.splits)

section \<open>Trees\<close>

datatype 'a tree = Node "'a tree list" | Leaf 'a

text \<open>\<^verbatim>\<open>subtree_iterator\<close>: the head of the list is the top of the stack.\<close>

function subtree_iter :: "'a tree list \<Rightarrow> 'a tree list" where
  "subtree_iter [] = []"
| "subtree_iter (t # stack) =
     t # subtree_iter ((case t of Node children \<Rightarrow> children | Leaf _ \<Rightarrow> []) @ stack)"
  by pat_completeness auto

termination
  by (relation "measure (size_list size)") (auto split: tree.split)

definition subtree_iterator :: "'a tree \<Rightarrow> 'a tree list" where
  "subtree_iterator t = subtree_iter [t]"

text \<open>\<^verbatim>\<open>ModifyResult\<close> and the events of the traversal.\<close>

datatype ('d, 'n, 'l) modify_result = NodeContinue 'd "'n list" | LeafStop 'l

datatype ('n, 'd) process_event = ProcessNode 'n | ProcessCollect 'd nat

text \<open>
  The loop of \<^verbatim>\<open>impl_modify_map_collect\<close>. The head of \<open>process\<close> is the top of the stack of events;
  \<open>out\<close> is the vector \<^verbatim>\<open>done\<close>, to which subtrees are appended. It may run forever when the closure
  \<open>modify\<close> keeps producing children, in which case it has no value.
\<close>

partial_function (option) modify_map_collect ::
  "('n \<Rightarrow> 's \<Rightarrow> 'e + ('d, 'n, 'l) modify_result \<times> 's) \<Rightarrow> ('l \<Rightarrow> 's \<Rightarrow> 'e + 'f \<times> 's) \<Rightarrow>
   ('d \<Rightarrow> 'o list \<Rightarrow> 's \<Rightarrow> 'e + 'o \<times> 's) \<Rightarrow> ('f \<Rightarrow> 'o) \<Rightarrow>
   ('n, 'd) process_event list \<Rightarrow> 'o list \<Rightarrow> 's \<Rightarrow> ('e, 'o \<times> 's) fallible option" where
  "modify_map_collect modify leaf collect from process out s =
     (case process of
        [] \<Rightarrow> Some (if out = [] then Panicked else Okay (last out, s))
      | event # rest \<Rightarrow>
          (case event of
             ProcessNode subtree \<Rightarrow>
               (case modify subtree s of
                  Inl e \<Rightarrow> Some (Failed e)
                | Inr r \<Rightarrow>
                    (case fst r of
                       LeafStop data \<Rightarrow>
                         (case leaf data (snd r) of
                            Inl e \<Rightarrow> Some (Failed e)
                          | Inr y \<Rightarrow> modify_map_collect modify leaf collect from rest (out @ [from (fst y)]) (snd y))
                     | NodeContinue node_data children \<Rightarrow>
                         modify_map_collect modify leaf collect from
                           (map ProcessNode children @ ProcessCollect node_data (length children) # rest)
                           out (snd r)))
           | ProcessCollect node_data count \<Rightarrow>
               if length out < count then Some Panicked
               else
                 (case collect node_data (drop (length out - count) out) s of
                    Inl e \<Rightarrow> Some (Failed e)
                  | Inr y \<Rightarrow>
                      modify_map_collect modify leaf collect from rest
                        (take (length out - count) out @ [fst y]) (snd y))))"

definition impl_modify_map_collect ::
  "('n \<Rightarrow> 's \<Rightarrow> 'e + ('d, 'n, 'l) modify_result \<times> 's) \<Rightarrow> ('l \<Rightarrow> 's \<Rightarrow> 'e + 'f \<times> 's) \<Rightarrow>
   ('d \<Rightarrow> 'o list \<Rightarrow> 's \<Rightarrow> 'e + 'o \<times> 's) \<Rightarrow> ('f \<Rightarrow> 'o) \<Rightarrow> 'n \<Rightarrow> 's \<Rightarrow> ('e, 'o \<times> 's) fallible option" where
  "impl_modify_map_collect modify leaf collect from root s =
     modify_map_collect modify leaf collect from [ProcessNode root] [] s"

definition modify_shape ::
  "('a tree \<Rightarrow> 's \<Rightarrow> 'e + (unit, 'a tree, 'b) modify_result \<times> 's) \<Rightarrow> 'a tree \<Rightarrow> 's \<Rightarrow>
   ('e, 'b tree \<times> 's) fallible option" where
  "modify_shape modify =
     impl_modify_map_collect modify (\<lambda>data s. Inr (data, s)) (\<lambda>_ children s. Inr (Node children, s)) Leaf"

definition tree_modify :: "'a tree \<Rightarrow> 's \<Rightarrow> 'e + (unit, 'a tree, 'a) modify_result \<times> 's" where
  "tree_modify subtree s =
     (case subtree of Node vec \<Rightarrow> Inr (NodeContinue () vec, s) | Leaf data \<Rightarrow> Inr (LeafStop data, s))"

lemma tree_modify_simps [simp]:
  "tree_modify (Node vec) s = Inr (NodeContinue () vec, s)"
  "tree_modify (Leaf data) s = Inr (LeafStop data, s)"
  by (simp_all add: tree_modify_def)

definition tree_map :: "('a \<Rightarrow> 's \<Rightarrow> 'e + 'b \<times> 's) \<Rightarrow> 'a tree \<Rightarrow> 's \<Rightarrow> ('e, 'b tree \<times> 's) fallible option" where
  "tree_map f = impl_modify_map_collect tree_modify f (\<lambda>_ children s. Inr (Node children, s)) Leaf"

text \<open>\<^verbatim>\<open>each_ref\<close>: references are the values they point to.\<close>

definition each_ref :: "'a tree \<Rightarrow> (unit, 'a tree \<times> unit) fallible option" where
  "each_ref t =
     impl_modify_map_collect tree_modify (\<lambda>data s. Inr (data, s)) (\<lambda>_ children s. Inr (Node children, s)) Leaf t ()"

section \<open>The traversal is structural recursion\<close>

text \<open>
  \<open>visits\<close> says what visiting a subtree amounts to, whatever is on the stack below it: on success the
  result is appended to \<^verbatim>\<open>done\<close> and the loop goes on with the rest, an error ends the loop.
\<close>

definition visits_all where
  "visits_all modify leaf collect from ts s r \<longleftrightarrow>
     (\<forall>rest out. modify_map_collect modify leaf collect from (map ProcessNode ts @ rest) out s =
        (case r of
           Inl e \<Rightarrow> Some (Failed e)
         | Inr y \<Rightarrow> modify_map_collect modify leaf collect from rest (out @ fst y) (snd y)))"

definition visits where
  "visits modify leaf collect from t s r \<longleftrightarrow>
     visits_all modify leaf collect from [t] s (try_bind r (\<lambda>(x, s1). Inr ([x], s1)))"

lemma visits_all_Nil: "visits_all modify leaf collect from [] s (Inr ([], s))"
  by (simp add: visits_all_def)

lemma visits_all_Cons:
  assumes "visits modify leaf collect from t s r"
    and "\<And>x s1. r = Inr (x, s1) \<Longrightarrow> visits_all modify leaf collect from ts s1 (rs s1)"
  shows "visits_all modify leaf collect from (t # ts) s
           (try_bind r (\<lambda>(x, s1). try_bind (rs s1) (\<lambda>(xs, s2). Inr (x # xs, s2))))"
proof (cases r)
  case (Inl e)
  with assms(1) show ?thesis by (auto simp: visits_def visits_all_def)
next
  case (Inr y)
  obtain x s1 where y: "y = (x, s1)" by (cases y)
  with Inr assms(2) have "visits_all modify leaf collect from ts s1 (rs s1)" by simp
  with assms(1) Inr y show ?thesis
    by (auto simp: visits_def visits_all_def try_bind_def split: sum.splits prod.splits)
qed

text \<open>Visiting a list of subtrees each of which is visited as \<open>g\<close> says.\<close>

lemma visits_all_try_map:
  "(\<And>t s. t \<in> set ts \<Longrightarrow> visits modify leaf collect from (h t) s (g t s)) \<Longrightarrow>
     visits_all modify leaf collect from (map h ts) s (try_map g ts s)"
proof (induction ts arbitrary: s)
  case Nil
  show ?case by (simp add: visits_all_Nil)
next
  case (Cons t ts)
  have "visits modify leaf collect from (h t) s (g t s)" using Cons.prems by simp
  moreover have "visits_all modify leaf collect from (map h ts) s1 (try_map g ts s1)" for s1
    using Cons by simp
  ultimately show ?case
    using visits_all_Cons [of modify leaf collect "from" "h t" s "g t s" "map h ts" "try_map g ts"] by simp
qed

lemma visits_error: "modify t s = Inl e \<Longrightarrow> visits modify leaf collect from t s (Inl e)"
  by (simp add: visits_def visits_all_def modify_map_collect.simps [of _ _ _ _ "ProcessNode t # _"])

lemma visits_leaf:
  assumes "modify t s = Inr (LeafStop data, s1)"
  shows "visits modify leaf collect from t s (try_bind (leaf data s1) (\<lambda>(x, s2). Inr (from x, s2)))"
  using assms
  by (auto simp: visits_def visits_all_def modify_map_collect.simps [of _ _ _ _ "ProcessNode t # _"]
           split: sum.splits prod.splits)

lemma visits_node:
  assumes "modify t s = Inr (NodeContinue d children, s1)"
    and "visits_all modify leaf collect from children s1 r"
    and "\<And>xs s2. r = Inr (xs, s2) \<Longrightarrow> length xs = length children"
  shows "visits modify leaf collect from t s (try_bind r (\<lambda>(xs, s2). collect d xs s2))"
proof (cases r)
  case (Inl e)
  with assms show ?thesis
    by (simp add: visits_def visits_all_def modify_map_collect.simps [of _ _ _ _ "ProcessNode t # _"])
next
  case (Inr y)
  obtain xs s2 where y: "y = (xs, s2)" by (cases y)
  with Inr assms show ?thesis
    by (auto simp: visits_def visits_all_def modify_map_collect.simps [of _ _ _ _ "ProcessNode t # _"]
          modify_map_collect.simps [of _ _ _ _ "ProcessCollect d _ # _"] split: sum.splits)
qed

lemma length_try_map: "try_map g ts s = Inr (xs, s1) \<Longrightarrow> length xs = length ts"
  by (induction ts arbitrary: s xs) (auto simp: try_bind_eq_Inr)

text \<open>The rule the clients use: a node whose children are visited as \<open>g\<close> says.\<close>

lemma visits_node_try_map:
  assumes "modify t s = Inr (NodeContinue d (map h ts), s1)"
    and "\<And>c s. c \<in> set ts \<Longrightarrow> visits modify leaf collect from (h c) s (g c s)"
  shows "visits modify leaf collect from t s (try_bind (try_map g ts s1) (\<lambda>(xs, s2). collect d xs s2))"
  by (rule visits_node [where children = "map h ts" and ?s1.0 = s1])
     (auto simp: assms length_try_map intro: visits_all_try_map)

definition outcome_of :: "'e + 'a \<Rightarrow> ('e, 'a) fallible" where
  "outcome_of r = (case r of Inl e \<Rightarrow> Failed e | Inr x \<Rightarrow> Okay x)"

lemma outcome_of_simps [simp]:
  "outcome_of (Inl e) = Failed e"
  "outcome_of (Inr x) = Okay x"
  by (simp_all add: outcome_of_def)

lemma impl_modify_map_collect_visits:
  assumes "visits modify leaf collect from t s r"
  shows "impl_modify_map_collect modify leaf collect from t s = Some (outcome_of r)"
proof -
  have "modify_map_collect modify leaf collect from [] out s1 =
          Some (if out = [] then Panicked else Okay (last out, s1))" for out s1
    by (simp add: modify_map_collect.simps)
  with assms show ?thesis
    unfolding impl_modify_map_collect_def visits_def visits_all_def
    by (cases r) (auto dest!: spec [where x = "[]"])
qed

section \<open>The instances of the tree module\<close>

fun tree_map_rec :: "('a \<Rightarrow> 's \<Rightarrow> 'e + 'b \<times> 's) \<Rightarrow> 'a tree \<Rightarrow> 's \<Rightarrow> 'e + 'b tree \<times> 's" where
  "tree_map_rec f (Leaf a) s = try_bind (f a s) (\<lambda>(b, s1). Inr (Leaf b, s1))"
| "tree_map_rec f (Node ts) s = try_bind (try_map (tree_map_rec f) ts s) (\<lambda>(us, s1). Inr (Node us, s1))"

lemma tree_map_eq: "tree_map f t s = Some (outcome_of (tree_map_rec f t s))"
proof -
  have "visits tree_modify f (\<lambda>_ children s. Inr (Node children, s)) Leaf t s (tree_map_rec f t s)" for s
  proof (induction t arbitrary: s)
    case (Node ts)
    show ?case
      using visits_node_try_map [of tree_modify "Node ts" s "()" "\<lambda>t. t" ts s f
          "\<lambda>_ children s. Inr (Node children, s)" Leaf "tree_map_rec f"] Node
      by simp
  next
    case (Leaf a)
    show ?case
      using visits_leaf [of tree_modify "Leaf a" s a s f "\<lambda>_ children s. Inr (Node children, s)" Leaf]
      by simp
  qed
  then show ?thesis by (simp add: tree_map_def impl_modify_map_collect_visits)
qed

lemma tree_map_rec_id: "tree_map_rec (\<lambda>a s. Inr (a, s)) t s = Inr (t, s)"
proof (induction t arbitrary: s)
  case (Node ts)
  then show ?case by (simp add: try_map_pure [where g = id])
qed simp

lemma each_ref_id: "each_ref t = Some (Okay (t, ()))"
proof -
  have "each_ref t = Some (outcome_of (tree_map_rec (\<lambda>a s. Inr (a, s)) t ()))"
    unfolding each_ref_def tree_map_eq [symmetric] tree_map_def by (rule refl)
  then show ?thesis by (simp only: tree_map_rec_id outcome_of_simps)
qed

text \<open>The subtrees in pre-order.\<close>

fun subtrees :: "'a tree \<Rightarrow> 'a tree list" where
  "subtrees (Leaf a) = [Leaf a]"
| "subtrees (Node ts) = Node ts # concat (map subtrees ts)"

lemma subtree_iter_eq: "subtree_iter stack = concat (map subtrees stack)"
  by (induction stack rule: subtree_iter.induct) (auto split: tree.splits)

lemma subtree_iterator_eq: "subtree_iterator t = subtrees t"
  by (simp add: subtree_iterator_def subtree_iter_eq)

end
