(* ===== verification/Merkle.thy ===== *)
theory Merkle
  imports Proof_Tree
begin

text \<open>
  Model of \<^verbatim>\<open>state_backend/hash.rs\<close> and \<^verbatim>\<open>state_backend/proof_backend/merkle.rs\<close>: hashes, the writers
  that cut a stream of bytes into leaves, Merkle trees with access information and their compression
  into Merkle proofs. The hash function, \<^verbatim>\<open>tezos_crypto_rs::blake2b::digest_256\<close>, is the parameter
  \<open>digest\<close> of the definitions; \<open>digest_ok\<close> is what its documentation promises, a digest of 32 bytes.
\<close>

section \<open>Hashes\<close>

datatype hash_error = HashingError | InvalidDigestSize | SerializationError | IoError | NonEmptyBufferExpected

type_synonym bytes = "u8 list"
type_synonym hash = bytes

definition DIGEST_SIZE :: nat where "DIGEST_SIZE = 32"

definition hash_try_from :: "bytes \<Rightarrow> hash_error + hash" where
  "hash_try_from bs = (if length bs = DIGEST_SIZE then Inr bs else Inl InvalidDigestSize)"

definition blake2b_hash_bytes :: "(bytes \<Rightarrow> bytes) \<Rightarrow> bytes \<Rightarrow> hash_error + hash" where
  "blake2b_hash_bytes digest bs = hash_try_from (digest bs)"

text \<open>\<open>serialise\<close> is \<^verbatim>\<open>bincode::serialize\<close>, which may refuse a value.\<close>

definition blake2b_hash :: "(bytes \<Rightarrow> bytes) \<Rightarrow> ('v \<Rightarrow> bytes option) \<Rightarrow> 'v \<Rightarrow> hash_error + hash" where
  "blake2b_hash digest serialise v =
     (case serialise v of None \<Rightarrow> Inl SerializationError | Some bs \<Rightarrow> blake2b_hash_bytes digest bs)"

definition combine :: "(bytes \<Rightarrow> bytes) \<Rightarrow> hash list \<Rightarrow> hash_error + hash" where
  "combine digest hs = blake2b_hash_bytes digest (concat hs)"

definition digest_ok :: "(bytes \<Rightarrow> bytes) \<Rightarrow> bool" where
  "digest_ok digest \<longleftrightarrow> (\<forall>bs. length (digest bs) = DIGEST_SIZE)"

lemma blake2b_hash_bytes_ok [simp]: "digest_ok digest \<Longrightarrow> blake2b_hash_bytes digest bs = Inr (digest bs)"
  by (simp add: blake2b_hash_bytes_def hash_try_from_def digest_ok_def)

lemma combine_ok [simp]: "digest_ok digest \<Longrightarrow> combine digest hs = Inr (digest (concat hs))"
  by (simp add: combine_def)

section \<open>Cutting a list into chunks\<close>

text \<open>\<^verbatim>\<open>slice::chunks\<close> for a positive width; callers write out that a width of 0 panics.\<close>

function leaf_chunks :: "nat \<Rightarrow> 'a list \<Rightarrow> 'a list list" where
  "leaf_chunks n xs = (if n = 0 \<or> xs = [] then [] else take n xs # leaf_chunks n (drop n xs))"
  by pat_completeness auto
termination
  by (relation "measure (\<lambda>(n, xs). length xs)") auto

declare leaf_chunks.simps [simp del]

lemma chunks_Nil [simp]: "leaf_chunks n [] = []"
  by (simp add: leaf_chunks.simps)

lemma chunks_Cons: "0 < n \<Longrightarrow> xs \<noteq> [] \<Longrightarrow> leaf_chunks n xs = take n xs # leaf_chunks n (drop n xs)"
  by (subst leaf_chunks.simps) simp

lemma map_chunks: "map (map f) (leaf_chunks n xs) = leaf_chunks n (map f xs)"
proof (induction n xs rule: leaf_chunks.induct)
  case (1 n xs)
  then show ?case
    by (cases "n = 0 \<or> xs = []") (auto simp: leaf_chunks.simps [of n] take_map drop_map)
qed

lemma concat_chunks: "0 < n \<Longrightarrow> concat (leaf_chunks n xs) = xs"
  by (induction n xs rule: leaf_chunks.induct) (auto simp: leaf_chunks.simps)

lemma length_chunks_less: "2 \<le> n \<Longrightarrow> 2 \<le> length xs \<Longrightarrow> length (leaf_chunks n xs) < length xs"
proof (induction n xs rule: leaf_chunks.induct)
  case (1 n xs)
  show ?case
  proof (cases "2 \<le> length (drop n xs)")
    case True
    have "xs \<noteq> []" using "1.prems" by auto
    with 1 True have "length (leaf_chunks n (drop n xs)) < length (drop n xs)" by auto
    with \<open>xs \<noteq> []\<close> 1(2) show ?thesis by (simp add: chunks_Cons [of n xs])
  next
    case False
    have "xs \<noteq> []" using "1.prems" by auto
    from False have "drop n xs = [] \<or> (\<exists>x. drop n xs = [x])"
      by (cases "drop n xs"; cases "tl (drop n xs)") auto
    then have "length (leaf_chunks n (drop n xs)) \<le> length (drop n xs)"
      using "1.prems" by (elim disjE exE) (simp_all add: chunks_Cons del: length_drop)
    with \<open>xs \<noteq> []\<close> "1.prems" show ?thesis by (simp add: chunks_Cons [of n xs])
  qed
qed

lemma chunks_eq_Nil [simp]: "0 < n \<Longrightarrow> leaf_chunks n xs = [] \<longleftrightarrow> xs = []"
  by (subst leaf_chunks.simps) auto

section \<open>Writers\<close>

record hash_writer =
  hw_size :: nat
  hw_buffer :: bytes
  hw_hashes :: "hash list"

definition hash_writer_new :: "nat \<Rightarrow> hash_writer" where
  "hash_writer_new n = \<lparr>hw_size = n, hw_buffer = [], hw_hashes = []\<rparr>"

definition hash_writer_flush_buffer :: "(bytes \<Rightarrow> bytes) \<Rightarrow> hash_writer \<Rightarrow> hash_error + hash_writer" where
  "hash_writer_flush_buffer digest w =
     try_bind (blake2b_hash_bytes digest (hw_buffer w)) (\<lambda>hash.
       Inr (w\<lparr>hw_hashes := hw_hashes w @ [hash], hw_buffer := []\<rparr>))"

definition hash_writer_finalise :: "(bytes \<Rightarrow> bytes) \<Rightarrow> hash_writer \<Rightarrow> hash_error + hash list" where
  "hash_writer_finalise digest w =
     (if hw_buffer w \<noteq> []
      then try_bind (hash_writer_flush_buffer digest w) (\<lambda>w. Inr (hw_hashes w))
      else Inr (hw_hashes w))"

text \<open>
  The loop of \<^verbatim>\<open>Write::write\<close>, and of \<^verbatim>\<open>write_all\<close>, since all bytes are consumed at once. The buffer
  is never longer than the size of a chunk. An error of the flush becomes an I/O error.
\<close>

partial_function (option) hash_writer_write ::
  "(bytes \<Rightarrow> bytes) \<Rightarrow> hash_writer \<Rightarrow> bytes \<Rightarrow> (hash_error + hash_writer) option" where
  "hash_writer_write digest w buf =
     (if buf = [] then Some (Inr w)
      else
        let rem_buffer_len = hw_size w - length (hw_buffer w);
            new_buf_len = min rem_buffer_len (length buf);
            w1 = w\<lparr>hw_buffer := hw_buffer w @ take new_buf_len buf\<rparr>
        in if rem_buffer_len = new_buf_len
           then (case hash_writer_flush_buffer digest w1 of
                   Inl _ \<Rightarrow> Some (Inl IoError)
                 | Inr w2 \<Rightarrow> hash_writer_write digest w2 (drop new_buf_len buf))
           else hash_writer_write digest w1 (drop new_buf_len buf))"

text \<open>\<^verbatim>\<open>build_custom_merkle_hash\<close>: the loop over levels, and the function.\<close>

partial_function (option) merkle_hash_levels ::
  "(bytes \<Rightarrow> bytes) \<Rightarrow> nat \<Rightarrow> hash list \<Rightarrow> (hash_error + hash list) option" where
  "merkle_hash_levels digest arity nodes =
     (if length nodes \<le> 1 then Some (Inr nodes)
      else
        (case try_collect (map (combine digest) (leaf_chunks arity nodes)) of
           Inl e \<Rightarrow> Some (Inl e)
         | Inr next_level \<Rightarrow> merkle_hash_levels digest arity next_level))"

definition build_custom_merkle_hash ::
  "(bytes \<Rightarrow> bytes) \<Rightarrow> nat \<Rightarrow> hash list \<Rightarrow> (hash_error, hash) fallible option" where
  "build_custom_merkle_hash digest arity nodes =
     (if arity < 2 then Some Panicked
      else if nodes = [] then Some (Failed NonEmptyBufferExpected)
      else map_option (\<lambda>r. case r of
             Inl e \<Rightarrow> Failed e
           | Inr hashes \<Rightarrow> if hashes = [] then Panicked else Okay (hashes ! 0))
           (merkle_hash_levels digest arity nodes))"

section \<open>Merkle trees\<close>

definition MERKLE_LEAF_SIZE :: nat where "MERKLE_LEAF_SIZE = 4096"
definition MERKLE_ARITY :: nat where "MERKLE_ARITY = 4"

datatype merkle_tree = MLeaf hash bool bytes | MNode hash "merkle_tree list"

fun root_hash :: "merkle_tree \<Rightarrow> hash" where
  "root_hash (MNode hash _) = hash"
| "root_hash (MLeaf hash _ _) = hash"

definition make_merkle_leaf :: "(bytes \<Rightarrow> bytes) \<Rightarrow> bytes \<Rightarrow> bool \<Rightarrow> hash_error + merkle_tree" where
  "make_merkle_leaf digest data access_info =
     try_bind (blake2b_hash_bytes digest data) (\<lambda>hash. Inr (MLeaf hash access_info data))"

definition make_merkle_node :: "(bytes \<Rightarrow> bytes) \<Rightarrow> merkle_tree list \<Rightarrow> hash_error + merkle_tree" where
  "make_merkle_node digest children =
     try_bind (combine digest (map root_hash children)) (\<lambda>node_hash. Inr (MNode node_hash children))"

datatype merkle_proof_leaf = Blind hash | Read bytes

type_synonym merkle_proof = "merkle_proof_leaf tree"

datatype compressed_access_info = NoAccess | ReadWrite bytes

definition from_access_info :: "bool \<Rightarrow> bytes \<Rightarrow> compressed_access_info" where
  "from_access_info access_info data = (if access_info then ReadWrite data else NoAccess)"

datatype compressed_merkle_tree =
  CLeaf hash compressed_access_info
| CNode hash "compressed_merkle_tree list"

definition compress_modify ::
  "merkle_tree \<Rightarrow> 's \<Rightarrow> hash_error + (hash, merkle_tree, hash \<times> bool \<times> bytes) modify_result \<times> 's" where
  "compress_modify subtree s =
     (case subtree of
        MLeaf hash access_info data \<Rightarrow> Inr (LeafStop (hash, access_info, data), s)
      | MNode hash children \<Rightarrow> Inr (NodeContinue hash children, s))"

lemma compress_modify_simps [simp]:
  "compress_modify (MLeaf hash access_info data) s = Inr (LeafStop (hash, access_info, data), s)"
  "compress_modify (MNode hash children) s = Inr (NodeContinue hash children, s)"
  by (simp_all add: compress_modify_def)

definition compress_leaf ::
  "hash \<times> bool \<times> bytes \<Rightarrow> 's \<Rightarrow> hash_error + (hash \<times> compressed_access_info) \<times> 's" where
  "compress_leaf l s = (case l of (hash, access, data) \<Rightarrow> Inr ((hash, from_access_info access data), s))"

lemma compress_leaf_simps [simp]:
  "compress_leaf (hash, access, data) s = Inr ((hash, from_access_info access data), s)"
  by (simp add: compress_leaf_def)

definition child_compression :: "compressed_merkle_tree \<Rightarrow> hash \<times> compressed_access_info option" where
  "child_compression child =
     (case child of
        CLeaf hash access_info \<Rightarrow>
          (hash, case access_info of NoAccess \<Rightarrow> Some access_info | ReadWrite _ \<Rightarrow> None)
      | CNode hash _ \<Rightarrow> (hash, None))"

text \<open>\<^verbatim>\<open>Iterator::reduce\<close> with the closure \<^verbatim>\<open>|a, b| (a == b).then_some(a?)\<close>, then \<^verbatim>\<open>flatten\<close>.\<close>

definition reduce_same :: "'a option list \<Rightarrow> 'a option" where
  "reduce_same cs =
     (case cs of
        [] \<Rightarrow> None
      | c # rest \<Rightarrow>
          foldl (\<lambda>a b. case a of None \<Rightarrow> None | Some x \<Rightarrow> if a = b then Some x else None) c rest)"

definition compress_collect ::
  "(bytes \<Rightarrow> bytes) \<Rightarrow> hash \<Rightarrow> compressed_merkle_tree list \<Rightarrow> 's \<Rightarrow> hash_error + compressed_merkle_tree \<times> 's" where
  "compress_collect digest hash compact_children s =
     (let hashes = map (fst \<circ> child_compression) compact_children;
          compressions = map (snd \<circ> child_compression) compact_children
      in case reduce_same compressions of
           Some access \<Rightarrow> try_bind (combine digest hashes) (\<lambda>h. Inr (CLeaf h access, s))
         | None \<Rightarrow> Inr (CNode hash compact_children, s))"

definition compressed_from :: "hash \<times> compressed_access_info \<Rightarrow> compressed_merkle_tree" where
  "compressed_from data = CLeaf (fst data) (snd data)"

lemma compressed_from_simps [simp]: "compressed_from (hash, access) = CLeaf hash access"
  by (simp add: compressed_from_def)

definition compress ::
  "(bytes \<Rightarrow> bytes) \<Rightarrow> merkle_tree \<Rightarrow> (hash_error, compressed_merkle_tree \<times> unit) fallible option" where
  "compress digest t =
     impl_modify_map_collect compress_modify compress_leaf (compress_collect digest)
       compressed_from t ()"

definition proof_modify ::
  "compressed_merkle_tree \<Rightarrow> 's \<Rightarrow>
   unit + (unit, compressed_merkle_tree, hash \<times> compressed_access_info) modify_result \<times> 's" where
  "proof_modify subtree s =
     (case subtree of
        CLeaf hash access \<Rightarrow> Inr (LeafStop (hash, access), s)
      | CNode _ children \<Rightarrow> Inr (NodeContinue () children, s))"

lemma proof_modify_simps [simp]:
  "proof_modify (CLeaf hash access) s = Inr (LeafStop (hash, access), s)"
  "proof_modify (CNode hash children) s = Inr (NodeContinue () children, s)"
  by (simp_all add: proof_modify_def)

definition proof_leaf :: "hash \<times> compressed_access_info \<Rightarrow> 's \<Rightarrow> unit + merkle_proof_leaf \<times> 's" where
  "proof_leaf l s =
     (case l of (hash, access) \<Rightarrow> Inr (case access of NoAccess \<Rightarrow> Blind hash | ReadWrite data \<Rightarrow> Read data, s))"

lemma proof_leaf_simps [simp]:
  "proof_leaf (hash, NoAccess) s = Inr (Blind hash, s)"
  "proof_leaf (hash, ReadWrite data) s = Inr (Read data, s)"
  by (simp_all add: proof_leaf_def)

definition merkle_proof_from :: "compressed_merkle_tree \<Rightarrow> (unit, merkle_proof \<times> unit) fallible option" where
  "merkle_proof_from t =
     impl_modify_map_collect proof_modify proof_leaf (\<lambda>_ children s. Inr (Node children, s)) Leaf t ()"

text \<open>\<^verbatim>\<open>to_merkle_proof\<close>; the conversion is unwrapped, so anything but a value is a panic.\<close>

definition to_merkle_proof ::
  "(bytes \<Rightarrow> bytes) \<Rightarrow> merkle_tree \<Rightarrow> (hash_error, merkle_proof) fallible option" where
  "to_merkle_proof digest t =
     Option.bind (compress digest t) (\<lambda>r.
       case r of
         Failed e \<Rightarrow> Some (Failed e)
       | Panicked \<Rightarrow> Some Panicked
       | Okay (c, _) \<Rightarrow>
           map_option (\<lambda>p. case p of Okay (tree, _) \<Rightarrow> Okay tree | _ \<Rightarrow> Panicked) (merkle_proof_from c))"

text \<open>\<^verbatim>\<open>chunks_to_writer\<close>, for any writer and any way of reading a leaf's bytes.\<close>

function chunks_loop ::
  "('w \<Rightarrow> bytes \<Rightarrow> (hash_error + 'w) option) \<Rightarrow> nat \<Rightarrow> (nat \<Rightarrow> bytes) \<Rightarrow> nat \<Rightarrow> 'w \<Rightarrow>
   (hash_error + nat \<times> 'w) option" where
  "chunks_loop write_all len read address w =
     (if address + MERKLE_LEAF_SIZE \<le> len
      then Option.bind (write_all w (read address)) (\<lambda>r.
             case r of
               Inl e \<Rightarrow> Some (Inl e)
             | Inr w1 \<Rightarrow> chunks_loop write_all len read (address + MERKLE_LEAF_SIZE) w1)
      else Some (Inr (address, w)))"
  by pat_completeness auto
termination
  by (relation "measure (\<lambda>(_, len, _, address, _). len - address)") (auto simp: MERKLE_LEAF_SIZE_def)

declare chunks_loop.simps [simp del]

definition chunks_to_writer ::
  "('w \<Rightarrow> bytes \<Rightarrow> (hash_error + 'w) option) \<Rightarrow> nat \<Rightarrow> (nat \<Rightarrow> bytes) \<Rightarrow> 'w \<Rightarrow>
   (hash_error, 'w) fallible option" where
  "chunks_to_writer write_all len read w =
     (if len < MERKLE_LEAF_SIZE then Some Panicked
      else Option.bind (chunks_loop write_all len read 0 w) (\<lambda>r.
        case r of
          Inl e \<Rightarrow> Some (Failed e)
        | Inr (address, w1) \<Rightarrow>
            if address \<noteq> len
            then let address = address + MERKLE_LEAF_SIZE;
                     buffer = read (len - MERKLE_LEAF_SIZE)
                 in if length buffer < address - len then Some Panicked
                    else map_option outcome_of (write_all w1 (drop (address - len) buffer))
            else Some (Okay w1)))"

text \<open>\<^verbatim>\<open>DynAccess\<close>: the addresses of a dynamic region that were accessed.\<close>

type_synonym dyn_access = "nat set"

definition dyn_access_insert :: "nat \<Rightarrow> nat \<Rightarrow> dyn_access \<Rightarrow> dyn_access" where
  "dyn_access_insert width address a = {address..<address + width} \<union> a"

definition includes_range :: "dyn_access \<Rightarrow> nat \<Rightarrow> nat \<Rightarrow> bool" where
  "includes_range a from until \<longleftrightarrow> (\<exists>x\<in>a. from \<le> x \<and> x < until)"

record merkle_writer =
  mw_leaf_size :: nat
  mw_arity :: nat
  mw_read_log :: dyn_access
  mw_write_log :: dyn_access
  mw_buffer :: bytes
  mw_leaves :: "merkle_tree list"

text \<open>\<^verbatim>\<open>MerkleWriter::new\<close>: nothing when the arity is below 2, a panic of the code.\<close>

definition merkle_writer_new :: "nat \<Rightarrow> nat \<Rightarrow> dyn_access \<Rightarrow> dyn_access \<Rightarrow> merkle_writer option" where
  "merkle_writer_new leaf_size arity read_log write_log =
     (if arity < 2 then None
      else Some \<lparr>mw_leaf_size = leaf_size, mw_arity = arity, mw_read_log = read_log,
                 mw_write_log = write_log, mw_buffer = [], mw_leaves = []\<rparr>)"

definition merkle_writer_flush_buffer :: "(bytes \<Rightarrow> bytes) \<Rightarrow> merkle_writer \<Rightarrow> hash_error + merkle_writer" where
  "merkle_writer_flush_buffer digest w =
     (let pos = length (mw_leaves w) * mw_leaf_size w;
          read = includes_range (mw_read_log w) pos (pos + mw_leaf_size w);
          write = includes_range (mw_write_log w) pos (pos + mw_leaf_size w);
          access_info = read \<or> write
      in try_bind (make_merkle_leaf digest (mw_buffer w) access_info) (\<lambda>leaf.
           Inr (w\<lparr>mw_leaves := mw_leaves w @ [leaf], mw_buffer := []\<rparr>)))"

partial_function (option) merkle_writer_write ::
  "(bytes \<Rightarrow> bytes) \<Rightarrow> merkle_writer \<Rightarrow> bytes \<Rightarrow> (hash_error + merkle_writer) option" where
  "merkle_writer_write digest w buf =
     (if buf = [] then Some (Inr w)
      else
        let rem_buffer_len = mw_leaf_size w - length (mw_buffer w);
            new_buf_len = min rem_buffer_len (length buf);
            w1 = w\<lparr>mw_buffer := mw_buffer w @ take new_buf_len buf\<rparr>
        in if rem_buffer_len = new_buf_len
           then (case merkle_writer_flush_buffer digest w1 of
                   Inl _ \<Rightarrow> Some (Inl IoError)
                 | Inr w2 \<Rightarrow> merkle_writer_write digest w2 (drop new_buf_len buf))
           else merkle_writer_write digest w1 (drop new_buf_len buf))"

text \<open>\<^verbatim>\<open>build_custom_merkle_tree\<close>: an arity of 0 panics, an arity of 1 never ends.\<close>

partial_function (option) merkle_tree_levels ::
  "(bytes \<Rightarrow> bytes) \<Rightarrow> nat \<Rightarrow> merkle_tree list \<Rightarrow> (hash_error, merkle_tree list) fallible option" where
  "merkle_tree_levels digest arity nodes =
     (if length nodes \<le> 1 then Some (Okay nodes)
      else if arity = 0 then Some Panicked
      else
        (case try_collect (map (make_merkle_node digest) (leaf_chunks arity nodes)) of
           Inl e \<Rightarrow> Some (Failed e)
         | Inr next_level \<Rightarrow> merkle_tree_levels digest arity next_level))"

definition build_custom_merkle_tree ::
  "(bytes \<Rightarrow> bytes) \<Rightarrow> nat \<Rightarrow> merkle_tree list \<Rightarrow> (hash_error, merkle_tree) fallible option" where
  "build_custom_merkle_tree digest arity nodes =
     (if nodes = [] then Some (Failed NonEmptyBufferExpected)
      else map_option (\<lambda>r. case r of
             Failed e \<Rightarrow> Failed e
           | Panicked \<Rightarrow> Panicked
           | Okay level \<Rightarrow> if level = [] then Panicked else Okay (last level))
           (merkle_tree_levels digest arity nodes))"

definition merkle_writer_finalise ::
  "(bytes \<Rightarrow> bytes) \<Rightarrow> merkle_writer \<Rightarrow> (hash_error, merkle_tree) fallible option" where
  "merkle_writer_finalise digest w =
     (if mw_buffer w \<noteq> []
      then (case merkle_writer_flush_buffer digest w of
              Inl e \<Rightarrow> Some (Failed e)
            | Inr w1 \<Rightarrow> build_custom_merkle_tree digest (mw_arity w1) (mw_leaves w1))
      else build_custom_merkle_tree digest (mw_arity w) (mw_leaves w))"

end
