(* ===== verification/State_Backend.thy ===== *)
theory State_Backend
  imports Merkle
begin

text \<open>
  Model of the state backends under \<^verbatim>\<open>src/riscv/lib/src/state_backend\<close>: \<^verbatim>\<open>owned_backend.rs\<close>, which holds
  the values, \<^verbatim>\<open>proof_backend.rs\<close>, which records accesses and keeps writes aside, and
  \<^verbatim>\<open>verify_backend.rs\<close>, which holds only what a proof shows. A backend is a record of the four
  operations that the rest of the system uses on regions. Elements of dynamic regions are their
  stored, little-endian bytes. Code that is generic in the backend is a \<open>program\<close>, which can be run on
  each of them.
\<close>

section \<open>Results of accesses\<close>

text \<open>
  \<open>Missing\<close> is the panic with the payload \<^verbatim>\<open>NotFound\<close> that the verifier raises, \<open>Crashed\<close> any other
  panic.
\<close>

datatype 'a access = Value 'a | Missing | Crashed

definition access_bind :: "'a access \<Rightarrow> ('a \<Rightarrow> 'b access) \<Rightarrow> 'b access" where
  "access_bind x f = (case x of Value a \<Rightarrow> f a | Missing \<Rightarrow> Missing | Crashed \<Rightarrow> Crashed)"

lemma access_bind_simps [simp]:
  "access_bind (Value a) f = f a"
  "access_bind Missing f = Missing"
  "access_bind Crashed f = Crashed"
  by (simp_all add: access_bind_def)

lemma access_bind_eq_Value: "access_bind x f = Value b \<longleftrightarrow> (\<exists>a. x = Value a \<and> f a = Value b)"
  by (cases x) auto

lemma access_bind_assoc: "access_bind (access_bind x f) g = access_bind x (\<lambda>a. access_bind (f a) g)"
  by (cases x) auto

text \<open>A backend: operations on a region of \<^verbatim>\<open>LEN\<close> elements and on a dynamic region of \<^verbatim>\<open>LEN\<close> bytes.\<close>

record ('r, 'd, 'v) manager =
  region_read :: "nat \<Rightarrow> 'r \<Rightarrow> nat \<Rightarrow> ('v \<times> 'r) access"
  region_write :: "nat \<Rightarrow> 'r \<Rightarrow> nat \<Rightarrow> 'v \<Rightarrow> 'r access"
  dyn_read :: "nat \<Rightarrow> 'd \<Rightarrow> nat \<Rightarrow> nat \<Rightarrow> (bytes \<times> 'd) access"
  dyn_write :: "nat \<Rightarrow> 'd \<Rightarrow> nat \<Rightarrow> bytes \<Rightarrow> 'd access"

section \<open>The owned backend\<close>

definition owned_region_read :: "nat \<Rightarrow> 'v list \<Rightarrow> nat \<Rightarrow> ('v \<times> 'v list) access" where
  "owned_region_read len region index = (if index < length region then Value (region ! index, region) else Crashed)"

definition owned_region_write :: "nat \<Rightarrow> 'v list \<Rightarrow> nat \<Rightarrow> 'v \<Rightarrow> 'v list access" where
  "owned_region_write len region index v = (if index < length region then Value (region[index := v]) else Crashed)"

text \<open>
  The source adds address and width as \<^verbatim>\<open>usize\<close> before it compares with the length, here they are added without
  overflow: the memory layer has checked the bounds of every access before it comes here.
\<close>

definition owned_dyn_region_read :: "nat \<Rightarrow> bytes \<Rightarrow> nat \<Rightarrow> nat \<Rightarrow> (bytes \<times> bytes) access" where
  "owned_dyn_region_read len region address width =
     (if address + width \<le> len then Value (take width (drop address region), region) else Crashed)"

definition owned_dyn_region_write :: "nat \<Rightarrow> bytes \<Rightarrow> nat \<Rightarrow> bytes \<Rightarrow> bytes access" where
  "owned_dyn_region_write len region address bs =
     (if address + length bs \<le> len
      then Value (take address region @ bs @ drop (address + length bs) region) else Crashed)"

definition owned_region_replace :: "nat \<Rightarrow> 'v list \<Rightarrow> nat \<Rightarrow> 'v \<Rightarrow> ('v \<times> 'v list) access" where
  "owned_region_replace len region index v =
     (if index < length region then Value (region ! index, region[index := v]) else Crashed)"

definition owned :: "('v list, bytes, 'v) manager" where
  "owned = \<lparr>region_read = owned_region_read, region_write = owned_region_write,
            dyn_read = owned_dyn_region_read, dyn_write = owned_dyn_region_write\<rparr>"

section \<open>The proof-generating backend\<close>

record 'v proof_region =
  pr_source :: "'v list"
  pr_writes :: "nat \<rightharpoonup> 'v"
  pr_access :: bool

record proof_dyn_region =
  pd_source :: bytes
  pd_reads :: dyn_access
  pd_writes :: "nat \<rightharpoonup> u8"

definition proof_region_bind :: "'v list \<Rightarrow> 'v proof_region" where
  "proof_region_bind source = \<lparr>pr_source = source, pr_writes = Map.empty, pr_access = False\<rparr>"

definition proof_dyn_region_bind :: "bytes \<Rightarrow> proof_dyn_region" where
  "proof_dyn_region_bind source = \<lparr>pd_source = source, pd_reads = {}, pd_writes = Map.empty\<rparr>"

definition set_access_info :: "'v proof_region \<Rightarrow> 'v proof_region" where
  "set_access_info region = region\<lparr>pr_access := True\<rparr>"

definition unrecorded_ref :: "'v proof_region \<Rightarrow> nat \<Rightarrow> 'v access" where
  "unrecorded_ref region index =
     (case pr_writes region index of
        Some v \<Rightarrow> Value v
      | None \<Rightarrow> if index < length (pr_source region) then Value (pr_source region ! index) else Crashed)"

definition proof_region_read :: "nat \<Rightarrow> 'v proof_region \<Rightarrow> nat \<Rightarrow> ('v \<times> 'v proof_region) access" where
  "proof_region_read len region index =
     (let region = set_access_info region
      in access_bind (unrecorded_ref region index) (\<lambda>v. Value (v, region)))"

definition proof_region_write :: "nat \<Rightarrow> 'v proof_region \<Rightarrow> nat \<Rightarrow> 'v \<Rightarrow> 'v proof_region access" where
  "proof_region_write len region index v =
     (let region = set_access_info region in Value (region\<lparr>pr_writes := (pr_writes region)(index \<mapsto> v)\<rparr>))"

definition proof_region_replace :: "nat \<Rightarrow> 'v proof_region \<Rightarrow> nat \<Rightarrow> 'v \<Rightarrow> ('v \<times> 'v proof_region) access" where
  "proof_region_replace len region index v =
     access_bind (proof_region_read len region index) (\<lambda>(old, region).
     access_bind (proof_region_write len region index v) (\<lambda>region. Value (old, region)))"

definition unrecorded_read :: "nat \<Rightarrow> proof_dyn_region \<Rightarrow> nat \<Rightarrow> nat \<Rightarrow> bytes access" where
  "unrecorded_read len region address width =
     access_bind (owned_dyn_region_read len (pd_source region) address width) (\<lambda>(bs, _).
       Value (map (\<lambda>i. case pd_writes region (address + i) of Some b \<Rightarrow> b | None \<Rightarrow> bs ! i) [0..<length bs]))"

definition proof_dyn_region_read ::
  "nat \<Rightarrow> proof_dyn_region \<Rightarrow> nat \<Rightarrow> nat \<Rightarrow> (bytes \<times> proof_dyn_region) access" where
  "proof_dyn_region_read len region address width =
     (let region = region\<lparr>pd_reads := dyn_access_insert width address (pd_reads region)\<rparr>
      in access_bind (unrecorded_read len region address width) (\<lambda>bs. Value (bs, region)))"

definition proof_dyn_region_write ::
  "nat \<Rightarrow> proof_dyn_region \<Rightarrow> nat \<Rightarrow> bytes \<Rightarrow> proof_dyn_region access" where
  "proof_dyn_region_write len region address bs =
     (if address + length bs \<le> len
      then Value (region\<lparr>pd_writes :=
             foldl (\<lambda>ws (i, b). ws(address + i \<mapsto> b)) (pd_writes region) (zip [0..<length bs] bs)\<rparr>)
      else Crashed)"

definition inner_dyn_region_read :: "nat \<Rightarrow> proof_dyn_region \<Rightarrow> nat \<Rightarrow> nat \<Rightarrow> bytes access" where
  "inner_dyn_region_read len region address width =
     access_bind (owned_dyn_region_read len (pd_source region) address width) (\<lambda>(bs, _). Value bs)"

text \<open>\<^verbatim>\<open>get_read\<close> takes the log of reads and leaves an empty one; \<^verbatim>\<open>get_write\<close> copies the written addresses.\<close>

definition get_read :: "proof_dyn_region \<Rightarrow> dyn_access \<times> proof_dyn_region" where
  "get_read region = (pd_reads region, region\<lparr>pd_reads := {}\<rparr>)"

definition get_write :: "proof_dyn_region \<Rightarrow> dyn_access" where
  "get_write region = dom (pd_writes region)"

definition proof_gen :: "('v proof_region, proof_dyn_region, 'v) manager" where
  "proof_gen = \<lparr>region_read = proof_region_read, region_write = proof_region_write,
                dyn_read = proof_dyn_region_read, dyn_write = proof_dyn_region_write\<rparr>"

section \<open>The verifier's backend\<close>

datatype 'v verify_region = AbsentRegion | PartialRegion "'v option list"

datatype 'a partial_state = Complete 'a | AbsentState | Incomplete

definition verify_region_read :: "nat \<Rightarrow> 'v verify_region \<Rightarrow> nat \<Rightarrow> ('v \<times> 'v verify_region) access" where
  "verify_region_read len region index =
     (case region of
        AbsentRegion \<Rightarrow> Missing
      | PartialRegion data \<Rightarrow>
          if index < length data
          then (case data ! index of Some v \<Rightarrow> Value (v, region) | None \<Rightarrow> Missing)
          else Missing)"

definition verify_region_write :: "nat \<Rightarrow> 'v verify_region \<Rightarrow> nat \<Rightarrow> 'v \<Rightarrow> 'v verify_region access" where
  "verify_region_write len region index v =
     (let data = (case region of AbsentRegion \<Rightarrow> replicate len None | PartialRegion data \<Rightarrow> data)
      in if index < length data then Value (PartialRegion (data[index := Some v])) else Crashed)"

definition verify_region_replace :: "nat \<Rightarrow> 'v verify_region \<Rightarrow> nat \<Rightarrow> 'v \<Rightarrow> ('v \<times> 'v verify_region) access" where
  "verify_region_replace len region index v =
     access_bind (verify_region_read len region index) (\<lambda>(old, region).
     access_bind (verify_region_write len region index v) (\<lambda>region. Value (old, region)))"

definition get_partial_region :: "'v verify_region \<Rightarrow> 'v list partial_state" where
  "get_partial_region region =
     (case region of
        AbsentRegion \<Rightarrow> AbsentState
      | PartialRegion data \<Rightarrow> if list_ex (\<lambda>v. v = None) data then Incomplete else Complete (map the data))"

text \<open>
  Pages of a dynamic region. The set of ranges of the crate \<^verbatim>\<open>range_collections\<close> is the set of offsets it
  denotes. The size of a page is a power of two, so the mask of \<^verbatim>\<open>PageId::from_address\<close> rounds down.
\<close>

record page =
  page_data :: bytes
  available :: "nat set"

definition page_id :: "nat \<Rightarrow> nat" where
  "page_id address = address - address mod MERKLE_LEAF_SIZE"

definition page_offset :: "nat \<Rightarrow> nat \<Rightarrow> nat option" where
  "page_offset pid address = checked_sub address pid"

definition page_from_full :: "bytes \<Rightarrow> page" where
  "page_from_full data = \<lparr>page_data = data, available = {0..<MERKLE_LEAF_SIZE}\<rparr>"

definition page_get :: "page \<Rightarrow> nat \<Rightarrow> nat \<Rightarrow> bytes option" where
  "page_get page start len =
     (if len > MERKLE_LEAF_SIZE - start then None
      else if \<not> {start..<start + len} \<subseteq> available page then None
      else Some (take len (drop start (page_data page))))"

definition page_put :: "page \<Rightarrow> nat \<Rightarrow> bytes \<Rightarrow> page option" where
  "page_put page start data =
     (if length data > MERKLE_LEAF_SIZE - start then None
      else Some (page\<lparr>available := available page \<union> {start..<start + length data},
                      page_data := take start (page_data page) @ data @ drop (start + length data) (page_data page)\<rparr>))"

definition is_fully_available :: "page \<Rightarrow> bool" where
  "is_fully_available page \<longleftrightarrow> available page = {0..<MERKLE_LEAF_SIZE}"

definition page_default :: page where
  "page_default = \<lparr>page_data = replicate MERKLE_LEAF_SIZE 0, available = {}\<rparr>"

type_synonym verify_dyn_region = "nat \<rightharpoonup> page"

definition from_pages :: "(nat \<times> bytes) list \<Rightarrow> verify_dyn_region" where
  "from_pages pages = foldl (\<lambda>m (pid, data). m(pid \<mapsto> page_from_full data)) Map.empty pages"

text \<open>
  The loop of \<^verbatim>\<open>read_bytes\<close>, for the \<open>n\<close> bytes of the buffer that are left. An offset is less than the
  size of a page, so a chunk is never empty and the address never saturates.
\<close>

function read_bytes_loop :: "verify_dyn_region \<Rightarrow> nat \<Rightarrow> nat \<Rightarrow> bytes access" where
  "read_bytes_loop pages address n =
     (if n = 0 then Value []
      else
        (case pages (page_id address) of
           None \<Rightarrow> Missing
         | Some page \<Rightarrow>
             (case page_offset (page_id address) address of
                None \<Rightarrow> Missing
              | Some offset \<Rightarrow>
                  let chunk_length = min n (MERKLE_LEAF_SIZE - offset)
                  in (case page_get page offset chunk_length of
                        None \<Rightarrow> Missing
                      | Some src \<Rightarrow>
                          if chunk_length = 0 then Crashed
                          else access_bind (read_bytes_loop pages (address + chunk_length) (n - chunk_length))
                                 (\<lambda>rest. Value (src @ rest))))))"
  by pat_completeness auto
termination
  by (relation "measure (\<lambda>(_, _, n). n)") auto

declare read_bytes_loop.simps [simp del]

definition read_bytes :: "nat \<Rightarrow> verify_dyn_region \<Rightarrow> nat \<Rightarrow> nat \<Rightarrow> bytes access" where
  "read_bytes len pages address n =
     (if n = 0 then Value [] else if n > len - address then Missing else read_bytes_loop pages address n)"

function write_bytes_loop :: "verify_dyn_region \<Rightarrow> nat \<Rightarrow> bytes \<Rightarrow> verify_dyn_region access" where
  "write_bytes_loop pages address buffer =
     (if buffer = [] then Value pages
      else
        let page = (case pages (page_id address) of Some page \<Rightarrow> page | None \<Rightarrow> page_default)
        in (case page_offset (page_id address) address of
              None \<Rightarrow> Missing
            | Some offset \<Rightarrow>
                let chunk_length = min (length buffer) (MERKLE_LEAF_SIZE - offset)
                in (case page_put page offset (take chunk_length buffer) of
                      None \<Rightarrow> Missing
                    | Some page \<Rightarrow>
                        if chunk_length = 0 then Crashed
                        else write_bytes_loop (pages(page_id address \<mapsto> page))
                               (address + chunk_length) (drop chunk_length buffer))))"
  by pat_completeness auto
termination
  by (relation "measure (\<lambda>(_, _, buffer). length buffer)") auto

declare write_bytes_loop.simps [simp del]

definition write_bytes :: "nat \<Rightarrow> verify_dyn_region \<Rightarrow> nat \<Rightarrow> bytes \<Rightarrow> verify_dyn_region access" where
  "write_bytes len pages address buffer =
     (if buffer = [] then Value pages
      else if length buffer > len - address then Missing
      else write_bytes_loop pages address buffer)"

definition get_partial_page :: "verify_dyn_region \<Rightarrow> nat \<Rightarrow> bytes partial_state" where
  "get_partial_page pages pid =
     (case pages pid of
        Some page \<Rightarrow> if is_fully_available page then Complete (page_data page) else Incomplete
      | None \<Rightarrow> AbsentState)"

definition verify_dyn_region_read ::
  "nat \<Rightarrow> verify_dyn_region \<Rightarrow> nat \<Rightarrow> nat \<Rightarrow> (bytes \<times> verify_dyn_region) access" where
  "verify_dyn_region_read len region address width =
     access_bind (read_bytes len region address width) (\<lambda>bs. Value (bs, region))"

definition verify_dyn_region_write :: "nat \<Rightarrow> verify_dyn_region \<Rightarrow> nat \<Rightarrow> bytes \<Rightarrow> verify_dyn_region access" where
  "verify_dyn_region_write len region address bs = write_bytes len region address bs"

definition verifier :: "('v verify_region, verify_dyn_region, 'v) manager" where
  "verifier = \<lparr>region_read = verify_region_read, region_write = verify_region_write,
               dyn_read = verify_dyn_region_read, dyn_write = verify_dyn_region_write\<rparr>"

section \<open>Allocated states and programs\<close>

text \<open>
  A state allocated for a layout: cells of \<open>n\<close> values of type \<open>t\<close> (\<^verbatim>\<open>Atom\<close>, with one, and \<^verbatim>\<open>Array\<close>), a
  dynamic array of \<open>n\<close> bytes, tuples, structures and arrays of layouts as nodes, and \<^verbatim>\<open>Many\<close>. A layout is
  such a tree without regions.
\<close>

datatype ('t, 'r, 'd) alloc =
  Cells 't nat 'r
| DynCells nat 'd
| Parts "('t, 'r, 'd) alloc list"
| Many "('t, 'r, 'd) alloc list"

type_synonym 't layout = "('t, unit, unit) alloc"
type_synonym ('t, 'v) owned_alloc = "('t, 'v list, bytes) alloc"
type_synonym ('t, 'v) proof_alloc = "('t, 'v proof_region, proof_dyn_region) alloc"
type_synonym ('t, 'v) verify_alloc = "('t, 'v verify_region, verify_dyn_region) alloc"

definition layout_of :: "('t, 'r, 'd) alloc \<Rightarrow> 't layout" where
  "layout_of = map_alloc (\<lambda>t. t) (\<lambda>_. ()) (\<lambda>_. ())"

text \<open>An operation on the region that a path leads to; the types of the source exclude other paths.\<close>

fun on_cells :: "(nat \<Rightarrow> 'r \<Rightarrow> ('x \<times> 'r) access) \<Rightarrow> nat list \<Rightarrow> ('t, 'r, 'd) alloc \<Rightarrow> ('x \<times> ('t, 'r, 'd) alloc) access" where
  "on_cells f [] (Cells t n r) = access_bind (f n r) (\<lambda>(x, r). Value (x, Cells t n r))"
| "on_cells f (i # path) (Parts as) =
     (if i < length as then access_bind (on_cells f path (as ! i)) (\<lambda>(x, a). Value (x, Parts (as[i := a]))) else Crashed)"
| "on_cells f (i # path) (Many as) =
     (if i < length as then access_bind (on_cells f path (as ! i)) (\<lambda>(x, a). Value (x, Many (as[i := a]))) else Crashed)"
| "on_cells f _ _ = Crashed"

fun on_dyn :: "(nat \<Rightarrow> 'd \<Rightarrow> ('x \<times> 'd) access) \<Rightarrow> nat list \<Rightarrow> ('t, 'r, 'd) alloc \<Rightarrow> ('x \<times> ('t, 'r, 'd) alloc) access" where
  "on_dyn f [] (DynCells n d) = access_bind (f n d) (\<lambda>(x, d). Value (x, DynCells n d))"
| "on_dyn f (i # path) (Parts as) =
     (if i < length as then access_bind (on_dyn f path (as ! i)) (\<lambda>(x, a). Value (x, Parts (as[i := a]))) else Crashed)"
| "on_dyn f (i # path) (Many as) =
     (if i < length as then access_bind (on_dyn f path (as ! i)) (\<lambda>(x, a). Value (x, Many (as[i := a]))) else Crashed)"
| "on_dyn f _ _ = Crashed"

text \<open>Code that is generic in the backend: reads, writes, and what it computes from the values read.\<close>

datatype ('v, 'x) program =
  Return 'x
| ReadCell "nat list" nat "'v \<Rightarrow> ('v, 'x) program"
| WriteCell "nat list" nat 'v "('v, 'x) program"
| ReadBytes "nat list" nat nat "bytes \<Rightarrow> ('v, 'x) program"
| WriteBytes "nat list" nat bytes "('v, 'x) program"

definition cell_read ::
  "('r, 'd, 'v) manager \<Rightarrow> nat list \<Rightarrow> nat \<Rightarrow> ('t, 'r, 'd) alloc \<Rightarrow> ('v \<times> ('t, 'r, 'd) alloc) access" where
  "cell_read m path i = on_cells (\<lambda>n r. region_read m n r i) path"

definition cell_write ::
  "('r, 'd, 'v) manager \<Rightarrow> nat list \<Rightarrow> nat \<Rightarrow> 'v \<Rightarrow> ('t, 'r, 'd) alloc \<Rightarrow> (unit \<times> ('t, 'r, 'd) alloc) access" where
  "cell_write m path i v = on_cells (\<lambda>n r. access_bind (region_write m n r i v) (\<lambda>r. Value ((), r))) path"

definition dyn_cells_read ::
  "('r, 'd, 'v) manager \<Rightarrow> nat list \<Rightarrow> nat \<Rightarrow> nat \<Rightarrow> ('t, 'r, 'd) alloc \<Rightarrow> (bytes \<times> ('t, 'r, 'd) alloc) access" where
  "dyn_cells_read m path address width = on_dyn (\<lambda>n d. dyn_read m n d address width) path"

definition dyn_cells_write ::
  "('r, 'd, 'v) manager \<Rightarrow> nat list \<Rightarrow> nat \<Rightarrow> bytes \<Rightarrow> ('t, 'r, 'd) alloc \<Rightarrow> (unit \<times> ('t, 'r, 'd) alloc) access" where
  "dyn_cells_write m path address bs =
     on_dyn (\<lambda>n d. access_bind (dyn_write m n d address bs) (\<lambda>d. Value ((), d))) path"

primrec run :: "('r, 'd, 'v) manager \<Rightarrow> ('v, 'x) program \<Rightarrow> ('t, 'r, 'd) alloc \<Rightarrow> ('x \<times> ('t, 'r, 'd) alloc) access" where
  "run m (Return x) a = Value (x, a)"
| "run m (ReadCell path i k) a = access_bind (cell_read m path i a) (\<lambda>(v, a). run m (k v) a)"
| "run m (WriteCell path i v p) a = access_bind (cell_write m path i v a) (\<lambda>(_, a). run m p a)"
| "run m (ReadBytes path address width k) a =
     access_bind (dyn_cells_read m path address width a) (\<lambda>(bs, a). run m (k bs) a)"
| "run m (WriteBytes path address bs p) a =
     access_bind (dyn_cells_write m path address bs a) (\<lambda>(_, a). run m p a)"

end
