(* ===== verification/Merkle_Proof.thy ===== *)
theory Merkle_Proof
  imports Merkle Bits
begin

text \<open>
  Model of \<^verbatim>\<open>state_backend/proof_backend/proof.rs\<close>: Merkle proofs, their root hash, and their encoding
  as bytes. An encoding is the final state hash, then the tags of the tree in pre-order packed four to
  a byte, then the contents of the leaves. Iterators over bytes are the list of bytes still to come.
\<close>

section \<open>Proofs\<close>

record state_proof =
  final_state_hash :: hash
  proof_tree :: merkle_proof

definition proof_new :: "merkle_proof \<Rightarrow> hash \<Rightarrow> state_proof" where
  "proof_new p final_hash = \<lparr>final_state_hash = final_hash, proof_tree = p\<rparr>"

definition root_hash_leaf :: "(bytes \<Rightarrow> bytes) \<Rightarrow> merkle_proof_leaf \<Rightarrow> 's \<Rightarrow> hash_error + hash \<times> 's" where
  "root_hash_leaf digest leaf s =
     (case leaf of
        Blind hash \<Rightarrow> Inr (hash, s)
      | Read data \<Rightarrow> try_bind (blake2b_hash_bytes digest data) (\<lambda>hash. Inr (hash, s)))"

definition root_hash_collect :: "(bytes \<Rightarrow> bytes) \<Rightarrow> unit \<Rightarrow> hash list \<Rightarrow> 's \<Rightarrow> hash_error + hash \<times> 's" where
  "root_hash_collect digest d leaves s = try_bind (combine digest leaves) (\<lambda>hash. Inr (hash, s))"

definition proof_root_hash :: "(bytes \<Rightarrow> bytes) \<Rightarrow> merkle_proof \<Rightarrow> (hash_error, hash \<times> unit) fallible option" where
  "proof_root_hash digest p =
     impl_modify_map_collect tree_modify (root_hash_leaf digest) (root_hash_collect digest) (\<lambda>hash. hash) p ()"

text \<open>\<^verbatim>\<open>initial_state_hash\<close> expects the root hash to be computed: anything else is a panic.\<close>

definition initial_state_hash :: "(bytes \<Rightarrow> bytes) \<Rightarrow> state_proof \<Rightarrow> (hash_error, hash) fallible option" where
  "initial_state_hash digest p =
     map_option (\<lambda>r. case r of Okay (hash, _) \<Rightarrow> Okay hash | _ \<Rightarrow> Panicked)
       (proof_root_hash digest (proof_tree p))"

section \<open>Tags\<close>

datatype leaf_tag = BlindTag | ReadTag

datatype tag = NodeTag | LeafTag leaf_tag

datatype deserialise_error = UnexpectedNodeTag | InvalidTag | NotEnoughBytes | TooManyBytes

definition TAG_NODE :: u8 where "TAG_NODE = 0b00"
definition TAG_BLIND :: u8 where "TAG_BLIND = 0b10"
definition TAG_READ :: u8 where "TAG_READ = 0b11"
definition TAG_BITS :: nat where "TAG_BITS = 2"
definition TAGS_PER_BYTE :: nat where "TAGS_PER_BYTE = 8 div TAG_BITS"
definition TAG_MASK :: u8 where "TAG_MASK = ucast (ones TAG_BITS)"

definition tag_offset :: "nat \<Rightarrow> nat" where
  "tag_offset index = 8 - (index + 1) * TAG_BITS"

definition to_raw_tag :: "merkle_proof \<Rightarrow> tag" where
  "to_raw_tag p =
     (case p of
        Node _ \<Rightarrow> NodeTag
      | Leaf (Blind _) \<Rightarrow> LeafTag BlindTag
      | Leaf (Read _) \<Rightarrow> LeafTag ReadTag)"

definition tag_try_from :: "u8 \<Rightarrow> deserialise_error + tag" where
  "tag_try_from v =
     (if v = TAG_NODE then Inr NodeTag
      else if v = TAG_BLIND then Inr (LeafTag BlindTag)
      else if v = TAG_READ then Inr (LeafTag ReadTag)
      else Inl InvalidTag)"

fun tag_to_u8 :: "tag \<Rightarrow> u8" where
  "tag_to_u8 NodeTag = TAG_NODE"
| "tag_to_u8 (LeafTag BlindTag) = TAG_BLIND"
| "tag_to_u8 (LeafTag ReadTag) = TAG_READ"

definition ordered_tags_from_u8 :: "u8 \<Rightarrow> (deserialise_error + tag) list" where
  "ordered_tags_from_u8 byte =
     map tag_try_from (map (\<lambda>offset. rust_shr byte offset AND TAG_MASK) (map tag_offset [0..<TAGS_PER_BYTE]))"

section \<open>Serialisation\<close>

definition serialise_raw_tags :: "tag list \<Rightarrow> bytes" where
  "serialise_raw_tags raw_tags =
     map (\<lambda>chunk. foldl (\<lambda>acc (tag, offset). acc OR rust_shl (tag_to_u8 tag) offset) 0
                    (zip chunk (map tag_offset [0..<TAGS_PER_BYTE])))
       (leaf_chunks TAGS_PER_BYTE raw_tags)"

definition iter_raw_tags :: "merkle_proof \<Rightarrow> tag list" where
  "iter_raw_tags p = map to_raw_tag (subtree_iterator p)"

definition serialise_proof_values :: "merkle_proof \<Rightarrow> bytes" where
  "serialise_proof_values p =
     concat (map (\<lambda>subtree. case subtree of
                     Leaf (Read vec) \<Rightarrow> vec
                   | Leaf (Blind hash) \<Rightarrow> hash
                   | Node _ \<Rightarrow> []) (subtree_iterator p))"

definition serialise_proof :: "state_proof \<Rightarrow> bytes" where
  "serialise_proof p =
     final_state_hash p @ serialise_raw_tags (iter_raw_tags (proof_tree p)) @ serialise_proof_values (proof_tree p)"

section \<open>Deserialisation\<close>

text \<open>\<^verbatim>\<open>Shape\<close>: the shape of the full Merkle tree, with the number of bytes of each leaf.\<close>

type_synonym shape = "nat tree"

text \<open>\<^verbatim>\<open>total_leaf_bytes\<close> sums values of type \<^verbatim>\<open>usize\<close>; the sum over a shape is the size of a state, which does not overflow.\<close>

fun total_leaf_bytes :: "shape \<Rightarrow> nat" where
  "total_leaf_bytes (Node vec) = sum_list (map total_leaf_bytes vec)"
| "total_leaf_bytes (Leaf n) = n"

text \<open>A loop that takes the next \<open>n\<close> bytes of the iterator.\<close>

fun next_bytes :: "nat \<Rightarrow> bytes \<Rightarrow> deserialise_error + bytes \<times> bytes" where
  "next_bytes 0 bs = Inr ([], bs)"
| "next_bytes (Suc n) [] = Inl NotEnoughBytes"
| "next_bytes (Suc n) (b # bs) = try_bind (next_bytes n bs) (\<lambda>(xs, rest). Inr (b # xs, rest))"

definition deserialise_final_hash_encoding :: "bytes \<Rightarrow> deserialise_error + hash \<times> bytes" where
  "deserialise_final_hash_encoding bs = next_bytes DIGEST_SIZE bs"

text \<open>
  The closure \<^verbatim>\<open>get_next_tag\<close> of \<^verbatim>\<open>deserialise_merkle_proof_tags\<close>: its state is the bytes to come and
  the tags left of the current byte, a vector from which the last one is taken.
\<close>

definition get_next_tag :: "bytes \<times> u8 list \<Rightarrow> deserialise_error + tag \<times> bytes \<times> u8 list" where
  "get_next_tag s =
     (let refilled =
        (if snd s = []
         then (case fst s of
                 [] \<Rightarrow> Inl NotEnoughBytes
               | byte # rest \<Rightarrow> Inr (rest, map (\<lambda>offset. rust_shr byte offset AND TAG_MASK) [0, 2, 4, 6]))
         else Inr s)
      in try_bind refilled (\<lambda>(bs, buffered).
           try_bind (tag_try_from (last buffered)) (\<lambda>tag. Inr (tag, bs, butlast buffered))))"

definition shape_modify ::
  "('s \<Rightarrow> deserialise_error + tag \<times> 's) \<Rightarrow> shape \<Rightarrow> 's \<Rightarrow>
   deserialise_error + (unit, shape, nat \<times> leaf_tag) modify_result \<times> 's" where
  "shape_modify next_tag subtree s =
     try_bind (next_tag s) (\<lambda>(tag, s1).
       case tag of
         LeafTag leaf_tag \<Rightarrow>
           (case subtree of
              Node _ \<Rightarrow> Inr (LeafStop (total_leaf_bytes subtree, leaf_tag), s1)
            | Leaf n \<Rightarrow> Inr (LeafStop (n, leaf_tag), s1))
       | NodeTag \<Rightarrow>
           (case subtree of
              Node children \<Rightarrow> Inr (NodeContinue () children, s1)
            | Leaf _ \<Rightarrow> Inl UnexpectedNodeTag))"

definition deserialise_merkle_proof_tags ::
  "bytes \<Rightarrow> shape \<Rightarrow> (deserialise_error, (nat \<times> leaf_tag) tree \<times> bytes) fallible option" where
  "deserialise_merkle_proof_tags bs full_shape =
     map_option (\<lambda>r. case r of Okay (t, s) \<Rightarrow> Okay (t, fst s) | Failed e \<Rightarrow> Failed e | Panicked \<Rightarrow> Panicked)
       (modify_shape (shape_modify get_next_tag) full_shape (bs, []))"

definition deserialise_value :: "nat \<times> leaf_tag \<Rightarrow> bytes \<Rightarrow> deserialise_error + merkle_proof_leaf \<times> bytes" where
  "deserialise_value l bs =
     (case snd l of
        BlindTag \<Rightarrow> try_bind (deserialise_final_hash_encoding bs) (\<lambda>(hash, rest). Inr (Blind hash, rest))
      | ReadTag \<Rightarrow> try_bind (next_bytes (fst l) bs) (\<lambda>(data, rest). Inr (Read data, rest)))"

definition deserialise_merkle_proof_values ::
  "bytes \<Rightarrow> (nat \<times> leaf_tag) tree \<Rightarrow> (deserialise_error, merkle_proof \<times> bytes) fallible option" where
  "deserialise_merkle_proof_values bs shape = tree_map deserialise_value shape bs"

definition deserialise_merkle_proof ::
  "bytes \<Rightarrow> shape \<Rightarrow> (deserialise_error, merkle_proof \<times> bytes) fallible option" where
  "deserialise_merkle_proof bs full_shape =
     Option.bind (deserialise_merkle_proof_tags bs full_shape) (\<lambda>r.
       case r of
         Failed e \<Rightarrow> Some (Failed e)
       | Panicked \<Rightarrow> Some Panicked
       | Okay (proof_shape, rest) \<Rightarrow> deserialise_merkle_proof_values rest proof_shape)"

definition deserialise_proof :: "bytes \<Rightarrow> shape \<Rightarrow> (deserialise_error, state_proof) fallible option" where
  "deserialise_proof bs full_merkle_tree_shape =
     (case deserialise_final_hash_encoding bs of
        Inl e \<Rightarrow> Some (Failed e)
      | Inr (final_hash, rest) \<Rightarrow>
          map_option (\<lambda>r. case r of
              Failed e \<Rightarrow> Failed e
            | Panicked \<Rightarrow> Panicked
            | Okay (merkle_proof, rest) \<Rightarrow>
                if rest \<noteq> [] then Failed TooManyBytes else Okay (proof_new merkle_proof final_hash))
            (deserialise_merkle_proof rest full_merkle_tree_shape))"

end
