(* ===== verification/State_Layout.thy ===== *)
theory State_Layout
  imports State_Backend Merkle_Proof
begin

text \<open>
  Model of \<^verbatim>\<open>state_backend/commitment_layout.rs\<close>, \<^verbatim>\<open>state_backend/proof_layout.rs\<close> and
  \<^verbatim>\<open>proof_backend/proof/deserialise_owned.rs\<close>: the hash of a state, its Merkle tree with access
  information, the state a verifier gets from a proof, and the hash of a partial state. The traits are
  recursive functions over allocated states. Element types and their bincode encoding, from a crate,
  are parameters: \<open>enc t v\<close> is the encoding of a value, nothing when it is refused, and \<open>dec t bs\<close> reads
  a value from the front of a list of bytes.
\<close>

section \<open>Sequencing\<close>

definition obind :: "('e, 'a) fallible option \<Rightarrow> ('a \<Rightarrow> ('e, 'b) fallible option) \<Rightarrow> ('e, 'b) fallible option" where
  "obind m f =
     (case m of
        None \<Rightarrow> None
      | Some (Okay x) \<Rightarrow> f x
      | Some (Failed e) \<Rightarrow> Some (Failed e)
      | Some Panicked \<Rightarrow> Some Panicked)"

lemma obind_simps [simp]:
  "obind None f = None"
  "obind (Some (Okay x)) f = f x"
  "obind (Some (Failed e)) f = Some (Failed e)"
  "obind (Some Panicked) f = Some Panicked"
  by (simp_all add: obind_def)

lemma obind_eq_Okay: "obind m f = Some (Okay y) \<longleftrightarrow> (\<exists>x. m = Some (Okay x) \<and> f x = Some (Okay y))"
  by (auto simp: obind_def split: option.splits fallible.splits)

fun omap :: "('a \<Rightarrow> ('e, 'b) fallible option) \<Rightarrow> 'a list \<Rightarrow> ('e, 'b list) fallible option" where
  "omap f [] = Some (Okay [])"
| "omap f (x # xs) = obind (f x) (\<lambda>y. obind (omap f xs) (\<lambda>ys. Some (Okay (y # ys))))"

lemma omap_cong [fundef_cong]:
  "xs = ys \<Longrightarrow> (\<And>x. x \<in> set ys \<Longrightarrow> f x = g x) \<Longrightarrow> omap f xs = omap g ys"
  by (induction ys arbitrary: xs) auto

lemma omap_Okay: "(\<And>x. x \<in> set xs \<Longrightarrow> f x = Some (Okay (g x))) \<Longrightarrow> omap f xs = Some (Okay (map g xs))"
  by (induction xs) auto

lemma omap_eq_Okay: "omap f xs = Some (Okay ys) \<longleftrightarrow> map f xs = map (\<lambda>y. Some (Okay y)) ys"
proof (induction xs arbitrary: ys)
  case (Cons x xs)
  then show ?case by (cases ys) (auto simp: obind_eq_Okay)
qed auto

definition ret :: "'e + 'a \<Rightarrow> ('e, 'a) fallible option" where
  "ret r = Some (outcome_of r)"

lemma ret_simps [simp]:
  "ret (Inl e) = Some (Failed e)"
  "ret (Inr x) = Some (Okay x)"
  by (simp_all add: ret_def)

fun all_values :: "'a option list \<Rightarrow> 'a list option" where
  "all_values [] = Some []"
| "all_values (x # xs) = Option.bind x (\<lambda>y. map_option (\<lambda>ys. y # ys) (all_values xs))"

lemma all_values_map: "(\<And>x. x \<in> set xs \<Longrightarrow> f x = Some (g x)) \<Longrightarrow> all_values (map f xs) = Some (map g xs)"
  by (induction xs) auto

lemma all_values_eq: "all_values xs = Some ys \<longleftrightarrow> xs = map Some ys"
proof (induction xs arbitrary: ys)
  case (Cons x xs)
  then show ?case by (cases x; cases ys) auto
qed auto

section \<open>Encoding regions\<close>

text \<open>\<^verbatim>\<open>serialise_region\<close>: a single element as itself, more of them as a tuple without a length.\<close>

definition serialise_region :: "('t \<Rightarrow> 'v \<Rightarrow> bytes option) \<Rightarrow> 't \<Rightarrow> nat \<Rightarrow> 'v list \<Rightarrow> bytes option" where
  "serialise_region enc t len region =
     (if len = 1 then enc t (region ! 0) else map_option concat (all_values (map (enc t) region)))"

text \<open>The same for the proof-generating backend: the values as they are after the writes.\<close>

definition serialise_proof_region ::
  "('t \<Rightarrow> 'v \<Rightarrow> bytes option) \<Rightarrow> 't \<Rightarrow> nat \<Rightarrow> 'v proof_region \<Rightarrow> bytes option" where
  "serialise_proof_region enc t len region =
     (let elem = (\<lambda>i. case unrecorded_ref region i of Value v \<Rightarrow> enc t v | _ \<Rightarrow> None)
      in if len = 1 then elem 0 else map_option concat (all_values (map elem [0..<len])))"

text \<open>\<^verbatim>\<open>deserialise_region\<close>, and \<^verbatim>\<open>binary::deserialise\<close>, which refuses bytes after the value.\<close>

fun deserialise_region :: "('t \<Rightarrow> bytes \<Rightarrow> ('v \<times> bytes) option) \<Rightarrow> 't \<Rightarrow> nat \<Rightarrow> bytes \<Rightarrow> ('v list \<times> bytes) option" where
  "deserialise_region dec t 0 bs = Some ([], bs)"
| "deserialise_region dec t (Suc n) bs =
     Option.bind (dec t bs) (\<lambda>(v, rest).
       map_option (\<lambda>(vs, rest). (v # vs, rest)) (deserialise_region dec t n rest))"

definition binary_deserialise ::
  "('t \<Rightarrow> bytes \<Rightarrow> ('v \<times> bytes) option) \<Rightarrow> 't \<Rightarrow> nat \<Rightarrow> bytes \<Rightarrow> 'v list option" where
  "binary_deserialise dec t len bs =
     (case deserialise_region dec t len bs of Some (vs, []) \<Rightarrow> Some vs | _ \<Rightarrow> None)"

section \<open>The hash of a state\<close>

text \<open>
  \<^verbatim>\<open>CommitmentLayout::state_hash\<close>, for a backend with its way of encoding cells and of reading the bytes
  of a leaf from a dynamic region.
\<close>

fun state_hash ::
  "(bytes \<Rightarrow> bytes) \<Rightarrow> ('t \<Rightarrow> nat \<Rightarrow> 'r \<Rightarrow> bytes option) \<Rightarrow> (nat \<Rightarrow> 'd \<Rightarrow> nat \<Rightarrow> bytes) \<Rightarrow>
   ('t, 'r, 'd) alloc \<Rightarrow> (hash_error, hash) fallible option" where
  "state_hash digest ser read (Cells t n r) = ret (blake2b_hash digest (ser t n) r)"
| "state_hash digest ser read (DynCells n d) =
     obind (chunks_to_writer (hash_writer_write digest) n (read n d) (hash_writer_new MERKLE_LEAF_SIZE)) (\<lambda>writer.
     obind (ret (hash_writer_finalise digest writer)) (\<lambda>hashes.
     build_custom_merkle_hash digest MERKLE_ARITY hashes))"
| "state_hash digest ser read (Parts as) =
     obind (omap (state_hash digest ser read) as) (\<lambda>hashes. ret (combine digest hashes))"
| "state_hash digest ser read (Many as) =
     obind (omap (state_hash digest ser read) as) (\<lambda>nodes. build_custom_merkle_hash digest MERKLE_ARITY nodes)"

text \<open>Reads of a whole leaf; the writers only read within the region.\<close>

definition owned_leaf :: "nat \<Rightarrow> bytes \<Rightarrow> nat \<Rightarrow> bytes" where
  "owned_leaf len d address =
     (case owned_dyn_region_read len d address MERKLE_LEAF_SIZE of Value (bs, _) \<Rightarrow> bs | _ \<Rightarrow> [])"

definition proof_leaf_read :: "nat \<Rightarrow> proof_dyn_region \<Rightarrow> nat \<Rightarrow> bytes" where
  "proof_leaf_read len d address =
     (case proof_dyn_region_read len d address MERKLE_LEAF_SIZE of Value (bs, _) \<Rightarrow> bs | _ \<Rightarrow> [])"

definition owned_state_hash where
  "owned_state_hash digest enc = state_hash digest (serialise_region enc) owned_leaf"

definition proof_state_hash where
  "proof_state_hash digest enc = state_hash digest (serialise_proof_region enc) proof_leaf_read"

section \<open>The Merkle tree of a proof-generating state\<close>

definition inner_leaf :: "nat \<Rightarrow> proof_dyn_region \<Rightarrow> nat \<Rightarrow> bytes" where
  "inner_leaf len d address =
     (case inner_dyn_region_read len d address MERKLE_LEAF_SIZE of Value bs \<Rightarrow> bs | _ \<Rightarrow> [])"

fun to_merkle_tree ::
  "(bytes \<Rightarrow> bytes) \<Rightarrow> ('t \<Rightarrow> 'v \<Rightarrow> bytes option) \<Rightarrow> ('t, 'v) proof_alloc \<Rightarrow>
   (hash_error, merkle_tree) fallible option" where
  "to_merkle_tree digest enc (Cells t n region) =
     (case serialise_region enc t n (pr_source region) of
        None \<Rightarrow> Some (Failed SerializationError)
      | Some serialised \<Rightarrow> ret (make_merkle_leaf digest serialised (pr_access region)))"
| "to_merkle_tree digest enc (DynCells n region) =
     (case merkle_writer_new MERKLE_LEAF_SIZE MERKLE_ARITY (fst (get_read region)) (get_write region) of
        None \<Rightarrow> Some Panicked
      | Some writer \<Rightarrow>
          obind (chunks_to_writer (merkle_writer_write digest) n (inner_leaf n region) writer) (\<lambda>writer.
          merkle_writer_finalise digest writer))"
| "to_merkle_tree digest enc (Parts as) =
     obind (omap (to_merkle_tree digest enc) as) (\<lambda>children. ret (make_merkle_node digest children))"
| "to_merkle_tree digest enc (Many as) =
     obind (omap (to_merkle_tree digest enc) as) (\<lambda>leaves. build_custom_merkle_tree digest MERKLE_ARITY leaves)"

text \<open>What making the tree does to the state: the logs of reads are taken.\<close>

definition reads_taken :: "('t, 'v) proof_alloc \<Rightarrow> ('t, 'v) proof_alloc" where
  "reads_taken = map_alloc (\<lambda>t. t) (\<lambda>r. r) (\<lambda>d. snd (get_read d))"

section \<open>From a proof to the state of a verifier\<close>

datatype from_proof_error =
  HashFailed hash_error
| DeserialiseFailed
| TagDeserialise deserialise_error
| RemainingBytes
| InvalidHash
| BadNumberOfBranches nat nat
| UnexpectedLeafSize nat nat
| UnexpectedLeaf
| UnexpectedNode

datatype proof_part = Absent | Present merkle_proof

datatype 'a partial = PAbsent | PBlinded hash | PPresent 'a

definition deserialise_as_leaf :: "proof_part \<Rightarrow> from_proof_error + bytes partial" where
  "deserialise_as_leaf p =
     (case p of
        Absent \<Rightarrow> Inr PAbsent
      | Present (Node _) \<Rightarrow> Inl UnexpectedNode
      | Present (Leaf (Blind hash)) \<Rightarrow> Inr (PBlinded hash)
      | Present (Leaf (Read items)) \<Rightarrow> Inr (PPresent items))"

definition deserialise_as_node :: "proof_part \<Rightarrow> from_proof_error + proof_part list partial" where
  "deserialise_as_node p =
     (case p of
        Absent \<Rightarrow> Inr PAbsent
      | Present (Leaf (Blind hash)) \<Rightarrow> Inr (PBlinded hash)
      | Present (Leaf (Read _)) \<Rightarrow> Inl UnexpectedLeaf
      | Present (Node trees) \<Rightarrow> Inr (PPresent (map Present trees)))"

definition map_present_fallible :: "('a \<Rightarrow> 'e + 'b) \<Rightarrow> 'a partial \<Rightarrow> 'e + 'b partial" where
  "map_present_fallible f p =
     (case p of
        PAbsent \<Rightarrow> Inr PAbsent
      | PBlinded hash \<Rightarrow> Inr (PBlinded hash)
      | PPresent data \<Rightarrow> try_bind (f data) (\<lambda>x. Inr (PPresent x)))"

definition into_leaf_raw :: "nat \<Rightarrow> proof_part \<Rightarrow> from_proof_error + bytes partial" where
  "into_leaf_raw len p =
     try_bind (deserialise_as_leaf p)
       (map_present_fallible (\<lambda>data. if length data = len then Inr data else Inl (UnexpectedLeafSize len (length data))))"

definition into_leaf ::
  "('t \<Rightarrow> bytes \<Rightarrow> ('v \<times> bytes) option) \<Rightarrow> 't \<Rightarrow> nat \<Rightarrow> proof_part \<Rightarrow> from_proof_error + 'v list partial" where
  "into_leaf dec t len p =
     try_bind (deserialise_as_leaf p)
       (map_present_fallible (\<lambda>data.
          case binary_deserialise dec t len data of None \<Rightarrow> Inl DeserialiseFailed | Some vs \<Rightarrow> Inr vs))"

text \<open>
  \<^verbatim>\<open>next_branch\<close> for each of the given children and then \<^verbatim>\<open>done\<close>; the branches of an absent or blinded
  node are absent.
\<close>

fun branches ::
  "('l \<Rightarrow> proof_part \<Rightarrow> (from_proof_error, 'a) fallible option) \<Rightarrow> 'l list \<Rightarrow> proof_part list partial \<Rightarrow>
   (from_proof_error, 'a list) fallible option" where
  "branches f [] node_data =
     (case node_data of
        PPresent bs \<Rightarrow> if bs \<noteq> [] then Some (Failed (BadNumberOfBranches 0 (length bs))) else Some (Okay [])
      | _ \<Rightarrow> Some (Okay []))"
| "branches f (l # ls) node_data =
     (case node_data of
        PPresent [] \<Rightarrow> Some (Failed (BadNumberOfBranches 1 0))
      | PPresent (b # bs) \<Rightarrow> obind (f l b) (\<lambda>x. obind (branches f ls (PPresent bs)) (\<lambda>xs. Some (Okay (x # xs))))
      | _ \<Rightarrow> obind (f l Absent) (\<lambda>x. obind (branches f ls node_data) (\<lambda>xs. Some (Okay (x # xs)))))"

lemma branches_cong [fundef_cong]:
  "ls = ls' \<Longrightarrow> nd = nd' \<Longrightarrow> (\<And>l b. l \<in> set ls' \<Longrightarrow> f l b = g l b) \<Longrightarrow> branches f ls nd = branches g ls' nd'"
proof (induction ls' arbitrary: ls nd nd')
  case (Cons l ls')
  then show ?case by (auto split: partial.splits list.splits)
qed auto

text \<open>
  \<^verbatim>\<open>work_merkle_params\<close>: start and length of the children of a span. The sums stay below the length of the
  region, so the saturating addition of the source is addition.
\<close>

fun work_params :: "nat \<Rightarrow> nat \<Rightarrow> nat \<Rightarrow> nat \<Rightarrow> (nat \<times> nat) list" where
  "work_params 0 branch_max_length branch_start length_left = []"
| "work_params (Suc children) branch_max_length branch_start length_left =
     (let this_branch_length = min branch_max_length length_left
      in (branch_start, this_branch_length) #
         work_params children branch_max_length (branch_start + this_branch_length) (length_left - this_branch_length))"

definition work_merkle_params :: "nat \<Rightarrow> nat \<Rightarrow> nat \<Rightarrow> (nat \<times> nat) list" where
  "work_merkle_params children branch_start length_left =
     work_params children (div_ceil length_left MERKLE_ARITY) branch_start length_left"

lemma work_params_le: "(s, l) \<in> set (work_params c m start left) \<Longrightarrow> l \<le> m"
  by (induction c arbitrary: start left) (auto simp: Let_def)

lemma div_ceil_arity_less: "2 \<le> left \<Longrightarrow> div_ceil left MERKLE_ARITY < left"
  using div_ceil_le_iff [of 4 left "left - 1"] by (auto simp: MERKLE_ARITY_def)

text \<open>\<^verbatim>\<open>parse_pages_fn_getter\<close>\<close>

function parse_pages :: "nat \<Rightarrow> nat \<Rightarrow> proof_part \<Rightarrow> (from_proof_error, (nat \<times> bytes) list) fallible option" where
  "parse_pages start left_length p =
     (if left_length \<le> MERKLE_LEAF_SIZE
      then obind (ret (into_leaf_raw MERKLE_LEAF_SIZE p)) (\<lambda>data.
             Some (Okay (case data of PPresent data \<Rightarrow> [(page_id start, data)] | _ \<Rightarrow> [])))
      else
        obind (ret (deserialise_as_node p)) (\<lambda>node_data.
        obind (branches (\<lambda>(start, length) p. parse_pages start length p)
                 (work_merkle_params MERKLE_ARITY start left_length) node_data) (\<lambda>pages.
        Some (Okay (concat pages)))))"
  by pat_completeness auto
termination
proof (relation "measure (\<lambda>(_, left, _). left)")
  fix start left p node_data x y z b
  assume "\<not> left \<le> MERKLE_LEAF_SIZE" and "x \<in> set (work_merkle_params MERKLE_ARITY start left)" and "(y, z) = x"
  then have "z \<le> div_ceil left MERKLE_ARITY" and "2 \<le> left"
    using work_params_le by (auto simp: work_merkle_params_def MERKLE_LEAF_SIZE_def)
  then show "((y, z, b), start, left, p) \<in> measure (\<lambda>(_, left, _). left)"
    using div_ceil_arity_less [of left] by simp
qed simp

declare parse_pages.simps [simp del]

text \<open>
  \<^verbatim>\<open>parametrised_deserialiser\<close> for \<^verbatim>\<open>Many\<close>. The recursion does not end for a length of 0, so it has fuel:
  nothing is the result when it is still running at that depth.
\<close>

fun many_deserialiser ::
  "(proof_part \<Rightarrow> (from_proof_error, 'a) fallible option) \<Rightarrow> nat \<Rightarrow> nat \<Rightarrow> proof_part \<Rightarrow>
   (from_proof_error, 'a list) fallible option" where
  "many_deserialiser elem 0 len p = None"
| "many_deserialiser elem (Suc fuel) len p =
     (if len = 1 then obind (elem p) (\<lambda>data. Some (Okay [data]))
      else
        obind (ret (deserialise_as_node p)) (\<lambda>node_data.
        obind (branches (\<lambda>(_, child_length) p. many_deserialiser elem fuel child_length p)
                 (work_merkle_params MERKLE_ARITY 0 len) node_data) (\<lambda>parts.
        Some (Okay (concat parts)))))"

fun to_verifier_alloc ::
  "('t \<Rightarrow> bytes \<Rightarrow> ('v \<times> bytes) option) \<Rightarrow> 't layout \<Rightarrow> proof_part \<Rightarrow>
   (from_proof_error, ('t, 'v) verify_alloc) fallible option" where
  "to_verifier_alloc dec (Cells t n _) p =
     obind (ret (into_leaf dec t n p)) (\<lambda>leaf.
       Some (Okay (Cells t n (case leaf of PPresent cells \<Rightarrow> PartialRegion (map Some cells) | _ \<Rightarrow> AbsentRegion))))"
| "to_verifier_alloc dec (DynCells n _) p =
     obind (parse_pages 0 n p) (\<lambda>pages. Some (Okay (DynCells n (from_pages pages))))"
| "to_verifier_alloc dec (Parts ls) p =
     obind (ret (deserialise_as_node p)) (\<lambda>node_data.
     obind (branches (to_verifier_alloc dec) ls node_data) (\<lambda>as. Some (Okay (Parts as))))"
| "to_verifier_alloc dec (Many ls) p =
     obind (many_deserialiser (\<lambda>p. case ls of l # _ \<Rightarrow> to_verifier_alloc dec l p | [] \<Rightarrow> None)
              (length ls) (length ls) p) (\<lambda>as.
     Some (Okay (Many as)))"

section \<open>The hash of a partial state\<close>

datatype partial_hash_error =
  PartialHash hash_error
| FromProof from_proof_error
| PotentiallyRecoverable
| Fatal

definition partial_hash_leaf :: "(bytes \<Rightarrow> bytes) \<Rightarrow> proof_part \<Rightarrow> partial_hash_error + hash" where
  "partial_hash_leaf digest p =
     (case p of
        Absent \<Rightarrow> Inl PotentiallyRecoverable
      | Present (Node _) \<Rightarrow> Inl (FromProof UnexpectedNode)
      | Present (Leaf (Blind hash)) \<Rightarrow> Inr hash
      | Present (Leaf (Read data)) \<Rightarrow>
          (case blake2b_hash_bytes digest data of Inl e \<Rightarrow> Inl (PartialHash e) | Inr hash \<Rightarrow> Inr hash))"

definition into_branches_with_hash :: "nat \<Rightarrow> proof_part \<Rightarrow> partial_hash_error + proof_part list \<times> hash option" where
  "into_branches_with_hash len p =
     (case p of
        Absent \<Rightarrow> Inr (replicate len Absent, None)
      | Present (Node bs) \<Rightarrow>
          if length bs \<noteq> len then Inl (FromProof (BadNumberOfBranches len (length bs)))
          else Inr (map Present bs, None)
      | Present (Leaf (Blind hash)) \<Rightarrow> Inr (replicate len Absent, Some hash)
      | Present (Leaf (Read _)) \<Rightarrow> Inl (FromProof UnexpectedLeaf))"

text \<open>The loop of \<^verbatim>\<open>combine_partial_hashes\<close> over the results.\<close>

fun expect_hashes :: "bool \<Rightarrow> (partial_hash_error + hash) list \<Rightarrow> hash list option" where
  "expect_hashes expect_ok [] = Some []"
| "expect_hashes expect_ok (r # rs) =
     (case r of
        Inr hash \<Rightarrow> if expect_ok then map_option (\<lambda>hs. hash # hs) (expect_hashes expect_ok rs) else None
      | Inl PotentiallyRecoverable \<Rightarrow> if \<not> expect_ok then expect_hashes expect_ok rs else None
      | Inl _ \<Rightarrow> None)"

definition combine_or_error :: "(bytes \<Rightarrow> bytes) \<Rightarrow> hash list \<Rightarrow> partial_hash_error + hash" where
  "combine_or_error digest hs = (case combine digest hs of Inl e \<Rightarrow> Inl (PartialHash e) | Inr hash \<Rightarrow> Inr hash)"

definition combine_partial_hashes ::
  "(bytes \<Rightarrow> bytes) \<Rightarrow> (partial_hash_error + hash) list \<Rightarrow> hash option \<Rightarrow> partial_hash_error + hash" where
  "combine_partial_hashes digest hash_results proof_hash =
     (case hash_results of
        [] \<Rightarrow> combine_or_error digest []
      | r # _ \<Rightarrow>
          (case (case r of Inr _ \<Rightarrow> Some True | Inl PotentiallyRecoverable \<Rightarrow> Some False | Inl _ \<Rightarrow> None) of
             None \<Rightarrow> Inl Fatal
           | Some expect_ok \<Rightarrow>
               (case expect_hashes expect_ok hash_results of
                  None \<Rightarrow> Inl Fatal
                | Some hashes \<Rightarrow>
                    if expect_ok then combine_or_error digest hashes
                    else (case proof_hash of None \<Rightarrow> Inl PotentiallyRecoverable | Some hash \<Rightarrow> Inr hash))))"

text \<open>
  The work queue with which \<^verbatim>\<open>DynArray\<close> and \<^verbatim>\<open>Many\<close> hash their spans, the same code but for the leaves:
  \<open>leaf\<close> gives the result to push or the error to return with, and threads the state of the iterator.
\<close>

datatype event = Span nat nat proof_part | NodeEvent "hash option"

definition push_work_items :: "nat \<Rightarrow> nat \<Rightarrow> proof_part list \<Rightarrow> event list" where
  "push_work_items branch_start length_left bs =
     map (\<lambda>(branch, child_start, child_length). Span child_start child_length branch)
       (filter (\<lambda>(branch, child_start, child_length). child_length > 0)
          (zip bs (work_merkle_params (length bs) branch_start length_left)))"

partial_function (option) span_hash_loop ::
  "(bytes \<Rightarrow> bytes) \<Rightarrow> (nat \<Rightarrow> bool) \<Rightarrow>
   (nat \<Rightarrow> proof_part \<Rightarrow> 's \<Rightarrow> ((partial_hash_error + (partial_hash_error + hash)) \<times> 's) option) \<Rightarrow>
   event list \<Rightarrow> (partial_hash_error + hash) list \<Rightarrow> 's \<Rightarrow> (partial_hash_error + hash) option" where
  "span_hash_loop digest is_leaf leaf queue hashes s =
     (case queue of
        [] \<Rightarrow> Some (if length hashes = 1 then hashes ! 0 else Inl Fatal)
      | event # queue \<Rightarrow>
          (case event of
             Span start len tree \<Rightarrow>
               if is_leaf len
               then Option.bind (leaf start tree s) (\<lambda>r.
                      case fst r of
                        Inl e \<Rightarrow> Some (Inl e)
                      | Inr h \<Rightarrow> span_hash_loop digest is_leaf leaf queue (hashes @ [h]) (snd r))
               else
                 (case into_branches_with_hash MERKLE_ARITY tree of
                    Inl e \<Rightarrow> Some (Inl e)
                  | Inr b \<Rightarrow>
                      span_hash_loop digest is_leaf leaf
                        (queue @ push_work_items start len (fst b) @ [NodeEvent (snd b)]) hashes s)
           | NodeEvent proof_hash \<Rightarrow>
               if hashes = []
               then span_hash_loop digest is_leaf leaf (queue @ [NodeEvent proof_hash]) hashes s
               else if length hashes < MERKLE_ARITY then Some (Inl Fatal)
               else
                 let k = length hashes - MERKLE_ARITY
                 in span_hash_loop digest is_leaf leaf queue
                      (take k hashes @ [combine_partial_hashes digest (drop k hashes) proof_hash]) s))"

declare span_hash_loop.simps [code]

definition dyn_leaf_hash ::
  "(bytes \<Rightarrow> bytes) \<Rightarrow> verify_dyn_region \<Rightarrow> nat \<Rightarrow> proof_part \<Rightarrow> unit \<Rightarrow>
   ((partial_hash_error + (partial_hash_error + hash)) \<times> unit) option" where
  "dyn_leaf_hash digest region start tree s =
     (case get_partial_page region (page_id start) of
        AbsentState \<Rightarrow> Some (Inr (partial_hash_leaf digest tree), s)
      | Complete data \<Rightarrow>
          (case blake2b_hash_bytes digest data of
             Inl e \<Rightarrow> Some (Inl (PartialHash e), s)
           | Inr hash \<Rightarrow> Some (Inr (Inr hash), s))
      | Incomplete \<Rightarrow> Some (Inl Fatal, s))"

text \<open>The elements of a \<^verbatim>\<open>Many\<close> are hashed in order: the iterator holds what computes each element's hash.\<close>

definition many_leaf_hash ::
  "nat \<Rightarrow> proof_part \<Rightarrow> (proof_part \<Rightarrow> (partial_hash_error + hash) option) list \<Rightarrow>
   ((partial_hash_error + (partial_hash_error + hash)) \<times> (proof_part \<Rightarrow> (partial_hash_error + hash) option) list) option" where
  "many_leaf_hash start tree state =
     (case state of
        [] \<Rightarrow> Some (Inl Fatal, [])
      | elem # rest \<Rightarrow> map_option (\<lambda>r. (Inr r, rest)) (elem tree))"

fun partial_state_hash ::
  "(bytes \<Rightarrow> bytes) \<Rightarrow> ('t \<Rightarrow> 'v \<Rightarrow> bytes option) \<Rightarrow> ('t, 'v) verify_alloc \<Rightarrow> proof_part \<Rightarrow>
   (partial_hash_error + hash) option" where
  "partial_state_hash digest enc (Cells t n region) p =
     Some (case get_partial_region region of
             Complete vs \<Rightarrow>
               (case blake2b_hash digest (serialise_region enc t n) vs of
                  Inl e \<Rightarrow> Inl (PartialHash e) | Inr hash \<Rightarrow> Inr hash)
           | AbsentState \<Rightarrow> partial_hash_leaf digest p
           | Incomplete \<Rightarrow> Inl Fatal)"
| "partial_state_hash digest enc (DynCells n region) p =
     span_hash_loop digest (\<lambda>len. len \<le> MERKLE_LEAF_SIZE) (dyn_leaf_hash digest region) [Span 0 n p] [] ()"
| "partial_state_hash digest enc (Parts as) p =
     (case into_branches_with_hash (length as) p of
        Inl e \<Rightarrow> Some (Inl e)
      | Inr (bs, proof_hash) \<Rightarrow>
          map_option (\<lambda>hashes. combine_partial_hashes digest hashes proof_hash)
            (all_values (map (\<lambda>(f, b). f b) (zip (map (\<lambda>a. partial_state_hash digest enc a) as) bs))))"
| "partial_state_hash digest enc (Many as) p =
     span_hash_loop digest (\<lambda>len. len = 1) many_leaf_hash [Span 0 (length as) p] []
       (map (\<lambda>a. partial_state_hash digest enc a) as)"

end
