(* ===== verification/State_Runs.thy ===== *)
theory State_Runs
  imports State_Backend
begin

text \<open>
  Running the same program on different backends. A backend agrees with another when, on related
  regions, operations that succeed on both return the same and keep the relation; it simulates the
  other when, besides, its operations succeed whenever the other's do. Both are interfaces, and the
  lemmas on programs are proved from them. The proof-generating backend simulates the owned one, and
  the verifier's agrees with the proof-generating one.
\<close>

section \<open>Regions of an allocated state\<close>

fun cells_at :: "nat list \<Rightarrow> ('t, 'r, 'd) alloc \<Rightarrow> (nat \<times> 'r) option" where
  "cells_at [] (Cells t n r) = Some (n, r)"
| "cells_at (i # path) (Parts as) = (if i < length as then cells_at path (as ! i) else None)"
| "cells_at (i # path) (Many as) = (if i < length as then cells_at path (as ! i) else None)"
| "cells_at _ _ = None"

fun put_cells :: "nat list \<Rightarrow> 'r \<Rightarrow> ('t, 'r, 'd) alloc \<Rightarrow> ('t, 'r, 'd) alloc" where
  "put_cells [] r' (Cells t n r) = Cells t n r'"
| "put_cells (i # path) r' (Parts as) = Parts (as[i := put_cells path r' (as ! i)])"
| "put_cells (i # path) r' (Many as) = Many (as[i := put_cells path r' (as ! i)])"
| "put_cells _ _ a = a"

fun dyn_at :: "nat list \<Rightarrow> ('t, 'r, 'd) alloc \<Rightarrow> (nat \<times> 'd) option" where
  "dyn_at [] (DynCells n d) = Some (n, d)"
| "dyn_at (i # path) (Parts as) = (if i < length as then dyn_at path (as ! i) else None)"
| "dyn_at (i # path) (Many as) = (if i < length as then dyn_at path (as ! i) else None)"
| "dyn_at _ _ = None"

fun put_dyn :: "nat list \<Rightarrow> 'd \<Rightarrow> ('t, 'r, 'd) alloc \<Rightarrow> ('t, 'r, 'd) alloc" where
  "put_dyn [] d' (DynCells n d) = DynCells n d'"
| "put_dyn (i # path) d' (Parts as) = Parts (as[i := put_dyn path d' (as ! i)])"
| "put_dyn (i # path) d' (Many as) = Many (as[i := put_dyn path d' (as ! i)])"
| "put_dyn _ _ a = a"

lemma on_cells_eq:
  "on_cells f path a =
     (case cells_at path a of
        None \<Rightarrow> Crashed
      | Some (n, r) \<Rightarrow> access_bind (f n r) (\<lambda>(x, r). Value (x, put_cells path r a)))"
  by (induction f path a rule: on_cells.induct)
     (auto simp: access_bind_def split: option.splits access.splits prod.splits)

lemma on_dyn_eq:
  "on_dyn f path a =
     (case dyn_at path a of
        None \<Rightarrow> Crashed
      | Some (n, d) \<Rightarrow> access_bind (f n d) (\<lambda>(x, d). Value (x, put_dyn path d a)))"
  by (induction f path a rule: on_dyn.induct)
     (auto simp: access_bind_def split: option.splits access.splits prod.splits)

text \<open>Allocated states of the same layout with related regions.\<close>

fun alloc_rel ::
  "(nat \<Rightarrow> 'r1 \<Rightarrow> 'r2 \<Rightarrow> bool) \<Rightarrow> (nat \<Rightarrow> 'd1 \<Rightarrow> 'd2 \<Rightarrow> bool) \<Rightarrow> ('t, 'r1, 'd1) alloc \<Rightarrow> ('t, 'r2, 'd2) alloc \<Rightarrow> bool" where
  "alloc_rel R D (Cells t n r) b = (case b of Cells t' n' r' \<Rightarrow> t = t' \<and> n = n' \<and> R n r r' | _ \<Rightarrow> False)"
| "alloc_rel R D (DynCells n d) b = (case b of DynCells n' d' \<Rightarrow> n = n' \<and> D n d d' | _ \<Rightarrow> False)"
| "alloc_rel R D (Parts as) b = (case b of Parts bs \<Rightarrow> list_all2 (alloc_rel R D) as bs | _ \<Rightarrow> False)"
| "alloc_rel R D (Many as) b = (case b of Many bs \<Rightarrow> list_all2 (alloc_rel R D) as bs | _ \<Rightarrow> False)"

lemma alloc_rel_cells_at:
  "alloc_rel R D a b \<Longrightarrow> cells_at path a = Some (n, r) \<Longrightarrow> \<exists>r'. cells_at path b = Some (n, r') \<and> R n r r'"
  by (induction path a arbitrary: b rule: cells_at.induct)
     (auto simp: list_all2_conv_all_nth split: alloc.splits if_splits)

lemma alloc_rel_dyn_at:
  "alloc_rel R D a b \<Longrightarrow> dyn_at path a = Some (n, d) \<Longrightarrow> \<exists>d'. dyn_at path b = Some (n, d') \<and> D n d d'"
  by (induction path a arbitrary: b rule: dyn_at.induct)
     (auto simp: list_all2_conv_all_nth split: alloc.splits if_splits)

lemma alloc_rel_put_cells:
  "alloc_rel R D a b \<Longrightarrow> cells_at path a = Some (n, r0) \<Longrightarrow> R n r r' \<Longrightarrow>
     alloc_rel R D (put_cells path r a) (put_cells path r' b)"
  by (induction path r a arbitrary: b rule: put_cells.induct)
     (auto simp: list_all2_conv_all_nth nth_list_update split: alloc.splits if_splits)

lemma alloc_rel_put_dyn:
  "alloc_rel R D a b \<Longrightarrow> dyn_at path a = Some (n, d0) \<Longrightarrow> D n d d' \<Longrightarrow>
     alloc_rel R D (put_dyn path d a) (put_dyn path d' b)"
  by (induction path d a arbitrary: b rule: put_dyn.induct)
     (auto simp: list_all2_conv_all_nth nth_list_update split: alloc.splits if_splits)

section \<open>Agreement and simulation\<close>

locale agreement =
  fixes m1 :: "('r1, 'd1, 'v) manager" and m2 :: "('r2, 'd2, 'v) manager"
    and R :: "nat \<Rightarrow> 'r1 \<Rightarrow> 'r2 \<Rightarrow> bool" and D :: "nat \<Rightarrow> 'd1 \<Rightarrow> 'd2 \<Rightarrow> bool"
  assumes read_agree: "R n r1 r2 \<Longrightarrow> region_read m1 n r1 i = Value (v1, r1') \<Longrightarrow>
      region_read m2 n r2 i = Value (v2, r2') \<Longrightarrow> v1 = v2 \<and> R n r1' r2'"
    and write_agree: "R n r1 r2 \<Longrightarrow> region_write m1 n r1 i v = Value r1' \<Longrightarrow>
      region_write m2 n r2 i v = Value r2' \<Longrightarrow> R n r1' r2'"
    and dyn_read_agree: "D n d1 d2 \<Longrightarrow> dyn_read m1 n d1 address w = Value (bs1, d1') \<Longrightarrow>
      dyn_read m2 n d2 address w = Value (bs2, d2') \<Longrightarrow> bs1 = bs2 \<and> D n d1' d2'"
    and dyn_write_agree: "D n d1 d2 \<Longrightarrow> dyn_write m1 n d1 address bs = Value d1' \<Longrightarrow>
      dyn_write m2 n d2 address bs = Value d2' \<Longrightarrow> D n d1' d2'"
begin

lemma cells_agree:
  assumes rel: "alloc_rel R D a b" and "on_cells f path a = Value (x, a')" and "on_cells g path b = Value (y, b')"
    and step: "\<And>n r1 r2 r1' r2'. R n r1 r2 \<Longrightarrow> f n r1 = Value (x, r1') \<Longrightarrow> g n r2 = Value (y, r2') \<Longrightarrow> x = y \<and> R n r1' r2'"
  shows "x = y \<and> alloc_rel R D a' b'"
proof -
  from assms(2) obtain n r r' where a: "cells_at path a = Some (n, r)" "f n r = Value (x, r')" "a' = put_cells path r' a"
    by (auto simp: on_cells_eq access_bind_eq_Value split: option.splits)
  obtain s where b: "cells_at path b = Some (n, s)" "R n r s"
    using alloc_rel_cells_at [OF rel a(1)] by blast
  with assms(3) obtain s' where "g n s = Value (y, s')" "b' = put_cells path s' b"
    by (auto simp: on_cells_eq access_bind_eq_Value)
  with a b step [of n r s r' s'] alloc_rel_put_cells [OF rel a(1)] show ?thesis by auto
qed

lemma dyn_agree:
  assumes rel: "alloc_rel R D a b" and "on_dyn f path a = Value (x, a')" and "on_dyn g path b = Value (y, b')"
    and step: "\<And>n r1 r2 r1' r2'. D n r1 r2 \<Longrightarrow> f n r1 = Value (x, r1') \<Longrightarrow> g n r2 = Value (y, r2') \<Longrightarrow> x = y \<and> D n r1' r2'"
  shows "x = y \<and> alloc_rel R D a' b'"
proof -
  from assms(2) obtain n r r' where a: "dyn_at path a = Some (n, r)" "f n r = Value (x, r')" "a' = put_dyn path r' a"
    by (auto simp: on_dyn_eq access_bind_eq_Value split: option.splits)
  obtain s where b: "dyn_at path b = Some (n, s)" "D n r s"
    using alloc_rel_dyn_at [OF rel a(1)] by blast
  with assms(3) obtain s' where "g n s = Value (y, s')" "b' = put_dyn path s' b"
    by (auto simp: on_dyn_eq access_bind_eq_Value)
  with a b step [of n r s r' s'] alloc_rel_put_dyn [OF rel a(1)] show ?thesis by auto
qed

lemma operations_agree:
  assumes "alloc_rel R D a b"
  shows "cell_read m1 path i a = Value (v1, a1) \<Longrightarrow> cell_read m2 path i b = Value (v2, b1) \<Longrightarrow> v1 = v2 \<and> alloc_rel R D a1 b1"
    and "cell_write m1 path i v a = Value (u1, a1) \<Longrightarrow> cell_write m2 path i v b = Value (u2, b1) \<Longrightarrow> alloc_rel R D a1 b1"
    and "dyn_cells_read m1 path address w a = Value (bs1, a1) \<Longrightarrow> dyn_cells_read m2 path address w b = Value (bs2, b1) \<Longrightarrow> bs1 = bs2 \<and> alloc_rel R D a1 b1"
    and "dyn_cells_write m1 path address bs a = Value (u1, a1) \<Longrightarrow> dyn_cells_write m2 path address bs b = Value (u2, b1) \<Longrightarrow> alloc_rel R D a1 b1"
  unfolding cell_read_def cell_write_def dyn_cells_read_def dyn_cells_write_def
     apply (erule (1) cells_agree [OF assms])
     apply (erule (1) read_agree, assumption)
    apply (drule (1) cells_agree [OF assms])
     apply (auto simp: access_bind_eq_Value dest: write_agree) [2]
   apply (erule (1) dyn_agree [OF assms])
   apply (erule (1) dyn_read_agree, assumption)
  apply (drule (1) dyn_agree [OF assms])
   apply (auto simp: access_bind_eq_Value dest: dyn_write_agree)
  done

text \<open>A program that succeeds on both backends computes the same and leaves related states.\<close>

lemma run_agree:
  "alloc_rel R D a b \<Longrightarrow> run m1 p a = Value (x, a') \<Longrightarrow> run m2 p b = Value (y, b') \<Longrightarrow> x = y \<and> alloc_rel R D a' b'"
proof (induction p arbitrary: a b)
  case (ReadCell path i k)
  from ReadCell.prems obtain v1 a1 v2 b1 where
    "cell_read m1 path i a = Value (v1, a1)" "run m1 (k v1) a1 = Value (x, a')"
    "cell_read m2 path i b = Value (v2, b1)" "run m2 (k v2) b1 = Value (y, b')"
    by (auto simp: access_bind_eq_Value)
  moreover from this have "v1 = v2 \<and> alloc_rel R D a1 b1" using operations_agree(1) [OF ReadCell.prems(1)] by blast
  ultimately show ?case using ReadCell.IH [of "k v1" a1 b1] by simp
next
  case (WriteCell path i v p)
  from WriteCell.prems obtain a1 b1 where
    "cell_write m1 path i v a = Value ((), a1)" "run m1 p a1 = Value (x, a')"
    "cell_write m2 path i v b = Value ((), b1)" "run m2 p b1 = Value (y, b')"
    by (auto simp: access_bind_eq_Value)
  moreover from this have "alloc_rel R D a1 b1" using operations_agree(2) [OF WriteCell.prems(1)] by blast
  ultimately show ?case using WriteCell.IH by blast
next
  case (ReadBytes path address w k)
  from ReadBytes.prems obtain v1 a1 v2 b1 where
    "dyn_cells_read m1 path address w a = Value (v1, a1)" "run m1 (k v1) a1 = Value (x, a')"
    "dyn_cells_read m2 path address w b = Value (v2, b1)" "run m2 (k v2) b1 = Value (y, b')"
    by (auto simp: access_bind_eq_Value)
  moreover from this have "v1 = v2 \<and> alloc_rel R D a1 b1" using operations_agree(3) [OF ReadBytes.prems(1)] by blast
  ultimately show ?case using ReadBytes.IH [of "k v1" a1 b1] by simp
next
  case (WriteBytes path address bs p)
  from WriteBytes.prems obtain a1 b1 where
    "dyn_cells_write m1 path address bs a = Value ((), a1)" "run m1 p a1 = Value (x, a')"
    "dyn_cells_write m2 path address bs b = Value ((), b1)" "run m2 p b1 = Value (y, b')"
    by (auto simp: access_bind_eq_Value)
  moreover from this have "alloc_rel R D a1 b1" using operations_agree(4) [OF WriteBytes.prems(1)] by blast
  ultimately show ?case using WriteBytes.IH by blast
qed simp

end

locale simulation = agreement m1 m2 R D
  for m1 :: "('r1, 'd1, 'v) manager" and m2 :: "('r2, 'd2, 'v) manager"
    and R :: "nat \<Rightarrow> 'r1 \<Rightarrow> 'r2 \<Rightarrow> bool" and D :: "nat \<Rightarrow> 'd1 \<Rightarrow> 'd2 \<Rightarrow> bool" +
  assumes read_works: "R n r1 r2 \<Longrightarrow> region_read m1 n r1 i = Value y \<Longrightarrow> \<exists>z. region_read m2 n r2 i = Value z"
    and write_works: "R n r1 r2 \<Longrightarrow> region_write m1 n r1 i v = Value y' \<Longrightarrow> \<exists>z. region_write m2 n r2 i v = Value z"
    and dyn_read_works: "D n d1 d2 \<Longrightarrow> dyn_read m1 n d1 address w = Value u \<Longrightarrow> \<exists>z. dyn_read m2 n d2 address w = Value z"
    and dyn_write_works: "D n d1 d2 \<Longrightarrow> dyn_write m1 n d1 address bs = Value u' \<Longrightarrow> \<exists>z. dyn_write m2 n d2 address bs = Value z"
begin

lemma cells_work:
  assumes "alloc_rel R D a b" and "on_cells f path a = Value y"
    and "\<And>n r1 r2 u. R n r1 r2 \<Longrightarrow> f n r1 = Value u \<Longrightarrow> \<exists>z. g n r2 = Value z"
  shows "\<exists>z. on_cells g path b = Value z"
proof -
  from assms(2) obtain n r u where a: "cells_at path a = Some (n, r)" "f n r = Value u"
    by (auto simp: on_cells_eq access_bind_eq_Value split: option.splits)
  obtain s where b: "cells_at path b = Some (n, s)" "R n r s"
    using alloc_rel_cells_at [OF assms(1) a(1)] by blast
  with a assms(3) obtain z where "g n s = Value z" by blast
  with b show ?thesis by (cases z) (simp add: on_cells_eq)
qed

lemma dyn_works:
  assumes "alloc_rel R D a b" and "on_dyn f path a = Value y"
    and "\<And>n r1 r2 u. D n r1 r2 \<Longrightarrow> f n r1 = Value u \<Longrightarrow> \<exists>z. g n r2 = Value z"
  shows "\<exists>z. on_dyn g path b = Value z"
proof -
  from assms(2) obtain n r u where a: "dyn_at path a = Some (n, r)" "f n r = Value u"
    by (auto simp: on_dyn_eq access_bind_eq_Value split: option.splits)
  obtain s where b: "dyn_at path b = Some (n, s)" "D n r s"
    using alloc_rel_dyn_at [OF assms(1) a(1)] by blast
  with a assms(3) obtain z where "g n s = Value z" by blast
  with b show ?thesis by (cases z) (simp add: on_dyn_eq)
qed

lemma operations_work:
  assumes rel: "alloc_rel R D a b"
  shows "cell_read m1 path i a = Value y \<Longrightarrow> \<exists>z. cell_read m2 path i b = Value z"
    and "cell_write m1 path i v a = Value y' \<Longrightarrow> \<exists>z. cell_write m2 path i v b = Value z"
    and "dyn_cells_read m1 path address w a = Value u \<Longrightarrow> \<exists>z. dyn_cells_read m2 path address w b = Value z"
    and "dyn_cells_write m1 path address bs a = Value u' \<Longrightarrow> \<exists>z. dyn_cells_write m2 path address bs b = Value z"
  unfolding cell_read_def cell_write_def dyn_cells_read_def dyn_cells_write_def
     apply (erule cells_work [OF rel], erule (1) read_works)
    apply (erule cells_work [OF rel], fastforce simp: access_bind_eq_Value dest: write_works)
   apply (erule dyn_works [OF rel], erule (1) dyn_read_works)
  apply (erule dyn_works [OF rel], fastforce simp: access_bind_eq_Value dest: dyn_write_works)
  done

text \<open>What a program does on the first backend, it does on the second.\<close>

lemma run_simulates:
  "alloc_rel R D a b \<Longrightarrow> run m1 p a = Value (x, a') \<Longrightarrow> \<exists>b'. run m2 p b = Value (x, b') \<and> alloc_rel R D a' b'"
proof (induction p arbitrary: a b)
  case (ReadCell path i k)
  then obtain v a1 where first: "cell_read m1 path i a = Value (v, a1)" "run m1 (k v) a1 = Value (x, a')"
    by (auto simp: access_bind_eq_Value)
  obtain v2 b1 where second: "cell_read m2 path i b = Value (v2, b1)"
    using operations_work(1) [OF ReadCell.prems(1) first(1)] by auto
  have "v = v2 \<and> alloc_rel R D a1 b1" using operations_agree(1) [OF ReadCell.prems(1) first(1) second] .
  with ReadCell.IH [of "k v" a1 b1] first second show ?case by auto
next
  case (WriteCell path i v p)
  then obtain a1 where first: "cell_write m1 path i v a = Value ((), a1)" "run m1 p a1 = Value (x, a')"
    by (auto simp: access_bind_eq_Value)
  obtain b1 where second: "cell_write m2 path i v b = Value ((), b1)"
    using operations_work(2) [OF WriteCell.prems(1) first(1)] by auto
  have "alloc_rel R D a1 b1" using operations_agree(2) [OF WriteCell.prems(1) first(1) second] .
  with WriteCell.IH [of a1 b1] first second show ?case by auto
next
  case (ReadBytes path address w k)
  then obtain v a1 where first: "dyn_cells_read m1 path address w a = Value (v, a1)" "run m1 (k v) a1 = Value (x, a')"
    by (auto simp: access_bind_eq_Value)
  obtain v2 b1 where second: "dyn_cells_read m2 path address w b = Value (v2, b1)"
    using operations_work(3) [OF ReadBytes.prems(1) first(1)] by auto
  have "v = v2 \<and> alloc_rel R D a1 b1" using operations_agree(3) [OF ReadBytes.prems(1) first(1) second] .
  with ReadBytes.IH [of "k v" a1 b1] first second show ?case by auto
next
  case (WriteBytes path address bs p)
  then obtain a1 where first: "dyn_cells_write m1 path address bs a = Value ((), a1)" "run m1 p a1 = Value (x, a')"
    by (auto simp: access_bind_eq_Value)
  obtain b1 where second: "dyn_cells_write m2 path address bs b = Value ((), b1)"
    using operations_work(4) [OF WriteBytes.prems(1) first(1)] by auto
  have "alloc_rel R D a1 b1" using operations_agree(4) [OF WriteBytes.prems(1) first(1) second] .
  with WriteBytes.IH [of a1 b1] first second show ?case by auto
qed simp

end

section \<open>The proof-generating backend simulates the owned one\<close>

text \<open>What a region of the proof-generating backend holds after its writes.\<close>

definition current_cells :: "'v proof_region \<Rightarrow> 'v list" where
  "current_cells r = map (\<lambda>i. case pr_writes r i of Some v \<Rightarrow> v | None \<Rightarrow> pr_source r ! i) [0..<length (pr_source r)]"

definition current_bytes :: "proof_dyn_region \<Rightarrow> bytes" where
  "current_bytes d = map (\<lambda>i. case pd_writes d i of Some v \<Rightarrow> v | None \<Rightarrow> pd_source d ! i) [0..<length (pd_source d)]"

lemma length_current [simp]:
  "length (current_cells r) = length (pr_source r)"
  "length (current_bytes d) = length (pd_source d)"
  by (simp_all add: current_cells_def current_bytes_def)

definition tracks_cells :: "nat \<Rightarrow> 'v list \<Rightarrow> 'v proof_region \<Rightarrow> bool" where
  "tracks_cells n vs r \<longleftrightarrow> length vs = n \<and> current_cells r = vs"

definition tracks_bytes :: "nat \<Rightarrow> bytes \<Rightarrow> proof_dyn_region \<Rightarrow> bool" where
  "tracks_bytes n bs d \<longleftrightarrow>
     length bs = n \<and> current_bytes d = bs \<and> pd_reads d \<union> dom (pd_writes d) \<subseteq> {0..<n}"

lemma tracks_length:
  "tracks_cells n vs r \<Longrightarrow> length vs = n"
  "tracks_bytes n bs d \<Longrightarrow> length bs = n"
  by (simp_all add: tracks_cells_def tracks_bytes_def)

lemma unrecorded_ref_current: "i < length (pr_source r) \<Longrightarrow> unrecorded_ref r i = Value (current_cells r ! i)"
  by (simp add: unrecorded_ref_def current_cells_def split: option.split)

lemma unrecorded_read_current:
  "a + w \<le> length (pd_source d) \<Longrightarrow>
     unrecorded_read (length (pd_source d)) d a w = Value (take w (drop a (current_bytes d)))"
  by (auto simp: unrecorded_read_def owned_dyn_region_read_def current_bytes_def intro!: nth_equalityI
      split: option.split)

lemma current_cells_write:
  "i < length (pr_source r) \<Longrightarrow>
     current_cells (r\<lparr>pr_access := b, pr_writes := (pr_writes r)(i \<mapsto> v)\<rparr>) = (current_cells r)[i := v]"
  by (auto simp: current_cells_def nth_list_update intro!: nth_equalityI split: option.split)

text \<open>The writes of several bytes as one update of the map.\<close>

lemma fold_writes:
  "foldl (\<lambda>ws (i, b). ws(a + i \<mapsto> b)) m (zip [k..<k + length bs] bs) =
     (\<lambda>x. if a + k \<le> x \<and> x < a + k + length bs then Some (bs ! (x - (a + k))) else m x)"
proof (induction bs arbitrary: m k)
  case (Cons b bs)
  have "[k..<k + length (b # bs)] = k # [Suc k..<Suc k + length bs]" by (subst upt_rec) simp
  with Cons.IH [of "m(a + k \<mapsto> b)" "Suc k"] show ?case
    by (auto simp: fun_eq_iff nth_Cons' Suc_diff_Suc)
qed (auto simp: fun_eq_iff)

lemma dom_fold_writes:
  "dom (foldl (\<lambda>ws (i, b). ws(a + i \<mapsto> b)) m (zip [0..<length bs] bs)) = dom m \<union> {a..<a + length bs}"
  using fold_writes [of a m 0 bs] by (auto simp: dom_def split: if_splits)

lemma current_bytes_write:
  "a + length bs \<le> length (pd_source d) \<Longrightarrow>
     current_bytes (d\<lparr>pd_writes := foldl (\<lambda>ws (i, b). ws(a + i \<mapsto> b)) (pd_writes d) (zip [0..<length bs] bs)\<rparr>) =
       take a (current_bytes d) @ bs @ drop (a + length bs) (current_bytes d)"
proof (rule nth_equalityI)
  assume le: "a + length bs \<le> length (pd_source d)"
  have writes: "foldl (\<lambda>ws (i, b). ws(a + i \<mapsto> b)) (pd_writes d) (zip [0..<length bs] bs) =
      (\<lambda>x. if a \<le> x \<and> x < a + length bs then Some (bs ! (x - a)) else pd_writes d x)"
    using fold_writes [of a "pd_writes d" 0 bs] by (simp cong: if_cong)
  let ?d = "d\<lparr>pd_writes := foldl (\<lambda>ws (i, b). ws(a + i \<mapsto> b)) (pd_writes d) (zip [0..<length bs] bs)\<rparr>"
  show "length (current_bytes ?d) = length (take a (current_bytes d) @ bs @ drop (a + length bs) (current_bytes d))"
    using le by simp
  fix i assume "i < length (current_bytes ?d)"
  then have i: "i < length (pd_source d)" by simp
  then have "current_bytes ?d ! i = (if a \<le> i \<and> i < a + length bs then bs ! (i - a) else current_bytes d ! i)"
    by (simp add: current_bytes_def writes cong: option.case_cong)
  with i le show "current_bytes ?d ! i = (take a (current_bytes d) @ bs @ drop (a + length bs) (current_bytes d)) ! i"
    by (auto simp: nth_append)
qed

lemma current_cells_access [simp]: "current_cells (r\<lparr>pr_access := b\<rparr>) = current_cells r"
  by (simp add: current_cells_def cong: option.case_cong)

lemma current_bytes_reads [simp]: "current_bytes (d\<lparr>pd_reads := b\<rparr>) = current_bytes d"
  by (simp add: current_bytes_def cong: option.case_cong)

lemma proof_gen_operations:
  shows "tracks_cells n vs r \<Longrightarrow> i < n \<Longrightarrow>
      proof_region_read n r i = Value (vs ! i, r\<lparr>pr_access := True\<rparr>) \<and> tracks_cells n vs (r\<lparr>pr_access := True\<rparr>)"
    and "tracks_cells n vs r \<Longrightarrow> i < n \<Longrightarrow>
      \<exists>r'. proof_region_write n r i v = Value r' \<and> tracks_cells n (vs[i := v]) r'"
    and "tracks_bytes n bs d \<Longrightarrow> a + w \<le> n \<Longrightarrow>
      \<exists>d'. proof_dyn_region_read n d a w = Value (take w (drop a bs), d') \<and> tracks_bytes n bs d'"
    and "tracks_bytes n bs d \<Longrightarrow> a + length xs \<le> n \<Longrightarrow>
      \<exists>d'. proof_dyn_region_write n d a xs = Value d' \<and> tracks_bytes n (take a bs @ xs @ drop (a + length xs) bs) d'"
proof -
  show "tracks_cells n vs r \<Longrightarrow> i < n \<Longrightarrow>
      proof_region_read n r i = Value (vs ! i, r\<lparr>pr_access := True\<rparr>) \<and> tracks_cells n vs (r\<lparr>pr_access := True\<rparr>)"
    using unrecorded_ref_current [of i "r\<lparr>pr_access := True\<rparr>"]
    by (auto simp: tracks_cells_def proof_region_read_def set_access_info_def)
  show "tracks_cells n vs r \<Longrightarrow> i < n \<Longrightarrow> \<exists>r'. proof_region_write n r i v = Value r' \<and> tracks_cells n (vs[i := v]) r'"
    by (auto simp: tracks_cells_def proof_region_write_def Let_def set_access_info_def current_cells_write)
  show "tracks_bytes n bs d \<Longrightarrow> a + w \<le> n \<Longrightarrow>
      \<exists>d'. proof_dyn_region_read n d a w = Value (take w (drop a bs), d') \<and> tracks_bytes n bs d'"
    using unrecorded_read_current [of a w "d\<lparr>pd_reads := dyn_access_insert w a (pd_reads d)\<rparr>"]
    by (auto simp: tracks_bytes_def proof_dyn_region_read_def dyn_access_insert_def)
  show "tracks_bytes n bs d \<Longrightarrow> a + length xs \<le> n \<Longrightarrow>
      \<exists>d'. proof_dyn_region_write n d a xs = Value d' \<and> tracks_bytes n (take a bs @ xs @ drop (a + length xs) bs) d'"
    by (auto simp: tracks_bytes_def proof_dyn_region_write_def current_bytes_write dom_fold_writes simp del: domIff)
qed

interpretation recording: simulation owned proof_gen tracks_cells tracks_bytes
proof unfold_locales
  fix n i and v1 v2 and r1 r1' :: "'v list" and r2 r2'
  assume "tracks_cells n r1 r2" "region_read owned n r1 i = Value (v1, r1')" "region_read proof_gen n r2 i = Value (v2, r2')"
  then show "v1 = v2 \<and> tracks_cells n r1' r2'"
    using proof_gen_operations(1) [of n r1 r2 i] tracks_length(1) [of n r1 r2]
    by (auto simp: owned_def proof_gen_def owned_region_read_def split: if_splits)
next
  fix n i and v and r1 r1' :: "'v list" and r2 r2'
  assume "tracks_cells n r1 r2" "region_write owned n r1 i v = Value r1'" "region_write proof_gen n r2 i v = Value r2'"
  then show "tracks_cells n r1' r2'"
    using proof_gen_operations(2) [of n r1 r2 i v] tracks_length(1) [of n r1 r2]
    by (auto simp: owned_def proof_gen_def owned_region_write_def split: if_splits)
next
  fix n a w bs1 bs2 d1 d1' d2 d2'
  assume "tracks_bytes n d1 d2" "dyn_read owned n d1 a w = Value (bs1, d1')" "dyn_read proof_gen n d2 a w = Value (bs2, d2')"
  then show "bs1 = bs2 \<and> tracks_bytes n d1' d2'"
    using proof_gen_operations(3) [of n d1 d2 a w]
    by (auto simp: owned_def proof_gen_def owned_dyn_region_read_def split: if_splits)
next
  fix n a bs d1 d1' d2 d2'
  assume "tracks_bytes n d1 d2" "dyn_write owned n d1 a bs = Value d1'" "dyn_write proof_gen n d2 a bs = Value d2'"
  then show "tracks_bytes n d1' d2'"
    using proof_gen_operations(4) [of n d1 d2 a bs]
    by (auto simp: owned_def proof_gen_def owned_dyn_region_write_def split: if_splits)
next
  fix n i y and r1 :: "'v list" and r2
  assume "tracks_cells n r1 r2" "region_read owned n r1 i = Value y"
  then show "\<exists>z. region_read proof_gen n r2 i = Value z"
    using proof_gen_operations(1) [of n r1 r2 i] tracks_length(1) [of n r1 r2]
    by (auto simp: owned_def proof_gen_def owned_region_read_def split: if_splits)
next
  fix n i v y and r1 :: "'v list" and r2
  show "\<exists>z. region_write proof_gen n r2 i v = Value z"
    by (simp add: proof_gen_def proof_region_write_def Let_def)
next
  fix n a w u d1 d2
  assume "tracks_bytes n d1 d2" "dyn_read owned n d1 a w = Value u"
  then show "\<exists>z. dyn_read proof_gen n d2 a w = Value z"
    using proof_gen_operations(3) [of n d1 d2 a w]
    by (auto simp: owned_def proof_gen_def owned_dyn_region_read_def split: if_splits)
next
  fix n a bs u d1 d2
  assume "tracks_bytes n d1 d2" "dyn_write owned n d1 a bs = Value u"
  then show "\<exists>z. dyn_write proof_gen n d2 a bs = Value z"
    using proof_gen_operations(4) [of n d1 d2 a bs]
    by (auto simp: owned_def proof_gen_def owned_dyn_region_write_def split: if_splits)
qed

section \<open>Reading and writing the verifier's pages\<close>

text \<open>The byte at an address, if the pages have it.\<close>

definition page_byte :: "verify_dyn_region \<Rightarrow> nat \<Rightarrow> u8 option" where
  "page_byte pages x =
     (case pages (page_id x) of
        None \<Rightarrow> None
      | Some p \<Rightarrow> if x mod MERKLE_LEAF_SIZE \<in> available p then Some (page_data p ! (x mod MERKLE_LEAF_SIZE)) else None)"

definition pages_wf :: "verify_dyn_region \<Rightarrow> bool" where
  "pages_wf pages \<longleftrightarrow>
     (\<forall>k p. pages k = Some p \<longrightarrow>
        k mod MERKLE_LEAF_SIZE = 0 \<and> length (page_data p) = MERKLE_LEAF_SIZE \<and> available p \<subseteq> {0..<MERKLE_LEAF_SIZE})"

lemma leaf_size_pos: "0 < MERKLE_LEAF_SIZE"
  by (simp add: MERKLE_LEAF_SIZE_def)

lemma page_offset_eq: "page_offset (page_id a) a = Some (a mod MERKLE_LEAF_SIZE)"
  by (simp add: page_offset_def page_id_def checked_sub_def)

lemma page_id_mod [simp]: "page_id a mod MERKLE_LEAF_SIZE = 0"
  by (simp add: page_id_def minus_mod_eq_mult_div)

lemma page_id_idem: "page_id (page_id a) = page_id a"
  by (simp add: page_id_def minus_mod_eq_mult_div)

text \<open>The addresses of one page, from \<open>a\<close> on.\<close>

lemma on_same_page:
  assumes "a mod MERKLE_LEAF_SIZE + i < MERKLE_LEAF_SIZE"
  shows "page_id (a + i) = page_id a" and "(a + i) mod MERKLE_LEAF_SIZE = a mod MERKLE_LEAF_SIZE + i"
proof -
  have "(a + i) mod MERKLE_LEAF_SIZE = (a mod MERKLE_LEAF_SIZE + i) mod MERKLE_LEAF_SIZE"
    by (simp add: mod_add_left_eq)
  with assms show m: "(a + i) mod MERKLE_LEAF_SIZE = a mod MERKLE_LEAF_SIZE + i" by simp
  show "page_id (a + i) = page_id a" unfolding page_id_def m by simp
qed

lemma page_id_offset: "page_id x + x mod MERKLE_LEAF_SIZE = x"
  by (simp add: page_id_def)

lemma read_bytes_loop_step:
  assumes "pages_wf pages" and "0 < n" and c_def: "c = min n (MERKLE_LEAF_SIZE - a mod MERKLE_LEAF_SIZE)"
  shows "read_bytes_loop pages a n =
    (if \<forall>i<c. page_byte pages (a + i) \<noteq> None
     then access_bind (read_bytes_loop pages (a + c) (n - c))
            (\<lambda>rest. Value (map (\<lambda>i. the (page_byte pages (a + i))) [0..<c] @ rest))
     else Missing)"
proof -
  have mod: "a mod MERKLE_LEAF_SIZE < MERKLE_LEAF_SIZE" using leaf_size_pos by simp
  then have c: "0 < c" "c \<le> n" "a mod MERKLE_LEAF_SIZE + c \<le> MERKLE_LEAF_SIZE"
    using assms(2) by (auto simp: c_def min_def)
  have byte: "page_byte pages (a + i) =
      (case pages (page_id a) of None \<Rightarrow> None
       | Some p \<Rightarrow> if a mod MERKLE_LEAF_SIZE + i \<in> available p then Some (page_data p ! (a mod MERKLE_LEAF_SIZE + i)) else None)"
    if "i < c" for i
    using on_same_page [of a i] that c by (simp add: page_byte_def cong: option.case_cong if_cong)
  show ?thesis
  proof (cases "pages (page_id a)")
    case None
    with byte [of 0] c assms(2) show ?thesis by (auto simp: read_bytes_loop.simps [of pages a n])
  next
    case (Some p)
    have len: "length (page_data p) = MERKLE_LEAF_SIZE" using Some assms(1) by (auto simp: pages_wf_def)
    have get: "page_get p (a mod MERKLE_LEAF_SIZE) c =
        (if \<forall>i<c. page_byte pages (a + i) \<noteq> None
         then Some (map (\<lambda>i. the (page_byte pages (a + i))) [0..<c]) else None)"
    proof (cases "{a mod MERKLE_LEAF_SIZE..<a mod MERKLE_LEAF_SIZE + c} \<subseteq> available p")
      case True
      then have "a mod MERKLE_LEAF_SIZE + i \<in> available p" if "i < c" for i using that by auto
      with Some byte c len True show ?thesis
        by (auto simp: page_get_def intro!: nth_equalityI)
    next
      case False
      then obtain i where "i < c" "a mod MERKLE_LEAF_SIZE + i \<notin> available p"
        by (metis atLeastLessThan_iff le_Suc_ex less_diff_conv2 nat_add_left_cancel_less subsetI)
      with Some byte False show ?thesis by (auto simp: page_get_def)
    qed
    show ?thesis
      using Some get c assms(2)
      by (auto simp: read_bytes_loop.simps [of pages a n] page_offset_eq c_def [symmetric])
  qed
qed

lemma split_below: "c \<le> n \<Longrightarrow> (\<forall>i<n. P i) \<longleftrightarrow> (\<forall>i<c. P i) \<and> (\<forall>i<n - c. P (c + i))" for c n :: nat
proof (intro iffI conjI allI impI)
  fix i assume le: "c \<le> n" and P: "(\<forall>i<c. P i) \<and> (\<forall>i<n - c. P (c + i))" and i: "i < n"
  show "P i"
  proof (cases "i < c")
    case False
    with i have "P (c + (i - c))" using P by (intro conjunct2 [OF P, rule_format]) linarith
    with False show ?thesis by simp
  qed (use P in simp)
qed auto

lemma read_bytes_loop_eq:
  "pages_wf pages \<Longrightarrow> read_bytes_loop pages a n =
     (if \<forall>i<n. page_byte pages (a + i) \<noteq> None
      then Value (map (\<lambda>i. the (page_byte pages (a + i))) [0..<n]) else Missing)"
proof (induction n arbitrary: a rule: less_induct)
  case (less n)
  show ?case
  proof (cases "n = 0")
    case True
    then show ?thesis by (simp add: read_bytes_loop.simps)
  next
    case False
    define c where "c = min n (MERKLE_LEAF_SIZE - a mod MERKLE_LEAF_SIZE)"
    have "a mod MERKLE_LEAF_SIZE < MERKLE_LEAF_SIZE" using leaf_size_pos by simp
    with False have c: "0 < c" "c \<le> n" by (auto simp: c_def)
    have all: "(\<forall>i<n. P i) \<longleftrightarrow> (\<forall>i<c. P i) \<and> (\<forall>i<n - c. P (c + i))" for P :: "nat \<Rightarrow> bool"
      by (rule split_below [OF c(2)])
    have "[0..<n] = [0..<c] @ map (\<lambda>i. c + i) [0..<n - c]"
      using c by (intro nth_equalityI) (auto simp: nth_append)
    then have "map (\<lambda>i. the (page_byte pages (a + i))) [0..<n] =
        map (\<lambda>i. the (page_byte pages (a + i))) [0..<c] @
        map (\<lambda>i. the (page_byte pages (a + c + i))) [0..<n - c]"
      by (simp add: add.assoc)
    with less False c show ?thesis unfolding all [of "\<lambda>i. page_byte pages (a + i) \<noteq> None"]
      by (auto simp: read_bytes_loop_step [OF less.prems _ c_def] add.assoc)
  qed
qed

text \<open>One chunk written, with the pages it leaves.\<close>

lemma page_put_byte:
  assumes wf: "pages_wf pages" and fits: "a mod MERKLE_LEAF_SIZE + length bs \<le> MERKLE_LEAF_SIZE" and "bs \<noteq> []"
  defines "p \<equiv> case pages (page_id a) of Some page \<Rightarrow> page | None \<Rightarrow> page_default"
  shows "\<exists>p'. page_put p (a mod MERKLE_LEAF_SIZE) bs = Some p' \<and> pages_wf (pages(page_id a \<mapsto> p')) \<and>
    (\<forall>x. page_byte (pages(page_id a \<mapsto> p')) x =
           (if a \<le> x \<and> x < a + length bs then Some (bs ! (x - a)) else page_byte pages x))"
proof -
  let ?m = "a mod MERKLE_LEAF_SIZE"
  have p: "length (page_data p) = MERKLE_LEAF_SIZE" "available p \<subseteq> {0..<MERKLE_LEAF_SIZE}"
    using wf by (auto simp: p_def pages_wf_def page_default_def split: option.splits)
  define p' where "p' = p\<lparr>available := available p \<union> {?m..<?m + length bs},
      page_data := take ?m (page_data p) @ bs @ drop (?m + length bs) (page_data p)\<rparr>"
  have put: "page_put p ?m bs = Some p'" using fits by (simp add: page_put_def p'_def)
  have data: "page_data p' ! k = (if ?m \<le> k \<and> k < ?m + length bs then bs ! (k - ?m) else page_data p ! k)"
    if "k < MERKLE_LEAF_SIZE" for k
    using that p fits by (auto simp: p'_def nth_append)
  have "page_byte (pages(page_id a \<mapsto> p')) x =
      (if a \<le> x \<and> x < a + length bs then Some (bs ! (x - a)) else page_byte pages x)" for x
  proof (cases "page_id x = page_id a")
    case True
    then have shift: "a \<le> x \<longleftrightarrow> ?m \<le> x mod MERKLE_LEAF_SIZE" "x < a + length bs \<longleftrightarrow> x mod MERKLE_LEAF_SIZE < ?m + length bs"
      "a \<le> x \<Longrightarrow> x - a = x mod MERKLE_LEAF_SIZE - ?m"
      using page_id_offset [of a] page_id_offset [of x] by linarith+
    have "page_byte pages x =
        (if x mod MERKLE_LEAF_SIZE \<in> available p then Some (page_data p ! (x mod MERKLE_LEAF_SIZE)) else None)"
      using True by (auto simp: page_byte_def p_def page_default_def split: option.splits)
    with True shift data [of "x mod MERKLE_LEAF_SIZE"] leaf_size_pos show ?thesis
      by (auto simp: page_byte_def p'_def)
  next
    case False
    have "\<not> (a \<le> x \<and> x < a + length bs)"
    proof
      assume "a \<le> x \<and> x < a + length bs"
      then have "page_id (a + (x - a)) = page_id a" using fits by (intro on_same_page) linarith
      with False \<open>a \<le> x \<and> x < a + length bs\<close> show False by simp
    qed
    with False show ?thesis by (auto simp: page_byte_def)
  qed
  moreover have "pages_wf (pages(page_id a \<mapsto> p'))"
    using wf p fits by (auto simp: pages_wf_def p'_def)
  ultimately show ?thesis using put by blast
qed

lemma page_id_image:
  assumes "a mod MERKLE_LEAF_SIZE + c \<le> MERKLE_LEAF_SIZE" and "0 < c"
  shows "page_id ` {a..<a + c} = {page_id a}"
proof -
  have "page_id x = page_id a" if x: "x \<in> {a..<a + c}" for x
  proof -
    have "a mod MERKLE_LEAF_SIZE + (x - a) < MERKLE_LEAF_SIZE" using x assms(1) by (simp only: atLeastLessThan_iff) linarith
    from on_same_page(1) [OF this] x show ?thesis by (simp only: atLeastLessThan_iff le_add_diff_inverse)
  qed
  then have "page_id ` {a..<a + c} = (\<lambda>_. page_id a) ` {a..<a + c}" by (intro image_cong refl)
  also have "\<dots> = {page_id a}" using assms(2) by (intro image_constant [of a]) simp
  finally show ?thesis .
qed

lemma write_bytes_loop_eq:
  "pages_wf pages \<Longrightarrow>
     \<exists>pages'. write_bytes_loop pages a bs = Value pages' \<and> pages_wf pages' \<and>
       dom pages' = dom pages \<union> page_id ` {a..<a + length bs} \<and>
       (\<forall>x. page_byte pages' x = (if a \<le> x \<and> x < a + length bs then Some (bs ! (x - a)) else page_byte pages x))"
proof (induction "length bs" arbitrary: pages a bs rule: less_induct)
  case less
  show ?case
  proof (cases "bs = []")
    case True
    with less.prems show ?thesis by (auto simp: write_bytes_loop.simps)
  next
    case False
    define c where "c = min (length bs) (MERKLE_LEAF_SIZE - a mod MERKLE_LEAF_SIZE)"
    have m: "a mod MERKLE_LEAF_SIZE < MERKLE_LEAF_SIZE" using leaf_size_pos by simp
    with False have c: "0 < c" "c \<le> length bs" "a mod MERKLE_LEAF_SIZE + c \<le> MERKLE_LEAF_SIZE"
      by (auto simp: c_def min_def)
    then have fits: "a mod MERKLE_LEAF_SIZE + length (take c bs) \<le> MERKLE_LEAF_SIZE" "take c bs \<noteq> []"
      using False by auto
    obtain p' where p': "page_put (case pages (page_id a) of Some page \<Rightarrow> page | None \<Rightarrow> page_default)
          (a mod MERKLE_LEAF_SIZE) (take c bs) = Some p'"
      and wf: "pages_wf (pages(page_id a \<mapsto> p'))"
      and byte: "\<forall>x. page_byte (pages(page_id a \<mapsto> p')) x =
           (if a \<le> x \<and> x < a + length (take c bs) then Some (take c bs ! (x - a)) else page_byte pages x)"
      using page_put_byte [OF less.prems fits] by blast
    have "length (drop c bs) < length bs" using c False by simp
    from less.hyps [OF this wf, of "a + c"] obtain pages' where
      rest: "write_bytes_loop (pages(page_id a \<mapsto> p')) (a + c) (drop c bs) = Value pages'" "pages_wf pages'"
        "dom pages' = dom (pages(page_id a \<mapsto> p')) \<union> page_id ` {a + c..<a + c + length (drop c bs)}"
        "\<forall>x. page_byte pages' x = (if a + c \<le> x \<and> x < a + c + length (drop c bs) then Some (drop c bs ! (x - (a + c)))
                                   else page_byte (pages(page_id a \<mapsto> p')) x)"
      by blast
    have "write_bytes_loop pages a bs = Value pages'"
      using False p' rest(1) c by (simp add: write_bytes_loop.simps [of pages a bs] page_offset_eq c_def [symmetric])
    moreover have "dom pages' = dom pages \<union> page_id ` {a..<a + length bs}"
    proof -
      have "{a..<a + length bs} = {a..<a + c} \<union> {a + c..<a + c + length (drop c bs)}" using c by auto
      then show ?thesis using rest(3) page_id_image [OF c(3,1)] by (auto simp: image_Un)
    qed
    moreover have "page_byte pages' x = (if a \<le> x \<and> x < a + length bs then Some (bs ! (x - a)) else page_byte pages x)" for x
      using rest(4) byte c by (auto simp: algebra_simps)
    ultimately show ?thesis using rest(2) by blast
  qed
qed

section \<open>The verifier agrees with the prover\<close>

text \<open>
  What a verifier knows of a region agrees with what the proof-generating backend holds, and the parts
  of which it knows nothing have not been written to.
\<close>

fun knows_cells :: "nat \<Rightarrow> 'v proof_region \<Rightarrow> 'v verify_region \<Rightarrow> bool" where
  "knows_cells n r AbsentRegion \<longleftrightarrow> length (pr_source r) = n \<and> pr_writes r = Map.empty"
| "knows_cells n r (PartialRegion vs) \<longleftrightarrow>
     length (pr_source r) = n \<and> length vs = n \<and> (\<forall>i<n. \<forall>v. vs ! i = Some v \<longrightarrow> current_cells r ! i = v)"

definition knows_bytes :: "nat \<Rightarrow> proof_dyn_region \<Rightarrow> verify_dyn_region \<Rightarrow> bool" where
  "knows_bytes n d pages \<longleftrightarrow>
     length (pd_source d) = n \<and> pages_wf pages \<and> (\<forall>x\<in>dom (pd_writes d). page_id x \<in> dom pages) \<and>
     (\<forall>x<n. \<forall>b. page_byte pages x = Some b \<longrightarrow> current_bytes d ! x = b)"

lemma verify_read_agree:
  assumes "knows_cells n r v" "proof_region_read n r i = Value (x, r')" "verify_region_read n v i = Value (y, v')"
  shows "x = y \<and> knows_cells n r' v'"
proof -
  from assms(1,3) obtain vs where v: "v = PartialRegion vs" "v' = v" "i < n" "vs ! i = Some y"
    by (cases v) (auto simp: verify_region_read_def split: if_splits option.splits)
  with assms(1,2) unrecorded_ref_current [of i "r\<lparr>pr_access := True\<rparr>"] show ?thesis
    by (auto simp: proof_region_read_def set_access_info_def)
qed

lemma verify_write_agree:
  assumes "knows_cells n r v" "proof_region_write n r i x = Value r'" "verify_region_write n v i x = Value v'"
  shows "knows_cells n r' v'"
  using assms current_cells_write [of i r x True]
  by (cases v) (auto simp: proof_region_write_def set_access_info_def verify_region_write_def Let_def
      nth_list_update split: if_splits)

lemma verify_dyn_read_eq:
  assumes "knows_bytes n d pages" "a + w \<le> n"
  shows "verify_dyn_region_read n pages a w =
    (if \<forall>i<w. page_byte pages (a + i) \<noteq> None then Value (take w (drop a (current_bytes d)), pages) else Missing)"
proof -
  have "map (\<lambda>i. the (page_byte pages (a + i))) [0..<w] = take w (drop a (current_bytes d))"
    if "\<forall>i<w. page_byte pages (a + i) \<noteq> None"
    using that assms by (intro nth_equalityI) (fastforce simp: knows_bytes_def)+
  with assms show ?thesis
    by (auto simp: verify_dyn_region_read_def read_bytes_def read_bytes_loop_eq knows_bytes_def)
qed

lemma verify_dyn_write_eq:
  assumes knows: "knows_bytes n d pages" and "a + length bs \<le> n"
  obtains d' pages' where "proof_dyn_region_write n d a bs = Value d'" "verify_dyn_region_write n pages a bs = Value pages'"
    "knows_bytes n d' pages'" "pd_reads d' = pd_reads d" "dom (pd_writes d') = dom (pd_writes d) \<union> {a..<a + length bs}"
    "dom pages' = dom pages \<union> page_id ` {a..<a + length bs}"
    "\<forall>x. page_byte pages' x = (if a \<le> x \<and> x < a + length bs then Some (bs ! (x - a)) else page_byte pages x)"
proof -
  let ?d = "d\<lparr>pd_writes := foldl (\<lambda>ws (i, b). ws(a + i \<mapsto> b)) (pd_writes d) (zip [0..<length bs] bs)\<rparr>"
  have len: "length (pd_source d) = n" and wf: "pages_wf pages" using knows by (auto simp: knows_bytes_def)
  obtain pages' where loop: "write_bytes_loop pages a bs = Value pages'" "pages_wf pages'"
    "dom pages' = dom pages \<union> page_id ` {a..<a + length bs}"
    "\<forall>x. page_byte pages' x = (if a \<le> x \<and> x < a + length bs then Some (bs ! (x - a)) else page_byte pages x)"
    using write_bytes_loop_eq [OF wf] by blast
  have prover: "proof_dyn_region_write n d a bs = Value ?d" using assms by (simp add: proof_dyn_region_write_def)
  have verify: "verify_dyn_region_write n pages a bs = Value pages'"
    using loop(1) assms by (auto simp: verify_dyn_region_write_def write_bytes_def write_bytes_loop.simps)
  have dom: "dom (pd_writes ?d) = dom (pd_writes d) \<union> {a..<a + length bs}"
    using fold_writes [of a "pd_writes d" 0 bs] by (auto simp: dom_def split: if_splits)
  have "knows_bytes n ?d pages'"
    unfolding knows_bytes_def dom loop(3)
    using knows loop(2,4) assms current_bytes_write [of a bs d]
    by (auto simp: knows_bytes_def nth_append simp del: domIff split: if_splits)
  with prover verify dom loop show thesis using that by auto
qed

interpretation verifying: agreement proof_gen verifier knows_cells knows_bytes
proof unfold_locales
  fix n i and v1 v2 and r1 r1' :: "'v proof_region" and r2 r2'
  assume "knows_cells n r1 r2" "region_read proof_gen n r1 i = Value (v1, r1')" "region_read verifier n r2 i = Value (v2, r2')"
  then show "v1 = v2 \<and> knows_cells n r1' r2'"
    using verify_read_agree [of n r1 r2 i] by (simp add: proof_gen_def verifier_def)
next
  fix n i and v and r1 r1' :: "'v proof_region" and r2 r2'
  assume "knows_cells n r1 r2" "region_write proof_gen n r1 i v = Value r1'" "region_write verifier n r2 i v = Value r2'"
  then show "knows_cells n r1' r2'"
    using verify_write_agree [of n r1 r2 i v] by (simp add: proof_gen_def verifier_def)
next
  fix n a w bs1 bs2 d1 d1' d2 d2'
  assume d: "knows_bytes n d1 d2" "dyn_read proof_gen n d1 a w = Value (bs1, d1')" "dyn_read verifier n d2 a w = Value (bs2, d2')"
  then have fits: "a + w \<le> n"
    by (auto simp: proof_gen_def proof_dyn_region_read_def unrecorded_read_def owned_dyn_region_read_def
        access_bind_eq_Value Let_def split: if_splits)
  have len: "length (pd_source d1) = n" using d(1) by (simp add: knows_bytes_def)
  with d fits unrecorded_read_current [of a w "d1\<lparr>pd_reads := dyn_access_insert w a (pd_reads d1)\<rparr>"]
  show "bs1 = bs2 \<and> knows_bytes n d1' d2'"
    by (auto simp: proof_gen_def verifier_def verify_dyn_read_eq [OF d(1) fits] proof_dyn_region_read_def
        knows_bytes_def simp del: domIff split: if_splits)
next
  fix n a bs d1 d1' d2 d2'
  assume d: "knows_bytes n d1 d2" "dyn_write proof_gen n d1 a bs = Value d1'" "dyn_write verifier n d2 a bs = Value d2'"
  then have "a + length bs \<le> n" by (simp add: proof_gen_def proof_dyn_region_write_def split: if_splits)
  from verify_dyn_write_eq [OF d(1) this] show "knows_bytes n d1' d2'"
    using d by (auto simp: proof_gen_def verifier_def)
qed

section \<open>A verifier that knows what was accessed succeeds\<close>

lemma put_cells_same: "cells_at path a = Some (n, r) \<Longrightarrow> put_cells path r a = a"
  by (induction path a rule: cells_at.induct) (auto split: if_splits)

lemma put_dyn_same: "dyn_at path a = Some (n, d) \<Longrightarrow> put_dyn path d a = a"
  by (induction path a rule: dyn_at.induct) (auto split: if_splits)

lemma cells_at_put: "cells_at path a = Some (n, r) \<Longrightarrow> cells_at path (put_cells path r' a) = Some (n, r')"
  by (induction path a rule: cells_at.induct) (auto split: if_splits)

lemma dyn_at_put: "dyn_at path a = Some (n, d) \<Longrightarrow> dyn_at path (put_dyn path d' a) = Some (n, d')"
  by (induction path a rule: dyn_at.induct) (auto split: if_splits)

lemma alloc_rel_refl: "(\<And>n r. R n r r) \<Longrightarrow> (\<And>n d. D n d d) \<Longrightarrow> alloc_rel R D a a"
  by (induction a) (auto simp: list.rel_refl_strong)

lemma alloc_rel_trans:
  assumes "\<And>n x y z. R n x y \<Longrightarrow> R n y z \<Longrightarrow> R n x z" "\<And>n x y z. D n x y \<Longrightarrow> D n y z \<Longrightarrow> D n x z"
  shows "alloc_rel R D a b \<Longrightarrow> alloc_rel R D b c \<Longrightarrow> alloc_rel R D a c"
proof (induction a arbitrary: b c)
  case (Cells t n r)
  then obtain r' r'' where "b = Cells t n r'" "c = Cells t n r''" "R n r r'" "R n r' r''" by (auto split: alloc.splits)
  with assms(1) [of n r r' r''] show ?case by simp
next
  case (DynCells n d)
  then obtain d' d'' where "b = DynCells n d'" "c = DynCells n d''" "D n d d'" "D n d' d''" by (auto split: alloc.splits)
  with assms(2) [of n d d' d''] show ?case by simp
next
  case (Parts as)
  then show ?case by (auto simp: list_all2_conv_all_nth split: alloc.splits)
next
  case (Many as)
  then show ?case by (auto simp: list_all2_conv_all_nth split: alloc.splits)
qed

text \<open>Logs only grow.\<close>

definition grows_cells :: "nat \<Rightarrow> 'v proof_region \<Rightarrow> 'v proof_region \<Rightarrow> bool" where
  "grows_cells n r r' \<longleftrightarrow> pr_source r' = pr_source r \<and> (pr_access r \<longrightarrow> pr_access r')"

definition grows_bytes :: "nat \<Rightarrow> proof_dyn_region \<Rightarrow> proof_dyn_region \<Rightarrow> bool" where
  "grows_bytes n d d' \<longleftrightarrow>
     pd_source d' = pd_source d \<and> pd_reads d \<subseteq> pd_reads d' \<and> dom (pd_writes d) \<subseteq> dom (pd_writes d')"

lemma grows_refl: "alloc_rel grows_cells grows_bytes a a"
  by (rule alloc_rel_refl) (auto simp: grows_cells_def grows_bytes_def)

lemma grows_trans:
  "alloc_rel grows_cells grows_bytes a b \<Longrightarrow> alloc_rel grows_cells grows_bytes b c \<Longrightarrow> alloc_rel grows_cells grows_bytes a c"
  by (rule alloc_rel_trans [of grows_cells grows_bytes])
     (simp add: grows_cells_def, unfold grows_bytes_def, metis subset_trans)

lemma on_cells_grows:
  assumes "on_cells f path a = Value (x, a')" and "\<And>n r r'. f n r = Value (x, r') \<Longrightarrow> grows_cells n r r'"
  shows "alloc_rel grows_cells grows_bytes a a'"
proof -
  from assms(1) obtain n r r' where a: "cells_at path a = Some (n, r)" "f n r = Value (x, r')" "a' = put_cells path r' a"
    by (auto simp: on_cells_eq access_bind_eq_Value split: option.splits)
  from alloc_rel_put_cells [OF grows_refl a(1) assms(2) [OF a(2)]] a show ?thesis by (simp add: put_cells_same)
qed

lemma on_dyn_grows:
  assumes "on_dyn f path a = Value (x, a')" and "\<And>n r r'. f n r = Value (x, r') \<Longrightarrow> grows_bytes n r r'"
  shows "alloc_rel grows_cells grows_bytes a a'"
proof -
  from assms(1) obtain n r r' where a: "dyn_at path a = Some (n, r)" "f n r = Value (x, r')" "a' = put_dyn path r' a"
    by (auto simp: on_dyn_eq access_bind_eq_Value split: option.splits)
  from alloc_rel_put_dyn [OF grows_refl a(1) assms(2) [OF a(2)]] a show ?thesis by (simp add: put_dyn_same)
qed

lemma operations_grow:
  shows "proof_region_read n r i = Value (v, r') \<Longrightarrow> grows_cells n r r' \<and> pr_access r'"
    and "proof_region_write n r i v = Value r' \<Longrightarrow> grows_cells n r r' \<and> pr_access r'"
    and "proof_dyn_region_read n d a w = Value (bs, d') \<Longrightarrow> grows_bytes n d d' \<and> {a..<a + w} \<subseteq> pd_reads d' \<and> a + w \<le> n"
    and "proof_dyn_region_write n d a bs = Value d' \<Longrightarrow> grows_bytes n d d' \<and> {a..<a + length bs} \<subseteq> dom (pd_writes d') \<and> a + length bs \<le> n"
  using fold_writes [of a "pd_writes d" 0 bs]
  by (auto simp: proof_region_read_def proof_region_write_def proof_dyn_region_read_def proof_dyn_region_write_def
      grows_cells_def grows_bytes_def set_access_info_def access_bind_eq_Value Let_def dyn_access_insert_def
      unrecorded_read_def owned_dyn_region_read_def dom_def split: if_splits)

lemma cell_operations_grow:
  shows "cell_read proof_gen path i a = Value (v, a') \<Longrightarrow> alloc_rel grows_cells grows_bytes a a'"
    and "cell_write proof_gen path i v' a = Value (u, a') \<Longrightarrow> alloc_rel grows_cells grows_bytes a a'"
    and "dyn_cells_read proof_gen path address w a = Value (bs, a') \<Longrightarrow> alloc_rel grows_cells grows_bytes a a'"
    and "dyn_cells_write proof_gen path address bs' a = Value (u, a') \<Longrightarrow> alloc_rel grows_cells grows_bytes a a'"
  unfolding cell_read_def cell_write_def dyn_cells_read_def dyn_cells_write_def proof_gen_def
     apply (erule on_cells_grows, simp add: operations_grow)
    apply (erule on_cells_grows, auto simp: access_bind_eq_Value dest: operations_grow) [1]
   apply (erule on_dyn_grows, auto dest: operations_grow) [1]
  apply (erule on_dyn_grows, auto simp: access_bind_eq_Value dest: operations_grow)
  done

lemma run_grows: "run proof_gen p a = Value (x, a') \<Longrightarrow> alloc_rel grows_cells grows_bytes a a'"
proof (induction p arbitrary: a)
  case (ReadCell path i k)
  then obtain v a1 where "cell_read proof_gen path i a = Value (v, a1)" "run proof_gen (k v) a1 = Value (x, a')"
    by (auto simp: access_bind_eq_Value)
  then have "alloc_rel grows_cells grows_bytes a a1" "alloc_rel grows_cells grows_bytes a1 a'"
    using ReadCell.IH [of "k v" a1] cell_operations_grow(1) by simp_all
  then show ?case by (rule grows_trans)
next
  case (WriteCell path i v p)
  then obtain a1 where "cell_write proof_gen path i v a = Value ((), a1)" "run proof_gen p a1 = Value (x, a')"
    by (auto simp: access_bind_eq_Value)
  then have "alloc_rel grows_cells grows_bytes a a1" "alloc_rel grows_cells grows_bytes a1 a'"
    using WriteCell.IH [of a1] cell_operations_grow(2) by simp_all
  then show ?case by (rule grows_trans)
next
  case (ReadBytes path address w k)
  then obtain v a1 where "dyn_cells_read proof_gen path address w a = Value (v, a1)" "run proof_gen (k v) a1 = Value (x, a')"
    by (auto simp: access_bind_eq_Value)
  then have "alloc_rel grows_cells grows_bytes a a1" "alloc_rel grows_cells grows_bytes a1 a'"
    using ReadBytes.IH [of "k v" a1] cell_operations_grow(3) by simp_all
  then show ?case by (rule grows_trans)
next
  case (WriteBytes path address bs p)
  then obtain a1 where "dyn_cells_write proof_gen path address bs a = Value ((), a1)" "run proof_gen p a1 = Value (x, a')"
    by (auto simp: access_bind_eq_Value)
  then have "alloc_rel grows_cells grows_bytes a a1" "alloc_rel grows_cells grows_bytes a1 a'"
    using WriteBytes.IH [of a1] cell_operations_grow(4) by simp_all
  then show ?case by (rule grows_trans)
qed (simp add: grows_refl)

text \<open>
  A verifier's state covers the accesses of a log when accessed cells are known, the others are absent,
  and the pages it has are whole and those accessed.
\<close>

definition covers_cells :: "nat \<Rightarrow> 'v proof_region \<Rightarrow> 'v verify_region \<Rightarrow> bool" where
  "covers_cells n r v \<longleftrightarrow> (if pr_access r then \<exists>vs. v = PartialRegion (map Some vs) \<and> length vs = n else v = AbsentRegion)"

definition covers_bytes :: "nat \<Rightarrow> proof_dyn_region \<Rightarrow> verify_dyn_region \<Rightarrow> bool" where
  "covers_bytes n d pages \<longleftrightarrow>
     (\<forall>k p. pages k = Some p \<longrightarrow> is_fully_available p) \<and> page_id ` (pd_reads d \<union> dom (pd_writes d)) = dom pages"

lemma covers_page_byte:
  assumes "covers_bytes n d pages" "x \<in> pd_reads d \<union> dom (pd_writes d)"
  shows "page_byte pages x \<noteq> None"
proof -
  have "page_id x \<in> dom pages" using assms unfolding covers_bytes_def by blast
  then obtain p where "pages (page_id x) = Some p" by blast
  with assms(1) leaf_size_pos show ?thesis by (auto simp: covers_bytes_def page_byte_def is_fully_available_def)
qed

lemma covered_read:
  assumes "proof_region_read n r i = Value (x, r1)" "grows_cells n r1 r'" "covers_cells n r' v" "knows_cells n r v" "i < n"
  shows "verify_region_read n v i = Value (x, v)"
proof -
  have "pr_access r'" using operations_grow(1) [OF assms(1)] assms(2) by (simp add: grows_cells_def)
  with assms(3) obtain vs where vs: "v = PartialRegion (map Some vs)" "length vs = n" by (auto simp: covers_cells_def)
  then have "verify_region_read n v i = Value (vs ! i, v)" using assms(5) by (simp add: verify_region_read_def)
  with verify_read_agree [OF assms(4,1) this] show ?thesis by simp
qed

lemma covered_write:
  assumes "proof_region_write n r i x = Value r1" "grows_cells n r1 r'" "covers_cells n r' v" "i < n"
  shows "\<exists>v1. verify_region_write n v i x = Value v1 \<and> covers_cells n r' v1"
proof -
  have "pr_access r'" using operations_grow(2) [OF assms(1)] assms(2) by (simp add: grows_cells_def)
  with assms(3) obtain vs where vs: "v = PartialRegion (map Some vs)" "length vs = n" by (auto simp: covers_cells_def)
  with assms(4) \<open>pr_access r'\<close> show ?thesis
    by (auto simp: verify_region_write_def covers_cells_def map_update [symmetric] intro!: exI [of _ "vs[i := x]"])
qed

lemma covered_dyn_read:
  assumes "proof_dyn_region_read n d a w = Value (bs, d1)" "grows_bytes n d1 d'" "covers_bytes n d' v" "knows_bytes n d v"
  shows "verify_dyn_region_read n v a w = Value (bs, v)"
proof -
  have range: "{a..<a + w} \<subseteq> pd_reads d'" "a + w \<le> n"
    using operations_grow(3) [OF assms(1)] assms(2) by (auto simp: grows_bytes_def)
  have "\<forall>i<w. page_byte v (a + i) \<noteq> None" 
    using range(1) by (intro allI impI covers_page_byte [OF assms(3)] UnI1 subsetD [OF range(1)]) simp
  then have "verify_dyn_region_read n v a w = Value (take w (drop a (current_bytes d)), v)"
    by (simp add: verify_dyn_read_eq [OF assms(4) range(2)])
  with verifying.dyn_read_agree [of n d v a w bs d1] assms show ?thesis by (simp add: proof_gen_def verifier_def)
qed

lemma covered_dyn_write:
  assumes "proof_dyn_region_write n d a bs = Value d1" "grows_bytes n d1 d'" "covers_bytes n d' v" "knows_bytes n d v"
  shows "\<exists>v1. verify_dyn_region_write n v a bs = Value v1 \<and> covers_bytes n d' v1"
proof -
  have range: "{a..<a + length bs} \<subseteq> dom (pd_writes d')" "a + length bs \<le> n"
    using operations_grow(4) [OF assms(1)] assms(2) unfolding grows_bytes_def by (metis subset_trans, simp)
  obtain d2 v1 where v1: "proof_dyn_region_write n d a bs = Value d2" "verify_dyn_region_write n v a bs = Value v1"
    "knows_bytes n d2 v1" "pd_reads d2 = pd_reads d" "dom (pd_writes d2) = dom (pd_writes d) \<union> {a..<a + length bs}"
    "dom v1 = dom v \<union> page_id ` {a..<a + length bs}"
    "\<forall>x. page_byte v1 x = (if a \<le> x \<and> x < a + length bs then Some (bs ! (x - a)) else page_byte v x)"
    by (rule verify_dyn_write_eq [OF assms(4) range(2)])
  have "page_id ` {a..<a + length bs} \<subseteq> page_id ` (pd_reads d' \<union> dom (pd_writes d'))"
    by (intro image_mono le_supI2 range(1))
  also have "\<dots> \<subseteq> dom v" using assms(3) by (simp add: covers_bytes_def)
  finally have dom: "dom v1 = dom v" by (simp only: v1(6) Un_absorb2)
  have "is_fully_available p" if p: "v1 k = Some p" for k p
  proof -
    have k: "page_id k = k" "available p \<subseteq> {0..<MERKLE_LEAF_SIZE}"
      using v1(3) p by (auto simp: knows_bytes_def pages_wf_def page_id_def)
    obtain q where "v k = Some q" using p dom by blast
    have "i \<in> available p" if "i < MERKLE_LEAF_SIZE" for i
    proof -
      have i: "page_id (k + i) = k" "(k + i) mod MERKLE_LEAF_SIZE = i"
        using that k(1) page_id_offset [of k] on_same_page [of k i] by auto
      have "page_byte v (k + i) \<noteq> None"
        using \<open>v k = Some q\<close> assms(3) that i by (auto simp: covers_bytes_def page_byte_def is_fully_available_def)
      then have "page_byte v1 (k + i) \<noteq> None" by (simp add: v1(7))
      with p i show ?thesis by (auto simp: page_byte_def split: if_splits)
    qed
    with k(2) show ?thesis by (auto simp: is_fully_available_def)
  qed
  with v1(2) dom assms(3) show ?thesis by (simp add: covers_bytes_def)
qed

text \<open>The same for the states: here \<open>os\<close> is owned, \<open>a\<close> the prover's on the way to \<open>a'\<close>, and \<open>b\<close> the verifier's.\<close>

lemma cells_covered:
  assumes "alloc_rel tracks_cells tracks_bytes os a" "alloc_rel knows_cells knows_bytes a b"
    and "alloc_rel grows_cells grows_bytes a1 a'" "alloc_rel covers_cells covers_bytes a' b"
    and "on_cells h path os = Value u" "on_cells f path a = Value (x, a1)"
    and step: "\<And>n ro r r1 r' v y. tracks_cells n ro r \<Longrightarrow> knows_cells n r v \<Longrightarrow> h n ro = Value y \<Longrightarrow> f n r = Value (x, r1) \<Longrightarrow>
      grows_cells n r1 r' \<Longrightarrow> covers_cells n r' v \<Longrightarrow> \<exists>v1. g n v = Value (x, v1) \<and> covers_cells n r' v1"
  shows "\<exists>b1. on_cells g path b = Value (x, b1) \<and> alloc_rel covers_cells covers_bytes a' b1"
proof -
  from assms(5) obtain n ro y where o: "cells_at path os = Some (n, ro)" "h n ro = Value y"
    by (auto simp: on_cells_eq access_bind_eq_Value split: option.splits)
  obtain r where r: "cells_at path a = Some (n, r)" "tracks_cells n ro r" using alloc_rel_cells_at [OF assms(1) o(1)] by blast
  with assms(6) obtain r1 where r1: "f n r = Value (x, r1)" "a1 = put_cells path r1 a"
    by (auto simp: on_cells_eq access_bind_eq_Value)
  obtain v where v: "cells_at path b = Some (n, v)" "knows_cells n r v" using alloc_rel_cells_at [OF assms(2) r(1)] by blast
  obtain r' where r': "cells_at path a' = Some (n, r')" "grows_cells n r1 r'"
    using alloc_rel_cells_at [OF assms(3), of path n r1] cells_at_put [OF r(1)] r1 by auto
  have "covers_cells n r' v" using alloc_rel_cells_at [OF assms(4) r'(1)] v(1) by auto
  from step [OF r(2) v(2) o(2) r1(1) r'(2) this] obtain v1 where v1: "g n v = Value (x, v1)" "covers_cells n r' v1" by blast
  with alloc_rel_put_cells [OF assms(4) r'(1), of r' v1] v show ?thesis
    by (simp add: on_cells_eq put_cells_same [OF r'(1)])
qed

lemma dyn_covered:
  assumes "alloc_rel knows_cells knows_bytes a b"
    and "alloc_rel grows_cells grows_bytes a1 a'" "alloc_rel covers_cells covers_bytes a' b"
    and "on_dyn f path a = Value (x, a1)"
    and step: "\<And>n r r1 r' v. knows_bytes n r v \<Longrightarrow> f n r = Value (x, r1) \<Longrightarrow>
      grows_bytes n r1 r' \<Longrightarrow> covers_bytes n r' v \<Longrightarrow> \<exists>v1. g n v = Value (x, v1) \<and> covers_bytes n r' v1"
  shows "\<exists>b1. on_dyn g path b = Value (x, b1) \<and> alloc_rel covers_cells covers_bytes a' b1"
proof -
  from assms(4) obtain n r r1 where r: "dyn_at path a = Some (n, r)" "f n r = Value (x, r1)" "a1 = put_dyn path r1 a"
    by (auto simp: on_dyn_eq access_bind_eq_Value split: option.splits)
  obtain v where v: "dyn_at path b = Some (n, v)" "knows_bytes n r v" using alloc_rel_dyn_at [OF assms(1) r(1)] by blast
  obtain r' where r': "dyn_at path a' = Some (n, r')" "grows_bytes n r1 r'"
    using alloc_rel_dyn_at [OF assms(2), of path n r1] dyn_at_put [OF r(1)] r by auto
  have "covers_bytes n r' v" using alloc_rel_dyn_at [OF assms(3) r'(1)] v(1) by auto
  from step [OF v(2) r(2) r'(2) this] obtain v1 where v1: "g n v = Value (x, v1)" "covers_bytes n r' v1" by blast
  with alloc_rel_put_dyn [OF assms(3) r'(1), of r' v1] v show ?thesis
    by (simp add: on_dyn_eq put_dyn_same [OF r'(1)])
qed

lemma operations_covered:
  assumes "alloc_rel tracks_cells tracks_bytes os a" "alloc_rel knows_cells knows_bytes a b"
    and "alloc_rel grows_cells grows_bytes a1 a'" "alloc_rel covers_cells covers_bytes a' b"
  shows "cell_read owned path i os = Value u \<Longrightarrow> cell_read proof_gen path i a = Value (v, a1) \<Longrightarrow>
      \<exists>b1. cell_read verifier path i b = Value (v, b1) \<and> alloc_rel covers_cells covers_bytes a' b1"
    and "cell_write owned path i w os = Value u' \<Longrightarrow> cell_write proof_gen path i w a = Value ((), a1) \<Longrightarrow>
      \<exists>b1. cell_write verifier path i w b = Value ((), b1) \<and> alloc_rel covers_cells covers_bytes a' b1"
    and "dyn_cells_read proof_gen path address k a = Value (bs, a1) \<Longrightarrow>
      \<exists>b1. dyn_cells_read verifier path address k b = Value (bs, b1) \<and> alloc_rel covers_cells covers_bytes a' b1"
    and "dyn_cells_write proof_gen path address xs a = Value ((), a1) \<Longrightarrow>
      \<exists>b1. dyn_cells_write verifier path address xs b = Value ((), b1) \<and> alloc_rel covers_cells covers_bytes a' b1"
  unfolding cell_read_def cell_write_def dyn_cells_read_def dyn_cells_write_def
     apply (erule (1) cells_covered [OF assms])
     apply (auto simp: owned_def proof_gen_def verifier_def owned_region_read_def tracks_length
        intro: covered_read split: if_splits) [1]
    apply (erule (1) cells_covered [OF assms])
    apply (auto simp: owned_def proof_gen_def verifier_def owned_region_write_def tracks_length
        access_bind_eq_Value dest: covered_write split: if_splits) [1]
   apply (erule dyn_covered [OF assms(2-)])
   apply (auto simp: proof_gen_def verifier_def intro: covered_dyn_read) [1]
  apply (erule dyn_covered [OF assms(2-)])
  apply (auto simp: proof_gen_def verifier_def access_bind_eq_Value dest: covered_dyn_write)
  done

lemma run_covered:
  "run owned p os = Value (x, os') \<Longrightarrow> run proof_gen p a = Value (x, a') \<Longrightarrow>
   alloc_rel tracks_cells tracks_bytes os a \<Longrightarrow> alloc_rel knows_cells knows_bytes a b \<Longrightarrow>
   alloc_rel covers_cells covers_bytes a' b \<Longrightarrow>
     \<exists>b'. run verifier p b = Value (x, b') \<and> alloc_rel covers_cells covers_bytes a' b'"
proof (induction p arbitrary: os a b)
  case (ReadCell path i k)
  from ReadCell.prems(1,2) obtain v o1 w a1 where s:
    "cell_read owned path i os = Value (v, o1)" "run owned (k v) o1 = Value (x, os')"
    "cell_read proof_gen path i a = Value (w, a1)" "run proof_gen (k w) a1 = Value (x, a')"
    by (auto simp: access_bind_eq_Value)
  then have o: "v = w" "alloc_rel tracks_cells tracks_bytes o1 a1"
    using recording.operations_agree(1) [OF ReadCell.prems(3)] by blast+
  from operations_covered(1) [OF ReadCell.prems(3,4) run_grows [OF s(4)] ReadCell.prems(5) s(1,3)]
  obtain b1 where b: "cell_read verifier path i b = Value (w, b1)" "alloc_rel covers_cells covers_bytes a' b1" by blast
  then have "alloc_rel knows_cells knows_bytes a1 b1"
    using verifying.operations_agree(1) [OF ReadCell.prems(4) s(3)] by blast
  with ReadCell.IH [of "k v" o1 a1 b1] o b s show ?case by simp
next
  case (WriteCell path i v p)
  from WriteCell.prems(1,2) obtain o1 a1 where s:
    "cell_write owned path i v os = Value ((), o1)" "run owned p o1 = Value (x, os')"
    "cell_write proof_gen path i v a = Value ((), a1)" "run proof_gen p a1 = Value (x, a')"
    by (auto simp: access_bind_eq_Value)
  then have o: "alloc_rel tracks_cells tracks_bytes o1 a1"
    using recording.operations_agree(2) [OF WriteCell.prems(3)] by blast
  from operations_covered(2) [OF WriteCell.prems(3,4) run_grows [OF s(4)] WriteCell.prems(5) s(1,3)]
  obtain b1 where b: "cell_write verifier path i v b = Value ((), b1)" "alloc_rel covers_cells covers_bytes a' b1" by blast
  then have "alloc_rel knows_cells knows_bytes a1 b1"
    using verifying.operations_agree(2) [OF WriteCell.prems(4) s(3)] by blast
  with WriteCell.IH [of o1 a1 b1] o b s show ?case by simp
next
  case (ReadBytes path address n k)
  from ReadBytes.prems(1,2) obtain v o1 w a1 where s:
    "dyn_cells_read owned path address n os = Value (v, o1)" "run owned (k v) o1 = Value (x, os')"
    "dyn_cells_read proof_gen path address n a = Value (w, a1)" "run proof_gen (k w) a1 = Value (x, a')"
    by (auto simp: access_bind_eq_Value)
  then have o: "v = w" "alloc_rel tracks_cells tracks_bytes o1 a1"
    using recording.operations_agree(3) [OF ReadBytes.prems(3)] by blast+
  from operations_covered(3) [OF ReadBytes.prems(3,4) run_grows [OF s(4)] ReadBytes.prems(5) s(3)]
  obtain b1 where b: "dyn_cells_read verifier path address n b = Value (w, b1)" "alloc_rel covers_cells covers_bytes a' b1" by blast
  then have "alloc_rel knows_cells knows_bytes a1 b1"
    using verifying.operations_agree(3) [OF ReadBytes.prems(4) s(3)] by blast
  with ReadBytes.IH [of "k v" o1 a1 b1] o b s show ?case by simp
next
  case (WriteBytes path address bs p)
  from WriteBytes.prems(1,2) obtain o1 a1 where s:
    "dyn_cells_write owned path address bs os = Value ((), o1)" "run owned p o1 = Value (x, os')"
    "dyn_cells_write proof_gen path address bs a = Value ((), a1)" "run proof_gen p a1 = Value (x, a')"
    by (auto simp: access_bind_eq_Value)
  then have o: "alloc_rel tracks_cells tracks_bytes o1 a1"
    using recording.operations_agree(4) [OF WriteBytes.prems(3)] by blast
  from operations_covered(4) [OF WriteBytes.prems(3,4) run_grows [OF s(4)] WriteBytes.prems(5) s(3)]
  obtain b1 where b: "dyn_cells_write verifier path address bs b = Value ((), b1)" "alloc_rel covers_cells covers_bytes a' b1" by blast
  then have "alloc_rel knows_cells knows_bytes a1 b1"
    using verifying.operations_agree(4) [OF WriteBytes.prems(4) s(3)] by blast
  with WriteBytes.IH [of o1 a1 b1] o b s show ?case by simp
qed simp

end
