(* ===== verification/Merkle_Correct.thy ===== *)
theory Merkle_Correct
  imports Merkle
begin

text \<open>
  Correctness of the Merkle trees. Compression yields exactly the smallest partial tree that still
  shows every accessed leaf. Both writers cut what they are given into leaves, however the bytes
  arrive, through the shared interface \<open>buffered_writer\<close>; the tree built from the leaves has as its
  root the hash that is computed without building a tree.
\<close>

section \<open>Compression\<close>

text \<open>Every hash of the tree is the one its data or its children give.\<close>

fun hashes_valid :: "(bytes \<Rightarrow> bytes) \<Rightarrow> merkle_tree \<Rightarrow> bool" where
  "hashes_valid digest (MLeaf hash _ data) = (hash = digest data)"
| "hashes_valid digest (MNode hash children) =
     (hash = digest (concat (map root_hash children)) \<and> list_all (hashes_valid digest) children)"

text \<open>A subtree that has to be shown: it has an accessed leaf, or a node without children.\<close>

fun touched :: "merkle_tree \<Rightarrow> bool" where
  "touched (MLeaf _ access_info _) = access_info"
| "touched (MNode _ children) = (children = [] \<or> list_ex touched children)"

text \<open>The partial tree that hides what is not touched and shows the data of the accessed leaves.\<close>

fun partial_tree :: "merkle_tree \<Rightarrow> merkle_proof" where
  "partial_tree (MLeaf hash access_info data) = Leaf (if access_info then Read data else Blind hash)"
| "partial_tree (MNode hash children) =
     (if touched (MNode hash children) then Node (map partial_tree children) else Leaf (Blind hash))"

text \<open>The compressed tree, by structural recursion.\<close>

fun compressed :: "merkle_tree \<Rightarrow> compressed_merkle_tree" where
  "compressed (MLeaf hash access_info data) = CLeaf hash (from_access_info access_info data)"
| "compressed (MNode hash children) =
     (if touched (MNode hash children) then CNode hash (map compressed children) else CLeaf hash NoAccess)"

lemma reduce_same_eq:
  "reduce_same cs = Some x \<longleftrightarrow> cs \<noteq> [] \<and> list_all (\<lambda>c. c = Some x) cs"
proof (cases cs)
  case Nil
  then show ?thesis by (simp add: reduce_same_def)
next
  case (Cons c rest)
  have "foldl (\<lambda>a b. case a of None \<Rightarrow> None | Some x \<Rightarrow> if a = b then Some x else None) c rest = Some x \<longleftrightarrow>
          c = Some x \<and> list_all (\<lambda>c. c = Some x) rest"
    by (induction rest arbitrary: c) (auto split: option.splits)
  with Cons show ?thesis by (simp add: reduce_same_def)
qed

lemma child_compression_compressed:
  "child_compression (compressed t) = (root_hash t, if touched t then None else Some NoAccess)"
  by (cases t) (auto simp: child_compression_def from_access_info_def)

lemma compress_collect_compressed:
  assumes "digest_ok digest" and "hash = digest (concat (map root_hash children))"
  shows "compress_collect digest hash (map compressed children) s = Inr (compressed (MNode hash children), s)"
proof -
  have "reduce_same (map (snd \<circ> child_compression) (map compressed children)) =
          (if touched (MNode hash children) then None else Some NoAccess)"
  proof (cases "touched (MNode hash children)")
    case True
    have "reduce_same (map (snd \<circ> child_compression) (map compressed children)) \<noteq> Some x" for x
      using True by (auto simp: reduce_same_eq list.pred_set list_ex_iff child_compression_compressed)
    with True show ?thesis by (metis not_Some_eq)
  next
    case False
    then have "reduce_same (map (snd \<circ> child_compression) (map compressed children)) = Some NoAccess"
      by (auto simp: reduce_same_eq list.pred_set list_ex_iff child_compression_compressed)
    with False show ?thesis by simp
  qed
  moreover have "map (fst \<circ> child_compression) (map compressed children) = map root_hash children"
    by (simp add: child_compression_compressed)
  ultimately show ?thesis
    using assms by (simp add: compress_collect_def Let_def del: map_map)
qed

lemma visits_compressed:
  assumes "digest_ok digest" and "hashes_valid digest t"
  shows "visits compress_modify compress_leaf (compress_collect digest) compressed_from t s (Inr (compressed t, s))"
  using assms(2)
proof (induction t arbitrary: s)
  case (MLeaf hash access_info data)
  show ?case
    using visits_leaf [of compress_modify "MLeaf hash access_info data" s "(hash, access_info, data)" s
        compress_leaf "compress_collect digest" compressed_from]
    by simp
next
  case (MNode hash children)
  have "visits compress_modify compress_leaf (compress_collect digest) compressed_from (MNode hash children) s
          (try_bind (try_map (\<lambda>t s. Inr (compressed t, s)) children s)
             (\<lambda>(xs, s2). compress_collect digest hash xs s2))"
    by (rule visits_node_try_map [where h = "\<lambda>t. t"]) (use MNode in \<open>auto simp: list.pred_set\<close>)
  then show ?case
    using MNode.prems assms(1) by (simp add: compress_collect_compressed del: compressed.simps)
qed

lemma visits_partial_tree:
  "visits proof_modify proof_leaf (\<lambda>_ children s. Inr (Node children, s)) Leaf (compressed t) s
     (Inr (partial_tree t, s))"
proof (induction t arbitrary: s)
  case (MLeaf hash access_info data)
  show ?case
    using visits_leaf [of proof_modify "compressed (MLeaf hash access_info data)" s
        "(hash, from_access_info access_info data)" s proof_leaf "\<lambda>_ children s. Inr (Node children, s)" Leaf]
    by (cases access_info) (simp_all add: from_access_info_def)
next
  case (MNode hash children)
  show ?case
  proof (cases "touched (MNode hash children)")
    case True
    then have "visits proof_modify proof_leaf (\<lambda>_ children s. Inr (Node children, s)) Leaf
        (compressed (MNode hash children)) s
        (try_bind (try_map (\<lambda>t s. Inr (partial_tree t, s)) children s) (\<lambda>(xs, s2). Inr (Node xs, s2)))"
      by (intro visits_node_try_map [where d = "()" and h = compressed]) (use MNode in auto)
    with True show ?thesis by simp
  next
    case False
    then show ?thesis
      using visits_leaf [of proof_modify "compressed (MNode hash children)" s "(hash, NoAccess)" s
          proof_leaf "\<lambda>_ children s. Inr (Node children, s)" Leaf]
      by simp
  qed
qed

lemma compress_eq:
  "digest_ok digest \<Longrightarrow> hashes_valid digest t \<Longrightarrow> compress digest t = Some (Okay (compressed t, ()))"
  unfolding compress_def
  by (subst impl_modify_map_collect_visits [OF visits_compressed]) simp_all

lemma merkle_proof_from_compressed: "merkle_proof_from (compressed t) = Some (Okay (partial_tree t, ()))"
  unfolding merkle_proof_from_def
  by (subst impl_modify_map_collect_visits [OF visits_partial_tree]) simp

lemma to_merkle_proof_eq:
  "digest_ok digest \<Longrightarrow> hashes_valid digest t \<Longrightarrow> to_merkle_proof digest t = Some (Okay (partial_tree t))"
  by (simp add: to_merkle_proof_def compress_eq merkle_proof_from_compressed)

section \<open>Writers\<close>

text \<open>The full chunks at the front of a list, and what is left.\<close>

function full_chunks :: "nat \<Rightarrow> 'a list \<Rightarrow> 'a list list" where
  "full_chunks n xs = (if n = 0 \<or> length xs < n then [] else take n xs # full_chunks n (drop n xs))"
  by pat_completeness auto
termination
  by (relation "measure (\<lambda>(n, xs). length xs)") auto

function rest_chunk :: "nat \<Rightarrow> 'a list \<Rightarrow> 'a list" where
  "rest_chunk n xs = (if n = 0 \<or> length xs < n then xs else rest_chunk n (drop n xs))"
  by pat_completeness auto
termination
  by (relation "measure (\<lambda>(n, xs). length xs)") auto

declare full_chunks.simps [simp del] rest_chunk.simps [simp del]

lemma chunks_short: "length xs < n \<Longrightarrow> full_chunks n xs = [] \<and> rest_chunk n xs = xs"
  by (simp add: full_chunks.simps rest_chunk.simps)

lemma chunks_long:
  "0 < n \<Longrightarrow> n \<le> length xs \<Longrightarrow>
     full_chunks n xs = take n xs # full_chunks n (drop n xs) \<and> rest_chunk n xs = rest_chunk n (drop n xs)"
  by (simp add: full_chunks.simps [of n xs] rest_chunk.simps [of n xs])

lemma length_rest_chunk: "0 < n \<Longrightarrow> length (rest_chunk n xs) < n"
  by (induction n xs rule: rest_chunk.induct) (simp add: rest_chunk.simps not_less)

lemma chunks_eq_full:
  "0 < n \<Longrightarrow> leaf_chunks n xs = full_chunks n xs @ (if rest_chunk n xs = [] then [] else [rest_chunk n xs])"
proof (induction n xs rule: full_chunks.induct)
  case (1 n xs)
  show ?case
  proof (cases "length xs < n")
    case True
    with 1 show ?thesis by (cases "xs = []") (simp_all add: chunks_short chunks_Cons)
  next
    case False
    with 1 have "xs \<noteq> []" by auto
    with 1 False show ?thesis by (simp add: chunks_long [of n xs] chunks_Cons [of n xs])
  qed
qed

lemma chunks_append:
  "0 < n \<Longrightarrow> full_chunks n (xs @ ys) = full_chunks n xs @ full_chunks n (rest_chunk n xs @ ys) \<and>
            rest_chunk n (xs @ ys) = rest_chunk n (rest_chunk n xs @ ys)"
proof (induction n xs rule: full_chunks.induct)
  case (1 n xs)
  show ?case
  proof (cases "length xs < n")
    case True
    then show ?thesis by (simp add: chunks_short)
  next
    case False
    with 1 have "full_chunks n (drop n xs @ ys) = full_chunks n (drop n xs) @ full_chunks n (rest_chunk n (drop n xs) @ ys) \<and>
        rest_chunk n (drop n xs @ ys) = rest_chunk n (rest_chunk n (drop n xs) @ ys)"
      by auto
    with 1 False show ?thesis
      using chunks_long [of n xs] chunks_long [of n "xs @ ys"] by simp
  qed
qed

text \<open>The leaves that chunks become, from index \<open>k\<close> on.\<close>

fun leaves_from :: "(nat \<Rightarrow> bytes \<Rightarrow> 'r) \<Rightarrow> nat \<Rightarrow> bytes list \<Rightarrow> 'r list" where
  "leaves_from f k [] = []"
| "leaves_from f k (bs # bss) = f k bs # leaves_from f (Suc k) bss"

lemma leaves_from_append: "leaves_from f k (as @ bs) = leaves_from f k as @ leaves_from f (k + length as) bs"
  by (induction as arbitrary: k) auto

lemma length_leaves_from [simp]: "length (leaves_from f k bss) = length bss"
  by (induction bss arbitrary: k) auto

lemma leaves_from_const: "leaves_from (\<lambda>k. f) i bss = map f bss"
  by (induction bss arbitrary: i) auto

lemma map_leaves_from: "map g (leaves_from f i bss) = leaves_from (\<lambda>k b. g (f k b)) i bss"
  by (induction bss arbitrary: i) auto

text \<open>
  A writer with a buffer: \<open>put w ls b\<close> is \<open>w\<close> with finished leaves \<open>ls\<close> and buffer \<open>b\<close>, and
  \<open>leaf w k b\<close> is what a buffer \<open>b\<close> becomes as the leaf with index \<open>k\<close>.
\<close>

locale buffered_writer =
  fixes width :: "'w \<Rightarrow> nat" and buffered :: "'w \<Rightarrow> bytes" and leaves :: "'w \<Rightarrow> 'l list"
    and put :: "'w \<Rightarrow> 'l list \<Rightarrow> bytes \<Rightarrow> 'w" and leaf :: "'w \<Rightarrow> nat \<Rightarrow> bytes \<Rightarrow> hash_error + 'l"
    and flush :: "'w \<Rightarrow> hash_error + 'w" and emit :: "'w \<Rightarrow> bytes \<Rightarrow> (hash_error + 'w) option"
  assumes put_width: "width (put w ls b) = width w"
    and put_buffered: "buffered (put w ls b) = b"
    and put_leaves: "leaves (put w ls b) = ls"
    and put_put: "put (put w ls b) ls' b' = put w ls' b'"
    and put_same: "put w (leaves w) (buffered w) = w"
    and put_leaf: "leaf (put w ls b) = leaf w"
    and flush_leaf: "flush w = try_bind (leaf w (length (leaves w)) (buffered w)) (\<lambda>l. Inr (put w (leaves w @ [l]) []))"
    and emit_Nil: "emit w [] = Some (Inr w)"
    and emit_more: "buf \<noteq> [] \<Longrightarrow> emit w buf =
      (let free = width w - length (buffered w);
           n = min free (length buf);
           w1 = put w (leaves w) (buffered w @ take n buf)
       in if free = n then (case flush w1 of Inl _ \<Rightarrow> Some (Inl IoError) | Inr w2 \<Rightarrow> emit w2 (drop n buf))
          else emit w1 (drop n buf))"
begin

text \<open>However the bytes arrive, the full chunks become leaves and the rest stays in the buffer.\<close>

lemma emit_chunks:
  assumes "0 < width w" and "length (buffered w) < width w"
  shows "emit w buf =
    Some (case try_collect (leaves_from (leaf w) (length (leaves w)) (full_chunks (width w) (buffered w @ buf))) of
            Inl _ \<Rightarrow> Inl IoError
          | Inr ls \<Rightarrow> Inr (put w (leaves w @ ls) (rest_chunk (width w) (buffered w @ buf))))"
  using assms
proof (induction "length buf" arbitrary: buf w rule: less_induct)
  case less
  let ?n = "width w" and ?b = "buffered w"
  show ?case
  proof (cases "buf = []")
    case True
    with less.prems show ?thesis
      by (simp add: emit_Nil chunks_short put_same)
  next
    case nonempty: False
    show ?thesis
    proof (cases "length ?b + length buf < ?n")
      case True
      then have "min (?n - length ?b) (length buf) = length buf" "?n - length ?b \<noteq> length buf" by simp_all
      with True nonempty show ?thesis
        by (simp add: emit_more Let_def chunks_short emit_Nil)
    next
      case False
      let ?k = "?n - length ?b"
      let ?w1 = "put w (leaves w) (?b @ take ?k buf)"
      from False less.prems have k: "?k \<le> length buf" "0 < ?k" by simp_all
      have chunk: "take ?n (?b @ buf) = ?b @ take ?k buf" "drop ?n (?b @ buf) = drop ?k buf"
        using less.prems by simp_all
      have long: "full_chunks ?n (?b @ buf) = (?b @ take ?k buf) # full_chunks ?n (drop ?k buf)"
        "rest_chunk ?n (?b @ buf) = rest_chunk ?n (drop ?k buf)"
        using chunks_long [of ?n "?b @ buf"] less.prems False chunk by simp_all
      have step: "emit w buf = (case flush ?w1 of Inl _ \<Rightarrow> Some (Inl IoError) | Inr w2 \<Rightarrow> emit w2 (drop ?k buf))"
        using nonempty k by (simp add: emit_more Let_def min_def)
      show ?thesis
      proof (cases "leaf w (length (leaves w)) (?b @ take ?k buf)")
        case (Inl e)
        with step long show ?thesis
          by (simp add: flush_leaf put_leaf put_leaves put_buffered)
      next
        case (Inr l)
        let ?w2 = "put w (leaves w @ [l]) []"
        have "emit w buf = emit ?w2 (drop ?k buf)"
          using step Inr by (simp add: flush_leaf put_leaf put_leaves put_buffered put_put)
        also have "\<dots> = Some (case try_collect (leaves_from (leaf ?w2) (length (leaves ?w2)) (full_chunks (width ?w2) (buffered ?w2 @ drop ?k buf))) of
            Inl _ \<Rightarrow> Inl IoError
          | Inr ls \<Rightarrow> Inr (put ?w2 (leaves ?w2 @ ls) (rest_chunk (width ?w2) (buffered ?w2 @ drop ?k buf))))"
          by (rule less.hyps) (use k less.prems nonempty in \<open>auto simp: put_width put_buffered\<close>)
        finally show ?thesis
          using Inr long
          by (auto simp: put_width put_buffered put_leaves put_put put_leaf try_bind_def split: sum.splits)
      qed
    qed
  qed
qed

lemma emit_append:
  assumes "0 < width w" and "length (buffered w) < width w"
  shows "emit w (b1 @ b2) =
    Option.bind (emit w b1) (\<lambda>r. case r of Inl e \<Rightarrow> Some (Inl e) | Inr w1 \<Rightarrow> emit w1 b2)"
proof -
  let ?n = "width w" and ?b = "buffered w"
  let ?fst = "try_collect (leaves_from (leaf w) (length (leaves w)) (full_chunks ?n (?b @ b1)))"
  note all = emit_chunks [OF assms, of "b1 @ b2"] and one = emit_chunks [OF assms, of b1]
  have app: "full_chunks ?n (?b @ b1 @ b2) = full_chunks ?n (?b @ b1) @ full_chunks ?n (rest_chunk ?n (?b @ b1) @ b2)"
    "rest_chunk ?n (?b @ b1 @ b2) = rest_chunk ?n (rest_chunk ?n (?b @ b1) @ b2)"
    using chunks_append [OF assms(1), of "?b @ b1" b2] by simp_all
  show ?thesis
  proof (cases ?fst)
    case (Inl e)
    with all one app show ?thesis by (simp add: leaves_from_append try_collect_append)
  next
    case (Inr ls)
    then have len: "length ls = length (full_chunks ?n (?b @ b1))"
      by (auto simp: try_collect_eq_Inr dest: arg_cong [where f = length])
    let ?w1 = "put w (leaves w @ ls) (rest_chunk ?n (?b @ b1))"
    have "emit ?w1 b2 =
      Some (case try_collect (leaves_from (leaf w) (length (leaves w) + length ls) (full_chunks ?n (rest_chunk ?n (?b @ b1) @ b2))) of
            Inl _ \<Rightarrow> Inl IoError
          | Inr ls' \<Rightarrow> Inr (put w (leaves w @ ls @ ls') (rest_chunk ?n (rest_chunk ?n (?b @ b1) @ b2))))"
      using emit_chunks [of ?w1 b2] assms
      by (auto simp: put_width put_buffered put_leaves put_put put_leaf length_rest_chunk split: sum.split)
    with Inr all one app len show ?thesis
      by (auto simp: leaves_from_append try_collect_append try_bind_def split: sum.splits)
  qed
qed

lemma emit_keeps:
  assumes "0 < width w" and "length (buffered w) < width w" and "emit w b = Some (Inr w1)"
  shows "width w1 = width w" and "length (buffered w1) < width w1"
proof -
  obtain ls where "w1 = put w ls (rest_chunk (width w) (buffered w @ b))"
    using assms emit_chunks [OF assms(1,2), of b] by (auto split: sum.splits)
  with assms(1) show "width w1 = width w" "length (buffered w1) < width w1"
    by (simp_all add: put_width put_buffered length_rest_chunk)
qed

lemma chunks_loop_emit:
  assumes "\<And>a. a + MERKLE_LEAF_SIZE \<le> length bs \<Longrightarrow> read a = take MERKLE_LEAF_SIZE (drop a bs)"
    and "0 < width w" and "length (buffered w) < width w" and "address \<le> length bs"
  shows "chunks_loop emit (length bs) read address w =
    Option.bind (emit w (take ((length bs - address) div MERKLE_LEAF_SIZE * MERKLE_LEAF_SIZE) (drop address bs)))
      (\<lambda>r. case r of Inl e \<Rightarrow> Some (Inl e)
          | Inr w1 \<Rightarrow> Some (Inr (address + (length bs - address) div MERKLE_LEAF_SIZE * MERKLE_LEAF_SIZE, w1)))"
  using assms(2-4)
proof (induction "length bs - address" arbitrary: address w rule: less_induct)
  case less
  let ?L = MERKLE_LEAF_SIZE
  have L: "0 < ?L" by (simp add: MERKLE_LEAF_SIZE_def)
  show ?case
  proof (cases "address + ?L \<le> length bs")
    case False
    then have "(length bs - address) div ?L = 0" using L by (intro div_less) linarith
    with False less.prems show ?thesis by (simp add: chunks_loop.simps emit_Nil)
  next
    case True
    let ?q = "(length bs - (address + ?L)) div ?L * ?L"
    have split: "(length bs - address) div ?L * ?L = ?L + ?q"
      using True L by (simp add: le_div_geq)
    have parts: "take (?L + ?q) (drop address bs) = read address @ take ?q (drop (address + ?L) bs)"
      using True assms(1) by (simp add: take_add add.commute)
    show ?thesis
    proof (cases "emit w (read address)")
      case None
      then show ?thesis using less.prems emit_chunks by simp
    next
      case (Some r)
      show ?thesis
      proof (cases r)
        case (Inl e)
        with Some True less.prems show ?thesis
          unfolding split parts by (simp add: chunks_loop.simps [of _ _ _ address] emit_append)
      next
        case (Inr w1)
        note kept = emit_keeps [OF less.prems(1,2) Some [unfolded Inr]]
        have "chunks_loop emit (length bs) read (address + ?L) w1 =
          Option.bind (emit w1 (take ?q (drop (address + ?L) bs)))
            (\<lambda>r. case r of Inl e \<Rightarrow> Some (Inl e) | Inr w1 \<Rightarrow> Some (Inr (address + ?L + ?q, w1)))"
          by (rule less.hyps) (use True L kept less.prems in auto)
        with Some Inr True less.prems show ?thesis
          unfolding split parts
          by (simp add: chunks_loop.simps [of _ _ _ address] emit_append add.assoc)
      qed
    qed
  qed
qed

text \<open>The whole region is written, in order and once, also when its size is not a multiple of a leaf's.\<close>

lemma chunks_to_writer_emit:
  assumes read: "\<And>a. a + MERKLE_LEAF_SIZE \<le> length bs \<Longrightarrow> read a = take MERKLE_LEAF_SIZE (drop a bs)"
    and w: "0 < width w" "length (buffered w) < width w"
    and len: "MERKLE_LEAF_SIZE \<le> length bs"
  shows "chunks_to_writer emit (length bs) read w = map_option outcome_of (emit w bs)"
proof -
  let ?L = MERKLE_LEAF_SIZE
  let ?q = "length bs div ?L * ?L"
  have q: "?q \<le> length bs" "length bs - ?q < ?L"
    by (simp_all add: MERKLE_LEAF_SIZE_def minus_div_mult_eq_mod)
  have loop: "chunks_loop emit (length bs) read 0 w =
      Option.bind (emit w (take ?q bs)) (\<lambda>r. case r of Inl e \<Rightarrow> Some (Inl e) | Inr w1 \<Rightarrow> Some (Inr (?q, w1)))"
    using chunks_loop_emit [of bs read w 0] read w by simp
  have tail: "drop (?q + ?L - length bs) (read (length bs - ?L)) = drop ?q bs"
    using q len by (simp add: read drop_take)
  have "length (read (length bs - ?L)) = ?L" using len by (simp add: read)
  then have enough: "\<not> length (read (length bs - ?L)) < ?q + ?L - length bs" using q by linarith
  have all: "emit w bs = Option.bind (emit w (take ?q bs))
      (\<lambda>r. case r of Inl e \<Rightarrow> Some (Inl e) | Inr w1 \<Rightarrow> emit w1 (drop ?q bs))"
    using emit_append [OF w, of "take ?q bs" "drop ?q bs"] by simp
  show ?thesis
  proof (cases "emit w (take ?q bs)")
    case None
    then show ?thesis using w emit_chunks by simp
  next
    case (Some r)
    then show ?thesis
      using loop tail enough all len
      by (cases r) (auto simp: chunks_to_writer_def Let_def emit_Nil simp del: length_drop)
  qed
qed

end

interpretation hashes: buffered_writer hw_size hw_buffer hw_hashes
  "\<lambda>w ls b. w\<lparr>hw_hashes := ls, hw_buffer := b\<rparr>" "\<lambda>w k b. blake2b_hash_bytes digest b"
  "hash_writer_flush_buffer digest" "hash_writer_write digest" for digest
  by unfold_locales
     (auto simp: hash_writer_flush_buffer_def hash_writer_write.simps [of digest] Let_def)

definition writer_leaf :: "(bytes \<Rightarrow> bytes) \<Rightarrow> merkle_writer \<Rightarrow> nat \<Rightarrow> bytes \<Rightarrow> hash_error + merkle_tree" where
  "writer_leaf digest w k b =
     (let pos = k * mw_leaf_size w
      in make_merkle_leaf digest b
           (includes_range (mw_read_log w) pos (pos + mw_leaf_size w) \<or>
            includes_range (mw_write_log w) pos (pos + mw_leaf_size w)))"

interpretation merkle: buffered_writer mw_leaf_size mw_buffer mw_leaves
  "\<lambda>w ls b. w\<lparr>mw_leaves := ls, mw_buffer := b\<rparr>" "writer_leaf digest"
  "merkle_writer_flush_buffer digest" "merkle_writer_write digest" for digest
  by unfold_locales
     (auto simp: merkle_writer_flush_buffer_def writer_leaf_def merkle_writer_write.simps [of digest]
        Let_def fun_eq_iff)

section \<open>Building the tree and its root\<close>

text \<open>The levels of the tree as recursion: hashes alone, and trees.\<close>

function hash_root :: "(bytes \<Rightarrow> bytes) \<Rightarrow> nat \<Rightarrow> hash list \<Rightarrow> hash" where
  "hash_root digest arity hs =
     (if arity < 2 \<or> length hs \<le> 1 then hd hs
      else hash_root digest arity (map (\<lambda>c. digest (concat c)) (leaf_chunks arity hs)))"
  by pat_completeness auto
termination
  by (relation "measure (\<lambda>(_, _, hs). length hs)") (auto intro: length_chunks_less)

definition node_of :: "(bytes \<Rightarrow> bytes) \<Rightarrow> merkle_tree list \<Rightarrow> merkle_tree" where
  "node_of digest children = MNode (digest (concat (map root_hash children))) children"

function tree_root :: "(bytes \<Rightarrow> bytes) \<Rightarrow> nat \<Rightarrow> merkle_tree list \<Rightarrow> merkle_tree" where
  "tree_root digest arity ts =
     (if arity < 2 \<or> length ts \<le> 1 then hd ts
      else tree_root digest arity (map (node_of digest) (leaf_chunks arity ts)))"
  by pat_completeness auto
termination
  by (relation "measure (\<lambda>(_, _, ts). length ts)") (auto intro: length_chunks_less)

declare hash_root.simps [simp del] tree_root.simps [simp del]

lemma root_hash_node_of [simp]: "root_hash (node_of digest cs) = digest (concat (map root_hash cs))"
  by (simp add: node_of_def)

lemma make_merkle_node_ok [simp]: "digest_ok digest \<Longrightarrow> make_merkle_node digest cs = Inr (node_of digest cs)"
  by (simp add: make_merkle_node_def node_of_def)

lemma make_merkle_leaf_ok [simp]:
  "digest_ok digest \<Longrightarrow> make_merkle_leaf digest data access = Inr (MLeaf (digest data) access data)"
  by (simp add: make_merkle_leaf_def)

lemma singleton_of_length: "xs \<noteq> [] \<Longrightarrow> length xs \<le> Suc 0 \<Longrightarrow> xs = [hd xs]"
  by (cases xs) auto

lemma try_collect_nodes:
  "digest_ok digest \<Longrightarrow> try_collect (map (combine digest) css) = Inr (map (\<lambda>c. digest (concat c)) css)"
  "digest_ok digest \<Longrightarrow> try_collect (map (make_merkle_node digest) tss) = Inr (map (node_of digest) tss)"
  by (simp_all add: try_collect_map)

lemma merkle_hash_levels_ok:
  assumes "digest_ok digest" and "2 \<le> arity" and "hs \<noteq> []"
  shows "merkle_hash_levels digest arity hs = Some (Inr [hash_root digest arity hs])"
  using assms
proof (induction digest arity hs rule: hash_root.induct)
  case (1 digest arity hs)
  show ?case
  proof (cases "length hs \<le> 1")
    case True
    with 1 singleton_of_length [of hs] show ?thesis
      by (simp add: merkle_hash_levels.simps hash_root.simps)
  next
    case False
    with 1 show ?thesis
      by (simp add: merkle_hash_levels.simps [of digest arity hs] try_collect_nodes hash_root.simps [of digest arity hs])
  qed
qed

lemma merkle_tree_levels_ok:
  assumes "digest_ok digest" and "2 \<le> arity" and "ts \<noteq> []"
  shows "merkle_tree_levels digest arity ts = Some (Okay [tree_root digest arity ts])"
  using assms
proof (induction digest arity ts rule: tree_root.induct)
  case (1 digest arity ts)
  show ?case
  proof (cases "length ts \<le> 1")
    case True
    with 1 singleton_of_length [of ts] show ?thesis
      by (simp add: merkle_tree_levels.simps tree_root.simps)
  next
    case False
    with 1 show ?thesis
      by (simp add: merkle_tree_levels.simps [of digest arity ts] try_collect_nodes tree_root.simps [of digest arity ts])
  qed
qed

lemma build_custom_merkle_hash_ok:
  "digest_ok digest \<Longrightarrow> 2 \<le> arity \<Longrightarrow> hs \<noteq> [] \<Longrightarrow>
     build_custom_merkle_hash digest arity hs = Some (Okay (hash_root digest arity hs))"
  by (simp add: build_custom_merkle_hash_def merkle_hash_levels_ok)

lemma build_custom_merkle_tree_ok:
  "digest_ok digest \<Longrightarrow> 2 \<le> arity \<Longrightarrow> ts \<noteq> [] \<Longrightarrow>
     build_custom_merkle_tree digest arity ts = Some (Okay (tree_root digest arity ts))"
  by (simp add: build_custom_merkle_tree_def merkle_tree_levels_ok)

lemma root_hash_tree_root:
  "ts \<noteq> [] \<Longrightarrow> root_hash (tree_root digest arity ts) = hash_root digest arity (map root_hash ts)"
proof (induction digest arity ts rule: tree_root.induct)
  case (1 digest arity ts)
  show ?case
  proof (cases "arity < 2 \<or> length ts \<le> 1")
    case True
    with 1 show ?thesis by (simp add: tree_root.simps hash_root.simps list.map_sel)
  next
    case False
    have "map root_hash (map (node_of digest) (leaf_chunks arity ts)) =
        map (\<lambda>c. digest (concat c)) (leaf_chunks arity (map root_hash ts))"
      by (simp add: map_chunks [symmetric])
    with 1 False show ?thesis
      by (simp add: tree_root.simps [of digest arity ts] hash_root.simps [of digest arity "map root_hash ts"])
  qed
qed

lemma set_chunks: "c \<in> set (leaf_chunks n xs) \<Longrightarrow> set c \<subseteq> set xs"
proof (induction n xs rule: leaf_chunks.induct)
  case (1 n xs)
  then show ?case
    by (cases "n = 0 \<or> xs = []") (auto simp: leaf_chunks.simps [of n xs] dest: in_set_takeD in_set_dropD)
qed

lemma hashes_valid_tree_root:
  "ts \<noteq> [] \<Longrightarrow> list_all (hashes_valid digest) ts \<Longrightarrow> hashes_valid digest (tree_root digest arity ts)"
proof (induction digest arity ts rule: tree_root.induct)
  case (1 digest arity ts)
  show ?case
  proof (cases "arity < 2 \<or> length ts \<le> 1")
    case True
    with 1 show ?thesis by (cases ts) (simp_all add: tree_root.simps)
  next
    case False
    have "list_all (hashes_valid digest) (map (node_of digest) (leaf_chunks arity ts))"
      using "1.prems"(2) by (fastforce simp: list.pred_set node_of_def dest: set_chunks)
    with 1 False show ?thesis by (simp add: tree_root.simps [of digest arity ts])
  qed
qed

end
