(* ===== verification/State_Commitment.thy ===== *)
theory State_Commitment
  imports State_Layout State_Runs Merkle_Correct
begin

text \<open>
  What the functions of \<^verbatim>\<open>commitment_layout.rs\<close> and \<^verbatim>\<open>ProofLayout::to_merkle_tree\<close> compute: the hash of a
  state as a recursion over its layout, the Merkle tree of a proof-generating state, whose root hash is
  the hash of the state the proof starts from, and the shape of trees whose number of leaves is a power
  of the arity.
\<close>

section \<open>Well-formed states\<close>

text \<open>
  Regions have the length of their layout, values have an encoding, dynamic regions are at least as
  long as a leaf and \<^verbatim>\<open>Many\<close> is not empty.
\<close>

fun state_wf :: "('t \<Rightarrow> 'v \<Rightarrow> bytes option) \<Rightarrow> ('t, 'v) owned_alloc \<Rightarrow> bool" where
  "state_wf enc (Cells t n vs) \<longleftrightarrow> length vs = n \<and> (\<forall>v\<in>set vs. enc t v \<noteq> None)"
| "state_wf enc (DynCells n bs) \<longleftrightarrow> length bs = n \<and> MERKLE_LEAF_SIZE \<le> n"
| "state_wf enc (Parts as) \<longleftrightarrow> list_all (state_wf enc) as"
| "state_wf enc (Many as) \<longleftrightarrow> as \<noteq> [] \<and> list_all (state_wf enc) as"

definition cells_bytes :: "('t \<Rightarrow> 'v \<Rightarrow> bytes option) \<Rightarrow> 't \<Rightarrow> 'v list \<Rightarrow> bytes" where
  "cells_bytes enc t vs = concat (map (\<lambda>v. the (enc t v)) vs)"

lemma serialise_region_eq:
  assumes "length vs = n" and "\<forall>v\<in>set vs. enc t v \<noteq> None"
  shows "serialise_region enc t n vs = Some (cells_bytes enc t vs)"
proof -
  have "all_values (map (enc t) vs) = Some (map (\<lambda>v. the (enc t v)) vs)"
    using assms(2) by (intro all_values_map) auto
  with assms show ?thesis
    by (cases vs rule: list.exhaust) (auto simp: serialise_region_def cells_bytes_def length_Suc_conv)
qed

fun hash_of :: "(bytes \<Rightarrow> bytes) \<Rightarrow> ('t \<Rightarrow> 'v \<Rightarrow> bytes option) \<Rightarrow> ('t, 'v) owned_alloc \<Rightarrow> hash" where
  "hash_of digest enc (Cells t n vs) = digest (cells_bytes enc t vs)"
| "hash_of digest enc (DynCells n bs) = hash_root digest MERKLE_ARITY (map digest (leaf_chunks MERKLE_LEAF_SIZE bs))"
| "hash_of digest enc (Parts as) = digest (concat (map (hash_of digest enc) as))"
| "hash_of digest enc (Many as) = hash_root digest MERKLE_ARITY (map (hash_of digest enc) as)"

section \<open>The hash of a state\<close>

lemma leaves_from_eq_Nil [simp]: "leaves_from f k bss = [] \<longleftrightarrow> bss = []"
  by (cases bss) auto

lemma try_collect_leaves:
  "(\<And>k b. f k b = Inr (g k b)) \<Longrightarrow> try_collect (leaves_from f k bss) = Inr (leaves_from g k bss)"
  by (induction bss arbitrary: k) auto

text \<open>A region written to a hash writer and to a Merkle writer.\<close>

lemma dyn_hashes:
  assumes ok: "digest_ok digest" and len: "MERKLE_LEAF_SIZE \<le> length bs"
    and read: "\<And>a. a + MERKLE_LEAF_SIZE \<le> length bs \<Longrightarrow> read a = take MERKLE_LEAF_SIZE (drop a bs)"
  shows "obind (chunks_to_writer (hash_writer_write digest) (length bs) read (hash_writer_new MERKLE_LEAF_SIZE)) (\<lambda>writer.
       obind (ret (hash_writer_finalise digest writer)) (\<lambda>hashes. build_custom_merkle_hash digest MERKLE_ARITY hashes)) =
     Some (Okay (hash_root digest MERKLE_ARITY (map digest (leaf_chunks MERKLE_LEAF_SIZE bs))))"
proof -
  let ?w = "hash_writer_new MERKLE_LEAF_SIZE"
  have L: "0 < MERKLE_LEAF_SIZE" by (rule leaf_size_pos)
  have w: "0 < hw_size ?w" "length (hw_buffer ?w) < hw_size ?w" using L by (simp_all add: hash_writer_new_def)
  have "hash_writer_write digest ?w bs =
      Some (Inr (?w\<lparr>hw_hashes := map digest (full_chunks MERKLE_LEAF_SIZE bs), hw_buffer := rest_chunk MERKLE_LEAF_SIZE bs\<rparr>))"
    using hashes.emit_chunks [OF w, of digest bs] ok
    by (simp add: hash_writer_new_def leaves_from_const)
  moreover have "full_chunks MERKLE_LEAF_SIZE bs \<noteq> []" using chunks_long [OF L len] by simp
  ultimately show ?thesis
    using hashes.chunks_to_writer_emit [OF read w len, of digest] ok L
    by (auto simp: hash_writer_finalise_def hash_writer_flush_buffer_def chunks_eq_full hash_writer_new_def
        build_custom_merkle_hash_ok MERKLE_ARITY_def)
qed

definition leaf_tree :: "(bytes \<Rightarrow> bytes) \<Rightarrow> dyn_access \<Rightarrow> dyn_access \<Rightarrow> nat \<Rightarrow> bytes \<Rightarrow> merkle_tree" where
  "leaf_tree digest reads changes k b =
     MLeaf (digest b)
       (includes_range reads (k * MERKLE_LEAF_SIZE) (k * MERKLE_LEAF_SIZE + MERKLE_LEAF_SIZE) \<or>
        includes_range changes (k * MERKLE_LEAF_SIZE) (k * MERKLE_LEAF_SIZE + MERKLE_LEAF_SIZE)) b"

lemma dyn_tree:
  assumes ok: "digest_ok digest" and len: "MERKLE_LEAF_SIZE \<le> length bs"
    and read: "\<And>a. a + MERKLE_LEAF_SIZE \<le> length bs \<Longrightarrow> read a = take MERKLE_LEAF_SIZE (drop a bs)"
    and w: "merkle_writer_new MERKLE_LEAF_SIZE MERKLE_ARITY reads changes = Some w"
  shows "obind (chunks_to_writer (merkle_writer_write digest) (length bs) read w) (merkle_writer_finalise digest) =
     Some (Okay (tree_root digest MERKLE_ARITY (leaves_from (leaf_tree digest reads changes) 0 (leaf_chunks MERKLE_LEAF_SIZE bs))))"
proof -
  have L: "0 < MERKLE_LEAF_SIZE" by (rule leaf_size_pos)
  have w': "0 < mw_leaf_size w" "length (mw_buffer w) < mw_leaf_size w"
    using w L by (auto simp: merkle_writer_new_def split: if_splits)
  have leaf: "writer_leaf digest w k b = Inr (leaf_tree digest reads changes k b)" for k b
    using w ok by (auto simp: writer_leaf_def leaf_tree_def merkle_writer_new_def Let_def split: if_splits)
  have "merkle_writer_write digest w bs =
      Some (Inr (w\<lparr>mw_leaves := leaves_from (leaf_tree digest reads changes) 0 (full_chunks MERKLE_LEAF_SIZE bs),
                   mw_buffer := rest_chunk MERKLE_LEAF_SIZE bs\<rparr>))"
    using merkle.emit_chunks [OF w', of digest bs] w
    by (auto simp: try_collect_leaves [of "writer_leaf digest w", OF leaf] merkle_writer_new_def split: if_splits)
  moreover have "full_chunks MERKLE_LEAF_SIZE bs \<noteq> []" using chunks_long [OF L len] by simp
  ultimately show ?thesis
    using merkle.chunks_to_writer_emit [OF read w' len, of digest] ok L w
    by (auto simp: merkle_writer_finalise_def merkle_writer_flush_buffer_def chunks_eq_full leaf_tree_def
        merkle_writer_new_def build_custom_merkle_tree_ok MERKLE_ARITY_def leaves_from_append Let_def
        split: if_splits)
qed

lemma owned_state_hash_eq:
  assumes ok: "digest_ok digest"
  shows "state_wf enc a \<Longrightarrow> owned_state_hash digest enc a = Some (Okay (hash_of digest enc a))"
proof (induction a)
  case (Cells t n vs)
  then show ?case using ok by (simp add: owned_state_hash_def blake2b_hash_def serialise_region_eq)
next
  case (DynCells n bs)
  then show ?case
    using dyn_hashes [OF ok, of bs "owned_leaf n bs"]
    by (simp add: owned_state_hash_def owned_leaf_def owned_dyn_region_read_def)
next
  case (Parts as)
  then have "omap (owned_state_hash digest enc) as = Some (Okay (map (hash_of digest enc) as))"
    by (intro omap_Okay) (auto simp: list.pred_set)
  with ok show ?case by (simp add: owned_state_hash_def)
next
  case (Many as)
  then have "omap (owned_state_hash digest enc) as = Some (Okay (map (hash_of digest enc) as))"
    by (intro omap_Okay) (auto simp: list.pred_set)
  with ok Many show ?case by (simp add: owned_state_hash_def build_custom_merkle_hash_ok MERKLE_ARITY_def)
qed

text \<open>The proof-generating backend hashes the state as it is after the writes.\<close>

abbreviation source_state :: "('t, 'v) proof_alloc \<Rightarrow> ('t, 'v) owned_alloc" where
  "source_state \<equiv> map_alloc (\<lambda>t. t) pr_source pd_source"

abbreviation current_state :: "('t, 'v) proof_alloc \<Rightarrow> ('t, 'v) owned_alloc" where
  "current_state \<equiv> map_alloc (\<lambda>t. t) current_cells current_bytes"

lemma serialise_proof_region_eq:
  assumes "length (pr_source r) = n"
  shows "serialise_proof_region enc t n r = serialise_region enc t n (current_cells r)"
proof -
  have elem: "(case unrecorded_ref r i of Value v \<Rightarrow> enc t v | _ \<Rightarrow> None) = enc t (current_cells r ! i)" if "i < n" for i
    using that assms by (simp add: unrecorded_ref_current)
  have "map (\<lambda>i. case unrecorded_ref r i of Value v \<Rightarrow> enc t v | _ \<Rightarrow> None) [0..<n] = map (enc t) (current_cells r)"
    using assms elem by (intro nth_equalityI) simp_all
  with elem [of 0] assms show ?thesis by (simp add: serialise_proof_region_def serialise_region_def)
qed

lemma proof_state_hash_eq:
  assumes ok: "digest_ok digest"
  shows "state_wf enc (current_state a) \<Longrightarrow> proof_state_hash digest enc a = Some (Okay (hash_of digest enc (current_state a)))"
proof (induction a)
  case (Cells t n r)
  then have "length (pr_source r) = n" by simp
  with Cells ok show ?case
    by (simp add: proof_state_hash_def blake2b_hash_def serialise_proof_region_eq serialise_region_eq)
next
  case (DynCells n d)
  then have n: "length (pd_source d) = n" by simp
  have "proof_leaf_read n d address = take MERKLE_LEAF_SIZE (drop address (current_bytes d))"
    if "address + MERKLE_LEAF_SIZE \<le> length (current_bytes d)" for address
    using that n unrecorded_read_current [of address MERKLE_LEAF_SIZE
        "d\<lparr>pd_reads := dyn_access_insert MERKLE_LEAF_SIZE address (pd_reads d)\<rparr>"]
    by (simp add: proof_leaf_read_def proof_dyn_region_read_def)
  with DynCells n show ?case
    using dyn_hashes [OF ok, of "current_bytes d" "proof_leaf_read n d"] by (simp add: proof_state_hash_def)
next
  case (Parts as)
  then have "omap (proof_state_hash digest enc) as = Some (Okay (map (\<lambda>a. hash_of digest enc (current_state a)) as))"
    by (intro omap_Okay) (auto simp: list.pred_set)
  with ok show ?case by (simp add: proof_state_hash_def comp_def)
next
  case (Many as)
  then have "omap (proof_state_hash digest enc) as = Some (Okay (map (\<lambda>a. hash_of digest enc (current_state a)) as))"
    by (intro omap_Okay) (auto simp: list.pred_set)
  with ok Many show ?case
    by (simp add: proof_state_hash_def build_custom_merkle_hash_ok MERKLE_ARITY_def comp_def)
qed

section \<open>The Merkle tree of a proof-generating state\<close>

fun tree_of :: "(bytes \<Rightarrow> bytes) \<Rightarrow> ('t \<Rightarrow> 'v \<Rightarrow> bytes option) \<Rightarrow> ('t, 'v) proof_alloc \<Rightarrow> merkle_tree" where
  "tree_of digest enc (Cells t n r) =
     MLeaf (digest (cells_bytes enc t (pr_source r))) (pr_access r) (cells_bytes enc t (pr_source r))"
| "tree_of digest enc (DynCells n d) =
     tree_root digest MERKLE_ARITY
       (leaves_from (leaf_tree digest (pd_reads d) (dom (pd_writes d))) 0 (leaf_chunks MERKLE_LEAF_SIZE (pd_source d)))"
| "tree_of digest enc (Parts as) = node_of digest (map (tree_of digest enc) as)"
| "tree_of digest enc (Many as) = tree_root digest MERKLE_ARITY (map (tree_of digest enc) as)"

lemma to_merkle_tree_eq:
  assumes ok: "digest_ok digest"
  shows "state_wf enc (source_state a) \<Longrightarrow> to_merkle_tree digest enc a = Some (Okay (tree_of digest enc a))"
proof (induction a)
  case (Cells t n r)
  then show ?case using ok by (simp add: serialise_region_eq)
next
  case (DynCells n d)
  then have n: "length (pd_source d) = n" "MERKLE_LEAF_SIZE \<le> length (pd_source d)" by simp_all
  have read: "inner_leaf n d address = take MERKLE_LEAF_SIZE (drop address (pd_source d))"
    if "address + MERKLE_LEAF_SIZE \<le> length (pd_source d)" for address
    using that n by (simp add: inner_leaf_def inner_dyn_region_read_def owned_dyn_region_read_def)
  show ?case
    using dyn_tree [OF ok n(2), of "inner_leaf n d" "pd_reads d" "dom (pd_writes d)"] read n
    by (simp add: merkle_writer_new_def get_read_def get_write_def MERKLE_ARITY_def)
next
  case (Parts as)
  then have "omap (to_merkle_tree digest enc) as = Some (Okay (map (tree_of digest enc) as))"
    by (intro omap_Okay) (auto simp: list.pred_set)
  with ok show ?case by simp
next
  case (Many as)
  then have "omap (to_merkle_tree digest enc) as = Some (Okay (map (tree_of digest enc) as))"
    by (intro omap_Okay) (auto simp: list.pred_set)
  with ok Many show ?case by (simp add: build_custom_merkle_tree_ok MERKLE_ARITY_def)
qed

lemma root_hash_leaves:
  "map root_hash (leaves_from (leaf_tree digest reads changes) k bss) = map digest bss"
  by (simp add: map_leaves_from leaf_tree_def leaves_from_const)

lemma chunks_source_nonempty: "MERKLE_LEAF_SIZE \<le> length bs \<Longrightarrow> leaf_chunks MERKLE_LEAF_SIZE bs \<noteq> []"
  using leaf_size_pos by auto

lemma root_hash_tree_of:
  "state_wf enc (source_state a) \<Longrightarrow> root_hash (tree_of digest enc a) = hash_of digest enc (source_state a)"
proof (induction a)
  case (DynCells n d)
  then have "leaf_chunks MERKLE_LEAF_SIZE (pd_source d) \<noteq> []" by (intro chunks_source_nonempty) simp
  then show ?case by (simp add: root_hash_tree_root root_hash_leaves)
next
  case (Parts as)
  then have "map root_hash (map (tree_of digest enc) as) = map (\<lambda>a. hash_of digest enc (source_state a)) as"
    by (auto simp: list.pred_set)
  then show ?case by (simp add: comp_def cong: map_cong)
next
  case (Many as)
  then have "map root_hash (map (tree_of digest enc) as) = map (\<lambda>a. hash_of digest enc (source_state a)) as"
    by (auto simp: list.pred_set)
  with Many show ?case by (simp add: root_hash_tree_root comp_def cong: map_cong)
qed simp

lemma hashes_valid_leaves: "list_all (hashes_valid digest) (leaves_from (leaf_tree digest reads changes) k bss)"
  by (induction bss arbitrary: k) (auto simp: leaf_tree_def)

lemma hashes_valid_tree_of:
  "state_wf enc (source_state a) \<Longrightarrow> hashes_valid digest (tree_of digest enc a)"
proof (induction a)
  case (DynCells n d)
  then have "leaf_chunks MERKLE_LEAF_SIZE (pd_source d) \<noteq> []" by (intro chunks_source_nonempty) simp
  then show ?case by (simp add: hashes_valid_tree_root hashes_valid_leaves)
next
  case (Parts as)
  then show ?case by (simp add: node_of_def list.pred_set)
next
  case (Many as)
  then show ?case by (simp add: hashes_valid_tree_root list.pred_set)
qed simp

section \<open>Trees with a power of the arity many leaves\<close>

text \<open>A list of \<open>4 ^ k\<close> items combined from the top: by quarters.\<close>

fun perfect :: "('a list \<Rightarrow> 'a) \<Rightarrow> nat \<Rightarrow> 'a list \<Rightarrow> 'a" where
  "perfect f 0 xs = hd xs"
| "perfect f (Suc k) xs = f (map (perfect f k) (leaf_chunks (4 ^ k) xs))"

lemma chunks_take: "0 < n \<Longrightarrow> leaf_chunks n (take (m * n) xs) = take m (leaf_chunks n xs)"
proof (induction m arbitrary: xs)
  case (Suc m)
  show ?case
  proof (cases "xs = []")
    case False
    with Suc have "leaf_chunks n (take (Suc m * n) xs) = take n xs # leaf_chunks n (take (m * n) (drop n xs))"
      by (simp add: chunks_Cons [of n "take _ xs"] drop_take min_def)
    with Suc False show ?thesis by (simp add: chunks_Cons [of n xs])
  qed simp
qed simp

lemma chunks_drop: "0 < n \<Longrightarrow> leaf_chunks n (drop (m * n) xs) = drop m (leaf_chunks n xs)"
proof (induction m arbitrary: xs)
  case (Suc m)
  show ?case
  proof (cases "xs = []")
    case False
    have "drop (Suc m * n) xs = drop (m * n) (drop n xs)" by (simp add: add.commute)
    then show ?thesis using Suc.IH [of "drop n xs"] Suc.prems
      by (simp only: chunks_Cons [OF Suc.prems False] drop_Suc_Cons)
  qed simp
qed simp

lemma chunks_chunks: "0 < n \<Longrightarrow> 0 < m \<Longrightarrow> leaf_chunks m (leaf_chunks n xs) = map (leaf_chunks n) (leaf_chunks (m * n) xs)"
proof (induction "length xs" arbitrary: xs rule: less_induct)
  case less
  show ?case
  proof (cases "xs = []")
    case False
    with less have "length (drop (m * n) xs) < length xs" by simp
    with less have "leaf_chunks m (leaf_chunks n (drop (m * n) xs)) = map (leaf_chunks n) (leaf_chunks (m * n) (drop (m * n) xs))" by blast
    with less.prems False show ?thesis
      by (simp add: chunks_Cons [of m "leaf_chunks n xs"] chunks_Cons [of "m * n" xs] chunks_take chunks_drop)
  qed simp
qed

lemma chunks_all: "xs \<noteq> [] \<Longrightarrow> length xs \<le> n \<Longrightarrow> leaf_chunks n xs = [xs]"
  by (cases "n = 0") (simp_all add: chunks_Cons [of n xs])

lemma length_chunks: "0 < n \<Longrightarrow> length xs = m * n \<Longrightarrow> length (leaf_chunks n xs) = m"
proof (induction m arbitrary: xs)
  case (Suc m)
  then have "xs \<noteq> []" by auto
  with Suc show ?case by (simp add: chunks_Cons [of n xs])
qed simp

lemma length_in_chunks: "0 < n \<Longrightarrow> length xs = m * n \<Longrightarrow> c \<in> set (leaf_chunks n xs) \<Longrightarrow> length c = n"
proof (induction m arbitrary: xs)
  case (Suc m)
  then have "xs \<noteq> []" by auto
  with Suc.prems Suc.IH [of "drop n xs"] show ?case by (auto simp: chunks_Cons [of n xs])
qed simp

lemma nth_chunks: "0 < n \<Longrightarrow> i < length (leaf_chunks n xs) \<Longrightarrow> leaf_chunks n xs ! i = take n (drop (i * n) xs)"
proof (induction i arbitrary: xs)
  case 0
  then show ?case by (cases "xs = []") (simp_all add: chunks_Cons)
next
  case (Suc i)
  then have "xs \<noteq> []" by auto
  with Suc show ?case by (simp add: chunks_Cons [of n xs] add.commute)
qed

lemma perfect_level: "length xs = 4 ^ Suc k \<Longrightarrow> perfect f (Suc k) xs = perfect f k (map f (leaf_chunks 4 xs))"
proof (induction k arbitrary: xs)
  case 0
  then have xs: "xs \<noteq> []" "length xs \<le> 4" by auto
  have one: "map (perfect f 0) (leaf_chunks 1 ys) = ys" for ys :: "'a list"
    by (induction ys) (simp_all add: chunks_Cons [of "Suc 0"])
  show ?case using one [of xs] by (simp add: chunks_all [OF xs])
next
  case (Suc k)
  have "map (perfect f (Suc k)) (leaf_chunks (4 ^ Suc k) xs) = map (\<lambda>c. perfect f k (map f (leaf_chunks 4 c))) (leaf_chunks (4 ^ Suc k) xs)"
  proof (rule map_cong [OF refl])
    fix c assume "c \<in> set (leaf_chunks (4 ^ Suc k) xs)"
    then have "length c = 4 ^ Suc k" using Suc.prems length_in_chunks [of "4 ^ Suc k" xs 4 c] by simp
    then show "perfect f (Suc k) c = perfect f k (map f (leaf_chunks 4 c))" by (rule Suc.IH)
  qed
  also have "\<dots> = map (perfect f k) (map (map f) (map (leaf_chunks 4) (leaf_chunks (4 ^ k * 4) xs)))"
    by (simp add: comp_def mult.commute)
  also have "map (map f) (map (leaf_chunks 4) (leaf_chunks (4 ^ k * 4) xs)) = leaf_chunks (4 ^ k) (map f (leaf_chunks 4 xs))"
    by (simp only: chunks_chunks [of 4 "4 ^ k" xs, symmetric] map_chunks zero_less_power zero_less_numeral)
  finally show ?case using perfect.simps(2) [of f "Suc k" xs] perfect.simps(2) [of f k "map f (leaf_chunks 4 xs)"]
    by (metis (no_types))
qed

text \<open>Building level by level from the leaves gives the same.\<close>

lemma levels_perfect:
  assumes "\<And>xs. g xs = (if length xs \<le> 1 then hd xs else g (map f (leaf_chunks 4 xs)))"
  shows "length xs = 4 ^ k \<Longrightarrow> g xs = perfect f k xs"
proof (induction k arbitrary: xs)
  case 0
  then show ?case by (subst assms) simp
next
  case (Suc k)
  have "4 \<le> length xs" using Suc.prems by simp
  then have "g xs = g (map f (leaf_chunks 4 xs))" by (subst assms) simp
  also have "\<dots> = perfect f k (map f (leaf_chunks 4 xs))" using Suc by (simp add: length_chunks [of 4 xs "4 ^ k"])
  finally show ?case using Suc.prems by (simp only: perfect_level)
qed

lemma tree_root_perfect: "length ts = 4 ^ k \<Longrightarrow> tree_root digest MERKLE_ARITY ts = perfect (node_of digest) k ts"
  by (rule levels_perfect) (subst tree_root.simps, simp add: MERKLE_ARITY_def)

lemma hash_root_perfect: "length hs = 4 ^ k \<Longrightarrow> hash_root digest MERKLE_ARITY hs = perfect (\<lambda>c. digest (concat c)) k hs"
  by (rule levels_perfect) (subst hash_root.simps, simp add: MERKLE_ARITY_def)

end
