(* ===== verification/Merkle_Proof_Correct.thy ===== *)
theory Merkle_Proof_Correct
  imports Merkle_Proof Merkle_Correct
begin

text \<open>
  Correctness of Merkle proofs: a proof has the root hash of the tree it was made from, decoding is
  exactly the inverse of encoding up to the padding bits of the last byte of tags, and no input makes
  the decoder panic or loop.
\<close>

section \<open>Root hash\<close>

fun proof_hash :: "(bytes \<Rightarrow> bytes) \<Rightarrow> merkle_proof \<Rightarrow> hash" where
  "proof_hash digest (Leaf (Blind hash)) = hash"
| "proof_hash digest (Leaf (Read data)) = digest data"
| "proof_hash digest (Node ps) = digest (concat (map (proof_hash digest) ps))"

lemma root_hash_collect_ok:
  "digest_ok digest \<Longrightarrow> root_hash_collect digest d hs s = Inr (digest (concat hs), s)"
  by (simp add: root_hash_collect_def)

lemma root_hash_leaf_ok:
  "digest_ok digest \<Longrightarrow> root_hash_leaf digest l s = Inr (proof_hash digest (Leaf l), s)"
  by (cases l) (simp_all add: root_hash_leaf_def)

lemma visits_proof_hash:
  assumes "digest_ok digest"
  shows "visits tree_modify (root_hash_leaf digest) (root_hash_collect digest) (\<lambda>hash. hash) p s
           (Inr (proof_hash digest p, s))"
proof (induction p arbitrary: s)
  case (Node ps)
  have "visits tree_modify (root_hash_leaf digest) (root_hash_collect digest) (\<lambda>hash. hash) (Node ps) s
      (try_bind (try_map (\<lambda>p s. Inr (proof_hash digest p, s)) ps s)
        (\<lambda>(xs, s2). root_hash_collect digest () xs s2))"
    by (rule visits_node_try_map [where h = "\<lambda>p. p"]) (use Node in auto)
  then show ?case by (simp add: root_hash_collect_ok [OF assms, of "()" "map (proof_hash digest) ps"])
next
  case (Leaf l)
  show ?case
    using visits_leaf [of tree_modify "Leaf l" s l s "root_hash_leaf digest" "root_hash_collect digest"
        "\<lambda>hash. hash"]
    by (simp add: root_hash_leaf_ok [OF assms, of l s])
qed

lemma proof_root_hash_eq: "digest_ok digest \<Longrightarrow> proof_root_hash digest p = Some (Okay (proof_hash digest p, ()))"
  unfolding proof_root_hash_def
  by (subst impl_modify_map_collect_visits [OF visits_proof_hash]) simp_all

lemma proof_hash_partial_tree: "hashes_valid digest t \<Longrightarrow> proof_hash digest (partial_tree t) = root_hash t"
proof (induction t)
  case (MNode hash children)
  then have "concat (map (proof_hash digest \<circ> partial_tree) children) = concat (map root_hash children)"
    by (intro arg_cong [where f = concat] map_cong) (auto simp: list.pred_set)
  with MNode.prems show ?case by simp
qed auto

section \<open>Tags\<close>

text \<open>The four tags of a byte, and those of a list of bytes.\<close>

definition byte_tags :: "u8 \<Rightarrow> u8 list" where
  "byte_tags b = [drop_bit 6 b AND mask 2, drop_bit 4 b AND mask 2, drop_bit 2 b AND mask 2, b AND mask 2]"

definition stream_tags :: "bytes \<Rightarrow> u8 list" where
  "stream_tags bs = concat (map byte_tags bs)"

lemma TAG_MASK_eq: "TAG_MASK = mask 2"
  by (rule bit_word_eqI) (auto simp: TAG_MASK_def TAG_BITS_def bit_simps)

lemma length_byte_tags [simp]: "length (byte_tags b) = 4"
  by (simp add: byte_tags_def)

lemma stream_tags_Nil [simp]: "stream_tags [] = []"
  by (simp add: stream_tags_def)

lemma length_stream_tags [simp]: "length (stream_tags bs) = 4 * length bs"
  by (induction bs) (auto simp: stream_tags_def byte_tags_def)

lemma stream_tags_Cons [simp]: "stream_tags (b # bs) = byte_tags b @ stream_tags bs"
  by (simp add: stream_tags_def)

text \<open>The state of \<open>get_next_tag\<close> after \<open>n\<close> tags.\<close>

definition tag_state :: "bytes \<Rightarrow> nat \<Rightarrow> bytes \<times> u8 list" where
  "tag_state bs n = (drop (div_ceil n 4) bs, rev (take (4 * div_ceil n 4 - n) (drop n (stream_tags bs))))"

definition tag_at :: "bytes \<Rightarrow> nat \<Rightarrow> deserialise_error + tag \<times> nat" where
  "tag_at bs n =
     (if n < 4 * length bs then try_bind (tag_try_from (stream_tags bs ! n)) (\<lambda>t. Inr (t, Suc n))
      else Inl NotEnoughBytes)"

lemma drop_stream_tags: "drop (4 * q) (stream_tags bs) = stream_tags (drop q bs)"
proof (induction q arbitrary: bs)
  case (Suc q)
  then show ?case by (cases bs) simp_all
qed simp

lemma stream_tags_rest:
  assumes "q < length bs" and "r \<le> 4"
  shows "drop (4 * q + r) (stream_tags bs) = drop r (byte_tags (bs ! q)) @ stream_tags (drop (Suc q) bs)"
proof -
  have "drop (4 * q + r) (stream_tags bs) = drop r (drop (4 * q) (stream_tags bs))"
    by (simp add: add.commute)
  also have "drop (4 * q) (stream_tags bs) = byte_tags (bs ! q) @ stream_tags (drop (Suc q) bs)"
    using assms by (simp add: drop_stream_tags flip: Cons_nth_drop_Suc)
  finally show ?thesis using assms by simp
qed

lemma stream_tags_nth:
  assumes "q < length bs" and "r < 4"
  shows "stream_tags bs ! (4 * q + r) = byte_tags (bs ! q) ! r"
proof -
  have "stream_tags bs ! (4 * q + r) = hd (drop (4 * q + r) (stream_tags bs))"
    using assms by (simp add: hd_drop_conv_nth)
  then show ?thesis
    using assms by (simp add: stream_tags_rest hd_append hd_drop_conv_nth)
qed

lemma tag_state_0: "tag_state bs (4 * q) = (drop q bs, [])"
proof -
  have "div_ceil (4 * q) 4 = q" by (simp add: div_ceil_def)
  then show ?thesis by (simp add: tag_state_def)
qed

lemma tag_state_Suc:
  assumes "q < length bs" and "r < 4"
  shows "tag_state bs (4 * q + Suc r) = (drop (Suc q) bs, rev (drop (Suc r) (byte_tags (bs ! q))))"
proof -
  have "div_ceil (4 * q + Suc r) 4 = Suc q"
    using assms(2) unfolding div_ceil_def by linarith
  moreover have "drop (4 * q + Suc r) (stream_tags bs) =
      drop (Suc r) (byte_tags (bs ! q)) @ stream_tags (drop (Suc q) bs)"
    using assms by (intro stream_tags_rest) auto
  ultimately show ?thesis
    using assms(2) by (simp add: tag_state_def)
qed

text \<open>The closure takes the tags of the bytes in order, from the most significant bits of each byte.\<close>

lemma get_next_tag_state:
  "get_next_tag (tag_state bs n) = try_bind (tag_at bs n) (\<lambda>(t, m). Inr (t, tag_state bs m))"
proof -
  obtain q r where n: "n = 4 * q + r" and r: "r < 4"
    by (metis mod_less_divisor mult_div_mod_eq zero_less_numeral)
  show ?thesis
  proof (cases "q < length bs")
    case False
    then have "div_ceil n 4 \<ge> length bs" "drop n (stream_tags bs) = []"
      using n by (auto simp: div_ceil_def)
    with False n show ?thesis by (simp add: get_next_tag_def tag_at_def tag_state_def)
  next
    case q: True
    have in_range: "n < 4 * length bs" using n q r by linarith
    have tag: "stream_tags bs ! n = byte_tags (bs ! q) ! r" using stream_tags_nth [OF q r] n by simp
    have "get_next_tag (tag_state bs n) =
        try_bind (tag_try_from (byte_tags (bs ! q) ! r)) (\<lambda>t. Inr (t, tag_state bs (4 * q + Suc r)))"
    proof (cases r)
      case 0
      have "drop q bs = bs ! q # drop (Suc q) bs" using q by (simp add: Cons_nth_drop_Suc)
      with 0 show ?thesis
        using tag_state_Suc [OF q, of 0]
        by (simp add: n tag_state_0 get_next_tag_def TAG_MASK_eq byte_tags_def)
    next
      case (Suc k)
      with r have "k < 3" by simp
      then have "last (rev (drop (Suc k) (byte_tags (bs ! q)))) = byte_tags (bs ! q) ! r"
        "butlast (rev (drop (Suc k) (byte_tags (bs ! q)))) = rev (drop (Suc r) (byte_tags (bs ! q)))"
        "drop (Suc k) (byte_tags (bs ! q)) \<noteq> []"
        using Suc by (simp_all add: last_rev hd_drop_conv_nth butlast_rev drop_Suc tl_drop nth_tl)
      with Suc r show ?thesis
        using tag_state_Suc [OF q, of k] tag_state_Suc [OF q, of r]
        by (simp add: n get_next_tag_def)
    qed
    then show ?thesis using in_range tag n by (simp add: tag_at_def)
  qed
qed

section \<open>Parsing the tags of a tree\<close>

text \<open>The traversal of \<^verbatim>\<open>deserialise_merkle_proof_tags\<close> as recursion over the shape, for any source of tags.\<close>

fun parse_tags ::
  "('s \<Rightarrow> deserialise_error + tag \<times> 's) \<Rightarrow> shape \<Rightarrow> 's \<Rightarrow> deserialise_error + (nat \<times> leaf_tag) tree \<times> 's" where
  "parse_tags next_tag (Leaf n) s =
     try_bind (next_tag s) (\<lambda>(tag, s1).
       case tag of LeafTag l \<Rightarrow> Inr (Leaf (n, l), s1) | NodeTag \<Rightarrow> Inl UnexpectedNodeTag)"
| "parse_tags next_tag (Node ts) s =
     try_bind (next_tag s) (\<lambda>(tag, s1).
       case tag of
         LeafTag l \<Rightarrow> Inr (Leaf (total_leaf_bytes (Node ts), l), s1)
       | NodeTag \<Rightarrow> try_bind (try_map (parse_tags next_tag) ts s1) (\<lambda>(us, s2). Inr (Node us, s2)))"

lemma shape_modify_simps:
  "next_tag s = Inl e \<Longrightarrow> shape_modify next_tag t s = Inl e"
  "next_tag s = Inr (NodeTag, s1) \<Longrightarrow> shape_modify next_tag (Node ts) s = Inr (NodeContinue () ts, s1)"
  "next_tag s = Inr (NodeTag, s1) \<Longrightarrow> shape_modify next_tag (Leaf n) s = Inl UnexpectedNodeTag"
  "next_tag s = Inr (LeafTag l, s1) \<Longrightarrow>
     shape_modify next_tag (Node ts) s = Inr (LeafStop (total_leaf_bytes (Node ts), l), s1)"
  "next_tag s = Inr (LeafTag l, s1) \<Longrightarrow> shape_modify next_tag (Leaf n) s = Inr (LeafStop (n, l), s1)"
  by (simp_all add: shape_modify_def)

lemma visits_parse_tags:
  "visits (shape_modify next_tag) (\<lambda>data s. Inr (data, s)) (\<lambda>_ children s. Inr (Node children, s)) Leaf t s
     (parse_tags next_tag t s)"
proof (induction t arbitrary: s)
  case (Node ts)
  show ?case
  proof (cases "next_tag s")
    case (Inl e)
    then show ?thesis by (simp add: visits_error shape_modify_simps)
  next
    case (Inr y)
    obtain tag s1 where y: "y = (tag, s1)" by (cases y)
    show ?thesis
    proof (cases tag)
      case NodeTag
      have "visits (shape_modify next_tag) (\<lambda>data s. Inr (data, s)) (\<lambda>_ children s. Inr (Node children, s)) Leaf
          (Node ts) s (try_bind (try_map (parse_tags next_tag) ts s1) (\<lambda>(xs, s2). Inr (Node xs, s2)))"
        by (rule visits_node_try_map [where d = "()" and h = "\<lambda>t. t"])
           (use Node Inr y NodeTag in \<open>simp_all add: shape_modify_simps\<close>)
      with Inr y NodeTag show ?thesis by simp
    next
      case (LeafTag l)
      with Inr y show ?thesis
        using visits_leaf [of "shape_modify next_tag" "Node ts" s "(total_leaf_bytes (Node ts), l)" s1
            "\<lambda>data s. Inr (data, s)" "\<lambda>_ children s. Inr (Node children, s)" Leaf]
        by (simp add: shape_modify_simps)
    qed
  qed
next
  case (Leaf n)
  show ?case
  proof (cases "next_tag s")
    case (Inl e)
    then show ?thesis by (simp add: visits_error shape_modify_simps)
  next
    case (Inr y)
    obtain tag s1 where y: "y = (tag, s1)" by (cases y)
    with Inr show ?thesis
      using visits_leaf [of "shape_modify next_tag" "Leaf n" s "(n, l)" s1
          "\<lambda>data s. Inr (data, s)" "\<lambda>_ children s. Inr (Node children, s)" Leaf for l]
      by (cases tag) (auto simp: visits_error shape_modify_simps)
  qed
qed

lemma modify_shape_eq: "modify_shape (shape_modify next_tag) t s = Some (outcome_of (parse_tags next_tag t s))"
  by (simp add: modify_shape_def impl_modify_map_collect_visits visits_parse_tags)

text \<open>A source of tags can be replaced by one that simulates it.\<close>

lemma try_map_simulates:
  assumes "\<And>t s. t \<in> set ts \<Longrightarrow> f t (h s) = try_bind (g t s) (\<lambda>(x, m). Inr (x, h m))"
  shows "try_map f ts (h s) = try_bind (try_map g ts s) (\<lambda>(xs, m). Inr (xs, h m))"
  using assms
proof (induction ts arbitrary: s)
  case (Cons t ts)
  show ?case
  proof (cases "g t s")
    case (Inl e)
    with Cons.prems [of t s] show ?thesis by simp
  next
    case (Inr y)
    with Cons.prems [of t s] Cons.IH [of "snd y"] Cons.prems show ?thesis
      by (auto simp: try_bind_def split: sum.splits prod.splits)
  qed
qed simp

lemma parse_tags_simulates:
  assumes "\<And>s. next_tag (h s) = try_bind (next_tag' s) (\<lambda>(t, m). Inr (t, h m))"
  shows "parse_tags next_tag t (h s) = try_bind (parse_tags next_tag' t s) (\<lambda>(x, m). Inr (x, h m))"
proof (induction t arbitrary: s)
  case (Node ts)
  then have children: "try_map (parse_tags next_tag) ts (h s) =
      try_bind (try_map (parse_tags next_tag') ts s) (\<lambda>(xs, m). Inr (xs, h m))" for s
    by (rule try_map_simulates)
  show ?case
    by (cases "next_tag' s") (auto simp: assms children try_bind_def split: tag.splits sum.splits prod.splits)
next
  case (Leaf n)
  show ?case
    by (cases "next_tag' s") (auto simp: assms split: tag.splits prod.splits)
qed

text \<open>
  A tree of tags fits a shape; \<open>annot_tags\<close> lists its tags in pre-order, and \<open>reads\<close> says that the
  tags from index \<open>n\<close> on are the given ones.
\<close>

fun fits_shape :: "(nat \<times> leaf_tag) tree \<Rightarrow> shape \<Rightarrow> bool" where
  "fits_shape (Leaf l) sh = (fst l = total_leaf_bytes sh)"
| "fits_shape (Node us) (Node ts) = list_all2 fits_shape us ts"
| "fits_shape (Node us) (Leaf n) = False"

fun annot_tags :: "(nat \<times> leaf_tag) tree \<Rightarrow> tag list" where
  "annot_tags (Leaf l) = [LeafTag (snd l)]"
| "annot_tags (Node us) = NodeTag # concat (map annot_tags us)"

fun reads :: "bytes \<Rightarrow> nat \<Rightarrow> tag list \<Rightarrow> bool" where
  "reads bs n [] = True"
| "reads bs n (t # ts) = (n < 4 * length bs \<and> stream_tags bs ! n = tag_to_u8 t \<and> reads bs (Suc n) ts)"

lemma reads_append: "reads bs n (xs @ ys) \<longleftrightarrow> reads bs n xs \<and> reads bs (n + length xs) ys"
  by (induction xs arbitrary: n) auto

lemma tag_try_from_eq: "tag_try_from v = Inr t \<longleftrightarrow> v = tag_to_u8 t"
  by (cases t rule: tag_to_u8.cases) (auto simp: tag_try_from_def TAG_NODE_def TAG_BLIND_def TAG_READ_def)

lemma tag_at_eq: "tag_at bs n = Inr (t, m) \<longleftrightarrow> m = Suc n \<and> reads bs n [t]"
  by (auto simp: tag_at_def try_bind_eq_Inr tag_try_from_eq)

lemma ex_tag: "(\<exists>t. P t) \<longleftrightarrow> P NodeTag \<or> (\<exists>l. P (LeafTag l))"
  by (metis tag.exhaust)

lemma try_map_parse_tags:
  assumes "\<And>t n u m. t \<in> set ts \<Longrightarrow> parse_tags (tag_at bs) t n = Inr (u, m) \<longleftrightarrow>
      fits_shape u t \<and> m = n + length (annot_tags u) \<and> reads bs n (annot_tags u)"
  shows "try_map (parse_tags (tag_at bs)) ts n = Inr (us, m) \<longleftrightarrow>
      list_all2 fits_shape us ts \<and> m = n + length (concat (map annot_tags us)) \<and> reads bs n (concat (map annot_tags us))"
  using assms
proof (induction ts arbitrary: n us)
  case Nil
  show ?case by auto
next
  case (Cons t ts)
  have head: "parse_tags (tag_at bs) t n = Inr (u, k) \<longleftrightarrow>
      fits_shape u t \<and> k = n + length (annot_tags u) \<and> reads bs n (annot_tags u)" for n u k
    using Cons.prems by simp
  have tail: "try_map (parse_tags (tag_at bs)) ts k = Inr (vs, m) \<longleftrightarrow> list_all2 fits_shape vs ts \<and>
      m = k + length (concat (map annot_tags vs)) \<and> reads bs k (concat (map annot_tags vs))" for k vs
    using Cons by simp
  show ?case
    by (cases us) (auto simp: try_bind_eq_Inr head tail reads_append add.assoc)
qed

lemma parse_tags_eq:
  "parse_tags (tag_at bs) t n = Inr (u, m) \<longleftrightarrow>
     fits_shape u t \<and> m = n + length (annot_tags u) \<and> reads bs n (annot_tags u)"
proof (induction t arbitrary: n u m)
  case (Node ts)
  have children: "try_map (parse_tags (tag_at bs)) ts k = Inr (us, m) \<longleftrightarrow> list_all2 fits_shape us ts \<and>
      m = k + length (concat (map annot_tags us)) \<and> reads bs k (concat (map annot_tags us))" for k us
    by (rule try_map_parse_tags) (rule Node)
  show ?case
    by (cases u) (auto simp: try_bind_eq_Inr tag_at_eq children ex_tag)
next
  case (Leaf k)
  show ?case
    by (cases u) (auto simp: try_bind_eq_Inr tag_at_eq ex_tag)
qed

lemma deserialise_merkle_proof_tags_eq:
  "deserialise_merkle_proof_tags bs sh =
     Some (case parse_tags (tag_at bs) sh 0 of
             Inl e \<Rightarrow> Failed e
           | Inr (u, n) \<Rightarrow> Okay (u, drop (div_ceil n 4) bs))"
proof -
  have "parse_tags get_next_tag sh (tag_state bs 0) =
      try_bind (parse_tags (tag_at bs) sh 0) (\<lambda>(x, m). Inr (x, tag_state bs m))"
    by (rule parse_tags_simulates) (rule get_next_tag_state)
  moreover have "tag_state bs 0 = (bs, [])" using tag_state_0 [of bs 0] by simp
  ultimately show ?thesis
    by (auto simp: deserialise_merkle_proof_tags_def modify_shape_eq tag_state_def try_bind_def
        split: sum.splits)
qed

section \<open>Parsing the contents of the leaves\<close>

fun fits_values :: "merkle_proof \<Rightarrow> (nat \<times> leaf_tag) tree \<Rightarrow> bool" where
  "fits_values (Leaf (Blind hash)) (Leaf (n, BlindTag)) = (length hash = DIGEST_SIZE)"
| "fits_values (Leaf (Read data)) (Leaf (n, ReadTag)) = (length data = n)"
| "fits_values (Node ps) (Node us) = list_all2 fits_values ps us"
| "fits_values _ _ = False"

fun proof_values :: "merkle_proof \<Rightarrow> bytes" where
  "proof_values (Leaf (Blind hash)) = hash"
| "proof_values (Leaf (Read data)) = data"
| "proof_values (Node ps) = concat (map proof_values ps)"

lemma fits_values_Leaf:
  "fits_values (Leaf (Blind h)) (Leaf l) \<longleftrightarrow> snd l = BlindTag \<and> length h = DIGEST_SIZE"
  "fits_values (Leaf (Read d)) (Leaf l) \<longleftrightarrow> snd l = ReadTag \<and> length d = fst l"
  by (cases l; cases "snd l"; simp)+

lemma next_bytes_eq: "next_bytes n bs = Inr (xs, rest) \<longleftrightarrow> bs = xs @ rest \<and> length xs = n"
proof (induction n bs arbitrary: xs rule: next_bytes.induct)
  case (3 n b bs)
  then show ?case by (cases xs) (auto simp: try_bind_eq_Inr)
qed auto

lemma next_bytes_cases:
  "next_bytes n bs = (if length bs < n then Inl NotEnoughBytes else Inr (take n bs, drop n bs))"
  by (induction n bs rule: next_bytes.induct) auto

lemma deserialise_value_eq:
  "deserialise_value l bs = Inr (v, rest) \<longleftrightarrow> fits_values (Leaf v) (Leaf l) \<and> bs = proof_values (Leaf v) @ rest"
  by (cases l; cases v; cases "snd l")
     (auto simp: deserialise_value_def try_bind_eq_Inr deserialise_final_hash_encoding_def next_bytes_eq)

lemma parse_values_eq:
  "tree_map_rec deserialise_value u bs = Inr (p, rest) \<longleftrightarrow> fits_values p u \<and> bs = proof_values p @ rest"
proof (induction u arbitrary: bs p rest)
  case (Node us)
  have "try_map (tree_map_rec deserialise_value) us bs = Inr (ps, rest) \<longleftrightarrow>
      list_all2 fits_values ps us \<and> bs = concat (map proof_values ps) @ rest" for bs ps
    using Node
  proof (induction us arbitrary: bs ps)
    case Nil
    show ?case by auto
  next
    case (Cons u us)
    have head: "tree_map_rec deserialise_value u bs = Inr (p, rest) \<longleftrightarrow> fits_values p u \<and> bs = proof_values p @ rest"
      for bs p rest using Cons.prems by simp
    have tail: "try_map (tree_map_rec deserialise_value) us bs = Inr (ps, rest) \<longleftrightarrow>
        list_all2 fits_values ps us \<and> bs = concat (map proof_values ps) @ rest" for bs ps
      using Cons by simp
    show ?case by (cases ps) (auto simp: try_bind_eq_Inr head tail)
  qed
  then show ?case by (cases p) (auto simp: try_bind_eq_Inr)
next
  case (Leaf l)
  show ?case
    by (cases p) (auto simp: try_bind_eq_Inr deserialise_value_eq)
qed

section \<open>Encoding and decoding\<close>

lemma bit_tag: "bit (tag_to_u8 t) k \<Longrightarrow> k < 2"
proof (rule ccontr)
  assume "bit (tag_to_u8 t) k" and "\<not> k < 2"
  moreover have "tag_to_u8 t AND mask 2 = tag_to_u8 t"
    by (cases t rule: tag_to_u8.cases) (simp_all add: TAG_NODE_def TAG_BLIND_def TAG_READ_def mask_eq_exp_minus_1)
  ultimately show False by (metis bit_and_iff bit_mask_iff)
qed

lemma byte_tags_pack:
  assumes "\<And>k. bit a k \<Longrightarrow> k < 2" "\<And>k. bit b k \<Longrightarrow> k < 2" "\<And>k. bit c k \<Longrightarrow> k < 2" "\<And>k. bit d k \<Longrightarrow> k < 2"
  shows "byte_tags (push_bit 6 a OR push_bit 4 b OR push_bit 2 c OR d) = [a, b, c, d]"
proof -
  have high: "\<not> bit a k" "\<not> bit b k" "\<not> bit c k" "\<not> bit d k" if "2 \<le> k" for k
    using assms that by (auto simp: not_less [symmetric])
  have field: "v AND mask 2 = w" if "\<And>k. 2 \<le> k \<Longrightarrow> \<not> bit w k" "bit v 0 = bit w 0" "bit v 1 = bit w 1" for v w :: u8
  proof (rule bit_word_eqI)
    fix k :: nat
    consider "k = 0" | "k = 1" | "2 \<le> k" by linarith
    then show "bit (v AND mask 2) k = bit w k" using that by cases (simp_all add: bit_simps)
  qed
  have "drop_bit 6 (push_bit 6 a OR push_bit 4 b OR push_bit 2 c OR d) AND mask 2 = a"
    "drop_bit 4 (push_bit 6 a OR push_bit 4 b OR push_bit 2 c OR d) AND mask 2 = b"
    "drop_bit 2 (push_bit 6 a OR push_bit 4 b OR push_bit 2 c OR d) AND mask 2 = c"
    "(push_bit 6 a OR push_bit 4 b OR push_bit 2 c OR d) AND mask 2 = d"
    by (rule field; simp add: bit_simps high)+
  then show ?thesis by (simp add: byte_tags_def)
qed

definition pack_tags :: "tag list \<Rightarrow> u8" where
  "pack_tags chunk =
     foldl (\<lambda>acc (tag, offset). acc OR rust_shl (tag_to_u8 tag) offset) 0
       (zip chunk (map tag_offset [0..<TAGS_PER_BYTE]))"

lemma serialise_raw_tags_eq: "serialise_raw_tags ts = map pack_tags (leaf_chunks 4 ts)"
  by (simp add: serialise_raw_tags_def pack_tags_def [abs_def] TAGS_PER_BYTE_def TAG_BITS_def)

lemma serialise_raw_tags_Cons:
  "ts \<noteq> [] \<Longrightarrow> serialise_raw_tags ts = pack_tags (take 4 ts) # serialise_raw_tags (drop 4 ts)"
  by (simp add: serialise_raw_tags_eq chunks_Cons [of 4 ts])

lemma byte_tags_pack_tags:
  assumes "chunk \<noteq> []" and "length chunk \<le> 4"
  shows "take (length chunk) (byte_tags (pack_tags chunk)) = map tag_to_u8 chunk"
proof -
  have offsets: "map tag_offset [0..<TAGS_PER_BYTE] = [6, 4, 2, 0]"
    by (simp add: TAGS_PER_BYTE_def TAG_BITS_def tag_offset_def upt_rec)
  have zero: "bit (0 :: u8) k \<Longrightarrow> k < 2" for k by simp
  from assms consider a where "chunk = [a]" | a b where "chunk = [a, b]" | a b c where "chunk = [a, b, c]"
    | a b c d where "chunk = [a, b, c, d]"
    by (cases chunk; cases "tl chunk"; cases "tl (tl chunk)"; cases "tl (tl (tl chunk))") auto
  then show ?thesis
  proof cases
    case 1
    with byte_tags_pack [of "tag_to_u8 a" 0 0 0, OF bit_tag zero zero zero] show ?thesis
      by (simp add: pack_tags_def offsets)
  next
    case 2
    with byte_tags_pack [of "tag_to_u8 a" "tag_to_u8 b" 0 0, OF bit_tag bit_tag zero zero] show ?thesis
      by (simp add: pack_tags_def offsets)
  next
    case 3
    with byte_tags_pack [of "tag_to_u8 a" "tag_to_u8 b" "tag_to_u8 c" 0, OF bit_tag bit_tag bit_tag zero] show ?thesis
      by (simp add: pack_tags_def offsets or.assoc)
  next
    case 4
    with byte_tags_pack [of "tag_to_u8 a" "tag_to_u8 b" "tag_to_u8 c" "tag_to_u8 d",
        OF bit_tag bit_tag bit_tag bit_tag] show ?thesis
      by (simp add: pack_tags_def offsets or.assoc)
  qed
qed

lemma stream_tags_serialise: "take (length ts) (stream_tags (serialise_raw_tags ts)) = map tag_to_u8 ts"
proof (induction "4 :: nat" ts rule: leaf_chunks.induct)
  case (1 ts)
  show ?case
  proof (cases "ts = []")
    case False
    let ?c = "take 4 ts"
    have c: "?c \<noteq> []" "length ?c \<le> 4" using False by simp_all
    have "serialise_raw_tags ts = pack_tags ?c # serialise_raw_tags (drop 4 ts)"
      using False by (rule serialise_raw_tags_Cons)
    moreover have "take (length (drop 4 ts)) (stream_tags (serialise_raw_tags (drop 4 ts))) = map tag_to_u8 (drop 4 ts)"
      using 1 False by simp
    moreover have "take (length ts) (byte_tags (pack_tags ?c)) = map tag_to_u8 ?c"
      using byte_tags_pack_tags [OF c] by (cases "length ts \<le> 4") simp_all
    ultimately show ?thesis
      by (simp flip: map_append)
  qed simp
qed

lemma div_ceil_Suc:
  assumes "0 < l"
  shows "div_ceil l 4 = Suc (div_ceil (l - 4) 4)"
proof (cases "l \<le> 4")
  case True
  with assms have "(l + 4 - 1) div 4 = 1" by (intro div_nat_eqI) auto
  with True show ?thesis by (simp add: div_ceil_def)
next
  case False
  then obtain m where "l = m + 4" by (metis le_add_diff_inverse2 nat_le_linear)
  then show ?thesis by (simp add: div_ceil_def)
qed

lemma length_serialise_raw_tags: "length (serialise_raw_tags ts) = div_ceil (length ts) 4"
proof (induction "4 :: nat" ts rule: leaf_chunks.induct)
  case (1 ts)
  show ?case
  proof (cases "ts = []")
    case False
    have "length (serialise_raw_tags (drop 4 ts)) = div_ceil (length (drop 4 ts)) 4"
      using 1 False by simp
    then show ?thesis
      using False by (simp add: serialise_raw_tags_Cons div_ceil_Suc [of "length ts"])
  next
    case True
    have "div_ceil 0 4 = 0" by (simp add: div_ceil_def)
    with True show ?thesis by (simp add: serialise_raw_tags_eq)
  qed
qed

lemma reads_iff:
  "reads bs n ts \<longleftrightarrow> (n + length ts \<le> 4 * length bs \<or> ts = []) \<and>
     take (length ts) (drop n (stream_tags bs)) = map tag_to_u8 ts"
proof (induction ts arbitrary: n)
  case (Cons t ts)
  show ?case
  proof (cases "n < 4 * length bs")
    case True
    then have "drop n (stream_tags bs) = stream_tags bs ! n # drop (Suc n) (stream_tags bs)"
      by (simp add: Cons_nth_drop_Suc)
    with True Cons show ?thesis by (cases ts) auto
  qed auto
qed simp

text \<open>A proof matches the shape of the full tree.\<close>

fun proof_matches :: "merkle_proof \<Rightarrow> shape \<Rightarrow> bool" where
  "proof_matches (Leaf (Blind hash)) sh = (length hash = DIGEST_SIZE)"
| "proof_matches (Leaf (Read data)) sh = (length data = total_leaf_bytes sh)"
| "proof_matches (Node ps) (Node ts) = list_all2 proof_matches ps ts"
| "proof_matches (Node ps) (Leaf n) = False"

lemma proof_matches_eq: "proof_matches p sh \<longleftrightarrow> (\<exists>u. fits_values p u \<and> fits_shape u sh)"
proof (induction p arbitrary: sh)
  case (Node ps)
  show ?case
  proof (cases sh)
    case (Node ts)
    have "list_all2 proof_matches ps ts \<longleftrightarrow> list_all2 (fits_values OO fits_shape) ps ts"
      using Node.IH by (intro list.rel_cong) (auto simp: relcompp.simps)
    also have "\<dots> \<longleftrightarrow> (\<exists>us. list_all2 fits_values ps us \<and> list_all2 fits_shape us ts)"
      by (auto simp: list.rel_compp relcompp.simps)
    finally have "list_all2 proof_matches ps ts \<longleftrightarrow> (\<exists>us. list_all2 fits_values ps us \<and> list_all2 fits_shape us ts)" .
    moreover have "fits_values (tree.Node ps) u \<longleftrightarrow> (\<exists>us. u = tree.Node us \<and> list_all2 fits_values ps us)" for u
      by (cases u) auto
    ultimately show ?thesis using Node by auto
  next
    case (Leaf n)
    have "\<not> (fits_values (tree.Node ps) u \<and> fits_shape u (tree.Leaf n))" for u
      by (cases u) auto
    with Leaf show ?thesis by auto
  qed
next
  case (Leaf l)
  have "fits_values (tree.Leaf l) u \<longleftrightarrow>
      (\<exists>n tag. u = tree.Leaf (n, tag) \<and> (case l of Blind h \<Rightarrow> tag = BlindTag \<and> length h = DIGEST_SIZE
                                              | Read d \<Rightarrow> tag = ReadTag \<and> length d = n))" for u
    by (cases u; cases l) (auto simp: fits_values_Leaf)
  then show ?case by (cases l) auto
qed

lemma iter_raw_tags_simps [simp]:
  "iter_raw_tags (Leaf (Blind h)) = [LeafTag BlindTag]"
  "iter_raw_tags (Leaf (Read d)) = [LeafTag ReadTag]"
  "iter_raw_tags (Node ps) = NodeTag # concat (map iter_raw_tags ps)"
  by (simp_all add: iter_raw_tags_def [abs_def] subtree_iterator_eq to_raw_tag_def map_concat comp_def)

lemma serialise_proof_values_Node:
  "serialise_proof_values (Node ps) = concat (map serialise_proof_values ps)"
proof -
  have "concat (map f (concat (map subtrees ps))) = concat (map (\<lambda>p. concat (map f (subtrees p))) ps)"
    for f :: "merkle_proof \<Rightarrow> bytes"
    by (induction ps) auto
  then show ?thesis by (simp add: serialise_proof_values_def [abs_def] subtree_iterator_eq)
qed

lemma serialise_proof_values_eq: "serialise_proof_values p = proof_values p"
proof (induction p)
  case (Node ps)
  then show ?case by (simp add: serialise_proof_values_Node cong: map_cong)
next
  case (Leaf l)
  then show ?case by (cases l) (simp_all add: serialise_proof_values_def subtree_iterator_eq)
qed

lemma annot_tags_eq: "fits_values p u \<Longrightarrow> annot_tags u = iter_raw_tags p"
proof (induction p arbitrary: u)
  case (Node ps)
  then obtain us where u: "u = tree.Node us" and fits: "list_all2 fits_values ps us"
    by (cases u) auto
  from fits Node.IH have "map annot_tags us = map iter_raw_tags ps"
    by (induction ps us rule: list_all2_induct) auto
  with u show ?case by simp
next
  case (Leaf l)
  then show ?case by (cases l; cases u) (auto simp: fits_values_Leaf)
qed

lemma deserialise_merkle_proof_eq:
  "deserialise_merkle_proof bs sh = Some (Okay (p, rest)) \<longleftrightarrow>
     proof_matches p sh \<and> reads bs 0 (iter_raw_tags p) \<and>
     drop (div_ceil (length (iter_raw_tags p)) 4) bs = proof_values p @ rest"
proof -
  have vals: "deserialise_merkle_proof_values bs u = Some (outcome_of (tree_map_rec deserialise_value u bs))" for bs u
    by (simp add: deserialise_merkle_proof_values_def tree_map_eq)
  have okay: "outcome_of r = Okay x \<longleftrightarrow> r = Inr x" for r :: "deserialise_error + 'a" and x
    by (cases r) auto
  have "deserialise_merkle_proof bs sh = Some (Okay (p, rest)) \<longleftrightarrow>
      (\<exists>u n. parse_tags (tag_at bs) sh 0 = Inr (u, n) \<and>
             tree_map_rec deserialise_value u (drop (div_ceil n 4) bs) = Inr (p, rest))"
    by (auto simp: deserialise_merkle_proof_def deserialise_merkle_proof_tags_eq vals
        outcome_of_def split: sum.splits)
  also have "\<dots> \<longleftrightarrow> (\<exists>u. fits_values p u \<and> fits_shape u sh \<and> reads bs 0 (annot_tags u) \<and>
      drop (div_ceil (length (annot_tags u)) 4) bs = proof_values p @ rest)"
    by (auto simp: parse_tags_eq parse_values_eq)
  also have "\<dots> \<longleftrightarrow> proof_matches p sh \<and> reads bs 0 (iter_raw_tags p) \<and>
      drop (div_ceil (length (iter_raw_tags p)) 4) bs = proof_values p @ rest"
    using annot_tags_eq by (auto simp: proof_matches_eq)
  finally show ?thesis .
qed

text \<open>The tags of a proof, read from a prefix of the bytes that holds just enough of them.\<close>

lemma reads_prefix:
  "reads bs 0 ts \<and> drop (div_ceil (length ts) 4) bs = rest \<longleftrightarrow>
     (\<exists>tb. bs = tb @ rest \<and> length tb = div_ceil (length ts) 4 \<and>
           take (length ts) (stream_tags tb) = map tag_to_u8 ts)"
  (is "?L \<longleftrightarrow> ?R")
proof -
  let ?k = "div_ceil (length ts) 4"
  have enough: "length ts \<le> 4 * ?k" using div_ceil_mult_ge [of 4 "length ts"] by (simp add: mult.commute)
  have app: "stream_tags (xs @ ys) = stream_tags xs @ stream_tags ys" for xs ys
    by (simp add: stream_tags_def)
  show ?thesis
  proof
    assume L: ?L
    then have len: "?k \<le> length bs \<or> ts = []"
      using div_ceil_le_iff [of 4 "length ts" "length bs"] by (auto simp: reads_iff mult.commute)
    have "take (length ts) (stream_tags (take ?k bs)) = map tag_to_u8 ts"
      using L len app [of "take ?k bs" "drop ?k bs"] enough by (auto simp: reads_iff)
    moreover have "length (take ?k bs) = ?k" using len by (auto simp: div_ceil_def)
    ultimately show ?R using L by (intro exI [of _ "take ?k bs"]) auto
  next
    assume ?R
    then show ?L using enough by (auto simp: reads_iff app)
  qed
qed

lemma deserialise_proof_Okay:
  "deserialise_proof bs sh = Some (Okay p) \<longleftrightarrow>
     length (final_state_hash p) = DIGEST_SIZE \<and>
     (\<exists>rest. bs = final_state_hash p @ rest \<and>
             deserialise_merkle_proof rest sh = Some (Okay (proof_tree p, [])))"
proof (cases "length bs < DIGEST_SIZE")
  case True
  then show ?thesis
    by (auto simp: deserialise_proof_def deserialise_final_hash_encoding_def next_bytes_cases)
next
  case False
  let ?h = "take DIGEST_SIZE bs" and ?rest = "drop DIGEST_SIZE bs"
  have "deserialise_proof bs sh = Some (Okay p) \<longleftrightarrow>
      (\<exists>t. deserialise_merkle_proof ?rest sh = Some (Okay (t, [])) \<and> p = proof_new t ?h)"
  proof (cases "deserialise_merkle_proof ?rest sh")
    case None
    with False show ?thesis
      by (simp add: deserialise_proof_def deserialise_final_hash_encoding_def next_bytes_cases)
  next
    case (Some r)
    with False show ?thesis
      by (cases r)
         (auto simp: deserialise_proof_def deserialise_final_hash_encoding_def next_bytes_cases split: if_splits)
  qed
  also have "\<dots> \<longleftrightarrow> deserialise_merkle_proof ?rest sh = Some (Okay (proof_tree p, [])) \<and> final_state_hash p = ?h"
    by (cases p) (auto simp: proof_new_def)
  also have "\<dots> \<longleftrightarrow> length (final_state_hash p) = DIGEST_SIZE \<and>
      (\<exists>rest. bs = final_state_hash p @ rest \<and> deserialise_merkle_proof rest sh = Some (Okay (proof_tree p, [])))"
    using False by (auto simp: append_eq_conv_conj intro!: exI [of _ ?rest])
  finally show ?thesis .
qed

lemma decode_eq:
  "deserialise_proof bs sh = Some (Okay p) \<longleftrightarrow>
     proof_matches (proof_tree p) sh \<and> length (final_state_hash p) = DIGEST_SIZE \<and>
     (\<exists>tb. bs = final_state_hash p @ tb @ serialise_proof_values (proof_tree p) \<and>
           length tb = length (serialise_raw_tags (iter_raw_tags (proof_tree p))) \<and>
           take (length (iter_raw_tags (proof_tree p))) (stream_tags tb) = map tag_to_u8 (iter_raw_tags (proof_tree p)))"
  using reads_prefix [of _ "iter_raw_tags (proof_tree p)" "proof_values (proof_tree p)"]
  by (auto simp: deserialise_proof_Okay deserialise_merkle_proof_eq serialise_proof_values_eq
      length_serialise_raw_tags)

lemma decode_encode:
  "proof_matches (proof_tree p) sh \<Longrightarrow> length (final_state_hash p) = DIGEST_SIZE \<Longrightarrow>
     deserialise_proof (serialise_proof p) sh = Some (Okay p)"
  unfolding decode_eq serialise_proof_def
  by (intro conjI exI [of _ "serialise_raw_tags (iter_raw_tags (proof_tree p))"])
     (simp_all add: stream_tags_serialise)

lemma decode_total: "\<exists>r. deserialise_proof bs sh = Some r \<and> r \<noteq> Panicked"
proof -
  have "deserialise_merkle_proof bs sh \<noteq> None \<and> deserialise_merkle_proof bs sh \<noteq> Some Panicked" for bs
    by (auto simp: deserialise_merkle_proof_def deserialise_merkle_proof_tags_eq
        deserialise_merkle_proof_values_def tree_map_eq outcome_of_def split: sum.splits)
  then obtain y where y: "deserialise_merkle_proof (drop DIGEST_SIZE bs) sh = Some y" "y \<noteq> Panicked" by blast
  then show ?thesis
    by (cases y)
       (auto simp: deserialise_proof_def deserialise_final_hash_encoding_def next_bytes_cases split: if_splits)
qed

text \<open>The shape of a Merkle tree, and that the proofs made from the tree match it.\<close>

fun tree_shape :: "merkle_tree \<Rightarrow> shape" where
  "tree_shape (MLeaf hash access data) = Leaf (length data)"
| "tree_shape (MNode hash children) = Node (map tree_shape children)"

lemma partial_tree_matches:
  "digest_ok digest \<Longrightarrow> hashes_valid digest t \<Longrightarrow> proof_matches (partial_tree t) (tree_shape t)"
proof (induction t)
  case (MNode hash children)
  then have "list_all2 proof_matches (map partial_tree children) (map tree_shape children)"
    by (auto simp: list_all2_conv_all_nth list.pred_set)
  with MNode.prems show ?case by (auto simp: digest_ok_def)
qed (auto simp: digest_ok_def)

text \<open>
  Equality of two encodings but for padding. The tags follow the final hash, four to a byte from the most
  significant bits on, so that bit \<open>k\<close> of byte \<open>i\<close> of the tags belongs to tag \<open>4 * i + (7 - k) div 2\<close>; it is
  padding when there are no more than that many tags.
\<close>

definition padding_bit :: "nat \<Rightarrow> nat \<Rightarrow> nat \<Rightarrow> bool" where
  "padding_bit n i k \<longleftrightarrow>
     DIGEST_SIZE \<le> i \<and> i < DIGEST_SIZE + div_ceil n 4 \<and> n \<le> 4 * (i - DIGEST_SIZE) + (7 - k) div 2"

definition equal_but_padding :: "nat \<Rightarrow> bytes \<Rightarrow> bytes \<Rightarrow> bool" where
  "equal_but_padding n bs cs \<longleftrightarrow>
     length bs = length cs \<and>
     (\<forall>i<length bs. \<forall>k<8. padding_bit n i k \<or> bit (bs ! i) k = bit (cs ! i) k)"

lemma all_less_4: "(\<forall>r<4. P r) \<longleftrightarrow> P 0 \<and> P 1 \<and> P 2 \<and> P (3 :: nat)"
  by (simp add: numeral_eq_Suc All_less_Suc conj_ac)

lemma all_less_8: "(\<forall>r<8. P r) \<longleftrightarrow> P 0 \<and> P 1 \<and> P 2 \<and> P 3 \<and> P 4 \<and> P 5 \<and> P 6 \<and> P (7 :: nat)"
  by (simp add: numeral_eq_Suc All_less_Suc conj_ac)

lemma tag_bits_eq:
  assumes "j \<le> 6"
  shows "drop_bit j (b :: u8) AND mask 2 = drop_bit j c AND mask 2 \<longleftrightarrow>
         bit b j = bit c j \<and> bit b (j + 1) = bit c (j + 1)"
proof -
  have "drop_bit j b AND mask 2 = drop_bit j c AND mask 2 \<longleftrightarrow> (\<forall>k<2. bit b (j + k) = bit c (j + k))"
    (is "?A \<longleftrightarrow> ?B")
  proof
    assume A: ?A
    have "bit b (j + k) = bit c (j + k)" if "k < 2" for k
      using arg_cong [OF A, of "\<lambda>w. bit w k"] that by (simp add: bit_simps)
    then show ?B by blast
  next
    assume ?B
    then show ?A by (intro bit_word_eqI) (auto simp: bit_simps)
  qed
  then show ?thesis by (simp add: numeral_eq_Suc All_less_Suc conj_ac)
qed

lemma byte_tag_eq:
  assumes "r < 4"
  shows "byte_tags b ! r = byte_tags c ! r \<longleftrightarrow> (\<forall>k<8. (7 - k) div 2 = r \<longrightarrow> bit b k = bit c k)"
proof -
  have "\<forall>r<4. byte_tags b ! r = byte_tags c ! r \<longleftrightarrow> (\<forall>k<8. (7 - k) div 2 = r \<longrightarrow> bit b k = bit c k)"
    using tag_bits_eq [of 0 b c] tag_bits_eq [of 2 b c] tag_bits_eq [of 4 b c] tag_bits_eq [of 6 b c]
    by (simp add: all_less_4 all_less_8 byte_tags_def conj_commute)
  with assms show ?thesis by blast
qed

lemma tags_eq_bits:
  assumes "length tb = div_ceil n 4" and "length tc = length tb"
  shows "take n (stream_tags tb) = take n (stream_tags tc) \<longleftrightarrow>
         (\<forall>i<length tb. \<forall>k<8. n \<le> 4 * i + (7 - k) div 2 \<or> bit (tb ! i) k = bit (tc ! i) k)"
proof -
  have le: "n \<le> 4 * length tb" using assms div_ceil_mult_ge [of 4 n] by (simp add: mult.commute)
  have four: "(7 - k) div 2 < (4 :: nat)" for k :: nat by linarith
  have "take n (stream_tags tb) = take n (stream_tags tc) \<longleftrightarrow>
      (\<forall>j<n. stream_tags tb ! j = stream_tags tc ! j)"
    using le assms by (auto simp: list_eq_iff_nth_eq)
  also have "\<dots> \<longleftrightarrow> (\<forall>i<length tb. \<forall>r<4. 4 * i + r < n \<longrightarrow>
      stream_tags tb ! (4 * i + r) = stream_tags tc ! (4 * i + r))" (is "?A \<longleftrightarrow> ?B")
  proof
    assume B: ?B
    have "stream_tags tb ! j = stream_tags tc ! j" if j: "j < n" for j
    proof -
      have "j div 4 < length tb" using le j by auto
      with B [rule_format, of "j div 4" "j mod 4"] j show ?thesis by simp
    qed
    then show ?A by blast
  qed blast
  also have "\<dots> \<longleftrightarrow> (\<forall>i<length tb. \<forall>r<4. 4 * i + r < n \<longrightarrow>
      (\<forall>k<8. (7 - k) div 2 = r \<longrightarrow> bit (tb ! i) k = bit (tc ! i) k))"
    using assms by (auto simp: stream_tags_nth byte_tag_eq)
  also have "\<dots> \<longleftrightarrow> (\<forall>i<length tb. \<forall>k<8. n \<le> 4 * i + (7 - k) div 2 \<or> bit (tb ! i) k = bit (tc ! i) k)"
    unfolding not_less [symmetric] using four by blast
  finally show ?thesis .
qed

lemma padding_ranges:
  assumes "length h = DIGEST_SIZE" and "length tb = div_ceil n 4" and "length tc = length tb"
  shows "equal_but_padding n (h @ tb @ v) (h @ tc @ v) \<longleftrightarrow> take n (stream_tags tb) = take n (stream_tags tc)"
proof -
  let ?a = "h @ tb @ v" and ?c = "h @ tc @ v"
  have "equal_but_padding n ?a ?c \<longleftrightarrow>
      (\<forall>i<length tb. \<forall>k<8. n \<le> 4 * i + (7 - k) div 2 \<or> bit (tb ! i) k = bit (tc ! i) k)" (is "?E \<longleftrightarrow> ?T")
  proof
    assume E: ?E
    show ?T
    proof (intro allI impI)
      fix i k :: nat assume "i < length tb" "k < 8"
      moreover from this E assms
      have "padding_bit n (DIGEST_SIZE + i) k \<or> bit (?a ! (DIGEST_SIZE + i)) k = bit (?c ! (DIGEST_SIZE + i)) k"
        unfolding equal_but_padding_def by simp
      ultimately show "n \<le> 4 * i + (7 - k) div 2 \<or> bit (tb ! i) k = bit (tc ! i) k"
        using assms by (simp add: padding_bit_def nth_append)
    qed
  next
    assume T: ?T
    have "padding_bit n i k \<or> bit (?a ! i) k = bit (?c ! i) k" if "i < length ?a" "k < 8" for i k
      using T [rule_format, of "i - DIGEST_SIZE" k] that assms by (auto simp: padding_bit_def nth_append)
    with assms show ?E by (simp add: equal_but_padding_def)
  qed
  with tags_eq_bits [OF assms(2,3)] show ?thesis by simp
qed

lemma equal_but_padding_parts:
  assumes "length h = DIGEST_SIZE" and "length tc = div_ceil n 4" and "equal_but_padding n bs (h @ tc @ v)"
  shows "\<exists>tb. bs = h @ tb @ v \<and> length tb = length tc"
proof -
  let ?c = "h @ tc @ v" and ?tb = "take (length tc) (drop DIGEST_SIZE bs)"
  have len: "length bs = length ?c" using assms(3) by (simp add: equal_but_padding_def)
  have same: "bs ! i = ?c ! i" if "i < length bs" "i < DIGEST_SIZE \<or> DIGEST_SIZE + length tc \<le> i" for i
  proof (rule bit_word_eqI)
    fix k assume "k < LENGTH(8)"
    with assms(3) that have "padding_bit n i k \<or> bit (bs ! i) k = bit (?c ! i) k"
      unfolding equal_but_padding_def by simp
    moreover have "\<not> padding_bit n i k" using assms(2) that by (auto simp: padding_bit_def)
    ultimately show "bit (bs ! i) k = bit (?c ! i) k" by simp
  qed
  have "bs ! i = (h @ ?tb @ v) ! i" if "i < length bs" for i
    using same [of i] that len assms(1) by (auto simp: nth_append)
  then have "bs = h @ ?tb @ v" using len assms(1) by (intro nth_equalityI) auto
  moreover have "length ?tb = length tc" using len assms(1) by simp
  ultimately show ?thesis by blast
qed

lemma decode_equal_but_padding:
  "deserialise_proof bs sh = Some (Okay p) \<longleftrightarrow>
     proof_matches (proof_tree p) sh \<and> length (final_state_hash p) = DIGEST_SIZE \<and>
     equal_but_padding (length (iter_raw_tags (proof_tree p))) bs (serialise_proof p)"
proof -
  let ?ts = "iter_raw_tags (proof_tree p)" and ?h = "final_state_hash p" and ?v = "serialise_proof_values (proof_tree p)"
  let ?tc = "serialise_raw_tags ?ts"
  have "(\<exists>tb. bs = ?h @ tb @ ?v \<and> length tb = length ?tc \<and> take (length ?ts) (stream_tags tb) = map tag_to_u8 ?ts) \<longleftrightarrow>
      equal_but_padding (length ?ts) bs (?h @ ?tc @ ?v)" if "length ?h = DIGEST_SIZE"
    using padding_ranges [OF that, of _ "length ?ts" ?tc ?v] equal_but_padding_parts [OF that, of ?tc "length ?ts" bs ?v]
    by (auto simp: length_serialise_raw_tags stream_tags_serialise)
  then show ?thesis by (auto simp: decode_eq serialise_proof_def)
qed

lemma decode_encode_eq:
  "deserialise_proof (serialise_proof p) sh = Some (Okay p) \<longleftrightarrow>
     proof_matches (proof_tree p) sh \<and> length (final_state_hash p) = DIGEST_SIZE"
  by (auto simp: decode_equal_but_padding) (auto simp: equal_but_padding_def)

section \<open>Properties\<close>

text \<open>
  C9: The proof made from a Merkle tree is exactly the partial tree that shows the data of the accessed
  leaves and hides every subtree without one behind its hash; its root hash is that of the tree, and
  decoding its encoding against the shape of the tree gives it back.
\<close>

theorem merkle_proof_faithful:
  assumes "digest_ok digest" and "hashes_valid digest t" and "length h = DIGEST_SIZE"
  shows "to_merkle_proof digest t = Some (Okay (partial_tree t)) \<and>
         proof_root_hash digest (partial_tree t) = Some (Okay (root_hash t, ())) \<and>
         deserialise_proof (serialise_proof (proof_new (partial_tree t) h)) (tree_shape t) =
           Some (Okay (proof_new (partial_tree t) h))"
  using assms decode_encode [of "proof_new (partial_tree t) h" "tree_shape t"]
  by (simp add: to_merkle_proof_eq proof_root_hash_eq proof_hash_partial_tree partial_tree_matches proof_new_def)

definition toy_digest :: "bytes \<Rightarrow> bytes" where
  "toy_digest bs = take 32 (of_nat (length bs) # bs @ replicate 32 0)"

definition toy_tree :: merkle_tree where
  "toy_tree =
     (let a = MLeaf (toy_digest [1, 2, 3]) True [1, 2, 3];
          b = MLeaf (toy_digest [4, 5]) False [4, 5];
          c = MLeaf (toy_digest [6]) False [6];
          d = MNode (toy_digest (root_hash b @ root_hash c)) [b, c]
      in MNode (toy_digest (root_hash a @ root_hash d)) [a, d])"

lemma toy_digest_ok: "digest_ok toy_digest"
  by (auto simp: digest_ok_def toy_digest_def DIGEST_SIZE_def min_def)

lemma toy_tree_valid: "hashes_valid toy_digest toy_tree"
  by (simp add: toy_tree_def Let_def)

theorem merkle_proof_faithful_witness:
  "to_merkle_proof toy_digest toy_tree = Some (Okay (partial_tree toy_tree)) \<and>
   proof_root_hash toy_digest (partial_tree toy_tree) = Some (Okay (root_hash toy_tree, ())) \<and>
   deserialise_proof (serialise_proof (proof_new (partial_tree toy_tree) (replicate 32 7))) (tree_shape toy_tree) =
     Some (Okay (proof_new (partial_tree toy_tree) (replicate 32 7)))"
  by (rule merkle_proof_faithful [OF toy_digest_ok toy_tree_valid]) (simp add: DIGEST_SIZE_def)

text \<open>
  C10: Decoding undoes encoding, for exactly the proofs that match the shape of the full tree and have a
  final hash of the right length. The inputs that decode to such a proof are exactly those that have the
  length of its encoding and agree with the encoding in every bit but the padding of the last byte of tags:
  that padding is never looked at, so encodings are not unique. Decoding ends without a panic for every input.
\<close>

theorem proof_decoding_exact:
  "(deserialise_proof (serialise_proof p) sh = Some (Okay p) \<longleftrightarrow>
     proof_matches (proof_tree p) sh \<and> length (final_state_hash p) = DIGEST_SIZE) \<and>
   (deserialise_proof bs sh = Some (Okay p) \<longleftrightarrow>
     proof_matches (proof_tree p) sh \<and> length (final_state_hash p) = DIGEST_SIZE \<and>
     equal_but_padding (length (iter_raw_tags (proof_tree p))) bs (serialise_proof p)) \<and>
   (\<exists>r. deserialise_proof bs sh = Some r \<and> r \<noteq> Panicked)"
  using decode_encode_eq [of p sh] decode_equal_but_padding [of bs sh p] decode_total [of bs sh] by simp

end
