(* ===== verification/State_Views.thy ===== *)
theory State_Views
  imports State_Commitment Merkle_Proof_Correct
begin

text \<open>
  Proofs as partial views of the Merkle tree of a state. A proof that fits the shape of the tree and has
  its root hash shows the tree's own data, unless two of the hashed byte strings collide; the verifier's
  state read from such a proof knows only what the state holds.
\<close>

section \<open>Views of a tree\<close>

text \<open>
  \<open>part_of strict t p\<close>: the part \<open>p\<close> has the shape of the tree \<open>t\<close>, and when \<open>strict\<close>, its data and hashes
  are those of the tree.
\<close>

fun part_of :: "bool \<Rightarrow> merkle_tree \<Rightarrow> proof_part \<Rightarrow> bool" where
  "part_of strict t Absent = True"
| "part_of strict t (Present (Leaf (Blind h))) = (strict \<longrightarrow> h = root_hash t)"
| "part_of strict (MLeaf _ _ data) (Present (Leaf (Read d))) = (strict \<longrightarrow> d = data)"
| "part_of strict (MNode _ ts) (Present (Node ps)) = list_all2 (\<lambda>t p. part_of strict t (Present p)) ts ps"
| "part_of strict (MLeaf _ _ _) (Present (Node _)) = False"
| "part_of strict (MNode _ _) (Present (Leaf (Read _))) = False"

text \<open>The number of branches of a node is right, and its branches, absent ones below what is not shown.\<close>

definition node_ok :: "nat \<Rightarrow> proof_part \<Rightarrow> bool" where
  "node_ok n p \<longleftrightarrow>
     (case p of Present (Node ps) \<Rightarrow> length ps = n | Present (Leaf (Read _)) \<Rightarrow> False | _ \<Rightarrow> True)"

definition children_of :: "nat \<Rightarrow> proof_part \<Rightarrow> proof_part list" where
  "children_of n p = (case p of Present (Node ps) \<Rightarrow> map Present ps | _ \<Rightarrow> replicate n Absent)"

definition blind_hash :: "proof_part \<Rightarrow> hash option" where
  "blind_hash p = (case p of Present (Leaf (Blind h)) \<Rightarrow> Some h | _ \<Rightarrow> None)"

lemma proof_part_cases [case_names Absent Blind Read Node]:
  obtains "p = Absent" | h where "p = Present (Leaf (Blind h))" | d where "p = Present (Leaf (Read d))"
    | ps where "p = Present (Node ps)"
  by (metis merkle_proof_leaf.exhaust proof_part.exhaust tree.exhaust)

lemma children_simps [simp]:
  "children_of n Absent = replicate n Absent"
  "children_of n (Present (Leaf l)) = replicate n Absent"
  "children_of n (Present (Node ps)) = map Present ps"
  by (simp_all add: children_of_def)

lemma node_ok_simps [simp]:
  "node_ok n Absent"
  "node_ok n (Present (Leaf (Blind h)))"
  "\<not> node_ok n (Present (Leaf (Read d)))"
  "node_ok n (Present (Node ps)) \<longleftrightarrow> length ps = n"
  by (simp_all add: node_ok_def)

lemma blind_hash_simps [simp]:
  "blind_hash Absent = None"
  "blind_hash (Present (Leaf (Blind h))) = Some h"
  "blind_hash (Present (Leaf (Read d))) = None"
  "blind_hash (Present (Node ps)) = None"
  by (simp_all add: blind_hash_def)

lemma length_children: "node_ok n p \<Longrightarrow> length (children_of n p) = n"
  by (cases p rule: proof_part_cases) simp_all

lemma part_of_node:
  "part_of strict (MNode h ts) p \<longleftrightarrow>
     node_ok (length ts) p \<and> list_all2 (part_of strict) ts (children_of (length ts) p) \<and>
     (strict \<longrightarrow> (\<forall>b. blind_hash p = Some b \<longrightarrow> b = h))"
  by (cases p rule: proof_part_cases)
     (auto simp: list_all2_map2 list_all2_conv_all_nth dest: list_all2_lengthD)

section \<open>Trees of fixed depth\<close>

fun shaped :: "nat \<Rightarrow> proof_part \<Rightarrow> bool" where
  "shaped 0 p \<longleftrightarrow> True"
| "shaped (Suc k) p \<longleftrightarrow> node_ok 4 p \<and> list_all (shaped k) (children_of 4 p)"

text \<open>The parts at depth \<open>k\<close>.\<close>

fun slots :: "nat \<Rightarrow> proof_part \<Rightarrow> proof_part list" where
  "slots 0 p = [p]"
| "slots (Suc k) p = concat (map (slots k) (children_of 4 p))"

lemma length_slots: "shaped k p \<Longrightarrow> length (slots k p) = 4 ^ k"
proof (induction k arbitrary: p)
  case (Suc k)
  then have "map (length \<circ> slots k) (children_of 4 p) = replicate 4 (4 ^ k)"
    by (intro replicate_eqI) (auto simp: list.pred_set length_children)
  then show ?case by (simp add: length_concat sum_list_replicate)
qed simp

lemma slots_Absent: "slots k Absent = replicate (4 ^ k) Absent"
proof (induction k)
  case (Suc k)
  have "concat (replicate n (replicate m x)) = replicate (n * m) x" for n m and x :: proof_part
    by (induction n) (simp_all add: replicate_add)
  with Suc show ?case by simp
qed simp

lemma shaped_Absent: "shaped k Absent"
  by (induction k) (auto simp: list.pred_set)

lemma list_all2_concat: "list_all2 (list_all2 P) xss yss \<Longrightarrow> list_all2 P (concat xss) (concat yss)"
  by (induction rule: list_all2_induct) (auto intro: list_all2_appendI)

lemma list_all2_concat_iff:
  assumes "list_all2 (\<lambda>xs ys. length xs = length ys) xss yss"
  shows "list_all2 P (concat xss) (concat yss) \<longleftrightarrow> list_all2 (list_all2 P) xss yss"
  using assms by (induction rule: list_all2_induct) (auto simp: list_all2_append)

lemma part_of_perfect:
  "length ts = 4 ^ k \<Longrightarrow>
   (part_of strict (perfect (node_of digest) k ts) p \<longrightarrow> shaped k p \<and> list_all2 (part_of strict) ts (slots k p)) \<and>
   (shaped k p \<and> list_all2 (part_of False) ts (slots k p) \<longrightarrow> part_of False (perfect (node_of digest) k ts) p)"
proof (induction k arbitrary: ts p strict)
  case 0
  then show ?case by (cases ts) auto
next
  case (Suc k)
  let ?cs = "leaf_chunks (4 ^ k) ts"
  have cs: "length ?cs = 4" "\<And>c. c \<in> set ?cs \<Longrightarrow> length c = 4 ^ k" "concat ?cs = ts"
    using Suc.prems length_chunks [of "4 ^ k" ts 4] length_in_chunks [of "4 ^ k" ts 4] concat_chunks [of "4 ^ k" ts]
    by auto
  have node: "part_of strict (perfect (node_of digest) (Suc k) ts) p \<longleftrightarrow>
      node_ok 4 p \<and> list_all2 (\<lambda>c. part_of strict (perfect (node_of digest) k c)) ?cs (children_of 4 p) \<and>
      (strict \<longrightarrow> (\<forall>b. blind_hash p = Some b \<longrightarrow> b = root_hash (perfect (node_of digest) (Suc k) ts)))" for strict
    by (simp add: node_of_def part_of_node cs(1) list_all2_map1)
  have "shaped (Suc k) p \<and> list_all2 (part_of strict) ts (slots (Suc k) p)"
    if p: "part_of strict (perfect (node_of digest) (Suc k) ts) p"
  proof -
    have ok: "node_ok 4 p" using p node by blast
    have "list_all2 (\<lambda>c. part_of strict (perfect (node_of digest) k c)) ?cs (children_of 4 p)" using p node by blast
    then have all: "list_all2 (\<lambda>c q. shaped k q \<and> list_all2 (part_of strict) c (slots k q)) ?cs (children_of 4 p)"
      by (rule list.rel_mono_strong) (use Suc.IH cs(2) in blast)
    then have "list_all2 (part_of strict) (concat ?cs) (concat (map (slots k) (children_of 4 p)))"
      by (intro list_all2_concat) (auto simp: list_all2_map2 elim: list_all2_mono)
    moreover have "list_all (shaped k) (children_of 4 p)"
      using all by (auto simp: list_all2_conv_all_nth list_all_length)
    ultimately show ?thesis using ok cs(3) by simp
  qed
  moreover have "part_of False (perfect (node_of digest) (Suc k) ts) p"
    if p: "shaped (Suc k) p" "list_all2 (part_of False) ts (slots (Suc k) p)"
  proof -
    have lengths: "list_all2 (\<lambda>xs ys. length xs = length ys) ?cs (map (slots k) (children_of 4 p))"
      using p(1) cs by (auto simp: list_all2_conv_all_nth length_children length_slots list_all_length)
    have "list_all2 (list_all2 (part_of False)) ?cs (map (slots k) (children_of 4 p))"
      using p(2) list_all2_concat_iff [OF lengths, of "part_of False"] cs(3) by simp
    then have "list_all2 (\<lambda>c q. part_of False (perfect (node_of digest) k c) q) ?cs (children_of 4 p)"
      unfolding list_all2_map2 by (rule list.rel_mono_strong) (use Suc.IH cs(2) p(1) in \<open>auto simp: list.pred_set\<close>)
    then show ?thesis using node [of False] p(1) by simp
  qed
  ultimately show ?case by blast
qed

section \<open>Proofs with the root hash of a tree\<close>

text \<open>The byte strings that are hashed for the root hash of a proof, and of a tree.\<close>

fun proof_inputs :: "(bytes \<Rightarrow> bytes) \<Rightarrow> merkle_proof \<Rightarrow> bytes set" where
  "proof_inputs digest (Leaf (Blind _)) = {}"
| "proof_inputs digest (Leaf (Read data)) = {data}"
| "proof_inputs digest (Node ps) = insert (concat (map (proof_hash digest) ps)) (\<Union>p\<in>set ps. proof_inputs digest p)"

fun tree_inputs :: "merkle_tree \<Rightarrow> bytes set" where
  "tree_inputs (MLeaf _ _ data) = {data}"
| "tree_inputs (MNode _ ts) = insert (concat (map root_hash ts)) (\<Union>t\<in>set ts. tree_inputs t)"

text \<open>The hashes in a proof have the length that their type gives them.\<close>

fun proof_typed :: "merkle_proof \<Rightarrow> bool" where
  "proof_typed (Leaf (Blind h)) \<longleftrightarrow> length h = DIGEST_SIZE"
| "proof_typed (Leaf (Read _)) \<longleftrightarrow> True"
| "proof_typed (Node ps) \<longleftrightarrow> list_all proof_typed ps"

lemma length_hashes:
  assumes "digest_ok digest"
  shows "proof_typed p \<Longrightarrow> length (proof_hash digest p) = DIGEST_SIZE"
    and "hashes_valid digest t \<Longrightarrow> length (root_hash t) = DIGEST_SIZE"
  using assms by (cases "(digest, p)" rule: proof_hash.cases; cases t; simp add: digest_ok_def)+

text \<open>Without collisions among these, a proof of the right shape and root hash shows the tree.\<close>

lemma part_of_strict:
  assumes ok: "digest_ok digest"
  shows "part_of False t (Present p) \<Longrightarrow> hashes_valid digest t \<Longrightarrow> proof_typed p \<Longrightarrow> proof_hash digest p = root_hash t \<Longrightarrow>
    inj_on digest (proof_inputs digest p \<union> tree_inputs t) \<Longrightarrow> part_of True t (Present p)"
proof (induction t arbitrary: p)
  case (MLeaf h access data)
  show ?case
  proof (cases p rule: proof_typed.cases)
    case (2 d)
    have "digest d = digest data" using MLeaf.prems(2,4) 2 by simp
    from inj_onD [OF MLeaf.prems(5) this] 2 show ?thesis by simp
  qed (use MLeaf.prems(1,4) in simp_all)
next
  case (MNode h ts)
  show ?case
  proof (cases p rule: proof_typed.cases)
    case (3 ps)
    have all: "list_all2 (\<lambda>t p. part_of False t (Present p)) ts ps" using MNode.prems(1) 3 by simp
    then have len: "length ts = length ps" by (rule list_all2_lengthD)
    have "concat (map (proof_hash digest) ps) = concat (map root_hash ts)"

    proof (rule inj_onD [OF MNode.prems(5)])
      show "digest (concat (map (proof_hash digest) ps)) = digest (concat (map root_hash ts))"
        using MNode.prems(2,4) 3 by simp
    qed (use 3 in simp_all)
    moreover have "\<forall>(x, y) \<in> set (zip (map (proof_hash digest) ps) (map root_hash ts)). length x = length y"
      using MNode.prems(2,3) 3
      by (auto simp: set_zip length_hashes [OF ok] list_all_length)
    ultimately have "map (proof_hash digest) ps = map root_hash ts" using len by (intro concat_injective) simp_all
    then have same: "i < length ps \<Longrightarrow> proof_hash digest (ps ! i) = root_hash (ts ! i)" for i
      using len by (metis length_map nth_map)
    have "part_of True (ts ! i) (Present (ps ! i))" if i: "i < length ps" for i
    proof (rule MNode.IH)
      show "ts ! i \<in> set ts" using i len by simp
      show "part_of False (ts ! i) (Present (ps ! i))" using all i by (simp add: list_all2_conv_all_nth)
      show "hashes_valid digest (ts ! i)" "proof_typed (ps ! i)"
        using MNode.prems(2,3) 3 i len by (simp_all add: list_all_length)
      show "proof_hash digest (ps ! i) = root_hash (ts ! i)" using same i .
      show "inj_on digest (proof_inputs digest (ps ! i) \<union> tree_inputs (ts ! i))"
        by (rule inj_on_subset [OF MNode.prems(5)]) (use 3 i len in \<open>auto intro: nth_mem\<close>)
    qed
    with 3 len show ?thesis by (simp add: list_all2_conv_all_nth)
  qed (use MNode.prems in auto)
qed

section \<open>Reading a proof\<close>

lemma obind_assoc: "obind (obind m f) g = obind m (\<lambda>x. obind (f x) g)"
  by (simp add: obind_def split: option.split fallible.split)

lemma branches_eq:
  "obind (ret (deserialise_as_node p)) (branches f ls) = Some (Okay xs) \<longleftrightarrow>
     node_ok (length ls) p \<and> omap (\<lambda>(l, b). f l b) (zip ls (children_of (length ls) p)) = Some (Okay xs)"
proof -
  have absent: "branches f ls nd = omap (\<lambda>(l, b). f l b) (zip ls (replicate (length ls) Absent))"
    if "nd = PAbsent \<or> (\<exists>h. nd = PBlinded h)" for nd
    using that by (induction ls) auto
  have present: "branches f ls (PPresent bs) = Some (Okay xs) \<longleftrightarrow>
      length bs = length ls \<and> omap (\<lambda>(l, b). f l b) (zip ls bs) = Some (Okay xs)" for bs
  proof (induction ls arbitrary: bs xs)
    case (Cons l ls)
    then show ?case by (cases bs) (auto simp: obind_eq_Okay)
  qed (auto split: if_splits)
  show ?thesis
    by (cases p rule: proof_part_cases) (simp_all add: deserialise_as_node_def absent present)
qed

lemma work_params_four:
  "work_params 4 m start (4 * m) = [(start, m), (start + m, m), (start + m * 2, m), (start + m * 3, m)]"
proof -
  have "work_params (Suc (Suc (Suc (Suc 0)))) m start (4 * m) = [(start, m), (start + m, m), (start + m * 2, m), (start + m * 3, m)]"
    by (simp add: Let_def)
  moreover have "4 = Suc (Suc (Suc (Suc 0)))" by simp
  ultimately show ?thesis by metis
qed

lemma work_merkle_params_power:
  "work_merkle_params MERKLE_ARITY start (u * 4 ^ Suc k) =
     [(start, u * 4 ^ k), (start + u * 4 ^ k, u * 4 ^ k), (start + u * 4 ^ k * 2, u * 4 ^ k), (start + u * 4 ^ k * 3, u * 4 ^ k)]"
proof -
  have "u * 4 ^ Suc k = 4 * (u * 4 ^ k)" by simp
  moreover have "div_ceil (4 * (u * 4 ^ k)) 4 = u * 4 ^ k" by (simp add: div_ceil_def)
  ultimately show ?thesis by (simp only: work_merkle_params_def MERKLE_ARITY_def work_params_four)
qed

lemma four_children: "node_ok 4 p \<Longrightarrow> \<exists>a b c d. children_of 4 p = [a, b, c, d]"
  using length_children [of 4 p] by (auto simp: eval_nat_numeral length_Suc_conv)

lemma branches_four:
  "obind (ret (deserialise_as_node p)) (branches f [l1, l2, l3, l4]) = Some (Okay xs) \<longleftrightarrow>
     node_ok 4 p \<and> omap (\<lambda>(l, b). f l b) (zip [l1, l2, l3, l4] (children_of 4 p)) = Some (Okay xs)"
proof -
  have "length [l1, l2, l3, l4] = 4" by simp
  with branches_eq [of p f "[l1, l2, l3, l4]" xs] show ?thesis by (simp only:)
qed

lemma omap_four:
  "omap f (zip [l1, l2, l3, l4] [a, b, c, d]) = Some (Okay xs) \<longleftrightarrow>
     (\<exists>x y z w. f (l1, a) = Some (Okay x) \<and> f (l2, b) = Some (Okay y) \<and> f (l3, c) = Some (Okay z) \<and>
        f (l4, d) = Some (Okay w) \<and> xs = [x, y, z, w])"
  by (auto simp: obind_eq_Okay)

text \<open>The pages of a dynamic region are the leaves shown.\<close>

definition page_ok :: "proof_part \<Rightarrow> bool" where
  "page_ok p \<longleftrightarrow>
     (case p of
        Present (Node _) \<Rightarrow> False
      | Present (Leaf (Read d)) \<Rightarrow> length d = MERKLE_LEAF_SIZE
      | _ \<Rightarrow> True)"

fun pages_from :: "nat \<Rightarrow> proof_part list \<Rightarrow> (nat \<times> bytes) list" where
  "pages_from start [] = []"
| "pages_from start (p # ps) =
     (case p of Present (Leaf (Read d)) \<Rightarrow> [(start, d)] | _ \<Rightarrow> []) @ pages_from (start + MERKLE_LEAF_SIZE) ps"

lemma pages_from_append:
  "pages_from start (ps @ qs) = pages_from start ps @ pages_from (start + MERKLE_LEAF_SIZE * length ps) qs"
  by (induction ps arbitrary: start) (simp_all add: algebra_simps)

lemma into_leaf_raw_eq:
  "ret (into_leaf_raw MERKLE_LEAF_SIZE p) = Some (Okay r) \<longleftrightarrow>
     page_ok p \<and> r = (case p of Absent \<Rightarrow> PAbsent | Present (Leaf (Blind h)) \<Rightarrow> PBlinded h | Present (Leaf (Read d)) \<Rightarrow> PPresent d)"
  by (cases p rule: proof_part_cases)
     (auto simp: into_leaf_raw_def deserialise_as_leaf_def map_present_fallible_def page_ok_def)

lemma parse_pages_eq:
  "start mod MERKLE_LEAF_SIZE = 0 \<Longrightarrow>
   parse_pages start (MERKLE_LEAF_SIZE * 4 ^ k) p = Some (Okay pgs) \<longleftrightarrow>
     shaped k p \<and> list_all page_ok (slots k p) \<and> pgs = pages_from start (slots k p)"
proof (induction k arbitrary: start p pgs)
  case 0
  have "page_id start = start" using 0 by (simp add: page_id_def)
  then show ?case
    by (cases p rule: proof_part_cases)
       (auto simp: parse_pages.simps [of start MERKLE_LEAF_SIZE] obind_eq_Okay into_leaf_raw_eq page_ok_def)
next
  case (Suc k)
  define n where "n = MERKLE_LEAF_SIZE * 4 ^ k"
  have big: "\<not> MERKLE_LEAF_SIZE * 4 ^ Suc k \<le> MERKLE_LEAF_SIZE"
    using n_less_n_mult_m [OF leaf_size_pos, of "4 ^ Suc k"] one_less_power [of "4::nat" "Suc k"] by (simp only: not_le) simp
  have mods: "(start + n * i) mod MERKLE_LEAF_SIZE = 0" for i
    using Suc.prems by (simp add: n_def mod_add_eq [symmetric] mult.assoc)
  have mod1: "(start + n) mod MERKLE_LEAF_SIZE = 0" using mods [of 1] by simp
  note IH = Suc.IH [OF Suc.prems, folded n_def] Suc.IH [OF mod1, folded n_def] Suc.IH [OF mods [of 2], folded n_def]
    Suc.IH [OF mods [of 3], folded n_def]
  have "parse_pages start (MERKLE_LEAF_SIZE * 4 ^ Suc k) p =
      obind (obind (ret (deserialise_as_node p)) (branches (\<lambda>(start, length) p. parse_pages start length p)
        [(start, n), (start + n, n), (start + n * 2, n), (start + n * 3, n)]))
      (\<lambda>pages. Some (Okay (concat pages)))"
    using big by (subst parse_pages.simps) (simp add: work_merkle_params_power obind_assoc n_def del: power_Suc)
  then have step: "parse_pages start (MERKLE_LEAF_SIZE * 4 ^ Suc k) p = Some (Okay pgs) \<longleftrightarrow>
      (\<exists>pages. node_ok 4 p \<and> omap (\<lambda>((start, length), p). parse_pages start length p)
         (zip [(start, n), (start + n, n), (start + n * 2, n), (start + n * 3, n)] (children_of 4 p)) = Some (Okay pages) \<and>
       concat pages = pgs)"
    by (simp add: obind_eq_Okay [of "obind _ _"] branches_four split_def del: power_Suc)
  show ?case
  proof (cases "node_ok 4 p")
    case True
    then obtain a b c d where cs: "children_of 4 p = [a, b, c, d]" using four_children by blast
    have len: "MERKLE_LEAF_SIZE * length (slots k q) = n" if "shaped k q" for q using that by (simp add: length_slots n_def)
    have times: "n * 2 = n + n" "n * 3 = n + (n + n)" by simp_all
    have slots: "slots (Suc k) p = slots k a @ slots k b @ slots k c @ slots k d" by (simp add: cs)
    have "parse_pages start (MERKLE_LEAF_SIZE * 4 ^ Suc k) p = Some (Okay pgs) \<longleftrightarrow>
       (shaped k a \<and> shaped k b \<and> shaped k c \<and> shaped k d) \<and> list_all page_ok (slots (Suc k) p) \<and>
       pgs = pages_from start (slots k a) @ pages_from (start + n) (slots k b) @ pages_from (start + n * 2) (slots k c) @
         pages_from (start + n * 3) (slots k d)"
      unfolding step cs slots omap_four by (auto simp: True IH)
    also have "\<dots> \<longleftrightarrow> shaped (Suc k) p \<and> list_all page_ok (slots (Suc k) p) \<and> pgs = pages_from start (slots (Suc k) p)"
      unfolding slots by (auto simp: True cs pages_from_append len times add.assoc)
    finally show ?thesis .
  next
    case False
    then show ?thesis unfolding step by simp
  qed
qed

lemma from_pages_below:
  "x < start \<Longrightarrow> foldl (\<lambda>m (pid, data). m(pid \<mapsto> page_from_full data)) m (pages_from start ps) x = m x"
proof (induction ps arbitrary: m start)
  case (Cons p ps)
  then show ?case by (cases p rule: proof_part_cases) simp_all
qed simp

lemma from_pages_eq:
  "foldl (\<lambda>m (pid, data). m(pid \<mapsto> page_from_full data)) m (pages_from start ps) (start + MERKLE_LEAF_SIZE * i) =
     (if i < length ps then (case ps ! i of Present (Leaf (Read d)) \<Rightarrow> Some (page_from_full d) | _ \<Rightarrow> m (start + MERKLE_LEAF_SIZE * i))
      else m (start + MERKLE_LEAF_SIZE * i))"
proof (induction ps arbitrary: m start i)
  case (Cons p ps)
  show ?case
  proof (cases i)
    case 0
    then show ?thesis using leaf_size_pos
      by (cases p rule: proof_part_cases) (simp_all add: from_pages_below fun_upd_same del: fun_upd_apply)
  next
    case (Suc j)
    then show ?thesis using Cons.IH [of _ "start + MERKLE_LEAF_SIZE" j] leaf_size_pos
      by (cases p rule: proof_part_cases) (simp_all add: algebra_simps fun_upd_other del: fun_upd_apply cong: proof_part.case_cong tree.case_cong merkle_proof_leaf.case_cong)
  qed
qed simp

lemma from_pages_dom:
  "foldl (\<lambda>m (pid, data). m(pid \<mapsto> page_from_full data)) m (pages_from start ps) x = Some pg \<Longrightarrow>
     m x = Some pg \<or> (\<exists>i<length ps. x = start + MERKLE_LEAF_SIZE * i \<and> (\<exists>d. ps ! i = Present (Leaf (Read d)) \<and> pg = page_from_full d))"
proof (induction ps arbitrary: m start)
  case (Cons p ps)
  then show ?case
  proof (cases p rule: proof_part_cases)
    case (Read d)
    with Cons.prems have "foldl (\<lambda>m (pid, data). m(pid \<mapsto> page_from_full data)) (m(start \<mapsto> page_from_full d))
        (pages_from (start + MERKLE_LEAF_SIZE) ps) x = Some pg" by (simp del: fun_upd_apply)
    from Cons.IH [OF this] Read leaf_size_pos show ?thesis
      by (auto simp: less_Suc_eq_0_disj algebra_simps split: if_splits)
  qed (use Cons.IH [of m "start + MERKLE_LEAF_SIZE"] in \<open>auto simp: less_Suc_eq_0_disj algebra_simps\<close>)
qed simp

lemma many_deserialiser_eq:
  "k < fuel \<Longrightarrow> many_deserialiser elem fuel (4 ^ k) p = Some (Okay xs) \<longleftrightarrow>
     shaped k p \<and> omap elem (slots k p) = Some (Okay xs)"
proof (induction k arbitrary: fuel p xs)
  case 0
  then show ?case by (cases fuel) (auto simp: obind_eq_Okay)
next
  case (Suc k)
  then obtain f where f: "fuel = Suc f" "k < f" by (cases fuel) auto
  have params: "work_merkle_params MERKLE_ARITY 0 (4 ^ Suc k) = [(0, 4 ^ k), (4 ^ k, 4 ^ k), (4 ^ k * 2, 4 ^ k), (4 ^ k * 3, 4 ^ k)]"
    using work_merkle_params_power [of 0 1 k] by simp
  have "many_deserialiser elem fuel (4 ^ Suc k) p =
      obind (obind (ret (deserialise_as_node p)) (branches (\<lambda>(_, n) p. many_deserialiser elem f n p)
        [(0 :: nat, 4 ^ k), (4 ^ k, 4 ^ k), (4 ^ k * 2, 4 ^ k), (4 ^ k * 3, 4 ^ k)])) (\<lambda>parts. Some (Okay (concat parts)))"
    using one_less_power [of "4::nat" "Suc k"] by (simp add: f params obind_assoc del: power_Suc branches.simps)
  then have step: "many_deserialiser elem fuel (4 ^ Suc k) p = Some (Okay xs) \<longleftrightarrow>
      (\<exists>parts. node_ok 4 p \<and> omap (\<lambda>((_, n), p). many_deserialiser elem f n p)
         (zip [(0 :: nat, 4 ^ k), (4 ^ k, 4 ^ k), (4 ^ k * 2, 4 ^ k), (4 ^ k * 3, 4 ^ k)] (children_of 4 p)) = Some (Okay parts) \<and>
       concat parts = xs)"
    by (simp add: obind_eq_Okay [of "obind _ _"] branches_four split_def del: power_Suc)
  show ?case
  proof (cases "node_ok 4 p")
    case True
    then obtain a b c d where cs: "children_of 4 p = [a, b, c, d]" using four_children by blast
    have append: "omap elem (ps @ qs) = Some (Okay zs) \<longleftrightarrow>
        (\<exists>us vs. omap elem ps = Some (Okay us) \<and> omap elem qs = Some (Okay vs) \<and> zs = us @ vs)" for ps qs zs
      by (auto simp: omap_eq_Okay append_eq_map_conv)
    show ?thesis unfolding step cs omap_four by (auto simp: True cs Suc.IH [OF f(2)] append)
  next
    case False
    then show ?thesis unfolding step by simp
  qed
qed

section \<open>The verifier's state\<close>

text \<open>
  Layouts whose dynamic regions and arrays have a power of the arity many leaves, and arrays of one
  layout: those for which the tree of a proof has the shape that the verifier expects.
\<close>

fun perfect_alloc :: "('t, 'r, 'd) alloc \<Rightarrow> bool" where
  "perfect_alloc (Cells t n r) \<longleftrightarrow> True"
| "perfect_alloc (DynCells n d) \<longleftrightarrow> (\<exists>k. n = MERKLE_LEAF_SIZE * 4 ^ k)"
| "perfect_alloc (Parts as) \<longleftrightarrow> list_all perfect_alloc as"
| "perfect_alloc (Many as) \<longleftrightarrow>
     (\<exists>k. length as = 4 ^ k) \<and> list_all perfect_alloc as \<and> (\<forall>a\<in>set as. layout_of a = layout_of (hd as))"

lemma layout_of_simps [simp]:
  "layout_of (Cells t n r) = Cells t n ()"
  "layout_of (DynCells n d) = DynCells n ()"
  "layout_of (Parts as) = Parts (map layout_of as)"
  "layout_of (Many as) = Many (map layout_of as)"
  by (simp_all add: layout_of_def)

text \<open>Decoding reads back what was encoded, at the front of any bytes.\<close>

definition codec_ok :: "('t \<Rightarrow> 'v \<Rightarrow> bytes option) \<Rightarrow> ('t \<Rightarrow> bytes \<Rightarrow> ('v \<times> bytes) option) \<Rightarrow> bool" where
  "codec_ok enc dec \<longleftrightarrow> (\<forall>t v bs rest. enc t v = Some bs \<longrightarrow> dec t (bs @ rest) = Some (v, rest))"

lemma binary_deserialise_eq:
  assumes codec: "codec_ok enc dec" and "length vs = n" "\<forall>v\<in>set vs. enc t v \<noteq> None"
  shows "binary_deserialise dec t n (cells_bytes enc t vs) = Some vs"
proof -
  have "deserialise_region dec t (length vs) (cells_bytes enc t vs @ rest) = Some (vs, rest)" for rest
    using assms(3)
  proof (induction vs)
    case (Cons v vs)
    then obtain bs where "enc t v = Some bs" by auto
    with Cons codec show ?case by (simp add: cells_bytes_def codec_ok_def)
  qed (simp add: cells_bytes_def)
  from this [of "[]"] assms(2) show ?thesis by (simp add: binary_deserialise_def)
qed

lemma into_leaf_eq:
  "ret (into_leaf dec t n p) = Some (Okay r) \<longleftrightarrow>
     (case p of
        Absent \<Rightarrow> r = PAbsent
      | Present (Node _) \<Rightarrow> False
      | Present (Leaf (Blind h)) \<Rightarrow> r = PBlinded h
      | Present (Leaf (Read d)) \<Rightarrow> (\<exists>vs. binary_deserialise dec t n d = Some vs \<and> r = PPresent vs))"
  by (cases p rule: proof_part_cases)
     (auto simp: into_leaf_def deserialise_as_leaf_def map_present_fallible_def split: option.splits)

lemma omap_list_all2: "omap f xs = Some (Okay ys) \<longleftrightarrow> list_all2 (\<lambda>x y. f x = Some (Okay y)) xs ys"
proof (induction xs arbitrary: ys)
  case (Cons x xs)
  then show ?case by (cases ys) (auto simp: obind_eq_Okay)
qed auto

text \<open>What \<^verbatim>\<open>to_verifier_alloc\<close> accepts and gives, for the layouts considered.\<close>

lemma to_verifier_alloc_eq:
  shows "to_verifier_alloc dec (Cells t n ()) p = Some (Okay v) \<longleftrightarrow>
      (case p of
         Present (Node _) \<Rightarrow> False
       | Present (Leaf (Read d)) \<Rightarrow>
           (\<exists>vs. binary_deserialise dec t n d = Some vs \<and> v = Cells t n (PartialRegion (map Some vs)))
       | _ \<Rightarrow> v = Cells t n AbsentRegion)"
    and "to_verifier_alloc dec (DynCells (MERKLE_LEAF_SIZE * 4 ^ k) ()) p = Some (Okay v) \<longleftrightarrow>
      shaped k p \<and> list_all page_ok (slots k p) \<and>
      v = DynCells (MERKLE_LEAF_SIZE * 4 ^ k) (from_pages (pages_from 0 (slots k p)))"
    and "to_verifier_alloc dec (Parts ls) p = Some (Okay v) \<longleftrightarrow>
      node_ok (length ls) p \<and>
      (\<exists>vs. list_all2 (\<lambda>(l, q) v. to_verifier_alloc dec l q = Some (Okay v)) (zip ls (children_of (length ls) p)) vs \<and>
            v = Parts vs)"
proof -
  show "to_verifier_alloc dec (Cells t n ()) p = Some (Okay v) \<longleftrightarrow>
      (case p of
         Present (Node _) \<Rightarrow> False
       | Present (Leaf (Read d)) \<Rightarrow>
           (\<exists>vs. binary_deserialise dec t n d = Some vs \<and> v = Cells t n (PartialRegion (map Some vs)))
       | _ \<Rightarrow> v = Cells t n AbsentRegion)"
    by (cases p rule: proof_part_cases) (auto simp: obind_eq_Okay into_leaf_eq)
  show "to_verifier_alloc dec (DynCells (MERKLE_LEAF_SIZE * 4 ^ k) ()) p = Some (Okay v) \<longleftrightarrow>
      shaped k p \<and> list_all page_ok (slots k p) \<and>
      v = DynCells (MERKLE_LEAF_SIZE * 4 ^ k) (from_pages (pages_from 0 (slots k p)))"
    by (auto simp: obind_eq_Okay parse_pages_eq)
  show "to_verifier_alloc dec (Parts ls) p = Some (Okay v) \<longleftrightarrow>
      node_ok (length ls) p \<and>
      (\<exists>vs. list_all2 (\<lambda>(l, q) v. to_verifier_alloc dec l q = Some (Okay v)) (zip ls (children_of (length ls) p)) vs \<and>
            v = Parts vs)"
    by (auto simp: obind_assoc [symmetric] obind_eq_Okay [of "obind _ _"] branches_eq omap_list_all2 split_def)
qed

lemma to_verifier_alloc_Many:
  assumes "length ls = 4 ^ k" and "\<forall>l\<in>set ls. l = hd ls"
  shows "to_verifier_alloc dec (Many ls) p = Some (Okay v) \<longleftrightarrow>
    shaped k p \<and> (\<exists>vs. list_all2 (\<lambda>q v. to_verifier_alloc dec (hd ls) q = Some (Okay v)) (slots k p) vs \<and> v = Many vs)"
proof -
  have "ls \<noteq> []" using assms(1) by auto
  then obtain l ls' where ls: "ls = l # ls'" by (cases ls) auto
  have "k < 4 ^ k" by (simp add: power_gt_expt)
  then have many: "many_deserialiser (to_verifier_alloc dec l) (4 ^ k) (4 ^ k) p = Some (Okay vs) \<longleftrightarrow>
      shaped k p \<and> list_all2 (\<lambda>q v. to_verifier_alloc dec l q = Some (Okay v)) (slots k p) vs" for vs
    by (simp only: many_deserialiser_eq omap_list_all2)
  have "to_verifier_alloc dec (Many ls) p =
      obind (many_deserialiser (to_verifier_alloc dec l) (4 ^ k) (4 ^ k) p) (\<lambda>as. Some (Okay (Many as)))"
    unfolding to_verifier_alloc.simps assms(1) by (simp add: ls)
  then show ?thesis by (auto simp: obind_eq_Okay many ls)
qed

end
