(* ===== verification/State_Verifier.thy ===== *)
theory State_Verifier
  imports State_Views
begin

text \<open>
  The state a verifier reads from a proof, and the hash of its partial state. When the proof is a view
  of the Merkle tree of a state, the verifier's state knows only what that state holds, and the hash of
  the partial state after any changes is the hash of the changed state, or an error.
\<close>

section \<open>The verifier's state knows the prover's\<close>

definition start_proof :: "('t, 'v) owned_alloc \<Rightarrow> ('t, 'v) proof_alloc" where
  "start_proof = map_alloc (\<lambda>t. t) proof_region_bind proof_dyn_region_bind"

lemma start_proof_simps [simp]:
  "start_proof (Cells t n vs) = Cells t n (proof_region_bind vs)"
  "start_proof (DynCells n bs) = DynCells n (proof_dyn_region_bind bs)"
  "start_proof (Parts as) = Parts (map start_proof as)"
  "start_proof (Many as) = Many (map start_proof as)"
  by (simp_all add: start_proof_def)

lemma bind_simps [simp]:
  "pr_source (proof_region_bind vs) = vs" "pr_writes (proof_region_bind vs) = Map.empty"
  "pr_access (proof_region_bind vs) = False" "pd_source (proof_dyn_region_bind bs) = bs"
  "pd_reads (proof_dyn_region_bind bs) = {}" "pd_writes (proof_dyn_region_bind bs) = Map.empty"
  by (simp_all add: proof_region_bind_def proof_dyn_region_bind_def)

lemma current_bind [simp]:
  "current_cells (proof_region_bind vs) = vs"
  "current_bytes (proof_dyn_region_bind bs) = bs"
  by (simp_all add: current_cells_def current_bytes_def map_nth)

lemma length_leaves:
  "length bs = MERKLE_LEAF_SIZE * 4 ^ k \<Longrightarrow> length (leaf_chunks MERKLE_LEAF_SIZE bs) = 4 ^ k"
  using leaf_size_pos by (intro length_chunks) simp_all

lemma nth_leaves_from: "i < length bss \<Longrightarrow> leaves_from f k bss ! i = f (k + i) (bss ! i)"
proof (induction bss arbitrary: i k)
  case (Cons bs bss)
  then show ?case by (cases i) simp_all
qed simp

lemma tree_of_dyn:
  assumes "length (pd_source d) = MERKLE_LEAF_SIZE * 4 ^ k"
  shows "tree_of digest enc (DynCells n d) =
    perfect (node_of digest) k
      (leaves_from (leaf_tree digest (pd_reads d) (dom (pd_writes d))) 0 (leaf_chunks MERKLE_LEAF_SIZE (pd_source d)))"
  using assms by (simp add: tree_root_perfect length_leaves)

lemma tree_of_many:
  "length as = 4 ^ k \<Longrightarrow> tree_of digest enc (Many as) = perfect (node_of digest) k (map (tree_of digest enc) as)"
  by (simp add: tree_root_perfect)

lemma part_of_perfectD:
  "part_of strict (perfect (node_of digest) k ts) p \<Longrightarrow> length ts = 4 ^ k \<Longrightarrow> shaped k p"
  "part_of strict (perfect (node_of digest) k ts) p \<Longrightarrow> length ts = 4 ^ k \<Longrightarrow> list_all2 (part_of strict) ts (slots k p)"
  using part_of_perfect by blast+

lemma part_of_perfectI:
  "length ts = 4 ^ k \<Longrightarrow> shaped k p \<Longrightarrow> list_all2 (part_of False) ts (slots k p) \<Longrightarrow> part_of False (perfect (node_of digest) k ts) p"
  using part_of_perfect by blast

lemma part_of_leaf:
  "part_of strict (MLeaf h access data) p \<longleftrightarrow>
     (case p of
        Present (Node _) \<Rightarrow> False
      | Present (Leaf (Read d)) \<Rightarrow> strict \<longrightarrow> d = data
      | Present (Leaf (Blind b)) \<Rightarrow> strict \<longrightarrow> b = h
      | Absent \<Rightarrow> True)"
  by (cases p rule: proof_part_cases) simp_all

lemma page_ok_part_of: "page_ok p \<Longrightarrow> part_of False (MLeaf h access data) p"
  by (cases p rule: proof_part_cases) (simp_all add: page_ok_def)

lemma many_layouts:
  assumes "perfect_alloc (Many as)"
  shows "\<forall>l\<in>set (map layout_of as). l = hd (map layout_of as)"
    and "i < length as \<Longrightarrow> layout_of (as ! i) = hd (map layout_of as)"
    and "i < length as \<Longrightarrow> perfect_alloc (as ! i)"
proof -
  show "i < length as \<Longrightarrow> perfect_alloc (as ! i)" using assms unfolding perfect_alloc.simps list_all_length by blast
  have "as \<noteq> []" and all: "\<forall>a\<in>set as. layout_of a = layout_of (hd as)" using assms by auto
  then show same: "\<forall>l\<in>set (map layout_of as). l = hd (map layout_of as)" by (metis imageE list.map_sel(1) list.set_map)
  then show "i < length as \<Longrightarrow> layout_of (as ! i) = hd (map layout_of as)" by (metis length_map nth_map nth_mem)
qed

text \<open>A proof from which a state can be read has the shape of the state's tree.\<close>

lemma to_verifier_alloc_fits:
  "perfect_alloc a \<Longrightarrow> state_wf enc (source_state a) \<Longrightarrow> to_verifier_alloc dec (layout_of a) p = Some (Okay v) \<Longrightarrow>
     part_of False (tree_of digest enc a) p"
proof (induction a arbitrary: p v)
  case (Cells t n r)
  then show ?case
    by (cases p rule: proof_part_cases) (auto simp: to_verifier_alloc_eq part_of_leaf simp del: to_verifier_alloc.simps)
next
  case (DynCells n d)
  then obtain k where k: "n = MERKLE_LEAF_SIZE * 4 ^ k" by auto
  then have len: "length (pd_source d) = MERKLE_LEAF_SIZE * 4 ^ k" using DynCells.prems by simp
  have p: "shaped k p" "list_all page_ok (slots k p)"
    using DynCells.prems(3) k by (simp_all add: to_verifier_alloc_eq del: to_verifier_alloc.simps)
  have "list_all2 (part_of False) (leaves_from (leaf_tree digest (pd_reads d) (dom (pd_writes d))) 0 (leaf_chunks MERKLE_LEAF_SIZE (pd_source d))) (slots k p)"
    using p length_leaves [OF len]
    by (simp add: list_all2_conv_all_nth length_slots nth_leaves_from leaf_tree_def list_all_length page_ok_part_of)
  then show ?case unfolding tree_of_dyn [OF len] using p(1) length_leaves [OF len] by (intro part_of_perfectI) simp_all
next
  case (Parts as)
  from Parts.prems(3) obtain vs where p: "node_ok (length as) p"
    "list_all2 (\<lambda>(l, q) v. to_verifier_alloc dec l q = Some (Okay v)) (zip (map layout_of as) (children_of (length as) p)) vs"
    by (auto simp: to_verifier_alloc_eq simp del: to_verifier_alloc.simps)
  have "part_of False (tree_of digest enc (as ! i)) (children_of (length as) p ! i)" if i: "i < length as" for i
  proof (rule Parts.IH)
    show "as ! i \<in> set as" using i by simp
    show "perfect_alloc (as ! i)" "state_wf enc (source_state (as ! i))" using Parts.prems i by (simp_all add: list_all_length)
    show "to_verifier_alloc dec (layout_of (as ! i)) (children_of (length as) p ! i) = Some (Okay (vs ! i))"
      using p i by (auto simp: list_all2_conv_all_nth length_children)
  qed
  with p(1) show ?case by (simp add: node_of_def part_of_node list_all2_conv_all_nth length_children)
next
  case (Many as)
  from Many.prems(1) obtain k where k: "length as = 4 ^ k" unfolding perfect_alloc.simps by blast
  note same = many_layouts [OF Many.prems(1)]
  obtain vs where p: "shaped k p"
    "list_all2 (\<lambda>q v. to_verifier_alloc dec (hd (map layout_of as)) q = Some (Okay v)) (slots k p) vs"
    using Many.prems(3) to_verifier_alloc_Many [OF _ same(1), of k dec p v] k by (auto simp del: to_verifier_alloc.simps)
  have "part_of False (tree_of digest enc (as ! i)) (slots k p ! i)" if i: "i < length as" for i
  proof (rule Many.IH)
    show "as ! i \<in> set as" using i by simp
    show "perfect_alloc (as ! i)" using same(3) i .
    show "state_wf enc (source_state (as ! i))" using Many.prems(2) i by (simp add: list_all_length)
    show "to_verifier_alloc dec (layout_of (as ! i)) (slots k p ! i) = Some (Okay (vs ! i))"
      using p i k by (simp add: same(2) list_all2_conv_all_nth length_slots)
  qed
  then have "list_all2 (part_of False) (map (tree_of digest enc) as) (slots k p)"
    using k p(1) by (simp add: list_all2_conv_all_nth length_slots)
  then show ?case unfolding tree_of_many [OF k] using p(1) k by (intro part_of_perfectI) simp_all
qed

text \<open>What is read from a view of the tree is what the state holds.\<close>

lemma pages_knows:
  assumes len: "length src = MERKLE_LEAF_SIZE * 4 ^ k"
    and ok: "list_all page_ok ps" and views: "list_all2 (part_of True) (leaves_from (leaf_tree digest rs changes) 0 (leaf_chunks MERKLE_LEAF_SIZE src)) ps"
  shows "knows_bytes (MERKLE_LEAF_SIZE * 4 ^ k) (proof_dyn_region_bind src) (from_pages (pages_from 0 ps))"
proof -
  let ?pages = "from_pages (pages_from 0 ps)"
  have ps: "length ps = 4 ^ k" using list_all2_lengthD [OF views] length_leaves [OF len] by simp
  have pages: "\<exists>i<4 ^ k. x = MERKLE_LEAF_SIZE * i \<and> pg = page_from_full (take MERKLE_LEAF_SIZE (drop (i * MERKLE_LEAF_SIZE) src)) \<and>
      length (take MERKLE_LEAF_SIZE (drop (i * MERKLE_LEAF_SIZE) src)) = MERKLE_LEAF_SIZE" if "?pages x = Some pg" for x pg
  proof -
    from that from_pages_dom [of Map.empty 0 ps x pg] ps obtain i d where
      i: "i < 4 ^ k" "x = MERKLE_LEAF_SIZE * i" "ps ! i = Present (Leaf (Read d))" "pg = page_from_full d"
      by (auto simp: from_pages_def)
    have "part_of True (leaf_tree digest rs changes i (leaf_chunks MERKLE_LEAF_SIZE src ! i)) (ps ! i)"
      using list_all2_nthD2 [OF views, of i] i(1) ps length_leaves [OF len] by (simp add: nth_leaves_from)
    then have "d = leaf_chunks MERKLE_LEAF_SIZE src ! i" using i(3) by (simp add: leaf_tree_def)
    then have d: "d = take MERKLE_LEAF_SIZE (drop (i * MERKLE_LEAF_SIZE) src)"
      using nth_chunks [OF leaf_size_pos, of i src] i(1) length_leaves [OF len] by simp
    have "length d = MERKLE_LEAF_SIZE" using ok i ps by (auto simp: list_all_length page_ok_def)
    with i d show ?thesis by blast
  qed
  have byte: "src ! x = b" if "x < length src" and "page_byte ?pages x = Some b" for x b
  proof -
    from that obtain pg where pg: "?pages (page_id x) = Some pg" "b = page_data pg ! (x mod MERKLE_LEAF_SIZE)"
      by (auto simp: page_byte_def split: option.splits if_splits)
    from pages [OF pg(1)] obtain i where i: "page_id x = MERKLE_LEAF_SIZE * i"
      "pg = page_from_full (take MERKLE_LEAF_SIZE (drop (i * MERKLE_LEAF_SIZE) src))" by blast
    have "b = src ! (i * MERKLE_LEAF_SIZE + x mod MERKLE_LEAF_SIZE)"
      using pg(2) i that(1) page_id_offset [of x] leaf_size_pos by (simp add: page_from_full_def mult.commute)
    with i(1) page_id_offset [of x] show ?thesis by (simp add: mult.commute)
  qed
  have "pages_wf ?pages"
    unfolding pages_wf_def using pages by (fastforce simp: page_from_full_def)
  with byte len show ?thesis
    by (auto simp: knows_bytes_def)
qed

lemma to_verifier_alloc_knows:
  assumes codec: "codec_ok enc dec"
  shows "perfect_alloc a \<Longrightarrow> state_wf enc (source_state a) \<Longrightarrow> to_verifier_alloc dec (layout_of a) p = Some (Okay v) \<Longrightarrow>
     part_of True (tree_of digest enc a) p \<Longrightarrow> alloc_rel knows_cells knows_bytes (start_proof (source_state a)) v"
proof (induction a arbitrary: p v)
  case (Cells t n r)
  have "v = Cells t n AbsentRegion \<or> v = Cells t n (PartialRegion (map Some (pr_source r)))"
    using Cells.prems binary_deserialise_eq [OF codec, of "pr_source r" n t]
    by (cases p rule: proof_part_cases) (auto simp: to_verifier_alloc_eq simp del: to_verifier_alloc.simps)
  then show ?case using Cells.prems(2) by (elim disjE) simp_all
next
  case (DynCells n d)
  then obtain k where k: "n = MERKLE_LEAF_SIZE * 4 ^ k" by auto
  then have len: "length (pd_source d) = MERKLE_LEAF_SIZE * 4 ^ k" using DynCells.prems by simp
  have p: "shaped k p" "list_all page_ok (slots k p)" "v = DynCells n (from_pages (pages_from 0 (slots k p)))"
    using DynCells.prems(3) k by (simp_all add: to_verifier_alloc_eq del: to_verifier_alloc.simps)
  have "list_all2 (part_of True) (leaves_from (leaf_tree digest (pd_reads d) (dom (pd_writes d))) 0 (leaf_chunks MERKLE_LEAF_SIZE (pd_source d))) (slots k p)"
    using DynCells.prems(4) length_leaves [OF len] unfolding tree_of_dyn [OF len] by (simp add: part_of_perfectD)
  from pages_knows [OF len p(2) this] p(3) k show ?case by simp
next
  case (Parts as)
  from Parts.prems(3) obtain vs where p: "node_ok (length as) p" "v = Parts vs"
    "list_all2 (\<lambda>(l, q) v. to_verifier_alloc dec l q = Some (Okay v)) (zip (map layout_of as) (children_of (length as) p)) vs"
    by (auto simp: to_verifier_alloc_eq simp del: to_verifier_alloc.simps)
  have views: "list_all2 (part_of True) (map (tree_of digest enc) as) (children_of (length as) p)"
    using Parts.prems(4) by (simp add: node_of_def part_of_node)
  have "alloc_rel knows_cells knows_bytes (start_proof (source_state (as ! i))) (vs ! i)" if i: "i < length as" for i
  proof (rule Parts.IH)
    show "as ! i \<in> set as" using i by simp
    show "perfect_alloc (as ! i)" "state_wf enc (source_state (as ! i))" using Parts.prems i by (simp_all add: list_all_length)
    show "to_verifier_alloc dec (layout_of (as ! i)) (children_of (length as) p ! i) = Some (Okay (vs ! i))"
      using p i by (auto simp: list_all2_conv_all_nth length_children)
    show "part_of True (tree_of digest enc (as ! i)) (children_of (length as) p ! i)"
      using views i by (simp add: list_all2_conv_all_nth)
  qed
  moreover have "length vs = length as" using p by (auto simp: length_children dest: list_all2_lengthD)
  ultimately show ?case using p(2) by (simp add: list_all2_conv_all_nth)
next
  case (Many as)
  from Many.prems(1) obtain k where k: "length as = 4 ^ k" unfolding perfect_alloc.simps by blast
  note same = many_layouts [OF Many.prems(1)]
  obtain vs where p: "shaped k p" "v = Many vs"
    "list_all2 (\<lambda>q v. to_verifier_alloc dec (hd (map layout_of as)) q = Some (Okay v)) (slots k p) vs"
    using Many.prems(3) to_verifier_alloc_Many [OF _ same(1), of k dec p v] k by (auto simp del: to_verifier_alloc.simps)
  have views: "list_all2 (part_of True) (map (tree_of digest enc) as) (slots k p)"
    using Many.prems(4) k unfolding tree_of_many [OF k] by (simp add: part_of_perfectD)
  have "alloc_rel knows_cells knows_bytes (start_proof (source_state (as ! i))) (vs ! i)" if i: "i < length as" for i
  proof (rule Many.IH)
    show "as ! i \<in> set as" using i by simp
    show "perfect_alloc (as ! i)" using same(3) i .
    show "state_wf enc (source_state (as ! i))" using Many.prems(2) i by (simp add: list_all_length)
    show "to_verifier_alloc dec (layout_of (as ! i)) (slots k p ! i) = Some (Okay (vs ! i))"
      using p i k by (simp add: same(2) list_all2_conv_all_nth length_slots)
    show "part_of True (tree_of digest enc (as ! i)) (slots k p ! i)" using views i by (simp add: list_all2_conv_all_nth)
  qed
  moreover have "length vs = length as" using p(1,3) k by (auto simp: length_slots dest: list_all2_lengthD)
  ultimately show ?case using p(2) by (simp add: list_all2_conv_all_nth)
qed

end
