(* ===== verification/State_Hashing.thy ===== *)
theory State_Hashing
  imports State_Verifier
begin

text \<open>
  The hash of a partial state. The queue with which \<^verbatim>\<open>partial_state_hash\<close> works on dynamic regions and
  arrays opens the tree level by level and then combines the results like a stack machine; its result is
  the recursion \<open>span_hash\<close> over the results of the leaves.
\<close>

section \<open>The work queue\<close>

lemma into_branches_eq: "node_ok n p \<Longrightarrow> into_branches_with_hash n p = Inr (children_of n p, blind_hash p)"
  by (cases p rule: proof_part_cases) (simp_all add: into_branches_with_hash_def)

text \<open>The queue when the tree has been opened to depth \<open>d\<close>.\<close>

fun events :: "nat \<Rightarrow> nat \<Rightarrow> nat \<Rightarrow> nat \<Rightarrow> proof_part \<Rightarrow> event list" where
  "events u 0 k start p = [Span start (u * 4 ^ k) p]"
| "events u (Suc d) k start p =
     concat (map (\<lambda>i. events u d (k - 1) (start + u * 4 ^ (k - 1) * i) (children_of 4 p ! i)) [0, 1, 2, 3]) @ [NodeEvent (blind_hash p)]"

lemma events_four:
  assumes "children_of 4 p = [a, b, c, e]"
  shows "events u (Suc d) (Suc j) start p =
    events u d j start a @ events u d j (start + u * 4 ^ j) b @ events u d j (start + u * 4 ^ j * 2) c @
    events u d j (start + u * 4 ^ j * 3) e @ [NodeEvent (blind_hash p)]"
  by (simp add: assms)

declare events.simps(2) [simp del]

lemma push_work_items_eq:
  assumes "node_ok 4 p" "0 < u"
  shows "push_work_items start (u * 4 ^ Suc k) (children_of 4 p) @ [NodeEvent (blind_hash p)] = events u (Suc 0) (Suc k) start p"
proof -
  obtain a b c d where cs: "children_of 4 p = [a, b, c, d]" using four_children [OF assms(1)] by blast
  have "length [a, b, c, d] = MERKLE_ARITY" by (simp add: MERKLE_ARITY_def)
  then have "push_work_items start (u * 4 ^ Suc k) [a, b, c, d] =
      map (\<lambda>(q, s, l). Span s l q) (filter (\<lambda>(q, s, l). l > 0)
        (zip [a, b, c, d] (work_merkle_params MERKLE_ARITY start (u * 4 ^ Suc k))))"
    by (simp only: push_work_items_def)
  then show ?thesis using assms(2) by (simp add: cs events_four [OF cs] work_merkle_params_power del: power_Suc)
qed

fun prepend :: "'a list \<Rightarrow> 'e + 'a list \<times> 's \<Rightarrow> 'e + 'a list \<times> 's" where
  "prepend xs (Inl e) = Inl e"
| "prepend xs (Inr (ys, s)) = Inr (xs @ ys, s)"

lemma prepend_prepend [simp]: "prepend xs (prepend ys r) = prepend (xs @ ys) r"
  by (cases "(xs, r)" rule: prepend.cases) auto

lemma prepend_Nil [simp]: "prepend [] r = r"
  by (cases r rule: sum.exhaust) auto

lemma prepend_eq_Inl: "prepend xs r = Inl e \<longleftrightarrow> r = Inl e"
  by (cases "(xs, r)" rule: prepend.cases) auto

lemma prepend_eq_Inr: "prepend xs r = Inr (zs, s) \<longleftrightarrow> (\<exists>ys. r = Inr (ys, s) \<and> zs = xs @ ys)"
  by (cases "(xs, r)" rule: prepend.cases) auto

text \<open>Going on with results, unless there was an error.\<close>

definition with_results ::
  "('e + 'a list \<times> 's) option \<Rightarrow> ('a list \<Rightarrow> 's \<Rightarrow> ('e + 'b) option) \<Rightarrow> ('e + 'b) option" where
  "with_results m f = Option.bind m (\<lambda>r. case r of Inl e \<Rightarrow> Some (Inl e) | Inr (xs, s) \<Rightarrow> f xs s)"

lemma with_results_simps [simp]:
  "with_results None f = None"
  "with_results (Some (Inl e)) f = Some (Inl e)"
  "with_results (Some (Inr (xs, s))) f = f xs s"
  by (simp_all add: with_results_def)

lemma with_results_prepend [simp]: "with_results (map_option (prepend xs) m) f = with_results m (\<lambda>ys. f (xs @ ys))"
  by (auto simp: with_results_def split: bind_split sum.split)

lemma with_results_assoc [simp]: "with_results (with_results m f) g = with_results m (\<lambda>xs s. with_results (f xs s) g)"
  by (auto simp: with_results_def split: bind_split sum.split)

lemma with_results_cong:
  "(\<And>xs s. m = Some (Inr (xs, s)) \<Longrightarrow> f xs s = g xs s) \<Longrightarrow> with_results m f = with_results m g"
  by (auto simp: with_results_def split: bind_split sum.split)

lemma with_results_eq_Inr:
  "with_results m f = Some (Inr y) \<longleftrightarrow> (\<exists>xs s. m = Some (Inr (xs, s)) \<and> f xs s = Some (Inr y))"
  by (cases m rule: option.exhaust; cases "the m") auto

text \<open>The results combined, level by level.\<close>

fun span_hash :: "(bytes \<Rightarrow> bytes) \<Rightarrow> nat \<Rightarrow> proof_part \<Rightarrow> (partial_hash_error + hash) list \<Rightarrow> partial_hash_error + hash" where
  "span_hash digest 0 p rs = hd rs"
| "span_hash digest (Suc k) p rs =
     combine_partial_hashes digest (map (\<lambda>(q, rs). span_hash digest k q rs) (zip (children_of 4 p) (leaf_chunks (4 ^ k) rs))) (blind_hash p)"

lemma span_hash_four:
  assumes "children_of 4 p = [a, b, c, e]" "length r1 = 4 ^ k" "length r2 = 4 ^ k" "length r3 = 4 ^ k" "length r4 = 4 ^ k"
  shows "span_hash digest (Suc k) p (r1 @ r2 @ r3 @ r4) =
    combine_partial_hashes digest [span_hash digest k a r1, span_hash digest k b r2, span_hash digest k c r3, span_hash digest k e r4] (blind_hash p)"
proof -
  have ne: "r1 \<noteq> []" "r2 \<noteq> []" "r3 \<noteq> []" "r4 \<noteq> []" using assms by auto
  have "leaf_chunks (4 ^ k) (r1 @ r2 @ r3 @ r4) = [r1, r2, r3, r4]"
    using assms ne by (simp add: chunks_Cons [of "4 ^ k" "_ @ _"] chunks_all)
  with assms(1) show ?thesis by simp
qed

text \<open>Leaves are the spans of \<open>u\<close> elements.\<close>

locale span_hashing =
  fixes digest :: "bytes \<Rightarrow> bytes" and is_leaf :: "nat \<Rightarrow> bool" and u :: nat
    and leaf :: "nat \<Rightarrow> proof_part \<Rightarrow> 's \<Rightarrow> ((partial_hash_error + (partial_hash_error + hash)) \<times> 's) option"
  assumes unit_pos: "0 < u" and is_leaf_power: "is_leaf (u * 4 ^ k) \<longleftrightarrow> k = 0"
begin

abbreviation loop :: "event list \<Rightarrow> (partial_hash_error + hash) list \<Rightarrow> 's \<Rightarrow> (partial_hash_error + hash) option" where
  "loop \<equiv> span_hash_loop digest is_leaf leaf"

lemma loop_open:
  "d < k \<Longrightarrow> shaped k p \<Longrightarrow> loop (events u d k start p @ queue) [] s = loop (queue @ events u (Suc d) k start p) [] s"
proof (induction d arbitrary: k start p queue)
  case 0
  then obtain j where k: "k = Suc j" by (cases k) auto
  with 0 have ok: "node_ok 4 p" by simp
  have "\<not> is_leaf (u * 4 ^ Suc j)" using is_leaf_power [of "Suc j"] by simp
  moreover have "into_branches_with_hash MERKLE_ARITY p = Inr (children_of 4 p, blind_hash p)"
    using into_branches_eq [OF ok] by (simp add: MERKLE_ARITY_def)
  ultimately show ?case
    using push_work_items_eq [OF ok unit_pos, of start j] by (subst span_hash_loop.simps) (simp add: k del: power_Suc)
next
  case (Suc d)
  then obtain j where k: "k = Suc j" "d < j" by (cases k) auto
  obtain a b c e where cs: "children_of 4 p = [a, b, c, e]" using Suc.prems(2) four_children k by (metis shaped.simps(2))
  have sh: "shaped j a" "shaped j b" "shaped j c" "shaped j e" using Suc.prems(2) k cs by simp_all
  note IH = Suc.IH [OF k(2) sh(1)] Suc.IH [OF k(2) sh(2)] Suc.IH [OF k(2) sh(3)] Suc.IH [OF k(2) sh(4)]
  have "loop (events u (Suc d) k start p @ queue) [] s =
      loop ([NodeEvent (blind_hash p)] @ queue @ events u (Suc d) j start a @ events u (Suc d) j (start + u * 4 ^ j) b @
        events u (Suc d) j (start + u * 4 ^ j * 2) c @ events u (Suc d) j (start + u * 4 ^ j * 3) e) [] s"
    by (simp add: k events_four [OF cs] IH)
  also have "\<dots> = loop (queue @ events u (Suc (Suc d)) k start p) [] s"
    by (subst span_hash_loop.simps) (simp add: k events_four [OF cs])
  finally show ?case .
qed

lemma loop_opened: "d \<le> k \<Longrightarrow> shaped k p \<Longrightarrow> loop [Span start (u * 4 ^ k) p] [] s = loop (events u d k start p) [] s"
proof (induction d)
  case (Suc d)
  then show ?case using loop_open [of d k p start "[]" s] by simp
qed simp

text \<open>The leaves in order; an error of a leaf ends the work.\<close>

fun leaf_results :: "nat \<Rightarrow> proof_part list \<Rightarrow> 's \<Rightarrow> (partial_hash_error + (partial_hash_error + hash) list \<times> 's) option" where
  "leaf_results start [] s = Some (Inr ([], s))"
| "leaf_results start (p # ps) s =
     Option.bind (leaf start p s) (\<lambda>r.
       case fst r of
         Inl e \<Rightarrow> Some (Inl e)
       | Inr h \<Rightarrow> map_option (prepend [h]) (leaf_results (start + u) ps (snd r)))"

lemma leaf_results_append:
  "leaf_results start (ps @ qs) s =
     with_results (leaf_results start ps s) (\<lambda>hs s. map_option (prepend hs) (leaf_results (start + u * length ps) qs s))"
proof (induction ps arbitrary: start s)
  case (Cons p ps)
  show ?case
    by (cases "leaf start p s")
       (auto simp: Cons.IH with_results_def algebra_simps option.map_comp comp_def split: sum.splits option.splits prod.splits bind_split)
qed (simp add: option.map_ident cong: option.map_cong)

lemma length_leaf_results: "leaf_results start ps s = Some (Inr (rs, s')) \<Longrightarrow> length rs = length ps"
proof (induction ps arbitrary: start s rs)
  case (Cons p ps)
  then obtain r where r: "leaf start p s = Some r" by (auto simp: bind_eq_Some_conv)
  with Cons show ?case by (cases "fst r") (auto simp: prepend_eq_Inr)
qed simp

lemma leaf_results_error: "leaf_results start ps s = Some (Inl e) \<Longrightarrow> \<exists>x p s s'. leaf x p s = Some (Inl e, s')"
proof (induction ps arbitrary: start s)
  case (Cons p ps)
  then obtain r where r: "leaf start p s = Some r" by (auto simp: bind_eq_Some_conv)
  with Cons show ?case by (cases r; cases "fst r") (auto simp: prepend_eq_Inl)
qed simp

lemma loop_leaves:
  "shaped k p \<Longrightarrow>
   loop (events u k k start p @ queue) hs s =
     with_results (leaf_results start (slots k p) s) (\<lambda>rs s. loop queue (hs @ [span_hash digest k p rs]) s)"
proof (induction k arbitrary: start p queue hs s)
  case 0
  have "is_leaf u" using is_leaf_power [of 0] by simp
  then show ?case by (subst span_hash_loop.simps) (auto simp: with_results_def split: bind_split sum.split)
next
  case (Suc k)
  have ok: "node_ok 4 p" using Suc.prems by simp
  obtain a b c e where cs: "children_of 4 p = [a, b, c, e]" using four_children [OF ok] by blast
  have sh: "shaped k a" "shaped k b" "shaped k c" "shaped k e" using Suc.prems cs by simp_all
  define n where "n = u * 4 ^ k"
  have at: "start + n * 2 = start + n + n" "start + n * 3 = start + n + n + n" by simp_all
  have len: "u * length (slots k q) = n" "length rs = 4 ^ k"
    if "shaped k q" "leaf_results x (slots k q) s = Some (Inr (rs, s'))" for q x s rs s'
    using that length_leaf_results [OF that(2)] by (simp_all add: length_slots n_def)
  have node: "loop (NodeEvent (blind_hash p) # queue) (hs @ [h1, h2, h3, h4]) s =
      loop queue (hs @ [combine_partial_hashes digest [h1, h2, h3, h4] (blind_hash p)]) s" for h1 h2 h3 h4 s
    by (subst span_hash_loop.simps) (simp add: MERKLE_ARITY_def)
  have "loop (events u (Suc k) (Suc k) start p @ queue) hs s =
      with_results (leaf_results start (slots k a) s) (\<lambda>r1 s.
      with_results (leaf_results (start + n) (slots k b) s) (\<lambda>r2 s.
      with_results (leaf_results (start + n + n) (slots k c) s) (\<lambda>r3 s.
      with_results (leaf_results (start + n + n + n) (slots k e) s) (\<lambda>r4 s.
        loop queue (hs @ [combine_partial_hashes digest [span_hash digest k a r1, span_hash digest k b r2, span_hash digest k c r3, span_hash digest k e r4] (blind_hash p)]) s))))"
    unfolding events_four [OF cs] n_def [symmetric] at
    by (simp add: Suc.IH [OF sh(1)] Suc.IH [OF sh(2)] Suc.IH [OF sh(3)] Suc.IH [OF sh(4)] node)
  also have "\<dots> =
      with_results (leaf_results start (slots k a) s) (\<lambda>r1 s.
      with_results (leaf_results (start + n) (slots k b) s) (\<lambda>r2 s.
      with_results (leaf_results (start + n + n) (slots k c) s) (\<lambda>r3 s.
      with_results (leaf_results (start + n + n + n) (slots k e) s) (\<lambda>r4 s.
        loop queue (hs @ [span_hash digest (Suc k) p (r1 @ r2 @ r3 @ r4)]) s))))"
    by (intro with_results_cong) (simp add: span_hash_four [OF cs] len(2) [OF sh(1)] len(2) [OF sh(2)] len(2) [OF sh(3)] len(2) [OF sh(4)] del: span_hash.simps)
  also have "\<dots> = with_results (leaf_results start (slots (Suc k) p) s) (\<lambda>rs s. loop queue (hs @ [span_hash digest (Suc k) p rs]) s)"
  proof -
    have slots: "slots (Suc k) p = slots k a @ slots k b @ slots k c @ slots k e" by (simp add: cs)
    have "u * length (slots k q) = n" if "shaped k q" for q using that by (simp add: length_slots n_def)
    then show ?thesis unfolding slots by (simp add: leaf_results_append sh del: span_hash.simps)
  qed
  finally show ?case .
qed

text \<open>The result of the loop.\<close>

lemma loop_eq:
  "shaped k p \<Longrightarrow> loop [Span start (u * 4 ^ k) p] [] s = with_results (leaf_results start (slots k p) s) (\<lambda>rs s. Some (span_hash digest k p rs))"
  using loop_opened [of k k p start s] loop_leaves [of k p start "[]" "[]" s] by (simp add: span_hash_loop.simps [of _ _ _ "[]"])

end

interpretation dyn_spans: span_hashing digest "\<lambda>len. len \<le> MERKLE_LEAF_SIZE" MERKLE_LEAF_SIZE "dyn_leaf_hash digest region"
  for digest region
proof
  show "MERKLE_LEAF_SIZE * 4 ^ k \<le> MERKLE_LEAF_SIZE \<longleftrightarrow> k = 0" for k
    using n_less_n_mult_m [OF leaf_size_pos, of "4 ^ k"] one_less_power [of "4::nat" k] by (cases "k = 0") auto
qed (rule leaf_size_pos)

interpretation many_spans: span_hashing digest "\<lambda>len. len = 1" 1 many_leaf_hash for digest
  by unfold_locales simp_all

section \<open>Results that can be trusted\<close>

text \<open>
  Of a part with hash \<open>before\<close> in the initial state and \<open>after\<close> in the final state, a result is right when
  a hash is the final one, and when a missing one means that nothing has changed.
\<close>

definition right_result :: "hash \<Rightarrow> hash \<Rightarrow> partial_hash_error + hash \<Rightarrow> bool" where
  "right_result before after r \<longleftrightarrow> (\<forall>h. r = Inr h \<longrightarrow> h = after) \<and> (r = Inl PotentiallyRecoverable \<longrightarrow> before = after)"

lemma right_result_simps [simp]:
  "right_result before after (Inr h) \<longleftrightarrow> h = after"
  "right_result before after (Inl PotentiallyRecoverable) \<longleftrightarrow> before = after"
  "right_result before after (Inl Fatal)"
  "right_result before after (Inl (PartialHash e))"
  "right_result before after (Inl (FromProof e'))"
  by (simp_all add: right_result_def)

lemma expect_hashes_eq:
  "expect_hashes True rs = Some hs \<longleftrightarrow> rs = map Inr hs"
  "expect_hashes False rs = Some hs \<longleftrightarrow> hs = [] \<and> set rs \<subseteq> {Inl PotentiallyRecoverable}"
proof -
  show "expect_hashes True rs = Some hs \<longleftrightarrow> rs = map Inr hs"
  proof (induction rs arbitrary: hs)
    case (Cons r rs)
    then show ?case by (cases hs) (auto split: sum.splits partial_hash_error.splits)
  qed auto
  show "expect_hashes False rs = Some hs \<longleftrightarrow> hs = [] \<and> set rs \<subseteq> {Inl PotentiallyRecoverable}"
    by (induction rs) (auto split: sum.splits partial_hash_error.splits)
qed

lemma combine_partial_right:
  assumes ok: "digest_ok digest"
    and rs: "length befores = length rs" "length afters = length rs" "\<And>i. i < length rs \<Longrightarrow> right_result (befores ! i) (afters ! i) (rs ! i)"
    and blind: "\<And>h. shown = Some h \<Longrightarrow> h = digest (concat befores)"
  shows "right_result (digest (concat befores)) (digest (concat afters)) (combine_partial_hashes digest rs shown)"
proof (cases rs)
  case Nil
  with ok rs show ?thesis by (simp add: combine_partial_hashes_def combine_or_error_def)
next
  case (Cons r rs')
  have same: "befores = afters" if "set rs \<subseteq> {Inl PotentiallyRecoverable}"
  proof (rule nth_equalityI)
    fix i assume "i < length befores"
    then have "i < length rs" using rs by simp
    moreover from this that have "rs ! i = Inl PotentiallyRecoverable" by (auto dest!: subsetD [OF _ nth_mem])
    ultimately show "befores ! i = afters ! i" using rs(3) [of i] by simp
  qed (use rs in simp)
  have afters: "hs = afters" if "rs = map Inr hs" for hs
    using rs that by (intro nth_equalityI) auto
  have cases: "combine_partial_hashes digest rs shown =
      (case r of
         Inr _ \<Rightarrow> (case expect_hashes True rs of None \<Rightarrow> Inl Fatal | Some hs \<Rightarrow> Inr (digest (concat hs)))
       | Inl PotentiallyRecoverable \<Rightarrow>
           (case expect_hashes False rs of None \<Rightarrow> Inl Fatal
            | Some _ \<Rightarrow> (case shown of None \<Rightarrow> Inl PotentiallyRecoverable | Some hash \<Rightarrow> Inr hash))
       | Inl _ \<Rightarrow> Inl Fatal)"
    using ok by (auto simp: combine_partial_hashes_def combine_or_error_def Cons split: sum.split partial_hash_error.split option.split)
  show ?thesis
    unfolding cases using same afters blind
    by (auto simp: expect_hashes_eq split: sum.split partial_hash_error.split option.split)
qed

lemma root_hash_perfect:
  "root_hash (perfect (node_of digest) k ts) = perfect (\<lambda>c. digest (concat c)) k (map root_hash ts)" if "length ts = 4 ^ k"
  using that
proof (induction k arbitrary: ts)
  case 0
  then show ?case by (cases ts) simp_all
next
  case (Suc k)
  have "map (\<lambda>c. root_hash (perfect (node_of digest) k c)) (leaf_chunks (4 ^ k) ts) =
      map (\<lambda>c. perfect (\<lambda>c. digest (concat c)) k (map root_hash c)) (leaf_chunks (4 ^ k) ts)"
    using Suc length_in_chunks [of "4 ^ k" ts 4] by (intro map_cong refl Suc.IH) simp
  also have "\<dots> = map (perfect (\<lambda>c. digest (concat c)) k) (leaf_chunks (4 ^ k) (map root_hash ts))"
    by (simp add: map_chunks [symmetric])
  finally show ?case by (simp add: comp_def)
qed

lemma index_less: "i < m \<Longrightarrow> j < n \<Longrightarrow> i * n + j < m * n" for i j m n :: nat
proof -
  assume "i < m" "j < n"
  have "Suc i * n \<le> m * n" using \<open>i < m\<close> by (intro mult_le_mono1) simp
  with \<open>j < n\<close> show ?thesis by simp
qed

lemma chunk_nth: "length xs = m * n \<Longrightarrow> i < m \<Longrightarrow> j < n \<Longrightarrow> leaf_chunks n xs ! i ! j = xs ! (i * n + j)"
proof -
  assume "length xs = m * n" "i < m" "j < n"
  moreover from this have "i * n + j < length xs" by (simp add: index_less)
  ultimately show ?thesis by (simp add: nth_chunks length_chunks)
qed

lemma part_of_node_of:
  "part_of strict (node_of digest ts) p \<longleftrightarrow>
     node_ok (length ts) p \<and> list_all2 (part_of strict) ts (children_of (length ts) p) \<and>
     (strict \<longrightarrow> (\<forall>b. blind_hash p = Some b \<longrightarrow> b = digest (concat (map root_hash ts))))"
  by (simp add: node_of_def part_of_node)

lemma span_hash_right:
  assumes ok: "digest_ok digest"
  shows "part_of True (perfect (node_of digest) k ts) p \<Longrightarrow> length ts = 4 ^ k \<Longrightarrow> length afters = 4 ^ k \<Longrightarrow> length rs = 4 ^ k \<Longrightarrow>
    (\<And>i. i < 4 ^ k \<Longrightarrow> right_result (root_hash (ts ! i)) (afters ! i) (rs ! i)) \<Longrightarrow>
    right_result (root_hash (perfect (node_of digest) k ts)) (perfect (\<lambda>c. digest (concat c)) k afters) (span_hash digest k p rs)"
proof (induction k arbitrary: ts afters rs p)
  case 0
  then show ?case by (cases ts; cases afters; cases rs) auto
next
  case (Suc k)
  let ?n = "4 ^ k :: nat"
  have leaf_chunks: "length (leaf_chunks ?n xs) = 4" "\<And>i. i < 4 \<Longrightarrow> length (leaf_chunks ?n xs ! i) = ?n" if "length xs = 4 ^ Suc k" for xs :: "'x list"
    using that length_chunks [of ?n xs 4] length_in_chunks [of ?n xs 4] by (auto simp: nth_mem)
  have p: "node_ok 4 p" "list_all2 (part_of True) (map (perfect (node_of digest) k) (leaf_chunks ?n ts)) (children_of 4 p)"
    "\<And>h. blind_hash p = Some h \<Longrightarrow> h = digest (concat (map (\<lambda>c. root_hash (perfect (node_of digest) k c)) (leaf_chunks ?n ts)))"
    using Suc.prems(1) leaf_chunks(1) [OF Suc.prems(2)] by (simp_all add: part_of_node_of comp_def)
  have "right_result (digest (concat (map (\<lambda>c. root_hash (perfect (node_of digest) k c)) (leaf_chunks ?n ts))))
      (digest (concat (map (perfect (\<lambda>c. digest (concat c)) k) (leaf_chunks ?n afters))))
      (combine_partial_hashes digest (map (\<lambda>(q, rs). span_hash digest k q rs) (zip (children_of 4 p) (leaf_chunks ?n rs))) (blind_hash p))"
  proof (rule combine_partial_right [OF ok])
    fix i assume "i < length (map (\<lambda>(q, rs). span_hash digest k q rs) (zip (children_of 4 p) (leaf_chunks ?n rs)))"
    then have i: "i < 4" using leaf_chunks(1) [OF Suc.prems(4)] length_children [OF p(1)] by simp
    have "right_result (root_hash (perfect (node_of digest) k (leaf_chunks ?n ts ! i))) (perfect (\<lambda>c. digest (concat c)) k (leaf_chunks ?n afters ! i))
        (span_hash digest k (children_of 4 p ! i) (leaf_chunks ?n rs ! i))"
    proof (rule Suc.IH)
      show "part_of True (perfect (node_of digest) k (leaf_chunks ?n ts ! i)) (children_of 4 p ! i)"
        using p(2) i leaf_chunks(1) [OF Suc.prems(2)] by (simp add: list_all2_conv_all_nth)
      fix j assume j: "j < ?n"
      then have "i * ?n + j < 4 ^ Suc k" using index_less [OF i] by simp
      from Suc.prems(5) [OF this] show "right_result (root_hash (leaf_chunks ?n ts ! i ! j)) (leaf_chunks ?n afters ! i ! j) (leaf_chunks ?n rs ! i ! j)"
        using chunk_nth [of ts 4 ?n i j] chunk_nth [of afters 4 ?n i j] chunk_nth [of rs 4 ?n i j] Suc.prems(2-4) i j by simp
    qed (use leaf_chunks(2) Suc.prems i in simp_all)
    then show "right_result (map (\<lambda>c. root_hash (perfect (node_of digest) k c)) (leaf_chunks ?n ts) ! i)
        (map (perfect (\<lambda>c. digest (concat c)) k) (leaf_chunks ?n afters) ! i)
        (map (\<lambda>(q, rs). span_hash digest k q rs) (zip (children_of 4 p) (leaf_chunks ?n rs)) ! i)"
      using i leaf_chunks(1) [OF Suc.prems(2)] leaf_chunks(1) [OF Suc.prems(3)] leaf_chunks(1) [OF Suc.prems(4)] length_children [OF p(1)] by simp
  qed (use p(3) leaf_chunks(1) [OF Suc.prems(2)] leaf_chunks(1) [OF Suc.prems(3)] leaf_chunks(1) [OF Suc.prems(4)] length_children [OF p(1)] in simp_all)
  then show ?case by (simp add: comp_def)
qed

section \<open>The hash of a verifier's state\<close>

text \<open>The results of the leaves of a dynamic region and of an array.\<close>

lemma dyn_leaf_results:
  "dyn_spans.leaf_results digest region start ps s = Some (Inr (rs, s')) \<Longrightarrow>
     length rs = length ps \<and> (\<forall>i<length ps. dyn_leaf_hash digest region (start + MERKLE_LEAF_SIZE * i) (ps ! i) () = Some (Inr (rs ! i), ()))"
proof (induction ps arbitrary: start s rs)
  case (Cons p ps)
  then obtain r where r: "dyn_leaf_hash digest region start p s = Some r" by (auto simp: bind_eq_Some_conv)
  with Cons.prems obtain h rs' where h: "fst r = Inr h" "rs = h # rs'"
    "dyn_spans.leaf_results digest region (start + MERKLE_LEAF_SIZE) ps (snd r) = Some (Inr (rs', s'))"
    by (cases "fst r") (auto simp: prepend_eq_Inr)
  have "dyn_leaf_hash digest region start p () = Some (Inr h, ())" using r h(1) by (cases r) simp
  with Cons.IH [OF h(3)] h(2) show ?case by (auto simp: less_Suc_eq_0_disj algebra_simps)
qed simp

lemma many_leaf_hash_Cons: "many_leaf_hash start p (g # gs) = map_option (\<lambda>r. (Inr r, gs)) (g p)"
  by (simp add: many_leaf_hash_def)

lemma many_leaf_results:
  "many_spans.leaf_results start ps (map f as) = Some (Inr (rs, s')) \<Longrightarrow> length as = length ps \<Longrightarrow>
     length rs = length ps \<and> (\<forall>i<length ps. f (as ! i) (ps ! i) = Some (rs ! i))"
proof (induction ps arbitrary: start as rs)
  case (Cons p ps)
  then obtain a as' where as: "as = a # as'" by (cases as) auto
  with Cons.prems obtain r rs' where r: "f a p = Some r" "rs = r # rs'"
    "many_spans.leaf_results (start + 1) ps (map f as') = Some (Inr (rs', s'))"
    by (auto simp: many_leaf_hash_Cons bind_eq_Some_conv prepend_eq_Inr simp del: One_nat_def)
  with Cons.IH [OF r(3)] Cons.prems(2) as show ?case by (auto simp: less_Suc_eq_0_disj)
qed (simp del: One_nat_def)

text \<open>A leaf that ends the work does so with an error that nothing recovers from.\<close>

lemma leaf_errors:
  "dyn_spans.leaf_results digest region start ps s = Some (Inl e) \<Longrightarrow> e \<noteq> PotentiallyRecoverable"
  "many_spans.leaf_results start ps gs = Some (Inl e) \<Longrightarrow> e \<noteq> PotentiallyRecoverable"
proof -
  have "dyn_leaf_hash digest region x p s = Some (Inl e, s') \<Longrightarrow> e \<noteq> PotentiallyRecoverable" for x p s s'
    by (cases "get_partial_page region (page_id x)"; cases "blake2b_hash_bytes digest (case get_partial_page region (page_id x) of Complete d \<Rightarrow> d | _ \<Rightarrow> [])")
       (auto simp: dyn_leaf_hash_def)
  then show "dyn_spans.leaf_results digest region start ps s = Some (Inl e) \<Longrightarrow> e \<noteq> PotentiallyRecoverable"
    using dyn_spans.leaf_results_error by blast
  have "many_leaf_hash x p gs = Some (Inl e, gs') \<Longrightarrow> e \<noteq> PotentiallyRecoverable" for x p gs gs'
    by (cases gs) (auto simp: many_leaf_hash_def)
  then show "many_spans.leaf_results start ps gs = Some (Inl e) \<Longrightarrow> e \<noteq> PotentiallyRecoverable"
    using many_spans.leaf_results_error by blast
qed

lemma get_partial_region_knows:
  assumes "knows_cells n r v"
  shows "(case get_partial_region v of
      Complete vs \<Rightarrow> vs = current_cells r | AbsentState \<Rightarrow> current_cells r = pr_source r | Incomplete \<Rightarrow> True)"
proof (cases v)
  case AbsentRegion
  with assms show ?thesis by (auto simp: get_partial_region_def current_cells_def map_nth)
next
  case (PartialRegion vs)
  show ?thesis
  proof (cases "None \<in> set vs")
    case True
    with PartialRegion show ?thesis by (auto simp: get_partial_region_def list_ex_iff)
  next
    case False
    have "map the vs = current_cells r"
    proof (rule nth_equalityI)
      fix i assume "i < length (map the vs)"
      then have i: "i < length vs" by simp
      then obtain x where "vs ! i = Some x" using False by (metis nth_mem option.exhaust)
      with assms PartialRegion i show "map the vs ! i = current_cells r ! i" by simp
    qed (use assms PartialRegion in simp)
    with PartialRegion False show ?thesis by (auto simp: get_partial_region_def list_ex_iff)
  qed
qed

text \<open>A page of the verifier holds the bytes of the prover's region; where it has none, nothing was written.\<close>

lemma get_partial_page_knows:
  assumes "knows_bytes (MERKLE_LEAF_SIZE * m) d pages" and "i < m"
  shows "(case get_partial_page pages (page_id (MERKLE_LEAF_SIZE * i)) of
      Complete bs \<Rightarrow> bs = leaf_chunks MERKLE_LEAF_SIZE (current_bytes d) ! i
    | AbsentState \<Rightarrow> leaf_chunks MERKLE_LEAF_SIZE (current_bytes d) ! i = leaf_chunks MERKLE_LEAF_SIZE (pd_source d) ! i
    | Incomplete \<Rightarrow> True)"
proof -
  let ?L = MERKLE_LEAF_SIZE
  have d: "length (pd_source d) = ?L * m" "pages_wf pages" "\<forall>x\<in>dom (pd_writes d). page_id x \<in> dom pages"
    "\<And>x b. x < ?L * m \<Longrightarrow> page_byte pages x = Some b \<Longrightarrow> current_bytes d ! x = b"
    using assms(1) by (auto simp: knows_bytes_def)
  have pid: "page_id (?L * i) = ?L * i" by (simp add: page_id_def)
  have at: "page_id (?L * i + j) = ?L * i" "(?L * i + j) mod ?L = j" if "j < ?L" for j
    using on_same_page [of "?L * i" j] that pid by simp_all
  have in_range: "?L * i + j < ?L * m" if "j < ?L" for j using index_less [OF assms(2) that] by (simp add: mult.commute)
  have len: "length (leaf_chunks ?L xs) = m" "length (leaf_chunks ?L xs ! i) = ?L" "\<And>j. j < ?L \<Longrightarrow> leaf_chunks ?L xs ! i ! j = xs ! (?L * i + j)"
    if "length xs = ?L * m" for xs :: bytes
    using that assms(2) leaf_size_pos length_chunks [of ?L xs m] length_in_chunks [of ?L xs m "leaf_chunks ?L xs ! i"]
      chunk_nth [of xs m ?L i] by (simp_all add: mult.commute)
  show ?thesis
  proof (cases "pages (?L * i)")
    case None
    have "leaf_chunks ?L (current_bytes d) ! i = leaf_chunks ?L (pd_source d) ! i"
    proof (rule nth_equalityI)
      fix j assume "j < length (leaf_chunks ?L (current_bytes d) ! i)"
      then have j: "j < ?L" using len(2) d(1) by simp
      have "pd_writes d (?L * i + j) = None" using d(3) at(1) [OF j] None by (metis domIff)
      then have "current_bytes d ! (?L * i + j) = pd_source d ! (?L * i + j)"
        using in_range [OF j] d(1) by (simp add: current_bytes_def)
      then show "leaf_chunks ?L (current_bytes d) ! i ! j = leaf_chunks ?L (pd_source d) ! i ! j"
        using len(3) j d(1) by simp
    qed (use len(2) d(1) in simp)
    with None pid show ?thesis by (simp add: get_partial_page_def)
  next
    case (Some pg)
    have "page_data pg = leaf_chunks ?L (current_bytes d) ! i" if full: "is_fully_available pg"
    proof (rule nth_equalityI)
      have data: "length (page_data pg) = ?L" using d(2) Some by (auto simp: pages_wf_def)
      then show "length (page_data pg) = length (leaf_chunks ?L (current_bytes d) ! i)" using len(2) d(1) by simp
      fix j assume "j < length (page_data pg)"
      then have j: "j < ?L" using data by simp
      have "page_byte pages (?L * i + j) = Some (page_data pg ! j)"
        using Some full at [OF j] j by (simp add: page_byte_def is_fully_available_def)
      then show "page_data pg ! j = leaf_chunks ?L (current_bytes d) ! i ! j"
        using d(4) [OF in_range [OF j]] len(3) j d(1) by simp
    qed
    with Some pid show ?thesis by (simp add: get_partial_page_def)
  qed
qed

lemma alloc_rel_length:
  "alloc_rel R D (Parts as) v \<Longrightarrow> \<exists>vs. v = Parts vs \<and> length vs = length as \<and> (\<forall>i<length as. alloc_rel R D (as ! i) (vs ! i))"
  "alloc_rel R D (Many as) v \<Longrightarrow> \<exists>vs. v = Many vs \<and> length vs = length as \<and> (\<forall>i<length as. alloc_rel R D (as ! i) (vs ! i))"
  by (auto simp: list_all2_conv_all_nth split: alloc.splits)

lemma with_results_cases:
  assumes "with_results m (\<lambda>rs s. Some (f rs)) = Some r"
  obtains (error) e where "m = Some (Inl e)" "r = Inl e" | (results) rs s where "m = Some (Inr (rs, s))" "r = f rs"
  using assms by (cases m rule: option.exhaust; cases "the m") auto

lemma cells_hash_right:
  assumes ok: "digest_ok digest" and len: "length (current_cells reg) = n" "\<forall>x\<in>set (current_cells reg). enc t x \<noteq> None"
    and w: "knows_cells n reg w"
    and p: "part_of True (MLeaf (digest (cells_bytes enc t (pr_source reg))) access (cells_bytes enc t (pr_source reg))) p"
    and r: "partial_state_hash digest enc (Cells t n w) p = Some r"
  shows "right_result (digest (cells_bytes enc t (pr_source reg))) (digest (cells_bytes enc t (current_cells reg))) r"
proof (cases "get_partial_region w")
  case (Complete vs)
  with get_partial_region_knows [OF w] have "vs = current_cells reg" by simp
  with Complete r ok serialise_region_eq [where enc = enc and t = t, OF len] show ?thesis by (auto simp: blake2b_hash_def)
next
  case AbsentState
  with get_partial_region_knows [OF w] have "current_cells reg = pr_source reg" by simp
  with AbsentState r ok p show ?thesis
    by (cases p rule: proof_part_cases) (auto simp: partial_hash_leaf_def)
qed (use r in auto)

lemma page_hash_right:
  assumes ok: "digest_ok digest" and d: "knows_bytes (MERKLE_LEAF_SIZE * m) d pages" and i: "i < m"
    and p: "part_of True (leaf_tree digest rs changes j (leaf_chunks MERKLE_LEAF_SIZE (pd_source d) ! i)) p"
    and r: "dyn_leaf_hash digest pages (MERKLE_LEAF_SIZE * i) p () = Some (Inr r, ())"
  shows "right_result (digest (leaf_chunks MERKLE_LEAF_SIZE (pd_source d) ! i)) (digest (leaf_chunks MERKLE_LEAF_SIZE (current_bytes d) ! i)) r"
proof (cases "get_partial_page pages (page_id (MERKLE_LEAF_SIZE * i))")
  case (Complete bs)
  with get_partial_page_knows [OF d i] r ok show ?thesis by (auto simp: dyn_leaf_hash_def)
next
  case AbsentState
  with get_partial_page_knows [OF d i] have "leaf_chunks MERKLE_LEAF_SIZE (current_bytes d) ! i = leaf_chunks MERKLE_LEAF_SIZE (pd_source d) ! i" by simp
  with AbsentState r p ok show ?thesis
    by (cases p rule: proof_part_cases) (auto simp: dyn_leaf_hash_def partial_hash_leaf_def leaf_tree_def)
qed (use r in \<open>simp add: dyn_leaf_hash_def\<close>)

lemma dyn_hash_right:
  assumes ok: "digest_ok digest" and k: "n = MERKLE_LEAF_SIZE * 4 ^ k" and d: "knows_bytes n d pages"
    and p: "part_of True (tree_of digest enc (DynCells n d)) p"
    and r: "partial_state_hash digest enc (DynCells n pages) p = Some r"
  shows "right_result (root_hash (tree_of digest enc (DynCells n d))) (hash_of digest enc (DynCells n (current_bytes d))) r"
proof -
  have len: "length (pd_source d) = MERKLE_LEAF_SIZE * 4 ^ k" using d k by (simp add: knows_bytes_def)
  let ?ts = "leaves_from (leaf_tree digest (pd_reads d) (dom (pd_writes d))) 0 (leaf_chunks MERKLE_LEAF_SIZE (pd_source d))"
  have ts: "length ?ts = 4 ^ k" using length_leaves [OF len] by simp
  have tree: "tree_of digest enc (DynCells n d) = perfect (node_of digest) k ?ts" by (rule tree_of_dyn [OF len])
  have views: "shaped k p" "list_all2 (part_of True) ?ts (slots k p)"
    using p ts unfolding tree by (simp_all add: part_of_perfectD)
  have after: "hash_of digest enc (DynCells n (current_bytes d)) =
      perfect (\<lambda>c. digest (concat c)) k (map digest (leaf_chunks MERKLE_LEAF_SIZE (current_bytes d)))"
    using len length_leaves [of "current_bytes d" k] by (simp add: hash_root_perfect)
  have "with_results (dyn_spans.leaf_results digest pages 0 (slots k p) ()) (\<lambda>rs s. Some (span_hash digest k p rs)) = Some r"
    using dyn_spans.loop_eq [OF views(1), of digest pages 0 "()"] r k by simp
  then show ?thesis
  proof (cases rule: with_results_cases)
    case (error e)
    with leaf_errors(1) [OF error(1)] show ?thesis by (simp add: right_result_def)
  next
    case (results rs s)
    have rs: "length rs = 4 ^ k"
      "\<And>i. i < 4 ^ k \<Longrightarrow> dyn_leaf_hash digest pages (MERKLE_LEAF_SIZE * i) (slots k p ! i) () = Some (Inr (rs ! i), ())"
      using dyn_leaf_results [OF results(1)] length_slots [OF views(1)] by auto
    have "right_result (root_hash (?ts ! i)) (map digest (leaf_chunks MERKLE_LEAF_SIZE (current_bytes d)) ! i) (rs ! i)" if i: "i < 4 ^ k" for i
    proof -
      have "part_of True (leaf_tree digest (pd_reads d) (dom (pd_writes d)) i (leaf_chunks MERKLE_LEAF_SIZE (pd_source d) ! i)) (slots k p ! i)"
        using list_all2_nthD [OF views(2), of i] i ts length_leaves [OF len] by (simp add: nth_leaves_from)
      from page_hash_right [OF ok d [unfolded k] i this rs(2) [OF i]] show ?thesis
        using i length_leaves [OF len] length_leaves [of "current_bytes d" k] len by (simp add: nth_leaves_from leaf_tree_def)
    qed
    from span_hash_right [OF ok p [unfolded tree] ts _ rs(1) this] show ?thesis
      unfolding tree after using results(2) len length_leaves [of "current_bytes d" k] by simp
  qed
qed

lemma partial_state_hash_right:
  assumes ok: "digest_ok digest"
  shows "perfect_alloc a \<Longrightarrow> state_wf enc (source_state a) \<Longrightarrow> state_wf enc (current_state a) \<Longrightarrow>
    part_of True (tree_of digest enc a) p \<Longrightarrow> alloc_rel knows_cells knows_bytes a v \<Longrightarrow>
    partial_state_hash digest enc v p = Some r \<Longrightarrow>
    right_result (root_hash (tree_of digest enc a)) (hash_of digest enc (current_state a)) r"
proof (induction a arbitrary: p v r)
  case (Cells t n reg)
  then obtain w where "v = Cells t n w" "knows_cells n reg w" by (auto split: alloc.splits)
  with Cells.prems cells_hash_right [OF ok, of reg n enc t w] show ?case by auto
next
  case (DynCells n d)
  then obtain pages where "v = DynCells n pages" "knows_bytes n d pages" by (auto split: alloc.splits)
  with DynCells.prems dyn_hash_right [OF ok, of n _ d pages enc p r] show ?case by auto
next
  case (Parts as)
  from alloc_rel_length(1) [OF Parts.prems(5)] obtain vs where vs: "v = Parts vs" "length vs = length as"
    "\<forall>i<length as. alloc_rel knows_cells knows_bytes (as ! i) (vs ! i)" by blast
  let ?ts = "map (tree_of digest enc) as"
  have p: "node_ok (length as) p" "list_all2 (part_of True) ?ts (children_of (length as) p)"
    "\<And>h. blind_hash p = Some h \<Longrightarrow> h = digest (concat (map root_hash ?ts))"
    using Parts.prems(4) by (simp_all add: part_of_node_of)
  let ?F = "\<lambda>i. partial_state_hash digest enc (vs ! i) (children_of (length as) p ! i)"
  have zip: "map (\<lambda>(f, b). f b) (zip (map (partial_state_hash digest enc) vs) (children_of (length as) p)) = map ?F [0..<length as]"
    using vs(2) length_children [OF p(1)] by (intro nth_equalityI) simp_all
  obtain rs where rs: "map ?F [0..<length as] = map Some rs" "r = combine_partial_hashes digest rs (blind_hash p)"
    using Parts.prems(6) vs(1,2) into_branches_eq [OF p(1)] zip by (auto simp: all_values_eq)
  have len: "length rs = length as" using arg_cong [OF rs(1), of length] by simp
  have each: "?F i = Some (rs ! i)" if "i < length as" for i
    using arg_cong [OF rs(1), of "\<lambda>xs. xs ! i"] that len by simp
  have "right_result (digest (concat (map root_hash ?ts))) (digest (concat (map (\<lambda>a. hash_of digest enc (current_state a)) as)))
      (combine_partial_hashes digest rs (blind_hash p))"
  proof (rule combine_partial_right [OF ok])
    fix i assume "i < length rs"
    then have i: "i < length as" using len by simp
    have "right_result (root_hash (tree_of digest enc (as ! i))) (hash_of digest enc (current_state (as ! i))) (rs ! i)"
      by (rule Parts.IH) (use i Parts.prems vs each p(2) in \<open>auto simp: list_all_length list_all2_conv_all_nth\<close>)
    then show "right_result (map root_hash ?ts ! i) (map (\<lambda>a. hash_of digest enc (current_state a)) as ! i) (rs ! i)" using i by simp
  qed (use len p(3) in simp_all)
  with rs(2) show ?case by (simp add: comp_def)
next
  case (Many as)
  from Many.prems(1) obtain k where k: "length as = 4 ^ k" unfolding perfect_alloc.simps by blast
  from alloc_rel_length(2) [OF Many.prems(5)] obtain vs where vs: "v = Many vs" "length vs = length as"
    "\<forall>i<length as. alloc_rel knows_cells knows_bytes (as ! i) (vs ! i)" by blast
  let ?ts = "map (tree_of digest enc) as"
  have tree: "tree_of digest enc (Many as) = perfect (node_of digest) k ?ts" by (rule tree_of_many [OF k])
  have views: "shaped k p" "list_all2 (part_of True) ?ts (slots k p)"
    using Many.prems(4) k unfolding tree by (simp_all add: part_of_perfectD)
  have after: "hash_of digest enc (current_state (Many as)) =
      perfect (\<lambda>c. digest (concat c)) k (map (\<lambda>a. hash_of digest enc (current_state a)) as)"
    using k by (simp add: hash_root_perfect comp_def)
  have "with_results (many_spans.leaf_results 0 (slots k p) (map (partial_state_hash digest enc) vs)) (\<lambda>rs s. Some (span_hash digest k p rs)) = Some r"
    using many_spans.loop_eq [OF views(1), of digest 0] Many.prems(6) vs(1,2) k by (simp del: One_nat_def)
  then show ?case
  proof (cases rule: with_results_cases)
    case (error e)
    with leaf_errors(2) [OF error(1)] show ?thesis by (simp add: right_result_def)
  next
    case (results rs s)
    have slots: "length vs = length (slots k p)" using vs(2) k length_slots [OF views(1)] by simp
    have rs: "length rs = 4 ^ k" "\<And>i. i < 4 ^ k \<Longrightarrow> partial_state_hash digest enc (vs ! i) (slots k p ! i) = Some (rs ! i)"
      using many_leaf_results [OF results(1) slots] length_slots [OF views(1)] by auto
    have "right_result (root_hash (?ts ! i)) (map (\<lambda>a. hash_of digest enc (current_state a)) as ! i) (rs ! i)" if i: "i < 4 ^ k" for i
    proof -
      have "right_result (root_hash (tree_of digest enc (as ! i))) (hash_of digest enc (current_state (as ! i))) (rs ! i)"
      proof (rule Many.IH)
        show "perfect_alloc (as ! i)" using many_layouts(3) [OF Many.prems(1)] i k by simp
        show "state_wf enc (source_state (as ! i))" "state_wf enc (current_state (as ! i))"
          using Many.prems(2,3) i k by (simp_all add: list_all_length)
        show "part_of True (tree_of digest enc (as ! i)) (slots k p ! i)" using views(2) i k by (simp add: list_all2_conv_all_nth)
        show "alloc_rel knows_cells knows_bytes (as ! i) (vs ! i)" using vs(3) i unfolding k by blast
        show "partial_state_hash digest enc (vs ! i) (slots k p ! i) = Some (rs ! i)" using rs(2) i .
      qed (use i k in simp)
      with i k show ?thesis by simp
    qed
    from span_hash_right [OF ok Many.prems(4) [unfolded tree] _ _ rs(1) this] show ?thesis
      unfolding tree after using results(2) k by simp
  qed
qed

end
