(* ===== verification/State_Complete.thy ===== *)
theory State_Complete
  imports State_Hashing
begin

text \<open>
  Honest proofs. The proof made from the Merkle tree of a state and its logs can be read by the verifier,
  covers the accesses of the logs, and the hash of the verifier's partial state is never an error.
\<close>

section \<open>The parts of an honest proof\<close>

text \<open>What a proof shows of a subtree: all of its partial tree, or nothing when it is not touched.\<close>

definition honest_part :: "merkle_tree \<Rightarrow> proof_part \<Rightarrow> bool" where
  "honest_part t p \<longleftrightarrow> p = Present (partial_tree t) \<or> (p = Absent \<and> \<not> touched t)"

lemma part_of_partial_tree: "part_of True t (Present (partial_tree t))"
  by (induction t) (auto simp: list_all2_conv_all_nth)

lemma honest_part_of: "honest_part t p \<Longrightarrow> part_of True t p"
  by (auto simp: honest_part_def part_of_partial_tree)

lemma honest_children:
  assumes "honest_part (node_of digest ts) p"
  shows "list_all2 honest_part ts (children_of (length ts) p)"
proof (cases "touched (node_of digest ts)")
  case True
  with assms have "p = Present (Node (map partial_tree ts))" by (auto simp: honest_part_def node_of_def)
  then show ?thesis by (simp add: list_all2_conv_all_nth honest_part_def)
next
  case False
  then have ts: "\<forall>t\<in>set ts. \<not> touched t" by (auto simp: node_of_def list_ex_iff)
  from assms False have "p = Absent \<or> (\<exists>h. p = Present (Leaf (Blind h)))" by (auto simp: honest_part_def node_of_def)
  then have "children_of (length ts) p = replicate (length ts) Absent" by auto
  with ts show ?thesis by (simp add: list_all2_conv_all_nth honest_part_def)
qed

lemma honest_slots:
  "honest_part (perfect (node_of digest) k ts) p \<Longrightarrow> length ts = 4 ^ k \<Longrightarrow> list_all2 honest_part ts (slots k p)"
proof (induction k arbitrary: ts p)
  case 0
  then show ?case by (cases ts) auto
next
  case (Suc k)
  let ?cs = "leaf_chunks (4 ^ k) ts"
  have cs: "length ?cs = 4" "\<And>c. c \<in> set ?cs \<Longrightarrow> length c = 4 ^ k" "concat ?cs = ts"
    using Suc.prems length_chunks [of "4 ^ k" ts 4] length_in_chunks [of "4 ^ k" ts 4] concat_chunks [of "4 ^ k" ts]
    by auto
  have "list_all2 honest_part (map (perfect (node_of digest) k) ?cs) (children_of 4 p)"
    using honest_children [of digest "map (perfect (node_of digest) k) ?cs" p] Suc.prems(1) cs(1) by simp
  then have "list_all2 (\<lambda>c q. list_all2 honest_part c (slots k q)) ?cs (children_of 4 p)"
    unfolding list_all2_map1 by (rule list.rel_mono_strong) (use Suc.IH cs(2) in blast)
  then have "list_all2 honest_part (concat ?cs) (concat (map (slots k) (children_of 4 p)))"
    by (intro list_all2_concat) (simp add: list_all2_map2)
  with cs(3) show ?case by simp
qed

section \<open>Honest proofs can be read\<close>

lemma honest_leaf:
  "honest_part (MLeaf h access data) p \<longleftrightarrow>
     (if access then p = Present (Leaf (Read data)) else p = Present (Leaf (Blind h)) \<or> p = Absent)"
  by (auto simp: honest_part_def)

lemma pages_cover:
  assumes len: "length (pd_source d) = MERKLE_LEAF_SIZE * 4 ^ k"
    and logs: "pd_reads d \<union> dom (pd_writes d) \<subseteq> {0..<MERKLE_LEAF_SIZE * 4 ^ k}"
    and honest: "list_all2 honest_part (leaves_from (leaf_tree digest (pd_reads d) (dom (pd_writes d))) 0 (leaf_chunks MERKLE_LEAF_SIZE (pd_source d))) ps"
  shows "list_all page_ok ps" and "covers_bytes n d (from_pages (pages_from 0 ps))"
proof -
  let ?L = MERKLE_LEAF_SIZE and ?log = "pd_reads d \<union> dom (pd_writes d)" and ?pages = "from_pages (pages_from 0 ps)"
  have ps: "length ps = 4 ^ k" using list_all2_lengthD [OF honest] length_leaves [OF len] by simp
  have leaf: "if \<exists>x\<in>?log. ?L * i \<le> x \<and> x < ?L * i + ?L then ps ! i = Present (Leaf (Read (leaf_chunks ?L (pd_source d) ! i)))
      else (\<exists>h. ps ! i = Present (Leaf (Blind h))) \<or> ps ! i = Absent" if "i < 4 ^ k" for i
    using list_all2_nthD2 [OF honest, of i] that ps length_leaves [OF len]
    by (auto simp: nth_leaves_from leaf_tree_def honest_leaf includes_range_def mult.commute split: if_splits)
  have length_chunk: "length (leaf_chunks ?L (pd_source d) ! i) = ?L" if "i < 4 ^ k" for i
    using that length_leaves [OF len] len leaf_size_pos length_in_chunks [of ?L "pd_source d" "4 ^ k"] by (simp add: mult.commute)
  show "list_all page_ok ps"
    unfolding list_all_length ps using leaf length_chunk by (fastforce simp: page_ok_def split: if_splits)
  have full: "is_fully_available pg" if "?pages x = Some pg" for x pg
    using from_pages_dom [of Map.empty 0 ps x pg] that by (auto simp: from_pages_def page_from_full_def is_fully_available_def)
  have "page_id ` ?log = dom ?pages"
  proof (intro equalityI subsetI)
    fix y assume "y \<in> page_id ` ?log"
    then obtain x where x: "x \<in> ?log" "y = page_id x" by blast
    define i where "i = x div ?L"
    have y: "y = ?L * i" using x(2) by (simp add: page_id_def i_def minus_mod_eq_mult_div)
    have "x < ?L * 4 ^ k" using x(1) logs by auto
    then have i: "i < 4 ^ k" unfolding i_def by (simp add: less_mult_imp_div_less mult.commute)
    have "?L * i \<le> x \<and> x < ?L * i + ?L" using leaf_size_pos unfolding i_def
      by (metis mod_less_divisor mult_div_mod_eq nat_add_left_cancel_less le_add1)
    then have "ps ! i = Present (Leaf (Read (leaf_chunks ?L (pd_source d) ! i)))" using leaf [OF i] x(1) by (auto split: if_splits)
    then show "y \<in> dom ?pages" using from_pages_eq [of Map.empty 0 ps i] i ps y by (simp add: from_pages_def domI)
  next
    fix y assume "y \<in> dom ?pages"
    then obtain pg where "?pages y = Some pg" by blast
    then obtain i dd where i: "i < 4 ^ k" "y = ?L * i" "ps ! i = Present (Leaf (Read dd))"
      using from_pages_dom [of Map.empty 0 ps y pg] ps by (auto simp: from_pages_def)
    with leaf [OF i(1)] obtain x where x: "x \<in> ?log" "?L * i \<le> x" "x < ?L * i + ?L" by (auto split: if_splits)
    have "page_id (?L * i + (x - ?L * i)) = page_id (?L * i)" by (rule on_same_page) (use x in simp)
    then have "page_id x = y" using x i(2) by (simp add: page_id_def)
    with x(1) show "y \<in> page_id ` ?log" by blast
  qed
  with full show "covers_bytes n d ?pages" by (auto simp: covers_bytes_def)
qed

text \<open>The logs of a state stay within its dynamic regions.\<close>

fun logs_bounded :: "('t, 'v) proof_alloc \<Rightarrow> bool" where
  "logs_bounded (Cells t n r) \<longleftrightarrow> True"
| "logs_bounded (DynCells n d) \<longleftrightarrow> pd_reads d \<union> dom (pd_writes d) \<subseteq> {0..<n}"
| "logs_bounded (Parts as) \<longleftrightarrow> list_all logs_bounded as"
| "logs_bounded (Many as) \<longleftrightarrow> list_all logs_bounded as"

lemma tracks_logs_bounded: "alloc_rel tracks_cells tracks_bytes os a \<Longrightarrow> logs_bounded a"
proof (induction a arbitrary: os)
  case (Cells t n r)
  then show ?case by simp
next
  case (DynCells n d)
  then show ?case by (cases os) (auto simp: tracks_bytes_def simp del: domIff)
next
  case (Parts as)
  then show ?case by (cases os) (auto simp: list_all2_conv_all_nth list_all_length)
next
  case (Many as)
  then show ?case by (cases os) (auto simp: list_all2_conv_all_nth list_all_length)
qed

lemma honest_to_verifier:
  assumes codec: "codec_ok enc dec"
  shows "perfect_alloc a \<Longrightarrow> state_wf enc (source_state a) \<Longrightarrow> logs_bounded a \<Longrightarrow> honest_part (tree_of digest enc a) p \<Longrightarrow>
    \<exists>v. to_verifier_alloc dec (layout_of a) p = Some (Okay v) \<and> alloc_rel covers_cells covers_bytes a v"
proof (induction a arbitrary: p)
  case (Cells t n r)
  then have "binary_deserialise dec t n (cells_bytes enc t (pr_source r)) = Some (pr_source r)"
    using binary_deserialise_eq [OF codec] by simp
  with Cells.prems show ?case
    by (cases "pr_access r") (auto simp: honest_leaf to_verifier_alloc_eq covers_cells_def simp del: to_verifier_alloc.simps)
next
  case (DynCells n d)
  from DynCells.prems(1) obtain k where k: "n = MERKLE_LEAF_SIZE * 4 ^ k" by auto
  have len: "length (pd_source d) = MERKLE_LEAF_SIZE * 4 ^ k" using DynCells.prems(2) k by simp
  have honest: "list_all2 honest_part (leaves_from (leaf_tree digest (pd_reads d) (dom (pd_writes d))) 0 (leaf_chunks MERKLE_LEAF_SIZE (pd_source d))) (slots k p)"
    using DynCells.prems(4) length_leaves [OF len] unfolding tree_of_dyn [OF len] by (simp add: honest_slots)
  have "shaped k p"
    using honest_part_of [OF DynCells.prems(4)] length_leaves [OF len] unfolding tree_of_dyn [OF len] by (simp add: part_of_perfectD)
  moreover have "list_all page_ok (slots k p)" "covers_bytes n d (from_pages (pages_from 0 (slots k p)))"
    using pages_cover [OF len _ honest] DynCells.prems(3) k by simp_all
  ultimately show ?case using k by (simp add: to_verifier_alloc_eq del: to_verifier_alloc.simps)
next
  case (Parts as)
  have p: "node_ok (length as) p" "list_all2 honest_part (map (tree_of digest enc) as) (children_of (length as) p)"
    using honest_part_of [OF Parts.prems(4)] honest_children [of digest "map (tree_of digest enc) as" p] Parts.prems(4)
    by (simp_all add: part_of_node_of)
  have "\<exists>v. to_verifier_alloc dec (layout_of (as ! i)) (children_of (length as) p ! i) = Some (Okay v) \<and>
      alloc_rel covers_cells covers_bytes (as ! i) v" if i: "i < length as" for i
    by (rule Parts.IH) (use i Parts.prems p(2) in \<open>auto simp: list_all_length list_all2_conv_all_nth\<close>)
  then obtain f where f: "\<And>i. i < length as \<Longrightarrow> to_verifier_alloc dec (layout_of (as ! i)) (children_of (length as) p ! i) = Some (Okay (f i)) \<and>
      alloc_rel covers_cells covers_bytes (as ! i) (f i)" by metis
  have "to_verifier_alloc dec (layout_of (Parts as)) p = Some (Okay (Parts (map f [0..<length as])))"
    using p(1) f length_children [OF p(1)]
    by (auto simp: to_verifier_alloc_eq list_all2_conv_all_nth simp del: to_verifier_alloc.simps)
  with f show ?case by (auto simp: list_all2_conv_all_nth simp del: to_verifier_alloc.simps)
next
  case (Many as)
  from Many.prems(1) obtain k where k: "length as = 4 ^ k" unfolding perfect_alloc.simps by blast
  note same = many_layouts [OF Many.prems(1)]
  have p: "shaped k p" "list_all2 honest_part (map (tree_of digest enc) as) (slots k p)"
    using honest_part_of [OF Many.prems(4)] honest_slots [of digest k "map (tree_of digest enc) as" p] Many.prems(4) k
    unfolding tree_of_many [OF k] by (simp_all add: part_of_perfectD)
  have "\<exists>v. to_verifier_alloc dec (hd (map layout_of as)) (slots k p ! i) = Some (Okay v) \<and>
      alloc_rel covers_cells covers_bytes (as ! i) v" if i: "i < length as" for i
    unfolding same(2) [OF i, symmetric]
  proof (rule Many.IH)
    show "perfect_alloc (as ! i)" using same(3) i .
    show "state_wf enc (source_state (as ! i))" "logs_bounded (as ! i)" using Many.prems(2,3) i by (simp_all add: list_all_length)
    show "honest_part (tree_of digest enc (as ! i)) (slots k p ! i)" using p(2) i by (simp add: list_all2_conv_all_nth)
  qed (use i in simp)
  then obtain f where f: "\<And>i. i < length as \<Longrightarrow> to_verifier_alloc dec (hd (map layout_of as)) (slots k p ! i) = Some (Okay (f i)) \<and>
      alloc_rel covers_cells covers_bytes (as ! i) (f i)" by metis
  have "to_verifier_alloc dec (layout_of (Many as)) p = Some (Okay (Many (map f [0..<length as])))"
    using to_verifier_alloc_Many [OF _ same(1), of k dec p] p(1) f k length_slots [OF p(1)]
    by (auto simp: list_all2_conv_all_nth simp del: to_verifier_alloc.simps)
  with f show ?case by (auto simp: list_all2_conv_all_nth simp del: to_verifier_alloc.simps)
qed

section \<open>The hash of the state never fails\<close>

text \<open>A part that is shown has a hash, one that is not is missing.\<close>

definition expected_result :: "proof_part \<Rightarrow> partial_hash_error + hash \<Rightarrow> bool" where
  "expected_result p r \<longleftrightarrow> (if p = Absent then r = Inl PotentiallyRecoverable else \<exists>h. r = Inr h)"

lemma combine_partial_expected:
  assumes ok: "digest_ok digest" and p: "node_ok n p" "p = Absent \<Longrightarrow> n \<noteq> 0"
    and rs: "list_all2 expected_result (children_of n p) rs"
  shows "expected_result p (combine_partial_hashes digest rs (blind_hash p))"
proof (cases p rule: proof_part_cases)
  case (Node ps)
  have "\<forall>r\<in>set rs. \<exists>h. r = Inr h"
    using rs Node by (auto simp: list_all2_conv_all_nth expected_result_def in_set_conv_nth)
  then obtain hs where hs: "rs = map Inr hs" by (metis ex_map_conv)
  have "expect_hashes True rs = Some hs" by (simp add: expect_hashes_eq hs)
  with hs ok Node show ?thesis
    by (cases hs) (auto simp: combine_partial_hashes_def combine_or_error_def expected_result_def)
next
  case Read
  with p show ?thesis by simp
next
  case Absent
  then have all: "rs = replicate n (Inl PotentiallyRecoverable)"
    using rs by (intro replicate_eqI) (auto simp: list_all2_conv_all_nth expected_result_def in_set_conv_nth)
  then have "expect_hashes False rs = Some []" by (auto simp: expect_hashes_eq)
  with all p(2) Absent show ?thesis by (cases n) (auto simp: combine_partial_hashes_def expected_result_def)
next
  case (Blind h)
  then have all: "rs = replicate n (Inl PotentiallyRecoverable)"
    using rs by (intro replicate_eqI) (auto simp: list_all2_conv_all_nth expected_result_def in_set_conv_nth)
  then have "expect_hashes False rs = Some []" by (auto simp: expect_hashes_eq)
  with all ok Blind show ?thesis by (cases n) (auto simp: combine_partial_hashes_def combine_or_error_def expected_result_def)
qed

lemma span_hash_expected:
  assumes ok: "digest_ok digest"
  shows "shaped k p \<Longrightarrow> list_all2 expected_result (slots k p) rs \<Longrightarrow> expected_result p (span_hash digest k p rs)"
proof (induction k arbitrary: p rs)
  case 0
  then show ?case by (cases rs) auto
next
  case (Suc k)
  have p: "node_ok 4 p" and cs: "list_all (shaped k) (children_of 4 p)" using Suc.prems(1) by simp_all
  have len: "length rs = 4 ^ Suc k" using list_all2_lengthD [OF Suc.prems(2)] length_slots [OF Suc.prems(1)] by simp
  have leaf_chunks: "length (leaf_chunks (4 ^ k) rs) = 4" "\<And>c. c \<in> set (leaf_chunks (4 ^ k) rs) \<Longrightarrow> length c = 4 ^ k" "concat (leaf_chunks (4 ^ k) rs) = rs"
    using len length_chunks [of "4 ^ k" rs 4] length_in_chunks [of "4 ^ k" rs 4] concat_chunks [of "4 ^ k" rs] by auto
  have "list_all2 (\<lambda>xs ys. length xs = length ys) (map (slots k) (children_of 4 p)) (leaf_chunks (4 ^ k) rs)"
    using cs leaf_chunks length_children [OF p] by (auto simp: list_all2_conv_all_nth length_slots list_all_length)
  from list_all2_concat_iff [OF this, of expected_result] Suc.prems(2) leaf_chunks(3)
  have "list_all2 (list_all2 expected_result) (map (slots k) (children_of 4 p)) (leaf_chunks (4 ^ k) rs)" by simp
  then have "list_all2 (\<lambda>q c. expected_result q (span_hash digest k q c)) (children_of 4 p) (leaf_chunks (4 ^ k) rs)"
    unfolding list_all2_map1 by (rule list.rel_mono_strong) (use Suc.IH cs in \<open>auto simp: list.pred_set\<close>)
  then have "list_all2 expected_result (children_of 4 p) (map (\<lambda>(q, rs). span_hash digest k q rs) (zip (children_of 4 p) (leaf_chunks (4 ^ k) rs)))"
    using leaf_chunks(1) length_children [OF p] by (simp add: list_all2_conv_all_nth)
  from combine_partial_expected [OF ok p _ this] show ?case by simp
qed

lemma dyn_leaf_results_all:
  "(\<And>i. i < length ps \<Longrightarrow> \<exists>r. dyn_leaf_hash digest region (start + MERKLE_LEAF_SIZE * i) (ps ! i) () = Some (Inr r, ()) \<and> expected_result (ps ! i) r) \<Longrightarrow>
     \<exists>rs. dyn_spans.leaf_results digest region start ps s = Some (Inr (rs, ())) \<and> list_all2 expected_result ps rs"
proof (induction ps arbitrary: start s)
  case (Cons p ps)
  from Cons.prems [of 0] obtain r where r: "dyn_leaf_hash digest region start p () = Some (Inr r, ())" "expected_result p r" by auto
  have "\<exists>rs. dyn_spans.leaf_results digest region (start + MERKLE_LEAF_SIZE) ps () = Some (Inr (rs, ())) \<and> list_all2 expected_result ps rs"
    by (rule Cons.IH) (use Cons.prems [of "Suc _"] in \<open>simp add: add.assoc\<close>)
  then obtain rs where "dyn_spans.leaf_results digest region (start + MERKLE_LEAF_SIZE) ps () = Some (Inr (rs, ()))" "list_all2 expected_result ps rs" by blast
  with r have "dyn_spans.leaf_results digest region start (p # ps) () = Some (Inr (r # rs, ()))" by simp
  with r(2) \<open>list_all2 expected_result ps rs\<close> show ?case by (intro exI [of _ "r # rs"]) (cases s, simp)
qed auto

lemma many_leaf_results_all:
  "length as = length ps \<Longrightarrow> (\<And>i. i < length ps \<Longrightarrow> \<exists>r. f (as ! i) (ps ! i) = Some r \<and> expected_result (ps ! i) r) \<Longrightarrow>
     \<exists>rs. many_spans.leaf_results start ps (map f as) = Some (Inr (rs, [])) \<and> list_all2 expected_result ps rs"
proof (induction ps arbitrary: start as)
  case (Cons p ps)
  then obtain a as' where as: "as = a # as'" by (cases as) auto
  from Cons.prems(2) [of 0] as obtain r where r: "f a p = Some r" "expected_result p r" by auto
  have "\<exists>rs. many_spans.leaf_results (start + 1) ps (map f as') = Some (Inr (rs, [])) \<and> list_all2 expected_result ps rs"
    by (rule Cons.IH) (use Cons.prems as in fastforce)+
  with r as show ?case by (fastforce simp: many_leaf_hash_Cons simp del: One_nat_def)
qed (simp del: One_nat_def)

lemma cells_hash_expected:
  assumes ok: "digest_ok digest" and len: "length (current_cells reg) = n" "\<forall>x\<in>set (current_cells reg). enc t x \<noteq> None"
    and w: "knows_cells n reg w" "covers_cells n reg w" and p: "honest_part (MLeaf h (pr_access reg) data) p"
  shows "\<exists>r. partial_state_hash digest enc (Cells t n w) p = Some r \<and> expected_result p r"
proof (cases "pr_access reg")
  case True
  with w(2) obtain vs where vs: "w = PartialRegion (map Some vs)" by (auto simp: covers_cells_def)
  then have region: "get_partial_region w = Complete vs" by (auto simp: get_partial_region_def list_ex_iff comp_def)
  with get_partial_region_knows [OF w(1)] have "vs = current_cells reg" by simp
  with region p True ok serialise_region_eq [where enc = enc and t = t, OF len] show ?thesis
    by (simp add: blake2b_hash_def honest_leaf expected_result_def)
next
  case False
  with w(2) have "w = AbsentRegion" by (simp add: covers_cells_def)
  with False p show ?thesis
    by (auto simp: get_partial_region_def honest_leaf expected_result_def partial_hash_leaf_def)
qed

lemma page_hash_expected:
  assumes ok: "digest_ok digest" and covers: "covers_bytes n d pages" and i: "i < m" and logs: "pd_reads d \<union> dom (pd_writes d) \<subseteq> {0..<MERKLE_LEAF_SIZE * m}"
    and p: "honest_part (leaf_tree digest (pd_reads d) (dom (pd_writes d)) i bs) p"
  shows "\<exists>r. dyn_leaf_hash digest pages (MERKLE_LEAF_SIZE * i) p () = Some (Inr r, ()) \<and> expected_result p r"
proof -
  let ?L = MERKLE_LEAF_SIZE and ?log = "pd_reads d \<union> dom (pd_writes d)"
  have pid: "page_id (?L * i) = ?L * i" by (simp add: page_id_def)
  have dom: "page_id ` ?log = dom pages" using covers by (simp add: covers_bytes_def)
  have accessed: "(\<exists>x\<in>?log. ?L * i \<le> x \<and> x < ?L * i + ?L) \<longleftrightarrow> ?L * i \<in> dom pages"
  proof
    assume "\<exists>x\<in>?log. ?L * i \<le> x \<and> x < ?L * i + ?L"
    then obtain x where x: "x \<in> ?log" "?L * i \<le> x" "x < ?L * i + ?L" by blast
    have "page_id (?L * i + (x - ?L * i)) = page_id (?L * i)" by (rule on_same_page) (use x in simp)
    with x pid dom show "?L * i \<in> dom pages" by (metis imageI le_add_diff_inverse)
  next
    assume "?L * i \<in> dom pages"
    then obtain x where "x \<in> ?log" "page_id x = ?L * i" using dom by (metis imageE)
    moreover have "x mod ?L < ?L" using leaf_size_pos by simp
    ultimately show "\<exists>x\<in>?log. ?L * i \<le> x \<and> x < ?L * i + ?L" using page_id_offset [of x] by (intro bexI [of _ x]) linarith+
  qed
  have shown: "if ?L * i \<in> dom pages then p = Present (Leaf (Read bs)) else p = Present (Leaf (Blind (digest bs))) \<or> p = Absent"
    using p accessed by (auto simp: leaf_tree_def honest_leaf includes_range_def mult.commute split: if_splits)
  show ?thesis
  proof (cases "pages (?L * i)")
    case None
    with shown have "p = Present (Leaf (Blind (digest bs))) \<or> p = Absent" by (auto split: if_splits)
    with None pid show ?thesis by (auto simp: dyn_leaf_hash_def get_partial_page_def partial_hash_leaf_def expected_result_def)
  next
    case (Some pg)
    then have "is_fully_available pg" using covers by (auto simp: covers_bytes_def)
    moreover have "p \<noteq> Absent" using shown Some by (auto split: if_splits)
    ultimately show ?thesis using Some pid ok by (auto simp: dyn_leaf_hash_def get_partial_page_def expected_result_def)
  qed
qed

lemma dyn_hash_expected:
  assumes ok: "digest_ok digest" and k: "n = MERKLE_LEAF_SIZE * 4 ^ k" "length (pd_source d) = n"
    and d: "covers_bytes n d pages" "pd_reads d \<union> dom (pd_writes d) \<subseteq> {0..<n}"
    and p: "honest_part (tree_of digest enc (DynCells n d)) p"
  shows "\<exists>r. partial_state_hash digest enc (DynCells n pages) p = Some r \<and> expected_result p r"
proof -
  have len: "length (pd_source d) = MERKLE_LEAF_SIZE * 4 ^ k" using k by simp
  let ?ts = "leaves_from (leaf_tree digest (pd_reads d) (dom (pd_writes d))) 0 (leaf_chunks MERKLE_LEAF_SIZE (pd_source d))"
  have ts: "length ?ts = 4 ^ k" using length_leaves [OF len] by simp
  have views: "shaped k p" "list_all2 honest_part ?ts (slots k p)"
    using honest_part_of [OF p] honest_slots [of digest k ?ts p] p ts unfolding tree_of_dyn [OF len] by (simp_all add: part_of_perfectD)
  have "\<exists>r. dyn_leaf_hash digest pages (0 + MERKLE_LEAF_SIZE * i) (slots k p ! i) () = Some (Inr r, ()) \<and> expected_result (slots k p ! i) r"
    if i: "i < length (slots k p)" for i
  proof -
    have i': "i < 4 ^ k" using i length_slots [OF views(1)] by simp
    have "honest_part (leaf_tree digest (pd_reads d) (dom (pd_writes d)) i (leaf_chunks MERKLE_LEAF_SIZE (pd_source d) ! i)) (slots k p ! i)"
      using list_all2_nthD [OF views(2), of i] i' ts length_leaves [OF len] by (simp add: nth_leaves_from)
    from page_hash_expected [OF ok d(1) i' d(2) [unfolded k(1)] this] show ?thesis by simp
  qed
  from dyn_leaf_results_all [OF this] obtain rs where rs:
    "dyn_spans.leaf_results digest pages 0 (slots k p) () = Some (Inr (rs, ()))" "list_all2 expected_result (slots k p) rs" by blast
  have "partial_state_hash digest enc (DynCells n pages) p = Some (span_hash digest k p rs)"
    using dyn_spans.loop_eq [OF views(1), of digest pages 0 "()"] rs(1) k by simp
  with span_hash_expected [OF ok views(1) rs(2)] show ?thesis by blast
qed

lemma partial_state_hash_expected:
  assumes ok: "digest_ok digest"
  shows "perfect_alloc a \<Longrightarrow> state_wf enc (current_state a) \<Longrightarrow> logs_bounded a \<Longrightarrow> honest_part (tree_of digest enc a) p \<Longrightarrow>
    alloc_rel knows_cells knows_bytes a v \<Longrightarrow> alloc_rel covers_cells covers_bytes a v \<Longrightarrow>
    \<exists>r. partial_state_hash digest enc v p = Some r \<and> expected_result p r"
proof (induction a arbitrary: p v)
  case (Cells t n reg)
  then obtain w where "v = Cells t n w" "knows_cells n reg w" "covers_cells n reg w" by (auto split: alloc.splits)
  with Cells.prems cells_hash_expected [OF ok, of reg n enc t w] show ?case by auto
next
  case (DynCells n d)
  then obtain pages where "v = DynCells n pages" "covers_bytes n d pages" by (auto split: alloc.splits)
  with DynCells.prems dyn_hash_expected [OF ok, of n _ d pages enc p] show ?case by auto
next
  case (Parts as)
  from alloc_rel_length(1) [OF Parts.prems(5)] obtain vs where vs: "v = Parts vs" "length vs = length as"
    "\<forall>i<length as. alloc_rel knows_cells knows_bytes (as ! i) (vs ! i)" by blast
  have covers: "\<forall>i<length as. alloc_rel covers_cells covers_bytes (as ! i) (vs ! i)"
    using alloc_rel_length(1) [OF Parts.prems(6)] vs(1) by auto
  let ?cs = "children_of (length as) p"
  have p: "node_ok (length as) p" "list_all2 honest_part (map (tree_of digest enc) as) ?cs"
    using honest_part_of [OF Parts.prems(4)] honest_children [of digest "map (tree_of digest enc) as" p] Parts.prems(4)
    by (simp_all add: part_of_node_of)
  have "\<exists>r. partial_state_hash digest enc (vs ! i) (?cs ! i) = Some r \<and> expected_result (?cs ! i) r" if i: "i < length as" for i
    by (rule Parts.IH) (use i Parts.prems vs covers p(2) in \<open>auto simp: list_all_length list_all2_conv_all_nth\<close>)
  then obtain f where f: "\<And>i. i < length as \<Longrightarrow> partial_state_hash digest enc (vs ! i) (?cs ! i) = Some (f i) \<and> expected_result (?cs ! i) (f i)"
    by metis
  have zip: "map (\<lambda>(f, b). f b) (zip (map (partial_state_hash digest enc) vs) ?cs) = map Some (map f [0..<length as])"
    using vs(2) f length_children [OF p(1)] by (intro nth_equalityI) simp_all
  have "all_values (map Some (map f [0..<length as])) = Some (map f [0..<length as])" by (simp only: all_values_eq)
  then have "partial_state_hash digest enc v p = Some (combine_partial_hashes digest (map f [0..<length as]) (blind_hash p))"
    using vs(1,2) into_branches_eq [OF p(1)] zip by (simp del: map_map)
  moreover have "p = Absent \<Longrightarrow> length as \<noteq> 0" using Parts.prems(4) by (auto simp: honest_part_def node_of_def)
  moreover have "list_all2 expected_result ?cs (map f [0..<length as])"
    using f length_children [OF p(1)] by (simp add: list_all2_conv_all_nth)
  ultimately show ?case using combine_partial_expected [OF ok p(1)] by blast
next
  case (Many as)
  from Many.prems(1) obtain k where k: "length as = 4 ^ k" unfolding perfect_alloc.simps by blast
  from alloc_rel_length(2) [OF Many.prems(5)] obtain vs where vs: "v = Many vs" "length vs = length as"
    "\<forall>i<length as. alloc_rel knows_cells knows_bytes (as ! i) (vs ! i)" by blast
  have covers: "\<forall>i<length as. alloc_rel covers_cells covers_bytes (as ! i) (vs ! i)"
    using alloc_rel_length(2) [OF Many.prems(6)] vs(1) by auto
  have p: "shaped k p" "list_all2 honest_part (map (tree_of digest enc) as) (slots k p)"
    using honest_part_of [OF Many.prems(4)] honest_slots [of digest k "map (tree_of digest enc) as" p] Many.prems(4) k
    unfolding tree_of_many [OF k] by (simp_all add: part_of_perfectD)
  have slots: "length vs = length (slots k p)" using vs(2) k length_slots [OF p(1)] by simp
  have "\<exists>r. partial_state_hash digest enc (vs ! i) (slots k p ! i) = Some r \<and> expected_result (slots k p ! i) r" if "i < length (slots k p)" for i
  proof (rule Many.IH)
    have i: "i < length as" using that slots vs(2) by simp
    then show "as ! i \<in> set as" "perfect_alloc (as ! i)" using many_layouts(3) [OF Many.prems(1)] by simp_all
    show "state_wf enc (current_state (as ! i))" "logs_bounded (as ! i)" using Many.prems(2,3) i by (simp_all add: list_all_length)
    show "honest_part (tree_of digest enc (as ! i)) (slots k p ! i)" using p(2) i by (simp add: list_all2_conv_all_nth)
    show "alloc_rel knows_cells knows_bytes (as ! i) (vs ! i)" "alloc_rel covers_cells covers_bytes (as ! i) (vs ! i)"
      using vs(3) covers i by blast+
  qed
  from many_leaf_results_all [OF slots this] obtain rs where rs:
    "many_spans.leaf_results 0 (slots k p) (map (partial_state_hash digest enc) vs) = Some (Inr (rs, []))"
    "list_all2 expected_result (slots k p) rs" by blast
  have "partial_state_hash digest enc v p = Some (span_hash digest k p rs)"
    using many_spans.loop_eq [OF p(1), of digest 0] rs(1) vs(1,2) k by (simp del: One_nat_def)
  with span_hash_expected [OF ok p(1) rs(2)] show ?case by blast
qed

end
