(* ===== verification/State_Proof.thy ===== *)
theory State_Proof
  imports State_Complete
begin

text \<open>
  Model of how proofs are produced and verified: \<^verbatim>\<open>Pvm::hash\<close>, \<^verbatim>\<open>Pvm::to_proof\<close> and \<^verbatim>\<open>Pvm::from_proof\<close> in
  \<^verbatim>\<open>pvm/common.rs\<close>, \<^verbatim>\<open>PvmStepper::produce_proof\<close>, \<^verbatim>\<open>try_step_partial\<close> and \<^verbatim>\<open>verify_proof\<close> in \<^verbatim>\<open>stepper/pvm.rs\<close>,
  \<^verbatim>\<open>handle_stepper_panics\<close> in \<^verbatim>\<open>verify_backend.rs\<close>, and the same for the node in \<^verbatim>\<open>pvm/node_pvm.rs\<close>. The step
  itself is code that is generic in the backend, a \<open>program\<close>; it returns whether it succeeded.
\<close>

section \<open>Producing a proof\<close>

definition pvm_hash where
  "pvm_hash digest enc state = owned_state_hash digest enc state"

text \<open>\<^verbatim>\<open>to_proof\<close>: making the tree takes the logs of reads, then the state is hashed.\<close>

definition to_proof ::
  "(bytes \<Rightarrow> bytes) \<Rightarrow> ('t \<Rightarrow> 'v \<Rightarrow> bytes option) \<Rightarrow> ('t, 'v) proof_alloc \<Rightarrow> (hash_error, state_proof) fallible option" where
  "to_proof digest enc state =
     obind (to_merkle_tree digest enc state) (\<lambda>tree.
     obind (to_merkle_proof digest tree) (\<lambda>merkle_proof.
     obind (proof_state_hash digest enc (reads_taken state)) (\<lambda>final_hash.
     Some (Okay (proof_new merkle_proof final_hash)))))"

definition proof_of_result ::
  "(bytes \<Rightarrow> bytes) \<Rightarrow> ('t \<Rightarrow> 'v \<Rightarrow> bytes option) \<Rightarrow> (bool \<times> ('t, 'v) proof_alloc) access \<Rightarrow>
   (unit, state_proof option) fallible option" where
  "proof_of_result digest enc result =
     (case result of
        Value (success, state) \<Rightarrow>
          if success
          then map_option (\<lambda>r. case r of Okay p \<Rightarrow> Okay (Some p) | Failed _ \<Rightarrow> Okay None | Panicked \<Rightarrow> Panicked)
                 (to_proof digest enc state)
          else Some (Okay None)
      | _ \<Rightarrow> Some Panicked)"

definition produce_proof ::
  "(bytes \<Rightarrow> bytes) \<Rightarrow> ('t \<Rightarrow> 'v \<Rightarrow> bytes option) \<Rightarrow> ('v, bool) program \<Rightarrow> ('t, 'v) owned_alloc \<Rightarrow>
   (unit, state_proof option) fallible option" where
  "produce_proof digest enc try_step state = proof_of_result digest enc (run proof_gen try_step (start_proof state))"

section \<open>Verifying a proof\<close>

datatype proof_verification_failure =
  UnexpectedProofShape
| StepperError
| StepperPanic
| AbsentDataAccess
| PartialHashFailure partial_hash_error
| FinalHashMismatch hash hash

definition handle_stepper_panics :: "'a access \<Rightarrow> proof_verification_failure + 'a" where
  "handle_stepper_panics r =
     (case r of Value x \<Rightarrow> Inr x | Missing \<Rightarrow> Inl AbsentDataAccess | Crashed \<Rightarrow> Inl StepperPanic)"

definition try_step_partial ::
  "('v, bool) program \<Rightarrow> ('t, 'v) verify_alloc \<Rightarrow> proof_verification_failure + ('t, 'v) verify_alloc" where
  "try_step_partial try_step state =
     try_bind (handle_stepper_panics (run verifier try_step state)) (\<lambda>(success, state).
       if success then Inr state else Inl StepperError)"

definition verify_proof ::
  "(bytes \<Rightarrow> bytes) \<Rightarrow> ('t \<Rightarrow> 'v \<Rightarrow> bytes option) \<Rightarrow> ('t \<Rightarrow> bytes \<Rightarrow> ('v \<times> bytes) option) \<Rightarrow> 't layout \<Rightarrow>
   ('v, bool) program \<Rightarrow> state_proof \<Rightarrow> (proof_verification_failure, unit) fallible option" where
  "verify_proof digest enc dec layout try_step p =
     (let tree = Present (proof_tree p)
      in Option.bind (to_verifier_alloc dec layout tree) (\<lambda>r.
           case r of
             Failed _ \<Rightarrow> Some (Failed UnexpectedProofShape)
           | Panicked \<Rightarrow> Some Panicked
           | Okay space \<Rightarrow>
               (case try_step_partial try_step space of
                  Inl e \<Rightarrow> Some (Failed e)
                | Inr state \<Rightarrow>
                    map_option (\<lambda>h.
                      case h of
                        Inl e \<Rightarrow> Failed (PartialHashFailure e)
                      | Inr final_hash \<Rightarrow>
                          if final_hash \<noteq> final_state_hash p then Failed (FinalHashMismatch (final_state_hash p) final_hash)
                          else Okay ())
                      (partial_state_hash digest enc state tree))))"

text \<open>
  The node's own \<^verbatim>\<open>verify_proof\<close>: panics of the step are not caught, and success is still to be done and panics.
\<close>

definition node_verify_proof ::
  "(bytes \<Rightarrow> bytes) \<Rightarrow> ('t \<Rightarrow> 'v \<Rightarrow> bytes option) \<Rightarrow> ('t \<Rightarrow> bytes \<Rightarrow> ('v \<times> bytes) option) \<Rightarrow> 't layout \<Rightarrow>
   ('v, bool) program \<Rightarrow> state_proof \<Rightarrow> unit option access option" where
  "node_verify_proof digest enc dec layout step p =
     (let tree = Present (proof_tree p)
      in Option.bind (to_verifier_alloc dec layout tree) (\<lambda>r.
           case r of
             Failed _ \<Rightarrow> Some (Value None)
           | Panicked \<Rightarrow> Some Crashed
           | Okay space \<Rightarrow>
               (case run verifier step space of
                  Missing \<Rightarrow> Some Missing
                | Crashed \<Rightarrow> Some Crashed
                | Value (success, state) \<Rightarrow>
                    if \<not> success then Some (Value None)
                    else
                      map_option (\<lambda>h.
                        case h of
                          Inl _ \<Rightarrow> Value None
                        | Inr final_hash \<Rightarrow> if final_hash \<noteq> final_state_hash p then Value None else Crashed)
                        (partial_state_hash digest enc state tree))))"

lemma try_step_partial_eq: "try_step_partial try_step v = Inr v' \<longleftrightarrow> run verifier try_step v = Value (True, v')"
  by (auto simp: try_step_partial_def handle_stepper_panics_def split: access.splits if_splits)

lemma verify_proof_Okay:
  assumes "verify_proof digest enc dec layout try_step p = Some (Okay ())"
  shows "\<exists>v v'. to_verifier_alloc dec layout (Present (proof_tree p)) = Some (Okay v) \<and>
    run verifier try_step v = Value (True, v') \<and>
    partial_state_hash digest enc v' (Present (proof_tree p)) = Some (Inr (final_state_hash p))"
proof -
  from assms obtain r where "to_verifier_alloc dec layout (Present (proof_tree p)) = Some r"
    by (auto simp: verify_proof_def Let_def bind_eq_Some_conv)
  moreover from this assms obtain v where "r = Okay v" by (cases r) (auto simp: verify_proof_def Let_def)
  ultimately have v: "to_verifier_alloc dec layout (Present (proof_tree p)) = Some (Okay v)" by simp
  with assms obtain v' where v': "try_step_partial try_step v = Inr v'"
    by (cases "try_step_partial try_step v") (auto simp: verify_proof_def Let_def)
  with v assms have "partial_state_hash digest enc v' (Present (proof_tree p)) = Some (Inr (final_state_hash p))"
    by (cases "partial_state_hash digest enc v' (Present (proof_tree p))" rule: option.exhaust;
        cases "the (partial_state_hash digest enc v' (Present (proof_tree p)))")
       (auto simp: verify_proof_def Let_def split: if_splits)
  with v v' show ?thesis by (auto simp: try_step_partial_eq)
qed

section \<open>Properties of states\<close>

lemma start_tracks: "state_wf enc a \<Longrightarrow> alloc_rel tracks_cells tracks_bytes a (start_proof a)"
proof (induction a)
  case (Cells t n r)
  then show ?case by (simp add: tracks_cells_def)
next
  case (DynCells n d)
  then show ?case by (simp add: tracks_bytes_def)
next
  case (Parts as)
  then show ?case by (auto simp: list_all2_conv_all_nth list_all_length)
next
  case (Many as)
  then show ?case by (auto simp: list_all2_conv_all_nth list_all_length)
qed

lemma tracks_current: "alloc_rel tracks_cells tracks_bytes os a \<Longrightarrow> current_state a = os"
proof (induction a arbitrary: os)
  case (Cells t n r)
  then show ?case by (cases os) (auto simp: tracks_cells_def)
next
  case (DynCells n d)
  then show ?case by (cases os) (auto simp: tracks_bytes_def)
next
  case (Parts as)
  then show ?case by (cases os) (auto simp: list_all2_conv_all_nth intro!: nth_equalityI)
next
  case (Many as)
  then show ?case by (cases os) (auto simp: list_all2_conv_all_nth intro!: nth_equalityI)
qed

lemma source_start [simp]: "source_state (start_proof a) = a"
  by (induction a) (auto simp: map_idI)

lemma grows_source: "alloc_rel grows_cells grows_bytes a b \<Longrightarrow> source_state b = source_state a \<and> layout_of b = layout_of a"
proof (induction a arbitrary: b)
  case (Cells t n r)
  then show ?case by (cases b) (auto simp: grows_cells_def)
next
  case (DynCells n d)
  then show ?case by (cases b) (auto simp: grows_bytes_def)
next
  case (Parts as)
  then show ?case by (cases b) (auto simp: list_all2_conv_all_nth intro!: nth_equalityI)
next
  case (Many as)
  then show ?case by (cases b) (auto simp: list_all2_conv_all_nth intro!: nth_equalityI)
qed

lemma layout_source [simp]: "layout_of (source_state a) = layout_of a"
  by (induction a) auto

lemma layout_start [simp]: "layout_of (start_proof a) = layout_of a"
  by (induction a) auto

lemma layout_layout [simp]: "layout_of (layout_of a) = layout_of a"
  by (induction a) auto

lemma perfect_layout: "perfect_alloc (layout_of a) \<longleftrightarrow> perfect_alloc a"
proof (induction a)
  case (Many as)
  then have "list_all perfect_alloc (map layout_of as) \<longleftrightarrow> list_all perfect_alloc as" by (auto simp: list.pred_set)
  moreover have "(\<forall>a\<in>set (map layout_of as). layout_of a = layout_of (hd (map layout_of as))) \<longleftrightarrow>
      (\<forall>a\<in>set as. layout_of a = layout_of (hd as))" by (cases as) auto
  ultimately show ?case by (simp only: layout_of_simps perfect_alloc.simps length_map)
qed (auto simp: list.pred_set)

lemma current_reads_taken [simp]: "current_state (reads_taken a) = current_state a"
proof (induction a)
  case (DynCells n d)
  then show ?case by (simp add: reads_taken_def get_read_def)
qed (simp_all add: reads_taken_def)

text \<open>What is hashed for the tree of a state does not depend on the logs.\<close>

fun unflagged :: "merkle_tree \<Rightarrow> merkle_tree" where
  "unflagged (MLeaf h _ data) = MLeaf h False data"
| "unflagged (MNode h ts) = MNode h (map unflagged ts)"

lemma root_hash_unflagged [simp]: "root_hash (unflagged t) = root_hash t"
  by (cases t) simp_all

lemma tree_inputs_unflagged: "tree_inputs (unflagged t) = tree_inputs t"
  by (induction t) (simp_all add: comp_def)

lemma unflagged_node_of: "unflagged (node_of digest ts) = node_of digest (map unflagged ts)"
  by (simp add: node_of_def comp_def)

lemma unflagged_tree_root: "ts \<noteq> [] \<Longrightarrow> unflagged (tree_root digest arity ts) = tree_root digest arity (map unflagged ts)"
proof (induction digest arity ts rule: tree_root.induct)
  case (1 digest arity ts)
  show ?case
  proof (cases "arity < 2 \<or> length ts \<le> 1")
    case True
    with "1.prems" show ?thesis by (simp add: tree_root.simps hd_map)
  next
    case False
    have "map unflagged (map (node_of digest) (leaf_chunks arity ts)) = map (node_of digest) (leaf_chunks arity (map unflagged ts))"
      by (simp add: unflagged_node_of comp_def map_chunks [symmetric])
    with 1 False show ?thesis
      by (simp add: tree_root.simps [of digest arity ts] tree_root.simps [of digest arity "map unflagged ts"])
  qed
qed

lemma unflagged_tree_of:
  "state_wf enc (source_state a) \<Longrightarrow> unflagged (tree_of digest enc a) = unflagged (tree_of digest enc (start_proof (source_state a)))"
proof (induction a)
  case (Cells t n r)
  then show ?case by simp
next
  case (DynCells n d)
  then have "leaf_chunks MERKLE_LEAF_SIZE (pd_source d) \<noteq> []" by (intro chunks_source_nonempty) simp
  then show ?case by (simp add: unflagged_tree_root map_leaves_from leaf_tree_def)
next
  case (Parts as)
  then have "map (\<lambda>a. unflagged (tree_of digest enc a)) as = map (\<lambda>a. unflagged (tree_of digest enc (start_proof (source_state a)))) as"
    by (auto simp: list.pred_set)
  then show ?case by (simp add: unflagged_node_of comp_def cong: map_cong)
next
  case (Many as)
  then have "map (\<lambda>a. unflagged (tree_of digest enc a)) as = map (\<lambda>a. unflagged (tree_of digest enc (start_proof (source_state a)))) as"
    by (auto simp: list.pred_set)
  with Many.prems show ?case by (simp add: unflagged_tree_root comp_def cong: map_cong)
qed

lemma tree_inputs_tree_of:
  assumes "state_wf enc (source_state a)"
  shows "tree_inputs (tree_of digest enc a) = tree_inputs (tree_of digest enc (start_proof (source_state a)))"
  using unflagged_tree_of [OF assms, of digest] tree_inputs_unflagged by metis

section \<open>Proofs of steps\<close>

text \<open>The prover's run, and what it says of the states.\<close>

lemma prover_run:
  assumes "state_wf enc s" and "run owned step s = Value (x, s')"
  obtains a where "run proof_gen step (start_proof s) = Value (x, a)" "alloc_rel tracks_cells tracks_bytes s' a"
    "source_state a = s" "current_state a = s'" "layout_of a = layout_of s" "logs_bounded a"
proof -
  obtain a where a: "run proof_gen step (start_proof s) = Value (x, a)" "alloc_rel tracks_cells tracks_bytes s' a"
    using recording.run_simulates [OF start_tracks [OF assms(1)] assms(2)] by blast
  moreover have "source_state a = s" "layout_of a = layout_of s" using grows_source [OF run_grows [OF a(1)]] by simp_all
  ultimately show thesis using that tracks_current [OF a(2)] tracks_logs_bounded [OF a(2)] by blast
qed

lemma to_proof_eq:
  assumes "digest_ok digest" "state_wf enc (source_state a)" "state_wf enc (current_state a)"
  shows "to_proof digest enc a =
    Some (Okay (proof_new (partial_tree (tree_of digest enc a)) (hash_of digest enc (current_state a))))"
  using assms proof_state_hash_eq [of digest enc "reads_taken a"]
  by (simp add: to_proof_def to_merkle_tree_eq to_merkle_proof_eq hashes_valid_tree_of)

lemma initial_state_hash_eq:
  "digest_ok digest \<Longrightarrow> initial_state_hash digest p = Some (Okay (proof_hash digest (proof_tree p)))"
  by (simp add: initial_state_hash_def proof_root_hash_eq)

text \<open>
  C2: Completeness. For a state whose dynamic regions and arrays have a power of the arity many leaves, a
  step that succeeds on the owned backend yields a proof whose initial hash is the hash of the state
  before the step and whose final hash is that of the state after it, and the proof is verified.
\<close>

theorem produced_proof_verifies:
  assumes ok: "digest_ok digest" and codec: "codec_ok enc dec"
    and layout: "perfect_alloc s" and wf: "state_wf enc s" "state_wf enc s'"
    and step: "run owned try_step s = Value (True, s')"
  shows "\<exists>p. produce_proof digest enc try_step s = Some (Okay (Some p)) \<and>
    initial_state_hash digest p = pvm_hash digest enc s \<and>
    pvm_hash digest enc s' = Some (Okay (final_state_hash p)) \<and>
    verify_proof digest enc dec (layout_of s) try_step p = Some (Okay ())"
proof -
  obtain a where a: "run proof_gen try_step (start_proof s) = Value (True, a)" "alloc_rel tracks_cells tracks_bytes s' a"
    "source_state a = s" "current_state a = s'" "layout_of a = layout_of s" "logs_bounded a"
    using prover_run [OF wf(1) step] by blast
  let ?t = "tree_of digest enc a" and ?p = "proof_new (partial_tree (tree_of digest enc a)) (hash_of digest enc s')"
  have perfect: "perfect_alloc a" using layout a(5) perfect_layout by metis
  have valid: "hashes_valid digest ?t" using hashes_valid_tree_of [of enc a] a(3) wf(1) by simp
  have honest: "honest_part ?t (Present (partial_tree ?t))" by (simp add: honest_part_def)
  have produce: "produce_proof digest enc try_step s = Some (Okay (Some ?p))"
    using to_proof_eq [OF ok, of enc a] a wf by (simp add: produce_proof_def proof_of_result_def)
  have initial: "initial_state_hash digest ?p = pvm_hash digest enc s"
    using ok wf(1) valid root_hash_tree_of [of enc a digest] a(3)
    by (simp add: initial_state_hash_eq proof_new_def proof_hash_partial_tree pvm_hash_def owned_state_hash_eq)
  have final: "pvm_hash digest enc s' = Some (Okay (final_state_hash ?p))"
    using ok wf(2) by (simp add: pvm_hash_def owned_state_hash_eq proof_new_def)
  obtain v where v: "to_verifier_alloc dec (layout_of s) (Present (partial_tree ?t)) = Some (Okay v)" "alloc_rel covers_cells covers_bytes a v"
    using honest_to_verifier [OF codec perfect _ a(6) honest] a(3,5) wf(1) by auto
  have knows: "alloc_rel knows_cells knows_bytes (start_proof s) v"
    using to_verifier_alloc_knows [OF codec perfect _ _ honest_part_of [OF honest]] v(1) a(3,5) wf(1) by auto
  obtain v' where v': "run verifier try_step v = Value (True, v')" "alloc_rel covers_cells covers_bytes a v'"
    using run_covered [OF step a(1) start_tracks [OF wf(1)] knows v(2)] by blast
  have knows': "alloc_rel knows_cells knows_bytes a v'" using verifying.run_agree [OF knows a(1) v'(1)] by blast
  obtain r where r: "partial_state_hash digest enc v' (Present (partial_tree ?t)) = Some r" "expected_result (Present (partial_tree ?t)) r"
    using partial_state_hash_expected [OF ok perfect _ a(6) honest knows' v'(2)] a(4) wf(2) by auto
  then have "r = Inr (hash_of digest enc s')"
    using partial_state_hash_right [OF ok perfect _ _ honest_part_of [OF honest] knows' r(1)] a(3,4) wf
    by (auto simp: expected_result_def right_result_def)
  then have "verify_proof digest enc dec (layout_of s) try_step ?p = Some (Okay ())"
    using v(1) v'(1) r(1) by (simp add: verify_proof_def proof_new_def try_step_partial_def handle_stepper_panics_def)
  with produce initial final show ?thesis by blast
qed

text \<open>
  C3: Soundness, for states whose dynamic regions and arrays have a power of the arity many leaves and whose values can
  be encoded. When a proof of any origin is verified and its initial hash is the hash of such a state, and the step does
  not panic on the owned backend from that state, then the step succeeds there, and the proof's final hash is
  the hash of the state after it, unless two different ones of the byte strings hashed for the proof
  and for the state have the same digest. That the owned step does not panic is a hypothesis and not a consequence: an
  empty read beyond a region panics on the owned backend and passes on the verifier's, which looks at no page for it.
\<close>

theorem verified_proof_sound:
  assumes ok: "digest_ok digest" and codec: "codec_ok enc dec"
    and layout: "perfect_alloc s" and wf: "state_wf enc s" "state_wf enc s'"
    and typed: "proof_typed (proof_tree p)"
    and no_collision: "inj_on digest (proof_inputs digest (proof_tree p) \<union> tree_inputs (tree_of digest enc (start_proof s)))"
    and initial: "initial_state_hash digest p = pvm_hash digest enc s"
    and verified: "verify_proof digest enc dec (layout_of s) try_step p = Some (Okay ())"
    and step: "run owned try_step s = Value (success, s')"
  shows "success \<and> pvm_hash digest enc s' = Some (Okay (final_state_hash p))"
proof -
  obtain a where a: "run proof_gen try_step (start_proof s) = Value (success, a)" "alloc_rel tracks_cells tracks_bytes s' a"
    "source_state a = s" "current_state a = s'" "layout_of a = layout_of s" "logs_bounded a"
    using prover_run [OF wf(1) step] by blast
  let ?t = "tree_of digest enc a" and ?p = "Present (proof_tree p)"
  have perfect: "perfect_alloc a" using layout a(5) perfect_layout by metis
  from verified obtain v v' where v: "to_verifier_alloc dec (layout_of a) ?p = Some (Okay v)"
    "run verifier try_step v = Value (True, v')" "partial_state_hash digest enc v' ?p = Some (Inr (final_state_hash p))"
    unfolding a(5) by (auto dest: verify_proof_Okay)
  have "part_of False ?t ?p" using to_verifier_alloc_fits [OF perfect _ v(1)] a(3) wf(1) by simp
  moreover have "hashes_valid digest ?t" using hashes_valid_tree_of [of enc a] a(3) wf(1) by simp
  moreover have "proof_hash digest (proof_tree p) = root_hash ?t"
    using initial ok wf(1) root_hash_tree_of [of enc a digest] a(3)
    by (simp add: initial_state_hash_eq pvm_hash_def owned_state_hash_eq)
  moreover have "inj_on digest (proof_inputs digest (proof_tree p) \<union> tree_inputs ?t)"
    using no_collision tree_inputs_tree_of [of enc a digest] a(3) wf(1) by simp
  ultimately have views: "part_of True ?t ?p" using typed by (intro part_of_strict [OF ok])
  have knows: "alloc_rel knows_cells knows_bytes (start_proof s) v"
    using to_verifier_alloc_knows [OF codec perfect _ v(1) views] a(3) wf(1) by simp
  have "success = True \<and> alloc_rel knows_cells knows_bytes a v'" by (rule verifying.run_agree [OF knows a(1) v(2)])
  then have "success" and knows': "alloc_rel knows_cells knows_bytes a v'" by simp_all
  have "right_result (root_hash ?t) (hash_of digest enc s') (Inr (final_state_hash p))"
    using partial_state_hash_right [OF ok perfect _ _ views knows' v(3)] a(3,4) wf by simp
  with \<open>success\<close> show ?thesis using ok wf(2) by (simp add: pvm_hash_def owned_state_hash_eq)
qed

text \<open>
  Where owned backend and verifier differ: an empty read beyond the end of a region is a panic of the owned backend,
  and nothing at all for the verifier.
\<close>

lemma empty_read_beyond:
  assumes "n < address"
  shows "run owned (ReadBytes [] address 0 k) (DynCells n bs) = Crashed"
    and "run verifier (ReadBytes [] address 0 k) (DynCells n pages) = run verifier (k []) (DynCells n pages)"
  using assms
  by (simp_all add: dyn_cells_read_def owned_def owned_dyn_region_read_def verifier_def verify_dyn_region_read_def read_bytes_def)

section \<open>A small example\<close>

definition toy_hash :: "bytes \<Rightarrow> bytes" where
  "toy_hash bs = of_nat (length bs) # foldl (\<lambda>h b. 31 * h + b) 7 bs # replicate 30 0"

lemma toy_hash_ok: "digest_ok toy_hash"
  by (simp add: digest_ok_def toy_hash_def DIGEST_SIZE_def)

definition toy_enc :: "unit \<Rightarrow> u8 \<Rightarrow> bytes option" where
  "toy_enc t v = Some [v]"

definition toy_dec :: "unit \<Rightarrow> bytes \<Rightarrow> (u8 \<times> bytes) option" where
  "toy_dec t bs = (case bs of [] \<Rightarrow> None | b # rest \<Rightarrow> Some (b, rest))"

definition toy_state :: "u8 \<Rightarrow> (unit, u8) owned_alloc" where
  "toy_state x = Parts [Cells () 1 [5], Many [Cells () 1 [0], Cells () 1 [1], Cells () 1 [x], Cells () 1 [3]]]"

text \<open>A step that reads a cell and writes its value plus one to an element of the array.\<close>

definition toy_step :: "(u8, bool) program" where
  "toy_step = ReadCell [0] 0 (\<lambda>v. WriteCell [1, 2] 0 (v + 1) (Return True))"

definition toy_proof :: state_proof where
  "toy_proof = proof_new
     (Node [Leaf (Read [5]),
            Node [Leaf (Blind (toy_hash [0])), Leaf (Blind (toy_hash [1])), Leaf (Read [2]), Leaf (Blind (toy_hash [3]))]])
     (hash_of toy_hash toy_enc (toy_state 6))"

lemma toy_codec: "codec_ok toy_enc toy_dec"
  by (simp add: codec_ok_def toy_enc_def toy_dec_def)

lemma toy_state_ok: "perfect_alloc (toy_state x)" "state_wf toy_enc (toy_state x)"
proof -
  have "\<exists>k. Suc (Suc (Suc (Suc 0))) = 4 ^ k" by (rule exI [of _ 1]) simp
  then show "perfect_alloc (toy_state x)" by (simp add: toy_state_def)
qed (simp add: toy_state_def toy_enc_def)

lemma toy_run: "run owned toy_step (toy_state 2) = Value (True, toy_state 6)"
  by (simp add: toy_step_def toy_state_def cell_read_def cell_write_def owned_def owned_region_read_def owned_region_write_def)

theorem produced_proof_verifies_witness:
  "\<exists>p. produce_proof toy_hash toy_enc toy_step (toy_state 2) = Some (Okay (Some p)) \<and>
    initial_state_hash toy_hash p = pvm_hash toy_hash toy_enc (toy_state 2) \<and>
    pvm_hash toy_hash toy_enc (toy_state 6) = Some (Okay (final_state_hash p)) \<and>
    verify_proof toy_hash toy_enc toy_dec (layout_of (toy_state 2)) toy_step p = Some (Okay ())"
  by (rule produced_proof_verifies [OF toy_hash_ok toy_codec toy_state_ok toy_state_ok(2) toy_run])


lemma toy_verified: "verify_proof toy_hash toy_enc toy_dec (layout_of (toy_state 2)) toy_step toy_proof = Some (Okay ())"
  by code_simp

text \<open>What is hashed for the proof and for the state, and that nothing of it collides.\<close>

definition toy_inputs :: "bytes list" where
  "toy_inputs =
     (let elements = concat (map toy_hash [[0], [1], [2], [3]])
      in [[5], [0], [1], [2], [3], elements, toy_hash [5] @ toy_hash elements])"

lemma toy_tree_of:
  "tree_of toy_hash toy_enc (start_proof (toy_state 2)) =
     (let leaf = (\<lambda>b. MLeaf (toy_hash [b]) False [b])
      in node_of toy_hash [leaf 5, node_of toy_hash [leaf 0, leaf 1, leaf 2, leaf 3]])"
  by (simp add: toy_state_def Let_def tree_root.simps leaf_chunks.simps MERKLE_ARITY_def cells_bytes_def toy_enc_def)

lemma toy_inputs_all:
  "proof_inputs toy_hash (proof_tree toy_proof) \<union> tree_inputs (tree_of toy_hash toy_enc (start_proof (toy_state 2))) \<subseteq> set toy_inputs"
  unfolding toy_tree_of by code_simp

lemma toy_no_collision:
  "inj_on toy_hash (proof_inputs toy_hash (proof_tree toy_proof) \<union> tree_inputs (tree_of toy_hash toy_enc (start_proof (toy_state 2))))"
proof (rule inj_on_subset [OF _ toy_inputs_all])
  have "distinct (map toy_hash toy_inputs)" by code_simp
  then show "inj_on toy_hash (set toy_inputs)" by (simp add: distinct_map)
qed

lemma toy_initial: "initial_state_hash toy_hash toy_proof = pvm_hash toy_hash toy_enc (toy_state 2)" "proof_typed (proof_tree toy_proof)"
  unfolding initial_state_hash_eq [OF toy_hash_ok] pvm_hash_def owned_state_hash_eq [OF toy_hash_ok toy_state_ok(2)]
  by code_simp+

theorem verified_proof_sound_witness:
  "verify_proof toy_hash toy_enc toy_dec (layout_of (toy_state 2)) toy_step toy_proof = Some (Okay ()) \<and>
   pvm_hash toy_hash toy_enc (toy_state 6) = Some (Okay (final_state_hash toy_proof))"
  using verified_proof_sound [OF toy_hash_ok toy_codec toy_state_ok toy_state_ok(2) toy_initial(2) toy_no_collision
      toy_initial(1) toy_verified toy_run] toy_verified
  by simp

section \<open>A region whose length is not a power of the arity\<close>

lemma leaf_part_parses:
  assumes "n \<le> MERKLE_LEAF_SIZE" "length b = MERKLE_LEAF_SIZE"
  shows "\<exists>pgs. parse_pages start n (Present (partial_tree (leaf_tree digest rs ws k b))) = Some (Okay pgs)"
  using assms
  by (cases "includes_range rs (k * MERKLE_LEAF_SIZE) (k * MERKLE_LEAF_SIZE + MERKLE_LEAF_SIZE) \<or> includes_range ws (k * MERKLE_LEAF_SIZE) (k * MERKLE_LEAF_SIZE + MERKLE_LEAF_SIZE)")
     (simp_all add: parse_pages.simps leaf_tree_def into_leaf_raw_def deserialise_as_leaf_def map_present_fallible_def)

lemma two_leaves_tree:
  assumes "length (pd_source d) = 2 * MERKLE_LEAF_SIZE"
  shows "tree_of digest enc (DynCells n d) =
    node_of digest [leaf_tree digest (pd_reads d) (dom (pd_writes d)) 0 (take MERKLE_LEAF_SIZE (pd_source d)),
                    leaf_tree digest (pd_reads d) (dom (pd_writes d)) 1 (drop MERKLE_LEAF_SIZE (pd_source d))]"
proof -
  have "leaf_chunks MERKLE_LEAF_SIZE (pd_source d) = [take MERKLE_LEAF_SIZE (pd_source d), drop MERKLE_LEAF_SIZE (pd_source d)]"
  proof -
    have ne: "pd_source d \<noteq> []" "drop MERKLE_LEAF_SIZE (pd_source d) \<noteq> []" using assms leaf_size_pos by auto
    have "leaf_chunks MERKLE_LEAF_SIZE (drop MERKLE_LEAF_SIZE (pd_source d)) = [drop MERKLE_LEAF_SIZE (pd_source d)]"
      using assms ne(2) by (intro chunks_all) simp_all
    then show ?thesis by (simp only: chunks_Cons [OF leaf_size_pos ne(1)])
  qed
  then show ?thesis by (simp add: tree_root.simps chunks_all MERKLE_ARITY_def)
qed

lemma two_leaves_part:
  assumes len: "length (pd_source d) = 2 * MERKLE_LEAF_SIZE" and x: "x \<in> pd_reads d \<union> dom (pd_writes d)" "x < 2 * MERKLE_LEAF_SIZE"
  shows "touched (tree_of digest enc (DynCells n d))"
    and "parse_pages 0 (2 * MERKLE_LEAF_SIZE) (Present (partial_tree (tree_of digest enc (DynCells n d)))) =
      Some (Failed (BadNumberOfBranches 1 0))"
proof -
  let ?L = MERKLE_LEAF_SIZE
  let ?leaf = "leaf_tree digest (pd_reads d) (dom (pd_writes d))"
  let ?a = "?leaf 0 (take ?L (pd_source d))" and ?b = "?leaf 1 (drop ?L (pd_source d))"
  have "touched ?a \<or> touched ?b"
    using x by (cases "x < ?L") (auto simp: leaf_tree_def includes_range_def intro!: bexI [of _ x])
  then show t: "touched (tree_of digest enc (DynCells n d))"
    using two_leaves_tree [OF len, of digest enc n] by (simp add: node_of_def)
  then have tree: "partial_tree (tree_of digest enc (DynCells n d)) = Node [partial_tree ?a, partial_tree ?b]"
    using two_leaves_tree [OF len, of digest enc n] by (simp add: node_of_def)
  have params: "work_merkle_params MERKLE_ARITY 0 (2 * ?L) = [(0, 2048), (2048, 2048), (4096, 2048), (6144, 2048)]"
    using work_params_four [of 2048 0] by (simp add: work_merkle_params_def MERKLE_ARITY_def MERKLE_LEAF_SIZE_def div_ceil_def)
  obtain p q where "parse_pages 0 2048 (Present (partial_tree ?a)) = Some (Okay p)" "parse_pages 2048 2048 (Present (partial_tree ?b)) = Some (Okay q)"
    using leaf_part_parses [of 2048 "take ?L (pd_source d)"] leaf_part_parses [of 2048 "drop ?L (pd_source d)"] len
    by (force simp: MERKLE_LEAF_SIZE_def)
  then have "parse_pages 0 (2 * ?L) (Present (Node [partial_tree ?a, partial_tree ?b])) = Some (Failed (BadNumberOfBranches 1 0))"
    using leaf_size_pos by (simp add: parse_pages.simps [of 0 "2 * ?L"] params deserialise_as_node_def)
  with tree show "parse_pages 0 (2 * ?L) (Present (partial_tree (tree_of digest enc (DynCells n d)))) =
      Some (Failed (BadNumberOfBranches 1 0))" by simp
qed

text \<open>The log of a step shows an access to a region of two leaves, the whole state or a field of its structures.\<close>

fun accesses_two_leaves :: "('t, 'v) proof_alloc \<Rightarrow> bool" where
  "accesses_two_leaves (Cells t n r) = False"
| "accesses_two_leaves (DynCells n d) = (n = 2 * MERKLE_LEAF_SIZE \<and> (\<exists>x<n. x \<in> pd_reads d \<or> x \<in> dom (pd_writes d)))"
| "accesses_two_leaves (Parts as) = list_ex accesses_two_leaves as"
| "accesses_two_leaves (Many as) = False"

lemma two_leaves_refused:
  assumes "accesses_two_leaves a" and "state_wf enc (source_state a)"
  shows "touched (tree_of digest enc a) \<and>
    to_verifier_alloc dec (layout_of a) (Present (partial_tree (tree_of digest enc a))) \<noteq> Some (Okay v)"
  using assms
proof (induction a arbitrary: v)
  case (DynCells n d)
  then obtain x where "n = 2 * MERKLE_LEAF_SIZE" "length (pd_source d) = 2 * MERKLE_LEAF_SIZE" "x < 2 * MERKLE_LEAF_SIZE"
    "x \<in> pd_reads d \<union> dom (pd_writes d)" by auto
  with two_leaves_part [of d x digest enc n] show ?case by simp
next
  case (Parts as)
  then obtain i where i: "i < length as" "accesses_two_leaves (as ! i)" by (auto simp: list_ex_length)
  let ?ts = "map (tree_of digest enc) as" and ?p = "partial_tree (tree_of digest enc (Parts as))"
  have child: "touched (tree_of digest enc (as ! i))"
    "to_verifier_alloc dec (layout_of (as ! i)) (Present (partial_tree (tree_of digest enc (as ! i)))) \<noteq> Some (Okay v)" for v
    using Parts.IH [of "as ! i"] Parts.prems(2) i by (auto simp: list_all_length)
  then have t: "touched (tree_of digest enc (Parts as))"
    using i(1) by (auto simp: node_of_def list_ex_length)
  then have p: "?p = Node (map partial_tree ?ts)" by (simp add: node_of_def)
  have "to_verifier_alloc dec (layout_of (Parts as)) (Present ?p) \<noteq> Some (Okay v)"
  proof
    assume "to_verifier_alloc dec (layout_of (Parts as)) (Present ?p) = Some (Okay v)"
    from this [unfolded p] have "\<exists>v. to_verifier_alloc dec (layout_of (as ! i)) (Present (partial_tree (tree_of digest enc (as ! i)))) = Some (Okay v)"
      using i(1) by (auto simp: children_of_def to_verifier_alloc_eq list_all2_conv_all_nth simp del: to_verifier_alloc.simps)
    with child(2) show False by blast
  qed
  with t show ?case by blast
qed simp_all

text \<open>
  C37: A dynamic region of two leaves cannot be verified. When a step succeeds on the owned backend and accesses such
  a region, the whole state or a field of its structures, a proof is produced, but \<^verbatim>\<open>verify_proof\<close> does not accept it: it
  expects four branches where the tree has two. When the region is the whole state, the answer is
  \<^verbatim>\<open>UnexpectedProofShape\<close>.
\<close>

theorem two_page_region_rejected:
  assumes ok: "digest_ok digest" and wf: "state_wf enc s" "state_wf enc s'"
    and step: "run owned try_step s = Value (True, s')"
    and log: "run proof_gen try_step (start_proof s) = Value (True, a)" "accesses_two_leaves a"
  shows "\<exists>p. produce_proof digest enc try_step s = Some (Okay (Some p)) \<and>
    verify_proof digest enc dec (layout_of s) try_step p \<noteq> Some (Okay ()) \<and>
    (s = DynCells n bs \<longrightarrow> verify_proof digest enc dec (layout_of s) try_step p = Some (Failed UnexpectedProofShape))"
proof -
  from prover_run [OF wf(1) step] log(1) have a: "source_state a = s" "current_state a = s'" "layout_of a = layout_of s"
    by (metis access.inject prod.inject)+
  let ?p = "proof_new (partial_tree (tree_of digest enc a)) (hash_of digest enc s')"
  have produce: "produce_proof digest enc try_step s = Some (Okay (Some ?p))"
    using to_proof_eq [OF ok, of enc a] a wf log(1) by (simp add: produce_proof_def proof_of_result_def)
  have "to_verifier_alloc dec (layout_of s) (Present (proof_tree ?p)) \<noteq> Some (Okay v)" for v
    using two_leaves_refused [OF log(2), of enc digest dec v] a wf(1) by (simp add: proof_new_def)
  then have "verify_proof digest enc dec (layout_of s) try_step ?p \<noteq> Some (Okay ())"
    using verify_proof_Okay by blast
  moreover have "verify_proof digest enc dec (layout_of s) try_step ?p = Some (Failed UnexpectedProofShape)" if "s = DynCells n bs"
  proof -
    from that a(1) obtain d where d: "a = DynCells n d" "pd_source d = bs" by (cases a) auto
    with log(2) that wf(1) have "n = 2 * MERKLE_LEAF_SIZE"
      "parse_pages 0 n (Present (partial_tree (tree_of digest enc a))) = Some (Failed (BadNumberOfBranches 1 0))"
      using two_leaves_part(2) [of d _ digest enc n] by auto
    then show ?thesis by (simp add: verify_proof_def proof_new_def that)
  qed
  ultimately show ?thesis using produce by blast
qed

definition two_pages_step :: "(u8, bool) program" where
  "two_pages_step = ReadBytes [0] 5 1 (\<lambda>bs. Return True)"

definition two_pages_state :: "(unit, u8) owned_alloc" where
  "two_pages_state = Parts [DynCells (2 * MERKLE_LEAF_SIZE) (replicate (2 * MERKLE_LEAF_SIZE) 0)]"

theorem two_page_region_rejected_witness:
  "\<exists>p. produce_proof toy_hash toy_enc two_pages_step two_pages_state = Some (Okay (Some p)) \<and>
     verify_proof toy_hash toy_enc toy_dec (layout_of two_pages_state) two_pages_step p \<noteq> Some (Okay ())"
proof -
  let ?L = "2 * MERKLE_LEAF_SIZE"
  let ?a = "Parts [DynCells ?L \<lparr>pd_source = replicate ?L 0, pd_reads = {5..<6}, pd_writes = Map.empty\<rparr>] :: (unit, u8) proof_alloc"
  have wf: "state_wf toy_enc two_pages_state" using leaf_size_pos by (simp add: two_pages_state_def)
  moreover have "run owned two_pages_step two_pages_state = Value (True, two_pages_state)"
    by (simp add: two_pages_step_def two_pages_state_def dyn_cells_read_def owned_def owned_dyn_region_read_def MERKLE_LEAF_SIZE_def)
  moreover have "run proof_gen two_pages_step (start_proof two_pages_state) = Value (True, ?a)"
    by (simp add: two_pages_step_def two_pages_state_def dyn_cells_read_def proof_gen_def proof_dyn_region_read_def
        unrecorded_read_def owned_dyn_region_read_def proof_dyn_region_bind_def dyn_access_insert_def MERKLE_LEAF_SIZE_def)
  moreover have "accesses_two_leaves ?a" by (auto simp: MERKLE_LEAF_SIZE_def intro!: exI [of _ 5])
  ultimately show ?thesis using two_page_region_rejected [OF toy_hash_ok] by blast
qed


end
