(* ===== verification/Program_Segments.thy ===== *)
theory Program_Segments
  imports Page_Permissions Proof_Tree
begin

text \<open>
  Model of the segments of a program, \<^verbatim>\<open>program.rs\<close>: chunks of bytes by the address at which they start, to
  be written to the main memory. The \<^verbatim>\<open>BTreeMap\<close> is a list with increasing keys; \<open>None\<close> is a panic. The
  meaning of the segments is the partial function from addresses to bytes that they define.
\<close>

section \<open>Ordered maps\<close>

type_synonym segments = "(u64 \<times> u8 list) list"

fun bt_insert :: "'k::linorder \<Rightarrow> 'v \<Rightarrow> ('k \<times> 'v) list \<Rightarrow> ('k \<times> 'v) list" where
  "bt_insert k v [] = [(k, v)]"
| "bt_insert k v ((k', v') # m) =
     (if k < k' then (k, v) # (k', v') # m else if k = k' then (k, v) # m else (k', v') # bt_insert k v m)"

text \<open>\<^verbatim>\<open>range(..k).last()\<close>, the keys of \<^verbatim>\<open>range(lo..hi)\<close> in order, and \<^verbatim>\<open>append\<close>\<close>

definition bt_last_below :: "'k::linorder \<Rightarrow> ('k \<times> 'v) list \<Rightarrow> ('k \<times> 'v) option" where
  "bt_last_below k m = (let below = filter (\<lambda>(k', _). k' < k) m in if below = [] then None else Some (last below))"

definition bt_range_keys :: "'k::linorder \<Rightarrow> 'k \<Rightarrow> ('k \<times> 'v) list \<Rightarrow> 'k list" where
  "bt_range_keys lo hi m = filter (\<lambda>k. lo \<le> k \<and> k < hi) (map fst m)"

definition bt_append :: "('k::linorder \<times> 'v) list \<Rightarrow> ('k \<times> 'v) list \<Rightarrow> ('k \<times> 'v) list" where
  "bt_append m n = foldl (\<lambda>m (k, v). bt_insert k v m) m n"

definition vec_resize :: "nat \<Rightarrow> u8 list \<Rightarrow> u8 list" where
  "vec_resize n v = take n v @ replicate (n - length v) 0"

section \<open>Writing bytes\<close>

text \<open>The chunk before the address is cut at the address when it reaches beyond it.\<close>

definition shrink_previous :: "u64 \<Rightarrow> segments \<Rightarrow> segments" where
  "shrink_previous paddr segs =
     (case bt_last_below paddr segs of
        Some (prev_paddr, prev_bytes) \<Rightarrow>
          if paddr < prev_paddr + of_nat (length prev_bytes)
          then bt_insert prev_paddr (vec_resize (unat (paddr - prev_paddr)) prev_bytes) segs
          else segs
      | None \<Rightarrow> segs)"

text \<open>The loop over the chunks that start in the range; \<^verbatim>\<open>split_at\<close> panics beyond the end.\<close>

fun split_chunks :: "u64 \<Rightarrow> u8 list \<Rightarrow> u64 list \<Rightarrow> segments \<Rightarrow> (segments \<times> u64 \<times> u8 list) option" where
  "split_chunks paddr bs [] new_segments = Some (new_segments, paddr, bs)"
| "split_chunks paddr bs (next_paddr # rest) new_segments =
     (let nonoverlapping_len = unat (next_paddr - paddr)
      in if length bs < nonoverlapping_len then None
         else
           let nonoverlapping = take nonoverlapping_len bs;
               overlapping = drop nonoverlapping_len bs;
               new_segments = (if nonoverlapping \<noteq> [] then bt_insert paddr nonoverlapping new_segments else new_segments)
           in split_chunks next_paddr overlapping rest new_segments)"

definition program_write_bytes :: "u64 \<Rightarrow> u8 list \<Rightarrow> segments \<Rightarrow> segments option" where
  "program_write_bytes paddr bs segs =
     (if bs = [] then Some segs
      else
        let segs = shrink_previous paddr segs;
            paddr_after = paddr + of_nat (length bs)
        in if paddr_after < paddr then None
           else
             case split_chunks paddr bs (bt_range_keys paddr paddr_after segs) [] of
               None \<Rightarrow> None
             | Some (new_segments, paddr, bs) \<Rightarrow>
                 let segs = bt_append segs new_segments
                 in if bs = [] then Some segs
                    else
                      case map_of segs paddr of
                        Some chunk \<Rightarrow>
                          if length bs \<le> length chunk then Some (bt_insert paddr (bs @ drop (length bs) chunk) segs)
                          else Some (bt_insert paddr bs segs)
                      | None \<Rightarrow> Some (bt_insert paddr bs segs))"

section \<open>What the segments mean\<close>

text \<open>The byte at an address.\<close>

definition in_chunk :: "nat \<Rightarrow> u64 \<times> u8 list \<Rightarrow> bool" where
  "in_chunk a c \<longleftrightarrow> unat (fst c) \<le> a \<and> a < unat (fst c) + length (snd c)"

definition image_of :: "segments \<Rightarrow> nat \<Rightarrow> u8 option" where
  "image_of segs a = map_option (\<lambda>c. snd c ! (a - unat (fst c))) (find (in_chunk a) segs)"

text \<open>Chunks are in order, not empty, end within the address space and do not overlap.\<close>

fun segments_ok :: "segments \<Rightarrow> bool" where
  "segments_ok [] \<longleftrightarrow> True"
| "segments_ok ((k, v) # segs) \<longleftrightarrow>
     v \<noteq> [] \<and> unat k + length v < 2 ^ 64 \<and> (\<forall>c\<in>set segs. unat k + length v \<le> unat (fst c)) \<and> segments_ok segs"

section \<open>Ordered maps behave as maps\<close>

abbreviation ordered :: "('k::linorder \<times> 'v) list \<Rightarrow> bool" where
  "ordered m \<equiv> sorted_wrt (<) (map fst m)"

lemma keys_bt_insert [simp]: "fst ` set (bt_insert k v m) = insert k (fst ` set m)"
  by (induction k v m rule: bt_insert.induct) (simp_all add: insert_commute)

lemma ordered_bt_insert [simp]: "ordered m \<Longrightarrow> ordered (bt_insert k v m)"
proof (induction m)
  case (Cons x m)
  then show ?case using keys_bt_insert [of k v m] by (cases x) fastforce
qed simp

lemma map_of_bt_insert [simp]: "map_of (bt_insert k v m) = (map_of m)(k \<mapsto> v)"
  by (induction m) auto

lemma bt_append_simps: "bt_append m [] = m" "bt_append m ((k, v) # n) = bt_append (bt_insert k v m) n"
  by (simp_all add: bt_append_def)

lemma ordered_bt_append [simp]: "ordered m \<Longrightarrow> ordered (bt_append m n)"
  by (induction n arbitrary: m) (auto simp: bt_append_simps)

lemma map_of_bt_append: "ordered n \<Longrightarrow> map_of (bt_append m n) = map_of m ++ map_of n"
proof (induction n arbitrary: m)
  case (Cons x n)
  obtain k v where x: "x = (k, v)" by (cases x)
  have "map_of n k = None" using Cons.prems x by (auto simp: map_of_eq_None_iff)
  with Cons x show ?case by (auto simp: bt_append_simps map_add_def fun_eq_iff split: option.split)
qed (simp add: bt_append_simps)

lemma bt_insert_end: "\<forall>x\<in>fst ` set m. x < k \<Longrightarrow> bt_insert k v m = m @ [(k, v)]"
  by (induction m) auto

text \<open>What segments mean depends on the map alone.\<close>

definition chunks_ok :: "(u64 \<rightharpoonup> u8 list) \<Rightarrow> bool" where
  "chunks_ok f \<longleftrightarrow>
     (\<forall>k v. f k = Some v \<longrightarrow> v \<noteq> [] \<and> unat k + length v < 2 ^ 64) \<and>
     (\<forall>k v k' v'. f k = Some v \<longrightarrow> f k' = Some v' \<longrightarrow> k < k' \<longrightarrow> unat k + length v \<le> unat k')"

lemma segments_ok_ordered: "segments_ok segs \<Longrightarrow> ordered segs"
proof (induction segs rule: segments_ok.induct)
  case (2 k v segs)
  then have le: "unat k + length v \<le> unat (fst x)" "0 < length v" if "x \<in> set segs" for x using that by (cases x; auto)+
  have "unat k < unat (fst x)" if "x \<in> set segs" for x using le [OF that] by linarith
  with 2 show ?case by (auto simp: word_less_nat_alt)
qed simp

lemma chunks_ok_insert:
  assumes k: "f k = None" and gt: "\<And>k' v'. f k' = Some v' \<Longrightarrow> k < k'"
  shows "chunks_ok (f(k \<mapsto> v)) \<longleftrightarrow>
    v \<noteq> [] \<and> unat k + length v < 2 ^ 64 \<and> (\<forall>k' v'. f k' = Some v' \<longrightarrow> unat k + length v \<le> unat k') \<and> chunks_ok f"
proof
  assume l: "chunks_ok (f(k \<mapsto> v))"
  have "v \<noteq> [] \<and> unat k + length v < 2 ^ 64" using l unfolding chunks_ok_def by (metis fun_upd_same)
  moreover have "unat k + length v \<le> unat k'" if "f k' = Some v'" for k' v'
    using l gt [OF that] that unfolding chunks_ok_def by (metis fun_upd_apply less_irrefl)
  moreover have "chunks_ok f" using l k unfolding chunks_ok_def by (metis fun_upd_apply option.distinct(1))
  ultimately show "v \<noteq> [] \<and> unat k + length v < 2 ^ 64 \<and> (\<forall>k' v'. f k' = Some v' \<longrightarrow> unat k + length v \<le> unat k') \<and> chunks_ok f"
    by blast
next
  assume r: "v \<noteq> [] \<and> unat k + length v < 2 ^ 64 \<and> (\<forall>k' v'. f k' = Some v' \<longrightarrow> unat k + length v \<le> unat k') \<and> chunks_ok f"
  have "w \<noteq> [] \<and> unat j + length w < 2 ^ 64" if "(f(k \<mapsto> v)) j = Some w" for j w
  proof (cases "j = k")
    case False
    then have "f j = Some w" using that by simp
    then show ?thesis using r unfolding chunks_ok_def by blast
  qed (use that r in auto)
  moreover have "unat j + length w \<le> unat j'" if "(f(k \<mapsto> v)) j = Some w" "(f(k \<mapsto> v)) j' = Some w'" "j < j'" for j w j' w'
  proof (cases "j = k")
    case True
    then show ?thesis using that r by (auto split: if_splits)
  next
    case False
    then have "f j = Some w" using that(1) by simp
    moreover have "j' \<noteq> k" using gt [OF \<open>f j = Some w\<close>] that(3) by auto
    ultimately show ?thesis using that r unfolding chunks_ok_def by (metis fun_upd_other)
  qed
  ultimately show "chunks_ok (f(k \<mapsto> v))" unfolding chunks_ok_def by blast
qed

lemma segments_ok_iff: "ordered segs \<Longrightarrow> segments_ok segs \<longleftrightarrow> chunks_ok (map_of segs)"
proof (induction segs rule: segments_ok.induct)
  case (2 k v segs)
  then have ord: "ordered segs" and less: "\<And>x. x \<in> set segs \<Longrightarrow> k < fst x" and dist: "distinct (map fst segs)"
    by (auto simp: strict_sorted_iff)
  have k: "map_of segs k = None" using less by (fastforce simp: map_of_eq_None_iff)
  have mem: "(k', v') \<in> set segs \<longleftrightarrow> map_of segs k' = Some v'" for k' v' using dist by simp
  then have gt: "map_of segs k' = Some v' \<Longrightarrow> k < k'" for k' v' using less by fastforce
  have all: "(\<forall>c\<in>set segs. unat k + length v \<le> unat (fst c)) \<longleftrightarrow> (\<forall>k' v'. map_of segs k' = Some v' \<longrightarrow> unat k + length v \<le> unat k')"
    using mem by force
  have upd: "map_of ((k, v) # segs) = (map_of segs)(k \<mapsto> v)" by simp
  have ins: "chunks_ok ((map_of segs)(k \<mapsto> v)) \<longleftrightarrow>
      v \<noteq> [] \<and> unat k + length v < 2 ^ 64 \<and> (\<forall>k' v'. map_of segs k' = Some v' \<longrightarrow> unat k + length v \<le> unat k') \<and> chunks_ok (map_of segs)"
    by (rule chunks_ok_insert) (use k gt in blast)+
  show ?case unfolding segments_ok.simps all upd ins 2(1) [OF ord] ..
qed (simp add: chunks_ok_def)

lemma image_of_iff:
  assumes "segments_ok segs"
  shows "image_of segs a = Some b \<longleftrightarrow> (\<exists>k v. map_of segs k = Some v \<and> in_chunk a (k, v) \<and> v ! (a - unat k) = b)"
  using assms
proof (induction segs rule: segments_ok.induct)
  case (2 k v segs)
  have k: "map_of segs k = None"
    using 2(2) by (fastforce simp: map_of_eq_None_iff)
  have later: "\<not> in_chunk a (k', v')" if "in_chunk a (k, v)" "map_of segs k' = Some v'" for k' v'
    using that 2(2) map_of_SomeD [OF that(2)] by (fastforce simp: in_chunk_def)
  show ?case
  proof (cases "in_chunk a (k, v)")
    case True
    then show ?thesis using later by (auto simp: image_of_def split: if_splits)
  next
    case False
    then have "image_of ((k, v) # segs) a = image_of segs a" by (simp add: image_of_def)
    moreover have "map_of ((k, v) # segs) k' = Some v' \<and> in_chunk a (k', v') \<and> P \<longleftrightarrow> map_of segs k' = Some v' \<and> in_chunk a (k', v') \<and> P"
      for k' v' P using False k by auto
    ultimately show ?thesis using 2 by simp
  qed
qed (simp add: image_of_def)

lemma segments_eq_map:
  assumes "ordered segs" and "segments_ok segs'" and "map_of segs = map_of segs'"
  shows "segments_ok segs" and "image_of segs = image_of segs'"
proof -
  show ok: "segments_ok segs"
    using assms segments_ok_iff [OF assms(1)] segments_ok_iff [OF segments_ok_ordered [OF assms(2)]] by simp
  have "image_of segs a = Some b \<longleftrightarrow> image_of segs' a = Some b" for a b
    using image_of_iff [OF ok] image_of_iff [OF assms(2)] assms(3) by simp
  then show "image_of segs = image_of segs'" by (intro ext) (metis option.exhaust)
qed


section \<open>Lists of chunks\<close>

abbreviation chunk_end :: "u64 \<times> u8 list \<Rightarrow> nat" where
  "chunk_end c \<equiv> unat (fst c) + length (snd c)"

lemma segments_ok_append:
  "segments_ok (A @ B) \<longleftrightarrow>
     segments_ok A \<and> segments_ok B \<and> (\<forall>c\<in>set A. \<forall>c'\<in>set B. chunk_end c \<le> unat (fst c'))"
  by (induction A rule: segments_ok.induct) auto

lemma find_append: "find P (xs @ ys) = (case find P xs of None \<Rightarrow> find P ys | Some x \<Rightarrow> Some x)"
  by (induction xs) auto

lemma image_of_simps:
  "image_of [] a = None"
  "image_of ((k, v) # segs) a = (if unat k \<le> a \<and> a < unat k + length v then Some (v ! (a - unat k)) else image_of segs a)"
  "image_of (A @ B) a = (case image_of A a of None \<Rightarrow> image_of B a | Some b \<Rightarrow> Some b)"
  by (auto simp: image_of_def in_chunk_def find_append split: option.split)

lemma image_of_None: "image_of segs a = None \<longleftrightarrow> (\<forall>c\<in>set segs. \<not> in_chunk a c)"
  by (auto simp: image_of_def find_None_iff)

lemma ordered_split: "ordered m \<Longrightarrow> m = filter (\<lambda>x. fst x < k) m @ filter (\<lambda>x. \<not> fst x < k) m"
proof (induction m)
  case (Cons x m)
  then have "filter (\<lambda>x. fst x < k) m = []" if "\<not> fst x < k" using that by (fastforce simp: filter_empty_conv)
  with Cons show ?case by auto
qed simp

lemma bt_insert_replace: "ordered (A @ (k, w) # B) \<Longrightarrow> bt_insert k v (A @ (k, w) # B) = A @ (k, v) # B"
  by (induction A) auto

text \<open>The chunks below an address, cut at the address.\<close>

definition cut_at :: "u64 \<Rightarrow> segments \<Rightarrow> segments" where
  "cut_at p segs = map (\<lambda>(k, v). (k, take (unat p - unat k) v)) segs"

lemma cut_at_simps [simp]:
  "cut_at p [] = []" "cut_at p ((k, v) # segs) = (k, take (unat p - unat k) v) # cut_at p segs"
  "cut_at p (A @ B) = cut_at p A @ cut_at p B" "map fst (cut_at p segs) = map fst segs" "fst ` set (cut_at p segs) = fst ` set segs"
  by (auto simp: cut_at_def image_image case_prod_beta)

lemma cut_at_id: "\<forall>c\<in>set segs. chunk_end c \<le> unat p \<Longrightarrow> cut_at p segs = segs"
  by (induction segs) auto

lemma cut_at_ok:
  assumes "segments_ok segs" and "\<forall>x\<in>set segs. fst x < p"
  shows "segments_ok (cut_at p segs)" and "\<forall>c\<in>set (cut_at p segs). chunk_end c \<le> unat p"
    and "image_of (cut_at p segs) a = (if a < unat p then image_of segs a else None)"
  using assms
proof (induction segs rule: segments_ok.induct)
  case (2 k v segs)
  { case 1
    have "\<forall>c\<in>set (cut_at p segs). unat k + length (take (unat p - unat k) v) \<le> unat (fst c)"
      using 1(1) by (fastforce simp: cut_at_def)
    then show ?case using 2(1) 1 by (auto simp: word_less_nat_alt)
  next
    case 2
    then show ?case using \<open>segments_ok segs \<Longrightarrow> \<forall>x\<in>set segs. fst x < p \<Longrightarrow> \<forall>c\<in>set (cut_at p segs). chunk_end c \<le> unat p\<close>
      by (auto simp: word_less_nat_alt)
  next
    case 3
    then show ?case using \<open>segments_ok segs \<Longrightarrow> \<forall>x\<in>set segs. fst x < p \<Longrightarrow> image_of (cut_at p segs) a = (if a < unat p then image_of segs a else None)\<close>
      by (auto simp: image_of_simps)
  }
qed (auto simp: image_of_simps)


lemma shrink_previous_eq:
  assumes "segments_ok (A @ B)" and "\<forall>x\<in>set A. fst x < p" and "\<forall>x\<in>set B. \<not> fst x < p"
  shows "shrink_previous p (A @ B) = cut_at p A @ B"
proof (cases A rule: rev_cases)
  case Nil
  then show ?thesis using assms(3) by (simp add: shrink_previous_def bt_last_below_def filter_empty_conv case_prod_beta)
next
  case (snoc A0 c)
  obtain k v where c: "c = (k, v)" by (cases c)
  have below: "filter (\<lambda>(k', _). k' < p) (A @ B) = A"
    using assms(2,3) by (simp add: case_prod_beta filter_id_conv filter_empty_conv)
  have k: "k < p" "unat k + length v < 2 ^ 64" using assms(1,2) snoc c by (auto simp: segments_ok_append)
  then have finish: "unat (k + of_nat (length v) :: u64) = unat k + length v"
    by (simp add: unat_word_ariths unat_of_nat)
  have before: "cut_at p A0 = A0"
  proof (rule cut_at_id, rule ballI)
    fix c'
    assume "c' \<in> set A0"
    then have "chunk_end c' \<le> unat k" using assms(1) snoc c by (auto simp: segments_ok_append)
    then show "chunk_end c' \<le> unat p" using k(1) by (simp add: word_less_nat_alt)
  qed
  have sub: "unat (p - k) = unat p - unat k" using k(1) by (simp add: unat_sub less_imp_le)
  show ?thesis
  proof (cases "unat p < unat k + length v")
    case True
    then have "shrink_previous p (A @ B) = bt_insert k (take (unat p - unat k) v) (A0 @ (k, v) # B)"
      using snoc c below finish sub by (simp add: shrink_previous_def bt_last_below_def word_less_nat_alt vec_resize_def)
    also have "\<dots> = A0 @ (k, take (unat p - unat k) v) # B"
      by (rule bt_insert_replace) (use segments_ok_ordered [OF assms(1)] snoc c in simp)
    finally show ?thesis using snoc c before by simp
  next
    case False
    then show ?thesis
      using snoc c below finish before by (simp add: shrink_previous_def bt_last_below_def word_less_nat_alt)
  qed
qed

text \<open>The pieces into which the bytes are cut at the chunks that start in their range, but for the last.\<close>

fun pieces :: "u64 \<Rightarrow> u8 list \<Rightarrow> u64 list \<Rightarrow> segments" where
  "pieces p bs [] = []"
| "pieces p bs (n # ns) =
     (let l = unat n - unat p in (if l = 0 then [] else [(p, take l bs)]) @ pieces n (drop l bs) ns)"

definition starts_in :: "u64 \<Rightarrow> u8 list \<Rightarrow> u64 list \<Rightarrow> bool" where
  "starts_in p bs ns \<longleftrightarrow> sorted_wrt (<) ns \<and> (\<forall>n\<in>set ns. unat p \<le> unat n \<and> unat n < unat p + length bs)"

lemma starts_in_Cons:
  assumes "starts_in p bs (n # ns)"
  shows "starts_in n (drop (unat n - unat p) bs) ns" and "unat p \<le> unat n" and "unat n < unat p + length bs"
  using assms by (auto simp: starts_in_def word_less_nat_alt)

lemma split_chunks_eq:
  assumes "starts_in p bs ns" and "\<forall>x\<in>fst ` set acc. x < p"
  shows "split_chunks p bs ns acc =
    Some (acc @ pieces p bs ns, last (p # ns), drop (unat (last (p # ns)) - unat p) bs)"
  using assms
proof (induction p bs ns arbitrary: acc rule: pieces.induct)
  case (2 p bs n ns)
  note n = starts_in_Cons [OF 2(2)]
  let ?l = "unat n - unat p"
  have sub: "unat (n - p) = ?l" using n(2) by (simp add: unat_sub word_le_nat_alt)
  define acc' where "acc' = (if ?l = 0 then acc else acc @ [(p, take ?l bs)])"
  have "take ?l bs = [] \<longleftrightarrow> ?l = 0" using n(3) by auto
  then have acc': "(if take ?l bs \<noteq> [] then bt_insert p (take ?l bs) acc else acc) = acc'"
    using 2(3) by (simp add: acc'_def bt_insert_end)
  have le: "p \<le> n" "?l \<noteq> 0 \<Longrightarrow> p < n" using n(2) by (simp_all add: word_le_nat_alt word_less_nat_alt)
  have "\<forall>x\<in>fst ` set acc'. x < n"
  proof
    fix x
    assume "x \<in> fst ` set acc'"
    then have "x \<in> fst ` set acc \<or> ?l \<noteq> 0 \<and> x = p" by (auto simp: acc'_def split: if_splits)
    then show "x < n" using 2(3) le by (auto intro: less_le_trans)
  qed
  from 2(1) [OF refl n(1) this] have
    "split_chunks n (drop ?l bs) ns acc' =
       Some (acc' @ pieces n (drop ?l bs) ns, last (n # ns), drop (unat (last (n # ns)) - unat n) (drop ?l bs))" .
  moreover have "unat n \<le> unat (last (n # ns))"
    using 2(2) by (cases "ns = []") (auto simp: starts_in_def word_less_nat_alt intro: less_imp_le)
  ultimately show ?case
    using n(2,3) sub acc' by (auto simp: Let_def acc'_def)
qed simp


lemma last_start:
  assumes "starts_in p bs ns" and "bs \<noteq> []"
  shows "unat p \<le> unat (last (p # ns))" and "unat (last (p # ns)) < unat p + length bs"
  using assms by (cases "ns = []"; auto simp: starts_in_def)+

text \<open>The pieces and the last of them mean the same as one chunk.\<close>

definition all_pieces :: "u64 \<Rightarrow> u8 list \<Rightarrow> u64 list \<Rightarrow> u8 list \<Rightarrow> segments" where
  "all_pieces p bs ns t = pieces p bs ns @ [(last (p # ns), drop (unat (last (p # ns)) - unat p) bs @ t)]"

lemma all_pieces_Cons:
  assumes "starts_in p bs (n # ns)"
  defines "l \<equiv> unat n - unat p"
  shows "all_pieces p bs (n # ns) t = (if l = 0 then [] else [(p, take l bs)]) @ all_pieces n (drop l bs) ns t"
proof -
  note n = starts_in_Cons [OF assms(1)]
  have "drop l bs \<noteq> []" using n(2,3) by (auto simp: l_def)
  from last_start(1) [OF n(1) [folded l_def] this] n(2)
  have "unat (last (n # ns)) - unat p = unat (last (n # ns)) - unat n + l" by (simp add: l_def)
  then show ?thesis by (simp add: all_pieces_def Let_def l_def drop_drop)
qed

lemma pieces_one_chunk:
  assumes "starts_in p bs ns" and "bs \<noteq> []" and "unat p + length bs + length t < 2 ^ 64"
  shows "segments_ok (all_pieces p bs ns t) \<and> image_of (all_pieces p bs ns t) = image_of [(p, bs @ t)] \<and>
    fst ` set (all_pieces p bs ns t) = insert p (set ns) \<and> (\<forall>x\<in>fst ` set (pieces p bs ns). x < last (p # ns))"
  using assms
proof (induction p bs ns rule: pieces.induct)
  case (2 p bs n ns)
  note n = starts_in_Cons [OF 2(2)]
  let ?l = "unat n - unat p"
  let ?bs = "drop ?l bs"
  let ?P = "all_pieces n ?bs ns t"
  have bs: "?bs \<noteq> []" "unat n + length ?bs + length t < 2 ^ 64" using n(2,3) 2(4) by auto
  note IH = 2(1) [OF refl n(1) bs]
  have q: "unat n \<le> unat (last (n # ns))" using last_start(1) [OF n(1) bs(1)] .
  have keys: "unat n \<le> unat k" if "(k, v) \<in> set ?P" for k v
  proof -
    have "k \<in> insert n (set ns)" using IH that by (metis fst_conv image_eqI)
    then show ?thesis using n(1) by (auto simp: starts_in_def)
  qed
  note eq = all_pieces_Cons [OF 2(2), of t]
  have ok: "segments_ok ?P" using IH by simp
  have "segments_ok (all_pieces p bs (n # ns) t)"
  proof (cases "?l = 0")
    case False
    have first: "length (take ?l bs) = ?l" "unat p + ?l = unat n" using n(2,3) by auto
    have "\<forall>c\<in>set ?P. unat p + length (take ?l bs) \<le> unat (fst c)"
      unfolding first using keys by (metis prod.collapse)
    moreover have "take ?l bs \<noteq> []" using False first(1) by (metis list.size(3))
    moreover have "unat p + length (take ?l bs) < 2 ^ 64" using first 2(4) n(3) by simp
    ultimately show ?thesis unfolding eq using False ok by simp
  qed (use ok in \<open>simp add: eq\<close>)
  moreover have "image_of (all_pieces p bs (n # ns) t) = image_of [(p, bs @ t)]"
  proof
    fix a
    have "image_of ?P a = image_of [(n, ?bs @ t)] a" using IH by simp
    then show "image_of (all_pieces p bs (n # ns) t) a = image_of [(p, bs @ t)] a"
      unfolding eq using n(2,3) by (auto simp: image_of_simps nth_append split: if_splits) (simp_all add: add.commute)
  qed
  moreover have "fst ` set (all_pieces p bs (n # ns) t) = insert p (set (n # ns))"
  proof (cases "?l = 0")
    case True
    then have "n = p" using n(2) by (simp add: unsigned_word_eqI)
    with IH True show ?thesis unfolding eq by auto
  qed (use IH in \<open>auto simp: eq\<close>)
  moreover have "\<forall>x\<in>fst ` set (pieces p bs (n # ns)). x < last (p # n # ns)"
    using IH n(2) q by (auto simp: Let_def word_less_nat_alt)
  ultimately show ?case by blast
qed (auto simp: image_of_simps all_pieces_def)


section \<open>Writing\<close>

text \<open>The segments split at the first and behind the last address that is written.\<close>

lemma pieces_end:
  assumes "starts_in p bs ns" and "bs \<noteq> []" and "unat p + length bs + length t < 2 ^ 64" and "c \<in> set (all_pieces p bs ns t)"
  shows "unat p \<le> unat (fst c)" and "chunk_end c \<le> unat p + length bs + length t"
proof -
  note ps = pieces_one_chunk [OF assms(1-3)]
  have "snd c \<noteq> []" using ps assms(4) by (metis prod.collapse in_set_conv_decomp segments_ok.simps(2) segments_ok_append)
  then have "0 < length (snd c)" by simp
  moreover from this have "in_chunk (chunk_end c - 1) c" unfolding in_chunk_def by linarith
  ultimately have "image_of (all_pieces p bs ns t) (chunk_end c - 1) \<noteq> None" using assms(4) by (auto simp: image_of_None)
  then have "image_of [(p, bs @ t)] (chunk_end c - 1) \<noteq> None" using ps by simp
  then show "chunk_end c \<le> unat p + length bs + length t"
    using \<open>0 < length (snd c)\<close> by (simp add: image_of_simps split: if_splits)
  have "fst c \<in> insert p (set ns)" using ps assms(4) by blast
  then show "unat p \<le> unat (fst c)" using assms(1) by (auto simp: starts_in_def)
qed

lemma three_parts:
  assumes "segments_ok segs" and "unat p + n < 2 ^ 64"
  obtains L M H where "segs = L @ M @ H" and "\<forall>x\<in>set L. fst x < p"
    and "\<forall>x\<in>set M. unat p \<le> unat (fst x) \<and> unat (fst x) < unat p + n" and "\<forall>x\<in>set H. unat p + n \<le> unat (fst x)"
proof
  let ?e = "p + of_nat n"
  have e: "unat ?e = unat p + n" using assms(2) by (simp add: unat_word_ariths unat_of_nat)
  let ?R = "filter (\<lambda>x. \<not> fst x < p) segs"
  note ord = segments_ok_ordered [OF assms(1)]
  then have "ordered ?R" by (simp add: sorted_wrt_filter flip: filter_map [of "\<lambda>k. \<not> k < p" fst, unfolded comp_def])
  from ordered_split [OF this, of ?e] ordered_split [OF ord, of p]
  show "segs = filter (\<lambda>x. fst x < p) segs @ filter (\<lambda>x. fst x < ?e) ?R @ filter (\<lambda>x. \<not> fst x < ?e) ?R" by simp
  show "\<forall>x\<in>set (filter (\<lambda>x. fst x < ?e) ?R). unat p \<le> unat (fst x) \<and> unat (fst x) < unat p + n"
    using e by (auto simp: word_less_nat_alt)
  show "\<forall>x\<in>set (filter (\<lambda>x. \<not> fst x < ?e) ?R). unat p + n \<le> unat (fst x)"
    using e by (auto simp: word_less_nat_alt)
qed simp

lemma map_of_all_pieces:
  assumes "starts_in p bs ns" and "bs \<noteq> []" and "unat p + length bs + length t < 2 ^ 64"
  shows "map_of (all_pieces p bs ns t) = (map_of (pieces p bs ns))(last (p # ns) \<mapsto> drop (unat (last (p # ns)) - unat p) bs @ t)"
    and "ordered (pieces p bs ns)"
proof -
  let ?q = "last (p # ns)"
  have "\<forall>x\<in>fst ` set (pieces p bs ns). x < ?q" "segments_ok (all_pieces p bs ns t)" using pieces_one_chunk [OF assms] by blast+
  then have "map_of (pieces p bs ns) ?q = None" and "ordered (all_pieces p bs ns t)"
    using segments_ok_ordered by (auto simp: map_of_eq_None_iff simp del: last.simps)
  then show "map_of (all_pieces p bs ns t) = (map_of (pieces p bs ns))(?q \<mapsto> drop (unat ?q - unat p) bs @ t)"
    and "ordered (pieces p bs ns)"
    by (auto simp: all_pieces_def map_add_def fun_eq_iff sorted_wrt_append split: option.split)
qed


lemma write_bytes_parts:
  assumes ok: "segments_ok (L @ M @ H)" and bs: "bs \<noteq> []" and len: "unat p + length bs < 2 ^ 64"
    and L: "\<forall>x\<in>set L. fst x < p"
    and M: "\<forall>x\<in>set M. unat p \<le> unat (fst x) \<and> unat (fst x) < unat p + length bs"
    and H: "\<forall>x\<in>set H. unat p + length bs \<le> unat (fst x)"
  defines "ns \<equiv> map fst M"
  defines "q \<equiv> last (p # ns)"
  defines "r \<equiv> drop (unat q - unat p) bs"
  defines "t \<equiv> (case map_of M q of Some v \<Rightarrow> drop (length r) v | None \<Rightarrow> [])"
  assumes tail: "unat p + length bs + length t < 2 ^ 64"
  shows "\<exists>segs. program_write_bytes p bs (L @ M @ H) = Some segs \<and> ordered segs \<and>
    map_of segs = map_of (cut_at p L @ all_pieces p bs ns t @ H)"
proof -
  let ?C = "cut_at p L" and ?e = "p + of_nat (length bs)"
  have e: "unat ?e = unat p + length bs" using len by (simp add: unat_word_ariths unat_of_nat)
  have ord: "ordered (L @ M @ H)" by (rule segments_ok_ordered [OF ok])
  have starts: "starts_in p bs ns" using ord M by (auto simp: starts_in_def ns_def sorted_wrt_append)
  note ps = pieces_one_chunk [OF starts bs tail] map_of_all_pieces [OF starts bs tail]
  have shrink: "shrink_previous p (L @ M @ H) = ?C @ M @ H"
    using shrink_previous_eq [of L "M @ H" p] ok L M H by (fastforce simp: word_less_nat_alt)
  have ordC: "ordered (?C @ M @ H)" using ord by simp
  have keys: "bt_range_keys p ?e (?C @ M @ H) = ns"
  proof -
    have "filter (\<lambda>k. p \<le> k \<and> k < ?e) (map fst L) = []" using L by (auto simp: filter_empty_conv)
    moreover have "filter (\<lambda>k. p \<le> k \<and> k < ?e) (map fst M) = map fst M" using M e by (auto simp: filter_id_conv word_le_nat_alt word_less_nat_alt)
    moreover have "filter (\<lambda>k. p \<le> k \<and> k < ?e) (map fst H) = []" using H e by (force simp: filter_empty_conv word_less_nat_alt)
    ultimately show ?thesis by (simp add: bt_range_keys_def ns_def)
  qed
  let ?S = "bt_append (?C @ M @ H) (pieces p bs ns)"
  have rne: "r \<noteq> []" using last_start [OF starts bs] by (auto simp: r_def q_def)
  have S: "map_of ?S = map_of (?C @ M @ H) ++ map_of (pieces p bs ns)" "ordered ?S" using map_of_bt_append [OF ps(3)] ordC by auto
  have nq: "map_of (pieces p bs ns) q = None" using ps(1) by (auto simp: map_of_eq_None_iff q_def simp del: last.simps)
  have Cq: "map_of ?C k = None" if "unat p \<le> unat k" for k
    using L that by (force simp: map_of_eq_None_iff word_less_nat_alt cut_at_def)
  have qp: "unat p \<le> unat q" "unat q < unat p + length bs" using last_start [OF starts bs] by (simp_all add: q_def)
  have Hq: "map_of H q = None" using H qp by (fastforce simp: map_of_eq_None_iff)
  have Sq: "map_of ?S q = map_of M q" using S nq Cq [OF qp(1)] Hq by (simp add: map_add_def split: option.split)
  let ?segs = "bt_insert q (r @ t) ?S"
  have "program_write_bytes p bs (L @ M @ H) = Some ?segs"
  proof -
    have "\<not> ?e < p" using e by (simp add: word_less_nat_alt)
    then show ?thesis
      using bs shrink keys split_chunks_eq [OF starts, of "[]"] rne Sq
      by (auto simp: program_write_bytes_def Let_def q_def [symmetric] r_def [symmetric] t_def split: option.split simp del: last.simps)
  qed
  moreover have "map_of ?segs = map_of (?C @ all_pieces p bs ns t @ H)"
  proof
    fix k
    show "map_of ?segs k = map_of (?C @ all_pieces p bs ns t @ H) k"
    proof (cases "k = q")
      case True
      then show ?thesis using ps(2) Cq [OF qp(1)] by (simp add: map_add_def q_def r_def del: last.simps)
    next
      case False
      have pieces_k: "map_of (all_pieces p bs ns t) k = map_of (pieces p bs ns) k" using ps(2) False by (simp add: q_def del: last.simps)
      have inside: "unat p \<le> unat k" if "map_of (all_pieces p bs ns t) k \<noteq> None"
      proof -
        have "k \<in> insert p (set ns)" using that ps(1) by (metis map_of_eq_None_iff)
        then show ?thesis using starts by (auto simp: starts_in_def)
      qed
      have M_k: "map_of M k = None" if "map_of (all_pieces p bs ns t) k = None"
        using that ps(1) by (force simp: map_of_eq_None_iff ns_def)
      show ?thesis
        using False S(1) pieces_k inside M_k Cq [of k]
        by (cases "map_of (all_pieces p bs ns t) k") (auto simp: map_add_def split: option.split)
    qed
  qed
  ultimately show ?thesis using S(2) by auto
qed


text \<open>The chunks that start in the range: only the last of them reaches beyond it.\<close>

lemma image_of_last:
  assumes "segments_ok M" and "\<forall>x\<in>set M. unat p \<le> unat (fst x) \<and> unat (fst x) < e" and "e \<le> a"
  shows "image_of M a = (case M of [] \<Rightarrow> None | _ \<Rightarrow> image_of [last M] a)"
  using assms
proof (induction M rule: segments_ok.induct)
  case (2 k v M)
  show ?case
  proof (cases M)
    case (Cons c M')
    then have "unat k + length v \<le> unat (fst c)" "unat (fst c) < e" using 2(2,3) by (cases c; simp)+
    then have "\<not> in_chunk a (k, v)" using 2(4) by (simp add: in_chunk_def)
    then show ?thesis using 2 Cons by (simp add: image_of_def)
  qed simp
qed (simp add: image_of_simps)

definition lost :: "u64 \<Rightarrow> segments \<Rightarrow> nat \<Rightarrow> bool" where
  "lost p segs a \<longleftrightarrow> unat p \<le> a \<and> (\<exists>c\<in>set segs. fst c < p \<and> in_chunk a c)"

lemma write_bytes_image:
  assumes ok: "segments_ok segs" and bs: "bs \<noteq> []" and len: "unat p + length bs < 2 ^ 64"
  shows "\<exists>segs'. program_write_bytes p bs segs = Some segs' \<and> segments_ok segs' \<and>
    (\<forall>a. image_of segs' a =
       (if unat p \<le> a \<and> a < unat p + length bs then Some (bs ! (a - unat p))
        else if lost p segs a then None else image_of segs a))"
proof -
  from three_parts [OF ok len] obtain L M H where segs: "segs = L @ M @ H" and L: "\<forall>x\<in>set L. fst x < p"
    and M: "\<forall>x\<in>set M. unat p \<le> unat (fst x) \<and> unat (fst x) < unat p + length bs"
    and H: "\<forall>x\<in>set H. unat p + length bs \<le> unat (fst x)" by blast
  define ns where "ns = map fst M"
  define q where "q = last (p # ns)"
  define r where "r = drop (unat q - unat p) bs"
  define t where "t = (case map_of M q of Some v \<Rightarrow> drop (length r) v | None \<Rightarrow> [])"
  have okL: "segments_ok L" and okM: "segments_ok M" and okH: "segments_ok H"
    and LM: "\<forall>c\<in>set L. \<forall>c'\<in>set M \<union> set H. chunk_end c \<le> unat (fst c')"
    and MH: "\<forall>c\<in>set M. \<forall>c'\<in>set H. chunk_end c \<le> unat (fst c')"
    using ok segs by (auto simp: segments_ok_append)
  have starts: "starts_in p bs ns" using segments_ok_ordered [OF okM] M by (auto simp: starts_in_def ns_def)
  note q = last_start [OF starts bs, folded q_def]
  then have r: "unat q + length r = unat p + length bs" by (simp add: r_def)
  have tM: "t = [] \<and> M = [] \<or> (\<exists>v. last M = (q, v) \<and> (q, v) \<in> set M \<and> t = drop (length r) v)"
  proof (cases "M = []")
    case False
    then have "last M \<in> set M" "q = fst (last M)" by (simp_all add: q_def ns_def last_map)
    then obtain v where "last M = (q, v)" "(q, v) \<in> set M" by (metis prod.collapse)
    moreover from this have "map_of M q = Some v"
      using segments_ok_ordered [OF okM] by (simp add: strict_sorted_iff)
    ultimately show ?thesis by (simp add: t_def)
  qed (simp add: t_def)
  have t_end: "unat p + length bs + length t < 2 ^ 64" "\<forall>c\<in>set H. unat p + length bs + length t \<le> unat (fst c)"
  proof -
    have "t = [] \<or> (\<exists>v. (q, v) \<in> set M \<and> unat p + length bs + length t = unat q + length v)"
      using tM r by auto
    moreover have "unat q + length v < 2 ^ 64" if "(q, v) \<in> set M" for v
      using okM that by (induction M rule: segments_ok.induct) auto
    ultimately show "unat p + length bs + length t < 2 ^ 64" "\<forall>c\<in>set H. unat p + length bs + length t \<le> unat (fst c)"
      using len H MH by (auto simp del: last.simps) (metis fst_conv snd_conv)
  qed
  from write_bytes_parts [OF ok [unfolded segs] bs len L M H] t_end(1)
  obtain segs' where segs': "program_write_bytes p bs segs = Some segs'" "ordered segs'"
    "map_of segs' = map_of (cut_at p L @ all_pieces p bs ns t @ H)"
    unfolding segs t_def r_def q_def ns_def by blast
  note ps = pieces_one_chunk [OF starts bs t_end(1)]
  note cut = cut_at_ok [OF okL L]
  let ?P = "all_pieces p bs ns t"
  have "segments_ok (cut_at p L @ ?P @ H)"
    unfolding segments_ok_append
    using cut(1,2) ps okH H t_end(2) pieces_end [OF starts bs t_end(1)] by (fastforce intro: order_trans)
  note res = segments_eq_map [OF segs'(2) this segs'(3)]
  have "image_of segs' a =
       (if unat p \<le> a \<and> a < unat p + length bs then Some (bs ! (a - unat p))
        else if lost p segs a then None else image_of segs a)" for a
  proof -
    have img: "image_of segs' a = (case (if a < unat p then image_of L a else None) of
        Some b \<Rightarrow> Some b | None \<Rightarrow> (case image_of [(p, bs @ t)] a of Some b \<Rightarrow> Some b | None \<Rightarrow> image_of H a))"
      using res(2) ps cut(3) by (simp add: image_of_simps split: option.split)
    have above: "image_of X a = None" if "\<forall>c\<in>set X. a < unat (fst c)" for X
      using that by (fastforce simp: image_of_None in_chunk_def)
    have LM_none: "image_of X a = None" if "c \<in> set L" "in_chunk a c" "X \<in> {M, H}" for c X
    proof (rule above)
      have a: "a < chunk_end c" using that(2) by (simp add: in_chunk_def)
      have "\<forall>c'\<in>set X. chunk_end c \<le> unat (fst c')" using LM that(1,3) by blast
      with a show "\<forall>c\<in>set X. a < unat (fst c)" by (meson order.strict_trans2)
    qed
    have "\<forall>c\<in>set M \<union> set H. \<not> fst c < p" using M H by (auto simp: word_less_nat_alt)
    then have "(\<exists>c\<in>set segs. fst c < p \<and> in_chunk a c) \<longleftrightarrow> (\<exists>c\<in>set L. in_chunk a c)"
      using L unfolding segs set_append by blast
    then have lost: "lost p segs a \<longleftrightarrow> unat p \<le> a \<and> image_of L a \<noteq> None"
      unfolding lost_def image_of_None by blast
    consider "a < unat p" | "unat p \<le> a" "a < unat p + length bs" | "unat p + length bs \<le> a" by linarith
    then show ?thesis
    proof cases
      case 1
      have "\<forall>c\<in>set M. a < unat (fst c)" "\<forall>c\<in>set H. a < unat (fst c)" using M H 1 by auto
      note above [OF this(1)] above [OF this(2)]
      then show ?thesis using 1 img segs by (simp add: lost_def image_of_simps split: option.split)
    next
      case 2
      then have "a - unat p < length bs" by linarith
      with 2 show ?thesis using img by (simp add: image_of_simps nth_append)
    next
      case 3
      have M_a: "image_of M a = (if a < unat p + length bs + length t then Some (t ! (a - (unat p + length bs))) else None)"
        using image_of_last [OF okM M 3] tM
      proof (elim disjE exE conjE)
        fix v
        assume v: "last M = (q, v)" "(q, v) \<in> set M" "t = drop (length r) v"
          and last: "image_of M a = (case M of [] \<Rightarrow> None | _ \<Rightarrow> image_of [last M] a)"
        then have "image_of M a = image_of [(q, v)] a" by (cases M) auto
        moreover have "length r + a - (unat p + length bs) = a - unat q" using r 3 by linarith
        ultimately show ?thesis using v(3) r 3 q(1) by (auto simp: image_of_simps)
      qed (use 3 in \<open>simp add: image_of_simps\<close>)
      have new: "image_of segs' a = (case image_of M a of Some b \<Rightarrow> Some b | None \<Rightarrow> image_of H a)"
        using img 3 M_a by (auto simp: image_of_simps nth_append)
      show ?thesis
      proof (cases "lost p segs a")
        case True
        then obtain c where "c \<in> set L" "in_chunk a c" using lost by (auto simp: image_of_None)
        from LM_none [OF this, of M] LM_none [OF this, of H] True new 3 show ?thesis by simp
      next
        case False
        with lost 3 have "image_of L a = None" by auto
        with False new 3 segs show ?thesis by (simp add: image_of_simps)
      qed
    qed
  qed
  with segs'(1) res(1) show ?thesis by blast
qed

end
