(* ===== verification/Kernel_Loader.thy ===== *)
theory Kernel_Loader
  imports Program_Segments Memory_Correct
begin

unbundle bit_operations_syntax

text \<open>
  Model of \<^verbatim>\<open>kernel_loader.rs\<close> and of \<^verbatim>\<open>Program::from_elf\<close>: the loadable segments and the relocations of an
  ELF file are written to a memory. Parsing is done by the crate \<^verbatim>\<open>elf\<close>; the record \<open>elf_env\<close> stands for what it
  returns. The memory that the loader writes is the trait \<^verbatim>\<open>Memory\<close>: the function \<open>wb\<close> for \<^verbatim>\<open>write_bytes\<close>. A
  slice out of range, \<^verbatim>\<open>todo!\<close> and \<^verbatim>\<open>unimplemented!\<close> are panics.
\<close>

section \<open>Parsed files\<close>

text \<open>The constants of the ELF binary interface.\<close>

definition PT_LOAD :: u32 where "PT_LOAD = 1"
definition PF_X :: u32 where "PF_X = 1"
definition PF_W :: u32 where "PF_W = 2"
definition PF_R :: u32 where "PF_R = 4"
definition ET_EXEC :: u16 where "ET_EXEC = 2"
definition ET_DYN :: u16 where "ET_DYN = 3"
definition DT_RELA :: u64 where "DT_RELA = 7"
definition DT_RELASZ :: u64 where "DT_RELASZ = 8"
definition R_RISCV_RELATIVE :: u32 where "R_RISCV_RELATIVE = 3"

record program_header =
  p_type :: u32
  p_offset :: u64
  p_vaddr :: u64
  p_paddr :: u64
  p_filesz :: u64
  p_memsz :: u64
  p_flags :: u32

record file_header =
  e_type :: u16
  e_entry :: u64
  e_phoff :: u64
  e_phentsize :: u16
  e_phnum :: u16

record rela =
  r_offset :: u64
  r_type :: u32
  r_addend :: u64

text \<open>\<^verbatim>\<open>segments()\<close> is an option, \<^verbatim>\<open>find_common_data()\<close> a result with an optional dynamic table.\<close>

record elf_bytes =
  ehdr :: file_header
  elf_segments :: "program_header list option"
  elf_dynamic :: "(u64 \<times> u64) list option option"

record elf_env =
  minimal_parse :: "u8 list \<Rightarrow> elf_bytes option"
  rela_iterator :: "u8 list \<Rightarrow> rela list"

datatype loader_error = Write | Elf

section \<open>Permissions and headers\<close>

record memory_permissions =
  start_address :: u64
  mp_length :: u64
  mp_permissions :: permissions

definition from_load_segment :: "u64 option \<Rightarrow> program_header \<Rightarrow> memory_permissions" where
  "from_load_segment reloc segment =
     \<lparr>start_address = (case reloc of Some offset \<Rightarrow> offset + p_vaddr segment | None \<Rightarrow> p_paddr segment),
      mp_length = p_memsz segment,
      mp_permissions =
        \<lparr>perm_read = p_flags segment AND PF_R \<noteq> 0, perm_write = p_flags segment AND PF_W \<noteq> 0,
         perm_exec = p_flags segment AND PF_X \<noteq> 0\<rparr>\<rparr>"

record program_headers =
  entry_size :: u64
  num_entries :: u64
  ph_contents :: "u8 list"
  ph_permissions :: "memory_permissions list"

record load_result =
  entry :: u64
  lr_program_headers :: program_headers

text \<open>\<^verbatim>\<open>&contents[start..][..len]\<close>\<close>

definition slice_of :: "u8 list \<Rightarrow> nat \<Rightarrow> nat \<Rightarrow> u8 list option" where
  "slice_of contents start len =
     (if start \<le> length contents \<and> len \<le> length contents - start then Some (take len (drop start contents)) else None)"

definition extract_program_headers :: "file_header \<Rightarrow> u8 list \<Rightarrow> memory_permissions list \<Rightarrow> program_headers option" where
  "extract_program_headers header contents permissions =
     (let start = unat (e_phoff header); len = unat (e_phentsize header) * unat (e_phnum header)
      in map_option (\<lambda>c. \<lparr>entry_size = ucast (e_phentsize header), num_entries = ucast (e_phnum header),
                          ph_contents = c, ph_permissions = permissions\<rparr>)
           (slice_of contents start len))"

section \<open>Loading\<close>

type_synonym 'm loader_write = "u64 \<Rightarrow> u8 list \<Rightarrow> 'm \<Rightarrow> (loader_error, 'm) fallible"

definition fallible_then :: "('e, 'a) fallible \<Rightarrow> ('a \<Rightarrow> ('e, 'b) fallible) \<Rightarrow> ('e, 'b) fallible" where
  "fallible_then r k = (case r of Okay x \<Rightarrow> k x | Failed e \<Rightarrow> Failed e | Panicked \<Rightarrow> Panicked)"

definition or_panic :: "'a option \<Rightarrow> ('e, 'a) fallible" where
  "or_panic r = (case r of Some x \<Rightarrow> Okay x | None \<Rightarrow> Panicked)"

text \<open>
  \<^verbatim>\<open>set_zero\<close>: the vector of zeroes is allocated first. That an allocation of more than \<^verbatim>\<open>isize::MAX\<close> bytes panics is not
  modelled; a segment with so many zeroes fits into no memory the machine can have.
\<close>

definition set_zero :: "'m loader_write \<Rightarrow> u64 \<Rightarrow> u64 \<Rightarrow> 'm \<Rightarrow> (loader_error, 'm) fallible" where
  "set_zero wb paddr len mem = wb paddr (replicate (unat len) 0) mem"

definition loadable_segments :: "elf_bytes \<Rightarrow> program_header list" where
  "loadable_segments elf =
     filter (\<lambda>header. p_type header = PT_LOAD) (case elf_segments elf of Some headers \<Rightarrow> headers | None \<Rightarrow> [])"

text \<open>The body of the loop over the segments, which the two loaders share but for the address.\<close>

definition load_segment :: "'m loader_write \<Rightarrow> u8 list \<Rightarrow> u64 \<Rightarrow> program_header \<Rightarrow> 'm \<Rightarrow> (loader_error, 'm) fallible" where
  "load_segment wb contents addr segment mem =
     fallible_then (or_panic (slice_of contents (unat (p_offset segment)) (unat (p_filesz segment)))) (\<lambda>segment_contents.
     fallible_then (wb addr segment_contents mem) (\<lambda>mem.
       if p_memsz segment > p_filesz segment then
         let first_zero = addr + p_filesz segment;
             num_zeroes = (if p_memsz segment < p_filesz segment then 0 else p_memsz segment - p_filesz segment)
         in set_zero wb first_zero num_zeroes mem
       else Okay mem))"

fun load_segments ::
    "'m loader_write \<Rightarrow> u64 option \<Rightarrow> u8 list \<Rightarrow> program_header list \<Rightarrow> memory_permissions list \<Rightarrow> 'm \<Rightarrow>
     (loader_error, memory_permissions list \<times> 'm) fallible" where
  "load_segments wb reloc contents [] permissions mem = Okay (permissions, mem)"
| "load_segments wb reloc contents (segment # rest) permissions mem =
     (let permissions = permissions @ [from_load_segment reloc segment];
          addr = (case reloc of Some start \<Rightarrow> start + p_vaddr segment | None \<Rightarrow> p_paddr segment)
      in fallible_then (load_segment wb contents addr segment mem)
           (\<lambda>mem. load_segments wb reloc contents rest permissions mem))"

definition load_elf_nonreloc ::
    "'m loader_write \<Rightarrow> elf_bytes \<Rightarrow> u8 list \<Rightarrow> 'm \<Rightarrow> (loader_error, load_result \<times> 'm) fallible" where
  "load_elf_nonreloc wb elf contents mem =
     fallible_then (load_segments wb None contents (loadable_segments elf) [] mem) (\<lambda>(permissions, mem).
     fallible_then (or_panic (extract_program_headers (ehdr elf) contents permissions)) (\<lambda>program_headers.
       Okay (\<lparr>entry = e_entry (ehdr elf), lr_program_headers = program_headers\<rparr>, mem)))"

definition dynamic_infos :: "elf_bytes \<Rightarrow> (u64 \<times> u64) list" where
  "dynamic_infos elf =
     (case elf_dynamic elf of Some common \<Rightarrow> (case common of Some dyn_table \<Rightarrow> dyn_table | None \<Rightarrow> []) | None \<Rightarrow> [])"

fun find_relas :: "(u64 \<times> u64) list \<Rightarrow> u64 option \<Rightarrow> u64 option \<Rightarrow> u64 option \<times> u64 option" where
  "find_relas [] relas_addr relas_size = (relas_addr, relas_size)"
| "find_relas ((d_tag, d_un) # rest) relas_addr relas_size =
     (if d_tag = DT_RELA then find_relas rest (Some d_un) relas_size
      else if d_tag = DT_RELASZ then find_relas rest relas_addr (Some d_un)
      else find_relas rest relas_addr relas_size)"

fun apply_relas :: "'m loader_write \<Rightarrow> u64 \<Rightarrow> rela list \<Rightarrow> 'm \<Rightarrow> (loader_error, 'm) fallible" where
  "apply_relas wb start [] mem = Okay mem"
| "apply_relas wb start (rela # relas) mem =
     (if r_type rela = R_RISCV_RELATIVE then
        let relocated = to_le_bytes (start + r_addend rela)
        in fallible_then (wb (start + r_offset rela) relocated mem) (apply_relas wb start relas)
      else Panicked)"

definition load_elf_reloc ::
    "elf_env \<Rightarrow> 'm loader_write \<Rightarrow> u64 \<Rightarrow> elf_bytes \<Rightarrow> u8 list \<Rightarrow> 'm \<Rightarrow> (loader_error, load_result \<times> 'm) fallible" where
  "load_elf_reloc env wb start elf contents mem =
     fallible_then (load_segments wb (Some start) contents (loadable_segments elf) [] mem) (\<lambda>(permissions, mem).
     fallible_then
       (case find_relas (dynamic_infos elf) None None of
          (Some addr, Some relas_size) \<Rightarrow>
            fallible_then (or_panic (slice_of contents (unat addr) (unat relas_size)))
              (\<lambda>relas_data. apply_relas wb start (rela_iterator env relas_data) mem)
        | _ \<Rightarrow> Okay mem) (\<lambda>mem.
     fallible_then (or_panic (extract_program_headers (ehdr elf) contents permissions)) (\<lambda>program_headers.
       Okay (\<lparr>entry = e_entry (ehdr elf) + start, lr_program_headers = program_headers\<rparr>, mem))))"

definition load_elf :: "elf_env \<Rightarrow> 'm loader_write \<Rightarrow> u64 \<Rightarrow> u8 list \<Rightarrow> 'm \<Rightarrow> (loader_error, load_result \<times> 'm) fallible" where
  "load_elf env wb start contents mem =
     (case minimal_parse env contents of
        None \<Rightarrow> Failed Elf
      | Some elf \<Rightarrow>
          if e_type (ehdr elf) = ET_EXEC then load_elf_nonreloc wb elf contents mem
          else if e_type (ehdr elf) = ET_DYN then load_elf_reloc env wb start elf contents mem
          else Panicked)"

section \<open>Programs\<close>

record rv_program =
  entrypoint :: address
  segments_of :: segments
  program_headers :: "program_headers option"

definition FIRST_ADDRESS :: address where "FIRST_ADDRESS = 0"

definition program_memory :: "segments loader_write" where
  "program_memory paddr bs segs = or_panic (program_write_bytes paddr bs segs)"

definition from_elf :: "elf_env \<Rightarrow> u8 list \<Rightarrow> (loader_error, rv_program) fallible" where
  "from_elf env elf =
     fallible_then (load_elf env program_memory FIRST_ADDRESS elf []) (\<lambda>(load_result, segs).
       Okay \<lparr>entrypoint = entry load_result, segments_of = segs,
             program_headers = Some (lr_program_headers load_result)\<rparr>)"

end
