(* ===== verification/Process_Setup.thy ===== *)
theory Process_Setup
  imports Kernel_Loader Pvm Proof_Tree
begin

text \<open>
  Model of the set-up of a supervised process, \<^verbatim>\<open>pvm/linux.rs\<close> (\<^verbatim>\<open>push_stack\<close>, \<^verbatim>\<open>init_linux_stack\<close>,
  \<^verbatim>\<open>load_program\<close>, \<^verbatim>\<open>prepare_stack\<close> and \<^verbatim>\<open>setup_linux_process\<close>): the program is written to memory, a stack
  with a guard page is made behind it, arguments, environment and auxiliary vector are pushed, and what is between
  the program and the guard becomes the heap. The callers drop the state after an error, so an error has no state here.
\<close>

section \<open>Errors\<close>

text \<open>\<^verbatim>\<open>MachineError\<close>; \<open>MachinePanic\<close> is a panic or undefined behaviour of the memory.\<close>

datatype machine_error = MemoryError | GovernanceError | MemoryTooSmall | MachinePanic

fun machine_error_from :: "memory_error \<Rightarrow> machine_error" where
  "machine_error_from BadMemoryAccess = MemoryError"
| "machine_error_from MemoryGovernanceError = GovernanceError"
| "machine_error_from Panic = MachinePanic"
| "machine_error_from UndefinedBehaviour = MachinePanic"

definition core_memory :: "(memory \<Rightarrow> memory_error + memory) \<Rightarrow> machine_core \<Rightarrow> machine_error + machine_core" where
  "core_memory f c =
     (case f (main_memory c) of Inl e \<Rightarrow> Inl (machine_error_from e) | Inr m \<Rightarrow> Inr (c\<lparr>main_memory := m\<rparr>))"

definition ok_or :: "machine_error \<Rightarrow> 'a option \<Rightarrow> machine_error + 'a" where
  "ok_or e r = (case r of None \<Rightarrow> Inl e | Some x \<Rightarrow> Inr x)"

section \<open>Stack\<close>

datatype aux_vector_key = PageSize | NumProgramHeaders | ProgramHeaderSize | ProgramHeadersPtr

primrec aux_key_code :: "aux_vector_key \<Rightarrow> u64" where
  "aux_key_code PageSize = 6"
| "aux_key_code NumProgramHeaders = 5"
| "aux_key_code ProgramHeaderSize = 4"
| "aux_key_code ProgramHeadersPtr = 3"

definition push_stack :: "u64 \<Rightarrow> u8 list \<Rightarrow> machine_core \<Rightarrow> machine_error + address \<times> machine_core" where
  "push_stack align bs c =
     (let stack_ptr = xregister_read c x2;
          stack_ptr = u64_saturating_sub (u64_saturating_sub stack_ptr (stack_ptr mod align)) (of_nat (length bs));
          c = xregister_write c x2 stack_ptr
      in try_bind (core_memory (\<lambda>m. mem_write_all m stack_ptr bs) c) (\<lambda>c. Inr (stack_ptr, c)))"

definition push_word :: "u64 \<Rightarrow> machine_core \<Rightarrow> machine_error + machine_core" where
  "push_word v c = try_bind (push_stack 8 (to_le_bytes v) c) (\<lambda>(_, c). Inr c)"

fun push_words :: "u64 list \<Rightarrow> machine_core \<Rightarrow> machine_error + machine_core" where
  "push_words [] c = Inr c"
| "push_words (v # vs) c = try_bind (push_word v c) (push_words vs)"

fun push_auxv :: "(aux_vector_key \<times> u64) list \<Rightarrow> machine_core \<Rightarrow> machine_error + machine_core" where
  "push_auxv [] c = Inr c"
| "push_auxv ((key, v) # auxv) c =
     try_bind (push_word v c) (\<lambda>c. try_bind (push_word (aux_key_code key) c) (push_auxv auxv))"

definition init_linux_stack ::
    "u8 list list \<Rightarrow> u8 list list \<Rightarrow> (aux_vector_key \<times> u64) list \<Rightarrow> machine_core \<Rightarrow> machine_error + machine_core" where
  "init_linux_stack cargs env auxv c =
     try_bind (try_map (push_stack 1) cargs c) (\<lambda>(arg_ptrs, c).
     try_bind (try_map (push_stack 1) env c) (\<lambda>(env_ptrs, c).
     try_bind (push_word 0 c) (\<lambda>c.
     try_bind (push_word 0 c) (\<lambda>c.
     try_bind (push_auxv auxv c) (\<lambda>c.
     try_bind (push_word 0 c) (\<lambda>c.
     try_bind (push_words (rev env_ptrs) c) (\<lambda>c.
     try_bind (push_word 0 c) (\<lambda>c.
     try_bind (push_words (rev arg_ptrs) c) (\<lambda>c.
     push_word (of_nat (length arg_ptrs)) c)))))))))"

section \<open>Program\<close>

definition set_core :: "machine_core \<Rightarrow> pvm \<Rightarrow> pvm" where
  "set_core c p = p\<lparr>machine := (machine p)\<lparr>core := c\<rparr>\<rparr>"

definition program_bounds :: "segments \<Rightarrow> u64 \<times> u64" where
  "program_bounds segs =
     ((case map fst segs of [] \<Rightarrow> 0 | k # ks \<Rightarrow> fold min ks k),
      (case map (\<lambda>(addr, bs). u64_saturating_add addr (of_nat (length bs))) segs of [] \<Rightarrow> 0 | e # es \<Rightarrow> fold max es e))"

fun write_segments :: "segments \<Rightarrow> machine_core \<Rightarrow> machine_error + machine_core" where
  "write_segments [] c = Inr c"
| "write_segments ((addr, bs) # segs) c =
     try_bind (core_memory (\<lambda>m. mem_write_all m addr bs) c) (write_segments segs)"

fun protect_segments :: "memory_permissions list \<Rightarrow> machine_core \<Rightarrow> machine_error + machine_core" where
  "protect_segments [] c = Inr c"
| "protect_segments (mp # mps) c =
     try_bind (core_memory (\<lambda>m. protect_pages m (start_address mp) (unat (mp_length mp)) (mp_permissions mp)) c)
       (protect_segments mps)"

definition load_program :: "rv_program \<Rightarrow> pvm \<Rightarrow> machine_error + pvm" where
  "load_program prog p =
     (let c = core (machine p);
          c = c\<lparr>hart := hart_reset (hart c) (entrypoint prog)\<rparr>;
          (program_start, program_end) = program_bounds (segments_of prog);
          program_length = unat (u64_saturating_sub program_end program_start)
      in try_bind (core_memory (\<lambda>m. protect_pages m program_start program_length permissions_write) c) (\<lambda>c.
         try_bind (write_segments (segments_of prog) c) (\<lambda>c.
         try_bind (core_memory (\<lambda>m. protect_pages m program_start program_length permissions_none) c) (\<lambda>c.
         try_bind (case program_headers prog of Some ph \<Rightarrow> protect_segments (ph_permissions ph) c | None \<Rightarrow> Inr c) (\<lambda>c.
         let program_start = align_down program_start PAGE_BYTES
         in try_bind (ok_or MemoryTooSmall (align_up program_end PAGE_BYTES)) (\<lambda>program_end.
            Inr ((set_core c p)\<lparr>system_state := (system_state p)\<lparr>program := (program_start, program_end)\<rparr>\<rparr>)))))))"

definition prepare_stack :: "pvm \<Rightarrow> machine_error + pvm" where
  "prepare_stack p =
     (let c = core (machine p);
          stack_top = of_nat (TOTAL_BYTES (main_memory c)) :: u64;
          guarded_stack_space = virt_sub stack_top (snd (program (system_state p)))
      in if guarded_stack_space < int PAGE_SIZE then Inl MemoryTooSmall
         else
           let unaligned_stack_space = min STACK_SIZE (word_of_int guarded_stack_space - PAGE_BYTES)
           in try_bind (ok_or MemoryTooSmall (align_up (stack_top - unaligned_stack_space) PAGE_BYTES)) (\<lambda>stack_bottom.
              if stack_top < stack_bottom then Inl MemoryTooSmall
              else
                let stack_space = unat (word_of_int (virt_sub stack_top stack_bottom) :: u64);
                    stack_guard_start = stack_bottom - PAGE_BYTES
                in try_bind (core_memory (\<lambda>m. protect_pages m stack_guard_start PAGE_SIZE permissions_none) c) (\<lambda>c.
                   try_bind (core_memory (\<lambda>m. protect_pages m stack_bottom stack_space permissions_read_write) c) (\<lambda>c.
                   let c = xregister_write c x2 stack_top
                   in Inr ((set_core c p)\<lparr>system_state := (system_state p)\<lparr>stack_guard := (stack_guard_start, stack_bottom)\<rparr>\<rparr>)))))"

definition PROCESS_NAME :: "u8 list" where "PROCESS_NAME = map of_char ''tezos-smart-rollup'' @ [0]"

definition PROCESS_ENV :: "u8 list" where "PROCESS_ENV = map of_char ''RUST_BACKTRACE=full'' @ [0]"

text \<open>The auxiliary vector; the program headers are pushed before the strings.\<close>

definition push_headers ::
    "program_headers option \<Rightarrow> machine_core \<Rightarrow> machine_error + (aux_vector_key \<times> u64) list \<times> machine_core" where
  "push_headers headers c =
     (let auxv = [(PageSize, PAGE_BYTES)]
      in case headers of
           None \<Rightarrow> Inr (auxv, c)
         | Some ph \<Rightarrow>
             try_bind (push_stack 8 (ph_contents ph) c) (\<lambda>(prog_headers_ptr, c).
               Inr (auxv @ [(NumProgramHeaders, num_entries ph), (ProgramHeaderSize, entry_size ph),
                            (ProgramHeadersPtr, prog_headers_ptr)], c)))"

definition setup_linux_process :: "rv_program \<Rightarrow> pvm \<Rightarrow> machine_error + pvm" where
  "setup_linux_process prog p =
     try_bind (load_program prog p) (\<lambda>p.
     try_bind (prepare_stack p) (\<lambda>p.
     try_bind (push_headers (program_headers prog) (core (machine p))) (\<lambda>(auxv, c).
     try_bind (init_linux_stack [PROCESS_NAME] [PROCESS_ENV] auxv c) (\<lambda>c.
     let program_end = snd (program (system_state p))
     in try_bind (ok_or MemoryTooSmall (align_up program_end PAGE_BYTES)) (\<lambda>heap_start.
        let heap_end = fst (stack_guard (system_state p));
            p = p\<lparr>system_state := (system_state p)\<lparr>heap := (heap_start, heap_end)\<rparr>\<rparr>
        in try_bind
             (core_memory (\<lambda>m. case allocate_pages m (Some 0) (TOTAL_BYTES m) True of
                                 (Inl e, _) \<Rightarrow> Inl e | (Inr _, m) \<Rightarrow> Inr m) c) (\<lambda>c.
           try_bind (core_memory (\<lambda>m. deallocate_pages m heap_start (unat (word_of_int (virt_sub heap_end heap_start) :: u64))) c) (\<lambda>c.
             Inr (set_core c p))))))))"

section \<open>Installing a kernel\<close>

text \<open>\<^verbatim>\<open>NodePvm::install_boot_sector\<close>; \<open>None\<close> is the panic of an \<^verbatim>\<open>unwrap\<close>.\<close>

definition install_boot_sector :: "elf_env \<Rightarrow> u8 list \<Rightarrow> pvm \<Rightarrow> pvm option" where
  "install_boot_sector env kernel_elf p =
     (case from_elf env kernel_elf of
        Okay prog \<Rightarrow> (case setup_linux_process prog p of Inr p \<Rightarrow> Some p | Inl _ \<Rightarrow> None)
      | _ \<Rightarrow> None)"

text \<open>
  \<^verbatim>\<open>MachineState::setup_boot\<close>, for programs without supervisor. The flattened device tree, for a memory and an optional
  start and length of the initial ramdisk, comes from the crate \<^verbatim>\<open>vm_fdt\<close> and is a parameter; \<open>None\<close> is its error.
\<close>

datatype boot_error = BootMachine machine_error | DeviceTreeError

definition setup_boot ::
    "(nat \<Rightarrow> (u64 \<times> u64) option \<Rightarrow> u8 list option) \<Rightarrow> rv_program \<Rightarrow> u8 list option \<Rightarrow> machine_core \<Rightarrow> boot_error + machine_core" where
  "setup_boot devicetree prog initrd c =
     (let boot = map_sum BootMachine id;
          c = c\<lparr>hart := hart_reset (hart c) (entrypoint prog)\<rparr>
      in try_bind (boot (write_segments (segments_of prog) c)) (\<lambda>c.
         let c = xregister_write c x10 0;
             initrd_addr = (case map (\<lambda>(base, bs). base + of_nat (length bs)) (segments_of prog) of
                              [] \<Rightarrow> FIRST_ADDRESS | e # es \<Rightarrow> fold max es e)
         in try_bind
              (case initrd of
                 Some bs \<Rightarrow>
                   try_bind (boot (core_memory (\<lambda>m. mem_write_all m initrd_addr bs) c))
                     (\<lambda>c. Inr (initrd_addr + of_nat (length bs), Some (initrd_addr, of_nat (length bs)), c))
               | None \<Rightarrow> Inr (initrd_addr, None, c))
              (\<lambda>(dtb_addr, options, c).
                 case devicetree (TOTAL_BYTES (main_memory c)) options of
                   None \<Rightarrow> Inl DeviceTreeError
                 | Some fdt \<Rightarrow>
                     try_bind (boot (core_memory (\<lambda>m. mem_write_all m dtb_addr fdt) c))
                       (\<lambda>c. Inr (xregister_write c x11 dtb_addr)))))"

end
