(* ===== verification/Stepper.thy ===== *)
theory Stepper
  imports Pvm_Correct Process_Setup
begin

text \<open>
  Model of the stepper, \<^verbatim>\<open>stepper.rs\<close> and \<^verbatim>\<open>stepper/pvm.rs\<close>, with which the sandbox and the proofs drive
  the virtual machine, and of its answers to reveal requests, \<^verbatim>\<open>stepper/pvm/reveals.rs\<close>. The inbox is a
  type of another crate: its state \<open>'i\<close> and \<open>next\<close> are parameters. Of the file system, the directory of
  preimages is a function from the hash, whose hexadecimal form is the name of the file, to the content.
  Texts of exits and errors are values of a type. Counters of type \<^verbatim>\<open>usize\<close> are natural numbers, added
  with saturation. \<open>None\<close> is a panic or a run that does not end.
\<close>

section \<open>Status\<close>

datatype exit_text = ExitedWithCode u64 | InboxDrained

datatype error_text = InputNotTaken | RevealNotTaken

datatype stepper_status =
    Running nat
  | Exited nat bool exit_text
  | Errored nat error_text

fun status_steps :: "stepper_status \<Rightarrow> nat" where
  "status_steps (Running n) = n"
| "status_steps (Exited n success text) = n"
| "status_steps (Errored n text) = n"

definition status_default :: stepper_status where
  "status_default = Running 0"

text \<open>\<^verbatim>\<open>add_assign\<close>\<close>

fun status_add :: "stepper_status \<Rightarrow> stepper_status \<Rightarrow> stepper_status" where
  "status_add (Running prev_steps) (Running n) = Running (saturating_add n prev_steps)"
| "status_add (Running prev_steps) (Exited n success text) = Exited (saturating_add n prev_steps) success text"
| "status_add (Running prev_steps) (Errored n text) = Errored (saturating_add n prev_steps) text"
| "status_add (Exited n success text) rhs = Exited n success text"
| "status_add (Errored n text) rhs = Errored n text"

section \<open>Responses to reveal requests\<close>

record reveal_responses =
  responses :: "u8 list \<rightharpoonup> u8 list"
  preimages_dir :: "(u8 list \<Rightarrow> u8 list option) option"

definition add_static :: "reveal_responses \<Rightarrow> u8 list \<Rightarrow> u8 list \<Rightarrow> reveal_responses" where
  "add_static m request response = m\<lparr>responses := (responses m)(request \<mapsto> response)\<rparr>"

text \<open>\<^verbatim>\<open>add_metadata\<close>: slices of different lengths cannot be copied.\<close>

definition add_metadata :: "nat \<Rightarrow> nat \<Rightarrow> reveal_responses \<Rightarrow> u8 list \<Rightarrow> u32 \<Rightarrow> reveal_responses option" where
  "add_metadata METADATA_LENGTH ROLLUP_ADDRESS_LENGTH m rollup_address origination_level =
     (if ROLLUP_ADDRESS_LENGTH \<le> METADATA_LENGTH \<and> length rollup_address = ROLLUP_ADDRESS_LENGTH \<and>
         METADATA_LENGTH - ROLLUP_ADDRESS_LENGTH = 4
      then Some (add_static m [1] (rollup_address @ rev (to_le_bytes origination_level)))
      else None)"

definition reveal_responses_new ::
    "nat \<Rightarrow> nat \<Rightarrow> u8 list \<Rightarrow> u32 \<Rightarrow> (u8 list \<Rightarrow> u8 list option) option \<Rightarrow> reveal_responses option" where
  "reveal_responses_new METADATA_LENGTH ROLLUP_ADDRESS_LENGTH rollup_address origination_level dir =
     add_metadata METADATA_LENGTH ROLLUP_ADDRESS_LENGTH \<lparr>responses = Map.empty, preimages_dir = dir\<rparr>
       rollup_address origination_level"

text \<open>\<^verbatim>\<open>check_preimage_hash\<close>: a hash of length zero, were it accepted, would have no first byte.\<close>

definition check_preimage_hash :: "tezos_env \<Rightarrow> nat \<Rightarrow> u8 list \<Rightarrow> u8 list \<Rightarrow> bool option" where
  "check_preimage_hash tz PREIMAGE_HASH_SIZE preimage preimage_hash =
     (if length preimage_hash \<noteq> PREIMAGE_HASH_SIZE then Some False
      else case preimage_hash of
             [] \<Rightarrow> None
           | kind # digest \<Rightarrow> Some (kind = 0 \<and> digest = blake2b_digest_256 tz preimage))"

definition load_response_from_disk :: "tezos_env \<Rightarrow> nat \<Rightarrow> reveal_responses \<Rightarrow> u8 list \<Rightarrow> u8 list option option" where
  "load_response_from_disk tz PREIMAGE_HASH_SIZE m request =
     (case preimages_dir m of
        None \<Rightarrow> Some None
      | Some dir \<Rightarrow>
          (case request of
             [] \<Rightarrow> Some None
           | kind # preimage_hash \<Rightarrow>
               if kind \<noteq> 0 then Some None
               else case dir preimage_hash of
                      None \<Rightarrow> Some None
                    | Some content \<Rightarrow>
                        map_option (\<lambda>ok. if ok then Some content else None)
                          (check_preimage_hash tz PREIMAGE_HASH_SIZE content preimage_hash)))"

definition get_response :: "tezos_env \<Rightarrow> nat \<Rightarrow> reveal_responses \<Rightarrow> u8 list \<Rightarrow> u8 list option option" where
  "get_response tz PREIMAGE_HASH_SIZE m request =
     (case responses m request of
        Some response \<Rightarrow> Some (Some response)
      | None \<Rightarrow> load_response_from_disk tz PREIMAGE_HASH_SIZE m request)"

section \<open>The stepper\<close>

record 'i stepper =
  stepper_pvm :: pvm
  stepper_inbox :: 'i
  stepper_reveals :: reveal_responses

datatype stepper_error = MachineError machine_error | KernelError loader_error

definition stepper_new ::
    "elf_env \<Rightarrow> tezos_env \<Rightarrow> nat \<Rightarrow> nat \<Rightarrow> nat \<Rightarrow> memory \<Rightarrow> u8 list \<Rightarrow> u8 list option \<Rightarrow> 'i \<Rightarrow> u8 list \<Rightarrow> u32 \<Rightarrow>
     (u8 list \<Rightarrow> u8 list option) option \<Rightarrow> (stepper_error, 'i stepper) fallible" where
  "stepper_new env tz METADATA_LENGTH ROLLUP_ADDRESS_LENGTH SIZE m program_elf initrd inbox rollup_address origination_level dir =
     (let p = pvm_new tz SIZE m in
      case from_elf env program_elf of
        Failed e \<Rightarrow> Failed (KernelError e)
      | Panicked \<Rightarrow> Panicked
      | Okay prog \<Rightarrow>
          (case setup_linux_process prog p of
             Inl e \<Rightarrow> if e = MachinePanic then Panicked else Failed (MachineError e)
           | Inr p \<Rightarrow>
               if initrd \<noteq> None then Panicked
               else
                 (case reveal_responses_new METADATA_LENGTH ROLLUP_ADDRESS_LENGTH rollup_address origination_level dir of
                    None \<Rightarrow> Panicked
                  | Some reveals \<Rightarrow> Okay \<lparr>stepper_pvm = p, stepper_inbox = inbox, stepper_reveals = reveals\<rparr>)))"

text \<open>What the stepper uses of other crates beside the host functions of the virtual machine.\<close>

record 'i stepper_env =
  inbox_next :: "'i \<Rightarrow> (u32 \<times> u32 \<times> u8 list) option \<times> 'i"
  preimage_hash_size :: nat

definition step_max_once ::
    "apfloat_ops \<Rightarrow> tezos_env \<Rightarrow> 'i stepper_env \<Rightarrow> bound \<Rightarrow> 'i stepper \<Rightarrow> (stepper_status \<times> 'i stepper) option" where
  "step_max_once apf tz env steps_bound st =
     (let p = stepper_pvm st in
      case has_exited p of
        Some code \<Rightarrow> Some (Exited 0 (code = 0) (ExitedWithCode code), st)
      | None \<Rightarrow>
          (case pvm_state p of
             Evaluating \<Rightarrow>
               map_option (\<lambda>(n, p). (Running n, st\<lparr>stepper_pvm := p\<rparr>)) (eval_max apf tz steps_bound p)
           | WaitingForInput \<Rightarrow>
               (case inbox_next env (stepper_inbox st) of
                  (Some (lvl, counter, payload), inbox) \<Rightarrow>
                    map_option (\<lambda>(success, p).
                        (if success then Running 1 else Errored 0 InputNotTaken, st\<lparr>stepper_pvm := p, stepper_inbox := inbox\<rparr>))
                      (provide_inbox_message tz p lvl counter payload)
                | (None, inbox) \<Rightarrow> Some (Exited 0 True InboxDrained, st\<lparr>stepper_inbox := inbox\<rparr>))
           | WaitingForReveal \<Rightarrow>
               Option.bind (get_response tz (preimage_hash_size env) (stepper_reveals st) (pvm_reveal_request tz p)) (\<lambda>response.
                 case response of
                   None \<Rightarrow> Some (Running 1, st\<lparr>stepper_pvm := provide_reveal_error_response tz p\<rparr>)
                 | Some reveal_response \<Rightarrow>
                     map_option (\<lambda>(success, p). (if success then Running 1 else Errored 0 RevealNotTaken, st\<lparr>stepper_pvm := p\<rparr>))
                       (provide_reveal_response tz p reveal_response))))"

definition try_step ::
    "apfloat_ops \<Rightarrow> tezos_env \<Rightarrow> 'i stepper_env \<Rightarrow> 'i stepper \<Rightarrow> (bool \<times> 'i stepper) option" where
  "try_step apf tz env st =
     map_option (\<lambda>(status, st). (case status of Running n \<Rightarrow> n = 1 | Exited n _ _ \<Rightarrow> n = 1 | Errored _ _ \<Rightarrow> False, st))
       (step_max_once apf tz env (Included 1) st)"

text \<open>The loop of \<^verbatim>\<open>step_max\<close>\<close>

partial_function (option) stepper_loop ::
    "apfloat_ops \<Rightarrow> tezos_env \<Rightarrow> 'i stepper_env \<Rightarrow> nat \<Rightarrow> bound \<Rightarrow> 'i stepper \<Rightarrow> (stepper_status \<times> 'i stepper) option" where
  "stepper_loop apf tz env total_steps step_bounds st =
     Option.bind (step_max_once apf tz env step_bounds st) (\<lambda>r.
       case fst r of
         Running n \<Rightarrow>
           if n < 1 then Some (Running (saturating_add total_steps n), snd r)
           else stepper_loop apf tz env (saturating_add total_steps n) (bound_saturating_sub step_bounds n) (snd r)
       | Exited n success text \<Rightarrow> Some (Exited (saturating_add total_steps n) success text, snd r)
       | Errored n text \<Rightarrow> Some (Errored (saturating_add total_steps n) text, snd r))"

definition stepper_step_max ::
    "apfloat_ops \<Rightarrow> tezos_env \<Rightarrow> 'i stepper_env \<Rightarrow> bound \<Rightarrow> 'i stepper \<Rightarrow> (stepper_status \<times> 'i stepper) option" where
  "stepper_step_max apf tz env step_bounds st = stepper_loop apf tz env 0 step_bounds st"

end
