(* ===== verification/Stepper_Correct.thy ===== *)
theory Stepper_Correct
  imports Stepper
begin

text \<open>
  The stepper takes steps of the virtual machine one after the other: a bounded \<^verbatim>\<open>step_max\<close> is a number
  of calls of \<^verbatim>\<open>try_step\<close>, and \<^verbatim>\<open>try_step\<close> is one \<^verbatim>\<open>eval_one\<close> or one input. For this, evaluation goes on
  past a system call only while the process has not exited and nothing is awaited.
\<close>

section \<open>System calls and the end of the process\<close>

text \<open>System calls that do not end the process.\<close>

definition sys_alive :: "'a syscall \<Rightarrow> bool" where
  "sys_alive f \<longleftrightarrow> (\<forall>st. exited (supervisor (snd (f st))) = exited (supervisor st))"

lemma alive_bind: "sys_alive f \<Longrightarrow> (\<And>x. sys_alive (k x)) \<Longrightarrow> sys_alive (sys_bind f k)"
  by (auto simp: sys_alive_def sys_bind_def split: prod.split sys.split) (metis snd_conv)+

lemma alive_basic:
  "sys_alive (sys_return x)" "sys_alive (sys_fail e)" "sys_alive (read_arg conv r)" "sys_alive (mem_update f)"
  "sys_alive (mem_query g)" "sys_alive (putchar_all bs)" "sys_alive (mem_allocate hint len perms replace)"
  by (auto simp: sys_alive_def sys_return_def sys_fail_def read_arg_def mem_update_def mem_query_def putchar_all_def
      mem_allocate_def sys_set_memory_def split: sum.split prod.split option.split memory_error.split)

lemma alive_if: "(P \<Longrightarrow> sys_alive f) \<Longrightarrow> (\<not> P \<Longrightarrow> sys_alive g) \<Longrightarrow> sys_alive (if P then f else g)"
  by simp

lemma alive_loops:
  "sys_alive (search_iovec iovec item n)" "sys_alive (read_pollfds p i n)" "sys_alive (clear_revents p i n)"
  "sys_alive (zero_mask msk i n)"
  by (induction n arbitrary: item i) (auto simp: Let_def intro!: alive_basic alive_bind)

lemma alive_check: "sys_alive f \<Longrightarrow> sys_alive (check_result f)" "sys_alive g \<Longrightarrow> sys_alive (check_value g)"
  by (auto simp: check_result_def check_value_def intro!: alive_bind alive_basic) (auto simp: sys_alive_def sys_write_x_def)

lemma alive_case: "(\<And>x. sys_alive (f x)) \<Longrightarrow> sys_alive g \<Longrightarrow> sys_alive (case y of None \<Rightarrow> g | Some x \<Rightarrow> f x)"
  by (cases y) auto

lemma alive_supervise:
  "(\<And>st. exited (g st) = exited (supervisor st)) \<Longrightarrow> sys_alive (\<lambda>st. sys_return x (st\<lparr>supervisor := g st\<rparr>))"
  by (simp add: sys_alive_def sys_return_def)

lemma alive_write_to_fd: "sys_alive (write_to_fd fd a len)"
  by (auto simp: write_to_fd_def Let_def intro!: alive_basic alive_bind split: fd_writeable.split)

lemma alive_zero: "sys_alive (zero_old old n)" "sys_alive (zero_unless_null a n)"
  by (auto simp: zero_old_def zero_unless_null_def intro!: alive_basic alive_bind alive_case)

lemma alive_files:
  "sys_alive handle_faccessat" "sys_alive handle_openat" "sys_alive handle_close" "sys_alive (handle_read n)"
  "sys_alive handle_readlinkat" "sys_alive (handle_getcwd b n)" "sys_alive (handle_write fd a n)"
  "sys_alive (handle_writev fd a k)" "sys_alive (handle_ppoll p j)"
  by (auto simp: handle_faccessat_def handle_openat_def handle_close_def handle_read_def handle_readlinkat_def
      handle_getcwd_def handle_write_def handle_writev_def handle_ppoll_def Let_def
      intro!: alive_basic alive_bind alive_case alive_loops alive_write_to_fd split: option.split)

lemma alive_process:
  "sys_alive (handle_set_tid_address a)" "sys_alive (handle_set_robust_list h)" "sys_alive (handle_sigaltstack x old)"
  "sys_alive (handle_rt_sigaction x y old)" "sys_alive (handle_rt_sigprocmask x y old)" "sys_alive handle_getpid"
  using alive_supervise [where x = MAIN_THREAD_ID and g = "\<lambda>st. (supervisor st)\<lparr>tid_address := a\<rparr>"]
  by (auto simp: handle_set_tid_address_def [abs_def] handle_set_robust_list_def handle_sigaltstack_def
      handle_rt_sigaction_def handle_rt_sigprocmask_def handle_getpid_def intro!: alive_basic alive_bind alive_zero)

lemma alive_memory:
  "sys_alive (handle_mmap a len perms flags)" "sys_alive (handle_mprotect a len perms)" "sys_alive (handle_munmap a len)"
  "sys_alive handle_madvise" "sys_alive handle_brk"
  by (auto simp: handle_mmap_def handle_mprotect_def handle_madvise_def
      intro!: alive_basic alive_bind split: visibility.split backend.split address_hint.split)
     (auto simp: sys_alive_def handle_brk_def sys_return_def handle_munmap_def sys_set_memory_def split: sum.split memory_error.split)

lemma alive_time:
  "sys_alive (handle_clock_gettime x a)" "sys_alive (handle_sched_getaffinity n a)" "sys_alive (handle_gettimeofday a b)"
  "sys_alive (handle_getrandom a n)"
  by (auto simp: handle_clock_gettime_def handle_sched_getaffinity_def handle_gettimeofday_def handle_getrandom_def Let_def
      intro!: alive_basic alive_bind alive_loops alive_zero)

lemma alive_system_call:
  assumes "no \<notin> {EXIT, EXITGROUP, TKILL}"
  shows "sys_alive (system_call no)"
  unfolding system_call_def using assms
  by (intro alive_if alive_bind alive_basic alive_check alive_files alive_process alive_memory alive_time; simp)


text \<open>The calls that end the process do not let evaluation go on.\<close>

lemma ending_calls:
  assumes "no \<in> {EXIT, EXITGROUP, TKILL}" and "system_call no st = (r, st')" and "r \<noteq> Ret False" and "r \<noteq> Crash"
  shows "exited (supervisor st') = exited (supervisor st)"
  using assms
  by (auto simp: system_call_def system_call_numbers check_result_def handle_exit_def handle_tkill_def sys_bind_def sys_return_def
      read_arg_def split: sum.splits)

lemma system_call_exited:
  assumes "system_call no st = (r, st')" and "r \<noteq> Ret False" and "r \<noteq> Crash"
  shows "exited (supervisor st') = exited (supervisor st)"
proof (cases "no \<in> {EXIT, EXITGROUP, TKILL}")
  case False
  from alive_system_call [OF this] assms(1) show ?thesis unfolding sys_alive_def by (metis snd_conv)
qed (use ending_calls assms in blast)

text \<open>While evaluation goes on, the machine evaluates and the process has not exited.\<close>

definition call_running :: "call_state \<Rightarrow> bool" where
  "call_running cs \<longleftrightarrow> fst (fst (snd cs)) = Evaluating \<and> \<not> exited (fst cs)"

lemma call_goes_on:
  assumes "pvm_handle_system_call tz cs c = Some (True, cs', c')" and "call_running cs"
  shows "call_running cs'"
  using assms system_call_exited
  by (auto simp: pvm_handle_system_call_def linux_handle_system_call_def Let_def call_running_def write_system_call_error_def sys_write_x_def
      split: prod.splits sys.splits if_splits)


section \<open>Single steps\<close>

fun try_steps :: "apfloat_ops \<Rightarrow> tezos_env \<Rightarrow> 'i stepper_env \<Rightarrow> nat \<Rightarrow> 'i stepper \<Rightarrow> 'i stepper option" where
  "try_steps apf tz env 0 st = Some st"
| "try_steps apf tz env (Suc k) st =
     (case try_step apf tz env st of Some (True, st') \<Rightarrow> try_steps apf tz env k st' | _ \<Rightarrow> None)"

definition crashes_within :: "apfloat_ops \<Rightarrow> tezos_env \<Rightarrow> 'i stepper_env \<Rightarrow> nat \<Rightarrow> 'i stepper \<Rightarrow> bool" where
  "crashes_within apf tz env n st \<longleftrightarrow>
     (\<exists>k<n. \<exists>st'. try_steps apf tz env k st = Some st' \<and> try_step apf tz env st' = None)"

lemma crashes_now: "try_step apf tz env st = None \<Longrightarrow> 0 < n \<Longrightarrow> crashes_within apf tz env n st"
  unfolding crashes_within_def by (intro exI [of _ 0]) simp

lemma try_steps_add:
  "try_steps apf tz env m st = Some st' \<Longrightarrow> try_steps apf tz env (m + n) st = try_steps apf tz env n st'"
  by (induction m arbitrary: st) (auto split: option.splits bool.splits)

lemma crashes_later:
  assumes "try_steps apf tz env m st = Some st'" and "crashes_within apf tz env n st'"
  shows "crashes_within apf tz env (m + n) st"
proof -
  from assms(2) obtain k st'' where k: "k < n" "try_steps apf tz env k st' = Some st''" "try_step apf tz env st'' = None"
    by (auto simp: crashes_within_def)
  with try_steps_add [OF assms(1), of k] show ?thesis unfolding crashes_within_def by (intro exI [of _ "m + k"]) simp
qed

lemma crashes_mono: "crashes_within apf tz env n st \<Longrightarrow> n \<le> m \<Longrightarrow> crashes_within apf tz env m st"
  unfolding crashes_within_def by (meson less_le_trans)

text \<open>The state of a machine whose run goes on.\<close>

definition running :: "'i stepper \<Rightarrow> bool" where
  "running st \<longleftrightarrow> call_running (call_state_of (stepper_pvm st))"

abbreviation stepper_wf :: "'i stepper \<Rightarrow> bool" where
  "stepper_wf st \<equiv> partial_wf (block_cache (machine (stepper_pvm st)))"

lemma running_iff: "running st \<longleftrightarrow> pvm_state (stepper_pvm st) = Evaluating \<and> has_exited (stepper_pvm st) = None"
  by (simp add: running_def call_running_def call_state_of_def has_exited_def)

lemma eval_max_once:
  assumes "partial_wf (block_cache (machine p))"
  shows "eval_max apf tz (Included 1) p = map_option (\<lambda>q. (1, q)) (eval_one apf tz p)"
  using eval_max_replay [OF assms, of "Included 1" apf tz]
  by (cases "eval_one apf tz p") (auto simp: USIZE_MAX_def le_Suc_eq split: option.splits)

lemma try_step_running:
  assumes "running st" and "stepper_wf st"
  shows "try_step apf tz env st = map_option (\<lambda>q. (True, st\<lparr>stepper_pvm := q\<rparr>)) (eval_one apf tz (stepper_pvm st))"
  using assms eval_max_once [OF assms(2), of apf tz]
  by (auto simp: running_iff try_step_def step_max_once_def option.map_comp comp_def simp del: One_nat_def intro!: option.map_cong)


lemma step_partial_wf: "step apf s = Some (res, s') \<Longrightarrow> partial_wf (block_cache s) \<Longrightarrow> partial_wf (block_cache s')"
  using partial_wf_step [of s apf] by (auto simp: step_def split: option.splits)

text \<open>What a run of the machine with handled calls does, single steps of the stepper do.\<close>

lemma handled_try_steps:
  assumes "call_running cs" and "partial_wf (block_cache s)" and "stepper_pvm st = set_call_state cs s p"
  shows "case handled_steps apf (pvm_handler tz) n cs s of
      None \<Rightarrow> crashes_within apf tz env n st
    | Some (r, cs', s') \<Rightarrow> steps r \<le> n \<and> partial_wf (block_cache s') \<and>
        try_steps apf tz env (steps r) st = Some (st\<lparr>stepper_pvm := set_call_state cs' s' (pvm_tick (of_nat (steps r)) p)\<rparr>)"
  using assms
proof (induction n arbitrary: cs s st p)
  case 0
  then have "st\<lparr>stepper_pvm := set_call_state cs s p\<rparr> = st" by (cases st) simp
  then show ?case using 0 by (simp add: pvm_tick_def)
next
  case (Suc n)
  have run: "running st" "stepper_wf st" using Suc.prems by (simp_all add: running_def)
  have "eval_one apf tz (stepper_pvm st) = map_option snd (eval_step apf tz (set_call_state cs s p))"
    using run(1) Suc.prems(3) by (simp add: running_iff eval_one_step)
  note one = try_step_running [OF run, of apf tz env, unfolded this eval_step_call [of apf tz cs s p]]
  have go: "case map_option (apfst (add_steps 1)) (handled_steps apf (pvm_handler tz) n cs' s') of
      None \<Rightarrow> crashes_within apf tz env (Suc n) st
    | Some (r, cs', s') \<Rightarrow> steps r \<le> Suc n \<and> partial_wf (block_cache s') \<and>
        try_steps apf tz env (steps r) st = Some (st\<lparr>stepper_pvm := set_call_state cs' s' (pvm_tick (of_nat (steps r)) p)\<rparr>)"
    if "try_step apf tz env st = Some (True, st\<lparr>stepper_pvm := set_call_state cs' s' (pvm_tick 1 p)\<rparr>)"
      "call_running cs'" "partial_wf (block_cache s')" for cs' s'
    using Suc.IH [OF that(2,3), of "st\<lparr>stepper_pvm := set_call_state cs' s' (pvm_tick 1 p)\<rparr>" "pvm_tick 1 p"] that(1)
      crashes_later [of apf tz env 1 st "st\<lparr>stepper_pvm := set_call_state cs' s' (pvm_tick 1 p)\<rparr>" n]
    by (auto split: option.splits)
  show ?case
  proof (cases "step apf s")
    case None
    then show ?thesis using one by (simp add: crashes_now)
  next
    case (Some x)
    then obtain res s' where x: "step apf s = Some (res, s')" by (cases x) auto
    note wf = step_partial_wf [OF x Suc.prems(2)]
    show ?thesis
    proof (cases res)
      case (Inr u)
      then show ?thesis using go [of cs s'] one x Suc.prems(1) wf by simp
    next
      case (Inl e)
      show ?thesis
      proof (cases "pvm_handle_system_call tz cs (core s')")
        case None
        then show ?thesis using one x Inl by (simp add: crashes_now pvm_handler_def after_handler_def)
      next
        case (Some y)
        then obtain b cs' c where y: "pvm_handle_system_call tz cs (core s') = Some (b, cs', c)" by (cases y) auto
        then show ?thesis
          using go [of cs' "s'\<lparr>core := c\<rparr>"] one x Inl wf call_goes_on [OF _ Suc.prems(1), of tz "core s'" cs' c]
          by (cases b) (simp_all add: pvm_handler_def [of tz cs s' e] after_handler_def)
      qed
    qed
  qed
qed


lemma eval_max_try_steps:
  assumes "running st" and "stepper_wf st" and "b \<noteq> Unbounded" and "unwrap_bound b \<le> USIZE_MAX"
  shows "case eval_max apf tz b (stepper_pvm st) of
      None \<Rightarrow> crashes_within apf tz env (unwrap_bound b) st
    | Some (n, p') \<Rightarrow> n \<le> unwrap_bound b \<and> (0 < unwrap_bound b \<longrightarrow> 0 < n) \<and> partial_wf (block_cache (machine p')) \<and>
        try_steps apf tz env n st = Some (st\<lparr>stepper_pvm := p'\<rparr>)"
proof -
  let ?p = "stepper_pvm st"
  have bound: "less_than_bound 0 b \<longleftrightarrow> 0 < unwrap_bound b" using assms(3) by (cases b) auto
  have same: "st\<lparr>stepper_pvm := ?p\<rparr> = st" by simp
  have "call_running (call_state_of ?p)" using assms(1) by (simp add: running_def)
  note singles = handled_try_steps [OF this assms(2), of st ?p apf tz env "unwrap_bound b"]
  have prog: "0 < steps r"
    if "handled_steps apf (pvm_handler tz) (unwrap_bound b) (call_state_of ?p) (machine ?p) = Some (r, cs, s)" "0 < unwrap_bound b" for r cs s
    using that handled_steps_progress by (cases "unwrap_bound b") auto
  show ?thesis
    using singles prog assms(1,2) bound same step_max_handle_single [OF keeps_partial_pvm_handler assms(2-4), of apf tz "call_state_of ?p"]
    by (auto simp: eval_max_def running_iff simp del: handled_steps.simps split: option.splits)
qed

text \<open>One round of the loop: single steps, the end of the process or of the inbox, or a crash.\<close>

lemma input_step:
  assumes "has_exited (stepper_pvm st) = None" and "pvm_state (stepper_pvm st) \<noteq> Evaluating" and "stepper_wf st"
  shows "case step_max_once apf tz env b st of
      None \<Rightarrow> True
    | Some (Running n, st') \<Rightarrow> n = 1 \<and> running st' \<and> stepper_wf st'
    | Some (Exited n success text, st') \<Rightarrow> n = 0 \<and> stepper_pvm st' = stepper_pvm st
    | Some (Errored n text, st') \<Rightarrow> False"
proof (cases "pvm_state (stepper_pvm st)")
  case WaitingForInput
  then show ?thesis
    using assms
    by (auto simp: step_max_once_def Let_def provide_inbox_message_eq running_iff has_exited_def split: option.splits prod.splits)
next
  case WaitingForReveal
  then show ?thesis
    using assms
    by (cases "get_response tz (preimage_hash_size env) (stepper_reveals st) (pvm_reveal_request tz (stepper_pvm st))")
       (auto simp: step_max_once_def Let_def provide_reveal_response_eq provide_reveal_error_response_def pvm_tick_def running_iff
         has_exited_def split: option.splits)
qed (use assms in simp)

lemma step_max_once_cases:
  assumes "stepper_wf st" and "b \<noteq> Unbounded" and "unwrap_bound b \<le> USIZE_MAX"
  shows "case step_max_once apf tz env b st of
      None \<Rightarrow> crashes_within apf tz env (if running st then unwrap_bound b else 1) st
    | Some (Running n, st') \<Rightarrow> stepper_wf st' \<and> try_steps apf tz env n st = Some st' \<and>
        (if running st then n \<le> unwrap_bound b \<and> (0 < unwrap_bound b \<longrightarrow> 0 < n) else n = 1 \<and> running st')
    | Some (Exited n success text, st') \<Rightarrow> n = 0 \<and> stepper_pvm st' = stepper_pvm st
    | Some (Errored n text, st') \<Rightarrow> False"
proof (cases "running st")
  case True
  with eval_max_try_steps [OF True assms, of apf tz env] show ?thesis
    by (auto simp: step_max_once_def running_iff split: option.splits)
next
  case False
  then have same: "try_step apf tz env st =
      map_option (\<lambda>(status, st). (case status of Running n \<Rightarrow> n = 1 | Exited n _ _ \<Rightarrow> n = 1 | Errored _ _ \<Rightarrow> False, st))
        (step_max_once apf tz env b st)"
    unfolding try_step_def
    by (auto simp: step_max_once_def running_iff Let_def split: option.split pvm_status.split)
  show ?thesis
  proof (cases "has_exited (stepper_pvm st)")
    case None
    with False have "pvm_state (stepper_pvm st) \<noteq> Evaluating" by (simp add: running_iff)
    from input_step [OF None this assms(1), of apf tz env b] show ?thesis
      using False same by (auto intro: crashes_now split: option.splits stepper_status.splits)
  qed (use False in \<open>simp add: step_max_once_def\<close>)
qed


section \<open>Many steps\<close>

lemma unwrap_bound_sub: "b \<noteq> Unbounded \<Longrightarrow> unwrap_bound (bound_saturating_sub b n) = unwrap_bound b - n \<and> bound_saturating_sub b n \<noteq> Unbounded"
  by (cases b) auto

lemma stepper_loop_spent:
  assumes "running st" and "stepper_wf st" and "b \<noteq> Unbounded" and "unwrap_bound b = 0" and "acc \<le> USIZE_MAX"
  shows "stepper_loop apf tz env acc b st = Some (Running acc, st)"
proof -
  have "\<not> less_than_bound 0 b" using assms(3,4) by (cases b) auto
  then show ?thesis
    using assms by (simp add: stepper_loop.simps [of apf tz env acc] step_max_once_def running_iff eval_max_def
        saturating_add_def USIZE_MAX_def u64_max_def)
qed

text \<open>
  The loop from a given total: what it has counted in addition is a number of single steps that lead to
  the same machine, at most one more than the bound.
\<close>

definition loop_result ::
    "apfloat_ops \<Rightarrow> tezos_env \<Rightarrow> 'i stepper_env \<Rightarrow> nat \<Rightarrow> nat \<Rightarrow> 'i stepper \<Rightarrow> (stepper_status \<times> 'i stepper) option \<Rightarrow> bool" where
  "loop_result apf tz env acc n st r \<longleftrightarrow>
     (case r of
        None \<Rightarrow> crashes_within apf tz env n st
      | Some (status, st') \<Rightarrow> \<exists>k\<le>n. status_steps status = acc + k \<and>
          (\<exists>st''. try_steps apf tz env k st = Some st'' \<and> stepper_pvm st'' = stepper_pvm st'))"

lemma loop_result_step:
  assumes "try_steps apf tz env m st = Some st1" and "loop_result apf tz env (acc + m) n st1 r" and "m + n \<le> n'"
  shows "loop_result apf tz env acc n' st r"
  using assms crashes_later [OF assms(1), of n] crashes_mono [of apf tz env "m + n" st n'] try_steps_add [OF assms(1)]
  by (fastforce simp: loop_result_def split: option.splits)

lemma stepper_loop_singles:
  assumes "stepper_wf st" and "b \<noteq> Unbounded" and "acc + unwrap_bound b + 1 \<le> USIZE_MAX"
  shows "loop_result apf tz env acc (unwrap_bound b + 1) st (stepper_loop apf tz env acc b st)"
  using assms
proof (induction "2 * unwrap_bound b + (if running st then 0 else 1)" arbitrary: b st acc rule: less_induct)
  case less
  let ?B = "unwrap_bound b"
  have sat: "saturating_add acc n = acc + n" if "n \<le> ?B + 1" for n
    using that less.prems(3) by (simp add: saturating_add_def USIZE_MAX_def u64_max_def)
  note once = step_max_once_cases [OF less.prems(1,2), of apf tz env]
  show ?case
  proof (cases "step_max_once apf tz env b st")
    case None
    with once less.prems(3) have "crashes_within apf tz env (if running st then ?B else 1) st" by simp
    then have "crashes_within apf tz env (?B + 1) st" by (rule crashes_mono) simp
    with None show ?thesis by (simp add: stepper_loop.simps [of apf tz env acc] loop_result_def)
  next
    case (Some x)
    obtain status st1 where x: "x = (status, st1)" by (cases x)
    show ?thesis
    proof (cases status)
      case (Running n)
      with once Some x less.prems(3)
      have n: "stepper_wf st1" "try_steps apf tz env n st = Some st1"
        "if running st then n \<le> ?B \<and> (0 < ?B \<longrightarrow> 0 < n) else n = 1 \<and> running st1" by simp_all
      then have "n \<le> ?B + 1" by (auto split: if_splits)
      show ?thesis
      proof (cases "n = 0")
        case True
        with n Some x Running sat [of 0] show ?thesis
          by (auto simp: stepper_loop.simps [of apf tz env acc] loop_result_def intro!: exI [of _ 0])
      next
        case False
        let ?b = "bound_saturating_sub b n"
        have b: "unwrap_bound ?b = ?B - n" "?b \<noteq> Unbounded" using unwrap_bound_sub [OF less.prems(2)] by simp_all
        have loop: "stepper_loop apf tz env acc b st = stepper_loop apf tz env (acc + n) ?b st1"
          using Some x Running False sat [OF \<open>n \<le> ?B + 1\<close>] by (simp add: stepper_loop.simps [of apf tz env acc])
        show ?thesis
        proof (cases "n \<le> ?B")
          case True
          have "2 * unwrap_bound ?b + (if running st1 then 0 else 1) < 2 * ?B + (if running st then 0 else 1)"
            using b n(3) False True by auto
          from less.hyps [OF this n(1) b(2), of "acc + n"] less.prems(3) b(1) True
          have "loop_result apf tz env (acc + n) (?B - n + 1) st1 (stepper_loop apf tz env (acc + n) ?b st1)" by simp
          from loop_result_step [OF n(2) this] show ?thesis using True loop by simp
        next
          case beyond: False
          with n(3) have "?B = 0" "n = 1" "running st1" by (auto split: if_splits)
          with stepper_loop_spent [OF \<open>running st1\<close> n(1) b(2), of "acc + n" apf tz env] b(1) less.prems(3) loop n(2)
          show ?thesis by (auto simp: loop_result_def intro!: exI [of _ 1])
        qed
      qed
    next
      case (Exited n success t)
      with once Some x less.prems(3) sat [of 0] show ?thesis
        by (auto simp: stepper_loop.simps [of apf tz env acc] loop_result_def intro!: exI [of _ 0])
    next
      case (Errored n t)
      with once Some x less.prems(3) show ?thesis by simp
    qed
  qed
qed


section \<open>Properties\<close>

lemma tick_set_call_state [simp]: "tick (set_call_state cs s p) = tick p"
  by (simp add: set_call_state_def split: prod.split)

lemma eval_one_tick: "eval_one apf tz p = Some p' \<Longrightarrow> tick p' = tick p + 1"
  by (auto simp: eval_one_def provide_reveal_error_response_def pvm_tick_def handle_exception_def Let_def
      split: if_splits option.splits sum.splits prod.splits)

text \<open>
  C14: A bounded run of the stepper is a sequence of single steps. If it returns, single calls of
  \<^verbatim>\<open>try_step\<close>, as many as it reports, all succeed and lead to the same virtual machine, and they are at
  most one more than the bound; if it does not return, one of these single steps crashes.
\<close>

theorem stepper_is_single_steps:
  assumes "stepper_wf st" and "b \<noteq> Unbounded" and "unwrap_bound b + 1 \<le> USIZE_MAX"
  shows "case stepper_step_max apf tz env b st of
      None \<Rightarrow> \<exists>k\<le>unwrap_bound b. \<exists>st'. try_steps apf tz env k st = Some st' \<and> try_step apf tz env st' = None
    | Some (status, st') \<Rightarrow> status_steps status \<le> unwrap_bound b + 1 \<and>
        (\<exists>st''. try_steps apf tz env (status_steps status) st = Some st'' \<and> stepper_pvm st'' = stepper_pvm st')"
  using stepper_loop_singles [OF assms(1,2), of 0 apf tz env] assms(3)
  by (auto simp: stepper_step_max_def loop_result_def crashes_within_def less_Suc_eq_le split: option.splits)

lemma try_step_cases:
  assumes "stepper_wf st" and "try_step apf tz env st = Some (ok, st')" and "p = stepper_pvm st"
  shows "ok \<longleftrightarrow> has_exited p = None \<and> (pvm_state p = WaitingForInput \<longrightarrow> fst (inbox_next env (stepper_inbox st)) \<noteq> None)"
    and "ok \<Longrightarrow> tick (stepper_pvm st') = tick p + 1"
    and "ok \<Longrightarrow> pvm_state p = Evaluating \<Longrightarrow> eval_one apf tz p = Some (stepper_pvm st')"
    and "ok \<Longrightarrow> pvm_state p \<noteq> Evaluating \<Longrightarrow> pvm_state (stepper_pvm st') = Evaluating"
    and "\<not> ok \<Longrightarrow> stepper_pvm st' = p"
proof -
  have "(ok \<longleftrightarrow> has_exited p = None \<and> (pvm_state p = WaitingForInput \<longrightarrow> fst (inbox_next env (stepper_inbox st)) \<noteq> None)) \<and>
    (if ok then tick (stepper_pvm st') = tick p + 1 \<and>
       (pvm_state p = Evaluating \<longrightarrow> eval_one apf tz p = Some (stepper_pvm st')) \<and>
       (pvm_state p \<noteq> Evaluating \<longrightarrow> pvm_state (stepper_pvm st') = Evaluating)
     else stepper_pvm st' = p)"
  proof (cases "running st")
    case True
    then show ?thesis using assms try_step_running [OF True assms(1), of apf tz env] eval_one_tick [of apf tz p]
      by (auto simp: running_iff)
  next
    case False
    show ?thesis
    proof (cases "has_exited p")
      case None
      with False assms(3) have "pvm_state p \<noteq> Evaluating" by (simp add: running_iff)
      then consider "pvm_state p = WaitingForInput" | "pvm_state p = WaitingForReveal" by (cases "pvm_state p") auto
      then show ?thesis
      proof cases
        case 1
        then show ?thesis using None assms
          by (auto simp: try_step_def step_max_once_def Let_def provide_inbox_message_eq split: option.splits prod.splits)
      next
        case 2
        then show ?thesis using None assms
          by (cases "get_response tz (preimage_hash_size env) (stepper_reveals st) (pvm_reveal_request tz p)")
             (auto simp: try_step_def step_max_once_def Let_def provide_reveal_response_eq provide_reveal_error_response_def
               pvm_tick_def split: option.splits)
      qed
    qed (use assms in \<open>auto simp: try_step_def step_max_once_def\<close>)
  qed
  then show "ok \<longleftrightarrow> has_exited p = None \<and> (pvm_state p = WaitingForInput \<longrightarrow> fst (inbox_next env (stepper_inbox st)) \<noteq> None)"
    and "ok \<Longrightarrow> tick (stepper_pvm st') = tick p + 1"
    and "ok \<Longrightarrow> pvm_state p = Evaluating \<Longrightarrow> eval_one apf tz p = Some (stepper_pvm st')"
    and "ok \<Longrightarrow> pvm_state p \<noteq> Evaluating \<Longrightarrow> pvm_state (stepper_pvm st') = Evaluating"
    and "\<not> ok \<Longrightarrow> stepper_pvm st' = p"
    by simp_all
qed

text \<open>
  The answer to a reveal request: the response that is stored for it or, without one, the preimage of which
  the request names the hash, when the directory of preimages holds it under that hash.
\<close>

definition answers :: "tezos_env \<Rightarrow> nat \<Rightarrow> reveal_responses \<Rightarrow> u8 list \<Rightarrow> u8 list \<Rightarrow> bool" where
  "answers tz n m request response \<longleftrightarrow>
     responses m request = Some response \<or>
     responses m request = None \<and>
       (let h = 0 # blake2b_digest_256 tz response
        in request = 0 # h \<and> length h = n \<and> (\<exists>dir. preimages_dir m = Some dir \<and> dir h = Some response))"

lemma get_response_answers:
  assumes "get_response tz n m request = Some a"
  shows "a = Some response \<longleftrightarrow> answers tz n m request response"
proof (cases "responses m request")
  case (Some r)
  with assms show ?thesis by (auto simp: get_response_def answers_def)
next
  case none: None
  with assms have load: "load_response_from_disk tz n m request = Some a" by (simp add: get_response_def)
  show ?thesis
  proof (cases "preimages_dir m")
    case None
    with load none show ?thesis by (auto simp: load_response_from_disk_def answers_def Let_def)
  next
    case (Some dir)
    show ?thesis
    proof (cases request)
      case Nil
      with Some load none show ?thesis by (auto simp: load_response_from_disk_def answers_def Let_def)
    next
      case (Cons kind h)
      with none Some have ans: "answers tz n m request response \<longleftrightarrow>
          kind = 0 \<and> h = 0 # blake2b_digest_256 tz response \<and> length h = n \<and> dir h = Some response"
        by (auto simp: answers_def Let_def)
      show ?thesis using load unfolding ans
        by (cases h)
           (auto simp: load_response_from_disk_def check_preimage_hash_def Some Cons split: option.splits if_splits)
    qed
  qed
qed

text \<open>
  What a successful step does to the stepper: evaluation, delivery of the next message of the inbox, or
  delivery of the answer to a reveal request, of an error when there is none.
\<close>

definition stepped :: "apfloat_ops \<Rightarrow> tezos_env \<Rightarrow> 'i stepper_env \<Rightarrow> 'i stepper \<Rightarrow> 'i stepper \<Rightarrow> bool" where
  "stepped apf tz env st st' \<longleftrightarrow>
     (let p = stepper_pvm st; p' = stepper_pvm st'
      in case pvm_state p of
           Evaluating \<Rightarrow> eval_one apf tz p = Some p' \<and> st' = st\<lparr>stepper_pvm := p'\<rparr>
         | WaitingForInput \<Rightarrow>
             (\<exists>lvl counter payload inbox.
                inbox_next env (stepper_inbox st) = (Some (lvl, counter, payload), inbox) \<and>
                provide_inbox_message tz p lvl counter payload = Some (True, p') \<and>
                st' = st\<lparr>stepper_pvm := p', stepper_inbox := inbox\<rparr>)
         | WaitingForReveal \<Rightarrow>
             st' = st\<lparr>stepper_pvm := p'\<rparr> \<and>
             (let has = answers tz (preimage_hash_size env) (stepper_reveals st) (pvm_reveal_request tz p)
              in if \<exists>response. has response
                 then \<exists>response. has response \<and> provide_reveal_response tz p response = Some (True, p')
                 else p' = provide_reveal_error_response tz p))"

lemma try_step_stepped:
  assumes "stepper_wf st" and "try_step apf tz env st = Some (ok, st')"
  shows "ok \<Longrightarrow> stepped apf tz env st st'"
    and "\<not> ok \<Longrightarrow> st' = (if has_exited (stepper_pvm st) = None
                          then st\<lparr>stepper_inbox := snd (inbox_next env (stepper_inbox st))\<rparr> else st)"
proof -
  let ?p = "stepper_pvm st"
  have "if ok then stepped apf tz env st st' else st' = (if has_exited ?p = None
                          then st\<lparr>stepper_inbox := snd (inbox_next env (stepper_inbox st))\<rparr> else st)"
  proof (cases "has_exited ?p")
    case None
    show ?thesis
    proof (cases "pvm_state ?p")
      case Evaluating
      then have "running st" using None by (simp add: running_iff)
      from try_step_running [OF this assms(1), of apf tz env] assms(2) Evaluating show ?thesis
        by (cases "eval_one apf tz ?p") (auto simp: stepped_def)
    next
      case WaitingForInput
      then show ?thesis using None assms
        by (auto simp: try_step_def step_max_once_def Let_def provide_inbox_message_eq stepped_def split: option.splits prod.splits)
    next
      case WaitingForReveal
      from assms(2) None this obtain a
        where a: "get_response tz (preimage_hash_size env) (stepper_reveals st) (pvm_reveal_request tz ?p) = Some a"
        by (auto simp: try_step_def step_max_once_def Let_def bind_eq_Some_conv)
      note ans = get_response_answers [OF a, symmetric]
      from assms(2) None WaitingForReveal a show ?thesis
        by (cases a) (auto simp: try_step_def step_max_once_def Let_def stepped_def ans provide_reveal_response_eq)
    qed
  qed (use assms in \<open>auto simp: try_step_def step_max_once_def\<close>)
  then show "ok \<Longrightarrow> stepped apf tz env st st'"
    and "\<not> ok \<Longrightarrow> st' = (if has_exited ?p = None then st\<lparr>stepper_inbox := snd (inbox_next env (stepper_inbox st))\<rparr> else st)"
    by simp_all
qed

text \<open>
  C27: A single step of the stepper. It succeeds exactly when the process has not exited and a message
  is at hand if one is awaited. Then it is one step of evaluation, or the delivery of the next message of the inbox with its
  level and counter, or the delivery of the answer to the reveal request, of an error when there is none; it
  counts as one tick and leaves the machine evaluating after an input. Otherwise at most the inbox has been asked for
  a message.
\<close>

theorem try_step_exact:
  assumes "stepper_wf st" and "try_step apf tz env st = Some (ok, st')"
  shows "let p = stepper_pvm st; p' = stepper_pvm st' in
    (ok \<longleftrightarrow> has_exited p = None \<and> (pvm_state p = WaitingForInput \<longrightarrow> fst (inbox_next env (stepper_inbox st)) \<noteq> None)) \<and>
    (if ok
     then stepped apf tz env st st' \<and> tick p' = tick p + 1 \<and> (pvm_state p \<noteq> Evaluating \<longrightarrow> pvm_state p' = Evaluating)
     else st' = (if has_exited p = None then st\<lparr>stepper_inbox := snd (inbox_next env (stepper_inbox st))\<rparr> else st))"
  using try_step_cases [OF assms refl] try_step_stepped [OF assms] by (simp add: Let_def)

text \<open>
  C38: The bound of \<^verbatim>\<open>step_max\<close> is exceeded by inputs. A stepper whose machine awaits a message takes it
  and reports one step although no step is allowed.
\<close>

theorem step_max_exceeds_bound:
  assumes "stepper_wf st" and "has_exited (stepper_pvm st) = None" and "pvm_state (stepper_pvm st) = WaitingForInput"
    and "inbox_next env (stepper_inbox st) = (Some (lvl, counter, payload), inbox)"
    and "provide_inbox_message tz (stepper_pvm st) lvl counter payload = Some (ok, p')"
  shows "stepper_step_max apf tz env (Included 0) st = Some (Running 1, st\<lparr>stepper_pvm := p', stepper_inbox := inbox\<rparr>)"
proof -
  let ?st = "st\<lparr>stepper_pvm := p', stepper_inbox := inbox\<rparr>"
  have ok: "ok" "running ?st" "stepper_wf ?st"
    using assms by (auto simp: provide_inbox_message_eq running_iff has_exited_def)
  have "step_max_once apf tz env (Included 0) st = Some (Running 1, ?st)"
    using assms ok by (simp add: step_max_once_def)
  then show ?thesis
    using stepper_loop_spent [OF ok(2,3), of "Included 0" 1 apf tz env]
    by (simp add: stepper_step_max_def stepper_loop.simps [of apf tz env 0] USIZE_MAX_def saturating_add_def u64_max_def)
qed

section \<open>A small example\<close>

lemma message_taken:
  assumes inv: "memory_inv (main_memory c)" and "unat (xregister_read c x10) \<le> TOTAL_BYTES (main_memory c)"
  shows "\<exists>c'. sbi_wrap tz c (input_write tz c lvl counter payload) = Some c'"
proof -
  define bs where "bs = take (min (min (length payload) (unat (xregister_read c x11))) (MAX_INPUT_MESSAGE_SIZE tz)) payload"
  have "mem_write_all (main_memory c) (xregister_read c x10) bs = Inl BadMemoryAccess \<or>
      mem_write_all (main_memory c) (xregister_read c x10) bs = Inr (overwrite (main_memory c) (unat (xregister_read c x10)) bs)"
    using assms by (cases "bs = []") (auto simp: mem_write_all_bytes write_ok_def in_memory_def range_allowed_def)
  then show ?thesis
  proof
    assume "mem_write_all (main_memory c) (xregister_read c x10) bs = Inl BadMemoryAccess"
    then show ?thesis
      by (simp add: sbi_wrap_def input_write_def Let_def sbi_bind_def sbi_update_def sbi_error_from_def bs_def [symmetric])
  next
    assume "mem_write_all (main_memory c) (xregister_read c x10) bs = Inr (overwrite (main_memory c) (unat (xregister_read c x10)) bs)"
    then show ?thesis using inv
      by (simp add: sbi_wrap_def input_write_def Let_def sbi_bind_def sbi_update_def sbi_return_def sbi_error_from_def bs_def [symmetric] mem_write_eq)
  qed
qed

text \<open>A stepper whose inbox is the list of the messages to come.\<close>

definition demo_env :: "(u32 \<times> u32 \<times> u8 list) list stepper_env" where
  "demo_env = \<lparr>inbox_next = (\<lambda>ms. case ms of [] \<Rightarrow> (None, []) | m # ms \<Rightarrow> (Some m, ms)), preimage_hash_size = 33\<rparr>"

definition demo_stepper :: "pvm_status \<Rightarrow> (u32 \<times> u32 \<times> u8 list) list stepper" where
  "demo_stepper status =
     \<lparr>stepper_pvm = demo_pvm\<lparr>pvm_state := status\<rparr>, stepper_inbox = [(7, 9, [1, 2, 3])],
      stepper_reveals = \<lparr>responses = Map.empty, preimages_dir = None\<rparr>\<rparr>"

lemma demo_stepper_simps [simp]:
  "stepper_pvm (demo_stepper status) = demo_pvm\<lparr>pvm_state := status\<rparr>" "stepper_inbox (demo_stepper status) = [(7, 9, [1, 2, 3])]"
  "inbox_next demo_env (m # ms) = (Some m, ms)" "has_exited (demo_pvm\<lparr>pvm_state := status\<rparr>) = None"
  by (simp_all add: demo_stepper_def demo_env_def has_exited_def demo_pvm_def pvm_new_def supervisor_new_def)

lemma demo_stepper_wf: "stepper_wf (demo_stepper status)"
  using demo_pvm_inv(2) by simp

lemma demo_message:
  "\<exists>p'. provide_inbox_message demo_tezos (demo_pvm\<lparr>pvm_state := WaitingForInput\<rparr>) 7 9 [1, 2, 3] = Some (True, p')"
proof -
  have "xregister_read (core demo_state) x10 = 0"
    by (simp add: demo_state_def machine_new_def hart_new_def xregister_read_def xregisters_read_def xregisters_new_def is_zero_def xregister_repr_def)
  then show ?thesis
    using message_taken [of "core demo_state" demo_tezos 7 9 "[1, 2, 3]"] demo_pvm_inv(1)
    by (auto simp: provide_inbox_message_eq machine_inv_def core_inv_def)
qed

theorem step_max_exceeds_bound_witness:
  "\<exists>st. stepper_step_max sample_apf demo_tezos demo_env (Included 0) (demo_stepper WaitingForInput) = Some (Running 1, st)"
  using demo_message step_max_exceeds_bound [OF demo_stepper_wf, of WaitingForInput demo_env 7 9 "[1, 2, 3]" "[]" demo_tezos]
  by auto

theorem try_step_exact_witness:
  "\<exists>st. try_step sample_apf demo_tezos demo_env (demo_stepper WaitingForInput) = Some (True, st) \<and>
     tick (stepper_pvm st) = tick demo_pvm + 1 \<and> pvm_state (stepper_pvm st) = Evaluating \<and> stepper_inbox st = [] \<and>
     provide_inbox_message demo_tezos (demo_pvm\<lparr>pvm_state := WaitingForInput\<rparr>) 7 9 [1, 2, 3] = Some (True, stepper_pvm st)"
proof -
  obtain st where "try_step sample_apf demo_tezos demo_env (demo_stepper WaitingForInput) = Some (True, st)"
    using demo_message by (fastforce simp: try_step_def step_max_once_def Let_def)
  with try_step_exact [OF demo_stepper_wf this] obtain q where "st = (demo_stepper WaitingForInput)\<lparr>stepper_pvm := q, stepper_inbox := []\<rparr>"
      "provide_inbox_message demo_tezos (demo_pvm\<lparr>pvm_state := WaitingForInput\<rparr>) 7 9 [1, 2, 3] = Some (True, q)"
      "tick q = tick demo_pvm + 1" "pvm_state q = Evaluating"
      "try_step sample_apf demo_tezos demo_env (demo_stepper WaitingForInput) = Some (True, st)"
    by (auto simp: Let_def stepped_def)
  then show ?thesis by (intro exI [of _ st]) simp
qed

theorem stepper_is_single_steps_witness:
  "\<exists>st st'. stepper_step_max sample_apf demo_tezos demo_env (Included 0) (demo_stepper Evaluating) = Some (Running 0, st) \<and>
     try_steps sample_apf demo_tezos demo_env 0 (demo_stepper Evaluating) = Some st' \<and> stepper_pvm st' = stepper_pvm st"
proof -
  have "stepper_step_max sample_apf demo_tezos demo_env (Included 0) (demo_stepper Evaluating) = Some (Running 0, demo_stepper Evaluating)"
    unfolding stepper_step_max_def by (rule stepper_loop_spent [OF _ demo_stepper_wf]) (simp_all add: running_iff)
  then show ?thesis
    using stepper_is_single_steps [OF demo_stepper_wf, of "Included 0" sample_apf demo_tezos demo_env Evaluating]
    by (auto simp: USIZE_MAX_def)
qed

end
