(* ===== verification/Kernel_Loader_Correct.thy ===== *)
theory Kernel_Loader_Correct
  imports Kernel_Loader
begin

text \<open>
  What the loader writes. The trait \<^verbatim>\<open>Memory\<close> is a locale: the bytes that a memory defines after a write to a range
  that was free. Inside it, loading segments that do not overlap gives the bytes of the file followed by zeros.
  The segments of a program are an instance.
\<close>

section \<open>The image of a file\<close>

lemma fallible_then_simps [simp]:
  "fallible_then (Okay x) k = k x" "fallible_then (Failed e) k = Failed e" "fallible_then Panicked k = Panicked"
  by (simp_all add: fallible_then_def)

lemma or_panic_simps [simp]: "or_panic (Some x) = Okay x" "or_panic None = Panicked"
  by (simp_all add: or_panic_def)

definition load_address :: "u64 option \<Rightarrow> program_header \<Rightarrow> u64" where
  "load_address reloc h = (case reloc of Some start \<Rightarrow> start + p_vaddr h | None \<Rightarrow> p_paddr h)"

text \<open>The number of bytes a segment occupies, and the byte it defines at an address.\<close>

definition segment_size :: "program_header \<Rightarrow> nat" where
  "segment_size h = max (unat (p_filesz h)) (unat (p_memsz h))"

definition segment_image :: "u64 option \<Rightarrow> u8 list \<Rightarrow> program_header \<Rightarrow> nat \<Rightarrow> u8 option" where
  "segment_image reloc contents h a =
     (let base = unat (load_address reloc h)
      in if base \<le> a \<and> a < base + unat (p_filesz h) then Some (contents ! (unat (p_offset h) + (a - base)))
         else if base \<le> a \<and> a < base + segment_size h then Some 0
         else None)"

fun file_image :: "u64 option \<Rightarrow> u8 list \<Rightarrow> program_header list \<Rightarrow> nat \<Rightarrow> u8 option" where
  "file_image reloc contents [] a = None"
| "file_image reloc contents (h # hs) a =
     (case segment_image reloc contents h a of Some b \<Rightarrow> Some b | None \<Rightarrow> file_image reloc contents hs a)"

text \<open>A segment lies in the file and in the address space; segments do not overlap.\<close>

definition segment_ok :: "u64 option \<Rightarrow> u8 list \<Rightarrow> program_header \<Rightarrow> bool" where
  "segment_ok reloc contents h \<longleftrightarrow>
     unat (p_offset h) + unat (p_filesz h) \<le> length contents \<and>
     unat (load_address reloc h) + segment_size h < 2 ^ 64"

definition segments_apart :: "u64 option \<Rightarrow> program_header \<Rightarrow> program_header \<Rightarrow> bool" where
  "segments_apart reloc h h' \<longleftrightarrow>
     unat (load_address reloc h) + segment_size h \<le> unat (load_address reloc h') \<or>
     unat (load_address reloc h') + segment_size h' \<le> unat (load_address reloc h)"

definition segments_fit :: "u64 option \<Rightarrow> u8 list \<Rightarrow> program_header list \<Rightarrow> bool" where
  "segments_fit reloc contents hs \<longleftrightarrow> (\<forall>h\<in>set hs. segment_ok reloc contents h) \<and> sorted_wrt (segments_apart reloc) hs"

lemma case_option_None_id [simp]: "(case x of None \<Rightarrow> None | Some b \<Rightarrow> Some b) = x"
  by (cases x) simp_all

lemma segment_image_None:
  "segment_image reloc contents h a = None \<longleftrightarrow>
     \<not> (unat (load_address reloc h) \<le> a \<and> a < unat (load_address reloc h) + segment_size h)"
  by (auto simp: segment_image_def Let_def segment_size_def)

lemma apart_image:
  assumes "segments_apart reloc h h'"
  shows "segment_image reloc contents h a = None \<or> segment_image reloc contents h' a = None"
  using assms unfolding segment_image_None segments_apart_def by linarith

section \<open>Memories\<close>

text \<open>The bytes that a range defines, over what was there.\<close>

definition written :: "u64 \<Rightarrow> u8 list \<Rightarrow> (nat \<Rightarrow> u8 option) \<Rightarrow> nat \<Rightarrow> u8 option" where
  "written p bs f a = (if unat p \<le> a \<and> a < unat p + length bs then Some (bs ! (a - unat p)) else f a)"

lemma written_Nil [simp]: "written p [] f = f"
  by (auto simp: written_def fun_eq_iff)

locale loader_memory =
  fixes wb :: "'m loader_write" and inv :: "'m \<Rightarrow> bool" and image :: "'m \<Rightarrow> nat \<Rightarrow> u8 option"
  assumes wb_Nil: "wb p [] m = Okay m"
    and wb_fresh: "inv m \<Longrightarrow> bs \<noteq> [] \<Longrightarrow> unat p + length bs < 2 ^ 64 \<Longrightarrow>
      (\<And>a. unat p \<le> a \<Longrightarrow> a < unat p + length bs \<Longrightarrow> image m a = None) \<Longrightarrow>
      \<exists>m'. wb p bs m = Okay m' \<and> inv m' \<and> image m' = written p bs (image m)"
begin

lemma wb_free:
  assumes "inv m" and "unat p + length bs < 2 ^ 64" and "\<And>a. unat p \<le> a \<Longrightarrow> a < unat p + length bs \<Longrightarrow> image m a = None"
  shows "\<exists>m'. wb p bs m = Okay m' \<and> inv m' \<and> image m' = written p bs (image m)"
  using wb_Nil wb_fresh [OF assms(1) _ assms(2,3)] assms(1) by (cases "bs = []") simp_all

lemma load_segment_free:
  assumes "inv m" and ok: "segment_ok reloc contents h"
    and free: "\<And>a. segment_image reloc contents h a \<noteq> None \<Longrightarrow> image m a = None"
  shows "\<exists>m'. load_segment wb contents (load_address reloc h) h m = Okay m' \<and> inv m' \<and>
    image m' = (\<lambda>a. case segment_image reloc contents h a of Some b \<Rightarrow> Some b | None \<Rightarrow> image m a)"
proof -
  define p n k c where "p = load_address reloc h" and "n = unat (p_filesz h)" and "k = unat (p_memsz h) - n"
    and "c = take n (drop (unat (p_offset h)) contents)"
  have size: "segment_size h = n + k" by (simp add: segment_size_def n_def k_def)
  have c: "slice_of contents (unat (p_offset h)) (unat (p_filesz h)) = Some c" "length c = n"
    using ok by (auto simp: segment_ok_def slice_of_def c_def n_def)
  have fit: "unat p + n + k < 2 ^ 64" using ok by (simp add: segment_ok_def size p_def)
  have free': "image m a = None" if "unat p \<le> a" "a < unat p + n + k" for a
    using free [of a] that by (simp add: segment_image_None size p_def)
  from wb_free [OF assms(1), of p c] fit free' c(2)
  obtain m1 where m1: "wb p c m = Okay m1" "inv m1" "image m1 = written p c (image m)" by auto
  have q: "unat (p + p_filesz h) = unat p + n" using fit by (simp add: unat_word_ariths n_def)
  have z: "unat (p_memsz h - p_filesz h) = k" if "p_filesz h < p_memsz h"
    using that by (simp add: unat_sub word_less_nat_alt word_le_nat_alt k_def n_def)
  have "\<exists>m2. wb (p + p_filesz h) (replicate k 0) m1 = Okay m2 \<and> inv m2 \<and>
      image m2 = written (p + p_filesz h) (replicate k 0) (image m1)"
    using fit free' q c(2) by (intro wb_free m1(2)) (auto simp: m1(3) written_def)
  then obtain m2 where m2: "wb (p + p_filesz h) (replicate k 0) m1 = Okay m2" "inv m2"
    "image m2 = written (p + p_filesz h) (replicate k 0) (image m1)" by blast
  have k: "k = 0" if "\<not> p_filesz h < p_memsz h" using that by (simp add: k_def n_def word_less_nat_alt)
  have "load_segment wb contents p h m = Okay m2"
  proof (cases "p_filesz h < p_memsz h")
    case True
    then show ?thesis using c m1 m2 z by (simp add: load_segment_def set_zero_def Let_def less_imp_triv not_less_iff_gr_or_eq)
  next
    case False
    then show ?thesis using c m1 m2 k wb_Nil by (simp add: load_segment_def)
  qed
  moreover have "image m2 a = (case segment_image reloc contents h a of Some b \<Rightarrow> Some b | None \<Rightarrow> image m a)" for a
  proof -
    have "c ! (a - unat p) = contents ! (unat (p_offset h) + (a - unat p))" if "a - unat p < n"
      using that ok by (simp add: c_def segment_ok_def n_def)
    then show ?thesis
      unfolding m2(3) m1(3) written_def segment_image_def Let_def size q length_replicate c(2) p_def [symmetric] n_def [symmetric]
      by auto
  qed
  ultimately show ?thesis using m2(2) unfolding p_def by blast
qed

lemma load_segments_free:
  assumes "inv m" and "segments_fit reloc contents hs"
    and "\<And>a h. h \<in> set hs \<Longrightarrow> segment_image reloc contents h a \<noteq> None \<Longrightarrow> image m a = None"
  shows "\<exists>m'. load_segments wb reloc contents hs perms m = Okay (perms @ map (from_load_segment reloc) hs, m') \<and> inv m' \<and>
    image m' = (\<lambda>a. case file_image reloc contents hs a of Some b \<Rightarrow> Some b | None \<Rightarrow> image m a)"
  using assms
proof (induction hs arbitrary: m perms)
  case (Cons h hs)
  have h: "segment_ok reloc contents h" and rest: "segments_fit reloc contents hs" and ap: "\<forall>h'\<in>set hs. segments_apart reloc h h'"
    using Cons.prems(2) by (simp_all add: segments_fit_def)
  from load_segment_free [OF Cons.prems(1) h Cons.prems(3) [OF list.set_intros(1)]] obtain m1
    where m1: "load_segment wb contents (load_address reloc h) h m = Okay m1" "inv m1"
      "image m1 = (\<lambda>a. case segment_image reloc contents h a of Some b \<Rightarrow> Some b | None \<Rightarrow> image m a)" by auto
  have free: "image m1 a = None" if "h' \<in> set hs" "segment_image reloc contents h' a \<noteq> None" for a h'
  proof -
    have "segment_image reloc contents h a = None"
      using apart_image [of reloc h h' contents a] ap that by auto
    then show ?thesis using Cons.prems(3) [of h' a] that m1(3) by simp
  qed
  have "\<exists>m'. load_segments wb reloc contents hs (perms @ [from_load_segment reloc h]) m1 =
      Okay ((perms @ [from_load_segment reloc h]) @ map (from_load_segment reloc) hs, m') \<and> inv m' \<and>
    image m' = (\<lambda>a. case file_image reloc contents hs a of Some b \<Rightarrow> Some b | None \<Rightarrow> image m1 a)"
    by (rule Cons.IH [OF m1(2) rest free])
  then obtain m' where "load_segments wb reloc contents hs (perms @ [from_load_segment reloc h]) m1 =
      Okay (perms @ map (from_load_segment reloc) (h # hs), m')" "inv m'"
    "image m' = (\<lambda>a. case file_image reloc contents hs a of Some b \<Rightarrow> Some b | None \<Rightarrow> image m1 a)" by auto
  moreover have "file_image reloc contents hs a = None" if "segment_image reloc contents h a = Some b" for a b
    using ap that
  proof (induction hs)
    case (Cons h' hs)
    then have "segment_image reloc contents h' a = None"
      using apart_image [of reloc h h' contents a] by simp
    with Cons show ?case by simp
  qed simp
  ultimately show ?case using m1 by (auto simp: Let_def fun_eq_iff simp flip: load_address_def split: option.split)
qed (simp add: fun_eq_iff)

end

section \<open>The segments of a program\<close>

lemma lost_occupied:
  assumes "lost p segs a"
  shows "image_of segs (unat p) \<noteq> None"
proof -
  from assms obtain c where "c \<in> set segs" "fst c < p" "in_chunk a c" "unat p \<le> a" by (auto simp: lost_def)
  then have "in_chunk (unat p) c" by (simp add: in_chunk_def word_less_nat_alt)
  then show ?thesis using \<open>c \<in> set segs\<close> by (auto simp: image_of_None)
qed

interpretation program_segments: loader_memory program_memory segments_ok image_of
proof
  show "program_memory p [] m = Okay m" for p m
    by (simp add: program_memory_def program_write_bytes_def)
  fix m :: segments and p :: u64 and bs :: "u8 list"
  assume ok: "segments_ok m" and bs: "bs \<noteq> []" and fit: "unat p + length bs < 2 ^ 64"
    and free: "\<And>a. unat p \<le> a \<Longrightarrow> a < unat p + length bs \<Longrightarrow> image_of m a = None"
  have "\<not> lost p m a" for a using lost_occupied [of p m a] free [of "unat p"] bs by auto
  with write_bytes_image [OF ok bs fit]
  show "\<exists>m'. program_memory p bs m = Okay m' \<and> segments_ok m' \<and> image_of m' = written p bs (image_of m)"
    by (auto simp: program_memory_def written_def fun_eq_iff)
qed

section \<open>Programs\<close>

text \<open>The files that load without relocations: executables, and shared objects whose dynamic table names none.\<close>

definition position :: "elf_bytes \<Rightarrow> u64 option" where
  "position elf = (if e_type (ehdr elf) = ET_EXEC then None else Some FIRST_ADDRESS)"

definition loads_plainly :: "elf_bytes \<Rightarrow> bool" where
  "loads_plainly elf \<longleftrightarrow>
     e_type (ehdr elf) = ET_EXEC \<or>
     e_type (ehdr elf) = ET_DYN \<and> (case find_relas (dynamic_infos elf) None None of (Some _, Some _) \<Rightarrow> False | _ \<Rightarrow> True)"

definition headers_fit :: "elf_bytes \<Rightarrow> u8 list \<Rightarrow> bool" where
  "headers_fit elf contents \<longleftrightarrow>
     unat (e_phoff (ehdr elf)) + unat (e_phentsize (ehdr elf)) * unat (e_phnum (ehdr elf)) \<le> length contents"

lemma extract_program_headers_fit:
  assumes "headers_fit elf contents"
  shows "\<exists>c. extract_program_headers (ehdr elf) contents perms =
    Some \<lparr>entry_size = ucast (e_phentsize (ehdr elf)), num_entries = ucast (e_phnum (ehdr elf)), ph_contents = c, ph_permissions = perms\<rparr>"
  using assms by (simp add: extract_program_headers_def slice_of_def headers_fit_def Let_def)

text \<open>
  A file with program segments that lie in it, in the address space and apart from each other, and that needs no
  relocation, loads. The program starts at the entry point of the file; its segments are in order and do not overlap; at
  every address they define the byte of the file that a segment maps there, zero where a segment is larger in memory
  than in the file, and nothing elsewhere; the permissions are those of the segments, in order.
\<close>

lemma elf_program:
  assumes "minimal_parse env contents = Some elf" and "loads_plainly elf"
    and "segments_fit (position elf) contents (loadable_segments elf)" and "headers_fit elf contents"
  shows "\<exists>prog ph. from_elf env contents = Okay prog \<and> entrypoint prog = e_entry (ehdr elf) \<and>
    segments_ok (segments_of prog) \<and>
    (\<forall>a. image_of (segments_of prog) a = file_image (position elf) contents (loadable_segments elf) a) \<and>
    program_headers prog = Some ph \<and>
    ph_permissions ph = map (from_load_segment (position elf)) (loadable_segments elf)"
proof -
  let ?hs = "loadable_segments elf" and ?r = "position elf"
  have "segments_ok []" and Nil: "image_of [] = (\<lambda>a. None)" by (simp_all add: image_of_def fun_eq_iff)
  then have "segments_ok []" "image_of [] a = None" for a by simp_all
  from program_segments.load_segments_free [OF this(1) assms(3) this(2), of "[]"]
  obtain segs where segs: "load_segments program_memory ?r contents ?hs [] [] = Okay (map (from_load_segment ?r) ?hs, segs)"
    "segments_ok segs" "\<forall>a. image_of segs a = file_image ?r contents ?hs a"
    unfolding Nil by auto
  from extract_program_headers_fit [OF assms(4)] obtain c
    where c: "extract_program_headers (ehdr elf) contents (map (from_load_segment ?r) ?hs) =
      Some \<lparr>entry_size = ucast (e_phentsize (ehdr elf)), num_entries = ucast (e_phnum (ehdr elf)), ph_contents = c,
            ph_permissions = map (from_load_segment ?r) ?hs\<rparr>" by blast
  have "load_elf env program_memory FIRST_ADDRESS contents [] =
    Okay (\<lparr>entry = e_entry (ehdr elf), lr_program_headers = the (extract_program_headers (ehdr elf) contents (map (from_load_segment ?r) ?hs))\<rparr>, segs)"
  proof (cases "e_type (ehdr elf) = ET_EXEC")
    case True
    then show ?thesis using assms(1) segs(1) c by (simp add: load_elf_def load_elf_nonreloc_def position_def)
  next
    case False
    with assms(2) have dyn: "e_type (ehdr elf) = ET_DYN"
      and rel: "case find_relas (dynamic_infos elf) None None of (Some _, Some _) \<Rightarrow> False | _ \<Rightarrow> True"
      by (simp_all add: loads_plainly_def)
    show ?thesis
      using assms(1) segs(1) c dyn False rel
      by (auto simp: load_elf_def load_elf_reloc_def position_def FIRST_ADDRESS_def split: option.splits prod.splits)
  qed
  then show ?thesis using segs c by (simp add: from_elf_def)
qed

text \<open>An executable of four bytes of code and four of zeroed data, in a file of six bytes.\<close>

definition sample_elf :: elf_bytes where
  "sample_elf =
     \<lparr>ehdr = \<lparr>e_type = ET_EXEC, e_entry = 16, e_phoff = 0, e_phentsize = 1, e_phnum = 2\<rparr>,
      elf_segments = Some [\<lparr>p_type = PT_LOAD, p_offset = 2, p_vaddr = 16, p_paddr = 16, p_filesz = 4, p_memsz = 8, p_flags = 5\<rparr>],
      elf_dynamic = None\<rparr>"

definition sample_env :: elf_env where
  "sample_env = \<lparr>minimal_parse = (\<lambda>_. Some sample_elf), rela_iterator = (\<lambda>_. [])\<rparr>"

lemma sample_elf_fits:
  "loads_plainly sample_elf" "position sample_elf = None" "headers_fit sample_elf [0, 0, 1, 2, 3, 4]"
  "segments_fit None [0, 0, 1, 2, 3, 4] (loadable_segments sample_elf)"
  "file_image None [0, 0, 1, 2, 3, 4] (loadable_segments sample_elf) 19 = Some 4"
  by (simp_all add: loads_plainly_def position_def headers_fit_def segments_fit_def segment_ok_def loadable_segments_def
      sample_elf_def segment_size_def load_address_def segment_image_def)

lemma sample_elf_program:
  "from_elf sample_env [0, 0, 1, 2, 3, 4] =
     Okay \<lparr>entrypoint = 16, segments_of = [(16, [1, 2, 3, 4]), (20, [0, 0, 0, 0])],
       program_headers = Some \<lparr>entry_size = 1, num_entries = 2, ph_contents = [0, 0],
         ph_permissions = [\<lparr>start_address = 16, mp_length = 8,
           mp_permissions = \<lparr>perm_read = True, perm_write = False, perm_exec = True\<rparr>\<rparr>]\<rparr>\<rparr>"
  by code_simp

section \<open>Relocations\<close>

text \<open>
  C39: A relocation inside a segment, but not at its start, writes its eight bytes and keeps what is before them, yet drops
  the rest of the segment: the segments no longer define any byte between the relocation and the end of the segment.
\<close>

theorem relocation_drops_tail:
  assumes ok: "segments_ok segs" and c: "c \<in> set segs" and rela: "r_type rela = R_RISCV_RELATIVE"
    and p: "fst c < start + r_offset rela" "unat (start + r_offset rela) + 8 \<le> chunk_end c"
  shows "\<exists>segs'. apply_relas program_memory start [rela] segs = Okay segs' \<and>
    (\<forall>a. in_chunk a c \<longrightarrow> image_of segs' a =
       (let p = unat (start + r_offset rela)
        in if a < p then Some (snd c ! (a - unat (fst c)))
           else if a < p + 8 then Some (to_le_bytes (start + r_addend rela) ! (a - p))
           else None))"
proof -
  let ?p = "start + r_offset rela" and ?bs = "to_le_bytes (start + r_addend rela)"
  have bs: "length ?bs = 8" by simp
  have "chunk_end c < 2 ^ 64" using ok c by (induction segs rule: segments_ok.induct) auto
  with p(2) bs have fit: "unat ?p + length ?bs < 2 ^ 64" by linarith
  have "?bs \<noteq> []" using bs by (metis length_0_conv zero_neq_numeral)
  from write_bytes_image [OF ok this fit] obtain segs' where segs': "program_write_bytes ?p ?bs segs = Some segs'"
    and image: "\<forall>a. image_of segs' a = (if unat ?p \<le> a \<and> a < unat ?p + length ?bs then Some (?bs ! (a - unat ?p))
       else if lost ?p segs a then None else image_of segs a)" by blast
  have "image_of segs a = Some (snd c ! (a - unat (fst c)))" if "in_chunk a c" for a
    using image_of_iff [OF ok] segments_ok_ordered [OF ok] c that by (cases c) (auto simp: strict_sorted_iff)
  moreover have "lost ?p segs a" if "in_chunk a c" "unat ?p \<le> a" for a using c p(1) that by (auto simp: lost_def)
  moreover have "\<not> lost ?p segs a" if "a < unat ?p" for a using that by (simp add: lost_def)
  ultimately have "image_of segs' a = (let p = unat ?p in if a < p then Some (snd c ! (a - unat (fst c)))
      else if a < p + 8 then Some (?bs ! (a - p)) else None)" if "in_chunk a c" for a
    using image that unfolding bs Let_def by (simp add: not_less)
  moreover have "apply_relas program_memory start [rela] segs = Okay segs'"
    using segs' rela by (simp add: program_memory_def Let_def)
  ultimately show ?thesis by blast
qed

theorem relocation_drops_tail_witness:
  "\<exists>segs'. apply_relas program_memory 0 [\<lparr>r_offset = 4, r_type = R_RISCV_RELATIVE, r_addend = 0x102\<rparr>]
       [(0, [1, 2, 3, 4, 5, 6, 7, 8, 9, 10, 11, 12, 13])] = Okay segs' \<and>
     image_of segs' 3 = Some 4 \<and> image_of segs' 5 = Some 1 \<and> image_of segs' 12 = None"
proof -
  let ?c = "(0 :: u64, [1, 2, 3, 4, 5, 6, 7, 8, 9, 10, 11, 12, 13] :: u8 list)"
    and ?r = "\<lparr>r_offset = 4, r_type = R_RISCV_RELATIVE, r_addend = 0x102\<rparr>"
  have "\<exists>segs'. apply_relas program_memory 0 [?r] [?c] = Okay segs' \<and>
    (\<forall>a. in_chunk a ?c \<longrightarrow> image_of segs' a =
       (let p = unat (0 + r_offset ?r) in if a < p then Some (snd ?c ! (a - unat (fst ?c)))
        else if a < p + 8 then Some (to_le_bytes (0 + r_addend ?r) ! (a - p)) else None))"
    by (rule relocation_drops_tail) (simp_all add: R_RISCV_RELATIVE_def)
  moreover have "in_chunk 3 ?c" "in_chunk 5 ?c" "in_chunk 12 ?c" by (simp_all add: in_chunk_def)
  moreover have "to_le_bytes (0x102 :: u64) ! 1 = 1" by code_simp
  ultimately show ?thesis by (auto simp: Let_def)
qed

end
