(* ===== verification/Process_Stack.thy ===== *)
theory Process_Stack
  imports Process_Setup Kernel_Loader_Correct Pvm_Correct Memory_Governance
begin

unbundle bit_operations_syntax

text \<open>
  The stack of a new process: pushing succeeds where memory from the stack pointer downwards is writable, keeps what is
  elsewhere, and leaves the arguments, the environment and the auxiliary vector as Linux programs expect them.
\<close>

section \<open>The stack\<close>

abbreviation stack_pointer :: "machine_core \<Rightarrow> nat" where
  "stack_pointer c \<equiv> unat (xregister_read c x2)"

text \<open>From \<open>b\<close> upwards memory is a stack: readable and writable, with the stack pointer in it.\<close>

definition stack_from :: "nat \<Rightarrow> machine_core \<Rightarrow> bool" where
  "stack_from b c \<longleftrightarrow>
     memory_inv (main_memory c) \<and> xregisters_inv (xregisters (hart c)) \<and> b \<le> stack_pointer c \<and> stack_pointer c \<le> TOTAL_BYTES (main_memory c) \<and>
     (\<forall>a. b \<le> a \<longrightarrow> a < TOTAL_BYTES (main_memory c) \<longrightarrow> writable_pages (main_memory c) ! (a div PAGE_SIZE))"

text \<open>Pushing moves the stack pointer down and writes only what is between its old and its new place.\<close>

definition stacked :: "machine_core \<Rightarrow> machine_core \<Rightarrow> bool" where
  "stacked c c' \<longleftrightarrow>
     pc (hart c') = pc (hart c) \<and> stack_pointer c' \<le> stack_pointer c \<and>
     (\<exists>d. main_memory c' = (main_memory c)\<lparr>data := d\<rparr> \<and>
          (\<forall>a. a < stack_pointer c' \<or> stack_pointer c \<le> a \<longrightarrow> d a = data (main_memory c) a))"

lemma stacked_refl: "stacked c c"
  by (auto simp: stacked_def intro!: exI [of _ "data (main_memory c)"])

lemma stacked_trans:
  assumes "stacked c c'" and "stacked c' c''"
  shows "stacked c c''"
proof -
  from assms obtain d d' where d: "main_memory c' = (main_memory c)\<lparr>data := d\<rparr>"
      "\<forall>a. a < stack_pointer c' \<or> stack_pointer c \<le> a \<longrightarrow> d a = data (main_memory c) a"
    and d': "main_memory c'' = (main_memory c')\<lparr>data := d'\<rparr>"
      "\<forall>a. a < stack_pointer c'' \<or> stack_pointer c' \<le> a \<longrightarrow> d' a = data (main_memory c') a"
    by (auto simp: stacked_def)
  have "\<forall>a. a < stack_pointer c'' \<or> stack_pointer c \<le> a \<longrightarrow> d' a = data (main_memory c) a"
    using assms d d' by (auto simp: stacked_def)
  with d(1) d'(1) assms show ?thesis by (auto simp: stacked_def intro!: exI [of _ d'])
qed

lemma stacked_kept:
  assumes "stacked c c'" and "a < stack_pointer c' \<or> stack_pointer c \<le> a"
  shows "data (main_memory c') a = data (main_memory c) a"
  using assms by (auto simp: stacked_def)

lemma xregister_read_write_sp:
  assumes "xregisters_inv (xregisters (hart c))"
  shows "xregister_read (xregister_write c x2 v) x2 = v" "xregisters_inv (xregisters (hart (xregister_write c x2 v)))"
  using assms xregisters_read_write [OF assms] by (simp_all add: is_zero_def xregister_read_def xregister_write_def)

lemma memory_set_memory [simp]:
  "xregister_read (c\<lparr>main_memory := m\<rparr>) r = xregister_read c r"
  "main_memory (xregister_write c r v) = main_memory c"
  by (simp_all add: xregister_read_def xregister_write_def)

lemma aligned_sub: "0 < k \<Longrightarrow> unat (u64_saturating_sub s (s mod k)) = unat s - unat s mod unat k"
  by (simp add: align_down_eq [unfolded align_down_def rem_euclid_def Let_def])

lemma push_stack_ok:
  assumes "stack_from b c" and "0 < al" and "b + unat al + length bs \<le> stack_pointer c"
  shows "\<exists>p c'. push_stack al bs c = Inr (p, c') \<and> stacked c c' \<and> stack_from b c' \<and> p = xregister_read c' x2 \<and>
    unat p + length bs = stack_pointer c - stack_pointer c mod unat al \<and> bytes_of (main_memory c') p (length bs) = bs"
proof -
  let ?s = "xregister_read c x2" and ?m = "main_memory c"
  let ?t = "u64_saturating_sub ?s (?s mod al)"
  define p where "p = u64_saturating_sub ?t (of_nat (length bs))"
  have al: "unat ?s mod unat al < unat al" using assms(2) by (simp add: word_less_nat_alt)
  have t: "unat ?t = unat ?s - unat ?s mod unat al" by (rule aligned_sub [OF assms(2)])
  have len: "length bs \<le> unat ?t" using assms(3) al t by linarith
  moreover have "unat ?t < 2 ^ LENGTH(64)" by (rule unsigned_less)
  ultimately have "unat (of_nat (length bs) :: u64) = length bs" by (simp add: unat_of_nat)
  with len have p: "unat p = unat ?t - length bs" by (simp add: p_def u64_saturating_sub_def word_less_nat_alt unat_sub word_le_nat_alt)
  have inv: "memory_inv ?m" and regs: "xregisters_inv (xregisters (hart c))" and top: "unat ?s \<le> TOTAL_BYTES ?m"
    and wr: "\<forall>a. b \<le> a \<longrightarrow> a < TOTAL_BYTES ?m \<longrightarrow> writable_pages ?m ! (a div PAGE_SIZE)"
    using assms(1) by (auto simp: stack_from_def)
  have below: "unat p + length bs = unat ?t" "unat ?t \<le> unat ?s" "b \<le> unat p"
    using p len t al assms(3) by auto
  have "write_ok (length bs) ?m p"
    using below top wr by (auto simp: write_ok_def in_memory_def range_allowed_def)
  then have w: "mem_write_all ?m p bs = Inr (overwrite ?m (unat p) bs)"
    using mem_write_all_bytes [OF inv, of p bs] below top by auto
  define c' where "c' = (xregister_write c x2 p)\<lparr>main_memory := overwrite ?m (unat p) bs\<rparr>"
  have "push_stack al bs c = Inr (p, c')"
    using w by (simp add: push_stack_def Let_def p_def [symmetric] core_memory_def c'_def)
  moreover have "stacked c c'"
    using below xregister_read_write_sp(1) [OF regs] by (auto simp: stacked_def c'_def overwrite_def xregister_write_def)
  moreover have "stack_from b c'" using assms(1) below xregister_read_write_sp [OF regs] by (auto simp: stack_from_def c'_def)
  moreover have "bytes_of (main_memory c') p (length bs) = bs" by (simp add: c'_def bytes_of_overwrite_same)
  ultimately show ?thesis using below t xregister_read_write_sp(1) [OF regs] by (auto simp: c'_def)
qed

text \<open>Words are stacked next to each other, the last at the lowest address.\<close>

lemma push_words_append: "push_words (vs @ ws) c = try_bind (push_words vs c) (push_words ws)"
  by (induction vs arbitrary: c) (simp_all add: try_bind_def split: sum.split)

lemma push_word_words: "push_word v = push_words [v]"
  by (simp add: fun_eq_iff try_bind_def split: sum.split)

lemma push_auxv_words: "push_auxv auxv c = push_words (concat (map (\<lambda>(k, v). [v, aux_key_code k]) auxv)) c"
  by (induction auxv arbitrary: c) (auto simp: try_bind_def split: sum.split)

lemma bytes_of_append: "bytes_of m p (i + j) = bytes_of m p i @ map (\<lambda>k. data m (unat p + i + k)) [0..<j]"
  by (rule nth_equalityI) (auto simp: bytes_of_def nth_append add.assoc)

lemma push_words_ok:
  assumes "stack_from b c" and "8 dvd stack_pointer c" and "b + 8 + 8 * length vs \<le> stack_pointer c"
  shows "\<exists>c'. push_words vs c = Inr c' \<and> stacked c c' \<and> stack_from b c' \<and>
    stack_pointer c' + 8 * length vs = stack_pointer c \<and>
    bytes_of (main_memory c') (xregister_read c' x2) (8 * length vs) = concat (map to_le_bytes (rev vs))"
  using assms
proof (induction vs arbitrary: c)
  case Nil
  then show ?case by (auto simp: stacked_refl bytes_of_def)
next
  case (Cons v vs)
  have "length (to_le_bytes v) = 8" by simp
  with push_stack_ok [of b c 8 "to_le_bytes v"] Cons.prems obtain p c1 where c1: "push_stack 8 (to_le_bytes v) c = Inr (p, c1)"
    "stacked c c1" "stack_from b c1" "p = xregister_read c1 x2" "unat p + 8 = stack_pointer c"
    "bytes_of (main_memory c1) p 8 = to_le_bytes v" by auto
  have "8 dvd stack_pointer c1" using Cons.prems(2) c1(4,5) by (metis dvd_add_left_iff dvd_refl)
  with Cons.IH [OF c1(3)] Cons.prems(3) c1(4,5)
  obtain c2 where c2: "push_words vs c1 = Inr c2" "stacked c1 c2" "stack_from b c2"
    "stack_pointer c2 + 8 * length vs = stack_pointer c1"
    "bytes_of (main_memory c2) (xregister_read c2 x2) (8 * length vs) = concat (map to_le_bytes (rev vs))" by auto
  have "map (\<lambda>k. data (main_memory c2) (stack_pointer c2 + 8 * length vs + k)) [0..<8] = bytes_of (main_memory c1) p 8"
    using c1(4) c2(4) stacked_kept [OF c2(2)] by (auto simp: bytes_of_def)
  then have "bytes_of (main_memory c2) (xregister_read c2 x2) (8 * length vs + 8) = concat (map to_le_bytes (rev (v # vs)))"
    using c1(6) c2(5) by (simp add: bytes_of_append)
  moreover have "push_words (v # vs) c = Inr c2" using c1(1) c2(1) by (simp add: push_word_def)
  ultimately show ?case using c1 c2 stacked_trans [OF c1(2) c2(2)] by (auto simp: add.commute)
qed

text \<open>The first word is stacked at the next lower multiple of eight.\<close>

lemma push_words_any:
  assumes "stack_from b c" and "vs \<noteq> []" and "b + 16 + 8 * length vs \<le> stack_pointer c"
  shows "\<exists>c'. push_words vs c = Inr c' \<and> stacked c c' \<and> stack_from b c' \<and> 8 dvd stack_pointer c' \<and>
    bytes_of (main_memory c') (xregister_read c' x2) (8 * length vs) = concat (map to_le_bytes (rev vs))"
proof -
  obtain v ws where vs: "vs = v # ws" using assms(2) by (cases vs) auto
  have "length (to_le_bytes v) = 8" by simp
  with push_stack_ok [of b c 8 "to_le_bytes v"] assms obtain p c1 where c1: "push_stack 8 (to_le_bytes v) c = Inr (p, c1)"
    "stacked c c1" "stack_from b c1" "p = xregister_read c1 x2" "unat p + 8 = stack_pointer c - stack_pointer c mod 8"
    "bytes_of (main_memory c1) p 8 = to_le_bytes v" unfolding vs by auto
  have dvd: "8 dvd stack_pointer c1" using c1(4,5) by (metis dvd_add_left_iff dvd_minus_mod dvd_refl)
  have "stack_pointer c mod 8 < 8" by simp
  then have "b + 8 + 8 * length ws \<le> stack_pointer c1" using assms(3) c1(4,5) vs by auto
  from push_words_ok [OF c1(3) dvd this] obtain c2 where c2: "push_words ws c1 = Inr c2" "stacked c1 c2" "stack_from b c2"
    "stack_pointer c2 + 8 * length ws = stack_pointer c1"
    "bytes_of (main_memory c2) (xregister_read c2 x2) (8 * length ws) = concat (map to_le_bytes (rev ws))" by auto
  have "map (\<lambda>k. data (main_memory c2) (stack_pointer c2 + 8 * length ws + k)) [0..<8] = bytes_of (main_memory c1) p 8"
    using c1(4) c2(4) stacked_kept [OF c2(2)] by (auto simp: bytes_of_def)
  then have "bytes_of (main_memory c2) (xregister_read c2 x2) (8 * length ws + 8) = concat (map to_le_bytes (rev vs))"
    using c1(6) c2(5) by (simp add: bytes_of_append vs)
  moreover have "push_words vs c = Inr c2" using c1(1) c2(1) by (simp add: push_word_def vs)
  moreover have "8 dvd stack_pointer c2" using dvd c2(4) by (metis dvd_add_left_iff dvd_triv_left)
  ultimately show ?thesis using c1 c2 stacked_trans [OF c1(2) c2(2)] by (auto simp: vs add.commute)
qed

text \<open>A string that lies in memory, between two addresses.\<close>

definition string_at :: "memory \<Rightarrow> nat \<Rightarrow> nat \<Rightarrow> u64 \<Rightarrow> u8 list \<Rightarrow> bool" where
  "string_at m lo hi p s \<longleftrightarrow> lo \<le> unat p \<and> unat p + length s \<le> hi \<and> bytes_of m p (length s) = s"

lemma string_at_stacked:
  assumes "stacked c c'" and "string_at (main_memory c) lo hi p s" and "stack_pointer c \<le> lo" and "lo' \<le> lo" and "hi \<le> hi'"
  shows "string_at (main_memory c') lo' hi' p s"
proof -
  have "bytes_of (main_memory c') p (length s) = bytes_of (main_memory c) p (length s)"
    using assms stacked_kept [OF assms(1)] by (auto simp: bytes_of_def string_at_def)
  then show ?thesis using assms by (auto simp: string_at_def)
qed

lemma push_strings_ok:
  assumes "stack_from b c" and "b + 1 + sum_list (map length ss) \<le> stack_pointer c"
  shows "\<exists>ps c'. try_map (push_stack 1) ss c = Inr (ps, c') \<and> stacked c c' \<and> stack_from b c' \<and>
    stack_pointer c' + sum_list (map length ss) = stack_pointer c \<and>
    list_all2 (string_at (main_memory c') (stack_pointer c') (stack_pointer c)) ps ss"
  using assms
proof (induction ss arbitrary: c)
  case Nil
  then show ?case by (auto simp: stacked_refl)
next
  case (Cons s ss)
  from push_stack_ok [of b c 1 s] Cons.prems obtain p c1 where c1: "push_stack 1 s c = Inr (p, c1)"
    "stacked c c1" "stack_from b c1" "p = xregister_read c1 x2" "unat p + length s = stack_pointer c"
    "bytes_of (main_memory c1) p (length s) = s" by auto
  from Cons.IH [OF c1(3)] Cons.prems(2) c1(4,5)
  obtain ps c2 where c2: "try_map (push_stack 1) ss c1 = Inr (ps, c2)" "stacked c1 c2" "stack_from b c2"
    "stack_pointer c2 + sum_list (map length ss) = stack_pointer c1"
    "list_all2 (string_at (main_memory c2) (stack_pointer c2) (stack_pointer c1)) ps ss" by auto
  have "list_all2 (string_at (main_memory c2) (stack_pointer c2) (stack_pointer c)) ps ss"
    using c2(5) by (rule list_all2_mono) (use c1(4,5) in \<open>auto simp: string_at_def\<close>)
  moreover have "string_at (main_memory c1) (stack_pointer c1) (stack_pointer c) p s"
    using c1(4-6) by (simp add: string_at_def)
  then have "string_at (main_memory c2) (stack_pointer c2) (stack_pointer c) p s"
    by (rule string_at_stacked [OF c2(2)]) (use c2(2) in \<open>auto simp: stacked_def\<close>)
  moreover have "try_map (push_stack 1) (s # ss) c = Inr (p # ps, c2)" using c1(1) c2(1) by simp
  ultimately show ?case using c1 c2 stacked_trans [OF c1(2) c2(2)] by auto
qed

text \<open>What a Linux program finds at its stack pointer.\<close>

definition stack_words :: "u64 list \<Rightarrow> u64 list \<Rightarrow> (aux_vector_key \<times> u64) list \<Rightarrow> u64 list" where
  "stack_words arg_ptrs env_ptrs auxv =
     [of_nat (length arg_ptrs)] @ arg_ptrs @ [0] @ env_ptrs @ [0] @
     concat (map (\<lambda>(k, v). [aux_key_code k, v]) (rev auxv)) @ [0, 0]"

lemma init_linux_stack_words:
  assumes "try_map (push_stack 1) cargs c = Inr (arg_ptrs, c1)" and "try_map (push_stack 1) env c1 = Inr (env_ptrs, c2)"
  shows "init_linux_stack cargs env auxv c = push_words (rev (stack_words arg_ptrs env_ptrs auxv)) c2"
proof -
  have rev_aux: "rev (concat (map (\<lambda>(k, v). [aux_key_code k, v]) (rev auxv))) =
      concat (map (\<lambda>(k, v). [v, aux_key_code k]) auxv)"
    by (induction auxv) auto
  have "init_linux_stack cargs env auxv c =
    push_words ([0] @ [0] @ concat (map (\<lambda>(k, v). [v, aux_key_code k]) auxv) @ [0] @ rev env_ptrs @ [0] @ rev arg_ptrs @
      [of_nat (length arg_ptrs)]) c2"
    unfolding init_linux_stack_def assms try_bind_simps case_prod_conv push_words_append push_auxv_words
    by (simp only: push_word_words)
  then show ?thesis by (simp add: stack_words_def rev_aux)
qed

lemma init_linux_stack_ok:
  assumes "stack_from b c"
    and "b + 50 + sum_list (map length cargs) + sum_list (map length env) + 8 * (length cargs + length env + 2 * length auxv) +
         8 * 5 \<le> stack_pointer c"
  shows "\<exists>arg_ptrs env_ptrs c'. init_linux_stack cargs env auxv c = Inr c' \<and> stacked c c' \<and> stack_from b c' \<and>
    8 dvd stack_pointer c' \<and>
    list_all2 (string_at (main_memory c') (stack_pointer c') (stack_pointer c)) arg_ptrs cargs \<and>
    list_all2 (string_at (main_memory c') (stack_pointer c') (stack_pointer c)) env_ptrs env \<and>
    (let ws = stack_words arg_ptrs env_ptrs auxv
     in bytes_of (main_memory c') (xregister_read c' x2) (8 * length ws) = concat (map to_le_bytes ws))"
proof -
  from push_strings_ok [OF assms(1), of cargs] assms(2)
  obtain aps c1 where c1: "try_map (push_stack 1) cargs c = Inr (aps, c1)" "stacked c c1" "stack_from b c1"
    "stack_pointer c1 + sum_list (map length cargs) = stack_pointer c"
    "list_all2 (string_at (main_memory c1) (stack_pointer c1) (stack_pointer c)) aps cargs" by auto
  from push_strings_ok [OF c1(3), of env] assms(2) c1(4)
  obtain eps c2 where c2: "try_map (push_stack 1) env c1 = Inr (eps, c2)" "stacked c1 c2" "stack_from b c2"
    "stack_pointer c2 + sum_list (map length env) = stack_pointer c1"
    "list_all2 (string_at (main_memory c2) (stack_pointer c2) (stack_pointer c1)) eps env" by auto
  let ?ws = "stack_words aps eps auxv"
  have "length (concat (map (\<lambda>(k, v). [aux_key_code k, v]) (rev auxv))) = 2 * length auxv"
    by (induction auxv) auto
  then have len: "length ?ws = length cargs + length env + 2 * length auxv + 5"
    using list_all2_lengthD [OF c1(5)] list_all2_lengthD [OF c2(5)] by (simp add: stack_words_def)
  have "b + 16 + 8 * length (rev ?ws) \<le> stack_pointer c2" using assms(2) c1(4) c2(4) len by simp
  moreover have "rev ?ws \<noteq> []" by (simp add: stack_words_def)
  moreover note push_words_any [OF c2(3), of "rev ?ws"]
  ultimately
  obtain c3 where c3: "push_words (rev ?ws) c2 = Inr c3" "stacked c2 c3" "stack_from b c3" "8 dvd stack_pointer c3"
    "bytes_of (main_memory c3) (xregister_read c3 x2) (8 * length ?ws) = concat (map to_le_bytes ?ws)"
    unfolding rev_rev_ident length_rev by blast
  have le: "stack_pointer c3 \<le> stack_pointer c2" using c3(2) by (simp add: stacked_def)
  have "list_all2 (string_at (main_memory c3) (stack_pointer c3) (stack_pointer c)) aps cargs"
    using c1(5) by (rule list_all2_mono) (erule string_at_stacked [OF stacked_trans [OF c2(2) c3(2)]], use le c2(4) in auto)
  moreover have "list_all2 (string_at (main_memory c3) (stack_pointer c3) (stack_pointer c)) eps env"
    using c2(5) by (rule list_all2_mono) (erule string_at_stacked [OF c3(2)], use le c1(4) in auto)
  moreover have "stacked c c3" using c1(2) c2(2) c3(2) by (blast intro: stacked_trans)
  ultimately show ?thesis
    using c3 init_linux_stack_words [OF c1(1) c2(1), of auxv] by (auto simp: Let_def)
qed

end
