(* ===== verification/Process_Correct.thy ===== *)
theory Process_Correct
  imports Process_Stack
begin

unbundle bit_operations_syntax

text \<open>
  Setting up a process succeeds when the program and the first stack frames fit into memory. What it leaves: the bytes
  and the permissions of the program, a stack that starts with the arguments as Linux programs expect them, an
  inaccessible page below it, and a page allocator in which exactly the heap is free.
\<close>

section \<open>Permissions\<close>

definition perm_at :: "memory \<Rightarrow> nat \<Rightarrow> permissions" where
  "perm_at m i = \<lparr>perm_read = readable_pages m ! i, perm_write = writable_pages m ! i, perm_exec = executable_pages m ! i\<rparr>"

definition covers_page :: "address \<Rightarrow> nat \<Rightarrow> nat \<Rightarrow> bool" where
  "covers_page a len i \<longleftrightarrow> (\<exists>b < len. (unat a + b) div PAGE_SIZE = i)"

text \<open>Memories that differ at most in the permissions.\<close>

definition same_contents :: "memory \<Rightarrow> memory \<Rightarrow> bool" where
  "same_contents m m' \<longleftrightarrow>
     PAGES m' = PAGES m \<and> TOTAL_BYTES m' = TOTAL_BYTES m \<and> data m' = data m \<and> allocated_pages m' = allocated_pages m"

lemma protect_pages_ok:
  assumes "memory_inv m" and "unat a + len \<le> TOTAL_BYTES m"
  shows "\<exists>m'. protect_pages m a len p = Inr m' \<and> memory_inv m' \<and> same_contents m m' \<and>
    (\<forall>i < PAGES m. perm_at m' i = (if covers_page a len i then p else perm_at m i))"
proof -
  have "check_bounds m a len" using assms(2) by (simp add: check_bounds_def)
  then obtain m' where m': "protect_pages m a len p = Inr m'"
    "m' = m\<lparr>readable_pages := modify_access (readable_pages m) a len (perm_read p),
        writable_pages := modify_access (writable_pages m) a len (perm_write p),
        executable_pages := modify_access (executable_pages m) a len (perm_exec p)\<rparr>"
    by (simp add: protect_pages_def)
  have n: "unat a + len \<le> length ps * PAGE_SIZE" "length ps * PAGE_SIZE \<le> u64_max" if "length ps = PAGES m" for ps :: "bool list"
    using that assms by (simp_all add: memory_inv_def)
  have "modify_access ps a len v ! i = (if covers_page a len i then v else ps ! i)"
    if "length ps = PAGES m" "i < PAGES m" for ps v i
    using nth_modify_access [OF n [OF that(1)], of i v] that by (simp add: covers_page_def)
  moreover have "length (readable_pages m) = PAGES m" "length (writable_pages m) = PAGES m" "length (executable_pages m) = PAGES m"
    using assms(1) by (simp_all add: memory_inv_def)
  ultimately have "perm_at m' i = (if covers_page a len i then p else perm_at m i)" if "i < PAGES m" for i
    using that by (simp add: perm_at_def m'(2))
  then show ?thesis using m' memory_inv_protect [OF assms(1) m'(1)] by (auto simp: same_contents_def)
qed

text \<open>Of the segments that cover a page, the last decides.\<close>

definition perm_after :: "memory_permissions list \<Rightarrow> nat \<Rightarrow> permissions \<Rightarrow> permissions" where
  "perm_after mps i p =
     (case find (\<lambda>mp. covers_page (start_address mp) (unat (mp_length mp)) i) (rev mps) of
        Some mp \<Rightarrow> mp_permissions mp | None \<Rightarrow> p)"

lemma perm_after_simps:
  "perm_after [] i p = p"
  "perm_after (mp # mps) i p =
     perm_after mps i (if covers_page (start_address mp) (unat (mp_length mp)) i then mp_permissions mp else p)"
proof -
  have find_append: "find P (xs @ ys) = (case find P xs of Some x \<Rightarrow> Some x | None \<Rightarrow> find P ys)" for P and xs ys :: "'a list"
    by (induction xs) auto
  show "perm_after [] i p = p"
    "perm_after (mp # mps) i p =
       perm_after mps i (if covers_page (start_address mp) (unat (mp_length mp)) i then mp_permissions mp else p)"
    by (simp_all add: perm_after_def find_append split: option.split)
qed

lemma core_memory_Inr: "f (main_memory c) = Inr m \<Longrightarrow> core_memory f c = Inr (c\<lparr>main_memory := m\<rparr>)"
  by (simp add: core_memory_def)

lemma protect_segments_ok:
  assumes "memory_inv (main_memory c)"
    and "\<forall>mp\<in>set mps. unat (start_address mp) + unat (mp_length mp) \<le> TOTAL_BYTES (main_memory c)"
  shows "\<exists>m'. protect_segments mps c = Inr (c\<lparr>main_memory := m'\<rparr>) \<and> memory_inv m' \<and> same_contents (main_memory c) m' \<and>
    (\<forall>i < PAGES (main_memory c). perm_at m' i = perm_after mps i (perm_at (main_memory c) i))"
  using assms
proof (induction mps arbitrary: c)
  case Nil
  then show ?case by (auto simp: perm_after_simps same_contents_def intro!: exI [of _ "main_memory c"])
next
  case (Cons mp mps)
  from protect_pages_ok [OF Cons.prems(1), of "start_address mp" "unat (mp_length mp)" "mp_permissions mp"] Cons.prems(2)
  obtain m1 where m1: "protect_pages (main_memory c) (start_address mp) (unat (mp_length mp)) (mp_permissions mp) = Inr m1"
    "memory_inv m1" "same_contents (main_memory c) m1"
    "\<forall>i < PAGES (main_memory c). perm_at m1 i =
       (if covers_page (start_address mp) (unat (mp_length mp)) i then mp_permissions mp else perm_at (main_memory c) i)" by auto
  from Cons.IH [of "c\<lparr>main_memory := m1\<rparr>"] Cons.prems(2) m1(2,3)
  obtain m2 where "protect_segments mps (c\<lparr>main_memory := m1\<rparr>) = Inr (c\<lparr>main_memory := m2\<rparr>)"
    "memory_inv m2" "same_contents m1 m2" "\<forall>i < PAGES m1. perm_at m2 i = perm_after mps i (perm_at m1 i)"
    by (auto simp: same_contents_def)
  with m1 show ?case by (auto simp: perm_after_simps core_memory_Inr same_contents_def)
qed

section \<open>The program\<close>

lemma program_bounds_chunk:
  assumes "segments_ok segs" and "c \<in> set segs"
  shows "unat (fst (program_bounds segs)) \<le> unat (fst c)" and "chunk_end c \<le> unat (snd (program_bounds segs))"
proof -
  let ?e = "\<lambda>(addr, bs). u64_saturating_add addr (of_nat (length bs))"
  obtain x xs where segs: "segs = x # xs" using assms(2) by (cases segs) auto
  have "fst (program_bounds segs) = Min (fst ` set segs)"
    using Min.set_eq_fold [of "fst x" "map fst xs"] by (simp add: program_bounds_def segs)
  also have "\<dots> \<le> fst c" using assms(2) by simp
  finally show "unat (fst (program_bounds segs)) \<le> unat (fst c)" by (simp add: word_le_nat_alt)
  have "chunk_end c < 2 ^ 64" using assms by (induction segs rule: segments_ok.induct) auto
  then have e: "unat (?e c) = chunk_end c"
    by (cases c) (simp add: u64_saturating_add_def u64_max_def unat_word_ariths unat_of_nat)
  have "?e c \<le> Max (?e ` set segs)" using assms(2) by simp
  also have "\<dots> = snd (program_bounds segs)"
    using Max.set_eq_fold [of "?e x" "map ?e xs"] by (simp add: program_bounds_def segs)
  finally show "chunk_end c \<le> unat (snd (program_bounds segs))" by (simp add: word_le_nat_alt flip: e)
qed

lemma program_bounds_order:
  assumes "segments_ok segs"
  shows "fst (program_bounds segs) \<le> snd (program_bounds segs)"
proof (cases segs)
  case (Cons c cs)
  then show ?thesis using program_bounds_chunk [OF assms, of c] by (simp add: word_le_nat_alt)
qed (simp add: program_bounds_def)

definition with_image :: "segments \<Rightarrow> (nat \<Rightarrow> u8) \<Rightarrow> nat \<Rightarrow> u8" where
  "with_image segs d a = (case image_of segs a of Some b \<Rightarrow> b | None \<Rightarrow> d a)"

lemma write_segments_ok:
  assumes "memory_inv (main_memory c)" and "segments_ok segs"
    and "\<forall>x\<in>set segs. write_ok (length (snd x)) (main_memory c) (fst x)"
  shows "write_segments segs c =
    Inr (c\<lparr>main_memory := (main_memory c)\<lparr>data := with_image segs (data (main_memory c))\<rparr>\<rparr>)"
  using assms
proof (induction segs arbitrary: c)
  case Nil
  then show ?case by (simp add: with_image_def image_of_simps)
next
  case (Cons x segs)
  obtain k v where x: "x = (k, v)" by (cases x)
  have v: "v \<noteq> []" "segments_ok segs" and disj: "\<forall>c\<in>set segs. unat k + length v \<le> unat (fst c)"
    using Cons.prems(2) by (auto simp: x)
  have w: "mem_write_all (main_memory c) k v = Inr (overwrite (main_memory c) (unat k) v)"
    using mem_write_all_bytes [OF Cons.prems(1), of k v] Cons.prems(3) v(1) by (simp add: x)
  let ?c1 = "c\<lparr>main_memory := overwrite (main_memory c) (unat k) v\<rparr>"
  have none: "image_of segs a = None" if "a < unat k + length v" for a
    using disj that by (fastforce simp: image_of_None in_chunk_def)
  have "with_image segs (data (overwrite (main_memory c) (unat k) v)) = with_image (x # segs) (data (main_memory c))"
    by (auto simp: fun_eq_iff with_image_def x image_of_simps overwrite_def none)
  moreover have "write_segments segs ?c1 =
      Inr (?c1\<lparr>main_memory := (main_memory ?c1)\<lparr>data := with_image segs (data (main_memory ?c1))\<rparr>\<rparr>)"
    using Cons.prems v by (intro Cons.IH) (auto simp: write_ok_def)
  moreover have "(overwrite (main_memory c) (unat k) v)\<lparr>data := d\<rparr> = (main_memory c)\<lparr>data := d\<rparr>" for d
    by (simp add: overwrite_def)
  ultimately show ?case using w by (simp add: x core_memory_def)
qed

text \<open>The number of bytes up to the next page.\<close>

definition page_up :: "nat \<Rightarrow> nat" where
  "page_up n = (n + (PAGE_SIZE - 1)) div PAGE_SIZE * PAGE_SIZE"

lemma page_up: "n \<le> page_up n" "PAGE_SIZE dvd page_up n"
proof -
  have "n mod PAGE_SIZE < PAGE_SIZE" by simp
  then show "n \<le> page_up n"
    using round_up_eq [of PAGE_SIZE n] unfolding page_up_def One_nat_def by (simp only: PAGE_SIZE_pos simp_thms split: if_split) linarith
qed (simp add: page_up_def)

lemma align_up_page: "page_up (unat a) \<le> u64_max \<Longrightarrow> \<exists>b. align_up a PAGE_BYTES = Some b \<and> unat b = page_up (unat a)"
proof -
  assume le: "page_up (unat a) \<le> u64_max"
  have "align_up a PAGE_BYTES = Some (of_nat (page_up (unat a)))"
    using le align_up_eq [of PAGE_BYTES a] by (simp add: PAGE_BYTES_eq(2) page_up_def Let_def) (simp add: PAGE_BYTES_eq)
  then show ?thesis using le by (simp add: unat_of_nat u64_max_def)
qed

lemma align_up_aligned: "PAGE_SIZE dvd unat a \<Longrightarrow> align_up a PAGE_BYTES = Some a"
proof -
  assume "PAGE_SIZE dvd unat a"
  then have "a mod PAGE_BYTES = 0" by (simp add: unat_mod PAGE_BYTES_eq(2) flip: unat_eq_0)
  then show ?thesis by (simp add: align_up_def rem_euclid_def Let_def)
qed

definition header_permissions :: "rv_program \<Rightarrow> memory_permissions list" where
  "header_permissions prog = (case program_headers prog of Some ph \<Rightarrow> ph_permissions ph | None \<Rightarrow> [])"

definition program_length :: "rv_program \<Rightarrow> nat" where
  "program_length prog = (let (s, e) = program_bounds (segments_of prog) in unat e - unat s)"

text \<open>What loading leaves in memory.\<close>

definition loaded :: "rv_program \<Rightarrow> memory \<Rightarrow> memory \<Rightarrow> bool" where
  "loaded prog m m' \<longleftrightarrow>
     memory_inv m' \<and> PAGES m' = PAGES m \<and> TOTAL_BYTES m' = TOTAL_BYTES m \<and> allocated_pages m' = allocated_pages m \<and>
     data m' = with_image (segments_of prog) (data m) \<and>
     (\<forall>i < PAGES m. perm_at m' i = perm_after (header_permissions prog) i
        (if covers_page (fst (program_bounds (segments_of prog))) (program_length prog) i then permissions_none else perm_at m i))"

lemma load_program_ok:
  fixes p :: pvm
  defines "c \<equiv> core (machine p)"
  assumes inv: "memory_inv (main_memory c)" and ok: "segments_ok (segments_of prog)"
    and room: "page_up (unat (snd (program_bounds (segments_of prog)))) \<le> TOTAL_BYTES (main_memory c)"
    and mps: "\<forall>mp\<in>set (header_permissions prog). unat (start_address mp) + unat (mp_length mp) \<le> TOTAL_BYTES (main_memory c)"
  shows "\<exists>m' pe. load_program prog p =
      Inr ((set_core (c\<lparr>hart := hart_reset (hart c) (entrypoint prog), main_memory := m'\<rparr>) p)
        \<lparr>system_state := (system_state p)\<lparr>program := (align_down (fst (program_bounds (segments_of prog))) PAGE_BYTES, pe)\<rparr>\<rparr>) \<and>
    unat pe = page_up (unat (snd (program_bounds (segments_of prog)))) \<and> loaded prog (main_memory c) m'"
proof -
  obtain s e where se: "program_bounds (segments_of prog) = (s, e)" by fastforce
  let ?m = "main_memory c" and ?segs = "segments_of prog"
  let ?c0 = "c\<lparr>hart := hart_reset (hart c) (entrypoint prog)\<rparr>"
  have "s \<le> e" using program_bounds_order [OF ok] by (simp add: se)
  then have len: "unat (u64_saturating_sub e s) = program_length prog"
    by (simp add: program_length_def se u64_saturating_sub_def unat_sub)
  have "unat e \<le> TOTAL_BYTES ?m" using room page_up(1) [of "unat e"] by (simp add: se)
  then have in_mem: "unat s + program_length prog \<le> TOTAL_BYTES ?m"
    using \<open>s \<le> e\<close> by (simp add: program_length_def se word_le_nat_alt)
  from protect_pages_ok [OF inv this, of permissions_write] obtain m1
    where m1: "protect_pages ?m s (program_length prog) permissions_write = Inr m1" "memory_inv m1" "same_contents ?m m1"
      "\<forall>i < PAGES ?m. perm_at m1 i = (if covers_page s (program_length prog) i then permissions_write else perm_at ?m i)" by blast
  let ?c1 = "?c0\<lparr>main_memory := m1\<rparr>"
  have wr: "write_ok (length (snd x)) m1 (fst x)" if "x \<in> set ?segs" for x
  proof -
    note b = program_bounds_chunk [OF ok that, unfolded se fst_conv snd_conv]
    have tot: "chunk_end x \<le> TOTAL_BYTES m1" using b \<open>unat e \<le> TOTAL_BYTES ?m\<close> m1(3) by (simp add: same_contents_def)
    have "writable_pages m1 ! ((unat (fst x) + k) div PAGE_SIZE)" if "k < length (snd x)" for k
    proof -
      let ?i = "(unat (fst x) + k) div PAGE_SIZE"
      have "covers_page s (program_length prog) ?i"
        unfolding covers_page_def using b that \<open>s \<le> e\<close>
        by (intro exI [of _ "unat (fst x) + k - unat s"]) (auto simp: program_length_def se)
      moreover have "?i < PAGES ?m"
        using tot that m1(2,3) by (auto simp: memory_inv_def same_contents_def div_less_iff_less_mult)
      ultimately have "perm_at m1 ?i = permissions_write" using m1(4) by simp
      then show ?thesis by (simp add: perm_at_def permissions_write_def)
    qed
    then show ?thesis using tot by (simp add: write_ok_def in_memory_def range_allowed_def)
  qed
  define m2 where "m2 = m1\<lparr>data := with_image ?segs (data m1)\<rparr>"
  have w: "write_segments ?segs ?c1 = Inr (?c0\<lparr>main_memory := m2\<rparr>)"
    using write_segments_ok [of ?c1 ?segs] m1(2) ok wr by (simp add: m2_def)
  have m2: "memory_inv m2" "PAGES m2 = PAGES ?m" "TOTAL_BYTES m2 = TOTAL_BYTES ?m" "data m2 = with_image ?segs (data ?m)"
    "allocated_pages m2 = allocated_pages ?m"
    using m1(2,3) unfolding m2_def memory_inv_def same_contents_def by simp_all
  have m2_perm: "perm_at m2 = perm_at m1" by (simp add: m2_def perm_at_def fun_eq_iff)
  from protect_pages_ok [OF m2(1), of s "program_length prog" permissions_none] in_mem m2(3) obtain m3
    where m3: "protect_pages m2 s (program_length prog) permissions_none = Inr m3" "memory_inv m3" "same_contents m2 m3"
      "\<forall>i < PAGES m2. perm_at m3 i = (if covers_page s (program_length prog) i then permissions_none else perm_at m2 i)" by auto
  from protect_segments_ok [of "?c0\<lparr>main_memory := m3\<rparr>" "header_permissions prog"] m3 m2 mps
  obtain m4 where m4: "protect_segments (header_permissions prog) (?c0\<lparr>main_memory := m3\<rparr>) = Inr (?c0\<lparr>main_memory := m4\<rparr>)"
    "memory_inv m4" "same_contents m3 m4" "\<forall>i < PAGES m3. perm_at m4 i = perm_after (header_permissions prog) i (perm_at m3 i)"
    by (auto simp: same_contents_def)
  have "page_up (unat e) \<le> u64_max" using room inv by (simp add: se memory_inv_def)
  from align_up_page [OF this] obtain pe where pe: "align_up e PAGE_BYTES = Some pe" "unat pe = page_up (unat e)" by blast
  have hp: "(case program_headers prog of Some ph \<Rightarrow> protect_segments (ph_permissions ph) x | None \<Rightarrow> Inr x) =
      protect_segments (header_permissions prog) x" for x
    by (simp add: header_permissions_def split: option.split)
  have "load_program prog p =
    Inr ((set_core (?c0\<lparr>main_memory := m4\<rparr>) p)\<lparr>system_state := (system_state p)\<lparr>program := (align_down s PAGE_BYTES, pe)\<rparr>\<rparr>)"
    using m1(1) w m3(1) m4(1) pe(1)
    by (simp add: load_program_def c_def [symmetric] se len core_memory_def hp ok_or_def Let_def)
  moreover have "loaded prog ?m m4"
    using m2 m2_perm m3 m4 m1(4) by (auto simp: loaded_def same_contents_def se)
  ultimately show ?thesis using pe(2) by (auto simp: se)
qed

section \<open>The stack and its guard\<close>

lemma covers_aligned:
  assumes "PAGE_SIZE dvd unat a" and "PAGE_SIZE dvd len"
  shows "covers_page a len i \<longleftrightarrow> unat a \<le> i * PAGE_SIZE \<and> i * PAGE_SIZE < unat a + len"
proof -
  from assms obtain q l where q: "unat a = q * PAGE_SIZE" and l: "len = l * PAGE_SIZE" by (auto simp: dvd_def mult.commute)
  have "(\<exists>b < l * PAGE_SIZE. q + b div PAGE_SIZE = i) \<longleftrightarrow> q \<le> i \<and> i < q + l"
  proof
    assume "q \<le> i \<and> i < q + l"
    then show "\<exists>b < l * PAGE_SIZE. q + b div PAGE_SIZE = i" by (intro exI [of _ "(i - q) * PAGE_SIZE"]) auto
  qed (auto simp: less_mult_imp_div_less)
  then show ?thesis by (simp add: covers_page_def q l flip: distrib_right)
qed

definition stack_room :: "memory \<Rightarrow> nat \<Rightarrow> nat" where
  "stack_room m pe = min (unat STACK_SIZE) (TOTAL_BYTES m - pe - PAGE_SIZE)"

lemma stack_size: "unat STACK_SIZE = 0x2000 * PAGE_SIZE"
  by (simp add: STACK_SIZE_def STACK_PAGES_def PAGE_BYTES_eq PAGE_SIZE_def OFFSET_BITS_def)

lemma u64_of_total: "memory_inv m \<Longrightarrow> unat (of_nat (TOTAL_BYTES m) :: u64) = TOTAL_BYTES m"
proof -
  assume "memory_inv m"
  then have "TOTAL_BYTES m < 2 ^ 64" by (simp add: memory_inv_def u64_max_def del: mult_less_cancel2)
  then show ?thesis by (simp add: unat_of_nat)
qed

lemma prepare_stack_ok:
  fixes p :: pvm
  defines "c \<equiv> core (machine p)" and "pe \<equiv> snd (program (system_state p))"
  defines "m \<equiv> main_memory c"
  assumes inv: "memory_inv m" and small: "TOTAL_BYTES m < 2 ^ 63"
    and dvd: "PAGE_SIZE dvd unat pe" and room: "unat pe + PAGE_SIZE \<le> TOTAL_BYTES m"
  shows "\<exists>m' gs ge. prepare_stack p =
      Inr ((set_core (xregister_write (c\<lparr>main_memory := m'\<rparr>) x2 (of_nat (TOTAL_BYTES m))) p)
        \<lparr>system_state := (system_state p)\<lparr>stack_guard := (gs, ge)\<rparr>\<rparr>) \<and>
    unat ge + stack_room m (unat pe) = TOTAL_BYTES m \<and> unat gs + PAGE_SIZE = unat ge \<and> PAGE_SIZE dvd unat ge \<and>
    memory_inv m' \<and> same_contents m m' \<and>
    (\<forall>i < PAGES m. perm_at m' i =
       (if unat ge \<le> i * PAGE_SIZE then permissions_read_write
        else if i * PAGE_SIZE = unat gs then permissions_none else perm_at m i))"
proof -
  define t where "t = TOTAL_BYTES m"
  define k where "k = stack_room m (unat pe)"
  let ?top = "of_nat t :: u64"
  have room: "unat pe + PAGE_SIZE \<le> t" and small: "t < 2 ^ 63" using room small by (simp_all add: t_def)
  have top: "unat ?top = t" using u64_of_total [OF inv] by (simp add: t_def)
  have t: "PAGE_SIZE dvd t" "t = PAGES m * PAGE_SIZE" using inv by (simp_all add: memory_inv_def t_def)
  have k: "k \<le> t - unat pe - PAGE_SIZE" "PAGE_SIZE dvd k"
    using dvd t(1) by (auto simp: k_def stack_room_def stack_size min_def t_def)
  have le: "pe \<le> ?top" using room by (simp add: word_le_nat_alt top)
  have d: "?top - pe = of_nat (t - unat pe)" using le by (simp add: of_nat_diff word_le_nat_alt top)
  then have guarded: "virt_sub ?top pe = int (t - unat pe)"
    using sint_of_small [of "t - unat pe"] small by (simp add: virt_sub_def)
  have u: "unat (word_of_int (int (t - unat pe)) - PAGE_BYTES :: u64) = t - unat pe - PAGE_SIZE"
  proof -
    have "unat (of_nat (t - unat pe) :: u64) = t - unat pe" using small by (simp add: unat_of_nat)
    moreover have "PAGE_SIZE \<le> t - unat pe" using room by simp
    ultimately have "unat (of_nat (t - unat pe) - PAGE_BYTES :: u64) = t - unat pe - PAGE_SIZE"
      by (simp add: unat_sub word_le_nat_alt PAGE_BYTES_eq(2))
    then show ?thesis by simp
  qed
  define s where "s = min STACK_SIZE (word_of_int (int (t - unat pe)) - PAGE_BYTES)"
  have s: "unat s = k"
    unfolding s_def k_def stack_room_def using u by (simp add: min_def word_le_nat_alt t_def)
  define ge where "ge = ?top - s"
  have "s \<le> ?top" using k room by (simp add: word_le_nat_alt s top)
  then have ge: "unat ge = t - k" by (simp add: ge_def unat_sub s top)
  then have ge_dvd: "PAGE_SIZE dvd unat ge" using t(1) k(2) by simp
  have ge_le: "unat ge \<le> t" "unat pe + PAGE_SIZE \<le> unat ge" using k(1) room by (auto simp: ge)
  define gs where "gs = ge - PAGE_BYTES"
  have gs: "unat gs + PAGE_SIZE = unat ge"
    using ge_le(2) by (simp add: gs_def unat_sub word_le_nat_alt PAGE_BYTES_eq(2))
  have space: "unat (word_of_int (virt_sub ?top ge) :: u64) = k"
    using ge_le(1) ge k(1) by (simp add: virt_sub_def unat_sub word_le_nat_alt top)
  have gs_dvd: "PAGE_SIZE dvd unat gs" using ge_dvd gs by (metis dvd_add_left_iff dvd_refl)
  have "unat gs + PAGE_SIZE \<le> TOTAL_BYTES m" using gs ge_le by (simp add: t_def)
  from protect_pages_ok [OF inv this, of permissions_none] obtain m1
    where m1: "protect_pages m gs PAGE_SIZE permissions_none = Inr m1" "memory_inv m1" "same_contents m m1"
      "\<forall>i < PAGES m. perm_at m1 i = (if covers_page gs PAGE_SIZE i then permissions_none else perm_at m i)" by blast
  have "unat ge + k \<le> TOTAL_BYTES m1" using m1(3) ge k(1) by (simp add: same_contents_def t_def)
  from protect_pages_ok [OF m1(2) this, of permissions_read_write] obtain m2
    where m2: "protect_pages m1 ge k permissions_read_write = Inr m2" "memory_inv m2" "same_contents m1 m2"
      "\<forall>i < PAGES m1. perm_at m2 i = (if covers_page ge k i then permissions_read_write else perm_at m1 i)" by blast
  have cond: "\<not> virt_sub ?top pe < int PAGE_SIZE" unfolding guarded not_less of_nat_le_iff using room by linarith
  have sp: "min STACK_SIZE (word_of_int (virt_sub ?top pe) - PAGE_BYTES) = s" by (simp only: guarded s_def)
  have not_above: "\<not> ?top < ge" using ge_le(1) by (simp add: word_less_nat_alt top)
  have "prepare_stack p = Inr ((set_core (xregister_write (c\<lparr>main_memory := m2\<rparr>) x2 ?top) p)
      \<lparr>system_state := (system_state p)\<lparr>stack_guard := (gs, ge)\<rparr>\<rparr>)"
    unfolding prepare_stack_def Let_def c_def [symmetric] m_def [symmetric] pe_def [symmetric] t_def [symmetric]
      if_not_P [OF cond] sp ge_def [symmetric] align_up_aligned [OF ge_dvd] ok_or_def option.case try_bind_simps
      if_not_P [OF not_above] space gs_def [symmetric]
    using m1(1) m2(1) by (simp add: core_memory_def m_def)
  moreover have "perm_at m2 i = (if unat ge \<le> i * PAGE_SIZE then permissions_read_write
        else if i * PAGE_SIZE = unat gs then permissions_none else perm_at m i)" if "i < PAGES m" for i
  proof -
    have "i * PAGE_SIZE < t" using that t(2) by simp
    then have "covers_page ge k i \<longleftrightarrow> unat ge \<le> i * PAGE_SIZE"
      using ge k(1) covers_aligned [OF ge_dvd k(2)] by auto
    moreover have "covers_page gs PAGE_SIZE i \<longleftrightarrow> i * PAGE_SIZE = unat gs"
      unfolding covers_aligned [OF gs_dvd dvd_refl]
    proof
      assume i: "unat gs \<le> i * PAGE_SIZE \<and> i * PAGE_SIZE < unat gs + PAGE_SIZE"
      obtain q where q: "unat gs = q * PAGE_SIZE" using gs_dvd by (auto simp: dvd_def mult.commute)
      with i have "i * PAGE_SIZE < Suc q * PAGE_SIZE" "q * PAGE_SIZE \<le> i * PAGE_SIZE" by simp_all
      then have "i < Suc q" "q \<le> i" unfolding mult_less_cancel2 mult_le_cancel2 by simp_all
      then have "i = q" by linarith
      with q show "i * PAGE_SIZE = unat gs" by simp
    qed (use PAGE_SIZE_pos in simp)
    ultimately show ?thesis using m1(3,4) m2(4) that by (auto simp: same_contents_def)
  qed
  moreover have "unat ge + k = t" using ge k(1) room by linarith
  moreover have "same_contents m m2" using m1(3) m2(3) by (simp add: same_contents_def)
  ultimately show ?thesis using gs ge_dvd m2(2) unfolding t_def k_def by blast
qed

section \<open>The heap\<close>

lemma div_ceil_dvd: "PAGE_SIZE dvd n \<Longrightarrow> div_ceil n PAGE_SIZE = n div PAGE_SIZE"
proof -
  assume "PAGE_SIZE dvd n"
  then obtain q where "n = q * PAGE_SIZE" by (auto simp: dvd_def mult.commute)
  then have n: "n + PAGE_SIZE - 1 = (PAGE_SIZE - 1) + q * PAGE_SIZE" using PAGE_SIZE_pos by linarith
  have "((PAGE_SIZE - 1) + q * PAGE_SIZE) div PAGE_SIZE = q + (PAGE_SIZE - 1) div PAGE_SIZE"
    by (rule div_mult_self1) (use PAGE_SIZE_pos in simp)
  then show ?thesis using \<open>n = q * PAGE_SIZE\<close> unfolding div_ceil_def n by simp
qed

lemma heap_pages:
  assumes inv: "memory_inv m" and pos: "0 < TOTAL_BYTES m" and a: "PAGE_SIZE dvd unat hs" and l: "PAGE_SIZE dvd len"
    and le: "unat hs + len \<le> TOTAL_BYTES m"
  shows "\<exists>x m1 b. allocate_pages m (Some 0) (TOTAL_BYTES m) True = (Inr x, m1) \<and>
    deallocate_pages m1 hs len = Inr (m\<lparr>allocated_pages := b\<rparr>) \<and> memory_inv (m\<lparr>allocated_pages := b\<rparr>) \<and>
    (\<forall>i < PAGES m. buddy_occ b ! i \<longleftrightarrow> \<not> (unat hs \<le> i * PAGE_SIZE \<and> i * PAGE_SIZE < unat hs + len))"
proof -
  have T: "TOTAL_BYTES m = PAGES m * PAGE_SIZE" using inv by (simp add: memory_inv_def)
  then have n: "div_ceil (TOTAL_BYTES m) PAGE_SIZE = PAGES m" by (simp add: div_ceil_dvd)
  have place: "placement m (Some 0) (TOTAL_BYTES m) True = Some 0"
    using pos by (simp add: placement_def Let_def in_memory_def start_page_eq)
  obtain res m1 where r: "allocate_pages m (Some 0) (TOTAL_BYTES m) True = (res, m1)" by fastforce
  from allocate_pages_spec [OF inv _ r] place obtain x b1 where b1: "res = Inr x" "m1 = m\<lparr>allocated_pages := b1\<rparr>"
    "buddy_inv b1" "buddy_pages b1 = PAGES m" "buddy_occ b1 = fill (buddy_occ (allocated_pages m)) 0 (PAGES m) True"
    by (auto simp: n)
  define q k where "q = unat hs div PAGE_SIZE" and "k = len div PAGE_SIZE"
  have hs: "unat hs = q * PAGE_SIZE" and len: "len = k * PAGE_SIZE" using a l by (simp_all add: q_def k_def)
  have "(q + k) * PAGE_SIZE \<le> PAGES m * PAGE_SIZE" using le T unfolding hs len distrib_right by simp
  then have qk: "q + k \<le> PAGES m" unfolding mult_le_cancel2 by simp
  define b where "b = buddy_deallocate b1 q k"
  have "check_bounds m1 hs len" using le b1(2) by (simp add: check_bounds_def)
  then have d: "deallocate_pages m1 hs len = Inr (m\<lparr>allocated_pages := b\<rparr>)"
    using b1(2) by (simp add: deallocate_pages_def Let_def start_page_eq div_ceil_dvd [OF l] b_def q_def k_def)
  have inv1: "memory_inv m1" using memory_inv_buddy [OF inv b1(3,4)] by (simp add: b1(2))
  then have occ1: "length (buddy_occ b1) = PAGES m" using length_occ [OF inv1] by (simp add: b1(2))
  have occ: "buddy_occ b = fill (buddy_occ b1) q k False"
    unfolding b_def using b1(3,4) qk by (intro buddy_deallocate_occ) simp_all
  have "buddy_occ b ! i \<longleftrightarrow> \<not> (unat hs \<le> i * PAGE_SIZE \<and> i * PAGE_SIZE < unat hs + len)" if "i < PAGES m" for i
  proof -
    have "buddy_occ b1 ! i" using that b1(5) occ1 by simp
    moreover have "unat hs \<le> i * PAGE_SIZE \<longleftrightarrow> q \<le> i" "i * PAGE_SIZE < unat hs + len \<longleftrightarrow> i < q + k"
      unfolding hs len by (simp_all flip: distrib_right)
    ultimately show ?thesis using that occ1 unfolding occ by auto
  qed
  then show ?thesis using r b1(1) d memory_inv_deallocate [OF inv1 d] by blast
qed

section \<open>Setting up the process\<close>

definition header_bytes :: "rv_program \<Rightarrow> u8 list" where
  "header_bytes prog = (case program_headers prog of Some ph \<Rightarrow> ph_contents ph | None \<Rightarrow> [])"

text \<open>The auxiliary vector, for a pointer to the program headers.\<close>

definition auxv_of :: "rv_program \<Rightarrow> u64 \<Rightarrow> (aux_vector_key \<times> u64) list" where
  "auxv_of prog ptr =
     (PageSize, PAGE_BYTES) # (case program_headers prog of None \<Rightarrow> []
       | Some ph \<Rightarrow> [(NumProgramHeaders, num_entries ph), (ProgramHeaderSize, entry_size ph), (ProgramHeadersPtr, ptr)])"

lemma push_headers_ok:
  assumes "stack_from b c" and "b + 8 + length (header_bytes prog) \<le> stack_pointer c"
  shows "\<exists>ptr c'. push_headers (program_headers prog) c = Inr (auxv_of prog ptr, c') \<and> stacked c c' \<and> stack_from b c' \<and>
    stack_pointer c \<le> stack_pointer c' + 8 + length (header_bytes prog) \<and>
    (program_headers prog \<noteq> None \<longrightarrow> string_at (main_memory c') (stack_pointer c') (stack_pointer c) ptr (header_bytes prog))"
proof (cases "program_headers prog")
  case None
  then show ?thesis using assms(1) stacked_refl [of c] by (auto simp: push_headers_def auxv_of_def)
next
  case (Some ph)
  then have hb: "header_bytes prog = ph_contents ph" by (simp add: header_bytes_def)
  from push_stack_ok [OF assms(1), of 8 "ph_contents ph"] assms(2)
  obtain ptr c' where c': "push_stack 8 (ph_contents ph) c = Inr (ptr, c')" "stacked c c'" "stack_from b c'"
    "ptr = xregister_read c' x2" "unat ptr + length (ph_contents ph) = stack_pointer c - stack_pointer c mod 8"
    "bytes_of (main_memory c') ptr (length (ph_contents ph)) = ph_contents ph" by (auto simp: hb)
  have "stack_pointer c mod 8 < 8" by simp
  with c' show ?thesis
    by (auto simp: push_headers_def auxv_of_def Some hb string_at_def)
qed

text \<open>The program lies in memory with at least a guard page and 256 bytes of stack more than its headers behind it.\<close>

definition process_fits :: "rv_program \<Rightarrow> memory \<Rightarrow> bool" where
  "process_fits prog m \<longleftrightarrow>
     segments_ok (segments_of prog) \<and> TOTAL_BYTES m < 2 ^ 63 \<and>
     page_up (unat (snd (program_bounds (segments_of prog)))) + PAGE_SIZE + length (header_bytes prog) + 256 \<le> TOTAL_BYTES m \<and>
     length (header_bytes prog) + 256 \<le> unat STACK_SIZE \<and>
     (\<forall>mp\<in>set (header_permissions prog). unat (start_address mp) + unat (mp_length mp) \<le> TOTAL_BYTES m)"

text \<open>
  The layout: the program, the heap up to the guard page, the stack. The stack takes the last \<open>STACK_SIZE\<close> bytes of memory, or
  all that is left behind the program and the guard page if that is less, and this fixes the guard page and the end of
  the heap. Below the stack the bytes are those of the program
  over what was there; the permissions of a page are those of the last segment header that covers it; exactly the pages
  of the heap can be allocated.
\<close>

definition process_memory :: "rv_program \<Rightarrow> memory \<Rightarrow> supervisor_state \<Rightarrow> memory \<Rightarrow> bool" where
  "process_memory prog m ss m' \<longleftrightarrow>
     (let (s, e) = program_bounds (segments_of prog); (hs, he) = heap ss; (gs, ge) = stack_guard ss
      in memory_inv m' \<and> PAGES m' = PAGES m \<and>
         program ss = (align_down s PAGE_BYTES, hs) \<and> unat hs = page_up (unat e) \<and> hs \<le> he \<and> he = gs \<and>
         unat ge = unat gs + PAGE_SIZE \<and> PAGE_SIZE dvd unat gs \<and>
         unat ge + min (unat STACK_SIZE) (TOTAL_BYTES m - unat hs - PAGE_SIZE) = TOTAL_BYTES m \<and>
         (\<forall>a < unat ge. data m' a = with_image (segments_of prog) (data m) a) \<and>
         (\<forall>i < PAGES m. perm_at m' i =
            (if unat ge \<le> i * PAGE_SIZE then permissions_read_write
             else if i * PAGE_SIZE = unat gs then permissions_none
             else perm_after (header_permissions prog) i
                    (if covers_page s (program_length prog) i then permissions_none else perm_at m i))) \<and>
         (\<forall>i < PAGES m. buddy_occ (allocated_pages m') ! i \<longleftrightarrow>
            \<not> (unat hs \<le> i * PAGE_SIZE \<and> i * PAGE_SIZE < unat he)))"

text \<open>The stack: count and pointers of the arguments, the environment and the auxiliary vector.\<close>

definition process_stack :: "rv_program \<Rightarrow> supervisor_state \<Rightarrow> machine_core \<Rightarrow> bool" where
  "process_stack prog ss c \<longleftrightarrow>
     (\<exists>name env ptr.
        let m = main_memory c; sp = xregister_read c x2; lo = unat sp; hi = TOTAL_BYTES m;
            ws = [1, name, 0, env, 0] @ concat (map (\<lambda>(k, v). [aux_key_code k, v]) (rev (auxv_of prog ptr))) @ [0, 0]
        in unat (snd (stack_guard ss)) \<le> lo \<and> 8 dvd lo \<and> bytes_of m sp (8 * length ws) = concat (map to_le_bytes ws) \<and>
           string_at m lo hi name PROCESS_NAME \<and> string_at m lo hi env PROCESS_ENV \<and>
           (program_headers prog \<noteq> None \<longrightarrow> string_at m lo hi ptr (header_bytes prog)))"

lemma process_strings: "length PROCESS_NAME = 19" "length PROCESS_ENV = 20"
  by (simp_all add: PROCESS_NAME_def PROCESS_ENV_def)

lemma push_frames:
  assumes st: "stack_from b c" and top: "stack_pointer c = TOTAL_BYTES (main_memory c)"
    and room: "b + length (header_bytes prog) + 256 \<le> stack_pointer c" and ge: "unat (snd (stack_guard ss)) = b"
  shows "\<exists>auxv c1 c2. push_headers (program_headers prog) c = Inr (auxv, c1) \<and>
    init_linux_stack [PROCESS_NAME] [PROCESS_ENV] auxv c1 = Inr c2 \<and> stacked c c2 \<and> stack_from b c2 \<and> process_stack prog ss c2"
proof -
  from push_headers_ok [OF st, of prog] room
  obtain ptr c1 where c1: "push_headers (program_headers prog) c = Inr (auxv_of prog ptr, c1)" "stacked c c1" "stack_from b c1"
    "stack_pointer c \<le> stack_pointer c1 + 8 + length (header_bytes prog)"
    "program_headers prog \<noteq> None \<longrightarrow> string_at (main_memory c1) (stack_pointer c1) (stack_pointer c) ptr (header_bytes prog)" by auto
  have "length (auxv_of prog ptr) \<le> 4" by (simp add: auxv_of_def split: option.split)
  then have "b + 50 + sum_list (map length [PROCESS_NAME]) + sum_list (map length [PROCESS_ENV]) +
      8 * (length [PROCESS_NAME] + length [PROCESS_ENV] + 2 * length (auxv_of prog ptr)) + 8 * 5 \<le> stack_pointer c1"
    using c1(4) room by (simp add: process_strings)
  from init_linux_stack_ok [OF c1(3) this]
  obtain aps eps c2 where c2: "init_linux_stack [PROCESS_NAME] [PROCESS_ENV] (auxv_of prog ptr) c1 = Inr c2" "stacked c1 c2"
    "stack_from b c2" "8 dvd stack_pointer c2"
    "list_all2 (string_at (main_memory c2) (stack_pointer c2) (stack_pointer c1)) aps [PROCESS_NAME]"
    "list_all2 (string_at (main_memory c2) (stack_pointer c2) (stack_pointer c1)) eps [PROCESS_ENV]"
    "let ws = stack_words aps eps (auxv_of prog ptr)
     in bytes_of (main_memory c2) (xregister_read c2 x2) (8 * length ws) = concat (map to_le_bytes ws)" by blast
  from c2(5,6) obtain name env where ptrs: "aps = [name]" "eps = [env]"
    by (auto simp: list_all2_Cons2)
  have le: "stack_pointer c1 \<le> stack_pointer c" "stack_pointer c2 \<le> stack_pointer c1"
    and hi: "TOTAL_BYTES (main_memory c2) = stack_pointer c"
    using c1(2) c2(2) top by (auto simp: stacked_def)
  have "program_headers prog \<noteq> None \<longrightarrow> string_at (main_memory c2) (stack_pointer c2) (stack_pointer c) ptr (header_bytes prog)"
    using c1(5) string_at_stacked [OF c2(2)] le by blast
  moreover have "string_at (main_memory c2) (stack_pointer c2) (stack_pointer c) name PROCESS_NAME"
    "string_at (main_memory c2) (stack_pointer c2) (stack_pointer c) env PROCESS_ENV"
    using c2(5,6) le by (auto simp: ptrs string_at_def)
  moreover have "stack_words aps eps (auxv_of prog ptr) =
      [1, name, 0, env, 0] @ concat (map (\<lambda>(k, v). [aux_key_code k, v]) (rev (auxv_of prog ptr))) @ [0, 0]"
    by (simp add: stack_words_def ptrs)
  moreover have "b \<le> stack_pointer c2" using c2(3) by (simp add: stack_from_def)
  ultimately have "process_stack prog ss c2"
    unfolding process_stack_def Let_def hi using c2(4,7) ge unfolding Let_def by metis
  with c1 c2 show ?thesis using stacked_trans [OF c1(2) c2(2)] by blast
qed

lemma stack_fresh:
  assumes "memory_inv m" and "xregisters_inv (xregisters h)" and "PAGE_SIZE dvd unat ge" and "unat ge \<le> TOTAL_BYTES m"
    and "\<forall>i < PAGES m. unat ge \<le> i * PAGE_SIZE \<longrightarrow> perm_at m i = permissions_read_write"
    and "c = xregister_write \<lparr>hart = h, main_memory = m\<rparr> x2 (of_nat (TOTAL_BYTES m))"
  shows "stack_from (unat ge) c \<and> stack_pointer c = TOTAL_BYTES m"
proof -
  have "writable_pages m ! (a div PAGE_SIZE)" if "unat ge \<le> a" "a < TOTAL_BYTES m" for a
  proof -
    from assms(3) obtain q where q: "unat ge = q * PAGE_SIZE" by (auto simp: dvd_def mult.commute)
    with that(1) have "q \<le> a div PAGE_SIZE" by (simp add: less_eq_div_iff_mult_less_eq)
    then have "unat ge \<le> a div PAGE_SIZE * PAGE_SIZE" unfolding q by simp
    moreover have "a div PAGE_SIZE < PAGES m" using that(2) assms(1) by (simp add: memory_inv_def div_less_iff_less_mult)
    ultimately have "perm_at m (a div PAGE_SIZE) = permissions_read_write" using assms(5) by blast
    then show ?thesis by (simp add: perm_at_def permissions_read_write_def)
  qed
  then show ?thesis
    using assms u64_of_total [OF assms(1)] xregister_read_write_sp [of "\<lparr>hart = h, main_memory = m\<rparr>"] by (auto simp: stack_from_def)
qed

text \<open>Loading the program and preparing the stack, up to the first push.\<close>

definition stack_ready :: "rv_program \<Rightarrow> memory \<Rightarrow> supervisor_state \<Rightarrow> machine_core \<Rightarrow> bool" where
  "stack_ready prog m ss c \<longleftrightarrow>
     (let (s, e) = program_bounds (segments_of prog); pe = snd (program ss); (gs, ge) = stack_guard ss; m' = main_memory c
      in pc (hart c) = entrypoint prog \<and> stack_from (unat ge) c \<and> stack_pointer c = TOTAL_BYTES m \<and>
         PAGES m' = PAGES m \<and> TOTAL_BYTES m' = TOTAL_BYTES m \<and>
         program ss = (align_down s PAGE_BYTES, pe) \<and> unat pe = page_up (unat e) \<and> unat pe \<le> unat gs \<and>
         unat gs + PAGE_SIZE = unat ge \<and> PAGE_SIZE dvd unat ge \<and> unat ge + stack_room m (unat pe) = TOTAL_BYTES m \<and>
         unat ge + length (header_bytes prog) + 256 \<le> TOTAL_BYTES m \<and>
         data m' = with_image (segments_of prog) (data m) \<and>
         (\<forall>i < PAGES m. perm_at m' i =
            (if unat ge \<le> i * PAGE_SIZE then permissions_read_write
             else if i * PAGE_SIZE = unat gs then permissions_none
             else perm_after (header_permissions prog) i
                    (if covers_page s (program_length prog) i then permissions_none else perm_at m i))))"

lemma load_and_prepare:
  assumes inv: "memory_inv (main_memory (core (machine p)))" and regs: "xregisters_inv (xregisters (hart (core (machine p))))"
    and fits: "process_fits prog (main_memory (core (machine p)))"
  shows "\<exists>p1 c ss. load_program prog p = Inr p1 \<and>
    prepare_stack p1 = Inr (p\<lparr>machine := (machine p)\<lparr>core := c\<rparr>, system_state := ss\<rparr>) \<and>
    ss = (system_state p)\<lparr>program := program ss, stack_guard := stack_guard ss\<rparr> \<and>
    stack_ready prog (main_memory (core (machine p))) ss c"
proof -
  let ?c = "core (machine p)" and ?segs = "segments_of prog"
  let ?m = "main_memory ?c" and ?h = "hart_reset (hart ?c) (entrypoint prog)"
  obtain s e where se: "program_bounds ?segs = (s, e)" by fastforce
  from fits have ok: "segments_ok ?segs" and small: "TOTAL_BYTES ?m < 2 ^ 63"
    and room: "page_up (unat e) + PAGE_SIZE + length (header_bytes prog) + 256 \<le> TOTAL_BYTES ?m"
    and stack: "length (header_bytes prog) + 256 \<le> unat STACK_SIZE"
    and mps: "\<forall>mp\<in>set (header_permissions prog). unat (start_address mp) + unat (mp_length mp) \<le> TOTAL_BYTES ?m"
    by (auto simp: process_fits_def se)
  have "page_up (unat (snd (program_bounds ?segs))) \<le> TOTAL_BYTES ?m" using room by (simp add: se)
  from load_program_ok [OF inv ok this mps] obtain m1 pe p1 where m1: "loaded prog ?m m1" "unat pe = page_up (unat e)"
    and load: "load_program prog p = Inr p1" and p1: "p1 = p\<lparr>machine := (machine p)\<lparr>core := \<lparr>hart = ?h, main_memory = m1\<rparr>\<rparr>,
      system_state := (system_state p)\<lparr>program := (align_down s PAGE_BYTES, pe)\<rparr>\<rparr>"
    by (auto simp: se set_core_def)
  have l: "memory_inv m1" "TOTAL_BYTES m1 = TOTAL_BYTES ?m" "PAGES m1 = PAGES ?m" using m1(1) by (simp_all add: loaded_def)
  have pe: "PAGE_SIZE dvd unat pe" "unat pe + PAGE_SIZE + length (header_bytes prog) + 256 \<le> TOTAL_BYTES ?m"
    using page_up(2) room by (simp_all add: m1(2))
  from prepare_stack_ok [of p1] l small pe obtain m2 gs ge where prep: "prepare_stack p1 =
      Inr ((set_core (xregister_write \<lparr>hart = ?h, main_memory = m2\<rparr> x2 (of_nat (TOTAL_BYTES m1))) p1)
        \<lparr>system_state := (system_state p1)\<lparr>stack_guard := (gs, ge)\<rparr>\<rparr>)"
    and m2: "unat ge + stack_room m1 (unat pe) = TOTAL_BYTES m1" "unat gs + PAGE_SIZE = unat ge" "PAGE_SIZE dvd unat ge"
      "memory_inv m2" "same_contents m1 m2"
      "\<forall>i < PAGES m1. perm_at m2 i = (if unat ge \<le> i * PAGE_SIZE then permissions_read_write
        else if i * PAGE_SIZE = unat gs then permissions_none else perm_at m1 i)" by (auto simp: p1)
  define c2 ss where "c2 = xregister_write \<lparr>hart = ?h, main_memory = m2\<rparr> x2 (of_nat (TOTAL_BYTES m2))"
    and "ss = (system_state p)\<lparr>program := (align_down s PAGE_BYTES, pe), stack_guard := (gs, ge)\<rparr>"
  have tot: "TOTAL_BYTES m2 = TOTAL_BYTES ?m" "PAGES m2 = PAGES ?m" "data m2 = with_image ?segs (data ?m)"
    using m2(5) m1(1) by (simp_all add: same_contents_def loaded_def)
  have room: "unat pe \<le> unat gs" "unat ge + length (header_bytes prog) + 256 \<le> TOTAL_BYTES ?m"
    using m2(1,2) pe(2) stack l(2) unfolding stack_room_def by linarith+
  have "xregisters_inv (xregisters ?h)"
    using regs by (simp add: hart_reset_def xregisters_reset_eq) (simp add: xregisters_new_def xregisters_inv_def)
  then have "stack_from (unat ge) c2" "stack_pointer c2 = TOTAL_BYTES ?m"
    using stack_fresh [OF m2(4) _ m2(3), of ?h c2] room(2) m2(6) tot l by (auto simp: c2_def)
  moreover have "main_memory c2 = m2" "pc (hart c2) = entrypoint prog" by (simp_all add: c2_def hart_reset_def)
  ultimately have "stack_ready prog ?m ss c2"
    using tot m1 m2 room l by (simp add: stack_ready_def se ss_def loaded_def stack_room_def)
  moreover have "prepare_stack p1 = Inr (p\<lparr>machine := (machine p)\<lparr>core := c2\<rparr>, system_state := ss\<rparr>)"
    using prep tot(1) l(2) by (simp add: c2_def ss_def p1 set_core_def)
  moreover have "ss = (system_state p)\<lparr>program := program ss, stack_guard := stack_guard ss\<rparr>" by (simp add: ss_def)
  ultimately show ?thesis using load by blast
qed

lemma process_set_up:
  assumes inv: "memory_inv (main_memory (core (machine p)))" and regs: "xregisters_inv (xregisters (hart (core (machine p))))"
    and fits: "process_fits prog (main_memory (core (machine p)))"
  shows "\<exists>c ss. setup_linux_process prog p = Inr (p\<lparr>machine := (machine p)\<lparr>core := c\<rparr>, system_state := ss\<rparr>) \<and>
    ss = (system_state p)\<lparr>program := program ss, heap := heap ss, stack_guard := stack_guard ss\<rparr> \<and>
    pc (hart c) = entrypoint prog \<and>
    process_memory prog (main_memory (core (machine p))) ss (main_memory c) \<and> process_stack prog ss c"
proof -
  let ?m = "main_memory (core (machine p))"
  obtain s e where se: "program_bounds (segments_of prog) = (s, e)" by fastforce
  from load_and_prepare [OF assms] obtain p1 c ss1 where p1: "load_program prog p = Inr p1"
      "prepare_stack p1 = Inr (p\<lparr>machine := (machine p)\<lparr>core := c\<rparr>, system_state := ss1\<rparr>)"
      "ss1 = (system_state p)\<lparr>program := program ss1, stack_guard := stack_guard ss1\<rparr>" "stack_ready prog ?m ss1 c" by blast
  obtain pe gs ge where parts: "program ss1 = (align_down s PAGE_BYTES, pe)" "stack_guard ss1 = (gs, ge)"
    using p1(4) by (cases "stack_guard ss1") (auto simp: stack_ready_def se Let_def)
  note rd = p1(4) [unfolded stack_ready_def se parts Let_def, simplified]
  define ss where "ss = ss1\<lparr>heap := (pe, gs)\<rparr>"
  from push_frames [of "unat ge" c prog ss] rd obtain auxv c1 c2
    where c2: "push_headers (program_headers prog) c = Inr (auxv, c1)" "init_linux_stack [PROCESS_NAME] [PROCESS_ENV] auxv c1 = Inr c2"
      "stacked c c2" "stack_from (unat ge) c2" "process_stack prog ss c2" by (auto simp: ss_def parts)
  from c2(3) rd obtain d where d: "main_memory c2 = (main_memory c)\<lparr>data := d\<rparr>" "\<forall>a < stack_pointer c2. d a = data (main_memory c) a"
    "pc (hart c2) = entrypoint prog" by (auto simp: stacked_def)
  have ge: "unat ge \<le> stack_pointer c2" and inv2: "memory_inv (main_memory c2)" using c2(4) by (simp_all add: stack_from_def)
  have pe: "PAGE_SIZE dvd unat pe" using rd page_up(2) by simp
  have gs: "PAGE_SIZE dvd unat gs" using rd by (metis dvd_add_left_iff dvd_refl)
  have len: "unat (word_of_int (virt_sub gs pe) :: u64) = unat gs - unat pe"
    using rd by (simp add: virt_sub_def unat_sub word_le_nat_alt)
  from heap_pages [OF inv2 _ pe, of "unat gs - unat pe"] gs pe rd d(1) obtain x m1 b where
    b: "allocate_pages (main_memory c2) (Some 0) (TOTAL_BYTES (main_memory c2)) True = (Inr x, m1)"
      "deallocate_pages m1 pe (unat gs - unat pe) = Inr ((main_memory c2)\<lparr>allocated_pages := b\<rparr>)"
      "memory_inv ((main_memory c2)\<lparr>allocated_pages := b\<rparr>)"
      "\<forall>i < PAGES (main_memory c2). buddy_occ b ! i \<longleftrightarrow> \<not> (unat pe \<le> i * PAGE_SIZE \<and> i * PAGE_SIZE < unat gs)" by auto
  define c3 where "c3 = c2\<lparr>main_memory := (main_memory c2)\<lparr>allocated_pages := b\<rparr>\<rparr>"
  have "setup_linux_process prog p = Inr (p\<lparr>machine := (machine p)\<lparr>core := c3\<rparr>, system_state := ss\<rparr>)"
    using p1(1,2) c2(1,2) b(1,2) len
    by (simp add: setup_linux_process_def Let_def parts align_up_aligned [OF pe] ok_or_def core_memory_def set_core_def ss_def c3_def)
  moreover have "ss = (system_state p)\<lparr>program := program ss, heap := heap ss, stack_guard := stack_guard ss\<rparr>"
    using p1(3) by (cases ss1; cases "system_state p") (simp add: ss_def)
  moreover have "process_memory prog ?m ss (main_memory c3)"
    using rd b(3,4) d(1,2) ge gs by (auto simp: process_memory_def se ss_def parts c3_def perm_at_def word_le_nat_alt stack_room_def)
  moreover have "process_stack prog ss c3"
    using c2(5) by (simp add: process_stack_def c3_def string_at_def bytes_of_def Let_def)
  moreover have "pc (hart c3) = entrypoint prog" using d(3) by (simp add: c3_def)
  ultimately show ?thesis by blast
qed

text \<open>
  C11: A process whose program, headers and first frames fit into memory is set up. Nothing but the core and the program,
  heap and guard ranges of the supervisor changes; execution starts at the entry point; memory has the layout and the
  stack the words that are described above. In particular the stack has \<open>STACK_SIZE\<close> bytes, or what the program leaves of
  memory if that is less, the guard page is the one below it, and the heap is all that lies between the program and
  the guard page.
\<close>

theorem setup_linux_process_ok:
  assumes inv: "memory_inv (main_memory (core (machine p)))" and regs: "xregisters_inv (xregisters (hart (core (machine p))))"
    and fits: "process_fits prog (main_memory (core (machine p)))"
  shows "\<exists>c ss. setup_linux_process prog p = Inr (p\<lparr>machine := (machine p)\<lparr>core := c\<rparr>, system_state := ss\<rparr>) \<and>
    ss = (system_state p)\<lparr>program := program ss, heap := heap ss, stack_guard := stack_guard ss\<rparr> \<and>
    pc (hart c) = entrypoint prog \<and>
    process_memory prog (main_memory (core (machine p))) ss (main_memory c) \<and> process_stack prog ss c"
  by (rule process_set_up [OF assms])

text \<open>A program of two instructions at the second page of a memory of one mebibyte.\<close>

definition sample_program :: rv_program where
  "sample_program =
     \<lparr>entrypoint = 0x1000, segments_of = [(0x1000, [0x13, 0, 0, 0, 0x73, 0, 0, 0])],
      program_headers = Some \<lparr>entry_size = 56, num_entries = 0, ph_contents = [],
        ph_permissions = [\<lparr>start_address = 0x1000, mp_length = 8,
          mp_permissions = \<lparr>perm_read = True, perm_write = False, perm_exec = True\<rparr>\<rparr>]\<rparr>\<rparr>"

lemma sample_machine:
  assumes "memory_new 256 = Some m"
  shows "TOTAL_BYTES m = 256 * PAGE_SIZE" "memory_inv m" "main_memory (core (machine (pvm_new demo_tezos 4 m))) = m"
    "xregisters_inv (xregisters (hart (core (machine (pvm_new demo_tezos 4 m)))))"
  using assms memory_new_wf [OF assms, of 0]
  by (auto simp: pvm_new_def machine_new_def hart_new_def xregisters_new_def xregisters_inv_def)

theorem setup_linux_process_ok_witness:
  "\<exists>m p. memory_new 256 = Some m \<and> setup_linux_process sample_program (pvm_new demo_tezos 4 m) = Inr p \<and>
     pc (hart (core (machine p))) = 0x1000"
proof -
  obtain m where m: "memory_new 256 = Some m"
    by (auto simp: memory_new_def buddy_layout_proxy_def buddy_layout_match_def)
  note new = sample_machine [OF m]
  have bounds: "program_bounds (segments_of sample_program) = (0x1000, 0x1008)"
    by (simp add: program_bounds_def sample_program_def u64_saturating_add_def u64_max_def)
  let ?p = "pvm_new demo_tezos 4 m"
  have "process_fits sample_program (main_memory (core (machine ?p)))"
    unfolding process_fits_def bounds new
    by (simp add: sample_program_def header_bytes_def header_permissions_def page_up_def PAGE_SIZE_def OFFSET_BITS_def
        STACK_SIZE_def STACK_PAGES_def PAGE_BYTES_def)
  then have "\<exists>c ss. setup_linux_process sample_program ?p = Inr (?p\<lparr>machine := (machine ?p)\<lparr>core := c\<rparr>, system_state := ss\<rparr>) \<and>
      pc (hart c) = entrypoint sample_program"
    using setup_linux_process_ok [of ?p sample_program] new by auto
  then show ?thesis using m by (auto simp: sample_program_def)
qed

section \<open>Installing a kernel\<close>

lemma image_in_program:
  assumes "segments_ok segs" and "image_of segs a = Some b"
  shows "a < page_up (unat (snd (program_bounds segs)))"
proof -
  from assms(2) have "image_of segs a \<noteq> None" by simp
  then obtain c where c: "c \<in> set segs" "in_chunk a c" by (auto simp: image_of_None)
  then have "a < chunk_end c" by (simp add: in_chunk_def)
  also have "\<dots> \<le> unat (snd (program_bounds segs))" by (rule program_bounds_chunk [OF assms(1) c(1)])
  also have "\<dots> \<le> page_up (unat (snd (program_bounds segs)))" by (rule page_up)
  finally show ?thesis .
qed

text \<open>
  C12: Installing a kernel that is well-formed, needs no relocation and fits into memory succeeds: the machine starts at the entry
  point of the file, and memory holds, at every address that a segment of the file covers, the byte that the file has
  for it, or zero behind the part of a segment that is in the file.
\<close>

theorem install_boot_sector_image:
  assumes "minimal_parse env kernel_elf = Some elf" and "loads_plainly elf"
    and "segments_fit (position elf) kernel_elf (loadable_segments elf)" and "headers_fit elf kernel_elf"
    and "memory_inv (main_memory (core (machine p)))" and "xregisters_inv (xregisters (hart (core (machine p))))"
    and "\<And>prog. from_elf env kernel_elf = Okay prog \<Longrightarrow> process_fits prog (main_memory (core (machine p)))"
  shows "\<exists>p'. install_boot_sector env kernel_elf p = Some p' \<and> pc (hart (core (machine p'))) = e_entry (ehdr elf) \<and>
    (\<forall>a b. file_image (position elf) kernel_elf (loadable_segments elf) a = Some b \<longrightarrow> data (main_memory (core (machine p'))) a = b)"
proof -
  from elf_program [OF assms(1-4)] obtain prog where prog: "from_elf env kernel_elf = Okay prog" "entrypoint prog = e_entry (ehdr elf)"
    "segments_ok (segments_of prog)"
    "\<forall>a. image_of (segments_of prog) a = file_image (position elf) kernel_elf (loadable_segments elf) a" by blast
  from process_set_up [OF assms(5,6) assms(7) [OF prog(1)]] obtain c ss
    where up: "setup_linux_process prog p = Inr (p\<lparr>machine := (machine p)\<lparr>core := c\<rparr>, system_state := ss\<rparr>)"
      and pc: "pc (hart c) = entrypoint prog" and mem: "process_memory prog (main_memory (core (machine p))) ss (main_memory c)" by blast
  have "data (main_memory c) a = b" if "file_image (position elf) kernel_elf (loadable_segments elf) a = Some b" for a b
  proof -
    have img: "image_of (segments_of prog) a = Some b" using prog(4) that by simp
    from image_in_program [OF prog(3) this] mem have "a < unat (snd (stack_guard ss))"
      by (auto simp: process_memory_def word_le_nat_alt split: prod.splits)
    with mem img show ?thesis by (auto simp: process_memory_def with_image_def split: prod.splits)
  qed
  then show ?thesis using prog(1,2) up pc by (auto simp: install_boot_sector_def)
qed

theorem install_boot_sector_image_witness:
  "\<exists>m p. memory_new 256 = Some m \<and> install_boot_sector sample_env [0, 0, 1, 2, 3, 4] (pvm_new demo_tezos 4 m) = Some p \<and>
     pc (hart (core (machine p))) = 16 \<and> data (main_memory (core (machine p))) 19 = 4"
proof -
  obtain m where m: "memory_new 256 = Some m"
    by (auto simp: memory_new_def buddy_layout_proxy_def buddy_layout_match_def)
  note new = sample_machine [OF m]
  let ?p = "pvm_new demo_tezos 4 m" and ?f = "[0, 0, 1, 2, 3, 4]"
  have "process_fits prog (main_memory (core (machine ?p)))" if "from_elf sample_env ?f = Okay prog" for prog
  proof -
    have prog: "prog = \<lparr>entrypoint = 16, segments_of = [(16, [1, 2, 3, 4]), (20, [0, 0, 0, 0])],
       program_headers = Some \<lparr>entry_size = 1, num_entries = 2, ph_contents = [0, 0],
         ph_permissions = [\<lparr>start_address = 16, mp_length = 8,
           mp_permissions = \<lparr>perm_read = True, perm_write = False, perm_exec = True\<rparr>\<rparr>]\<rparr>\<rparr>"
      using that by (simp add: sample_elf_program)
    show ?thesis
      by (simp add: process_fits_def program_bounds_def u64_saturating_add_def u64_max_def prog new header_bytes_def
          header_permissions_def page_up_def PAGE_SIZE_def OFFSET_BITS_def STACK_SIZE_def STACK_PAGES_def PAGE_BYTES_def)
  qed
  then show ?thesis
    using install_boot_sector_image [of sample_env ?f sample_elf ?p] new sample_elf_fits m
    by (auto simp: sample_env_def sample_elf_def)
qed

end
