(* ===== verification/Storage.thy ===== *)
theory Storage
  imports Merkle
begin

text \<open>
  Model of the content-addressed storage of states, \<^verbatim>\<open>storage.rs\<close> and \<^verbatim>\<open>storage/chunked_io.rs\<close>. A store is a
  directory of files, each named by the hash of its content in hexadecimal, here by the hash itself. Writing a new file can
  fail half-way: \<open>fault n\<close> tells whether the n-th write fails, and after how many bytes. Reading and copying files only
  fail when the file is missing. The encoding of a list of hashes and of the values that are stored is bincode's, a
  parameter: \<open>enc\<close> and \<open>dec\<close> for lists of hashes, the sequence of writes for a value, and a decoder that asks for
  exact numbers of bytes for reading it back.
\<close>

section \<open>Store\<close>

definition CHUNK_SIZE :: nat where "CHUNK_SIZE = 4096"

datatype storage_error =
    StorageIoError | CommitSerializationError | InvalidRepo | StorageHashError | NotFound hash | ChunkNotFound hash

type_synonym files = "hash \<rightharpoonup> bytes"

datatype path_kind = Absent | RegularFile | Directory files

record disk =
  files :: files
  writes :: nat

type_synonym fault = "nat \<Rightarrow> nat option"

type_synonym 'a storage = "disk \<Rightarrow> (storage_error + 'a) \<times> disk"

definition storage_bind :: "'a storage \<Rightarrow> ('a \<Rightarrow> 'b storage) \<Rightarrow> 'b storage" where
  "storage_bind f k d = (case f d of (Inl e, d) \<Rightarrow> (Inl e, d) | (Inr x, d) \<Rightarrow> k x d)"

definition storage_return :: "'a \<Rightarrow> 'a storage" where
  "storage_return x d = (Inr x, d)"

definition store_init :: "path_kind \<Rightarrow> storage_error + files" where
  "store_init path =
     (case path of Absent \<Rightarrow> Inr Map.empty | RegularFile \<Rightarrow> Inl InvalidRepo | Directory fs \<Rightarrow> Inr fs)"

definition write_data_if_new :: "fault \<Rightarrow> hash \<Rightarrow> bytes \<Rightarrow> unit storage" where
  "write_data_if_new fault h bs d =
     (case files d h of
        Some _ \<Rightarrow> (Inr (), d)
      | None \<Rightarrow>
          (case fault (writes d) of
             None \<Rightarrow> (Inr (), d\<lparr>files := (files d)(h \<mapsto> bs), writes := Suc (writes d)\<rparr>)
           | Some k \<Rightarrow> (Inl StorageIoError, d\<lparr>files := (files d)(h \<mapsto> take k bs), writes := Suc (writes d)\<rparr>)))"

definition store_data :: "fault \<Rightarrow> (bytes \<Rightarrow> bytes) \<Rightarrow> bytes \<Rightarrow> hash storage" where
  "store_data fault digest bs d =
     (case blake2b_hash_bytes digest bs of
        Inl _ \<Rightarrow> (Inl StorageHashError, d)
      | Inr h \<Rightarrow> storage_bind (write_data_if_new fault h bs) (\<lambda>_. storage_return h) d)"

definition load_data :: "files \<Rightarrow> hash \<Rightarrow> storage_error + bytes" where
  "load_data fs h = (case fs h of Some bs \<Rightarrow> Inr bs | None \<Rightarrow> Inl (NotFound h))"

definition copy_data :: "files \<Rightarrow> hash \<Rightarrow> files \<Rightarrow> storage_error + files" where
  "copy_data fs h target = (case fs h of Some bs \<Rightarrow> Inr (target(h \<mapsto> bs)) | None \<Rightarrow> Inl StorageIoError)"

section \<open>Commits\<close>

fun store_chunks :: "fault \<Rightarrow> (bytes \<Rightarrow> bytes) \<Rightarrow> bytes list \<Rightarrow> hash list storage" where
  "store_chunks fault digest [] = storage_return []"
| "store_chunks fault digest (c # cs) =
     storage_bind (store_data fault digest c) (\<lambda>h.
     storage_bind (store_chunks fault digest cs) (\<lambda>hs. storage_return (h # hs)))"

definition store_commit :: "fault \<Rightarrow> (bytes \<Rightarrow> bytes) \<Rightarrow> (hash list \<Rightarrow> bytes option) \<Rightarrow> hash list \<Rightarrow> hash storage" where
  "store_commit fault digest enc hs =
     (case enc hs of
        None \<Rightarrow> (\<lambda>d. (Inl CommitSerializationError, d))
      | Some commit_bytes \<Rightarrow> store_data fault digest commit_bytes)"

definition repo_commit :: "fault \<Rightarrow> (bytes \<Rightarrow> bytes) \<Rightarrow> (hash list \<Rightarrow> bytes option) \<Rightarrow> bytes \<Rightarrow> hash storage" where
  "repo_commit fault digest enc bs =
     storage_bind (store_chunks fault digest (leaf_chunks CHUNK_SIZE bs)) (store_commit fault digest enc)"

fun load_chunks :: "files \<Rightarrow> hash list \<Rightarrow> storage_error + bytes" where
  "load_chunks fs [] = Inr []"
| "load_chunks fs (h # hs) =
     (case load_data fs h of
        Inl (NotFound h) \<Rightarrow> Inl (ChunkNotFound h)
      | Inl e \<Rightarrow> Inl e
      | Inr c \<Rightarrow> map_sum id (\<lambda>bs. c @ bs) (load_chunks fs hs))"

definition repo_checkout :: "(bytes \<Rightarrow> hash list option) \<Rightarrow> files \<Rightarrow> hash \<Rightarrow> storage_error + bytes" where
  "repo_checkout dec fs h =
     (case load_data fs h of
        Inl e \<Rightarrow> Inl e
      | Inr bs \<Rightarrow> (case dec bs of None \<Rightarrow> Inl CommitSerializationError | Some hs \<Rightarrow> load_chunks fs hs))"

section \<open>Writing in chunks\<close>

record chunk_writer =
  cw_hashes :: "hash list"
  cw_buffer :: bytes

definition chunk_writer_new :: chunk_writer where
  "chunk_writer_new = \<lparr>cw_hashes = [], cw_buffer = []\<rparr>"

definition flush_buffer :: "fault \<Rightarrow> (bytes \<Rightarrow> bytes) \<Rightarrow> chunk_writer \<Rightarrow> chunk_writer storage" where
  "flush_buffer fault digest w =
     storage_bind (store_data fault digest (cw_buffer w)) (\<lambda>h.
       storage_return \<lparr>cw_hashes = cw_hashes w @ [h], cw_buffer = []\<rparr>)"

definition chunk_writer_finalise :: "fault \<Rightarrow> (bytes \<Rightarrow> bytes) \<Rightarrow> chunk_writer \<Rightarrow> hash list storage" where
  "chunk_writer_finalise fault digest w =
     (if cw_buffer w \<noteq> []
      then storage_bind (flush_buffer fault digest w) (\<lambda>w. storage_return (cw_hashes w))
      else storage_return (cw_hashes w))"

lemma flush_buffer_empty: "flush_buffer fault digest w d = (Inr w', d') \<Longrightarrow> cw_buffer w' = []"
  by (auto simp: flush_buffer_def storage_bind_def storage_return_def split: prod.splits sum.splits)

lemma write_progress:
  assumes "bs \<noteq> []" and "n = min (CHUNK_SIZE - length b) (length bs)"
  shows "length (drop n bs) < length bs \<or> n = 0 \<and> b \<noteq> [] \<and> CHUNK_SIZE - length b = n"
proof (cases "n = 0")
  case True
  then have "CHUNK_SIZE \<le> length b" using assms by (auto simp: min_def split: if_splits)
  then show ?thesis using True by (auto simp: CHUNK_SIZE_def)
qed (use assms in auto)

text \<open>\<^verbatim>\<open>io::Write::write\<close>: the loop ends because a full buffer is flushed and another takes at least one byte.\<close>

function chunk_writer_write :: "fault \<Rightarrow> (bytes \<Rightarrow> bytes) \<Rightarrow> bytes \<Rightarrow> chunk_writer \<Rightarrow> chunk_writer storage" where
  "chunk_writer_write fault digest bs w d =
     (if bs = [] then (Inr w, d)
      else
        let rem_buffer_len = CHUNK_SIZE - length (cw_buffer w);
            new_data_len = min rem_buffer_len (length bs);
            w = w\<lparr>cw_buffer := cw_buffer w @ take new_data_len bs\<rparr>
        in if rem_buffer_len = new_data_len
           then (case flush_buffer fault digest w d of
                   (Inl e, d) \<Rightarrow> (Inl e, d)
                 | (Inr w, d) \<Rightarrow> chunk_writer_write fault digest (drop new_data_len bs) w d)
           else chunk_writer_write fault digest (drop new_data_len bs) w d)"
  by pat_completeness auto
termination
proof (relation "measures [\<lambda>(_, _, bs, _, _). length bs, \<lambda>(_, _, _, w, _). length (cw_buffer w)]", goal_cases)
  case (2 fault digest bs w d rem n w1 res d1 w2)
  have "cw_buffer w2 = []" by (rule flush_buffer_empty [of fault digest w1 d w2 d1]) (simp only: 2(6) [symmetric] 2(7))
  then show ?case using write_progress [OF 2(1) 2(3) [unfolded 2(2)]] by auto
next
  case (3 fault digest bs w d rem n w1)
  then show ?case using write_progress [OF 3(1) 3(3) [unfolded 3(2)]] by auto
qed auto

declare chunk_writer_write.simps [simp del]

fun write_pieces :: "fault \<Rightarrow> (bytes \<Rightarrow> bytes) \<Rightarrow> bytes list \<Rightarrow> chunk_writer \<Rightarrow> chunk_writer storage" where
  "write_pieces fault digest [] w = storage_return w"
| "write_pieces fault digest (bs # rest) w =
     storage_bind (chunk_writer_write fault digest bs w) (write_pieces fault digest rest)"

text \<open>
  \<^verbatim>\<open>serialise_into\<close> makes a sequence of writes; an error of a write comes back as an error of the serialisation.
\<close>

definition serialisation_error :: "'a storage \<Rightarrow> 'a storage" where
  "serialisation_error f d = (case f d of (Inl _, d) \<Rightarrow> (Inl CommitSerializationError, d) | (Inr x, d) \<Rightarrow> (Inr x, d))"

definition commit_serialised ::
    "fault \<Rightarrow> (bytes \<Rightarrow> bytes) \<Rightarrow> (hash list \<Rightarrow> bytes option) \<Rightarrow> ('s \<Rightarrow> bytes list) \<Rightarrow> 's \<Rightarrow> hash storage" where
  "commit_serialised fault digest enc serialise_into subject =
     storage_bind (serialisation_error (write_pieces fault digest (serialise_into subject) chunk_writer_new)) (\<lambda>w.
     storage_bind (chunk_writer_finalise fault digest w) (store_commit fault digest enc))"

section \<open>Reading in chunks\<close>

record chunked_reader =
  cr_hashes :: "hash list"
  cr_buffer :: bytes
  cr_position :: nat

definition chunked_reader_new :: "(bytes \<Rightarrow> hash list option) \<Rightarrow> files \<Rightarrow> hash \<Rightarrow> storage_error + chunked_reader" where
  "chunked_reader_new dec fs h =
     (case load_data fs h of
        Inl e \<Rightarrow> Inl e
      | Inr raw_hashes \<Rightarrow>
          (case dec raw_hashes of
             None \<Rightarrow> Inl CommitSerializationError
           | Some hashes \<Rightarrow> Inr \<lparr>cr_hashes = hashes, cr_buffer = [], cr_position = 0\<rparr>))"

definition next_chunk :: "files \<Rightarrow> chunked_reader \<Rightarrow> storage_error + chunked_reader" where
  "next_chunk fs r =
     (case cr_hashes r of
        [] \<Rightarrow> Inr r
      | h # hs \<Rightarrow>
          (case load_data fs h of
             Inl e \<Rightarrow> Inl e
           | Inr bs \<Rightarrow> Inr \<lparr>cr_hashes = hs, cr_buffer = bs, cr_position = 0\<rparr>))"

text \<open>\<^verbatim>\<open>io::Read::read\<close> into a buffer of \<open>n\<close> bytes: what the cursor has left of the chunk, at most \<open>n\<close> bytes.\<close>

definition chunked_read :: "files \<Rightarrow> nat \<Rightarrow> chunked_reader \<Rightarrow> storage_error + bytes \<times> chunked_reader" where
  "chunked_read fs n r =
     (case (if length (cr_buffer r) \<le> cr_position r then next_chunk fs r else Inr r) of
        Inl e \<Rightarrow> Inl e
      | Inr r \<Rightarrow>
          let out = take n (drop (cr_position r) (cr_buffer r))
          in Inr (out, r\<lparr>cr_position := cr_position r + length out\<rparr>))"

text \<open>\<^verbatim>\<open>read_exact\<close> of the standard library: reads until the buffer is full; nothing read means the end of the input.\<close>

function read_exact :: "files \<Rightarrow> nat \<Rightarrow> chunked_reader \<Rightarrow> (storage_error + bytes \<times> chunked_reader) option" where
  "read_exact fs n r =
     (if n = 0 then Some (Inr ([], r))
      else
        case chunked_read fs n r of
          Inl e \<Rightarrow> Some (Inl e)
        | Inr (out, r) \<Rightarrow>
            if out = [] then None
            else map_option (map_sum id (\<lambda>(bs, r). (out @ bs, r))) (read_exact fs (n - length out) r))"
  by pat_completeness auto
termination
  by (relation "measure (\<lambda>(_, n, _). n)") auto

declare read_exact.simps [simp del]

text \<open>A decoder asks for bytes until it has a value or refuses.\<close>

datatype 'v decoder = Decoded 'v | Refused | Request nat "bytes \<Rightarrow> 'v decoder"

primrec deserialise_from :: "files \<Rightarrow> 'v decoder \<Rightarrow> chunked_reader \<Rightarrow> storage_error + 'v" where
  "deserialise_from fs (Decoded v) r = Inr v"
| "deserialise_from fs Refused r = Inl CommitSerializationError"
| "deserialise_from fs (Request n k) r =
     (case read_exact fs n r of
        Some (Inr (bs, r)) \<Rightarrow> deserialise_from fs (k bs) r
      | _ \<Rightarrow> Inl CommitSerializationError)"

definition checkout_serialised ::
    "(bytes \<Rightarrow> hash list option) \<Rightarrow> 'v decoder \<Rightarrow> files \<Rightarrow> hash \<Rightarrow> storage_error + 'v" where
  "checkout_serialised dec decoder fs h =
     (case chunked_reader_new dec fs h of Inl e \<Rightarrow> Inl e | Inr r \<Rightarrow> deserialise_from fs decoder r)"

section \<open>Snapshots\<close>

fun copy_chunks :: "files \<Rightarrow> hash list \<Rightarrow> files \<Rightarrow> storage_error + files" where
  "copy_chunks fs [] target = Inr target"
| "copy_chunks fs (h # hs) target =
     (case copy_data fs h target of Inl e \<Rightarrow> Inl e | Inr target \<Rightarrow> copy_chunks fs hs target)"

definition export_snapshot :: "(bytes \<Rightarrow> hash list option) \<Rightarrow> files \<Rightarrow> hash \<Rightarrow> path_kind \<Rightarrow> storage_error + files" where
  "export_snapshot dec fs h path =
     (case (case path of
              Absent \<Rightarrow> Inr Map.empty
            | RegularFile \<Rightarrow> Inl StorageIoError
            | Directory target \<Rightarrow> if dom target = {} then Inr target else Inl InvalidRepo) of
        Inl e \<Rightarrow> Inl e
      | Inr target \<Rightarrow>
          (case load_data fs h of
             Inl e \<Rightarrow> Inl e
           | Inr bs \<Rightarrow>
               (case dec bs of
                  None \<Rightarrow> Inl CommitSerializationError
                | Some hs \<Rightarrow>
                    (case copy_chunks fs hs target of
                       Inl e \<Rightarrow> Inl e
                     | Inr target \<Rightarrow> copy_data fs h target))))"

end
