(* ===== verification/Storage_Correct.thy ===== *)
theory Storage_Correct
  imports Storage Merkle_Correct
begin

text \<open>
  Properties of the storage. Writing in pieces stores the same chunks as cutting the whole; a commit can be checked out
  again, whole or through the reader, and later commits keep it; a snapshot has what it was made of. A write that
  fails half-way leaves a file under a hash that is not its own.
\<close>

section \<open>A hash function for examples\<close>

text \<open>It keeps the length and the first bytes.\<close>

definition demo_digest :: "bytes \<Rightarrow> bytes" where
  "demo_digest bs = take 32 (of_nat (length bs) # bs @ replicate 32 0)"

definition demo_commit :: bytes where "demo_commit = [9]"

definition demo_enc :: "hash list \<Rightarrow> bytes option" where "demo_enc hs = Some demo_commit"

definition demo_dec :: "bytes \<Rightarrow> hash list option" where "demo_dec bs = Some [demo_digest [1, 2, 3]]"

lemma demo_digest_ok: "digest_ok demo_digest" "demo_digest [1, 2, 3] \<noteq> demo_digest demo_commit"
  by (auto simp: digest_ok_def demo_digest_def demo_commit_def DIGEST_SIZE_def min_def)

lemma demo_chunks: "leaf_chunks 4096 [1, 2, 3] = [[1, 2, 3 :: u8]]"
  by (simp add: chunks_Cons)

section \<open>Storing chunks\<close>

lemma storage_bind_simps:
  "storage_bind f k d = (case f d of (Inl e, d) \<Rightarrow> (Inl e, d) | (Inr x, d) \<Rightarrow> k x d)"
  "storage_return x d = (Inr x, d)"
  by (simp_all add: storage_bind_def storage_return_def)

text \<open>Runs a storage operation and continues when it succeeds.\<close>

lemma store_chunks_Cons:
  "store_chunks fault digest (c # cs) d =
     (case store_data fault digest c d of
        (Inl e, d) \<Rightarrow> (Inl e, d)
      | (Inr h, d) \<Rightarrow> map_prod (map_sum id ((#) h)) id (store_chunks fault digest cs d))"
  by (auto simp: storage_bind_simps split: prod.split sum.split)

lemma store_chunks_append:
  "store_chunks fault digest (cs @ cs') d =
     (case store_chunks fault digest cs d of
        (Inl e, d) \<Rightarrow> (Inl e, d)
      | (Inr hs, d) \<Rightarrow> map_prod (map_sum id ((@) hs)) id (store_chunks fault digest cs' d))"
proof (induction cs arbitrary: d)
  case Nil
  show ?case by (cases "store_chunks fault digest cs' d") (auto simp: storage_bind_simps map_sum_def split: sum.split)
next
  case (Cons c cs)
  obtain r d1 where "store_data fault digest c d = (r, d1)" by fastforce
  then show ?case
    by (cases r) (auto simp: Cons store_chunks_Cons map_prod_def map_sum_def split: prod.split sum.split simp del: store_chunks.simps)
qed

text \<open>The writer after storing chunks, with what is left in the buffer.\<close>

definition writer_after :: "chunk_writer \<Rightarrow> bytes \<Rightarrow> (storage_error + hash list) \<times> disk \<Rightarrow> (storage_error + chunk_writer) \<times> disk" where
  "writer_after w rest = map_prod (map_sum id (\<lambda>hs. \<lparr>cw_hashes = cw_hashes w @ hs, cw_buffer = rest\<rparr>)) id"

lemma CHUNK_SIZE_pos: "0 < CHUNK_SIZE"
  by (simp add: CHUNK_SIZE_def)

lemma chunk_writer_write_chunks:
  assumes "length (cw_buffer w) < CHUNK_SIZE"
  shows "chunk_writer_write fault digest bs w d =
    writer_after w (rest_chunk CHUNK_SIZE (cw_buffer w @ bs))
      (store_chunks fault digest (full_chunks CHUNK_SIZE (cw_buffer w @ bs)) d)"
  using assms
proof (induction fault digest bs w d rule: chunk_writer_write.induct)
  case (1 fault digest bs w d)
  let ?b = "cw_buffer w"
  let ?n = "min (CHUNK_SIZE - length ?b) (length bs)"
  show ?case
  proof (cases "bs = []")
    case True
    then show ?thesis
      using "1.prems" chunks_short [of ?b CHUNK_SIZE]
      by (simp add: chunk_writer_write.simps writer_after_def storage_bind_simps)
  next
    case False
    show ?thesis
    proof (cases "CHUNK_SIZE - length ?b = ?n")
      case full: True
      have len: "CHUNK_SIZE \<le> length (?b @ bs)" "length (?b @ take ?n bs) = CHUNK_SIZE" using full "1.prems" by auto
      then have front: "take CHUNK_SIZE (?b @ bs) = ?b @ take ?n bs" "drop CHUNK_SIZE (?b @ bs) = drop ?n bs"
        using full "1.prems" by auto
      obtain r d1 where r: "store_data fault digest (?b @ take ?n bs) d = (r, d1)" by fastforce
      note parts = chunks_long [OF CHUNK_SIZE_pos len(1), unfolded front]
      show ?thesis
      proof (cases r)
        case (Inl e)
        then show ?thesis
          using False full r parts
          by (simp add: chunk_writer_write.simps [of _ _ bs] Let_def flush_buffer_def storage_bind_simps writer_after_def)
      next
        case (Inr h)
        let ?w = "\<lparr>cw_hashes = cw_hashes w @ [h], cw_buffer = []\<rparr>"
        have flush: "flush_buffer fault digest (w\<lparr>cw_buffer := ?b @ take ?n bs\<rparr>) d = (Inr ?w, d1)"
          using r Inr by (simp add: flush_buffer_def storage_bind_simps)
        have "chunk_writer_write fault digest bs w d = chunk_writer_write fault digest (drop ?n bs) ?w d1"
          using False full flush by (simp add: chunk_writer_write.simps [of _ _ bs] Let_def)
        also have "\<dots> = writer_after ?w (rest_chunk CHUNK_SIZE (drop ?n bs)) (store_chunks fault digest (full_chunks CHUNK_SIZE (drop ?n bs)) d1)"
          using "1.IH"(1) [OF False refl refl refl full flush [symmetric] refl] CHUNK_SIZE_pos by simp
        finally show ?thesis
          using r Inr parts by (cases "store_chunks fault digest (full_chunks CHUNK_SIZE (drop ?n bs)) d1")
            (auto simp: store_chunks_Cons writer_after_def map_sum_def split: sum.split simp del: store_chunks.simps)
      qed
    next
      case short: False
      then have n: "?n = length bs" "length (?b @ bs) < CHUNK_SIZE" using "1.prems" by auto
      have "chunk_writer_write fault digest bs w d = (Inr (w\<lparr>cw_buffer := ?b @ bs\<rparr>), d)"
        using False short n by (simp add: chunk_writer_write.simps [of _ _ bs] chunk_writer_write.simps [of _ _ "[]"] Let_def)
      then show ?thesis using chunks_short [OF n(2)] by (simp add: writer_after_def storage_bind_simps)
    qed
  qed
qed

lemma write_pieces_chunks:
  assumes "length (cw_buffer w) < CHUNK_SIZE"
  shows "write_pieces fault digest ps w d =
    writer_after w (rest_chunk CHUNK_SIZE (cw_buffer w @ concat ps))
      (store_chunks fault digest (full_chunks CHUNK_SIZE (cw_buffer w @ concat ps)) d)"
  using assms
proof (induction ps arbitrary: w d)
  case Nil
  then show ?case using chunks_short [of "cw_buffer w" CHUNK_SIZE] by (simp add: writer_after_def storage_bind_simps)
next
  case (Cons p ps)
  let ?b = "cw_buffer w @ p"
  obtain r d1 where r: "store_chunks fault digest (full_chunks CHUNK_SIZE ?b) d = (r, d1)" by fastforce
  note app = chunks_append [OF CHUNK_SIZE_pos, of ?b "concat ps"]
  show ?case
  proof (cases r)
    case (Inl e)
    then show ?thesis using r app Cons.prems
      by (simp add: storage_bind_simps chunk_writer_write_chunks writer_after_def store_chunks_append)
  next
    case (Inr hs)
    let ?w = "\<lparr>cw_hashes = cw_hashes w @ hs, cw_buffer = rest_chunk CHUNK_SIZE ?b\<rparr>"
    have "write_pieces fault digest (p # ps) w d = write_pieces fault digest ps ?w d1"
      using r Inr Cons.prems by (simp add: storage_bind_simps chunk_writer_write_chunks writer_after_def)
    also have "\<dots> = writer_after ?w (rest_chunk CHUNK_SIZE (rest_chunk CHUNK_SIZE ?b @ concat ps))
        (store_chunks fault digest (full_chunks CHUNK_SIZE (rest_chunk CHUNK_SIZE ?b @ concat ps)) d1)"
      using length_rest_chunk [OF CHUNK_SIZE_pos, of ?b] by (subst Cons.IH) simp_all
    finally show ?thesis
      using r Inr app
      by (cases "store_chunks fault digest (full_chunks CHUNK_SIZE (rest_chunk CHUNK_SIZE ?b @ concat ps)) d1")
         (auto simp: writer_after_def store_chunks_append map_sum_def split: sum.split)
  qed
qed

text \<open>An outcome without the kind of its error.\<close>

definition storage_outcome :: "(storage_error + 'a) \<times> disk \<Rightarrow> 'a option \<times> disk" where
  "storage_outcome = map_prod (\<lambda>r. case r of Inr x \<Rightarrow> Some x | Inl _ \<Rightarrow> None) id"

lemma outcome_bind:
  "storage_outcome (f d) = storage_outcome (g d) \<Longrightarrow> (\<And>x d. storage_outcome (k x d) = storage_outcome (l x d)) \<Longrightarrow>
     storage_outcome (storage_bind f k d) = storage_outcome (storage_bind g l d)"
  by (cases "f d"; cases "g d"; cases "fst (f d)"; cases "fst (g d)") (auto simp: storage_bind_simps storage_outcome_def)

lemma write_and_finalise:
  "storage_outcome (storage_bind (serialisation_error (write_pieces fault digest ps chunk_writer_new)) (chunk_writer_finalise fault digest) d) =
   storage_outcome (store_chunks fault digest (leaf_chunks CHUNK_SIZE (concat ps)) d)"
proof -
  let ?f = "full_chunks CHUNK_SIZE (concat ps)" and ?r = "rest_chunk CHUNK_SIZE (concat ps)"
  have w: "write_pieces fault digest ps chunk_writer_new d = writer_after chunk_writer_new ?r (store_chunks fault digest ?f d)"
    using CHUNK_SIZE_pos by (subst write_pieces_chunks) (simp_all add: chunk_writer_new_def)
  obtain r d1 where r: "store_chunks fault digest ?f d = (r, d1)" by fastforce
  show ?thesis
    using w r CHUNK_SIZE_pos
    by (cases r; cases "?r = []"; cases "store_data fault digest ?r d1"; cases "fst (store_data fault digest ?r d1)")
       (auto simp: serialisation_error_def storage_bind_simps writer_after_def chunk_writer_new_def chunks_eq_full store_chunks_append
         chunk_writer_finalise_def flush_buffer_def storage_outcome_def store_chunks_Cons simp del: store_chunks.simps(2))
qed

text \<open>
  Committing a value that is written in pieces of any lengths and committing the bytes of all the pieces at once
  have the same outcome: the same files on the disk, the same commit identifier, and they fail at the same write.
\<close>

lemma serialised_outcome:
  "storage_outcome (commit_serialised fault digest enc serialise_into v d) =
   storage_outcome (repo_commit fault digest enc (concat (serialise_into v)) d)"
proof -
  have assoc: "storage_bind f (\<lambda>x. storage_bind (g x) k) d = storage_bind (storage_bind f g) k d" for f g k and d :: disk
    by (simp add: storage_bind_def split: prod.split sum.split)
  show ?thesis
    unfolding commit_serialised_def repo_commit_def assoc by (rule outcome_bind [OF write_and_finalise refl])
qed

section \<open>Commits\<close>

text \<open>
  A disk without faults whose files carry their own hashes; the hash function has no collision among the data \<open>D\<close>
  that are stored.
\<close>

definition reliable :: "fault \<Rightarrow> (bytes \<Rightarrow> bytes) \<Rightarrow> bytes set \<Rightarrow> disk \<Rightarrow> bool" where
  "reliable fault digest D d \<longleftrightarrow>
     digest_ok digest \<and> (\<forall>n. fault n = None) \<and> inj_on digest D \<and>
     (\<forall>h bs. files d h = Some bs \<longrightarrow> h = digest bs \<and> bs \<in> D)"

lemma stored_eq:
  assumes "reliable fault digest D d" and "files d (digest bs) = Some x" and "bs \<in> D"
  shows "x = bs"
proof -
  have "digest bs = digest x" "x \<in> D" "inj_on digest D" using assms(1,2) by (auto simp: reliable_def)
  then show ?thesis using assms(3) by (metis inj_onD)
qed

lemma store_data_ok:
  assumes "reliable fault digest D d" and "bs \<in> D"
  shows "\<exists>d'. store_data fault digest bs d = (Inr (digest bs), d') \<and> reliable fault digest D d' \<and>
    files d' = (files d)(digest bs \<mapsto> bs)"
proof -
  from assms(1) have r: "digest_ok digest" "\<forall>n. fault n = None" "inj_on digest D"
    "\<And>h x. files d h = Some x \<Longrightarrow> h = digest x \<and> x \<in> D" by (auto simp: reliable_def)
  define d' where "d' = (if files d (digest bs) = None then d\<lparr>files := (files d)(digest bs \<mapsto> bs), writes := Suc (writes d)\<rparr> else d)"
  have files: "files d' = (files d)(digest bs \<mapsto> bs)"
  proof (cases "files d (digest bs)")
    case (Some x)
    then have "x = bs" by (rule stored_eq [OF assms(1) _ assms(2)])
    with Some show ?thesis by (auto simp: d'_def fun_eq_iff)
  qed (simp add: d'_def)
  have "store_data fault digest bs d = (Inr (digest bs), d')"
    using r(1,2) by (auto simp: store_data_def storage_bind_simps write_data_if_new_def d'_def split: option.split)
  moreover have "reliable fault digest D d'"
    using r assms(2) unfolding reliable_def files by auto
  ultimately show ?thesis using files by blast
qed

lemma store_chunks_ok:
  assumes "reliable fault digest D d" and "set cs \<subseteq> D"
  shows "\<exists>d'. store_chunks fault digest cs d = (Inr (map digest cs), d') \<and> reliable fault digest D d' \<and>
    files d \<subseteq>\<^sub>m files d' \<and> (\<forall>c\<in>set cs. files d' (digest c) = Some c)"
  using assms
proof (induction cs arbitrary: d)
  case (Cons c cs)
  from store_data_ok [OF Cons.prems(1), of c] Cons.prems(2) obtain d1 where d1: "store_data fault digest c d = (Inr (digest c), d1)"
    "reliable fault digest D d1" "files d1 = (files d)(digest c \<mapsto> c)" by auto
  have "files d \<subseteq>\<^sub>m files d1"
  proof -
    have "x = c" if "files d (digest c) = Some x" for x
      using stored_eq [OF Cons.prems(1) that] Cons.prems(2) by simp
    then show ?thesis by (auto simp: d1(3) map_le_def dom_def)
  qed
  moreover from Cons.IH [OF d1(2)] Cons.prems(2) obtain d2 where d2: "store_chunks fault digest cs d1 = (Inr (map digest cs), d2)"
    "reliable fault digest D d2" "files d1 \<subseteq>\<^sub>m files d2" "\<forall>c\<in>set cs. files d2 (digest c) = Some c" by auto
  moreover have "files d2 (digest c) = Some c" using d2(3) d1(3) by (auto simp: map_le_def dom_def)
  ultimately show ?case
    using d1(1) by (auto simp: store_chunks_Cons intro: map_le_trans simp del: store_chunks.simps)
qed (auto simp: storage_bind_simps)

lemma load_chunks_ok: "\<forall>c\<in>set cs. fs (digest c) = Some c \<Longrightarrow> load_chunks fs (map digest cs) = Inr (concat cs)"
  by (induction cs) (simp_all add: load_data_def)

lemma load_chunks_mono: "fs \<subseteq>\<^sub>m fs' \<Longrightarrow> load_chunks fs hs = Inr bs \<Longrightarrow> load_chunks fs' hs = Inr bs"
proof (induction hs arbitrary: bs)
  case (Cons h hs)
  obtain c where c: "fs h = Some c" using Cons.prems(2) by (cases "fs h") (auto simp: load_data_def)
  then obtain bs' where bs': "load_chunks fs hs = Inr bs'" "bs = c @ bs'"
    using Cons.prems(2) by (cases "load_chunks fs hs") (auto simp: load_data_def)
  have "fs' h = Some c" using Cons.prems(1) c by (auto simp: map_le_def dom_def)
  with Cons.IH [OF Cons.prems(1) bs'(1)] bs'(2) show ?case by (simp add: load_data_def)
qed simp

lemma checkout_mono: "fs \<subseteq>\<^sub>m fs' \<Longrightarrow> repo_checkout dec fs h = Inr bs \<Longrightarrow> repo_checkout dec fs' h = Inr bs"
proof -
  assume le: "fs \<subseteq>\<^sub>m fs'" and co: "repo_checkout dec fs h = Inr bs"
  then obtain raw hs where "fs h = Some raw" "dec raw = Some hs" "load_chunks fs hs = Inr bs"
    by (auto simp: repo_checkout_def load_data_def split: option.splits)
  moreover from this have "fs' h = Some raw" using le by (auto simp: map_le_def dom_def)
  ultimately show ?thesis using load_chunks_mono [OF le] by (simp add: repo_checkout_def load_data_def)
qed

lemma repo_commit_ok:
  assumes ok: "reliable fault digest D d" and raw: "enc (map digest (leaf_chunks CHUNK_SIZE bs)) = Some raw"
    and D: "set (leaf_chunks CHUNK_SIZE bs) \<subseteq> D" "raw \<in> D"
  shows "\<exists>d'. repo_commit fault digest enc bs d = (Inr (digest raw), d') \<and> reliable fault digest D d' \<and> files d \<subseteq>\<^sub>m files d' \<and>
    files d' (digest raw) = Some raw \<and>
    (\<forall>c\<in>set (leaf_chunks CHUNK_SIZE bs). files d' (digest c) = Some c)"
proof -
  let ?cs = "leaf_chunks CHUNK_SIZE bs"
  from store_chunks_ok [OF ok D(1)] obtain d1 where d1: "store_chunks fault digest ?cs d = (Inr (map digest ?cs), d1)"
    "reliable fault digest D d1" "files d \<subseteq>\<^sub>m files d1" "\<forall>c\<in>set ?cs. files d1 (digest c) = Some c" by blast
  from store_chunks_ok [OF d1(2), of "[raw]"] D(2) obtain d2 where d2: "store_chunks fault digest [raw] d1 = (Inr [digest raw], d2)"
    "reliable fault digest D d2" "files d1 \<subseteq>\<^sub>m files d2" "files d2 (digest raw) = Some raw" by auto
  from store_data_ok [OF d1(2) D(2)] d2(1) have "store_data fault digest raw d1 = (Inr (digest raw), d2)"
    by (auto simp: storage_bind_simps)
  then have "repo_commit fault digest enc bs d = (Inr (digest raw), d2)"
    using d1(1) raw by (simp add: repo_commit_def storage_bind_simps store_commit_def)
  moreover have "\<forall>c\<in>set ?cs. files d2 (digest c) = Some c" using d1(4) d2(3) by (auto simp: map_le_def dom_def)
  ultimately show ?thesis using d2 map_le_trans [OF d1(3) d2(3)] by blast
qed

text \<open>
  What is committed to a reliable disk can be checked out again under the identifier that the commit returns, and what
  could be checked out before can still be: commits never change or hide earlier ones.
\<close>

lemma commit_checkout:
  assumes "reliable fault digest D d" and "enc (map digest (leaf_chunks CHUNK_SIZE bs)) = Some raw"
    and "dec raw = Some (map digest (leaf_chunks CHUNK_SIZE bs))"
    and "set (leaf_chunks CHUNK_SIZE bs) \<subseteq> D" and "raw \<in> D"
  shows "\<exists>d'. repo_commit fault digest enc bs d = (Inr (digest raw), d') \<and> reliable fault digest D d' \<and>
    repo_checkout dec (files d') (digest raw) = Inr bs \<and>
    (\<forall>h' bs'. repo_checkout dec (files d) h' = Inr bs' \<longrightarrow> repo_checkout dec (files d') h' = Inr bs')"
proof -
  from repo_commit_ok [where fault = fault and enc = enc, OF assms(1,2,4,5)] obtain d' where
    c: "repo_commit fault digest enc bs d = (Inr (digest raw), d')" "reliable fault digest D d'"
    "files d \<subseteq>\<^sub>m files d'" "files d' (digest raw) = Some raw"
    "\<forall>c\<in>set (leaf_chunks CHUNK_SIZE bs). files d' (digest c) = Some c" by blast
  then have "repo_checkout dec (files d') (digest raw) = Inr bs"
    using load_chunks_ok [of _ "files d'" digest, OF c(5)] assms(3) CHUNK_SIZE_pos
    by (simp add: repo_checkout_def load_data_def concat_chunks)
  with c(1,2) checkout_mono [OF c(3)] show ?thesis by blast
qed

section \<open>Reading in chunks\<close>

text \<open>The decoder on all the bytes at once.\<close>

primrec decode_bytes :: "'v decoder \<Rightarrow> bytes \<Rightarrow> 'v option" where
  "decode_bytes (Decoded v) bs = Some v"
| "decode_bytes Refused bs = None"
| "decode_bytes (Request n k) bs = (if length bs < n then None else decode_bytes (k (take n bs)) (drop n bs))"

text \<open>What a reader has still to give, when all its chunks are there and none is empty.\<close>

definition reader_rest :: "files \<Rightarrow> chunked_reader \<Rightarrow> bytes \<Rightarrow> bool" where
  "reader_rest fs r bs \<longleftrightarrow>
     (\<exists>cs. list_all2 (\<lambda>h c. fs h = Some c \<and> c \<noteq> []) (cr_hashes r) cs \<and> bs = drop (cr_position r) (cr_buffer r) @ concat cs)"

lemma chunked_read_rest:
  assumes "reader_rest fs r bs" and "0 < n"
  shows "\<exists>out r' rest. chunked_read fs n r = Inr (out, r') \<and> reader_rest fs r' rest \<and> bs = out @ rest \<and> length out \<le> n \<and>
    (out = [] \<longleftrightarrow> bs = [])"
proof -
  from assms(1) obtain cs where cs: "list_all2 (\<lambda>h c. fs h = Some c \<and> c \<noteq> []) (cr_hashes r) cs"
    "bs = drop (cr_position r) (cr_buffer r) @ concat cs" by (auto simp: reader_rest_def)
  have step: "\<exists>out r' rest. (let out = take n (drop (cr_position q) (cr_buffer q)) in Inr (out, q\<lparr>cr_position := cr_position q + length out\<rparr>)) =
        (Inr (out, r') :: storage_error + bytes \<times> chunked_reader) \<and> reader_rest fs r' rest \<and> bs = out @ rest \<and> length out \<le> n \<and> (out = [] \<longleftrightarrow> bs = [])"
    if "list_all2 (\<lambda>h c. fs h = Some c \<and> c \<noteq> []) (cr_hashes q) ds" "bs = drop (cr_position q) (cr_buffer q) @ concat ds"
      "drop (cr_position q) (cr_buffer q) = [] \<longrightarrow> bs = []" for q ds
  proof -
    let ?x = "drop (cr_position q) (cr_buffer q)"
    let ?r = "q\<lparr>cr_position := cr_position q + length (take n ?x)\<rparr>"
    have "drop (cr_position q + length (take n ?x)) (cr_buffer q) = drop n ?x"
      by (cases "n \<le> length ?x") (auto simp: add.commute min_def)
    then have "reader_rest fs ?r (drop n ?x @ concat ds)"
      using that(1) by (auto simp: reader_rest_def)
    moreover have "bs = take n ?x @ drop n ?x @ concat ds"
      using that(2) by (simp only: append_assoc [symmetric] append_take_drop_id)
    moreover have "take n ?x = [] \<longleftrightarrow> bs = []" using that(2,3) assms(2) by auto
    ultimately show ?thesis by (auto simp: Let_def)
  qed
  show ?thesis
  proof (cases "length (cr_buffer r) \<le> cr_position r")
    case True
    show ?thesis
    proof (cases "cr_hashes r")
      case Nil
      then have "next_chunk fs r = Inr r" "cs = []" using cs(1) by (simp_all add: next_chunk_def)
      then show ?thesis using step [OF cs] True cs(2) by (simp add: chunked_read_def)
    next
      case (Cons h hs)
      then obtain c cs' where c: "cs = c # cs'" "fs h = Some c" "c \<noteq> []" "list_all2 (\<lambda>h c. fs h = Some c \<and> c \<noteq> []) hs cs'"
        using cs(1) by (auto simp: list_all2_Cons1)
      let ?q = "\<lparr>cr_hashes = hs, cr_buffer = c, cr_position = 0\<rparr>"
      have "next_chunk fs r = Inr ?q" using Cons c(2) by (simp add: next_chunk_def load_data_def)
      then show ?thesis using step [of ?q cs'] True c cs(2) by (simp add: chunked_read_def)
    qed
  next
    case False
    then show ?thesis using step [OF cs] by (simp add: chunked_read_def)
  qed
qed

lemma read_exact_rest:
  assumes "reader_rest fs r bs"
  shows "if length bs < n then read_exact fs n r = None
    else \<exists>r'. read_exact fs n r = Some (Inr (take n bs, r')) \<and> reader_rest fs r' (drop n bs)"
  using assms
proof (induction n arbitrary: r bs rule: less_induct)
  case (less n)
  show ?case
  proof (cases "n = 0")
    case True
    then show ?thesis using less.prems by (simp add: read_exact.simps)
  next
    case False
    then obtain out r' rest where o: "chunked_read fs n r = Inr (out, r')" "reader_rest fs r' rest" "bs = out @ rest"
      "length out \<le> n" "out = [] \<longleftrightarrow> bs = []" using chunked_read_rest [OF less.prems, of n] by blast
    show ?thesis
    proof (cases "out = []")
      case True
      then have "read_exact fs n r = None" using o(1) False by (subst read_exact.simps) simp
      then show ?thesis using o(5) True False by simp
    next
      case out: False
      then have "n - length out < n" using False by simp
      note IH = less.IH [OF this o(2)]
      have step: "read_exact fs n r = map_option (map_sum id (\<lambda>(bs, r). (out @ bs, r))) (read_exact fs (n - length out) r')"
        using o(1) out False by (subst read_exact.simps) simp
      have len: "length bs < n \<longleftrightarrow> length rest < n - length out" using o(3,4) by auto
      show ?thesis
      proof (cases "length bs < n")
        case True
        then show ?thesis using IH len step by simp
      next
        case False
        with IH len obtain r2 where r2: "read_exact fs (n - length out) r' = Some (Inr (take (n - length out) rest, r2))"
          "reader_rest fs r2 (drop (n - length out) rest)" by auto
        moreover have "take n bs = out @ take (n - length out) rest" "drop n bs = drop (n - length out) rest"
          using o(3,4) by simp_all
        ultimately show ?thesis using False step by simp
      qed
    qed
  qed
qed

lemma deserialise_from_rest:
  "reader_rest fs r bs \<Longrightarrow>
     deserialise_from fs dc r = (case decode_bytes dc bs of Some v \<Rightarrow> Inr v | None \<Rightarrow> Inl CommitSerializationError)"
proof (induction dc arbitrary: r bs)
  case (Request n k)
  show ?case
  proof (cases "length bs < n")
    case True
    then show ?thesis using read_exact_rest [OF Request.prems, of n] by simp
  next
    case False
    then obtain r' where "read_exact fs n r = Some (Inr (take n bs, r'))" "reader_rest fs r' (drop n bs)"
      using read_exact_rest [OF Request.prems, of n] by auto
    then show ?thesis using Request.IH [of "k (take n bs)"] False by simp
  qed
qed simp_all

lemma chunks_nonempty: "c \<in> set (leaf_chunks n bs) \<Longrightarrow> c \<noteq> []"
proof (induction n bs rule: leaf_chunks.induct)
  case (1 n bs)
  then show ?case by (cases "n = 0 \<or> bs = []") (auto simp: leaf_chunks.simps [of n bs])
qed

text \<open>
  C13: A value that is written in pieces and committed to a reliable disk is read back: the checkout through the chunked
  reader gives what the decoder makes of all the bytes that were written, however they are cut on either side; and
  whatever could be checked out before can still be.
\<close>

theorem commit_checkout_serialised:
  assumes "reliable fault digest D d"
    and "enc (map digest (leaf_chunks CHUNK_SIZE (concat (serialise_into v)))) = Some raw"
    and "dec raw = Some (map digest (leaf_chunks CHUNK_SIZE (concat (serialise_into v))))"
    and "set (leaf_chunks CHUNK_SIZE (concat (serialise_into v))) \<subseteq> D" and "raw \<in> D"
    and "decode_bytes decoder (concat (serialise_into v)) = Some v"
  shows "\<exists>d'. commit_serialised fault digest enc serialise_into v d = (Inr (digest raw), d') \<and>
    checkout_serialised dec decoder (files d') (digest raw) = Inr v \<and> reliable fault digest D d' \<and>
    (\<forall>h bs. repo_checkout dec (files d) h = Inr bs \<longrightarrow> repo_checkout dec (files d') h = Inr bs)"
proof -
  let ?bs = "concat (serialise_into v)"
  let ?cs = "leaf_chunks CHUNK_SIZE ?bs"
  from repo_commit_ok [where fault = fault and enc = enc, OF assms(1,2,4,5)] obtain d' where
    c: "repo_commit fault digest enc ?bs d = (Inr (digest raw), d')" "reliable fault digest D d'" "files d \<subseteq>\<^sub>m files d'"
    "files d' (digest raw) = Some raw" "\<forall>c\<in>set ?cs. files d' (digest c) = Some c" by blast
  have "storage_outcome (commit_serialised fault digest enc serialise_into v d) = (Some (digest raw), d')"
    using serialised_outcome [of fault digest enc serialise_into v d] c(1) by (simp add: storage_outcome_def)
  then have "commit_serialised fault digest enc serialise_into v d = (Inr (digest raw), d')"
    by (cases "commit_serialised fault digest enc serialise_into v d") (auto simp: storage_outcome_def split: sum.splits)
  moreover let ?r = "\<lparr>cr_hashes = map digest ?cs, cr_buffer = [], cr_position = 0\<rparr>"
  have "reader_rest (files d') ?r ?bs"
    unfolding reader_rest_def using c(5) CHUNK_SIZE_pos
    by (intro exI [of _ ?cs]) (auto simp: list_all2_map1 concat_chunks intro!: list.rel_refl_strong dest: chunks_nonempty)
  then have "checkout_serialised dec decoder (files d') (digest raw) = Inr v"
    using c(4) assms(3,6) deserialise_from_rest [of "files d'" ?r ?bs decoder]
    by (simp add: checkout_serialised_def chunked_reader_new_def load_data_def)
  ultimately show ?thesis using c(2) checkout_mono [OF c(3)] by blast
qed

theorem commit_checkout_serialised_witness:
  "\<exists>d'. commit_serialised (\<lambda>_. None) demo_digest demo_enc (\<lambda>v. [take 2 v, drop 2 v]) [1, 2, 3] \<lparr>files = Map.empty, writes = 0\<rparr> =
       (Inr (demo_digest demo_commit), d') \<and>
     checkout_serialised demo_dec (Request 3 Decoded) (files d') (demo_digest demo_commit) = Inr [1, 2, 3]"
proof -
  let ?d = "\<lparr>files = Map.empty, writes = 0\<rparr>" and ?D = "{[1, 2, 3], demo_commit}" and ?s = "\<lambda>v :: bytes. [take 2 v, drop 2 v]"
  have "reliable (\<lambda>_. None) demo_digest ?D ?d" using demo_digest_ok by (auto simp: reliable_def)
  moreover have "concat (?s [1, 2, 3]) = [1, 2, 3]" by simp
  ultimately show ?thesis
    using commit_checkout_serialised [of "\<lambda>_. None" demo_digest ?D ?d demo_enc ?s "[1, 2, 3]" demo_commit demo_dec "Request 3 Decoded"]
    by (simp add: demo_chunks CHUNK_SIZE_def demo_enc_def demo_dec_def) blast
qed

section \<open>Snapshots\<close>

lemma copy_chunks_ok:
  assumes "load_chunks fs hs = Inr bs" and "target \<subseteq>\<^sub>m fs"
  shows "\<exists>target'. copy_chunks fs hs target = Inr target' \<and> target \<subseteq>\<^sub>m target' \<and> target' \<subseteq>\<^sub>m fs \<and>
    dom target' = dom target \<union> set hs \<and> load_chunks target' hs = Inr bs"
  using assms
proof (induction hs arbitrary: bs target)
  case (Cons h hs)
  obtain c where c: "fs h = Some c" using Cons.prems(1) by (cases "fs h") (auto simp: load_data_def)
  then obtain bs' where bs': "load_chunks fs hs = Inr bs'" "bs = c @ bs'"
    using Cons.prems(1) by (cases "load_chunks fs hs") (auto simp: load_data_def)
  have le: "target(h \<mapsto> c) \<subseteq>\<^sub>m fs" "target \<subseteq>\<^sub>m target(h \<mapsto> c)"
    using Cons.prems(2) c by (auto simp: map_le_def dom_def)
  from Cons.IH [OF bs'(1) le(1)] obtain t where t: "copy_chunks fs hs (target(h \<mapsto> c)) = Inr t" "target(h \<mapsto> c) \<subseteq>\<^sub>m t"
    "t \<subseteq>\<^sub>m fs" "dom t = dom (target(h \<mapsto> c)) \<union> set hs" "load_chunks t hs = Inr bs'" by blast
  have "t h = Some c" using t(2) by (auto simp: map_le_def dom_def)
  with t bs' c show ?case using map_le_trans [OF le(2) t(2)] by (auto simp: copy_data_def load_data_def)
qed simp

text \<open>
  A snapshot of a commit that can be checked out is made in every new or empty directory; the commit can be checked out
  from it with the same bytes, and it holds the files of this commit alone.
\<close>

theorem snapshot_checkout:
  assumes "repo_checkout dec fs h = Inr bs" and "path = Absent \<or> path = Directory Map.empty"
  shows "\<exists>raw hs target. fs h = Some raw \<and> dec raw = Some hs \<and> export_snapshot dec fs h path = Inr target \<and>
    repo_checkout dec target h = Inr bs \<and> dom target = insert h (set hs) \<and> target \<subseteq>\<^sub>m fs"
proof -
  from assms(1) obtain raw hs where raw: "fs h = Some raw" "dec raw = Some hs" "load_chunks fs hs = Inr bs"
    by (auto simp: repo_checkout_def load_data_def split: option.splits)
  from copy_chunks_ok [OF raw(3), of Map.empty] obtain t where t: "copy_chunks fs hs Map.empty = Inr t"
    "t \<subseteq>\<^sub>m fs" "dom t = set hs" "load_chunks t hs = Inr bs" by auto
  let ?t = "t(h \<mapsto> raw)"
  have "export_snapshot dec fs h path = Inr ?t"
    using assms(2) raw t(1) by (auto simp: export_snapshot_def load_data_def copy_data_def)
  moreover have "t \<subseteq>\<^sub>m ?t" "?t \<subseteq>\<^sub>m fs" using t(2) raw(1) by (auto simp: map_le_def dom_def)
  moreover from this(1) have "load_chunks ?t hs = Inr bs" using load_chunks_mono t(4) by blast
  ultimately show ?thesis using raw t(3) by (auto simp: repo_checkout_def load_data_def)
qed

theorem snapshot_checkout_witness:
  "\<exists>target. export_snapshot demo_dec [demo_digest demo_commit \<mapsto> demo_commit, demo_digest [1, 2, 3] \<mapsto> [1, 2, 3]]
       (demo_digest demo_commit) Absent = Inr target \<and>
     repo_checkout demo_dec target (demo_digest demo_commit) = Inr [1, 2, 3]"
proof -
  let ?fs = "[demo_digest demo_commit \<mapsto> demo_commit, demo_digest [1, 2, 3] \<mapsto> [1, 2, 3]]"
  have "repo_checkout demo_dec ?fs (demo_digest demo_commit) = Inr [1, 2, 3]"
    using demo_digest_ok(2) by (simp add: repo_checkout_def load_data_def demo_dec_def)
  from snapshot_checkout [OF this, of Absent] show ?thesis by blast
qed

section \<open>Interrupted writes\<close>

text \<open>
  C40: A commit of at least one byte and at most one chunk, not stored yet, in which the write of that chunk fails half-way, reports
  an error, but the file stays: the next commit of the same bytes, without another failure, reports success, and its
  identifier checks out to the part of the bytes that had been written.
\<close>

theorem interrupted_commit_corrupts:
  assumes "digest_ok digest" and bs: "bs \<noteq> []" "length bs \<le> CHUNK_SIZE"
    and raw: "enc [digest bs] = Some raw" "dec raw = Some [digest bs]" "digest raw \<noteq> digest bs"
    and new: "files d (digest bs) = None" "files d (digest raw) = None"
    and fault: "fault (writes d) = Some k" "\<forall>n > writes d. fault n = None"
  shows "\<exists>d1 h d2. repo_commit fault digest enc bs d = (Inl StorageIoError, d1) \<and>
    repo_commit fault digest enc bs d1 = (Inr h, d2) \<and> repo_checkout dec (files d2) h = Inr (take k bs)"
proof -
  have cs: "leaf_chunks CHUNK_SIZE bs = [bs]" using bs CHUNK_SIZE_pos by (simp add: chunks_Cons)
  let ?d1 = "d\<lparr>files := (files d)(digest bs \<mapsto> take k bs), writes := Suc (writes d)\<rparr>"
  let ?d2 = "?d1\<lparr>files := (files ?d1)(digest raw \<mapsto> raw), writes := Suc (writes ?d1)\<rparr>"
  have "repo_commit fault digest enc bs d = (Inl StorageIoError, ?d1)"
    using assms(1) new(1) fault(1)
    by (simp add: repo_commit_def cs storage_bind_simps store_data_def write_data_if_new_def)
  moreover have "repo_commit fault digest enc bs ?d1 = (Inr (digest raw), ?d2)"
    using assms(1) raw new(2) fault(2)
    by (simp add: repo_commit_def cs storage_bind_simps store_data_def write_data_if_new_def store_commit_def)
  moreover have "repo_checkout dec (files ?d2) (digest raw) = Inr (take k bs)"
    using raw(2,3) by (simp add: repo_checkout_def load_data_def)
  ultimately show ?thesis by blast
qed

theorem interrupted_commit_corrupts_witness:
  "\<exists>d1 h d2. repo_commit (\<lambda>n. if n = 0 then Some 2 else None) demo_digest demo_enc [1, 2, 3] \<lparr>files = Map.empty, writes = 0\<rparr> =
       (Inl StorageIoError, d1) \<and>
     repo_commit (\<lambda>n. if n = 0 then Some 2 else None) demo_digest demo_enc [1, 2, 3] d1 = (Inr h, d2) \<and>
     repo_checkout demo_dec (files d2) h = Inr [1, 2]"
  using interrupted_commit_corrupts [of demo_digest "[1, 2, 3]" demo_enc demo_commit demo_dec "\<lparr>files = Map.empty, writes = 0\<rparr>"
      "\<lambda>n. if n = 0 then Some 2 else None" 2] demo_digest_ok
  by (simp add: demo_enc_def demo_dec_def CHUNK_SIZE_def)

end
