(* ===== verification/Spec2Isabelle.thy ===== *)
theory Spec2Isabelle
  imports Memory_Governance Machine_Run Linux_Calls Pvm_Correct State_Proof Stepper_Correct Process_Correct Storage_Correct
begin

text \<open>
  \<^bold>\<open>A verification of the RISC-V proof-generating virtual machine\<close>

  The program, the library \<^verbatim>\<open>src/riscv/lib\<close>, is a virtual machine for 64-bit RISC-V code in a rollup. A kernel, an
  ELF file, is loaded into paged memory and run as a supervised Linux process. Between system calls the machine executes
  instructions, through a cache of decoded blocks; some system calls talk to the rollup node and suspend the machine
  until an input or a revealed datum arrives. One step of the machine can be turned into a Merkle proof, which a
  verifier checks without the state. States are committed to a content-addressed store. The paths below are relative to
  \<^verbatim>\<open>src/riscv/lib/src\<close>.

  \<^bold>\<open>How the sources are translated.\<close> Structures are records, enumerations are datatypes with the constructors of the
  source, functions are functions that return the changed state. \<^verbatim>\<open>u8\<close> to \<^verbatim>\<open>u128\<close> and their signed companions are
  words of that width, so arithmetic wraps as in a release build; shifts take the amount modulo the width, as the
  instructions of a release build do; \<^verbatim>\<open>usize\<close> values that only count or index are natural numbers, with saturation
  and casts written out. A \<^verbatim>\<open>Result\<close> is a sum with the error on the left, or the type \<open>fallible\<close> where panics have to be
  told apart; panics, failed assertions and undefined behaviour of \<^verbatim>\<open>unsafe\<close> code are values of the model (\<open>None\<close>,
  \<open>Stuck\<close>, \<open>Crash\<close>, \<open>Panic\<close>, \<open>UndefinedBehaviour\<close>), and the theorems say where they are reached. Loops are recursive
  functions with a termination proof; loops that need not end are partial functions into options, with theorems on
  when they return. The only fuel is that of \<open>many_deserialiser\<close>, whose recursion in the source does not end for an empty
  span: it gets the number of elements of the array, and the theorems on verified proofs show that this is enough for
  arrays with a power of four many elements.

  \<^bold>\<open>Parameters.\<close> Code of other crates is an argument: arithmetic on floats (\<open>apfloat_ops\<close>, the crate \<^verbatim>\<open>rustc_apfloat\<close>),
  encodings and signatures of the Tezos protocol (\<open>tezos_env\<close>), BLAKE2b (\<open>digest\<close>, of which only the length of the
  result is assumed, and freedom from collisions on named inputs where a theorem says so), bincode (\<open>enc\<close>, \<open>dec\<close>, a
  sequence of writes, or a decoder that asks for bytes), the ELF parser (\<open>elf_env\<close>), the device tree, the inbox and the
  directory of preimages (\<open>stepper_env\<close>), and failures of disk writes (\<open>fault\<close>). The witnesses instantiate them.

  \<^bold>\<open>Foundations.\<close> \<^theory_text>\<open>Prelude\<close> has the machine integers, the operations of the standard library that the sources use and the
  lemmas shared by all; \<^theory_text>\<open>Bits\<close> is \<^verbatim>\<open>bits.rs\<close>.

  \<^bold>\<open>Memory\<close>, \<^verbatim>\<open>machine_state/memory\<close>. \<^theory_text>\<open>Page_Spec\<close> is the abstract page allocator, a list of occupied pages, as the
  locale \<open>page_allocator\<close>. \<^theory_text>\<open>Buddy\<close> models the Buddy manager (\<^verbatim>\<open>buddy/\<close>) and \<^theory_text>\<open>Buddy_Refine\<close> shows that it is a
  first-fit allocator. \<^theory_text>\<open>Page_Permissions\<close> is \<^verbatim>\<open>protection.rs\<close>; \<^theory_text>\<open>Memory\<close> is \<^verbatim>\<open>state.rs\<close>: reads, writes,
  protection and allocation. \<^theory_text>\<open>Memory_Correct\<close> decides every access by bounds and permissions and packs the facts into
  the locale \<open>word_memory\<close>, interpreted for the four widths; \<^theory_text>\<open>Memory_Governance\<close> has allocation of page ranges.

  \<^bold>\<open>Registers.\<close> \<^theory_text>\<open>Registers\<close> is \<^verbatim>\<open>registers.rs\<close>, with the locale \<open>register_file\<close> for the integer and float registers;
  \<^theory_text>\<open>CSRegisters\<close> is \<^verbatim>\<open>csregisters.rs\<close> with its fields and privileges.

  \<^bold>\<open>Instructions.\<close> \<^theory_text>\<open>Instr\<close> has the parsed instructions, \<^theory_text>\<open>Parser\<close> the decoder (\<^verbatim>\<open>parser.rs\<close>); \<^theory_text>\<open>Parser_Correct\<close> shows that
  it inverts the encoders of the manual. \<^theory_text>\<open>Machine_Core\<close> is the hart and the instruction context, \<^theory_text>\<open>Interpreter\<close> the
  bodies of the instructions (\<^verbatim>\<open>interpreter/\<close>), \<^theory_text>\<open>Instruction\<close> the executable form with its dispatch and \<^theory_text>\<open>Constructors\<close>
  the translation into it (\<^verbatim>\<open>instruction.rs\<close>, \<^verbatim>\<open>constructors.rs\<close>). \<^theory_text>\<open>ISA\<close> is the reference semantics.
  \<^theory_text>\<open>Instruction_Correct\<close> and \<^theory_text>\<open>Atomics_Correct\<close> show that decoded instructions have the reference semantics, but for \<^verbatim>\<open>MULW\<close>
  into \<^verbatim>\<open>x0\<close>, for atomics whose store is refused and for the causes of two faults of atomics, and that
  execution is safe; \<^theory_text>\<open>Instruction_Effects\<close> what any instruction may change.

  \<^bold>\<open>Machine.\<close> \<^theory_text>\<open>Block_Cache\<close> is \<^verbatim>\<open>machine_state/block_cache\<close>; \<^theory_text>\<open>Block_Cache_Correct\<close> shows that it only returns blocks
  made of what was pushed, as the locale \<open>code_cache\<close>. \<^theory_text>\<open>Machine_State\<close> is \<^verbatim>\<open>machine_state.rs\<close>: fetching, running
  blocks, bounded runs with and without a handler. \<^theory_text>\<open>Machine_Refine\<close>, \<^theory_text>\<open>Machine_Steps\<close> and \<^theory_text>\<open>Machine_Run\<close> show that
  the machine with the cache is the machine that fetches and decodes every instruction, that results do not depend
  on how a run is split, and that bounded runs return.

  \<^bold>\<open>Supervisor and host.\<close> \<^theory_text>\<open>Linux_Params\<close>, \<^theory_text>\<open>Linux_Random\<close> and \<^theory_text>\<open>Linux\<close> model \<^verbatim>\<open>pvm/linux.rs\<close> and \<^verbatim>\<open>pvm/linux/\<close>, one
  definition for each system call and the dispatcher; \<^theory_text>\<open>Linux_Correct\<close> (locale \<open>call_effect\<close>) and \<^theory_text>\<open>Linux_Calls\<close> show what
  calls change, when they crash and what the memory calls do. \<^theory_text>\<open>Tezos\<close> has the host functions of \<^verbatim>\<open>pvm/tezos.rs\<close>.

  \<^bold>\<open>Virtual machine.\<close> \<^theory_text>\<open>Pvm\<close> is \<^verbatim>\<open>pvm/common.rs\<close> with \<^verbatim>\<open>node_pvm.rs\<close>. \<^theory_text>\<open>Pvm_Eval\<close>, \<^theory_text>\<open>Pvm_Refine\<close> and
  \<^theory_text>\<open>Pvm_Correct\<close> show that evaluation in bulk is single-step evaluation, with or without the cache, and that inputs and
  reveal requests arrive, cut to the sizes the interface allows. \<^theory_text>\<open>Stepper\<close> is \<^verbatim>\<open>stepper.rs\<close> and \<^verbatim>\<open>stepper/pvm.rs\<close> with \<^verbatim>\<open>reveals.rs\<close>;
  \<^theory_text>\<open>Stepper_Correct\<close> relates its bounded runs to single steps and says what a single step delivers.

  \<^bold>\<open>Loading a kernel.\<close> \<^theory_text>\<open>Program_Segments\<close> models \<^verbatim>\<open>program.rs\<close> and shows exactly which bytes a write to the segments
  leaves. \<^theory_text>\<open>Kernel_Loader\<close> is \<^verbatim>\<open>kernel_loader.rs\<close>; \<^theory_text>\<open>Kernel_Loader_Correct\<close> states the trait \<^verbatim>\<open>Memory\<close> as the locale
  \<open>loader_memory\<close> and shows that the image of a file is loaded. \<^theory_text>\<open>Process_Setup\<close> is the set-up of a process in
  \<^verbatim>\<open>pvm/linux.rs\<close>, \<^verbatim>\<open>NodePvm::install_boot_sector\<close> and \<^verbatim>\<open>MachineState::setup_boot\<close>; \<^theory_text>\<open>Process_Stack\<close> and
  \<^theory_text>\<open>Process_Correct\<close> show the memory layout, the permissions, the heap and the stack that a process starts with.

  \<^bold>\<open>Merkle trees and proofs.\<close> \<^theory_text>\<open>Proof_Tree\<close> (\<^verbatim>\<open>tree.rs\<close>) has the traversal with explicit stacks, \<^theory_text>\<open>Merkle\<close> the hashes,
  writers, trees and their compression (\<^verbatim>\<open>hash.rs\<close>, \<^verbatim>\<open>merkle.rs\<close>), \<^theory_text>\<open>Merkle_Proof\<close> proofs and their encoding
  (\<^verbatim>\<open>proof.rs\<close>); \<^theory_text>\<open>Merkle_Correct\<close> (locale \<open>buffered_writer\<close>) and \<^theory_text>\<open>Merkle_Proof_Correct\<close> have their properties.

  \<^bold>\<open>State backend.\<close> \<^theory_text>\<open>State_Backend\<close> has the owned, proof-generating and verifying managers, \<^theory_text>\<open>State_Layout\<close> the layouts
  with their hashes, Merkle trees, and the reading of a proof into a partial state (\<^verbatim>\<open>commitment_layout.rs\<close>,
  \<^verbatim>\<open>proof_layout.rs\<close>, \<^verbatim>\<open>deserialise_owned.rs\<close>, \<^verbatim>\<open>verify_backend.rs\<close>). A step is any program of reads and writes that is
  generic in the manager. \<^theory_text>\<open>State_Runs\<close> relates runs on different managers by the locales \<open>agreement\<close> and
  \<open>simulation\<close>; \<^theory_text>\<open>State_Commitment\<close>, \<^theory_text>\<open>State_Hashing\<close> (locale \<open>span_hashing\<close>), \<^theory_text>\<open>State_Views\<close>, \<^theory_text>\<open>State_Verifier\<close> and
  \<^theory_text>\<open>State_Complete\<close> relate states, proofs and partial states. \<^theory_text>\<open>State_Proof\<close> models production and verification of
  proofs and shows that produced proofs verify and that what verifies is right, unless hashes collide or the step panics
  on the owned backend. The layouts of
  these theorems have regions with a number of leaves that is a power of four, where the two sides of the program agree
  on the shape of the tree; a further theorem shows what happens for two leaves.

  \<^bold>\<open>Storage.\<close> \<^theory_text>\<open>Storage\<close> is \<^verbatim>\<open>storage.rs\<close> with \<^verbatim>\<open>chunked_io.rs\<close>, \<^theory_text>\<open>Storage_Correct\<close> the round trips of commits and
  snapshots and the effect of an interrupted write.

  \<^bold>\<open>Not modelled.\<close> The just-in-time compiler (\<^verbatim>\<open>jit/\<close>), whose result is machine code made by Cranelift; arithmetic on
  floats, which is done by another crate, beyond the moves, conversions of bits and flag registers around it; the variant
  of the proof reader that works on a stream (\<^verbatim>\<open>deserialise_stream.rs\<close>); derived code such as formatting and
  serialisation of structures field by field; file system errors other than missing files and failing writes; the
  device tree; benchmarks, logging, the command line, example kernels and the OCaml bindings. Threads do not occur: the
  virtual machine has one hart.
\<close>

end
